(* ===== verification/Prelude.thy ===== *)
theory Prelude
  imports Main "HOL-Library.Word"
begin

text \<open>
  Shared vocabulary of the development.

  \<^item> The machine integers of the C++ code (\<open>uint8_t\<close>, \<open>uint16_t\<close>, \<open>uint32_t\<close>,
    \<open>uint64_t\<close>) are words of that width; \<open>simtime_t\<close> is an integer number of clock
    ticks of the simulator (its resolution is one picosecond).
  \<^item> A call that may throw returns \<open>err + 'a\<close>: \<open>Inl\<close> for a failed \<open>ASSERT\<close>, the use of a
    null pointer or a \<open>cRuntimeError\<close>, \<open>Inr\<close> for a value. \<open>OutOfFuel\<close> is no error of the program: a loop
    that may not end gets a bound as an argument and returns it when the bound is reached. \<open>ebind\<close> sequences two such calls, as the C++
    statement sequence does.
  \<^item> The \<open>named_theorems\<close> collections gather what the component proofs share.
\<close>

unbundle bit_operations_syntax

type_synonym u8 = "8 word"
type_synonym u16 = "16 word"
type_synonym u32 = "32 word"
type_synonym u64 = "64 word"
type_synonym simtime = int

datatype err = AssertFailed | NullPointer | RuntimeError string | OutOfFuel

definition sim_sec :: simtime where
  "sim_sec = 1000000000000"

definition ebind :: "err + 'a \<Rightarrow> ('a \<Rightarrow> err + 'b) \<Rightarrow> err + 'b" where
  "ebind r f = (case r of Inl e \<Rightarrow> Inl e | Inr x \<Rightarrow> f x)"

definition assert_that :: "bool \<Rightarrow> err + unit" where
  "assert_that b = (if b then Inr () else Inl AssertFailed)"

fun is_ok :: "err + 'a \<Rightarrow> bool" where
  "is_ok (Inr _) = True"
| "is_ok (Inl _) = False"

text \<open>A loop \<open>for (x : xs)\<close> whose body may throw, threading a state.\<close>

fun efold :: "('a \<Rightarrow> 's \<Rightarrow> err + 's) \<Rightarrow> 'a list \<Rightarrow> 's \<Rightarrow> err + 's" where
  "efold f [] s = Inr s"
| "efold f (x # xs) s = ebind (f x s) (efold f xs)"

named_theorems wf_intro \<open>introduction rules of the well-formedness invariants\<close>
named_theorems frame_simps \<open>equations for the state a step leaves alone\<close>
named_theorems abs_simps \<open>equations that push an abstraction function through an operation\<close>

section \<open>The result type\<close>

lemma ebind_simps [simp]:
  "ebind (Inr x) f = f x"
  "ebind (Inl e) f = Inl e"
  by (simp_all add: ebind_def)

lemma ebind_Inr_iff: "ebind r f = Inr y \<longleftrightarrow> (\<exists>x. r = Inr x \<and> f x = Inr y)"
  by (cases r) auto

lemma ebind_InrE:
  assumes "ebind r f = Inr y"
  obtains x where "r = Inr x" and "f x = Inr y"
  using assms by (auto simp: ebind_Inr_iff)

lemma ebind_assert [simp]: "b \<Longrightarrow> ebind (assert_that b) f = f ()"
  by (simp add: assert_that_def)

lemma ebind_assert_Inr: "ebind (assert_that b) f = Inr y \<longleftrightarrow> b \<and> f () = Inr y"
  by (simp add: assert_that_def)

lemma assert_that_Inr [simp]: "assert_that b = Inr u \<longleftrightarrow> b"
  by (simp add: assert_that_def)

lemma is_ok_iff: "is_ok r \<longleftrightarrow> (\<exists>x. r = Inr x)"
  by (cases r) auto

lemma efold_append: "efold f (xs @ ys) s = ebind (efold f xs s) (efold f ys)"
proof (induction xs arbitrary: s)
  case Nil
  then show ?case by simp
next
  case (Cons x xs)
  then show ?case by (cases "f x s") simp_all
qed

text \<open>A loop whose body keeps an invariant and never throws under it.\<close>

lemma efold_invariant:
  assumes "I s"
    and step: "\<And>x s. x \<in> set xs \<Longrightarrow> I s \<Longrightarrow> \<exists>s'. f x s = Inr s' \<and> I s'"
  shows "\<exists>s'. efold f xs s = Inr s' \<and> I s'"
  using assms
proof (induction xs arbitrary: s)
  case Nil
  then show ?case by simp
next
  case (Cons x xs)
  obtain s1 where s1: "f x s = Inr s1" "I s1"
    using Cons.prems(1) Cons.prems(2) [of x s] by auto
  show ?case
    using Cons.IH [OF s1(2)] Cons.prems(2) s1(1) by simp
qed

text \<open>
  What holds of the result of a program that goes through no null pointer; \<open>AssertFailed\<close> and
  \<open>RuntimeError\<close> are allowed. The equations compute it backwards along the sequencing, as a weakest
  precondition.
\<close>

definition safe :: "('a \<Rightarrow> bool) \<Rightarrow> err + 'a \<Rightarrow> bool" where
  "safe P r = (case r of Inl e \<Rightarrow> e \<noteq> NullPointer | Inr x \<Rightarrow> P x)"

abbreviation no_null :: "err + 'a \<Rightarrow> bool" where
  "no_null r \<equiv> safe (\<lambda>_. True) r"

lemma safe_simps [simp]:
  "safe P (Inl e) \<longleftrightarrow> e \<noteq> NullPointer" "safe P (Inr x) \<longleftrightarrow> P x"
  "safe P (ebind r f) \<longleftrightarrow> safe (\<lambda>x. safe P (f x)) r"
  "safe Q (assert_that b) \<longleftrightarrow> (b \<longrightarrow> Q ())"
  by (auto simp: safe_def ebind_def assert_that_def split: sum.split)

lemma safe_mono: "safe Q r \<Longrightarrow> (\<And>x. r = Inr x \<Longrightarrow> Q x \<Longrightarrow> P x) \<Longrightarrow> safe P r"
  by (auto simp: safe_def split: sum.splits)

lemma safeD: "safe P r \<Longrightarrow> r = Inr x \<Longrightarrow> P x"
  by simp

lemma safe_not_null: "safe P r \<Longrightarrow> r \<noteq> Inl NullPointer"
  by auto

lemma safe_if: "safe P (if b then r else r') \<longleftrightarrow> (b \<longrightarrow> safe P r) \<and> (\<not> b \<longrightarrow> safe P r')"
  by simp

lemma safe_efold:
  assumes "\<And>x s. x \<in> set xs \<Longrightarrow> I s \<Longrightarrow> safe I (f x s)" and "I s"
  shows "safe I (efold f xs s)"
  using assms
proof (induction xs arbitrary: s)
  case Nil
  then show ?case by simp
next
  case (Cons x xs)
  have "safe I (f x s)" using Cons.prems by simp
  then show ?case using Cons.IH Cons.prems(1) by (auto intro: safe_mono)
qed

text \<open>What holds of a result if there is one, computed the same way; any failure is allowed.\<close>

definition yields :: "('a \<Rightarrow> bool) \<Rightarrow> err + 'a \<Rightarrow> bool" where
  "yields P r = (case r of Inl _ \<Rightarrow> True | Inr x \<Rightarrow> P x)"

lemma yields_simps [simp]:
  "yields P (Inl e)" "yields P (Inr x) \<longleftrightarrow> P x"
  "yields P (ebind r f) \<longleftrightarrow> yields (\<lambda>x. yields P (f x)) r"
  "yields Q (assert_that b) \<longleftrightarrow> (b \<longrightarrow> Q ())"
  by (auto simp: yields_def ebind_def assert_that_def split: sum.split)

lemma yieldsD: "yields P r \<Longrightarrow> r = Inr x \<Longrightarrow> P x"
  by simp

lemma yields_iff: "yields P r \<longleftrightarrow> (\<forall>x. r = Inr x \<longrightarrow> P x)"
  by (auto simp: yields_def split: sum.split)

lemma yields_mono: "yields Q r \<Longrightarrow> (\<And>x. r = Inr x \<Longrightarrow> Q x \<Longrightarrow> P x) \<Longrightarrow> yields P r"
  by (auto simp: yields_def split: sum.splits)

lemma yields_seq: "(\<And>x. yields P (f x)) \<Longrightarrow> yields P (ebind r f)"
  by (cases r) simp_all

lemma yields_if: "yields P r \<Longrightarrow> yields P r' \<Longrightarrow> yields P (if b then r else r')"
  by simp

lemma yields_option:
  "yields P r \<Longrightarrow> (\<And>x. yields P (f x)) \<Longrightarrow> yields P (case o' of None \<Rightarrow> r | Some x \<Rightarrow> f x)"
  by (cases o') simp_all

lemmas yields_rules = yields_seq yields_if yields_option

lemma yields_efold:
  assumes "\<And>x s. x \<in> set xs \<Longrightarrow> I s \<Longrightarrow> yields I (f x s)" and "I s"
  shows "yields I (efold f xs s)"
  using assms
proof (induction xs arbitrary: s)
  case Nil
  then show ?case by simp
next
  case (Cons x xs)
  have "yields I (f x s)" using Cons.prems by simp
  then show ?case using Cons.IH Cons.prems(1) by (auto intro: yields_mono)
qed

text \<open>What holds of the result of a program that fails only where the code throws: no failed assertion, no null pointer.\<close>

definition sound :: "('a \<Rightarrow> bool) \<Rightarrow> err + 'a \<Rightarrow> bool" where
  "sound P r = (case r of Inl e \<Rightarrow> (\<exists>m. e = RuntimeError m) | Inr x \<Rightarrow> P x)"

lemma sound_simps [simp]:
  "sound P (Inl e) \<longleftrightarrow> (\<exists>m. e = RuntimeError m)" "sound P (Inr x) \<longleftrightarrow> P x"
  "sound P (ebind r f) \<longleftrightarrow> sound (\<lambda>x. sound P (f x)) r"
  by (auto simp: sound_def ebind_def split: sum.split)

lemma soundD: "sound P r \<Longrightarrow> r = Inr x \<Longrightarrow> P x"
  by simp

lemma sound_mono: "sound Q r \<Longrightarrow> (\<And>x. r = Inr x \<Longrightarrow> Q x \<Longrightarrow> P x) \<Longrightarrow> sound P r"
  by (auto simp: sound_def split: sum.splits)

lemma sound_bind: "sound Q r \<Longrightarrow> (\<And>x. r = Inr x \<Longrightarrow> Q x \<Longrightarrow> sound P (f x)) \<Longrightarrow> sound P (ebind r f)"
  by (cases r) auto

lemma sound_yields: "sound Q r \<Longrightarrow> yields P r \<Longrightarrow> sound (\<lambda>x. Q x \<and> P x) r"
  by (cases r) auto

lemma sound_imp_yields: "sound P r \<Longrightarrow> yields P r"
  by (cases r) auto

section \<open>Lists\<close>

lemma takeWhile_dropWhile_nth:
  "dropWhile P xs = y # ys \<Longrightarrow> xs = takeWhile P xs @ y # ys \<and> \<not> P y"
  by (metis hd_dropWhile list.distinct(1) list.sel(1) takeWhile_dropWhile_id)

lemma replicate_numeral_unfold:
  "replicate (numeral k) x = x # replicate (pred_numeral k) x"
  by (simp add: numeral_eq_Suc)

lemma sum_list_replicate_le: "(\<And>x. x \<in> set xs \<Longrightarrow> f x \<le> g x) \<Longrightarrow>
    sum_list (map f xs) \<le> (sum_list (map g xs) :: nat)"
  by (rule sum_list_mono)

lemma find_append:
  "find P (xs @ ys) = (case find P xs of None \<Rightarrow> find P ys | Some x \<Rightarrow> Some x)"
  by (induction xs) auto

lemma drop_takeWhile_nth: "x \<in> set (takeWhile P xs) \<Longrightarrow> P x \<and> x \<in> set xs"
  by (induction xs) (auto split: if_splits)

end
