(* ===== verification/MacAddr.thy ===== *)
theory MacAddr
  imports Prelude
begin

text \<open>
  IEEE 802 MAC addresses, \<open>inet/linklayer/common/MacAddress.cc\<close> and \<open>.h\<close>: 48 bits in the
  low six bytes of a \<open>uint64_t\<close>. The theory models byte access, the classification
  predicates, the total order, printing (\<open>str\<close>) and parsing (\<open>tryParse\<close>), and proves the
  byte access laws and that printing and parsing are inverse.
\<close>

section \<open>Definitions\<close>

datatype MacAddress = MacAddress (address: u64)

abbreviation MAC_ADDRESS_SIZE :: nat where "MAC_ADDRESS_SIZE \<equiv> 6"

definition MAC_ADDRESS_MASK :: u64 where
  "MAC_ADDRESS_MASK = 0xffffffffffff"

definition mac_of_bits :: "u64 \<Rightarrow> MacAddress" where
  "mac_of_bits bits = MacAddress (bits AND MAC_ADDRESS_MASK)"

definition BROADCAST_ADDRESS :: MacAddress where
  "BROADCAST_ADDRESS = MacAddress 0xffffffffffff"

definition STP_MULTICAST_ADDRESS :: MacAddress where
  "STP_MULTICAST_ADDRESS = MacAddress 0x0180C2000000"

definition byte_offset :: "nat \<Rightarrow> nat" where
  "byte_offset k = (MAC_ADDRESS_SIZE - k - 1) * 8"

definition getAddressByte :: "MacAddress \<Rightarrow> nat \<Rightarrow> err + u8" where
  "getAddressByte a k =
     (if k \<ge> MAC_ADDRESS_SIZE then Inl (RuntimeError ''Array of size 6 indexed'')
      else Inr (ucast (0xff AND drop_bit (byte_offset k) (address a))))"

definition setAddressByte :: "MacAddress \<Rightarrow> nat \<Rightarrow> u8 \<Rightarrow> err + MacAddress" where
  "setAddressByte a k addrbyte =
     (if k \<ge> MAC_ADDRESS_SIZE then Inl (RuntimeError ''Array of size 6 indexed'')
      else Inr (MacAddress ((address a AND NOT (push_bit (byte_offset k) 0xff)) OR
                            push_bit (byte_offset k) (ucast addrbyte))))"

definition isBroadcast :: "MacAddress \<Rightarrow> bool" where
  "isBroadcast a = (address a = MAC_ADDRESS_MASK)"

definition isMulticast :: "MacAddress \<Rightarrow> bool" where
  "isMulticast a = (case getAddressByte a 0 of Inl _ \<Rightarrow> False | Inr b \<Rightarrow> b AND 0x01 \<noteq> 0)"

definition isLocal :: "MacAddress \<Rightarrow> bool" where
  "isLocal a = (case getAddressByte a 0 of Inl _ \<Rightarrow> False | Inr b \<Rightarrow> b AND 0x02 \<noteq> 0)"

definition isUnspecified :: "MacAddress \<Rightarrow> bool" where
  "isUnspecified a = (address a = 0)"

definition compareTo :: "MacAddress \<Rightarrow> MacAddress \<Rightarrow> int" where
  "compareTo a other =
     (if address a < address other then -1 else if address a = address other then 0 else 1)"

text \<open>\<open>operator<\<close>, the order of the library's classes.\<close>

definition operator_less :: "MacAddress \<Rightarrow> MacAddress \<Rightarrow> bool" where
  "operator_less a other = (address a < address other)"

instantiation MacAddress :: linorder
begin

definition less_eq_MacAddress :: "MacAddress \<Rightarrow> MacAddress \<Rightarrow> bool" where
  "less_eq_MacAddress a b = (address a \<le> address b)"

definition less_MacAddress :: "MacAddress \<Rightarrow> MacAddress \<Rightarrow> bool" where
  "less_MacAddress a b = operator_less a b"

instance
  by standard
    (auto simp: less_eq_MacAddress_def less_MacAddress_def operator_less_def MacAddress.expand)

end

fun getAddressBytes :: "MacAddress \<Rightarrow> nat list \<Rightarrow> err + u8 list" where
  "getAddressBytes a [] = Inr []"
| "getAddressBytes a (i # is) =
     ebind (getAddressByte a i) (\<lambda>b. ebind (getAddressBytes a is) (\<lambda>bs. Inr (b # bs)))"

fun setAddressBytes_from :: "nat \<Rightarrow> u8 list \<Rightarrow> MacAddress \<Rightarrow> err + MacAddress" where
  "setAddressBytes_from i [] a = Inr a"
| "setAddressBytes_from i (b # bs) a =
     ebind (setAddressByte a i b) (setAddressBytes_from (Suc i) bs)"

definition setAddressBytes :: "u8 list \<Rightarrow> err + MacAddress" where
  "setAddressBytes addrbytes =
     setAddressBytes_from 0 (take MAC_ADDRESS_SIZE addrbytes) (MacAddress 0)"

subsection \<open>Printing\<close>

definition hex_upper :: "nat \<Rightarrow> char" where
  "hex_upper n = ''0123456789ABCDEF'' ! n"

definition print_byte :: "u8 \<Rightarrow> string" where
  "print_byte b = [hex_upper (unat b div 16), hex_upper (unat b mod 16), CHR ''-'']"

definition mac_str :: "MacAddress \<Rightarrow> err + string" where
  "mac_str a = ebind (getAddressBytes a [0..<MAC_ADDRESS_SIZE])
     (\<lambda>bs. Inr (butlast (concat (map print_byte bs))))"

subsection \<open>Parsing\<close>

definition c_isdigit :: "char \<Rightarrow> bool" where
  "c_isdigit c = (48 \<le> (of_char c :: nat) \<and> (of_char c :: nat) \<le> 57)"

definition c_islower :: "char \<Rightarrow> bool" where
  "c_islower c = (97 \<le> (of_char c :: nat) \<and> (of_char c :: nat) \<le> 122)"

definition c_isxdigit :: "char \<Rightarrow> bool" where
  "c_isxdigit c = (c_isdigit c \<or> (97 \<le> (of_char c :: nat) \<and> (of_char c :: nat) \<le> 102)
     \<or> (65 \<le> (of_char c :: nat) \<and> (of_char c :: nat) \<le> 70))"

definition hex_value :: "char \<Rightarrow> u8" where
  "hex_value c =
     (if c_isdigit c then of_nat (of_char c - 48)
      else if c_islower c then of_nat (of_char c - 97 + 10)
      else of_nat (of_char c - 65 + 10))"

text \<open>The first loop of \<open>tryParse\<close>: the number of hex digits, \<open>None\<close> on wrong syntax.\<close>

fun count_hex :: "string \<Rightarrow> nat option" where
  "count_hex [] = Some 0"
| "count_hex (c # s) =
     (if c_isxdigit c then map_option Suc (count_hex s)
      else if c \<noteq> CHR '' '' \<and> c \<noteq> CHR '':'' \<and> c \<noteq> CHR ''-'' then None
      else count_hex s)"

text \<open>The second loop, over byte positions: \<open>n\<close> positions from \<open>pos\<close> on are left.\<close>

fun parse_bytes :: "nat \<Rightarrow> nat \<Rightarrow> string \<Rightarrow> MacAddress \<Rightarrow> err + MacAddress" where
  "parse_bytes 0 pos s a = Inr a"
| "parse_bytes (Suc n) pos s a =
     (if s = [] then ebind (setAddressByte a pos 0) (parse_bytes n (Suc pos) s)
      else
        let s1 = dropWhile (\<lambda>c. \<not> c_isxdigit c) s in
        if s1 = [] then ebind (setAddressByte a pos 0) (parse_bytes n (Suc pos) s1)
        else
          let d = push_bit 4 (hex_value (hd s1)); s2 = dropWhile (\<lambda>c. \<not> c_isxdigit c) (tl s1) in
          if s2 = [] then ebind (setAddressByte a pos 0) (parse_bytes n (Suc pos) s2)
          else ebind (setAddressByte a pos (d + hex_value (hd s2)))
                 (parse_bytes n (Suc pos) (tl s2)))"

definition tryParse :: "string \<Rightarrow> (err + MacAddress) option" where
  "tryParse hexstr =
     (if count_hex hexstr \<noteq> Some (2 * MAC_ADDRESS_SIZE) then None
      else Some (parse_bytes MAC_ADDRESS_SIZE 0 hexstr (MacAddress 0)))"

definition setAddress :: "string \<Rightarrow> err + MacAddress" where
  "setAddress hexstr = (case tryParse hexstr of
       None \<Rightarrow> Inl (RuntimeError ''MacAddress: wrong address syntax'')
     | Some r \<Rightarrow> r)"

text \<open>The class invariant: the two highest bytes are zero.\<close>

definition mac_valid :: "MacAddress \<Rightarrow> bool" where
  "mac_valid a = (drop_bit 48 (address a) = 0)"

section \<open>Byte access\<close>

lemma getAddressByte_ok [simp]:
  "k < 6 \<Longrightarrow> getAddressByte a k = Inr (ucast (0xff AND drop_bit (byte_offset k) (address a)))"
  by (simp add: getAddressByte_def)

lemma setAddressByte_ok:
  "k < 6 \<Longrightarrow> \<exists>a'. setAddressByte a k b = Inr a'"
  by (simp add: setAddressByte_def)

lemma bit_255_int [simp]: "bit (255 :: int) n \<longleftrightarrow> n < 8"
proof -
  have "(255 :: int) = mask 8" by (simp add: mask_eq_exp_minus_1)
  then show ?thesis by (simp only: bit_mask_iff) simp
qed

lemma bit_getAddressByte:
  assumes "getAddressByte a k = Inr b"
  shows "bit b n \<longleftrightarrow> n < 8 \<and> bit (address a) (byte_offset k + n)"
  using assms
  by (auto simp: getAddressByte_def bit_simps split: if_splits
      dest: bit_imp_le_length)

lemma bit_setAddressByte:
  assumes "setAddressByte a k b = Inr a'"
  shows "bit (address a') n \<longleftrightarrow>
     (if byte_offset k \<le> n \<and> n < byte_offset k + 8 then bit b (n - byte_offset k)
      else bit (address a) n)"
proof -
  have k: "k < 6" using assms by (simp add: setAddressByte_def split: if_splits)
  then have off: "byte_offset k + 8 \<le> 48" by (simp add: byte_offset_def)
  have a': "address a' = (address a AND NOT (push_bit (byte_offset k) 0xff)) OR
      push_bit (byte_offset k) (ucast b)"
    using assms k by (auto simp: setAddressByte_def)
  show ?thesis
  proof (cases "n < 64")
    case True
    then show ?thesis
      by (auto simp: a' bit_simps dest: bit_imp_le_length)
  next
    case False
    with off show ?thesis by (auto dest: bit_imp_le_length)
  qed
qed

lemma get_set_byte:
  assumes "setAddressByte a k b = Inr a'"
  shows "getAddressByte a' k = Inr b"
proof -
  have "k < 6" using assms by (simp add: setAddressByte_def split: if_splits)
  then obtain b' where b': "getAddressByte a' k = Inr b'" by simp
  have "b' = b"
    by (rule bit_eqI) (auto simp: bit_getAddressByte [OF b'] bit_setAddressByte [OF assms])
  with b' show ?thesis by simp
qed

lemma byte_offset_disjoint:
  "k < 6 \<Longrightarrow> j < 6 \<Longrightarrow> j \<noteq> k \<Longrightarrow>
     byte_offset j + 8 \<le> byte_offset k \<or> byte_offset k + 8 \<le> byte_offset j"
  by (simp add: byte_offset_def) arith

lemma get_set_other_byte:
  assumes s: "setAddressByte a k b = Inr a'" and ne: "j \<noteq> k"
  shows "getAddressByte a' j = getAddressByte a j"
proof (cases "j < 6")
  case True
  have k: "k < 6" using s by (simp add: setAddressByte_def split: if_splits)
  obtain b1 b2 where b: "getAddressByte a' j = Inr b1" "getAddressByte a j = Inr b2"
    using True by simp
  have "b1 = b2"
    using byte_offset_disjoint [OF k True ne]
    by (intro bit_eqI) (auto simp: bit_getAddressByte [OF b(1)] bit_getAddressByte [OF b(2)]
        bit_setAddressByte [OF s])
  with b show ?thesis by simp
next
  case False
  then show ?thesis by (simp add: getAddressByte_def)
qed

lemma mac_valid_iff: "mac_valid a \<longleftrightarrow> (\<forall>n\<ge>48. \<not> bit (address a) n)"
proof
  assume v: "mac_valid a"
  show "\<forall>n\<ge>48. \<not> bit (address a) n"
  proof (intro allI impI)
    fix n :: nat assume "48 \<le> n"
    then have "bit (address a) n = bit (drop_bit 48 (address a)) (n - 48)"
      by (simp add: bit_drop_bit_eq)
    with v show "\<not> bit (address a) n" by (simp add: mac_valid_def)
  qed
next
  assume "\<forall>n\<ge>48. \<not> bit (address a) n"
  then show "mac_valid a"
    unfolding mac_valid_def by (intro bit_eqI) (simp add: bit_drop_bit_eq)
qed

lemma setAddressByte_valid:
  assumes s: "setAddressByte a k b = Inr a'" and "mac_valid a"
  shows "mac_valid a'"
proof -
  have "k < 6" using s by (simp add: setAddressByte_def split: if_splits)
  then have "byte_offset k + 8 \<le> 48" by (simp add: byte_offset_def)
  with assms(2) show ?thesis by (simp add: mac_valid_iff bit_setAddressByte [OF s])
qed

text \<open>An address is determined by its six bytes.\<close>

lemma mac_eqI:
  assumes "mac_valid a" and "mac_valid b"
    and bytes: "\<And>k. k < 6 \<Longrightarrow> getAddressByte a k = getAddressByte b k"
  shows "a = b"
proof -
  have "address a = address b"
  proof (rule bit_eqI)
    fix n
    show "bit (address a) n = bit (address b) n"
    proof (cases "n < 48")
      case True
      define k where "k = 5 - n div 8"
      have k: "k < 6" and n: "n = byte_offset k + n mod 8"
        using True by (simp_all add: k_def byte_offset_def)
      obtain x where x: "getAddressByte a k = Inr x" "getAddressByte b k = Inr x"
        using bytes [OF k] k by (metis getAddressByte_ok)
      have "bit (address a) (byte_offset k + n mod 8) = bit (address b) (byte_offset k + n mod 8)"
        using bit_getAddressByte [OF x(1), of "n mod 8"] bit_getAddressByte [OF x(2), of "n mod 8"]
        by simp
      with n show ?thesis by simp
    next
      case False
      with assms(1,2) show ?thesis by (simp add: mac_valid_iff)
    qed
  qed
  then show ?thesis by (rule MacAddress.expand)
qed

lemma setAddressBytes_from_total:
  "i + length bs \<le> 6 \<Longrightarrow> \<exists>a'. setAddressBytes_from i bs a = Inr a'"
proof (induction bs arbitrary: i a)
  case Nil
  then show ?case by simp
next
  case (Cons b bs)
  then obtain a1 where "setAddressByte a i b = Inr a1"
    using setAddressByte_ok [of i a b] by auto
  then show ?case using Cons.IH [of "Suc i" a1] Cons.prems by simp
qed

lemma setAddressBytes_from_valid:
  "setAddressBytes_from i bs a = Inr a' \<Longrightarrow> mac_valid a \<Longrightarrow> mac_valid a'"
  by (induction bs arbitrary: i a)
    (auto simp: ebind_Inr_iff intro: setAddressByte_valid)

lemma setAddressBytes_from_get:
  assumes "setAddressBytes_from i bs a = Inr a'"
  shows "getAddressByte a' k =
    (if i \<le> k \<and> k < i + length bs then Inr (bs ! (k - i)) else getAddressByte a k)"
  using assms
proof (induction bs arbitrary: i a)
  case Nil
  then show ?case by auto
next
  case (Cons b bs)
  then obtain a1 where a1: "setAddressByte a i b = Inr a1"
    and rest: "setAddressBytes_from (Suc i) bs a1 = Inr a'"
    by (auto simp: ebind_Inr_iff)
  have "getAddressByte a1 k = (if k = i then Inr b else getAddressByte a k)"
    using get_set_byte [OF a1] get_set_other_byte [OF a1, of k] by auto
  moreover have "k - i = Suc (k - Suc i)" if "Suc i \<le> k" using that by simp
  ultimately show ?case
    using Cons.IH [OF rest] by (auto simp: nth_Cons split: nat.split)
qed

section \<open>Printing and parsing are inverse\<close>

lemma hex_digits:
  assumes "n < 16"
  shows "c_isxdigit (hex_upper n)" and "hex_value (hex_upper n) = of_nat n"
proof -
  have all: "\<forall>n \<in> set [0..<16]. c_isxdigit (hex_upper n) \<and> hex_value (hex_upper n) = of_nat n"
    by code_simp
  from assms have "n \<in> set [0..<16]" by simp
  with all show "c_isxdigit (hex_upper n)" and "hex_value (hex_upper n) = of_nat n"
    by (auto simp del: set_upt)
qed

lemma dash_not_hex [simp]: "\<not> c_isxdigit (CHR ''-'')"
  by (simp add: c_isxdigit_def c_isdigit_def)

lemma byte_div_16: "unat (b :: u8) div 16 < 16"
proof -
  have "unat b < 2 ^ LENGTH(8)" by (rule unsigned_less)
  then show ?thesis by (simp add: less_mult_imp_div_less)
qed

lemma nibbles_join: "push_bit 4 (of_nat (unat (b :: u8) div 16)) + of_nat (unat b mod 16) = b"
proof -
  have "push_bit 4 (of_nat (unat b div 16)) + of_nat (unat b mod 16) =
      (of_nat (unat b div 16 * 16 + unat b mod 16) :: u8)"
    by (simp only: push_bit_eq_mult of_nat_add of_nat_mult) simp
  also have "\<dots> = b" by simp
  finally show ?thesis .
qed

lemma parse_bytes_skip:
  "\<not> c_isxdigit c \<Longrightarrow> s \<noteq> [] \<Longrightarrow> parse_bytes n pos (c # s) a = parse_bytes n pos s a"
  by (cases n) simp_all

lemma join_print_bytes:
  "butlast (concat (map print_byte (b # bs))) =
     hex_upper (unat b div 16) # hex_upper (unat b mod 16) #
     (if bs = [] then [] else CHR ''-'' # butlast (concat (map print_byte bs)))"
  by (cases bs) (simp_all add: print_byte_def)

lemma parse_print_bytes:
  "pos + length bs \<le> 6 \<Longrightarrow>
   parse_bytes (length bs) pos (butlast (concat (map print_byte bs))) a = setAddressBytes_from pos bs a"
proof (induction bs arbitrary: pos a)
  case Nil
  then show ?case by simp
next
  case (Cons b bs)
  have hi: "c_isxdigit (hex_upper (unat b div 16))"
    and lo: "c_isxdigit (hex_upper (unat b mod 16))"
    using hex_digits byte_div_16 by simp_all
  let ?rest = "if bs = [] then [] else CHR ''-'' # butlast (concat (map print_byte bs))"
  have nonempty: "bs \<noteq> [] \<Longrightarrow> butlast (concat (map print_byte bs)) \<noteq> []"
    using join_print_bytes by (metis list.collapse list.distinct(1))
  have val: "push_bit 4 (hex_value (hex_upper (unat b div 16))) + hex_value (hex_upper (unat b mod 16)) = b"
    using hex_digits(2) [OF byte_div_16] hex_digits(2) [of "unat b mod 16"] nibbles_join by simp
  have rest: "parse_bytes (length bs) (Suc pos) ?rest a' = setAddressBytes_from (Suc pos) bs a'" for a'
    using Cons.IH [of "Suc pos" a'] Cons.prems nonempty by (auto simp: parse_bytes_skip)
  show ?case
    unfolding join_print_bytes
    using hi lo by (simp add: val rest [abs_def])
qed

lemma count_hex_print:
  "bs \<noteq> [] \<Longrightarrow> count_hex (butlast (concat (map print_byte bs))) = Some (2 * length bs)"
proof (induction bs)
  case Nil
  then show ?case by simp
next
  case (Cons b bs)
  have "c_isxdigit (hex_upper (unat b div 16))" "c_isxdigit (hex_upper (unat b mod 16))"
    using hex_digits byte_div_16 by simp_all
  with Cons.IH show ?case by (auto simp: join_print_bytes simp del: concat.simps list.map)
qed

lemma getAddressBytes_ok:
  "(\<And>i. i \<in> set is \<Longrightarrow> i < 6) \<Longrightarrow>
     \<exists>bs. getAddressBytes a is = Inr bs \<and> length bs = length is \<and>
          (\<forall>j < length is. getAddressByte a (is ! j) = Inr (bs ! j))"
proof (induction "is")
  case Nil
  then show ?case by simp
next
  case (Cons i "is")
  then obtain bs where bs: "getAddressBytes a is = Inr bs" "length bs = length is"
    "\<forall>j < length is. getAddressByte a (is ! j) = Inr (bs ! j)" by auto
  have "i < 6" using Cons.prems by simp
  with bs show ?case by (auto simp: nth_Cons split: nat.split)
qed

text \<open>
  C32. Printing a MAC address with \<open>str()\<close> and reading the text back with \<open>tryParse\<close> gives
  the same address: both succeed and the parser rebuilds all six bytes, in order.
\<close>

theorem mac_print_parse_roundtrip:
  assumes "mac_valid a"
  shows "\<exists>s. mac_str a = Inr s \<and> length s = 17 \<and> tryParse s = Some (Inr a)"
proof -
  obtain bs where bs: "getAddressBytes a [0..<6] = Inr bs" "length bs = 6"
    "\<forall>j < 6. getAddressByte a j = Inr (bs ! j)"
    using getAddressBytes_ok [of "[0..<6]" a] by auto
  let ?s = "butlast (concat (map print_byte bs))"
  have str: "mac_str a = Inr ?s" using bs(1) by (simp add: mac_str_def)
  have ne: "bs \<noteq> []" using bs(2) by auto
  obtain a' where a': "setAddressBytes_from 0 bs (MacAddress 0) = Inr a'"
    using setAddressBytes_from_total [of 0 bs] bs(2) by auto
  have "mac_valid a'"
    by (rule setAddressBytes_from_valid [OF a']) (simp add: mac_valid_def)
  then have "a' = a"
    using assms setAddressBytes_from_get [OF a'] bs by (intro mac_eqI) auto
  moreover have "parse_bytes 6 0 ?s (MacAddress 0) = setAddressBytes_from 0 bs (MacAddress 0)"
    using parse_print_bytes [of 0 bs] bs(2) by simp
  ultimately have "tryParse ?s = Some (Inr a)"
    using count_hex_print [OF ne] bs(2) a' by (simp add: tryParse_def)
  moreover have "length ?s = 17"
    using bs(2) by (simp add: length_concat comp_def print_byte_def sum_list_triv)
  ultimately show ?thesis using str by blast
qed

theorem mac_print_parse_roundtrip_witness:
  "\<exists>s. mac_str (MacAddress 0x0180C200000E) = Inr s \<and> length s = 17 \<and>
     tryParse s = Some (Inr (MacAddress 0x0180C200000E))"
  by (rule mac_print_parse_roundtrip) (simp add: mac_valid_def)

end
