(* ===== verification/TcpSeq.thy ===== *)
theory TcpSeq
  imports Prelude
begin

text \<open>
  TCP sequence numbers, \<open>inet/transportlayer/tcp_common/TcpHeader.h\<close>: 32-bit numbers compared
  modulo \<open>2 ^ 32\<close>. \<open>sdist a b\<close>, the distance from \<open>a\<close> up to \<open>b\<close>, is the reference point of
  every later proof: inside a window of less than \<open>2 ^ 31\<close> bytes the circular comparisons are the
  comparisons of distances from the base of the window. The SACK block of \<open>TcpHeader.cc\<close> is
  modelled here too.
\<close>

section \<open>Definitions\<close>

definition seqLess :: "u32 \<Rightarrow> u32 \<Rightarrow> bool" where
  "seqLess a b = (a \<noteq> b \<and> b - a < 2147483648)"

definition seqLE :: "u32 \<Rightarrow> u32 \<Rightarrow> bool" where
  "seqLE a b = (b - a < 2147483648)"

definition seqGreater :: "u32 \<Rightarrow> u32 \<Rightarrow> bool" where
  "seqGreater a b = (a \<noteq> b \<and> a - b < 2147483648)"

definition seqGE :: "u32 \<Rightarrow> u32 \<Rightarrow> bool" where
  "seqGE a b = (a - b < 2147483648)"

definition seqMin :: "u32 \<Rightarrow> u32 \<Rightarrow> u32" where
  "seqMin a b = (if b - a < 2147483648 then a else b)"

definition seqMax :: "u32 \<Rightarrow> u32 \<Rightarrow> u32" where
  "seqMax a b = (if a - b < 2147483648 then a else b)"

record sack =
  sack_start :: u32
  sack_end :: u32

definition sack_empty :: "sack \<Rightarrow> bool" where
  "sack_empty s = (sack_start s = 0 \<and> sack_end s = 0)"

definition sack_contains :: "sack \<Rightarrow> sack \<Rightarrow> bool" where
  "sack_contains s other =
     (seqLE (sack_start s) (sack_start other) \<and> seqLE (sack_end other) (sack_end s))"

definition setSegment :: "u32 \<Rightarrow> u32 \<Rightarrow> sack" where
  "setSegment start_par end_par = \<lparr>sack_start = start_par, sack_end = end_par\<rparr>"

text \<open>The distance from \<open>a\<close> up to \<open>b\<close>, and half of the sequence space.\<close>

definition sdist :: "u32 \<Rightarrow> u32 \<Rightarrow> nat" where
  "sdist a b = unat (b - a)"

abbreviation half :: nat where "half \<equiv> 2147483648"

section \<open>Distances\<close>

lemma sdist_less: "sdist a b < 2 * half"
proof -
  have "unat (b - a) < 2 ^ LENGTH(32)" by (rule unsigned_less)
  then show ?thesis by (simp add: sdist_def)
qed

lemma sdist_self [simp]: "sdist a a = 0"
  by (simp add: sdist_def)

lemma sdist_eq_0_iff [simp]: "sdist a b = 0 \<longleftrightarrow> a = b"
  by (auto simp: sdist_def unat_0_iff)

lemma sdist_pos_iff [simp]: "0 < sdist a b \<longleftrightarrow> a \<noteq> b"
  using sdist_eq_0_iff [of a b] by linarith

lemma add_sdist [simp]: "a + of_nat (sdist a b) = b"
  by (simp add: sdist_def)

lemma sdist_add: "n < 2 * half \<Longrightarrow> sdist a (a + of_nat n) = n"
  by (simp add: sdist_def unat_of_nat)

lemma sdist_inj: "sdist c a = sdist c b \<Longrightarrow> a = b"
  by (metis add_sdist)

lemma sdist_via:
  "sdist a c = (if sdist b a \<le> sdist b c then sdist b c - sdist b a
                else sdist b c + 2 * half - sdist b a)"
proof -
  have "unat (x - y) = (if unat y \<le> unat x then unat x - unat y else unat x + 2 ^ size x - unat y)"
    for x y :: u32
    by (rule unat_sub_if_size)
  from this [of "c - b" "a - b"] show ?thesis
    by (simp add: sdist_def word_size)
qed

lemma sdist_add_mono: "sdist a b + sdist b c < 2 * half \<Longrightarrow> sdist a c = sdist a b + sdist b c"
  using sdist_via [of b c a] sdist_less [of a c] by (auto split: if_splits)

lemma sdist_le_sub: "sdist b a \<le> sdist b c \<Longrightarrow> sdist a c = sdist b c - sdist b a"
  using sdist_via [of a c b] by simp

lemma seqLE_sdist: "seqLE a b \<longleftrightarrow> sdist a b < half"
  by (simp add: seqLE_def sdist_def word_less_nat_alt)

lemma seqLess_sdist: "seqLess a b \<longleftrightarrow> 0 < sdist a b \<and> sdist a b < half"
  using sdist_eq_0_iff [of a b] by (auto simp: seqLess_def word_less_nat_alt sdist_def)

lemma seqGE_seqLE: "seqGE a b = seqLE b a"
  by (simp add: seqGE_def seqLE_def)

lemma seqGreater_seqLess: "seqGreater a b = seqLess b a"
  by (auto simp: seqGreater_def seqLess_def)

lemma seqLE_window:
  "sdist c a < half \<Longrightarrow> sdist c b < half \<Longrightarrow> seqLE a b \<longleftrightarrow> sdist c a \<le> sdist c b"
  using sdist_via [of a b c] by (auto simp: seqLE_sdist)

lemma seqLess_window:
  "sdist c a < half \<Longrightarrow> sdist c b < half \<Longrightarrow> seqLess a b \<longleftrightarrow> sdist c a < sdist c b"
  using sdist_via [of a b c] by (auto simp: seqLess_sdist)

lemma seqMin_window:
  "sdist c a < half \<Longrightarrow> sdist c b < half \<Longrightarrow> sdist c (seqMin a b) = min (sdist c a) (sdist c b)"
  using seqLE_window [of c a b] by (auto simp: seqMin_def seqLE_def min_def)

lemma seqMax_window:
  "sdist c a < half \<Longrightarrow> sdist c b < half \<Longrightarrow> sdist c (seqMax a b) = max (sdist c a) (sdist c b)"
  using seqLE_window [of c b a] by (auto simp: seqMax_def seqLE_def max_def)

text \<open>
  C31. The circular comparisons order sequence numbers linearly inside any window of less than
  \<open>2 ^ 31\<close> bytes, also when the window wraps around \<open>2 ^ 32\<close>: with \<open>base\<close> the left edge,
  \<open>seqLess\<close>, \<open>seqLE\<close>, \<open>seqMin\<close> and \<open>seqMax\<close> agree with the comparison, minimum and maximum of the
  byte offsets from \<open>base\<close>.
\<close>

theorem seq_window_order:
  assumes "m < half" and "n < half"
  shows "seqLess (base + of_nat m) (base + of_nat n) = (m < n) \<and>
    seqLE (base + of_nat m) (base + of_nat n) = (m \<le> n) \<and>
    seqMin (base + of_nat m) (base + of_nat n) = base + of_nat (min m n) \<and>
    seqMax (base + of_nat m) (base + of_nat n) = base + of_nat (max m n)"
proof -
  have mn: "sdist base (base + of_nat m) = m" "sdist base (base + of_nat n) = n"
    using assms by (simp_all add: sdist_add)
  have "seqMin (base + of_nat m) (base + of_nat n) = base + of_nat (min m n)"
    by (rule sdist_inj [of base]) (use assms mn in \<open>simp add: seqMin_window sdist_add\<close>)
  moreover have "seqMax (base + of_nat m) (base + of_nat n) = base + of_nat (max m n)"
    by (rule sdist_inj [of base]) (use assms mn in \<open>simp add: seqMax_window sdist_add\<close>)
  ultimately show ?thesis
    using seqLess_window [of base] seqLE_window [of base] assms mn by simp
qed

theorem seq_window_order_witness:
  "seqLess 0xfffffffe 3 \<and> seqLE 0xfffffffe 3 \<and>
   seqMin 0xfffffffe 3 = 0xfffffffe \<and> seqMax 0xfffffffe 3 = 3"
proof -
  have wrap: "0xfffffffe + of_nat 5 = (3 :: u32)" by simp
  show ?thesis using seq_window_order [of 0 5 "0xfffffffe"] unfolding wrap by simp
qed

end
