(* ===== verification/SackQueue.thy ===== *)
theory SackQueue
  imports TcpSeq
begin

text \<open>
  The retransmission queue of SACK TCP,
  \<open>inet/transportlayer/tcp/TcpSackRexmitQueue.cc\<close>: a list of adjacent regions
  \<open>[beginSeqNum, endSeqNum)\<close> with a \<open>sacked\<close> and a \<open>rexmitted\<close> bit each. Every operation
  is the C++ one with its assertions (\<open>Inl AssertFailed\<close>); an iterator that walks past
  regions is a split of the list by \<open>takeWhile\<close> and \<open>dropWhile\<close>.

  The abstract view \<open>sq_bytes\<close> is one pair of bits per byte of the window. The lemmas show that
  every operation is the corresponding list operation on that view, that the assertions cannot
  fail while the queue is well formed, and that every operation keeps it so.
\<close>

section \<open>State and operations\<close>

record region =
  beginSeqNum :: u32
  endSeqNum :: u32
  sacked :: bool
  rexmitted :: bool

record rexmit_queue =
  rexmitQueue :: "region list"
  q_begin :: u32
  q_end :: u32

definition sq_new :: rexmit_queue where
  "sq_new = \<lparr>rexmitQueue = [], q_begin = 0, q_end = 0\<rparr>"

definition sq_init :: "u32 \<Rightarrow> rexmit_queue \<Rightarrow> rexmit_queue" where
  "sq_init seqNum q = q\<lparr>q_begin := seqNum, q_end := seqNum\<rparr>"

definition getBufferStartSeq :: "rexmit_queue \<Rightarrow> u32" where
  "getBufferStartSeq q = q_begin q"

definition getBufferEndSeq :: "rexmit_queue \<Rightarrow> u32" where
  "getBufferEndSeq q = q_end q"

definition getQueueLength :: "rexmit_queue \<Rightarrow> u32" where
  "getQueueLength q = of_nat (length (rexmitQueue q))"

fun checkRegions :: "u32 \<Rightarrow> region list \<Rightarrow> u32 \<Rightarrow> bool" where
  "checkRegions b [] e = (b = e)"
| "checkRegions b (r # rs) e =
     (b = beginSeqNum r \<and> seqLess (beginSeqNum r) (endSeqNum r) \<and> checkRegions (endSeqNum r) rs e)"

definition checkQueue :: "rexmit_queue \<Rightarrow> bool" where
  "checkQueue q = checkRegions (q_begin q) (rexmitQueue q) (q_end q)"

definition checked :: "rexmit_queue \<Rightarrow> err + rexmit_queue" where
  "checked q = (if checkQueue q then Inr q else Inl AssertFailed)"

text \<open>\<open>while (i != end() \<and> seqLE(i->endSeqNum, seqNum)) i++\<close>: the regions passed and the rest.\<close>

definition skipped :: "u32 \<Rightarrow> region list \<Rightarrow> region list" where
  "skipped seqNum rs = takeWhile (\<lambda>r. seqLE (endSeqNum r) seqNum) rs"

definition reached :: "u32 \<Rightarrow> region list \<Rightarrow> region list" where
  "reached seqNum rs = dropWhile (\<lambda>r. seqLE (endSeqNum r) seqNum) rs"

definition covers :: "region \<Rightarrow> u32 \<Rightarrow> bool" where
  "covers r seqNum = (seqLE (beginSeqNum r) seqNum \<and> seqLess seqNum (endSeqNum r))"

definition sq_discardUpTo :: "u32 \<Rightarrow> rexmit_queue \<Rightarrow> err + rexmit_queue" where
  "sq_discardUpTo seqNum q =
     (if \<not> (seqLE (q_begin q) seqNum \<and> seqLE seqNum (q_end q)) then Inl AssertFailed
      else case reached seqNum (rexmitQueue q) of
          [] \<Rightarrow> checked (q\<lparr>rexmitQueue := [], q_begin := seqNum\<rparr>)
        | r # rs \<Rightarrow>
            if \<not> covers r seqNum then Inl AssertFailed
            else checked (q\<lparr>rexmitQueue := r\<lparr>beginSeqNum := seqNum\<rparr> # rs, q_begin := seqNum\<rparr>))"

text \<open>
  Splitting the region \<open>r\<close> at \<open>seqNum\<close>, unless it starts there: the part before (if any) and
  the regions from \<open>seqNum\<close> on.
\<close>

definition chunk_at :: "u32 \<Rightarrow> region \<Rightarrow> region list \<Rightarrow> region list \<times> region list" where
  "chunk_at seqNum r rs =
     (if beginSeqNum r \<noteq> seqNum
      then ([r\<lparr>endSeqNum := seqNum\<rparr>], r\<lparr>beginSeqNum := seqNum\<rparr> # rs)
      else ([], r # rs))"

definition endOf :: "u32 \<Rightarrow> region list \<Rightarrow> u32" where
  "endOf d rs = (if rs = [] then d else endSeqNum (last rs))"

text \<open>
  The region a retransmission leaves open: the rest \<open>[fromSeqNum, toSeqNum)\<close>, cut off the next
  region or appended after the last one.
\<close>

definition tail_region :: "u32 \<Rightarrow> u32 \<Rightarrow> region list \<Rightarrow> err + region list" where
  "tail_region fromSeqNum toSeqNum rest =
     (if fromSeqNum = toSeqNum then Inr rest
      else case rest of
          [] \<Rightarrow> Inr [\<lparr>beginSeqNum = fromSeqNum, endSeqNum = toSeqNum,
                     sacked = False, rexmitted = False\<rparr>]
        | r # rs \<Rightarrow>
            if \<not> seqLess (beginSeqNum r) toSeqNum then Inl AssertFailed
            else Inr (\<lparr>beginSeqNum = fromSeqNum, endSeqNum = toSeqNum,
                       sacked = sacked r, rexmitted = True\<rparr> # r\<lparr>beginSeqNum := toSeqNum\<rparr> # rs))"

definition refresh_bounds :: "region list \<Rightarrow> rexmit_queue \<Rightarrow> err + rexmit_queue" where
  "refresh_bounds rs q =
     checked (q\<lparr>rexmitQueue := rs, q_begin := beginSeqNum (hd rs), q_end := endSeqNum (last rs)\<rparr>)"

definition enqueueSentData :: "u32 \<Rightarrow> u32 \<Rightarrow> rexmit_queue \<Rightarrow> err + rexmit_queue" where
  "enqueueSentData fromSeqNum toSeqNum q =
     (if \<not> (seqLE (q_begin q) fromSeqNum \<and> seqLE fromSeqNum (q_end q)) then Inl AssertFailed
      else if \<not> seqLess fromSeqNum toSeqNum then Inl AssertFailed
      else if rexmitQueue q = [] \<or> q_end q = fromSeqNum then
        refresh_bounds (rexmitQueue q @
          [\<lparr>beginSeqNum = fromSeqNum, endSeqNum = toSeqNum, sacked = False, rexmitted = False\<rparr>]) q
      else case reached fromSeqNum (rexmitQueue q) of
          [] \<Rightarrow> Inl AssertFailed
        | r # rs \<Rightarrow>
            if \<not> covers r fromSeqNum then Inl AssertFailed
            else
              let (pre, suf) = chunk_at fromSeqNum r rs;
                  marked = map (\<lambda>r. r\<lparr>rexmitted := True\<rparr>) (skipped toSeqNum suf);
                  from' = endOf fromSeqNum marked
              in ebind (tail_region from' toSeqNum (reached toSeqNum suf)) (\<lambda>tl'.
                   if marked = [] \<and> from' = toSeqNum then Inl AssertFailed
                   else refresh_bounds (skipped fromSeqNum (rexmitQueue q) @ pre @ marked @ tl') q))"

definition mark_sacked :: "u32 \<Rightarrow> region \<Rightarrow> region" where
  "mark_sacked fromSeqNum r = (if seqGE (beginSeqNum r) fromSeqNum then r\<lparr>sacked := True\<rparr> else r)"

text \<open>The last part of \<open>setSackedBit\<close>: a block that ends inside a region.\<close>

definition split_sacked :: "u32 \<Rightarrow> region list \<Rightarrow> region list" where
  "split_sacked toSeqNum rest = (case rest of
       [] \<Rightarrow> []
     | r # rs \<Rightarrow>
         if seqLess (beginSeqNum r) toSeqNum \<and> seqLess toSeqNum (endSeqNum r)
         then r\<lparr>endSeqNum := toSeqNum, sacked := True\<rparr> # r\<lparr>beginSeqNum := toSeqNum\<rparr> # rs
         else r # rs)"

definition setSackedBit :: "u32 \<Rightarrow> u32 \<Rightarrow> rexmit_queue \<Rightarrow> err + rexmit_queue" where
  "setSackedBit fromSeqNum0 toSeqNum q =
     (let fromSeqNum = (if seqLess fromSeqNum0 (q_begin q) then q_begin q else fromSeqNum0) in
      if \<not> seqLess fromSeqNum (q_end q) then Inl AssertFailed
      else if \<not> (seqLess (q_begin q) toSeqNum \<and> seqLE toSeqNum (q_end q)) then Inl AssertFailed
      else if \<not> seqLess fromSeqNum toSeqNum then Inl AssertFailed
      else if rexmitQueue q = [] then checked q
      else case reached fromSeqNum (rexmitQueue q) of
          [] \<Rightarrow> Inl AssertFailed
        | r # rs \<Rightarrow>
            if \<not> covers r fromSeqNum then Inl AssertFailed
            else
              let (pre, suf) = chunk_at fromSeqNum r rs
              in checked (q\<lparr>rexmitQueue :=
                   skipped fromSeqNum (rexmitQueue q) @ pre @
                   map (mark_sacked fromSeqNum) (skipped toSeqNum suf) @
                   split_sacked toSeqNum (reached toSeqNum suf)\<rparr>))"

definition getSackedBit :: "u32 \<Rightarrow> rexmit_queue \<Rightarrow> err + bool" where
  "getSackedBit seqNum q =
     (if \<not> (seqLE (q_begin q) seqNum \<and> seqLE seqNum (q_end q)) then Inl AssertFailed
      else if q_end q = seqNum then Inr False
      else case reached seqNum (rexmitQueue q) of
          [] \<Rightarrow> Inl AssertFailed
        | r # rs \<Rightarrow> if covers r seqNum then Inr (sacked r) else Inl AssertFailed)"

text \<open>The two searches from the back; the first list is traversed in reverse.\<close>

definition getHighestSackedSeqNum :: "rexmit_queue \<Rightarrow> u32" where
  "getHighestSackedSeqNum q = (case find sacked (rev (rexmitQueue q)) of
       Some r \<Rightarrow> endSeqNum r | None \<Rightarrow> q_begin q)"

definition getHighestRexmittedSeqNum :: "rexmit_queue \<Rightarrow> u32" where
  "getHighestRexmittedSeqNum q = (case find rexmitted (rev (rexmitQueue q)) of
       Some r \<Rightarrow> endSeqNum r | None \<Rightarrow> q_begin q)"

fun count_handled :: "region list \<Rightarrow> u32 \<Rightarrow> u32 \<Rightarrow> err + u32" where
  "count_handled [] fromSeqNum bytes = Inr bytes"
| "count_handled (r # rs) fromSeqNum bytes =
     (if sacked r \<or> rexmitted r then
        if covers r fromSeqNum
        then count_handled rs (endSeqNum r) (bytes + (endSeqNum r - fromSeqNum))
        else Inl AssertFailed
      else Inr bytes)"

definition checkRexmitQueueForSackedOrRexmittedSegments ::
    "u32 \<Rightarrow> rexmit_queue \<Rightarrow> err + u32" where
  "checkRexmitQueueForSackedOrRexmittedSegments fromSeqNum q =
     (if \<not> (seqLE (q_begin q) fromSeqNum \<and> seqLE fromSeqNum (q_end q)) then Inl AssertFailed
      else if rexmitQueue q = [] \<or> q_end q = fromSeqNum then Inr 0
      else count_handled (reached fromSeqNum (rexmitQueue q)) fromSeqNum 0)"

definition resetSackedBit :: "rexmit_queue \<Rightarrow> rexmit_queue" where
  "resetSackedBit q = q\<lparr>rexmitQueue := map (\<lambda>r. r\<lparr>sacked := False\<rparr>) (rexmitQueue q)\<rparr>"

definition resetRexmittedBit :: "rexmit_queue \<Rightarrow> rexmit_queue" where
  "resetRexmittedBit q = q\<lparr>rexmitQueue := map (\<lambda>r. r\<lparr>rexmitted := False\<rparr>) (rexmitQueue q)\<rparr>"

fun sacked_bytes :: "region list \<Rightarrow> u32 \<Rightarrow> u32" where
  "sacked_bytes [] bytes = bytes"
| "sacked_bytes (r # rs) bytes =
     sacked_bytes rs (if sacked r then bytes + (endSeqNum r - beginSeqNum r) else bytes)"

definition getTotalAmountOfSackedBytes :: "rexmit_queue \<Rightarrow> u32" where
  "getTotalAmountOfSackedBytes q = sacked_bytes (rexmitQueue q) 0"

text \<open>The reverse traversal: whole regions above \<open>fromSeqNum\<close>, then the one it cuts.\<close>

fun sacked_above :: "u32 \<Rightarrow> region list \<Rightarrow> u32 \<Rightarrow> u32" where
  "sacked_above fromSeqNum [] bytes = bytes"
| "sacked_above fromSeqNum (r # rs) bytes =
     (if seqLE fromSeqNum (beginSeqNum r)
      then sacked_above fromSeqNum rs
             (if sacked r then bytes + (endSeqNum r - beginSeqNum r) else bytes)
      else if seqLess (beginSeqNum r) fromSeqNum \<and> seqLess fromSeqNum (endSeqNum r) \<and> sacked r
      then bytes + (endSeqNum r - fromSeqNum)
      else bytes)"

definition getAmountOfSackedBytes :: "u32 \<Rightarrow> rexmit_queue \<Rightarrow> err + u32" where
  "getAmountOfSackedBytes fromSeqNum q =
     (if \<not> (seqLE (q_begin q) fromSeqNum \<and> seqLE fromSeqNum (q_end q)) then Inl AssertFailed
      else Inr (sacked_above fromSeqNum (rev (rexmitQueue q)) 0))"

fun count_sacks :: "bool \<Rightarrow> region list \<Rightarrow> u32 \<Rightarrow> u32" where
  "count_sacks prevSacked [] counter = counter"
| "count_sacks prevSacked (r # rs) counter =
     count_sacks (sacked r) rs (if sacked r \<and> \<not> prevSacked then counter + 1 else counter)"

definition getNumOfDiscontiguousSacks :: "u32 \<Rightarrow> rexmit_queue \<Rightarrow> err + u32" where
  "getNumOfDiscontiguousSacks fromSeqNum q =
     (if \<not> (seqLE (q_begin q) fromSeqNum \<and> seqLE fromSeqNum (q_end q)) then Inl AssertFailed
      else if rexmitQueue q = [] \<or> fromSeqNum = q_end q then Inr 0
      else Inr (count_sacks False (reached fromSeqNum (rexmitQueue q)) 0))"

text \<open>The three results of \<open>checkSackBlock\<close>: length, \<open>sacked\<close>, \<open>rexmitted\<close>.\<close>

definition checkSackBlock :: "u32 \<Rightarrow> rexmit_queue \<Rightarrow> err + (u32 \<times> bool \<times> bool)" where
  "checkSackBlock fromSeqNum q =
     (if \<not> (seqLE (q_begin q) fromSeqNum \<and> seqLess fromSeqNum (q_end q)) then Inl AssertFailed
      else case reached fromSeqNum (rexmitQueue q) of
          [] \<Rightarrow> Inl AssertFailed
        | r # rs \<Rightarrow>
            if covers r fromSeqNum
            then Inr (endSeqNum r - fromSeqNum, sacked r, rexmitted r)
            else Inl AssertFailed)"

section \<open>The view by bytes and well-formedness\<close>

definition rlen :: "region \<Rightarrow> nat" where
  "rlen r = sdist (beginSeqNum r) (endSeqNum r)"

definition rbits :: "region \<Rightarrow> (bool \<times> bool) list" where
  "rbits r = replicate (rlen r) (sacked r, rexmitted r)"

definition bytes_of :: "region list \<Rightarrow> (bool \<times> bool) list" where
  "bytes_of rs = concat (map rbits rs)"

definition sq_bytes :: "rexmit_queue \<Rightarrow> (bool \<times> bool) list" where
  "sq_bytes q = bytes_of (rexmitQueue q)"

definition sq_wf :: "rexmit_queue \<Rightarrow> bool" where
  "sq_wf q = (checkQueue q \<and> length (sq_bytes q) < half)"

definition mark_rexmitted :: "(bool \<times> bool) list \<Rightarrow> (bool \<times> bool) list" where
  "mark_rexmitted = map (\<lambda>(s, _). (s, True))"

definition mark_sack :: "(bool \<times> bool) list \<Rightarrow> (bool \<times> bool) list" where
  "mark_sack = map (\<lambda>(_, r). (True, r))"

text \<open>The operations on the view: \<open>i\<close> and \<open>j\<close> are byte offsets from the start of the queue.\<close>

definition abs_enqueue :: "nat \<Rightarrow> nat \<Rightarrow> (bool \<times> bool) list \<Rightarrow> (bool \<times> bool) list" where
  "abs_enqueue i j a =
     take i a @ mark_rexmitted (take (j - i) (drop i a)) @
     replicate (j - length a) (False, False) @ drop j a"

definition abs_sack :: "nat \<Rightarrow> nat \<Rightarrow> (bool \<times> bool) list \<Rightarrow> (bool \<times> bool) list" where
  "abs_sack i j a = take i a @ mark_sack (take (j - i) (drop i a)) @ drop j a"

lemma bytes_of_simps [simp]:
  "bytes_of [] = []"
  "bytes_of (r # rs) = rbits r @ bytes_of rs"
  "bytes_of (xs @ ys) = bytes_of xs @ bytes_of ys"
  by (simp_all add: bytes_of_def)

lemma length_rbits [simp]: "length (rbits r) = rlen r"
  by (simp add: rbits_def)

lemma mark_simps [simp]:
  "mark_rexmitted [] = []" "mark_sack [] = []"
  "mark_rexmitted (xs @ ys) = mark_rexmitted xs @ mark_rexmitted ys"
  "mark_sack (xs @ ys) = mark_sack xs @ mark_sack ys"
  "mark_rexmitted (replicate n (s, r)) = replicate n (s, True)"
  "mark_sack (replicate n (s, r)) = replicate n (True, r)"
  "length (mark_rexmitted xs) = length xs" "length (mark_sack xs) = length xs"
  by (simp_all add: mark_rexmitted_def mark_sack_def)

lemma bytes_of_set_rexmitted [simp]:
  "bytes_of (map (\<lambda>r. r\<lparr>rexmitted := True\<rparr>) rs) = mark_rexmitted (bytes_of rs)"
  by (induction rs) (auto simp: rbits_def rlen_def)

lemma endOf_simps [simp]:
  "endOf d [] = d"
  "endOf d (r # rs) = endOf (endSeqNum r) rs"
  "endOf d (xs @ ys) = endOf (endOf d xs) ys"
  by (auto simp: endOf_def)

lemma endOf_map [simp]:
  "(\<And>r. endSeqNum (f r) = endSeqNum r) \<Longrightarrow> endOf d (map f rs) = endOf d rs"
  by (auto simp: endOf_def last_map)

lemma checkRegions_end: "checkRegions b rs e \<Longrightarrow> e = endOf b rs"
  by (induction rs arbitrary: b) auto

lemma checkRegions_append:
  "checkRegions b (xs @ ys) e \<longleftrightarrow> checkRegions b xs (endOf b xs) \<and> checkRegions (endOf b xs) ys e"
  by (induction xs arbitrary: b) auto

lemma checkRegions_map:
  assumes "\<And>r. beginSeqNum (f r) = beginSeqNum r" and "\<And>r. endSeqNum (f r) = endSeqNum r"
  shows "checkRegions b (map f rs) e = checkRegions b rs e"
  using assms by (induction rs arbitrary: b) auto

lemma seqLess_rlen: "seqLess (beginSeqNum r) (endSeqNum r) \<longleftrightarrow> 0 < rlen r \<and> rlen r < half"
  by (simp only: seqLess_sdist rlen_def)

lemma chain_length:
  "checkRegions b rs e \<Longrightarrow> length (bytes_of rs) < 2 * half \<Longrightarrow> sdist b e = length (bytes_of rs)"
proof (induction rs arbitrary: b)
  case Nil
  then show ?case by simp
next
  case (Cons r rs)
  then have "sdist (endSeqNum r) e = length (bytes_of rs)" and "b = beginSeqNum r" by auto
  with Cons.prems show ?case
    using sdist_add_mono [of b "endSeqNum r" e] by (simp add: rlen_def)
qed

lemma chain_hd: "checkRegions b rs e \<Longrightarrow> rs \<noteq> [] \<Longrightarrow> beginSeqNum (hd rs) = b"
  by (cases rs) auto

lemma chain_last: "checkRegions b rs e \<Longrightarrow> rs \<noteq> [] \<Longrightarrow> endSeqNum (last rs) = e"
  by (drule checkRegions_end) (simp add: endOf_def)

lemma chain_nonempty: "checkRegions b rs e \<Longrightarrow> bytes_of rs = [] \<longleftrightarrow> rs = []"
  by (cases rs) (auto simp: seqLess_rlen rbits_def)

text \<open>
  Walking to \<open>n\<close>: either every region ends at or before \<open>n\<close>, or the walk stops in the region that
  holds the byte at \<open>n\<close>.
\<close>

lemma walk_cases:
  assumes "checkRegions b rs e" and "length (bytes_of rs) < half" and "sdist b n < half"
  obtains (all) "reached n rs = []" "skipped n rs = rs" "length (bytes_of rs) \<le> sdist b n"
  | (inside) r rs' where "reached n rs = r # rs'" "rs = skipped n rs @ r # rs'"
      "beginSeqNum r = endOf b (skipped n rs)"
      "length (bytes_of (skipped n rs)) \<le> sdist b n"
      "sdist (beginSeqNum r) n = sdist b n - length (bytes_of (skipped n rs))"
      "sdist b n < length (bytes_of (skipped n rs)) + rlen r" "covers r n"
  using assms
proof (induction rs arbitrary: b thesis)
  case Nil
  then show ?case by (simp add: reached_def skipped_def)
next
  case (Cons r rs)
  have b: "b = beginSeqNum r" and lr: "0 < rlen r" "rlen r < half"
    and ch: "checkRegions (endSeqNum r) rs e" and le: "length (bytes_of rs) < half"
    using Cons.prems(3,4) by (auto simp: seqLess_rlen)
  have stop: "seqLE (endSeqNum r) n \<longleftrightarrow> rlen r \<le> sdist b n"
    using seqLE_window [of b "endSeqNum r" n] Cons.prems(5) lr b by (simp add: rlen_def)
  show ?case
  proof (cases "rlen r \<le> sdist b n")
    case False
    then have "covers r n"
      using Cons.prems(5) b lr seqLE_window [of b b n] seqLess_window [of b n "endSeqNum r"]
      by (simp add: covers_def rlen_def)
    with False stop b show ?thesis
      by (intro Cons.prems(2) [of r rs]) (auto simp: reached_def skipped_def)
  next
    case True
    with b have d: "sdist (endSeqNum r) n = sdist b n - rlen r"
      using sdist_le_sub [of b "endSeqNum r" n] by (simp add: rlen_def)
    then have dl: "sdist (endSeqNum r) n < half" using Cons.prems(5) by simp
    have hop: "skipped n (r # rs) = r # skipped n rs" "reached n (r # rs) = reached n rs"
      using True stop by (simp_all add: skipped_def reached_def)
    show ?thesis
    proof (rule Cons.IH [OF _ _ ch le dl], goal_cases)
      case 1
      with True d hop show ?thesis by (intro Cons.prems(1)) auto
    next
      case (2 r' rs')
      with True d hop show ?thesis by (intro Cons.prems(2) [of r' rs']) auto
    qed
  qed
qed

lemma sdist_of_covers:
  "covers r n \<Longrightarrow> sdist (beginSeqNum r) n < half \<Longrightarrow> rlen r < half \<Longrightarrow>
     sdist (beginSeqNum r) n < rlen r \<and> sdist n (endSeqNum r) = rlen r - sdist (beginSeqNum r) n"
  using seqLess_window [of "beginSeqNum r" n "endSeqNum r"]
    sdist_le_sub [of "beginSeqNum r" n "endSeqNum r"]
  by (simp add: covers_def rlen_def)

lemma chunk_at_spec:
  assumes "chunk_at n r rs = (pre, suf)" and d: "d = sdist (beginSeqNum r) n"
    and lt: "d < rlen r" and rest: "sdist n (endSeqNum r) = rlen r - d" and half: "rlen r < half"
    and ch: "checkRegions (endSeqNum r) rs e"
  shows "bytes_of pre = replicate d (sacked r, rexmitted r) \<and>
    bytes_of suf = replicate (rlen r - d) (sacked r, rexmitted r) @ bytes_of rs \<and>
    checkRegions (beginSeqNum r) pre n \<and> checkRegions n suf e \<and> suf \<noteq> []"
proof (cases "beginSeqNum r = n")
  case True
  then have "pre = []" "suf = r # rs" "d = 0"
    using assms(1) d by (simp_all add: chunk_at_def)
  then show ?thesis using True ch half lt seqLess_rlen [of r] by (simp add: rbits_def)
next
  case False
  then have ps: "pre = [r\<lparr>endSeqNum := n\<rparr>]" "suf = r\<lparr>beginSeqNum := n\<rparr> # rs"
    using assms(1) by (simp_all add: chunk_at_def)
  have "rlen (r\<lparr>endSeqNum := n\<rparr>) = d" "rlen (r\<lparr>beginSeqNum := n\<rparr>) = rlen r - d"
    using d rest by (simp_all add: rlen_def)
  moreover have "seqLess (beginSeqNum r) n" "seqLess n (endSeqNum r)"
    using False d lt half rest by (auto simp: seqLess_sdist)
  ultimately show ?thesis using ps ch by (simp add: rbits_def)
qed

lemma walk_past_end:
  assumes "checkRegions b rs e" and "length (bytes_of rs) < half" and "sdist b n < half"
    and "length (bytes_of rs) \<le> sdist b n"
  shows "reached n rs = []" and "skipped n rs = rs"
proof -
  have "reached n rs = [] \<and> skipped n rs = rs"
    using assms(1-3)
  proof (cases rule: walk_cases)
    case all
    then show ?thesis by simp
  next
    case (inside r rs')
    have "length (bytes_of rs) = length (bytes_of (skipped n rs @ r # rs'))"
      using inside(2) by simp
    with inside(6) assms(4) show ?thesis by simp
  qed
  then show "reached n rs = []" and "skipped n rs = rs" by simp_all
qed

text \<open>Cutting the queue at a byte inside it, as \<open>enqueueSentData\<close> and \<open>setSackedBit\<close> do.\<close>

lemma cut_at:
  assumes ch: "checkRegions b rs e" and len: "length (bytes_of rs) < half"
    and n: "sdist b n < length (bytes_of rs)"
  obtains r rs' pre suf where "reached n rs = r # rs'" "covers r n" "chunk_at n r rs' = (pre, suf)"
    "checkRegions b (skipped n rs @ pre) n" "checkRegions n suf e" "suf \<noteq> []"
    "bytes_of (skipped n rs @ pre) = take (sdist b n) (bytes_of rs)"
    "bytes_of suf = drop (sdist b n) (bytes_of rs)"
proof -
  have nh: "sdist b n < half" using n len by simp
  from ch len nh show thesis
  proof (cases rule: walk_cases)
    case all
    with n show ?thesis by simp
  next
    case (inside r rs')
    let ?A = "skipped n rs" and ?d = "sdist (beginSeqNum r) n"
    have ch': "checkRegions b (?A @ r # rs') e" using ch inside(2) by simp
    then have cA: "checkRegions b ?A (beginSeqNum r)" and cr: "checkRegions (beginSeqNum r) (r # rs') e"
      using inside(3) by (simp_all add: checkRegions_append)
    have lr: "0 < rlen r" "rlen r < half" using cr by (auto simp: seqLess_rlen)
    have dr: "?d < rlen r" "sdist n (endSeqNum r) = rlen r - ?d"
      using sdist_of_covers [OF inside(7)] inside(4-6) lr nh by auto
    have bytes: "bytes_of rs = bytes_of ?A @ rbits r @ bytes_of rs'"
      using inside(2) by (metis bytes_of_simps(2,3))
    obtain pre suf where chunk: "chunk_at n r rs' = (pre, suf)" by fastforce
    have "checkRegions (endSeqNum r) rs' e" using cr by simp
    note chunk_at_spec [OF chunk refl dr lr(2) this]
    then have pre: "bytes_of pre = replicate ?d (sacked r, rexmitted r)"
      and suf: "bytes_of suf = replicate (rlen r - ?d) (sacked r, rexmitted r) @ bytes_of rs'"
      and chs: "checkRegions (beginSeqNum r) pre n" "checkRegions n suf e" "suf \<noteq> []" by auto
    have k: "sdist b n = length (bytes_of ?A) + ?d" using inside(4,5) by simp
    have "checkRegions b (?A @ pre) n"
      using cA chs(1) inside(3) by (simp add: checkRegions_append)
    moreover have "bytes_of (?A @ pre) = take (sdist b n) (bytes_of rs)"
      using dr(1) by (simp add: k bytes pre rbits_def min_def)
    moreover have "bytes_of suf = drop (sdist b n) (bytes_of rs)"
      using dr(1) by (simp add: k bytes suf rbits_def)
    ultimately show ?thesis
      using that inside(1,7) chunk chs(2,3) by blast
  qed
qed

text \<open>The same in a well-formed queue, with the assertions that guard the walk.\<close>

lemma sq_wf_chain: "sq_wf q \<Longrightarrow> checkRegions (q_begin q) (rexmitQueue q) (q_end q)"
  by (simp add: sq_wf_def checkQueue_def)

lemma sq_wf_len: "sq_wf q \<Longrightarrow> length (bytes_of (rexmitQueue q)) < half"
  by (simp add: sq_wf_def sq_bytes_def)

lemma sq_length: "sq_wf q \<Longrightarrow> sdist (q_begin q) (q_end q) = length (sq_bytes q)"
  using chain_length [OF sq_wf_chain, of q] sq_wf_len [of q] by (simp add: sq_bytes_def)

lemma sq_wfI:
  assumes "checkRegions b rs e" and "length (bytes_of rs) < half"
  shows "sq_wf (q\<lparr>rexmitQueue := rs, q_begin := b, q_end := e\<rparr>)"
    and "checked (q\<lparr>rexmitQueue := rs, q_begin := b, q_end := e\<rparr>) =
         Inr (q\<lparr>rexmitQueue := rs, q_begin := b, q_end := e\<rparr>)"
  using assms by (simp_all add: sq_wf_def checkQueue_def sq_bytes_def checked_def)

lemma in_window_iff:
  assumes "sq_wf q" and "sdist (q_begin q) n < half"
  shows "seqLE (q_begin q) n" and "seqLE n (q_end q) \<longleftrightarrow> sdist (q_begin q) n \<le> length (sq_bytes q)"
    and "seqLess n (q_end q) \<longleftrightarrow> sdist (q_begin q) n < length (sq_bytes q)"
  using assms seqLE_window [of "q_begin q" n "q_end q"] seqLess_window [of "q_begin q" n "q_end q"]
    sq_length [OF assms(1)] sq_wf_len [OF assms(1)]
  by (auto simp: seqLE_sdist sq_bytes_def)

section \<open>Discarding acknowledged data\<close>

lemma discardUpTo_bytes:
  assumes wf: "sq_wf q" and n: "sdist (q_begin q) n \<le> length (sq_bytes q)"
  shows "\<exists>q'. sq_discardUpTo n q = Inr q' \<and> sq_wf q' \<and> q_begin q' = n \<and> q_end q' = q_end q \<and>
    sq_bytes q' = drop (sdist (q_begin q) n) (sq_bytes q)"
proof -
  let ?rs = "rexmitQueue q" and ?d = "sdist (q_begin q) n"
  have ch: "checkRegions (q_begin q) ?rs (q_end q)" and len: "length (bytes_of ?rs) < half"
    using wf by (simp_all add: sq_wf_chain sq_wf_len)
  have guard: "seqLE (q_begin q) n" "seqLE n (q_end q)"
    using in_window_iff [OF wf] n len by (simp_all add: sq_bytes_def)
  show ?thesis
  proof (cases "?d < length (sq_bytes q)")
    case True
    with ch len obtain r rs' pre suf where cut: "reached n ?rs = r # rs'" "covers r n"
      "chunk_at n r rs' = (pre, suf)" "checkRegions n suf (q_end q)"
      "bytes_of suf = drop ?d (bytes_of ?rs)"
      by (elim cut_at [of "q_begin q" ?rs "q_end q" n]) (auto simp: sq_bytes_def)
    have "suf = r\<lparr>beginSeqNum := n\<rparr> # rs'"
      using cut(3) by (auto simp: chunk_at_def split: if_splits)
    with cut guard len sq_wfI [OF cut(4), of q] show ?thesis
      by (simp add: sq_discardUpTo_def sq_bytes_def)
  next
    case False
    then have "n = q_end q"
      using n sq_length [OF wf] by (intro sdist_inj [of "q_begin q"]) simp
    moreover have "reached n ?rs = []"
      using walk_past_end [OF ch len] False n len by (simp add: sq_bytes_def)
    ultimately show ?thesis
      using guard False sq_wfI [of n "[]" "q_end q" q]
      by (simp add: sq_discardUpTo_def sq_bytes_def)
  qed
qed

section \<open>Recording sent data\<close>

lemma bytes_of_cut_region:
  assumes "d = sdist (beginSeqNum r) t" "d < rlen r" "sdist t (endSeqNum r) = rlen r - d"
  shows "rbits (r\<lparr>beginSeqNum := t\<rparr>) = drop d (rbits r)"
    and "rbits (r\<lparr>endSeqNum := t, sacked := True\<rparr>) = mark_sack (take d (rbits r))"
    and "rbits \<lparr>beginSeqNum = beginSeqNum r, endSeqNum = t, sacked = sacked r, rexmitted = True\<rparr> =
         mark_rexmitted (take d (rbits r))"
  using assms by (simp_all add: rbits_def rlen_def min_def)

lemma seqLess_of_dist: "0 < d \<Longrightarrow> d < half \<Longrightarrow> sdist a b = d \<Longrightarrow> seqLess a b"
  by (auto simp: seqLess_sdist)

text \<open>The regions from \<open>n\<close> on after a (re)transmission of \<open>[n, t)\<close>.\<close>

lemma retransmit_walk:
  assumes ch: "checkRegions n suf e" and len: "length (bytes_of suf) < half"
    and t: "n \<noteq> t" "sdist n t < half"
  defines "marked \<equiv> map (\<lambda>r. r\<lparr>rexmitted := True\<rparr>) (skipped t suf)"
    and "k \<equiv> sdist n t"
  shows "\<exists>tl'. tail_region (endOf n marked) t (reached t suf) = Inr tl' \<and>
    (marked = [] \<longrightarrow> endOf n marked \<noteq> t) \<and>
    checkRegions n (marked @ tl') (if k \<le> length (bytes_of suf) then e else t) \<and>
    bytes_of (marked @ tl') = mark_rexmitted (take k (bytes_of suf)) @
      replicate (k - length (bytes_of suf)) (False, False) @ drop k (bytes_of suf)"
  using ch len t(2)
proof (cases rule: walk_cases)
  case all
  have end_e: "endOf n marked = e"
    using all(2) checkRegions_end [OF ch] by (simp add: marked_def)
  have chm: "checkRegions n marked e"
    using ch all(2) by (simp add: marked_def checkRegions_map)
  have ne: "sdist n e = length (bytes_of suf)" using chain_length [OF ch] len by simp
  have et: "sdist e t = k - length (bytes_of suf)"
    using sdist_le_sub [of n e t] all(3) ne by (simp add: k_def)
  have fst: "marked = [] \<longrightarrow> endOf n marked \<noteq> t" using t(1) by simp
  show ?thesis
  proof (cases "e = t")
    case True
    with ne have k: "k = length (bytes_of suf)" by (simp add: k_def)
    show ?thesis
      using True end_e chm all(1,2) k fst
      by (intro exI [of _ "[]"]) (simp add: tail_region_def, simp add: marked_def)
  next
    case False
    with et have klt: "length (bytes_of suf) < k"
      by (metis diff_is_0_eq linorder_not_le sdist_eq_0_iff)
    let ?new = "\<lparr>beginSeqNum = e, endSeqNum = t, sacked = False, rexmitted = False\<rparr>"
    have "seqLess e t"
      using et klt t(2) by (intro seqLess_of_dist [of "k - length (bytes_of suf)"]) (auto simp: k_def)
    then have "checkRegions n (marked @ [?new]) t"
      using chm end_e by (simp add: checkRegions_append)
    moreover have "rbits ?new = replicate (k - length (bytes_of suf)) (False, False)"
      using et by (simp add: rbits_def rlen_def)
    moreover have "bytes_of marked = mark_rexmitted (bytes_of suf)"
      using all(2) by (simp add: marked_def)
    moreover have "tail_region (endOf n marked) t (reached t suf) = Inr [?new]"
      using False all(1) end_e by (simp add: tail_region_def)
    ultimately show ?thesis using klt fst by (intro exI [of _ "[?new]"]) simp
  qed
next
  case (inside r rs')
  let ?d = "sdist (beginSeqNum r) t" and ?A = "skipped t suf"
  have ch2: "checkRegions n (?A @ r # rs') e" using ch inside(2) by simp
  then have cA: "checkRegions n ?A (endOf n ?A)" and cr: "checkRegions (endOf n ?A) (r # rs') e"
    by (simp_all only: checkRegions_append)
  have lr: "0 < rlen r" "rlen r < half" using cr seqLess_rlen [of r] by auto
  have dr: "?d < rlen r" "sdist t (endSeqNum r) = rlen r - ?d"
    using sdist_of_covers [OF inside(7)] inside(4-6) lr t(2) by auto
  have bytes: "bytes_of suf = bytes_of ?A @ rbits r @ bytes_of rs'"
    using inside(2) by (metis bytes_of_simps(2,3))
  have k: "k = length (bytes_of ?A) + ?d" using inside(4,5) by (simp add: k_def)
  have end_m: "endOf n marked = beginSeqNum r" using inside(3) by (simp add: marked_def)
  have cm: "checkRegions n marked (beginSeqNum r)"
    using cA inside(3) by (simp add: marked_def checkRegions_map)
  have fst: "marked = [] \<longrightarrow> endOf n marked \<noteq> t" using t(1) by simp
  have kle: "k \<le> length (bytes_of suf)" using dr(1) by (simp add: bytes k)
  have bm: "bytes_of marked = mark_rexmitted (bytes_of ?A)" by (simp add: marked_def)
  show ?thesis
  proof (cases "beginSeqNum r = t")
    case True
    then have "?d = 0" by simp
    with True show ?thesis
      using inside(1) end_m fst kle bm cm cr
      by (intro exI [of _ "r # rs'"])
        (simp add: tail_region_def checkRegions_append, simp add: bytes k)
  next
    case False
    let ?new = "\<lparr>beginSeqNum = beginSeqNum r, endSeqNum = t, sacked = sacked r, rexmitted = True\<rparr>"
      and ?rest = "r\<lparr>beginSeqNum := t\<rparr>"
    have less: "seqLess (beginSeqNum r) t" "seqLess t (endSeqNum r)"
      using False dr lr by (auto simp: seqLess_sdist)
    have "tail_region (endOf n marked) t (reached t suf) = Inr (?new # ?rest # rs')"
      using False end_m less inside(1) by (simp add: tail_region_def)
    moreover have "checkRegions n (marked @ ?new # ?rest # rs') e"
      using cm cr end_m less by (simp add: checkRegions_append)
    moreover have "bytes_of (marked @ ?new # ?rest # rs') =
        mark_rexmitted (take k (bytes_of suf)) @ drop k (bytes_of suf)"
      using bytes_of_cut_region [OF refl dr] dr(1) bm by (simp add: bytes k)
    ultimately show ?thesis using kle fst by (intro exI [of _ "?new # ?rest # rs'"]) simp
  qed
qed

lemma refresh_bounds_ok:
  assumes "checkRegions (q_begin q) rs e" and "length (bytes_of rs) < half" and "rs \<noteq> []"
  shows "\<exists>q'. refresh_bounds rs q = Inr q' \<and> sq_wf q' \<and> q_begin q' = q_begin q \<and>
    q_end q' = e \<and> sq_bytes q' = bytes_of rs"
proof -
  have "beginSeqNum (hd rs) = q_begin q" "endSeqNum (last rs) = e"
    using assms chain_hd chain_last by blast+
  then show ?thesis
    using sq_wfI [OF assms(1,2), of q] by (simp add: refresh_bounds_def sq_bytes_def)
qed

lemma length_abs_enqueue: "i \<le> length a \<Longrightarrow> i \<le> j \<Longrightarrow> length (abs_enqueue i j a) = max j (length a)"
  by (auto simp: abs_enqueue_def)

lemma enqueueSentData_bytes:
  fixes f t :: u32
  assumes wf: "sq_wf q"
  defines "i \<equiv> sdist (q_begin q) f" and "j \<equiv> sdist (q_begin q) t"
  assumes ij: "i \<le> length (sq_bytes q)" "i < j" "j < half"
  shows "\<exists>q'. enqueueSentData f t q = Inr q' \<and> sq_wf q' \<and> q_begin q' = q_begin q \<and>
    q_end q' = (if j \<le> length (sq_bytes q) then q_end q else t) \<and>
    sq_bytes q' = abs_enqueue i j (sq_bytes q)"
proof -
  let ?rs = "rexmitQueue q" and ?b = "q_begin q" and ?e = "q_end q"
  have ch: "checkRegions ?b ?rs ?e" and len: "length (bytes_of ?rs) < half"
    using wf by (simp_all add: sq_wf_chain sq_wf_len)
  have win: "sdist ?b f < half" "sdist ?b t < half" using ij by (simp_all add: i_def j_def)
  have guard: "seqLE ?b f" "seqLE f ?e" "seqLess f t"
    using in_window_iff [OF wf win(1)] seqLess_window [OF win] ij by (simp_all add: i_def j_def)
  have ft: "sdist f t = j - i" using sdist_le_sub [of ?b f t] ij by (simp add: i_def j_def)
  show ?thesis
  proof (cases "?rs = [] \<or> ?e = f")
    case True
    let ?new = "\<lparr>beginSeqNum = f, endSeqNum = t, sacked = False, rexmitted = False\<rparr>"
    have i: "i = length (sq_bytes q)"
      using True ij(1) sq_length [OF wf] by (auto simp: i_def sq_bytes_def)
    then have fe: "f = ?e" using sq_length [OF wf] by (intro sdist_inj [of ?b]) (simp add: i_def)
    have "checkRegions ?b (?rs @ [?new]) t"
      using ch guard(3) fe checkRegions_end [OF ch] by (simp add: checkRegions_append)
    moreover have "bytes_of (?rs @ [?new]) = abs_enqueue i j (sq_bytes q)"
      using ft i ij(2) by (simp add: abs_enqueue_def sq_bytes_def rbits_def rlen_def)
    moreover have "length (abs_enqueue i j (sq_bytes q)) < half"
      using length_abs_enqueue [of i "sq_bytes q" j] i ij by simp
    ultimately show ?thesis
      using refresh_bounds_ok [of q "?rs @ [?new]" t] guard True i ij(2)
      by (simp add: enqueueSentData_def)
  next
    case False
    then have "i < length (sq_bytes q)"
      using ij(1) sq_length [OF wf] sdist_inj [of ?b f ?e] by (fastforce simp: i_def)
    with ch len obtain r rs' pre suf where cut: "reached f ?rs = r # rs'" "covers r f"
      "chunk_at f r rs' = (pre, suf)" "checkRegions ?b (skipped f ?rs @ pre) f"
      "checkRegions f suf ?e" "suf \<noteq> []"
      "bytes_of (skipped f ?rs @ pre) = take i (bytes_of ?rs)" "bytes_of suf = drop i (bytes_of ?rs)"
      by (elim cut_at [of ?b ?rs ?e f]) (auto simp: sq_bytes_def i_def)
    have ls: "length (bytes_of suf) < half" using cut(8) len by simp
    have "f \<noteq> t" "sdist f t < half" using ft ij by auto
    from retransmit_walk [OF cut(5) ls this] obtain tl' where tl':
      "tail_region (endOf f (map (\<lambda>r. r\<lparr>rexmitted := True\<rparr>) (skipped t suf))) t (reached t suf) = Inr tl'"
      "map (\<lambda>r. r\<lparr>rexmitted := True\<rparr>) (skipped t suf) = [] \<longrightarrow>
         endOf f (map (\<lambda>r. r\<lparr>rexmitted := True\<rparr>) (skipped t suf)) \<noteq> t"
      "checkRegions f (map (\<lambda>r. r\<lparr>rexmitted := True\<rparr>) (skipped t suf) @ tl')
         (if j - i \<le> length (bytes_of suf) then ?e else t)"
      "bytes_of (map (\<lambda>r. r\<lparr>rexmitted := True\<rparr>) (skipped t suf) @ tl') =
         mark_rexmitted (take (j - i) (bytes_of suf)) @
         replicate (j - i - length (bytes_of suf)) (False, False) @ drop (j - i) (bytes_of suf)"
      using ft by auto
    let ?marked = "map (\<lambda>r. r\<lparr>rexmitted := True\<rparr>) (skipped t suf)"
    let ?all = "(skipped f ?rs @ pre) @ ?marked @ tl'"
    have side: "j - i \<le> length (bytes_of suf) \<longleftrightarrow> j \<le> length (sq_bytes q)"
      using ij \<open>i < length (sq_bytes q)\<close> by (auto simp: cut(8) sq_bytes_def)
    have "endOf ?b (skipped f ?rs @ pre) = f" using checkRegions_end [OF cut(4)] by simp
    then have "checkRegions ?b ?all (if j \<le> length (sq_bytes q) then ?e else t)"
      using cut(4) tl'(3) unfolding side checkRegions_append [of _ "skipped f ?rs @ pre"] by simp
    moreover have bytes: "bytes_of ?all = abs_enqueue i j (sq_bytes q)"
      using ij unfolding bytes_of_simps(3) [of "skipped f ?rs @ pre"] cut(7) tl'(4)
      by (simp add: abs_enqueue_def sq_bytes_def cut(8))
    moreover have "length (abs_enqueue i j (sq_bytes q)) < half"
      using length_abs_enqueue [of i "sq_bytes q" j] ij len by (simp add: sq_bytes_def)
    moreover have "?all \<noteq> []"
      using bytes length_abs_enqueue [of i "sq_bytes q" j] ij by (metis bytes_of_simps(1)
          less_imp_le_nat list.size(3) max.cobounded1 not_less_zero order_less_le_trans)
    ultimately show ?thesis
      using refresh_bounds_ok [of q ?all] guard False cut(1-3) tl'(1,2)
      by (simp add: enqueueSentData_def Let_def)
  qed
qed

section \<open>Recording selective acknowledgements\<close>

lemma chain_begins_later:
  assumes "checkRegions n suf e" and "length (bytes_of suf) < half" and "r \<in> set suf"
  shows "seqGE (beginSeqNum r) n"
proof -
  obtain xs ys where suf: "suf = xs @ r # ys" using assms(3) by (meson split_list)
  then have "checkRegions n xs (beginSeqNum r)"
    using assms(1) by (auto simp: checkRegions_append)
  then have "sdist n (beginSeqNum r) = length (bytes_of xs)"
    by (rule chain_length) (use assms(2) suf in simp)
  then show ?thesis using assms(2) suf by (simp add: seqGE_seqLE seqLE_sdist)
qed

lemma rbits_set_sacked [simp]: "rbits (r\<lparr>sacked := True\<rparr>) = mark_sack (rbits r)"
  by (simp add: rbits_def rlen_def)

lemma bytes_of_mark_sacked:
  "(\<And>r. r \<in> set rs \<Longrightarrow> seqGE (beginSeqNum r) n) \<Longrightarrow>
     bytes_of (map (mark_sacked n) rs) = mark_sack (bytes_of rs)"
  by (induction rs) (auto simp: mark_sacked_def)

lemma mark_sacked_bounds [simp]:
  "beginSeqNum (mark_sacked n r) = beginSeqNum r" "endSeqNum (mark_sacked n r) = endSeqNum r"
  by (simp_all add: mark_sacked_def)

lemma sack_walk:
  assumes ch: "checkRegions n suf e" and len: "length (bytes_of suf) < half"
    and t: "sdist n t \<le> length (bytes_of suf)"
  defines "S \<equiv> map (mark_sacked n) (skipped t suf) @ split_sacked t (reached t suf)"
  shows "checkRegions n S e \<and>
    bytes_of S = mark_sack (take (sdist n t) (bytes_of suf)) @ drop (sdist n t) (bytes_of suf)"
proof -
  have th: "sdist n t < half" using t len by simp
  have marked: "bytes_of (map (mark_sacked n) (skipped t suf)) = mark_sack (bytes_of (skipped t suf))"
    using chain_begins_later [OF ch len] drop_takeWhile_nth
    by (intro bytes_of_mark_sacked) (fastforce simp: skipped_def)
  from ch len th show ?thesis
  proof (cases rule: walk_cases)
    case all
    with t have "sdist n t = length (bytes_of suf)" by simp
    then show ?thesis
      using all marked ch by (simp add: S_def split_sacked_def checkRegions_map)
  next
    case (inside r rs')
    let ?d = "sdist (beginSeqNum r) t" and ?A = "skipped t suf"
    have ch2: "checkRegions n (?A @ r # rs') e" using ch inside(2) by simp
    then have cA: "checkRegions n ?A (endOf n ?A)" and cr: "checkRegions (endOf n ?A) (r # rs') e"
      by (simp_all only: checkRegions_append)
    have lr: "0 < rlen r" "rlen r < half" using cr seqLess_rlen [of r] by auto
    have dr: "?d < rlen r" "sdist t (endSeqNum r) = rlen r - ?d"
      using sdist_of_covers [OF inside(7)] inside(4-6) lr th by auto
    have bytes: "bytes_of suf = bytes_of ?A @ rbits r @ bytes_of rs'"
      using inside(2) by (metis bytes_of_simps(2,3))
    have k: "sdist n t = length (bytes_of ?A) + ?d" using inside(4,5) by simp
    have cut: "seqLess (beginSeqNum r) t \<and> seqLess t (endSeqNum r) \<longleftrightarrow> beginSeqNum r \<noteq> t"
      using dr lr by (auto simp: seqLess_sdist)
    have cm: "checkRegions n (map (mark_sacked n) ?A) (beginSeqNum r)"
      using cA inside(3) by (simp add: checkRegions_map)
    show ?thesis
    proof (cases "beginSeqNum r = t")
      case True
      then have "?d = 0" by simp
      with True show ?thesis
        using cr cm marked inside(1,3) cut
        by (simp add: S_def split_sacked_def checkRegions_append k bytes)
    next
      case False
      have "split_sacked t (reached t suf) =
          r\<lparr>endSeqNum := t, sacked := True\<rparr> # r\<lparr>beginSeqNum := t\<rparr> # rs'"
        using False cut inside(1) by (simp add: split_sacked_def)
      then show ?thesis
        using cr cm marked inside(3) cut False bytes_of_cut_region [OF refl dr] dr(1)
        by (simp add: S_def checkRegions_append k bytes)
    qed
  qed
qed

lemma setSackedBit_bytes:
  fixes f t :: u32
  assumes wf: "sq_wf q"
  defines "i \<equiv> (if seqLess f (q_begin q) then 0 else sdist (q_begin q) f)"
    and "j \<equiv> sdist (q_begin q) t"
  assumes ij: "i < j" "j \<le> length (sq_bytes q)"
  shows "\<exists>q'. setSackedBit f t q = Inr q' \<and> sq_wf q' \<and> q_begin q' = q_begin q \<and>
    q_end q' = q_end q \<and> sq_bytes q' = abs_sack i j (sq_bytes q)"
proof -
  let ?rs = "rexmitQueue q" and ?b = "q_begin q" and ?e = "q_end q"
  define f' where "f' = (if seqLess f ?b then ?b else f)"
  have i: "i = sdist ?b f'" by (simp add: i_def f'_def)
  have ch: "checkRegions ?b ?rs ?e" and len: "length (bytes_of ?rs) < half"
    using wf by (simp_all add: sq_wf_chain sq_wf_len)
  have win: "sdist ?b f' < half" "sdist ?b t < half"
    using ij len by (simp_all add: i j_def sq_bytes_def)
  have guard: "seqLess f' ?e" "seqLE t ?e" "seqLess f' t"
    using in_window_iff(3) [OF wf win(1)] in_window_iff(2) [OF wf win(2)] seqLess_window [OF win] ij
    by (simp_all add: i j_def)
  have bt: "seqLess ?b t"
    by (rule seqLess_of_dist [OF _ _ refl]) (use ij(1) win(2) in \<open>unfold j_def, linarith+\<close>)
  have ft: "sdist f' t = j - i" using sdist_le_sub [of ?b f' t] ij by (simp add: i j_def)
  have "i < length (bytes_of ?rs)" using ij by (simp add: sq_bytes_def)
  with ch len obtain r rs' pre suf where cut: "reached f' ?rs = r # rs'" "covers r f'"
    "chunk_at f' r rs' = (pre, suf)" "checkRegions ?b (skipped f' ?rs @ pre) f'"
    "checkRegions f' suf ?e"
    "bytes_of (skipped f' ?rs @ pre) = take i (bytes_of ?rs)" "bytes_of suf = drop i (bytes_of ?rs)"
    by (elim cut_at [of ?b ?rs ?e f']) (auto simp: i)
  have ls: "length (bytes_of suf) < half" and tl: "sdist f' t \<le> length (bytes_of suf)"
    using cut(7) len ft ij by (simp_all add: sq_bytes_def)
  let ?S = "map (mark_sacked f') (skipped t suf) @ split_sacked t (reached t suf)"
  let ?all = "(skipped f' ?rs @ pre) @ ?S"
  have S: "checkRegions f' ?S ?e"
    "bytes_of ?S = mark_sack (take (j - i) (bytes_of suf)) @ drop (j - i) (bytes_of suf)"
    using sack_walk [OF cut(5) ls tl] ft by simp_all
  have "endOf ?b (skipped f' ?rs @ pre) = f'" using checkRegions_end [OF cut(4)] by simp
  then have chain: "checkRegions ?b ?all ?e"
    using cut(4) S(1) unfolding checkRegions_append [of _ "skipped f' ?rs @ pre"] by simp
  have bytes: "bytes_of ?all = abs_sack i j (sq_bytes q)"
    using ij unfolding bytes_of_simps(3) [of "skipped f' ?rs @ pre"] cut(6) S(2)
    by (simp add: abs_sack_def sq_bytes_def cut(7))
  have "length (bytes_of ?all) = length (sq_bytes q)"
    using ij unfolding bytes by (simp add: abs_sack_def)
  then have "checked (q\<lparr>rexmitQueue := ?all\<rparr>) = Inr (q\<lparr>rexmitQueue := ?all\<rparr>)"
    "sq_wf (q\<lparr>rexmitQueue := ?all\<rparr>)"
    using sq_wfI [OF chain, of q] len by (simp_all add: sq_bytes_def)
  moreover have "?rs \<noteq> []" using cut(1) by (auto simp: reached_def)
  ultimately show ?thesis
    using guard bt cut(1-3) bytes
    by (simp add: setSackedBit_def Let_def f'_def [symmetric] sq_bytes_def)
qed

section \<open>Queries\<close>

text \<open>The number of maximal runs of \<open>True\<close>.\<close>

fun runs :: "bool \<Rightarrow> bool list \<Rightarrow> nat" where
  "runs prev [] = 0"
| "runs prev (b # bs) = (if b \<and> \<not> prev then Suc (runs b bs) else runs b bs)"

abbreviation sacked_bits :: "(bool \<times> bool) list \<Rightarrow> nat" where
  "sacked_bits a \<equiv> length (filter fst a)"

lemma runs_replicate_same: "runs b (replicate n b @ bs) = runs b bs"
  by (induction n) auto

lemma runs_replicate:
  "0 < n \<Longrightarrow> runs prev (replicate n b @ bs) = (if b \<and> \<not> prev then 1 else 0) + runs b bs"
  by (cases n) (auto simp: runs_replicate_same)

lemma runs_le_Suc: "runs False bs \<le> Suc (runs prev bs) \<and> runs prev bs \<le> runs False bs"
  by (cases bs) auto

lemma runs_drop_le: "runs False (drop n bs) \<le> runs False bs"
proof (induction n arbitrary: bs)
  case 0
  then show ?case by simp
next
  case (Suc n)
  show ?case
  proof (cases bs)
    case Nil
    then show ?thesis by simp
  next
    case (Cons b cs)
    have "runs False cs \<le> runs False (b # cs)" using runs_le_Suc [of cs True] by (cases b) auto
    with Suc.IH [of cs] Cons show ?thesis by simp
  qed
qed

lemma sacked_bits_drop_le: "sacked_bits (drop n a) \<le> sacked_bits a"
proof -
  have "sacked_bits a = sacked_bits (take n a) + sacked_bits (drop n a)"
    by (metis append_take_drop_id filter_append length_append)
  then show ?thesis by simp
qed

lemma getSackedBit_bytes:
  assumes wf: "sq_wf q" and n: "sdist (q_begin q) n < length (sq_bytes q)"
  shows "getSackedBit n q = Inr (fst (sq_bytes q ! sdist (q_begin q) n))"
proof -
  let ?rs = "rexmitQueue q" and ?d = "sdist (q_begin q) n"
  have ch: "checkRegions (q_begin q) ?rs (q_end q)" and len: "length (bytes_of ?rs) < half"
    using wf by (simp_all add: sq_wf_chain sq_wf_len)
  have dh: "?d < half" using n len by (simp add: sq_bytes_def)
  from ch len dh show ?thesis
  proof (cases rule: walk_cases)
    case all
    with n show ?thesis by (simp add: sq_bytes_def)
  next
    case (inside r rs')
    have "bytes_of ?rs = bytes_of (skipped n ?rs) @ rbits r @ bytes_of rs'"
      using inside(2) by (metis bytes_of_simps(2,3))
    then have "sq_bytes q ! ?d = (sacked r, rexmitted r)"
      using inside(4,6) less_diff_conv2 by (auto simp: sq_bytes_def nth_append rbits_def)
    moreover have "q_end q \<noteq> n" using n sq_length [OF wf] by auto
    ultimately show ?thesis
      using inside(1,7) in_window_iff [OF wf dh] n by (simp add: getSackedBit_def)
  qed
qed

lemma checkSackBlock_bytes:
  assumes wf: "sq_wf q" and n: "sdist (q_begin q) n < length (sq_bytes q)"
  shows "\<exists>len s r rest. checkSackBlock n q = Inr (len, s, r) \<and> 0 < unat len \<and>
    drop (sdist (q_begin q) n) (sq_bytes q) = replicate (unat len) (s, r) @ rest"
proof -
  let ?rs = "rexmitQueue q" and ?d = "sdist (q_begin q) n"
  have ch: "checkRegions (q_begin q) ?rs (q_end q)" and len: "length (bytes_of ?rs) < half"
    using wf by (simp_all add: sq_wf_chain sq_wf_len)
  have dh: "?d < half" using n len by (simp add: sq_bytes_def)
  from ch len dh show ?thesis
  proof (cases rule: walk_cases)
    case all
    with n show ?thesis by (simp add: sq_bytes_def)
  next
    case (inside r rs')
    have bytes: "bytes_of ?rs = bytes_of (skipped n ?rs) @ rbits r @ bytes_of rs'"
      using inside(2) by (metis bytes_of_simps(2,3))
    have "checkRegions (beginSeqNum r) (r # rs') (q_end q)"
      using ch inside(2,3) checkRegions_append [of "q_begin q" "skipped n ?rs" "r # rs'"] by simp
    then have lr: "rlen r < half" using seqLess_rlen [of r] by simp
    have dr: "sdist (beginSeqNum r) n < rlen r"
      "sdist n (endSeqNum r) = rlen r - sdist (beginSeqNum r) n"
      using sdist_of_covers [OF inside(7)] inside(4-6) lr dh by auto
    have "drop ?d (bytes_of ?rs) =
        replicate (unat (endSeqNum r - n)) (sacked r, rexmitted r) @ bytes_of rs'"
      using dr inside(4,5) by (simp add: bytes rbits_def flip: sdist_def)
    moreover have "0 < unat (endSeqNum r - n)" using dr by (simp flip: sdist_def)
    moreover have "checkSackBlock n q = Inr (endSeqNum r - n, sacked r, rexmitted r)"
      using inside(1,7) in_window_iff [OF wf dh] n by (simp add: checkSackBlock_def)
    ultimately show ?thesis by (auto simp: sq_bytes_def)
  qed
qed

lemma sacked_bytes_count: "sacked_bytes rs c = c + of_nat (sacked_bits (bytes_of rs))"
proof (induction rs arbitrary: c)
  case Nil
  then show ?case by simp
next
  case (Cons r rs)
  have "endSeqNum r - beginSeqNum r = of_nat (rlen r)" by (simp add: rlen_def sdist_def)
  then show ?case by (simp add: Cons.IH rbits_def)
qed

lemma getTotalAmountOfSackedBytes_bytes:
  "getTotalAmountOfSackedBytes q = of_nat (sacked_bits (sq_bytes q))"
  by (simp add: getTotalAmountOfSackedBytes_def sacked_bytes_count sq_bytes_def)

lemma sdist_end_region: "endSeqNum r - beginSeqNum r = of_nat (rlen r)"
  by (simp add: rlen_def sdist_def)

text \<open>Both suffix queries see the suffix of the view from \<open>fromSeqNum\<close> on.\<close>

lemma sacked_above_rev:
  assumes "checkRegions b rs e" and "length (bytes_of rs) < half"
    and "sdist b n \<le> length (bytes_of rs)"
  shows "sacked_above n (rev rs) c = c + of_nat (sacked_bits (drop (sdist b n) (bytes_of rs)))"
  using assms
proof (induction rs arbitrary: e c rule: rev_induct)
  case Nil
  then show ?case by simp
next
  case (snoc r rs)
  have ch: "checkRegions b rs (beginSeqNum r)" and lr: "0 < rlen r" "rlen r < half"
    and len: "length (bytes_of rs) < half"
    using snoc.prems seqLess_rlen [of r] by (auto simp: checkRegions_append)
  have br: "sdist b (beginSeqNum r) = length (bytes_of rs)"
    using chain_length [OF ch] len by simp
  have nh: "sdist b n < half" using snoc.prems by simp
  have above: "seqLE n (beginSeqNum r) \<longleftrightarrow> sdist b n \<le> length (bytes_of rs)"
    using seqLE_window [OF nh, of "beginSeqNum r"] br len by simp
  show ?case
  proof (cases "sdist b n \<le> length (bytes_of rs)")
    case True
    then show ?thesis
      using snoc.IH [OF ch len True] above by (simp add: rbits_def sdist_end_region)
  next
    case False
    let ?d = "sdist b n - length (bytes_of rs)"
    have d: "sdist (beginSeqNum r) n = ?d"
      using sdist_le_sub [of b "beginSeqNum r" n] False br by simp
    have dle: "?d \<le> rlen r" using snoc.prems(3) False by simp
    have dn: "sdist n (endSeqNum r) = rlen r - ?d"
      using sdist_le_sub [of "beginSeqNum r" n "endSeqNum r"] d dle by (simp add: rlen_def)
    have ge: "seqLess (beginSeqNum r) n"
      using False d dle lr by (auto simp: seqLess_sdist)
    have lt: "seqLess n (endSeqNum r) \<longleftrightarrow> ?d < rlen r"
      using dn lr by (auto simp: seqLess_sdist simp flip: sdist_pos_iff)
    have "endSeqNum r - n = of_nat (sdist n (endSeqNum r))" by (simp add: sdist_def)
    then have val: "endSeqNum r - n = of_nat (rlen r - ?d)" using dn by simp
    show ?thesis
      using False above ge lt dle val by (auto simp: rbits_def)
  qed
qed

lemma getAmountOfSackedBytes_bytes:
  assumes wf: "sq_wf q" and n: "sdist (q_begin q) n \<le> length (sq_bytes q)"
  shows "getAmountOfSackedBytes n q =
    Inr (of_nat (sacked_bits (drop (sdist (q_begin q) n) (sq_bytes q))))"
proof -
  have "sdist (q_begin q) n < half" using n sq_wf_len [OF wf] by (simp add: sq_bytes_def)
  then show ?thesis
    using sacked_above_rev [OF sq_wf_chain [OF wf] sq_wf_len [OF wf], of n 0] n
      in_window_iff [OF wf, of n]
    by (simp add: getAmountOfSackedBytes_def sq_bytes_def)
qed

lemma count_sacks_runs:
  "checkRegions b rs e \<Longrightarrow>
     count_sacks prev rs c = c + of_nat (runs prev (map fst (bytes_of rs)))"
proof (induction rs arbitrary: b prev c)
  case Nil
  then show ?case by simp
next
  case (Cons r rs)
  then have "0 < rlen r" and ch: "checkRegions (endSeqNum r) rs e"
    using seqLess_rlen [of r] by auto
  then show ?case
    using Cons.IH [OF ch] by (simp add: rbits_def runs_replicate)
qed

lemma getNumOfDiscontiguousSacks_bytes:
  assumes wf: "sq_wf q" and n: "sdist (q_begin q) n \<le> length (sq_bytes q)"
  shows "getNumOfDiscontiguousSacks n q =
    Inr (of_nat (runs False (map fst (drop (sdist (q_begin q) n) (sq_bytes q)))))"
proof -
  let ?rs = "rexmitQueue q" and ?d = "sdist (q_begin q) n"
  have ch: "checkRegions (q_begin q) ?rs (q_end q)" and len: "length (bytes_of ?rs) < half"
    using wf by (simp_all add: sq_wf_chain sq_wf_len)
  have dh: "?d < half" using n len by (simp add: sq_bytes_def)
  have guard: "seqLE (q_begin q) n" "seqLE n (q_end q)" using in_window_iff [OF wf dh] n by simp_all
  show ?thesis
  proof (cases "?d < length (sq_bytes q)")
    case False
    then have "n = q_end q" using n sq_length [OF wf] by (intro sdist_inj [of "q_begin q"]) simp
    then show ?thesis using guard False by (simp add: getNumOfDiscontiguousSacks_def)
  next
    case True
    then have ne: "n \<noteq> q_end q" "?rs \<noteq> []" using sq_length [OF wf] by (auto simp: sq_bytes_def)
    from True ch len obtain r rs' pre suf where cut: "reached n ?rs = r # rs'"
      "chunk_at n r rs' = (pre, suf)" "checkRegions n suf (q_end q)"
      "bytes_of suf = drop ?d (bytes_of ?rs)"
      by (elim cut_at [of "q_begin q" ?rs "q_end q" n]) (auto simp: sq_bytes_def)
    have "count_sacks False (r # rs') 0 = count_sacks False suf 0"
      using cut(2) by (auto simp: chunk_at_def split: if_splits)
    then show ?thesis
      using count_sacks_runs [OF cut(3), of False 0] cut(1,4) guard ne
      by (simp add: getNumOfDiscontiguousSacks_def sq_bytes_def)
  qed
qed

text \<open>The highest marked byte: the length of the view up to and including it.\<close>

definition upto_last :: "('a \<Rightarrow> bool) \<Rightarrow> 'a list \<Rightarrow> nat" where
  "upto_last P a = length (dropWhile (\<lambda>x. \<not> P x) (rev a))"

lemma upto_last_append:
  "upto_last P (xs @ ys) = (if \<exists>y\<in>set ys. P y then length xs + upto_last P ys else upto_last P xs)"
  by (auto simp: upto_last_def dropWhile_append)

lemma upto_last_all: "ys \<noteq> [] \<Longrightarrow> P (last ys) \<Longrightarrow> upto_last P ys = length ys"
  by (cases ys rule: rev_cases) (simp_all add: upto_last_def)

lemma highest_walk:
  assumes "checkRegions b rs e" and "length (bytes_of rs) < half"
    and P: "\<And>r. r \<in> set rs \<Longrightarrow> P (sacked r, rexmitted r) \<longleftrightarrow> f r"
  shows "sdist b (case find f (rev rs) of Some r \<Rightarrow> endSeqNum r | None \<Rightarrow> b) =
    upto_last P (bytes_of rs)"
  using assms
proof (induction rs arbitrary: e rule: rev_induct)
  case Nil
  then show ?case by (simp add: upto_last_def)
next
  case (snoc r rs)
  have ch: "checkRegions b rs (beginSeqNum r)" and lr: "0 < rlen r"
    and len: "length (bytes_of rs) < half"
    using snoc.prems(1,2) seqLess_rlen [of r] by (auto simp: checkRegions_append)
  show ?case
  proof (cases "f r")
    case True
    have "endSeqNum r = e" using snoc.prems(1) by (auto simp: checkRegions_append)
    then have "sdist b (endSeqNum r) = length (bytes_of (rs @ [r]))"
      using chain_length [OF snoc.prems(1)] snoc.prems(2) by simp
    moreover have "upto_last P (bytes_of (rs @ [r])) = length (bytes_of (rs @ [r]))"
      using lr True snoc.prems(3) [of r] by (intro upto_last_all) (auto simp: rbits_def)
    ultimately show ?thesis using True by simp
  next
    case False
    then have "upto_last P (bytes_of (rs @ [r])) = upto_last P (bytes_of rs)"
      using snoc.prems(3) [of r] by (auto simp: upto_last_append rbits_def)
    then show ?thesis using snoc.IH [OF ch len] snoc.prems(3) False by simp
  qed
qed

lemma getHighestSackedSeqNum_bytes:
  "sq_wf q \<Longrightarrow> sdist (q_begin q) (getHighestSackedSeqNum q) = upto_last fst (sq_bytes q)"
  using highest_walk [OF sq_wf_chain sq_wf_len, of q fst sacked]
  by (simp add: getHighestSackedSeqNum_def sq_bytes_def)

lemma getHighestRexmittedSeqNum_bytes:
  "sq_wf q \<Longrightarrow> sdist (q_begin q) (getHighestRexmittedSeqNum q) = upto_last snd (sq_bytes q)"
  using highest_walk [OF sq_wf_chain sq_wf_len, of q snd rexmitted]
  by (simp add: getHighestRexmittedSeqNum_def sq_bytes_def)

lemma upto_last_le: "upto_last P a \<le> length a"
  using length_dropWhile_le [of "\<lambda>x. \<not> P x" "rev a"] by (simp add: upto_last_def)

lemma count_handled_bytes:
  assumes "checkRegions n suf e" and "length (bytes_of suf) < half"
  shows "count_handled suf n c =
    Inr (c + of_nat (length (takeWhile (\<lambda>(s, x). s \<or> x) (bytes_of suf))))"
  using assms
proof (induction suf arbitrary: n c)
  case Nil
  then show ?case by simp
next
  case (Cons r rs)
  have n: "n = beginSeqNum r" and ch: "checkRegions (endSeqNum r) rs e"
    and lr: "0 < rlen r" "rlen r < half"
    using Cons.prems seqLess_rlen [of r] by auto
  have "covers r n" using n Cons.prems(1) by (simp add: covers_def seqLE_sdist)
  then show ?case
    using Cons.IH [OF ch] Cons.prems(2) n lr
    by (auto simp: rbits_def sdist_end_region takeWhile_append)
qed

lemma checkRexmitQueue_bytes:
  assumes wf: "sq_wf q" and n: "sdist (q_begin q) n \<le> length (sq_bytes q)"
  shows "checkRexmitQueueForSackedOrRexmittedSegments n q =
    Inr (of_nat (length (takeWhile (\<lambda>(s, x). s \<or> x) (drop (sdist (q_begin q) n) (sq_bytes q)))))"
proof -
  let ?rs = "rexmitQueue q" and ?d = "sdist (q_begin q) n"
  have ch: "checkRegions (q_begin q) ?rs (q_end q)" and len: "length (bytes_of ?rs) < half"
    using wf by (simp_all add: sq_wf_chain sq_wf_len)
  have dh: "?d < half" using n len by (simp add: sq_bytes_def)
  have guard: "seqLE (q_begin q) n" "seqLE n (q_end q)" using in_window_iff [OF wf dh] n by simp_all
  show ?thesis
  proof (cases "?d < length (sq_bytes q)")
    case False
    then have "n = q_end q" using n sq_length [OF wf] by (intro sdist_inj [of "q_begin q"]) simp
    then show ?thesis
      using guard False by (simp add: checkRexmitQueueForSackedOrRexmittedSegments_def)
  next
    case True
    then have ne: "n \<noteq> q_end q" "?rs \<noteq> []" using sq_length [OF wf] by (auto simp: sq_bytes_def)
    from True ch len obtain r rs' pre suf where cut: "reached n ?rs = r # rs'" "covers r n"
      "chunk_at n r rs' = (pre, suf)" "checkRegions n suf (q_end q)"
      "bytes_of suf = drop ?d (bytes_of ?rs)"
      by (elim cut_at [of "q_begin q" ?rs "q_end q" n]) (auto simp: sq_bytes_def)
    have "covers (r\<lparr>beginSeqNum := n\<rparr>) n" using cut(2) by (simp add: covers_def seqLE_sdist)
    then have "count_handled (r # rs') n 0 = count_handled suf n 0"
      using cut(2,3) by (auto simp: chunk_at_def split: if_splits)
    moreover have "length (bytes_of suf) < half" using cut(5) len by simp
    ultimately show ?thesis
      using count_handled_bytes [OF cut(4), of 0] cut(1,5) guard ne
      by (simp add: checkRexmitQueueForSackedOrRexmittedSegments_def sq_bytes_def)
  qed
qed

section \<open>Runs of operations refine runs on the view\<close>

datatype rq_op =
    EnqueueSent u32 u32
  | SetSacked u32 u32
  | DiscardUpTo u32
  | ResetSacked
  | ResetRexmitted

fun rq_exec :: "rq_op \<Rightarrow> rexmit_queue \<Rightarrow> err + rexmit_queue" where
  "rq_exec (EnqueueSent f t) q = enqueueSentData f t q"
| "rq_exec (SetSacked f t) q = setSackedBit f t q"
| "rq_exec (DiscardUpTo n) q = sq_discardUpTo n q"
| "rq_exec ResetSacked q = Inr (resetSackedBit q)"
| "rq_exec ResetRexmitted q = Inr (resetRexmittedBit q)"

text \<open>The specification: a base sequence number and the two bits of every byte from it on.\<close>

type_synonym scoreboard_spec = "u32 \<times> (bool \<times> bool) list"

fun spec_exec :: "rq_op \<Rightarrow> scoreboard_spec \<Rightarrow> scoreboard_spec" where
  "spec_exec (EnqueueSent f t) (b, a) = (b, abs_enqueue (sdist b f) (sdist b t) a)"
| "spec_exec (SetSacked f t) (b, a) =
     (b, abs_sack (if seqLess f b then 0 else sdist b f) (sdist b t) a)"
| "spec_exec (DiscardUpTo n) (b, a) = (n, drop (sdist b n) a)"
| "spec_exec ResetSacked (b, a) = (b, map (\<lambda>(_, r). (False, r)) a)"
| "spec_exec ResetRexmitted (b, a) = (b, map (\<lambda>(s, _). (s, False)) a)"

text \<open>What the TCP sender guarantees about its calls.\<close>

fun spec_legal :: "rq_op \<Rightarrow> scoreboard_spec \<Rightarrow> bool" where
  "spec_legal (EnqueueSent f t) (b, a) =
     (sdist b f \<le> length a \<and> sdist b f < sdist b t \<and> sdist b t < half)"
| "spec_legal (SetSacked f t) (b, a) =
     ((if seqLess f b then 0 else sdist b f) < sdist b t \<and> sdist b t \<le> length a)"
| "spec_legal (DiscardUpTo n) (b, a) = (sdist b n \<le> length a)"
| "spec_legal ResetSacked (b, a) = True"
| "spec_legal ResetRexmitted (b, a) = True"

fun spec_run :: "rq_op list \<Rightarrow> scoreboard_spec \<Rightarrow> scoreboard_spec" where
  "spec_run [] s = s"
| "spec_run (x # xs) s = spec_run xs (spec_exec x s)"

fun spec_legal_run :: "rq_op list \<Rightarrow> scoreboard_spec \<Rightarrow> bool" where
  "spec_legal_run [] s = True"
| "spec_legal_run (x # xs) s = (spec_legal x s \<and> spec_legal_run xs (spec_exec x s))"

definition rq_abs :: "rexmit_queue \<Rightarrow> scoreboard_spec" where
  "rq_abs q = (q_begin q, sq_bytes q)"

lemma bytes_of_reset:
  "bytes_of (map (\<lambda>r. r\<lparr>sacked := False\<rparr>) rs) = map (\<lambda>(_, r). (False, r)) (bytes_of rs)"
  "bytes_of (map (\<lambda>r. r\<lparr>rexmitted := False\<rparr>) rs) = map (\<lambda>(s, _). (s, False)) (bytes_of rs)"
  by (induction rs) (simp_all add: rbits_def rlen_def)

lemma reset_wf:
  "sq_wf q \<Longrightarrow> sq_wf (resetSackedBit q)" "sq_wf q \<Longrightarrow> sq_wf (resetRexmittedBit q)"
  by (simp_all add: sq_wf_def checkQueue_def sq_bytes_def resetSackedBit_def resetRexmittedBit_def
      checkRegions_map bytes_of_reset)

lemma rq_exec_refines:
  assumes "sq_wf q" and "spec_legal x (rq_abs q)"
  shows "\<exists>q'. rq_exec x q = Inr q' \<and> sq_wf q' \<and> rq_abs q' = spec_exec x (rq_abs q)"
proof (cases x)
  case (EnqueueSent f t)
  then show ?thesis
    using enqueueSentData_bytes [OF assms(1), of f t] assms(2) by (auto simp: rq_abs_def)
next
  case (SetSacked f t)
  then show ?thesis
    using setSackedBit_bytes [OF assms(1), of f t] assms(2) by (auto simp: rq_abs_def)
next
  case (DiscardUpTo n)
  then show ?thesis
    using discardUpTo_bytes [OF assms(1), of n] assms(2) by (auto simp: rq_abs_def)
next
  case ResetSacked
  then show ?thesis
    using reset_wf(1) [OF assms(1)]
    by (simp add: rq_abs_def sq_bytes_def resetSackedBit_def bytes_of_reset)
next
  case ResetRexmitted
  then show ?thesis
    using reset_wf(2) [OF assms(1)]
    by (simp add: rq_abs_def sq_bytes_def resetRexmittedBit_def bytes_of_reset)
qed

lemma rq_run_refines:
  "sq_wf q \<Longrightarrow> spec_legal_run xs (rq_abs q) \<Longrightarrow>
     \<exists>q'. efold rq_exec xs q = Inr q' \<and> sq_wf q' \<and> rq_abs q' = spec_run xs (rq_abs q)"
proof (induction xs arbitrary: q)
  case Nil
  then show ?case by simp
next
  case (Cons x xs)
  then obtain q1 where q1: "rq_exec x q = Inr q1" "sq_wf q1" "rq_abs q1 = spec_exec x (rq_abs q)"
    using rq_exec_refines [of q x] by auto
  then show ?case using Cons.IH [of q1] Cons.prems(2) by simp
qed

lemma sq_init_wf: "sq_wf (sq_init iss sq_new)" and sq_init_abs: "rq_abs (sq_init iss sq_new) = (iss, [])"
  by (simp_all add: sq_wf_def checkQueue_def sq_bytes_def sq_init_def sq_new_def rq_abs_def)

section \<open>Properties\<close>

text \<open>
  C23. The retransmission queue implements the per-byte scoreboard. From \<open>init\<close>, every sequence
  of \<open>enqueueSentData\<close>, \<open>setSackedBit\<close>, \<open>discardUpTo\<close>, \<open>resetSackedBit\<close> and
  \<open>resetRexmittedBit\<close> calls that is legal on the scoreboard runs without a failed assertion, and
  the bits of every byte of the queue at the end are those the scoreboard computes.
\<close>

theorem rexmit_queue_refines_scoreboard:
  assumes "spec_legal_run xs (iss, [])"
  shows "\<exists>q. efold rq_exec xs (sq_init iss sq_new) = Inr q \<and> checkQueue q \<and>
    (q_begin q, sq_bytes q) = spec_run xs (iss, [])"
  using rq_run_refines [OF sq_init_wf, of xs iss] assms
  by (auto simp: sq_init_abs sq_wf_def) (simp add: rq_abs_def)

theorem rexmit_queue_refines_scoreboard_witness:
  "\<exists>q. efold rq_exec [EnqueueSent 0xfffffffe 2, SetSacked 0 1, EnqueueSent 0xffffffff 3, DiscardUpTo 0]
       (sq_init 0xfffffffe sq_new) = Inr q \<and> checkQueue q \<and>
     (q_begin q, sq_bytes q) = (0, [(True, True), (False, True), (False, False)])"
proof -
  let ?xs = "[EnqueueSent 0xfffffffe 2, SetSacked 0 1, EnqueueSent 0xffffffff 3, DiscardUpTo 0]"
  have "spec_legal_run ?xs (0xfffffffe, [])"
    by (simp add: sdist_def seqLess_def abs_enqueue_def abs_sack_def)
  moreover have "spec_run ?xs (0xfffffffe, []) = (0, [(True, True), (False, True), (False, False)])"
    by (simp add: sdist_def seqLess_def abs_enqueue_def abs_sack_def mark_rexmitted_def
        mark_sack_def replicate_numeral_unfold)
  ultimately show ?thesis
    using rexmit_queue_refines_scoreboard [of ?xs "0xfffffffe"] by simp
qed

text \<open>
  C24. In a well-formed queue every query about a sequence number of the window answers from the
  per-byte view and never fails an assertion: \<open>getAmountOfSackedBytes\<close> counts the sacked bytes from
  there on, \<open>getNumOfDiscontiguousSacks\<close> the maximal sacked runs from there on,
  \<open>getTotalAmountOfSackedBytes\<close> all sacked bytes,
  \<open>checkRexmitQueueForSackedOrRexmittedSegments\<close> the length of the already handled prefix, and the
  highest sacked and retransmitted sequence numbers are just after the last such byte.
\<close>

theorem rexmit_queue_queries:
  assumes "sq_wf q" and "sdist (q_begin q) n \<le> length (sq_bytes q)"
  shows "getAmountOfSackedBytes n q =
      Inr (of_nat (length (filter fst (drop (sdist (q_begin q) n) (sq_bytes q))))) \<and>
    getNumOfDiscontiguousSacks n q =
      Inr (of_nat (runs False (map fst (drop (sdist (q_begin q) n) (sq_bytes q))))) \<and>
    checkRexmitQueueForSackedOrRexmittedSegments n q =
      Inr (of_nat (length (takeWhile (\<lambda>(s, r). s \<or> r) (drop (sdist (q_begin q) n) (sq_bytes q))))) \<and>
    getTotalAmountOfSackedBytes q = of_nat (length (filter fst (sq_bytes q))) \<and>
    sdist (q_begin q) (getHighestSackedSeqNum q) = upto_last fst (sq_bytes q) \<and>
    sdist (q_begin q) (getHighestRexmittedSeqNum q) = upto_last snd (sq_bytes q)"
  using getAmountOfSackedBytes_bytes [OF assms] getNumOfDiscontiguousSacks_bytes [OF assms]
    checkRexmitQueue_bytes [OF assms] getTotalAmountOfSackedBytes_bytes [of q]
    getHighestSackedSeqNum_bytes [OF assms(1)] getHighestRexmittedSeqNum_bytes [OF assms(1)]
  by simp

definition example_queue :: rexmit_queue where
  "example_queue = \<lparr>rexmitQueue =
     [\<lparr>beginSeqNum = 0xfffffffe, endSeqNum = 1, sacked = False, rexmitted = True\<rparr>,
      \<lparr>beginSeqNum = 1, endSeqNum = 3, sacked = True, rexmitted = False\<rparr>],
     q_begin = 0xfffffffe, q_end = 3\<rparr>"

lemma example_queue_wf: "sq_wf example_queue"
  by (simp add: sq_wf_def example_queue_def checkQueue_def seqLess_def sq_bytes_def rbits_def
      rlen_def sdist_def)

theorem rexmit_queue_queries_witness:
  "getAmountOfSackedBytes 0 example_queue = Inr 2 \<and>
   sdist 0xfffffffe (getHighestSackedSeqNum example_queue) = 5"
proof -
  have bytes: "sq_bytes example_queue =
      [(False, True), (False, True), (False, True), (True, False), (True, False)]"
    by (simp add: example_queue_def sq_bytes_def rbits_def rlen_def sdist_def replicate_numeral_unfold)
  have b: "sdist (q_begin example_queue) 0 = 2" by (simp add: example_queue_def sdist_def)
  have "sdist (q_begin example_queue) 0 \<le> length (sq_bytes example_queue)"
    unfolding bytes b by simp
  note q = rexmit_queue_queries [OF example_queue_wf this]
  have "length (filter fst (drop (sdist (q_begin example_queue) 0) (sq_bytes example_queue))) = 2"
    "upto_last fst (sq_bytes example_queue) = 5"
    unfolding b unfolding bytes by (simp_all add: upto_last_def)
  with q show ?thesis by (simp add: example_queue_def)
qed

text \<open>
  \<open>init\<close> does not flush the queue: on a well-formed queue that still holds regions, \<open>init\<close>
  resets only the two bounds, and the queue then fails its own consistency check whatever the new
  sequence number is, so the next operation that changes it fails an assertion.
\<close>

theorem init_keeps_old_regions:
  assumes "sq_wf q" and "rexmitQueue q \<noteq> []"
  shows "rexmitQueue (sq_init n q) = rexmitQueue q \<and> \<not> checkQueue (sq_init n q)"
proof -
  have ch: "checkRegions (q_begin q) (rexmitQueue q) (q_end q)" by (rule sq_wf_chain [OF assms(1)])
  have "sq_bytes q \<noteq> []" using chain_nonempty [OF ch] assms(2) by (simp add: sq_bytes_def)
  then have "q_begin q \<noteq> q_end q" using sq_length [OF assms(1)] by auto
  moreover have "q_end q = endOf d (rexmitQueue q)" for d
    using checkRegions_end [OF ch] assms(2) by (simp add: endOf_def)
  moreover have "n = q_begin q \<and> n = endOf n (rexmitQueue q)" if "checkRegions n (rexmitQueue q) n"
    using checkRegions_end [OF that] that ch assms(2) by (cases "rexmitQueue q") auto
  ultimately show ?thesis by (auto simp: sq_init_def checkQueue_def)
qed

theorem init_keeps_old_regions_witness:
  "rexmitQueue (sq_init 7 example_queue) = rexmitQueue example_queue \<and>
   \<not> checkQueue (sq_init 7 example_queue)"
  by (rule init_keeps_old_regions [OF example_queue_wf]) (simp add: example_queue_def)

end
