(* ===== verification/TcpSendQueue.thy ===== *)
theory TcpSendQueue
  imports TcpSeq
begin

text \<open>
  The outgoing byte stream: \<open>inet/common/packet/ChunkQueue.cc\<close> and its client
  \<open>inet/transportlayer/tcp/TcpSendQueue.cc\<close>. The contents of the queue is the list of its data
  units; the representation of the chunks only decides how they are concatenated or cut, not what
  they hold. The implementation checks \<open>CHUNK_CHECK_IMPLEMENTATION\<close> are compiled out by default
  and are not modelled, the usage checks are errors.

  The interface between the two is the locale \<open>fifo\<close>: a queue with a list as its view, and what
  \<open>push\<close>, \<open>pop\<close>, \<open>peekAt\<close> and \<open>clear\<close> do to the view. \<open>ChunkQueue\<close> is its interpretation.
\<close>

section \<open>The chunk queue\<close>

record 'd chunk_queue =
  pushedLength :: int
  poppedLength :: int
  content :: "'d list"
  iterator :: int

definition unspecifiedLength :: int where
  "unspecifiedLength = - 9223372036854775807"

definition cq_new :: "'d chunk_queue" where
  "cq_new = \<lparr>pushedLength = 0, poppedLength = 0, content = [], iterator = 0\<rparr>"

definition contentLength :: "'d chunk_queue \<Rightarrow> int" where
  "contentLength q = int (length (content q))"

definition getLength :: "'d chunk_queue \<Rightarrow> int" where
  "getLength q = contentLength q - iterator q"

text \<open>\<open>Chunk::peek(iterator, length)\<close>: a negative length asks for at most that much.\<close>

definition content_peek :: "'d list \<Rightarrow> int \<Rightarrow> int \<Rightarrow> 'd list" where
  "content_peek d position len =
     (let n = (if len < 0 then min (- len) (int (length d) - position) else len)
      in take (nat n) (drop (nat position) d))"

text \<open>\<open>Chunk::peek\<close> with no flags throws where the result would be the empty chunk.\<close>

definition peek_result :: "'d list \<Rightarrow> err + 'd list" where
  "peek_result d = (if d = [] then Inl (RuntimeError ''Returning an empty chunk is not allowed'') else Inr d)"

definition cq_remove :: "int \<Rightarrow> 'd chunk_queue \<Rightarrow> 'd chunk_queue" where
  "cq_remove len q =
     q\<lparr>content := (if contentLength q = len then []
                   else content_peek (content q) len (contentLength q - len)),
       iterator := iterator q - len\<rparr>"

definition moveIteratorOrRemove :: "int \<Rightarrow> 'd chunk_queue \<Rightarrow> 'd chunk_queue" where
  "moveIteratorOrRemove len q =
     (let q' = q\<lparr>poppedLength := poppedLength q + len, iterator := iterator q + len\<rparr>
      in if iterator q' > contentLength q' div 2 then cq_remove (iterator q') q' else q')"

definition cq_peek :: "int \<Rightarrow> 'd chunk_queue \<Rightarrow> err + 'd list" where
  "cq_peek len q =
     (if \<not> (- 1 \<le> len \<and> len \<le> getLength q) then Inl (RuntimeError ''length is invalid'')
      else peek_result (content_peek (content q) (iterator q) (if len = - 1 then unspecifiedLength else len)))"

definition cq_peekAt :: "int \<Rightarrow> int \<Rightarrow> 'd chunk_queue \<Rightarrow> err + 'd list" where
  "cq_peekAt offset len q =
     (if \<not> (0 \<le> offset \<and> offset \<le> getLength q) then Inl (RuntimeError ''offset is out of range'')
      else if \<not> (- 1 \<le> len \<and> offset + len \<le> getLength q) then Inl (RuntimeError ''length is invalid'')
      else peek_result (content_peek (content q) (iterator q + offset)
             (if len = - 1 then unspecifiedLength else len)))"

definition cq_pop :: "int \<Rightarrow> 'd chunk_queue \<Rightarrow> err + ('d list \<times> 'd chunk_queue)" where
  "cq_pop len q =
     (if \<not> (- 1 \<le> len \<and> len \<le> getLength q) then Inl (RuntimeError ''length is invalid'')
      else ebind (cq_peek (if len = - 1 then unspecifiedLength else len) q) (\<lambda>chunk.
        Inr (chunk, moveIteratorOrRemove (int (length chunk)) q)))"

definition cq_clear :: "'d chunk_queue \<Rightarrow> 'd chunk_queue" where
  "cq_clear q = q\<lparr>poppedLength := poppedLength q + getLength q, iterator := 0, content := []\<rparr>"

definition cq_push :: "'d list \<Rightarrow> 'd chunk_queue \<Rightarrow> err + 'd chunk_queue" where
  "cq_push chunk q =
     (if \<not> 0 < length chunk then Inl (RuntimeError ''chunk is empty'')
      else Inr (q\<lparr>pushedLength := pushedLength q + int (length chunk),
                 content := content q @ chunk\<rparr>))"

section \<open>The send queue\<close>

record 'd send_queue =
  sq_start :: u32
  sq_stop :: u32
  dataBuffer :: "'d chunk_queue"

definition sendq_new :: "'d send_queue" where
  "sendq_new = \<lparr>sq_start = 0, sq_stop = 0, dataBuffer = cq_new\<rparr>"

definition sendq_init :: "u32 \<Rightarrow> 'd send_queue \<Rightarrow> 'd send_queue" where
  "sendq_init startSeq q = \<lparr>sq_start = startSeq, sq_stop = startSeq, dataBuffer = cq_clear (dataBuffer q)\<rparr>"

definition enqueueAppData :: "'d list \<Rightarrow> 'd send_queue \<Rightarrow> err + 'd send_queue" where
  "enqueueAppData msg q =
     ebind (cq_push msg (dataBuffer q)) (\<lambda>buf.
       let q' = q\<lparr>dataBuffer := buf, sq_stop := sq_stop q + of_nat (length msg)\<rparr>
       in if seqLess (sq_stop q') (sq_start q') then Inl (RuntimeError ''Send queue is full'') else Inr q')"

definition sendq_getBufferStartSeq :: "'d send_queue \<Rightarrow> u32" where
  "sendq_getBufferStartSeq q = sq_start q"

definition sendq_getBufferEndSeq :: "'d send_queue \<Rightarrow> u32" where
  "sendq_getBufferEndSeq q = sq_stop q"

definition getBytesAvailable :: "u32 \<Rightarrow> 'd send_queue \<Rightarrow> u32" where
  "getBytesAvailable fromSeq q = (if seqLess fromSeq (sq_stop q) then sq_stop q - fromSeq else 0)"

definition createSegmentWithBytes :: "u32 \<Rightarrow> u32 \<Rightarrow> 'd send_queue \<Rightarrow> err + 'd list" where
  "createSegmentWithBytes fromSeq numBytes q =
     (if \<not> (seqLE (sq_start q) fromSeq \<and> seqLE (fromSeq + numBytes) (sq_stop q)) then Inl AssertFailed
      else cq_peekAt (uint (fromSeq - sq_start q)) (uint numBytes) (dataBuffer q))"

definition sendq_discardUpTo :: "u32 \<Rightarrow> 'd send_queue \<Rightarrow> err + 'd send_queue" where
  "sendq_discardUpTo seqNum q =
     (if \<not> (seqLE (sq_start q) seqNum \<and> seqLE seqNum (sq_stop q)) then Inl AssertFailed
      else if seqNum \<noteq> sq_start q then
        ebind (cq_pop (uint (seqNum - sq_start q)) (dataBuffer q)) (\<lambda>(_, buf).
          Inr (q\<lparr>dataBuffer := buf, sq_start := seqNum\<rparr>))
      else Inr q)"

section \<open>The interface of a first-in first-out queue\<close>

datatype 'd fifo_op = Push "'d list" | Pop nat

fun fifo_legal :: "'d fifo_op list \<Rightarrow> 'd list \<Rightarrow> bool" where
  "fifo_legal [] xs = True"
| "fifo_legal (Push d # ops) xs = (d \<noteq> [] \<and> fifo_legal ops (xs @ d))"
| "fifo_legal (Pop n # ops) xs = (0 < n \<and> n \<le> length xs \<and> fifo_legal ops (drop n xs))"

fun pushed :: "'d fifo_op list \<Rightarrow> 'd list" where
  "pushed [] = []"
| "pushed (Push d # ops) = d @ pushed ops"
| "pushed (Pop n # ops) = pushed ops"

text \<open>A run of pushes and pops of a queue with these two operations; the popped data is collected.\<close>

fun fifo_run :: "('d list \<Rightarrow> 'q \<Rightarrow> err + 'q) \<Rightarrow> (int \<Rightarrow> 'q \<Rightarrow> err + ('d list \<times> 'q)) \<Rightarrow>
    'd fifo_op list \<Rightarrow> 'd list \<Rightarrow> 'q \<Rightarrow> err + ('d list \<times> 'q)" where
  "fifo_run push pop [] out q = Inr (out, q)"
| "fifo_run push pop (Push d # ops) out q = ebind (push d q) (fifo_run push pop ops out)"
| "fifo_run push pop (Pop n # ops) out q =
     ebind (pop (int n) q) (\<lambda>(d, q'). fifo_run push pop ops (out @ d) q')"

locale fifo =
  fixes inv :: "'q \<Rightarrow> bool" and view :: "'q \<Rightarrow> 'd list"
    and push :: "'d list \<Rightarrow> 'q \<Rightarrow> err + 'q"
    and pop :: "int \<Rightarrow> 'q \<Rightarrow> err + ('d list \<times> 'q)"
    and peek_at :: "int \<Rightarrow> int \<Rightarrow> 'q \<Rightarrow> err + 'd list"
    and flush :: "'q \<Rightarrow> 'q"
  assumes push_view: "inv q \<Longrightarrow> d \<noteq> [] \<Longrightarrow> \<exists>q'. push d q = Inr q' \<and> inv q' \<and> view q' = view q @ d"
    and pop_view: "inv q \<Longrightarrow> 0 < n \<Longrightarrow> n \<le> length (view q) \<Longrightarrow>
      \<exists>q'. pop (int n) q = Inr (take n (view q), q') \<and> inv q' \<and> view q' = drop n (view q)"
    and peek_view: "inv q \<Longrightarrow> 0 < n \<Longrightarrow> i + n \<le> length (view q) \<Longrightarrow>
      peek_at (int i) (int n) q = Inr (take n (drop i (view q)))"
    and flush_view: "inv q \<Longrightarrow> inv (flush q) \<and> view (flush q) = []"
begin

text \<open>What was pushed comes out in order, and the rest is still in the queue.\<close>

lemma run_conserves:
  assumes "inv q" and "fifo_legal ops (view q)"
  shows "\<exists>out' q'. fifo_run push pop ops out q = Inr (out', q') \<and> inv q' \<and>
    out' @ view q' = out @ view q @ pushed ops"
  using assms
proof (induction ops arbitrary: out q)
  case Nil
  then show ?case by simp
next
  case (Cons x ops)
  show ?case
  proof (cases x)
    case (Push d)
    obtain q1 where q1: "push d q = Inr q1" "inv q1" "view q1 = view q @ d"
      using push_view [OF Cons.prems(1), of d] Cons.prems(2) Push by auto
    then show ?thesis using Cons.IH [OF q1(2), of out] Cons.prems(2) Push by simp
  next
    case (Pop n)
    then obtain q1 where q1: "pop (int n) q = Inr (take n (view q), q1)" "inv q1"
      "view q1 = drop n (view q)"
      using pop_view [OF Cons.prems(1), of n] Cons.prems(2) by auto
    moreover have "out @ take n (view q) @ view q1 @ pushed ops = out @ view q @ pushed ops"
      using q1(3) by (metis append_assoc append_take_drop_id)
    ultimately show ?thesis
      using Cons.IH [OF q1(2), of "out @ take n (view q)"] Cons.prems(2) Pop by auto
  qed
qed

text \<open>A pop returns what a peek at the front shows, and a peek does not depend on what is behind it.\<close>

lemma pop_is_peek:
  assumes "inv q" and "0 < n" and "n \<le> length (view q)"
  shows "\<exists>d q'. pop (int n) q = Inr (d, q') \<and> peek_at 0 (int n) q = Inr d"
  using pop_view [OF assms] peek_view [OF assms(1,2), of 0] assms(3) by auto

lemma peek_after_push:
  assumes "inv q" and "push d q = Inr q'" and "d \<noteq> []" and "0 < n" and "i + n \<le> length (view q)"
  shows "peek_at (int i) (int n) q' = peek_at (int i) (int n) q"
  using push_view [OF assms(1,3)] assms peek_view [of q n i] peek_view [of q' n i] by auto

end

section \<open>The chunk queue is one\<close>

definition cq_inv :: "'d chunk_queue \<Rightarrow> bool" where
  "cq_inv q = (0 \<le> iterator q \<and> 2 * iterator q \<le> contentLength q \<and>
     pushedLength q - poppedLength q = getLength q)"

definition cq_view :: "'d chunk_queue \<Rightarrow> 'd list" where
  "cq_view q = drop (nat (iterator q)) (content q)"

lemma cq_inv_nat: "cq_inv q \<Longrightarrow> nat (iterator q) \<le> length (content q)"
  unfolding cq_inv_def contentLength_def by linarith

lemma length_cq_view: "cq_inv q \<Longrightarrow> int (length (cq_view q)) = getLength q"
  using cq_inv_nat [of q] by (auto simp: cq_inv_def cq_view_def getLength_def contentLength_def)

lemma content_peek_drop:
  "0 \<le> p \<Longrightarrow> p + int n \<le> int (length d) \<Longrightarrow> content_peek d p (int n) = take n (drop (nat p) d)"
  by (simp add: content_peek_def)

lemma move_view:
  assumes "cq_inv q" and "n \<le> length (cq_view q)"
  shows "cq_inv (moveIteratorOrRemove (int n) q) \<and>
    cq_view (moveIteratorOrRemove (int n) q) = drop n (cq_view q)"
proof -
  have nn: "nat (iterator q + int n) = nat (iterator q) + n" "0 \<le> iterator q"
    "iterator q + int n \<le> contentLength q"
    using assms length_cq_view [OF assms(1)]
    by (auto simp: cq_inv_def nat_add_distrib getLength_def)
  show ?thesis
  proof (cases "contentLength q div 2 < iterator q + int n")
    case True
    have "content_peek (content q) (iterator q + int n) (contentLength q - (iterator q + int n)) =
        drop (nat (iterator q + int n)) (content q)"
      using nn(3) by (simp add: content_peek_def contentLength_def)
    then show ?thesis
      using True nn assms(1)
      by (simp add: moveIteratorOrRemove_def Let_def cq_remove_def cq_inv_def cq_view_def
          contentLength_def add.commute getLength_def)
  next
    case False
    then show ?thesis
      using nn assms(1)
      by (simp add: moveIteratorOrRemove_def Let_def cq_inv_def cq_view_def contentLength_def
          add.commute getLength_def)
  qed
qed

interpretation cq: fifo cq_inv cq_view cq_push cq_pop cq_peekAt cq_clear
proof
  fix q :: "'d chunk_queue" and d :: "'d list"
  assume "cq_inv q" and "d \<noteq> []"
  then show "\<exists>q'. cq_push d q = Inr q' \<and> cq_inv q' \<and> cq_view q' = cq_view q @ d"
    using cq_inv_nat [of q] by (simp add: cq_push_def cq_inv_def cq_view_def contentLength_def getLength_def)
next
  fix q :: "'d chunk_queue" and n :: nat
  assume q: "cq_inv q" and pos: "0 < n" and n: "n \<le> length (cq_view q)"
  then have len: "int n \<le> getLength q" using length_cq_view [OF q] by simp
  have "content_peek (content q) (iterator q) (int n) = take n (cq_view q)"
    using q len by (simp add: content_peek_drop cq_view_def cq_inv_def getLength_def contentLength_def)
  then show "\<exists>q'. cq_pop (int n) q = Inr (take n (cq_view q), q') \<and> cq_inv q' \<and>
      cq_view q' = drop n (cq_view q)"
    using move_view [OF q n] len n pos by (auto simp: cq_pop_def cq_peek_def peek_result_def min_absorb2)
next
  fix q :: "'d chunk_queue" and i n :: nat
  assume q: "cq_inv q" and pos: "0 < n" and n: "i + n \<le> length (cq_view q)"
  then have len: "int i + int n \<le> getLength q" using length_cq_view [OF q] by simp
  then have "content_peek (content q) (iterator q + int i) (int n) = take n (drop i (cq_view q))"
    using q by (simp add: content_peek_drop cq_view_def cq_inv_def getLength_def contentLength_def
        nat_add_distrib add.commute)
  then show "cq_peekAt (int i) (int n) q = Inr (take n (drop i (cq_view q)))"
    using len n pos by (simp add: cq_peekAt_def peek_result_def)
next
  fix q :: "'d chunk_queue"
  assume "cq_inv q"
  then show "cq_inv (cq_clear q) \<and> cq_view (cq_clear q) = []"
    by (simp add: cq_clear_def cq_inv_def cq_view_def contentLength_def getLength_def)
qed

section \<open>The send queue over it\<close>

definition sendq_view :: "'d send_queue \<Rightarrow> 'd list" where
  "sendq_view q = cq_view (dataBuffer q)"

definition sendq_wf :: "'d send_queue \<Rightarrow> bool" where
  "sendq_wf q = (cq_inv (dataBuffer q) \<and> length (sendq_view q) < half \<and>
     sdist (sq_start q) (sq_stop q) = length (sendq_view q))"

lemma sendq_init_wf: "cq_inv (dataBuffer q) \<Longrightarrow> sendq_wf (sendq_init s q) \<and> sendq_view (sendq_init s q) = []"
  using cq.flush_view [of "dataBuffer q"] by (simp add: sendq_wf_def sendq_init_def sendq_view_def)

lemma sendq_start:
  "sendq_wf (sendq_init s sendq_new)" "sendq_view (sendq_init s sendq_new) = []"
  "sq_start (sendq_init s sendq_new) = s"
  by (simp_all add: sendq_wf_def sendq_init_def sendq_new_def sendq_view_def cq_clear_def cq_new_def
      cq_inv_def cq_view_def contentLength_def getLength_def)

lemma sendq_window:
  assumes "sendq_wf q" and "sdist (sq_start q) n \<le> length (sendq_view q)"
  shows "seqLE (sq_start q) n" and "seqLE n (sq_stop q)"
    and "seqLess n (sq_stop q) \<longleftrightarrow> sdist (sq_start q) n < length (sendq_view q)"
    and "sdist n (sq_stop q) = length (sendq_view q) - sdist (sq_start q) n"
  using assms seqLE_window [of "sq_start q" n "sq_stop q"] seqLess_window [of "sq_start q" n "sq_stop q"]
    sdist_le_sub [of "sq_start q" n "sq_stop q"]
  by (auto simp: sendq_wf_def seqLE_sdist [of "sq_start q"])

lemma enqueueAppData_view:
  assumes wf: "sendq_wf q" and "msg \<noteq> []" and len: "length (sendq_view q) + length msg < half"
  shows "\<exists>q'. enqueueAppData msg q = Inr q' \<and> sendq_wf q' \<and> sq_start q' = sq_start q \<and>
    sendq_view q' = sendq_view q @ msg"
proof -
  obtain buf where buf: "cq_push msg (dataBuffer q) = Inr buf" "cq_inv buf"
    "cq_view buf = cq_view (dataBuffer q) @ msg"
    using cq.push_view [of "dataBuffer q" msg] wf assms(2) by (auto simp: sendq_wf_def)
  have step: "sdist (sq_stop q) (sq_stop q + of_nat (length msg)) = length msg"
    using len by (intro sdist_add) simp
  then have d: "sdist (sq_start q) (sq_stop q + of_nat (length msg)) = length (sendq_view q) + length msg"
    using sdist_add_mono [of "sq_start q" "sq_stop q" "sq_stop q + of_nat (length msg)"] wf len
    by (simp add: sendq_wf_def)
  then have "\<not> seqLess (sq_stop q + of_nat (length msg)) (sq_start q)"
    using seqLess_window [of "sq_start q" "sq_stop q + of_nat (length msg)" "sq_start q"] len by simp
  then show ?thesis
    using buf d len by (simp add: enqueueAppData_def Let_def sendq_wf_def sendq_view_def)
qed

lemma discardUpTo_view:
  assumes wf: "sendq_wf q" and n: "sdist (sq_start q) n \<le> length (sendq_view q)"
  shows "\<exists>q'. sendq_discardUpTo n q = Inr q' \<and> sendq_wf q' \<and> sq_start q' = n \<and>
    sq_stop q' = sq_stop q \<and> sendq_view q' = drop (sdist (sq_start q) n) (sendq_view q)"
proof (cases "n = sq_start q")
  case True
  then show ?thesis using wf by (simp add: sendq_discardUpTo_def sendq_wf_def seqLE_sdist)
next
  case False
  have u: "uint (n - sq_start q) = int (sdist (sq_start q) n)" by (simp add: sdist_def)
  obtain buf where buf: "cq_pop (int (sdist (sq_start q) n)) (dataBuffer q) =
      Inr (take (sdist (sq_start q) n) (sendq_view q), buf)" "cq_inv buf"
    "cq_view buf = drop (sdist (sq_start q) n) (sendq_view q)"
    using cq.pop_view [of "dataBuffer q" "sdist (sq_start q) n"] wf n False sdist_eq_0_iff [of "sq_start q" n]
    by (auto simp: sendq_wf_def sendq_view_def)
  then show ?thesis
    using False sendq_window [OF wf n] wf n u
    by (simp add: less_imp_diff_less sendq_discardUpTo_def sendq_wf_def sendq_view_def)
qed

lemma createSegment_view:
  assumes wf: "sendq_wf q" and n: "sdist (sq_start q) from_seq + unat num \<le> length (sendq_view q)"
    and pos: "num \<noteq> 0"
  shows "createSegmentWithBytes from_seq num q =
    Inr (take (unat num) (drop (sdist (sq_start q) from_seq) (sendq_view q)))"
proof -
  have u: "uint (from_seq - sq_start q) = int (sdist (sq_start q) from_seq)" "uint num = int (unat num)"
    by (simp_all add: sdist_def)
  have n0: "sdist (sq_start q) from_seq \<le> length (sendq_view q)" using n by simp
  have "0 < unat num" using pos by (metis neq0_conv unat_eq_zero)
  have step: "sdist from_seq (from_seq + num) = unat num" by (simp add: sdist_def)
  then have "sdist (sq_start q) (from_seq + num) = sdist (sq_start q) from_seq + unat num"
    using sdist_add_mono [of "sq_start q" from_seq "from_seq + num"] n wf by (simp add: sendq_wf_def)
  then have "seqLE (from_seq + num) (sq_stop q)" using sendq_window(2) [OF wf] n by simp
  then show ?thesis
    using sendq_window(1) [OF wf n0] wf n u
      cq.peek_view [of "dataBuffer q" "unat num" "sdist (sq_start q) from_seq"] pos \<open>0 < unat num\<close>
    by (simp add: createSegmentWithBytes_def sendq_wf_def sendq_view_def)
qed

lemma getBytesAvailable_view:
  assumes wf: "sendq_wf q" and n: "sdist (sq_start q) from_seq \<le> length (sendq_view q)"
  shows "getBytesAvailable from_seq q = of_nat (length (sendq_view q) - sdist (sq_start q) from_seq)"
proof (cases "seqLess from_seq (sq_stop q)")
  case True
  have "sq_stop q - from_seq = of_nat (sdist from_seq (sq_stop q))" by (simp add: sdist_def)
  then show ?thesis using True sendq_window(4) [OF wf n] by (simp add: getBytesAvailable_def)
next
  case False
  then show ?thesis using sendq_window(3) [OF wf n] n by (simp add: getBytesAvailable_def)
qed

section \<open>Runs of the send queue\<close>

datatype 'd sendq_op = Enqueue "'d list" | Discard u32

fun sendq_exec :: "'d sendq_op \<Rightarrow> 'd send_queue \<Rightarrow> err + 'd send_queue" where
  "sendq_exec (Enqueue d) q = enqueueAppData d q"
| "sendq_exec (Discard n) q = sendq_discardUpTo n q"

text \<open>
  The specification: the whole stream written so far and how much of it has been discarded. A call
  is legal if the data fits into half of the sequence space and a discard stays within the data.
\<close>

fun stream_legal :: "u32 \<Rightarrow> 'd sendq_op list \<Rightarrow> 'd list \<Rightarrow> nat \<Rightarrow> bool" where
  "stream_legal start [] xs k = True"
| "stream_legal start (Enqueue d # ops) xs k =
     (d \<noteq> [] \<and> length xs + length d < k + half \<and> stream_legal start ops (xs @ d) k)"
| "stream_legal start (Discard n # ops) xs k =
     (let j = sdist (start + of_nat k) n
      in k + j \<le> length xs \<and> stream_legal start ops xs (k + j))"

fun written :: "'d sendq_op list \<Rightarrow> 'd list" where
  "written [] = []"
| "written (Enqueue d # ops) = d @ written ops"
| "written (Discard n # ops) = written ops"

lemma sendq_run_stream:
  assumes "sendq_wf q" and "sq_start q = start + of_nat k" and "k \<le> length xs"
    and "sendq_view q = drop k xs" and "stream_legal start ops xs k"
  shows "\<exists>q' k'. efold sendq_exec ops q = Inr q' \<and> sendq_wf q' \<and> sq_start q' = start + of_nat k' \<and>
    k' \<le> length (xs @ written ops) \<and> sendq_view q' = drop k' (xs @ written ops)"
  using assms
proof (induction ops arbitrary: q xs k)
  case Nil
  then show ?case by auto
next
  case (Cons x ops)
  show ?case
  proof (cases x)
    case (Enqueue d)
    then have legal: "d \<noteq> []" "length xs + length d < k + half" "stream_legal start ops (xs @ d) k"
      using Cons.prems(5) by simp_all
    obtain q1 where q1: "enqueueAppData d q = Inr q1" "sendq_wf q1" "sq_start q1 = sq_start q"
      "sendq_view q1 = sendq_view q @ d"
      using enqueueAppData_view [OF Cons.prems(1) legal(1)] legal(2) Cons.prems(3,4)
      by (auto simp: less_diff_conv2)
    show ?thesis
      using Cons.IH [OF q1(2) _ _ _ legal(3)] q1 Cons.prems(2-4) Enqueue by simp
  next
    case (Discard n)
    define j where "j = sdist (start + of_nat k) n"
    then have legal: "k + j \<le> length xs" "stream_legal start ops xs (k + j)"
      using Cons.prems(5) Discard by (simp_all add: Let_def)
    have "sdist (sq_start q) n = j" "j \<le> length (sendq_view q)"
      using legal(1) Cons.prems(2,4) by (simp_all add: j_def)
    then obtain q1 where q1: "sendq_discardUpTo n q = Inr q1" "sendq_wf q1" "sq_start q1 = n"
      "sendq_view q1 = drop j (sendq_view q)"
      using discardUpTo_view [OF Cons.prems(1), of n] by auto
    have "start + of_nat k + of_nat j = n" unfolding j_def by (rule add_sdist)
    then have "n = start + of_nat (k + j)" by (simp add: add.assoc)
    then show ?thesis
      using Cons.IH [OF q1(2) _ legal(1) _ legal(2)] q1 Cons.prems(4) Discard by (simp add: add.commute)
  qed
qed

lemma cq_new_inv: "cq_inv cq_new" and cq_new_view: "cq_view cq_new = []"
  by (simp_all add: cq_inv_def cq_new_def contentLength_def getLength_def cq_view_def)

section \<open>Properties\<close>

text \<open>
  C30. The chunk queue conserves the stream: from an empty queue, every legal run of pushes and pops
  succeeds, the data popped so far followed by the data still in the queue is the data pushed, in
  order, and the two length counters differ by what is in the queue.
\<close>

theorem chunk_queue_conserves_stream:
  assumes "fifo_legal ops []"
  shows "\<exists>out q. fifo_run cq_push cq_pop ops [] cq_new = Inr (out, q) \<and>
    out @ cq_view q = pushed ops \<and> pushedLength q - poppedLength q = int (length (cq_view q))"
proof -
  obtain out q where q: "fifo_run cq_push cq_pop ops [] cq_new = Inr (out, q)" "cq_inv q"
    "out @ cq_view q = pushed ops"
    using cq.run_conserves [OF cq_new_inv, of ops "[]"] assms by (auto simp: cq_new_view)
  then show ?thesis using length_cq_view [OF q(2)] by (auto simp: cq_inv_def)
qed

theorem chunk_queue_conserves_stream_witness:
  "\<exists>out q. fifo_run cq_push cq_pop [Push ''abc'', Pop 2, Push ''de'', Pop 1] [] cq_new = Inr (out, q) \<and>
     out @ cq_view q = ''abcde'' \<and> pushedLength q - poppedLength q = int (length (cq_view q))"
  using chunk_queue_conserves_stream [of "[Push ''abc'', Pop 2, Push ''de'', Pop 1]"] by simp

text \<open>
  C29. The send queue retransmits the stream: after any legal run of \<open>enqueueAppData\<close> and
  \<open>discardUpTo\<close> from \<open>init\<close> (sequence numbers wrap, the whole stream may be longer than the sequence
  space), some \<open>k\<close> bytes have been discarded, \<open>getBufferStartSeq\<close> is the sequence number of byte
  \<open>k\<close>, and for every non-empty range of bytes not discarded yet \<open>createSegmentWithBytes\<close> gives exactly those
  bytes of the stream and \<open>getBytesAvailable\<close> the number of bytes from there to its end.
\<close>

theorem send_queue_retransmits_stream:
  assumes "stream_legal start ops [] 0"
  shows "\<exists>q k. efold sendq_exec ops (sendq_init start sendq_new) = Inr q \<and>
    sendq_getBufferStartSeq q = start + of_nat k \<and> k \<le> length (written ops) \<and>
    length (written ops) < k + half \<and>
    (\<forall>i n. 0 < n \<longrightarrow> k + i + n \<le> length (written ops) \<longrightarrow>
       createSegmentWithBytes (start + of_nat (k + i)) (of_nat n) q =
         Inr (take n (drop (k + i) (written ops))) \<and>
       getBytesAvailable (start + of_nat (k + i)) q = of_nat (length (written ops) - (k + i)))"
proof -
  have init: "sq_start (sendq_init start sendq_new) = start + of_nat 0" by (simp add: sendq_start)
  obtain q k where q: "efold sendq_exec ops (sendq_init start sendq_new) = Inr q" "sendq_wf q"
    "sq_start q = start + of_nat k" "k \<le> length (written ops)" "sendq_view q = drop k (written ops)"
    using sendq_run_stream [OF sendq_start(1) init _ _ assms] sendq_start(2) by auto
  have len: "length (written ops) < k + half" using q(2,4,5) by (simp add: sendq_wf_def less_diff_conv2)
  have "createSegmentWithBytes (start + of_nat (k + i)) (of_nat n) q =
      Inr (take n (drop (k + i) (written ops))) \<and>
    getBytesAvailable (start + of_nat (k + i)) q = of_nat (length (written ops) - (k + i))"
    if pos: "0 < n" and that: "k + i + n \<le> length (written ops)" for i n
  proof -
    have d: "sdist (sq_start q) (start + of_nat (k + i)) = i"
      using that len sdist_add [of i "sq_start q"] by (simp add: q(3) add.assoc)
    moreover have n: "unat (of_nat n :: u32) = n" using that len by (simp add: unat_of_nat)
    moreover have "of_nat n \<noteq> (0 :: u32)" using n pos by (metis neq0_conv unat_0)
    ultimately show ?thesis
      using createSegment_view [OF q(2), of "start + of_nat (k + i)" "of_nat n"]
        getBytesAvailable_view [OF q(2), of "start + of_nat (k + i)"] that q(5)
      by (simp add: add.commute)
  qed
  then show ?thesis using q(1,3,4) len by (auto simp: sendq_getBufferStartSeq_def)
qed

theorem send_queue_retransmits_stream_witness:
  "\<exists>q. efold sendq_exec [Enqueue ''abcdef'', Discard 1, Enqueue ''gh''] (sendq_init 0xfffffffe sendq_new) =
      Inr q \<and> createSegmentWithBytes 2 3 q = Inr ''efg''"
proof -
  let ?ops = "[Enqueue ''abcdef'', Discard 1, Enqueue ''gh'']"
  have legal: "stream_legal 0xfffffffe ?ops [] 0" by (simp add: sdist_def)
  obtain q k where q: "efold sendq_exec ?ops (sendq_init 0xfffffffe sendq_new) = Inr q"
    "sendq_getBufferStartSeq q = 0xfffffffe + of_nat k" "k \<le> 8"
    "\<And>i n. 0 < n \<Longrightarrow> k + i + n \<le> 8 \<Longrightarrow>
       createSegmentWithBytes (0xfffffffe + of_nat (k + i)) (of_nat n) q =
         Inr (take n (drop (k + i) ''abcdefgh''))"
    using send_queue_retransmits_stream [OF legal] by auto
  have "sq_start q = 1"
    using q(1) by (auto simp: ebind_Inr_iff enqueueAppData_def sendq_discardUpTo_def Let_def
        split: if_splits)
  moreover have wrap: "0xfffffffe + 3 = (1 :: u32)" by simp
  ultimately have "0xfffffffe + of_nat k = 0xfffffffe + (3 :: u32)"
    using q(2) unfolding wrap by (simp add: sendq_getBufferStartSeq_def)
  then have "of_nat k = (3 :: u32)" by (rule add_left_imp_eq)
  then have "unat (of_nat k :: u32) = unat (3 :: u32)" by simp
  then have k: "k = 3" using q(3) by (simp add: unat_of_nat)
  have w: "0xfffffffe + of_nat (3 + 1) = (2 :: u32)" by simp
  show ?thesis using q(4) [of 3 1, unfolded k w] q(1) by auto
qed

text \<open>
  \<open>ChunkQueue::pop()\<close> with its default length always fails: it replaces the default \<open>-1\<close> by
  \<open>Chunk::unspecifiedLength\<close> and passes that on to \<open>ChunkQueue::peek\<close>, whose own check refuses every
  length below \<open>-1\<close>, although \<open>-1\<close> is documented as asking for what the representation offers.
\<close>

theorem pop_default_length_fails:
  "cq_pop (- 1) q = Inl (RuntimeError ''length is invalid'')"
  by (simp add: cq_pop_def cq_peek_def unspecifiedLength_def)

text \<open>
  The check for a full send queue misses one size: data that fills the queue to exactly
  \<open>2 ^ 31\<close> bytes is accepted, but then no byte counts as available and no segment can be made of it.
\<close>

theorem send_queue_limit_gap:
  assumes "sendq_wf q" and "msg \<noteq> []" and "length (sendq_view q) + length msg = half"
  shows "\<exists>q'. enqueueAppData msg q = Inr q' \<and> length (sendq_view q') = half \<and>
    getBytesAvailable (sq_start q') q' = 0 \<and> createSegmentWithBytes (sq_start q') 0 q' = Inl AssertFailed"
proof -
  obtain buf where buf: "cq_push msg (dataBuffer q) = Inr buf" "cq_inv buf"
    "cq_view buf = cq_view (dataBuffer q) @ msg"
    using cq.push_view [of "dataBuffer q" msg] assms(1,2) by (auto simp: sendq_wf_def)
  have step: "sdist (sq_stop q) (sq_stop q + of_nat (length msg)) = length msg"
    using assms(3) by (intro sdist_add) simp
  then have d: "sdist (sq_start q) (sq_stop q + of_nat (length msg)) = half"
    using sdist_add_mono [of "sq_start q" "sq_stop q" "sq_stop q + of_nat (length msg)"] assms
    by (simp add: sendq_wf_def)
  moreover have "sdist (sq_stop q + of_nat (length msg)) (sq_start q) = half"
    using sdist_via [of "sq_stop q + of_nat (length msg)" "sq_start q" "sq_start q"] d by simp
  ultimately show ?thesis
    using buf assms(3)
    by (simp add: enqueueAppData_def Let_def sendq_view_def getBytesAvailable_def
        createSegmentWithBytes_def seqLess_sdist seqLE_sdist)
qed

theorem send_queue_limit_gap_witness:
  "\<exists>q'. enqueueAppData (replicate half CHR ''x'') (sendq_init 7 sendq_new) = Inr q' \<and>
     getBytesAvailable (sq_start q') q' = 0"
proof -
  have "replicate half CHR ''x'' \<noteq> []" by (simp only: replicate_empty)
  from send_queue_limit_gap [OF sendq_start(1) this] sendq_start(2) show ?thesis by auto
qed

end
