(* ===== verification/ChunkBuffer.thy ===== *)
theory ChunkBuffer
  imports Prelude
begin

text \<open>
  Out-of-order data, \<open>inet/common/packet/ChunkBuffer.cc\<close>, \<open>ReorderBuffer.cc\<close> and
  \<open>ReassemblyBuffer.h\<close>. A chunk is the list of its data units; how the units are represented
  (byte counts, bytes, slices, sequences) only decides which of the three merge branches is taken,
  so \<open>canInsertAtBack\<close> and \<open>canInsertAtFront\<close> are parameters. Offsets and lengths are integers in
  the same unit. A slot whose \<open>data\<close> has been set to \<open>nullptr\<close> is \<open>None\<close>.

  The abstract view \<open>buf_abs\<close> of a buffer is a partial function from offsets to units. The lemmas
  show that \<open>replace\<close> overrides it, \<open>clear\<close> restricts it, that the list of regions stays sorted,
  non-overlapping and non-connecting, and that this list is determined by the view.
\<close>

section \<open>Regions and operations\<close>

record 'd chunk_region =
  r_offset :: int
  r_data :: "'d list"

definition chunkLength :: "'d list \<Rightarrow> int" where
  "chunkLength d = int (length d)"

definition getStartOffset :: "'d chunk_region \<Rightarrow> int" where
  "getStartOffset r = r_offset r"

definition getEndOffset :: "'d chunk_region \<Rightarrow> int" where
  "getEndOffset r = r_offset r + chunkLength (r_data r)"

text \<open>\<open>Chunk::peek(offset, length)\<close>: the units from \<open>offset\<close> on.\<close>

definition chunk_peek :: "'d list \<Rightarrow> int \<Rightarrow> int \<Rightarrow> 'd list" where
  "chunk_peek d offset len = take (nat len) (drop (nat offset) d)"

text \<open>
  The loop of \<open>sliceRegions\<close> over the regions between the two bounds; of \<open>newRegion\<close> the function
  only uses the start \<open>ns\<close> and the end \<open>ne\<close>.
\<close>

fun slice_loop :: "int \<Rightarrow> int \<Rightarrow> 'd chunk_region list \<Rightarrow> 'd chunk_region list" where
  "slice_loop ns ne [] = []"
| "slice_loop ns ne (old # rs) =
     (let os = getStartOffset old; oe = getEndOffset old
      in if ne \<le> os \<or> oe \<le> ns then old # slice_loop ns ne rs
         else if ns \<le> os \<and> oe \<le> ne then slice_loop ns ne rs
         else if os < ns \<and> ne < oe then
           \<lparr>r_offset = os, r_data = chunk_peek (r_data old) 0 (ns - os)\<rparr> #
           \<lparr>r_offset = ne, r_data = chunk_peek (r_data old) (ne - os) (oe - ne)\<rparr> # rs
         else if oe \<le> ne then
           old\<lparr>r_data := chunk_peek (r_data old) 0 (ns - os)\<rparr> # slice_loop ns ne rs
         else
           old\<lparr>r_data := chunk_peek (r_data old) (ne - os) (oe - ne), r_offset := ne\<rparr> #
           slice_loop ns ne rs)"

text \<open>
  \<open>std::lower_bound\<close> and \<open>std::upper_bound\<close> give the first region that does not start before
  \<open>newRegion\<close> and the first that ends after it, as indexes into the list.
\<close>

definition lower_index :: "int \<Rightarrow> 'd chunk_region list \<Rightarrow> nat" where
  "lower_index ns rs = length (takeWhile (\<lambda>r. getStartOffset r < ns) rs)"

definition upper_index :: "int \<Rightarrow> 'd chunk_region list \<Rightarrow> nat" where
  "upper_index ne rs = length (takeWhile (\<lambda>r. \<not> ne < getEndOffset r) rs)"

definition sliceRegions :: "int \<Rightarrow> int \<Rightarrow> 'd chunk_region list \<Rightarrow> 'd chunk_region list" where
  "sliceRegions ns ne rs =
     (if rs = [] then rs
      else let lower = lower_index ns rs;
               lowerit = (if lower \<noteq> 0 then lower - 1 else lower);
               upper = upper_index ne rs;
               upperit = (if upper \<noteq> length rs then upper + 1 else upper)
           in take lowerit rs @ slice_loop ns ne (take (upperit - lowerit) (drop lowerit rs)) @
              drop (max lowerit upperit) rs)"

text \<open>The three ways of merging two consecutive regions; both slots are returned.\<close>

type_synonym 'd can_insert = "'d list \<Rightarrow> 'd list \<Rightarrow> bool"

definition mergeRegions :: "'d can_insert \<Rightarrow> 'd can_insert \<Rightarrow> 'd chunk_region \<Rightarrow> 'd chunk_region \<Rightarrow>
    'd chunk_region option \<times> 'd chunk_region option" where
  "mergeRegions canInsertAtBack canInsertAtFront previous nxt =
     (if getEndOffset previous = getStartOffset nxt then
        if canInsertAtBack (r_data previous) (r_data nxt)
        then (Some (previous\<lparr>r_data := r_data previous @ r_data nxt\<rparr>), None)
        else if canInsertAtFront (r_data nxt) (r_data previous)
        then (None, Some (nxt\<lparr>r_data := r_data previous @ r_data nxt, r_offset := r_offset previous\<rparr>))
        else (Some (previous\<lparr>r_data := r_data previous @ r_data nxt\<rparr>), None)
      else (Some previous, Some nxt))"

fun eraseEmptyRegions :: "'d chunk_region option list \<Rightarrow> 'd chunk_region list" where
  "eraseEmptyRegions [] = []"
| "eraseEmptyRegions (None # rs) = eraseEmptyRegions rs"
| "eraseEmptyRegions (Some r # rs) = r # eraseEmptyRegions rs"

text \<open>
  The last branch of \<open>replace\<close>: the new region goes between \<open>before\<close> and \<open>after\<close> and is merged
  with its neighbours; \<open>slots\<close> are the slots of the previous and of the new region after the first
  merge.
\<close>

definition insert_between :: "'d can_insert \<Rightarrow> 'd can_insert \<Rightarrow> 'd chunk_region \<Rightarrow>
    'd chunk_region list \<Rightarrow> 'd chunk_region list \<Rightarrow> 'd chunk_region list" where
  "insert_between cb cf new before after =
     (let slots = (if before \<noteq> [] then mergeRegions cb cf (last before) new else (None, Some new));
          merged = (case slots of (_, Some r) \<Rightarrow> r | (Some p, None) \<Rightarrow> p | (None, None) \<Rightarrow> new)
      in if after \<noteq> [] then
           let (m, n) = mergeRegions cb cf merged (hd after)
           in butlast before @
              eraseEmptyRegions
                (case slots of (p, Some _) \<Rightarrow> [p, m, n] | (Some _, None) \<Rightarrow> [m, None, n]
                   | (None, None) \<Rightarrow> [None, m, n]) @ tl after
         else butlast before @ eraseEmptyRegions [fst slots, snd slots])"

definition replace :: "'d can_insert \<Rightarrow> 'd can_insert \<Rightarrow> int \<Rightarrow> 'd list \<Rightarrow> 'd chunk_region list \<Rightarrow>
    err + 'd chunk_region list" where
  "replace cb cf offset chunk regions0 =
     (if \<not> 0 \<le> offset then Inl (RuntimeError ''offset is invalid'')
      else if \<not> 0 < chunkLength chunk then Inl (RuntimeError ''chunk is empty'')
      else
        let newRegion = \<lparr>r_offset = offset, r_data = chunk\<rparr>;
            regions = sliceRegions offset (offset + chunkLength chunk) regions0
        in Inr (if regions = [] then [newRegion]
           else if getEndOffset (last regions) \<le> offset then
             butlast regions @ (let (p, n) = mergeRegions cb cf (last regions) newRegion
                                in eraseEmptyRegions [p, n])
           else if offset + chunkLength chunk \<le> getStartOffset (hd regions) then
             (let (p, n) = mergeRegions cb cf newRegion (hd regions)
              in eraseEmptyRegions [p, n]) @ tl regions
           else
             let i = length (takeWhile (\<lambda>r. \<not> offset < getStartOffset r) regions)
             in insert_between cb cf newRegion (take i regions) (drop i regions)))"

text \<open>
  \<open>clear(offset, length)\<close>: a region that matches exactly is erased, otherwise the range is cut out;
  the contents of the chunk made for the cut is never used.
\<close>

definition clear_range :: "int \<Rightarrow> int \<Rightarrow> 'd chunk_region list \<Rightarrow> err + 'd chunk_region list" where
  "clear_range offset len regions =
     (if \<not> 0 \<le> offset then Inl (RuntimeError ''offset is invalid'')
      else if \<not> 0 \<le> len then Inl (RuntimeError ''length is invalid'')
      else let i = length (takeWhile
                 (\<lambda>r. \<not> (r_offset r = offset \<and> chunkLength (r_data r) = len)) regions)
           in if i < length regions then Inr (take i regions @ drop (Suc i) regions)
              else Inr (sliceRegions offset (offset + len) regions))"

record 'd reorder_buffer =
  regions :: "'d chunk_region list"
  expectedOffset :: int

definition getAvailableDataLength :: "'d reorder_buffer \<Rightarrow> int" where
  "getAvailableDataLength b =
     (if regions b \<noteq> [] \<and> r_offset (hd (regions b)) = expectedOffset b
      then chunkLength (r_data (hd (regions b))) else 0)"

text \<open>
  \<open>None\<close> for \<open>nullptr\<close>; a length of \<open>-1\<close> asks for all that is available. What \<open>peek\<close> does with a
  length beyond the end of the chunk depends on the representation; here it is an error.
\<close>

definition popAvailableData :: "int \<Rightarrow> 'd reorder_buffer \<Rightarrow>
    err + ('d list option \<times> 'd reorder_buffer)" where
  "popAvailableData len b =
     (if regions b \<noteq> [] \<and> r_offset (hd (regions b)) = expectedOffset b then
        if len = 0 then Inl (RuntimeError ''Returning an empty chunk is not allowed'')
        else
        let dat = r_data (hd (regions b));
            (dat', dataLength) =
              (if len \<noteq> -1 then (chunk_peek dat 0 len, len) else (dat, chunkLength dat))
        in if chunkLength dat < len then Inl (RuntimeError ''peek beyond the end'')
           else ebind (clear_range (expectedOffset b) dataLength (regions b)) (\<lambda>rs.
             Inr (Some dat', b\<lparr>regions := rs, expectedOffset := expectedOffset b + dataLength\<rparr>))
      else Inr (None, b))"

record 'd reassembly_buffer =
  ra_regions :: "'d chunk_region list"
  expectedLength :: int

definition isComplete :: "'d reassembly_buffer \<Rightarrow> bool" where
  "isComplete b = (case ra_regions b of
       [r] \<Rightarrow> r_offset r = 0 \<and> chunkLength (r_data r) = expectedLength b | _ \<Rightarrow> False)"

definition getReassembledData :: "'d reassembly_buffer \<Rightarrow> err + 'd list" where
  "getReassembledData b =
     (if \<not> isComplete b then Inl (RuntimeError ''Reassembly is incomplete'')
      else Inr (r_data (hd (ra_regions b))))"

section \<open>The view by offset and well-formedness\<close>

definition reg_map :: "'d chunk_region \<Rightarrow> int \<Rightarrow> 'd option" where
  "reg_map r i = (if getStartOffset r \<le> i \<and> i < getEndOffset r
                  then Some (r_data r ! nat (i - getStartOffset r)) else None)"

fun buf_abs :: "'d chunk_region list \<Rightarrow> int \<Rightarrow> 'd option" where
  "buf_abs [] = Map.empty"
| "buf_abs (r # rs) = buf_abs rs ++ reg_map r"

definition buf_wf :: "'d chunk_region list \<Rightarrow> bool" where
  "buf_wf rs = (sorted_wrt (\<lambda>r s. getEndOffset r < getStartOffset s) rs \<and> (\<forall>r\<in>set rs. r_data r \<noteq> []))"

definition apart :: "'d chunk_region list \<Rightarrow> bool" where
  "apart rs = sorted_wrt (\<lambda>r s. getEndOffset r \<le> getStartOffset s) rs"

lemma reg_bounds: "getStartOffset r \<le> getEndOffset r"
  and reg_bounds_less: "r_data r \<noteq> [] \<Longrightarrow> getStartOffset r < getEndOffset r"
  by (simp_all add: getStartOffset_def getEndOffset_def chunkLength_def)

lemma wf_apart: "buf_wf rs \<Longrightarrow> apart rs"
  unfolding buf_wf_def apart_def by (auto elim: sorted_wrt_mono_rel [rotated])

lemma apart_Cons: "apart (r # rs) \<longleftrightarrow> (\<forall>s\<in>set rs. getEndOffset r \<le> getStartOffset s) \<and> apart rs"
  by (simp add: apart_def)

lemma buf_abs_append: "buf_abs (xs @ ys) = buf_abs ys ++ buf_abs xs"
  by (induction xs) simp_all

lemma reg_map_None: "i < getStartOffset r \<or> getEndOffset r \<le> i \<Longrightarrow> reg_map r i = None"
  by (auto simp: reg_map_def)

lemma buf_abs_None:
  "(\<And>r. r \<in> set rs \<Longrightarrow> i < getStartOffset r \<or> getEndOffset r \<le> i) \<Longrightarrow> buf_abs rs i = None"
  by (induction rs) (auto simp: map_add_def reg_map_None)

lemma buf_abs_Some:
  assumes "apart rs"
  shows "buf_abs rs i = Some x \<longleftrightarrow> (\<exists>r\<in>set rs. reg_map r i = Some x)"
  using assms
proof (induction rs)
  case Nil
  then show ?case by simp
next
  case (Cons r rs)
  show ?case
  proof (cases "reg_map r i")
    case None
    then show ?thesis using Cons by (simp add: apart_Cons map_add_def)
  next
    case (Some y)
    then have "i < getEndOffset r" by (auto simp: reg_map_def split: if_splits)
    then have "reg_map s i = None" if "s \<in> set rs" for s
      using that Cons.prems by (intro reg_map_None) (force simp: apart_Cons)
    with Some show ?thesis by (auto simp: map_add_def)
  qed
qed

lemma buf_abs_defined:
  assumes "apart rs"
  shows "buf_abs rs i \<noteq> None \<longleftrightarrow> (\<exists>r\<in>set rs. getStartOffset r \<le> i \<and> i < getEndOffset r)"
proof -
  have "reg_map r i \<noteq> None \<longleftrightarrow> getStartOffset r \<le> i \<and> i < getEndOffset r" for r :: "'a chunk_region"
    by (simp add: reg_map_def)
  then show ?thesis using buf_abs_Some [OF assms, of i] by blast
qed

lemma reg_map_cut_end:
  assumes "getStartOffset r \<le> m" and "m \<le> getEndOffset r"
  shows "reg_map \<lparr>r_offset = getStartOffset r,
      r_data = chunk_peek (r_data r) 0 (m - getStartOffset r)\<rparr> i = (if i < m then reg_map r i else None)"
  using assms
  by (auto simp: reg_map_def getStartOffset_def getEndOffset_def chunkLength_def chunk_peek_def)

lemma reg_map_cut_begin:
  assumes "getStartOffset r \<le> m" and "m \<le> getEndOffset r"
  shows "reg_map \<lparr>r_offset = m, r_data = chunk_peek (r_data r) (m - getStartOffset r)
      (getEndOffset r - m)\<rparr> i = (if m \<le> i then reg_map r i else None)"
  using assms
  by (auto simp: reg_map_def getStartOffset_def getEndOffset_def chunkLength_def chunk_peek_def
      min_def nat_diff_distrib intro!: arg_cong [of _ _ "nth (r_data r)"])

lemma cut_bounds:
  assumes "getStartOffset r \<le> m" and "m \<le> getEndOffset r"
  shows "getStartOffset \<lparr>r_offset = getStartOffset r,
      r_data = chunk_peek (r_data r) 0 (m - getStartOffset r)\<rparr> = getStartOffset r"
    and "getEndOffset \<lparr>r_offset = getStartOffset r,
      r_data = chunk_peek (r_data r) 0 (m - getStartOffset r)\<rparr> = m"
    and "getStartOffset \<lparr>r_offset = m, r_data = chunk_peek (r_data r) (m - getStartOffset r)
      (getEndOffset r - m)\<rparr> = m"
    and "getEndOffset \<lparr>r_offset = m, r_data = chunk_peek (r_data r) (m - getStartOffset r)
      (getEndOffset r - m)\<rparr> = getEndOffset r"
  using assms
  by (auto simp: getStartOffset_def getEndOffset_def chunkLength_def chunk_peek_def)

lemma region_update_simps:
  "old\<lparr>r_data := d\<rparr> = \<lparr>r_offset = getStartOffset old, r_data = d\<rparr>"
  "old\<lparr>r_data := d, r_offset := m\<rparr> = \<lparr>r_offset = m, r_data = d\<rparr>"
  by (cases old; simp add: getStartOffset_def)+

section \<open>Slicing\<close>

text \<open>One step of the loop: what becomes of the first region.\<close>

lemma slice_step_cases:
  assumes "ns \<le> ne"
  obtains (out) "ne \<le> getStartOffset r \<or> getEndOffset r \<le> ns"
      "slice_loop ns ne (r # rs) = r # slice_loop ns ne rs"
  | (covered) "ns \<le> getStartOffset r" "getEndOffset r \<le> ne"
      "slice_loop ns ne (r # rs) = slice_loop ns ne rs"
  | (split) p n where "getStartOffset r < ns" "ne < getEndOffset r"
      "slice_loop ns ne (r # rs) = p # n # rs"
      "getStartOffset p = getStartOffset r" "getEndOffset p = ns"
      "getStartOffset n = ne" "getEndOffset n = getEndOffset r"
      "reg_map p = (\<lambda>i. if i < ns then reg_map r i else None)"
      "reg_map n = (\<lambda>i. if ne \<le> i then reg_map r i else None)"
  | (cut_end) p where "getStartOffset r < ns" "ns < getEndOffset r" "getEndOffset r \<le> ne"
      "slice_loop ns ne (r # rs) = p # slice_loop ns ne rs"
      "getStartOffset p = getStartOffset r" "getEndOffset p = ns"
      "reg_map p = (\<lambda>i. if i < ns then reg_map r i else None)"
  | (cut_begin) n where "ns \<le> getStartOffset r" "getStartOffset r < ne" "ne < getEndOffset r"
      "slice_loop ns ne (r # rs) = n # slice_loop ns ne rs"
      "getStartOffset n = ne" "getEndOffset n = getEndOffset r"
      "reg_map n = (\<lambda>i. if ne \<le> i then reg_map r i else None)"
proof -
  let ?p = "\<lparr>r_offset = getStartOffset r, r_data = chunk_peek (r_data r) 0 (ns - getStartOffset r)\<rparr>"
  let ?n = "\<lparr>r_offset = ne, r_data = chunk_peek (r_data r) (ne - getStartOffset r) (getEndOffset r - ne)\<rparr>"
  have p: "getStartOffset ?p = getStartOffset r" "getEndOffset ?p = ns"
    "reg_map ?p = (\<lambda>i. if i < ns then reg_map r i else None)"
    if "getStartOffset r < ns" "ns < getEndOffset r"
    using that cut_bounds(1,2) [of r ns] reg_map_cut_end [of r ns] by (simp_all add: fun_eq_iff)
  have n: "getStartOffset ?n = ne" "getEndOffset ?n = getEndOffset r"
    "reg_map ?n = (\<lambda>i. if ne \<le> i then reg_map r i else None)"
    if "getStartOffset r < ne" "ne < getEndOffset r"
    using that cut_bounds(3,4) [of r ne] reg_map_cut_begin [of r ne] by (simp_all add: fun_eq_iff)
  consider "ne \<le> getStartOffset r \<or> getEndOffset r \<le> ns"
    | "ns \<le> getStartOffset r" "getEndOffset r \<le> ne" "\<not> (ne \<le> getStartOffset r \<or> getEndOffset r \<le> ns)"
    | "getStartOffset r < ns" "ne < getEndOffset r"
    | "getStartOffset r < ns" "ns < getEndOffset r" "getEndOffset r \<le> ne"
    | "ns \<le> getStartOffset r" "getStartOffset r < ne" "ne < getEndOffset r"
    by linarith
  then show ?thesis
  proof cases
    case 1
    then show ?thesis by (intro out) (simp_all add: Let_def)
  next
    case 2
    then show ?thesis by (intro covered) (simp_all add: Let_def)
  next
    case 3
    then show ?thesis using assms p n by (intro split [of ?p ?n]) (simp_all add: Let_def)
  next
    case 4
    then show ?thesis
      using p by (intro cut_end [of ?p]) (simp_all add: Let_def region_update_simps)
  next
    case 5
    then show ?thesis
      using n by (intro cut_begin [of ?n]) (simp_all add: Let_def region_update_simps)
  qed
qed

lemma slice_loop_within:
  assumes "s \<in> set (slice_loop ns ne rs)" and "ns \<le> ne"
  shows "\<exists>r\<in>set rs. getStartOffset r \<le> getStartOffset s \<and> getEndOffset s \<le> getEndOffset r"
  using assms(1)
proof (induction rs)
  case Nil
  then show ?case by simp
next
  case (Cons r rs)
  from assms(2) show ?case
  proof (cases rule: slice_step_cases [of ns ne r rs])
    case out
    with Cons show ?thesis by auto
  next
    case covered
    with Cons show ?thesis by auto
  next
    case (split p n)
    with Cons.prems assms(2) show ?thesis by auto
  next
    case (cut_end p)
    with Cons show ?thesis by auto
  next
    case (cut_begin n)
    with Cons show ?thesis by auto
  qed
qed

lemma slice_loop_abs:
  assumes "apart rs" and le: "ns \<le> ne"
  shows "buf_abs (slice_loop ns ne rs) i = (if ns \<le> i \<and> i < ne then None else buf_abs rs i)"
  using assms(1)
proof (induction rs)
  case Nil
  then show ?case by simp
next
  case (Cons r rs)
  have IH: "buf_abs (slice_loop ns ne rs) i = (if ns \<le> i \<and> i < ne then None else buf_abs rs i)"
    using Cons by (simp add: apart_Cons)
  have rest: "i < getEndOffset r \<Longrightarrow> buf_abs rs i = None"
    using Cons.prems(1) by (intro buf_abs_None) (force simp: apart_Cons)
  note none = reg_map_None [of i r]
  from le show ?case
  proof (cases rule: slice_step_cases [of ns ne r rs])
    case out
    then show ?thesis using IH none by (auto simp del: slice_loop.simps simp: map_add_def split: option.splits)
  next
    case covered
    then show ?thesis using IH none by (auto simp del: slice_loop.simps simp: map_add_def split: option.splits)
  next
    case (split p n)
    then show ?thesis
      using rest none le by (auto simp del: slice_loop.simps simp: map_add_def split: option.splits)
  next
    case (cut_end p)
    then show ?thesis using IH none by (auto simp del: slice_loop.simps simp: map_add_def split: option.splits)
  next
    case (cut_begin n)
    then show ?thesis using IH none by (auto simp del: slice_loop.simps simp: map_add_def split: option.splits)
  qed
qed

lemma data_nonempty_iff: "r_data r \<noteq> [] \<longleftrightarrow> getStartOffset r < getEndOffset r"
  by (simp add: getStartOffset_def getEndOffset_def chunkLength_def)

lemma buf_wf_Cons:
  "buf_wf (r # rs) \<longleftrightarrow> getStartOffset r < getEndOffset r \<and>
     (\<forall>s\<in>set rs. getEndOffset r < getStartOffset s) \<and> buf_wf rs"
  by (auto simp: buf_wf_def data_nonempty_iff)

lemma buf_wf_append:
  "buf_wf (xs @ ys) \<longleftrightarrow> buf_wf xs \<and> buf_wf ys \<and>
     (\<forall>r\<in>set xs. \<forall>s\<in>set ys. getEndOffset r < getStartOffset s)"
  by (auto simp: buf_wf_def sorted_wrt_append)

lemma buf_wf_Nil [simp]: "buf_wf []"
  by (simp add: buf_wf_def)

lemma buf_wf_span:
  assumes "buf_wf rs" and "rs \<noteq> []"
  shows "getStartOffset (hd rs) < getEndOffset (last rs)"
proof (cases rs)
  case (Cons a t)
  show ?thesis
  proof (cases "t = []")
    case False
    then have t: "last t \<in> set t" by simp
    then have "getEndOffset a < getStartOffset (last t)" "getStartOffset a < getEndOffset a"
      using assms Cons by (auto simp: buf_wf_Cons)
    with False Cons reg_bounds [of "last t"] show ?thesis by simp
  qed (use assms Cons in \<open>simp add: buf_wf_Cons\<close>)
qed (use assms in simp)

lemma slice_loop_wf:
  assumes "buf_wf rs" and "ns < ne"
  shows "buf_wf (slice_loop ns ne rs) \<and>
    (\<forall>s\<in>set (slice_loop ns ne rs). getEndOffset s \<le> ns \<or> ne \<le> getStartOffset s)"
  using assms
proof (induction rs)
  case Nil
  then show ?case by simp
next
  case (Cons r rs)
  have IH: "buf_wf (slice_loop ns ne rs)"
    "\<And>s. s \<in> set (slice_loop ns ne rs) \<Longrightarrow> getEndOffset s \<le> ns \<or> ne \<le> getStartOffset s"
    and r: "getStartOffset r < getEndOffset r" "\<And>s. s \<in> set rs \<Longrightarrow> getEndOffset r < getStartOffset s"
    and wf: "buf_wf rs"
    using Cons by (auto simp: buf_wf_Cons)
  have after: "getEndOffset r < getStartOffset s" if "s \<in> set (slice_loop ns ne rs)" for s
    using slice_loop_within [OF that] Cons.prems(2) r(2) by force
  from Cons.prems(2) have "ns \<le> ne" by simp
  then show ?case
  proof (cases rule: slice_step_cases [of ns ne r rs])
    case out
    then show ?thesis using IH r after by (auto simp del: slice_loop.simps simp: buf_wf_Cons)
  next
    case covered
    then show ?thesis using IH by (auto simp del: slice_loop.simps)
  next
    case (split p n)
    then show ?thesis
      using wf r Cons.prems(2) by (force simp del: slice_loop.simps simp: buf_wf_Cons)
  next
    case (cut_end p)
    then show ?thesis
      using IH r after by (force simp del: slice_loop.simps simp: buf_wf_Cons)
  next
    case (cut_begin n)
    then show ?thesis
      using IH r after by (force simp del: slice_loop.simps simp: buf_wf_Cons)
  qed
qed

lemma slice_loop_pass:
  "(\<And>r. r \<in> set xs \<Longrightarrow> ne \<le> getStartOffset r \<or> getEndOffset r \<le> ns) \<Longrightarrow>
     slice_loop ns ne (xs @ ys) = xs @ slice_loop ns ne ys"
  by (induction xs) (auto simp: Let_def)

lemma slice_loop_pass_all:
  "(\<And>r. r \<in> set xs \<Longrightarrow> ne \<le> getStartOffset r \<or> getEndOffset r \<le> ns) \<Longrightarrow> slice_loop ns ne xs = xs"
  using slice_loop_pass [of xs ne ns "[]"] by simp

lemma slice_loop_stop:
  "(\<And>r. r \<in> set ys \<Longrightarrow> ne \<le> getStartOffset r \<or> getEndOffset r \<le> ns) \<Longrightarrow>
     slice_loop ns ne (xs @ ys) = slice_loop ns ne xs @ ys"
  by (induction xs) (auto simp: Let_def slice_loop_pass_all)

lemma wf_nth_less: "buf_wf rs \<Longrightarrow> i < j \<Longrightarrow> j < length rs \<Longrightarrow> getEndOffset (rs ! i) < getStartOffset (rs ! j)"
  by (simp add: buf_wf_def sorted_wrt_iff_nth_less)

lemma wf_nth_nonempty: "buf_wf rs \<Longrightarrow> i < length rs \<Longrightarrow> getStartOffset (rs ! i) < getEndOffset (rs ! i)"
  using nth_mem by (force simp: buf_wf_def data_nonempty_iff)

text \<open>Searching for the two bounds skips only regions the new region does not touch.\<close>

lemma sliceRegions_loop:
  assumes wf: "buf_wf rs" and "ns < ne"
  shows "sliceRegions ns ne rs = slice_loop ns ne rs"
proof (cases "rs = []")
  case True
  then show ?thesis by (simp add: sliceRegions_def)
next
  case False
  define lower where "lower = lower_index ns rs"
  define l where "l = (if lower \<noteq> 0 then lower - 1 else lower)"
  define upper where "upper = upper_index ne rs"
  define u where "u = (if upper \<noteq> length rs then upper + 1 else upper)"
  have pre: "ne \<le> getStartOffset r \<or> getEndOffset r \<le> ns" if r: "r \<in> set (take l rs)" for r
  proof -
    obtain i where "i < length (take l rs)" "take l rs ! i = r"
      using r unfolding in_set_conv_nth by blast
    then have i: "i < l" "i < length rs" "r = rs ! i" by auto
    then have "Suc i < lower" by (auto simp: l_def split: if_splits)
    then have "getStartOffset (rs ! Suc i) < ns" "Suc i < length rs"
      using nth_length_takeWhile [of "\<lambda>r. getStartOffset r < ns" rs]
        takeWhile_nth [of "Suc i" "\<lambda>r. getStartOffset r < ns" rs]
        nth_mem [of "Suc i" "takeWhile (\<lambda>r. getStartOffset r < ns) rs"]
        length_takeWhile_le [of "\<lambda>r. getStartOffset r < ns" rs]
      by (auto simp: lower_def lower_index_def dest!: set_takeWhileD)
    then show ?thesis using wf_nth_less [OF wf, of i "Suc i"] i by auto
  qed
  have post: "ne \<le> getStartOffset r \<or> getEndOffset r \<le> ns" if r: "r \<in> set (drop (max l u) rs)" for r
  proof -
    obtain k where k: "k < length (drop (max l u) rs)" "drop (max l u) rs ! k = r"
      using r unfolding in_set_conv_nth by blast
    then have "max l u \<le> length rs" unfolding length_drop by linarith
    with k obtain j where j: "max l u \<le> j" "j < length rs" "r = rs ! j"
      by (intro that [of "max l u + k"]) simp_all
    then have up: "upper < length rs" "upper < j"
      using length_takeWhile_le [of "\<lambda>r. \<not> ne < getEndOffset r" rs]
      by (auto simp: u_def upper_def upper_index_def split: if_splits)
    then have "ne < getEndOffset (rs ! upper)"
      using nth_length_takeWhile [of "\<lambda>r. \<not> ne < getEndOffset r" rs]
      by (simp add: upper_def upper_index_def)
    then show ?thesis using wf_nth_less [OF wf up(2) j(2)] j by auto
  qed
  have parts: "rs = take l rs @ take (u - l) (drop l rs) @ drop (max l u) rs"
  proof (cases "l \<le> u")
    case True
    then have "take u rs = take l rs @ take (u - l) (drop l rs)"
      using take_add [of l "u - l" rs] by simp
    with True show ?thesis by (metis append_assoc append_take_drop_id max.absorb2)
  qed simp
  have "slice_loop ns ne rs =
      slice_loop ns ne (take l rs @ take (u - l) (drop l rs) @ drop (max l u) rs)"
    using parts by (rule arg_cong)
  also have "\<dots> = take l rs @ slice_loop ns ne (take (u - l) (drop l rs) @ drop (max l u) rs)"
    by (rule slice_loop_pass [OF pre])
  also have "slice_loop ns ne (take (u - l) (drop l rs) @ drop (max l u) rs) =
      slice_loop ns ne (take (u - l) (drop l rs)) @ drop (max l u) rs"
    by (rule slice_loop_stop [OF post])
  finally have loop: "slice_loop ns ne rs =
      take l rs @ slice_loop ns ne (take (u - l) (drop l rs)) @ drop (max l u) rs" .
  show ?thesis
    unfolding loop unfolding sliceRegions_def Let_def l_def u_def lower_def upper_def
    using False by (simp only: if_False)
qed

section \<open>Merging and replacing\<close>

definition glue :: "'d chunk_region \<Rightarrow> 'd chunk_region \<Rightarrow> 'd chunk_region" where
  "glue p n = \<lparr>r_offset = r_offset p, r_data = r_data p @ r_data n\<rparr>"

lemma glue_bounds:
  "getStartOffset (glue p n) = getStartOffset p"
  "getEndOffset p = getStartOffset n \<Longrightarrow> getEndOffset (glue p n) = getEndOffset n"
  by (auto simp: glue_def getStartOffset_def getEndOffset_def chunkLength_def)

lemma reg_map_glue:
  assumes "getEndOffset p = getStartOffset n"
  shows "reg_map (glue p n) = reg_map p ++ reg_map n"
proof
  fix i
  have "nat (i - (r_offset p + int k)) = nat (i - r_offset p) - k" for k by linarith
  moreover have "r_offset n = r_offset p + int (length (r_data p))"
    using assms by (simp add: getStartOffset_def getEndOffset_def chunkLength_def)
  ultimately show "reg_map (glue p n) i = (reg_map p ++ reg_map n) i"
    by (simp add: glue_def reg_map_def map_add_def getStartOffset_def getEndOffset_def
        chunkLength_def nth_append nat_less_iff)
qed

text \<open>Whatever the representation of the chunks, the two slots hold one glued region, or both.\<close>

lemma mergeRegions_cases:
  obtains (glued1) "getEndOffset p = getStartOffset n" "mergeRegions cb cf p n = (Some (glue p n), None)"
  | (glued2) "getEndOffset p = getStartOffset n" "mergeRegions cb cf p n = (None, Some (glue p n))"
  | (separate) "getEndOffset p \<noteq> getStartOffset n" "mergeRegions cb cf p n = (Some p, Some n)"
  by (cases "getEndOffset p = getStartOffset n"; cases "cb (r_data p) (r_data n)";
      cases "cf (r_data n) (r_data p)")
    (auto simp: mergeRegions_def glue_def region_update_simps getStartOffset_def)

definition join_left :: "'d chunk_region list \<Rightarrow> 'd chunk_region \<Rightarrow> 'd chunk_region list \<times> 'd chunk_region" where
  "join_left before r =
     (if before \<noteq> [] \<and> getEndOffset (last before) = getStartOffset r
      then (butlast before, glue (last before) r) else (before, r))"

definition join_right :: "'d chunk_region \<Rightarrow> 'd chunk_region list \<Rightarrow> 'd chunk_region list" where
  "join_right r after =
     (if after \<noteq> [] \<and> getEndOffset r = getStartOffset (hd after)
      then glue r (hd after) # tl after else r # after)"

lemma insert_between_join:
  "insert_between cb cf new before after = fst (join_left before new) @ join_right (snd (join_left before new)) after"
proof -
  consider (none) "before = []"
    | (some) "before \<noteq> []" by blast
  then show ?thesis
  proof cases
    case none
    show ?thesis
    proof (cases "after = []")
      case True
      with none show ?thesis by (simp add: insert_between_def join_left_def join_right_def Let_def)
    next
      case False
      then show ?thesis
        using none by (cases rule: mergeRegions_cases [of new "hd after" cb cf])
          (auto simp: insert_between_def join_left_def join_right_def Let_def)
    qed
  next
    case some
    then show ?thesis proof (cases "after = []")
      case True
      with some show ?thesis
        by (cases rule: mergeRegions_cases [of "last before" new cb cf])
          (auto simp: insert_between_def join_left_def join_right_def Let_def)
    next
      case False
      show ?thesis
      proof (cases rule: mergeRegions_cases [of "last before" new cb cf])
        case glued1
        then show ?thesis using some False
          by (cases rule: mergeRegions_cases [of "glue (last before) new" "hd after" cb cf])
            (auto simp: insert_between_def join_left_def join_right_def Let_def)
      next
        case glued2
        then show ?thesis using some False
          by (cases rule: mergeRegions_cases [of "glue (last before) new" "hd after" cb cf])
            (auto simp: insert_between_def join_left_def join_right_def Let_def)
      next
        case separate
        then show ?thesis using some False
          by (cases rule: mergeRegions_cases [of new "hd after" cb cf])
            (auto simp: insert_between_def join_left_def join_right_def Let_def)
      qed
    qed
  qed
qed

text \<open>The four branches of \<open>replace\<close> all insert between the regions before and after the new one.\<close>

lemma replace_insert_between:
  assumes wf: "buf_wf rs" and off: "0 \<le> off" and chunk: "chunk \<noteq> []"
    and ne: "ne = off + chunkLength chunk" and new: "new = \<lparr>r_offset = off, r_data = chunk\<rparr>"
  obtains L R where "slice_loop off ne rs = L @ R"
    and "\<And>r. r \<in> set L \<Longrightarrow> getEndOffset r \<le> off" and "\<And>r. r \<in> set R \<Longrightarrow> ne \<le> getStartOffset r"
    and "replace cb cf off chunk rs = Inr (insert_between cb cf new L R)"
proof -
  let ?ss = "slice_loop off ne rs" and ?P = "\<lambda>r. \<not> off < getStartOffset r"
  have lt: "off < ne" using chunk by (simp add: ne chunkLength_def)
  have sl: "buf_wf ?ss" "\<And>s. s \<in> set ?ss \<Longrightarrow> getEndOffset s \<le> off \<or> ne \<le> getStartOffset s"
    using slice_loop_wf [OF wf lt] by auto
  define L where "L = takeWhile ?P ?ss"
  define R where "R = dropWhile ?P ?ss"
  have LR: "?ss = L @ R" by (simp add: L_def R_def)
  have bnd: "getStartOffset s < getEndOffset s" if "s \<in> set ?ss" for s
    using that sl(1) by (auto simp: buf_wf_def data_nonempty_iff)
  have L: "getEndOffset r \<le> off" if "r \<in> set L" for r
    using that sl(2) [of r] lt by (auto simp: L_def dest: set_takeWhileD)
  have R: "ne \<le> getStartOffset r" if r: "r \<in> set R" for r
  proof (rule ccontr)
    assume "\<not> ne \<le> getStartOffset r"
    moreover have r_in: "r \<in> set ?ss" using r LR by auto
    ultimately have "getStartOffset r < off" using sl(2) [of r] bnd by force
    moreover obtain h t where ht: "R = h # t" using r by (cases R) auto
    then have "off < getStartOffset h" by (metis R_def hd_dropWhile list.discI list.sel(1))
    moreover have "buf_wf (h # t)" using sl(1) LR ht by (simp add: buf_wf_append)
    then have "r = h \<or> getEndOffset h < getStartOffset r"
      using r ht by (auto simp: buf_wf_Cons)
    moreover have "getStartOffset h < getEndOffset h" using bnd LR ht by simp
    ultimately show False by auto
  qed
  have i: "take (length (takeWhile ?P ?ss)) ?ss = L" "drop (length (takeWhile ?P ?ss)) ?ss = R"
    by (simp_all add: L_def R_def takeWhile_eq_take [symmetric] dropWhile_eq_drop [symmetric])
  have sr: "sliceRegions off ne rs = ?ss" and clen: "0 < chunkLength chunk"
    using sliceRegions_loop [OF wf lt] lt by (simp_all add: ne)
  note unf = replace_def Let_def new ne [symmetric] sr
  have nb: "getStartOffset new = off" "getEndOffset new = ne"
    by (simp_all add: new ne getStartOffset_def getEndOffset_def)
  have "replace cb cf off chunk rs = Inr (insert_between cb cf new L R)"
  proof (cases "?ss = [] \<or> getEndOffset (last ?ss) \<le> off \<or> ne \<le> getStartOffset (hd ?ss)")
    case False
    then show ?thesis
      using off clen i by (simp add: unf)
  next
    case True
    then consider (nil) "?ss = []" | (at_back) "?ss \<noteq> []" "getEndOffset (last ?ss) \<le> off"
      | (front) "?ss \<noteq> []" "\<not> getEndOffset (last ?ss) \<le> off" "ne \<le> getStartOffset (hd ?ss)"
      by blast
    then show ?thesis
    proof cases
      case nil
      then show ?thesis
        using off clen by (simp add: unf insert_between_def L_def R_def)
    next
      case at_back
      have "R = []"
      proof (rule ccontr)
        assume "R \<noteq> []"
        then have "last ?ss \<in> set R" using LR by simp
        then show False using R at_back(2) bnd [of "last ?ss"] at_back(1) lt by force
      qed
      then show ?thesis
        using off clen at_back LR by (auto simp: unf insert_between_def split: prod.splits)
    next
      case front
      have "L = []"
      proof (rule ccontr)
        assume "L \<noteq> []"
        then have "hd ?ss \<in> set L" using LR by simp
        then show False using L front(3) bnd [of "hd ?ss"] front(1) lt by force
      qed
      then show ?thesis
        using off clen front LR by (auto simp: unf insert_between_def split: prod.splits)
    qed
  qed
  then show ?thesis using that [OF LR L R] by blast
qed

lemma join_left_wf:
  assumes "buf_wf before" and "\<And>r. r \<in> set before \<Longrightarrow> getEndOffset r \<le> getStartOffset new"
    and "getStartOffset new < getEndOffset new" and "join_left before new = (b, m)"
  shows "buf_wf (b @ [m]) \<and> getEndOffset m = getEndOffset new \<and>
    buf_abs (b @ [m]) = buf_abs (before @ [new])"
proof (cases "before \<noteq> [] \<and> getEndOffset (last before) = getStartOffset new")
  case True
  then obtain y where y: "before = b @ [y]" "m = glue y new" "getEndOffset y = getStartOffset new"
    using assms(4) by (cases before rule: rev_cases) (auto simp: join_left_def)
  moreover have "reg_map (glue y new) = reg_map new ++ reg_map y"
    using y(3) by (auto simp: reg_map_glue map_add_def reg_map_def fun_eq_iff)
  ultimately show ?thesis
    using assms(1,3) by (auto simp: buf_wf_append buf_wf_Cons glue_bounds buf_abs_append)
next
  case False
  then have bm: "b = before" "m = new" using assms(4) by (auto simp: join_left_def)
  have "getEndOffset r < getStartOffset new" if r: "r \<in> set before" for r
  proof (cases "r = last before")
    case True
    with False assms(2) [of r] r show ?thesis by (cases "before = []") auto
  next
    case False
    obtain xs y where xy: "before = xs @ [y]" using r by (cases before rule: rev_cases) auto
    with False r assms(1) have "getEndOffset r < getStartOffset y" "getStartOffset y < getEndOffset y"
      by (auto simp: buf_wf_append buf_wf_Cons)
    with assms(2) [of y] xy show ?thesis by simp
  qed
  with assms(1,3) bm show ?thesis by (simp add: buf_wf_append buf_wf_Cons)
qed

lemma join_right_wf:
  assumes "buf_wf (b @ [m])" and "buf_wf after"
    and "\<And>r. r \<in> set after \<Longrightarrow> getEndOffset m \<le> getStartOffset r"
  shows "buf_wf (b @ join_right m after) \<and> buf_abs (b @ join_right m after) = buf_abs (b @ m # after)"
proof (cases after)
  case Nil
  with assms(1) show ?thesis by (simp add: join_right_def)
next
  case (Cons h t)
  have bnd: "getStartOffset m < getEndOffset m" "\<And>r. r \<in> set b \<Longrightarrow> getEndOffset r < getStartOffset m"
    "buf_wf b" using assms(1) by (auto simp: buf_wf_append buf_wf_Cons)
  have h: "getStartOffset h < getEndOffset h" "buf_wf t" "\<And>r. r \<in> set t \<Longrightarrow> getEndOffset h < getStartOffset r"
    "getEndOffset m \<le> getStartOffset h"
    using assms(2,3) Cons by (auto simp: buf_wf_Cons)
  show ?thesis
  proof (cases "getEndOffset m = getStartOffset h")
    case True
    then have "reg_map (glue m h) = reg_map h ++ reg_map m"
      by (auto simp: reg_map_glue map_add_def reg_map_def fun_eq_iff)
    then show ?thesis
      using True Cons h bnd
      by (fastforce simp: join_right_def buf_wf_append buf_wf_Cons glue_bounds buf_abs_append)
  next
    case False
    then show ?thesis using Cons h bnd by (fastforce simp: join_right_def buf_wf_append buf_wf_Cons)
  qed
qed

lemma replace_buf_abs:
  assumes wf: "buf_wf rs" and off: "0 \<le> off" and chunk: "chunk \<noteq> []"
  shows "\<exists>rs'. replace cb cf off chunk rs = Inr rs' \<and> buf_wf rs' \<and>
    buf_abs rs' = buf_abs rs ++ reg_map \<lparr>r_offset = off, r_data = chunk\<rparr>"
proof -
  let ?new = "\<lparr>r_offset = off, r_data = chunk\<rparr>" and ?ne = "off + chunkLength chunk"
  obtain L R where LR: "slice_loop off ?ne rs = L @ R"
    and L: "\<And>r. r \<in> set L \<Longrightarrow> getEndOffset r \<le> off" and R: "\<And>r. r \<in> set R \<Longrightarrow> ?ne \<le> getStartOffset r"
    and res: "replace cb cf off chunk rs = Inr (insert_between cb cf ?new L R)"
    by (rule replace_insert_between [OF assms refl refl, of cb cf]) blast
  have lt: "off < ?ne" using chunk by (simp add: chunkLength_def)
  have nb: "getStartOffset ?new = off" "getEndOffset ?new = ?ne"
    by (simp_all add: getStartOffset_def getEndOffset_def)
  have wfs: "buf_wf L" "buf_wf R"
    using slice_loop_wf [OF wf lt] by (simp_all add: LR buf_wf_append)
  obtain b m where jl: "join_left L ?new = (b, m)" by fastforce
  have left: "buf_wf (b @ [m])" "getEndOffset m = ?ne" "buf_abs (b @ [m]) = buf_abs (L @ [?new])"
    using join_left_wf [OF wfs(1) _ _ jl] L lt nb by auto
  have right: "buf_wf (b @ join_right m R)" "buf_abs (b @ join_right m R) = buf_abs (b @ m # R)"
    using join_right_wf [OF left(1) wfs(2)] R left(2) by auto
  have "buf_abs (b @ m # R) = buf_abs R ++ buf_abs (L @ [?new])"
    using left(3) buf_abs_append [of "b @ [m]" R] by simp
  also have "\<dots> = buf_abs (L @ R) ++ reg_map ?new"
  proof
    fix i
    have "buf_abs L i = None" "buf_abs R i = None" if "reg_map ?new i \<noteq> None"
      using that L R nb by (force intro!: buf_abs_None simp: reg_map_def split: if_splits)+
    then show "(buf_abs R ++ buf_abs (L @ [?new])) i = (buf_abs (L @ R) ++ reg_map ?new) i"
      by (cases "reg_map ?new i") (auto simp: buf_abs_append map_add_def split: option.splits)
  qed
  also have "\<dots> = buf_abs rs ++ reg_map ?new"
  proof
    fix i
    show "(buf_abs (L @ R) ++ reg_map ?new) i = (buf_abs rs ++ reg_map ?new) i"
      using slice_loop_abs [OF wf_apart [OF wf], of off ?ne i] lt nb
      by (cases "reg_map ?new i") (auto simp: LR map_add_def reg_map_def split: option.splits if_splits)
  qed
  finally show ?thesis
    using res right insert_between_join [of cb cf ?new L R] by (auto simp: jl)
qed

section \<open>Clearing\<close>

lemma apart_split_None:
  assumes "apart (xs @ r # ys)" and "getStartOffset r \<le> i" and "i < getEndOffset r"
  shows "buf_abs xs i = None" and "buf_abs ys i = None"
  using assms by (force intro!: buf_abs_None simp: apart_def sorted_wrt_append)+

lemma clear_range_abs:
  assumes wf: "buf_wf rs" and off: "0 \<le> off" and len: "0 < len"
  shows "\<exists>rs'. clear_range off len rs = Inr rs' \<and> buf_wf rs' \<and>
    buf_abs rs' = (\<lambda>i. if off \<le> i \<and> i < off + len then None else buf_abs rs i)"
proof -
  let ?P = "\<lambda>r. \<not> (r_offset r = off \<and> chunkLength (r_data r) = len)"
  let ?i = "length (takeWhile ?P rs)"
  show ?thesis
  proof (cases "?i < length rs")
    case True
    define r where "r = rs ! ?i"
    have r: "getStartOffset r = off" "getEndOffset r = off + len"
      using nth_length_takeWhile [OF True]
      by (auto simp: r_def getStartOffset_def getEndOffset_def)
    have parts: "rs = take ?i rs @ r # drop (Suc ?i) rs"
      unfolding r_def by (rule id_take_nth_drop [OF True])
    then have wf': "buf_wf (take ?i rs @ r # drop (Suc ?i) rs)" using wf by simp
    have "buf_abs (take ?i rs @ drop (Suc ?i) rs) i =
        (if off \<le> i \<and> i < off + len then None else buf_abs rs i)" for i
      using apart_split_None [OF wf_apart [OF wf'], of i] r reg_map_None [of i r]
      by (subst (3) parts) (auto simp: buf_abs_append map_add_def split: option.splits)
    moreover have "buf_wf (take ?i rs @ drop (Suc ?i) rs)"
      using wf' by (simp add: buf_wf_append buf_wf_Cons)
    ultimately show ?thesis using True off len by (auto simp: clear_range_def Let_def)
  next
    case False
    have lt: "off < off + len" using len by simp
    show ?thesis
      using False off len slice_loop_wf [OF wf lt] slice_loop_abs [OF wf_apart [OF wf], of off "off + len"]
        sliceRegions_loop [OF wf lt]
      by (auto simp: clear_range_def Let_def fun_eq_iff)
  qed
qed

section \<open>The regions are determined by the view\<close>

lemma reg_map_Some:
  "k < length (r_data r) \<Longrightarrow> reg_map r (getStartOffset r + int k) = Some (r_data r ! k)"
  by (simp add: reg_map_def getStartOffset_def getEndOffset_def chunkLength_def)

lemma abs_first:
  assumes "buf_wf (r # rs)"
  shows "i < getStartOffset r \<Longrightarrow> buf_abs (r # rs) i = None"
    and "getStartOffset r \<le> i \<Longrightarrow> i < getEndOffset r \<Longrightarrow> buf_abs (r # rs) i = reg_map r i"
    and "buf_abs (r # rs) (getEndOffset r) = None"
    and "getEndOffset r \<le> i \<Longrightarrow> buf_abs (r # rs) i = buf_abs rs i"
    and "i < getEndOffset r \<Longrightarrow> buf_abs rs i = None"
proof -
  have r: "getStartOffset r < getEndOffset r" "\<And>s. s \<in> set rs \<Longrightarrow> getEndOffset r < getStartOffset s"
    using assms by (auto simp: buf_wf_Cons)
  have none: "buf_abs rs j = None" if "j \<le> getEndOffset r" for j
    using that r(2) by (force intro: buf_abs_None)
  show "i < getStartOffset r \<Longrightarrow> buf_abs (r # rs) i = None"
    using none [of i] r(1) by (simp add: map_add_def reg_map_None)
  show "getStartOffset r \<le> i \<Longrightarrow> i < getEndOffset r \<Longrightarrow> buf_abs (r # rs) i = reg_map r i"
    using none [of i] by (simp add: map_add_def split: option.splits)
  show "buf_abs (r # rs) (getEndOffset r) = None"
    using none [of "getEndOffset r"] by (simp add: map_add_def reg_map_None)
  show "getEndOffset r \<le> i \<Longrightarrow> buf_abs (r # rs) i = buf_abs rs i"
    by (simp add: map_add_def reg_map_None)
  show "i < getEndOffset r \<Longrightarrow> buf_abs rs i = None" using none [of i] by simp
qed

lemma region_eqI:
  fixes r s :: "'d chunk_region"
  assumes "getStartOffset r = getStartOffset s" and "getEndOffset r = getEndOffset s"
    and "\<And>i. getStartOffset r \<le> i \<Longrightarrow> i < getEndOffset r \<Longrightarrow> reg_map r i = reg_map s i"
  shows "r = s"
proof -
  have len: "length (r_data r) = length (r_data s)"
    using assms(1,2) by (simp add: getStartOffset_def getEndOffset_def chunkLength_def)
  have "r_data r = r_data s"
  proof (rule nth_equalityI [OF len])
    fix k assume k: "k < length (r_data r)"
    then have "getStartOffset r + int k < getEndOffset r"
      by (simp add: getStartOffset_def getEndOffset_def chunkLength_def)
    then show "r_data r ! k = r_data s ! k"
      using assms(3) [of "getStartOffset r + int k"] reg_map_Some [of k r] reg_map_Some [of k s] k len
        assms(1) by simp
  qed
  with assms(1) show ?thesis by (cases r; cases s) (simp add: getStartOffset_def)
qed

lemma buf_abs_start: "buf_wf (r # rs) \<Longrightarrow> buf_abs (r # rs) (getStartOffset r) \<noteq> None"
  by (subst abs_first(2)) (auto simp: buf_wf_Cons reg_map_def)

lemma buf_abs_inj:
  "buf_wf rs \<Longrightarrow> buf_wf ss \<Longrightarrow> buf_abs rs = buf_abs ss \<Longrightarrow> rs = ss"
proof (induction rs arbitrary: ss)
  case Nil
  have "False" if "ss = s # ss'" for s ss'
    using buf_abs_start [of s ss'] Nil that fun_cong [OF Nil(3), of "getStartOffset s"] by simp
  then show ?case by (cases ss) auto
next
  case (Cons r rs)
  then obtain s ss' where ss: "ss = s # ss'"
    using buf_abs_start [of r rs] by (cases ss) auto
  have eq: "buf_abs (r # rs) i = buf_abs (s # ss') i" for i using Cons.prems(3) ss by simp
  note R = abs_first [OF Cons.prems(1)] and S = abs_first [of s ss']
  have wfs: "buf_wf (s # ss')" using Cons.prems(2) ss by simp
  have start: "getStartOffset r = getStartOffset s"
    using R(1) [of "getStartOffset s"] S(1) [OF wfs, of "getStartOffset r"] eq
      buf_abs_start [OF Cons.prems(1)] buf_abs_start [OF wfs]
    by (metis linorder_neqE)
  have bnd: "getStartOffset r < getEndOffset r" "getStartOffset s < getEndOffset s"
    using Cons.prems(1) wfs by (auto simp: buf_wf_Cons)
  have inside: "reg_map t i \<noteq> None" if "getStartOffset t \<le> i" "i < getEndOffset t"
    for t :: "'a chunk_region" and i
    using that by (simp add: reg_map_def)
  have "\<not> getEndOffset r < getEndOffset s"
    using R(3) S(2) [OF wfs, of "getEndOffset r"] eq [of "getEndOffset r"]
      inside [of s "getEndOffset r"] start bnd by (auto simp del: buf_abs.simps)
  moreover have "\<not> getEndOffset s < getEndOffset r"
    using S(3) [OF wfs] R(2) [of "getEndOffset s"] eq [of "getEndOffset s"]
      inside [of r "getEndOffset s"] start bnd by (auto simp del: buf_abs.simps)
  ultimately have stop: "getEndOffset r = getEndOffset s" by simp
  have "r = s"
    using R(2) S(2) [OF wfs] eq start stop by (intro region_eqI) metis+
  moreover have "buf_abs rs = buf_abs ss'"
  proof
    fix i
    show "buf_abs rs i = buf_abs ss' i"
      using R(4,5) [of i] S(4,5) [OF wfs, of i] eq [of i] stop by (cases "i < getEndOffset r") auto
  qed
  then have "rs = ss'" using Cons.IH [of ss'] Cons.prems(1) wfs by (simp add: buf_wf_Cons)
  ultimately show ?case using ss by simp
qed

section \<open>Popping\<close>

definition ro_wf :: "'d reorder_buffer \<Rightarrow> bool" where
  "ro_wf b = (buf_wf (regions b) \<and> 0 \<le> expectedOffset b \<and>
     (\<forall>r\<in>set (regions b). expectedOffset b \<le> getStartOffset r))"

text \<open>The units \<open>[i, i + n)\<close> of a view, where it is defined.\<close>

definition units_at :: "(int \<Rightarrow> 'd option) \<Rightarrow> int \<Rightarrow> nat \<Rightarrow> 'd list" where
  "units_at a i n = map (\<lambda>k. the (a (i + int k))) [0..<n]"

lemma available_iff:
  assumes "ro_wf b"
  shows "0 < getAvailableDataLength b \<longleftrightarrow> buf_abs (regions b) (expectedOffset b) \<noteq> None"
proof (cases "regions b")
  case Nil
  then show ?thesis by (simp add: getAvailableDataLength_def)
next
  case (Cons r rs)
  then have wf: "buf_wf (r # rs)" "expectedOffset b \<le> getStartOffset r" using assms by (auto simp: ro_wf_def)
  then show ?thesis
    using abs_first(1) [OF wf(1), of "expectedOffset b"] buf_abs_start [OF wf(1)] Cons
    by (cases "expectedOffset b = getStartOffset r")
      (auto simp: getAvailableDataLength_def getStartOffset_def chunkLength_def buf_wf_def)
qed

lemma popAvailableData_abs:
  assumes wf: "ro_wf b" and len: "0 < len" "len \<le> getAvailableDataLength b"
  shows "\<exists>b'. popAvailableData len b =
      Inr (Some (units_at (buf_abs (regions b)) (expectedOffset b) (nat len)), b') \<and> ro_wf b' \<and>
    expectedOffset b' = expectedOffset b + len \<and>
    buf_abs (regions b') = (\<lambda>i. if i < expectedOffset b + len then None else buf_abs (regions b) i)"
proof -
  obtain r rs where r: "regions b = r # rs" "r_offset r = expectedOffset b" "len \<le> chunkLength (r_data r)"
    using len by (cases "regions b") (auto simp: getAvailableDataLength_def split: if_splits)
  let ?e = "expectedOffset b"
  have bw: "buf_wf (r # rs)" "0 \<le> ?e" and start: "getStartOffset r = ?e"
    using wf r by (auto simp: ro_wf_def getStartOffset_def)
  obtain rs' where rs': "clear_range ?e len (regions b) = Inr rs'" "buf_wf rs'"
    "buf_abs rs' = (\<lambda>i. if ?e \<le> i \<and> i < ?e + len then None else buf_abs (regions b) i)"
    using clear_range_abs [of "regions b" ?e len] bw r(1) len(1) by auto
  have data: "chunk_peek (r_data r) 0 len = units_at (buf_abs (regions b)) ?e (nat len)"
  proof (rule nth_equalityI)
    show "length (chunk_peek (r_data r) 0 len) =
        length (units_at (buf_abs (regions b)) ?e (nat len))"
      using r(3) len(1) by (simp add: chunk_peek_def units_at_def chunkLength_def)
    fix k assume "k < length (chunk_peek (r_data r) 0 len)"
    then have k: "k < nat len" "k < length (r_data r)" by (auto simp: chunk_peek_def)
    then have "buf_abs (r # rs) (?e + int k) = Some (r_data r ! k)"
      using abs_first(2) [OF bw(1), of "?e + int k"] reg_map_Some [of k r] start
      by (simp add: getEndOffset_def getStartOffset_def chunkLength_def)
    with k r(1) show "chunk_peek (r_data r) 0 len ! k =
        units_at (buf_abs (regions b)) ?e (nat len) ! k"
      by (simp add: chunk_peek_def units_at_def)
  qed
  have below: "buf_abs (regions b) i = None" if "i < ?e" for i
    using abs_first(1) [OF bw(1), of i] that start r(1) by simp
  have abs': "buf_abs rs' = (\<lambda>i. if i < ?e + len then None else buf_abs (regions b) i)"
    using rs'(3) below by (auto simp: fun_eq_iff)
  have "?e + len \<le> getStartOffset s" if "s \<in> set rs'" for s
  proof (rule ccontr)
    assume "\<not> ?e + len \<le> getStartOffset s"
    then have "buf_abs rs' (getStartOffset s) = None" using abs' by simp
    moreover have "reg_map s (getStartOffset s) \<noteq> None"
      using that rs'(2) by (auto simp: reg_map_def buf_wf_def data_nonempty_iff)
    ultimately show False
      using buf_abs_Some [OF wf_apart [OF rs'(2)], of "getStartOffset s"] that by auto
  qed
  then show ?thesis
    using r rs'(1,2) abs' data bw len by (simp add: popAvailableData_def ro_wf_def)
qed

section \<open>Inserting a whole stream\<close>

definition insert_all :: "'d can_insert \<Rightarrow> 'd can_insert \<Rightarrow> (int \<times> 'd list) list \<Rightarrow>
    'd chunk_region list \<Rightarrow> err + 'd chunk_region list" where
  "insert_all cb cf segs rs = efold (\<lambda>(off, c). replace cb cf off c) segs rs"

text \<open>The segment \<open>(off, c)\<close> carries the units of the stream \<open>f\<close> from \<open>off\<close> on.\<close>

definition segment_of :: "(int \<Rightarrow> 'd) \<Rightarrow> int \<times> 'd list \<Rightarrow> bool" where
  "segment_of f = (\<lambda>(off, c). 0 \<le> off \<and> c \<noteq> [] \<and> c = map (\<lambda>k. f (off + int k)) [0..<length c])"

definition covered_by :: "(int \<times> 'd list) list \<Rightarrow> int set" where
  "covered_by segs = (\<Union>(off, c)\<in>set segs. {off..<off + chunkLength c})"

lemma covered_by_simps [simp]:
  "covered_by [] = {}"
  "covered_by ((off, c) # segs) = {off..<off + chunkLength c} \<union> covered_by segs"
  by (auto simp: covered_by_def)

lemma reg_map_segment:
  assumes "segment_of f (off, c)"
  shows "reg_map \<lparr>r_offset = off, r_data = c\<rparr> i =
    (if i \<in> {off..<off + chunkLength c} then Some (f i) else None)"
proof (cases "i \<in> {off..<off + chunkLength c}")
  case True
  then have "nat (i - off) < length c" "off + int (nat (i - off)) = i" by (auto simp: chunkLength_def)
  moreover have "c ! k = f (off + int k)" if "k < length c" for k
  proof -
    have "c = map (\<lambda>k. f (off + int k)) [0..<length c]" using assms by (simp add: segment_of_def)
    then have "c ! k = map (\<lambda>k. f (off + int k)) [0..<length c] ! k" by (rule arg_cong)
    with that show ?thesis by simp
  qed
  ultimately show ?thesis using True by (simp add: reg_map_def getStartOffset_def getEndOffset_def)
next
  case False
  then show ?thesis by (auto simp: reg_map_def getStartOffset_def getEndOffset_def)
qed

lemma insert_all_abs:
  assumes "buf_wf rs" and "\<forall>s\<in>set segs. segment_of f s"
  shows "\<exists>rs'. insert_all cb cf segs rs = Inr rs' \<and> buf_wf rs' \<and>
    buf_abs rs' = (\<lambda>i. if i \<in> covered_by segs then Some (f i) else buf_abs rs i)"
  using assms
proof (induction segs arbitrary: rs)
  case Nil
  then show ?case by (simp add: insert_all_def)
next
  case (Cons seg segs)
  obtain off c where seg: "seg = (off, c)" by fastforce
  then have oc: "0 \<le> off" "c \<noteq> []" "segment_of f (off, c)" using Cons.prems(2) by (auto simp: segment_of_def)
  obtain rs1 where rs1: "replace cb cf off c rs = Inr rs1" "buf_wf rs1"
    "buf_abs rs1 = buf_abs rs ++ reg_map \<lparr>r_offset = off, r_data = c\<rparr>"
    using replace_buf_abs [OF Cons.prems(1) oc(1,2), of cb cf] by blast
  obtain rs' where rs': "insert_all cb cf segs rs1 = Inr rs'" "buf_wf rs'"
    "buf_abs rs' = (\<lambda>i. if i \<in> covered_by segs then Some (f i) else buf_abs rs1 i)"
    using Cons.IH [OF rs1(2)] Cons.prems(2) by auto
  have "buf_abs rs' = (\<lambda>i. if i \<in> covered_by (seg # segs) then Some (f i) else buf_abs rs i)"
    using rs'(3) rs1(3) reg_map_segment [OF oc(3)] by (auto simp: seg map_add_def fun_eq_iff)
  then show ?case using rs'(1,2) rs1(1) by (simp add: insert_all_def seg)
qed

lemma insert_all_empty:
  assumes "\<forall>s\<in>set segs. segment_of f s"
  obtains rs where "insert_all cb cf segs [] = Inr rs" and "buf_wf rs"
    and "buf_abs rs = (\<lambda>i. if i \<in> covered_by segs then Some (f i) else None)"
proof -
  have "(\<lambda>i. if i \<in> covered_by segs then Some (f i) else buf_abs [] i) =
      (\<lambda>i. if i \<in> covered_by segs then Some (f i) else None)"
    by (rule ext) simp
  then show ?thesis using that insert_all_abs [OF buf_wf_Nil assms, of cb cf] by auto
qed

text \<open>A contiguous view has at most one region.\<close>

lemma single_region:
  assumes "buf_wf rs" and n: "0 < n" and abs: "buf_abs rs = (\<lambda>i. if a \<le> i \<and> i < a + int n then Some (f i) else None)"
  shows "rs = [\<lparr>r_offset = a, r_data = map (\<lambda>k. f (a + int k)) [0..<n]\<rparr>]"
proof (rule buf_abs_inj [OF assms(1)])
  show "buf_wf [\<lparr>r_offset = a, r_data = map (\<lambda>k. f (a + int k)) [0..<n]\<rparr>]"
    using n by (simp add: buf_wf_def)
  show "buf_abs rs = buf_abs [\<lparr>r_offset = a, r_data = map (\<lambda>k. f (a + int k)) [0..<n]\<rparr>]"
    using n unfolding abs
    by (simp add: fun_eq_iff reg_map_def getStartOffset_def getEndOffset_def chunkLength_def nat_less_iff)
qed

section \<open>Properties\<close>

text \<open>
  C25. \<open>replace\<close> and \<open>clear\<close> implement a partial function from offsets to data. On a list of sorted,
  non-overlapping and non-connecting regions, \<open>replace\<close> with a non-empty chunk overrides the function
  on the range of the chunk and \<open>clear\<close> with a positive length removes a range; both succeed, both
  leave the regions sorted, non-overlapping and non-connecting, and the regions are the only such
  list for the function they stand for.
\<close>

theorem chunk_buffer_refines_map:
  assumes "buf_wf rs" and "0 \<le> off" and "chunk \<noteq> []" and "0 < len"
  shows "(\<exists>rs'. replace cb cf off chunk rs = Inr rs' \<and> buf_wf rs' \<and>
      buf_abs rs' = buf_abs rs ++ reg_map \<lparr>r_offset = off, r_data = chunk\<rparr>) \<and>
    (\<exists>rs'. clear_range off len rs = Inr rs' \<and> buf_wf rs' \<and>
      buf_abs rs' = (\<lambda>i. if off \<le> i \<and> i < off + len then None else buf_abs rs i)) \<and>
    (\<forall>ss. buf_wf ss \<and> buf_abs ss = buf_abs rs \<longrightarrow> ss = rs)"
  using replace_buf_abs [OF assms(1-3)] clear_range_abs [OF assms(1,2,4)] buf_abs_inj [OF _ assms(1)]
  by blast

theorem chunk_buffer_refines_map_witness:
  "\<exists>rs'. replace (\<lambda>_ _. True) (\<lambda>_ _. True) 2 ''cd'' [\<lparr>r_offset = 0, r_data = ''ab''\<rparr>] = Inr rs' \<and>
     buf_wf rs' \<and> buf_abs rs' 1 = Some CHR ''b'' \<and> buf_abs rs' 3 = Some CHR ''d''"
proof -
  have "buf_wf [\<lparr>r_offset = 0, r_data = ''ab''\<rparr>]" by (simp add: buf_wf_def)
  from chunk_buffer_refines_map [OF this, of 2 "''cd''" 1 "\<lambda>_ _. True" "\<lambda>_ _. True"] show ?thesis
    by (auto simp: map_add_def reg_map_def getStartOffset_def getEndOffset_def chunkLength_def)
qed

text \<open>
  C26. The order of arrival does not matter: two lists of segments of one stream that cover the same
  offsets, whatever their order, overlaps and duplicates and whatever the representation of their
  chunks, leave an empty buffer with the same regions, which hold the stream on the covered offsets
  and nothing else.
\<close>

theorem chunk_buffer_order_irrelevant:
  assumes "\<forall>s\<in>set segs. segment_of f s" and "\<forall>s\<in>set segs'. segment_of f s"
    and "covered_by segs = covered_by segs'"
  shows "\<exists>rs. insert_all cb cf segs [] = Inr rs \<and> insert_all cb' cf' segs' [] = Inr rs \<and>
    (\<forall>i. buf_abs rs i = (if i \<in> covered_by segs then Some (f i) else None))"
proof -
  obtain rs where rs: "insert_all cb cf segs [] = Inr rs" "buf_wf rs"
    "buf_abs rs = (\<lambda>i. if i \<in> covered_by segs then Some (f i) else None)"
    using insert_all_empty [OF assms(1)] by blast
  obtain rs' where rs': "insert_all cb' cf' segs' [] = Inr rs'" "buf_wf rs'"
    "buf_abs rs' = (\<lambda>i. if i \<in> covered_by segs' then Some (f i) else None)"
    using insert_all_empty [OF assms(2)] by blast
  have "rs = rs'" using buf_abs_inj [OF rs(2) rs'(2)] rs(3) rs'(3) assms(3) by simp
  with rs rs' show ?thesis by auto
qed

theorem chunk_buffer_order_irrelevant_witness:
  "\<exists>rs. insert_all (\<lambda>_ _. True) (\<lambda>_ _. True) [(0, [0, 1, 2]), (2, [2, 3]), (6, [6])] [] = Inr rs \<and>
     insert_all (\<lambda>_ _. False) (\<lambda>_ _. False) [(6, [6]), (1, [1, 2, 3 :: int]), (0, [0])] [] = Inr rs"
proof -
  let ?a = "[(0, [0, 1, 2]), (2, [2, 3]), (6, [6])]"
  let ?b = "[(6, [6]), (1, [1, 2, 3 :: int]), (0, [0])]"
  have "\<forall>s\<in>set ?a. segment_of (\<lambda>i. i) s" "\<forall>s\<in>set ?b. segment_of (\<lambda>i. i) s"
    by (simp_all add: segment_of_def upt_rec)
  moreover have "covered_by ?a = covered_by ?b" by (auto simp: chunkLength_def)
  ultimately show ?thesis
    using chunk_buffer_order_irrelevant [of ?a "\<lambda>i. i" ?b "\<lambda>_ _. True" "\<lambda>_ _. True"
        "\<lambda>_ _. False" "\<lambda>_ _. False"] by blast
qed

text \<open>
  C27. Reassembly is exact: after any fragments of a message of \<open>n\<close> units have been inserted into an
  empty buffer with that expected length, the reassembly is complete if and only if every offset of
  the message is covered, and then the reassembled data is the message.
\<close>

theorem reassembly_complete_iff:
  assumes "\<forall>s\<in>set segs. segment_of f s" and "0 < n" and "covered_by segs \<subseteq> {0..<int n}"
  shows "\<exists>rs. insert_all cb cf segs [] = Inr rs \<and>
    isComplete \<lparr>ra_regions = rs, expectedLength = int n\<rparr> = (covered_by segs = {0..<int n}) \<and>
    (covered_by segs = {0..<int n} \<longrightarrow>
      getReassembledData \<lparr>ra_regions = rs, expectedLength = int n\<rparr> = Inr (map (\<lambda>k. f (int k)) [0..<n]))"
proof -
  obtain rs where rs: "insert_all cb cf segs [] = Inr rs" "buf_wf rs"
    "buf_abs rs = (\<lambda>i. if i \<in> covered_by segs then Some (f i) else None)"
    using insert_all_empty [OF assms(1)] by blast
  have one: "rs = [\<lparr>r_offset = 0, r_data = map (\<lambda>k. f (int k)) [0..<n]\<rparr>]" if "covered_by segs = {0..<int n}"
    using single_region [OF rs(2) assms(2), of 0 f] rs(3) that by (simp add: fun_eq_iff)
  have "covered_by segs = {0..<int n}" if c: "isComplete \<lparr>ra_regions = rs, expectedLength = int n\<rparr>"
  proof -
    obtain r where r: "rs = [r]" "r_offset r = 0" "chunkLength (r_data r) = int n"
      using c by (auto simp: isComplete_def split: list.splits)
    have "i \<in> covered_by segs" if "0 \<le> i" "i < int n" for i
    proof -
      have "buf_abs rs i \<noteq> None"
        using that r by (simp add: reg_map_def getStartOffset_def getEndOffset_def)
      then show ?thesis using rs(3) by (auto split: if_splits)
    qed
    with assms(3) show ?thesis by auto
  qed
  then show ?thesis
    using rs(1) one by (auto simp: isComplete_def getReassembledData_def chunkLength_def)
qed

theorem reassembly_complete_iff_witness:
  "\<exists>rs. insert_all (\<lambda>_ _. True) (\<lambda>_ _. True) [(2, [2]), (0, [0, 1 :: int])] [] = Inr rs \<and>
     getReassembledData \<lparr>ra_regions = rs, expectedLength = 3\<rparr> = Inr [0, 1, 2]"
proof -
  let ?a = "[(2, [2]), (0, [0, 1 :: int])]"
  have "\<forall>s\<in>set ?a. segment_of (\<lambda>i. i) s" by (simp add: segment_of_def upt_rec)
  moreover have "covered_by ?a = {0..<int 3}" by (auto simp: chunkLength_def)
  ultimately show ?thesis
    using reassembly_complete_iff [of ?a "\<lambda>i. i" 3 "\<lambda>_ _. True" "\<lambda>_ _. True"]
    by (auto simp: upt_rec)
qed

end
