(* ===== verification/TcpReceiveQueue.thy ===== *)
theory TcpReceiveQueue
  imports TcpSeq ChunkBuffer
begin

text \<open>
  The incoming byte stream, \<open>inet/transportlayer/tcp/TcpReceiveQueue.cc\<close>, over the reorder buffer
  of \<open>ChunkBuffer\<close>. The buffer works on unbounded stream offsets, TCP on 32-bit sequence numbers;
  \<open>offsetToSeq\<close> and \<open>seqToOffset\<close> translate between them relative to the expected offset.

  The lemmas show that the translation is exact inside the largest scaled window
  (\<open>TCP_MAX_WIN_SCALED\<close>, \<open>2 ^ 30 - 1\<close> bytes) around the expected offset, and that the queue then
  delivers the stream: in order, once, and without gaps, whatever order segments arrive in.
\<close>

section \<open>State and operations\<close>

record 'd receive_queue =
  rcvq_nxt :: u32
  reorderBuffer :: "'d reorder_buffer"

definition offsetToSeq :: "int \<Rightarrow> u32" where
  "offsetToSeq offs = word_of_int offs"

definition seqToOffset :: "int \<Rightarrow> u32 \<Rightarrow> int" where
  "seqToOffset expOffs sq =
     (let expSeq = offsetToSeq expOffs
      in if seqGE sq expSeq then expOffs + uint (sq - expSeq) else expOffs - uint (expSeq - sq))"

definition rcvq_new :: "'d receive_queue" where
  "rcvq_new = \<lparr>rcvq_nxt = - 1, reorderBuffer = \<lparr>regions = [], expectedOffset = - 1\<rparr>\<rparr>"

definition rcvq_init :: "u32 \<Rightarrow> 'd receive_queue \<Rightarrow> 'd receive_queue" where
  "rcvq_init startSeq q = \<lparr>rcvq_nxt = startSeq,
     reorderBuffer = \<lparr>regions = [], expectedOffset = uint startSeq\<rparr>\<rparr>"

text \<open>The debug check of \<open>insertBytesFromSegment\<close>: the new segment is far off the queued data.\<close>

definition out_of_range :: "'d chunk_region list \<Rightarrow> u32 \<Rightarrow> u32 \<Rightarrow> bool" where
  "out_of_range rs nb ne =
     (rs \<noteq> [] \<and>
      (let ob = offsetToSeq (getStartOffset (hd rs));
           oe = offsetToSeq (getEndOffset (last rs));
           minb = seqMin ob nb;
           maxe = seqMax oe ne
       in seqGE minb oe \<or> seqGE minb ne \<or> seqGE ob maxe \<or> seqGE nb maxe))"

text \<open>
  \<open>payload\<close> is the data of the segment behind the TCP header; \<open>peekDataAt\<close> beyond its end is an
  error. The result is \<open>rcv_nxt\<close>, which the queue keeps too.
\<close>

definition insertBytesFromSegment :: "'d can_insert \<Rightarrow> 'd can_insert \<Rightarrow> u32 \<Rightarrow> 'd list \<Rightarrow>
    'd receive_queue \<Rightarrow> err + 'd receive_queue" where
  "insertBytesFromSegment cb cf sequenceNo payload q =
     (let b = reorderBuffer q;
          buffSeq = offsetToSeq (expectedOffset b)
      in if out_of_range (regions b) sequenceNo (sequenceNo + of_nat (length payload))
         then Inl (RuntimeError ''The new segment is out of the acceptable range'')
         else
           let (offs, sq) = (if seqLess sequenceNo buffSeq then (buffSeq - sequenceNo, buffSeq)
                             else (0, sequenceNo))
           in if length payload < unat offs then Inl (RuntimeError ''offset is out of range'')
              else ebind (replace cb cf (seqToOffset (expectedOffset b) sq) (drop (unat offs) payload)
                     (regions b)) (\<lambda>rs.
                Inr (q\<lparr>reorderBuffer := b\<lparr>regions := rs\<rparr>,
                       rcvq_nxt := (if seqGE (rcvq_nxt q) (offsetToSeq (getStartOffset (hd rs)))
                         then offsetToSeq (getStartOffset (hd rs) + chunkLength (r_data (hd rs)))
                         else rcvq_nxt q)\<rparr>)))"

definition extractBytesUpTo :: "u32 \<Rightarrow> 'd receive_queue \<Rightarrow> err + ('d list option \<times> 'd receive_queue)" where
  "extractBytesUpTo sq q =
     (if \<not> seqLE sq (rcvq_nxt q) then Inl AssertFailed
      else if regions (reorderBuffer q) = [] then Inr (None, q)
      else
        let maxLength = seqToOffset (expectedOffset (reorderBuffer q)) sq - expectedOffset (reorderBuffer q)
        in if maxLength \<le> 0 then Inr (None, q)
           else ebind (popAvailableData maxLength (reorderBuffer q)) (\<lambda>(chunk, b).
             if \<not> expectedOffset b \<le> seqToOffset (expectedOffset b) sq then Inl AssertFailed
             else Inr (chunk, q\<lparr>reorderBuffer := b\<rparr>)))"

definition getAmountOfBufferedBytes :: "'d receive_queue \<Rightarrow> u32" where
  "getAmountOfBufferedBytes q =
     (\<Sum>r\<leftarrow>regions (reorderBuffer q). word_of_int (chunkLength (r_data r)))"

definition getAmountOfFreeBytes :: "u32 \<Rightarrow> 'd receive_queue \<Rightarrow> u32" where
  "getAmountOfFreeBytes maxRcvBuffer q =
     (let usedRcvBuffer = getAmountOfBufferedBytes q
      in if maxRcvBuffer > usedRcvBuffer then maxRcvBuffer - usedRcvBuffer else 0)"

definition rcvq_getQueueLength :: "'d receive_queue \<Rightarrow> u32" where
  "rcvq_getQueueLength q = of_nat (length (regions (reorderBuffer q)))"

definition getLE :: "u32 \<Rightarrow> 'd receive_queue \<Rightarrow> u32" where
  "getLE fromSeqNum q =
     (let fs = seqToOffset (expectedOffset (reorderBuffer q)) fromSeqNum
      in case find (\<lambda>r. getStartOffset r \<le> fs \<and> fs < getEndOffset r) (regions (reorderBuffer q)) of
           Some r \<Rightarrow> offsetToSeq (getStartOffset r) | None \<Rightarrow> fromSeqNum)"

definition getRE :: "u32 \<Rightarrow> 'd receive_queue \<Rightarrow> u32" where
  "getRE toSeqNum q =
     (let fs = seqToOffset (expectedOffset (reorderBuffer q)) toSeqNum
      in case find (\<lambda>r. getStartOffset r < fs \<and> fs \<le> getEndOffset r) (regions (reorderBuffer q)) of
           Some r \<Rightarrow> offsetToSeq (getEndOffset r) | None \<Rightarrow> toSeqNum)"

definition getFirstSeqNo :: "'d receive_queue \<Rightarrow> u32" where
  "getFirstSeqNo q =
     (if regions (reorderBuffer q) = [] then rcvq_nxt q
      else seqMin (offsetToSeq (getStartOffset (hd (regions (reorderBuffer q))))) (rcvq_nxt q))"

section \<open>Offsets and sequence numbers\<close>

lemma sdist_offsets:
  assumes "0 \<le> y - x" and "y - x < 2 * int half"
  shows "sdist (offsetToSeq x) (offsetToSeq y) = nat (y - x)"
proof -
  have "offsetToSeq y - offsetToSeq x = word_of_int (y - x)"
    by (simp add: offsetToSeq_def)
  moreover have "uint (word_of_int (y - x) :: u32) = y - x"
    unfolding uint_word_of_int using assms by simp
  ultimately have "uint (offsetToSeq y - offsetToSeq x) = y - x" by metis
  then show ?thesis unfolding sdist_def by (metis nat_uint_eq)
qed

lemma seqLE_offsets:
  assumes "\<bar>y - x\<bar> < int half"
  shows "seqLE (offsetToSeq x) (offsetToSeq y) \<longleftrightarrow> x \<le> y"
proof (cases "x \<le> y")
  case True
  have "sdist (offsetToSeq x) (offsetToSeq y) = nat (y - x)"
    by (rule sdist_offsets) (use assms True in auto)
  with True assms show ?thesis by (simp add: seqLE_sdist)
next
  case False
  have "sdist (offsetToSeq y) (offsetToSeq x) = nat (x - y)"
    by (rule sdist_offsets) (use assms False in auto)
  then show ?thesis
    using assms False sdist_via [of "offsetToSeq x" "offsetToSeq y" "offsetToSeq y"]
    by (simp add: seqLE_sdist split: if_splits)
qed

lemma offsetToSeq_inj:
  assumes "\<bar>y - x\<bar> < int half"
  shows "offsetToSeq x = offsetToSeq y \<longleftrightarrow> x = y"
proof
  assume "offsetToSeq x = offsetToSeq y"
  moreover have "seqLE a a" for a by (simp add: seqLE_def)
  ultimately have "seqLE (offsetToSeq x) (offsetToSeq y)" "seqLE (offsetToSeq y) (offsetToSeq x)"
    by simp_all
  then show "x = y"
    using seqLE_offsets [of y x] seqLE_offsets [of x y] assms by (simp add: abs_minus_commute)
qed simp

lemma seqLess_offsets: "\<bar>y - x\<bar> < int half \<Longrightarrow> seqLess (offsetToSeq x) (offsetToSeq y) \<longleftrightarrow> x < y"
  using seqLE_offsets [of y x] offsetToSeq_inj [of y x] by (auto simp: seqLess_def seqLE_def)

lemma seqGE_offsets: "\<bar>y - x\<bar> < int half \<Longrightarrow> seqGE (offsetToSeq x) (offsetToSeq y) \<longleftrightarrow> y \<le> x"
  using seqLE_offsets [of x y] by (simp add: seqGE_seqLE)

lemma seqToOffset_offset: "\<bar>y - x\<bar> < int half \<Longrightarrow> seqToOffset x (offsetToSeq y) = y"
proof -
  assume d: "\<bar>y - x\<bar> < int half"
  have u: "uint (offsetToSeq b - offsetToSeq a) = int (sdist (offsetToSeq a) (offsetToSeq b))" for a b
    by (simp add: sdist_def)
  show ?thesis
    using d seqGE_offsets [of x y] sdist_offsets [of x y] sdist_offsets [of y x]
    by (cases "x \<le> y") (auto simp: seqToOffset_def u)
qed

lemma seqMin_offsets: "\<bar>y - x\<bar> < int half \<Longrightarrow> seqMin (offsetToSeq x) (offsetToSeq y) = offsetToSeq (min x y)"
  using seqLE_offsets [of y x] by (auto simp: seqMin_def seqLE_def min_def)

lemma seqMax_offsets: "\<bar>y - x\<bar> < int half \<Longrightarrow> seqMax (offsetToSeq x) (offsetToSeq y) = offsetToSeq (max x y)"
  using seqGE_offsets [of y x] by (auto simp: seqMax_def seqGE_def max_def)

section \<open>The invariant\<close>

text \<open>\<open>TCP_MAX_WIN_SCALED\<close>: no data is queued further than this beyond the expected offset.\<close>

abbreviation max_window :: int where "max_window \<equiv> 0x3fffffff"

definition nextOffset :: "'d receive_queue \<Rightarrow> int" where
  "nextOffset q = expectedOffset (reorderBuffer q) + getAvailableDataLength (reorderBuffer q)"

definition rcvq_abs :: "'d receive_queue \<Rightarrow> int \<Rightarrow> 'd option" where
  "rcvq_abs q = buf_abs (regions (reorderBuffer q))"

definition rcvq_wf :: "'d receive_queue \<Rightarrow> bool" where
  "rcvq_wf q = (ro_wf (reorderBuffer q) \<and>
     (\<forall>r\<in>set (regions (reorderBuffer q)). getEndOffset r \<le> expectedOffset (reorderBuffer q) + max_window) \<and>
     rcvq_nxt q = offsetToSeq (nextOffset q))"

text \<open>The available data is the maximal defined stretch at the expected offset.\<close>

lemma available_defined:
  assumes "ro_wf b" and "expectedOffset b \<le> i" and "i < expectedOffset b + getAvailableDataLength b"
  shows "buf_abs (regions b) i \<noteq> None"
proof -
  obtain r rs where r: "regions b = r # rs" "r_offset r = expectedOffset b"
    "getAvailableDataLength b = chunkLength (r_data r)"
    using assms(2,3) by (cases "regions b") (auto simp: getAvailableDataLength_def split: if_splits)
  then have "getStartOffset r \<le> i" "i < getEndOffset r"
    using assms(2,3) by (auto simp: getStartOffset_def getEndOffset_def)
  then show ?thesis
    using abs_first(2) [of r rs i] assms(1) r(1) by (simp add: ro_wf_def reg_map_def)
qed

lemma available_maximal:
  assumes "ro_wf b"
  shows "buf_abs (regions b) (expectedOffset b + getAvailableDataLength b) = None"
proof (cases "regions b \<noteq> [] \<and> r_offset (hd (regions b)) = expectedOffset b")
  case True
  then obtain r rs where r: "regions b = r # rs" by (cases "regions b") auto
  then show ?thesis
    using abs_first(3) [of r rs] assms True by (simp add: ro_wf_def getAvailableDataLength_def getEndOffset_def)
next
  case False
  then have "getAvailableDataLength b = 0" by (auto simp: getAvailableDataLength_def)
  with available_iff [OF assms] show ?thesis by simp
qed

lemma available_nonneg: "0 \<le> getAvailableDataLength b"
  by (simp add: getAvailableDataLength_def chunkLength_def)

lemma available_unique:
  assumes "ro_wf b" and "0 \<le> n"
    and "\<And>i. expectedOffset b \<le> i \<Longrightarrow> i < expectedOffset b + n \<Longrightarrow> buf_abs (regions b) i \<noteq> None"
    and "buf_abs (regions b) (expectedOffset b + n) = None"
  shows "getAvailableDataLength b = n"
proof (rule antisym)
  show "getAvailableDataLength b \<le> n"
    using available_defined [OF assms(1), of "expectedOffset b + n"] assms(2,4) by force
  show "n \<le> getAvailableDataLength b"
    using available_maximal [OF assms(1)] assms(3) [of "expectedOffset b + getAvailableDataLength b"]
      available_nonneg [of b] by force
qed

lemma rcvq_init_wf: "rcvq_wf (rcvq_init s q)"
  by (simp add: rcvq_wf_def rcvq_init_def ro_wf_def nextOffset_def getAvailableDataLength_def
      offsetToSeq_def)

lemma in_region_bounds:
  assumes "rcvq_wf q" and "r \<in> set (regions (reorderBuffer q))"
  shows "expectedOffset (reorderBuffer q) \<le> getStartOffset r" and "getStartOffset r < getEndOffset r"
    and "getEndOffset r \<le> expectedOffset (reorderBuffer q) + max_window"
  using assms by (auto simp: rcvq_wf_def ro_wf_def buf_wf_def data_nonempty_iff)

lemma rcvq_abs_Some:
  assumes "rcvq_wf q"
  shows "rcvq_abs q i \<noteq> None \<longleftrightarrow>
    (\<exists>r\<in>set (regions (reorderBuffer q)). getStartOffset r \<le> i \<and> i < getEndOffset r)"
proof -
  have "apart (regions (reorderBuffer q))"
    using assms by (simp add: rcvq_wf_def ro_wf_def wf_apart)
  from buf_abs_defined [OF this, of i] show ?thesis by (simp add: rcvq_abs_def)
qed

lemma nextOffset_bounds:
  assumes "rcvq_wf q"
  shows "expectedOffset (reorderBuffer q) \<le> nextOffset q"
    and "nextOffset q \<le> expectedOffset (reorderBuffer q) + max_window"
proof -
  show "expectedOffset (reorderBuffer q) \<le> nextOffset q"
    using available_nonneg by (simp add: nextOffset_def)
  show "nextOffset q \<le> expectedOffset (reorderBuffer q) + max_window"
  proof (rule ccontr)
    assume "\<not> ?thesis"
    then have "rcvq_abs q (expectedOffset (reorderBuffer q) + max_window) \<noteq> None"
      using available_defined [of "reorderBuffer q"] assms
      by (simp add: rcvq_abs_def rcvq_wf_def nextOffset_def)
    then show False using rcvq_abs_Some [OF assms] in_region_bounds(3) [OF assms] by force
  qed
qed

section \<open>Inserting a segment\<close>

lemma not_out_of_range:
  assumes wf: "rcvq_wf q" and seg: "e - max_window \<le> off" "off < stop" "stop \<le> e + max_window"
    and e: "e = expectedOffset (reorderBuffer q)"
  shows "\<not> out_of_range (regions (reorderBuffer q)) (offsetToSeq off) (offsetToSeq stop)"
proof (cases "regions (reorderBuffer q) = []")
  case True
  then show ?thesis by (simp add: out_of_range_def)
next
  case False
  let ?rs = "regions (reorderBuffer q)"
  define ob where "ob = getStartOffset (hd ?rs)"
  define oe where "oe = getEndOffset (last ?rs)"
  have hl: "hd ?rs \<in> set ?rs" "last ?rs \<in> set ?rs" using False by simp_all
  have b: "e \<le> ob" "oe \<le> e + max_window"
    using in_region_bounds [OF wf hl(1)] in_region_bounds [OF wf hl(2)] by (auto simp: ob_def oe_def e)
  have "buf_wf ?rs" using wf by (simp add: rcvq_wf_def ro_wf_def)
  then have "ob < oe" using buf_wf_span False by (simp add: ob_def oe_def)
  then have "seqMin (offsetToSeq ob) (offsetToSeq off) = offsetToSeq (min ob off)"
    "seqMax (offsetToSeq oe) (offsetToSeq stop) = offsetToSeq (max oe stop)"
    using seg b by (auto intro!: seqMin_offsets seqMax_offsets)
  moreover have "\<not> seqGE (offsetToSeq x) (offsetToSeq y)" if "x < y" "y - x < int half" for x y
    using that seqGE_offsets [of y x] by simp
  ultimately show ?thesis
    using False seg b \<open>ob < oe\<close>
    by (auto simp: out_of_range_def Let_def simp flip: ob_def oe_def)
qed

lemma insert_abs:
  assumes wf: "rcvq_wf q" and e: "e = expectedOffset (reorderBuffer q)"
    and bounds: "e - max_window \<le> off" "off + chunkLength payload \<le> e + max_window"
    and new: "e < off + chunkLength payload" "payload \<noteq> []"
  shows "\<exists>q'. insertBytesFromSegment cb cf (offsetToSeq off) payload q = Inr q' \<and> rcvq_wf q' \<and>
    expectedOffset (reorderBuffer q') = e \<and>
    rcvq_abs q' = rcvq_abs q ++ reg_map \<lparr>r_offset = max off e, r_data = drop (nat (e - off)) payload\<rparr>"
proof -
  let ?b = "reorderBuffer q" and ?stop = "off + chunkLength payload"
  define d where "d = nat (e - off)"
  have row: "ro_wf ?b" "0 \<le> e" using wf by (auto simp: rcvq_wf_def ro_wf_def e)
  have lt: "off < ?stop" using new(2) by (simp add: chunkLength_def)
  have sum: "offsetToSeq off + of_nat (length payload) = offsetToSeq ?stop"
    by (simp add: offsetToSeq_def chunkLength_def)
  have range: "\<not> out_of_range (regions ?b) (offsetToSeq off) (offsetToSeq off + of_nat (length payload))"
    unfolding sum by (rule not_out_of_range [OF wf bounds(1) lt bounds(2) e])
  have cut: "(if seqLess (offsetToSeq off) (offsetToSeq e) then (offsetToSeq e - offsetToSeq off, offsetToSeq e)
      else (0, offsetToSeq off)) = (of_nat d, offsetToSeq (max off e))"
  proof (cases "off < e")
    case True
    then have "sdist (offsetToSeq off) (offsetToSeq e) = d"
      using bounds(1) sdist_offsets [of e off] by (simp add: d_def)
    then have "offsetToSeq off + of_nat d = offsetToSeq e" using add_sdist by metis
    then have "offsetToSeq e - offsetToSeq off = of_nat d" by (metis add_diff_cancel_left')
    then show ?thesis using True bounds(1) seqLess_offsets [of e off] by simp
  next
    case False
    then show ?thesis using bounds new seqLess_offsets [of e off] by (simp add: d_def max_def chunkLength_def)
  qed
  have dl: "d < length payload"
    using new by (cases "e \<le> off") (auto simp: d_def chunkLength_def nat_less_iff)
  have "d < 2 ^ 32" using bounds(1) by (simp add: d_def nat_less_iff)
  then have du: "unat (of_nat d :: u32) = d" by (simp add: unat_of_nat)
  have so: "seqToOffset e (offsetToSeq (max off e)) = max off e"
    using bounds new by (intro seqToOffset_offset) (auto simp: chunkLength_def)
  have ne: "drop d payload \<noteq> []" using dl by simp
  have off0: "0 \<le> max off e" using row(2) by simp
  obtain rs' where rs': "replace cb cf (max off e) (drop d payload) (regions ?b) = Inr rs'" "buf_wf rs'"
    "buf_abs rs' = buf_abs (regions ?b) ++ reg_map \<lparr>r_offset = max off e, r_data = drop d payload\<rparr>"
    using replace_buf_abs [OF _ off0 ne, of "regions ?b" cb cf] row(1) by (auto simp: ro_wf_def)
  have stop: "max off e + chunkLength (drop d payload) = ?stop"
    using dl by (auto simp: chunkLength_def d_def)
  have reg: "e \<le> getStartOffset r \<and> getEndOffset r \<le> e + max_window" if r: "r \<in> set rs'" for r
  proof -
    have nonempty: "getStartOffset r < getEndOffset r"
      using r rs'(2) by (auto simp: buf_wf_def data_nonempty_iff)
    have def': "buf_abs rs' i \<noteq> None" if "getStartOffset r \<le> i" "i < getEndOffset r" for i
      using buf_abs_defined [OF wf_apart [OF rs'(2)], of i] r that by blast
    have inb: "e \<le> i \<and> i < e + max_window" if "buf_abs rs' i \<noteq> None" for i
    proof (cases "rcvq_abs q i")
      case None
      then have "max off e \<le> i" "i < ?stop"
        using that rs'(3) stop by (auto simp: rcvq_abs_def map_add_def reg_map_def getStartOffset_def
            getEndOffset_def split: if_splits)
      then show ?thesis using bounds by simp
    next
      case (Some x)
      then obtain r' where "r' \<in> set (regions ?b)" "getStartOffset r' \<le> i" "i < getEndOffset r'"
        using rcvq_abs_Some [OF wf, of i] by auto
      then show ?thesis using in_region_bounds [OF wf, of r'] by (simp add: e)
    qed
    show ?thesis
      using inb [OF def' [of "getStartOffset r"]] inb [OF def' [of "getEndOffset r - 1"]] nonempty by simp
  qed
  define q' where "q' = q\<lparr>reorderBuffer := ?b\<lparr>regions := rs'\<rparr>,
    rcvq_nxt := (if seqGE (rcvq_nxt q) (offsetToSeq (getStartOffset (hd rs')))
      then offsetToSeq (getStartOffset (hd rs') + chunkLength (r_data (hd rs'))) else rcvq_nxt q)\<rparr>"
  have res: "insertBytesFromSegment cb cf (offsetToSeq off) payload q = Inr q'"
    unfolding insertBytesFromSegment_def Let_def e [symmetric] cut prod.case du so q'_def
    using range dl rs'(1) by simp
  have ro': "ro_wf (reorderBuffer q')"
    using rs'(2) reg row(2) by (auto simp: ro_wf_def q'_def e)
  have "rs' \<noteq> []"
  proof
    assume "rs' = []"
    then have "buf_abs rs' (max off e) = None" by simp
    then show False using rs'(3) stop lt new
      by (auto simp: reg_map_def getStartOffset_def getEndOffset_def split: if_splits)
  qed
  then obtain h t where h: "rs' = h # t" by (cases rs') auto
  have "rcvq_nxt q' = offsetToSeq (nextOffset q')"
  proof (cases "getStartOffset h = e")
    case True
    have "rcvq_nxt q = offsetToSeq (nextOffset q)" using wf by (simp add: rcvq_wf_def)
    moreover have "seqGE (offsetToSeq (nextOffset q)) (offsetToSeq e)"
      using nextOffset_bounds [OF wf] seqGE_offsets [of e "nextOffset q"] by (simp add: e)
    ultimately show ?thesis
      using True h by (simp add: q'_def nextOffset_def getAvailableDataLength_def getStartOffset_def e)
  next
    case False
    then have gt: "e < getStartOffset h" using reg [of h] h by simp
    have "buf_wf (h # t)" using rs'(2) h by simp
    then have "buf_abs rs' e = None" unfolding h by (rule abs_first(1) [OF _ gt])
    then have "buf_abs (regions ?b) e = None" using rs'(3) by simp
    then have "getAvailableDataLength ?b = 0"
      using available_iff [OF row(1)] available_nonneg [of ?b] by (simp flip: e)
    then have nx: "rcvq_nxt q = offsetToSeq e" using wf by (simp add: rcvq_wf_def nextOffset_def e)
    have "getStartOffset h < getEndOffset h" using rs'(2) h by (simp add: buf_wf_Cons)
    then have "\<not> seqGE (offsetToSeq e) (offsetToSeq (getStartOffset h))"
      using gt reg [of h] h seqGE_offsets [of "getStartOffset h" e] by simp
    then show ?thesis
      using nx h False by (simp add: q'_def nextOffset_def getAvailableDataLength_def e getStartOffset_def)
  qed
  then have "rcvq_wf q'" using ro' reg by (auto simp: rcvq_wf_def q'_def e)
  then show ?thesis using res rs'(3) by (auto simp: q'_def rcvq_abs_def d_def e)
qed

section \<open>Extracting, and the queries\<close>

lemma nextOffset_abs:
  assumes "rcvq_wf q"
  shows "expectedOffset (reorderBuffer q) \<le> i \<Longrightarrow> i < nextOffset q \<Longrightarrow> rcvq_abs q i \<noteq> None"
    and "rcvq_abs q (nextOffset q) = None"
  using available_defined [of "reorderBuffer q" i] available_maximal [of "reorderBuffer q"] assms
  by (auto simp: rcvq_abs_def rcvq_wf_def nextOffset_def)

lemma extract_abs:
  assumes wf: "rcvq_wf q" and e: "e = expectedOffset (reorderBuffer q)"
    and m: "e \<le> m" "m \<le> nextOffset q"
  shows "\<exists>out q'. extractBytesUpTo (offsetToSeq m) q = Inr (out, q') \<and> rcvq_wf q' \<and>
    expectedOffset (reorderBuffer q') = m \<and>
    (case out of None \<Rightarrow> [] | Some d \<Rightarrow> d) = units_at (rcvq_abs q) e (nat (m - e)) \<and>
    rcvq_abs q' = (\<lambda>i. if i < m then None else rcvq_abs q i) \<and> rcvq_nxt q' = rcvq_nxt q"
proof -
  let ?b = "reorderBuffer q"
  have row: "ro_wf ?b" and nx: "rcvq_nxt q = offsetToSeq (nextOffset q)"
    using wf by (auto simp: rcvq_wf_def)
  have nb: "e \<le> nextOffset q" "nextOffset q \<le> e + max_window" using nextOffset_bounds [OF wf] by (auto simp: e)
  have guard: "seqLE (offsetToSeq m) (rcvq_nxt q)" unfolding nx using m nb by (subst seqLE_offsets) auto
  have so: "seqToOffset e (offsetToSeq m) = m" using m nb by (intro seqToOffset_offset) simp
  have below: "rcvq_abs q i = None" if "i < e" for i
    using that rcvq_abs_Some [OF wf, of i] in_region_bounds(1) [OF wf] by (force simp: e)
  show ?thesis
  proof (cases "m = e")
    case True
    then show ?thesis
      using guard so wf below
      by (auto simp: extractBytesUpTo_def Let_def units_at_def fun_eq_iff simp flip: e)
  next
    case False
    then have len: "0 < m - e" "m - e \<le> getAvailableDataLength ?b" using m by (auto simp: nextOffset_def e)
    then have ne: "regions ?b \<noteq> []" by (auto simp: getAvailableDataLength_def)
    obtain b' where b': "popAvailableData (m - e) ?b =
        Inr (Some (units_at (buf_abs (regions ?b)) (expectedOffset ?b) (nat (m - e))), b')" "ro_wf b'"
      "expectedOffset b' = expectedOffset ?b + (m - e)"
      "buf_abs (regions b') = (\<lambda>i. if i < expectedOffset ?b + (m - e) then None else buf_abs (regions ?b) i)"
      using popAvailableData_abs [OF row len] by blast
    have eb: "expectedOffset b' = m" using b'(3) e by simp
    have abs': "buf_abs (regions b') = (\<lambda>i. if i < m then None else rcvq_abs q i)"
      using b'(4) unfolding rcvq_abs_def by (simp flip: e)
    have som: "seqToOffset m (offsetToSeq m) = m" by (rule seqToOffset_offset) simp
    let ?q' = "q\<lparr>reorderBuffer := b'\<rparr>"
    have res: "extractBytesUpTo (offsetToSeq m) q =
        Inr (Some (units_at (rcvq_abs q) e (nat (m - e))), ?q')"
      using guard ne len b'(1) eb so som
      by (simp add: extractBytesUpTo_def Let_def rcvq_abs_def flip: e)
    have next': "getAvailableDataLength b' = nextOffset q - m"
    proof (rule available_unique [OF b'(2)])
      show "buf_abs (regions b') i \<noteq> None"
        if "expectedOffset b' \<le> i" "i < expectedOffset b' + (nextOffset q - m)" for i
        using that nextOffset_abs(1) [OF wf, of i] m unfolding abs' eb by (simp flip: e)
      show "buf_abs (regions b') (expectedOffset b' + (nextOffset q - m)) = None"
        using nextOffset_abs(2) [OF wf] unfolding abs' eb by simp
    qed (use m in simp)
    have "getEndOffset r \<le> m + max_window" if r: "r \<in> set (regions b')" for r
    proof -
      have bw: "buf_wf (regions b')" using b'(2) by (simp add: ro_wf_def)
      then have se: "getStartOffset r < getEndOffset r"
        using r by (auto simp: buf_wf_def data_nonempty_iff)
      then have "buf_abs (regions b') (getEndOffset r - 1) \<noteq> None"
        using buf_abs_defined [OF wf_apart [OF bw], of "getEndOffset r - 1"] r by force
      then have "rcvq_abs q (getEndOffset r - 1) \<noteq> None" unfolding abs' by (auto split: if_splits)
      then obtain r' where "r' \<in> set (regions ?b)" "getEndOffset r - 1 < getEndOffset r'"
        using rcvq_abs_Some [OF wf, of "getEndOffset r - 1"] by auto
      then show ?thesis using in_region_bounds(3) [OF wf, of r'] m by (simp flip: e)
    qed
    then have "rcvq_wf ?q'" using b'(2) nx next' eb by (simp add: rcvq_wf_def nextOffset_def)
    then show ?thesis using res eb abs' by (auto simp: rcvq_abs_def)
  qed
qed

text \<open>The region around an offset: its bounds are the ends of the maximal defined stretch.\<close>

lemma find_region:
  assumes "rcvq_wf q" and "r \<in> set (regions (reorderBuffer q))" and "P r"
    and one: "\<And>s. s \<in> set (regions (reorderBuffer q)) \<Longrightarrow> P s \<Longrightarrow> s = r"
  shows "find P (regions (reorderBuffer q)) = Some r"
proof (cases "find P (regions (reorderBuffer q))")
  case None
  then show ?thesis using assms(2,3) by (auto simp: find_None_iff)
next
  case (Some s)
  then have "s \<in> set (regions (reorderBuffer q))" "P s" by (auto simp: find_Some_iff)
  with Some one show ?thesis by simp
qed

lemma regions_apart:
  assumes "rcvq_wf q" and "r \<in> set (regions (reorderBuffer q))" and "s \<in> set (regions (reorderBuffer q))"
    and "r \<noteq> s"
  shows "getEndOffset r < getStartOffset s \<or> getEndOffset s < getStartOffset r"
proof -
  let ?rs = "regions (reorderBuffer q)"
  have bw: "buf_wf ?rs" using assms(1) by (simp add: rcvq_wf_def ro_wf_def)
  obtain i j where ij: "i < length ?rs" "r = ?rs ! i" "j < length ?rs" "s = ?rs ! j"
    using assms(2,3) by (auto simp: in_set_conv_nth)
  with assms(4) have "i < j \<or> j < i" by (cases i j rule: linorder_cases) auto
  then show ?thesis using wf_nth_less [OF bw] ij by blast
qed

lemma getLE_abs:
  assumes wf: "rcvq_wf q" and i: "rcvq_abs q i \<noteq> None"
  shows "\<exists>a\<le>i. getLE (offsetToSeq i) q = offsetToSeq a \<and> rcvq_abs q (a - 1) = None \<and>
    (\<forall>j. a \<le> j \<and> j \<le> i \<longrightarrow> rcvq_abs q j \<noteq> None)"
proof -
  let ?e = "expectedOffset (reorderBuffer q)"
  obtain r where r: "r \<in> set (regions (reorderBuffer q))" "getStartOffset r \<le> i" "i < getEndOffset r"
    using rcvq_abs_Some [OF wf, of i] i by auto
  have so: "seqToOffset ?e (offsetToSeq i) = i"
    using in_region_bounds [OF wf r(1)] r by (intro seqToOffset_offset) auto
  have "find (\<lambda>r. getStartOffset r \<le> i \<and> i < getEndOffset r) (regions (reorderBuffer q)) = Some r"
    using r regions_apart [OF wf r(1)] by (intro find_region [OF wf r(1)]) force+
  then have le: "getLE (offsetToSeq i) q = offsetToSeq (getStartOffset r)"
    by (simp add: getLE_def so)
  have "rcvq_abs q (getStartOffset r - 1) = None"
  proof (rule ccontr)
    assume "rcvq_abs q (getStartOffset r - 1) \<noteq> None"
    then obtain s where "s \<in> set (regions (reorderBuffer q))" "getStartOffset s \<le> getStartOffset r - 1"
      "getStartOffset r - 1 < getEndOffset s"
      using rcvq_abs_Some [OF wf] by blast
    then show False using regions_apart [OF wf r(1), of s] in_region_bounds(2) [OF wf r(1)] by force
  qed
  moreover have "rcvq_abs q j \<noteq> None" if "getStartOffset r \<le> j" "j \<le> i" for j
    using rcvq_abs_Some [OF wf, of j] r that by force
  ultimately show ?thesis using le r(2) by blast
qed

lemma getRE_abs:
  assumes wf: "rcvq_wf q" and i: "rcvq_abs q i \<noteq> None"
  shows "\<exists>b>i. getRE (offsetToSeq (i + 1)) q = offsetToSeq b \<and> rcvq_abs q b = None \<and>
    (\<forall>j. i \<le> j \<and> j < b \<longrightarrow> rcvq_abs q j \<noteq> None)"
proof -
  let ?e = "expectedOffset (reorderBuffer q)"
  obtain r where r: "r \<in> set (regions (reorderBuffer q))" "getStartOffset r \<le> i" "i < getEndOffset r"
    using rcvq_abs_Some [OF wf, of i] i by auto
  have so: "seqToOffset ?e (offsetToSeq (i + 1)) = i + 1"
    using in_region_bounds [OF wf r(1)] r by (intro seqToOffset_offset) auto
  have "find (\<lambda>r. getStartOffset r < i + 1 \<and> i + 1 \<le> getEndOffset r) (regions (reorderBuffer q)) = Some r"
    using r regions_apart [OF wf r(1)] by (intro find_region [OF wf r(1)]) force+
  then have re: "getRE (offsetToSeq (i + 1)) q = offsetToSeq (getEndOffset r)"
    by (simp add: getRE_def so)
  have "rcvq_abs q (getEndOffset r) = None"
  proof (rule ccontr)
    assume "rcvq_abs q (getEndOffset r) \<noteq> None"
    then obtain s where "s \<in> set (regions (reorderBuffer q))" "getStartOffset s \<le> getEndOffset r"
      "getEndOffset r < getEndOffset s"
      using rcvq_abs_Some [OF wf] by blast
    then show False using regions_apart [OF wf r(1), of s] in_region_bounds(2) [OF wf r(1)] by force
  qed
  moreover have "rcvq_abs q j \<noteq> None" if "i \<le> j" "j < getEndOffset r" for j
    using rcvq_abs_Some [OF wf, of j] r that by force
  ultimately show ?thesis using re r(3) by blast
qed

section \<open>A connection's worth of arrivals and reads\<close>

text \<open>\<open>Arrive off n\<close>: a segment with the \<open>n\<close> bytes of the stream from \<open>off\<close> on; \<open>Read\<close>: the application
  reads what is available.\<close>

datatype rcv_op = Arrive int nat | Read

fun rcv_exec :: "(int \<Rightarrow> 'd) \<Rightarrow> rcv_op \<Rightarrow> 'd list \<times> 'd receive_queue \<Rightarrow> err + ('d list \<times> 'd receive_queue)" where
  "rcv_exec f (Arrive off n) (out, q) =
     ebind (insertBytesFromSegment (\<lambda>_ _. True) (\<lambda>_ _. True) (offsetToSeq off)
              (map (\<lambda>k. f (off + int k)) [0..<n]) q) (\<lambda>q'. Inr (out, q'))"
| "rcv_exec f Read (out, q) =
     ebind (extractBytesUpTo (rcvq_nxt q) q) (\<lambda>(d, q'). Inr (out @ (case d of None \<Rightarrow> [] | Some d \<Rightarrow> d), q'))"

text \<open>
  A segment arrives in the window: it has bytes beyond the expected offset and stays within the
  largest window around it.
\<close>

fun rcv_legal :: "rcv_op \<Rightarrow> 'd receive_queue \<Rightarrow> bool" where
  "rcv_legal (Arrive off n) q =
     (let e = expectedOffset (reorderBuffer q)
      in 0 < n \<and> e - max_window \<le> off \<and> e < off + int n \<and> off + int n \<le> e + max_window)"
| "rcv_legal Read q = True"

fun rcv_run :: "(int \<Rightarrow> 'd) \<Rightarrow> rcv_op list \<Rightarrow> 'd list \<times> 'd receive_queue \<Rightarrow> err + ('d list \<times> 'd receive_queue)" where
  "rcv_run f [] s = Inr s"
| "rcv_run f (x # xs) s =
     (if \<not> rcv_legal x (snd s) then Inl (RuntimeError ''illegal'') else ebind (rcv_exec f x s) (rcv_run f xs))"

fun arrived :: "rcv_op list \<Rightarrow> int set" where
  "arrived [] = {}"
| "arrived (Arrive off n # xs) = {off..<off + int n} \<union> arrived xs"
| "arrived (Read # xs) = arrived xs"

lemma arrived_append: "arrived (xs @ ys) = arrived xs \<union> arrived ys"
  by (induction xs rule: arrived.induct) auto

definition rcv_inv :: "(int \<Rightarrow> 'd) \<Rightarrow> int \<Rightarrow> int set \<Rightarrow> 'd list \<times> 'd receive_queue \<Rightarrow> bool" where
  "rcv_inv f s0 A = (\<lambda>(out, q).
     let e = expectedOffset (reorderBuffer q)
     in rcvq_wf q \<and> e = s0 + int (length out) \<and> out = map (\<lambda>k. f (s0 + int k)) [0..<length out] \<and>
        {s0..<e} \<subseteq> A \<and> (\<forall>i. rcvq_abs q i = (if e \<le> i \<and> i \<in> A then Some (f i) else None)))"

lemma reg_map_tail:
  assumes "d \<le> n"
  shows "reg_map \<lparr>r_offset = off + int d, r_data = drop d (map (\<lambda>k. f (off + int k)) [0..<n])\<rparr> i =
    (if off + int d \<le> i \<and> i < off + int n then Some (f i) else None)"
proof -
  have "off + (int d + int (nat (i - (off + int d)))) = i" if "off + int d \<le> i" using that by simp
  moreover have "nat (i - (off + int d)) < n - d" if "off + int d \<le> i" "i < off + int n"
    using that assms by (simp add: nat_less_iff)
  ultimately show ?thesis
    using assms
    by (auto simp: reg_map_def getStartOffset_def getEndOffset_def chunkLength_def drop_map)
qed

lemma map_stream_append:
  "map (\<lambda>j. f (a + int j)) [0..<m] @ map (\<lambda>j. f (a + int m + int j)) [0..<k] =
     map (\<lambda>j. f (a + int j)) [0..<m + k]"
  by (rule nth_equalityI) (auto simp: nth_append add.assoc simp flip: of_nat_add)

lemma rcv_exec_inv:
  assumes inv: "rcv_inv f s0 A (out, q)" and legal: "rcv_legal x q"
  shows "\<exists>out' q'. rcv_exec f x (out, q) = Inr (out', q') \<and> rcv_inv f s0 (A \<union> arrived [x]) (out', q')"
proof -
  define e where "e = expectedOffset (reorderBuffer q)"
  have wf: "rcvq_wf q" and es: "e = s0 + int (length out)"
    and out: "out = map (\<lambda>k. f (s0 + int k)) [0..<length out]" and sub: "{s0..<e} \<subseteq> A"
    and abs: "\<And>i. rcvq_abs q i = (if e \<le> i \<and> i \<in> A then Some (f i) else None)"
    using inv by (auto simp: rcv_inv_def Let_def e_def)
  show ?thesis
  proof (cases x)
    case (Arrive off n)
    let ?pl = "map (\<lambda>k. f (off + int k)) [0..<n]"
    have l: "0 < n" "e - max_window \<le> off" "e < off + int n" "off + int n \<le> e + max_window"
      using legal Arrive by (simp_all add: Let_def e_def)
    obtain q' where q': "insertBytesFromSegment (\<lambda>_ _. True) (\<lambda>_ _. True) (offsetToSeq off) ?pl q = Inr q'"
      "rcvq_wf q'" "expectedOffset (reorderBuffer q') = e"
      "rcvq_abs q' = rcvq_abs q ++ reg_map \<lparr>r_offset = max off e, r_data = drop (nat (e - off)) ?pl\<rparr>"
      using insert_abs [OF wf e_def, of off ?pl "\<lambda>_ _. True" "\<lambda>_ _. True"] l by (auto simp: chunkLength_def)
    have d: "max off e = off + int (nat (e - off))" "nat (e - off) \<le> n" using l by auto
    have "rcvq_abs q' i = (if e \<le> i \<and> i \<in> A \<union> {off..<off + int n} then Some (f i) else None)" for i
      unfolding q'(4) unfolding d(1) map_add_def reg_map_tail [OF d(2)] using abs [of i] l by auto
    then show ?thesis
      using Arrive q'(1-3) es out sub by (auto simp: rcv_inv_def Let_def)
  next
    case Read
    have nb: "e \<le> nextOffset q" "rcvq_nxt q = offsetToSeq (nextOffset q)"
      using nextOffset_bounds [OF wf] wf by (auto simp: e_def rcvq_wf_def)
    define k where "k = nat (nextOffset q - e)"
    obtain d q' where q': "extractBytesUpTo (rcvq_nxt q) q = Inr (d, q')" "rcvq_wf q'"
      "expectedOffset (reorderBuffer q') = nextOffset q"
      "(case d of None \<Rightarrow> [] | Some d \<Rightarrow> d) = units_at (rcvq_abs q) e k"
      "rcvq_abs q' = (\<lambda>i. if i < nextOffset q then None else rcvq_abs q i)"
      using extract_abs [OF wf e_def nb(1) order_refl] nb(2) by (auto simp: k_def)
    have in_A: "i \<in> A" if "e \<le> i" "i < nextOffset q" for i
      using nextOffset_abs(1) [OF wf, of i] that abs [of i] by (auto simp: e_def split: if_splits)
    have "units_at (rcvq_abs q) e k = map (\<lambda>j. f (e + int j)) [0..<k]"
      using in_A by (auto simp: units_at_def abs k_def nat_less_iff)
    then have "out @ (case d of None \<Rightarrow> [] | Some d \<Rightarrow> d) =
        map (\<lambda>j. f (s0 + int j)) [0..<length out] @ map (\<lambda>j. f (s0 + int (length out) + int j)) [0..<k]"
      unfolding q'(4) es using out by metis
    then have out': "out @ (case d of None \<Rightarrow> [] | Some d \<Rightarrow> d) =
        map (\<lambda>j. f (s0 + int j)) [0..<length out + k]"
      by (simp only: map_stream_append)
    have next_out: "nextOffset q = s0 + int (length out + k)" using nb(1) by (simp add: k_def es)
    have len': "length (out @ (case d of None \<Rightarrow> [] | Some d \<Rightarrow> d)) = length out + k"
      unfolding out' by simp
    have "i \<in> A" if "s0 \<le> i" "i < nextOffset q" for i
      using sub in_A that by (cases "i < e") auto
    then have "{s0..<nextOffset q} \<subseteq> A" by auto
    then have "rcv_inv f s0 A (out @ (case d of None \<Rightarrow> [] | Some d \<Rightarrow> d), q')"
      unfolding rcv_inv_def prod.case Let_def len' q'(3,5) using out' next_out q'(2) abs nb(1) by auto
    then show ?thesis using Read q'(1) by auto
  qed
qed

lemma rcv_run_inv:
  "rcv_inv f s0 A s \<Longrightarrow> rcv_run f xs s \<noteq> Inl (RuntimeError ''illegal'') \<Longrightarrow>
     \<exists>s'. rcv_run f xs s = Inr s' \<and> rcv_inv f s0 (A \<union> arrived xs) s'"
proof (induction xs arbitrary: s A)
  case Nil
  then show ?case by simp
next
  case (Cons x xs)
  obtain out q where s: "s = (out, q)" by fastforce
  have legal: "rcv_legal x q" using Cons.prems(2) s by (auto split: if_splits)
  obtain s1 where s1: "rcv_exec f x s = Inr s1" "rcv_inv f s0 (A \<union> arrived [x]) s1"
    using rcv_exec_inv [of f s0 A out q x] Cons.prems(1) legal by (auto simp: s)
  have "rcv_run f (x # xs) s = rcv_run f xs s1" using legal s1(1) by (simp add: s)
  moreover have "arrived (x # xs) = arrived [x] \<union> arrived xs" using arrived_append [of "[x]" xs] by simp
  ultimately show ?case using Cons.IH [OF s1(2)] Cons.prems(2) by (simp add: Un_assoc)
qed

lemma rcv_init_inv: "rcv_inv f (uint startSeq) {} ([], rcvq_init startSeq q)"
proof -
  have "rcvq_abs (rcvq_init startSeq q) i = None" for i by (simp add: rcvq_abs_def rcvq_init_def)
  moreover have "expectedOffset (reorderBuffer (rcvq_init startSeq q)) = uint startSeq"
    by (simp add: rcvq_init_def)
  ultimately show ?thesis using rcvq_init_wf [of startSeq q] by (simp add: rcv_inv_def Let_def)
qed

section \<open>Properties\<close>

text \<open>
  C22. Reliable delivery. From \<open>init\<close>, let segments of one byte stream arrive in any order, with
  duplicates and overlaps, each within the largest scaled window around the expected offset, and let
  the application read at any time. No call fails; what has been delivered is a prefix of the
  stream (in order, no byte twice, none missing); and \<open>rcv_nxt\<close> is the sequence number of the first
  byte of the stream that has not arrived.
\<close>

theorem receive_queue_reliable:
  assumes "rcv_run f xs ([], rcvq_init startSeq rcvq_new) \<noteq> Inl (RuntimeError ''illegal'')"
  shows "\<exists>out q n. rcv_run f xs ([], rcvq_init startSeq rcvq_new) = Inr (out, q) \<and>
    out = map (\<lambda>k. f (uint startSeq + int k)) [0..<length out] \<and> length out \<le> n \<and>
    rcvq_nxt q = startSeq + of_nat n \<and>
    (\<forall>k<n. uint startSeq + int k \<in> arrived xs) \<and> uint startSeq + int n \<notin> arrived xs"
proof -
  obtain out q where run: "rcv_run f xs ([], rcvq_init startSeq rcvq_new) = Inr (out, q)"
    "rcv_inv f (uint startSeq) (arrived xs) (out, q)"
    using rcv_run_inv [OF rcv_init_inv assms] by auto
  let ?s = "uint startSeq"
  define e where "e = expectedOffset (reorderBuffer q)"
  have wf: "rcvq_wf q" and es: "e = ?s + int (length out)"
    and out: "out = map (\<lambda>k. f (?s + int k)) [0..<length out]" and sub: "{?s..<e} \<subseteq> arrived xs"
    and abs: "\<And>i. rcvq_abs q i = (if e \<le> i \<and> i \<in> arrived xs then Some (f i) else None)"
    using run(2) by (auto simp: rcv_inv_def Let_def e_def)
  define n where "n = nat (nextOffset q - ?s)"
  have nb: "e \<le> nextOffset q" using nextOffset_bounds(1) [OF wf] by (simp add: e_def)
  then have n: "nextOffset q = ?s + int n" "length out \<le> n" by (simp_all add: n_def es)
  have "rcvq_nxt q = startSeq + of_nat n"
    using wf by (simp add: rcvq_wf_def n(1) offsetToSeq_def)
  moreover have "?s + int k \<in> arrived xs" if "k < n" for k
  proof (cases "?s + int k < e")
    case True
    then show ?thesis using sub by auto
  next
    case False
    then show ?thesis
      using nextOffset_abs(1) [OF wf, of "?s + int k"] abs [of "?s + int k"] that n(1)
      by (auto simp: e_def split: if_splits)
  qed
  moreover have "?s + int n \<notin> arrived xs"
    using nextOffset_abs(2) [OF wf] abs [of "?s + int n"] nb by (auto simp: n(1) split: if_splits)
  ultimately show ?thesis using run(1) out n(2) by blast
qed

lemma upt_3: "[0..<3] = [0, 1, 2]"
  by (simp add: upt_rec)

lemma rcv_example_run:
  "rcv_run (\<lambda>i. i) [Arrive 0x100000000 3, Arrive 0xfffffffe 3, Read] ([], rcvq_init 0xfffffffe rcvq_new) =
     Inr ([0xfffffffe, 0xffffffff, 0x100000000, 0x100000001, 0x100000002],
       \<lparr>rcvq_nxt = 3, reorderBuffer = \<lparr>regions = [], expectedOffset = 0x100000003\<rparr>\<rparr>)"
  by (simp add: rcvq_init_def Let_def insertBytesFromSegment_def offsetToSeq_def seqToOffset_def
      out_of_range_def seqLess_def seqGE_def seqLE_def seqMin_def seqMax_def upt_3 replace_def
      chunkLength_def sliceRegions_def lower_index_def upper_index_def getStartOffset_def
      getEndOffset_def chunk_peek_def mergeRegions_def extractBytesUpTo_def popAvailableData_def
      clear_range_def)

theorem receive_queue_reliable_witness:
  "\<exists>out q n. rcv_run (\<lambda>i. i) [Arrive 0x100000000 3, Arrive 0xfffffffe 3, Read]
      ([], rcvq_init 0xfffffffe rcvq_new) = Inr (out, q) \<and> length out \<le> n \<and> rcvq_nxt q = 0xfffffffe + of_nat n"
proof -
  have "rcv_run (\<lambda>i. i) [Arrive 0x100000000 3, Arrive 0xfffffffe 3, Read]
      ([], rcvq_init 0xfffffffe rcvq_new) \<noteq> Inl (RuntimeError ''illegal'')"
    unfolding rcv_example_run by simp
  from receive_queue_reliable [OF this] show ?thesis by blast
qed

text \<open>
  C28. The block of data around a queued byte, which the SACK option reports: for every byte in the
  queue, \<open>getLE\<close> of its sequence number is the start and \<open>getRE\<close> of the next sequence number the end
  of the longest stretch of queued bytes around it; the bytes just outside are missing.
\<close>

theorem receive_queue_sack_block:
  assumes "rcvq_wf q" and "rcvq_abs q i \<noteq> None"
  shows "\<exists>a b. a \<le> i \<and> i < b \<and>
    getLE (offsetToSeq i) q = offsetToSeq a \<and> getRE (offsetToSeq (i + 1)) q = offsetToSeq b \<and>
    rcvq_abs q (a - 1) = None \<and> rcvq_abs q b = None \<and> (\<forall>j. a \<le> j \<and> j < b \<longrightarrow> rcvq_abs q j \<noteq> None)"
proof -
  obtain a where a: "a \<le> i" "getLE (offsetToSeq i) q = offsetToSeq a" "rcvq_abs q (a - 1) = None"
    "\<And>j. a \<le> j \<Longrightarrow> j \<le> i \<Longrightarrow> rcvq_abs q j \<noteq> None"
    using getLE_abs [OF assms] by blast
  obtain b where b: "i < b" "getRE (offsetToSeq (i + 1)) q = offsetToSeq b" "rcvq_abs q b = None"
    "\<And>j. i \<le> j \<Longrightarrow> j < b \<Longrightarrow> rcvq_abs q j \<noteq> None"
    using getRE_abs [OF assms] by blast
  have "rcvq_abs q j \<noteq> None" if "a \<le> j" "j < b" for j
    using a(4) b(4) that by (cases "j \<le> i") auto
  with a(1-3) b(1-3) show ?thesis by blast
qed

definition gap_queue :: "int receive_queue" where
  "gap_queue = \<lparr>rcvq_nxt = 10, reorderBuffer =
     \<lparr>regions = [\<lparr>r_offset = 12, r_data = [12, 13, 14]\<rparr>], expectedOffset = 10\<rparr>\<rparr>"

lemma gap_queue_wf: "rcvq_wf gap_queue"
  by (simp add: rcvq_wf_def ro_wf_def buf_wf_def gap_queue_def getEndOffset_def getStartOffset_def
      chunkLength_def nextOffset_def getAvailableDataLength_def offsetToSeq_def)

theorem receive_queue_sack_block_witness:
  "\<exists>a b. a \<le> 13 \<and> 13 < b \<and> getLE (offsetToSeq 13) gap_queue = offsetToSeq a \<and>
     getRE (offsetToSeq 14) gap_queue = offsetToSeq b \<and> rcvq_abs gap_queue b = None"
proof -
  have "rcvq_abs gap_queue 13 \<noteq> None"
    by (simp add: rcvq_abs_def gap_queue_def reg_map_def getStartOffset_def getEndOffset_def chunkLength_def)
  from receive_queue_sack_block [OF gap_queue_wf this] show ?thesis by auto
qed

end
