(* ===== verification/TcpTypes.thy ===== *)
theory TcpTypes
  imports SackQueue TcpSendQueue TcpReceiveQueue
begin

text \<open>
  The data of a TCP connection: states and events of its state machine, the TCB
  (\<open>TcpStateVariables\<close>), the segment header with its options (\<open>TcpHeader.msg\<close>), the parameters it
  reads from its TCP module, and the \<open>TcpConnection\<close> object itself.

  \<^item> What the connection sends is appended to \<open>outbox\<close>: segments to IP and indications or data to
    the application, in order.
  \<^item> A timer message is \<open>NoTimer\<close> once it has been deleted (\<open>nullptr\<close>), \<open>Idle\<close> or \<open>Armed\<close> for a
    time. \<open>cancelEvent\<close> on a null pointer and \<open>scheduleAt\<close> for a message that is already scheduled
    are errors of the simulation kernel.
  \<^item> \<open>opened\<close> tells whether the queues, the TCB and the algorithm object exist yet; before the first
    OPEN command they are null pointers.
  \<^item> \<open>chunkAtBack\<close> and \<open>chunkAtFront\<close> are \<open>canInsertAtBack\<close> and \<open>canInsertAtFront\<close> of the payload's chunk
    classes, for the receive queue. The connection record is extensible: an algorithm keeps its own
    state in the extension.
  \<^item> The congestion control (\<open>TcpAlgorithm\<close>, an abstract class) is the record \<open>tcp_algorithm\<close> of its
    virtual functions, an argument of the functions that call it.
\<close>

section \<open>States, events, constants\<close>

datatype tcp_state =
    TCP_S_INIT | TCP_S_CLOSED | TCP_S_LISTEN | TCP_S_SYN_SENT | TCP_S_SYN_RCVD
  | TCP_S_ESTABLISHED | TCP_S_CLOSE_WAIT | TCP_S_LAST_ACK | TCP_S_FIN_WAIT_1
  | TCP_S_FIN_WAIT_2 | TCP_S_CLOSING | TCP_S_TIME_WAIT

datatype tcp_event =
    TCP_E_IGNORE
  | TCP_E_OPEN_ACTIVE | TCP_E_OPEN_PASSIVE | TCP_E_ACCEPT | TCP_E_SEND | TCP_E_CLOSE
  | TCP_E_ABORT | TCP_E_DESTROY | TCP_E_STATUS | TCP_E_QUEUE_BYTES_LIMIT | TCP_E_READ
  | TCP_E_SETOPTION
  | TCP_E_RCV_DATA | TCP_E_RCV_ACK | TCP_E_RCV_SYN | TCP_E_RCV_SYN_ACK | TCP_E_RCV_FIN
  | TCP_E_RCV_FIN_ACK | TCP_E_RCV_RST | TCP_E_RCV_UNEXP_SYN
  | TCP_E_TIMEOUT_2MSL | TCP_E_TIMEOUT_CONN_ESTAB | TCP_E_TIMEOUT_FIN_WAIT_2

datatype tcp_command_code =
    TCP_C_OPEN_ACTIVE | TCP_C_OPEN_PASSIVE | TCP_C_ACCEPT | TCP_C_SEND | TCP_C_CLOSE | TCP_C_ABORT
  | TCP_C_STATUS | TCP_C_QUEUE_BYTES_LIMIT | TCP_C_READ | TCP_C_DESTROY | TCP_C_SETOPTION

datatype tcp_status_ind =
    TCP_I_DATA | TCP_I_URGENT_DATA | TCP_I_AVAILABLE | TCP_I_ESTABLISHED | TCP_I_PEER_CLOSED
  | TCP_I_CLOSED | TCP_I_CONNECTION_REFUSED | TCP_I_CONNECTION_RESET | TCP_I_TIMED_OUT
  | TCP_I_STATUS | TCP_I_SEND_MSG | TCP_I_DATA_NOTIFICATION

definition TCP_TIMEOUT_CONN_ESTAB :: simtime where
  "TCP_TIMEOUT_CONN_ESTAB = 75 * sim_sec"

definition TCP_TIMEOUT_SYN_REXMIT :: simtime where
  "TCP_TIMEOUT_SYN_REXMIT = 3 * sim_sec"

definition TCP_TIMEOUT_SYN_REXMIT_MAX :: simtime where
  "TCP_TIMEOUT_SYN_REXMIT_MAX = 240 * sim_sec"

definition MAX_SYN_REXMIT_COUNT :: int where
  "MAX_SYN_REXMIT_COUNT = 12"

definition TCP_MAX_WIN :: u32 where
  "TCP_MAX_WIN = 65535"

definition TCP_MAX_WIN_SCALED :: int where
  "TCP_MAX_WIN_SCALED = 0x3fffffff"

definition PAWS_IDLE_TIME_THRESH :: simtime where
  "PAWS_IDLE_TIME_THRESH = 24 * 24 * 3600 * sim_sec"

definition TCP_MIN_HEADER_LENGTH :: int where
  "TCP_MIN_HEADER_LENGTH = 20"

definition TCP_MAX_HEADER_LENGTH :: int where
  "TCP_MAX_HEADER_LENGTH = 60"

definition TCP_OPTIONS_MAX_SIZE :: int where
  "TCP_OPTIONS_MAX_SIZE = 40"

definition TCP_OPTION_SACK_MIN_SIZE :: int where
  "TCP_OPTION_SACK_MIN_SIZE = 10"

definition TCP_OPTION_TS_SIZE :: u32 where
  "TCP_OPTION_TS_SIZE = 12"

section \<open>The TCB\<close>

record tcb =
  active :: bool
  fork :: bool
  snd_mss :: u32
  snd_una :: u32
  snd_nxt :: u32
  snd_max :: u32
  snd_wnd :: u32
  snd_up :: u32
  snd_wl1 :: u32
  snd_wl2 :: u32
  iss :: u32
  rcv_nxt :: u32
  rcv_wnd :: u32
  rcv_up :: u32
  irs :: u32
  rcv_adv :: u32
  syn_rexmit_count :: int
  syn_rexmit_timeout :: simtime
  fin_ack_rcvd :: bool
  send_fin :: bool
  snd_fin_seq :: u32
  fin_rcvd :: bool
  rcv_fin_seq :: u32
  nagle_enabled :: bool
  delayed_acks_enabled :: bool
  limited_transmit_enabled :: bool
  increased_IW_enabled :: bool
  full_sized_segment_counter :: u32
  ack_now :: bool
  afterRto :: bool
  ws_support :: bool
  ws_enabled :: bool
  ws_manual_scale :: int
  snd_ws :: bool
  rcv_ws :: bool
  rcv_wnd_scale :: u32
  snd_wnd_scale :: u32
  ts_support :: bool
  ts_enabled :: bool
  snd_initial_ts :: bool
  rcv_initial_ts :: bool
  ts_recent :: u32
  last_ack_sent :: u32
  time_last_data_sent :: simtime
  sack_support :: bool
  sack_enabled :: bool
  snd_sack_perm :: bool
  rcv_sack_perm :: bool
  start_seqno :: u32
  end_seqno :: u32
  snd_sack :: bool
  snd_dsack :: bool
  sacks_array :: "sack list"
  highRxt :: u32
  pipe :: u32
  recoveryPoint :: u32
  sackedBytes :: u32
  sackedBytes_old :: u32
  lossRecovery :: bool
  sendQueueLimit :: u32
  queueUpdate :: bool
  dupacks :: u32
  snd_sacks :: u32
  rcv_sacks :: u32
  rcv_oooseg :: u32
  rcv_naseg :: u32
  maxRcvBuffer :: u32
  usedRcvBuffer :: u32
  freeRcvBuffer :: u32
  tcpRcvQueueDrops :: u32
  ecnEchoState :: bool
  sndCwr :: bool
  gotEce :: bool
  gotCeIndication :: bool
  ect :: bool
  endPointIsWillingECN :: bool
  ecnSynSent :: bool
  ecnWillingness :: bool
  sndAck :: bool
  rexmit :: bool
  eceReactionTime :: simtime
  dupthresh :: u32

text \<open>The constructor; it leaves \<open>dupthresh\<close> uninitialised.\<close>

definition tcb_new :: "u32 \<Rightarrow> tcb" where
  "tcb_new uninit = \<lparr>active = False, fork = False, snd_mss = 0, snd_una = 0, snd_nxt = 0,
     snd_max = 0, snd_wnd = 0, snd_up = 0, snd_wl1 = 0, snd_wl2 = 0, iss = 0, rcv_nxt = 0,
     rcv_wnd = 0, rcv_up = 0, irs = 0, rcv_adv = 0, syn_rexmit_count = 0, syn_rexmit_timeout = 0,
     fin_ack_rcvd = False, send_fin = False, snd_fin_seq = 0, fin_rcvd = False, rcv_fin_seq = 0,
     nagle_enabled = False, delayed_acks_enabled = False, limited_transmit_enabled = False,
     increased_IW_enabled = False, full_sized_segment_counter = 0, ack_now = False,
     afterRto = False, ws_support = False, ws_enabled = False, ws_manual_scale = - 1,
     snd_ws = False, rcv_ws = False, rcv_wnd_scale = 0, snd_wnd_scale = 0, ts_support = False,
     ts_enabled = False, snd_initial_ts = False, rcv_initial_ts = False, ts_recent = 0,
     last_ack_sent = 0, time_last_data_sent = 0, sack_support = False, sack_enabled = False,
     snd_sack_perm = False, rcv_sack_perm = False, start_seqno = 0, end_seqno = 0,
     snd_sack = False, snd_dsack = False, sacks_array = [], highRxt = 0, pipe = 0,
     recoveryPoint = 0, sackedBytes = 0, sackedBytes_old = 0, lossRecovery = False,
     sendQueueLimit = 0, queueUpdate = True, dupacks = 0, snd_sacks = 0, rcv_sacks = 0,
     rcv_oooseg = 0, rcv_naseg = 0, maxRcvBuffer = 0, usedRcvBuffer = 0, freeRcvBuffer = 0,
     tcpRcvQueueDrops = 0, ecnEchoState = False, sndCwr = False, gotEce = False,
     gotCeIndication = False, ect = False, endPointIsWillingECN = False, ecnSynSent = False,
     ecnWillingness = False, sndAck = False, rexmit = False, eceReactionTime = 0,
     dupthresh = uninit\<rparr>"

section \<open>The segment header\<close>

text \<open>
  An option of every class with its \<open>length\<close> field, which a received segment may have set wrongly.
\<close>

datatype tcp_option =
    OptEnd u16
  | OptNop u16
  | OptMss u16 u16
  | OptWs u16 u16
  | OptSackPerm u16
  | OptSack u16 "sack list"
  | OptTs u16 u32 u32
  | OptUnknown u16

fun opt_length :: "tcp_option \<Rightarrow> u16" where
  "opt_length (OptEnd l) = l"
| "opt_length (OptNop l) = l"
| "opt_length (OptMss l _) = l"
| "opt_length (OptWs l _) = l"
| "opt_length (OptSackPerm l) = l"
| "opt_length (OptSack l _) = l"
| "opt_length (OptTs l _ _) = l"
| "opt_length (OptUnknown l) = l"

record tcp_header =
  srcPort :: int
  destPort :: int
  sequenceNo :: u32
  ackNo :: u32
  headerLength :: int
  chunk_length :: int
  cwrBit :: bool
  eceBit :: bool
  urgBit :: bool
  ackBit :: bool
  pshBit :: bool
  rstBit :: bool
  synBit :: bool
  finBit :: bool
  window :: u16
  urgentPointer :: u16
  headerOption :: "tcp_option list"

definition header_new :: tcp_header where
  "header_new = \<lparr>srcPort = 0, destPort = 0, sequenceNo = 0, ackNo = 0,
     headerLength = TCP_MIN_HEADER_LENGTH, chunk_length = TCP_MIN_HEADER_LENGTH, cwrBit = False,
     eceBit = False, urgBit = False, ackBit = False, pshBit = False, rstBit = False,
     synBit = False, finBit = False, window = 0, urgentPointer = 0, headerOption = []\<rparr>"

definition getSynFinLen :: "tcp_header \<Rightarrow> u32" where
  "getSynFinLen h = (if finBit h then 1 else 0) + (if synBit h then 1 else 0)"

text \<open>The lengths are added in an \<open>unsigned short\<close>.\<close>

definition getHeaderOptionArrayLength :: "tcp_header \<Rightarrow> int" where
  "getHeaderOptionArrayLength h = uint (fold (\<lambda>opt used. used + opt_length opt) (headerOption h) 0)"

definition dropHeaderOptions :: "tcp_header \<Rightarrow> tcp_header" where
  "dropHeaderOptions h = h\<lparr>headerOption := [], headerLength := TCP_MIN_HEADER_LENGTH,
     chunk_length := TCP_MIN_HEADER_LENGTH\<rparr>"

definition insertHeaderOption :: "tcp_option \<Rightarrow> tcp_header \<Rightarrow> tcp_header" where
  "insertHeaderOption opt h = h\<lparr>headerOption := headerOption h @ [opt]\<rparr>"

section \<open>The connection\<close>

datatype L3Address = Unspecified | Address nat

datatype timer = NoTimer | Idle | Armed simtime

text \<open>The tags of a packet for IP; an option a segment does not carry is \<open>None\<close>.\<close>

record ip_request =
  req_src :: L3Address
  req_dest :: L3Address
  hopLimitReq :: "int option"
  dscpReq :: "int option"
  tosReq :: "int option"
  ecnReq :: "bool option"

datatype 'd tcp_output =
    SegmentOut tcp_header "'d list" ip_request
  | IndicationOut tcp_status_ind int u32
  | AvailableOut int int L3Address L3Address int int
  | EstablishedOut int L3Address L3Address int int
  | DataOut int "'d list"
  | StatusOut int tcp_state tcb L3Address L3Address int int

text \<open>The parameters the connection reads from its TCP module.\<close>

record tcp_params =
  msl :: simtime
  useDataNotification :: bool
  par_dupthresh :: u32
  advertisedWindow :: int
  windowScalingSupport :: bool
  windowScalingFactor :: int
  ecnWillingness_par :: bool
  delayedAcksEnabled :: bool
  nagleEnabled :: bool
  limitedTransmitEnabled :: bool
  increasedIWEnabled :: bool
  mss :: u32
  timestampSupport :: bool
  sackSupport :: bool
  tcpAlgorithmClass :: string

record 'd conn =
  fsm :: tcp_state
  opened :: bool
  state :: tcb
  sendQueue :: "'d send_queue"
  receiveQueue :: "'d receive_queue"
  rexmitQ :: rexmit_queue
  the2MSLTimer :: timer
  connEstabTimer :: timer
  finWait2Timer :: timer
  synRexmitTimer :: timer
  localAddr :: L3Address
  remoteAddr :: L3Address
  localPort :: int
  remotePort :: int
  ttl :: int
  dscp :: int
  tos :: int
  socketId :: int
  listeningSocketId :: int
  tcpMain :: tcp_params
  sim_now :: simtime
  chunkAtBack :: "'d can_insert"
  chunkAtFront :: "'d can_insert"
  outbox :: "'d tcp_output list"

text \<open>
  \<open>initConnection(Tcp *, int)\<close>: a new connection object. The fields behind pointers that are still
  null hold arbitrary values (\<open>junk\<close> for the TCB).
\<close>

definition initConnection :: "tcp_params \<Rightarrow> simtime \<Rightarrow> int \<Rightarrow> tcb \<Rightarrow> 'd can_insert \<Rightarrow> 'd can_insert \<Rightarrow>
    'd conn" where
  "initConnection params now sock junk atBack atFront = \<lparr>fsm = TCP_S_INIT, opened = False, state = junk,
     sendQueue = sendq_new, receiveQueue = rcvq_new, rexmitQ = sq_new,
     the2MSLTimer = Idle, connEstabTimer = Idle, finWait2Timer = Idle, synRexmitTimer = Idle,
     localAddr = Unspecified, remoteAddr = Unspecified, localPort = - 1, remotePort = - 1,
     ttl = - 1, dscp = - 1, tos = - 1, socketId = sock, listeningSocketId = - 1,
     tcpMain = params, sim_now = now, chunkAtBack = atBack, chunkAtFront = atFront, outbox = []\<rparr>"

text \<open>
  The virtual functions of \<open>TcpAlgorithm\<close>; \<open>'c\<close> is the connection with the algorithm's own state. The
  sending functions of the connection call back those of \<open>tcp_callbacks\<close> only, the others may send.
\<close>

record 'c tcp_callbacks =
  alg_ackSent :: "'c \<Rightarrow> err + 'c"
  alg_dataSent :: "u32 \<Rightarrow> 'c \<Rightarrow> err + 'c"
  alg_segmentRetransmitted :: "u32 \<Rightarrow> u32 \<Rightarrow> 'c \<Rightarrow> err + 'c"
  alg_restartRexmitTimer :: "'c \<Rightarrow> err + 'c"
  alg_shouldMarkAck :: "'c \<Rightarrow> bool \<times> 'c"

record 'c tcp_algorithm = "'c tcp_callbacks" +
  alg_initialize :: "'c \<Rightarrow> err + 'c"
  alg_established :: "bool \<Rightarrow> 'c \<Rightarrow> err + 'c"
  alg_connectionClosed :: "'c \<Rightarrow> err + 'c"
  alg_processTimer :: "string \<Rightarrow> 'c \<Rightarrow> err + (tcp_event \<times> 'c)"
  alg_sendCommandInvoked :: "'c \<Rightarrow> err + 'c"
  alg_receivedOutOfOrderSegment :: "'c \<Rightarrow> err + 'c"
  alg_receiveSeqChanged :: "'c \<Rightarrow> err + 'c"
  alg_receivedDataAck :: "u32 \<Rightarrow> 'c \<Rightarrow> err + 'c"
  alg_receivedDuplicateAck :: "'c \<Rightarrow> err + 'c"
  alg_receivedAckForDataNotYetSent :: "u32 \<Rightarrow> 'c \<Rightarrow> err + 'c"
  alg_rttMeasurementCompleteUsingTS :: "u32 \<Rightarrow> 'c \<Rightarrow> err + 'c"
  alg_processEcnInEstablished :: "'c \<Rightarrow> err + 'c"

section \<open>Timers of the simulation kernel\<close>

definition cancelEvent :: "timer \<Rightarrow> err + timer" where
  "cancelEvent t = (if t = NoTimer then Inl NullPointer else Inr Idle)"

definition scheduleAfter :: "simtime \<Rightarrow> simtime \<Rightarrow> timer \<Rightarrow> err + timer" where
  "scheduleAfter now delay t = (case t of
       NoTimer \<Rightarrow> Inl NullPointer
     | Idle \<Rightarrow> Inr (Armed (now + delay))
     | Armed _ \<Rightarrow> Inl (RuntimeError ''message is already scheduled''))"

definition rescheduleAfter :: "simtime \<Rightarrow> simtime \<Rightarrow> timer \<Rightarrow> err + timer" where
  "rescheduleAfter now delay t = ebind (cancelEvent t) (scheduleAfter now delay)"

lemma timer_ops [simp]:
  "cancelEvent Idle = Inr Idle" "cancelEvent (Armed due) = Inr Idle" "cancelEvent NoTimer = Inl NullPointer"
  "scheduleAfter now d Idle = Inr (Armed (now + d))"
  "t \<noteq> NoTimer \<Longrightarrow> cancelEvent t = Inr Idle"
  "t \<noteq> NoTimer \<Longrightarrow> rescheduleAfter now d t = Inr (Armed (now + d))"
  by (simp_all add: cancelEvent_def scheduleAfter_def rescheduleAfter_def)

section \<open>A concrete connection\<close>

text \<open>The defaults of \<open>Tcp.ned\<close>, and a connection with them, for the examples of the development.\<close>

definition example_params :: tcp_params where
  "example_params = \<lparr>msl = 120 * sim_sec, useDataNotification = False, par_dupthresh = 3,
     advertisedWindow = 7504, windowScalingSupport = False, windowScalingFactor = - 1,
     ecnWillingness_par = False, delayedAcksEnabled = False, nagleEnabled = True,
     limitedTransmitEnabled = False, increasedIWEnabled = False, mss = 536,
     timestampSupport = False, sackSupport = False, tcpAlgorithmClass = ''TcpReno''\<rparr>"

definition example_conn :: "nat conn" where
  "example_conn = initConnection example_params 0 1 (tcb_new 3) (\<lambda>_ _. True) (\<lambda>_ _. True)"

end
