(* ===== verification/TcpFsm.thy ===== *)
theory TcpFsm
  imports TcpTypes
begin

text \<open>
  The state machine of a TCP connection (\<open>performStateTransition\<close> and \<open>stateEntered\<close> of
  \<open>TcpConnectionBase.cc\<close>): the transition table, what entering a state does to the timers and to the
  application, and what runs of the table can reach.
\<close>

section \<open>The machine\<close>

definition preanalyseAppCommandEvent :: "tcp_command_code \<Rightarrow> tcp_event" where
  "preanalyseAppCommandEvent commandCode = (case commandCode of
       TCP_C_OPEN_ACTIVE \<Rightarrow> TCP_E_OPEN_ACTIVE
     | TCP_C_OPEN_PASSIVE \<Rightarrow> TCP_E_OPEN_PASSIVE
     | TCP_C_ACCEPT \<Rightarrow> TCP_E_ACCEPT
     | TCP_C_SEND \<Rightarrow> TCP_E_SEND
     | TCP_C_CLOSE \<Rightarrow> TCP_E_CLOSE
     | TCP_C_ABORT \<Rightarrow> TCP_E_ABORT
     | TCP_C_DESTROY \<Rightarrow> TCP_E_DESTROY
     | TCP_C_STATUS \<Rightarrow> TCP_E_STATUS
     | TCP_C_QUEUE_BYTES_LIMIT \<Rightarrow> TCP_E_QUEUE_BYTES_LIMIT
     | TCP_C_READ \<Rightarrow> TCP_E_READ
     | TCP_C_SETOPTION \<Rightarrow> TCP_E_SETOPTION)"

text \<open>\<open>sendToApp\<close>: the message leaves through the gate \<open>appOut\<close>.\<close>

definition sendToApp :: "'d tcp_output \<Rightarrow> ('d, 'z) conn_scheme \<Rightarrow> ('d, 'z) conn_scheme" where
  "sendToApp msg c = c\<lparr>outbox := outbox c @ [msg]\<rparr>"

definition sendIndicationToApp :: "tcp_status_ind \<Rightarrow> u32 \<Rightarrow> ('d, 'z) conn_scheme \<Rightarrow> ('d, 'z) conn_scheme" where
  "sendIndicationToApp code ident c = sendToApp (IndicationOut code (socketId c) ident) c"

text \<open>The switch over the state, in two parts: up to SYN_SENT, and from ESTABLISHED on.\<close>

definition fsm_connecting :: "bool \<Rightarrow> tcp_event \<Rightarrow> tcp_state \<Rightarrow> tcp_state" where
  "fsm_connecting isActive event s = (case s of
       TCP_S_INIT \<Rightarrow> (case event of
           TCP_E_OPEN_PASSIVE \<Rightarrow> TCP_S_LISTEN
         | TCP_E_OPEN_ACTIVE \<Rightarrow> TCP_S_SYN_SENT
         | TCP_E_DESTROY \<Rightarrow> TCP_S_CLOSED
         | _ \<Rightarrow> s)
     | TCP_S_LISTEN \<Rightarrow> (case event of
           TCP_E_OPEN_ACTIVE \<Rightarrow> TCP_S_SYN_SENT
         | TCP_E_SEND \<Rightarrow> TCP_S_SYN_SENT
         | TCP_E_CLOSE \<Rightarrow> TCP_S_CLOSED
         | TCP_E_ABORT \<Rightarrow> TCP_S_CLOSED
         | TCP_E_DESTROY \<Rightarrow> TCP_S_CLOSED
         | TCP_E_RCV_SYN \<Rightarrow> TCP_S_SYN_RCVD
         | _ \<Rightarrow> s)
     | TCP_S_SYN_RCVD \<Rightarrow> (case event of
           TCP_E_CLOSE \<Rightarrow> TCP_S_FIN_WAIT_1
         | TCP_E_ABORT \<Rightarrow> TCP_S_CLOSED
         | TCP_E_DESTROY \<Rightarrow> TCP_S_CLOSED
         | TCP_E_TIMEOUT_CONN_ESTAB \<Rightarrow> (if isActive then TCP_S_CLOSED else TCP_S_LISTEN)
         | TCP_E_RCV_RST \<Rightarrow> (if isActive then TCP_S_CLOSED else TCP_S_LISTEN)
         | TCP_E_RCV_ACK \<Rightarrow> TCP_S_ESTABLISHED
         | TCP_E_RCV_FIN \<Rightarrow> TCP_S_CLOSE_WAIT
         | TCP_E_RCV_UNEXP_SYN \<Rightarrow> TCP_S_CLOSED
         | _ \<Rightarrow> s)
     | TCP_S_SYN_SENT \<Rightarrow> (case event of
           TCP_E_CLOSE \<Rightarrow> TCP_S_CLOSED
         | TCP_E_ABORT \<Rightarrow> TCP_S_CLOSED
         | TCP_E_DESTROY \<Rightarrow> TCP_S_CLOSED
         | TCP_E_TIMEOUT_CONN_ESTAB \<Rightarrow> TCP_S_CLOSED
         | TCP_E_RCV_RST \<Rightarrow> TCP_S_CLOSED
         | TCP_E_RCV_SYN_ACK \<Rightarrow> TCP_S_ESTABLISHED
         | TCP_E_RCV_SYN \<Rightarrow> TCP_S_SYN_RCVD
         | _ \<Rightarrow> s)
     | _ \<Rightarrow> s)"

definition fsm_connected :: "tcp_event \<Rightarrow> tcp_state \<Rightarrow> tcp_state" where
  "fsm_connected event s =
     (if s = TCP_S_TIME_WAIT then
        (if event \<in> {TCP_E_ABORT, TCP_E_TIMEOUT_2MSL, TCP_E_RCV_RST, TCP_E_RCV_UNEXP_SYN, TCP_E_DESTROY}
         then TCP_S_CLOSED else s)
      else if event \<in> {TCP_E_ABORT, TCP_E_DESTROY, TCP_E_RCV_RST, TCP_E_RCV_UNEXP_SYN}
      then TCP_S_CLOSED
      else case s of
          TCP_S_ESTABLISHED \<Rightarrow> (case event of
              TCP_E_CLOSE \<Rightarrow> TCP_S_FIN_WAIT_1 | TCP_E_RCV_FIN \<Rightarrow> TCP_S_CLOSE_WAIT | _ \<Rightarrow> s)
        | TCP_S_CLOSE_WAIT \<Rightarrow> (case event of TCP_E_CLOSE \<Rightarrow> TCP_S_LAST_ACK | _ \<Rightarrow> s)
        | TCP_S_LAST_ACK \<Rightarrow> (case event of TCP_E_RCV_ACK \<Rightarrow> TCP_S_CLOSED | _ \<Rightarrow> s)
        | TCP_S_FIN_WAIT_1 \<Rightarrow> (case event of
              TCP_E_RCV_FIN \<Rightarrow> TCP_S_CLOSING
            | TCP_E_RCV_ACK \<Rightarrow> TCP_S_FIN_WAIT_2
            | TCP_E_RCV_FIN_ACK \<Rightarrow> TCP_S_TIME_WAIT
            | _ \<Rightarrow> s)
        | TCP_S_FIN_WAIT_2 \<Rightarrow> (case event of
              TCP_E_TIMEOUT_FIN_WAIT_2 \<Rightarrow> TCP_S_CLOSED | TCP_E_RCV_FIN \<Rightarrow> TCP_S_TIME_WAIT | _ \<Rightarrow> s)
        | TCP_S_CLOSING \<Rightarrow> (case event of TCP_E_RCV_ACK \<Rightarrow> TCP_S_TIME_WAIT | _ \<Rightarrow> s)
        | _ \<Rightarrow> s)"

definition connecting :: "tcp_state \<Rightarrow> bool" where
  "connecting s = (s \<in> {TCP_S_INIT, TCP_S_LISTEN, TCP_S_SYN_SENT, TCP_S_SYN_RCVD})"

definition fsm_next :: "bool \<Rightarrow> tcp_event \<Rightarrow> tcp_state \<Rightarrow> tcp_state" where
  "fsm_next isActive event s =
     (if s = TCP_S_CLOSED then s
      else if connecting s then fsm_connecting isActive event s else fsm_connected event s)"

text \<open>\<open>if (timer) cancelEvent(timer)\<close>\<close>

definition cancelIfExists :: "timer \<Rightarrow> timer" where
  "cancelIfExists t = (if t = NoTimer then NoTimer else Idle)"

definition cancelSetupTimers :: "('d, 'z) conn_scheme \<Rightarrow> ('d, 'z) conn_scheme" where
  "cancelSetupTimers c = c\<lparr>connEstabTimer := cancelIfExists (connEstabTimer c),
     synRexmitTimer := cancelIfExists (synRexmitTimer c)\<rparr>"

definition enterClosed :: "tcp_state \<Rightarrow> tcp_event \<Rightarrow> ('d, 'z) conn_scheme \<Rightarrow> ('d, 'z) conn_scheme" where
  "enterClosed oldState event c =
     (let c = (if oldState \<noteq> TCP_S_TIME_WAIT \<and> event \<noteq> TCP_E_ABORT
               then sendIndicationToApp TCP_I_CLOSED 0 c else c)
      in cancelSetupTimers (c\<lparr>the2MSLTimer := cancelIfExists (the2MSLTimer c),
           finWait2Timer := cancelIfExists (finWait2Timer c)\<rparr>))"

text \<open>
  \<open>stateEntered\<close>; it runs with the new state already set. The last call of the case CLOSED goes
  through \<open>tcpAlgorithm\<close>, which is null until the connection has been opened.
\<close>

definition stateEntered :: "('d, 'z) conn_scheme tcp_algorithm \<Rightarrow> tcp_state \<Rightarrow> tcp_state \<Rightarrow> tcp_event \<Rightarrow>
    ('d, 'z) conn_scheme \<Rightarrow> err + ('d, 'z) conn_scheme" where
  "stateEntered alg st oldState event c = (case st of
       TCP_S_INIT \<Rightarrow> Inr c
     | TCP_S_LISTEN \<Rightarrow>
         ebind (assert_that (connEstabTimer c \<noteq> NoTimer \<and> synRexmitTimer c \<noteq> NoTimer)) (\<lambda>_.
         ebind (cancelEvent (connEstabTimer c)) (\<lambda>ce.
         ebind (cancelEvent (synRexmitTimer c)) (\<lambda>sr.
           Inr (c\<lparr>connEstabTimer := ce, synRexmitTimer := sr\<rparr>))))
     | TCP_S_SYN_RCVD \<Rightarrow> Inr c
     | TCP_S_SYN_SENT \<Rightarrow> Inr c
     | TCP_S_ESTABLISHED \<Rightarrow>
         ebind (cancelEvent (connEstabTimer c)) (\<lambda>_.
         ebind (cancelEvent (synRexmitTimer c)) (\<lambda>_.
           Inr (c\<lparr>connEstabTimer := NoTimer, synRexmitTimer := NoTimer\<rparr>)))
     | TCP_S_TIME_WAIT \<Rightarrow> Inr (sendIndicationToApp TCP_I_CLOSED 0 c)
     | TCP_S_CLOSED \<Rightarrow>
         (let c = enterClosed oldState event c
          in if opened c then alg_connectionClosed alg c else Inl NullPointer)
     | _ \<Rightarrow>
         (let c = (if st = TCP_S_CLOSE_WAIT then sendIndicationToApp TCP_I_PEER_CLOSED 0 c else c)
          in Inr (cancelSetupTimers c)))"

text \<open>\<open>performStateTransition\<close>; the result is whether the connection lives on.\<close>

definition performStateTransition :: "('d, 'z) conn_scheme tcp_algorithm \<Rightarrow> tcp_event \<Rightarrow>
    ('d, 'z) conn_scheme \<Rightarrow> err + (bool \<times> ('d, 'z) conn_scheme)" where
  "performStateTransition alg event c =
     ebind (assert_that (fsm c \<noteq> TCP_S_CLOSED)) (\<lambda>_.
       if event = TCP_E_IGNORE then Inr (True, c)
       else
         let oldState = fsm c;
             c = c\<lparr>fsm := fsm_next (active (state c)) event oldState\<rparr>
         in ebind (if oldState \<noteq> fsm c then stateEntered alg (fsm c) oldState event c else Inr c) (\<lambda>c.
              Inr (fsm c \<noteq> TCP_S_CLOSED, c)))"

section \<open>Runs of the table\<close>

lemmas fsm_defs = fsm_next_def fsm_connecting_def fsm_connected_def connecting_def

text \<open>Each step comes with the value of \<open>state->active\<close> at its time.\<close>

definition fsm_run :: "(bool \<times> tcp_event) list \<Rightarrow> tcp_state \<Rightarrow> tcp_state" where
  "fsm_run es s = fold (\<lambda>(a, e). fsm_next a e) es s"

lemma fsm_run_simps [simp]:
  "fsm_run [] s = s"
  "fsm_run (es @ [(a, e)]) s = fsm_next a e (fsm_run es s)"
  by (simp_all add: fsm_run_def)

inductive fsm_step :: "tcp_state \<Rightarrow> tcp_state \<Rightarrow> bool" where
  "fsm_next a e s \<noteq> s \<Longrightarrow> fsm_step s (fsm_next a e s)"

inductive_cases fsm_stepE: "fsm_step s s'"
inductive_simps fsm_step_simps: "fsm_step s s'"

text \<open>How far a connection has come; only the way back to LISTEN does not increase it.\<close>

fun progress :: "tcp_state \<Rightarrow> nat" where
  "progress TCP_S_INIT = 0"
| "progress TCP_S_LISTEN = 1"
| "progress TCP_S_SYN_SENT = 2"
| "progress TCP_S_SYN_RCVD = 3"
| "progress TCP_S_ESTABLISHED = 4"
| "progress TCP_S_CLOSE_WAIT = 5"
| "progress TCP_S_FIN_WAIT_1 = 5"
| "progress TCP_S_FIN_WAIT_2 = 6"
| "progress TCP_S_CLOSING = 6"
| "progress TCP_S_LAST_ACK = 7"
| "progress TCP_S_TIME_WAIT = 7"
| "progress TCP_S_CLOSED = 8"

lemma fsm_next_progress:
  "fsm_next a e s = s \<or> progress s < progress (fsm_next a e s) \<or>
   (s = TCP_S_SYN_RCVD \<and> \<not> a \<and> fsm_next a e s = TCP_S_LISTEN)"
  by (cases s; cases e) (simp_all add: fsm_defs)

lemma fsm_step_progress:
  "fsm_step s s' \<Longrightarrow> progress s < progress s' \<or> (s = TCP_S_SYN_RCVD \<and> s' = TCP_S_LISTEN)"
  by (elim fsm_stepE) (metis fsm_next_progress)

lemma connected_progress: "\<not> connecting s \<longleftrightarrow> 4 \<le> progress s"
  by (cases s) (simp_all add: connecting_def)

lemma fsm_step_connected: "fsm_step s s' \<Longrightarrow> \<not> connecting s \<Longrightarrow> \<not> connecting s'"
  using fsm_step_progress [of s s'] by (auto simp: connected_progress)

lemma fsm_steps_connected: "fsm_step\<^sup>*\<^sup>* s s' \<Longrightarrow> \<not> connecting s \<Longrightarrow> \<not> connecting s'"
proof (induction rule: rtranclp_induct)
  case base
  then show ?case .
next
  case (step y z)
  then show ?case using fsm_step_connected by blast
qed

text \<open>What must have happened for the machine to be in a state.\<close>

definition closed_locally :: "(bool \<times> tcp_event) list \<Rightarrow> bool" where
  "closed_locally es = (TCP_E_CLOSE \<in> snd ` set es)"

definition fin_received :: "(bool \<times> tcp_event) list \<Rightarrow> bool" where
  "fin_received es = (TCP_E_RCV_FIN \<in> snd ` set es \<or> TCP_E_RCV_FIN_ACK \<in> snd ` set es)"

definition fin_acked :: "(bool \<times> tcp_event) list \<Rightarrow> bool" where
  "fin_acked es = (TCP_E_RCV_ACK \<in> snd ` set es \<or> TCP_E_RCV_FIN_ACK \<in> snd ` set es)"

definition handshake_ok :: "(bool \<times> tcp_event) list \<Rightarrow> tcp_state \<Rightarrow> bool" where
  "handshake_ok es s =
     ((s \<in> {TCP_S_FIN_WAIT_1, TCP_S_FIN_WAIT_2, TCP_S_CLOSING, TCP_S_LAST_ACK, TCP_S_TIME_WAIT} \<longrightarrow>
         closed_locally es) \<and>
      (s \<in> {TCP_S_CLOSE_WAIT, TCP_S_CLOSING, TCP_S_LAST_ACK, TCP_S_TIME_WAIT} \<longrightarrow> fin_received es) \<and>
      (s \<in> {TCP_S_FIN_WAIT_2, TCP_S_TIME_WAIT} \<longrightarrow> fin_acked es))"

lemma handshake_facts [simp]:
  "closed_locally (es @ [(a, e)]) \<longleftrightarrow> closed_locally es \<or> e = TCP_E_CLOSE"
  "fin_received (es @ [(a, e)]) \<longleftrightarrow> fin_received es \<or> e = TCP_E_RCV_FIN \<or> e = TCP_E_RCV_FIN_ACK"
  "fin_acked (es @ [(a, e)]) \<longleftrightarrow> fin_acked es \<or> e = TCP_E_RCV_ACK \<or> e = TCP_E_RCV_FIN_ACK"
  by (auto simp: closed_locally_def fin_received_def fin_acked_def)

lemma handshake_step: "handshake_ok es s \<Longrightarrow> handshake_ok (es @ [(a, e)]) (fsm_next a e s)"
  by (cases s; cases e) (simp_all add: handshake_ok_def fsm_defs)

section \<open>The timers\<close>

text \<open>
  The four timer messages exist from the beginning; the two of the connection setup are deleted
  together when ESTABLISHED is entered, after which no step goes back to the setup states. A connection
  that leaves the setup states otherwise keeps the two messages, but none of them is scheduled any more.
\<close>

fun armed :: "timer \<Rightarrow> bool" where
  "armed (Armed due) = True"
| "armed Idle = False"
| "armed NoTimer = False"

definition timers_wf :: "('d, 'z) conn_scheme \<Rightarrow> bool" where
  "timers_wf c = (the2MSLTimer c \<noteq> NoTimer \<and> finWait2Timer c \<noteq> NoTimer \<and>
     (connEstabTimer c = NoTimer \<longleftrightarrow> synRexmitTimer c = NoTimer) \<and>
     (connecting (fsm c) \<longrightarrow> connEstabTimer c \<noteq> NoTimer) \<and>
     (fsm c = TCP_S_ESTABLISHED \<longrightarrow> connEstabTimer c = NoTimer) \<and>
     (\<not> connecting (fsm c) \<longrightarrow> \<not> armed (connEstabTimer c) \<and> \<not> armed (synRexmitTimer c)))"

text \<open>
  What a callback of the congestion control may not touch: the state, the socket pair and which timers
  exist; and outside the setup states it may not arm the timers of the connection setup.
\<close>

definition same_socket :: "('d, 'z) conn_scheme \<Rightarrow> ('d, 'z) conn_scheme \<Rightarrow> bool" where
  "same_socket c c' = (localAddr c' = localAddr c \<and> remoteAddr c' = remoteAddr c \<and>
     localPort c' = localPort c \<and> remotePort c' = remotePort c \<and> socketId c' = socketId c)"

definition same_control :: "('d, 'z) conn_scheme \<Rightarrow> ('d, 'z) conn_scheme \<Rightarrow> bool" where
  "same_control c c' = (same_socket c c' \<and> fsm c' = fsm c \<and> opened c' = opened c \<and>
     (the2MSLTimer c' = NoTimer \<longleftrightarrow> the2MSLTimer c = NoTimer) \<and>
     (finWait2Timer c' = NoTimer \<longleftrightarrow> finWait2Timer c = NoTimer) \<and>
     (connEstabTimer c' = NoTimer \<longleftrightarrow> connEstabTimer c = NoTimer) \<and>
     (synRexmitTimer c' = NoTimer \<longleftrightarrow> synRexmitTimer c = NoTimer) \<and>
     (\<not> connecting (fsm c) \<longrightarrow> (armed (connEstabTimer c') \<longrightarrow> armed (connEstabTimer c)) \<and>
       (armed (synRexmitTimer c') \<longrightarrow> armed (synRexmitTimer c))))"

lemma same_socket_update [simp]:
  "same_socket a (fsm_update f c) \<longleftrightarrow> same_socket a c" "same_socket a (connEstabTimer_update g c) \<longleftrightarrow> same_socket a c"
  "same_socket a (synRexmitTimer_update g c) \<longleftrightarrow> same_socket a c" "same_socket c c"
  by (simp_all add: same_socket_def)

lemma same_control_refl [simp]: "same_control c c"
  by (simp add: same_control_def same_socket_def)

lemma same_control_trans [trans]: "same_control a b \<Longrightarrow> same_control b c \<Longrightarrow> same_control a c"
  by (simp add: same_control_def same_socket_def)

lemma same_socket_trans [trans]: "same_socket a b \<Longrightarrow> same_socket b c \<Longrightarrow> same_socket a c"
  by (simp add: same_socket_def)

text \<open>
  What holds after a function that keeps the control state, for an algorithm whose own state satisfies
  \<open>ok\<close>.
\<close>

definition kept :: "('z \<Rightarrow> bool) \<Rightarrow> ('d, 'z) conn_scheme \<Rightarrow> ('d, 'z) conn_scheme \<Rightarrow> bool" where
  "kept ok c c' = (same_control c c' \<and> ok (conn.more c'))"

lemma kept_refl [simp]: "kept ok c c \<longleftrightarrow> ok (conn.more c)"
  by (simp add: kept_def)

lemma kept_trans [trans]: "kept ok a b \<Longrightarrow> kept ok b c \<Longrightarrow> kept ok a c"
  by (auto simp: kept_def intro: same_control_trans)

lemma timers_wf_same: "same_control c c' \<Longrightarrow> timers_wf c \<Longrightarrow> timers_wf c'"
  by (auto simp: same_control_def timers_wf_def)

lemma cancelIfExists_simps [simp]: "cancelIfExists t = NoTimer \<longleftrightarrow> t = NoTimer" "\<not> armed (cancelIfExists t)"
  by (cases t; simp add: cancelIfExists_def)+

lemma sendIndication_frame [simp]:
  "fsm (sendIndicationToApp i n c) = fsm c" "opened (sendIndicationToApp i n c) = opened c"
  "state (sendIndicationToApp i n c) = state c"
  "the2MSLTimer (sendIndicationToApp i n c) = the2MSLTimer c"
  "finWait2Timer (sendIndicationToApp i n c) = finWait2Timer c"
  "connEstabTimer (sendIndicationToApp i n c) = connEstabTimer c"
  "synRexmitTimer (sendIndicationToApp i n c) = synRexmitTimer c"
  "conn.more (sendIndicationToApp i n c) = conn.more c"
  "same_socket a (sendIndicationToApp i n c) \<longleftrightarrow> same_socket a c"
  by (simp_all add: sendIndicationToApp_def sendToApp_def same_socket_def)

lemma cancelSetupTimers_frame [simp]:
  "fsm (cancelSetupTimers c) = fsm c" "opened (cancelSetupTimers c) = opened c"
  "the2MSLTimer (cancelSetupTimers c) = the2MSLTimer c"
  "finWait2Timer (cancelSetupTimers c) = finWait2Timer c"
  "connEstabTimer (cancelSetupTimers c) = cancelIfExists (connEstabTimer c)"
  "synRexmitTimer (cancelSetupTimers c) = cancelIfExists (synRexmitTimer c)"
  "conn.more (cancelSetupTimers c) = conn.more c"
  "same_socket a (cancelSetupTimers c) \<longleftrightarrow> same_socket a c"
  by (simp_all add: cancelSetupTimers_def same_socket_def)

lemma enterClosed_same [simp]: "same_control c (enterClosed s e c)"
  "conn.more (enterClosed s e c) = conn.more c"
  by (simp_all add: enterClosed_def same_control_def same_socket_def Let_def cancelSetupTimers_def
      sendIndicationToApp_def sendToApp_def)

lemma enterClosed_timers: "timers_wf c \<Longrightarrow> s' = TCP_S_CLOSED \<Longrightarrow> timers_wf (enterClosed s e (c\<lparr>fsm := s'\<rparr>))"
  by (simp add: timers_wf_def enterClosed_def Let_def connecting_def)

lemma fsm_next_listen: "fsm_next a e s = TCP_S_LISTEN \<Longrightarrow> connecting s"
  by (cases s; cases e) (simp_all add: fsm_defs)

lemma fsm_next_established: "fsm_next a e s = TCP_S_ESTABLISHED \<Longrightarrow> s = TCP_S_ESTABLISHED \<or> connecting s"
  by (cases s; cases e) (simp_all add: fsm_defs)

lemma fsm_next_connecting: "connecting (fsm_next a e s) \<Longrightarrow> connecting s"
  using fsm_step_connected [of s "fsm_next a e s"] by (cases "fsm_next a e s = s") (auto intro: fsm_step.intros)

lemma fsm_next_init: "fsm_next a e s = TCP_S_INIT \<Longrightarrow> s = TCP_S_INIT"
  by (cases a; cases s; cases e) (simp_all add: fsm_defs)

lemma fsm_next_time_wait: "fsm_next a e s = TCP_S_TIME_WAIT \<Longrightarrow> \<not> connecting s"
  by (cases a; cases s; cases e) (simp_all add: fsm_defs)

lemma connecting_simps [simp]:
  "connecting TCP_S_LISTEN" "connecting TCP_S_SYN_SENT" "connecting TCP_S_SYN_RCVD" "\<not> connecting TCP_S_CLOSED"
  "\<not> connecting TCP_S_ESTABLISHED" "\<not> connecting TCP_S_CLOSE_WAIT" "\<not> connecting TCP_S_LAST_ACK"
  "\<not> connecting TCP_S_FIN_WAIT_1" "\<not> connecting TCP_S_FIN_WAIT_2" "\<not> connecting TCP_S_CLOSING"
  "\<not> connecting TCP_S_TIME_WAIT"
  by (simp_all add: connecting_def)

lemma timer_cases: "t \<noteq> NoTimer \<Longrightarrow> cancelEvent t = Inr Idle"
  by simp

text \<open>Entering the state that the table gives never fails on a timer and keeps the timer invariant.\<close>

lemma stateEntered_timers:
  assumes wf: "timers_wf c" and op: "opened c" and ok: "ok (conn.more c)"
    and alg: "\<And>x. opened x \<Longrightarrow> ok (conn.more x) \<Longrightarrow>
      \<exists>x'. alg_connectionClosed alg x = Inr x' \<and> kept ok x x'"
    and nxt: "s' = fsm_next a e (fsm c)" "s' \<noteq> fsm c"
  shows "\<exists>c'. stateEntered alg s' (fsm c) e (c\<lparr>fsm := s'\<rparr>) = Inr c' \<and> timers_wf c' \<and> fsm c' = s' \<and>
    opened c' \<and> ok (conn.more c') \<and> same_socket c c'"
proof (cases s')
  case TCP_S_INIT
  then show ?thesis using nxt fsm_next_init by metis
next
  case TCP_S_LISTEN
  then show ?thesis
    using fsm_next_listen [of a e "fsm c"] nxt wf op ok
    by (auto simp: stateEntered_def timers_wf_def assert_that_def)
next
  case TCP_S_ESTABLISHED
  then have "connecting (fsm c)" using fsm_next_established [of a e "fsm c"] nxt by auto
  then show ?thesis using TCP_S_ESTABLISHED wf op ok by (auto simp: stateEntered_def timers_wf_def connecting_def)
next
  case TCP_S_CLOSED
  have same: "same_control (c\<lparr>fsm := s'\<rparr>) (enterClosed (fsm c) e (c\<lparr>fsm := s'\<rparr>))" by simp
  then have "opened (enterClosed (fsm c) e (c\<lparr>fsm := s'\<rparr>))" using op by (simp add: same_control_def)
  then obtain c' where c': "alg_connectionClosed alg (enterClosed (fsm c) e (c\<lparr>fsm := s'\<rparr>)) = Inr c'"
    "kept ok (enterClosed (fsm c) e (c\<lparr>fsm := s'\<rparr>)) c'"
    using alg [of "enterClosed (fsm c) e (c\<lparr>fsm := s'\<rparr>)"] ok by auto
  have kc: "same_control (c\<lparr>fsm := s'\<rparr>) c'" "ok (conn.more c')"
    using same_control_trans [OF same] c'(2) by (simp_all add: kept_def)
  then have s: "fsm c' = s'" "opened c'" "same_socket c c'" using op by (simp_all add: same_control_def same_socket_def)
  have "timers_wf (enterClosed (fsm c) e (c\<lparr>fsm := s'\<rparr>))" using wf TCP_S_CLOSED by (rule enterClosed_timers)
  with c'(2) have "timers_wf c'" unfolding kept_def by (blast intro: timers_wf_same)
  then show ?thesis
    using TCP_S_CLOSED c'(1) kc(2) s \<open>opened (enterClosed (fsm c) e (c\<lparr>fsm := s'\<rparr>))\<close>
    by (simp add: stateEntered_def Let_def)
next
  case TCP_S_TIME_WAIT
  then have "\<not> connecting (fsm c)" using nxt fsm_next_time_wait by metis
  then show ?thesis using TCP_S_TIME_WAIT wf op ok by (simp add: stateEntered_def timers_wf_def)
next
  case TCP_S_SYN_SENT
  then have "connecting (fsm c)" using nxt fsm_next_connecting [of a e "fsm c"] by simp
  then show ?thesis using TCP_S_SYN_SENT wf op ok by (auto simp: stateEntered_def timers_wf_def)
next
  case TCP_S_SYN_RCVD
  then have "connecting (fsm c)" using nxt fsm_next_connecting [of a e "fsm c"] by simp
  then show ?thesis using TCP_S_SYN_RCVD wf op ok by (auto simp: stateEntered_def timers_wf_def)
qed (use wf op ok in \<open>simp_all add: stateEntered_def timers_wf_def Let_def\<close>)

lemma performStateTransition_timers:
  assumes "timers_wf c" and "opened c" and "ok (conn.more c)" and "fsm c \<noteq> TCP_S_CLOSED"
    and "\<And>x. opened x \<Longrightarrow> ok (conn.more x) \<Longrightarrow>
      \<exists>x'. alg_connectionClosed alg x = Inr x' \<and> kept ok x x'"
  shows "\<exists>b c'. performStateTransition alg e c = Inr (b, c') \<and> timers_wf c' \<and> opened c' \<and> ok (conn.more c') \<and>
    same_socket c c' \<and>
    (b \<longleftrightarrow> fsm c' \<noteq> TCP_S_CLOSED) \<and>
    fsm c' = (if e = TCP_E_IGNORE then fsm c else fsm_next (active (state c)) e (fsm c))"
proof (cases "e = TCP_E_IGNORE \<or> fsm_next (active (state c)) e (fsm c) = fsm c")
  case True
  then show ?thesis using assms by (auto simp: performStateTransition_def Let_def)
next
  case False
  then obtain c' where "stateEntered alg (fsm_next (active (state c)) e (fsm c)) (fsm c) e
      (c\<lparr>fsm := fsm_next (active (state c)) e (fsm c)\<rparr>) = Inr c'" "timers_wf c'" "opened c'"
      "fsm c' = fsm_next (active (state c)) e (fsm c)" "ok (conn.more c')" "same_socket c c'"
    using stateEntered_timers [OF assms(1,2,3,5) refl, of "active (state c)" e] by auto
  then show ?thesis using False assms(4) by (auto simp: performStateTransition_def Let_def)
qed

lemma fsm_steps_bound: "(fsm_step ^^ n) s s' \<Longrightarrow> \<not> connecting s \<Longrightarrow> \<not> connecting s' \<and> progress s + n \<le> progress s'"
proof (induction n arbitrary: s')
  case 0
  then show ?case by simp
next
  case (Suc n)
  then obtain t where t: "(fsm_step ^^ n) s t" "fsm_step t s'" by auto
  with Suc have "\<not> connecting t" "progress s + n \<le> progress t" by simp_all
  then show ?case using fsm_step_progress [OF t(2)] fsm_step_connected [OF t(2)] by (auto simp: connecting_def)
qed

lemma progress_le: "progress s \<le> 8"
  by (cases s) simp_all

section \<open>Properties\<close>

text \<open>
  C33. The closing handshake is sound: however events arrive, a connection is in FIN_WAIT_1,
  FIN_WAIT_2, CLOSING, LAST_ACK or TIME_WAIT only after a local CLOSE, in CLOSE_WAIT, CLOSING, LAST_ACK
  or TIME_WAIT only after the peer's FIN, and in FIN_WAIT_2 or TIME_WAIT only after an acknowledgment.
\<close>

theorem closing_handshake_sound: "handshake_ok es (fsm_run es TCP_S_INIT)"
proof (induction es rule: rev_induct)
  case Nil
  then show ?case by (simp add: handshake_ok_def)
next
  case (snoc x es)
  then show ?case by (cases x) (simp add: handshake_step)
qed

text \<open>
  C34. There is no way back: once connected, a connection never returns to a setup state, and it
  changes its state at most four times after entering ESTABLISHED.
\<close>

theorem connected_changes_bounded:
  assumes "(fsm_step ^^ n) s s'" and "\<not> connecting s"
  shows "\<not> connecting s' \<and> n \<le> 8 - progress s \<and> (s = TCP_S_ESTABLISHED \<longrightarrow> n \<le> 4)"
  using fsm_steps_bound [OF assms] progress_le [of s'] by auto

theorem connected_changes_bounded_witness:
  "(fsm_step ^^ 4) TCP_S_ESTABLISHED TCP_S_CLOSED \<and> (4::nat) \<le> 8 - progress TCP_S_ESTABLISHED"
proof -
  have s: "fsm_step TCP_S_ESTABLISHED TCP_S_FIN_WAIT_1" "fsm_step TCP_S_FIN_WAIT_1 TCP_S_CLOSING"
    "fsm_step TCP_S_CLOSING TCP_S_TIME_WAIT" "fsm_step TCP_S_TIME_WAIT TCP_S_CLOSED"
    using fsm_step.intros [of True TCP_E_CLOSE TCP_S_ESTABLISHED] fsm_step.intros [of True TCP_E_RCV_FIN TCP_S_FIN_WAIT_1]
      fsm_step.intros [of True TCP_E_RCV_ACK TCP_S_CLOSING] fsm_step.intros [of True TCP_E_TIMEOUT_2MSL TCP_S_TIME_WAIT]
    by (simp_all add: fsm_defs)
  then have "(fsm_step ^^ 4) TCP_S_ESTABLISHED TCP_S_CLOSED"
    by (auto simp: numeral_eq_Suc relcompp_apply)
  then show ?thesis using connected_changes_bounded [of 4 TCP_S_ESTABLISHED TCP_S_CLOSED]
    by (simp add: connecting_def)
qed

text \<open>
  A DESTROY command on a connection that was never opened goes through a null pointer: the table
  allows INIT to CLOSED, but entering CLOSED calls \<open>tcpAlgorithm->connectionClosed()\<close>, and the algorithm is
  created by the OPEN commands only. (\<open>Tcp::handleUpperCommand\<close> makes such a connection for every
  command with an unknown socket id.)
\<close>

theorem destroy_before_open_fails:
  "performStateTransition alg TCP_E_DESTROY (initConnection params now sock junk atBack atFront) =
     Inl NullPointer"
proof -
  have "fsm_next a TCP_E_DESTROY TCP_S_INIT = TCP_S_CLOSED" for a by (simp add: fsm_defs)
  then show ?thesis
    by (simp add: performStateTransition_def initConnection_def stateEntered_def enterClosed_def Let_def
        sendIndicationToApp_def sendToApp_def cancelSetupTimers_def)
qed

end
