(* ===== verification/TcpSack.thy ===== *)
theory TcpSack
  imports TcpFsm
begin

text \<open>
  The selective acknowledgment functions of a connection (\<open>TcpConnectionSackUtil.cc\<close>, except the two
  that send): received SACK options, the loss and pipe estimates of RFC 3517 over the retransmission
  queue, the choice of the next segment, and the SACK option of outgoing segments.
\<close>

section \<open>The sender: SACK options received\<close>

definition sack_received :: "u32 \<Rightarrow> u32 \<Rightarrow> sack \<Rightarrow> rexmit_queue \<Rightarrow> err + rexmit_queue" where
  "sack_received ack una tmp q =
     (if seqGreater (sack_end tmp) ack \<and> seqGreater (sack_end tmp) una
      then setSackedBit (sack_start tmp) (sack_end tmp) q else Inr q)"

text \<open>The cases of RFC 2883 for a duplicate SACK only print.\<close>

definition processSACKOption :: "tcp_header \<Rightarrow> u16 \<Rightarrow> sack list \<Rightarrow> ('d, 'z) conn_scheme \<Rightarrow>
    err + (bool \<times> ('d, 'z) conn_scheme)" where
  "processSACKOption hdr len sacks c =
     (if len mod 8 \<noteq> 2 then Inr (False, c)
      else let n = length sacks
      in if \<not> int (unat len) = 2 + int n * 8 then Inl AssertFailed
      else if \<not> sack_enabled (state c) then Inr (False, c)
      else if fsm c \<notin> {TCP_S_SYN_RCVD, TCP_S_ESTABLISHED, TCP_S_FIN_WAIT_1, TCP_S_FIN_WAIT_2}
      then Inr (False, c)
      else if n > 0 then
        ebind (efold (sack_received (ackNo hdr) (snd_una (state c))) sacks (rexmitQ c)) (\<lambda>q.
          let s = state c;
              s = s\<lparr>rcv_sacks := rcv_sacks s + of_nat n\<rparr>;
              s = s\<lparr>sackedBytes_old := sackedBytes s\<rparr>;
              s = s\<lparr>sackedBytes := getTotalAmountOfSackedBytes q\<rparr>
          in Inr (True, c\<lparr>rexmitQ := q, state := s\<rparr>))
      else Inr (True, c))"

section \<open>The sender: what is lost and what is in the network\<close>

definition isLost :: "u32 \<Rightarrow> tcb \<Rightarrow> rexmit_queue \<Rightarrow> err + bool" where
  "isLost seqNum s q =
     ebind (assert_that (sack_enabled s)) (\<lambda>_.
     ebind (assert_that (seqGE seqNum (snd_una s))) (\<lambda>_.
     ebind (getNumOfDiscontiguousSacks seqNum q) (\<lambda>sacks.
       if dupthresh s \<le> sacks then Inr True
       else ebind (getAmountOfSackedBytes seqNum q) (\<lambda>bytes.
         Inr (dupthresh s * snd_mss s \<le> bytes)))))"

text \<open>The traversal of \<open>setPipe\<close> from \<open>s1\<close> on; the estimate so far is \<open>acc\<close>.\<close>

lemma checkSackBlock_pos: "checkSackBlock s1 q = Inr (len, b) \<Longrightarrow> seqLess s1 (s1 + len)"
  by (auto simp: checkSackBlock_def covers_def split: if_splits list.splits)

lemma step_decreases:
  assumes "seqLess s1 (s1 + len)" and "seqLess s1 m" and "seqLess (s1 + len) m"
  shows "sdist (s1 + len) m < sdist s1 m"
proof -
  have "sdist s1 (s1 + len) \<noteq> 0" using assms(1) by (auto simp: seqLess_sdist)
  moreover have "sdist s1 (s1 + len) < half" "sdist s1 m < half" "sdist (s1 + len) m < half"
    using assms by (auto simp: seqLess_sdist)
  ultimately show ?thesis using sdist_add_mono [of s1 "s1 + len" m] by simp
qed

lemma ebind_cong [fundef_cong]:
  assumes "r = r'" and "\<And>x. r' = Inr x \<Longrightarrow> f x = g x"
  shows "ebind r f = ebind r' g"
  using assms by (cases r') (simp_all add: ebind_def)

function pipe_from :: "tcb \<Rightarrow> rexmit_queue \<Rightarrow> u32 \<Rightarrow> u32 \<Rightarrow> err + u32" where
  "pipe_from s q s1 acc =
     (if \<not> seqLess s1 (snd_max s) then Inr acc
      else ebind (checkSackBlock s1 q) (\<lambda>(len, isSacked, isRexmitted).
        if isSacked then pipe_from s q (s1 + len) acc
        else ebind (isLost s1 s q) (\<lambda>lost.
          pipe_from s q (s1 + len)
            (acc + (if lost then 0 else len) + (if seqLess s1 (highRxt s) then len else 0)))))"
  by pat_completeness auto

termination
  apply (relation "measure (\<lambda>(s, q, s1, acc). if seqLess s1 (snd_max s) then Suc (sdist s1 (snd_max s)) else 0)")
  apply (auto dest!: checkSackBlock_pos intro: step_decreases)
  done

declare pipe_from.simps [simp del]

definition setPipe :: "('d, 'z) conn_scheme \<Rightarrow> err + ('d, 'z) conn_scheme" where
  "setPipe c =
     ebind (assert_that (sack_enabled (state c))) (\<lambda>_.
       let s = (state c)\<lparr>highRxt := getHighestRexmittedSeqNum (rexmitQ c)\<rparr>
       in ebind (pipe_from s (rexmitQ c) (snd_una s) 0) (\<lambda>p. Inr (c\<lparr>state := s\<lparr>pipe := p\<rparr>\<rparr>)))"

section \<open>The sender: the next segment\<close>

text \<open>
  The loops of rules (1) and (3): the first block from \<open>s2\<close> on that is not SACKed, below \<open>snd_max\<close> and
  below the highest SACKed number.
\<close>

function first_unsacked :: "u32 \<Rightarrow> u32 \<Rightarrow> rexmit_queue \<Rightarrow> u32 \<Rightarrow> err + u32 option" where
  "first_unsacked mx highestSacked q s2 =
     (if \<not> (seqLess s2 mx \<and> seqLess s2 highestSacked) then Inr None
      else ebind (checkSackBlock s2 q) (\<lambda>(shift, isSacked, isRexmitted).
        if isSacked then first_unsacked mx highestSacked q (s2 + shift) else Inr (Some s2)))"
  by pat_completeness auto

termination
  apply (relation "measure (\<lambda>(mx, hs, q, s2). if seqLess s2 mx then Suc (sdist s2 mx) else 0)")
  apply (auto dest!: checkSackBlock_pos intro: step_decreases)
  done

declare first_unsacked.simps [simp del]

definition nextSeg :: "('d, 'z) conn_scheme \<Rightarrow> err + (u32 option \<times> ('d, 'z) conn_scheme)" where
  "nextSeg c =
     ebind (assert_that (sack_enabled (state c))) (\<lambda>_.
       let s = (state c)\<lparr>highRxt := getHighestRexmittedSeqNum (rexmitQ c)\<rparr>;
           c = c\<lparr>state := s\<rparr>;
           highestSackedSeqNum = getHighestSackedSeqNum (rexmitQ c)
       in ebind (first_unsacked (snd_max s) highestSackedSeqNum (rexmitQ c) (highRxt s)) (\<lambda>s2.
          ebind (case s2 of None \<Rightarrow> Inr False | Some x \<Rightarrow> isLost x s (rexmitQ c)) (\<lambda>lost.
            if lost then Inr (s2, c)
            else
              let buffered = getBytesAvailable (snd_max s) (sendQueue c);
                  effectiveWin = snd_wnd s - pipe s
              in if buffered > 0 \<and> effectiveWin \<ge> snd_mss s then Inr (Some (snd_max s), c)
                 else ebind (first_unsacked (snd_max s) highestSackedSeqNum (rexmitQ c) (highRxt s)) (\<lambda>s3.
                   Inr (s3, c)))))"

section \<open>The receiver: the SACK option\<close>

text \<open>Old blocks (below \<open>rcv_nxt\<close>) go first; then the new block comes to the front, and blocks it contains are dropped.\<close>

fun prune_sacks :: "u32 \<Rightarrow> sack list \<Rightarrow> err + sack list" where
  "prune_sacks nxt [] = Inr []"
| "prune_sacks nxt (x # xs) =
     (if seqLE (sack_end x) nxt \<or> sack_empty x then prune_sacks nxt xs
      else ebind (assert_that (seqGE (sack_start x) nxt)) (\<lambda>_.
           ebind (prune_sacks nxt xs) (\<lambda>ys. Inr (x # ys))))"

fun drop_contained :: "sack list \<Rightarrow> err + sack list" where
  "drop_contained [] = Inr []"
| "drop_contained (x # xs) =
     ebind (assert_that (\<not> sack_empty x)) (\<lambda>_.
     ebind (drop_contained (filter (\<lambda>y. \<not> sack_contains x y) xs)) (\<lambda>ys. Inr (x # ys)))"

definition reset_sack_flags :: "tcb \<Rightarrow> tcb" where
  "reset_sack_flags s = s\<lparr>snd_sack := False, snd_dsack := False, start_seqno := 0, end_seqno := 0\<rparr>"

text \<open>The new block goes to the front; a duplicate block does not take part in the removal.\<close>

definition push_sack :: "'d receive_queue \<Rightarrow> tcb \<Rightarrow> err + (bool \<times> sack list)" where
  "push_sack rq s =
     (let sq = start_seqno s; en = end_seqno s
      in if sq = en then Inr (False, sacks_array s)
         else if snd_dsack s then
           let en = (if seqLess sq (rcv_nxt s) \<and> seqLess (rcv_nxt s) en then rcv_nxt s else en)
           in ebind (drop_contained (sacks_array s)) (\<lambda>xs. Inr (True, setSegment sq en # xs))
         else ebind (drop_contained (setSegment (getLE sq rq) (getRE en rq) # sacks_array s)) (\<lambda>xs.
           Inr (False, xs)))"

definition padding :: "nat \<Rightarrow> nat" where
  "padding used = (6 - used mod 4) mod 4"

definition sack_blocks :: "nat \<Rightarrow> sack list \<Rightarrow> nat" where
  "sack_blocks used sacks = min (length sacks) ((40 - used - 2) div 8)"

definition sack_option :: "sack list \<Rightarrow> tcp_option" where
  "sack_option items = OptSack (of_nat (8 * length items + 2)) items"

definition addSacks :: "tcp_header \<Rightarrow> ('d, 'z) conn_scheme \<Rightarrow> err + (tcp_header \<times> ('d, 'z) conn_scheme)" where
  "addSacks hdr c =
     (let used = nat (getHeaderOptionArrayLength hdr)
      in ebind (prune_sacks (rcv_nxt (state c)) (sacks_array (state c))) (\<lambda>pruned.
         let c = c\<lparr>state := (state c)\<lparr>sacks_array := pruned\<rparr>\<rparr>
         in if int used > TCP_OPTIONS_MAX_SIZE - TCP_OPTION_SACK_MIN_SIZE
            then Inr (hdr, c\<lparr>state := reset_sack_flags (state c)\<rparr>)
            else ebind (push_sack (receiveQueue c) (state c)) (\<lambda>(dsack_inserted, sacks).
              let n = sack_blocks used sacks;
                  rest = (if dsack_inserted then tl sacks else sacks);
                  s = reset_sack_flags ((state c)\<lparr>sacks_array := rest\<rparr>)
              in if n = 0 then Inr (hdr, c\<lparr>state := s\<rparr>)
                 else
                   let hdr = (insertHeaderOption (OptNop 1) ^^ padding used) hdr;
                       used = used + padding used;
                       items = take n sacks
                   in ebind (assert_that (used mod 4 = 2)) (\<lambda>_.
                      ebind (assert_that (\<forall>x\<in>set items. sack_start x \<noteq> sack_end x)) (\<lambda>_.
                      ebind (assert_that (int (used + 8 * n + 2) \<le> TCP_OPTIONS_MAX_SIZE)) (\<lambda>_.
                        let hdr = insertHeaderOption (sack_option items) hdr;
                            total = TCP_MIN_HEADER_LENGTH + getHeaderOptionArrayLength hdr
                        in Inr (hdr\<lparr>headerLength := total, chunk_length := total\<rparr>,
                             c\<lparr>state := s\<lparr>snd_sacks := snd_sacks s + of_nat n\<rparr>\<rparr>)))))))"

section \<open>The estimates by octets\<close>

text \<open>
  The scoreboard as a list of octets from \<open>q_begin\<close> on, each with its SACKed and retransmitted bit: what
  RFC 3517 says of the octet at offset \<open>i\<close>.
\<close>

definition lost_at :: "tcb \<Rightarrow> (bool \<times> bool) list \<Rightarrow> nat \<Rightarrow> bool" where
  "lost_at s a i = (dupthresh s \<le> of_nat (runs False (map fst (drop i a))) \<or>
     dupthresh s * snd_mss s \<le> of_nat (sacked_bits (drop i a)))"

definition octet_pipe :: "tcb \<Rightarrow> (bool \<times> bool) list \<Rightarrow> nat \<Rightarrow> nat" where
  "octet_pipe s a i = (if fst (a ! i) then 0
     else (if lost_at s a i then 0 else 1) + (if i < upto_last snd a then 1 else 0))"

lemma isLost_bytes:
  assumes wf: "sq_wf q" and "sack_enabled s"
    and d: "sdist (q_begin q) n \<le> length (sq_bytes q)"
    and una: "sdist (q_begin q) (snd_una s) \<le> sdist (q_begin q) n"
  shows "isLost n s q = Inr (lost_at s (sq_bytes q) (sdist (q_begin q) n))"
proof -
  have "sdist (q_begin q) n < half" using d sq_wf_len [OF wf] by (simp add: sq_bytes_def)
  then have "seqGE n (snd_una s)"
    using sdist_le_sub [OF una] by (simp add: seqGE_seqLE seqLE_sdist)
  then show ?thesis
    using assms(2) getNumOfDiscontiguousSacks_bytes [OF wf d] getAmountOfSackedBytes_bytes [OF wf d]
    by (simp add: isLost_def lost_at_def)
qed

lemma lost_at_unsacked_block:
  assumes "drop d a = replicate n (False, r) @ rest" and "i < n"
  shows "lost_at s a (d + i) = lost_at s a d"
proof -
  have e: "drop (d + i) a = replicate (n - i) (False, r) @ rest"
    using assms by (metis add.commute drop_append drop_drop drop_replicate length_replicate
        less_imp_le_nat diff_is_0_eq drop0)
  have "runs False (map fst (drop (d + i) a)) = runs False (map fst (drop d a))"
    unfolding e assms(1) by (simp add: runs_replicate_same)
  moreover have "sacked_bits (drop (d + i) a) = sacked_bits (drop d a)"
    unfolding e assms(1) by simp
  ultimately show ?thesis by (simp add: lost_at_def)
qed

lemma upto_last_block:
  assumes "drop d a = replicate n (b, r) @ rest" and "d \<le> length a" and "d < upto_last snd a" and "0 < n"
  shows "d + n \<le> upto_last snd a"
proof -
  have a: "a = take d a @ replicate n (b, r) @ rest" using assms(1) by (metis append_take_drop_id)
  show ?thesis
  proof (cases "\<exists>y\<in>set rest. snd y")
    case True
    then show ?thesis using assms(2) by (subst a) (auto simp: upto_last_append)
  next
    case False
    have "upto_last snd (replicate n (b, r) @ rest) = upto_last snd (replicate n (b, r))"
      using False by (simp add: upto_last_append)
    show ?thesis
    proof (cases r)
      case True
      then show ?thesis
        using False assms(2,4) upto_last_all [of "replicate n (b, r)" snd]
        by (subst a) (simp add: upto_last_append)
    next
      case notr: False
      then have "upto_last snd a = upto_last snd (take d a)"
        using False by (subst a) (auto simp: upto_last_append)
      then show ?thesis using upto_last_le [of snd "take d a"] assms(2,3) by simp
    qed
  qed
qed

lemma block_sum:
  assumes a: "drop d a = replicate n (b, r) @ rest" and n: "0 < n" and d: "d + n \<le> length a"
  shows "(\<Sum>i = d..<d + n. octet_pipe s a i) =
    (if b then 0 else n * (if lost_at s a d then 0 else 1) + n * (if d < upto_last snd a then 1 else 0))"
proof -
  have bit: "fst (a ! (d + i)) = b" if "i < n" for i
  proof -
    have "a ! (d + i) = (replicate n (b, r) @ rest) ! i" using d that by (simp flip: a)
    then show ?thesis using that by (simp add: nth_append)
  qed
  have "octet_pipe s a (d + i) = (if b then 0 else (if lost_at s a d then 0 else 1) +
      (if d < upto_last snd a then 1 else 0))" if "i < n" for i
    using bit [OF that] lost_at_unsacked_block [of d a n r rest i s] a that n d
      upto_last_block [OF a _ _ n]
    by (auto simp: octet_pipe_def)
  then have "(\<Sum>i<n. octet_pipe s a (d + i)) = (\<Sum>i<n. (if b then 0 else (if lost_at s a d then 0 else 1) +
      (if d < upto_last snd a then 1 else 0)))"
    by simp
  moreover have "(\<Sum>i = d..<d + n. octet_pipe s a i) = (\<Sum>i<n. octet_pipe s a (d + i))"
    using sum.shift_bounds_nat_ivl [of "octet_pipe s a" 0 d n] by (simp add: atLeast0LessThan add.commute)
  ultimately show ?thesis by simp
qed

text \<open>The traversal, if \<open>snd_max\<close> is the end of the queue or (a lone FIN was sent) one above it.\<close>

lemma pipe_from_octets:
  assumes "sq_wf q" and "sack_enabled s"
    and "sdist (q_begin q) s1 \<le> length (sq_bytes q)"
    and "sdist (q_begin q) (snd_una s) \<le> sdist (q_begin q) s1"
    and "highRxt s = getHighestRexmittedSeqNum q"
    and "snd_max s = q_end q + of_nat extra" and "length (sq_bytes q) + extra < half"
  shows "pipe_from s q s1 acc = (if extra = 0
    then Inr (acc + of_nat (\<Sum>i = sdist (q_begin q) s1..<length (sq_bytes q). octet_pipe s (sq_bytes q) i))
    else Inl AssertFailed)"
  using assms
proof (induction s q s1 acc rule: pipe_from.induct)
  case (1 s q s1 acc)
  let ?a = "sq_bytes q" and ?d = "sdist (q_begin q) s1"
  note wf = "1.prems"(1) and d = "1.prems"(3)
  have dh: "?d < half" using d "1.prems"(7) by simp
  have mx: "sdist (q_begin q) (snd_max s) = length ?a + extra"
    using sdist_add_mono [of "q_begin q" "q_end q" "snd_max s"] sq_length [OF wf] "1.prems"(6,7)
      sdist_add [of extra "q_end q"]
    by simp
  have below: "seqLess s1 (snd_max s) \<longleftrightarrow> ?d < length ?a + extra"
    using seqLess_window [OF dh, of "snd_max s"] mx "1.prems"(7) by simp
  show ?case
  proof (cases "?d < length ?a")
    case False
    then have de: "?d = length ?a" using d by simp
    then have "s1 = q_end q" using sq_length [OF wf] by (intro sdist_inj [of "q_begin q"]) simp
    then have "checkSackBlock s1 q = Inl AssertFailed"
      by (simp add: checkSackBlock_def seqLess_sdist)
    then show ?thesis using below de by (subst pipe_from.simps) simp
  next
    case True
    obtain len b r rest where blk: "checkSackBlock s1 q = Inr (len, b, r)" "0 < unat len"
      "drop ?d ?a = replicate (unat len) (b, r) @ rest"
      using checkSackBlock_bytes [OF wf True] by blast
    have le: "?d + unat len \<le> length ?a"
      using arg_cong [OF blk(3), of length] True by simp
    have step: "sdist (q_begin q) (s1 + len) = ?d + unat len"
      using sdist_add_mono [of "q_begin q" s1 "s1 + len"] le "1.prems"(7) by (simp add: sdist_def [of s1])
    have sum: "(\<Sum>i = ?d..<length ?a. octet_pipe s ?a i) =
        (\<Sum>i = ?d..<?d + unat len. octet_pipe s ?a i) + (\<Sum>i = ?d + unat len..<length ?a. octet_pipe s ?a i)"
      using le by (simp add: sum.atLeastLessThan_concat)
    have lost: "isLost s1 s q = Inr (lost_at s ?a ?d)"
      using isLost_bytes [OF wf "1.prems"(2) d "1.prems"(4)] .
    have rx: "seqLess s1 (highRxt s) \<longleftrightarrow> ?d < upto_last snd ?a"
      using seqLess_window [OF dh, of "highRxt s"] "1.prems"(5,7) getHighestRexmittedSeqNum_bytes [OF wf]
        upto_last_le [of snd ?a] by simp
    have go: "seqLess s1 (snd_max s)" using below True by simp
    note IH = "1.IH" [OF _ blk(1) refl refl]
    show ?thesis
    proof (cases b)
      case True
      then show ?thesis
        using IH(1) go blk(1) step le "1.prems" sum block_sum [OF blk(3,2) le, of s]
        by (subst pipe_from.simps) simp
    next
      case False
      then show ?thesis
        using IH(2) go blk(1) step le "1.prems" sum block_sum [OF blk(3,2) le, of s] lost rx
        by (subst pipe_from.simps) (simp add: add.assoc)
    qed
  qed
qed

text \<open>\<open>isLost\<close> is antitone, as the \<open>break\<close> in \<open>nextSeg\<close> takes for granted.\<close>

lemma of_nat_mono32: "i \<le> j \<Longrightarrow> j < half \<Longrightarrow> (of_nat i :: u32) \<le> of_nat j"
  by (simp add: word_le_nat_alt unat_of_nat)

lemma runs_le_length: "runs prev bs \<le> length bs"
  by (induction bs arbitrary: prev) (simp_all add: le_SucI)

lemma lost_at_antitone:
  assumes "lost_at s a j" and "i \<le> j" and "length a < half"
  shows "lost_at s a i"
proof -
  have e: "drop j a = drop (j - i) (drop i a)" using assms(2) by simp
  have r: "runs False (map fst (drop j a)) \<le> runs False (map fst (drop i a))"
    unfolding e by (metis drop_map runs_drop_le)
  have b: "sacked_bits (drop j a) \<le> sacked_bits (drop i a)"
    unfolding e by (rule sacked_bits_drop_le)
  have l: "runs False (map fst (drop i a)) < half" "sacked_bits (drop i a) < half"
    using runs_le_length [of False "map fst (drop i a)"] length_filter_le [of fst "drop i a"] assms(3)
    by simp_all
  show ?thesis
    using assms(1) of_nat_mono32 [OF r l(1)] of_nat_mono32 [OF b l(2)]
    by (auto simp: lost_at_def)
qed

definition unsacked_from :: "(bool \<times> bool) list \<Rightarrow> nat \<Rightarrow> nat option" where
  "unsacked_from a d = find (\<lambda>i. \<not> fst (a ! i)) [d..<upto_last fst a]"

lemma find_skip: "(\<And>x. x \<in> set xs \<Longrightarrow> \<not> P x) \<Longrightarrow> find P (xs @ ys) = find P ys"
  by (induction xs) simp_all

lemma first_unsacked_octets:
  assumes "sq_wf q" and "sdist (q_begin q) s2 \<le> length (sq_bytes q)"
    and "length (sq_bytes q) \<le> sdist (q_begin q) mx" and "sdist (q_begin q) mx < half"
  shows "first_unsacked mx (getHighestSackedSeqNum q) q s2 =
    Inr (map_option (\<lambda>i. q_begin q + of_nat i) (unsacked_from (sq_bytes q) (sdist (q_begin q) s2)))"
  using assms
proof (induction mx "getHighestSackedSeqNum q" q s2 rule: first_unsacked.induct)
  case (1 mx q s2)
  let ?a = "sq_bytes q" and ?d = "sdist (q_begin q) s2"
  note wf = "1.prems"(1)
  have hs: "sdist (q_begin q) (getHighestSackedSeqNum q) = upto_last fst ?a"
    using getHighestSackedSeqNum_bytes [OF wf] .
  have ul: "upto_last fst ?a \<le> length ?a" by (rule upto_last_le)
  have dh: "?d < half" using "1.prems"(2-4) by simp
  have go: "seqLess s2 mx \<and> seqLess s2 (getHighestSackedSeqNum q) \<longleftrightarrow> ?d < upto_last fst ?a"
    using seqLess_window [OF dh, of mx] seqLess_window [OF dh, of "getHighestSackedSeqNum q"] hs ul "1.prems"
    by auto
  show ?case
  proof (cases "?d < upto_last fst ?a")
    case False
    then show ?thesis using go by (subst first_unsacked.simps) (simp add: unsacked_from_def)
  next
    case True
    then have dl: "?d < length ?a" using ul by simp
    obtain len b r rest where blk: "checkSackBlock s2 q = Inr (len, b, r)" "0 < unat len"
      "drop ?d ?a = replicate (unat len) (b, r) @ rest"
      using checkSackBlock_bytes [OF wf dl] by blast
    have le: "?d + unat len \<le> length ?a"
      using arg_cong [OF blk(3), of length] dl by simp
    have step: "sdist (q_begin q) (s2 + len) = ?d + unat len"
      using sdist_add_mono [of "q_begin q" s2 "s2 + len"] le "1.prems" by (simp add: sdist_def [of s2])
    have bit: "fst (?a ! (?d + i)) = b" if "i < unat len" for i
    proof -
      have "?a ! (?d + i) = (replicate (unat len) (b, r) @ rest) ! i"
        using dl that le by (simp flip: blk(3))
      then show ?thesis using that by (simp add: nth_append)
    qed
    show ?thesis
    proof (cases b)
      case False
      then have "unsacked_from ?a ?d = Some ?d"
        using bit [of 0] blk(2) True by (simp add: unsacked_from_def upt_rec)
      then show ?thesis using go True blk(1) False by (subst first_unsacked.simps) simp
    next
      case True
      have "unsacked_from ?a ?d = unsacked_from ?a (?d + unat len)"
      proof (cases "?d + unat len \<le> upto_last fst ?a")
        case le': True
        then have split: "[?d..<upto_last fst ?a] = [?d..<?d + unat len] @ [?d + unat len..<upto_last fst ?a]"
          by (metis le_add1 upt_add_eq_append le_add_diff_inverse)
        have "fst (?a ! i)" if "i \<in> set [?d..<?d + unat len]" for i
          using bit [of "i - ?d"] that True by auto
        then show ?thesis unfolding unsacked_from_def split by (intro find_skip) simp
      next
        case False
        have "fst (?a ! i)" if "i \<in> set [?d..<upto_last fst ?a]" for i
          using bit [of "i - ?d"] that True False by auto
        then have "unsacked_from ?a ?d = None" by (auto simp: unsacked_from_def find_None_iff)
        moreover have "unsacked_from ?a (?d + unat len) = None" using False by (simp add: unsacked_from_def)
        ultimately show ?thesis by simp
      qed
      then show ?thesis
        using "1.hyps" [OF _ blk(1) refl refl] go \<open>?d < upto_last fst ?a\<close> blk(1) step le True "1.prems"
        by (subst first_unsacked.simps) simp
    qed
  qed
qed

text \<open>Rules (1) to (4) of RFC 3517, NextSeg, over the octets; \<open>room\<close> is what rule (2) asks of the window.\<close>

definition rfc_next_seg :: "tcb \<Rightarrow> u32 \<Rightarrow> (bool \<times> bool) list \<Rightarrow> bool \<Rightarrow> u32 option" where
  "rfc_next_seg s b a room =
     (let candidates = [upto_last snd a..<upto_last fst a]
      in case find (\<lambda>i. \<not> fst (a ! i) \<and> lost_at s a i) candidates of
           Some i \<Rightarrow> Some (b + of_nat i)
         | None \<Rightarrow> if room then Some (snd_max s)
                  else map_option (\<lambda>i. b + of_nat i) (find (\<lambda>i. \<not> fst (a ! i)) candidates))"

lemma find_lost:
  assumes "length a < half"
  shows "find (\<lambda>i. \<not> fst (a ! i) \<and> lost_at s a i) [d..<e] =
    (case find (\<lambda>i. \<not> fst (a ! i)) [d..<e] of
       Some i \<Rightarrow> if lost_at s a i then Some i else None | None \<Rightarrow> None)"
proof (induction "e - d" arbitrary: d)
  case 0
  then show ?case by simp
next
  case (Suc n)
  then have u: "[d..<e] = d # [Suc d..<e]" by (simp add: upt_conv_Cons)
  have "find (\<lambda>i. \<not> fst (a ! i) \<and> lost_at s a i) [Suc d..<e] = None" if nl: "\<not> lost_at s a d"
  proof -
    have "\<not> lost_at s a j" if "d \<le> j" for j using lost_at_antitone [OF _ that assms] nl by blast
    then show ?thesis by (auto simp: find_None_iff)
  qed
  then show ?case using Suc.hyps(1) [of "Suc d"] Suc.hyps(2) by (auto simp: u)
qed

lemma tcb_pipe_frame [simp]:
  "lost_at (s\<lparr>highRxt := x\<rparr>) a i = lost_at s a i" "octet_pipe (s\<lparr>highRxt := x\<rparr>) a i = octet_pipe s a i"
  by (simp_all add: lost_at_def octet_pipe_def)

lemma nextSeg_octets:
  assumes wf: "sq_wf (rexmitQ c)" and "sack_enabled (state c)"
    and mx: "length (sq_bytes (rexmitQ c)) \<le> sdist (q_begin (rexmitQ c)) (snd_max (state c))"
      "sdist (q_begin (rexmitQ c)) (snd_max (state c)) < half"
    and una: "snd_una (state c) = q_begin (rexmitQ c)"
  shows "nextSeg c = Inr (rfc_next_seg (state c) (q_begin (rexmitQ c)) (sq_bytes (rexmitQ c))
      (getBytesAvailable (snd_max (state c)) (sendQueue c) > 0 \<and>
       snd_wnd (state c) - pipe (state c) \<ge> snd_mss (state c)),
    c\<lparr>state := (state c)\<lparr>highRxt := getHighestRexmittedSeqNum (rexmitQ c)\<rparr>\<rparr>)"
proof -
  let ?q = "rexmitQ c" and ?a = "sq_bytes (rexmitQ c)" and ?s = "state c"
  have hr: "sdist (q_begin ?q) (getHighestRexmittedSeqNum ?q) = upto_last snd ?a"
    using getHighestRexmittedSeqNum_bytes [OF wf] .
  have len: "length ?a < half" using mx by simp
  have fu: "first_unsacked (snd_max ?s) (getHighestSackedSeqNum ?q) ?q (getHighestRexmittedSeqNum ?q) =
      Inr (map_option (\<lambda>i. q_begin ?q + of_nat i) (unsacked_from ?a (upto_last snd ?a)))"
    using first_unsacked_octets [OF wf _ mx, of "getHighestRexmittedSeqNum ?q"] hr upto_last_le [of snd ?a]
    by simp
  show ?thesis
  proof (cases "unsacked_from ?a (upto_last snd ?a)")
    case None
    then show ?thesis
      using fu assms(2) find_lost [OF len, of ?s]
      by (simp add: nextSeg_def Let_def rfc_next_seg_def unsacked_from_def)
  next
    case (Some i)
    have "i \<in> set [upto_last snd ?a..<upto_last fst ?a]"
      using Some unfolding unsacked_from_def by (metis (no_types, lifting) find_Some_iff nth_mem)
    then have il: "i < length ?a" using upto_last_le [of fst ?a] by simp
    then have di: "sdist (q_begin ?q) (q_begin ?q + of_nat i) = i" using len by (intro sdist_add) simp
    have "isLost (q_begin ?q + of_nat i) (?s\<lparr>highRxt := x\<rparr>) ?q = Inr (lost_at ?s ?a i)" for x
      using isLost_bytes [OF wf, of "?s\<lparr>highRxt := x\<rparr>" "q_begin ?q + of_nat i"] di il assms(2) una
      by simp
    then show ?thesis
      using Some fu assms(2) find_lost [OF len, of ?s]
      by (simp add: nextSeg_def Let_def rfc_next_seg_def unsacked_from_def)
  qed
qed

section \<open>The SACK option is never too long\<close>

lemma padding_props: "(u + padding u) mod 4 = 2" "padding u \<le> 3"
proof -
  have "u mod 4 = 0 \<or> u mod 4 = 1 \<or> u mod 4 = 2 \<or> u mod 4 = 3" by presburger
  then show "(u + padding u) mod 4 = 2" by (auto simp: padding_def mod_add_left_eq [symmetric, of u])
  show "padding u \<le> 3" using mod_less_divisor [of 4 "6 - u mod 4"] by (simp add: padding_def)
qed

lemma sack_option_fits:
  assumes "u \<le> 30"
  defines "m \<equiv> (40 - u - 2) div 8"
  shows "1 \<le> m" "m \<le> 4" "n \<le> m \<Longrightarrow> u + padding u + 8 * n + 2 \<le> 40"
proof -
  show "1 \<le> m" "m \<le> 4" using assms(1) by (simp_all add: m_def)
  assume n: "n \<le> m"
  have "8 * m \<le> 38 - u" by (simp add: m_def)
  then have le: "u + padding u + 8 * n + 2 \<le> 43" using n padding_props(2) [of u] assms(1) by linarith
  obtain k where "u + padding u = 4 * k + 2"
    using padding_props(1) [of u] by (metis mult_div_mod_eq)
  with le have "4 * k + 2 + 8 * n + 2 \<le> 43" by simp
  then have "4 * k + 2 + 8 * n + 2 \<le> 40" by presburger
  then show "u + padding u + 8 * n + 2 \<le> 40" using \<open>u + padding u = 4 * k + 2\<close> by simp
qed

definition options_length :: "tcp_option list \<Rightarrow> nat" where
  "options_length os = (\<Sum>opt\<leftarrow>os. unat (opt_length opt))"

lemma option_array_length:
  "options_length (headerOption h) < 2 ^ 16 \<Longrightarrow> getHeaderOptionArrayLength h = int (options_length (headerOption h))"
proof -
  have gen: "options_length os + unat acc < 2 ^ 16 \<Longrightarrow>
      unat (fold (\<lambda>opt used. used + opt_length opt) os acc) = options_length os + unat acc" for os acc
  proof (induction os arbitrary: acc)
    case Nil
    then show ?case by (simp add: options_length_def)
  next
    case (Cons x os)
    have "unat (acc + opt_length x) = unat acc + unat (opt_length x)"
      using Cons.prems by (intro unat_add_lem [THEN iffD1]) (simp add: options_length_def)
    then show ?case using Cons.IH [of "acc + opt_length x"] Cons.prems by (simp add: options_length_def)
  qed
  show "options_length (headerOption h) < 2 ^ 16 \<Longrightarrow> ?thesis"
    using gen [of "headerOption h" 0] by (simp add: getHeaderOptionArrayLength_def uint_nat)
qed

lemma pad_header:
  "headerOption ((insertHeaderOption (OptNop 1) ^^ k) h) = headerOption h @ replicate k (OptNop 1)"
  by (induction k) (simp_all add: insertHeaderOption_def replicate_append_same)

lemma options_length_simps [simp]:
  "options_length [] = 0"
  "options_length (x # xs) = unat (opt_length x) + options_length xs"
  "options_length (xs @ ys) = options_length xs + options_length ys"
  "options_length (replicate k (OptNop 1)) = k"
  by (simp_all add: options_length_def sum_list_replicate)

lemma unat_option_length: "n \<le> 4 \<Longrightarrow> unat (of_nat (8 * n + 2) :: u16) = 8 * n + 2"
proof -
  assume "n \<le> 4"
  then have "n = 0 \<or> n = 1 \<or> n = 2 \<or> n = 3 \<or> n = 4" by presburger
  then show ?thesis by auto
qed

lemma addSacks_result:
  assumes "options_length (headerOption h) \<le> 30"
    and "prune_sacks (rcv_nxt (state c)) (sacks_array (state c)) = Inr pruned"
    and "push_sack (receiveQueue c) ((state c)\<lparr>sacks_array := pruned\<rparr>) = Inr (d, sacks)"
    and "sacks \<noteq> []" and "\<forall>x\<in>set sacks. sack_start x \<noteq> sack_end x"
  shows "\<exists>h' c' n. addSacks h c = Inr (h', c') \<and> 1 \<le> n \<and> n \<le> 4 \<and> n \<le> length sacks \<and>
    headerOption h' = headerOption h @ replicate (padding (options_length (headerOption h))) (OptNop 1) @
      [sack_option (take n sacks)] \<and>
    headerLength h' = 20 + int (options_length (headerOption h')) \<and> chunk_length h' = headerLength h' \<and>
    options_length (headerOption h') \<le> 40 \<and> options_length (headerOption h') mod 4 = 0 \<and>
    state c' = reset_sack_flags ((state c)\<lparr>sacks_array := (if d then tl sacks else sacks),
      snd_sacks := snd_sacks (state c) + of_nat n\<rparr>)"
proof -
  let ?u = "options_length (headerOption h)"
  define n where "n = sack_blocks ?u sacks"
  have u: "getHeaderOptionArrayLength h = int ?u" using option_array_length [of h] assms(1) by simp
  have n: "1 \<le> n" "n \<le> 4" "n \<le> length sacks"
    using sack_option_fits(1,2) [OF assms(1)] assms(4) by (auto simp: n_def sack_blocks_def Suc_le_eq)
  have fit: "?u + padding ?u + 8 * n + 2 \<le> 40" using sack_option_fits(3) [OF assms(1), of n] by (simp add: n_def sack_blocks_def)
  define opt where "opt = sack_option (take n sacks)"
  define os where "os = headerOption h @ replicate (padding ?u) (OptNop 1) @ [opt]"
  have os: "options_length os = ?u + padding ?u + 8 * n + 2"
    using unat_option_length [OF n(2)] n(3) by (simp add: os_def opt_def sack_option_def min_absorb2)
  define hp where "hp = (insertHeaderOption (OptNop 1) ^^ padding ?u) h"
  have ho: "headerOption (insertHeaderOption opt hp) = os"
    using pad_header [of "padding ?u" h] by (simp add: insertHeaderOption_def os_def hp_def)
  have al: "getHeaderOptionArrayLength (insertHeaderOption opt hp)
      = int (options_length os)"
    using option_array_length [of "insertHeaderOption opt hp"] fit os
    by (simp add: ho)
  have mod4: "options_length os mod 4 = 0"
    using padding_props(1) [of ?u] unfolding os by presburger
  have items: "\<forall>x\<in>set (take n sacks). sack_start x \<noteq> sack_end x" using assms(5) set_take_subset by fastforce
  have "addSacks h c = Inr ((insertHeaderOption opt hp)
      \<lparr>headerLength := 20 + int (options_length os), chunk_length := 20 + int (options_length os)\<rparr>,
      c\<lparr>state := reset_sack_flags ((state c)\<lparr>sacks_array := (if d then tl sacks else sacks),
      snd_sacks := snd_sacks (state c) + of_nat n\<rparr>)\<rparr>)"
    using assms n fit padding_props(1) [of ?u] items
    by (simp add: addSacks_def Let_def u TCP_OPTIONS_MAX_SIZE_def TCP_OPTION_SACK_MIN_SIZE_def
        TCP_MIN_HEADER_LENGTH_def al n_def [symmetric] hp_def [symmetric] opt_def [symmetric] reset_sack_flags_def)
  then show ?thesis
    using n fit ho os mod4 by (intro exI conjI) (assumption | simp add: os_def opt_def)+
qed

section \<open>Properties\<close>

text \<open>
  C35. \<open>setPipe\<close> computes the pipe of RFC 3517: although it walks the retransmission queue block by
  block and asks \<open>isLost\<close> once for each, the result is the sum over every octet between HighACK and
  HighData that is not SACKed, one if the octet is not lost and one more if it lies below HighRxt.
\<close>

theorem setPipe_is_rfc3517_pipe:
  assumes "sq_wf (rexmitQ c)" and "sack_enabled (state c)"
    and "sdist (q_begin (rexmitQ c)) (snd_una (state c)) \<le> length (sq_bytes (rexmitQ c))"
    and "snd_max (state c) = q_end (rexmitQ c)"
  shows "setPipe c = Inr (c\<lparr>state := (state c)
    \<lparr>highRxt := getHighestRexmittedSeqNum (rexmitQ c),
     pipe := of_nat (\<Sum>i = sdist (q_begin (rexmitQ c)) (snd_una (state c))..<length (sq_bytes (rexmitQ c)).
       octet_pipe (state c) (sq_bytes (rexmitQ c)) i)\<rparr>\<rparr>)"
proof -
  let ?s = "(state c)\<lparr>highRxt := getHighestRexmittedSeqNum (rexmitQ c)\<rparr>"
  have "length (sq_bytes (rexmitQ c)) + 0 < half" using sq_wf_len [OF assms(1)] by (simp add: sq_bytes_def)
  then show ?thesis
    using pipe_from_octets [OF assms(1), of ?s "snd_una (state c)" 0 0] assms
    by (simp add: setPipe_def Let_def)
qed

text \<open>
  C36. \<open>setPipe\<close> fails once a FIN was sent on its own: \<open>sendFin\<close> advances \<open>snd_max\<close> over the FIN but
  does not enter it into the retransmission queue, so the walk from \<open>snd_una\<close> to \<open>snd_max\<close> looks up
  the number of the FIN, which trips the assertion of \<open>checkSackBlock\<close>. Any loss of the data before the
  FIN brings a connection with SACK here.
\<close>

theorem setPipe_fails_after_lone_fin:
  assumes "sq_wf (rexmitQ c)" and "sack_enabled (state c)"
    and "sdist (q_begin (rexmitQ c)) (snd_una (state c)) \<le> length (sq_bytes (rexmitQ c))"
    and "snd_max (state c) = q_end (rexmitQ c) + 1" and "length (sq_bytes (rexmitQ c)) + 1 < half"
  shows "setPipe c = Inl AssertFailed"
proof -
  let ?s = "(state c)\<lparr>highRxt := getHighestRexmittedSeqNum (rexmitQ c)\<rparr>"
  show ?thesis
    using pipe_from_octets [OF assms(1), of ?s "snd_una (state c)" 1 0] assms
    by (simp add: setPipe_def Let_def)
qed

text \<open>
  C37. \<open>nextSeg\<close> implements rules (1) to (4) of RFC 3517 octet by octet: the first octet above HighRxt
  and below the highest SACKed one that is not SACKed and lost; else new data if some is available and
  the window allows it; else the first octet in that range that is not SACKed; else nothing. Giving up
  on rule (1) at the first block that is not lost loses no candidate. (The window test is the
  intended one as long as \<open>pipe\<close> does not exceed the window.)
\<close>

theorem nextSeg_is_rfc3517:
  assumes "sq_wf (rexmitQ c)" and "sack_enabled (state c)"
    and "length (sq_bytes (rexmitQ c)) \<le> sdist (q_begin (rexmitQ c)) (snd_max (state c))"
    and "sdist (q_begin (rexmitQ c)) (snd_max (state c)) < half"
    and "snd_una (state c) = q_begin (rexmitQ c)"
    and "unat (pipe (state c)) \<le> unat (snd_wnd (state c))"
  shows "\<exists>c'. nextSeg c = Inr (rfc_next_seg (state c) (q_begin (rexmitQ c)) (sq_bytes (rexmitQ c))
      (getBytesAvailable (snd_max (state c)) (sendQueue c) > 0 \<and>
       unat (pipe (state c)) + unat (snd_mss (state c)) \<le> unat (snd_wnd (state c))), c')"
proof -
  have "snd_mss (state c) \<le> snd_wnd (state c) - pipe (state c) \<longleftrightarrow>
      unat (pipe (state c)) + unat (snd_mss (state c)) \<le> unat (snd_wnd (state c))"
    using assms(6) by (auto simp: word_le_nat_alt unat_sub)
  then show ?thesis using nextSeg_octets [OF assms(1-5)] by simp
qed

text \<open>
  Rule (2) overshoots the receiver's window: \<open>maxWindow - pipe\<close> is computed in \<open>uint32_t\<close>, so when
  \<open>pipe\<close> exceeds the advertised window by up to \<open>2 ^ 32 - snd_mss\<close> it wraps around and \<open>nextSeg\<close> offers new
  data beyond the window instead of refusing it.
\<close>

theorem nextSeg_ignores_closed_window:
  assumes "sq_wf (rexmitQ c)" and "sack_enabled (state c)"
    and "snd_max (state c) = q_end (rexmitQ c)" and "snd_una (state c) = q_begin (rexmitQ c)"
    and "upto_last fst (sq_bytes (rexmitQ c)) \<le> upto_last snd (sq_bytes (rexmitQ c))"
    and "getBytesAvailable (snd_max (state c)) (sendQueue c) > 0"
    and "unat (snd_wnd (state c)) < unat (pipe (state c))"
    and "unat (pipe (state c)) + unat (snd_mss (state c)) \<le> 2 ^ 32 + unat (snd_wnd (state c))"
  shows "\<exists>c'. nextSeg c = Inr (Some (snd_max (state c)), c')"
proof -
  have len: "length (sq_bytes (rexmitQ c)) < half" using sq_wf_len [OF assms(1)] by (simp add: sq_bytes_def)
  have mx: "sdist (q_begin (rexmitQ c)) (snd_max (state c)) = length (sq_bytes (rexmitQ c))"
    using sq_length [OF assms(1)] assms(3) by simp
  have "unat (snd_wnd (state c) - pipe (state c)) = 2 ^ 32 + unat (snd_wnd (state c)) - unat (pipe (state c))"
    using assms(7) unat_sub_if' [of "snd_wnd (state c)" "pipe (state c)"] by simp
  then have "snd_mss (state c) \<le> snd_wnd (state c) - pipe (state c)"
    using assms(8) by (simp add: word_le_nat_alt)
  then show ?thesis
    using nextSeg_octets [OF assms(1,2) _ _ assms(4)] mx len assms(5,6)
    by (simp add: rfc_next_seg_def Let_def)
qed

section \<open>Witnesses\<close>

text \<open>Five octets from \<open>0xfffffffe\<close>: three retransmitted, two SACKed.\<close>

definition sack_conn :: "u32 \<Rightarrow> nat conn" where
  "sack_conn mx = example_conn\<lparr>rexmitQ := example_queue, fsm := TCP_S_ESTABLISHED,
     sendQueue := \<lparr>sq_start = 0xfffffffe, sq_stop = 8, dataBuffer = cq_new\<rparr>,
     state := (tcb_new 3)\<lparr>sack_enabled := True, snd_mss := 2, snd_una := 0xfffffffe, snd_max := mx\<rparr>\<rparr>"

lemma example_queue_bytes: "sq_bytes example_queue =
    [(False, True), (False, True), (False, True), (True, False), (True, False)]"
  by (simp add: example_queue_def sq_bytes_def rbits_def rlen_def sdist_def replicate_numeral_unfold)

lemma sack_conn_simps [simp]:
  "rexmitQ (sack_conn mx) = example_queue" "sack_enabled (state (sack_conn mx))"
  "snd_una (state (sack_conn mx)) = 0xfffffffe" "snd_max (state (sack_conn mx)) = mx"
  "snd_mss (state (sack_conn mx)) = 2" "dupthresh (state (sack_conn mx)) = 3"
  "pipe (state (sack_conn mx)) = 0" "snd_wnd (state (sack_conn mx)) = 0"
  "getBytesAvailable 3 (sendQueue (sack_conn mx)) = 5"
  "q_begin example_queue = 0xfffffffe" "q_end example_queue = 3"
  by (simp_all add: sack_conn_def example_queue_def tcb_new_def getBytesAvailable_def seqLess_def)

theorem setPipe_is_rfc3517_pipe_witness:
  "\<exists>c. setPipe (sack_conn 3) = Inr c \<and> pipe (state c) = 6"
proof -
  have v: "octet_pipe (state (sack_conn 3)) (sq_bytes example_queue) i = (if i < 3 then 2 else 0)" if "i < 5" for i
  proof -
    have "i = 0 \<or> i = 1 \<or> i = 2 \<or> i = 3 \<or> i = 4" using that by presburger
    then show ?thesis
      by (auto simp: example_queue_bytes octet_pipe_def lost_at_def upto_last_def word_le_nat_alt)
  qed
  then show ?thesis
    using setPipe_is_rfc3517_pipe [of "sack_conn 3"] example_queue_wf
    by (simp add: example_queue_bytes [THEN arg_cong, of length, simplified])
qed

theorem setPipe_fails_after_lone_fin_witness: "setPipe (sack_conn 4) = Inl AssertFailed"
  using setPipe_fails_after_lone_fin [of "sack_conn 4"] example_queue_wf by (simp add: example_queue_bytes)

theorem nextSeg_is_rfc3517_witness: "\<exists>c. nextSeg (sack_conn 3) = Inr (None, c)"
proof -
  have d: "sdist 0xfffffffe 3 = 5" by (simp add: sdist_def)
  show ?thesis
    using nextSeg_is_rfc3517 [of "sack_conn 3"] example_queue_wf d
    by (simp add: example_queue_bytes rfc_next_seg_def upto_last_def Let_def)
qed

theorem nextSeg_ignores_closed_window_witness:
  "\<exists>(c :: nat conn) c'. snd_wnd (state c) = 0 \<and> nextSeg c = Inr (Some (snd_max (state c)), c')"
proof -
  let ?q = "\<lparr>rexmitQueue = [], q_begin = 3, q_end = 3\<rparr>"
  let ?c = "sack_conn 3\<lparr>rexmitQ := ?q, state := (state (sack_conn 3))\<lparr>pipe := 7, snd_una := 3\<rparr>\<rparr>"
  have "sq_wf ?q" by (simp add: sq_wf_def checkQueue_def sq_bytes_def)
  then have "\<exists>c'. nextSeg ?c = Inr (Some (snd_max (state ?c)), c')"
    by (intro nextSeg_ignores_closed_window) (simp_all add: sack_conn_def tcb_new_def upto_last_def sq_bytes_def
        getBytesAvailable_def seqLess_def)
  moreover have "snd_wnd (state ?c) = 0" by simp
  ultimately show ?thesis by blast
qed

end
