(* ===== verification/TcpUtil.thy ===== *)
theory TcpUtil
  imports TcpSack
begin

text \<open>
  The helper functions of a connection (\<open>TcpConnectionUtil.cc\<close>): opening and cloning, the segments it
  sends (SYN, SYN+ACK, RST, ACK, FIN, data), retransmission, the header options in both directions
  and the receive and send windows. What goes to IP or to the application is appended to \<open>outbox\<close>.
\<close>

section \<open>Names\<close>

definition stateName :: "tcp_state \<Rightarrow> string" where
  "stateName s = (case s of
       TCP_S_INIT \<Rightarrow> ''INIT'' | TCP_S_CLOSED \<Rightarrow> ''CLOSED'' | TCP_S_LISTEN \<Rightarrow> ''LISTEN''
     | TCP_S_SYN_SENT \<Rightarrow> ''SYN_SENT'' | TCP_S_SYN_RCVD \<Rightarrow> ''SYN_RCVD''
     | TCP_S_ESTABLISHED \<Rightarrow> ''ESTABLISHED'' | TCP_S_CLOSE_WAIT \<Rightarrow> ''CLOSE_WAIT''
     | TCP_S_LAST_ACK \<Rightarrow> ''LAST_ACK'' | TCP_S_FIN_WAIT_1 \<Rightarrow> ''FIN_WAIT_1''
     | TCP_S_FIN_WAIT_2 \<Rightarrow> ''FIN_WAIT_2'' | TCP_S_CLOSING \<Rightarrow> ''CLOSING''
     | TCP_S_TIME_WAIT \<Rightarrow> ''TIME_WAIT'')"

definition eventName :: "tcp_event \<Rightarrow> string" where
  "eventName e = (case e of
       TCP_E_IGNORE \<Rightarrow> ''IGNORE'' | TCP_E_OPEN_ACTIVE \<Rightarrow> ''OPEN_ACTIVE''
     | TCP_E_OPEN_PASSIVE \<Rightarrow> ''OPEN_PASSIVE'' | TCP_E_ACCEPT \<Rightarrow> ''ACCEPT'' | TCP_E_SEND \<Rightarrow> ''SEND''
     | TCP_E_CLOSE \<Rightarrow> ''CLOSE'' | TCP_E_ABORT \<Rightarrow> ''ABORT'' | TCP_E_STATUS \<Rightarrow> ''STATUS''
     | TCP_E_QUEUE_BYTES_LIMIT \<Rightarrow> ''QUEUE_BYTES_LIMIT'' | TCP_E_RCV_DATA \<Rightarrow> ''RCV_DATA''
     | TCP_E_RCV_ACK \<Rightarrow> ''RCV_ACK'' | TCP_E_RCV_SYN \<Rightarrow> ''RCV_SYN'' | TCP_E_RCV_SYN_ACK \<Rightarrow> ''RCV_SYN_ACK''
     | TCP_E_RCV_FIN \<Rightarrow> ''RCV_FIN'' | TCP_E_RCV_FIN_ACK \<Rightarrow> ''RCV_FIN_ACK'' | TCP_E_RCV_RST \<Rightarrow> ''RCV_RST''
     | TCP_E_RCV_UNEXP_SYN \<Rightarrow> ''RCV_UNEXP_SYN'' | TCP_E_TIMEOUT_2MSL \<Rightarrow> ''TIMEOUT_2MSL''
     | TCP_E_TIMEOUT_CONN_ESTAB \<Rightarrow> ''TIMEOUT_CONN_ESTAB''
     | TCP_E_TIMEOUT_FIN_WAIT_2 \<Rightarrow> ''TIMEOUT_FIN_WAIT_2''
     | _ \<Rightarrow> ''unknown'')"

section \<open>Messages to IP and to the application\<close>

definition ifSet :: "int \<Rightarrow> int option" where
  "ifSet v = (if v \<noteq> - 1 then Some v else None)"

text \<open>\<open>sendToIP(Packet *, Ptr<TcpHeader>)\<close>: over the connection's socket pair.\<close>

definition sendToIP :: "tcp_header \<Rightarrow> 'd list \<Rightarrow> ('d, 'z) conn_scheme \<Rightarrow> err + ('d, 'z) conn_scheme" where
  "sendToIP hdr payload c =
     (let hdr = hdr\<lparr>srcPort := localPort c, destPort := remotePort c\<rparr>
      in ebind (assert_that (TCP_MIN_HEADER_LENGTH \<le> headerLength hdr)) (\<lambda>_.
         ebind (assert_that (headerLength hdr \<le> TCP_MAX_HEADER_LENGTH)) (\<lambda>_.
         ebind (assert_that (chunk_length hdr = headerLength hdr)) (\<lambda>_.
           Inr (c\<lparr>outbox := outbox c @ [SegmentOut hdr payload
             \<lparr>req_src = localAddr c, req_dest = remoteAddr c, hopLimitReq = ifSet (ttl c),
              dscpReq = ifSet (dscp c), tosReq = ifSet (tos c),
              ecnReq = Some (ect (state c) \<and> \<not> sndAck (state c) \<and> \<not> rexmit (state c))\<rparr>]\<rparr>)))))"

text \<open>\<open>sendToIP(Packet *, Ptr<TcpHeader>, L3Address, L3Address)\<close>: for segments without a connection.\<close>

definition sendToIP_between :: "tcp_header \<Rightarrow> 'd list \<Rightarrow> L3Address \<Rightarrow> L3Address \<Rightarrow> ('d, 'z) conn_scheme \<Rightarrow>
    err + ('d, 'z) conn_scheme" where
  "sendToIP_between hdr payload src dest c =
     ebind (assert_that (chunk_length hdr = headerLength hdr)) (\<lambda>_.
       Inr (c\<lparr>outbox := outbox c @ [SegmentOut hdr payload
             \<lparr>req_src = src, req_dest = dest, hopLimitReq = ifSet (ttl c),
              dscpReq = ifSet (dscp c), tosReq = ifSet (tos c), ecnReq = None\<rparr>]\<rparr>))"

definition sendAvailableIndicationToApp :: "('d, 'z) conn_scheme \<Rightarrow> ('d, 'z) conn_scheme" where
  "sendAvailableIndicationToApp c = sendToApp (AvailableOut (listeningSocketId c) (socketId c)
     (localAddr c) (remoteAddr c) (localPort c) (remotePort c)) c"

definition sendEstabIndicationToApp :: "('d, 'z) conn_scheme \<Rightarrow> ('d, 'z) conn_scheme" where
  "sendEstabIndicationToApp c = sendToApp (EstablishedOut (socketId c)
     (localAddr c) (remoteAddr c) (localPort c) (remotePort c)) c"

lemma extract_exhausts:
  assumes "extractBytesUpTo sq q = Inr (Some d, q')"
  shows "extractBytesUpTo sq q' = Inr (None, q') \<or> extractBytesUpTo sq q' = Inl AssertFailed"
proof -
  have e: "expectedOffset (reorderBuffer q') = seqToOffset (expectedOffset (reorderBuffer q)) sq"
    using assms by (auto simp: extractBytesUpTo_def popAvailableData_def Let_def ebind_Inr_iff
        split: if_splits prod.splits)
  have "offsetToSeq (expectedOffset (reorderBuffer q')) = sq"
    unfolding e seqToOffset_def offsetToSeq_def Let_def by simp
  then have "seqToOffset (expectedOffset (reorderBuffer q')) sq = expectedOffset (reorderBuffer q')"
    by (simp add: seqToOffset_def seqGE_def)
  then show ?thesis by (simp add: extractBytesUpTo_def)
qed

text \<open>The loop that passes up everything below \<open>rcv_nxt\<close>.\<close>

function deliver :: "u32 \<Rightarrow> int \<Rightarrow> 'd receive_queue \<Rightarrow> 'd tcp_output list \<Rightarrow>
    err + ('d receive_queue \<times> 'd tcp_output list)" where
  "deliver sq sock q out = (case extractBytesUpTo sq q of
       Inl e \<Rightarrow> Inl e
     | Inr (None, q') \<Rightarrow> Inr (q', out)
     | Inr (Some d, q') \<Rightarrow> deliver sq sock q' (out @ [DataOut sock d]))"
  by pat_completeness auto

termination
proof (relation "measure (\<lambda>(sq, sock, q, out). case extractBytesUpTo sq q of Inr (Some _, _) \<Rightarrow> 1 | _ \<Rightarrow> 0)")
  fix sq :: u32 and sock :: int and q q' :: "'d receive_queue" and out :: "'d tcp_output list"
    and r x d
  assume "extractBytesUpTo sq q = Inr r" "(x, q') = r" "x = Some d"
  then show "((sq, sock, q', out @ [DataOut sock d]), sq, sock, q, out) \<in> measure (\<lambda>(sq, sock, q, out).
      case extractBytesUpTo sq q of Inr (Some _, _) \<Rightarrow> 1 | _ \<Rightarrow> 0)"
    using extract_exhausts [of sq q d q'] by auto
qed simp

declare deliver.simps [simp del]

definition sendAllDataToApp :: "('d, 'z) conn_scheme \<Rightarrow> err + ('d, 'z) conn_scheme" where
  "sendAllDataToApp c =
     ebind (deliver (rcv_nxt (state c)) (socketId c) (receiveQueue c) (outbox c)) (\<lambda>(q, out).
       Inr (c\<lparr>receiveQueue := q, outbox := out\<rparr>))"

definition sendAvailableDataToApp :: "('d, 'z) conn_scheme \<Rightarrow> err + ('d, 'z) conn_scheme" where
  "sendAvailableDataToApp c =
     (if getAmountOfBufferedBytes (receiveQueue c) \<noteq> 0 then
        if useDataNotification (tcpMain c)
        then Inr (sendToApp (IndicationOut TCP_I_DATA_NOTIFICATION (socketId c) 0) c)
        else sendAllDataToApp c
      else Inr c)"

section \<open>Opening\<close>

text \<open>A numeric parameter is stored in a \<open>uint32_t\<close>.\<close>

definition configureStateVariables :: "('d, 'z) conn_scheme \<Rightarrow> err + ('d, 'z) conn_scheme" where
  "configureStateVariables c =
     (let par = tcpMain c;
          advertisedWindowPar = advertisedWindow par;
          s = (state c)\<lparr>dupthresh := par_dupthresh par, ws_support := windowScalingSupport par,
                ws_manual_scale := windowScalingFactor par, ecnWillingness := ecnWillingness_par par\<rparr>
      in if (\<not> ws_support s \<and> advertisedWindowPar > uint TCP_MAX_WIN) \<or> advertisedWindowPar \<le> 0 \<or>
            advertisedWindowPar > TCP_MAX_WIN_SCALED
         then Inl (RuntimeError ''Invalid advertisedWindow parameter'')
         else
           let w = (if ws_support s \<and> advertisedWindowPar > uint TCP_MAX_WIN then TCP_MAX_WIN
                    else word_of_int advertisedWindowPar);
               s = s\<lparr>rcv_wnd := w, rcv_adv := w, maxRcvBuffer := word_of_int advertisedWindowPar,
                 delayed_acks_enabled := delayedAcksEnabled par, nagle_enabled := nagleEnabled par,
                 limited_transmit_enabled := limitedTransmitEnabled par,
                 increased_IW_enabled := increasedIWEnabled par, snd_mss := mss par,
                 ts_support := timestampSupport par, sack_support := sackSupport par\<rparr>
           in if sack_support s \<and> tcpAlgorithmClass par \<noteq> ''TcpReno'' then Inl AssertFailed
              else Inr (c\<lparr>state := s\<rparr>))"

text \<open>\<open>initConnection(TcpOpenCommand *)\<close>: the queues, the algorithm and the TCB are created.\<close>

definition initConnection_open :: "('d, 'z) conn_scheme tcp_algorithm \<Rightarrow> ('d, 'z) conn_scheme \<Rightarrow>
    err + ('d, 'z) conn_scheme" where
  "initConnection_open alg c =
     ebind (configureStateVariables (c\<lparr>sendQueue := sendq_new, receiveQueue := rcvq_new, rexmitQ := sq_new,
         state := tcb_new (dupthresh (state c)), opened := True\<rparr>)) (alg_initialize alg)"

definition initClonedConnection :: "('d, 'z) conn_scheme tcp_algorithm \<Rightarrow> ('d, 'y) conn_scheme \<Rightarrow>
    ('d, 'z) conn_scheme \<Rightarrow> err + ('d, 'z) conn_scheme" where
  "initClonedConnection alg listenerConn c =
     ebind (initConnection_open alg (c\<lparr>listeningSocketId := socketId listenerConn\<rparr>)) (\<lambda>c.
       Inr (c\<lparr>state := (state c)\<lparr>active := False, fork := True\<rparr>,
         localAddr := localAddr listenerConn, localPort := localPort listenerConn, fsm := TCP_S_LISTEN\<rparr>))"

text \<open>
  The initial sequence number is the time in units of four microseconds; the code computes it in
  double precision, here it is exact.
\<close>

definition initialSeqNum :: "simtime \<Rightarrow> u32" where
  "initialSeqNum t = word_of_int (t * 250000 div sim_sec)"

definition selectInitialSeqNum :: "('d, 'z) conn_scheme \<Rightarrow> ('d, 'z) conn_scheme" where
  "selectInitialSeqNum c =
     (let iss0 = initialSeqNum (sim_now c)
      in c\<lparr>state := (state c)\<lparr>iss := iss0, snd_una := iss0, snd_nxt := iss0, snd_max := iss0\<rparr>,
           sendQueue := sendq_init (iss0 + 1) (sendQueue c), rexmitQ := sq_init (iss0 + 1) (rexmitQ c)\<rparr>)"

section \<open>The acceptability test\<close>

text \<open>\<open>tcpSegment->getByteLength() - tcpHeader->getHeaderLength()\<close>\<close>

definition payloadLength :: "tcp_header \<Rightarrow> 'd list \<Rightarrow> int" where
  "payloadLength hdr payload = chunk_length hdr + int (length payload) - headerLength hdr"

definition isSegmentAcceptable :: "tcp_header \<Rightarrow> 'd list \<Rightarrow> tcb \<Rightarrow> bool" where
  "isSegmentAcceptable hdr payload s =
     (let len = word_of_int (payloadLength hdr payload);
          seqNo = sequenceNo hdr;
          ack = ackNo hdr;
          rcvWndEnd = rcv_nxt s + rcv_wnd s;
          ret = (if len = 0 then
                   if rcv_wnd s = 0 then seqNo = rcv_nxt s
                   else seqLE (rcv_nxt s) seqNo \<and> seqLE seqNo rcvWndEnd
                 else if rcv_wnd s = 0 then False
                 else (seqLE (rcv_nxt s) seqNo \<and> seqLess seqNo rcvWndEnd) \<or>
                      (seqLess (rcv_nxt s) (seqNo + len) \<and> seqLE (seqNo + len) rcvWndEnd))
      in if \<not> ret \<and> len = 0 then
           if \<not> afterRto s then seqLess (snd_una s) ack \<and> seqLE ack (snd_nxt s)
           else seqLess (snd_una s) ack \<and> seqLE ack (snd_max s)
         else ret)"

section \<open>Windows\<close>

definition updateRcvQueueVars :: "('d, 'z) conn_scheme \<Rightarrow> ('d, 'z) conn_scheme" where
  "updateRcvQueueVars c =
     (let free = getAmountOfFreeBytes (maxRcvBuffer (state c)) (receiveQueue c)
      in c\<lparr>state := (state c)\<lparr>freeRcvBuffer := free, usedRcvBuffer := maxRcvBuffer (state c) - free\<rparr>\<rparr>)"

text \<open>The window offered, before it is stored and scaled.\<close>

definition maxWin :: "tcb \<Rightarrow> u32" where
  "maxWin s = (if ws_enabled s \<and> rcv_wnd_scale s \<noteq> 0 then push_bit (unat (rcv_wnd_scale s)) TCP_MAX_WIN
     else TCP_MAX_WIN)"

definition offered_window :: "tcb \<Rightarrow> u32" where
  "offered_window s =
     (let win = freeRcvBuffer s;
          win = (if win < maxRcvBuffer s div 4 \<and> win < snd_mss s then 0 else win);
          win = (if win < rcv_adv s - rcv_nxt s then rcv_adv s - rcv_nxt s else win)
      in if win > maxWin s then maxWin s else win)"

definition updateRcvWnd :: "('d, 'z) conn_scheme \<Rightarrow> err + (u16 \<times> ('d, 'z) conn_scheme)" where
  "updateRcvWnd c =
     (let c = updateRcvQueueVars c;
          win = offered_window (state c);
          s = (if win > 0 \<and> seqGE (rcv_nxt (state c) + win) (rcv_adv (state c))
               then (state c)\<lparr>rcv_adv := rcv_nxt (state c) + win\<rparr> else state c);
          s = s\<lparr>rcv_wnd := win\<rparr>
      in ebind (if ws_enabled s \<and> rcv_wnd_scale s \<noteq> 0
                then if rcv_wnd_scale s \<le> 14 then Inr (drop_bit (unat (rcv_wnd_scale s)) (rcv_wnd s))
                     else Inl AssertFailed
                else Inr (rcv_wnd s)) (\<lambda>scaled.
         ebind (assert_that (scaled = ucast (ucast scaled :: u16))) (\<lambda>_.
           Inr (ucast scaled, c\<lparr>state := s\<rparr>))))"

definition updateWndInfo :: "tcp_header \<Rightarrow> bool \<Rightarrow> ('d, 'z) conn_scheme \<Rightarrow> ('d, 'z) conn_scheme" where
  "updateWndInfo hdr doAlways c =
     (let s = state c;
          true_window = (if ws_enabled s \<and> \<not> synBit hdr
            then push_bit (unat (snd_wnd_scale s)) (ucast (window hdr)) else ucast (window hdr))
      in if doAlways \<or> (ackBit hdr \<and>
             (seqLess (snd_wl1 s) (sequenceNo hdr) \<or>
              (snd_wl1 s = sequenceNo hdr \<and> seqLE (snd_wl2 s) (ackNo hdr)) \<or>
              (snd_wl2 s = ackNo hdr \<and> true_window > snd_wnd s)))
         then c\<lparr>state := s\<lparr>snd_wnd := true_window, snd_wl1 := sequenceNo hdr, snd_wl2 := ackNo hdr\<rparr>\<rparr>
         else c)"

section \<open>Header options received\<close>

definition processMSSOption :: "u16 \<Rightarrow> u16 \<Rightarrow> ('d, 'z) conn_scheme \<Rightarrow> ('d, 'z) conn_scheme" where
  "processMSSOption len maxSegmentSize c =
     (if len \<noteq> 4 then c
      else if fsm c \<noteq> TCP_S_LISTEN \<and> fsm c \<noteq> TCP_S_SYN_SENT then c
      else
        let m = min (snd_mss (state c)) (ucast maxSegmentSize)
        in c\<lparr>state := (state c)\<lparr>snd_mss := (if m = 0 then 536 else m)\<rparr>\<rparr>)"

definition processWSOption :: "u16 \<Rightarrow> u16 \<Rightarrow> ('d, 'z) conn_scheme \<Rightarrow> ('d, 'z) conn_scheme" where
  "processWSOption len windowScale c =
     (if len \<noteq> 3 then c
      else if fsm c \<noteq> TCP_S_LISTEN \<and> fsm c \<noteq> TCP_S_SYN_SENT then c
      else c\<lparr>state := (state c)\<lparr>rcv_ws := True, ws_enabled := (ws_support (state c) \<and> snd_ws (state c)),
             snd_wnd_scale := (if (ucast windowScale :: u32) > 14 then 14 else ucast windowScale)\<rparr>\<rparr>)"

definition processTSOption :: "tcp_header \<Rightarrow> u16 \<Rightarrow> u32 \<Rightarrow> ('d, 'z) conn_scheme \<Rightarrow> ('d, 'z) conn_scheme" where
  "processTSOption hdr len senderTimestamp c =
     (if len \<noteq> 10 then c
      else if (\<not> ts_enabled (state c) \<and> fsm c \<noteq> TCP_S_LISTEN \<and> fsm c \<noteq> TCP_S_SYN_SENT) \<or>
              (ts_enabled (state c) \<and> fsm c \<notin> {TCP_S_SYN_RCVD, TCP_S_ESTABLISHED, TCP_S_FIN_WAIT_1,
                 TCP_S_FIN_WAIT_2}) then c
      else
        let s = state c;
            s = (if \<not> ts_enabled s then s\<lparr>rcv_initial_ts := True,
                   ts_enabled := (ts_support s \<and> snd_initial_ts s)\<rparr> else s)
        in c\<lparr>state := (if ts_enabled s then
             if seqLess senderTimestamp (ts_recent s) then s
             else if seqLE (sequenceNo hdr) (last_ack_sent s) then s\<lparr>ts_recent := senderTimestamp\<rparr>
             else s
           else s)\<rparr>)"

definition processSACKPermittedOption :: "u16 \<Rightarrow> ('d, 'z) conn_scheme \<Rightarrow> ('d, 'z) conn_scheme" where
  "processSACKPermittedOption len c =
     (if len \<noteq> 2 then c
      else if fsm c \<noteq> TCP_S_LISTEN \<and> fsm c \<noteq> TCP_S_SYN_SENT then c
      else c\<lparr>state := (state c)\<lparr>rcv_sack_perm := True,
             sack_enabled := (sack_support (state c) \<and> snd_sack_perm (state c))\<rparr>\<rparr>)"

text \<open>What the functions return is not used.\<close>

fun processOption :: "tcp_header \<Rightarrow> tcp_option \<Rightarrow> ('d, 'z) conn_scheme \<Rightarrow> err + ('d, 'z) conn_scheme" where
  "processOption hdr (OptMss len m) c = Inr (processMSSOption len m c)"
| "processOption hdr (OptWs len w) c = Inr (processWSOption len w c)"
| "processOption hdr (OptSackPerm len) c = Inr (processSACKPermittedOption len c)"
| "processOption hdr (OptSack len sacks) c =
     ebind (processSACKOption hdr len sacks c) (\<lambda>(ok, c). Inr c)"
| "processOption hdr (OptTs len tsval tsecr) c = Inr (processTSOption hdr len tsval c)"
| "processOption hdr (OptEnd len) c = Inr c"
| "processOption hdr (OptNop len) c = Inr c"
| "processOption hdr (OptUnknown len) c = Inr c"

definition readHeaderOptions :: "tcp_header \<Rightarrow> ('d, 'z) conn_scheme \<Rightarrow> err + ('d, 'z) conn_scheme" where
  "readHeaderOptions hdr c = efold (processOption hdr) (headerOption hdr) c"

fun first_timestamp :: "tcp_option list \<Rightarrow> (u32 \<times> u32) option" where
  "first_timestamp [] = None"
| "first_timestamp (x # xs) = (case x of OptTs _ tsval tsecr \<Rightarrow> Some (tsval, tsecr) | _ \<Rightarrow> first_timestamp xs)"

definition getTSval :: "tcp_header \<Rightarrow> u32" where
  "getTSval hdr = (case first_timestamp (headerOption hdr) of Some (tsval, _) \<Rightarrow> tsval | None \<Rightarrow> 0)"

definition getTSecr :: "tcp_header \<Rightarrow> u32" where
  "getTSecr hdr = (case first_timestamp (headerOption hdr) of Some (_, tsecr) \<Rightarrow> tsecr | None \<Rightarrow> 0)"

section \<open>Header options sent\<close>

text \<open>\<open>convertSimtimeToTS\<close>: milliseconds, truncated to 32 bits.\<close>

definition convertSimtimeToTS :: "simtime \<Rightarrow> u32" where
  "convertSimtimeToTS t = word_of_int (t div (sim_sec div 1000))"

function ws_shift :: "nat \<Rightarrow> nat \<Rightarrow> nat" where
  "ws_shift win scale = (if win > 65535 \<and> scale < 14 then ws_shift (win div 2) (Suc scale) else scale)"
  by pat_completeness auto

termination by (relation "measure (\<lambda>(win, scale). 14 - scale)") auto

declare ws_shift.simps [simp del]

definition scale_of_buffer :: "('d, 'z) conn_scheme \<Rightarrow> u32" where
  "scale_of_buffer c =
     (if ws_manual_scale (state c) > - 1 then word_of_int (ws_manual_scale (state c))
      else of_nat (ws_shift (unat (getFirstSeqNo (receiveQueue c) + maxRcvBuffer (state c) - rcv_nxt (state c))) 0))"

text \<open>An active open, or the retransmission of its SYN.\<close>

definition first_syn :: "('d, 'z) conn_scheme \<Rightarrow> bool" where
  "first_syn c = (fsm c = TCP_S_INIT \<or> (fsm c = TCP_S_SYN_SENT \<and> syn_rexmit_count (state c) > 0))"

definition nop :: tcp_option where
  "nop = OptNop 1"

definition write_mss :: "tcp_header \<times> ('d, 'z) conn_scheme \<Rightarrow> tcp_header \<times> ('d, 'z) conn_scheme" where
  "write_mss = (\<lambda>(hdr, c). if snd_mss (state c) > 0
     then (insertHeaderOption (OptMss 4 (ucast (snd_mss (state c)))) hdr, c) else (hdr, c))"

definition write_ws :: "tcp_header \<times> ('d, 'z) conn_scheme \<Rightarrow> tcp_header \<times> ('d, 'z) conn_scheme" where
  "write_ws = (\<lambda>(hdr, c). if ws_support (state c) \<and> (rcv_ws (state c) \<or> first_syn c) then
       let scale = scale_of_buffer c
       in (insertHeaderOption (OptWs 3 (ucast scale)) (insertHeaderOption nop hdr),
           c\<lparr>state := (state c)\<lparr>rcv_wnd_scale := scale, snd_ws := True, ws_enabled := rcv_ws (state c)\<rparr>\<rparr>)
     else (hdr, c))"

definition write_sack_permitted ::
    "tcp_header \<times> ('d, 'z) conn_scheme \<Rightarrow> tcp_header \<times> ('d, 'z) conn_scheme" where
  "write_sack_permitted = (\<lambda>(hdr, c). if sack_support (state c) \<and> (rcv_sack_perm (state c) \<or> first_syn c) then
       let hdr = (if \<not> ts_support (state c) then insertHeaderOption nop (insertHeaderOption nop hdr) else hdr)
       in (insertHeaderOption (OptSackPerm 2) hdr,
           c\<lparr>state := (state c)\<lparr>snd_sack_perm := True, sack_enabled := rcv_sack_perm (state c)\<rparr>\<rparr>)
     else (hdr, c))"

definition ts_option :: "tcp_header \<Rightarrow> ('d, 'z) conn_scheme \<Rightarrow> tcp_option" where
  "ts_option hdr c = OptTs 10 (convertSimtimeToTS (sim_now c)) (if ackBit hdr then ts_recent (state c) else 0)"

definition write_initial_ts :: "tcp_header \<times> ('d, 'z) conn_scheme \<Rightarrow> tcp_header \<times> ('d, 'z) conn_scheme" where
  "write_initial_ts = (\<lambda>(hdr, c). if ts_support (state c) \<and> (rcv_initial_ts (state c) \<or> first_syn c) then
       let hdr = (if \<not> sack_support (state c) then insertHeaderOption nop (insertHeaderOption nop hdr) else hdr)
       in (insertHeaderOption (ts_option hdr c) hdr,
           c\<lparr>state := (state c)\<lparr>snd_initial_ts := True, ts_enabled := rcv_initial_ts (state c)\<rparr>\<rparr>)
     else (hdr, c))"

definition write_ts :: "tcp_header \<times> ('d, 'z) conn_scheme \<Rightarrow> tcp_header \<times> ('d, 'z) conn_scheme" where
  "write_ts = (\<lambda>(hdr, c). if ts_enabled (state c) then
       let hdr = (if \<not> (sack_enabled (state c) \<and> (snd_sack (state c) \<or> snd_dsack (state c)))
                  then insertHeaderOption nop (insertHeaderOption nop hdr) else hdr)
       in (insertHeaderOption (ts_option hdr c) hdr, c)
     else (hdr, c))"

text \<open>The end of \<open>writeHeaderOptions\<close>: the length fields, or no options at all if they do not fit.\<close>

definition finish_options :: "tcp_header \<Rightarrow> tcp_header" where
  "finish_options hdr =
     (if headerOption hdr \<noteq> [] then
        let options_len = getHeaderOptionArrayLength hdr
        in if options_len \<le> TCP_OPTIONS_MAX_SIZE
           then hdr\<lparr>headerLength := TCP_MIN_HEADER_LENGTH + options_len,
                    chunk_length := TCP_MIN_HEADER_LENGTH + options_len\<rparr>
           else dropHeaderOptions hdr
      else hdr)"

definition writeHeaderOptions :: "tcp_header \<Rightarrow> ('d, 'z) conn_scheme \<Rightarrow>
    err + (tcp_header \<times> ('d, 'z) conn_scheme)" where
  "writeHeaderOptions hdr c =
     (if synBit hdr \<and> (fsm c = TCP_S_INIT \<or> fsm c = TCP_S_LISTEN \<or>
            ((fsm c = TCP_S_SYN_SENT \<or> fsm c = TCP_S_SYN_RCVD) \<and> syn_rexmit_count (state c) > 0))
      then let (hdr, c) = write_initial_ts (write_sack_permitted (write_ws (write_mss (hdr, c))))
           in Inr (finish_options hdr, c)
      else if fsm c \<in> {TCP_S_SYN_SENT, TCP_S_SYN_RCVD, TCP_S_ESTABLISHED, TCP_S_FIN_WAIT_1,
             TCP_S_FIN_WAIT_2, TCP_S_CLOSE_WAIT}
      then let (hdr, c) = write_ts (hdr, c)
           in ebind (if sack_enabled (state c) \<and> (snd_sack (state c) \<or> snd_dsack (state c))
                     then addSacks hdr c else Inr (hdr, c)) (\<lambda>(hdr, c).
                Inr (finish_options hdr, c))
      else Inr (finish_options hdr, c))"

section \<open>Control segments\<close>

definition sendSyn :: "('d, 'z) conn_scheme \<Rightarrow> err + ('d, 'z) conn_scheme" where
  "sendSyn c =
     (if remoteAddr c = Unspecified \<or> remotePort c = - 1
      then Inl (RuntimeError ''foreign socket unspecified'')
      else if localPort c = - 1 then Inl (RuntimeError ''local port unspecified'')
      else ebind (updateRcvWnd c) (\<lambda>(_, c).
        let w = ecnWillingness (state c);
            hdr = header_new\<lparr>sequenceNo := iss (state c), synBit := True, window := ucast (rcv_wnd (state c)),
                    eceBit := w, cwrBit := w\<rparr>;
            c = c\<lparr>state := (state c)\<lparr>snd_max := iss (state c) + 1, snd_nxt := iss (state c) + 1,
                    ecnSynSent := w\<rparr>\<rparr>
        in ebind (writeHeaderOptions hdr c) (\<lambda>(hdr, c). sendToIP hdr [] c)))"

definition sendSynAck :: "(('d, 'z) conn_scheme, 'y) tcp_callbacks_scheme \<Rightarrow> ('d, 'z) conn_scheme \<Rightarrow>
    err + ('d, 'z) conn_scheme" where
  "sendSynAck alg c =
     ebind (updateRcvWnd c) (\<lambda>(_, c).
       let hdr = header_new\<lparr>sequenceNo := iss (state c), ackNo := rcv_nxt (state c), synBit := True,
                   ackBit := True, window := ucast (rcv_wnd (state c)),
                   eceBit := ecnWillingness (state c), cwrBit := False\<rparr>;
           c = c\<lparr>state := (state c)\<lparr>snd_max := iss (state c) + 1, snd_nxt := iss (state c) + 1,
                   ect := (ecnWillingness (state c) \<and> endPointIsWillingECN (state c))\<rparr>\<rparr>
       in ebind (writeHeaderOptions hdr c) (\<lambda>(hdr, c). ebind (sendToIP hdr [] c) (alg_ackSent alg)))"

definition sendRst_between :: "u32 \<Rightarrow> L3Address \<Rightarrow> L3Address \<Rightarrow> int \<Rightarrow> int \<Rightarrow> ('d, 'z) conn_scheme \<Rightarrow>
    err + ('d, 'z) conn_scheme" where
  "sendRst_between sq src dest sport dport c =
     sendToIP_between (header_new\<lparr>srcPort := sport, destPort := dport, rstBit := True, sequenceNo := sq\<rparr>)
       [] src dest c"

definition sendRst :: "u32 \<Rightarrow> ('d, 'z) conn_scheme \<Rightarrow> err + ('d, 'z) conn_scheme" where
  "sendRst seqNo c = sendRst_between seqNo (localAddr c) (remoteAddr c) (localPort c) (remotePort c) c"

definition sendRstAck :: "(('d, 'z) conn_scheme, 'y) tcp_callbacks_scheme \<Rightarrow> u32 \<Rightarrow> u32 \<Rightarrow> L3Address \<Rightarrow>
    L3Address \<Rightarrow> int \<Rightarrow> int \<Rightarrow> ('d, 'z) conn_scheme \<Rightarrow> err + ('d, 'z) conn_scheme" where
  "sendRstAck alg sq ack src dest sport dport c =
     ebind (sendToIP_between (header_new\<lparr>srcPort := sport, destPort := dport, rstBit := True,
         ackBit := True, sequenceNo := sq, ackNo := ack\<rparr>) [] src dest c) (\<lambda>c.
       if opened c then alg_ackSent alg c else Inr c)"

definition sendAck :: "(('d, 'z) conn_scheme, 'y) tcp_callbacks_scheme \<Rightarrow> ('d, 'z) conn_scheme \<Rightarrow>
    err + ('d, 'z) conn_scheme" where
  "sendAck alg c =
     ebind (updateRcvWnd c) (\<lambda>(win, c).
       let hdr = header_new\<lparr>ackBit := True, sequenceNo := snd_nxt (state c), ackNo := rcv_nxt (state c),
                   window := win\<rparr>;
           (mark, c) = (if ect (state c) then alg_shouldMarkAck alg c else (False, c))
       in ebind (writeHeaderOptions (hdr\<lparr>eceBit := mark\<rparr>) c) (\<lambda>(hdr, c).
          ebind (sendToIP hdr [] (c\<lparr>state := (state c)\<lparr>sndAck := True\<rparr>\<rparr>)) (\<lambda>c.
            alg_ackSent alg (c\<lparr>state := (state c)\<lparr>sndAck := False\<rparr>\<rparr>))))"

definition sendFin :: "(('d, 'z) conn_scheme, 'y) tcp_callbacks_scheme \<Rightarrow> ('d, 'z) conn_scheme \<Rightarrow>
    err + ('d, 'z) conn_scheme" where
  "sendFin alg c =
     ebind (updateRcvWnd c) (\<lambda>(win, c).
       ebind (sendToIP (header_new\<lparr>finBit := True, ackBit := True, ackNo := rcv_nxt (state c),
           sequenceNo := snd_nxt (state c), window := win\<rparr>) [] c) (alg_ackSent alg))"

end
