(* ===== verification/TcpSend.thy ===== *)
theory TcpSend
  imports TcpUtil
begin

text \<open>
  Sending and retransmitting data: \<open>sendSegment\<close>, \<open>sendData\<close>, \<open>sendProbe\<close>, the two retransmissions and
  Limited Transmit of \<open>TcpConnectionUtil.cc\<close>, and the two sending functions of RFC 3517's loss recovery
  in \<open>TcpConnectionSackUtil.cc\<close>.
\<close>

section \<open>One segment\<close>

text \<open>After a retransmission timeout \<open>snd_nxt\<close> skips what the receiver already has.\<close>

definition forward_over_sacked :: "('d, 'z) conn_scheme \<Rightarrow> err + ('d, 'z) conn_scheme" where
  "forward_over_sacked c =
     (if sack_enabled (state c) \<and> afterRto (state c) then
        ebind (checkRexmitQueueForSackedOrRexmittedSegments (snd_nxt (state c)) (rexmitQ c)) (\<lambda>forward.
          Inr (if forward > 0 then c\<lparr>state := (state c)\<lparr>snd_nxt := snd_nxt (state c) + forward\<rparr>\<rparr> else c))
      else Inr c)"

text \<open>The options of the segment (written to a temporary header) and how many bytes go with them.\<close>

definition plan_segment :: "u32 \<Rightarrow> ('d, 'z) conn_scheme \<Rightarrow> err + (tcp_header \<times> u32 \<times> ('d, 'z) conn_scheme)" where
  "plan_segment bytes c =
     (let buffered = getBytesAvailable (snd_nxt (state c)) (sendQueue c);
          bytes = (if bytes > buffered then buffered else bytes)
      in ebind (writeHeaderOptions (header_new\<lparr>ackBit := True\<rparr>) c) (\<lambda>(tmp, c).
           let options_len = word_of_int (headerLength tmp - TCP_MIN_HEADER_LENGTH)
           in ebind (assert_that (options_len < snd_mss (state c))) (\<lambda>_.
                Inr (tmp, if bytes + options_len > snd_mss (state c) then snd_mss (state c) - options_len
                          else bytes, c))))"

text \<open>The state after \<open>bytes\<close> bytes: the end of the recovery from a timeout, and the FIN.\<close>

definition fin_due :: "u32 \<Rightarrow> tcb \<Rightarrow> bool" where
  "fin_due bytes s = (send_fin s \<and> snd_nxt s + bytes = snd_fin_seq s)"

definition advance :: "u32 \<Rightarrow> tcb \<Rightarrow> tcb" where
  "advance bytes s =
     (let nxt = snd_nxt s + bytes
      in s\<lparr>sndCwr := (sndCwr s \<and> \<not> ect s),
           afterRto := (afterRto s \<and> \<not> seqGE nxt (snd_max s)),
           snd_nxt := (if fin_due bytes s then snd_fin_seq s + 1 else nxt)\<rparr>)"

text \<open>More data is asked for when a segment's worth of the send queue is free.\<close>

definition requestData :: "('d, 'z) conn_scheme \<Rightarrow> ('d, 'z) conn_scheme" where
  "requestData c =
     (let s = state c;
          alreadyQueued = getBytesAvailable (sendq_getBufferStartSeq (sendQueue c)) (sendQueue c);
          abated = (if sendQueueLimit s > alreadyQueued then sendQueueLimit s - alreadyQueued else 0)
      in if sendQueueLimit s > 0 \<and> \<not> queueUpdate s \<and> abated \<ge> snd_mss s
         then (sendIndicationToApp TCP_I_SEND_MSG abated c)\<lparr>state := s\<lparr>queueUpdate := True\<rparr>\<rparr>
         else c)"

definition raise_snd_max :: "('d, 'z) conn_scheme \<Rightarrow> ('d, 'z) conn_scheme" where
  "raise_snd_max c = (if seqGreater (snd_nxt (state c)) (snd_max (state c))
     then c\<lparr>state := (state c)\<lparr>snd_max := snd_nxt (state c)\<rparr>\<rparr> else c)"

definition transmit :: "tcp_header \<Rightarrow> u32 \<Rightarrow> ('d, 'z) conn_scheme \<Rightarrow> err + ('d, 'z) conn_scheme" where
  "transmit tmp bytes c =
     ebind (createSegmentWithBytes (snd_nxt (state c)) bytes (sendQueue c)) (\<lambda>payload.
     ebind (updateRcvWnd c) (\<lambda>(win, c).
     ebind (assert_that (unat bytes = length payload)) (\<lambda>_.
       let old = state c;
           s = advance bytes old;
           hdr = header_new\<lparr>sequenceNo := snd_nxt old, ackNo := rcv_nxt old, ackBit := True, window := win,
                   cwrBit := (ect old \<and> sndCwr old), finBit := fin_due bytes old,
                   headerOption := headerOption tmp\<rparr>;
           total = TCP_MIN_HEADER_LENGTH + getHeaderOptionArrayLength hdr
       in ebind (if sack_enabled s then enqueueSentData (snd_nxt old) (snd_nxt s) (rexmitQ c)
                 else Inr (rexmitQ c)) (\<lambda>q.
          ebind (assert_that (total = headerLength tmp)) (\<lambda>_.
          ebind (sendToIP (hdr\<lparr>headerLength := total, chunk_length := total\<rparr>) payload
                   (c\<lparr>state := s, rexmitQ := q\<rparr>)) (\<lambda>c.
            Inr (raise_snd_max (requestData c))))))))"

text \<open>\<open>sendSegment\<close> returns the number of data bytes sent.\<close>

definition sendSegment :: "u32 \<Rightarrow> ('d, 'z) conn_scheme \<Rightarrow> err + (u32 \<times> ('d, 'z) conn_scheme)" where
  "sendSegment bytes c =
     ebind (forward_over_sacked c) (\<lambda>c.
     ebind (plan_segment bytes c) (\<lambda>(tmp, n, c).
     ebind (transmit tmp n c) (\<lambda>c. Inr (n, c))))"

lemma createSegment_nonempty: "createSegmentWithBytes f n q = Inr d \<Longrightarrow> d \<noteq> []"
  by (auto simp: createSegmentWithBytes_def cq_peekAt_def peek_result_def split: if_splits)

text \<open>A segment without data is never sent: \<open>ChunkQueue::peekAt\<close> refuses an empty range.\<close>

lemma transmit_pos: "transmit tmp n c = Inr c' \<Longrightarrow> 0 < unat n"
  by (auto simp: transmit_def ebind_Inr_iff dest: createSegment_nonempty)

lemma sendSegment_pos: "sendSegment bytes c = Inr (n, c') \<Longrightarrow> 0 < unat n"
  by (auto simp: sendSegment_def ebind_Inr_iff dest: transmit_pos)

section \<open>Data\<close>

lemma less_sub_pos: "n \<le> k \<Longrightarrow> 0 < unat n \<Longrightarrow> unat (k - n) < unat k" for n k :: u32
  by (simp add: unat_sub word_le_nat_alt)

text \<open>The loop over the whole segments; it ends because every segment carries data.\<close>

function send_whole :: "u32 \<Rightarrow> u32 \<Rightarrow> ('d, 'z) conn_scheme \<Rightarrow> err + (u32 \<times> ('d, 'z) conn_scheme)" where
  "send_whole effectiveMss bytesToSend c =
     (if bytesToSend \<ge> effectiveMss then
        ebind (sendSegment effectiveMss c) (\<lambda>(sentBytes, c).
          if sentBytes \<le> bytesToSend then send_whole effectiveMss (bytesToSend - sentBytes) c
          else Inl AssertFailed)
      else Inr (bytesToSend, c))"
  by pat_completeness auto

termination
  by (relation "measure (\<lambda>(m, k, c). unat k)") (auto dest!: sendSegment_pos intro: less_sub_pos)

declare send_whole.simps [simp del]

text \<open>What is left after the whole segments, subject to Nagle's algorithm.\<close>

definition send_rest :: "u32 \<Rightarrow> ('d, 'z) conn_scheme \<Rightarrow> err + ('d, 'z) conn_scheme" where
  "send_rest bytesToSend c =
     (if bytesToSend > 0 then
        let s = state c;
            unacknowledgedData = (snd_una s \<noteq> snd_max s);
            containsFin = (send_fin s \<and> snd_nxt s + bytesToSend = snd_fin_seq s)
        in if nagle_enabled s \<and> unacknowledgedData \<and> \<not> containsFin then Inr c
           else ebind (sendSegment bytesToSend c) (\<lambda>(_, c). Inr c)
      else Inr c)"

definition effective_window :: "u32 \<Rightarrow> tcb \<Rightarrow> int" where
  "effective_window congestionWindow s =
     uint (min (snd_wnd s) congestionWindow) - uint (snd_nxt s - snd_una s)"

text \<open>The callbacks after data was sent.\<close>

definition notify_sent :: "(('d, 'z) conn_scheme, 'y) tcp_callbacks_scheme \<Rightarrow> u32 \<Rightarrow> u32 \<Rightarrow>
    ('d, 'z) conn_scheme \<Rightarrow> err + ('d, 'z) conn_scheme" where
  "notify_sent alg old_highRxt old_snd_nxt c =
     ebind (alg_ackSent alg c) (\<lambda>c.
       if sack_enabled (state c) \<and> lossRecovery (state c) \<and> old_highRxt \<noteq> highRxt (state c)
       then alg_restartRexmitTimer alg c else alg_dataSent alg old_snd_nxt c)"

definition sendData :: "(('d, 'z) conn_scheme, 'y) tcp_callbacks_scheme \<Rightarrow> u32 \<Rightarrow> ('d, 'z) conn_scheme \<Rightarrow>
    err + (bool \<times> ('d, 'z) conn_scheme)" where
  "sendData alg congestionWindow c =
     (let c = (if \<not> afterRto (state c) then c\<lparr>state := (state c)\<lparr>snd_nxt := snd_max (state c)\<rparr>\<rparr> else c);
          old_highRxt = (if sack_enabled (state c) then getHighestRexmittedSeqNum (rexmitQ c) else 0);
          buffered = getBytesAvailable (snd_nxt (state c)) (sendQueue c);
          effectiveWin = effective_window congestionWindow (state c)
      in if buffered = 0 then Inr (False, c)
         else if effectiveWin \<le> 0 then Inr (False, c)
         else
           let bytesToSend = min buffered (word_of_int effectiveWin)
           in ebind (writeHeaderOptions (header_new\<lparr>ackBit := True\<rparr>) c) (\<lambda>(tmp, c).
                let options_len = word_of_int (headerLength tmp - TCP_MIN_HEADER_LENGTH)
                in ebind (assert_that (options_len < snd_mss (state c))) (\<lambda>_.
                     let old_snd_nxt = snd_nxt (state c)
                     in ebind (send_whole (snd_mss (state c) - options_len) bytesToSend c) (\<lambda>(left, c).
                        ebind (send_rest left c) (\<lambda>c.
                          if old_snd_nxt = snd_nxt (state c) then Inr (False, c)
                          else ebind (notify_sent alg old_highRxt old_snd_nxt c) (\<lambda>c. Inr (True, c)))))))"

definition sendProbe :: "(('d, 'z) conn_scheme, 'y) tcp_callbacks_scheme \<Rightarrow> ('d, 'z) conn_scheme \<Rightarrow>
    err + (bool \<times> ('d, 'z) conn_scheme)" where
  "sendProbe alg c =
     (let c = c\<lparr>state := (state c)\<lparr>snd_nxt := snd_max (state c)\<rparr>\<rparr>;
          old_snd_nxt = snd_nxt (state c)
      in if getBytesAvailable (snd_nxt (state c)) (sendQueue c) = 0 then Inr (False, c)
         else ebind (sendSegment 1 c) (\<lambda>(_, c).
              ebind (alg_ackSent alg (c\<lparr>state := (state c)\<lparr>snd_max := snd_nxt (state c)\<rparr>\<rparr>)) (\<lambda>c.
              ebind (alg_dataSent alg old_snd_nxt c) (\<lambda>c. Inr (True, c)))))"

definition isSendQueueEmpty :: "('d, 'z) conn_scheme \<Rightarrow> bool" where
  "isSendQueueEmpty c = (getBytesAvailable (snd_nxt (state c)) (sendQueue c) = 0)"

section \<open>Retransmission\<close>

definition mark_rexmit :: "bool \<Rightarrow> ('d, 'z) conn_scheme \<Rightarrow> ('d, 'z) conn_scheme" where
  "mark_rexmit b c = (if ect (state c) then c\<lparr>state := (state c)\<lparr>rexmit := b\<rparr>\<rparr> else c)"

text \<open>The FIN (without data) is sent again, at the end of the send queue.\<close>

definition resend_fin :: "(('d, 'z) conn_scheme, 'y) tcp_callbacks_scheme \<Rightarrow>
    (u32 \<Rightarrow> ('d, 'z) conn_scheme \<Rightarrow> err + ('d, 'z) conn_scheme) \<Rightarrow>
    ('d, 'z) conn_scheme \<Rightarrow> err + ('d, 'z) conn_scheme" where
  "resend_fin alg notify c =
     (let e = sendq_getBufferEndSeq (sendQueue c)
      in ebind (sendFin alg (c\<lparr>state := (state c)\<lparr>snd_max := e, snd_nxt := e\<rparr>\<rparr>)) (\<lambda>c.
         ebind (notify (snd_nxt (state c)) c) (\<lambda>c.
           let n = snd_nxt (state c) + 1
           in Inr (c\<lparr>state := (state c)\<lparr>snd_nxt := n, snd_max := n\<rparr>\<rparr>))))"

definition retransmitOneSegment :: "(('d, 'z) conn_scheme, 'y) tcp_callbacks_scheme \<Rightarrow> bool \<Rightarrow>
    ('d, 'z) conn_scheme \<Rightarrow> err + ('d, 'z) conn_scheme" where
  "retransmitOneSegment alg called_at_rto c =
     (let c = mark_rexmit True c;
          old_snd_nxt = snd_nxt (state c);
          c = c\<lparr>state := (state c)\<lparr>snd_nxt := snd_una (state c)\<rparr>\<rparr>;
          s = state c;
          bytes = min (min (snd_mss s) (snd_max s - snd_nxt s)) (getBytesAvailable (snd_nxt s) (sendQueue c))
      in ebind
        (if bytes = 0 \<and> send_fin s \<and> snd_fin_seq s = sendq_getBufferEndSeq (sendQueue c)
         then resend_fin alg (\<lambda>n. alg_segmentRetransmitted alg n (n + 1)) c
         else ebind (assert_that (bytes \<noteq> 0)) (\<lambda>_.
              ebind (sendSegment bytes c) (\<lambda>(_, c).
              ebind (alg_segmentRetransmitted alg (snd_una (state c)) (snd_nxt (state c)) c) (\<lambda>c.
                let c = (if \<not> called_at_rto \<and> seqGreater old_snd_nxt (snd_nxt (state c))
                         then c\<lparr>state := (state c)\<lparr>snd_nxt := old_snd_nxt\<rparr>\<rparr> else c)
                in ebind (alg_ackSent alg c) (\<lambda>c.
                     Inr (if sack_enabled (state c)
                          then c\<lparr>state := (state c)\<lparr>highRxt := getHighestRexmittedSeqNum (rexmitQ c)\<rparr>\<rparr>
                          else c))))))
        (\<lambda>c. Inr (mark_rexmit False c)))"

function resend :: "u32 \<Rightarrow> ('d, 'z) conn_scheme \<Rightarrow> err + ('d, 'z) conn_scheme" where
  "resend bytesToSend c =
     (if bytesToSend > 0 then
        let bytes = min (min bytesToSend (snd_mss (state c)))
                      (getBytesAvailable (snd_nxt (state c)) (sendQueue c))
        in ebind (sendSegment bytes c) (\<lambda>(sentBytes, c).
             if send_fin (state c) \<and> snd_nxt (state c) = snd_fin_seq (state c) + 1 then Inr c
             else if sentBytes \<le> bytesToSend then resend (bytesToSend - sentBytes) c
             else Inl AssertFailed)
      else Inr c)"
  by pat_completeness auto

termination
  by (relation "measure (\<lambda>(k, c). unat k)") (auto dest!: sendSegment_pos intro: less_sub_pos)

declare resend.simps [simp del]

text \<open>The first case returns before the flag is reset.\<close>

definition retransmitData :: "(('d, 'z) conn_scheme, 'y) tcp_callbacks_scheme \<Rightarrow>
    ('d, 'z) conn_scheme \<Rightarrow> err + ('d, 'z) conn_scheme" where
  "retransmitData alg c =
     (let c = mark_rexmit True c;
          c = c\<lparr>state := (state c)\<lparr>snd_nxt := snd_una (state c)\<rparr>\<rparr>;
          bytesToSend = snd_max (state c) - snd_nxt (state c)
      in if bytesToSend = 0 \<and> send_fin (state c) \<and>
            snd_fin_seq (state c) = sendq_getBufferEndSeq (sendQueue c)
         then resend_fin alg (\<lambda>_. Inr) c
         else ebind (assert_that (bytesToSend \<noteq> 0)) (\<lambda>_.
              ebind (resend bytesToSend c) (\<lambda>c.
              ebind (alg_segmentRetransmitted alg (snd_una (state c)) (snd_nxt (state c)) c) (\<lambda>c.
                Inr (mark_rexmit False c)))))"

section \<open>Limited Transmit and loss recovery\<close>

definition sendOneNewSegment :: "(('d, 'z) conn_scheme, 'y) tcp_callbacks_scheme \<Rightarrow> bool \<Rightarrow> u32 \<Rightarrow>
    ('d, 'z) conn_scheme \<Rightarrow> err + ('d, 'z) conn_scheme" where
  "sendOneNewSegment alg fullSegmentsOnly congestionWindow c =
     ebind (assert_that (limited_transmit_enabled (state c))) (\<lambda>_.
       let s = state c;
           buffered = getBytesAvailable (snd_max s) (sendQueue c);
           outstandingData = snd_max s - snd_una s;
           effectiveWin = min (snd_wnd s) congestionWindow - outstandingData + 2 * snd_mss s;
           bytes = min effectiveWin (snd_mss s)
       in if (\<not> sack_enabled s \<or> sackedBytes_old s \<noteq> sackedBytes s) \<and>
             (buffered \<ge> snd_mss s \<or> (\<not> fullSegmentsOnly \<and> buffered > 0)) \<and>
             outstandingData + snd_mss s \<le> snd_wnd s \<and>
             outstandingData + snd_mss s \<le> congestionWindow + 2 * snd_mss s \<and>
             (bytes \<ge> snd_mss s \<or> (\<not> fullSegmentsOnly \<and> bytes > 0))
          then
            let old_snd_nxt = snd_nxt s
            in ebind (sendSegment bytes (c\<lparr>state := s\<lparr>snd_nxt := snd_max s\<rparr>\<rparr>)) (\<lambda>(sentBytes, c).
                 let c = raise_snd_max c;
                     c = (if afterRto (state c) then c\<lparr>state := (state c)\<lparr>snd_nxt := old_snd_nxt + sentBytes\<rparr>\<rparr>
                          else c)
                 in ebind (alg_ackSent alg c) (alg_dataSent alg old_snd_nxt))
          else Inr c)"

definition sendSegmentDuringLossRecoveryPhase :: "(('d, 'z) conn_scheme, 'y) tcp_callbacks_scheme \<Rightarrow> u32 \<Rightarrow>
    ('d, 'z) conn_scheme \<Rightarrow> err + (u32 \<times> ('d, 'z) conn_scheme)" where
  "sendSegmentDuringLossRecoveryPhase alg seqNum c =
     ebind (assert_that (sack_enabled (state c) \<and> lossRecovery (state c))) (\<lambda>_.
       let c = c\<lparr>state := (state c)\<lparr>snd_nxt := seqNum\<rparr>\<rparr>;
           old_highRxt = getHighestRexmittedSeqNum (rexmitQ c)
       in ebind (sendSegment (snd_mss (state c)) c) (\<lambda>(sentBytes, c).
            let s = state c;
                sentSeqNum = seqNum + sentBytes;
                sentSeqNum = (if send_fin s \<and> sentSeqNum = snd_fin_seq s then sentSeqNum + 1 else sentSeqNum)
            in ebind (assert_that (seqLE (snd_nxt s) sentSeqNum)) (\<lambda>_.
                 let s = (if seqLess seqNum (snd_max s)
                          then s\<lparr>highRxt := getHighestRexmittedSeqNum (rexmitQ c)\<rparr> else s);
                     s = (if seqGreater sentSeqNum (snd_max s) then s\<lparr>snd_max := sentSeqNum\<rparr> else s)
                 in ebind (alg_ackSent alg (c\<lparr>state := s\<rparr>)) (\<lambda>c.
                    ebind (if old_highRxt \<noteq> highRxt (state c) then alg_restartRexmitTimer alg c
                           else alg_dataSent alg seqNum c) (\<lambda>c.
                      Inr (sentBytes, c))))))"

text \<open>
  The loop of step (C); the callbacks may change \<open>pipe\<close>, so it gets a bound on the segments.
\<close>

fun recovery_loop :: "nat \<Rightarrow> (('d, 'z) conn_scheme, 'y) tcp_callbacks_scheme \<Rightarrow> u32 \<Rightarrow>
    ('d, 'z) conn_scheme \<Rightarrow> err + ('d, 'z) conn_scheme" where
  "recovery_loop fuel alg congestionWindow c =
     (if sint congestionWindow - sint (pipe (state c)) \<ge> sint (snd_mss (state c)) then
        (case fuel of
           0 \<Rightarrow> Inl OutOfFuel
         | Suc fuel \<Rightarrow> ebind (nextSeg c) (\<lambda>(sq, c).
             case sq of
               None \<Rightarrow> Inr c
             | Some seqNum \<Rightarrow> ebind (sendSegmentDuringLossRecoveryPhase alg seqNum c) (\<lambda>(sentBytes, c).
                 recovery_loop fuel alg congestionWindow
                   (c\<lparr>state := (state c)\<lparr>pipe := pipe (state c) + sentBytes\<rparr>\<rparr>))))
      else Inr c)"

declare recovery_loop.simps [simp del]

definition sendDataDuringLossRecoveryPhase :: "nat \<Rightarrow> (('d, 'z) conn_scheme, 'y) tcp_callbacks_scheme \<Rightarrow>
    u32 \<Rightarrow> ('d, 'z) conn_scheme \<Rightarrow> err + ('d, 'z) conn_scheme" where
  "sendDataDuringLossRecoveryPhase fuel alg congestionWindow c =
     ebind (assert_that (sack_enabled (state c) \<and> lossRecovery (state c))) (\<lambda>_.
       recovery_loop fuel alg congestionWindow c)"

end
