(* ===== verification/TcpControl.thy ===== *)
theory TcpControl
  imports TcpSend
begin

text \<open>
  What the functions of a connection leave alone: none of \<open>TcpUtil\<close>, \<open>TcpSack\<close> and \<open>TcpSend\<close> changes the state of the
  machine, creates or deletes a timer or goes through a null pointer, provided the callbacks of the
  congestion control do not.

  The collection \<open>control_rules\<close> decomposes a function along its statements: one rule for the
  sequencing by the type of the result, one for each control structure and one for each function
  called; what is left are the updates. The contract of the congestion control is the locale
  \<open>keeps_control\<close>.
\<close>

named_theorems control_rules \<open>\<open>kept\<close> for the functions of a connection\<close>
named_theorems null_rules \<open>the operations of the queues go through no null pointer\<close>

section \<open>The queues\<close>

lemma null_structure [null_rules]:
  "no_null (Inr v)" "no_null (assert_that b)" "e \<noteq> NullPointer \<Longrightarrow> no_null (Inl e)"
  "no_null r \<Longrightarrow> no_null r' \<Longrightarrow> no_null (if b then r else r')"
  "no_null (f t) \<Longrightarrow> no_null (Let t f)"
  by (simp_all add: Let_def)

lemma null_bind [null_rules]: "no_null r \<Longrightarrow> (\<And>x. no_null (g x)) \<Longrightarrow> no_null (ebind r g)"
  by (cases r) simp_all

lemma null_case [null_rules]:
  "no_null r \<Longrightarrow> (\<And>x xs. no_null (g x xs)) \<Longrightarrow> no_null (case l of [] \<Rightarrow> r | x # xs \<Rightarrow> g x xs)"
  "no_null r \<Longrightarrow> (\<And>z. no_null (h z)) \<Longrightarrow> no_null (case opt of None \<Rightarrow> r | Some z \<Rightarrow> h z)"
  "(\<And>a b. no_null (k a b)) \<Longrightarrow> no_null (case p of (a, b) \<Rightarrow> k a b)"
  by (auto split: list.split option.split prod.split)

lemma null_error [null_rules]: "AssertFailed \<noteq> NullPointer" "RuntimeError s \<noteq> NullPointer" "OutOfFuel \<noteq> NullPointer"
  by simp_all

lemma no_null_efold: "(\<And>x s. no_null (f x s)) \<Longrightarrow> no_null (efold f xs s)"
  by (rule safe_efold) simp_all

lemma rexmit_queue_null [null_rules]:
  "no_null (checked q)" "no_null (sq_discardUpTo n q)" "no_null (setSackedBit a b q)"
  "no_null (tail_region a b rs)" "no_null (refresh_bounds rs q)" "no_null (enqueueSentData a b q)"
  "no_null (getNumOfDiscontiguousSacks n q)" "no_null (getAmountOfSackedBytes n q)"
  "no_null (checkSackBlock n q)"
proof -
  show c: "no_null (checked q)" for q by (simp add: checked_def)
  show t: "no_null (tail_region a b rs)" for a b rs
    unfolding tail_region_def by (intro null_rules)
  show r: "no_null (refresh_bounds rs q)" for rs q
    unfolding refresh_bounds_def by (intro null_rules c)
  show "no_null (sq_discardUpTo n q)" unfolding sq_discardUpTo_def by (intro null_rules c)
  show "no_null (setSackedBit a b q)" unfolding setSackedBit_def by (intro null_rules c)
  show "no_null (enqueueSentData a b q)" unfolding enqueueSentData_def by (intro null_rules t r)
  show "no_null (getNumOfDiscontiguousSacks n q)" unfolding getNumOfDiscontiguousSacks_def by (intro null_rules)
  show "no_null (getAmountOfSackedBytes n q)" unfolding getAmountOfSackedBytes_def by (intro null_rules)
  show "no_null (checkSackBlock n q)" unfolding checkSackBlock_def by (intro null_rules)
qed

lemma count_handled_null [null_rules]: "no_null (count_handled rs a b)"
  by (induction rs a b rule: count_handled.induct) simp_all

lemma forward_null [null_rules]: "no_null (checkRexmitQueueForSackedOrRexmittedSegments n q)"
  unfolding checkRexmitQueueForSackedOrRexmittedSegments_def by (intro null_rules)

lemma send_queue_null [null_rules]:
  "no_null (peek_result d)" "no_null (cq_peek n b)" "no_null (cq_peekAt i n b)" "no_null (cq_pop n b)"
  "no_null (cq_push d b)" "no_null (enqueueAppData d q)" "no_null (createSegmentWithBytes f m q)"
  "no_null (sendq_discardUpTo f q)"
proof -
  show p: "no_null (peek_result d)" for d :: "'d list" unfolding peek_result_def by (intro null_rules)
  show k: "no_null (cq_peek n b)" for n and b :: "'d chunk_queue" unfolding cq_peek_def by (intro null_rules p)
  show a: "no_null (cq_peekAt i n b)" for i n and b :: "'d chunk_queue"
    unfolding cq_peekAt_def by (intro null_rules p)
  show o: "no_null (cq_pop n b)" for n and b :: "'d chunk_queue" unfolding cq_pop_def by (intro null_rules k)
  show u: "no_null (cq_push d b)" for d and b :: "'d chunk_queue" unfolding cq_push_def by (intro null_rules)
  show "no_null (enqueueAppData d q)" unfolding enqueueAppData_def by (intro null_rules u)
  show "no_null (createSegmentWithBytes f m q)" unfolding createSegmentWithBytes_def by (intro null_rules a)
  show "no_null (sendq_discardUpTo f q)" unfolding sendq_discardUpTo_def by (intro null_rules o)
qed

lemma receive_queue_null [null_rules]:
  "no_null (clear_range i n rs)" "no_null (popAvailableData n b)" "no_null (replace cb cf i d rs)"
  "no_null (insertBytesFromSegment cb cf sq d q)" "no_null (extractBytesUpTo sq q)"
proof -
  show c: "no_null (clear_range i n rs)" for i n and rs :: "'d chunk_region list"
    unfolding clear_range_def by (intro null_rules)
  show p: "no_null (popAvailableData n b)" for n and b :: "'d reorder_buffer"
    unfolding popAvailableData_def by (intro null_rules c)
  show r: "no_null (replace cb cf i d rs)" for cb cf i d and rs :: "'d chunk_region list"
    unfolding replace_def by (intro null_rules)
  show "no_null (insertBytesFromSegment cb cf sq d q)" unfolding insertBytesFromSegment_def by (intro null_rules r)
  show "no_null (extractBytesUpTo sq q)" unfolding extractBytesUpTo_def by (intro null_rules p)
qed

lemma deliver_null [null_rules]: "no_null (deliver sq sock q out)"
proof (induction sq sock q out rule: deliver.induct)
  case (1 sq sock q out)
  have "no_null (extractBytesUpTo sq q)" by (rule null_rules)
  then show ?case
    using 1 by (subst deliver.simps) (auto split: sum.splits option.splits)
qed

section \<open>The estimates\<close>

lemma isLost_null [null_rules]: "no_null (isLost sq s q)"
  unfolding isLost_def by (intro null_rules)

lemma pipe_from_null [null_rules]: "no_null (pipe_from s q s1 acc)"
proof (induction s q s1 acc rule: pipe_from.induct)
  case (1 s q s1 acc)
  have "no_null (checkSackBlock s1 q)" "no_null (isLost s1 s q)" by (rule null_rules)+
  then show ?case
    using 1 by (subst pipe_from.simps) (cases "checkSackBlock s1 q"; cases "isLost s1 s q"; auto)
qed

lemma first_unsacked_null [null_rules]: "no_null (first_unsacked mx hs q s2)"
proof (induction mx hs q s2 rule: first_unsacked.induct)
  case (1 mx hs q s2)
  have "no_null (checkSackBlock s2 q)" by (rule null_rules)
  then show ?case using 1 by (subst first_unsacked.simps) (cases "checkSackBlock s2 q"; auto)
qed

lemma sacks_null [null_rules]: "no_null (prune_sacks n l)" "no_null (drop_contained l)" "no_null (push_sack rq s)"
proof -
  show "no_null (prune_sacks n l)" by (induction l) (auto intro: null_rules)
  show d: "no_null (drop_contained l)" for l by (induction l rule: drop_contained.induct) (auto intro: null_rules)
  show "no_null (push_sack rq s)" unfolding push_sack_def by (intro null_rules d)
qed

lemma sack_received_null: "no_null (sack_received a u t q)"
  unfolding sack_received_def by (intro null_rules)

section \<open>The rules\<close>

lemma control_update [control_rules]:
  "kept ok c x \<Longrightarrow> kept ok c (state_update f x)"
  "kept ok c x \<Longrightarrow> kept ok c (rexmitQ_update g x)"
  "kept ok c x \<Longrightarrow> kept ok c (receiveQueue_update h x)"
  "kept ok c x \<Longrightarrow> kept ok c (sendQueue_update k x)"
  "kept ok c x \<Longrightarrow> kept ok c (outbox_update l x)"
  "kept ok c x \<Longrightarrow> kept ok c (listeningSocketId_update n x)"
  "kept ok c x \<Longrightarrow> kept ok c (ttl_update n x)"
  "kept ok c x \<Longrightarrow> kept ok c (tos_update n x)"
  "kept ok c x \<Longrightarrow> kept ok c (dscp_update n x)"
  by (simp_all add: kept_def same_control_def same_socket_def)

lemma control_structure [control_rules]:
  "kept ok c x \<Longrightarrow> kept ok c y \<Longrightarrow> kept ok c (if b then x else y)"
  "kept ok c x \<Longrightarrow> safe (kept ok c) (Inr x)"
  "kept ok c x \<Longrightarrow> safe (\<lambda>(a, y). kept ok c y) (Inr (v, x))"
  "safe P (f t) \<Longrightarrow> safe P (Let t f)"
  "(b \<Longrightarrow> safe P r) \<Longrightarrow> (\<not> b \<Longrightarrow> safe P r') \<Longrightarrow> safe P (if b then r else r')"
  "e \<noteq> NullPointer \<Longrightarrow> safe P (Inl e)"
  "kept ok c x \<Longrightarrow> safe (\<lambda>(a, b, y). kept ok c y) (Inr (v, w, x))"
  by (simp_all add: Let_def)

lemma control_case [control_rules]:
  "safe P r \<Longrightarrow> (\<And>z. safe P (g z)) \<Longrightarrow> safe P (case opt of None \<Rightarrow> r | Some z \<Rightarrow> g z)"
  by (cases opt) simp_all

lemma control_bind_generic:
  fixes c :: "('d, 'z) conn_scheme"
  shows "safe (kept ok c) r1 \<Longrightarrow> (\<And>x. kept ok c x \<Longrightarrow> safe P (f1 x)) \<Longrightarrow> safe P (ebind r1 f1)"
    and "safe (\<lambda>(a, y). kept ok c y) r2 \<Longrightarrow> (\<And>a x. kept ok c x \<Longrightarrow> safe P (f2 a x)) \<Longrightarrow>
      safe P (ebind r2 (case_prod f2))"
    and "safe (\<lambda>(a, b, y). kept ok c y) r3 \<Longrightarrow> (\<And>a b x. kept ok c x \<Longrightarrow> safe P (f3 a b x)) \<Longrightarrow>
      safe P (ebind r3 (case_prod (\<lambda>a. case_prod (f3 a))))"
  by (auto elim!: safe_mono)

text \<open>The instances for the results that end in a connection.\<close>

lemma control_bind [control_rules]:
  fixes c :: "('d, 'z) conn_scheme"
  shows
    "safe (kept ok c) r1 \<Longrightarrow> (\<And>x. kept ok c x \<Longrightarrow> safe (kept ok c) (f1 x)) \<Longrightarrow>
      safe (kept ok c) (ebind r1 f1)"
    "safe (\<lambda>(a, y). kept ok c y) r2 \<Longrightarrow> (\<And>a x. kept ok c x \<Longrightarrow> safe (kept ok c) (f2 a x)) \<Longrightarrow>
      safe (kept ok c) (ebind r2 (case_prod f2))"
    "safe (\<lambda>(a, b, y). kept ok c y) r3 \<Longrightarrow> (\<And>a b x. kept ok c x \<Longrightarrow> safe (kept ok c) (f3 a b x)) \<Longrightarrow>
      safe (kept ok c) (ebind r3 (case_prod (\<lambda>a. case_prod (f3 a))))"
    "safe (kept ok c) r4 \<Longrightarrow> (\<And>x. kept ok c x \<Longrightarrow> safe (\<lambda>(a, y). kept ok c y) (f4 x)) \<Longrightarrow>
      safe (\<lambda>(a, y). kept ok c y) (ebind r4 f4)"
    "safe (\<lambda>(a, y). kept ok c y) r5 \<Longrightarrow> (\<And>a x. kept ok c x \<Longrightarrow> safe (\<lambda>(a, y). kept ok c y) (f5 a x)) \<Longrightarrow>
      safe (\<lambda>(a, y). kept ok c y) (ebind r5 (case_prod f5))"
    "safe (\<lambda>(a, b, y). kept ok c y) r6 \<Longrightarrow> (\<And>a b x. kept ok c x \<Longrightarrow> safe (\<lambda>(a, y). kept ok c y) (f6 a b x)) \<Longrightarrow>
      safe (\<lambda>(a, y). kept ok c y) (ebind r6 (case_prod (\<lambda>a. case_prod (f6 a))))"
    "safe (kept ok c) r7 \<Longrightarrow> (\<And>x. kept ok c x \<Longrightarrow> safe (\<lambda>(a, b, y). kept ok c y) (f7 x)) \<Longrightarrow>
      safe (\<lambda>(a, b, y). kept ok c y) (ebind r7 f7)"
    "safe (\<lambda>(a, y). kept ok c y) r8 \<Longrightarrow> (\<And>a x. kept ok c x \<Longrightarrow> safe (\<lambda>(a, b, y). kept ok c y) (f8 a x)) \<Longrightarrow>
      safe (\<lambda>(a, b, y). kept ok c y) (ebind r8 (case_prod f8))"
    "safe (\<lambda>(a, b, y). kept ok c y) r9 \<Longrightarrow> (\<And>a b x. kept ok c x \<Longrightarrow> safe (\<lambda>(a, b, y). kept ok c y) (f9 a b x)) \<Longrightarrow>
      safe (\<lambda>(a, b, y). kept ok c y) (ebind r9 (case_prod (\<lambda>a. case_prod (f9 a))))"
  by (rule control_bind_generic; assumption)+

text \<open>Results that are no connection say nothing about it.\<close>

lemma no_null_bind: "no_null r \<Longrightarrow> (\<And>x. safe P (f x)) \<Longrightarrow> safe P (ebind r f)"
  by (cases r) simp_all

lemma control_skip [control_rules]:
  fixes w :: "err + 'w::len word" and u :: "err + unit" and q :: "err + rexmit_queue"
    and l :: "err + 'e list" and b :: "err + bool" and sq :: "err + 'd send_queue"
    and rq :: "err + 'd receive_queue" and opt :: "err + 'o option" and bl :: "err + bool \<times> 'e list"
    and rv :: "err + 'd receive_queue \<times> 'e list" and t :: "err + timer"
  shows "no_null w \<Longrightarrow> (\<And>x. safe P (f1 x)) \<Longrightarrow> safe P (ebind w f1)"
    "no_null u \<Longrightarrow> (\<And>x. safe P (f2 x)) \<Longrightarrow> safe P (ebind u f2)"
    "no_null q \<Longrightarrow> (\<And>x. safe P (f3 x)) \<Longrightarrow> safe P (ebind q f3)"
    "no_null l \<Longrightarrow> (\<And>x. safe P (f4 x)) \<Longrightarrow> safe P (ebind l f4)"
    "no_null b \<Longrightarrow> (\<And>x. safe P (f5 x)) \<Longrightarrow> safe P (ebind b f5)"
    "no_null sq \<Longrightarrow> (\<And>x. safe P (f6 x)) \<Longrightarrow> safe P (ebind sq f6)"
    "no_null rq \<Longrightarrow> (\<And>x. safe P (f7 x)) \<Longrightarrow> safe P (ebind rq f7)"
    "no_null opt \<Longrightarrow> (\<And>x. safe P (f8 x)) \<Longrightarrow> safe P (ebind opt f8)"
    "no_null bl \<Longrightarrow> (\<And>a y. safe P (f9 a y)) \<Longrightarrow> safe P (ebind bl (case_prod f9))"
    "no_null rv \<Longrightarrow> (\<And>a y. safe P (f10 a y)) \<Longrightarrow> safe P (ebind rv (case_prod f10))"
    "no_null t \<Longrightarrow> (\<And>x. safe P (f11 x)) \<Longrightarrow> safe P (ebind t f11)"
  by (auto intro: no_null_bind simp: split_def simp del: safe_simps)

section \<open>The functions that do not call back\<close>

lemma sendToIP_control [control_rules]: "kept ok c x \<Longrightarrow> safe (kept ok c) (sendToIP h d x)"
  unfolding sendToIP_def by (intro control_rules null_rules)

lemma sendToIP_between_control [control_rules]:
  "kept ok c x \<Longrightarrow> safe (kept ok c) (sendToIP_between h d a b x)"
  unfolding sendToIP_between_def by (intro control_rules null_rules)

lemma sendRst_control [control_rules]:
  "kept ok c x \<Longrightarrow> safe (kept ok c) (sendRst_between sq a b sp dp x)"
  "kept ok c x \<Longrightarrow> safe (kept ok c) (sendRst sq x)"
  unfolding sendRst_def sendRst_between_def by (intro control_rules null_rules; assumption)+

lemma send_app_control [control_rules]:
  "kept ok c x \<Longrightarrow> kept ok c (sendToApp m x)"
  "kept ok c x \<Longrightarrow> kept ok c (sendIndicationToApp i n x)"
  "kept ok c x \<Longrightarrow> kept ok c (sendEstabIndicationToApp x)"
  "kept ok c x \<Longrightarrow> kept ok c (sendAvailableIndicationToApp x)"
  unfolding sendIndicationToApp_def sendEstabIndicationToApp_def sendAvailableIndicationToApp_def sendToApp_def
  by (intro control_rules null_rules; assumption)+

lemma updateRcvQueueVars_control [control_rules]:
  "kept ok c x \<Longrightarrow> kept ok c (updateRcvQueueVars x)"
  unfolding updateRcvQueueVars_def Let_def by (intro control_rules null_rules)

lemma updateRcvWnd_control [control_rules]:
  "kept ok c x \<Longrightarrow> safe (\<lambda>(a, y). kept ok c y) (updateRcvWnd x)"
  unfolding updateRcvWnd_def by (intro control_rules null_rules)

lemma updateWndInfo_control [control_rules]:
  "kept ok c x \<Longrightarrow> kept ok c (updateWndInfo h b x)"
  unfolding updateWndInfo_def Let_def by (intro control_rules null_rules)

lemma selectInitialSeqNum_control [control_rules]:
  "kept ok c x \<Longrightarrow> kept ok c (selectInitialSeqNum x)"
  unfolding selectInitialSeqNum_def Let_def by (intro control_rules null_rules)

lemma sendAllDataToApp_control [control_rules]:
  "kept ok c x \<Longrightarrow> safe (kept ok c) (sendAllDataToApp x)"
  unfolding sendAllDataToApp_def by (intro control_rules null_rules)

lemma sendAvailableDataToApp_control [control_rules]:
  "kept ok c x \<Longrightarrow> safe (kept ok c) (sendAvailableDataToApp x)"
  unfolding sendAvailableDataToApp_def by (intro control_rules null_rules)

lemma addSacks_control [control_rules]:
  "kept ok c x \<Longrightarrow> safe (\<lambda>(a, y). kept ok c y) (addSacks h x)"
  unfolding addSacks_def by (intro control_rules null_rules)

lemma setPipe_control [control_rules]:
  "kept ok c x \<Longrightarrow> safe (kept ok c) (setPipe x)"
  unfolding setPipe_def by (intro control_rules null_rules)

lemma nextSeg_control [control_rules]:
  "kept ok c x \<Longrightarrow> safe (\<lambda>(a, y). kept ok c y) (nextSeg x)"
  unfolding nextSeg_def by (intro control_rules null_rules)

lemma processSACKOption_control [control_rules]:
  "kept ok c x \<Longrightarrow> safe (\<lambda>(a, y). kept ok c y) (processSACKOption h n l x)"
  unfolding processSACKOption_def by (intro control_rules null_rules no_null_efold sack_received_null)

lemma process_options_control [control_rules]:
  "kept ok c x \<Longrightarrow> kept ok c (processMSSOption n m x)"
  "kept ok c x \<Longrightarrow> kept ok c (processWSOption n m x)"
  "kept ok c x \<Longrightarrow> kept ok c (processTSOption h n t x)"
  "kept ok c x \<Longrightarrow> kept ok c (processSACKPermittedOption n x)"
  unfolding processMSSOption_def processWSOption_def processTSOption_def processSACKPermittedOption_def Let_def
  by (intro control_rules; assumption)+

lemma processOption_control [control_rules]:
  "kept ok c x \<Longrightarrow> safe (kept ok c) (processOption h opt x)"
  by (cases opt) (simp_all only: processOption.simps, (intro control_rules null_rules; assumption)+)

lemma readHeaderOptions_control [control_rules]:
  "kept ok c x \<Longrightarrow> safe (kept ok c) (readHeaderOptions h x)"
  unfolding readHeaderOptions_def by (rule safe_efold) (rule control_rules)

lemma control_pair [control_rules]:
  "kept ok c (snd p) \<Longrightarrow> (\<And>a y. kept ok c y \<Longrightarrow> safe (kept ok c) (f a y)) \<Longrightarrow>
    safe (kept ok c) (case p of (a, y) \<Rightarrow> f a y)"
  "kept ok c (snd p) \<Longrightarrow> (\<And>a y. kept ok c y \<Longrightarrow> safe (\<lambda>(b, y). kept ok c y) (g a y)) \<Longrightarrow>
    safe (\<lambda>(b, y). kept ok c y) (case p of (a, y) \<Rightarrow> g a y)"
  "kept ok c y \<Longrightarrow> kept ok c (snd (h, y))"
  "kept ok c (snd p) \<Longrightarrow> kept ok c (snd p') \<Longrightarrow> kept ok c (snd (if b then p else p'))"
  by (auto split: prod.split)

lemma write_control [control_rules]:
  "kept ok c (snd p) \<Longrightarrow> kept ok c (snd (write_mss p))"
  "kept ok c (snd p) \<Longrightarrow> kept ok c (snd (write_ws p))"
  "kept ok c (snd p) \<Longrightarrow> kept ok c (snd (write_sack_permitted p))"
  "kept ok c (snd p) \<Longrightarrow> kept ok c (snd (write_initial_ts p))"
  "kept ok c (snd p) \<Longrightarrow> kept ok c (snd (write_ts p))"
  unfolding write_mss_def write_ws_def write_sack_permitted_def write_initial_ts_def write_ts_def Let_def
  by (cases p; simp only: prod.case snd_conv; intro control_rules; assumption)+

lemma writeHeaderOptions_control [control_rules]:
  "kept ok c x \<Longrightarrow> safe (\<lambda>(a, y). kept ok c y) (writeHeaderOptions h x)"
  unfolding writeHeaderOptions_def by (intro control_rules null_rules)

lemma sendSyn_control [control_rules]: "kept ok c x \<Longrightarrow> safe (kept ok c) (sendSyn x)"
  unfolding sendSyn_def by (intro control_rules null_rules)

section \<open>Segments with data\<close>

lemma sendSegment_control [control_rules]:
  "kept ok c x \<Longrightarrow> safe (kept ok c) (forward_over_sacked x)"
  "kept ok c x \<Longrightarrow> safe (\<lambda>(a, b, y). kept ok c y) (plan_segment n x)"
  "kept ok c x \<Longrightarrow> kept ok c (requestData x)"
  "kept ok c x \<Longrightarrow> kept ok c (raise_snd_max x)"
  "kept ok c x \<Longrightarrow> safe (kept ok c) (transmit h n x)"
  "kept ok c x \<Longrightarrow> safe (\<lambda>(a, y). kept ok c y) (sendSegment n x)"
proof -
  show f: "kept ok c x \<Longrightarrow> safe (kept ok c) (forward_over_sacked x)" for x
    unfolding forward_over_sacked_def by (intro control_rules null_rules)
  show p: "kept ok c x \<Longrightarrow> safe (\<lambda>(a, b, y). kept ok c y) (plan_segment n x)" for x
    unfolding plan_segment_def by (intro control_rules null_rules)
  show r: "kept ok c x \<Longrightarrow> kept ok c (requestData x)" for x
    unfolding requestData_def Let_def by (intro control_rules null_rules)
  show m: "kept ok c x \<Longrightarrow> kept ok c (raise_snd_max x)" for x
    unfolding raise_snd_max_def by (intro control_rules null_rules)
  show t: "kept ok c x \<Longrightarrow> safe (kept ok c) (transmit h n x)" for x h n
    unfolding transmit_def by (intro control_rules null_rules r m)
  show "kept ok c x \<Longrightarrow> safe (\<lambda>(a, y). kept ok c y) (sendSegment n x)"
    unfolding sendSegment_def by (intro control_rules null_rules f p t)
qed

lemma send_whole_control [control_rules]:
  "kept ok c x \<Longrightarrow> safe (\<lambda>(a, y). kept ok c y) (send_whole m n x)"
proof (induction m n x rule: send_whole.induct)
  case (1 m n x)
  have "safe (\<lambda>(a, y). kept ok c y) (sendSegment m x)" by (intro control_rules 1)
  then show ?case using 1 by (subst send_whole.simps) (cases "sendSegment m x"; auto)
qed

lemma resend_control [control_rules]: "kept ok c x \<Longrightarrow> safe (kept ok c) (resend n x)"
proof (induction n x rule: resend.induct)
  case (1 n x)
  let ?b = "min (min n (snd_mss (state x))) (getBytesAvailable (snd_nxt (state x)) (sendQueue x))"
  have "safe (\<lambda>(a, y). kept ok c y) (sendSegment ?b x)" by (intro control_rules 1)
  then show ?case using 1 by (subst resend.simps) (cases "sendSegment ?b x"; auto simp: Let_def)
qed

lemma send_rest_control [control_rules]: "kept ok c x \<Longrightarrow> safe (kept ok c) (send_rest n x)"
  unfolding send_rest_def by (intro control_rules null_rules)

lemma mark_rexmit_control [control_rules]: "kept ok c x \<Longrightarrow> kept ok c (mark_rexmit b x)"
  unfolding mark_rexmit_def by (intro control_rules)

section \<open>The contract of the congestion control\<close>

text \<open>
  What the sending functions rely on: the callbacks keep the control state and the invariant \<open>ok\<close> of the
  algorithm's own state, under which they go through no null pointer.
\<close>

locale keeps_control =
  fixes alg :: "(('d, 'z) conn_scheme, 'y) tcp_callbacks_scheme" and ok :: "'z \<Rightarrow> bool"
  assumes ackSent_keeps: "ok (conn.more x) \<Longrightarrow> safe (kept ok x) (alg_ackSent alg x)"
    and dataSent_keeps: "ok (conn.more x) \<Longrightarrow> safe (kept ok x) (alg_dataSent alg n x)"
    and segmentRetransmitted_keeps: "ok (conn.more x) \<Longrightarrow> safe (kept ok x) (alg_segmentRetransmitted alg n m x)"
    and restartRexmitTimer_keeps: "ok (conn.more x) \<Longrightarrow> safe (kept ok x) (alg_restartRexmitTimer alg x)"
    and shouldMarkAck_keeps: "ok (conn.more x) \<Longrightarrow> kept ok x (snd (alg_shouldMarkAck alg x))"

lemma kept_along: "kept ok c x \<Longrightarrow> (ok (conn.more x) \<Longrightarrow> safe (kept ok x) r) \<Longrightarrow> safe (kept ok c) r"
  by (rule safe_mono [of "kept ok x"]) (auto simp: kept_def intro: same_control_trans)

context keeps_control
begin

lemma callback_rules [control_rules]:
  "kept ok c x \<Longrightarrow> safe (kept ok c) (alg_ackSent alg x)"
  "kept ok c x \<Longrightarrow> safe (kept ok c) (alg_dataSent alg n x)"
  "kept ok c x \<Longrightarrow> safe (kept ok c) (alg_segmentRetransmitted alg n m x)"
  "kept ok c x \<Longrightarrow> safe (kept ok c) (alg_restartRexmitTimer alg x)"
  "kept ok c x \<Longrightarrow> kept ok c (snd (alg_shouldMarkAck alg x))"
  by (blast intro: kept_along ackSent_keeps dataSent_keeps segmentRetransmitted_keeps restartRexmitTimer_keeps)+
    (use shouldMarkAck_keeps kept_trans in \<open>auto simp: kept_def intro: same_control_trans\<close>)

lemma control_segment_rules [control_rules]:
  "kept ok c x \<Longrightarrow> safe (kept ok c) (sendSynAck alg x)"
  "kept ok c x \<Longrightarrow> safe (kept ok c) (sendRstAck alg sq ack a b sp dp x)"
  "kept ok c x \<Longrightarrow> safe (kept ok c) (sendFin alg x)"
  "kept ok c x \<Longrightarrow> safe (kept ok c) (sendAck alg x)"
  unfolding sendSynAck_def sendRstAck_def sendFin_def sendAck_def
  by (intro control_rules null_rules; assumption)+

lemma data_rules [control_rules]:
  "kept ok c x \<Longrightarrow> safe (kept ok c) (notify_sent alg a b x)"
  "kept ok c x \<Longrightarrow> safe (\<lambda>(a, y). kept ok c y) (sendData alg n x)"
  "kept ok c x \<Longrightarrow> safe (\<lambda>(a, y). kept ok c y) (sendProbe alg x)"
proof -
  show n: "kept ok c x \<Longrightarrow> safe (kept ok c) (notify_sent alg a b x)" for a b x
    unfolding notify_sent_def by (intro control_rules null_rules)
  show "kept ok c x \<Longrightarrow> safe (\<lambda>(a, y). kept ok c y) (sendData alg n x)"
    unfolding sendData_def by (intro control_rules null_rules n)
  show "kept ok c x \<Longrightarrow> safe (\<lambda>(a, y). kept ok c y) (sendProbe alg x)"
    unfolding sendProbe_def by (intro control_rules null_rules)
qed

lemma resend_fin_rules [control_rules]:
  "kept ok c x \<Longrightarrow> safe (kept ok c) (resend_fin alg (\<lambda>n. alg_segmentRetransmitted alg n (n + 1)) x)"
  "kept ok c x \<Longrightarrow> safe (kept ok c) (resend_fin alg (\<lambda>_. Inr) x)"
  unfolding resend_fin_def by (intro control_rules null_rules; assumption)+

lemma retransmit_rules [control_rules]:
  "kept ok c x \<Longrightarrow> safe (kept ok c) (retransmitOneSegment alg b x)"
  "kept ok c x \<Longrightarrow> safe (kept ok c) (retransmitData alg x)"
  unfolding retransmitOneSegment_def retransmitData_def by (intro control_rules null_rules; assumption)+

lemma recovery_rules [control_rules]:
  "kept ok c x \<Longrightarrow> safe (kept ok c) (sendOneNewSegment alg b n x)"
  "kept ok c x \<Longrightarrow> safe (\<lambda>(a, y). kept ok c y) (sendSegmentDuringLossRecoveryPhase alg sq x)"
  unfolding sendOneNewSegment_def sendSegmentDuringLossRecoveryPhase_def
  by (intro control_rules null_rules; assumption)+

lemma recovery_loop_rule [control_rules]: "kept ok c x \<Longrightarrow> safe (kept ok c) (recovery_loop n alg w x)"
proof (induction n arbitrary: x)
  case 0
  then show ?case by (subst recovery_loop.simps) simp
next
  case (Suc n)
  have IH: "kept ok c y \<Longrightarrow> safe (kept ok c) (recovery_loop n alg w y)" for y by (rule Suc.IH)
  show ?case
    by (subst recovery_loop.simps, simp only: nat.case) (intro control_rules null_rules IH Suc.prems)
qed

lemma loss_recovery_rule [control_rules]:
  "kept ok c x \<Longrightarrow> safe (kept ok c) (sendDataDuringLossRecoveryPhase n alg w x)"
  unfolding sendDataDuringLossRecoveryPhase_def by (intro control_rules null_rules)

end

end
