(* ===== verification/TcpSockets.thy ===== *)
theory TcpSockets
  imports TcpFsm "HOL-Library.Multiset"
begin

text \<open>
  The tables of the TCP module (\<open>Tcp.cc\<close>): connections by socket id and by socket pair, and the ephemeral
  ports in use. A connection object is identified by a number, as the C++ code uses its address.
\<close>

section \<open>The tables\<close>

definition EPHEMERAL_PORTRANGE_START :: int where
  "EPHEMERAL_PORTRANGE_START = 1024"

definition EPHEMERAL_PORTRANGE_END :: int where
  "EPHEMERAL_PORTRANGE_END = 5000"

record sock_pair =
  sp_localAddr :: L3Address
  sp_remoteAddr :: L3Address
  sp_localPort :: int
  sp_remotePort :: int

type_synonym conn_id = nat

record tcp_tables =
  tcpAppConnMap :: "int \<Rightarrow> conn_id option"
  tcpConnMap :: "sock_pair \<Rightarrow> conn_id option"
  lastEphemeralPort :: u16
  usedEphemeralPorts :: "u16 multiset"

text \<open>\<open>Tcp::initialize\<close> and \<open>Tcp::reset\<close> leave the tables like this.\<close>

definition tables_new :: tcp_tables where
  "tables_new = \<lparr>tcpAppConnMap = (\<lambda>_. None), tcpConnMap = (\<lambda>_. None),
     lastEphemeralPort = word_of_int EPHEMERAL_PORTRANGE_START, usedEphemeralPorts = {#}\<rparr>"

definition sock_pair_of :: "('d, 'z) conn_scheme \<Rightarrow> sock_pair" where
  "sock_pair_of c = \<lparr>sp_localAddr = localAddr c, sp_remoteAddr = remoteAddr c,
     sp_localPort = localPort c, sp_remotePort = remotePort c\<rparr>"

section \<open>Operations\<close>

definition findConnForApp :: "int \<Rightarrow> tcp_tables \<Rightarrow> conn_id option" where
  "findConnForApp sock t = tcpAppConnMap t sock"

text \<open>The four keys a segment is looked up with, the most specific one first.\<close>

definition segment_keys :: "tcp_header \<Rightarrow> L3Address \<Rightarrow> L3Address \<Rightarrow> sock_pair list" where
  "segment_keys hdr src dest =
     (let key = \<lparr>sp_localAddr = dest, sp_remoteAddr = src, sp_localPort = destPort hdr,
                 sp_remotePort = srcPort hdr\<rparr>;
          blank = key\<lparr>sp_remoteAddr := Unspecified, sp_remotePort := - 1\<rparr>
      in [key, key\<lparr>sp_localAddr := Unspecified\<rparr>, blank, blank\<lparr>sp_localAddr := Unspecified\<rparr>])"

definition findConnForSegment :: "tcp_header \<Rightarrow> L3Address \<Rightarrow> L3Address \<Rightarrow> tcp_tables \<Rightarrow> conn_id option" where
  "findConnForSegment hdr src dest t =
     (case find (\<lambda>k. tcpConnMap t k \<noteq> None) (segment_keys hdr src dest) of
        None \<Rightarrow> None | Some k \<Rightarrow> tcpConnMap t k)"

definition next_port :: "u16 \<Rightarrow> u16" where
  "next_port p = (if p + 1 = word_of_int EPHEMERAL_PORTRANGE_END
     then word_of_int EPHEMERAL_PORTRANGE_START else p + 1)"

text \<open>
  The search for a free port, with a bound on the steps: once around the range is enough when the last
  port is in the range, which it always is after \<open>initialize\<close>.
\<close>

function search_port :: "nat \<Rightarrow> u16 \<Rightarrow> u16 multiset \<Rightarrow> u16 \<Rightarrow> err + u16" where
  "search_port fuel searchUntil used p =
     (if p \<in># used then
        if p = searchUntil then Inl (RuntimeError ''Ephemeral port range exhausted, all ports occupied'')
        else if fuel = 0 then Inl OutOfFuel
        else search_port (fuel - 1) searchUntil used (next_port p)
      else Inr p)"
  by pat_completeness auto

termination by (relation "measure fst") auto

declare search_port.simps [simp del]

definition getEphemeralPort :: "tcp_tables \<Rightarrow> err + (u16 \<times> tcp_tables)" where
  "getEphemeralPort t =
     ebind (search_port (nat (EPHEMERAL_PORTRANGE_END - EPHEMERAL_PORTRANGE_START)) (lastEphemeralPort t)
         (usedEphemeralPorts t) (next_port (lastEphemeralPort t))) (\<lambda>p.
       Inr (p, t\<lparr>lastEphemeralPort := p\<rparr>))"

definition addSockPair :: "conn_id \<Rightarrow> L3Address \<Rightarrow> L3Address \<Rightarrow> int \<Rightarrow> int \<Rightarrow> tcp_tables \<Rightarrow>
    ('d, 'z) conn_scheme \<Rightarrow> err + (tcp_tables \<times> ('d, 'z) conn_scheme)" where
  "addSockPair i local remote lport rport t c =
     (let c = c\<lparr>localAddr := local, remoteAddr := remote, localPort := lport, remotePort := rport\<rparr>;
          key = sock_pair_of c
      in if tcpConnMap t key \<noteq> None then Inl (RuntimeError ''Address already in use'')
         else Inr (t\<lparr>tcpConnMap := (tcpConnMap t)(key \<mapsto> i),
                usedEphemeralPorts := (if EPHEMERAL_PORTRANGE_START \<le> lport \<and> lport < EPHEMERAL_PORTRANGE_END
                  then add_mset (word_of_int lport) (usedEphemeralPorts t) else usedEphemeralPorts t)\<rparr>, c))"

definition updateSockPair :: "conn_id \<Rightarrow> L3Address \<Rightarrow> L3Address \<Rightarrow> int \<Rightarrow> int \<Rightarrow> tcp_tables \<Rightarrow>
    ('d, 'z) conn_scheme \<Rightarrow> err + (tcp_tables \<times> ('d, 'z) conn_scheme)" where
  "updateSockPair i local remote lport rport t c =
     ebind (assert_that (tcpConnMap t (sock_pair_of c) = Some i)) (\<lambda>_.
       let m = (tcpConnMap t)(sock_pair_of c := None);
           c = c\<lparr>localAddr := local, remoteAddr := remote\<rparr>
       in ebind (assert_that (localPort c = lport)) (\<lambda>_.
            let c = c\<lparr>remotePort := rport\<rparr>
            in Inr (t\<lparr>tcpConnMap := m(sock_pair_of c \<mapsto> i)\<rparr>, c)))"

text \<open>\<open>newConn\<close> is registered under its socket pair and its socket id.\<close>

definition addForkedConnection :: "conn_id \<Rightarrow> L3Address \<Rightarrow> L3Address \<Rightarrow> int \<Rightarrow> int \<Rightarrow> tcp_tables \<Rightarrow>
    ('d, 'z) conn_scheme \<Rightarrow> err + (tcp_tables \<times> ('d, 'z) conn_scheme)" where
  "addForkedConnection i local remote lport rport t newConn =
     ebind (addSockPair i local remote lport rport t newConn) (\<lambda>(t, newConn).
       Inr (t\<lparr>tcpAppConnMap := (tcpAppConnMap t)(socketId newConn \<mapsto> i)\<rparr>, newConn))"

text \<open>One occurrence of the port only is taken out of the ports in use.\<close>

definition removeConnection :: "('d, 'z) conn_scheme \<Rightarrow> tcp_tables \<Rightarrow> tcp_tables" where
  "removeConnection c t = t\<lparr>tcpAppConnMap := (tcpAppConnMap t)(socketId c := None),
     tcpConnMap := (tcpConnMap t)(sock_pair_of c := None),
     usedEphemeralPorts := usedEphemeralPorts t - {#word_of_int (localPort c)#}\<rparr>"

section \<open>What the operations do to the map of socket pairs\<close>

text \<open>A new entry for connection \<open>i\<close>, or its entry moved from one socket pair to another.\<close>

definition registered :: "conn_id \<Rightarrow> tcp_tables \<Rightarrow> tcp_tables \<Rightarrow> ('d, 'z) conn_scheme \<Rightarrow> bool" where
  "registered i t t' c = (tcpConnMap t (sock_pair_of c) = None \<and>
     tcpConnMap t' = (tcpConnMap t)(sock_pair_of c \<mapsto> i) \<and> tcpAppConnMap t' = tcpAppConnMap t)"

definition moved :: "conn_id \<Rightarrow> tcp_tables \<Rightarrow> tcp_tables \<Rightarrow> ('d, 'z) conn_scheme \<Rightarrow> ('d, 'z) conn_scheme \<Rightarrow> bool" where
  "moved i t t' c c' = (tcpConnMap t (sock_pair_of c) = Some i \<and>
     tcpConnMap t' = (tcpConnMap t)(sock_pair_of c := None, sock_pair_of c' \<mapsto> i) \<and>
     tcpAppConnMap t' = tcpAppConnMap t)"

definition forked :: "conn_id \<Rightarrow> tcp_tables \<Rightarrow> tcp_tables \<Rightarrow> ('d, 'z) conn_scheme \<Rightarrow> bool" where
  "forked i t t' c = (tcpConnMap t (sock_pair_of c) = None \<and>
     tcpConnMap t' = (tcpConnMap t)(sock_pair_of c \<mapsto> i) \<and>
     tcpAppConnMap t' = (tcpAppConnMap t)(socketId c \<mapsto> i))"

lemma sock_pair_of_same: "same_socket c c' \<Longrightarrow> sock_pair_of c' = sock_pair_of c"
  by (simp add: same_socket_def sock_pair_of_def)

lemma addSockPair_result:
  "safe (\<lambda>(t', c'). c' = c\<lparr>localAddr := a, remoteAddr := b, localPort := n, remotePort := m\<rparr> \<and> registered i t t' c')
     (addSockPair i a b n m t c)"
  by (simp add: addSockPair_def registered_def Let_def)

lemma updateSockPair_result:
  "safe (\<lambda>(t', c'). c' = c\<lparr>localAddr := a, remoteAddr := b, remotePort := m\<rparr> \<and> localPort c' = n \<and> moved i t t' c c')
     (updateSockPair i a b n m t c)"
  by (simp add: updateSockPair_def moved_def Let_def)

lemma addForkedConnection_result:
  "safe (\<lambda>(t', c'). c' = c\<lparr>localAddr := a, remoteAddr := b, localPort := n, remotePort := m\<rparr> \<and>
       forked i t t' c')
     (addForkedConnection i a b n m t c)"
  by (simp add: addForkedConnection_def addSockPair_def forked_def Let_def)

section \<open>Ports\<close>

definition port_in_range :: "u16 \<Rightarrow> bool" where
  "port_in_range p = (1024 \<le> unat p \<and> unat p < 5000)"

text \<open>The \<open>k\<close>-th port after \<open>p\<close>, around the range.\<close>

definition port_after :: "u16 \<Rightarrow> nat \<Rightarrow> u16" where
  "port_after p k = of_nat (1024 + (unat p - 1024 + k) mod 3976)"

lemma port_offset: "port_in_range p \<Longrightarrow> \<exists>a < 3976. unat p = 1024 + a"
  by (rule exI [of _ "unat p - 1024"]) (auto simp: port_in_range_def)

lemma unat_port_after: "unat (port_after p k) = 1024 + (unat p - 1024 + k) mod 3976"
proof -
  have "(unat p - 1024 + k) mod 3976 < 3976" by simp
  then have "1024 + (unat p - 1024 + k) mod 3976 < 2 ^ LENGTH(16)" by simp
  then show ?thesis unfolding port_after_def unat_of_nat by (rule mod_less)
qed

lemma port_after_range: "port_in_range (port_after p k)"
proof -
  have "(unat p - 1024 + k) mod 3976 < 3976" by simp
  then show ?thesis by (simp add: port_in_range_def unat_port_after)
qed

lemma port_after_0: "port_in_range p \<Longrightarrow> port_after p 0 = p"
  using port_offset [of p] by (auto simp: word_unat_eq_iff unat_port_after)

lemma port_after_all: "port_in_range p \<Longrightarrow> port_after p 3976 = p"
  using port_offset [of p] by (auto simp: word_unat_eq_iff unat_port_after)

lemma port_after_again: "port_in_range p \<Longrightarrow> port_after p k = p \<Longrightarrow> k mod 3976 = 0"
proof -
  assume p: "port_in_range p" and e: "port_after p k = p"
  obtain a where a: "a < 3976" "unat p = 1024 + a" using port_offset [OF p] by auto
  then have "(a + k) mod 3976 = a mod 3976" using unat_port_after [of p k] e by simp
  then have "3976 dvd (a + k) - a" by (simp only: mod_eq_dvd_iff_nat [of a "a + k"] le_add1)
  then show ?thesis by simp
qed

lemma port_after_Suc: "next_port (port_after p k) = port_after p (Suc k)"
proof -
  let ?n = "(unat p - 1024 + k) mod 3976"
  have n: "?n < 3976" by simp
  have s: "(unat p - 1024 + Suc k) mod 3976 = (if ?n = 3975 then 0 else Suc ?n)"
    by (simp add: mod_Suc)
  have u: "unat (port_after p k + 1) = 1024 + ?n + 1"
    using n by (simp add: unat_word_ariths unat_port_after)
  then have "port_after p k + 1 = (5000 :: u16) \<longleftrightarrow> ?n = 3975"
    by (auto simp: word_unat_eq_iff)
  then show ?thesis
    using u s by (auto simp: next_port_def EPHEMERAL_PORTRANGE_END_def EPHEMERAL_PORTRANGE_START_def
        word_unat_eq_iff unat_port_after)
qed

lemma port_after_onto:
  assumes "port_in_range p" and "port_in_range q"
  shows "\<exists>k \<in> {1..3976}. port_after p k = q"
proof -
  obtain a b where ab: "a < 3976" "unat p = 1024 + a" "b < 3976" "unat q = 1024 + b"
    using port_offset [OF assms(1)] port_offset [OF assms(2)] by auto
  define k where "k = (if a < b then b - a else 3976 + b - a)"
  have "(a + k) mod 3976 = b" using ab by (auto simp: k_def)
  then have "port_after p k = q" using ab by (simp add: word_unat_eq_iff unat_port_after)
  moreover have "1 \<le> k" "k \<le> 3976" using ab by (auto simp: k_def)
  ultimately show ?thesis by auto
qed

lemma search_port_result:
  assumes p: "port_in_range p" and used: "\<And>i. 1 \<le> i \<Longrightarrow> i < k \<Longrightarrow> port_after p i \<in># used"
    and k: "1 \<le> k" "k \<le> 3976" and fuel: "3976 - k \<le> fuel"
  shows "(\<exists>q. search_port fuel p used (port_after p k) = Inr q \<and> q \<notin># used \<and> port_in_range q) \<or>
    ((\<exists>s. search_port fuel p used (port_after p k) = Inl (RuntimeError s)) \<and>
     (\<forall>q. port_in_range q \<longrightarrow> q \<in># used))"
  using used k fuel
proof (induction "3976 - k" arbitrary: k fuel)
  case 0
  then have k: "k = 3976" by simp
  show ?case
  proof (cases "p \<in># used")
    case True
    have "q \<in># used" if "port_in_range q" for q
    proof -
      obtain i where i: "1 \<le> i" "i \<le> 3976" "port_after p i = q" using port_after_onto [OF p \<open>port_in_range q\<close>] by auto
      show ?thesis
      proof (cases "i = 3976")
        case True
        then show ?thesis using i(3) port_after_all [OF p] \<open>p \<in># used\<close> by simp
      next
        case False
        then show ?thesis using 0(2) [of i] i k by simp
      qed
    qed
    then show ?thesis using True by (subst (1 2) search_port.simps) (simp add: k port_after_all [OF p])
  next
    case False
    then show ?thesis using p by (subst search_port.simps) (simp add: k port_after_all)
  qed
next
  case (Suc n)
  show ?case
  proof (cases "port_after p k \<in># used")
    case False
    then show ?thesis using port_after_range by (subst search_port.simps) simp
  next
    case True
    have ne: "port_after p k \<noteq> p" using port_after_again [OF p, of k] Suc by auto
    have f: "fuel \<noteq> 0" using Suc.prems Suc.hyps(2) by linarith
    have "search_port fuel p used (port_after p k) = search_port (fuel - 1) p used (port_after p (Suc k))"
      using True ne f by (subst search_port.simps) (simp add: port_after_Suc)
    moreover have "n = 3976 - Suc k" "Suc k \<le> 3976" "3976 - Suc k \<le> fuel - 1"
      using Suc.hyps(2) Suc.prems by linarith+
    moreover have "1 \<le> i \<Longrightarrow> i < Suc k \<Longrightarrow> port_after p i \<in># used" for i
      using True Suc.prems(1) by (cases "i = k") auto
    ultimately show ?thesis using Suc.hyps(1) [of "Suc k" "fuel - 1"] by simp
  qed
qed

lemma getEphemeralPort_result:
  "safe (\<lambda>(p, t'). t' = t\<lparr>lastEphemeralPort := p\<rparr>) (getEphemeralPort t)"
proof -
  have "no_null (search_port n u m p)" for n u m p
    by (induction n u m p rule: search_port.induct) (subst search_port.simps, simp)
  then show ?thesis by (simp add: getEphemeralPort_def)
qed

end
