(* ===== verification/TcpRcv.thy ===== *)
theory TcpRcv
  imports TcpControl TcpSockets
begin

text \<open>
  The arrival of a segment (\<open>TcpConnectionRcvSegment.cc\<close>), organised as RFC 793's \<open>SEGMENT ARRIVES\<close>, and the
  timeouts of the connection setup and of TIME_WAIT. \<open>processSegment1stThru8th\<close> is cut into its steps; a
  step after which the code returns early gives \<open>None\<close> for the event.
\<close>

section \<open>No connection\<close>

definition segmentArrivalWhileClosed :: "(('d, 'z) conn_scheme, 'y) tcp_callbacks_scheme \<Rightarrow> tcp_header \<Rightarrow>
    'd list \<Rightarrow> L3Address \<Rightarrow> L3Address \<Rightarrow> ('d, 'z) conn_scheme \<Rightarrow> err + ('d, 'z) conn_scheme" where
  "segmentArrivalWhileClosed alg hdr payload src dest c =
     ebind (assert_that (\<not> opened c)) (\<lambda>_.
       if rstBit hdr then Inr c
       else if \<not> ackBit hdr then
         sendRstAck alg 0
           (sequenceNo hdr + word_of_int (payloadLength hdr payload) + getSynFinLen hdr)
           dest src (destPort hdr) (srcPort hdr) c
       else sendRst_between (ackNo hdr) dest src (destPort hdr) (srcPort hdr) c)"

section \<open>Room for the text\<close>

definition hasEnoughSpaceForSegmentInReceiveQueue :: "tcp_header \<Rightarrow> 'd list \<Rightarrow> ('d, 'z) conn_scheme \<Rightarrow> bool" where
  "hasEnoughSpaceForSegmentInReceiveQueue hdr payload c =
     (let len = payloadLength hdr payload;
          sq = sequenceNo hdr;
          firstSeq = getFirstSeqNo (receiveQueue c);
          delta = (if seqLess sq firstSeq then firstSeq - sq else 0);
          sq = sq + delta;
          len = len - uint delta
      in seqLE firstSeq sq \<and> seqLE (word_of_int (uint sq + len)) (firstSeq + maxRcvBuffer (state c)))"

definition insertText :: "tcp_header \<Rightarrow> 'd list \<Rightarrow> ('d, 'z) conn_scheme \<Rightarrow> err + ('d, 'z) conn_scheme" where
  "insertText hdr payload c =
     ebind (insertBytesFromSegment (chunkAtBack c) (chunkAtFront c) (sequenceNo hdr) payload (receiveQueue c)) (\<lambda>q.
       Inr (c\<lparr>receiveQueue := q\<rparr>))"

definition countDrop :: "('d, 'z) conn_scheme \<Rightarrow> ('d, 'z) conn_scheme" where
  "countDrop c = c\<lparr>state := (state c)\<lparr>tcpRcvQueueDrops := tcpRcvQueueDrops (state c) + 1\<rparr>\<rparr>"

text \<open>The text of a SYN is queued but not passed up; \<open>False\<close> if it was dropped.\<close>

definition queueSynText :: "tcp_header \<Rightarrow> 'd list \<Rightarrow> ('d, 'z) conn_scheme \<Rightarrow> err + (bool \<times> ('d, 'z) conn_scheme)" where
  "queueSynText hdr payload c =
     (if payloadLength hdr payload > 0 then
        let c = updateRcvQueueVars c
        in if hasEnoughSpaceForSegmentInReceiveQueue hdr payload c
           then ebind (insertText hdr payload c) (\<lambda>c. Inr (True, c))
           else Inr (False, countDrop c)
      else Inr (True, c))"

section \<open>Timers\<close>

definition isScheduled :: "timer \<Rightarrow> err + bool" where
  "isScheduled t = (case t of NoTimer \<Rightarrow> Inl NullPointer | Idle \<Rightarrow> Inr False | Armed _ \<Rightarrow> Inr True)"

definition startSynRexmitTimer :: "('d, 'z) conn_scheme \<Rightarrow> err + ('d, 'z) conn_scheme" where
  "startSynRexmitTimer c =
     ebind (rescheduleAfter (sim_now c) TCP_TIMEOUT_SYN_REXMIT (synRexmitTimer c)) (\<lambda>t.
       Inr (c\<lparr>synRexmitTimer := t,
              state := (state c)\<lparr>syn_rexmit_count := 0, syn_rexmit_timeout := TCP_TIMEOUT_SYN_REXMIT\<rparr>\<rparr>))"

definition startConnEstabTimer :: "('d, 'z) conn_scheme \<Rightarrow> err + ('d, 'z) conn_scheme" where
  "startConnEstabTimer c =
     ebind (scheduleAfter (sim_now c) TCP_TIMEOUT_CONN_ESTAB (connEstabTimer c)) (\<lambda>t.
       Inr (c\<lparr>connEstabTimer := t\<rparr>))"

definition start2MSLTimer :: "('d, 'z) conn_scheme \<Rightarrow> err + ('d, 'z) conn_scheme" where
  "start2MSLTimer c =
     ebind (scheduleAfter (sim_now c) (2 * msl (tcpMain c)) (the2MSLTimer c)) (\<lambda>t.
       Inr (c\<lparr>the2MSLTimer := t\<rparr>))"

definition restart2MSLTimer :: "('d, 'z) conn_scheme \<Rightarrow> err + ('d, 'z) conn_scheme" where
  "restart2MSLTimer c =
     ebind (rescheduleAfter (sim_now c) (2 * msl (tcpMain c)) (the2MSLTimer c)) (\<lambda>t.
       Inr (c\<lparr>the2MSLTimer := t\<rparr>))"

definition enterTimeWait :: "('d, 'z) conn_scheme \<Rightarrow> err + ('d, 'z) conn_scheme" where
  "enterTimeWait c = ebind (cancelEvent (finWait2Timer c)) (\<lambda>t. start2MSLTimer (c\<lparr>finWait2Timer := t\<rparr>))"

definition process_TIMEOUT_CONN_ESTAB :: "('d, 'z) conn_scheme \<Rightarrow> err + ('d, 'z) conn_scheme" where
  "process_TIMEOUT_CONN_ESTAB c =
     (if fsm c = TCP_S_SYN_RCVD \<or> fsm c = TCP_S_SYN_SENT
      then Inr (if active (state c) then sendIndicationToApp TCP_I_TIMED_OUT 0 c else c)
      else Inl (RuntimeError ''Internal error: received CONN_ESTAB timeout''))"

definition process_TIMEOUT_2MSL :: "('d, 'z) conn_scheme \<Rightarrow> err + ('d, 'z) conn_scheme" where
  "process_TIMEOUT_2MSL c = (if fsm c = TCP_S_TIME_WAIT then Inr c
     else Inl (RuntimeError ''Internal error: received time-wait (2MSL) timeout''))"

definition process_TIMEOUT_FIN_WAIT_2 :: "('d, 'z) conn_scheme \<Rightarrow> err + ('d, 'z) conn_scheme" where
  "process_TIMEOUT_FIN_WAIT_2 c = (if fsm c = TCP_S_FIN_WAIT_2 then Inr c
     else Inl (RuntimeError ''Internal error: received FIN_WAIT_2 timeout''))"

text \<open>The timeout doubles up to its maximum.\<close>

definition backOffSynRexmit :: "('d, 'z) conn_scheme \<Rightarrow> err + ('d, 'z) conn_scheme" where
  "backOffSynRexmit c =
     (let t2 = syn_rexmit_timeout (state c) * 2;
          t2 = (if t2 > TCP_TIMEOUT_SYN_REXMIT_MAX then TCP_TIMEOUT_SYN_REXMIT_MAX else t2)
      in ebind (scheduleAfter (sim_now c) t2 (synRexmitTimer c)) (\<lambda>t.
           Inr (c\<lparr>synRexmitTimer := t, state := (state c)\<lparr>syn_rexmit_timeout := t2\<rparr>\<rparr>)))"

definition process_TIMEOUT_SYN_REXMIT :: "(('d, 'z) conn_scheme, 'y) tcp_callbacks_scheme \<Rightarrow>
    ('d, 'z) conn_scheme \<Rightarrow> err + (tcp_event \<times> ('d, 'z) conn_scheme)" where
  "process_TIMEOUT_SYN_REXMIT alg c =
     (let c = c\<lparr>state := (state c)\<lparr>syn_rexmit_count := syn_rexmit_count (state c) + 1\<rparr>\<rparr>
      in if syn_rexmit_count (state c) > MAX_SYN_REXMIT_COUNT then Inr (TCP_E_ABORT, c)
         else
           ebind (if fsm c = TCP_S_SYN_SENT then sendSyn c
                  else if fsm c = TCP_S_SYN_RCVD then sendSynAck alg c
                  else Inl (RuntimeError ''Internal error: SYN-REXMIT timer expired'')) (\<lambda>c.
           ebind (backOffSynRexmit c) (\<lambda>c. Inr (TCP_E_IGNORE, c))))"

section \<open>LISTEN\<close>

definition processSynInListen :: "(('d, 'z) conn_scheme, 'y) tcp_callbacks_scheme \<Rightarrow> tcp_header \<Rightarrow> 'd list \<Rightarrow>
    ('d, 'z) conn_scheme \<Rightarrow> err + (tcp_event \<times> ('d, 'z) conn_scheme)" where
  "processSynInListen alg hdr payload c =
     (let nxt = sequenceNo hdr + 1;
          c = c\<lparr>state := (state c)\<lparr>rcv_nxt := nxt, rcv_adv := nxt + rcv_wnd (state c), irs := sequenceNo hdr\<rparr>,
                receiveQueue := rcvq_init nxt (receiveQueue c)\<rparr>;
          c = updateWndInfo hdr True (selectInitialSeqNum c)
      in ebind (if headerLength hdr > TCP_MIN_HEADER_LENGTH then readHeaderOptions hdr c else Inr c) (\<lambda>c.
           let s = (state c)\<lparr>ack_now := True\<rparr>;
               s = (if eceBit hdr \<and> cwrBit hdr then s\<lparr>endPointIsWillingECN := True\<rparr> else s)
           in ebind (sendSynAck alg (c\<lparr>state := s\<rparr>)) (\<lambda>c.
              ebind (startSynRexmitTimer c) (\<lambda>c.
              ebind (isScheduled (connEstabTimer c)) (\<lambda>scheduled.
              ebind (if \<not> scheduled then startConnEstabTimer c else Inr c) (\<lambda>c.
              ebind (queueSynText hdr payload c) (\<lambda>(queued, c).
                Inr (if queued then TCP_E_RCV_SYN else TCP_E_IGNORE, c))))))))"

text \<open>
  A forking listener hands the SYN to a new connection object (\<open>fresh\<close>, number \<open>j\<close>); what
  \<open>performStateTransition\<close> returns for the new connection is not used. The last component is the
  forked connection.
\<close>

definition processSegmentInListen :: "('d, 'z) conn_scheme tcp_algorithm \<Rightarrow> conn_id \<Rightarrow> conn_id \<Rightarrow>
    ('d, 'z) conn_scheme \<Rightarrow> tcp_header \<Rightarrow> 'd list \<Rightarrow> L3Address \<Rightarrow> L3Address \<Rightarrow> tcp_tables \<Rightarrow>
    ('d, 'z) conn_scheme \<Rightarrow>
    err + (tcp_event \<times> tcp_tables \<times> ('d, 'z) conn_scheme \<times> ('d, 'z) conn_scheme option)" where
  "processSegmentInListen alg i j fresh hdr payload src dest t c =
     (if rstBit hdr then Inr (TCP_E_IGNORE, t, c, None)
      else if ackBit hdr then
        ebind (sendRst_between (ackNo hdr) dest src (destPort hdr) (srcPort hdr) c) (\<lambda>c.
          Inr (TCP_E_IGNORE, t, c, None))
      else if synBit hdr then
        if fork (state c) then
          ebind (initClonedConnection alg c fresh) (\<lambda>new.
          ebind (addForkedConnection j dest src (destPort hdr) (srcPort hdr) t new) (\<lambda>(t, new).
          ebind (processSynInListen alg hdr payload new) (\<lambda>(forkEvent, new).
          ebind (performStateTransition alg forkEvent new) (\<lambda>(_, new).
            Inr (TCP_E_IGNORE, t, c, Some new)))))
        else
          ebind (updateSockPair i dest src (destPort hdr) (srcPort hdr) t c) (\<lambda>(t, c).
          ebind (processSynInListen alg hdr payload c) (\<lambda>(event, c).
            Inr (event, t, c, None)))
      else Inr (TCP_E_IGNORE, t, c, None))"

section \<open>SYN_SENT\<close>

text \<open>The SYN+ACK that acknowledges our SYN.\<close>

definition synSentEstablished :: "('d, 'z) conn_scheme tcp_algorithm \<Rightarrow> tcp_header \<Rightarrow> 'd list \<Rightarrow>
    ('d, 'z) conn_scheme \<Rightarrow> err + (tcp_event \<times> ('d, 'z) conn_scheme)" where
  "synSentEstablished alg hdr payload c =
     ebind (queueSynText hdr payload c) (\<lambda>(queued, c).
       if \<not> queued then Inr (TCP_E_IGNORE, c)
       else
         ebind (if headerLength hdr > TCP_MIN_HEADER_LENGTH then readHeaderOptions hdr c else Inr c) (\<lambda>c.
         ebind (alg_established alg True (c\<lparr>state := (state c)\<lparr>ack_now := True\<rparr>\<rparr>)) (\<lambda>c.
           let c = sendEstabIndicationToApp c;
               s = (state c)\<lparr>ect := (ecnSynSent (state c) \<and> eceBit hdr \<and> \<not> cwrBit hdr), ecnSynSent := False\<rparr>
           in Inr (TCP_E_RCV_SYN_ACK, c\<lparr>state := s\<rparr>))))"

text \<open>A SYN without our acknowledgment: simultaneous open.\<close>

definition synSentSimultaneous :: "(('d, 'z) conn_scheme, 'y) tcp_callbacks_scheme \<Rightarrow> tcp_header \<Rightarrow> 'd list \<Rightarrow>
    ('d, 'z) conn_scheme \<Rightarrow> err + (tcp_event \<times> ('d, 'z) conn_scheme)" where
  "synSentSimultaneous alg hdr payload c =
     ebind (sendSynAck alg (c\<lparr>state := (state c)\<lparr>snd_max := iss (state c), snd_nxt := iss (state c)\<rparr>\<rparr>)) (\<lambda>c.
     ebind (startSynRexmitTimer c) (\<lambda>c.
     ebind (queueSynText hdr payload c) (\<lambda>(queued, c).
       Inr (if queued then TCP_E_RCV_SYN else TCP_E_IGNORE, c))))"

definition synSentAcked :: "tcp_header \<Rightarrow> ('d, 'z) conn_scheme \<Rightarrow> err + ('d, 'z) conn_scheme" where
  "synSentAcked hdr c =
     (let c = c\<lparr>state := (state c)\<lparr>snd_una := ackNo hdr\<rparr>\<rparr>
      in ebind (sendq_discardUpTo (snd_una (state c)) (sendQueue c)) (\<lambda>sq.
         ebind (if sack_enabled (state c) then sq_discardUpTo (snd_una (state c)) (rexmitQ c)
                else Inr (rexmitQ c)) (\<lambda>rq.
           Inr (updateWndInfo hdr True (c\<lparr>sendQueue := sq, rexmitQ := rq\<rparr>)))))"

definition processSegmentInSynSent :: "('d, 'z) conn_scheme tcp_algorithm \<Rightarrow> conn_id \<Rightarrow> tcp_header \<Rightarrow> 'd list \<Rightarrow>
    L3Address \<Rightarrow> L3Address \<Rightarrow> tcp_tables \<Rightarrow> ('d, 'z) conn_scheme \<Rightarrow>
    err + (tcp_event \<times> tcp_tables \<times> ('d, 'z) conn_scheme)" where
  "processSegmentInSynSent alg i hdr payload src dest t c =
     (if ackBit hdr \<and> (seqLE (ackNo hdr) (iss (state c)) \<or> seqGreater (ackNo hdr) (snd_nxt (state c))) then
        if rstBit hdr then Inr (TCP_E_IGNORE, t, c)
        else ebind (sendRst_between (ackNo hdr) dest src (destPort hdr) (srcPort hdr) c) (\<lambda>c.
               Inr (TCP_E_IGNORE, t, c))
      else if rstBit hdr then
        if ackBit hdr then Inr (TCP_E_RCV_RST, t, sendIndicationToApp TCP_I_CONNECTION_RESET 0 c)
        else Inr (TCP_E_IGNORE, t, c)
      else if synBit hdr then
        let nxt = sequenceNo hdr + 1;
            c = c\<lparr>state := (state c)\<lparr>rcv_nxt := nxt, rcv_adv := nxt + rcv_wnd (state c),
                    irs := sequenceNo hdr\<rparr>,
                  receiveQueue := rcvq_init nxt (receiveQueue c)\<rparr>
        in ebind (if ackBit hdr then synSentAcked hdr c else Inr c) (\<lambda>c.
           ebind (updateSockPair i dest src (destPort hdr) (srcPort hdr) t c) (\<lambda>(t, c).
           ebind (if seqGreater (snd_una (state c)) (iss (state c)) then synSentEstablished alg hdr payload c
                  else synSentSimultaneous alg hdr payload c) (\<lambda>(event, c).
             Inr (event, t, c))))
      else Inr (TCP_E_IGNORE, t, c))"

end
