(* ===== verification/TcpEstab.thy ===== *)
theory TcpEstab
  imports TcpRcv
begin

text \<open>
  A segment in the synchronized states and in SYN_RCVD: \<open>processSegment1stThru8th\<close> of
  \<open>TcpConnectionRcvSegment.cc\<close>, step by step as in RFC 793, and the functions it calls.
\<close>

section \<open>Sequence number, RST, SYN\<close>

definition paws_rejects :: "tcp_header \<Rightarrow> ('d, 'z) conn_scheme \<Rightarrow> bool" where
  "paws_rejects hdr c =
     (ts_enabled (state c) \<and> getTSval hdr \<noteq> 0 \<and> seqLess (getTSval hdr) (ts_recent (state c)) \<and>
      sim_now c - time_last_data_sent (state c) > PAWS_IDLE_TIME_THRESH)"

definition checkSequence :: "tcp_header \<Rightarrow> 'd list \<Rightarrow> ('d, 'z) conn_scheme \<Rightarrow> err + (bool \<times> ('d, 'z) conn_scheme)" where
  "checkSequence hdr payload c =
     (if headerLength hdr > TCP_MIN_HEADER_LENGTH then
        ebind (readHeaderOptions hdr c) (\<lambda>c'.
          Inr (\<not> paws_rejects hdr c \<and> isSegmentAcceptable hdr payload (state c'), c'))
      else Inr (isSegmentAcceptable hdr payload (state c), c))"

text \<open>A segment that is not acceptable is answered with an ACK, with a D-SACK if it holds old data only.\<close>

definition rejectSegment :: "(('d, 'z) conn_scheme, 'y) tcp_callbacks_scheme \<Rightarrow> tcp_header \<Rightarrow> 'd list \<Rightarrow>
    ('d, 'z) conn_scheme \<Rightarrow> err + ('d, 'z) conn_scheme" where
  "rejectSegment alg hdr payload c =
     ebind (if rstBit hdr then Inr c
            else
              let len = payloadLength hdr payload;
                  segEnd = sequenceNo hdr + word_of_int len
              in sendAck alg (if \<not> synBit hdr \<and> len > 0 \<and> sack_enabled (state c) \<and> seqLess segEnd (rcv_nxt (state c))
                   then c\<lparr>state := (state c)\<lparr>start_seqno := sequenceNo hdr, end_seqno := segEnd, snd_dsack := True\<rparr>\<rparr>
                   else c)) (\<lambda>c.
       Inr (c\<lparr>state := (state c)\<lparr>rcv_naseg := rcv_naseg (state c) + 1\<rparr>\<rparr>))"

definition processRstInSynReceived :: "('d, 'z) conn_scheme \<Rightarrow> err + (tcp_event \<times> ('d, 'z) conn_scheme)" where
  "processRstInSynReceived c =
     ebind (sendq_discardUpTo (sendq_getBufferEndSeq (sendQueue c)) (sendQueue c)) (\<lambda>sq.
     ebind (if sack_enabled (state c) then sq_discardUpTo (getBufferEndSeq (rexmitQ c)) (rexmitQ c)
            else Inr (rexmitQ c)) (\<lambda>rq.
       let c = c\<lparr>sendQueue := sq, rexmitQ := rq\<rparr>
       in Inr (TCP_E_RCV_RST,
            if active (state c) then sendIndicationToApp TCP_I_CONNECTION_REFUSED 0 c else c)))"

definition processRst :: "('d, 'z) conn_scheme \<Rightarrow> err + (tcp_event \<times> ('d, 'z) conn_scheme)" where
  "processRst c =
     (if fsm c = TCP_S_SYN_RCVD then processRstInSynReceived c
      else if fsm c \<in> {TCP_S_ESTABLISHED, TCP_S_FIN_WAIT_1, TCP_S_FIN_WAIT_2, TCP_S_CLOSE_WAIT}
      then Inr (TCP_E_RCV_RST, sendIndicationToApp TCP_I_CONNECTION_RESET 0 c)
      else if fsm c \<in> {TCP_S_CLOSING, TCP_S_LAST_ACK, TCP_S_TIME_WAIT} then Inr (TCP_E_RCV_RST, c)
      else Inl AssertFailed)"

section \<open>The acknowledgment\<close>

definition duplicateAck :: "('d, 'z) conn_scheme tcp_algorithm \<Rightarrow> tcp_header \<Rightarrow> 'd list \<Rightarrow>
    ('d, 'z) conn_scheme \<Rightarrow> err + ('d, 'z) conn_scheme" where
  "duplicateAck alg hdr payload c =
     (if snd_una (state c) = ackNo hdr \<and> payloadLength hdr payload = 0 \<and> snd_una (state c) \<noteq> snd_max (state c)
      then alg_receivedDuplicateAck alg
             (updateWndInfo hdr False (c\<lparr>state := (state c)\<lparr>dupacks := dupacks (state c) + 1\<rparr>\<rparr>))
      else Inr (c\<lparr>state := (state c)\<lparr>dupacks := 0\<rparr>\<rparr>))"

text \<open>\<open>snd_una\<close> advances; the acknowledged data, without our FIN, leaves the queues.\<close>

definition advanceUna :: "u32 \<Rightarrow> tcb \<Rightarrow> tcb" where
  "advanceUna ack s = s\<lparr>snd_una := ack, snd_nxt := (if seqLess (snd_nxt s) ack then ack else snd_nxt s)\<rparr>"

definition discardAcked :: "tcp_header \<Rightarrow> ('d, 'z) conn_scheme \<Rightarrow> err + ('d, 'z) conn_scheme" where
  "discardAcked hdr c =
     (let finAcked = (send_fin (state c) \<and> ackNo hdr = snd_fin_seq (state c) + 1);
          c = (if finAcked then c\<lparr>state := (state c)\<lparr>fin_ack_rcvd := True\<rparr>\<rparr> else c);
          discardUpToSeq = snd_una (state c) - (if finAcked then 1 else 0)
      in ebind (sendq_discardUpTo discardUpToSeq (sendQueue c)) (\<lambda>sq.
         ebind (if sack_enabled (state c) then sq_discardUpTo discardUpToSeq (rexmitQ c)
                else Inr (rexmitQ c)) (\<lambda>rq.
           Inr (c\<lparr>sendQueue := sq, rexmitQ := rq\<rparr>))))"

definition newAck :: "('d, 'z) conn_scheme tcp_algorithm \<Rightarrow> tcp_header \<Rightarrow> 'd list \<Rightarrow>
    ('d, 'z) conn_scheme \<Rightarrow> err + ('d, 'z) conn_scheme" where
  "newAck alg hdr payload c =
     (let old_snd_una = snd_una (state c);
          c = c\<lparr>state := advanceUna (ackNo hdr) (state c)\<rparr>
      in ebind (if ts_enabled (state c) then alg_rttMeasurementCompleteUsingTS alg (getTSecr hdr) c
                else Inr c) (\<lambda>c.
         ebind (discardAcked hdr c) (\<lambda>c.
           let c = updateWndInfo hdr False c
           in if payloadLength hdr payload = 0 \<and> fsm c \<noteq> TCP_S_SYN_RCVD
              then ebind (alg_receivedDataAck alg old_snd_una c) (\<lambda>c.
                     Inr (c\<lparr>state := (state c)\<lparr>dupacks := 0\<rparr>\<rparr>))
              else Inr c)))"

text \<open>\<open>False\<close> means that the segment is dropped.\<close>

definition processAckInEstabEtc :: "('d, 'z) conn_scheme tcp_algorithm \<Rightarrow> tcp_header \<Rightarrow> 'd list \<Rightarrow>
    ('d, 'z) conn_scheme \<Rightarrow> err + (bool \<times> ('d, 'z) conn_scheme)" where
  "processAckInEstabEtc alg hdr payload c =
     (let c = (if ect (state c) then c\<lparr>state := (state c)\<lparr>gotEce := eceBit hdr\<rparr>\<rparr> else c)
      in if seqGE (snd_una (state c)) (ackNo hdr)
         then ebind (duplicateAck alg hdr payload c) (\<lambda>c. Inr (True, c))
         else if seqLE (ackNo hdr) (snd_max (state c))
         then ebind (newAck alg hdr payload c) (\<lambda>c. Inr (True, c))
         else ebind (assert_that (seqGreater (ackNo hdr) (snd_max (state c)))) (\<lambda>_.
              ebind (alg_receivedAckForDataNotYetSent alg (ackNo hdr) c) (\<lambda>c.
                Inr (False, c\<lparr>state := (state c)\<lparr>dupacks := 0\<rparr>\<rparr>))))"

text \<open>SYN_RCVD: our SYN is acknowledged.\<close>

definition synAcked :: "('d, 'z) conn_scheme tcp_algorithm \<Rightarrow> ('d, 'z) conn_scheme \<Rightarrow>
    err + ('d, 'z) conn_scheme" where
  "synAcked alg c =
     ebind (alg_established alg False c) (\<lambda>c.
       Inr (if listeningSocketId c \<noteq> - 1 then sendAvailableIndicationToApp c else sendEstabIndicationToApp c))"

text \<open>What the acknowledgment means for the closing states; \<open>None\<close> for the last acknowledgment.\<close>

definition ackInClosingStates :: "(('d, 'z) conn_scheme, 'y) tcp_callbacks_scheme \<Rightarrow> tcp_header \<Rightarrow> tcp_event \<Rightarrow>
    ('d, 'z) conn_scheme \<Rightarrow> err + (tcp_event option \<times> ('d, 'z) conn_scheme)" where
  "ackInClosingStates alg hdr event c =
     (if fsm c = TCP_S_FIN_WAIT_1 then Inr (Some (if fin_ack_rcvd (state c) then TCP_E_RCV_ACK else event), c)
      else if fsm c = TCP_S_CLOSING \<and> fin_ack_rcvd (state c)
      then ebind (start2MSLTimer c) (\<lambda>c. Inr (Some TCP_E_RCV_ACK, c))
      else if fsm c = TCP_S_LAST_ACK \<and> send_fin (state c) \<and> ackNo hdr = snd_fin_seq (state c) + 1
      then Inr (None, c)
      else if fsm c = TCP_S_TIME_WAIT
      then ebind (sendAck alg c) (\<lambda>c. ebind (restart2MSLTimer c) (\<lambda>c. Inr (Some event, c)))
      else Inr (Some event, c))"

section \<open>Text and FIN\<close>

text \<open>\<open>rcv_nxt\<close> has just been advanced over the peer's FIN.\<close>

definition finReceived :: "('d, 'z) conn_scheme \<Rightarrow> err + (tcp_event \<times> ('d, 'z) conn_scheme)" where
  "finReceived c =
     (if fsm c = TCP_S_FIN_WAIT_1 \<and> fin_ack_rcvd (state c)
      then ebind (enterTimeWait c) (\<lambda>c. Inr (TCP_E_RCV_FIN_ACK, c))
      else if fsm c = TCP_S_FIN_WAIT_2 then ebind (enterTimeWait c) (\<lambda>c. Inr (TCP_E_RCV_FIN, c))
      else if fsm c = TCP_S_TIME_WAIT then ebind (restart2MSLTimer c) (\<lambda>c. Inr (TCP_E_RCV_FIN, c))
      else Inr (TCP_E_RCV_FIN, c))"

definition noteText :: "tcp_header \<Rightarrow> 'd list \<Rightarrow> tcb \<Rightarrow> tcb" where
  "noteText hdr payload s =
     (let len = word_of_int (payloadLength hdr payload);
          s = (if len = snd_mss s \<or> uint len + (headerLength hdr - TCP_MIN_HEADER_LENGTH) = uint (snd_mss s)
               then s\<lparr>full_sized_segment_counter := full_sized_segment_counter s + 1\<rparr> else s)
      in if payloadLength hdr payload = 1 then s\<lparr>ack_now := True\<rparr> else s)"

definition outOfOrder :: "('d, 'z) conn_scheme tcp_algorithm \<Rightarrow> u32 \<Rightarrow> tcp_header \<Rightarrow> 'd list \<Rightarrow>
    ('d, 'z) conn_scheme \<Rightarrow> err + ('d, 'z) conn_scheme" where
  "outOfOrder alg old_usedRcvBuffer hdr payload c =
     (let s = (state c)\<lparr>rcv_oooseg := rcv_oooseg (state c) + 1\<rparr>;
          s = (if sack_enabled s then
                 let s = s\<lparr>start_seqno := sequenceNo hdr,
                           end_seqno := sequenceNo hdr + word_of_int (payloadLength hdr payload)\<rparr>
                 in if old_usedRcvBuffer = getAmountOfBufferedBytes (receiveQueue c)
                    then s\<lparr>snd_dsack := True\<rparr> else s\<lparr>snd_sack := True\<rparr>
               else s)
      in alg_receivedOutOfOrderSegment alg (c\<lparr>state := s\<rparr>))"

text \<open>The text filled the gap in front of a FIN that arrived before.\<close>

definition inOrder :: "tcp_event \<Rightarrow> ('d, 'z) conn_scheme \<Rightarrow> err + (tcp_event \<times> ('d, 'z) conn_scheme)" where
  "inOrder event c =
     ebind (if listeningSocketId c = - 1 then sendAvailableDataToApp c else Inr c) (\<lambda>c.
       if fin_rcvd (state c) \<and> rcv_nxt (state c) = rcv_fin_seq (state c)
       then finReceived (c\<lparr>state := (state c)\<lparr>ack_now := True, rcv_nxt := rcv_fin_seq (state c) + 1\<rparr>\<rparr>)
       else Inr (event, c))"

definition processText :: "('d, 'z) conn_scheme tcp_algorithm \<Rightarrow> u32 \<Rightarrow> tcp_header \<Rightarrow> 'd list \<Rightarrow> tcp_event \<Rightarrow>
    ('d, 'z) conn_scheme \<Rightarrow> err + (tcp_event option \<times> ('d, 'z) conn_scheme)" where
  "processText alg old_snd_una hdr payload event c =
     (if fsm c \<in> {TCP_S_SYN_RCVD, TCP_S_ESTABLISHED, TCP_S_FIN_WAIT_1, TCP_S_FIN_WAIT_2} \<and>
         payloadLength hdr payload > 0
      then
        let old_rcv_nxt = rcv_nxt (state c);
            c = updateRcvQueueVars (c\<lparr>state := noteText hdr payload (state c)\<rparr>)
        in if hasEnoughSpaceForSegmentInReceiveQueue hdr payload c
           then
             let old_usedRcvBuffer = usedRcvBuffer (state c)
             in ebind (insertText hdr payload c) (\<lambda>c.
                let c = c\<lparr>state := (state c)\<lparr>rcv_nxt := rcvq_nxt (receiveQueue c)\<rparr>\<rparr>
                in ebind (if seqGreater (snd_una (state c)) old_snd_una
                          then ebind (alg_receivedDataAck alg old_snd_una c) (\<lambda>c.
                                 Inr (c\<lparr>state := (state c)\<lparr>dupacks := 0\<rparr>\<rparr>))
                          else Inr c) (\<lambda>c.
                   if old_rcv_nxt = rcv_nxt (state c)
                   then ebind (outOfOrder alg old_usedRcvBuffer hdr payload c) (\<lambda>c. Inr (Some event, c))
                   else ebind (inOrder event c) (\<lambda>(event, c). Inr (Some event, c))))
           else Inr (None, countDrop c)
      else Inr (Some event, c))"

definition processFin :: "tcp_header \<Rightarrow> 'd list \<Rightarrow> tcp_event \<Rightarrow> ('d, 'z) conn_scheme \<Rightarrow>
    err + (tcp_event \<times> ('d, 'z) conn_scheme)" where
  "processFin hdr payload event c =
     (if finBit hdr then
        let s = (state c)\<lparr>ack_now := True\<rparr>;
            fin_seq = sequenceNo hdr + word_of_int (payloadLength hdr payload)
        in if rcv_nxt s = fin_seq then finReceived (c\<lparr>state := s\<lparr>rcv_nxt := rcv_nxt s + 1\<rparr>\<rparr>)
           else Inr (event, c\<lparr>state := s\<lparr>fin_rcvd := True, rcv_fin_seq := fin_seq\<rparr>\<rparr>)
      else Inr (event, c))"

definition acknowledge :: "('d, 'z) conn_scheme tcp_algorithm \<Rightarrow> u32 \<Rightarrow> tcp_header \<Rightarrow> 'd list \<Rightarrow>
    ('d, 'z) conn_scheme \<Rightarrow> err + ('d, 'z) conn_scheme" where
  "acknowledge alg old_rcv_nxt hdr payload c =
     (if old_rcv_nxt \<noteq> rcv_nxt (state c) then
        alg_receiveSeqChanged alg
          (if sack_enabled (state c) \<and> rcvq_getQueueLength (receiveQueue c) \<noteq> 0
           then c\<lparr>state := (state c)\<lparr>start_seqno := sequenceNo hdr,
                  end_seqno := sequenceNo hdr + word_of_int (payloadLength hdr payload),
                  snd_sack := True, ack_now := True\<rparr>\<rparr>
           else c)
      else Inr c)"

text \<open>A CLOSE that had to wait for the data in front of the FIN is performed now.\<close>

definition deferredClose :: "u32 \<Rightarrow> tcp_event \<Rightarrow> ('d, 'z) conn_scheme \<Rightarrow> tcp_event" where
  "deferredClose old_snd_nxt event c =
     (let s = state c; finSent = (send_fin s \<and> snd_nxt s = snd_fin_seq s + 1)
      in if (fsm c = TCP_S_ESTABLISHED \<or> fsm c = TCP_S_SYN_RCVD) \<and> finSent then TCP_E_CLOSE
         else if fsm c = TCP_S_CLOSE_WAIT \<and> finSent \<and> old_snd_nxt \<noteq> snd_nxt s then TCP_E_CLOSE
         else event)"

section \<open>The steps together\<close>

text \<open>The sixth to the eighth step.\<close>

definition textAndFin :: "('d, 'z) conn_scheme tcp_algorithm \<Rightarrow> u32 \<Rightarrow> u32 \<Rightarrow> tcp_header \<Rightarrow> 'd list \<Rightarrow>
    tcp_event \<Rightarrow> ('d, 'z) conn_scheme \<Rightarrow> err + (tcp_event \<times> ('d, 'z) conn_scheme)" where
  "textAndFin alg old_snd_una old_snd_nxt hdr payload event c =
     (let old_rcv_nxt = rcv_nxt (state c)
      in ebind (processText alg old_snd_una hdr payload event c) (\<lambda>(r, c).
           case r of
             None \<Rightarrow> Inr (TCP_E_IGNORE, c)
           | Some event \<Rightarrow>
               ebind (processFin hdr payload event c) (\<lambda>(event, c).
               ebind (acknowledge alg old_rcv_nxt hdr payload c) (\<lambda>c.
                 Inr (deferredClose old_snd_nxt event c, c)))))"

text \<open>The fifth step and those after it.\<close>

definition ackStep :: "('d, 'z) conn_scheme tcp_algorithm \<Rightarrow> u32 \<Rightarrow> tcp_header \<Rightarrow> 'd list \<Rightarrow>
    tcp_event \<Rightarrow> ('d, 'z) conn_scheme \<Rightarrow> err + (tcp_event \<times> ('d, 'z) conn_scheme)" where
  "ackStep alg old_snd_una hdr payload event c =
     (let old_snd_nxt = snd_nxt (state c)
      in ebind (if fsm c \<in> {TCP_S_SYN_RCVD, TCP_S_ESTABLISHED, TCP_S_FIN_WAIT_1, TCP_S_FIN_WAIT_2,
                    TCP_S_CLOSE_WAIT, TCP_S_CLOSING, TCP_S_LAST_ACK}
                then processAckInEstabEtc alg hdr payload c else Inr (True, c)) (\<lambda>(accepted, c).
           if \<not> accepted then Inr (TCP_E_IGNORE, c)
           else ebind (ackInClosingStates alg hdr event c) (\<lambda>(r, c).
             case r of
               None \<Rightarrow> Inr (TCP_E_RCV_ACK, c)
             | Some event \<Rightarrow> textAndFin alg old_snd_una old_snd_nxt hdr payload event c)))"

definition fifthStep :: "('d, 'z) conn_scheme tcp_algorithm \<Rightarrow> tcp_header \<Rightarrow> 'd list \<Rightarrow>
    ('d, 'z) conn_scheme \<Rightarrow> err + (tcp_event \<times> ('d, 'z) conn_scheme)" where
  "fifthStep alg hdr payload c =
     (let old_snd_una = snd_una (state c)
      in if fsm c = TCP_S_SYN_RCVD then
           if \<not> seqLE (snd_una (state c)) (ackNo hdr) \<or> \<not> seqLE (ackNo hdr) (snd_nxt (state c))
           then ebind (sendRst (ackNo hdr) c) (\<lambda>c. Inr (TCP_E_IGNORE, c))
           else ebind (synAcked alg c) (ackStep alg old_snd_una hdr payload TCP_E_RCV_ACK)
         else ackStep alg old_snd_una hdr payload TCP_E_IGNORE c)"

definition processSegment1stThru8th :: "('d, 'z) conn_scheme tcp_algorithm \<Rightarrow> tcp_header \<Rightarrow> 'd list \<Rightarrow>
    ('d, 'z) conn_scheme \<Rightarrow> err + (tcp_event \<times> ('d, 'z) conn_scheme)" where
  "processSegment1stThru8th alg hdr payload c =
     ebind (alg_processEcnInEstablished alg c) (\<lambda>c.
     ebind (checkSequence hdr payload c) (\<lambda>(acceptable, c).
       if \<not> acceptable then ebind (rejectSegment alg hdr payload c) (\<lambda>c. Inr (TCP_E_IGNORE, c))
       else
         let c = (if cwrBit hdr then c\<lparr>state := (state c)\<lparr>ecnEchoState := False\<rparr>\<rparr> else c)
         in if rstBit hdr then processRst c
            else if synBit hdr then
              ebind (assert_that (isSegmentAcceptable hdr payload (state c))) (\<lambda>_.
                Inr (TCP_E_RCV_UNEXP_SYN, sendIndicationToApp TCP_I_CONNECTION_RESET 0 c))
            else if \<not> ackBit hdr then Inr (TCP_E_IGNORE, c)
            else fifthStep alg hdr payload c))"

end
