(* ===== verification/TcpEvents.thy ===== *)
theory TcpEvents
  imports TcpEstab
begin

text \<open>
  The entry points of a connection: application commands (\<open>TcpConnectionEventProc.cc\<close>), segments and
  timers (\<open>processAppCommand\<close>, \<open>processTCPSegment\<close> and \<open>processTimer\<close> of \<open>TcpConnectionBase.cc\<close>). Each first acts,
  then lets \<open>performStateTransition\<close> change the state; the Boolean result is whether the connection lives on.
\<close>

section \<open>Commands\<close>

datatype 'd app_command =
    OpenActive L3Address L3Address int int
  | OpenPassive L3Address int bool
  | Accept
  | Send "'d list"
  | Close
  | Abort
  | Destroy
  | Status
  | QueueBytesLimit int
  | Read
  | SetTimeToLive int
  | SetTos int
  | SetDscp int
  | SetOtherOption

fun command_code :: "'d app_command \<Rightarrow> tcp_command_code" where
  "command_code (OpenActive _ _ _ _) = TCP_C_OPEN_ACTIVE"
| "command_code (OpenPassive _ _ _) = TCP_C_OPEN_PASSIVE"
| "command_code Accept = TCP_C_ACCEPT"
| "command_code (Send _) = TCP_C_SEND"
| "command_code Close = TCP_C_CLOSE"
| "command_code Abort = TCP_C_ABORT"
| "command_code Destroy = TCP_C_DESTROY"
| "command_code Status = TCP_C_STATUS"
| "command_code (QueueBytesLimit _) = TCP_C_QUEUE_BYTES_LIMIT"
| "command_code Read = TCP_C_READ"
| "command_code (SetTimeToLive _) = TCP_C_SETOPTION"
| "command_code (SetTos _) = TCP_C_SETOPTION"
| "command_code (SetDscp _) = TCP_C_SETOPTION"
| "command_code SetOtherOption = TCP_C_SETOPTION"

text \<open>\<open>sendSyn\<close> with the timers of the connection setup.\<close>

definition activeOpen :: "('d, 'z) conn_scheme \<Rightarrow> err + ('d, 'z) conn_scheme" where
  "activeOpen c =
     ebind (sendSyn (selectInitialSeqNum c)) (\<lambda>c. ebind (startSynRexmitTimer c) startConnEstabTimer)"

definition process_OPEN_ACTIVE :: "('d, 'z) conn_scheme tcp_algorithm \<Rightarrow> conn_id \<Rightarrow> L3Address \<Rightarrow> L3Address \<Rightarrow>
    int \<Rightarrow> int \<Rightarrow> tcp_tables \<Rightarrow> ('d, 'z) conn_scheme \<Rightarrow> err + (tcp_tables \<times> ('d, 'z) conn_scheme)" where
  "process_OPEN_ACTIVE alg i local remote lport rport t c =
     (if fsm c \<noteq> TCP_S_INIT
      then Inl (RuntimeError ''Error processing command OPEN_ACTIVE: connection already exists'')
      else
        ebind (initConnection_open alg c) (\<lambda>c.
          let c = c\<lparr>state := (state c)\<lparr>active := True\<rparr>\<rparr>
          in if remote = Unspecified \<or> rport = - 1
             then Inl (RuntimeError ''remote address and port must be specified'')
             else
               ebind (if lport = - 1 then ebind (getEphemeralPort t) (\<lambda>(p, t). Inr (uint p, t))
                      else Inr (lport, t)) (\<lambda>(lport, t).
               ebind (addSockPair i local remote lport rport t c) (\<lambda>(t, c).
               ebind (activeOpen c) (\<lambda>c. Inr (t, c))))))"

definition process_OPEN_PASSIVE :: "('d, 'z) conn_scheme tcp_algorithm \<Rightarrow> conn_id \<Rightarrow> L3Address \<Rightarrow> int \<Rightarrow> bool \<Rightarrow>
    tcp_tables \<Rightarrow> ('d, 'z) conn_scheme \<Rightarrow> err + (tcp_tables \<times> ('d, 'z) conn_scheme)" where
  "process_OPEN_PASSIVE alg i local lport forking t c =
     (if fsm c \<noteq> TCP_S_INIT
      then Inl (RuntimeError ''Error processing command OPEN_PASSIVE: connection already exists'')
      else
        ebind (initConnection_open alg c) (\<lambda>c.
          let c = c\<lparr>state := (state c)\<lparr>active := False, fork := forking\<rparr>\<rparr>
          in if lport = - 1 then Inl (RuntimeError ''local port must be specified'')
             else addSockPair i local Unspecified lport (- 1) t c))"

definition process_ACCEPT :: "('d, 'z) conn_scheme \<Rightarrow> err + ('d, 'z) conn_scheme" where
  "process_ACCEPT c =
     (let c = sendEstabIndicationToApp (c\<lparr>listeningSocketId := - 1\<rparr>)
      in if opened c then sendAvailableDataToApp c else Inl NullPointer)"

definition enqueueSend :: "'d list \<Rightarrow> ('d, 'z) conn_scheme \<Rightarrow> err + ('d, 'z) conn_scheme" where
  "enqueueSend packet c =
     ebind (enqueueAppData packet (sendQueue c)) (\<lambda>q. Inr (c\<lparr>sendQueue := q\<rparr>))"

definition process_SEND :: "('d, 'z) conn_scheme tcp_algorithm \<Rightarrow> 'd list \<Rightarrow> ('d, 'z) conn_scheme \<Rightarrow>
    err + ('d, 'z) conn_scheme" where
  "process_SEND alg packet c =
     ebind
      (if fsm c = TCP_S_INIT then Inl (RuntimeError ''Error processing command SEND: connection not open'')
       else if fsm c = TCP_S_LISTEN then
         ebind (activeOpen (c\<lparr>state := (state c)\<lparr>active := True\<rparr>\<rparr>)) (enqueueSend packet)
       else if fsm c = TCP_S_SYN_RCVD \<or> fsm c = TCP_S_SYN_SENT then enqueueSend packet c
       else if fsm c = TCP_S_ESTABLISHED \<or> fsm c = TCP_S_CLOSE_WAIT
       then ebind (enqueueSend packet c) (alg_sendCommandInvoked alg)
       else if fsm c = TCP_S_CLOSED then Inr c
       else Inl (RuntimeError ''Error processing command SEND: connection closing'')) (\<lambda>c.
       Inr (if sendQueueLimit (state c) > 0 \<and>
               getBytesAvailable (snd_una (state c)) (sendQueue c) > sendQueueLimit (state c)
            then c\<lparr>state := (state c)\<lparr>queueUpdate := False\<rparr>\<rparr> else c))"

definition process_READ_REQUEST :: "('d, 'z) conn_scheme \<Rightarrow> err + ('d, 'z) conn_scheme" where
  "process_READ_REQUEST c =
     (if listeningSocketId c \<noteq> - 1 then Inl (RuntimeError ''READ without ACCEPT'')
      else if \<not> opened c then Inl NullPointer
      else sendAllDataToApp c)"

fun process_OPTIONS :: "'d app_command \<Rightarrow> ('d, 'z) conn_scheme \<Rightarrow> err + ('d, 'z) conn_scheme" where
  "process_OPTIONS (SetTimeToLive n) c = Inr (c\<lparr>ttl := n\<rparr>)"
| "process_OPTIONS (SetTos n) c = Inr (c\<lparr>tos := n\<rparr>)"
| "process_OPTIONS (SetDscp n) c = Inr (c\<lparr>dscp := n\<rparr>)"
| "process_OPTIONS _ c = Inl (RuntimeError ''Unknown subclass of TcpSetOptionCommand received from app'')"

text \<open>With data still to send the FIN is deferred; the event becomes \<open>TCP_E_IGNORE\<close>.\<close>

definition process_CLOSE :: "(('d, 'z) conn_scheme, 'y) tcp_callbacks_scheme \<Rightarrow> ('d, 'z) conn_scheme \<Rightarrow>
    err + (tcp_event \<times> ('d, 'z) conn_scheme)" where
  "process_CLOSE alg c =
     (if fsm c \<in> {TCP_S_SYN_RCVD, TCP_S_ESTABLISHED, TCP_S_CLOSE_WAIT} then
        ebind (if snd_max (state c) = sendq_getBufferEndSeq (sendQueue c)
               then ebind (sendFin alg (c\<lparr>state := (state c)\<lparr>snd_nxt := snd_max (state c)\<rparr>\<rparr>)) (\<lambda>c.
                    ebind (alg_restartRexmitTimer alg c) (\<lambda>c.
                      let n = snd_nxt (state c) + 1
                      in Inr (TCP_E_CLOSE, c\<lparr>state := (state c)\<lparr>snd_nxt := n, snd_max := n\<rparr>\<rparr>)))
               else Inr (TCP_E_IGNORE, c)) (\<lambda>(event, c).
          Inr (event, c\<lparr>state := (state c)\<lparr>send_fin := True,
                 snd_fin_seq := sendq_getBufferEndSeq (sendQueue c)\<rparr>\<rparr>))
      else if fsm c \<in> {TCP_S_FIN_WAIT_1, TCP_S_FIN_WAIT_2, TCP_S_CLOSING, TCP_S_LAST_ACK, TCP_S_TIME_WAIT}
      then Inl (RuntimeError ''Duplicate CLOSE command: connection already closing'')
      else Inr (TCP_E_CLOSE, c))"

definition process_ABORT :: "('d, 'z) conn_scheme \<Rightarrow> err + ('d, 'z) conn_scheme" where
  "process_ABORT c =
     (if fsm c = TCP_S_INIT then Inl (RuntimeError ''Error processing command ABORT: connection not open'')
      else if fsm c \<in> {TCP_S_SYN_RCVD, TCP_S_ESTABLISHED, TCP_S_FIN_WAIT_1, TCP_S_FIN_WAIT_2, TCP_S_CLOSE_WAIT}
      then sendRst (snd_nxt (state c)) c
      else Inr c)"

definition process_STATUS :: "('d, 'z) conn_scheme \<Rightarrow> err + ('d, 'z) conn_scheme" where
  "process_STATUS c =
     (if fsm c = TCP_S_INIT then Inl (RuntimeError ''Error processing command STATUS: connection not open'')
      else Inr (sendToApp (StatusOut (socketId c) (fsm c) (state c) (localAddr c) (remoteAddr c)
             (localPort c) (remotePort c)) c))"

definition process_QUEUE_BYTES_LIMIT :: "int \<Rightarrow> ('d, 'z) conn_scheme \<Rightarrow> err + ('d, 'z) conn_scheme" where
  "process_QUEUE_BYTES_LIMIT n c =
     (if \<not> opened c then Inl (RuntimeError ''Called process_QUEUE_BYTES_LIMIT on uninitialized TcpConnection!'')
      else Inr (c\<lparr>state := (state c)\<lparr>sendQueueLimit := word_of_int n\<rparr>\<rparr>))"

text \<open>The command of the \<open>switch\<close>; all but CLOSE leave the event of \<open>preanalyseAppCommandEvent\<close>.\<close>

definition runCommand :: "('d, 'z) conn_scheme tcp_algorithm \<Rightarrow> conn_id \<Rightarrow> 'd app_command \<Rightarrow> tcp_tables \<Rightarrow>
    ('d, 'z) conn_scheme \<Rightarrow> err + (tcp_event \<times> tcp_tables \<times> ('d, 'z) conn_scheme)" where
  "runCommand alg i cmd t c =
     (let event = preanalyseAppCommandEvent (command_code cmd);
          alone = (\<lambda>r. ebind r (\<lambda>c. Inr (event, t, c)));
          withTables = (\<lambda>r. ebind r (\<lambda>(t, c). Inr (event, t, c)))
      in case cmd of
           OpenActive local remote lport rport \<Rightarrow>
             withTables (process_OPEN_ACTIVE alg i local remote lport rport t c)
         | OpenPassive local lport forking \<Rightarrow> withTables (process_OPEN_PASSIVE alg i local lport forking t c)
         | Accept \<Rightarrow> alone (process_ACCEPT c)
         | Send packet \<Rightarrow> alone (process_SEND alg packet c)
         | Close \<Rightarrow> ebind (process_CLOSE alg c) (\<lambda>(event, c). Inr (event, t, c))
         | Abort \<Rightarrow> alone (process_ABORT c)
         | Destroy \<Rightarrow> alone (Inr c)
         | Status \<Rightarrow> alone (process_STATUS c)
         | QueueBytesLimit n \<Rightarrow> alone (process_QUEUE_BYTES_LIMIT n c)
         | Read \<Rightarrow> alone (process_READ_REQUEST c)
         | _ \<Rightarrow> alone (process_OPTIONS cmd c))"

definition processAppCommand :: "('d, 'z) conn_scheme tcp_algorithm \<Rightarrow> conn_id \<Rightarrow> 'd app_command \<Rightarrow>
    tcp_tables \<Rightarrow> ('d, 'z) conn_scheme \<Rightarrow> err + (bool \<times> tcp_tables \<times> ('d, 'z) conn_scheme)" where
  "processAppCommand alg i cmd t c =
     ebind (runCommand alg i cmd t c) (\<lambda>(event, t, c).
     ebind (performStateTransition alg event c) (\<lambda>(alive, c). Inr (alive, t, c)))"

section \<open>Segments\<close>

text \<open>The result: the event, the tables, the connection and the connection it forked off.\<close>

definition process_RCV_SEGMENT :: "('d, 'z) conn_scheme tcp_algorithm \<Rightarrow> conn_id \<Rightarrow> conn_id \<Rightarrow>
    ('d, 'z) conn_scheme \<Rightarrow> tcp_header \<Rightarrow> 'd list \<Rightarrow> L3Address \<Rightarrow> L3Address \<Rightarrow> tcp_tables \<Rightarrow>
    ('d, 'z) conn_scheme \<Rightarrow>
    err + (tcp_event \<times> tcp_tables \<times> ('d, 'z) conn_scheme \<times> ('d, 'z) conn_scheme option)" where
  "process_RCV_SEGMENT alg i j fresh hdr payload src dest t c =
     (if \<not> opened c then Inl NullPointer
      else if fsm c = TCP_S_LISTEN then processSegmentInListen alg i j fresh hdr payload src dest t c
      else if fsm c = TCP_S_SYN_SENT then
        ebind (processSegmentInSynSent alg i hdr payload src dest t c) (\<lambda>(event, t, c). Inr (event, t, c, None))
      else ebind (processSegment1stThru8th alg hdr payload c) (\<lambda>(event, c). Inr (event, t, c, None)))"

definition processTCPSegment :: "('d, 'z) conn_scheme tcp_algorithm \<Rightarrow> conn_id \<Rightarrow> conn_id \<Rightarrow>
    ('d, 'z) conn_scheme \<Rightarrow> tcp_header \<Rightarrow> 'd list \<Rightarrow> L3Address \<Rightarrow> L3Address \<Rightarrow> tcp_tables \<Rightarrow>
    ('d, 'z) conn_scheme \<Rightarrow>
    err + (bool \<times> tcp_tables \<times> ('d, 'z) conn_scheme \<times> ('d, 'z) conn_scheme option)" where
  "processTCPSegment alg i j fresh hdr payload src dest t c =
     ebind (assert_that (localAddr c = Unspecified \<or> (localAddr c = dest \<and> localPort c = destPort hdr))) (\<lambda>_.
     ebind (assert_that (remoteAddr c = Unspecified \<or> (remoteAddr c = src \<and> remotePort c = srcPort hdr))) (\<lambda>_.
     ebind (process_RCV_SEGMENT alg i j fresh hdr payload src dest t c) (\<lambda>(event, t, c, forked).
     ebind (performStateTransition alg event c) (\<lambda>(alive, c).
       Inr (alive, t, c, forked)))))"

section \<open>Timers\<close>

datatype tcp_timer = T_2MSL | T_CONN_ESTAB | T_FIN_WAIT_2 | T_SYN_REXMIT | T_ALGORITHM string

text \<open>The message that arrives is no longer scheduled.\<close>

definition runTimer :: "('d, 'z) conn_scheme tcp_algorithm \<Rightarrow> tcp_timer \<Rightarrow> ('d, 'z) conn_scheme \<Rightarrow>
    err + (tcp_event \<times> ('d, 'z) conn_scheme)" where
  "runTimer alg tm c = (case tm of
       T_2MSL \<Rightarrow> ebind (process_TIMEOUT_2MSL (c\<lparr>the2MSLTimer := Idle\<rparr>)) (\<lambda>c. Inr (TCP_E_TIMEOUT_2MSL, c))
     | T_CONN_ESTAB \<Rightarrow>
         ebind (process_TIMEOUT_CONN_ESTAB (c\<lparr>connEstabTimer := Idle\<rparr>)) (\<lambda>c.
           Inr (TCP_E_TIMEOUT_CONN_ESTAB, c))
     | T_FIN_WAIT_2 \<Rightarrow>
         ebind (process_TIMEOUT_FIN_WAIT_2 (c\<lparr>finWait2Timer := Idle\<rparr>)) (\<lambda>c.
           Inr (TCP_E_TIMEOUT_FIN_WAIT_2, c))
     | T_SYN_REXMIT \<Rightarrow> process_TIMEOUT_SYN_REXMIT alg (c\<lparr>synRexmitTimer := Idle\<rparr>)
     | T_ALGORITHM name \<Rightarrow> alg_processTimer alg name c)"

definition processTimer :: "('d, 'z) conn_scheme tcp_algorithm \<Rightarrow> tcp_timer \<Rightarrow> ('d, 'z) conn_scheme \<Rightarrow>
    err + (bool \<times> ('d, 'z) conn_scheme)" where
  "processTimer alg tm c =
     ebind (runTimer alg tm c) (\<lambda>(event, c). performStateTransition alg event c)"

end
