(* ===== verification/TcpContract.thy ===== *)
theory TcpContract
  imports TcpEvents
begin

text \<open>
  The contract of a congestion control with the connection (locale \<open>congestion_control\<close>), and what every
  congestion control that meets it gives: the entry points of a connection go through no null pointer
  and keep the timer messages the state needs.
\<close>

section \<open>The functions that do not call back\<close>

lemma timer_rules [null_rules]:
  "t \<noteq> NoTimer \<Longrightarrow> no_null (cancelEvent t)" "t \<noteq> NoTimer \<Longrightarrow> no_null (scheduleAfter now d t)"
  "t \<noteq> NoTimer \<Longrightarrow> no_null (rescheduleAfter now d t)" "t \<noteq> NoTimer \<Longrightarrow> no_null (isScheduled t)"
  by (simp_all add: scheduleAfter_def isScheduled_def split: timer.split)

lemma timers_of_kept:
  "kept ok c x \<Longrightarrow> synRexmitTimer c \<noteq> NoTimer \<Longrightarrow> synRexmitTimer x \<noteq> NoTimer"
  "kept ok c x \<Longrightarrow> connEstabTimer c \<noteq> NoTimer \<Longrightarrow> connEstabTimer x \<noteq> NoTimer"
  "kept ok c x \<Longrightarrow> the2MSLTimer c \<noteq> NoTimer \<Longrightarrow> the2MSLTimer x \<noteq> NoTimer"
  "kept ok c x \<Longrightarrow> finWait2Timer c \<noteq> NoTimer \<Longrightarrow> finWait2Timer x \<noteq> NoTimer"
  by (simp_all add: kept_def same_control_def)

lemma scheduled_timer: "scheduleAfter now d t = Inr t' \<Longrightarrow> t' \<noteq> NoTimer"
  by (auto simp: scheduleAfter_def split: timer.splits)

lemma start_timer_rules [control_rules]:
  "kept ok c x \<Longrightarrow> connecting (fsm c) \<Longrightarrow> synRexmitTimer c \<noteq> NoTimer \<Longrightarrow> safe (kept ok c) (startSynRexmitTimer x)"
  "kept ok c x \<Longrightarrow> connecting (fsm c) \<Longrightarrow> connEstabTimer c \<noteq> NoTimer \<Longrightarrow> safe (kept ok c) (startConnEstabTimer x)"
  "kept ok c x \<Longrightarrow> connecting (fsm c) \<Longrightarrow> synRexmitTimer c \<noteq> NoTimer \<Longrightarrow> safe (kept ok c) (backOffSynRexmit x)"
  "kept ok c x \<Longrightarrow> the2MSLTimer c \<noteq> NoTimer \<Longrightarrow> safe (kept ok c) (start2MSLTimer x)"
  "kept ok c x \<Longrightarrow> the2MSLTimer c \<noteq> NoTimer \<Longrightarrow> safe (kept ok c) (restart2MSLTimer x)"
  by (auto simp: backOffSynRexmit_def Let_def startSynRexmitTimer_def startConnEstabTimer_def start2MSLTimer_def restart2MSLTimer_def
      scheduleAfter_def kept_def same_control_def same_socket_def split: timer.split)

lemma enterTimeWait_control [control_rules]:
  "kept ok c x \<Longrightarrow> the2MSLTimer c \<noteq> NoTimer \<Longrightarrow> finWait2Timer c \<noteq> NoTimer \<Longrightarrow> safe (kept ok c) (enterTimeWait x)"
  using start_timer_rules(4) [of ok c "x\<lparr>finWait2Timer := Idle\<rparr>"]
  by (simp add: enterTimeWait_def kept_def same_control_def same_socket_def)

lemma receive_rules [control_rules]:
  "kept ok c x \<Longrightarrow> safe (kept ok c) (insertText h d x)"
  "kept ok c x \<Longrightarrow> kept ok c (countDrop x)"
  "kept ok c x \<Longrightarrow> safe (kept ok c) (synSentAcked h x)"
  "kept ok c x \<Longrightarrow> safe (\<lambda>(a, y). kept ok c y) (checkSequence h d x)"
  "kept ok c x \<Longrightarrow> safe (\<lambda>(a, y). kept ok c y) (processRstInSynReceived x)"
  "kept ok c x \<Longrightarrow> safe (kept ok c) (discardAcked h x)"
  "kept ok c x \<Longrightarrow> safe (kept ok c) (enqueueSend d x)"
  "kept ok c x \<Longrightarrow> safe (kept ok c) (process_STATUS x)"
  unfolding insertText_def countDrop_def synSentAcked_def checkSequence_def processRstInSynReceived_def
    discardAcked_def enqueueSend_def process_STATUS_def
  by (intro control_rules null_rules; assumption)+

lemma queueSynText_control [control_rules]:
  "kept ok c x \<Longrightarrow> safe (\<lambda>(a, y). kept ok c y) (queueSynText h d x)"
  unfolding queueSynText_def by (intro control_rules null_rules)

lemma processRst_control [control_rules]: "kept ok c x \<Longrightarrow> safe (\<lambda>(a, y). kept ok c y) (processRst x)"
  unfolding processRst_def by (intro control_rules null_rules)

lemma fin_rules [control_rules]:
  assumes "the2MSLTimer c \<noteq> NoTimer" and "finWait2Timer c \<noteq> NoTimer"
  shows "kept ok c x \<Longrightarrow> safe (\<lambda>(a, y). kept ok c y) (finReceived x)"
    and "kept ok c x \<Longrightarrow> safe (\<lambda>(a, y). kept ok c y) (inOrder e x)"
    and "kept ok c x \<Longrightarrow> safe (\<lambda>(a, y). kept ok c y) (processFin h d e x)"
proof -
  show f: "kept ok c x \<Longrightarrow> safe (\<lambda>(a, y). kept ok c y) (finReceived x)" for x
    unfolding finReceived_def by (intro control_rules null_rules assms)
  show "kept ok c x \<Longrightarrow> safe (\<lambda>(a, y). kept ok c y) (inOrder e x)"
    unfolding inOrder_def by (intro control_rules null_rules f)
  show "kept ok c x \<Longrightarrow> safe (\<lambda>(a, y). kept ok c y) (processFin h d e x)"
    unfolding processFin_def by (intro control_rules null_rules f)
qed

lemma command_rules [control_rules]:
  "kept ok c x \<Longrightarrow> safe (kept ok c) (process_ABORT x)"
  "kept ok c x \<Longrightarrow> safe (kept ok c) (process_QUEUE_BYTES_LIMIT n x)"
  unfolding process_ABORT_def process_QUEUE_BYTES_LIMIT_def
  by (intro control_rules null_rules; assumption)+

lemma options_rule [control_rules]: "kept ok c x \<Longrightarrow> safe (kept ok c) (process_OPTIONS cmd x)"
  by (cases cmd) (simp_all only: process_OPTIONS.simps, (intro control_rules null_rules; assumption)+)

lemma kept_opened: "kept ok c x \<Longrightarrow> opened c \<Longrightarrow> opened x"
  by (simp add: kept_def same_control_def)

lemma read_rules [control_rules]:
  assumes "opened c"
  shows "kept ok c x \<Longrightarrow> safe (kept ok c) (process_READ_REQUEST x)"
    and "kept ok c x \<Longrightarrow> safe (kept ok c) (process_ACCEPT x)"
proof -
  assume k: "kept ok c x"
  show "safe (kept ok c) (process_READ_REQUEST x)"
    using sendAllDataToApp_control [OF k] kept_opened [OF k assms] by (simp add: process_READ_REQUEST_def)
  have k': "kept ok c (sendEstabIndicationToApp (x\<lparr>listeningSocketId := - 1\<rparr>))" by (intro control_rules k)
  show "safe (kept ok c) (process_ACCEPT x)"
    using sendAvailableDataToApp_control [OF k'] kept_opened [OF k' assms] by (simp add: process_ACCEPT_def Let_def)
qed

lemma activeOpen_control [control_rules]:
  "kept ok c x \<Longrightarrow> connecting (fsm c) \<Longrightarrow> synRexmitTimer c \<noteq> NoTimer \<Longrightarrow> connEstabTimer c \<noteq> NoTimer \<Longrightarrow>
    safe (kept ok c) (activeOpen x)"
  unfolding activeOpen_def by (intro control_rules null_rules)

section \<open>Connections\<close>

text \<open>A connection in use, and a connection object that no OPEN command has reached.\<close>

definition live :: "('z \<Rightarrow> bool) \<Rightarrow> ('d, 'z) conn_scheme \<Rightarrow> bool" where
  "live ok c = (opened c \<and> ok (conn.more c) \<and> timers_wf c \<and> fsm c \<noteq> TCP_S_CLOSED \<and> fsm c \<noteq> TCP_S_INIT)"

definition unopened :: "('d, 'z) conn_scheme \<Rightarrow> bool" where
  "unopened c = (\<not> opened c \<and> fsm c = TCP_S_INIT \<and> the2MSLTimer c = Idle \<and> finWait2Timer c = Idle \<and>
     connEstabTimer c = Idle \<and> synRexmitTimer c = Idle)"

lemma unopened_new: "unopened (initConnection params now sock junk atBack atFront)"
  by (simp add: unopened_def initConnection_def)

lemma live_timers:
  assumes "live ok c"
  shows "the2MSLTimer c \<noteq> NoTimer" and "finWait2Timer c \<noteq> NoTimer"
    and "connecting (fsm c) \<Longrightarrow> connEstabTimer c \<noteq> NoTimer" and "connecting (fsm c) \<Longrightarrow> synRexmitTimer c \<noteq> NoTimer"
  using assms by (auto simp: live_def timers_wf_def)

lemma live_kept: "live ok c \<Longrightarrow> kept ok c x \<Longrightarrow> live ok x"
  using timers_wf_same [of c x] by (auto simp: live_def kept_def same_control_def)

lemma live_refl: "live ok c \<Longrightarrow> kept ok c c"
  by (simp add: live_def)

lemma kept_same_socket: "kept ok c x \<Longrightarrow> same_socket c x"
  by (simp add: kept_def same_control_def)

text \<open>The timer whose message arrives was scheduled; those of an algorithm exist once the connection has been opened.\<close>

fun pending :: "tcp_timer \<Rightarrow> ('d, 'z) conn_scheme \<Rightarrow> bool" where
  "pending T_2MSL c = (the2MSLTimer c \<notin> {NoTimer, Idle})"
| "pending T_CONN_ESTAB c = (connEstabTimer c \<notin> {NoTimer, Idle})"
| "pending T_FIN_WAIT_2 c = (finWait2Timer c \<notin> {NoTimer, Idle})"
| "pending T_SYN_REXMIT c = (synRexmitTimer c \<notin> {NoTimer, Idle})"
| "pending (T_ALGORITHM name) c = opened c"

text \<open>What an OPEN command leaves before the state transition.\<close>

definition open_done :: "('z \<Rightarrow> bool) \<Rightarrow> conn_id \<Rightarrow> tcp_tables \<Rightarrow> ('d, 'z) conn_scheme \<Rightarrow> tcp_tables \<Rightarrow>
    ('d, 'z) conn_scheme \<Rightarrow> bool" where
  "open_done ok i t c t' x = (timers_wf x \<and> opened x \<and> ok (conn.more x) \<and> fsm x = TCP_S_INIT \<and>
     socketId x = socketId c \<and> registered i t t' x)"

text \<open>
  What a command on a connection object leaves that no OPEN command had reached: it is now live and
  registered, or still unopened.
\<close>

definition after_unopened :: "('z \<Rightarrow> bool) \<Rightarrow> conn_id \<Rightarrow> tcp_tables \<Rightarrow> ('d, 'z) conn_scheme \<Rightarrow> tcp_tables \<Rightarrow>
    ('d, 'z) conn_scheme \<Rightarrow> bool" where
  "after_unopened ok i t c t' y = (socketId y = socketId c \<and>
     (live ok y \<and> registered i t t' y \<or> unopened y \<and> same_socket c y \<and> t' = t))"

text \<open>
  What a segment leaves that reached the live connection \<open>c\<close>: the connection, perhaps bound to the socket
  pair of the segment, or the listener as it was and a live connection forked off under that pair.
\<close>

definition pair_after :: "conn_id \<Rightarrow> sock_pair \<Rightarrow> tcp_tables \<Rightarrow> ('d, 'z) conn_scheme \<Rightarrow> tcp_tables \<Rightarrow>
    ('d, 'z) conn_scheme \<Rightarrow> bool" where
  "pair_after i key t c t' y = (socketId y = socketId c \<and>
     (same_socket c y \<and> t' = t \<or> sock_pair_of y = key \<and> moved i t t' c y))"

definition after_segment :: "('z \<Rightarrow> bool) \<Rightarrow> conn_id \<Rightarrow> conn_id \<Rightarrow> ('d, 'z) conn_scheme \<Rightarrow> sock_pair \<Rightarrow>
    tcp_tables \<Rightarrow> ('d, 'z) conn_scheme \<Rightarrow> bool \<Rightarrow> tcp_tables \<Rightarrow> ('d, 'z) conn_scheme \<Rightarrow>
    ('d, 'z) conn_scheme option \<Rightarrow> bool" where
  "after_segment ok i j fresh key t c b t' y f = (case f of
       None \<Rightarrow> (b \<longrightarrow> live ok y) \<and> pair_after i key t c t' y
     | Some n \<Rightarrow> b \<and> y = c \<and> live ok n \<and> forked j t t' n \<and> socketId n = socketId fresh \<and> sock_pair_of n = key)"

section \<open>The contract\<close>

locale congestion_control = keeps_control alg ok
  for alg :: "('d, 'z) conn_scheme tcp_algorithm" and ok :: "'z \<Rightarrow> bool" +
  assumes initialize_ok: "safe (\<lambda>x'. same_control x x' \<and> ok (conn.more x')) (alg_initialize alg x)"
    and established_keeps: "ok (conn.more x) \<Longrightarrow> safe (kept ok x) (alg_established alg b x)"
    and connectionClosed_returns: "opened x \<Longrightarrow> ok (conn.more x) \<Longrightarrow>
      \<exists>x'. alg_connectionClosed alg x = Inr x' \<and> kept ok x x'"
    and processTimer_keeps: "ok (conn.more x) \<Longrightarrow> safe (\<lambda>(e, x'). kept ok x x') (alg_processTimer alg s x)"
    and sendCommandInvoked_keeps: "ok (conn.more x) \<Longrightarrow> safe (kept ok x) (alg_sendCommandInvoked alg x)"
    and receivedOutOfOrderSegment_keeps:
      "ok (conn.more x) \<Longrightarrow> safe (kept ok x) (alg_receivedOutOfOrderSegment alg x)"
    and receiveSeqChanged_keeps: "ok (conn.more x) \<Longrightarrow> safe (kept ok x) (alg_receiveSeqChanged alg x)"
    and receivedDataAck_keeps: "ok (conn.more x) \<Longrightarrow> safe (kept ok x) (alg_receivedDataAck alg n x)"
    and receivedDuplicateAck_keeps: "ok (conn.more x) \<Longrightarrow> safe (kept ok x) (alg_receivedDuplicateAck alg x)"
    and receivedAckForDataNotYetSent_keeps:
      "ok (conn.more x) \<Longrightarrow> safe (kept ok x) (alg_receivedAckForDataNotYetSent alg n x)"
    and rttMeasurementCompleteUsingTS_keeps:
      "ok (conn.more x) \<Longrightarrow> safe (kept ok x) (alg_rttMeasurementCompleteUsingTS alg n x)"
    and processEcnInEstablished_keeps:
      "ok (conn.more x) \<Longrightarrow> safe (kept ok x) (alg_processEcnInEstablished alg x)"

lemma kept_along_event:
  "kept ok c x \<Longrightarrow> (ok (conn.more x) \<Longrightarrow> safe (\<lambda>(e, y). kept ok x y) r) \<Longrightarrow> safe (\<lambda>(e, y). kept ok c y) r"
  by (rule safe_mono [of "\<lambda>(e, y). kept ok x y"]) (auto simp: kept_def intro: same_control_trans)

context congestion_control
begin

lemma algorithm_rules [control_rules]:
  "kept ok c x \<Longrightarrow> safe (kept ok c) (alg_established alg b x)"
  "kept ok c x \<Longrightarrow> safe (kept ok c) (alg_sendCommandInvoked alg x)"
  "kept ok c x \<Longrightarrow> safe (kept ok c) (alg_receivedOutOfOrderSegment alg x)"
  "kept ok c x \<Longrightarrow> safe (kept ok c) (alg_receiveSeqChanged alg x)"
  "kept ok c x \<Longrightarrow> safe (kept ok c) (alg_receivedDataAck alg n x)"
  "kept ok c x \<Longrightarrow> safe (kept ok c) (alg_receivedDuplicateAck alg x)"
  "kept ok c x \<Longrightarrow> safe (kept ok c) (alg_receivedAckForDataNotYetSent alg n x)"
  "kept ok c x \<Longrightarrow> safe (kept ok c) (alg_rttMeasurementCompleteUsingTS alg n x)"
  "kept ok c x \<Longrightarrow> safe (kept ok c) (alg_processEcnInEstablished alg x)"
  "kept ok c x \<Longrightarrow> safe (\<lambda>(a, y). kept ok c y) (alg_processTimer alg s x)"
  by (blast intro: kept_along kept_along_event established_keeps sendCommandInvoked_keeps
      receivedOutOfOrderSegment_keeps receiveSeqChanged_keeps receivedDataAck_keeps receivedDuplicateAck_keeps
      receivedAckForDataNotYetSent_keeps rttMeasurementCompleteUsingTS_keeps processEcnInEstablished_keeps
      processTimer_keeps)+

lemma ack_rules [control_rules]:
  "kept ok c x \<Longrightarrow> safe (kept ok c) (rejectSegment alg h d x)"
  "kept ok c x \<Longrightarrow> safe (kept ok c) (duplicateAck alg h d x)"
  "kept ok c x \<Longrightarrow> safe (kept ok c) (newAck alg h d x)"
  "kept ok c x \<Longrightarrow> safe (kept ok c) (synAcked alg x)"
  "kept ok c x \<Longrightarrow> safe (kept ok c) (outOfOrder alg n h d x)"
  "kept ok c x \<Longrightarrow> safe (kept ok c) (acknowledge alg n h d x)"
  unfolding rejectSegment_def duplicateAck_def newAck_def synAcked_def outOfOrder_def acknowledge_def
  by (intro control_rules null_rules; assumption)+

lemma processAck_rule [control_rules]:
  "kept ok c x \<Longrightarrow> safe (\<lambda>(a, y). kept ok c y) (processAckInEstabEtc alg h d x)"
  unfolding processAckInEstabEtc_def by (intro control_rules null_rules)

lemma segment_rules [control_rules]:
  assumes "the2MSLTimer c \<noteq> NoTimer" and "finWait2Timer c \<noteq> NoTimer"
  shows "kept ok c x \<Longrightarrow> safe (\<lambda>(a, y). kept ok c y) (processText alg n h d e x)"
    and "kept ok c x \<Longrightarrow> safe (\<lambda>(a, y). kept ok c y) (ackInClosingStates alg h e x)"
    and "kept ok c x \<Longrightarrow> safe (\<lambda>(a, y). kept ok c y) (textAndFin alg n m h d e x)"
    and "kept ok c x \<Longrightarrow> safe (\<lambda>(a, y). kept ok c y) (ackStep alg n h d e x)"
    and "kept ok c x \<Longrightarrow> safe (\<lambda>(a, y). kept ok c y) (processSegment1stThru8th alg h d x)"
proof -
  note fin = fin_rules [OF assms]
  show t: "kept ok c x \<Longrightarrow> safe (\<lambda>(a, y). kept ok c y) (processText alg n h d e x)" for n h d e x
    unfolding processText_def by (intro control_rules null_rules fin)
  show a: "kept ok c x \<Longrightarrow> safe (\<lambda>(a, y). kept ok c y) (ackInClosingStates alg h e x)" for h e x
    unfolding ackInClosingStates_def by (intro control_rules null_rules assms)
  show f: "kept ok c x \<Longrightarrow> safe (\<lambda>(a, y). kept ok c y) (textAndFin alg n m h d e x)" for n m h d e x
    unfolding textAndFin_def by (intro control_rules null_rules t fin)
  show s: "kept ok c x \<Longrightarrow> safe (\<lambda>(a, y). kept ok c y) (ackStep alg n h d e x)" for n h d e x
    unfolding ackStep_def by (intro control_rules null_rules a f)
  have g: "kept ok c x \<Longrightarrow> safe (\<lambda>(a, y). kept ok c y) (fifthStep alg h d x)" for x
    unfolding fifthStep_def by (intro control_rules null_rules s)
  show "kept ok c x \<Longrightarrow> safe (\<lambda>(a, y). kept ok c y) (processSegment1stThru8th alg h d x)"
    unfolding processSegment1stThru8th_def by (intro control_rules null_rules g)
qed

lemma syn_rules [control_rules]:
  assumes "synRexmitTimer c \<noteq> NoTimer" and "connEstabTimer c \<noteq> NoTimer" and "connecting (fsm c)"
  shows "kept ok c x \<Longrightarrow> safe (\<lambda>(a, y). kept ok c y) (processSynInListen alg h d x)"
    and "kept ok c x \<Longrightarrow> safe (\<lambda>(a, y). kept ok c y) (synSentEstablished alg h d x)"
    and "kept ok c x \<Longrightarrow> safe (\<lambda>(a, y). kept ok c y) (synSentSimultaneous alg h d x)"
    and "kept ok c x \<Longrightarrow> safe (\<lambda>(a, y). kept ok c y) (process_TIMEOUT_SYN_REXMIT alg x)"
proof -
  have i: "kept ok c x \<Longrightarrow> no_null (isScheduled (connEstabTimer x))" for x
    by (rule timer_rules(4), rule timers_of_kept(2)) (assumption, rule assms)
  show "kept ok c x \<Longrightarrow> safe (\<lambda>(a, y). kept ok c y) (processSynInListen alg h d x)"
    unfolding processSynInListen_def by (intro control_rules null_rules assms i)
  show "kept ok c x \<Longrightarrow> safe (\<lambda>(a, y). kept ok c y) (synSentEstablished alg h d x)"
    unfolding synSentEstablished_def by (intro control_rules null_rules assms)
  show "kept ok c x \<Longrightarrow> safe (\<lambda>(a, y). kept ok c y) (synSentSimultaneous alg h d x)"
    unfolding synSentSimultaneous_def by (intro control_rules null_rules assms)
  show "kept ok c x \<Longrightarrow> safe (\<lambda>(a, y). kept ok c y) (process_TIMEOUT_SYN_REXMIT alg x)"
    unfolding process_TIMEOUT_SYN_REXMIT_def by (intro control_rules null_rules assms)
qed

lemma process_SEND_rule:
  assumes "kept ok c x" and "fsm c = TCP_S_LISTEN \<Longrightarrow> synRexmitTimer c \<noteq> NoTimer \<and> connEstabTimer c \<noteq> NoTimer"
  shows "safe (kept ok c) (process_SEND alg d x)"
  unfolding process_SEND_def
  by (intro control_rules null_rules assms(1)) (use assms in \<open>auto simp: kept_def same_control_def connecting_def\<close>)

lemma process_CLOSE_rule [control_rules]:
  "kept ok c x \<Longrightarrow> safe (\<lambda>(a, y). kept ok c y) (process_CLOSE alg x)"
  unfolding process_CLOSE_def by (intro control_rules null_rules)

lemma transition_live:
  assumes "live ok c" and "kept ok c x"
  shows "safe (\<lambda>(b, y). (b \<longrightarrow> live ok y) \<and> same_socket c y) (performStateTransition alg e x)"
proof -
  have l: "live ok x" using live_kept [OF assms] .
  obtain b y where y: "performStateTransition alg e x = Inr (b, y)" "timers_wf y" "opened y" "ok (conn.more y)"
    "same_socket x y" "b \<longleftrightarrow> fsm y \<noteq> TCP_S_CLOSED"
    "fsm y = (if e = TCP_E_IGNORE then fsm x else fsm_next (active (state x)) e (fsm x))"
    using performStateTransition_timers [of x ok alg e] l connectionClosed_returns by (auto simp: live_def)
  moreover have "fsm y \<noteq> TCP_S_INIT" using y(7) l fsm_next_init [of _ e "fsm x"] by (auto simp: live_def split: if_splits)
  moreover have "same_socket c y" using kept_same_socket [OF assms(2)] y(5) by (rule same_socket_trans)
  ultimately show ?thesis by (simp add: live_def)
qed

text \<open>The steps of an entry point, then the state transition.\<close>

lemma act_then_transition:
  assumes "live ok c" and "safe (\<lambda>(e, x). kept ok c x) r"
  shows "safe (\<lambda>(b, y). (b \<longrightarrow> live ok y) \<and> same_socket c y) (ebind r (\<lambda>(e, x). performStateTransition alg e x))"
proof -
  have "safe (\<lambda>(e, x). safe (\<lambda>(b, y). (b \<longrightarrow> live ok y) \<and> same_socket c y) (performStateTransition alg e x)) r"
    using assms(2) by (rule safe_mono) (auto intro: transition_live [OF assms(1)])
  then show ?thesis by (simp add: split_def)
qed

lemma processTimer_live:
  assumes l: "live ok c" and p: "pending tm c"
  shows "safe (\<lambda>(b, y). (b \<longrightarrow> live ok y) \<and> same_socket c y) (processTimer alg tm c)"
proof -
  have k: "kept ok c c" using l by (rule live_refl)
  have "safe (\<lambda>(e, x). kept ok c x) (runTimer alg tm c)"
  proof (cases tm)
    case T_2MSL
    then show ?thesis using p k
      by (auto simp: runTimer_def process_TIMEOUT_2MSL_def kept_def same_control_def same_socket_def)
  next
    case T_CONN_ESTAB
    let ?y = "c\<lparr>connEstabTimer := Idle\<rparr>"
    have "kept ok c ?y" using p k T_CONN_ESTAB by (auto simp: kept_def same_control_def same_socket_def)
    then have "safe (kept ok c) (process_TIMEOUT_CONN_ESTAB ?y)"
      unfolding process_TIMEOUT_CONN_ESTAB_def by (intro control_rules null_rules)
    then show ?thesis using T_CONN_ESTAB by (simp add: runTimer_def)
  next
    case T_FIN_WAIT_2
    then show ?thesis using p k
      by (auto simp: runTimer_def process_TIMEOUT_FIN_WAIT_2_def kept_def same_control_def same_socket_def)
  next
    case T_SYN_REXMIT
    let ?y = "c\<lparr>synRexmitTimer := Idle\<rparr>"
    have y: "kept ok c ?y" using p k T_SYN_REXMIT by (auto simp: kept_def same_control_def same_socket_def)
    have "synRexmitTimer c \<noteq> NoTimer" using p T_SYN_REXMIT by simp
    moreover have "connEstabTimer c \<noteq> NoTimer" using calculation l by (auto simp: live_def timers_wf_def)
    moreover have "connecting (fsm c)"
      using p T_SYN_REXMIT l by (cases "synRexmitTimer c") (auto simp: live_def timers_wf_def)
    ultimately have "safe (\<lambda>(e, x). kept ok c x) (process_TIMEOUT_SYN_REXMIT alg ?y)" by (rule syn_rules(4)) (rule y)
    then show ?thesis using T_SYN_REXMIT by (simp add: runTimer_def)
  next
    case (T_ALGORITHM name)
    then show ?thesis using algorithm_rules(10) [OF k] by (simp add: runTimer_def)
  qed
  then show ?thesis unfolding processTimer_def by (rule act_then_transition [OF l])
qed

lemma runCommand_live:
  assumes l: "live ok c"
  shows "safe (\<lambda>(e, t', x). kept ok c x \<and> t' = t) (runCommand alg i cmd t c)"
proof -
  have k: "kept ok c c" using l by (rule live_refl)
  have o: "opened c" "fsm c \<noteq> TCP_S_INIT" using l by (simp_all add: live_def)
  have alone: "safe (\<lambda>(e, t', x). kept ok c x \<and> t' = t) (ebind r (\<lambda>c. Inr (e, t, c)))"
    if "safe (kept ok c) r" for r and e :: tcp_event
    using that by simp
  show ?thesis
  proof (cases cmd)
    case Close
    have "safe (\<lambda>(e, x). kept ok c x) (process_CLOSE alg c)" using k by (rule control_rules)
    then show ?thesis using Close by (simp add: runCommand_def split_def)
  next
    case (Send d)
    have "safe (kept ok c) (process_SEND alg d c)"
      using k live_timers(3,4) [OF l] by (intro process_SEND_rule) (auto simp: connecting_def)
    then show ?thesis unfolding runCommand_def Let_def Send app_command.case by (rule alone)
  next
    case (OpenActive a b n m)
    then show ?thesis using o by (simp add: runCommand_def process_OPEN_ACTIVE_def)
  next
    case (OpenPassive a n b)
    then show ?thesis using o by (simp add: runCommand_def process_OPEN_PASSIVE_def)
  qed (simp_all only: runCommand_def Let_def app_command.case,
      (rule alone, intro control_rules read_rules [OF o(1)] k)+)
qed

lemma processAppCommand_live:
  assumes "live ok c"
  shows "safe (\<lambda>(b, t', y). (b \<longrightarrow> live ok y) \<and> same_socket c y \<and> t' = t) (processAppCommand alg i cmd t c)"
proof -
  have "safe (\<lambda>(e, t', x). safe (\<lambda>(b, y). (b \<longrightarrow> live ok y) \<and> same_socket c y \<and> t' = t)
      (performStateTransition alg e x)) (runCommand alg i cmd t c)"
    using runCommand_live [OF assms] by (rule safe_mono) (auto dest: transition_live [OF assms])
  then show ?thesis by (simp add: processAppCommand_def split_def)
qed

lemma initConnection_ok:
  "safe (\<lambda>y. same_control (c\<lparr>opened := True\<rparr>) y \<and> ok (conn.more y)) (initConnection_open alg c)"
proof -
  let ?c = "c\<lparr>opened := True\<rparr>"
  have "kept (\<lambda>_. True) ?c (c\<lparr>sendQueue := sendq_new, receiveQueue := rcvq_new, rexmitQ := sq_new,
      state := tcb_new (dupthresh (state c)), opened := True\<rparr>)"
    by (simp add: kept_def same_control_def same_socket_def)
  then have "safe (kept (\<lambda>_. True) ?c) (configureStateVariables (c\<lparr>sendQueue := sendq_new, receiveQueue := rcvq_new,
      rexmitQ := sq_new, state := tcb_new (dupthresh (state c)), opened := True\<rparr>))"
    unfolding configureStateVariables_def by (intro control_rules null_rules)
  then show ?thesis
    unfolding initConnection_open_def safe_simps
  proof (rule safe_mono)
    fix x assume "kept (\<lambda>_. True) ?c x"
    then have "same_control ?c x" by (simp add: kept_def)
    then show "safe (\<lambda>y. same_control ?c y \<and> ok (conn.more y)) (alg_initialize alg x)"
      by (intro safe_mono [OF initialize_ok [of x]]) (auto intro: same_control_trans)
  qed
qed

lemma opened_live:
  assumes u: "unopened c" and k: "same_control (c\<lparr>opened := True\<rparr>) y" and ok: "ok (conn.more y)"
  shows "connEstabTimer y \<noteq> NoTimer" and "synRexmitTimer y \<noteq> NoTimer" and "timers_wf y" and "opened y"
    and "fsm y = TCP_S_INIT" and "socketId y = socketId c"
  using u k by (auto simp: unopened_def same_control_def same_socket_def timers_wf_def connecting_def)

text \<open>From a connection object just opened: the state transition leaves the state INIT.\<close>

lemma open_transition:
  assumes "timers_wf x" and "opened x" and "ok (conn.more x)" and "fsm x = TCP_S_INIT"
    and "e = TCP_E_OPEN_ACTIVE \<or> e = TCP_E_OPEN_PASSIVE"
  shows "safe (\<lambda>(b, y). b \<and> live ok y \<and> same_socket x y) (performStateTransition alg e x)"
proof -
  obtain b y where "performStateTransition alg e x = Inr (b, y)" "timers_wf y" "opened y" "ok (conn.more y)"
    "same_socket x y" "b \<longleftrightarrow> fsm y \<noteq> TCP_S_CLOSED" "fsm y = (if e = TCP_E_IGNORE then fsm x else fsm_next (active (state x)) e (fsm x))"
    using performStateTransition_timers [of x ok alg e] assms connectionClosed_returns by auto
  then show ?thesis using assms(4,5) by (auto simp: live_def fsm_defs)
qed

lemma activeOpen_opening:
  assumes u: "unopened c" and y: "same_control (c\<lparr>opened := True\<rparr>) y" "ok (conn.more y)"
    and z: "z = y\<lparr>localAddr := a, remoteAddr := b, localPort := p, remotePort := m\<rparr>" and r: "registered i t t' z"
  shows "safe (open_done ok i t c t') (activeOpen z)"
proof -
  note w = opened_live [OF u y]
  have zw: "timers_wf z" "synRexmitTimer z \<noteq> NoTimer" "connEstabTimer z \<noteq> NoTimer" "kept ok z z"
    using w(1,2,3) y(2) z by (simp_all add: timers_wf_def)
  have "safe (kept ok z) (activeOpen z)" by (rule activeOpen_control [OF zw(4) _ zw(2,3)]) (use w(5) z in \<open>simp add: connecting_def\<close>)
  then show ?thesis
  proof (rule safe_mono)
    fix x assume kx: "kept ok z x"
    then show "open_done ok i t c t' x"
      using w(4,5,6) z timers_wf_same [of z x] zw(1) sock_pair_of_same [OF kept_same_socket [OF kx]] r
      by (simp add: open_done_def kept_def same_control_def same_socket_def registered_def)
  qed
qed

lemma registered_port: "registered i (t\<lparr>lastEphemeralPort := p\<rparr>) t' x \<longleftrightarrow> registered i t t' x"
  by (simp add: registered_def)

lemma addSockPair_opening:
  assumes "unopened c" and "same_control (c\<lparr>opened := True\<rparr>) y" and "ok (conn.more y)"
    and t2: "t2 = t \<or> (\<exists>p. t2 = t\<lparr>lastEphemeralPort := p\<rparr>)"
  shows "safe (\<lambda>(t', x). open_done ok i t c t' x)
    (ebind (addSockPair i a b l m t2 y) (\<lambda>(t, c). ebind (activeOpen c) (\<lambda>c. Inr (t, c))))"
proof -
  have "safe (\<lambda>(t', x). safe (open_done ok i t c t') (activeOpen x)) (addSockPair i a b l m t2 y)"
  proof (rule safe_mono [OF addSockPair_result])
    fix r :: "tcp_tables \<times> ('a, 'z) conn_scheme"
    assume "case r of (t', c') \<Rightarrow> c' = y\<lparr>localAddr := a, remoteAddr := b, localPort := l, remotePort := m\<rparr> \<and>
      registered i t2 t' c'"
    then obtain t' x where r: "r = (t', x)"
      "x = y\<lparr>localAddr := a, remoteAddr := b, localPort := l, remotePort := m\<rparr>" "registered i t t' x"
      using t2 by (cases r) (auto simp: registered_port)
    show "case r of (t', x) \<Rightarrow> safe (open_done ok i t c t') (activeOpen x)"
      unfolding r(1) prod.case by (rule activeOpen_opening [OF assms(1-3) r(2,3)])
  qed
  then show ?thesis by (simp add: split_def)
qed

lemma if_neq_refl: "(if x \<noteq> x then a else b) = b"
  by simp

lemma process_OPEN_ACTIVE_ok:
  assumes u: "unopened c"
  shows "safe (\<lambda>(t', x). open_done ok i t c t' x) (process_OPEN_ACTIVE alg i a b n m t c)"
proof -
  have port: "safe (\<lambda>(l, t2). t2 = t \<or> (\<exists>p. t2 = t\<lparr>lastEphemeralPort := p\<rparr>))
      (if n = - 1 then ebind (getEphemeralPort t) (\<lambda>(p, t). Inr (uint p, t)) else Inr (n, t))"
    using safe_mono [OF getEphemeralPort_result [of t], of "\<lambda>(p, t2). t2 = t \<or> (\<exists>p. t2 = t\<lparr>lastEphemeralPort := p\<rparr>)"]
    by (auto simp: split_def)
  have main: "safe (\<lambda>(t', x). open_done ok i t c t' x)
      (ebind (if n = - 1 then ebind (getEphemeralPort t) (\<lambda>(p, t). Inr (uint p, t)) else Inr (n, t)) (\<lambda>(l, t).
         ebind (addSockPair i a b l m t y) (\<lambda>(t, c). ebind (activeOpen c) (\<lambda>c. Inr (t, c)))))"
    if y: "same_control (c\<lparr>opened := True\<rparr>) y" "ok (conn.more y)" for y
    unfolding safe_simps(3) by (rule safe_mono [OF port]) (auto simp del: safe_simps intro: addSockPair_opening [OF u y])
  have i: "fsm c = TCP_S_INIT" using u by (simp add: unopened_def)
  show ?thesis
    unfolding process_OPEN_ACTIVE_def i if_neq_refl safe_simps(3)
  proof (rule safe_mono [OF initConnection_ok])
    fix y assume "same_control (c\<lparr>opened := True\<rparr>) y \<and> ok (conn.more y)"
    then have y: "same_control (c\<lparr>opened := True\<rparr>) (y\<lparr>state := (state y)\<lparr>active := True\<rparr>\<rparr>)"
      "ok (conn.more (y\<lparr>state := (state y)\<lparr>active := True\<rparr>\<rparr>))"
      by (simp_all add: same_control_def same_socket_def)
    show "safe (\<lambda>(t', x). open_done ok i t c t' x) (let c = y\<lparr>state := (state y)\<lparr>active := True\<rparr>\<rparr>
        in if b = Unspecified \<or> m = - 1 then Inl (RuntimeError ''remote address and port must be specified'')
           else ebind (if n = - 1 then ebind (getEphemeralPort t) (\<lambda>(p, t). Inr (uint p, t)) else Inr (n, t))
             (\<lambda>(l, t). ebind (addSockPair i a b l m t c) (\<lambda>(t, c). ebind (activeOpen c) (\<lambda>c. Inr (t, c)))))"
      unfolding Let_def safe_if using main [OF y] by (intro conjI impI) (simp, assumption)
  qed
qed

lemma process_OPEN_PASSIVE_ok:
  assumes u: "unopened c"
  shows "safe (\<lambda>(t', x). open_done ok i t c t' x) (process_OPEN_PASSIVE alg i a n b t c)"
proof -
  have i: "fsm c = TCP_S_INIT" using u by (simp add: unopened_def)
  show ?thesis
    unfolding process_OPEN_PASSIVE_def i if_neq_refl safe_simps(3)
  proof (rule safe_mono [OF initConnection_ok])
    fix y assume y: "same_control (c\<lparr>opened := True\<rparr>) y \<and> ok (conn.more y)"
    have main: "safe (\<lambda>(t', x). open_done ok i t c t' x)
        (addSockPair i a Unspecified n (- 1) t (y\<lparr>state := (state y)\<lparr>active := False, fork := b\<rparr>\<rparr>))"
      by (rule safe_mono [OF addSockPair_result])
        (use opened_live [OF u conjunct1 [OF y] conjunct2 [OF y]] y in
          \<open>auto simp: open_done_def timers_wf_def registered_def\<close>)
    show "safe (\<lambda>(t', x). open_done ok i t c t' x)
        (let c = y\<lparr>state := (state y)\<lparr>active := False, fork := b\<rparr>\<rparr>
         in if n = - 1 then Inl (RuntimeError ''local port must be specified'')
            else addSockPair i a Unspecified n (- 1) t c)"
      unfolding Let_def safe_if by (intro conjI impI main) simp
  qed
qed

lemma registered_same: "registered i t t' x \<Longrightarrow> same_socket x y \<Longrightarrow> registered i t t' y"
  using sock_pair_of_same [of x y] by (simp add: registered_def)

lemma open_done_live:
  assumes "open_done ok i t c t' x" and "e = TCP_E_OPEN_ACTIVE \<or> e = TCP_E_OPEN_PASSIVE"
  shows "safe (\<lambda>(b, y). b \<and> live ok y \<and> socketId y = socketId c \<and> registered i t t' y) (performStateTransition alg e x)"
  by (rule safe_mono [OF open_transition [of x e]])
    (use assms in \<open>auto simp: open_done_def same_socket_def elim: registered_same [unfolded same_socket_def]\<close>)

text \<open>ACCEPT, READ and DESTROY go through the null pointers \<open>receiveQueue\<close> and \<open>tcpAlgorithm\<close> then.\<close>

lemma open_command_unopened:
  assumes "safe (\<lambda>(t', x). open_done ok i t c t' x) r" and "e = TCP_E_OPEN_ACTIVE \<or> e = TCP_E_OPEN_PASSIVE"
  shows "safe (\<lambda>(b, t', y). b \<and> after_unopened ok i t c t' y)
    (ebind (ebind r (\<lambda>(t, c). Inr (e, t, c))) (\<lambda>(e, t, c).
       ebind (performStateTransition alg e c) (\<lambda>(b, c). Inr (b, t, c))))"
proof -
  have "safe (\<lambda>(t', x). safe (\<lambda>(b, y). b \<and> after_unopened ok i t c t' y) (performStateTransition alg e x)) r"
    using assms(1)
  proof (rule safe_mono)
    fix p assume "case p of (t', x) \<Rightarrow> open_done ok i t c t' x"
    then show "case p of (t', x) \<Rightarrow> safe (\<lambda>(b, y). b \<and> after_unopened ok i t c t' y) (performStateTransition alg e x)"
      using open_done_live [of i t c "fst p" "snd p" e] assms(2)
      by (auto simp: after_unopened_def split_def elim!: safe_mono)
  qed
  then show ?thesis by (simp add: split_def)
qed

lemma transition_unopened:
  assumes "unopened c" and "e \<in> {TCP_E_CLOSE, TCP_E_SETOPTION}"
  shows "performStateTransition alg e c = Inr (True, c)"
  using assms by (auto simp: performStateTransition_def unopened_def fsm_defs Let_def)

lemma processAppCommand_unopened:
  assumes u: "unopened c" and cmd: "cmd \<notin> {Accept, Read, Destroy}"
  shows "safe (\<lambda>(b, t', y). b \<and> after_unopened ok i t c t' y) (processAppCommand alg i cmd t c)"
proof (cases cmd)
  case (OpenActive a b n m)
  then show ?thesis
    by (simp only: processAppCommand_def runCommand_def Let_def app_command.case command_code.simps
        preanalyseAppCommandEvent_def tcp_command_code.case)
      (rule open_command_unopened [OF process_OPEN_ACTIVE_ok [OF u]], simp)
next
  case (OpenPassive a n b)
  then show ?thesis
    by (simp only: processAppCommand_def runCommand_def Let_def app_command.case command_code.simps
        preanalyseAppCommandEvent_def tcp_command_code.case)
      (rule open_command_unopened [OF process_OPEN_PASSIVE_ok [OF u]], simp)
next
  case Close
  then show ?thesis using u transition_unopened [OF u]
    by (simp add: processAppCommand_def runCommand_def process_CLOSE_def unopened_def after_unopened_def)
next
  case (SetTimeToLive n)
  then show ?thesis using u transition_unopened [of "c\<lparr>ttl := n\<rparr>"]
    by (simp add: processAppCommand_def runCommand_def preanalyseAppCommandEvent_def unopened_def
        after_unopened_def same_socket_def)
next
  case (SetTos n)
  then show ?thesis using u transition_unopened [of "c\<lparr>tos := n\<rparr>"]
    by (simp add: processAppCommand_def runCommand_def preanalyseAppCommandEvent_def unopened_def
        after_unopened_def same_socket_def)
next
  case (SetDscp n)
  then show ?thesis using u transition_unopened [of "c\<lparr>dscp := n\<rparr>"]
    by (simp add: processAppCommand_def runCommand_def preanalyseAppCommandEvent_def unopened_def
        after_unopened_def same_socket_def)
qed (use u cmd in \<open>simp_all add: processAppCommand_def runCommand_def process_SEND_def process_ABORT_def
      process_STATUS_def process_QUEUE_BYTES_LIMIT_def unopened_def\<close>)

text \<open>Segments. A SYN moves the connection to the socket pair of the segment or forks one off there.\<close>

lemma initClonedConnection_live:
  assumes "unopened fresh"
  shows "safe (\<lambda>n. live ok n \<and> fsm n = TCP_S_LISTEN \<and> socketId n = socketId fresh)
    (initClonedConnection alg c fresh)"
proof -
  let ?f = "fresh\<lparr>listeningSocketId := socketId c\<rparr>"
  have u: "unopened ?f" using assms by (simp add: unopened_def)
  have "safe (\<lambda>y. timers_wf (y\<lparr>fsm := TCP_S_LISTEN\<rparr>) \<and> opened y \<and> socketId y = socketId fresh \<and> ok (conn.more y))
      (initConnection_open alg ?f)"
  proof (rule safe_mono [OF initConnection_ok])
    fix y assume y: "same_control (?f\<lparr>opened := True\<rparr>) y \<and> ok (conn.more y)"
    show "timers_wf (y\<lparr>fsm := TCP_S_LISTEN\<rparr>) \<and> opened y \<and> socketId y = socketId fresh \<and> ok (conn.more y)"
      using opened_live [OF u conjunct1 [OF y] conjunct2 [OF y]] y by (simp add: timers_wf_def)
  qed
  then show ?thesis by (simp add: initClonedConnection_def live_def) (erule safe_mono, auto simp: timers_wf_def)
qed

lemma processSynInListen_event:
  "processSynInListen alg h d c = Inr (e, y) \<Longrightarrow> e \<in> {TCP_E_RCV_SYN, TCP_E_IGNORE}"
  by (auto simp: processSynInListen_def Let_def elim!: ebind_InrE split: if_split_asm)

lemma live_listen_timers:
  "live ok c \<Longrightarrow> fsm c = TCP_S_LISTEN \<Longrightarrow> synRexmitTimer c \<noteq> NoTimer"
  "live ok c \<Longrightarrow> fsm c = TCP_S_LISTEN \<Longrightarrow> connEstabTimer c \<noteq> NoTimer"
  "live ok c \<Longrightarrow> fsm c = TCP_S_LISTEN \<Longrightarrow> connecting (fsm c)"
  by (auto simp: live_def timers_wf_def connecting_def)

lemma syn_in_listen_live:
  assumes l: "live ok c" and f: "fsm c = TCP_S_LISTEN"
  shows "safe (\<lambda>(e, y). safe (\<lambda>(b, z). live ok z \<and> same_socket c z) (performStateTransition alg e y))
    (processSynInListen alg h d c)"
proof (rule safe_mono [OF syn_rules(1) [OF live_listen_timers [OF l f] live_refl [OF l]]])
  fix r assume r: "processSynInListen alg h d c = Inr r" "case r of (a, y) \<Rightarrow> kept ok c y"
  obtain e y where ey: "r = (e, y)" by (cases r)
  then have k: "kept ok c y" and e: "e \<in> {TCP_E_RCV_SYN, TCP_E_IGNORE}"
    using r processSynInListen_event by auto
  have y: "timers_wf y" "opened y" "ok (conn.more y)" "fsm y = TCP_S_LISTEN"
    using live_kept [OF l k] k f by (simp_all add: live_def kept_def same_control_def)
  obtain b z where "performStateTransition alg e y = Inr (b, z)" "timers_wf z" "opened z" "ok (conn.more z)"
    "same_socket y z" "fsm z = (if e = TCP_E_IGNORE then fsm y else fsm_next (active (state y)) e (fsm y))"
    using performStateTransition_timers [of y ok alg e] y connectionClosed_returns by auto
  then show "case r of (e, y) \<Rightarrow> safe (\<lambda>(b, z). live ok z \<and> same_socket c z) (performStateTransition alg e y)"
    using ey e y(4) same_socket_trans [OF kept_same_socket [OF k]] by (auto simp: live_def fsm_defs)
qed

lemma fork_live:
  assumes u: "unopened fresh"
  shows "safe (\<lambda>(t', n). live ok n \<and> forked j t t' n \<and> socketId n = socketId fresh \<and>
      sock_pair_of n = hd (segment_keys h src dest))
    (ebind (initClonedConnection alg c fresh) (\<lambda>new.
     ebind (addForkedConnection j dest src (destPort h) (srcPort h) t new) (\<lambda>(t, new).
     ebind (processSynInListen alg h d new) (\<lambda>(forkEvent, new).
     ebind (performStateTransition alg forkEvent new) (\<lambda>(b, new). Inr (t, new))))))"
  (is "safe ?P _")
proof -
  have "safe (\<lambda>new. safe (\<lambda>(t', new). safe (\<lambda>(e, new). safe (\<lambda>(b, n). ?P (t', n)) (performStateTransition alg e new))
      (processSynInListen alg h d new)) (addForkedConnection j dest src (destPort h) (srcPort h) t new))
    (initClonedConnection alg c fresh)"
  proof (rule safe_mono [OF initClonedConnection_live [OF u]], rule safe_mono [OF addForkedConnection_result])
    fix new and r :: "tcp_tables \<times> ('d, 'z) conn_scheme"
    assume n: "live ok new \<and> fsm new = TCP_S_LISTEN \<and> socketId new = socketId fresh"
      and "case r of (t', c') \<Rightarrow> c' = new\<lparr>localAddr := dest, remoteAddr := src, localPort := destPort h,
        remotePort := srcPort h\<rparr> \<and> forked j t t' c'"
    then obtain t' x where r: "r = (t', x)" "forked j t t' x"
      "x = new\<lparr>localAddr := dest, remoteAddr := src, localPort := destPort h, remotePort := srcPort h\<rparr>"
      by (cases r) auto
    have x: "live ok x" "fsm x = TCP_S_LISTEN" using n r(3) by (auto simp: live_def timers_wf_def)
    have p: "?P (t', z)" if "live ok z \<and> same_socket x z" for z
      using that n r(2,3) sock_pair_of_same [of x z]
      by (auto simp: forked_def segment_keys_def sock_pair_of_def same_socket_def)
    have "safe (\<lambda>(e, y). safe (\<lambda>(b, n). ?P (t', n)) (performStateTransition alg e y)) (processSynInListen alg h d x)"
    proof (rule safe_mono [OF syn_in_listen_live [OF x, of h d]])
      fix q assume "case q of (e, y) \<Rightarrow> safe (\<lambda>(b, z). live ok z \<and> same_socket x z) (performStateTransition alg e y)"
      then show "case q of (e, y) \<Rightarrow> safe (\<lambda>(b, n). ?P (t', n)) (performStateTransition alg e y)"
        using p by (cases q) (auto elim!: safe_mono)
    qed
    then show "case r of (t', new) \<Rightarrow> safe (\<lambda>(e, new). safe (\<lambda>(b, n). ?P (t', n)) (performStateTransition alg e new))
      (processSynInListen alg h d new)" by (simp only: r(1) prod.case)
  qed
  then show ?thesis by (simp add: split_def)
qed

text \<open>The connection stays on its socket pair, or moves.\<close>

lemma transition_here:
  assumes "live ok c" and "kept ok c x"
  shows "safe (\<lambda>(b, y). after_segment ok i j fresh key t c b t y None) (performStateTransition alg e x)"
  by (rule safe_mono [OF transition_live [OF assms]])
    (auto simp: after_segment_def pair_after_def same_socket_def)

lemma updateSockPair_moves:
  assumes l: "live ok c"
  shows "safe (\<lambda>(t', x). live ok x \<and> moved i t t' c x \<and> socketId x = socketId c \<and> fsm x = fsm c \<and>
      sock_pair_of x = hd (segment_keys h src dest)) (updateSockPair i dest src (destPort h) (srcPort h) t c)"
  by (rule safe_mono [OF updateSockPair_result])
    (use l in \<open>auto simp: live_def timers_wf_def sock_pair_of_def segment_keys_def\<close>)

lemma transition_moved:
  assumes "moved i t t' c x" and "socketId x = socketId c" and "sock_pair_of x = key"
    and l: "live ok x" and k: "kept ok x y"
  shows "safe (\<lambda>(b, z). after_segment ok i j fresh key t c b t' z None) (performStateTransition alg e y)"
proof (rule safe_mono [OF transition_live [OF l k]])
  fix r assume "case r of (b, z) \<Rightarrow> (b \<longrightarrow> live ok z) \<and> same_socket x z"
  then obtain b z where r: "r = (b, z)" "b \<longrightarrow> live ok z" "same_socket x z" by (cases r) auto
  have "sock_pair_of z = sock_pair_of x" "socketId z = socketId x"
    using r(3) sock_pair_of_same by (auto simp: same_socket_def)
  then show "case r of (b, z) \<Rightarrow> after_segment ok i j fresh key t c b t' z None"
    using assms(1-3) r(1,2) by (simp add: after_segment_def pair_after_def moved_def)
qed

lemma synSent_live:
  assumes l: "live ok c" and f: "fsm c = TCP_S_SYN_SENT"
  shows "safe (\<lambda>(e, t', x). safe (\<lambda>(b, y). after_segment ok i j fresh (hd (segment_keys h src dest)) t c b t' y None)
    (performStateTransition alg e x)) (processSegmentInSynSent alg i h d src dest t c)"
  (is "safe ?Q _")
proof -
  have k: "kept ok c c" using l by (rule live_refl)
  have here: "safe ?Q (ebind r (\<lambda>c. Inr (e, t, c)))" if "safe (kept ok c) r" for r and e :: tcp_event
    unfolding safe_simps(2,3) prod.case using that by (rule safe_mono) (rule transition_here [OF l])
  have here': "safe ?Q (Inr (e, t, x))" if "kept ok c x" for x and e :: tcp_event
    unfolding safe_simps(2) prod.case using that by (rule transition_here [OF l])
  have rst: "safe (kept ok c) (sendRst_between (ackNo h) dest src (destPort h) (srcPort h) c)"
    by (intro control_rules k)
  have move: "safe ?Q (ebind (updateSockPair i dest src (destPort h) (srcPort h) t x) (\<lambda>(t, c).
      ebind (if seqGreater (snd_una (state c)) (iss (state c)) then synSentEstablished alg h d c
             else synSentSimultaneous alg h d c) (\<lambda>(event, c). Inr (event, t, c))))" if kx: "kept ok c x" for x
    unfolding safe_simps(3)
  proof (rule safe_mono [OF updateSockPair_moves [OF live_kept [OF l kx]]])
    fix r :: "tcp_tables \<times> ('d, 'z) conn_scheme"
    assume "case r of (t', y) \<Rightarrow> live ok y \<and> moved i t t' x y \<and> socketId y = socketId x \<and> fsm y = fsm x \<and>
      sock_pair_of y = hd (segment_keys h src dest)"
    then obtain t' y where r: "r = (t', y)" "live ok y" "moved i t t' x y" "socketId y = socketId x" "fsm y = fsm x"
      "sock_pair_of y = hd (segment_keys h src dest)" by (cases r) auto
    have m: "moved i t t' c y" "socketId y = socketId c" "fsm y = TCP_S_SYN_SENT"
      using r(3,4,5) sock_pair_of_same [OF kept_same_socket [OF kx]] kx f
      by (simp_all add: moved_def kept_def same_control_def same_socket_def)
    have n: "synRexmitTimer y \<noteq> NoTimer" "connEstabTimer y \<noteq> NoTimer" "connecting (fsm y)"
      using live_timers(3,4) [OF r(2)] m(3) by (simp_all add: connecting_def)
    have "safe (\<lambda>(e, z). kept ok y z) (if seqGreater (snd_una (state y)) (iss (state y)) then synSentEstablished alg h d y
        else synSentSimultaneous alg h d y)"
      using syn_rules(2,3) [OF n live_refl [OF r(2)]] by simp
    then have "safe (\<lambda>(e, z). safe (\<lambda>(b, w). after_segment ok i j fresh (hd (segment_keys h src dest)) t c b t' w None)
        (performStateTransition alg e z)) (if seqGreater (snd_una (state y)) (iss (state y))
        then synSentEstablished alg h d y else synSentSimultaneous alg h d y)"
      by (rule safe_mono) (auto intro: transition_moved [OF m(1,2) r(6,2)])
    then show "safe ?Q (case r of (t', c) \<Rightarrow> ebind (if seqGreater (snd_una (state c)) (iss (state c))
        then synSentEstablished alg h d c else synSentSimultaneous alg h d c) (\<lambda>(event, c). Inr (event, t', c)))"
      unfolding r(1) prod.case safe_simps(3) by (rule safe_mono) (simp only: split_def safe_simps(2) fst_conv snd_conv)
  qed
  have acked: "safe (kept ok c) (if ackBit h then synSentAcked h x else Inr x)" if "kept ok c x" for x
    using that receive_rules(3) [OF that] by simp
  show ?thesis
    unfolding processSegmentInSynSent_def Let_def safe_if
  proof (intro conjI impI here here' rst k)
    show "kept ok c (sendIndicationToApp TCP_I_CONNECTION_RESET 0 c)" by (intro control_rules k)
    let ?x = "c\<lparr>state := (state c)\<lparr>rcv_nxt := sequenceNo h + 1,
        rcv_adv := sequenceNo h + 1 + rcv_wnd (state c), irs := sequenceNo h\<rparr>,
        receiveQueue := rcvq_init (sequenceNo h + 1) (receiveQueue c)\<rparr>"
    have x: "kept ok c ?x" using k by (simp add: kept_def same_control_def same_socket_def)
    show "safe ?Q (ebind (if ackBit h then synSentAcked h ?x else Inr ?x) (\<lambda>c.
        ebind (updateSockPair i dest src (destPort h) (srcPort h) t c) (\<lambda>(t, c).
        ebind (if seqGreater (snd_una (state c)) (iss (state c)) then synSentEstablished alg h d c
               else synSentSimultaneous alg h d c) (\<lambda>(event, c). Inr (event, t, c)))))"
      unfolding safe_simps(3) [of ?Q "if ackBit h then _ else _"]
      by (rule safe_mono [OF acked [OF x]]) (rule move)
  qed
qed

lemma listen_live:
  assumes l: "live ok c" and f: "fsm c = TCP_S_LISTEN" and u: "unopened fresh"
  shows "safe (\<lambda>(e, t', x, n). safe (\<lambda>(b, y). after_segment ok i j fresh (hd (segment_keys h src dest)) t c b t' y n)
    (performStateTransition alg e x)) (processSegmentInListen alg i j fresh h d src dest t c)"
  (is "safe ?Q _")
proof -
  have k: "kept ok c c" using l by (rule live_refl)
  have here: "safe ?Q (Inr (e, t, x, None))" if "kept ok c x" for x and e :: tcp_event
    unfolding safe_simps(2) prod.case using that by (rule transition_here [OF l])
  have rst: "safe ?Q (ebind (sendRst_between (ackNo h) dest src (destPort h) (srcPort h) c) (\<lambda>c. Inr (e, t, c, None)))"
    for e unfolding safe_simps(3) by (rule safe_mono [of "kept ok c"], intro control_rules k) (rule here)
  have same: "performStateTransition alg TCP_E_IGNORE c = Inr (True, c)"
    using l by (simp add: performStateTransition_def live_def)
  have fork: "safe ?Q (ebind (initClonedConnection alg c fresh) (\<lambda>new.
      ebind (addForkedConnection j dest src (destPort h) (srcPort h) t new) (\<lambda>(t, new).
      ebind (processSynInListen alg h d new) (\<lambda>(forkEvent, new).
      ebind (performStateTransition alg forkEvent new) (\<lambda>(_, new). Inr (TCP_E_IGNORE, t, c, Some new))))))"
    using fork_live [OF u, of j t h src dest c d] by (simp add: split_def same after_segment_def)
  have move: "safe ?Q (ebind (updateSockPair i dest src (destPort h) (srcPort h) t c) (\<lambda>(t, c).
      ebind (processSynInListen alg h d c) (\<lambda>(event, c). Inr (event, t, c, None))))"
    unfolding safe_simps(3)
  proof (rule safe_mono [OF updateSockPair_moves [OF l]])
    fix r :: "tcp_tables \<times> ('d, 'z) conn_scheme"
    assume "case r of (t', y) \<Rightarrow> live ok y \<and> moved i t t' c y \<and> socketId y = socketId c \<and> fsm y = fsm c \<and>
      sock_pair_of y = hd (segment_keys h src dest)"
    then obtain t' y where r: "r = (t', y)" "live ok y" "moved i t t' c y" "socketId y = socketId c" "fsm y = fsm c"
      "sock_pair_of y = hd (segment_keys h src dest)" by (cases r) auto
    have "safe (\<lambda>(e, z). kept ok y z) (processSynInListen alg h d y)"
      using r(5) f by (intro syn_rules(1) live_listen_timers [OF r(2)] live_refl [OF r(2)]) simp_all
    then have "safe (\<lambda>(e, z). safe (\<lambda>(b, w). after_segment ok i j fresh (hd (segment_keys h src dest)) t c b t' w None)
        (performStateTransition alg e z)) (processSynInListen alg h d y)"
      by (rule safe_mono) (auto intro: transition_moved [OF r(3,4,6,2)])
    then show "safe ?Q (case r of (t', c) \<Rightarrow> ebind (processSynInListen alg h d c)
        (\<lambda>(event, c). Inr (event, t', c, None)))"
      unfolding r(1) prod.case safe_simps(3) by (rule safe_mono) (simp only: split_def safe_simps(2) fst_conv snd_conv)
  qed
  show ?thesis
    unfolding processSegmentInListen_def safe_if by (intro conjI impI here rst fork move k)
qed

text \<open>The two assertions in front say that the segment is for this connection.\<close>

lemma processTCPSegment_live:
  assumes l: "live ok c" and u: "unopened fresh"
  shows "safe (\<lambda>(b, t', y, n). after_segment ok i j fresh (hd (segment_keys h src dest)) t c b t' y n)
    (processTCPSegment alg i j fresh h d src dest t c)"
proof -
  let ?P = "\<lambda>(e, t', x, n). safe (\<lambda>(b, y). after_segment ok i j fresh (hd (segment_keys h src dest)) t c b t' y n)
    (performStateTransition alg e x)"
  have o: "opened c" using l by (simp add: live_def)
  have "safe ?P (process_RCV_SEGMENT alg i j fresh h d src dest t c)"
  proof (cases "fsm c = TCP_S_LISTEN \<or> fsm c = TCP_S_SYN_SENT")
    case True
    then show ?thesis
      using o listen_live [OF l _ u] synSent_live [OF l] by (auto simp: process_RCV_SEGMENT_def split_def)
  next
    case False
    have "safe (\<lambda>(e, x). kept ok c x) (processSegment1stThru8th alg h d c)"
      by (intro segment_rules(5) live_timers [OF l] live_refl [OF l])
    then have "safe (\<lambda>(e, x). ?P (e, t, x, None)) (processSegment1stThru8th alg h d c)"
      by (rule safe_mono) (auto intro: transition_here [OF l])
    then show ?thesis using False o by (simp add: process_RCV_SEGMENT_def split_def)
  qed
  then show ?thesis by (simp add: processTCPSegment_def split_def)
qed

end

end
