(* ===== verification/Tcp.thy ===== *)
theory Tcp
  imports TcpContract
begin

text \<open>
  The TCP module (\<open>Tcp.cc\<close>): it owns the connection objects and the tables, and dispatches the
  application's commands, the segments of the network layer and the timers to the connections. The run
  of the module is the step relation \<open>tcp_step\<close>; its invariant \<open>tcp_wf\<close> says that the tables and the
  connections describe the same sockets and that every connection is live or was never opened.
\<close>

section \<open>The module\<close>

text \<open>
  The connection objects by number (a number is never used twice), the tables and the parameters.
  \<open>released\<close> collects what connections sent that do not exist any more. The last four fields are what a
  new connection object holds where the code has not yet stored anything, and the chunk library's
  merging tests.
\<close>

record ('d, 'z) tcp_module =
  conns :: "conn_id \<Rightarrow> ('d, 'z) conn_scheme option"
  tables :: tcp_tables
  nextConn :: conn_id
  module_params :: tcp_params
  module_now :: simtime
  released :: "'d tcp_output list"
  junk_tcb :: tcb
  junk_alg :: 'z
  canAtBack :: "'d can_insert"
  canAtFront :: "'d can_insert"

definition createConnection :: "int \<Rightarrow> ('d, 'z) tcp_module \<Rightarrow> ('d, 'z) conn_scheme" where
  "createConnection sock m = conn.extend
     (initConnection (module_params m) (module_now m) sock (junk_tcb m) (canAtBack m) (canAtFront m)) (junk_alg m)"

text \<open>
  What a connection's entry point leaves is stored; if it returned \<open>false\<close>, the connection is removed from
  the tables and deleted.
\<close>

definition settle :: "bool \<Rightarrow> conn_id \<Rightarrow> tcp_tables \<Rightarrow> ('d, 'z) conn_scheme \<Rightarrow> ('d, 'z) tcp_module \<Rightarrow>
    ('d, 'z) tcp_module" where
  "settle alive i t c m =
     (if alive then m\<lparr>conns := (conns m)(i \<mapsto> c), tables := t\<rparr>
      else m\<lparr>conns := (conns m)(i := None), tables := removeConnection c t,
             released := released m @ outbox c\<rparr>)"

text \<open>The connection of the socket id; a new one is made for an unknown socket id.\<close>

definition connForApp :: "int \<Rightarrow> ('d, 'z) tcp_module \<Rightarrow> conn_id \<times> ('d, 'z) tcp_module" where
  "connForApp sock m = (case findConnForApp sock (tables m) of
       Some i \<Rightarrow> (i, m)
     | None \<Rightarrow> (nextConn m, m\<lparr>conns := (conns m)(nextConn m \<mapsto> createConnection sock m),
           nextConn := Suc (nextConn m),
           tables := (tables m)\<lparr>tcpAppConnMap := (tcpAppConnMap (tables m))(sock \<mapsto> nextConn m)\<rparr>\<rparr>))"

definition handleUpperCommand :: "('d, 'z) conn_scheme tcp_algorithm \<Rightarrow> int \<Rightarrow> 'd app_command \<Rightarrow>
    ('d, 'z) tcp_module \<Rightarrow> err + ('d, 'z) tcp_module" where
  "handleUpperCommand alg sock cmd m =
     (let (i, m) = connForApp sock m
      in case conns m i of
           None \<Rightarrow> Inl NullPointer
         | Some c \<Rightarrow>
             ebind (processAppCommand alg i cmd (tables m) c) (\<lambda>(alive, t, c). Inr (settle alive i t c m)))"

datatype packet_protocol = Proto_tcp | Proto_icmp | Proto_other

text \<open>
  A connection's explicit congestion notification; \<open>state\<close> is null before the connection is opened.
\<close>

definition noteEcn :: "int \<Rightarrow> ('d, 'z) conn_scheme \<Rightarrow> ('d, 'z) conn_scheme" where
  "noteEcn ecn c = (if opened c \<and> ect (state c) then c\<lparr>state := (state c)\<lparr>gotCeIndication := (ecn = 3)\<rparr>\<rparr> else c)"

text \<open>
  \<open>crc_ok\<close> is the result of \<open>checkCrc\<close>; \<open>newSock\<close> is the number \<open>getUniqueNumber\<close> gives if the segment makes
  a listener fork.
\<close>

definition handleLowerPacket :: "('d, 'z) conn_scheme tcp_algorithm \<Rightarrow> int \<Rightarrow> packet_protocol \<Rightarrow> bool \<Rightarrow> int \<Rightarrow>
    tcp_header \<Rightarrow> 'd list \<Rightarrow> L3Address \<Rightarrow> L3Address \<Rightarrow> ('d, 'z) tcp_module \<Rightarrow> err + ('d, 'z) tcp_module" where
  "handleLowerPacket alg newSock proto crc_ok ecn hdr payload src dest m =
     (case proto of
        Proto_tcp \<Rightarrow>
          if \<not> crc_ok then Inr m
          else ebind (assert_that (ecn \<noteq> - 1)) (\<lambda>_.
            case findConnForSegment hdr src dest (tables m) of
              None \<Rightarrow>
                ebind (segmentArrivalWhileClosed alg hdr payload src dest (createConnection (- 1) m)) (\<lambda>c.
                  Inr (m\<lparr>released := released m @ outbox c\<rparr>))
            | Some i \<Rightarrow> (case conns m i of
                  None \<Rightarrow> Inl NullPointer
                | Some c \<Rightarrow>
                    ebind (processTCPSegment alg i (nextConn m) (createConnection newSock m) hdr payload src dest
                        (tables m) (noteEcn ecn c)) (\<lambda>(alive, t, c, f).
                      Inr (settle alive i t c (case f of
                          None \<Rightarrow> m
                        | Some n \<Rightarrow> m\<lparr>conns := (conns m)(nextConn m \<mapsto> n), nextConn := Suc (nextConn m)\<rparr>)))))
      | Proto_icmp \<Rightarrow> Inr m
      | Proto_other \<Rightarrow> Inl (RuntimeError ''Unknown protocol''))"

text \<open>\<open>TcpConnection::handleMessage\<close> for a timer of connection \<open>i\<close>.\<close>

definition handleTimer :: "('d, 'z) conn_scheme tcp_algorithm \<Rightarrow> conn_id \<Rightarrow> tcp_timer \<Rightarrow> ('d, 'z) tcp_module \<Rightarrow>
    err + ('d, 'z) tcp_module" where
  "handleTimer alg i tm m = (case conns m i of
       None \<Rightarrow> Inl NullPointer
     | Some c \<Rightarrow> ebind (processTimer alg tm c) (\<lambda>(alive, c). Inr (settle alive i (tables m) c m)))"

text \<open>The simulation kernel advances the time.\<close>

definition advanceTime :: "simtime \<Rightarrow> ('d, 'z) tcp_module \<Rightarrow> ('d, 'z) tcp_module" where
  "advanceTime now m = m\<lparr>module_now := now,
     conns := (\<lambda>i. map_option (\<lambda>c. c\<lparr>sim_now := now\<rparr>) (conns m i))\<rparr>"

definition reset :: "('d, 'z) tcp_module \<Rightarrow> ('d, 'z) tcp_module" where
  "reset m = m\<lparr>conns := (\<lambda>i. if i \<in> ran (tcpAppConnMap (tables m)) then None else conns m i),
     tables := tables_new\<rparr>"

definition module_new :: "tcp_params \<Rightarrow> tcb \<Rightarrow> 'z \<Rightarrow> 'd can_insert \<Rightarrow> 'd can_insert \<Rightarrow> ('d, 'z) tcp_module" where
  "module_new params junk z atBack atFront = \<lparr>conns = (\<lambda>_. None), tables = tables_new, nextConn = 0,
     module_params = params, module_now = 0, released = [], junk_tcb = junk, junk_alg = z,
     canAtBack = atBack, canAtFront = atFront\<rparr>"

section \<open>Runs\<close>

text \<open>
  The commands that a connection object which was never opened cannot take: they go through the null
  pointers \<open>receiveQueue\<close> and \<open>tcpAlgorithm\<close>.
\<close>

definition early_command :: "int \<Rightarrow> 'd app_command \<Rightarrow> ('d, 'z) tcp_module \<Rightarrow> bool" where
  "early_command sock cmd m =
     ((cmd = Accept \<or> cmd = Read \<or> cmd = Destroy) \<and>
      (case findConnForApp sock (tables m) of
         None \<Rightarrow> True | Some i \<Rightarrow> (case conns m i of None \<Rightarrow> True | Some c \<Rightarrow> \<not> opened c)))"

text \<open>
  A timer is handled only when its message arrives; a socket id given to a fork is new
  (\<open>getUniqueNumber\<close>).
\<close>

inductive tcp_step :: "('d, 'z) conn_scheme tcp_algorithm \<Rightarrow> ('d, 'z) tcp_module \<Rightarrow> ('d, 'z) tcp_module \<Rightarrow> bool"
  for alg where
  command: "handleUpperCommand alg sock cmd m = Inr m' \<Longrightarrow> tcp_step alg m m'"
| segment: "tcpAppConnMap (tables m) newSock = None \<Longrightarrow>
    handleLowerPacket alg newSock proto crc_ok ecn hdr payload src dest m = Inr m' \<Longrightarrow> tcp_step alg m m'"
| timer: "conns m i = Some c \<Longrightarrow> pending tm c \<Longrightarrow> handleTimer alg i tm m = Inr m' \<Longrightarrow> tcp_step alg m m'"
| time: "tcp_step alg m (advanceTime now m)"
| lifecycle: "tcp_step alg m (reset m)"

definition tcp_reachable :: "('d, 'z) conn_scheme tcp_algorithm \<Rightarrow> ('d, 'z) tcp_module \<Rightarrow> bool" where
  "tcp_reachable alg m = (\<exists>params junk z atBack atFront.
     (tcp_step alg)\<^sup>*\<^sup>* (module_new params junk z atBack atFront) m)"

section \<open>The invariant\<close>

definition tcp_wf :: "('z \<Rightarrow> bool) \<Rightarrow> ('d, 'z) tcp_module \<Rightarrow> bool" where
  "tcp_wf ok m =
     ((\<forall>s i. tcpAppConnMap (tables m) s = Some i \<longrightarrow> (\<exists>c. conns m i = Some c \<and> socketId c = s)) \<and>
      (\<forall>k i. tcpConnMap (tables m) k = Some i \<longrightarrow> (\<exists>c. conns m i = Some c \<and> live ok c \<and> sock_pair_of c = k)) \<and>
      (\<forall>i c. conns m i = Some c \<longrightarrow> i < nextConn m \<and> tcpAppConnMap (tables m) (socketId c) = Some i \<and>
         (live ok c \<and> tcpConnMap (tables m) (sock_pair_of c) = Some i \<or> unopened c)))"

lemma tcp_wf_app: "tcp_wf ok m \<Longrightarrow> tcpAppConnMap (tables m) s = Some i \<Longrightarrow> \<exists>c. conns m i = Some c \<and> socketId c = s"
  by (simp add: tcp_wf_def)

lemma tcp_wf_pair:
  "tcp_wf ok m \<Longrightarrow> tcpConnMap (tables m) k = Some i \<Longrightarrow> \<exists>c. conns m i = Some c \<and> live ok c \<and> sock_pair_of c = k"
  by (simp add: tcp_wf_def)

lemma tcp_wf_conn:
  assumes "tcp_wf ok m" and "conns m i = Some c"
  shows "i < nextConn m" and "tcpAppConnMap (tables m) (socketId c) = Some i"
    and "live ok c \<and> tcpConnMap (tables m) (sock_pair_of c) = Some i \<or> unopened c"
  using assms unfolding tcp_wf_def by blast+

lemma unopened_create: "unopened (createConnection sock m)" "socketId (createConnection sock m) = sock"
  by (simp_all add: createConnection_def initConnection_def unopened_def conn.defs)

lemma live_unopened: "live ok c \<Longrightarrow> \<not> unopened c"
  by (auto simp: live_def unopened_def)

lemma tcp_wf_new: "tcp_wf ok (module_new params junk z atBack atFront)"
  by (simp add: tcp_wf_def module_new_def tables_new_def)

lemma settle_live:
  assumes wf: "tcp_wf ok m" and c: "conns m i = Some c" "live ok c"
    and y: "b \<longrightarrow> live ok y" "socketId y = socketId c"
    and t: "tcpAppConnMap t' = tcpAppConnMap (tables m)"
      "tcpConnMap t' = (tcpConnMap (tables m))(sock_pair_of c := None, sock_pair_of y \<mapsto> i)"
    and free: "tcpConnMap (tables m) (sock_pair_of y) = None \<or> tcpConnMap (tables m) (sock_pair_of y) = Some i"
  shows "tcp_wf ok (settle b i t' y m)"
proof -
  have a: "tcpAppConnMap (tables m) s = Some k \<longleftrightarrow> (\<exists>x. conns m k = Some x \<and> socketId x = s)" for s k
    using wf unfolding tcp_wf_def by blast
  have p: "tcpConnMap (tables m) q = Some k \<longleftrightarrow> (\<exists>x. conns m k = Some x \<and> live ok x \<and> sock_pair_of x = q)" for q k
    using wf live_unopened unfolding tcp_wf_def by blast
  have n: "conns m k = Some x \<Longrightarrow> k < nextConn m \<and> (live ok x \<or> unopened x)" for k x
    using wf unfolding tcp_wf_def by blast
  have other: "k \<noteq> i \<Longrightarrow> conns m k = Some x \<Longrightarrow> socketId x \<noteq> socketId c \<and>
      (live ok x \<longrightarrow> sock_pair_of x \<noteq> sock_pair_of c \<and> sock_pair_of x \<noteq> sock_pair_of y)" for k x
    using a [of "socketId c"] p [of "sock_pair_of c"] p [of "sock_pair_of y"] c free
    by (metis option.distinct(1) option.inject)
  show ?thesis
    unfolding tcp_wf_def
  proof (intro conjI allI impI)
    fix s k assume s: "tcpAppConnMap (tables (settle b i t' y m)) s = Some k"
    show "\<exists>x. conns (settle b i t' y m) k = Some x \<and> socketId x = s"
      using s a [of s k] other [of k] c y t
      by (cases "k = i") (auto simp: settle_def removeConnection_def split: if_splits)
  next
    fix q k assume q: "tcpConnMap (tables (settle b i t' y m)) q = Some k"
    show "\<exists>x. conns (settle b i t' y m) k = Some x \<and> live ok x \<and> sock_pair_of x = q"
      using q p [of q k] other [of k] c y t
      by (cases "k = i") (auto simp: settle_def removeConnection_def split: if_splits)
  next
    fix k x assume k: "conns (settle b i t' y m) k = Some x"
    have x: "k \<noteq> i \<Longrightarrow> conns m k = Some x" "k = i \<Longrightarrow> b \<and> x = y"
      using k by (auto simp: settle_def split: if_splits)
    show "k < nextConn (settle b i t' y m)"
      using n [of k x] n [OF c(1)] x by (cases "k = i") (simp_all add: settle_def split: if_splits)
    show "tcpAppConnMap (tables (settle b i t' y m)) (socketId x) = Some k"
    proof (cases "k = i")
      case True
      then show ?thesis using x(2) a [of "socketId c" i] c y t by (auto simp: settle_def)
    next
      case False
      then show ?thesis using x(1) a [of "socketId x" k] other [of k x] y t by (auto simp: settle_def removeConnection_def)
    qed
    show "live ok x \<and> tcpConnMap (tables (settle b i t' y m)) (sock_pair_of x) = Some k \<or> unopened x"
    proof (cases "k = i")
      case True
      then show ?thesis using x(2) y(1) t(2) by (simp add: settle_def)
    next
      case False
      have "tcpConnMap (tables (settle b i t' y m)) (sock_pair_of x) = Some k" if l: "live ok x"
      proof -
        have "sock_pair_of x \<noteq> sock_pair_of c" "sock_pair_of x \<noteq> sock_pair_of y"
          using other [OF False x(1) [OF False]] l by auto
        moreover have "tcpConnMap (tables m) (sock_pair_of x) = Some k"
          unfolding p using x(1) [OF False] l by auto
        ultimately show ?thesis by (simp add: settle_def removeConnection_def t(2))
      qed
      then show ?thesis using n [OF x(1) [OF False]] by auto
    qed
  qed
qed

lemma settle_unopened:
  assumes wf: "tcp_wf ok m" and c: "conns m i = Some c" "unopened c"
    and y: "after_unopened ok i (tables m) c t' y"
  shows "tcp_wf ok (settle True i t' y m)"
proof -
  have id: "socketId y = socketId c" using y by (simp add: after_unopened_def)
  have not_i: "tcpConnMap (tables m) q \<noteq> Some i" for q
    using tcp_wf_pair [OF wf, of q i] c live_unopened by auto
  have cases: "live ok y \<and> registered i (tables m) t' y \<or> unopened y \<and> t' = tables m"
    using y by (auto simp: after_unopened_def)
  have app: "tcpAppConnMap t' = tcpAppConnMap (tables m)" using cases by (auto simp: registered_def)
  show ?thesis
    unfolding tcp_wf_def
  proof (intro conjI allI impI)
    fix s k assume "tcpAppConnMap (tables (settle True i t' y m)) s = Some k"
    then show "\<exists>x. conns (settle True i t' y m) k = Some x \<and> socketId x = s"
      using tcp_wf_app [OF wf, of s k] c(1) id app by (auto simp: settle_def)
  next
    fix q k assume q: "tcpConnMap (tables (settle True i t' y m)) q = Some k"
    show "\<exists>x. conns (settle True i t' y m) k = Some x \<and> live ok x \<and> sock_pair_of x = q"
      using q cases tcp_wf_pair [OF wf, of q k] not_i [of q]
      by (auto simp: settle_def registered_def split: if_splits)
  next
    fix k x assume k: "conns (settle True i t' y m) k = Some x"
    then have x: "k \<noteq> i \<Longrightarrow> conns m k = Some x" "k = i \<Longrightarrow> x = y" by (auto simp: settle_def split: if_splits)
    show "k < nextConn (settle True i t' y m)"
      using x tcp_wf_conn(1) [OF wf, of k x] tcp_wf_conn(1) [OF wf c(1)] by (cases "k = i") (simp_all add: settle_def)
    show "tcpAppConnMap (tables (settle True i t' y m)) (socketId x) = Some k"
      using x tcp_wf_conn(2) [OF wf, of k x] tcp_wf_conn(2) [OF wf c(1)] id app
      by (cases "k = i") (simp_all add: settle_def)
    show "live ok x \<and> tcpConnMap (tables (settle True i t' y m)) (sock_pair_of x) = Some k \<or> unopened x"
    proof (cases "k = i")
      case True
      then show ?thesis using x(2) cases by (auto simp: settle_def registered_def)
    next
      case False
      then show ?thesis
        using x(1) tcp_wf_conn(3) [OF wf, of k x] cases by (auto simp: settle_def registered_def)
    qed
  qed
qed

text \<open>A forked connection is added; the listener stays.\<close>

lemma fork_wf:
  assumes wf: "tcp_wf ok m" and n: "live ok n" "forked (nextConn m) (tables m) t' n"
    and new: "tcpAppConnMap (tables m) (socketId n) = None"
  shows "tcp_wf ok (m\<lparr>conns := (conns m)(nextConn m \<mapsto> n), nextConn := Suc (nextConn m), tables := t'\<rparr>)"
    (is "tcp_wf ok ?m")
proof -
  have fresh: "conns m (nextConn m) = None" using tcp_wf_conn(1) [OF wf, of "nextConn m"] by fastforce
  show ?thesis
    unfolding tcp_wf_def
  proof (intro conjI allI impI)
    fix s k assume "tcpAppConnMap (tables ?m) s = Some k"
    then show "\<exists>x. conns ?m k = Some x \<and> socketId x = s"
      using tcp_wf_app [OF wf, of s k] n(2) fresh by (auto simp: forked_def split: if_splits)
  next
    fix q k assume "tcpConnMap (tables ?m) q = Some k"
    then show "\<exists>x. conns ?m k = Some x \<and> live ok x \<and> sock_pair_of x = q"
      using tcp_wf_pair [OF wf, of q k] n fresh by (auto simp: forked_def split: if_splits)
  next
    fix k x assume k: "conns ?m k = Some x"
    then have x: "k \<noteq> nextConn m \<Longrightarrow> conns m k = Some x" "k = nextConn m \<Longrightarrow> x = n" by (auto split: if_splits)
    show "k < nextConn ?m" using x tcp_wf_conn(1) [OF wf, of k x] by (cases "k = nextConn m") auto
    show "tcpAppConnMap (tables ?m) (socketId x) = Some k"
      using x tcp_wf_conn(2) [OF wf, of k x] n(2) new by (cases "k = nextConn m") (auto simp: forked_def)
    show "live ok x \<and> tcpConnMap (tables ?m) (sock_pair_of x) = Some k \<or> unopened x"
      using x tcp_wf_conn(3) [OF wf, of k x] n by (cases "k = nextConn m") (auto simp: forked_def)
  qed
qed

lemma connForApp_wf:
  assumes wf: "tcp_wf ok m" and e: "connForApp sock m = (i, m1)"
  obtains c where "tcp_wf ok m1" and "conns m1 i = Some c"
    and "early_command sock cmd m \<longleftrightarrow> cmd \<in> {Accept, Read, Destroy} \<and> \<not> opened c"
proof (cases "findConnForApp sock (tables m)")
  case (Some k)
  then obtain c where "conns m k = Some c" using tcp_wf_app [OF wf, of sock k] by (auto simp: findConnForApp_def)
  then show ?thesis using that [of c] Some e wf by (auto simp: connForApp_def early_command_def)
next
  case None
  let ?c = "createConnection sock m"
  have m1: "i = nextConn m" "m1 = m\<lparr>conns := (conns m)(nextConn m \<mapsto> ?c), nextConn := Suc (nextConn m),
      tables := (tables m)\<lparr>tcpAppConnMap := (tcpAppConnMap (tables m))(sock \<mapsto> nextConn m)\<rparr>\<rparr>"
    using None e by (auto simp: connForApp_def)
  have fresh: "conns m (nextConn m) = None" using tcp_wf_conn(1) [OF wf, of "nextConn m"] by fastforce
  have none: "tcpAppConnMap (tables m) sock = None" using None by (simp add: findConnForApp_def)
  have "tcp_wf ok m1"
    unfolding tcp_wf_def
  proof (intro conjI allI impI)
    fix s k assume "tcpAppConnMap (tables m1) s = Some k"
    then show "\<exists>x. conns m1 k = Some x \<and> socketId x = s"
      using tcp_wf_app [OF wf, of s k] fresh unopened_create(2) [of sock m] by (auto simp: m1 split: if_splits)
  next
    fix q k assume "tcpConnMap (tables m1) q = Some k"
    then show "\<exists>x. conns m1 k = Some x \<and> live ok x \<and> sock_pair_of x = q"
      using tcp_wf_pair [OF wf, of q k] fresh by (auto simp: m1)
  next
    fix k x assume k: "conns m1 k = Some x"
    then have x: "k \<noteq> nextConn m \<Longrightarrow> conns m k = Some x" "k = nextConn m \<Longrightarrow> x = ?c" by (auto simp: m1 split: if_splits)
    show "k < nextConn m1" using x tcp_wf_conn(1) [OF wf, of k x] by (cases "k = nextConn m") (auto simp: m1)
    show "tcpAppConnMap (tables m1) (socketId x) = Some k"
      using x tcp_wf_conn(2) [OF wf, of k x] none unopened_create(2) [of sock m]
      by (cases "k = nextConn m") (auto simp: m1)
    show "live ok x \<and> tcpConnMap (tables m1) (sock_pair_of x) = Some k \<or> unopened x"
      using x tcp_wf_conn(3) [OF wf, of k x] unopened_create(1) [of sock m]
      by (cases "k = nextConn m") (auto simp: m1)
  qed
  moreover have "\<not> opened ?c" using unopened_create(1) [of sock m] by (simp add: unopened_def)
  ultimately show ?thesis using that [of ?c] None m1 by (auto simp: early_command_def)
qed

lemma findConnForSegment_key:
  assumes wf: "tcp_wf ok m" and f: "findConnForSegment h src dest (tables m) = Some i"
  obtains c where "conns m i = Some c" and "live ok c" and "tcpConnMap (tables m) (sock_pair_of c) = Some i"
    and "tcpConnMap (tables m) (hd (segment_keys h src dest)) \<in> {None, Some i}"
proof -
  obtain k where k: "k \<in> set (segment_keys h src dest)" "tcpConnMap (tables m) k = Some i"
    and hd: "tcpConnMap (tables m) (hd (segment_keys h src dest)) \<in> {None, Some i}"
    using f by (auto simp: findConnForSegment_def segment_keys_def Let_def split: if_splits)
  show ?thesis using tcp_wf_pair [OF wf k(2)] k(2) hd that by auto
qed

section \<open>Every operation keeps the invariant and follows no null pointer\<close>

lemma noteEcn_live: "live ok c \<Longrightarrow> live ok (noteEcn ecn c) \<and> same_socket c (noteEcn ecn c)"
  by (auto simp: noteEcn_def live_def timers_wf_def same_socket_def)

lemma moved_fun: "moved i t t' c y \<Longrightarrow>
  tcpConnMap t' = (tcpConnMap t)(sock_pair_of c := None, sock_pair_of y \<mapsto> i) \<and> tcpAppConnMap t' = tcpAppConnMap t"
  by (simp add: moved_def)

lemma fun_upd_same_key: "m k = Some i \<Longrightarrow> m = m(k := None, k \<mapsto> i)"
  by auto

lemma tcp_wf_released [simp]: "tcp_wf ok (m\<lparr>released := r\<rparr>) \<longleftrightarrow> tcp_wf ok m"
  by (simp add: tcp_wf_def)

lemma live_time: "live ok (c\<lparr>sim_now := n\<rparr>) \<longleftrightarrow> live ok c" "unopened (c\<lparr>sim_now := n\<rparr>) \<longleftrightarrow> unopened c"
  "sock_pair_of (c\<lparr>sim_now := n\<rparr>) = sock_pair_of c"
  by (auto simp: live_def timers_wf_def unopened_def sock_pair_of_def)

lemma advanceTime_wf: "tcp_wf ok m \<Longrightarrow> tcp_wf ok (advanceTime now m)"
proof -
  assume wf: "tcp_wf ok m"
  have a: "conns (advanceTime now m) i = Some x \<longleftrightarrow> (\<exists>c. conns m i = Some c \<and> x = c\<lparr>sim_now := now\<rparr>)" for i x
    by (auto simp: advanceTime_def)
  have t: "tables (advanceTime now m) = tables m" "nextConn (advanceTime now m) = nextConn m"
    by (simp_all add: advanceTime_def)
  show ?thesis
    unfolding tcp_wf_def a t
  proof (intro conjI allI impI; (elim exE conjE)?)
    fix s i assume "tcpAppConnMap (tables m) s = Some i"
    then show "\<exists>x. (\<exists>c. conns m i = Some c \<and> x = c\<lparr>sim_now := now\<rparr>) \<and> socketId x = s"
      using tcp_wf_app [OF wf] by fastforce
  next
    fix k i assume "tcpConnMap (tables m) k = Some i"
    then show "\<exists>x. (\<exists>c. conns m i = Some c \<and> x = c\<lparr>sim_now := now\<rparr>) \<and> live ok x \<and> sock_pair_of x = k"
      using tcp_wf_pair [OF wf] live_time(1,3) by metis
  qed (auto simp: live_time dest: tcp_wf_conn [OF wf])
qed

lemma module_reset_wf: "tcp_wf ok m \<Longrightarrow> tcp_wf ok (reset m)"
proof -
  assume wf: "tcp_wf ok m"
  have "conns (reset m) i = None" for i
    using tcp_wf_conn(2) [OF wf, of i] by (cases "conns m i") (auto simp: reset_def ran_def)
  then show ?thesis by (simp add: tcp_wf_def reset_def tables_new_def)
qed

lemma segmentArrivalWhileClosed_no_null:
  assumes "\<not> opened c"
  shows "no_null (segmentArrivalWhileClosed alg h d src dest c)"
proof -
  have k: "kept (\<lambda>_. True) c c" by simp
  have r: "safe (kept (\<lambda>_. True) c) (sendRst_between (ackNo h) dest src (destPort h) (srcPort h) c)"
    by (intro control_rules k)
  have a: "no_null (sendRstAck alg sq ack dest src (destPort h) (srcPort h) c)" for sq ack
  proof -
    have "safe (kept (\<lambda>_. True) c) (sendToIP_between hdr [] dest src c)" for hdr by (intro control_rules k)
    then show ?thesis
      unfolding sendRstAck_def safe_simps(3) by (rule safe_mono) (use assms in \<open>simp add: kept_def same_control_def\<close>)
  qed
  show ?thesis
    unfolding segmentArrivalWhileClosed_def using a safe_mono [OF r, of "\<lambda>_. True"] assms by (simp add: safe_if)
qed

context congestion_control
begin

lemma settle_pair_after:
  assumes wf: "tcp_wf ok m" and c: "conns m i = Some c" "live ok x" "same_socket c x" "live ok c"
    and y: "b \<longrightarrow> live ok y" "pair_after i key (tables m) x t' y"
    and free: "tcpConnMap (tables m) key \<in> {None, Some i}"
  shows "tcp_wf ok (settle b i t' y m)"
proof -
  have own: "tcpConnMap (tables m) (sock_pair_of c) = Some i"
    using tcp_wf_conn(3) [OF wf c(1)] live_unopened c(4) by auto
  have x: "sock_pair_of x = sock_pair_of c" "socketId x = socketId c"
    using sock_pair_of_same [OF c(3)] c(3) by (simp_all add: same_socket_def)
  consider "same_socket x y" "t' = tables m" | "sock_pair_of y = key" "moved i (tables m) t' x y"
    using y(2) by (auto simp: pair_after_def)
  then show ?thesis
  proof cases
    case 1
    have "sock_pair_of y = sock_pair_of c" using sock_pair_of_same [OF 1(1)] x(1) by simp
    then show ?thesis
      using settle_live [OF wf c(1,4) y(1)] y(2) own fun_upd_same_key [of "tcpConnMap (tables m)", OF own] 1(2) x(2) by (simp add: pair_after_def)
  next
    case 2
    then show ?thesis
      using settle_live [OF wf c(1,4) y(1)] moved_fun [OF 2(2)] y(2) free x by (auto simp: pair_after_def)
  qed
qed

lemma command_wf:
  assumes wf: "tcp_wf ok m" and e: "\<not> early_command sock cmd m"
  shows "safe (tcp_wf ok) (handleUpperCommand alg sock cmd m)"
proof -
  obtain i m1 where f: "connForApp sock m = (i, m1)" by (cases "connForApp sock m")
  obtain c where c: "tcp_wf ok m1" "conns m1 i = Some c" "cmd \<notin> {Accept, Read, Destroy} \<or> opened c"
    using connForApp_wf [OF wf f, of cmd thesis] e by auto
  have "safe (\<lambda>(b, t', y). tcp_wf ok (settle b i t' y m1)) (processAppCommand alg i cmd (tables m1) c)"
    using tcp_wf_conn(3) [OF c(1,2)]
  proof
    assume l: "live ok c \<and> tcpConnMap (tables m1) (sock_pair_of c) = Some i"
    show ?thesis
    proof (rule safe_mono [OF processAppCommand_live [OF conjunct1 [OF l]]])
      fix r assume "case r of (b, t', y) \<Rightarrow> (b \<longrightarrow> live ok y) \<and> same_socket c y \<and> t' = tables m1"
      then show "case r of (b, t', y) \<Rightarrow> tcp_wf ok (settle b i t' y m1)"
        using l settle_pair_after [OF c(1,2), of c _ _ "sock_pair_of c"]
        by (cases r) (auto simp: pair_after_def same_socket_def)
    qed
  next
    assume u: "unopened c"
    then have "cmd \<notin> {Accept, Read, Destroy}" using c(3) by (auto simp: unopened_def)
    show ?thesis
      by (rule safe_mono [OF processAppCommand_unopened [OF u \<open>cmd \<notin> _\<close>]])
        (auto intro: settle_unopened [OF c(1,2) u])
  qed
  then show ?thesis using c(2) by (simp add: handleUpperCommand_def f split_def)
qed

lemma timer_wf:
  assumes wf: "tcp_wf ok m" and c: "conns m i = Some c" "pending tm c"
  shows "safe (tcp_wf ok) (handleTimer alg i tm m)"
proof -
  have l: "live ok c" "tcpConnMap (tables m) (sock_pair_of c) = Some i"
    using tcp_wf_conn(3) [OF wf c(1)] c(2) by (cases tm; auto simp: unopened_def)+
  have "safe (\<lambda>(b, y). tcp_wf ok (settle b i (tables m) y m)) (processTimer alg tm c)"
  proof (rule safe_mono [OF processTimer_live [OF l(1) c(2)]])
    fix r assume "case r of (b, y) \<Rightarrow> (b \<longrightarrow> live ok y) \<and> same_socket c y"
    then show "case r of (b, y) \<Rightarrow> tcp_wf ok (settle b i (tables m) y m)"
      using l settle_pair_after [OF wf c(1), of c _ _ "sock_pair_of c"]
      by (cases r) (auto simp: pair_after_def same_socket_def)
  qed
  then show ?thesis using c(1) by (simp add: handleTimer_def split_def)
qed

lemma segment_wf:
  assumes wf: "tcp_wf ok m" and new: "tcpAppConnMap (tables m) newSock = None"
  shows "safe (tcp_wf ok) (handleLowerPacket alg newSock proto crc_ok ecn h d src dest m)"
proof (cases "proto = Proto_tcp \<and> crc_ok")
  case False
  then show ?thesis using wf by (cases proto) (auto simp: handleLowerPacket_def)
next
  case True
  show ?thesis
  proof (cases "findConnForSegment h src dest (tables m)")
    case None
    have "no_null (segmentArrivalWhileClosed alg h d src dest (createConnection (- 1) m))"
      by (rule segmentArrivalWhileClosed_no_null) (use unopened_create(1) [of "- 1" m] in \<open>simp add: unopened_def\<close>)
    then show ?thesis using True None wf by (simp add: handleLowerPacket_def)
  next
    case (Some i)
    obtain c where c: "conns m i = Some c" "live ok c"
      "tcpConnMap (tables m) (hd (segment_keys h src dest)) \<in> {None, Some i}"
      using findConnForSegment_key [OF wf Some] by metis
    have x: "live ok (noteEcn ecn c)" "same_socket c (noteEcn ecn c)" using noteEcn_live [OF c(2)] by simp_all
    let ?j = "nextConn m" and ?key = "hd (segment_keys h src dest)"
    let ?m = "\<lambda>f. case f of None \<Rightarrow> m | Some n \<Rightarrow> m\<lparr>conns := (conns m)(?j \<mapsto> n), nextConn := Suc ?j\<rparr>"
    have "safe (\<lambda>(b, t', y, f). tcp_wf ok (settle b i t' y (?m f)))
        (processTCPSegment alg i ?j (createConnection newSock m) h d src dest (tables m) (noteEcn ecn c))"
    proof (rule safe_mono [OF processTCPSegment_live [OF x(1) unopened_create(1)]])
      fix r assume r: "case r of (b, t', y, f) \<Rightarrow>
        after_segment ok i ?j (createConnection newSock m) ?key (tables m) (noteEcn ecn c) b t' y f"
      show "case r of (b, t', y, f) \<Rightarrow> tcp_wf ok (settle b i t' y (?m f))"
      proof (cases r)
        case (fields b t' y f)
        show ?thesis
        proof (cases f)
          case None
          then show ?thesis
            using r fields settle_pair_after [OF wf c(1) x c(2) _ _ c(3)] by (auto simp: after_segment_def)
        next
          case n: (Some n)
          then have f: "b" "y = noteEcn ecn c" "live ok n" "forked ?j (tables m) t' n" "socketId n = newSock"
            using r fields unopened_create(2) by (auto simp: after_segment_def)
          have "tcp_wf ok (m\<lparr>conns := (conns m)(?j \<mapsto> n), nextConn := Suc ?j, tables := t'\<rparr>)" (is "tcp_wf ok ?f")
            using fork_wf [OF wf f(3,4)] new f(5) by simp
          note wf' = this
          have ci: "conns ?f i = Some c" using c(1) tcp_wf_conn(1) [OF wf c(1)] by simp
          have "tcp_wf ok (settle True i (tables ?f) y ?f)"
            using settle_pair_after [OF wf' ci x c(2), of True y "sock_pair_of c" "tables ?f"]
              tcp_wf_conn(3) [OF wf' ci] live_unopened [OF c(2)] x(1) f(2)
            by (simp add: pair_after_def)
          then show ?thesis using n fields f(1) by (simp add: settle_def)
        qed
      qed
    qed
    then show ?thesis using True Some c(1) by (simp add: handleLowerPacket_def split_def)
  qed
qed

lemma early_command_fails:
  assumes wf: "tcp_wf ok m" and e: "early_command sock cmd m"
  shows "\<exists>x. handleUpperCommand alg sock cmd m = Inl x"
proof -
  obtain i m1 where f: "connForApp sock m = (i, m1)" by (cases "connForApp sock m")
  obtain c where c: "tcp_wf ok m1" "conns m1 i = Some c" "cmd \<in> {Accept, Read, Destroy}" "\<not> opened c"
    using connForApp_wf [OF wf f, of cmd thesis] e by auto
  have u: "unopened c" using tcp_wf_conn(3) [OF c(1,2)] c(4) by (auto simp: live_def)
  have "fsm_next a TCP_E_DESTROY TCP_S_INIT = TCP_S_CLOSED" for a by (simp add: fsm_defs)
  then have "\<exists>x. processAppCommand alg i cmd t c = Inl x" for t
    using c(3) u
    by (auto simp: processAppCommand_def runCommand_def process_ACCEPT_def process_READ_REQUEST_def
        preanalyseAppCommandEvent_def performStateTransition_def stateEntered_def unopened_def
        sendEstabIndicationToApp_def sendToApp_def Let_def)
      (simp add: enterClosed_same(1) [unfolded same_control_def])
  then obtain x where "processAppCommand alg i cmd (tables m1) c = Inl x" by blast
  then show ?thesis using c(2) by (simp add: handleUpperCommand_def f)
qed

lemma tcp_step_wf: "tcp_step alg m m' \<Longrightarrow> tcp_wf ok m \<Longrightarrow> tcp_wf ok m'"
proof (induction rule: tcp_step.induct)
  case (command sock cmd m m')
  then show ?case using early_command_fails [of m sock cmd] safeD [OF command_wf [of m sock cmd]] by fastforce
next
  case (segment m newSock proto crc_ok ecn hdr payload src dest m')
  then show ?case using safeD [OF segment_wf] by blast
next
  case (timer m i c tm m')
  then show ?case using safeD [OF timer_wf] by blast
qed (auto intro: advanceTime_wf module_reset_wf)

lemma reachable_wf: "tcp_reachable alg m \<Longrightarrow> tcp_wf ok m"
proof -
  have "(tcp_step alg)\<^sup>*\<^sup>* m0 m \<Longrightarrow> tcp_wf ok m0 \<Longrightarrow> tcp_wf ok m" for m0
    by (induction rule: rtranclp_induct) (auto intro: tcp_step_wf)
  then show "tcp_reachable alg m \<Longrightarrow> tcp_wf ok m"
    unfolding tcp_reachable_def by (elim exE) (simp add: tcp_wf_new)
qed

end

end
