(* ===== verification/DumbTcp.thy ===== *)
theory DumbTcp
  imports Tcp
begin

text \<open>
  The simplest congestion control, \<open>DumbTcp\<close> (\<open>flavours/DumbTcp.cc\<close>): a fixed retransmission timeout, no
  congestion window, an ACK for every segment. Its only state is the REXMIT timer. It meets the contract
  \<open>congestion_control\<close>.
\<close>

section \<open>The algorithm\<close>

record dumb_state =
  dumb_rexmitTimer :: timer

type_synonym 'd dumb_conn = "('d, dumb_state) conn_scheme"

definition REXMIT_TIMEOUT :: simtime where
  "REXMIT_TIMEOUT = 2 * sim_sec"

abbreviation dumb_timer :: "'d dumb_conn \<Rightarrow> timer" where
  "dumb_timer c \<equiv> dumb_rexmitTimer (conn.more c)"

definition dumb_set_timer :: "timer \<Rightarrow> 'd dumb_conn \<Rightarrow> 'd dumb_conn" where
  "dumb_set_timer t c = conn.more_update (dumb_rexmitTimer_update (\<lambda>_. t)) c"

definition dumb_initialize :: "'d dumb_conn \<Rightarrow> err + 'd dumb_conn" where
  "dumb_initialize c = Inr (conn.more_update (\<lambda>_. \<lparr>dumb_rexmitTimer = Idle\<rparr>) c)"

definition dumb_dataSent :: "u32 \<Rightarrow> 'd dumb_conn \<Rightarrow> err + 'd dumb_conn" where
  "dumb_dataSent fromseq c =
     ebind (rescheduleAfter (sim_now c) REXMIT_TIMEOUT (dumb_timer c)) (\<lambda>t. Inr (dumb_set_timer t c))"

text \<open>The callbacks that do not send.\<close>

definition dumb_callbacks :: "'d dumb_conn tcp_callbacks" where
  "dumb_callbacks = \<lparr>alg_ackSent = Inr, alg_dataSent = dumb_dataSent,
     alg_segmentRetransmitted = (\<lambda>_ _. Inr), alg_restartRexmitTimer = Inr,
     alg_shouldMarkAck = (\<lambda>c. (False, c))\<rparr>"

text \<open>\<open>conn->sendData(65535)\<close>, its result unused.\<close>

definition dumb_send :: "'d dumb_conn \<Rightarrow> err + 'd dumb_conn" where
  "dumb_send c = ebind (sendData dumb_callbacks 65535 c) (\<lambda>(_, c). Inr c)"

definition dumb_established :: "bool \<Rightarrow> 'd dumb_conn \<Rightarrow> err + 'd dumb_conn" where
  "dumb_established isActive c =
     (if isActive
      then ebind (sendData dumb_callbacks 65535 c) (\<lambda>(sent, c). if \<not> sent then sendAck dumb_callbacks c else Inr c)
      else Inr c)"

definition dumb_connectionClosed :: "'d dumb_conn \<Rightarrow> err + 'd dumb_conn" where
  "dumb_connectionClosed c = ebind (cancelEvent (dumb_timer c)) (\<lambda>t. Inr (dumb_set_timer t c))"

text \<open>The message that arrives is no longer scheduled.\<close>

definition dumb_processTimer :: "string \<Rightarrow> 'd dumb_conn \<Rightarrow> err + (tcp_event \<times> 'd dumb_conn)" where
  "dumb_processTimer name c =
     (if name \<noteq> ''REXMIT'' then Inl (RuntimeError ''unrecognized timer'')
      else ebind (retransmitData dumb_callbacks (dumb_set_timer Idle c)) (\<lambda>c.
           ebind (scheduleAfter (sim_now c) REXMIT_TIMEOUT (dumb_timer c)) (\<lambda>t.
             Inr (TCP_E_IGNORE, dumb_set_timer t c))))"

definition dumbTcp :: "'d dumb_conn tcp_algorithm" where
  "dumbTcp = \<lparr>alg_ackSent = Inr, alg_dataSent = dumb_dataSent,
     alg_segmentRetransmitted = (\<lambda>_ _. Inr), alg_restartRexmitTimer = Inr,
     alg_shouldMarkAck = (\<lambda>c. (False, c)), alg_initialize = dumb_initialize,
     alg_established = dumb_established, alg_connectionClosed = dumb_connectionClosed,
     alg_processTimer = dumb_processTimer, alg_sendCommandInvoked = dumb_send,
     alg_receivedOutOfOrderSegment = sendAck dumb_callbacks,
     alg_receiveSeqChanged = sendAck dumb_callbacks, alg_receivedDataAck = (\<lambda>_. dumb_send),
     alg_receivedDuplicateAck = Inr, alg_receivedAckForDataNotYetSent = (\<lambda>_. sendAck dumb_callbacks),
     alg_rttMeasurementCompleteUsingTS = (\<lambda>_. Inr), alg_processEcnInEstablished = Inr\<rparr>"

section \<open>The contract\<close>

text \<open>The timer message exists from \<open>initialize\<close> on.\<close>

definition dumb_ok :: "dumb_state \<Rightarrow> bool" where
  "dumb_ok z = (dumb_rexmitTimer z \<noteq> NoTimer)"

lemma dumb_set_timer_kept: "t \<noteq> NoTimer \<Longrightarrow> kept dumb_ok c x \<Longrightarrow> kept dumb_ok c (dumb_set_timer t x)"
  by (simp add: dumb_set_timer_def kept_def same_control_def same_socket_def dumb_ok_def)

lemma dumb_dataSent_kept: "dumb_ok (conn.more c) \<Longrightarrow> safe (kept dumb_ok c) (dumb_dataSent n c)"
  using dumb_set_timer_kept [of _ c c] by (simp add: dumb_dataSent_def dumb_ok_def)

interpretation dumb_cb: keeps_control dumb_callbacks dumb_ok
  by unfold_locales (simp_all add: dumb_callbacks_def dumb_dataSent_kept)

lemma dumb_send_kept: "kept dumb_ok c x \<Longrightarrow> safe (kept dumb_ok c) (dumb_send x)"
  unfolding dumb_send_def by (intro control_rules null_rules)

lemma dumb_established_kept: "kept dumb_ok c x \<Longrightarrow> safe (kept dumb_ok c) (dumb_established b x)"
  unfolding dumb_established_def by (intro control_rules null_rules)

lemma dumb_processTimer_kept:
  assumes "dumb_ok (conn.more c)"
  shows "safe (\<lambda>(e, x). kept dumb_ok c x) (dumb_processTimer name c)"
proof -
  have "kept dumb_ok c (dumb_set_timer Idle c)" using assms by (intro dumb_set_timer_kept) simp_all
  then have "safe (kept dumb_ok c) (retransmitData dumb_callbacks (dumb_set_timer Idle c))"
    by (rule dumb_cb.retransmit_rules(2))
  then have "safe (\<lambda>x. safe (\<lambda>t. kept dumb_ok c (dumb_set_timer t x))
      (scheduleAfter (sim_now x) REXMIT_TIMEOUT (dumb_timer x)))
      (retransmitData dumb_callbacks (dumb_set_timer Idle c))"
  proof (rule safe_mono)
    fix x assume k: "kept dumb_ok c x"
    then have "dumb_timer x \<noteq> NoTimer" by (simp add: kept_def dumb_ok_def)
    then have "no_null (scheduleAfter (sim_now x) REXMIT_TIMEOUT (dumb_timer x))" by (rule timer_rules(2))
    then show "safe (\<lambda>t. kept dumb_ok c (dumb_set_timer t x)) (scheduleAfter (sim_now x) REXMIT_TIMEOUT (dumb_timer x))"
      by (rule safe_mono) (rule dumb_set_timer_kept [OF scheduled_timer k])
  qed
  then show ?thesis by (simp add: dumb_processTimer_def)
qed

lemma dumb_connectionClosed_returns:
  "dumb_ok (conn.more c) \<Longrightarrow> \<exists>x. dumb_connectionClosed c = Inr x \<and> kept dumb_ok c x"
  using dumb_set_timer_kept [of Idle c c] by (simp add: dumb_connectionClosed_def dumb_ok_def)

lemma dumb_initialize_ok: "safe (\<lambda>x. same_control c x \<and> dumb_ok (conn.more x)) (dumb_initialize c)"
  by (simp add: dumb_initialize_def same_control_def same_socket_def dumb_ok_def)

interpretation dumb: congestion_control dumbTcp dumb_ok
  by unfold_locales (simp_all add: dumbTcp_def dumb_dataSent_kept dumb_initialize_ok dumb_established_kept
      dumb_connectionClosed_returns dumb_processTimer_kept dumb_send_kept dumb_cb.control_segment_rules(4))

end
