(* ===== verification/TcpBaseAlg.thy ===== *)
theory TcpBaseAlg
  imports Tcp
begin

text \<open>
  The common part of the congestion controls (\<open>flavours/TcpBaseAlg.cc\<close>): the REXMIT, PERSIST, DELAYED-ACK and
  KEEP-ALIVE timers, the retransmission timeout of Jacobson and Karn, delayed acknowledgments and the
  persist probes. Its functions are generic in the variables that a flavour adds, and take the flavour's
  callbacks \<open>cb\<close>, which the connection calls when it sends.
\<close>

section \<open>State\<close>

record base_state =
  rexmitTimer :: timer
  persistTimer :: timer
  delayedAckTimer :: timer
  keepAliveTimer :: timer
  rexmit_count :: int
  rexmit_timeout :: simtime
  persist_factor :: u32
  persist_timeout :: simtime
  snd_cwnd :: u32
  rtseq :: u32
  rtseq_sendtime :: simtime
  srtt :: simtime
  rttvar :: simtime
  numRtos :: u32
  recover :: u32
  firstPartialACK :: bool

type_synonym ('d, 'x) base_conn = "('d, 'x base_state_scheme) conn_scheme"

type_synonym ('d, 'x) base_callbacks = "('d, 'x) base_conn tcp_callbacks"

definition DELAYED_ACK_TIMEOUT :: simtime where
  "DELAYED_ACK_TIMEOUT = sim_sec div 5"

definition MAX_REXMIT_COUNT :: int where
  "MAX_REXMIT_COUNT = 12"

definition MIN_REXMIT_TIMEOUT :: simtime where
  "MIN_REXMIT_TIMEOUT = sim_sec"

definition MAX_REXMIT_TIMEOUT :: simtime where
  "MAX_REXMIT_TIMEOUT = 240 * sim_sec"

definition MIN_PERSIST_TIMEOUT :: simtime where
  "MIN_PERSIST_TIMEOUT = 5 * sim_sec"

definition MAX_PERSIST_TIMEOUT :: simtime where
  "MAX_PERSIST_TIMEOUT = 60 * sim_sec"

text \<open>The timers of \<open>initialize\<close> and the values of the constructor (\<open>recover\<close> is set while \<open>iss\<close> is 0).\<close>

definition base_new :: base_state where
  "base_new = \<lparr>rexmitTimer = Idle, persistTimer = Idle, delayedAckTimer = Idle, keepAliveTimer = Idle,
     rexmit_count = 0, rexmit_timeout = 3 * sim_sec, persist_factor = 0, persist_timeout = 5 * sim_sec,
     snd_cwnd = 0, rtseq = 0, rtseq_sendtime = 0, srtt = 0, rttvar = 3 * sim_sec div 4, numRtos = 0,
     recover = 0, firstPartialACK = False\<rparr>"

text \<open>The algorithm's variables of a connection, and their update.\<close>

abbreviation alg_state :: "('d, 'z) conn_scheme \<Rightarrow> 'z" where
  "alg_state c \<equiv> conn.more c"

abbreviation set_alg :: "('z \<Rightarrow> 'z) \<Rightarrow> ('d, 'z) conn_scheme \<Rightarrow> ('d, 'z) conn_scheme" where
  "set_alg f c \<equiv> conn.more_update f c"

definition base_initialize :: "'x \<Rightarrow> ('d, 'x) base_conn \<Rightarrow> err + ('d, 'x) base_conn" where
  "base_initialize x c = Inr (set_alg (\<lambda>_. base_state.extend base_new x) c)"

section \<open>Sending\<close>

text \<open>The initial window of RFC 3390.\<close>

definition increased_window :: "u32 \<Rightarrow> u32" where
  "increased_window smss = min (4 * smss) (max (2 * smss) 4380)"

definition initial_cwnd :: "tcb \<Rightarrow> u32" where
  "initial_cwnd s = (if increased_IW_enabled s \<and> syn_rexmit_count s = 0 then increased_window (snd_mss s)
     else snd_mss s)"

text \<open>An idle connection starts again with the restart window.\<close>

definition restart_window :: "('d, 'x) base_conn \<Rightarrow> ('d, 'x) base_conn" where
  "restart_window c =
     (if \<not> isSendQueueEmpty c \<and> sim_now c - time_last_data_sent (state c) > rexmit_timeout (alg_state c)
      then set_alg (snd_cwnd_update (\<lambda>w. if increased_IW_enabled (state c)
             then min (increased_window (snd_mss (state c))) w else snd_mss (state c))) c
      else c)"

definition base_sendData :: "('d, 'x) base_callbacks \<Rightarrow> ('d, 'x) base_conn \<Rightarrow>
    err + (bool \<times> ('d, 'x) base_conn)" where
  "base_sendData cb c = (let c = restart_window c in sendData cb (snd_cwnd (alg_state c)) c)"

definition base_sendCommandInvoked :: "('d, 'x) base_callbacks \<Rightarrow> ('d, 'x) base_conn \<Rightarrow>
    err + ('d, 'x) base_conn" where
  "base_sendCommandInvoked cb c = ebind (base_sendData cb c) (\<lambda>(_, c). Inr c)"

definition base_established :: "('d, 'x) base_callbacks \<Rightarrow> bool \<Rightarrow> ('d, 'x) base_conn \<Rightarrow>
    err + ('d, 'x) base_conn" where
  "base_established cb isActive c =
     (let c = set_alg (snd_cwnd_update (\<lambda>_. initial_cwnd (state c))) c
      in if isActive
         then ebind (base_sendData cb c) (\<lambda>(sent, c). if \<not> sent then sendAck cb c else Inr c)
         else Inr c)"

section \<open>Timers\<close>

definition set_rexmitTimer :: "timer \<Rightarrow> ('d, 'x) base_conn \<Rightarrow> ('d, 'x) base_conn" where
  "set_rexmitTimer t = set_alg (rexmitTimer_update (\<lambda>_. t))"

definition set_persistTimer :: "timer \<Rightarrow> ('d, 'x) base_conn \<Rightarrow> ('d, 'x) base_conn" where
  "set_persistTimer t = set_alg (persistTimer_update (\<lambda>_. t))"

definition set_delayedAckTimer :: "timer \<Rightarrow> ('d, 'x) base_conn \<Rightarrow> ('d, 'x) base_conn" where
  "set_delayedAckTimer t = set_alg (delayedAckTimer_update (\<lambda>_. t))"

definition set_keepAliveTimer :: "timer \<Rightarrow> ('d, 'x) base_conn \<Rightarrow> ('d, 'x) base_conn" where
  "set_keepAliveTimer t = set_alg (keepAliveTimer_update (\<lambda>_. t))"

text \<open>A call of the kernel (\<open>cancelEvent\<close>, \<open>scheduleAfter\<close>) on one of the timers.\<close>

definition on_rexmitTimer :: "(timer \<Rightarrow> err + timer) \<Rightarrow> ('d, 'x) base_conn \<Rightarrow> err + ('d, 'x) base_conn" where
  "on_rexmitTimer f c = ebind (f (rexmitTimer (alg_state c))) (\<lambda>t. Inr (set_rexmitTimer t c))"

definition on_persistTimer :: "(timer \<Rightarrow> err + timer) \<Rightarrow> ('d, 'x) base_conn \<Rightarrow> err + ('d, 'x) base_conn" where
  "on_persistTimer f c = ebind (f (persistTimer (alg_state c))) (\<lambda>t. Inr (set_persistTimer t c))"

definition on_delayedAckTimer :: "(timer \<Rightarrow> err + timer) \<Rightarrow> ('d, 'x) base_conn \<Rightarrow> err + ('d, 'x) base_conn" where
  "on_delayedAckTimer f c = ebind (f (delayedAckTimer (alg_state c))) (\<lambda>t. Inr (set_delayedAckTimer t c))"

definition on_keepAliveTimer :: "(timer \<Rightarrow> err + timer) \<Rightarrow> ('d, 'x) base_conn \<Rightarrow> err + ('d, 'x) base_conn" where
  "on_keepAliveTimer f c = ebind (f (keepAliveTimer (alg_state c))) (\<lambda>t. Inr (set_keepAliveTimer t c))"

definition base_connectionClosed :: "('d, 'x) base_conn \<Rightarrow> err + ('d, 'x) base_conn" where
  "base_connectionClosed c =
     ebind (on_rexmitTimer cancelEvent c) (\<lambda>c.
     ebind (on_persistTimer cancelEvent c) (\<lambda>c.
     ebind (on_delayedAckTimer cancelEvent c) (on_keepAliveTimer cancelEvent)))"

definition scheduleRexmit :: "('d, 'x) base_conn \<Rightarrow> err + ('d, 'x) base_conn" where
  "scheduleRexmit c = on_rexmitTimer (scheduleAfter (sim_now c) (rexmit_timeout (alg_state c))) c"

definition schedulePersist :: "('d, 'x) base_conn \<Rightarrow> err + ('d, 'x) base_conn" where
  "schedulePersist c = on_persistTimer (scheduleAfter (sim_now c) (persist_timeout (alg_state c))) c"

definition startRexmitTimer :: "('d, 'x) base_conn \<Rightarrow> err + ('d, 'x) base_conn" where
  "startRexmitTimer c = scheduleRexmit (set_alg (rexmit_count_update (\<lambda>_. 0)) c)"

definition base_restartRexmitTimer :: "('d, 'x) base_conn \<Rightarrow> err + ('d, 'x) base_conn" where
  "base_restartRexmitTimer c =
     ebind (isScheduled (rexmitTimer (alg_state c))) (\<lambda>scheduled.
     ebind (if scheduled then on_rexmitTimer cancelEvent c else Inr c) startRexmitTimer)"

text \<open>After a retransmission timeout the scoreboard starts again, and RFC 3517's recovery ends.\<close>

definition forget_sacks :: "('d, 'z) conn_scheme \<Rightarrow> ('d, 'z) conn_scheme" where
  "forget_sacks c =
     (if sack_enabled (state c) then
        let c = c\<lparr>rexmitQ := resetRexmittedBit (resetSackedBit (rexmitQ c))\<rparr>
        in if lossRecovery (state c)
           then c\<lparr>state := (state c)\<lparr>recoveryPoint := snd_max (state c), lossRecovery := False\<rparr>\<rparr> else c
      else c)"

definition doubled_timeout :: "simtime \<Rightarrow> simtime" where
  "doubled_timeout t = (if t + t > MAX_REXMIT_TIMEOUT then MAX_REXMIT_TIMEOUT else t + t)"

text \<open>The message \<open>rexmitTimer\<close> has arrived; the result is the event for the state machine.\<close>

definition base_processRexmitTimer :: "('d, 'x) base_conn \<Rightarrow> err + (tcp_event \<times> ('d, 'x) base_conn)" where
  "base_processRexmitTimer c =
     (let c = set_alg (rexmit_count_update (\<lambda>n. n + 1)) c
      in if rexmit_count (alg_state c) > MAX_REXMIT_COUNT
         then Inr (TCP_E_ABORT, sendIndicationToApp TCP_I_TIMED_OUT 0 c)
         else
           let c = set_alg (rexmit_timeout_update doubled_timeout) c
           in ebind (scheduleRexmit c) (\<lambda>c.
                let c = forget_sacks (set_alg (\<lambda>a. a\<lparr>rtseq_sendtime := 0, numRtos := numRtos a + 1\<rparr>) c)
                in Inr (TCP_E_IGNORE, c\<lparr>state := (state c)\<lparr>time_last_data_sent := sim_now c\<rparr>\<rparr>)))"

text \<open>The factor 1.5 is exact: \<open>persist_factor\<close> is at most 64. The bounds go to \<open>rexmit_timeout\<close>, as in the code.\<close>

definition next_persist_factor :: "u32 \<Rightarrow> u32" where
  "next_persist_factor f = (if f = 0 then f + 1 else if f < 64 then f * 2 else f)"

definition persist_update :: "'x base_state_scheme \<Rightarrow> 'x base_state_scheme" where
  "persist_update a =
     (let f = next_persist_factor (persist_factor a);
          t = uint f * 3 * sim_sec div 2;
          r = (if t < MIN_PERSIST_TIMEOUT then MIN_PERSIST_TIMEOUT else rexmit_timeout a);
          r = (if t > MAX_PERSIST_TIMEOUT then MAX_PERSIST_TIMEOUT else r)
      in a\<lparr>persist_factor := f, persist_timeout := t, rexmit_timeout := r\<rparr>)"

definition base_processPersistTimer :: "('d, 'x) base_callbacks \<Rightarrow> ('d, 'x) base_conn \<Rightarrow>
    err + (tcp_event \<times> ('d, 'x) base_conn)" where
  "base_processPersistTimer cb c =
     ebind (schedulePersist (set_alg persist_update c)) (\<lambda>c.
     ebind (sendProbe cb c) (\<lambda>(_, c). Inr (TCP_E_IGNORE, c)))"

definition base_processDelayedAckTimer :: "('d, 'x) base_callbacks \<Rightarrow> ('d, 'x) base_conn \<Rightarrow>
    err + (tcp_event \<times> ('d, 'x) base_conn)" where
  "base_processDelayedAckTimer cb c =
     ebind (sendAck cb (c\<lparr>state := (state c)\<lparr>ack_now := True\<rparr>\<rparr>)) (\<lambda>c. Inr (TCP_E_IGNORE, c))"

text \<open>
  The timer that arrives is not scheduled any more; \<open>processRexmit\<close> is the flavour's virtual
  \<open>processRexmitTimer\<close>.
\<close>

definition base_processTimer :: "('d, 'x) base_callbacks \<Rightarrow>
    (('d, 'x) base_conn \<Rightarrow> err + (tcp_event \<times> ('d, 'x) base_conn)) \<Rightarrow> string \<Rightarrow> ('d, 'x) base_conn \<Rightarrow>
    err + (tcp_event \<times> ('d, 'x) base_conn)" where
  "base_processTimer cb processRexmit name c =
     (if name = ''REXMIT'' then processRexmit (set_rexmitTimer Idle c)
      else if name = ''PERSIST'' then base_processPersistTimer cb (set_persistTimer Idle c)
      else if name = ''DELAYEDACK'' then base_processDelayedAckTimer cb (set_delayedAckTimer Idle c)
      else if name = ''KEEPALIVE'' then Inr (TCP_E_IGNORE, set_keepAliveTimer Idle c)
      else Inl (RuntimeError ''unrecognized timer''))"

section \<open>Round-trip time\<close>

text \<open>
  Jacobson's estimate. \<open>eighth\<close> is the product of 1/8 and a time as the kernel's time type rounds it.
\<close>

definition bounded_rto :: "simtime \<Rightarrow> simtime" where
  "bounded_rto rto = (if rto > MAX_REXMIT_TIMEOUT then MAX_REXMIT_TIMEOUT
     else if rto < MIN_REXMIT_TIMEOUT then MIN_REXMIT_TIMEOUT else rto)"

definition rtt_update :: "(simtime \<Rightarrow> simtime) \<Rightarrow> simtime \<Rightarrow> 'x base_state_scheme \<Rightarrow> 'x base_state_scheme" where
  "rtt_update eighth newRTT a =
     (let err = newRTT - srtt a;
          s = srtt a + eighth err;
          v = rttvar a + eighth (\<bar>err\<bar> - rttvar a)
      in a\<lparr>srtt := s, rttvar := v, rexmit_timeout := bounded_rto (s + 4 * v)\<rparr>)"

definition rttMeasurementComplete :: "(simtime \<Rightarrow> simtime) \<Rightarrow> simtime \<Rightarrow> simtime \<Rightarrow> ('d, 'x) base_conn \<Rightarrow>
    ('d, 'x) base_conn" where
  "rttMeasurementComplete eighth tSent tAcked = set_alg (rtt_update eighth (tAcked - tSent))"

definition convertTSToSimtime :: "u32 \<Rightarrow> simtime" where
  "convertTSToSimtime ts = uint ts * (sim_sec div 1000)"

definition base_rttMeasurementCompleteUsingTS :: "(simtime \<Rightarrow> simtime) \<Rightarrow> u32 \<Rightarrow> ('d, 'x) base_conn \<Rightarrow>
    err + ('d, 'x) base_conn" where
  "base_rttMeasurementCompleteUsingTS eighth echoedTS c =
     ebind (assert_that (ts_enabled (state c))) (\<lambda>_.
       Inr (rttMeasurementComplete eighth (convertTSToSimtime echoedTS)
              (convertTSToSimtime (convertSimtimeToTS (sim_now c))) c))"

section \<open>Acknowledgments\<close>

definition base_receivedOutOfOrderSegment :: "('d, 'x) base_callbacks \<Rightarrow> ('d, 'x) base_conn \<Rightarrow>
    err + ('d, 'x) base_conn" where
  "base_receivedOutOfOrderSegment cb c = sendAck cb (c\<lparr>state := (state c)\<lparr>ack_now := True\<rparr>\<rparr>)"

definition delayed_ack :: "('d, 'x) base_callbacks \<Rightarrow> ('d, 'x) base_conn \<Rightarrow> err + ('d, 'x) base_conn" where
  "delayed_ack cb c =
     (let s = state c;
          c = (if lossRecovery s then c\<lparr>state := s\<lparr>ack_now := True\<rparr>\<rparr> else c)
      in if \<not> delayed_acks_enabled s \<or> ack_now (state c) \<or> full_sized_segment_counter s \<ge> 2
         then sendAck cb c
         else ebind (isScheduled (delayedAckTimer (alg_state c))) (\<lambda>scheduled.
                if \<not> scheduled then on_delayedAckTimer (scheduleAfter (sim_now c) DELAYED_ACK_TIMEOUT) c
                else Inr c))"

definition base_receiveSeqChanged :: "('d, 'x) base_callbacks \<Rightarrow> ('d, 'x) base_conn \<Rightarrow>
    err + ('d, 'x) base_conn" where
  "base_receiveSeqChanged cb c =
     (let s = state c
      in if full_sized_segment_counter s = 0 \<and> \<not> ack_now s \<and> last_ack_sent s = rcv_nxt s
         then ebind (isScheduled (delayedAckTimer (alg_state c))) (\<lambda>scheduled.
                if \<not> scheduled then Inr c else delayed_ack cb c)
         else delayed_ack cb c)"

text \<open>
  The end of a running measurement, without the timestamp option. (\<open>rtseq_sendtime\<close> 0 means that none
  runs.)
\<close>

definition measure_rtt :: "(simtime \<Rightarrow> simtime) \<Rightarrow> ('d, 'x) base_conn \<Rightarrow> ('d, 'x) base_conn" where
  "measure_rtt eighth c =
     (if \<not> ts_enabled (state c) \<and> rtseq_sendtime (alg_state c) \<noteq> 0 \<and>
         seqLess (rtseq (alg_state c)) (snd_una (state c))
      then set_alg (rtseq_sendtime_update (\<lambda>_. 0))
             (rttMeasurementComplete eighth (rtseq_sendtime (alg_state c)) (sim_now c) c)
      else c)"

definition rexmit_after_ack :: "('d, 'x) base_conn \<Rightarrow> err + ('d, 'x) base_conn" where
  "rexmit_after_ack c =
     (if snd_una (state c) = snd_max (state c) then
        ebind (isScheduled (rexmitTimer (alg_state c))) (\<lambda>scheduled.
          if scheduled then on_rexmitTimer cancelEvent c else Inr c)
      else ebind (on_rexmitTimer cancelEvent c) startRexmitTimer)"

definition stopPersist :: "('d, 'x) base_conn \<Rightarrow> err + ('d, 'x) base_conn" where
  "stopPersist c = ebind (on_persistTimer cancelEvent c) (\<lambda>c.
     Inr (set_alg (persist_factor_update (\<lambda>_. 0)) c))"

definition persist_after_ack :: "('d, 'x) base_conn \<Rightarrow> err + ('d, 'x) base_conn" where
  "persist_after_ack c =
     (if snd_wnd (state c) = 0 then
        ebind (isScheduled (rexmitTimer (alg_state c))) (\<lambda>rexmitting.
        ebind (isScheduled (persistTimer (alg_state c))) (\<lambda>persisting.
          if rexmitting \<and> persisting then stopPersist c
          else if \<not> rexmitting \<and> \<not> persisting then schedulePersist c
          else Inr c))
      else ebind (isScheduled (persistTimer (alg_state c))) (\<lambda>persisting.
             if persisting then stopPersist c else Inr c))"

definition base_receivedDataAck :: "(simtime \<Rightarrow> simtime) \<Rightarrow> ('d, 'x) base_conn \<Rightarrow> err + ('d, 'x) base_conn" where
  "base_receivedDataAck eighth c = ebind (rexmit_after_ack (measure_rtt eighth c)) persist_after_ack"

text \<open>Limited Transmit (RFC 3042).\<close>

definition base_receivedDuplicateAck :: "('d, 'x) base_callbacks \<Rightarrow> ('d, 'x) base_conn \<Rightarrow>
    err + ('d, 'x) base_conn" where
  "base_receivedDuplicateAck cb c =
     (let s = state c; fullSegmentsOnly = (nagle_enabled s \<and> snd_una s \<noteq> snd_max s)
      in if dupacks s < dupthresh s \<and> limited_transmit_enabled s
         then sendOneNewSegment cb fullSegmentsOnly (snd_cwnd (alg_state c)) c
         else Inr c)"

section \<open>Callbacks\<close>

definition base_ackSent :: "('d, 'x) base_conn \<Rightarrow> err + ('d, 'x) base_conn" where
  "base_ackSent c =
     (let c = c\<lparr>state := (state c)\<lparr>full_sized_segment_counter := 0, ack_now := False,
                last_ack_sent := rcv_nxt (state c)\<rparr>\<rparr>
      in ebind (isScheduled (delayedAckTimer (alg_state c))) (\<lambda>scheduled.
           if scheduled then on_delayedAckTimer cancelEvent c else Inr c))"

definition base_dataSent :: "u32 \<Rightarrow> ('d, 'x) base_conn \<Rightarrow> err + ('d, 'x) base_conn" where
  "base_dataSent fromseq c =
     ebind (isScheduled (rexmitTimer (alg_state c))) (\<lambda>scheduled.
     ebind (if \<not> scheduled then startRexmitTimer c else Inr c) (\<lambda>c.
       let c = (if \<not> ts_enabled (state c) \<and> rtseq_sendtime (alg_state c) = 0
                then set_alg (\<lambda>a. a\<lparr>rtseq := fromseq, rtseq_sendtime := sim_now c\<rparr>) c else c)
       in Inr (c\<lparr>state := (state c)\<lparr>time_last_data_sent := sim_now c\<rparr>\<rparr>)))"

definition base_shouldMarkAck :: "('d, 'z) conn_scheme \<Rightarrow> bool \<times> ('d, 'z) conn_scheme" where
  "base_shouldMarkAck c =
     (if ect (state c) then
        let s = state c;
            s = (if gotCeIndication s then s\<lparr>ecnEchoState := True, gotCeIndication := False\<rparr> else s)
        in (ecnEchoState s, c\<lparr>state := s\<rparr>)
      else (False, c))"

definition base_callbacks :: "('d, 'x) base_callbacks" where
  "base_callbacks = \<lparr>alg_ackSent = base_ackSent, alg_dataSent = base_dataSent,
     alg_segmentRetransmitted = (\<lambda>_ _. Inr), alg_restartRexmitTimer = base_restartRexmitTimer,
     alg_shouldMarkAck = base_shouldMarkAck\<rparr>"

section \<open>The contract\<close>

text \<open>The four timer messages exist.\<close>

definition base_ok :: "'x base_state_scheme \<Rightarrow> bool" where
  "base_ok a = (rexmitTimer a \<noteq> NoTimer \<and> persistTimer a \<noteq> NoTimer \<and> delayedAckTimer a \<noteq> NoTimer \<and>
     keepAliveTimer a \<noteq> NoTimer)"

definition base_upd :: "('x base_state_scheme \<Rightarrow> 'x base_state_scheme) \<Rightarrow> bool" where
  "base_upd f = (\<forall>a. base_ok a \<longrightarrow> base_ok (f a))"

lemma set_alg_kept [control_rules]: "kept base_ok c x \<Longrightarrow> base_upd f \<Longrightarrow> kept base_ok c (set_alg f x)"
  by (simp add: kept_def same_control_def same_socket_def base_upd_def)

lemma base_upd_rules [control_rules]:
  "base_upd (rexmit_count_update f0)" "base_upd (rexmit_timeout_update f1)"
  "base_upd (persist_factor_update f2)" "base_upd (snd_cwnd_update f2)"
  "base_upd (rtseq_sendtime_update f1)" "base_upd (recover_update f2)" "base_upd (firstPartialACK_update f3)"
  "base_upd persist_update" "base_upd (rtt_update e n)" "base_upd (\<lambda>a. a\<lparr>rtseq := m, rtseq_sendtime := t\<rparr>)"
  "base_upd (\<lambda>a. a\<lparr>rtseq_sendtime := t, numRtos := numRtos a + 1\<rparr>)"
  by (simp_all add: base_upd_def base_ok_def persist_update_def rtt_update_def Let_def)

lemma set_timer_kept [control_rules]:
  "kept base_ok c x \<Longrightarrow> t \<noteq> NoTimer \<Longrightarrow> kept base_ok c (set_rexmitTimer t x)"
  "kept base_ok c x \<Longrightarrow> t \<noteq> NoTimer \<Longrightarrow> kept base_ok c (set_persistTimer t x)"
  "kept base_ok c x \<Longrightarrow> t \<noteq> NoTimer \<Longrightarrow> kept base_ok c (set_delayedAckTimer t x)"
  "kept base_ok c x \<Longrightarrow> t \<noteq> NoTimer \<Longrightarrow> kept base_ok c (set_keepAliveTimer t x)"
  by (simp_all add: set_rexmitTimer_def set_persistTimer_def set_delayedAckTimer_def set_keepAliveTimer_def
      kept_def same_control_def same_socket_def base_ok_def)

text \<open>The kernel's calls return a timer for a timer.\<close>

definition timer_call :: "(timer \<Rightarrow> err + timer) \<Rightarrow> bool" where
  "timer_call f = (\<forall>t. t \<noteq> NoTimer \<longrightarrow> safe (\<lambda>t'. t' \<noteq> NoTimer) (f t))"

lemma timer_calls [control_rules]: "timer_call cancelEvent" "timer_call (scheduleAfter now d)"
  by (auto simp: timer_call_def scheduleAfter_def split: timer.split)

lemma timer_callD: "timer_call f \<Longrightarrow> t \<noteq> NoTimer \<Longrightarrow> (\<And>t'. t' \<noteq> NoTimer \<Longrightarrow> P t') \<Longrightarrow> safe P (f t)"
  unfolding timer_call_def by (rule safe_mono [of "\<lambda>t'. t' \<noteq> NoTimer"]) auto

lemma kept_timers:
  "kept base_ok c x \<Longrightarrow> rexmitTimer (alg_state x) \<noteq> NoTimer"
  "kept base_ok c x \<Longrightarrow> persistTimer (alg_state x) \<noteq> NoTimer"
  "kept base_ok c x \<Longrightarrow> delayedAckTimer (alg_state x) \<noteq> NoTimer"
  "kept base_ok c x \<Longrightarrow> keepAliveTimer (alg_state x) \<noteq> NoTimer"
  by (simp_all add: kept_def base_ok_def)

lemma on_timer_kept [control_rules]:
  assumes k: "kept base_ok c x" and f: "timer_call f"
  shows "safe (kept base_ok c) (on_rexmitTimer f x)" and "safe (kept base_ok c) (on_persistTimer f x)"
    and "safe (kept base_ok c) (on_delayedAckTimer f x)" and "safe (kept base_ok c) (on_keepAliveTimer f x)"
  unfolding on_rexmitTimer_def on_persistTimer_def on_delayedAckTimer_def on_keepAliveTimer_def safe_simps(2,3)
  by (rule timer_callD [OF f]; simp add: set_timer_kept [OF k] kept_timers [OF k])+

text \<open>Asking a timer that exists.\<close>

lemma scheduled_no_null:
  "kept base_ok c x \<Longrightarrow> no_null (isScheduled (rexmitTimer (alg_state x)))"
  "kept base_ok c x \<Longrightarrow> no_null (isScheduled (persistTimer (alg_state x)))"
  "kept base_ok c x \<Longrightarrow> no_null (isScheduled (delayedAckTimer (alg_state x)))"
  by (rule timer_rules(4), erule kept_timers)+

lemma scheduled_bind [control_rules]:
  "kept base_ok c x \<Longrightarrow> (\<And>b. safe (kept base_ok c) (g b)) \<Longrightarrow>
    safe (kept base_ok c) (ebind (isScheduled (rexmitTimer (alg_state x))) g)"
  "kept base_ok c x \<Longrightarrow> (\<And>b. safe (kept base_ok c) (g b)) \<Longrightarrow>
    safe (kept base_ok c) (ebind (isScheduled (persistTimer (alg_state x))) g)"
  "kept base_ok c x \<Longrightarrow> (\<And>b. safe (kept base_ok c) (g b)) \<Longrightarrow>
    safe (kept base_ok c) (ebind (isScheduled (delayedAckTimer (alg_state x))) g)"
  by (rule no_null_bind; (erule scheduled_no_null)?; blast)+

lemma schedule_rules [control_rules]:
  "kept base_ok c x \<Longrightarrow> safe (kept base_ok c) (scheduleRexmit x)"
  "kept base_ok c x \<Longrightarrow> safe (kept base_ok c) (schedulePersist x)"
  "kept base_ok c x \<Longrightarrow> safe (kept base_ok c) (stopPersist x)"
  unfolding scheduleRexmit_def schedulePersist_def stopPersist_def by (intro control_rules; assumption)+

lemma startRexmitTimer_rule [control_rules]: "kept base_ok c x \<Longrightarrow> safe (kept base_ok c) (startRexmitTimer x)"
  unfolding startRexmitTimer_def by (intro control_rules)

lemma own_rules [control_rules]:
  "kept base_ok c x \<Longrightarrow> safe (kept base_ok c) (base_restartRexmitTimer x)"
  "kept base_ok c x \<Longrightarrow> safe (kept base_ok c) (rexmit_after_ack x)"
  "kept base_ok c x \<Longrightarrow> safe (kept base_ok c) (persist_after_ack x)"
  "kept base_ok c x \<Longrightarrow> safe (kept base_ok c) (base_ackSent x)"
  "kept base_ok c x \<Longrightarrow> safe (kept base_ok c) (base_dataSent n x)"
  "kept base_ok c x \<Longrightarrow> kept base_ok c (measure_rtt e x)"
  "kept base_ok c x \<Longrightarrow> kept base_ok c (restart_window x)"
  "kept base_ok c x \<Longrightarrow> kept base_ok c (forget_sacks x)"
  unfolding base_restartRexmitTimer_def rexmit_after_ack_def persist_after_ack_def base_ackSent_def
    base_dataSent_def measure_rtt_def rttMeasurementComplete_def restart_window_def forget_sacks_def Let_def
  by (intro control_rules null_rules; assumption)+

lemma base_shouldMarkAck_kept: "kept ok c x \<Longrightarrow> kept ok c (snd (base_shouldMarkAck x))"
  by (auto simp: base_shouldMarkAck_def Let_def kept_def same_control_def same_socket_def)

lemma base_rules [control_rules]:
  "kept base_ok c x \<Longrightarrow> safe (kept base_ok c) (base_receivedDataAck e x)"
  "kept base_ok c x \<Longrightarrow> safe (kept base_ok c) (base_rttMeasurementCompleteUsingTS e n x)"
  "kept base_ok c x \<Longrightarrow> safe (\<lambda>(a, y). kept base_ok c y) (base_processRexmitTimer x)"
  unfolding base_receivedDataAck_def base_rttMeasurementCompleteUsingTS_def base_processRexmitTimer_def
    rttMeasurementComplete_def
  by (intro control_rules null_rules; assumption)+

interpretation base_cb: keeps_control base_callbacks base_ok
  by unfold_locales (simp_all add: base_callbacks_def own_rules(1,4,5) base_shouldMarkAck_kept)

text \<open>With callbacks that keep the control state, the functions that send keep it, too.\<close>

lemma base_sending_rules:
  assumes cb: "keeps_control cb base_ok"
  shows "kept base_ok c x \<Longrightarrow> safe (\<lambda>(a, y). kept base_ok c y) (base_sendData cb x)"
    and "kept base_ok c x \<Longrightarrow> safe (kept base_ok c) (base_sendCommandInvoked cb x)"
    and "kept base_ok c x \<Longrightarrow> safe (kept base_ok c) (base_established cb b x)"
    and "kept base_ok c x \<Longrightarrow> safe (\<lambda>(a, y). kept base_ok c y) (base_processPersistTimer cb x)"
    and "kept base_ok c x \<Longrightarrow> safe (\<lambda>(a, y). kept base_ok c y) (base_processDelayedAckTimer cb x)"
    and "kept base_ok c x \<Longrightarrow> safe (kept base_ok c) (base_receivedOutOfOrderSegment cb x)"
    and "kept base_ok c x \<Longrightarrow> safe (kept base_ok c) (base_receiveSeqChanged cb x)"
    and "kept base_ok c x \<Longrightarrow> safe (kept base_ok c) (base_receivedDuplicateAck cb x)"
proof -
  note r = keeps_control.control_segment_rules [OF cb] keeps_control.data_rules [OF cb]
    keeps_control.recovery_rules [OF cb]
  show d: "kept base_ok c x \<Longrightarrow> safe (\<lambda>(a, y). kept base_ok c y) (base_sendData cb x)" for x
    unfolding base_sendData_def by (intro control_rules null_rules r)
  show "kept base_ok c x \<Longrightarrow> safe (kept base_ok c) (base_sendCommandInvoked cb x)"
    unfolding base_sendCommandInvoked_def by (intro d control_rules null_rules r)
  show "kept base_ok c x \<Longrightarrow> safe (kept base_ok c) (base_established cb b x)"
    unfolding base_established_def by (intro d control_rules null_rules r)
  show "kept base_ok c x \<Longrightarrow> safe (\<lambda>(a, y). kept base_ok c y) (base_processPersistTimer cb x)"
    unfolding base_processPersistTimer_def by (intro control_rules null_rules r)
  show "kept base_ok c x \<Longrightarrow> safe (\<lambda>(a, y). kept base_ok c y) (base_processDelayedAckTimer cb x)"
    unfolding base_processDelayedAckTimer_def by (intro control_rules null_rules r)
  show "kept base_ok c x \<Longrightarrow> safe (kept base_ok c) (base_receivedOutOfOrderSegment cb x)"
    unfolding base_receivedOutOfOrderSegment_def by (intro control_rules null_rules r)
  have da: "kept base_ok c x \<Longrightarrow> safe (kept base_ok c) (delayed_ack cb x)" for x
    unfolding delayed_ack_def by (intro control_rules null_rules r)
  show "kept base_ok c x \<Longrightarrow> safe (kept base_ok c) (base_receiveSeqChanged cb x)"
    unfolding base_receiveSeqChanged_def by (intro da control_rules null_rules r)
  show "kept base_ok c x \<Longrightarrow> safe (kept base_ok c) (base_receivedDuplicateAck cb x)"
    unfolding base_receivedDuplicateAck_def by (intro control_rules null_rules r)
qed

lemma base_processTimer_kept:
  assumes cb: "keeps_control cb base_ok" and k: "kept base_ok c x"
    and r: "\<And>x. kept base_ok c x \<Longrightarrow> safe (\<lambda>(a, y). kept base_ok c y) (processRexmit x)"
  shows "safe (\<lambda>(a, y). kept base_ok c y) (base_processTimer cb processRexmit name x)"
proof -
  have i: "Idle \<noteq> NoTimer" by simp
  show ?thesis
    unfolding base_processTimer_def
    by (intro base_sending_rules(4,5) [OF cb] r control_rules null_rules k i)
qed

lemma base_connectionClosed_returns:
  "base_ok (alg_state x) \<Longrightarrow> \<exists>y. base_connectionClosed x = Inr y \<and> kept base_ok x y"
  by (auto simp: base_connectionClosed_def on_rexmitTimer_def on_persistTimer_def on_delayedAckTimer_def
      on_keepAliveTimer_def set_rexmitTimer_def set_persistTimer_def set_delayedAckTimer_def
      set_keepAliveTimer_def base_ok_def kept_def same_control_def same_socket_def)

lemma base_initialize_ok: "safe (\<lambda>y. same_control x y \<and> base_ok (alg_state y)) (base_initialize z x)"
  by (simp add: base_initialize_def base_ok_def base_new_def base_state.defs same_control_def same_socket_def)

end
