(* ===== verification/TcpFlavours.thy ===== *)
theory TcpFlavours
  imports TcpBaseAlg
begin

text \<open>
  The congestion controls built on \<open>TcpBaseAlg\<close>: \<open>TcpTahoe\<close>, \<open>TcpReno\<close>, \<open>TcpNewReno\<close> (with the common
  \<open>TcpTahoeRenoFamily\<close>) and \<open>TcpNoCongestionControl\<close>. All of them meet the contract \<open>congestion_control\<close>.
\<close>

section \<open>The family\<close>

record family_state = base_state +
  ssthresh :: u32

type_synonym 'd family_conn = "('d, family_state) conn_scheme"

type_synonym 'd family_callbacks = "'d family_conn tcp_callbacks"

text \<open>\<open>initialSsthresh\<close> is the module parameter.\<close>

definition family_initialize :: "u32 \<Rightarrow> 'd family_conn \<Rightarrow> err + 'd family_conn" where
  "family_initialize initialSsthresh = base_initialize \<lparr>ssthresh = initialSsthresh\<rparr>"

definition set_cwnd :: "u32 \<Rightarrow> ('d, 'x) base_conn \<Rightarrow> ('d, 'x) base_conn" where
  "set_cwnd w = set_alg (snd_cwnd_update (\<lambda>_. w))"

text \<open>The flight size is taken to be the smaller of the two windows.\<close>

definition recalculateSlowStartThreshold :: "'d family_conn \<Rightarrow> 'd family_conn" where
  "recalculateSlowStartThreshold c =
     (let flight_size = min (snd_cwnd (alg_state c)) (snd_wnd (state c))
      in set_alg (ssthresh_update (\<lambda>_. max (flight_size div 2) (2 * snd_mss (state c)))) c)"

text \<open>Slow start, or congestion avoidance; the division fails for an empty window.\<close>

definition grow_cwnd :: "'d family_conn \<Rightarrow> err + 'd family_conn" where
  "grow_cwnd c =
     (let w = snd_cwnd (alg_state c); smss = snd_mss (state c)
      in if w < ssthresh (alg_state c) then Inr (set_cwnd (w + smss) c)
         else if w = 0 then Inl (RuntimeError ''integer division by zero'')
         else let incr = smss * smss div w
              in Inr (set_cwnd (w + (if incr = 0 then 1 else incr)) c))"

text \<open>Back to slow start after a retransmission timeout.\<close>

definition restart_slow_start :: "'d family_callbacks \<Rightarrow> 'd family_conn \<Rightarrow> err + 'd family_conn" where
  "restart_slow_start cb c =
     (let c = set_cwnd (snd_mss (state c)) (recalculateSlowStartThreshold c)
      in retransmitOneSegment cb True (c\<lparr>state := (state c)\<lparr>afterRto := True\<rparr>\<rparr>))"

definition family_processRexmitTimer :: "'d family_callbacks \<Rightarrow> 'd family_conn \<Rightarrow>
    err + (tcp_event \<times> 'd family_conn)" where
  "family_processRexmitTimer cb c =
     ebind (base_processRexmitTimer c) (\<lambda>(event, c).
       if event = TCP_E_ABORT then Inr (event, c)
       else ebind (restart_slow_start cb c) (\<lambda>c. Inr (event, c)))"

section \<open>Tahoe\<close>

definition tahoe_receivedDataAck :: "(simtime \<Rightarrow> simtime) \<Rightarrow> 'd family_callbacks \<Rightarrow> 'd family_conn \<Rightarrow>
    err + 'd family_conn" where
  "tahoe_receivedDataAck eighth cb c =
     ebind (base_receivedDataAck eighth c) (\<lambda>c. ebind (grow_cwnd c) (base_sendCommandInvoked cb))"

definition tahoe_receivedDuplicateAck :: "'d family_callbacks \<Rightarrow> 'd family_conn \<Rightarrow> err + 'd family_conn" where
  "tahoe_receivedDuplicateAck cb c =
     ebind (base_receivedDuplicateAck cb c) (\<lambda>c.
       if dupacks (state c) = dupthresh (state c)
       then retransmitOneSegment cb False (set_cwnd (snd_mss (state c)) (recalculateSlowStartThreshold c))
       else Inr c)"

section \<open>Reno\<close>

text \<open>The reaction to an ECN-Echo, once per round-trip time; the result is whether the window may grow.\<close>

definition halve_cwnd :: "'d family_callbacks \<Rightarrow> 'd family_conn \<Rightarrow> err + 'd family_conn" where
  "halve_cwnd cb c =
     (let w = snd_cwnd (alg_state c);
          c = set_cwnd (max (w div 2) 1) (set_alg (ssthresh_update (\<lambda>_. w div 2)) c);
          c = c\<lparr>state := (state c)\<lparr>sndCwr := True\<rparr>\<rparr>
      in ebind (if snd_cwnd (alg_state c) = 1 then alg_restartRexmitTimer cb c else Inr c) (\<lambda>c.
           Inr (c\<lparr>state := (state c)\<lparr>eceReactionTime := sim_now c\<rparr>\<rparr>)))"

definition reno_ecn :: "'d family_callbacks \<Rightarrow> 'd family_conn \<Rightarrow> err + (bool \<times> 'd family_conn)" where
  "reno_ecn cb c =
     (if ect (state c) \<and> gotEce (state c) then
        let react = sim_now c - eceReactionTime (state c) > srtt (alg_state c)
        in ebind (if react then halve_cwnd cb c else Inr c) (\<lambda>c.
             Inr (\<not> react, c\<lparr>state := (state c)\<lparr>gotEce := False\<rparr>\<rparr>))
      else Inr (True, c))"

text \<open>Step (C) of RFC 3517; the bound on the number of segments is that of the signed comparison.\<close>

definition fill_pipe :: "'d family_callbacks \<Rightarrow> 'd family_conn \<Rightarrow> err + 'd family_conn" where
  "fill_pipe cb c =
     (if sint (snd_cwnd (alg_state c)) - sint (pipe (state c)) \<ge> sint (snd_mss (state c))
      then sendDataDuringLossRecoveryPhase (2 ^ 32) cb (snd_cwnd (alg_state c)) c else Inr c)"

definition reno_recovery :: "'d family_callbacks \<Rightarrow> 'd family_conn \<Rightarrow> err + 'd family_conn" where
  "reno_recovery cb c =
     (if sack_enabled (state c) \<and> lossRecovery (state c) then
        if seqGE (snd_una (state c)) (recoveryPoint (state c))
        then Inr (c\<lparr>state := (state c)\<lparr>lossRecovery := False\<rparr>\<rparr>)
        else ebind (setPipe c) (fill_pipe cb)
      else Inr c)"

definition reno_receivedDataAck :: "(simtime \<Rightarrow> simtime) \<Rightarrow> 'd family_callbacks \<Rightarrow> 'd family_conn \<Rightarrow>
    err + 'd family_conn" where
  "reno_receivedDataAck eighth cb c =
     ebind (base_receivedDataAck eighth c) (\<lambda>c.
     ebind (if dupacks (state c) \<ge> dupthresh (state c) then Inr (set_cwnd (ssthresh (alg_state c)) c)
            else ebind (reno_ecn cb c) (\<lambda>(performSsCa, c). if performSsCa then grow_cwnd c else Inr c)) (\<lambda>c.
     ebind (reno_recovery cb c) (base_sendCommandInvoked cb)))"

text \<open>RFC 3517: a loss recovery begins, unless the last one is still to be completed.\<close>

definition begin_recovery :: "('d, 'z) conn_scheme \<Rightarrow> ('d, 'z) conn_scheme" where
  "begin_recovery c =
     (let s = state c
      in if sack_enabled s \<and> (recoveryPoint s = 0 \<or> seqGE (snd_una s) (recoveryPoint s))
         then c\<lparr>state := s\<lparr>recoveryPoint := snd_max s, lossRecovery := True\<rparr>\<rparr> else c)"

definition reno_fast_retransmit :: "'d family_callbacks \<Rightarrow> 'd family_conn \<Rightarrow> err + 'd family_conn" where
  "reno_fast_retransmit cb c =
     (let c = recalculateSlowStartThreshold (begin_recovery c);
          c = set_cwnd (ssthresh (alg_state c) + 3 * snd_mss (state c)) c
      in ebind (retransmitOneSegment cb False c) (\<lambda>c.
         ebind (if sack_enabled (state c) then
                  ebind (setPipe c) (\<lambda>c.
                    if lossRecovery (state c) then ebind (alg_restartRexmitTimer cb c) (fill_pipe cb) else Inr c)
                else Inr c) (base_sendCommandInvoked cb)))"

definition reno_receivedDuplicateAck :: "'d family_callbacks \<Rightarrow> 'd family_conn \<Rightarrow> err + 'd family_conn" where
  "reno_receivedDuplicateAck cb c =
     ebind (base_receivedDuplicateAck cb c) (\<lambda>c.
       if dupacks (state c) = dupthresh (state c) then reno_fast_retransmit cb c
       else if dupacks (state c) > dupthresh (state c)
       then base_sendCommandInvoked cb (set_cwnd (snd_cwnd (alg_state c) + snd_mss (state c)) c)
       else Inr c)"

section \<open>NewReno\<close>

definition newReno_processRexmitTimer :: "'d family_callbacks \<Rightarrow> 'd family_conn \<Rightarrow>
    err + (tcp_event \<times> 'd family_conn)" where
  "newReno_processRexmitTimer cb c =
     ebind (base_processRexmitTimer c) (\<lambda>(event, c).
       if event = TCP_E_ABORT then Inr (event, c)
       else
         let c = set_alg (firstPartialACK_update (\<lambda>_. False)) (set_alg (recover_update (\<lambda>_. snd_max (state c) - 1)) c);
             c = c\<lparr>state := (state c)\<lparr>lossRecovery := False\<rparr>\<rparr>
         in ebind (restart_slow_start cb c) (\<lambda>c. Inr (event, c)))"

text \<open>An acknowledgment of everything up to \<open>recover\<close> ends the recovery.\<close>

definition full_ack :: "'d family_conn \<Rightarrow> 'd family_conn" where
  "full_ack c =
     (let flight_size = snd_max (state c) - snd_una (state c);
          c = set_cwnd (min (ssthresh (alg_state c)) (flight_size + snd_mss (state c))) c;
          c = c\<lparr>state := (state c)\<lparr>lossRecovery := False\<rparr>\<rparr>
      in set_alg (firstPartialACK_update (\<lambda>_. False)) c)"

definition partial_ack :: "'d family_callbacks \<Rightarrow> u32 \<Rightarrow> 'd family_conn \<Rightarrow> err + 'd family_conn" where
  "partial_ack cb firstSeqAcked c =
     ebind (retransmitOneSegment cb False c) (\<lambda>c.
       let acked = snd_una (state c) - firstSeqAcked;
           w = snd_cwnd (alg_state c) - acked;
           w = (if acked \<ge> snd_mss (state c) then w + snd_mss (state c) else w)
       in ebind (base_sendCommandInvoked cb (set_cwnd w c)) (\<lambda>c.
            if lossRecovery (state c) \<and> \<not> firstPartialACK (alg_state c)
            then alg_restartRexmitTimer cb (set_alg (firstPartialACK_update (\<lambda>_. True)) c)
            else Inr c))"

definition newReno_receivedDataAck :: "(simtime \<Rightarrow> simtime) \<Rightarrow> 'd family_callbacks \<Rightarrow> u32 \<Rightarrow> 'd family_conn \<Rightarrow>
    err + 'd family_conn" where
  "newReno_receivedDataAck eighth cb firstSeqAcked c =
     ebind (base_receivedDataAck eighth c) (\<lambda>c.
     ebind (if lossRecovery (state c) then
              if seqGE (snd_una (state c) - 1) (recover (alg_state c)) then Inr (full_ack c)
              else partial_ack cb firstSeqAcked c
            else ebind (grow_cwnd c) (\<lambda>c. Inr (set_alg (recover_update (\<lambda>_. snd_una (state c) - 2)) c)))
       (base_sendCommandInvoked cb))"

text \<open>Step 1A of RFC 3782; the test compares the sequence numbers as unsigned integers.\<close>

definition newReno_fast_retransmit :: "'d family_callbacks \<Rightarrow> 'd family_conn \<Rightarrow> err + 'd family_conn" where
  "newReno_fast_retransmit cb c =
     (let c = recalculateSlowStartThreshold c;
          c = set_alg (firstPartialACK_update (\<lambda>_. False)) (set_alg (recover_update (\<lambda>_. snd_max (state c) - 1)) c);
          c = c\<lparr>state := (state c)\<lparr>lossRecovery := True\<rparr>\<rparr>;
          c = set_cwnd (ssthresh (alg_state c) + 3 * snd_mss (state c)) c
      in ebind (retransmitOneSegment cb False c) (base_sendCommandInvoked cb))"

definition newReno_receivedDuplicateAck :: "'d family_callbacks \<Rightarrow> 'd family_conn \<Rightarrow> err + 'd family_conn" where
  "newReno_receivedDuplicateAck cb c =
     ebind (base_receivedDuplicateAck cb c) (\<lambda>c.
       if dupacks (state c) = dupthresh (state c) then
         if \<not> lossRecovery (state c) \<and> snd_una (state c) - 1 > recover (alg_state c)
         then newReno_fast_retransmit cb c else Inr c
       else if dupacks (state c) > dupthresh (state c) \<and> lossRecovery (state c)
       then base_sendCommandInvoked cb (set_cwnd (snd_cwnd (alg_state c) + snd_mss (state c)) c)
       else Inr c)"

section \<open>No congestion control\<close>

definition PRACTICALLY_INFINITE :: u32 where
  "PRACTICALLY_INFINITE = 0x7fffffff"

type_synonym 'd plain_conn = "('d, base_state) conn_scheme"

definition nocc_initialize :: "'d plain_conn \<Rightarrow> err + 'd plain_conn" where
  "nocc_initialize c = ebind (base_initialize () c) (\<lambda>c. Inr (set_cwnd PRACTICALLY_INFINITE c))"

definition nocc_sendData :: "'d plain_conn tcp_callbacks \<Rightarrow> 'd plain_conn \<Rightarrow> err + (bool \<times> 'd plain_conn)" where
  "nocc_sendData cb c = sendData cb (snd_cwnd (alg_state c)) c"

definition nocc_established :: "'d plain_conn tcp_callbacks \<Rightarrow> bool \<Rightarrow> 'd plain_conn \<Rightarrow> err + 'd plain_conn" where
  "nocc_established cb isActive c =
     (if isActive then ebind (nocc_sendData cb c) (\<lambda>(sent, c). if \<not> sent then sendAck cb c else Inr c)
      else Inr c)"

definition nocc_processRexmitTimer :: "'d plain_conn tcp_callbacks \<Rightarrow> 'd plain_conn \<Rightarrow>
    err + (tcp_event \<times> 'd plain_conn)" where
  "nocc_processRexmitTimer cb c =
     ebind (base_processRexmitTimer c) (\<lambda>(event, c).
       if event = TCP_E_ABORT then Inr (event, c)
       else ebind (retransmitOneSegment cb True c) (\<lambda>c.
            ebind (assert_that (snd_cwnd (alg_state c) = PRACTICALLY_INFINITE)) (\<lambda>_. Inr (event, c))))"

definition nocc_receivedDataAck :: "(simtime \<Rightarrow> simtime) \<Rightarrow> 'd plain_conn tcp_callbacks \<Rightarrow> 'd plain_conn \<Rightarrow>
    err + 'd plain_conn" where
  "nocc_receivedDataAck eighth cb c =
     ebind (base_receivedDataAck eighth c) (\<lambda>c.
     ebind (nocc_sendData cb c) (\<lambda>(_, c).
     ebind (assert_that (snd_cwnd (alg_state c) = PRACTICALLY_INFINITE)) (\<lambda>_. Inr c)))"

definition nocc_sendCommandInvoked :: "'d plain_conn tcp_callbacks \<Rightarrow> 'd plain_conn \<Rightarrow> err + 'd plain_conn" where
  "nocc_sendCommandInvoked cb c = ebind (nocc_sendData cb c) (\<lambda>(_, c). Inr c)"

section \<open>The algorithms\<close>

text \<open>The virtual functions of the family; a flavour overrides three of them.\<close>

definition family_algorithm :: "(simtime \<Rightarrow> simtime) \<Rightarrow> u32 \<Rightarrow>
    ('d family_conn \<Rightarrow> err + (tcp_event \<times> 'd family_conn)) \<Rightarrow> (u32 \<Rightarrow> 'd family_conn \<Rightarrow> err + 'd family_conn) \<Rightarrow>
    ('d family_conn \<Rightarrow> err + 'd family_conn) \<Rightarrow> 'd family_conn tcp_algorithm" where
  "family_algorithm eighth initialSsthresh processRexmitTimer receivedDataAck receivedDuplicateAck =
     \<lparr>alg_ackSent = base_ackSent, alg_dataSent = base_dataSent, alg_segmentRetransmitted = (\<lambda>_ _. Inr),
      alg_restartRexmitTimer = base_restartRexmitTimer, alg_shouldMarkAck = base_shouldMarkAck,
      alg_initialize = family_initialize initialSsthresh, alg_established = base_established base_callbacks,
      alg_connectionClosed = base_connectionClosed,
      alg_processTimer = base_processTimer base_callbacks processRexmitTimer,
      alg_sendCommandInvoked = base_sendCommandInvoked base_callbacks,
      alg_receivedOutOfOrderSegment = base_receivedOutOfOrderSegment base_callbacks,
      alg_receiveSeqChanged = base_receiveSeqChanged base_callbacks,
      alg_receivedDataAck = receivedDataAck, alg_receivedDuplicateAck = receivedDuplicateAck,
      alg_receivedAckForDataNotYetSent = (\<lambda>_. sendAck base_callbacks),
      alg_rttMeasurementCompleteUsingTS = base_rttMeasurementCompleteUsingTS eighth,
      alg_processEcnInEstablished = Inr\<rparr>"

definition tcpTahoe :: "(simtime \<Rightarrow> simtime) \<Rightarrow> u32 \<Rightarrow> 'd family_conn tcp_algorithm" where
  "tcpTahoe eighth initialSsthresh = family_algorithm eighth initialSsthresh
     (family_processRexmitTimer base_callbacks) (\<lambda>_. tahoe_receivedDataAck eighth base_callbacks)
     (tahoe_receivedDuplicateAck base_callbacks)"

definition tcpReno :: "(simtime \<Rightarrow> simtime) \<Rightarrow> u32 \<Rightarrow> 'd family_conn tcp_algorithm" where
  "tcpReno eighth initialSsthresh = family_algorithm eighth initialSsthresh
     (family_processRexmitTimer base_callbacks) (\<lambda>_. reno_receivedDataAck eighth base_callbacks)
     (reno_receivedDuplicateAck base_callbacks)"

definition tcpNewReno :: "(simtime \<Rightarrow> simtime) \<Rightarrow> u32 \<Rightarrow> 'd family_conn tcp_algorithm" where
  "tcpNewReno eighth initialSsthresh = family_algorithm eighth initialSsthresh
     (newReno_processRexmitTimer base_callbacks) (newReno_receivedDataAck eighth base_callbacks)
     (newReno_receivedDuplicateAck base_callbacks)"

definition tcpNoCongestionControl :: "(simtime \<Rightarrow> simtime) \<Rightarrow> 'd plain_conn tcp_algorithm" where
  "tcpNoCongestionControl eighth =
     \<lparr>alg_ackSent = base_ackSent, alg_dataSent = base_dataSent, alg_segmentRetransmitted = (\<lambda>_ _. Inr),
      alg_restartRexmitTimer = base_restartRexmitTimer, alg_shouldMarkAck = base_shouldMarkAck,
      alg_initialize = nocc_initialize, alg_established = nocc_established base_callbacks,
      alg_connectionClosed = base_connectionClosed,
      alg_processTimer = base_processTimer base_callbacks (nocc_processRexmitTimer base_callbacks),
      alg_sendCommandInvoked = nocc_sendCommandInvoked base_callbacks,
      alg_receivedOutOfOrderSegment = base_receivedOutOfOrderSegment base_callbacks,
      alg_receiveSeqChanged = base_receiveSeqChanged base_callbacks,
      alg_receivedDataAck = (\<lambda>_. nocc_receivedDataAck eighth base_callbacks),
      alg_receivedDuplicateAck = base_receivedDuplicateAck base_callbacks,
      alg_receivedAckForDataNotYetSent = (\<lambda>_. sendAck base_callbacks),
      alg_rttMeasurementCompleteUsingTS = base_rttMeasurementCompleteUsingTS eighth,
      alg_processEcnInEstablished = Inr\<rparr>"

section \<open>The contract\<close>

lemma ssthresh_upd [control_rules]: "base_upd (ssthresh_update f)"
  by (simp add: base_upd_def base_ok_def)

lemma family_updates [control_rules]:
  "kept base_ok c x \<Longrightarrow> kept base_ok c (set_cwnd w x)"
  "kept base_ok c x \<Longrightarrow> kept base_ok c (recalculateSlowStartThreshold x)"
  "kept ok c x \<Longrightarrow> kept ok c (begin_recovery x)"
  unfolding set_cwnd_def recalculateSlowStartThreshold_def begin_recovery_def Let_def
  by (intro control_rules; assumption)+

lemma family_updates2 [control_rules]:
  "kept base_ok c x \<Longrightarrow> kept base_ok c (full_ack x)"
  "kept base_ok c x \<Longrightarrow> safe (kept base_ok c) (grow_cwnd x)"
  unfolding full_ack_def grow_cwnd_def Let_def by (intro control_rules null_rules; assumption)+

lemmas sending_rules =
  keeps_control.callback_rules [OF base_cb.keeps_control_axioms]
  keeps_control.control_segment_rules [OF base_cb.keeps_control_axioms]
  keeps_control.data_rules [OF base_cb.keeps_control_axioms]
  keeps_control.retransmit_rules [OF base_cb.keeps_control_axioms]
  keeps_control.recovery_rules [OF base_cb.keeps_control_axioms]
  keeps_control.loss_recovery_rule [OF base_cb.keeps_control_axioms]
  base_sending_rules [OF base_cb.keeps_control_axioms]

lemma slow_start_kept [control_rules]:
  "kept base_ok c x \<Longrightarrow> safe (kept base_ok c) (restart_slow_start base_callbacks x)"
  unfolding restart_slow_start_def Let_def by (intro sending_rules control_rules null_rules)

lemma rexmit_kept [control_rules]:
  "kept base_ok c x \<Longrightarrow> safe (\<lambda>(a, y). kept base_ok c y) (family_processRexmitTimer base_callbacks x)"
  "kept base_ok c x \<Longrightarrow> safe (\<lambda>(a, y). kept base_ok c y) (newReno_processRexmitTimer base_callbacks x)"
  "kept base_ok p z \<Longrightarrow> safe (\<lambda>(a, y). kept base_ok p y) (nocc_processRexmitTimer base_callbacks z)"
  unfolding family_processRexmitTimer_def newReno_processRexmitTimer_def nocc_processRexmitTimer_def
  by (intro sending_rules control_rules null_rules; assumption)+

lemma tahoe_kept [control_rules]:
  "kept base_ok c x \<Longrightarrow> safe (kept base_ok c) (tahoe_receivedDataAck e base_callbacks x)"
  "kept base_ok c x \<Longrightarrow> safe (kept base_ok c) (tahoe_receivedDuplicateAck base_callbacks x)"
  unfolding tahoe_receivedDataAck_def tahoe_receivedDuplicateAck_def
  by (intro sending_rules control_rules null_rules; assumption)+

lemma reno_steps [control_rules]:
  "kept base_ok c x \<Longrightarrow> safe (kept base_ok c) (halve_cwnd base_callbacks x)"
  "kept base_ok c x \<Longrightarrow> safe (kept base_ok c) (fill_pipe base_callbacks x)"
  unfolding halve_cwnd_def fill_pipe_def
  by (intro sending_rules control_rules null_rules; assumption)+

lemma reno_steps2 [control_rules]:
  "kept base_ok c x \<Longrightarrow> safe (\<lambda>(a, y). kept base_ok c y) (reno_ecn base_callbacks x)"
  "kept base_ok c x \<Longrightarrow> safe (kept base_ok c) (reno_recovery base_callbacks x)"
  "kept base_ok c x \<Longrightarrow> safe (kept base_ok c) (reno_fast_retransmit base_callbacks x)"
  unfolding reno_ecn_def reno_recovery_def reno_fast_retransmit_def
  by (intro sending_rules control_rules null_rules; assumption)+

lemma reno_kept [control_rules]:
  "kept base_ok c x \<Longrightarrow> safe (kept base_ok c) (reno_receivedDataAck e base_callbacks x)"
  "kept base_ok c x \<Longrightarrow> safe (kept base_ok c) (reno_receivedDuplicateAck base_callbacks x)"
  unfolding reno_receivedDataAck_def reno_receivedDuplicateAck_def
  by (intro sending_rules control_rules null_rules; assumption)+

lemma newReno_steps [control_rules]:
  "kept base_ok c x \<Longrightarrow> safe (kept base_ok c) (partial_ack base_callbacks n x)"
  "kept base_ok c x \<Longrightarrow> safe (kept base_ok c) (newReno_fast_retransmit base_callbacks x)"
  unfolding partial_ack_def newReno_fast_retransmit_def
  by (intro sending_rules control_rules null_rules; assumption)+

lemma newReno_kept [control_rules]:
  "kept base_ok c x \<Longrightarrow> safe (kept base_ok c) (newReno_receivedDataAck e base_callbacks n x)"
  "kept base_ok c x \<Longrightarrow> safe (kept base_ok c) (newReno_receivedDuplicateAck base_callbacks x)"
  unfolding newReno_receivedDataAck_def newReno_receivedDuplicateAck_def
  by (intro sending_rules control_rules null_rules; assumption)+

lemma nocc_send [control_rules]:
  "kept base_ok c x \<Longrightarrow> safe (\<lambda>(a, y). kept base_ok c y) (nocc_sendData base_callbacks x)"
  unfolding nocc_sendData_def by (intro sending_rules control_rules null_rules)

lemma nocc_kept [control_rules]:
  "kept base_ok c x \<Longrightarrow> safe (kept base_ok c) (nocc_receivedDataAck e base_callbacks x)"
  "kept base_ok c x \<Longrightarrow> safe (kept base_ok c) (nocc_established base_callbacks b x)"
  "kept base_ok c x \<Longrightarrow> safe (kept base_ok c) (nocc_sendCommandInvoked base_callbacks x)"
  unfolding nocc_receivedDataAck_def nocc_established_def nocc_sendCommandInvoked_def
  by (intro sending_rules control_rules null_rules; assumption)+

lemma nocc_initialize_ok: "safe (\<lambda>y. same_control x y \<and> base_ok (alg_state y)) (nocc_initialize x)"
  by (simp add: nocc_initialize_def base_initialize_def base_ok_def base_new_def base_state.defs set_cwnd_def
      same_control_def same_socket_def)

text \<open>A flavour of the family meets the contract if its three functions keep the control state.\<close>

lemma family_contract:
  assumes "\<And>c x. kept base_ok c x \<Longrightarrow> safe (\<lambda>(a, y). kept base_ok c y) (processRexmit x)"
    and "\<And>c x n. kept base_ok c x \<Longrightarrow> safe (kept base_ok c) (dataAck n x)"
    and "\<And>c x. kept base_ok c x \<Longrightarrow> safe (kept base_ok c) (dupAck x)"
  shows "congestion_control (family_algorithm e s processRexmit dataAck dupAck) base_ok"
  using assms base_initialize_ok
  by unfold_locales
    (simp_all add: family_algorithm_def own_rules(1,4,5) base_shouldMarkAck_kept family_initialize_def sending_rules
      base_connectionClosed_returns base_processTimer_kept [OF base_cb.keeps_control_axioms] base_rules)

interpretation tahoe: congestion_control "tcpTahoe eighth initialSsthresh" base_ok for eighth initialSsthresh
  unfolding tcpTahoe_def by (rule family_contract) (intro control_rules, assumption)+

interpretation reno: congestion_control "tcpReno eighth initialSsthresh" base_ok for eighth initialSsthresh
  unfolding tcpReno_def by (rule family_contract) (intro control_rules, assumption)+

interpretation newReno: congestion_control "tcpNewReno eighth initialSsthresh" base_ok for eighth initialSsthresh
  unfolding tcpNewReno_def by (rule family_contract) (intro control_rules, assumption)+

interpretation nocc: congestion_control "tcpNoCongestionControl eighth" base_ok for eighth
  by unfold_locales
    (simp_all add: nocc_initialize_ok nocc_kept tcpNoCongestionControl_def own_rules(1,4,5) base_shouldMarkAck_kept sending_rules
      base_connectionClosed_returns base_processTimer_kept [OF base_cb.keeps_control_axioms] base_rules rexmit_kept(3))

end
