(* ===== verification/TcpRuns.thy ===== *)
theory TcpRuns
  imports DumbTcp TcpFlavours
begin

text \<open>
  What holds in every run of the TCP module, whatever the application, the network and the timers do:
  the facts of \<open>Tcp\<close> for the congestion controls that meet the contract.
\<close>

lemma reachable_new: "tcp_reachable alg (module_new params junk z atBack atFront)"
  unfolding tcp_reachable_def by blast

lemma opened_iff_live: "tcp_wf ok m \<Longrightarrow> conns m i = Some c \<Longrightarrow> opened c \<longleftrightarrow> live ok c"
  using tcp_wf_conn(3) [of ok m i c] by (auto simp: live_def unopened_def)

lemma wf_directory:
  assumes wf: "tcp_wf ok m"
  shows "tcpAppConnMap (tables m) s = Some i \<longleftrightarrow> (\<exists>c. conns m i = Some c \<and> socketId c = s)"
    and "tcpConnMap (tables m) k = Some i \<longleftrightarrow> (\<exists>c. conns m i = Some c \<and> opened c \<and> sock_pair_of c = k)"
proof -
  show "tcpAppConnMap (tables m) s = Some i \<longleftrightarrow> (\<exists>c. conns m i = Some c \<and> socketId c = s)"
    using tcp_wf_app [OF wf] tcp_wf_conn(2) [OF wf] by blast
  show "tcpConnMap (tables m) k = Some i \<longleftrightarrow> (\<exists>c. conns m i = Some c \<and> opened c \<and> sock_pair_of c = k)"
    using tcp_wf_pair [OF wf] tcp_wf_conn(3) [OF wf] opened_iff_live [OF wf] live_unopened by blast
qed

section \<open>The congestion controls\<close>

text \<open>The three flavours of the Tahoe-Reno family, for any rounding of the kernel and any initial threshold.\<close>

definition family :: "'d family_conn tcp_algorithm set" where
  "family = (\<Union>eighth initialSsthresh. {tcpTahoe eighth initialSsthresh, tcpReno eighth initialSsthresh,
     tcpNewReno eighth initialSsthresh})"

lemma family_contracts: "alg \<in> family \<Longrightarrow> congestion_control alg base_ok"
  by (auto simp: family_def intro: tahoe.congestion_control_axioms reno.congestion_control_axioms
      newReno.congestion_control_axioms)

lemma family_wf: "alg \<in> family \<Longrightarrow> tcp_reachable alg m \<Longrightarrow> tcp_wf base_ok m"
  by (auto simp: family_def intro: tahoe.reachable_wf reno.reachable_wf newReno.reachable_wf)

lemma family_no_null:
  assumes "alg \<in> family" and "tcp_wf base_ok m"
  shows "\<not> early_command sock cmd m \<Longrightarrow> handleUpperCommand alg sock cmd m \<noteq> Inl NullPointer"
    and "tcpAppConnMap (tables m) newSock = None \<Longrightarrow>
      handleLowerPacket alg newSock proto crc_ok ecn h d src dest m \<noteq> Inl NullPointer"
    and "conns m i = Some c \<Longrightarrow> pending tm c \<Longrightarrow> handleTimer alg i tm m \<noteq> Inl NullPointer"
  by (rule safe_not_null, erule congestion_control.command_wf [OF family_contracts [OF assms(1)] assms(2)],
      rule safe_not_null, erule congestion_control.segment_wf [OF family_contracts [OF assms(1)] assms(2)],
      rule safe_not_null, erule congestion_control.timer_wf [OF family_contracts [OF assms(1)] assms(2)])

section \<open>A concrete run\<close>

text \<open>With exact division rounded down for the kernel's product.\<close>

definition example_alg :: "nat family_conn tcp_algorithm" where
  "example_alg = tcpReno (\<lambda>t. t div 8) 0xFFFFFFFF"

lemma example_family: "example_alg \<in> family"
  by (auto simp: family_def example_alg_def)

definition example_module :: "(nat, family_state) tcp_module" where
  "example_module =
     module_new example_params (tcb_new 3) (base_state.extend base_new \<lparr>ssthresh = 0\<rparr>) (\<lambda>_ _. False) (\<lambda>_ _. False)"

text \<open>A forking listener on port 80.\<close>

definition listening_module :: "(nat, family_state) tcp_module" where
  "listening_module = (case handleUpperCommand example_alg 1 (OpenPassive Unspecified 80 True) example_module of
     Inr m \<Rightarrow> m | Inl _ \<Rightarrow> example_module)"

lemmas open_defs = example_module_def module_new_def handleUpperCommand_def connForApp_def findConnForApp_def
  tables_new_def createConnection_def initConnection_def conn.defs processAppCommand_def runCommand_def
  process_OPEN_PASSIVE_def initConnection_open_def configureStateVariables_def Let_def example_params_def
  tcb_new_def addSockPair_def sock_pair_of_def example_alg_def tcpReno_def family_algorithm_def family_initialize_def base_initialize_def
  preanalyseAppCommandEvent_def
  performStateTransition_def stateEntered_def fsm_defs settle_def TCP_MAX_WIN_def TCP_MAX_WIN_SCALED_def
  EPHEMERAL_PORTRANGE_START_def EPHEMERAL_PORTRANGE_END_def

lemma listening_step:
  "handleUpperCommand example_alg 1 (OpenPassive Unspecified 80 True) example_module = Inr listening_module"
  by (simp add: listening_module_def open_defs)

lemma listening_conn:
  "map_option (\<lambda>c. (fsm c, opened c, socketId c, sock_pair_of c)) (conns listening_module 0) =
     Some (TCP_S_LISTEN, True, 1, \<lparr>sp_localAddr = Unspecified, sp_remoteAddr = Unspecified, sp_localPort = 80,
       sp_remotePort = - 1\<rparr>)"
  by (simp add: listening_module_def open_defs)

lemma listening_reachable: "tcp_reachable example_alg listening_module"
proof -
  have "tcp_step example_alg example_module listening_module" using listening_step by (rule tcp_step.command)
  then show ?thesis unfolding tcp_reachable_def example_module_def by blast
qed

section \<open>Properties\<close>

text \<open>
  C1. In every run of the TCP module with \<open>TcpTahoe\<close>, \<open>TcpReno\<close> or \<open>TcpNewReno\<close> no operation goes through a null pointer, to an object
  that was not created yet or one that was deleted: not a segment, not a timer that was scheduled, and
  no application command, except ACCEPT, READ and DESTROY on a socket that was never opened.
\<close>

theorem tcp_follows_no_null:
  assumes "alg \<in> family" and "tcp_reachable alg m"
  shows "(\<not> early_command sock cmd m \<longrightarrow> handleUpperCommand alg sock cmd m \<noteq> Inl NullPointer) \<and>
    (tcpAppConnMap (tables m) newSock = None \<longrightarrow>
       handleLowerPacket alg newSock proto crc_ok ecn h d src dest m \<noteq> Inl NullPointer) \<and>
    (conns m i = Some c \<and> pending tm c \<longrightarrow> handleTimer alg i tm m \<noteq> Inl NullPointer)"
  using family_no_null [OF assms(1) family_wf [OF assms]] by blast

theorem tcp_follows_no_null_witness:
  "handleLowerPacket example_alg 7 Proto_tcp True 0
     (header_new\<lparr>synBit := True, srcPort := 1000, destPort := 80\<rparr>) [] (Address 1) (Address 2) listening_module \<noteq>
     Inl NullPointer \<and>
   handleUpperCommand example_alg 1 Destroy listening_module \<noteq> Inl NullPointer"
proof -
  have t: "tables listening_module = (tables example_module)
      \<lparr>tcpAppConnMap := [1 \<mapsto> 0], tcpConnMap := [\<lparr>sp_localAddr = Unspecified, sp_remoteAddr = Unspecified,
         sp_localPort = 80, sp_remotePort = - 1\<rparr> \<mapsto> 0]\<rparr>"
    by (simp add: listening_module_def open_defs)
  obtain c where "conns listening_module 0 = Some c" "opened c" using listening_conn by auto
  then have "\<not> early_command 1 Destroy listening_module" by (simp add: early_command_def findConnForApp_def t)
  moreover have "tcpAppConnMap (tables listening_module) 7 = None" by (simp add: t)
  ultimately show ?thesis using tcp_follows_no_null [OF example_family listening_reachable, where newSock = 7] by blast
qed

text \<open>
  C2. In every run the two tables of the module and the connection objects say the same: a socket id leads
  to the connection that has it, and a socket pair to the opened connection that is bound to it. So no two
  connections share a socket id, and no two opened connections a socket pair, also after a listener was
  bound to its peer, a connection was forked off or removed.
\<close>

theorem tcp_tables_match_connections:
  assumes "alg \<in> family" and "tcp_reachable alg m"
  shows "(tcpAppConnMap (tables m) s = Some i \<longleftrightarrow> (\<exists>c. conns m i = Some c \<and> socketId c = s)) \<and>
    (tcpConnMap (tables m) k = Some i \<longleftrightarrow> (\<exists>c. conns m i = Some c \<and> opened c \<and> sock_pair_of c = k))"
  using wf_directory [OF family_wf [OF assms]] by blast

theorem tcp_tables_match_connections_witness:
  "tcpAppConnMap (tables listening_module) 1 = Some 0 \<and>
   tcpConnMap (tables listening_module) \<lparr>sp_localAddr = Unspecified, sp_remoteAddr = Unspecified, sp_localPort = 80,
     sp_remotePort = - 1\<rparr> = Some 0"
  using tcp_tables_match_connections [OF example_family listening_reachable, of _ 0] listening_conn by auto

text \<open>
  C3. In every run an opened connection of the module is in a state between LISTEN and TIME_WAIT. Its 2MSL and
  FIN-WAIT-2 timer messages exist, and so do the four of the congestion control. The messages of the connection setup,
  CONN-ESTAB and SYN-REXMIT, exist together: always in LISTEN, SYN_SENT and SYN_RCVD, never in ESTABLISHED. In the states
  behind ESTABLISHED they exist or not, depending on how the connection got there; but there, as in ESTABLISHED, neither of
  them is scheduled.
\<close>

theorem tcp_timers_exist:
  assumes "alg \<in> family" and "tcp_reachable alg m" and "conns m i = Some c" and "opened c"
  shows "fsm c \<noteq> TCP_S_INIT \<and> fsm c \<noteq> TCP_S_CLOSED \<and> the2MSLTimer c \<noteq> NoTimer \<and> finWait2Timer c \<noteq> NoTimer \<and>
    (connEstabTimer c = NoTimer \<longleftrightarrow> synRexmitTimer c = NoTimer) \<and>
    (connecting (fsm c) \<longrightarrow> connEstabTimer c \<noteq> NoTimer) \<and>
    (fsm c = TCP_S_ESTABLISHED \<longrightarrow> connEstabTimer c = NoTimer) \<and>
    (\<not> connecting (fsm c) \<longrightarrow> \<not> armed (connEstabTimer c) \<and> \<not> armed (synRexmitTimer c)) \<and>
    rexmitTimer (alg_state c) \<noteq> NoTimer \<and> persistTimer (alg_state c) \<noteq> NoTimer \<and>
    delayedAckTimer (alg_state c) \<noteq> NoTimer \<and> keepAliveTimer (alg_state c) \<noteq> NoTimer"
proof -
  have "live base_ok c" using opened_iff_live [OF family_wf [OF assms(1,2)] assms(3)] assms(4) by simp
  then show ?thesis by (auto simp: live_def timers_wf_def base_ok_def)
qed

theorem tcp_timers_exist_witness:
  "\<exists>c. conns listening_module 0 = Some c \<and> fsm c = TCP_S_LISTEN \<and> connEstabTimer c \<noteq> NoTimer"
proof -
  obtain c where c: "conns listening_module 0 = Some c" "opened c" "fsm c = TCP_S_LISTEN"
    using listening_conn by auto
  then show ?thesis using tcp_timers_exist [OF example_family listening_reachable c(1,2)] by (auto simp: connecting_def)
qed

end
