(* ===== verification/TcpBackoff.thy ===== *)
theory TcpBackoff
  imports DumbTcp TcpFlavours
begin

text \<open>
  What the timers of the congestion controls do over time: the back-off of the retransmission timeout and the
  persist timer; and where the fast retransmit of NewReno fails.
\<close>

section \<open>Retransmission timeouts\<close>

text \<open>The REXMIT timer expires \<open>n\<close> times, with no acknowledgment in between.\<close>

definition rexmit_expires :: "('d, 'x) base_conn \<Rightarrow> err + (tcp_event \<times> ('d, 'x) base_conn)" where
  "rexmit_expires c = base_processRexmitTimer (set_rexmitTimer Idle c)"

primrec rexmit_expiries :: "nat \<Rightarrow> ('d, 'x) base_conn \<Rightarrow> err + ('d, 'x) base_conn" where
  "rexmit_expiries 0 c = Inr c"
| "rexmit_expiries (Suc n) c =
     ebind (rexmit_expiries n c) (\<lambda>c. ebind (rexmit_expires c) (\<lambda>(_, c). Inr c))"

lemma forget_sacks_frame [simp]:
  "alg_state (forget_sacks c) = alg_state c" "sim_now (forget_sacks c) = sim_now c"
  by (simp_all add: forget_sacks_def Let_def)

lemma rexmit_expires_step:
  assumes "rexmit_count (alg_state c) < 12"
  obtains c' where "rexmit_expires c = Inr (TCP_E_IGNORE, c')"
    and "rexmit_count (alg_state c') = rexmit_count (alg_state c) + 1"
    and "rexmit_timeout (alg_state c') = doubled_timeout (rexmit_timeout (alg_state c))"
    and "rexmitTimer (alg_state c') = Armed (sim_now c + rexmit_timeout (alg_state c'))"
    and "sim_now c' = sim_now c"
  using assms
  by (simp add: rexmit_expires_def base_processRexmitTimer_def scheduleRexmit_def on_rexmitTimer_def
      set_rexmitTimer_def MAX_REXMIT_COUNT_def Let_def)

lemma doubled_timeout_min: "doubled_timeout (min x MAX_REXMIT_TIMEOUT) = min (2 * x) MAX_REXMIT_TIMEOUT"
  by (auto simp: doubled_timeout_def min_def MAX_REXMIT_TIMEOUT_def sim_sec_def)

lemma doubled_timeout_power:
  "doubled_timeout (min (2 ^ n * t) MAX_REXMIT_TIMEOUT) = min (2 ^ Suc n * t) MAX_REXMIT_TIMEOUT"
  by (simp add: doubled_timeout_min mult.assoc)

lemma rexmit_expiries_result:
  assumes "rexmit_count (alg_state c) = 0" and "rexmit_timeout (alg_state c) \<le> MAX_REXMIT_TIMEOUT" and "n \<le> 12"
  shows "\<exists>c'. rexmit_expiries n c = Inr c' \<and> rexmit_count (alg_state c') = int n \<and>
    rexmit_timeout (alg_state c') = min (2 ^ n * rexmit_timeout (alg_state c)) MAX_REXMIT_TIMEOUT \<and>
    (0 < n \<longrightarrow> rexmitTimer (alg_state c') = Armed (sim_now c + rexmit_timeout (alg_state c'))) \<and>
    sim_now c' = sim_now c"
  using assms(3)
proof (induction n)
  case 0
  then show ?case using assms by simp
next
  case (Suc n)
  then obtain c1 where c1: "rexmit_expiries n c = Inr c1" "rexmit_count (alg_state c1) = int n"
    "rexmit_timeout (alg_state c1) = min (2 ^ n * rexmit_timeout (alg_state c)) MAX_REXMIT_TIMEOUT" "sim_now c1 = sim_now c"
    by auto
  obtain c2 where "rexmit_expires c1 = Inr (TCP_E_IGNORE, c2)"
    "rexmit_count (alg_state c2) = rexmit_count (alg_state c1) + 1"
    "rexmit_timeout (alg_state c2) = doubled_timeout (rexmit_timeout (alg_state c1))"
    "rexmitTimer (alg_state c2) = Armed (sim_now c1 + rexmit_timeout (alg_state c2))" "sim_now c2 = sim_now c1"
    using rexmit_expires_step [of c1] c1(2) Suc.prems by auto
  then show ?case using c1 doubled_timeout_power [of n] by simp
qed

section \<open>The congestion window\<close>

lemma set_cwnd_simps [simp]: "snd_cwnd (alg_state (set_cwnd w c)) = w"
  by (simp add: set_cwnd_def)

section \<open>Examples\<close>

definition base_example :: "(nat, base_state) conn_scheme" where
  "base_example = conn.extend (initConnection example_params 0 1 (tcb_new 3) (\<lambda>_ _. False) (\<lambda>_ _. False)) base_new"

lemma base_example_simps [simp]:
  "alg_state base_example = base_new" "state base_example = tcb_new 3" "sim_now base_example = 0"
  by (simp_all add: base_example_def initConnection_def conn.defs)

section \<open>Properties\<close>

text \<open>
  C19. Exponential back-off: when the REXMIT timer expires \<open>n\<close> times in a row (at most 12), the timeout is
  the first one times \<open>2^n\<close>, at most 240 seconds, and the timer is armed for that time; the thirteenth
  expiry aborts the connection and tells the application that it timed out.
\<close>

theorem rexmit_backoff:
  assumes "rexmit_count (alg_state c) = 0" and "rexmit_timeout (alg_state c) \<le> MAX_REXMIT_TIMEOUT" and "n \<le> 12"
  shows "\<exists>c'. rexmit_expiries n c = Inr c' \<and>
    rexmit_timeout (alg_state c') = min (2 ^ n * rexmit_timeout (alg_state c)) MAX_REXMIT_TIMEOUT \<and>
    (0 < n \<longrightarrow> rexmitTimer (alg_state c') = Armed (sim_now c + rexmit_timeout (alg_state c'))) \<and>
    (n = 12 \<longrightarrow> (\<exists>c''. rexmit_expires c' = Inr (TCP_E_ABORT, c'') \<and>
       outbox c'' = outbox c' @ [IndicationOut TCP_I_TIMED_OUT (socketId c') 0]))"
proof -
  obtain c' where c': "rexmit_expiries n c = Inr c'" "rexmit_count (alg_state c') = int n"
    "rexmit_timeout (alg_state c') = min (2 ^ n * rexmit_timeout (alg_state c)) MAX_REXMIT_TIMEOUT"
    "0 < n \<longrightarrow> rexmitTimer (alg_state c') = Armed (sim_now c + rexmit_timeout (alg_state c'))"
    using rexmit_expiries_result [OF assms] by auto
  have "n = 12 \<Longrightarrow> \<exists>c''. rexmit_expires c' = Inr (TCP_E_ABORT, c'') \<and>
      outbox c'' = outbox c' @ [IndicationOut TCP_I_TIMED_OUT (socketId c') 0]"
    using c'(2) by (simp add: rexmit_expires_def base_processRexmitTimer_def MAX_REXMIT_COUNT_def Let_def
        set_rexmitTimer_def sendIndicationToApp_def sendToApp_def)
  then show ?thesis using c' by blast
qed

theorem rexmit_backoff_witness:
  "\<exists>c'. rexmit_expiries 2 base_example = Inr c' \<and> rexmit_timeout (alg_state c') = 12 * sim_sec \<and>
     rexmitTimer (alg_state c') = Armed (12 * sim_sec)"
proof -
  have "min (2 ^ 2 * (3 * sim_sec)) MAX_REXMIT_TIMEOUT = 12 * sim_sec" "3 * sim_sec \<le> MAX_REXMIT_TIMEOUT"
    by (simp_all add: MAX_REXMIT_TIMEOUT_def sim_sec_def)
  then show ?thesis using rexmit_backoff [of base_example 2] by (auto simp: base_new_def)
qed

text \<open>
  C20. The persist timer leaves the bounds of 5 and 60 seconds that the comment claims: after \<open>n + 1\<close> probes
  the interval is 1.5 seconds times \<open>2^n\<close>, with \<open>n\<close> at most 6, that is 1.5, 3, 6, 12, 24, 48 and then 96
  seconds. The bounds are assigned to the retransmission timeout instead, which is set to 5 seconds while
  the interval is too small and to 60 while it is too large.
\<close>

theorem persist_timer_unbounded:
  assumes "persist_factor a = 0"
  shows "persist_timeout ((persist_update ^^ Suc n) a) = 3 * sim_sec * 2 ^ min n 6 div 2 \<and>
    (n \<le> 1 \<longrightarrow> rexmit_timeout ((persist_update ^^ Suc n) a) = 5 * sim_sec) \<and>
    (6 \<le> n \<longrightarrow> rexmit_timeout ((persist_update ^^ Suc n) a) = 60 * sim_sec)"
proof -
  have f: "persist_factor ((persist_update ^^ Suc n) a) = 2 ^ min n 6"
  proof (induction n)
    case 0
    then show ?case using assms by (simp add: persist_update_def next_persist_factor_def Let_def)
  next
    case (Suc n)
    have "next_persist_factor (2 ^ min n 6) = 2 ^ min (Suc n) 6"
    proof (cases "6 \<le> n")
      case False
      then have "n \<in> {0, 1, 2, 3, 4, 5}" by auto
      then show ?thesis by (auto simp: next_persist_factor_def)
    qed (simp add: next_persist_factor_def)
    then show ?case using Suc.IH by (simp add: persist_update_def Let_def)
  qed
  have u: "uint ((2 :: u32) ^ min n 6) = 2 ^ min n 6"
  proof -
    have "min n 6 \<in> {0, 1, 2, 3, 4, 5, 6}" by auto
    then show ?thesis by auto
  qed
  have g: "next_persist_factor (persist_factor ((persist_update ^^ n) a)) = 2 ^ min n 6"
    using f by (simp add: persist_update_def Let_def)
  have "persist_timeout ((persist_update ^^ Suc n) a) = 3 * sim_sec * 2 ^ min n 6 div 2"
    using g u by (simp add: persist_update_def Let_def mult.commute mult.left_commute)
  moreover have "n \<le> 1 \<Longrightarrow> rexmit_timeout ((persist_update ^^ Suc n) a) = 5 * sim_sec"
    using g u by (auto simp: persist_update_def Let_def le_Suc_eq sim_sec_def MIN_PERSIST_TIMEOUT_def MAX_PERSIST_TIMEOUT_def)
  moreover have "6 \<le> n \<Longrightarrow> rexmit_timeout ((persist_update ^^ Suc n) a) = 60 * sim_sec"
    using g u by (simp add: persist_update_def Let_def sim_sec_def MIN_PERSIST_TIMEOUT_def MAX_PERSIST_TIMEOUT_def)
  ultimately show ?thesis by simp
qed

theorem persist_timer_unbounded_witness:
  "persist_timeout ((persist_update ^^ 7) base_new) = 96 * sim_sec \<and>
   rexmit_timeout ((persist_update ^^ 7) base_new) = 60 * sim_sec"
  using persist_timer_unbounded [of base_new 6] by (simp add: base_new_def sim_sec_def)

definition family_example :: "(nat, family_state) conn_scheme" where
  "family_example = conn.extend (initConnection example_params 0 1 ((tcb_new 3)\<lparr>snd_mss := 1000\<rparr>) (\<lambda>_ _. False) (\<lambda>_ _. False))
     (base_state.extend (base_new\<lparr>snd_cwnd := 4000\<rparr>) \<lparr>ssthresh = 2000\<rparr>)"

text \<open>
  C21. NewReno compares sequence numbers as unsigned integers when it decides on a fast retransmit, so it
  fails around the wrap-around: if the acknowledged number \<open>snd_una - 1\<close> has wrapped and is beyond \<open>recover\<close> in
  sequence space but smaller as an integer, the third duplicate acknowledgment is ignored.
\<close>

theorem newReno_misses_fast_retransmit:
  assumes "dupacks (state c) = dupthresh (state c)" and "\<not> lossRecovery (state c)"
    and "seqGreater (snd_una (state c) - 1) (recover (alg_state c))" and "snd_una (state c) - 1 < recover (alg_state c)"
  shows "newReno_receivedDuplicateAck cb c = Inr c"
proof -
  have "\<not> recover (alg_state c) < snd_una (state c) - 1" using assms(4) by (simp add: not_less less_imp_le)
  then show ?thesis
    using assms(1-3) by (simp add: newReno_receivedDuplicateAck_def base_receivedDuplicateAck_def Let_def)
qed

theorem newReno_misses_fast_retransmit_witness:
  "newReno_receivedDuplicateAck base_callbacks
     (set_alg (recover_update (\<lambda>_. 0xFFFFFFFF)) (family_example\<lparr>state := (tcb_new 3)\<lparr>dupacks := 3, snd_una := 1\<rparr>\<rparr>)) =
   Inr (set_alg (recover_update (\<lambda>_. 0xFFFFFFFF)) (family_example\<lparr>state := (tcb_new 3)\<lparr>dupacks := 3, snd_una := 1\<rparr>\<rparr>))"
  by (rule newReno_misses_fast_retransmit) (simp_all add: tcb_new_def seqGreater_def)

text \<open>
  \<open>DumbTcp\<close> never cancels its timer: when all data has been acknowledged the REXMIT timer stays armed, and
  when it expires \<open>retransmitData\<close> fails its assertion that there is something to retransmit.
\<close>

theorem dumb_idle_timer_fails:
  assumes "dumb_timer c = Armed due" and "getBytesAvailable (snd_max (state c)) (sendQueue c) = 0"
    and "snd_una (state c) = snd_max (state c)" and "\<not> send_fin (state c)" and "\<not> afterRto (state c)"
  shows "\<exists>c'. alg_receivedDataAck dumbTcp firstSeqAcked c = Inr c' \<and> dumb_timer c' = Armed due \<and>
    dumb_processTimer ''REXMIT'' c' = Inl AssertFailed"
  using assms
  by (simp add: dumbTcp_def dumb_send_def sendData_def dumb_processTimer_def dumb_set_timer_def retransmitData_def
      mark_rexmit_def Let_def assert_that_def)

definition dumb_example :: "nat dumb_conn" where
  "dumb_example = conn.extend (initConnection example_params 0 1 (tcb_new 3) (\<lambda>_ _. False) (\<lambda>_ _. False))
     \<lparr>dumb_rexmitTimer = Armed (2 * sim_sec)\<rparr>"

theorem dumb_idle_timer_fails_witness:
  "\<exists>c'. alg_receivedDataAck dumbTcp 0 dumb_example = Inr c' \<and> dumb_timer c' = Armed (2 * sim_sec) \<and>
     dumb_processTimer ''REXMIT'' c' = Inl AssertFailed"
  by (rule dumb_idle_timer_fails) (simp_all add: dumb_example_def initConnection_def conn.defs tcb_new_def sendq_new_def getBytesAvailable_def seqLess_def)

end
