(* ===== verification/TcpRecovery.thy ===== *)
theory TcpRecovery
  imports TcpBackoff
begin

text \<open>
  Loss recovery (RFC 3517) ends. The loop of \<open>sendDataDuringLossRecoveryPhase\<close> is bounded by fuel in the model,
  because the callbacks could change \<open>pipe\<close>; here it is shown that the callbacks of the congestion controls and the functions
  of the connection leave \<open>pipe\<close> and the maximum segment size alone, so that \<open>pipe\<close> grows in every round
  and the fuel is never used up.
\<close>

section \<open>Results without exhausted fuel\<close>

definition ends :: "('a \<Rightarrow> bool) \<Rightarrow> err + 'a \<Rightarrow> bool" where
  "ends P r = (case r of Inl e \<Rightarrow> e \<noteq> OutOfFuel | Inr x \<Rightarrow> P x)"

abbreviation returns :: "err + 'a \<Rightarrow> bool" where
  "returns r \<equiv> ends (\<lambda>_. True) r"

lemma ends_simps [simp]:
  "ends P (Inl e) \<longleftrightarrow> e \<noteq> OutOfFuel" "ends P (Inr x) \<longleftrightarrow> P x"
  "ends P (ebind r f) \<longleftrightarrow> ends (\<lambda>x. ends P (f x)) r"
  "ends Q (assert_that b) \<longleftrightarrow> (b \<longrightarrow> Q ())"
  by (auto simp: ends_def ebind_def assert_that_def split: sum.split)

lemma ends_mono: "ends Q r \<Longrightarrow> (\<And>x. r = Inr x \<Longrightarrow> Q x \<Longrightarrow> P x) \<Longrightarrow> ends P r"
  by (auto simp: ends_def split: sum.splits)

lemma ends_any: "returns r \<Longrightarrow> (\<And>x. P x) \<Longrightarrow> ends P r"
  by (rule ends_mono)

section \<open>The queues\<close>

lemma rexmit_queue_returns [simp]:
  "returns (checkRexmitQueueForSackedOrRexmittedSegments n q)" "returns (enqueueSentData a b q)"
  "returns (checkSackBlock n q)" "returns (isLost n s q)"
proof -
  have "returns (count_handled rs a b)" for rs a b by (induction rs a b rule: count_handled.induct) simp_all
  then show "returns (checkRexmitQueueForSackedOrRexmittedSegments n q)"
    by (simp add: checkRexmitQueueForSackedOrRexmittedSegments_def)
  have t: "returns (tail_region a b rs)" for a b rs by (simp add: tail_region_def split: list.split)
  have "returns (refresh_bounds rs q)" for rs q by (simp add: refresh_bounds_def checked_def)
  then show "returns (enqueueSentData a b q)"
    by (auto simp: enqueueSentData_def Let_def split: list.split prod.split intro!: ends_any [OF t])
  show "returns (checkSackBlock n q)" by (simp add: checkSackBlock_def split: list.split)
  show "returns (isLost n s q)"
    by (simp add: isLost_def getNumOfDiscontiguousSacks_def getAmountOfSackedBytes_def)
qed

lemma first_unsacked_returns [simp]: "returns (first_unsacked mx hs q s2)"
proof (induction mx hs q s2 rule: first_unsacked.induct)
  case (1 mx hs q s2)
  have "returns (checkSackBlock s2 q)" by simp
  then show ?case using 1 by (subst first_unsacked.simps) (cases "checkSackBlock s2 q"; auto)
qed

lemma createSegment_returns [simp]: "returns (createSegmentWithBytes f m q)"
  by (simp add: createSegmentWithBytes_def cq_peekAt_def peek_result_def)

lemma sacks_return [simp]: "returns (prune_sacks n l)" "returns (drop_contained l)" "returns (push_sack rq s)"
proof -
  show "returns (prune_sacks n l)" by (induction l) (auto intro: ends_any)
  show d: "returns (drop_contained l)" for l by (induction l rule: drop_contained.induct) (auto intro: ends_any)
  show "returns (push_sack rq s)" by (auto simp: push_sack_def Let_def intro: ends_any [OF d])
qed

section \<open>What stays\<close>

definition same_pipe :: "('d, 'z) conn_scheme \<Rightarrow> ('d, 'z) conn_scheme \<Rightarrow> bool" where
  "same_pipe c x = (pipe (state x) = pipe (state c) \<and> snd_mss (state x) = snd_mss (state c))"

lemma same_pipe_refl [simp]: "same_pipe c c"
  by (simp add: same_pipe_def)

lemma same_pipe_trans: "same_pipe c x \<Longrightarrow> same_pipe x y \<Longrightarrow> same_pipe c y"
  by (simp add: same_pipe_def)

lemma ends_same: "ends (same_pipe x) r \<Longrightarrow> same_pipe c x \<Longrightarrow> (\<And>y. same_pipe c y \<Longrightarrow> P y) \<Longrightarrow> ends P r"
  by (rule ends_mono) (blast intro: same_pipe_trans)+

lemma addSacks_pipe: "ends (\<lambda>(h, x). same_pipe c x) (addSacks hdr c)"
  by (auto simp: addSacks_def Let_def same_pipe_def reset_sack_flags_def intro!: ends_any [OF sacks_return(1)] ends_any [OF sacks_return(3)])

lemma write_pipe:
  "same_pipe c (snd p) \<Longrightarrow> same_pipe c (snd (write_mss p))"
  "same_pipe c (snd p) \<Longrightarrow> same_pipe c (snd (write_ws p))"
  "same_pipe c (snd p) \<Longrightarrow> same_pipe c (snd (write_sack_permitted p))"
  "same_pipe c (snd p) \<Longrightarrow> same_pipe c (snd (write_initial_ts p))"
  "same_pipe c (snd p) \<Longrightarrow> same_pipe c (snd (write_ts p))"
  by (cases p; simp add: write_mss_def write_ws_def write_sack_permitted_def write_initial_ts_def write_ts_def
      same_pipe_def Let_def)+

lemma writeHeaderOptions_pipe: "ends (\<lambda>(h, x). same_pipe c x) (writeHeaderOptions hdr c)"
proof -
  obtain h x where w: "write_ts (hdr, c) = (h, x)" by fastforce
  then have s: "same_pipe c x" using write_pipe(5) [of c "(hdr, c)"] by simp
  have "ends (\<lambda>(h, y). same_pipe c y) (addSacks h x)"
    by (rule ends_mono [OF addSacks_pipe]) (use s same_pipe_trans in auto)
  moreover have "same_pipe c (snd (write_initial_ts (write_sack_permitted (write_ws (write_mss (hdr, c))))))"
    by (intro write_pipe) simp
  ultimately show ?thesis using s w
    by (auto simp: writeHeaderOptions_def Let_def split_def)
qed

lemma updateRcvWnd_pipe: "ends (\<lambda>(w, x). same_pipe c x) (updateRcvWnd c)"
  by (simp add: updateRcvWnd_def updateRcvQueueVars_def Let_def same_pipe_def)

lemma sendToIP_pipe: "ends (same_pipe c) (sendToIP h d c)"
  by (simp add: sendToIP_def same_pipe_def Let_def)

lemma requestData_pipe: "same_pipe c (requestData c)"
  by (simp add: requestData_def same_pipe_def Let_def sendIndicationToApp_def sendToApp_def)

lemma raise_snd_max_pipe: "same_pipe c (raise_snd_max c)"
  by (simp add: raise_snd_max_def same_pipe_def)

lemma forward_pipe: "ends (same_pipe c) (forward_over_sacked c)"
  by (auto simp: forward_over_sacked_def same_pipe_def intro!: ends_any [OF rexmit_queue_returns(1)])

text \<open>A segment carries at most the bytes asked for.\<close>

lemma fits_mss:
  fixes n opt m :: u32
  assumes "opt < m"
  shows "(if n + opt > m then m - opt else n) \<le> n"
proof -
  have "m - opt \<le> n" if "n + opt > m"
  proof -
    have "unat opt < unat m" "unat m < unat (n + opt)" using assms that by (simp_all add: word_less_nat_alt)
    moreover have "unat (n + opt) \<le> unat n + unat opt" by (simp add: unat_word_ariths)
    ultimately have "unat m - unat opt \<le> unat n" by linarith
    then show ?thesis by (simp add: word_le_nat_alt unat_sub [OF less_imp_le [OF assms]])
  qed
  then show ?thesis by simp
qed

lemma plan_segment_pipe: "ends (\<lambda>(h, n, x). same_pipe c x \<and> n \<le> bytes) (plan_segment bytes c)"
proof -
  let ?b = "if bytes > getBytesAvailable (snd_nxt (state c)) (sendQueue c)
    then getBytesAvailable (snd_nxt (state c)) (sendQueue c) else bytes"
  have "?b \<le> bytes" by (simp add: less_imp_le)
  then have f: "opt < m \<Longrightarrow> (if ?b + opt > m then m - opt else ?b) \<le> bytes" for opt m :: u32
    using fits_mss [of opt m ?b] order.trans by blast
  have p: "ends (\<lambda>(h, n, y). same_pipe c y \<and> n \<le> bytes)
      (ebind (assert_that (opt < snd_mss (state x)))
        (\<lambda>_. Inr (h, if ?b + opt > snd_mss (state x) then snd_mss (state x) - opt else ?b, x)))"
    if "same_pipe c x" for opt and h :: tcp_header and x
    by (simp only: ends_simps prod.case simp_thms that) (rule impI, rule f)
  show ?thesis
    unfolding plan_segment_def Let_def
    by (simp only: ends_simps(3), rule ends_mono [OF writeHeaderOptions_pipe])
      (simp only: split_paired_all prod.case, rule p)
qed

lemma transmit_pipe: "ends (same_pipe c) (transmit tmp n c)"
proof -
  have a: "same_pipe c (raise_snd_max (requestData y))" if "same_pipe c y" for y
    using that requestData_pipe raise_snd_max_pipe same_pipe_trans by blast
  have "same_pipe c (x\<lparr>state := advance m (state x), rexmitQ := q\<rparr>)" if "same_pipe c x" for x m q
    using that by (simp add: same_pipe_def advance_def Let_def)
  then have t: "ends (\<lambda>y. same_pipe c (raise_snd_max (requestData y)))
      (sendToIP h d (x\<lparr>state := advance m (state x), rexmitQ := q\<rparr>))" if "same_pipe c x" for x m q h d
    by (rule ends_same [OF sendToIP_pipe]) (use that a in auto)
  note t' = t [where q = "rexmitQ x" and x = x for x, simplified]
  show ?thesis
    unfolding transmit_def Let_def
    apply (simp only: ends_simps)
    apply (rule ends_any [OF createSegment_returns])
    apply (rule ends_mono [OF updateRcvWnd_pipe])
    apply (auto intro!: ends_any [OF rexmit_queue_returns(2)] t t')
    done
qed

lemma sendSegment_pipe: "ends (\<lambda>(n, x). same_pipe c x \<and> n \<le> bytes) (sendSegment bytes c)"
proof -
  have t: "ends (\<lambda>y. same_pipe c y \<and> n \<le> bytes) (transmit tmp n x)" if "same_pipe c x" "n \<le> bytes" for tmp n x
    by (rule ends_same [OF transmit_pipe that(1)]) (use that in auto)
  have p: "ends (\<lambda>(h, n, y). same_pipe c y \<and> n \<le> bytes) (plan_segment bytes x)" if "same_pipe c x" for x
    by (rule ends_mono [OF plan_segment_pipe]) (use that same_pipe_trans in auto)
  have "ends (\<lambda>(h, n, y). ends (\<lambda>y. same_pipe c y \<and> n \<le> bytes) (transmit h n y)) (plan_segment bytes x)"
    if "same_pipe c x" for x
    by (rule ends_mono [OF p [OF that]]) (auto intro: t)
  then show ?thesis
    by (simp add: sendSegment_def split_def ends_mono [OF forward_pipe])
qed

lemma nextSeg_pipe: "ends (\<lambda>(sq, x). same_pipe c x) (nextSeg c)"
  unfolding nextSeg_def
  by (auto simp: Let_def same_pipe_def split: option.split intro!: ends_any [OF first_unsacked_returns] ends_any [OF rexmit_queue_returns(4)])

section \<open>The contract of the callbacks\<close>

locale keeps_pipe =
  fixes alg :: "(('d, 'z) conn_scheme, 'y) tcp_callbacks_scheme"
  assumes ackSent_pipe: "ends (same_pipe c) (alg_ackSent alg c)"
    and dataSent_pipe: "ends (same_pipe c) (alg_dataSent alg n c)"
    and restartRexmitTimer_pipe: "ends (same_pipe c) (alg_restartRexmitTimer alg c)"
begin

text \<open>One round: at most one segment more is in the network.\<close>

lemma segment_round:
  "ends (\<lambda>(n, x). same_pipe c x \<and> n \<le> snd_mss (state c)) (sendSegmentDuringLossRecoveryPhase alg sq c)"
proof -
  let ?c = "c\<lparr>state := (state c)\<lparr>snd_nxt := sq\<rparr>\<rparr>"
  have r: "ends (same_pipe c) (alg_restartRexmitTimer alg x)" "ends (same_pipe c) (alg_dataSent alg sq x)"
    if "same_pipe c x" for x
    using ends_same [OF restartRexmitTimer_pipe that] ends_same [OF dataSent_pipe that] by auto
  have a: "ends (\<lambda>(n, x). same_pipe c x \<and> n \<le> snd_mss (state c))
      (ebind (alg_ackSent alg (x\<lparr>state := s\<rparr>)) (\<lambda>y.
       ebind (if b y then alg_restartRexmitTimer alg y else alg_dataSent alg sq y) (\<lambda>z. Inr (n, z))))"
    if "same_pipe c x" "n \<le> snd_mss (state c)" "pipe s = pipe (state x)" "snd_mss s = snd_mss (state x)" for b x s n
  proof -
    have "same_pipe c (x\<lparr>state := s\<rparr>)" using that by (simp add: same_pipe_def)
    then show ?thesis
      by (simp add: that(2)) (rule ends_same [OF ackSent_pipe], assumption, simp add: r)
  qed
  have g: "ends (\<lambda>(n, x). same_pipe c x \<and> n \<le> snd_mss (state c)) (sendSegment (snd_mss (state ?c)) ?c)"
    using sendSegment_pipe [of ?c "snd_mss (state ?c)"] by (simp add: same_pipe_def)
  have "ends (\<lambda>(n, x). same_pipe c x \<and> n \<le> snd_mss (state c)) (ebind (assert_that b) (\<lambda>_. r))"
    if "ends (\<lambda>(n, x). same_pipe c x \<and> n \<le> snd_mss (state c)) r" for b r
    using that by (cases b) (simp_all add: assert_that_def)
  note s = this
  show ?thesis
    unfolding sendSegmentDuringLossRecoveryPhase_def Let_def
    by (rule s, simp only: ends_simps(3), rule ends_mono [OF g], simp only: split_paired_all prod.case)
      (rule s, elim conjE, rule a, simp_all)
qed

end

lemma timers_return [simp]:
  "returns (cancelEvent t)" "returns (scheduleAfter now d t)" "returns (rescheduleAfter now d t)" "returns (isScheduled t)"
proof -
  show s: "returns (scheduleAfter now d t)" for t by (simp add: scheduleAfter_def split: timer.split)
  show "returns (cancelEvent t)" by (simp add: cancelEvent_def)
  show "returns (rescheduleAfter now d t)" by (simp add: rescheduleAfter_def cancelEvent_def s)
  show "returns (isScheduled t)" by (simp add: isScheduled_def split: timer.split)
qed

lemma on_timer_pipe:
  "(\<And>t. returns (f t)) \<Longrightarrow> ends (same_pipe c) (on_rexmitTimer f c)"
  "(\<And>t. returns (f t)) \<Longrightarrow> ends (same_pipe c) (on_delayedAckTimer f c)"
  by (auto simp: on_rexmitTimer_def on_delayedAckTimer_def set_rexmitTimer_def set_delayedAckTimer_def same_pipe_def intro: ends_any)

lemma base_sent_pipe:
  "ends (same_pipe c) (base_ackSent c)" "ends (same_pipe c) (base_restartRexmitTimer c)"
  "ends (same_pipe c) (base_dataSent n c)"
proof -
  note a = ends_any [OF timers_return(4)]
  have start: "ends (same_pipe c) (startRexmitTimer c)" for c :: "('a, 'b) base_conn"
    unfolding startRexmitTimer_def scheduleRexmit_def
    by (rule ends_same [OF on_timer_pipe(1)]) (auto simp: same_pipe_def)
  have "ends (same_pipe c) (if b then on_delayedAckTimer cancelEvent x else Inr x)" if "same_pipe c x" for b x
    using ends_same [OF on_timer_pipe(2) that, of cancelEvent] that by auto
  then show "ends (same_pipe c) (base_ackSent c)"
    by (auto simp: base_ackSent_def Let_def same_pipe_def intro!: a)
  have "ends (\<lambda>x. ends (same_pipe c) (startRexmitTimer x)) (if b then on_rexmitTimer cancelEvent c else Inr c)" for b
    by (auto intro: start ends_mono [OF on_timer_pipe(1)] ends_same [OF start])
  then show "ends (same_pipe c) (base_restartRexmitTimer c)"
    by (auto simp: base_restartRexmitTimer_def intro!: a)
  have "ends (\<lambda>x. same_pipe c (if b x then set_alg f x else x)) (if b' then startRexmitTimer c else Inr c)" for b b' f
    by (auto intro: ends_mono [OF start] simp: same_pipe_def)
  then show "ends (same_pipe c) (base_dataSent n c)"
    by (auto simp: base_dataSent_def Let_def same_pipe_def intro!: a ends_mono [OF start])
qed

interpretation base_pipe: keeps_pipe base_callbacks
  by unfold_locales (simp_all add: base_callbacks_def base_sent_pipe)

lemma dumb_dataSent_pipe: "ends (same_pipe c) (dumb_dataSent n c)"
  unfolding dumb_dataSent_def ends_simps(3)
  by (rule ends_any [OF timers_return(3)]) (simp add: dumb_set_timer_def same_pipe_def)

interpretation dumb_pipe: keeps_pipe dumb_callbacks
  by unfold_locales (simp_all add: dumb_callbacks_def dumb_dataSent_pipe)

section \<open>The loop\<close>

text \<open>\<open>pipe\<close> grows by what was sent, and stays at most the congestion window.\<close>

lemma pipe_grows:
  fixes p m w n :: u32
  assumes "sint p + sint m \<le> sint w" and "n \<le> m" and "0 \<le> sint m" and "0 < unat n"
  shows "sint p < sint (p + n) \<and> sint (p + n) \<le> sint w"
proof -
  have "sint m = uint m - 2 ^ 32 * of_bool (bit (uint m) 31)"
    using uint_bounded [of m] by (simp add: sint_uint signed_take_bit_eq_take_bit_minus take_bit_int_eq_self)
  then have m: "sint m = uint m" using assms(3) uint_bounded [of m] by (cases "bit (uint m) 31") simp_all
  have w: "sint w < 2 ^ 31" "- (2 ^ 31) \<le> sint p" using sint_lt [of w] sint_ge [of p] by simp_all
  have n: "uint n \<le> uint m" "0 < uint n"
    using assms(2,4) by (simp_all only: word_le_def unat_eq_nat_uint zero_less_nat_eq)
  have "sint (p + n) = signed_take_bit 31 (sint p + sint n)" by (simp add: sint_word_ariths)
  moreover have "sint n = uint n"
    using n m sint_lt [of m] by (simp add: sint_uint signed_take_bit_int_eq_self)
  ultimately have "sint (p + n) = sint p + uint n"
    using n m w assms(1) by (simp add: signed_take_bit_int_eq_self)
  then show ?thesis using n m assms(1) by linarith
qed

lemma nextSeg_again: "nextSeg c = Inr (None, x) \<Longrightarrow> nextSeg x = Inr (None, x)"
  by (auto simp: nextSeg_def Let_def ebind_Inr_iff split: if_splits)

text \<open>How the loop may stop: the window is used up, or there is nothing to send.\<close>

definition filled :: "u32 \<Rightarrow> ('d, 'z) conn_scheme \<Rightarrow> ('d, 'z) conn_scheme \<Rightarrow> bool" where
  "filled w c x = ((sint w - sint (pipe (state x)) < sint (snd_mss (state x)) \<or> nextSeg x = Inr (None, x)) \<and>
     sint (pipe (state c)) \<le> sint (pipe (state x)) \<and>
     sint (pipe (state x)) \<le> max (sint (pipe (state c))) (sint w))"

context keeps_pipe
begin

lemma recovery_loop_ends:
  "0 \<le> sint (snd_mss (state c)) \<Longrightarrow> nat (sint w - sint (pipe (state c))) < fuel \<Longrightarrow>
    ends (filled w c) (recovery_loop fuel alg w c)"
proof (induction fuel arbitrary: c)
  case 0
  then show ?case by simp
next
  case (Suc fuel)
  show ?case
  proof (cases "sint w - sint (pipe (state c)) \<ge> sint (snd_mss (state c))")
    case False
    then show ?thesis by (subst recovery_loop.simps) (simp add: filled_def)
  next
    case True
    have step: "ends (filled w c) (recovery_loop fuel alg w (y\<lparr>state := (state y)\<lparr>pipe := pipe (state y) + n\<rparr>\<rparr>))"
      if "same_pipe c x" "same_pipe x y" "n \<le> snd_mss (state x)"
        "sendSegmentDuringLossRecoveryPhase alg sq x = Inr (n, y)" for x y n sq
    proof -
      let ?y = "y\<lparr>state := (state y)\<lparr>pipe := pipe (state y) + n\<rparr>\<rparr>"
      have e: "pipe (state y) = pipe (state c)" "snd_mss (state y) = snd_mss (state c)" "n \<le> snd_mss (state c)"
        using that by (simp_all add: same_pipe_def)
      have "0 < unat n"
        using that(4) by (auto simp: sendSegmentDuringLossRecoveryPhase_def ebind_Inr_iff Let_def dest: sendSegment_pos)
      then have p: "sint (pipe (state c)) < sint (pipe (state ?y)) \<and> sint (pipe (state ?y)) \<le> sint w"
        using pipe_grows [of "pipe (state c)" "snd_mss (state c)" w n] True e Suc.prems(1) by auto
      then have "ends (filled w ?y) (recovery_loop fuel alg w ?y)"
        using Suc.prems e(2) by (intro Suc.IH) auto
      then show ?thesis by (rule ends_mono) (use p in \<open>auto simp: filled_def\<close>)
    qed
    have "ends (\<lambda>(n, y). ends (filled w c) (recovery_loop fuel alg w (y\<lparr>state := (state y)\<lparr>pipe := pipe (state y) + n\<rparr>\<rparr>)))
        (sendSegmentDuringLossRecoveryPhase alg sq x)" if "same_pipe c x" for sq x
      by (rule ends_mono [OF segment_round]) (use that step in auto)
    moreover have "filled w c x" if "nextSeg c = Inr (None, x)" "same_pipe c x" for x
      using that nextSeg_again [OF that(1)] by (simp add: filled_def same_pipe_def)
    ultimately have "ends (\<lambda>(sq, x). ends (filled w c) (case sq of None \<Rightarrow> Inr x
        | Some seqNum \<Rightarrow> ebind (sendSegmentDuringLossRecoveryPhase alg seqNum x) (\<lambda>(n, y).
            recovery_loop fuel alg w (y\<lparr>state := (state y)\<lparr>pipe := pipe (state y) + n\<rparr>\<rparr>)))) (nextSeg c)"
      by (intro ends_mono [OF nextSeg_pipe]) (auto simp: split_def split: option.split)
    then show ?thesis using True by (subst recovery_loop.simps) (simp add: split_def)
  qed
qed

lemma sendDataDuringLossRecoveryPhase_ends:
  assumes "0 \<le> sint (snd_mss (state c))"
  shows "ends (filled w c) (sendDataDuringLossRecoveryPhase (2 ^ 32) alg w c)"
proof -
  have "sint w < 2 ^ 31" "- (2 ^ 31) \<le> sint (pipe (state c))" using sint_lt [of w] sint_ge [of "pipe (state c)"] by simp_all
  then have "nat (sint w - sint (pipe (state c))) < 2 ^ 32" by simp
  then have "ends (filled w c) (recovery_loop (2 ^ 32) alg w c)" using assms by (rule recovery_loop_ends [rotated])
  then show ?thesis by (simp add: sendDataDuringLossRecoveryPhase_def)
qed

end

lemma sint_small: "unat m < 2 ^ 31 \<Longrightarrow> 0 \<le> sint m" for m :: u32
proof -
  assume "unat m < 2 ^ 31"
  then have "int (unat m) < int (2 ^ 31)" by (simp only: of_nat_less_iff)
  then have "uint m < 2 ^ 31" by simp
  moreover have "- (2 ^ 31) \<le> uint m" by (rule order.trans [OF _ uint_nonnegative]) simp
  ultimately have "signed_take_bit 31 (uint m) = uint m" by (intro signed_take_bit_int_eq_self) simp_all
  then show "0 \<le> sint m" by (simp only: sint_uint) simp
qed

section \<open>Properties\<close>

text \<open>
  C4. The loss recovery of RFC 3517 ends: with any congestion control built on \<open>TcpBaseAlg\<close>, the loop of
  \<open>sendDataDuringLossRecoveryPhase\<close> uses at most \<open>2 ^ 32\<close> rounds, and when it returns, less than one segment of
  the congestion window is unused or \<open>nextSeg\<close> has nothing to send; \<open>pipe\<close> only grows and does not exceed
  the window.
\<close>

theorem loss_recovery_ends:
  assumes "unat (snd_mss (state c)) < 2 ^ 31"
  shows "sendDataDuringLossRecoveryPhase (2 ^ 32) base_callbacks w c \<noteq> Inl OutOfFuel \<and>
    (\<forall>x. sendDataDuringLossRecoveryPhase (2 ^ 32) base_callbacks w c = Inr x \<longrightarrow>
       (sint w - sint (pipe (state x)) < sint (snd_mss (state x)) \<or> nextSeg x = Inr (None, x)) \<and>
       sint (pipe (state c)) \<le> sint (pipe (state x)) \<and>
       sint (pipe (state x)) \<le> max (sint (pipe (state c))) (sint w))"
  using base_pipe.sendDataDuringLossRecoveryPhase_ends [OF sint_small [OF assms], of w]
  by (auto simp: ends_def filled_def split: sum.splits)

theorem loss_recovery_ends_witness:
  "sendDataDuringLossRecoveryPhase (2 ^ 32) base_callbacks 4000
     (base_example\<lparr>state := (tcb_new 3)\<lparr>snd_mss := 1000, pipe := 500, sack_enabled := True, lossRecovery := True\<rparr>\<rparr>)
   \<noteq> Inl OutOfFuel"
  by (rule loss_recovery_ends [THEN conjunct1]) simp

end
