(* ===== verification/TcpAcks.thy ===== *)
theory TcpAcks
  imports TcpRecovery
begin

text \<open>
  The receiving side of a connection: which segments are acceptable, and when they are acknowledged. And
  the choice of an ephemeral port.
\<close>

section \<open>Acceptable segments\<close>

lemma offset_in_window:
  assumes "w < half"
  shows "seqLE a x \<and> seqLess x (a + of_nat w) \<longleftrightarrow> sdist a x < w"
    and "seqLE a x \<and> seqLE x (a + of_nat w) \<longleftrightarrow> sdist a x \<le> w"
    and "seqLess a x \<and> seqLE x (a + of_nat w) \<longleftrightarrow> 0 < sdist a x \<and> sdist a x \<le> w"
proof -
  have w: "sdist a (a + of_nat w) = w" using assms by (simp add: sdist_add)
  show "seqLE a x \<and> seqLess x (a + of_nat w) \<longleftrightarrow> sdist a x < w"
    using seqLess_window [of a x "a + of_nat w"] assms w by (auto simp: seqLE_sdist)
  show le: "seqLE a x \<and> seqLE x (a + of_nat w) \<longleftrightarrow> sdist a x \<le> w"
    using seqLE_window [of a x "a + of_nat w"] assms w by (auto simp: seqLE_sdist)
  have "seqLess a x \<longleftrightarrow> seqLE a x \<and> 0 < sdist a x" by (auto simp: seqLess_sdist seqLE_sdist)
  then show "seqLess a x \<and> seqLE x (a + of_nat w) \<longleftrightarrow> 0 < sdist a x \<and> sdist a x \<le> w"
    using le by blast
qed

text \<open>The octet at index \<open>i\<close> of a segment of \<open>len\<close> octets, relative to the last one.\<close>

lemma octet_before:
  assumes "w < half"
  shows "0 < sdist a (y + 1) \<and> sdist a (y + 1) \<le> w \<longleftrightarrow> sdist a y < w"
proof (cases "sdist a y + 1 < 2 * half")
  case True
  have "y + 1 = a + of_nat (sdist a y + 1)" by (simp add: add.commute add.left_commute flip: add.assoc)
  then have "sdist a (y + 1) = sdist a y + 1" by (simp only: sdist_add [OF True])
  then show ?thesis by (simp add: Suc_le_eq)
next
  case False
  then have "sdist a y = 4294967295" using sdist_less [of a y] by linarith
  then have "of_nat (sdist a y + 1) = (0 :: u32)" by simp
  moreover have "y + 1 = a + of_nat (sdist a y + 1)" by (simp add: add.commute add.left_commute flip: add.assoc)
  ultimately have "y + 1 = a" by (simp only: add_0_right)
  then show ?thesis using False assms by simp
qed

lemma last_octet:
  assumes "0 < n" and "w < half"
  shows "0 < sdist a (x + of_nat n) \<and> sdist a (x + of_nat n) \<le> w \<longleftrightarrow> sdist a (x + of_nat (n - 1)) < w"
proof -
  have "x + of_nat n = x + of_nat (n - 1) + 1" using assms(1) by simp
  then show ?thesis using octet_before [OF assms(2), of a "x + of_nat (n - 1)"] by (simp only:)
qed

lemma octet_between:
  assumes "i < n" and "n \<le> w" and "w < half" and "sdist a (x + of_nat i) < w"
  shows "sdist a x < w \<or> sdist a (x + of_nat (n - 1)) < w"
proof -
  obtain p where p: "x + of_nat i = a + of_nat p" "p < w" using assms(4) by (metis add_sdist)
  show ?thesis
  proof (cases "i \<le> p")
    case True
    then have "x + of_nat i = a + of_nat (p - i) + of_nat i" using p(1) by simp
    then have "x = a + of_nat (p - i)" by simp
    then have "sdist a x = p - i" using p(2) assms(3) by (simp add: sdist_add)
    then show ?thesis using p(2) by linarith
  next
    case False
    have "x + of_nat (n - 1) = x + of_nat i + of_nat (n - 1 - i)" using assms(1) by simp
    then have "x + of_nat (n - 1) = a + of_nat (p + (n - 1 - i))" unfolding p(1) by simp
    moreover have "p + (n - 1 - i) < 2 * half" using assms(1-3) False by linarith
    ultimately have "sdist a (x + of_nat (n - 1)) = p + (n - 1 - i)" by (simp only: sdist_add)
    moreover have "p + (n - 1 - i) < w" using assms(1,2) False by linarith
    ultimately show ?thesis by simp
  qed
qed

lemma acceptable_cases:
  assumes "payloadLength hdr payload = int n" and "unat (rcv_wnd s) < half" and "n < half"
  shows "isSegmentAcceptable hdr payload s \<longleftrightarrow>
    (if n = 0 then sdist (rcv_nxt s) (sequenceNo hdr) \<le> unat (rcv_wnd s) \<or>
       seqLess (snd_una s) (ackNo hdr) \<and> seqLE (ackNo hdr) (if afterRto s then snd_max s else snd_nxt s)
     else sdist (rcv_nxt s) (sequenceNo hdr) < unat (rcv_wnd s) \<or>
       sdist (rcv_nxt s) (sequenceNo hdr + of_nat (n - 1)) < unat (rcv_wnd s))"
proof -
  let ?w = "unat (rcv_wnd s)" and ?a = "rcv_nxt s" and ?x = "sequenceNo hdr"
  have e: "?a + rcv_wnd s = ?a + of_nat ?w" by simp
  have l: "word_of_int (payloadLength hdr payload) = (of_nat n :: u32)" using assms(1) by simp
  have z: "of_nat n = (0 :: u32) \<longleftrightarrow> n = 0" 
  proof
    assume "of_nat n = (0 :: u32)"
    then have "unat (of_nat n :: u32) = 0" by simp
    then show "n = 0" using assms(3) by (simp add: unat_of_nat)
  qed simp
  have w0: "rcv_wnd s = 0 \<longleftrightarrow> ?w = 0" by (simp add: unat_eq_0)
  show ?thesis
  proof (cases "n = 0")
    case True
    then show ?thesis
      using offset_in_window(2) [OF assms(2), of ?a ?x] w0
      unfolding isSegmentAcceptable_def Let_def l e z by auto
  next
    case False
    then show ?thesis
      using offset_in_window(1) [OF assms(2), of ?a ?x] offset_in_window(3) [OF assms(2), of ?a "?x + of_nat n"] w0
        last_octet [of n ?w ?a ?x] assms(2)
      unfolding isSegmentAcceptable_def Let_def l e z by auto
  qed
qed

section \<open>Sending an ACK\<close>

text \<open>What the functions that build a segment leave alone.\<close>

definition ack_frame :: "tcp_header \<times> ('d, 'z) conn_scheme \<Rightarrow> tcp_header \<times> ('d, 'z) conn_scheme \<Rightarrow> bool" where
  "ack_frame = (\<lambda>(h, c) (h', c'). ackBit h' = ackBit h \<and> ackNo h' = ackNo h \<and> outbox c' = outbox c \<and>
     rcv_nxt (state c') = rcv_nxt (state c) \<and> alg_state c' = alg_state c \<and> sim_now c' = sim_now c)"

lemma ack_frame_refl [simp]: "ack_frame p p"
  by (simp add: ack_frame_def split_def)

lemma ack_frame_trans: "ack_frame p q \<Longrightarrow> ack_frame q r \<Longrightarrow> ack_frame p r"
  by (auto simp: ack_frame_def split_def)

lemma write_frame:
  "ack_frame r p \<Longrightarrow> ack_frame r (write_mss p)"
  "ack_frame r p \<Longrightarrow> ack_frame r (write_ws p)"
  "ack_frame r p \<Longrightarrow> ack_frame r (write_sack_permitted p)"
  "ack_frame r p \<Longrightarrow> ack_frame r (write_initial_ts p)"
  "ack_frame r p \<Longrightarrow> ack_frame r (write_ts p)"
  by (cases p; cases r; simp add: write_mss_def write_ws_def write_sack_permitted_def write_initial_ts_def
      write_ts_def insertHeaderOption_def ack_frame_def Let_def)+

lemma nops_frame [simp]:
  "ackBit ((insertHeaderOption opt ^^ n) h) = ackBit h" "ackNo ((insertHeaderOption opt ^^ n) h) = ackNo h"
  by (induction n) (simp_all add: insertHeaderOption_def)

lemma addSacks_frame: "ends (ack_frame (h, c)) (addSacks h c)"
  by (auto simp: addSacks_def Let_def ack_frame_def reset_sack_flags_def insertHeaderOption_def
      intro!: ends_any [OF sacks_return(1)] ends_any [OF sacks_return(3)])

lemma finish_frame: "ack_frame r (h, c) \<Longrightarrow> ack_frame r (finish_options h, c)"
  by (cases r) (simp add: finish_options_def dropHeaderOptions_def ack_frame_def Let_def)

lemma writeHeaderOptions_frame:
  assumes "writeHeaderOptions h c = Inr (h', c')"
  shows "ack_frame (h, c) (h', c')"
proof -
  let ?i = "write_initial_ts (write_sack_permitted (write_ws (write_mss (h, c))))"
  have i: "ack_frame (h, c) ?i" by (intro write_frame) simp
  have t: "ack_frame (h, c) (write_ts (h, c))" by (intro write_frame) simp
  consider "(h', c') = (finish_options (fst ?i), snd ?i)" |
    p where "addSacks (fst (write_ts (h, c))) (snd (write_ts (h, c))) = Inr p" "(h', c') = (finish_options (fst p), snd p)" |
    "(h', c') = (finish_options (fst (write_ts (h, c))), snd (write_ts (h, c)))" |
    "(h', c') = (finish_options h, c)"
    using assms unfolding writeHeaderOptions_def Let_def split_def by (auto simp: ebind_Inr_iff split: if_splits)
  then show ?thesis
  proof cases
    case 2
    then have "ack_frame (h, c) p" using t addSacks_frame [of "fst (write_ts (h, c))" "snd (write_ts (h, c))"]
      by (auto intro: ack_frame_trans)
    then show ?thesis using finish_frame [of "(h, c)" "fst p" "snd p"] 2(2) by simp
  qed (use i t finish_frame [of "(h, c)"] in auto)
qed

lemma base_ackSent_result:
  assumes "base_ackSent c = Inr c'"
  shows "outbox c' = outbox c" "delayedAckTimer (alg_state c') = Idle" "last_ack_sent (state c') = rcv_nxt (state c)"
    "rcv_nxt (state c') = rcv_nxt (state c)" "sim_now c' = sim_now c"
  using assms
  by (cases "delayedAckTimer (alg_state c)"; auto simp: base_ackSent_def Let_def isScheduled_def on_delayedAckTimer_def
      set_delayedAckTimer_def split: if_splits)+

lemma shouldMarkAck_frame:
  "outbox (snd (base_shouldMarkAck c)) = outbox c" "rcv_nxt (state (snd (base_shouldMarkAck c))) = rcv_nxt (state c)"
  "sim_now (snd (base_shouldMarkAck c)) = sim_now c"
  by (simp_all add: base_shouldMarkAck_def Let_def)

lemma updateRcvWnd_frame:
  "updateRcvWnd c = Inr (w, c') \<Longrightarrow> outbox c' = outbox c \<and> rcv_nxt (state c') = rcv_nxt (state c) \<and> sim_now c' = sim_now c"
  by (auto simp: updateRcvWnd_def updateRcvQueueVars_def Let_def ebind_Inr_iff)

text \<open>An ACK of everything received so far goes out, and no delayed one is pending.\<close>

definition acked :: "('d, 'x) base_conn \<Rightarrow> ('d, 'x) base_conn \<Rightarrow> bool" where
  "acked c c' = ((\<exists>h r. outbox c' = outbox c @ [SegmentOut h [] r] \<and> ackBit h \<and> ackNo h = rcv_nxt (state c)) \<and>
     delayedAckTimer (alg_state c') = Idle \<and> last_ack_sent (state c') = rcv_nxt (state c))"

lemma sendAck_acked:
  assumes "sendAck base_callbacks c = Inr c'"
  shows "acked c c'"
proof -
  define mark where "mark = (\<lambda>x. if ect (state x) then alg_shouldMarkAck base_callbacks x else (False, x) :: bool \<times> ('a, 'b) base_conn)"
  have cb: "alg_ackSent base_callbacks = base_ackSent" "alg_shouldMarkAck base_callbacks = base_shouldMarkAck"
    by (simp_all add: base_callbacks_def)
  obtain w c1 where 1: "updateRcvWnd c = Inr (w, c1)" using assms by (auto simp: sendAck_def ebind_Inr_iff)
  obtain b c2 where 2: "mark c1 = (b, c2)" by fastforce
  obtain h c3 where 3: "writeHeaderOptions (header_new\<lparr>ackBit := True, sequenceNo := snd_nxt (state c1),
      ackNo := rcv_nxt (state c1), window := w, eceBit := b\<rparr>) c2 = Inr (h, c3)"
    and 4: "ebind (sendToIP h [] (c3\<lparr>state := (state c3)\<lparr>sndAck := True\<rparr>\<rparr>))
      (\<lambda>x. base_ackSent (x\<lparr>state := (state x)\<lparr>sndAck := False\<rparr>\<rparr>)) = Inr c'"
    using assms 1 2 by (auto simp: sendAck_def ebind_Inr_iff Let_def cb(1) mark_def)
  have "outbox c2 = outbox c1" "rcv_nxt (state c2) = rcv_nxt (state c1)"
    using 2 shouldMarkAck_frame [of c1] by (auto simp: mark_def cb(2) split: if_splits)
  then have f: "outbox c3 = outbox c" "rcv_nxt (state c3) = rcv_nxt (state c)" "ackBit h" "ackNo h = rcv_nxt (state c)"
    using updateRcvWnd_frame [OF 1] writeHeaderOptions_frame [OF 3] by (auto simp: ack_frame_def)
  obtain c4 where c4: "sendToIP h [] (c3\<lparr>state := (state c3)\<lparr>sndAck := True\<rparr>\<rparr>) = Inr c4"
    and c': "base_ackSent (c4\<lparr>state := (state c4)\<lparr>sndAck := False\<rparr>\<rparr>) = Inr c'"
    using 4 by (auto simp: ebind_Inr_iff)
  then obtain r where "outbox c4 = outbox c3 @ [SegmentOut (h\<lparr>srcPort := localPort c3, destPort := remotePort c3\<rparr>) [] r]"
      "rcv_nxt (state c4) = rcv_nxt (state c3)"
    by (auto simp: sendToIP_def Let_def ebind_Inr_iff)
  then show ?thesis using base_ackSent_result [OF c'] f by (auto simp: acked_def)
qed

text \<open>
  When an ACK can be built: a shift of the window scaling is at most 14, and no SACK blocks are due. The offered window
  then fits the 16 bits of the header.
\<close>

definition window_shift :: "tcb \<Rightarrow> nat" where
  "window_shift s = (if ws_enabled s then unat (rcv_wnd_scale s) else 0)"

definition ack_possible :: "('d, 'z) conn_scheme \<Rightarrow> bool" where
  "ack_possible c = (let s = state c
     in window_shift s \<le> 14 \<and> \<not> (sack_enabled s \<and> (snd_sack s \<or> snd_dsack s)))"

lemma offered_window_fits:
  assumes "window_shift s \<le> 14"
  shows "unat (drop_bit (window_shift s) (offered_window s)) < 65536"
proof -
  let ?k = "window_shift s"
  have "(2::nat) ^ ?k \<le> 2 ^ 14" using assms by (intro power_increasing) simp_all
  then have p: "unat (push_bit ?k 65535 :: u32) = 65535 * 2 ^ ?k"
    by (simp only: unsigned_push_bit_eq) (simp add: push_bit_eq_mult take_bit_eq_mod)
  have "maxWin s = push_bit ?k 65535" by (auto simp: maxWin_def window_shift_def TCP_MAX_WIN_def)
  then have "offered_window s \<le> push_bit ?k 65535" by (simp add: offered_window_def Let_def not_less)
  then have "unat (offered_window s) \<le> 65535 * 2 ^ ?k" using p by (simp add: word_le_nat_alt)
  then have "unat (offered_window s) div 2 ^ ?k \<le> 65535"
    using div_le_mono [of "unat (offered_window s)" "65535 * 2 ^ ?k" "2 ^ ?k"] by simp
  moreover have "unat (drop_bit ?k (offered_window s)) = unat (offered_window s) div 2 ^ ?k"
    using unsigned_less [of "offered_window s", where ?'a = nat] unfolding unsigned_drop_bit_eq
    by (simp add: drop_bit_eq_div take_bit_nat_eq_self del: unsigned_less)
  ultimately show ?thesis by simp
qed

lemma fits_16: "unat w < 65536 \<Longrightarrow> w = ucast (ucast w :: u16)" for w :: u32
proof -
  assume "unat w < 65536"
  then have "take_bit 16 (unat w) = unat w" by (simp add: take_bit_nat_eq_self)
  then show ?thesis by (simp add: word_unat_eq_iff unsigned_ucast_eq unsigned_take_bit_eq)
qed

lemma updateRcvWnd_returns:
  assumes "ack_possible c"
  shows "\<exists>w c'. updateRcvWnd c = Inr (w, c') \<and> alg_state c' = alg_state c \<and> fsm c' = fsm c \<and>
    sack_enabled (state c') = sack_enabled (state c) \<and> snd_sack (state c') = snd_sack (state c) \<and>
    snd_dsack (state c') = snd_dsack (state c)"
proof -
  let ?c = "updateRcvQueueVars c"
  let ?w = "offered_window (state ?c)"
  have l: "window_shift (state ?c) \<le> 14"
    using assms by (auto simp: ack_possible_def window_shift_def updateRcvQueueVars_def Let_def split: if_splits)
  note u = offered_window_fits [OF l]
  have same: "alg_state ?c = alg_state c" "fsm ?c = fsm c" "sack_enabled (state ?c) = sack_enabled (state c)"
    "snd_sack (state ?c) = snd_sack (state c)" "snd_dsack (state ?c) = snd_dsack (state c)"
    by (simp_all add: updateRcvQueueVars_def Let_def)
  define s where "s = (if ?w > 0 \<and> seqGE (rcv_nxt (state ?c) + ?w) (rcv_adv (state ?c))
    then (state ?c)\<lparr>rcv_adv := rcv_nxt (state ?c) + ?w\<rparr> else state ?c)\<lparr>rcv_wnd := ?w\<rparr>"
  have s: "ws_enabled s = ws_enabled (state ?c)" "rcv_wnd_scale s = rcv_wnd_scale (state ?c)" "rcv_wnd s = ?w"
    "sack_enabled s = sack_enabled (state ?c)" "snd_sack s = snd_sack (state ?c)" "snd_dsack s = snd_dsack (state ?c)"
    by (simp_all add: s_def)
  have "(if ws_enabled s \<and> rcv_wnd_scale s \<noteq> 0
       then if rcv_wnd_scale s \<le> 14 then Inr (drop_bit (unat (rcv_wnd_scale s)) (rcv_wnd s)) else Inl AssertFailed
       else Inr (rcv_wnd s)) = Inr (drop_bit (window_shift (state ?c)) ?w)"
    using l unfolding s window_shift_def by (auto simp: word_le_nat_alt)
  then have "updateRcvWnd c = Inr (ucast (drop_bit (window_shift (state ?c)) ?w), ?c\<lparr>state := s\<rparr>)"
    using fits_16 [OF u] unfolding updateRcvWnd_def Let_def s_def by (simp add: assert_that_def)
  then show ?thesis using same s by simp
qed

lemma finish_returns: "options_length (headerOption h) \<le> 40 \<Longrightarrow> headerLength h = 20 \<Longrightarrow> chunk_length h = 20 \<Longrightarrow>
    20 \<le> headerLength (finish_options h) \<and> headerLength (finish_options h) \<le> 60 \<and>
    chunk_length (finish_options h) = headerLength (finish_options h)"
  using option_array_length [of h]
  by (auto simp: finish_options_def Let_def TCP_MIN_HEADER_LENGTH_def TCP_OPTIONS_MAX_SIZE_def)

lemma writeHeaderOptions_returns:
  assumes "\<not> synBit h" and "headerOption h = []" and "headerLength h = 20" and "chunk_length h = 20"
    and "\<not> (sack_enabled (state c) \<and> (snd_sack (state c) \<or> snd_dsack (state c)))"
  shows "\<exists>h'. writeHeaderOptions h c = Inr (h', c) \<and> 20 \<le> headerLength h' \<and> headerLength h' \<le> 60 \<and>
    chunk_length h' = headerLength h'"
proof -
  define h1 where "h1 = fst (write_ts (h, c))"
  have h1: "write_ts (h, c) = (h1, c)" "options_length (headerOption h1) \<le> 40" "headerLength h1 = 20" "chunk_length h1 = 20"
    using assms(2-5) by (simp_all add: h1_def write_ts_def insertHeaderOption_def nop_def ts_option_def options_length_def Let_def)
  have "writeHeaderOptions h c = Inr (finish_options h1, c) \<or> writeHeaderOptions h c = Inr (finish_options h, c)"
    using assms(1,5) h1(1) by (auto simp: writeHeaderOptions_def)
  then show ?thesis using finish_returns [of h1] finish_returns [of h] h1 assms(2-4) by auto
qed

lemma sendAck_returns:
  assumes "ack_possible c" and "delayedAckTimer (alg_state c) \<noteq> NoTimer"
  shows "\<exists>c'. sendAck base_callbacks c = Inr c'"
proof -
  obtain w c1 where 1: "updateRcvWnd c = Inr (w, c1)" "alg_state c1 = alg_state c"
    "\<not> (sack_enabled (state c1) \<and> (snd_sack (state c1) \<or> snd_dsack (state c1)))"
    using updateRcvWnd_returns [OF assms(1)] assms(1) by (auto simp: ack_possible_def updateRcvQueueVars_def Let_def)
  define q where "q = (if ect (state c1) then alg_shouldMarkAck base_callbacks c1 else (False, c1))"
  obtain b c2 where 2: "q = (b, c2)" by fastforce
  have q: "alg_state c2 = alg_state c" "\<not> (sack_enabled (state c2) \<and> (snd_sack (state c2) \<or> snd_dsack (state c2)))"
    using 1 2 by (auto simp: q_def base_callbacks_def base_shouldMarkAck_def Let_def split: if_splits)
  let ?h = "header_new\<lparr>ackBit := True, sequenceNo := snd_nxt (state c1), ackNo := rcv_nxt (state c1), window := w, eceBit := b\<rparr>"
  obtain h where h: "writeHeaderOptions ?h c2 = Inr (h, c2)" "20 \<le> headerLength h" "headerLength h \<le> 60"
    "chunk_length h = headerLength h"
    using writeHeaderOptions_returns [OF _ _ _ _ q(2), of ?h] by (auto simp: header_new_def TCP_MIN_HEADER_LENGTH_def)
  then show ?thesis
    using 1(1) 2 assms(2) q(1)
    by (cases "delayedAckTimer (alg_state c)")
      (auto simp: sendAck_def Let_def q_def sendToIP_def TCP_MIN_HEADER_LENGTH_def TCP_MAX_HEADER_LENGTH_def assert_that_def
        base_callbacks_def base_ackSent_def isScheduled_def on_delayedAckTimer_def)
qed

lemma ack_possible_cong [simp]:
  "ack_possible (set_delayedAckTimer t c) \<longleftrightarrow> ack_possible c"
  "ack_possible (c\<lparr>state := (state c)\<lparr>ack_now := b\<rparr>\<rparr>) \<longleftrightarrow> ack_possible c"
  by (simp_all add: ack_possible_def window_shift_def set_delayedAckTimer_def Let_def)

lemma receiveSeqChanged_returns:
  assumes "ack_possible c" and "delayedAckTimer (alg_state c) \<noteq> NoTimer"
  shows "\<exists>c'. base_receiveSeqChanged base_callbacks c = Inr c'"
proof -
  have s: "\<exists>c'. sendAck base_callbacks (c\<lparr>state := (state c)\<lparr>ack_now := b\<rparr>\<rparr>) = Inr c'" for b
    by (rule sendAck_returns) (use assms in simp_all)
  have "\<exists>c'. delayed_ack base_callbacks c = Inr c'"
    using s [of True] sendAck_returns [OF assms] assms(2)
    by (cases "delayedAckTimer (alg_state c)") (auto simp: delayed_ack_def Let_def isScheduled_def on_delayedAckTimer_def)
  then show ?thesis
    using assms(2) by (cases "delayedAckTimer (alg_state c)") (auto simp: base_receiveSeqChanged_def Let_def isScheduled_def)
qed

lemma delayedAck_expires:
  "base_processTimer cb pr ''DELAYEDACK'' c =
     ebind (sendAck cb (set_delayedAckTimer Idle c\<lparr>state := (state c)\<lparr>ack_now := True\<rparr>\<rparr>)) (\<lambda>y. Inr (TCP_E_IGNORE, y))"
  by (simp add: base_processTimer_def base_processDelayedAckTimer_def set_delayedAckTimer_def)

section \<open>Properties\<close>

text \<open>
  C11. A segment with data is acceptable exactly if its first or its last octet lies in the receive window; if it is no longer
  than the window, exactly if any of its octets does. It need not lie in the window as a whole, as the comments of
  \<open>isSegmentAcceptable\<close> say, and with a closed window it is never acceptable. An empty segment is acceptable
  exactly if its sequence number is \<open>rcv_nxt\<close> or at most \<open>rcv_wnd\<close> octets beyond it, the right edge included (so with a
  closed window only at \<open>rcv_nxt\<close>), or if it acknowledges octets that were sent (up to \<open>snd_nxt\<close>; after a retransmission timeout up to
  \<open>snd_max\<close>) and not acknowledged before. All of this also across the wrap-around of the sequence numbers.
\<close>

theorem segment_acceptable_iff_in_window:
  assumes "payloadLength hdr payload = int n" and "unat (rcv_wnd s) < half" and "n < half"
  shows "(0 < n \<longrightarrow> (isSegmentAcceptable hdr payload s \<longleftrightarrow>
      (\<exists>i\<in>{0, n - 1}. sdist (rcv_nxt s) (sequenceNo hdr + of_nat i) < unat (rcv_wnd s)))) \<and>
    (0 < n \<and> n \<le> unat (rcv_wnd s) \<longrightarrow> (isSegmentAcceptable hdr payload s \<longleftrightarrow>
      (\<exists>i<n. sdist (rcv_nxt s) (sequenceNo hdr + of_nat i) < unat (rcv_wnd s)))) \<and>
    (n = 0 \<longrightarrow> (isSegmentAcceptable hdr payload s \<longleftrightarrow>
      sdist (rcv_nxt s) (sequenceNo hdr) \<le> unat (rcv_wnd s) \<or>
      seqLess (snd_una s) (ackNo hdr) \<and> seqLE (ackNo hdr) (if afterRto s then snd_max s else snd_nxt s)))"
proof -
  note a = acceptable_cases [OF assms]
  have "isSegmentAcceptable hdr payload s \<longleftrightarrow>
      (\<exists>i<n. sdist (rcv_nxt s) (sequenceNo hdr + of_nat i) < unat (rcv_wnd s))"
    if "0 < n" "n \<le> unat (rcv_wnd s)"
  proof
    assume "isSegmentAcceptable hdr payload s"
    then have "sdist (rcv_nxt s) (sequenceNo hdr + of_nat 0) < unat (rcv_wnd s) \<or>
        sdist (rcv_nxt s) (sequenceNo hdr + of_nat (n - 1)) < unat (rcv_wnd s)" using a that by simp
    then show "\<exists>i<n. sdist (rcv_nxt s) (sequenceNo hdr + of_nat i) < unat (rcv_wnd s)"
      using that(1) by (metis diff_less zero_less_one)
  next
    assume "\<exists>i<n. sdist (rcv_nxt s) (sequenceNo hdr + of_nat i) < unat (rcv_wnd s)"
    then show "isSegmentAcceptable hdr payload s" using a that octet_between [OF _ _ assms(2)] by auto
  qed
  then show ?thesis using a by auto
qed

theorem segment_acceptable_iff_in_window_witness:
  "isSegmentAcceptable (header_new\<lparr>sequenceNo := 0xFFFFFFFA\<rparr>) (replicate 10 (0 :: nat))
     ((tcb_new 3)\<lparr>rcv_nxt := 0xFFFFFFFE, rcv_wnd := 100\<rparr>)"
proof -
  have p: "payloadLength (header_new\<lparr>sequenceNo := 0xFFFFFFFA\<rparr>) (replicate 10 (0 :: nat)) = int 10"
    by (simp add: payloadLength_def header_new_def)
  show ?thesis
    using segment_acceptable_iff_in_window [OF p, of "(tcb_new 3)\<lparr>rcv_nxt := 0xFFFFFFFE, rcv_wnd := 100\<rparr>"]
    by (simp add: sdist_def)
qed

text \<open>
  C17. Delayed acknowledgments. When \<open>rcv_nxt\<close> has advanced, \<open>receiveSeqChanged\<close> either sends an ACK of everything
  received at once, or leaves the delayed ACK timer armed for at most 200 ms from now, or the
  acknowledgment had gone out already. The second full-sized segment, \<open>ack_now\<close> and the option to switch
  delayed ACKs off force the ACK at once. When the timer expires, in whatever state the connection is then, an ACK of everything
  received by then goes out. Neither of the two fails while the window fits the header and no SACK blocks are due.
\<close>

theorem ack_sent_or_scheduled:
  assumes "\<And>due. delayedAckTimer (alg_state c) = Armed due \<Longrightarrow> due \<le> sim_now c + DELAYED_ACK_TIMEOUT"
  shows "(base_receiveSeqChanged base_callbacks c = Inr c' \<longrightarrow>
      (acked c c' \<or> last_ack_sent (state c) = rcv_nxt (state c) \<and> c' = c \<or>
        (\<exists>due. delayedAckTimer (alg_state c') = Armed due \<and> due \<le> sim_now c + sim_sec div 5)) \<and>
      (2 \<le> full_sized_segment_counter (state c) \<or> ack_now (state c) \<longrightarrow> acked c c') \<and>
      (\<not> delayed_acks_enabled (state c) \<and> last_ack_sent (state c) \<noteq> rcv_nxt (state c) \<longrightarrow> acked c c')) \<and>
    (base_processTimer base_callbacks pr ''DELAYEDACK'' x = Inr (e, y) \<longrightarrow> e = TCP_E_IGNORE \<and> acked x y) \<and>
    (ack_possible x \<and> delayedAckTimer (alg_state x) \<noteq> NoTimer \<longrightarrow>
      is_ok (base_receiveSeqChanged base_callbacks x) \<and> is_ok (base_processTimer base_callbacks pr ''DELAYEDACK'' x))"
proof -
  have now: "acked c c'" if "sendAck base_callbacks x = Inr c'" "x = c \<or> x = c\<lparr>state := (state c)\<lparr>ack_now := True\<rparr>\<rparr>" for x
    using sendAck_acked [OF that(1)] that(2) by (auto simp: acked_def)
  have d: "(if delayed_acks_enabled (state c) \<and> \<not> ack_now (state c) \<and> full_sized_segment_counter (state c) < 2
      then acked c c' \<or> (\<exists>due. delayedAckTimer (alg_state c') = Armed due \<and> due \<le> sim_now c + sim_sec div 5)
      else acked c c')" if "delayed_ack base_callbacks c = Inr c'"
    using that assms
    by (cases "delayedAckTimer (alg_state c)")
      (auto simp: delayed_ack_def Let_def isScheduled_def on_delayedAckTimer_def set_delayedAckTimer_def
        DELAYED_ACK_TIMEOUT_def not_le split: if_splits intro: now)
  let ?x = "set_delayedAckTimer Idle x\<lparr>state := (state x)\<lparr>ack_now := True\<rparr>\<rparr>"
  have "acked x y" if "sendAck base_callbacks ?x = Inr y" for y
    using sendAck_acked [OF that] by (simp add: acked_def set_delayedAckTimer_def)
  moreover have "is_ok (sendAck base_callbacks ?x)" if "ack_possible x"
    using sendAck_returns [of ?x] ack_possible_cong(1) [of Idle x] ack_possible_cong(2) [where c = "set_delayedAckTimer Idle x" and b = True] that
    by (simp add: is_ok_iff set_delayedAckTimer_def)
  ultimately show ?thesis
    using d receiveSeqChanged_returns [of x] unfolding delayedAck_expires
    by (auto simp: base_receiveSeqChanged_def [of _ c] Let_def ebind_Inr_iff is_ok_iff not_le split: if_splits)
qed

theorem ack_sent_or_scheduled_witness:
  "\<exists>c' y. base_receiveSeqChanged base_callbacks (base_example\<lparr>state := (tcb_new 3)\<lparr>delayed_acks_enabled := True,
       rcv_nxt := 5, full_sized_segment_counter := 0\<rparr>\<rparr>) = Inr c' \<and>
     (\<exists>due. delayedAckTimer (alg_state c') = Armed due \<and> due \<le> sim_sec div 5) \<and>
     base_processTimer base_callbacks base_processRexmitTimer ''DELAYEDACK'' c' = Inr (TCP_E_IGNORE, y) \<and> acked c' y"
proof -
  let ?c = "base_example\<lparr>state := (tcb_new 3)\<lparr>delayed_acks_enabled := True, rcv_nxt := 5, full_sized_segment_counter := 0\<rparr>\<rparr>"
  have r: "base_receiveSeqChanged base_callbacks ?c =
      Inr (set_delayedAckTimer (Armed (0 + DELAYED_ACK_TIMEOUT)) ?c)" (is "_ = Inr ?c'")
    by (simp add: base_receiveSeqChanged_def delayed_ack_def Let_def isScheduled_def on_delayedAckTimer_def tcb_new_def
        base_new_def)
  have "ack_possible ?c'" by (simp add: ack_possible_def window_shift_def set_delayedAckTimer_def tcb_new_def)
  moreover have "delayedAckTimer (alg_state ?c') \<noteq> NoTimer" by (simp add: set_delayedAckTimer_def)
  moreover have p: "delayedAckTimer (alg_state ?c) = Armed due \<Longrightarrow> due \<le> sim_now ?c + DELAYED_ACK_TIMEOUT" for due
    by (simp add: base_new_def)
  ultimately have "is_ok (base_processTimer base_callbacks base_processRexmitTimer ''DELAYEDACK'' ?c')"
    using ack_sent_or_scheduled [OF p, of ?c' base_processRexmitTimer ?c'] by blast
  then obtain e y where y: "base_processTimer base_callbacks base_processRexmitTimer ''DELAYEDACK'' ?c' = Inr (e, y)"
    by (auto simp: is_ok_iff)
  then have "e = TCP_E_IGNORE" "acked ?c' y"
    using ack_sent_or_scheduled [OF p, of ?c' base_processRexmitTimer ?c' e y] by blast+
  moreover have "delayedAckTimer (alg_state ?c') = Armed (sim_sec div 5)"
    by (simp add: set_delayedAckTimer_def DELAYED_ACK_TIMEOUT_def)
  ultimately show ?thesis using r y by blast
qed

text \<open>
  C18. \<open>getEphemeralPort\<close> ends and returns a port of the range that no connection uses, and remembers it; it
  throws only if every port of the range is in use.
\<close>

theorem ephemeral_port_found:
  assumes "port_in_range (lastEphemeralPort t)"
  shows "(\<exists>p. getEphemeralPort t = Inr (p, t\<lparr>lastEphemeralPort := p\<rparr>) \<and> p \<notin># usedEphemeralPorts t \<and> port_in_range p) \<or>
    ((\<exists>s. getEphemeralPort t = Inl (RuntimeError s)) \<and> (\<forall>p. port_in_range p \<longrightarrow> p \<in># usedEphemeralPorts t))"
proof -
  have "next_port (lastEphemeralPort t) = port_after (lastEphemeralPort t) 1"
    using port_after_Suc [of "lastEphemeralPort t" 0] port_after_0 [OF assms] by simp
  then show ?thesis
    using search_port_result [OF assms, of 1 "usedEphemeralPorts t" 3976]
    by (auto simp: getEphemeralPort_def EPHEMERAL_PORTRANGE_START_def EPHEMERAL_PORTRANGE_END_def)
qed

theorem ephemeral_port_found_witness:
  "\<exists>p. getEphemeralPort (tables_new\<lparr>usedEphemeralPorts := {#1025, 1026#}\<rparr>) =
       Inr (p, tables_new\<lparr>usedEphemeralPorts := {#1025, 1026#}, lastEphemeralPort := p\<rparr>) \<and> p \<notin># {#1025, 1026#}"
proof -
  let ?t = "tables_new\<lparr>usedEphemeralPorts := {#1025, 1026#}\<rparr>"
  have "port_in_range (lastEphemeralPort ?t)"
    by (simp add: tables_new_def port_in_range_def EPHEMERAL_PORTRANGE_START_def)
  moreover have "port_in_range 1024" by (simp add: port_in_range_def)
  ultimately show ?thesis using ephemeral_port_found [of ?t] by auto
qed

end
