(* ===== verification/Ipv4Addr.thy ===== *)
theory Ipv4Addr
  imports Prelude
begin

text \<open>
  IPv4 addresses, \<open>inet/networklayer/contract/ipv4/Ipv4Address.h\<close> and \<open>.cc\<close>: one \<open>uint32_t\<close> in
  host byte order, so the model's type of addresses is \<^typ>\<open>u32\<close>. The theory models the netmasks, the
  address classes and categories, the prefix comparisons, parsing and printing. It proves the laws the
  routing table rests on (a valid netmask is determined by its length, masking compares prefixes) and
  that parsing inverts printing.
\<close>

section \<open>Definitions\<close>

type_synonym Ipv4Address = u32

text \<open>\<open>set(i0, i1, i2, i3)\<close> and \<open>getDByte\<close>; the bytes of every caller are in \<open>0..255\<close>.\<close>

definition set_bytes :: "u32 \<Rightarrow> u32 \<Rightarrow> u32 \<Rightarrow> u32 \<Rightarrow> Ipv4Address" where
  "set_bytes i0 i1 i2 i3 = push_bit 24 i0 OR push_bit 16 i1 OR push_bit 8 i2 OR i3"

definition getDByte :: "Ipv4Address \<Rightarrow> nat \<Rightarrow> u32" where
  "getDByte addr i = drop_bit ((3 - i) * 8) addr AND 0xFF"

definition ipv4_isUnspecified :: "Ipv4Address \<Rightarrow> bool" where
  "ipv4_isUnspecified addr = (addr = 0)"

definition doAnd :: "Ipv4Address \<Rightarrow> Ipv4Address \<Rightarrow> Ipv4Address" where
  "doAnd addr ip = addr AND ip"

definition isLimitedBroadcastAddress :: "Ipv4Address \<Rightarrow> bool" where
  "isLimitedBroadcastAddress addr = (addr = 0xFFFFFFFF)"

definition ipv4_isMulticast :: "Ipv4Address \<Rightarrow> bool" where
  "ipv4_isMulticast addr = (addr AND 0xF0000000 = 0xE0000000)"

definition isUnicast :: "Ipv4Address \<Rightarrow> bool" where
  "isUnicast addr = (\<not> ipv4_isMulticast addr \<and> \<not> isLimitedBroadcastAddress addr)"

definition isLinkLocalMulticast :: "Ipv4Address \<Rightarrow> bool" where
  "isLinkLocalMulticast addr = (addr AND 0xFFFFFF00 = 0xE0000000)"

subsection \<open>Netmasks and prefixes\<close>

definition make_netmask :: "int \<Rightarrow> u32" where
  "make_netmask len = (if len \<ge> 32 then 0xffffffff else NOT (drop_bit (nat len) 0xffffffff))"

definition checkNetmaskLength :: "int \<Rightarrow> err + unit" where
  "checkNetmaskLength len =
     (if len < 0 \<or> len > 32 then Inl (RuntimeError ''Ipv4Address: wrong netmask length'')
      else Inr ())"

definition makeNetmask :: "int \<Rightarrow> err + Ipv4Address" where
  "makeNetmask len = ebind (checkNetmaskLength len) (\<lambda>_. Inr (make_netmask len))"

text \<open>The loop \<open>for (int i = 0; i < 32; i++)\<close> with \<open>n\<close> rounds left from \<open>i\<close> on.\<close>

fun netmask_length_from :: "nat \<Rightarrow> nat \<Rightarrow> u32 \<Rightarrow> int" where
  "netmask_length_from 0 i addr = 0"
| "netmask_length_from (Suc n) i addr =
     (if addr AND push_bit i 1 \<noteq> 0 then 32 - int i else netmask_length_from n (Suc i) addr)"

definition getNetmaskLength :: "Ipv4Address \<Rightarrow> int" where
  "getNetmaskLength addr = netmask_length_from 32 0 addr"

definition isValidNetmask :: "Ipv4Address \<Rightarrow> bool" where
  "isValidNetmask addr = (addr = make_netmask (getNetmaskLength addr))"

definition getPrefix :: "Ipv4Address \<Rightarrow> int \<Rightarrow> err + Ipv4Address" where
  "getPrefix addr prefixLength = ebind (makeNetmask prefixLength) (\<lambda>m. Inr (doAnd addr m))"

definition prefixMatches :: "Ipv4Address \<Rightarrow> Ipv4Address \<Rightarrow> int \<Rightarrow> bool" where
  "prefixMatches addr other len =
     (if len < 1 then True
      else if len > 31 then addr = other
      else let mask = make_netmask len in addr AND mask = other AND mask)"

text \<open>The loop \<open>for (int i = 31; i >= 0; i--)\<close>, \<open>n = i + 1\<close>.\<close>

fun matching_prefix_from :: "nat \<Rightarrow> u32 \<Rightarrow> int" where
  "matching_prefix_from 0 res = 32"
| "matching_prefix_from (Suc i) res =
     (if res AND push_bit i 1 \<noteq> 0 then 31 - int i else matching_prefix_from i res)"

definition getNumMatchingPrefixBits :: "Ipv4Address \<Rightarrow> Ipv4Address \<Rightarrow> int" where
  "getNumMatchingPrefixBits addr to_cmp = (let res = addr XOR to_cmp in matching_prefix_from 32 res)"

definition maskedAddrAreEqual :: "Ipv4Address \<Rightarrow> Ipv4Address \<Rightarrow> Ipv4Address \<Rightarrow> bool" where
  "maskedAddrAreEqual addr1 addr2 netmask = ((addr1 XOR addr2) AND netmask = 0)"

definition makeBroadcastAddress :: "Ipv4Address \<Rightarrow> Ipv4Address \<Rightarrow> Ipv4Address" where
  "makeBroadcastAddress addr netmask = addr OR NOT netmask"

subsection \<open>Classes and categories\<close>

datatype IPClass = ClassA | ClassB | ClassC | ClassD | ClassE | ClassUnknown

definition getIPClass :: "Ipv4Address \<Rightarrow> IPClass" where
  "getIPClass addr =
     (let buf = getDByte addr 0 in
      if buf AND 0x80 = 0x00 then ClassA
      else if buf AND 0xC0 = 0x80 then ClassB
      else if buf AND 0xE0 = 0xC0 then ClassC
      else if buf AND 0xF0 = 0xE0 then ClassD
      else if buf AND 0xF8 = 0xF0 then ClassE
      else ClassUnknown)"

definition getNetwork :: "Ipv4Address \<Rightarrow> Ipv4Address" where
  "getNetwork addr =
     (case getIPClass addr of
        ClassA \<Rightarrow> set_bytes (getDByte addr 0) 0 0 0
      | ClassB \<Rightarrow> set_bytes (getDByte addr 0) (getDByte addr 1) 0 0
      | ClassC \<Rightarrow> set_bytes (getDByte addr 0) (getDByte addr 1) (getDByte addr 2) 0
      | _ \<Rightarrow> 0)"

definition getNetworkMask :: "Ipv4Address \<Rightarrow> Ipv4Address" where
  "getNetworkMask addr =
     (case getIPClass addr of
        ClassA \<Rightarrow> set_bytes 255 0 0 0
      | ClassB \<Rightarrow> set_bytes 255 255 0 0
      | ClassC \<Rightarrow> set_bytes 255 255 255 0
      | _ \<Rightarrow> 0)"

definition isNetwork :: "Ipv4Address \<Rightarrow> Ipv4Address \<Rightarrow> bool" where
  "isNetwork addr toCmp =
     (let netmask = getNetworkMask addr in
      if ipv4_isUnspecified netmask then False else maskedAddrAreEqual addr toCmp netmask)"

datatype AddressCategory =
    UNSPECIFIED | THIS_NETWORK | LOOPBACK | MULTICAST | BROADCAST | IETF | TEST_NET
  | IPv6_TO_IPv4_RELAY | BENCHMARK | RESERVED | LINKLOCAL | PRIVATE_NETWORK | GLOBAL

definition getAddressCategory :: "Ipv4Address \<Rightarrow> AddressCategory" where
  "getAddressCategory addr =
     (if ipv4_isUnspecified addr then UNSPECIFIED
      else if addr AND 0xFF000000 = 0 then THIS_NETWORK
      else if addr AND 0xFF000000 = 0x7F000000 then LOOPBACK
      else if ipv4_isMulticast addr then MULTICAST
      else if addr = 0xFFFFFFFF then BROADCAST
      else let addr24 = addr AND 0xFFFFFF00 in
        if addr24 = 0xC0000000 then IETF
        else if addr24 = 0xC0000200 \<or> addr24 = 0xC6336400 \<or> addr24 = 0xCB007100 then TEST_NET
        else if addr24 = 0xC0586300 then IPv6_TO_IPv4_RELAY
        else if addr AND 0xFFFE0000 = 0xC6120000 then BENCHMARK
        else if addr AND 0xF0000000 = 0xF0000000 then RESERVED
        else if addr AND 0xFFFF0000 = 0xA9FE0000 then LINKLOCAL
        else if addr AND 0xFF000000 = 0x0A000000 \<or> addr AND 0xFFF00000 = 0xAC100000
              \<or> addr AND 0xFFFF0000 = 0xC0A80000 then PRIVATE_NETWORK
        else GLOBAL)"

subsection \<open>Printing\<close>

text \<open>The \<open>%u\<close> of \<open>sprintf\<close>.\<close>

fun decimal :: "nat \<Rightarrow> string" where
  "decimal n = (if n < 10 then [char_of (48 + n)] else decimal (n div 10) @ [char_of (48 + n mod 10)])"

declare decimal.simps [simp del]

definition ipv4_str :: "bool \<Rightarrow> Ipv4Address \<Rightarrow> string" where
  "ipv4_str printUnspec addr =
     (if printUnspec \<and> ipv4_isUnspecified addr then ''<unspec>''
      else decimal (unat (drop_bit 24 addr AND 255)) @ ''.''
         @ decimal (unat (drop_bit 16 addr AND 255)) @ ''.''
         @ decimal (unat (drop_bit 8 addr AND 255)) @ ''.''
         @ decimal (unat (addr AND 255)))"

subsection \<open>Parsing\<close>

text \<open>
  \<open>parseIPAddress\<close>. A C string is the list of its characters before the terminating null, so
  \<open>*s\<close> is null when the list is empty. The number is accumulated in an \<open>int\<close>, which the code
  lets overflow; the model wraps it at 32 bits.
\<close>

definition isDigit :: "char \<Rightarrow> bool" where
  "isDigit c = (48 \<le> (of_char c :: nat) \<and> (of_char c :: nat) \<le> 57)"

fun read_number :: "u32 \<Rightarrow> string \<Rightarrow> u32 \<times> string" where
  "read_number num [] = (num, [])"
| "read_number num (c # s) =
     (if isDigit c then read_number (10 * num + (of_nat (of_char c) - 48)) s else (num, c # s))"

lemma read_number_length: "length (snd (read_number num s)) \<le> length s"
  by (induction num s rule: read_number.induct) auto

text \<open>The \<open>while (true)\<close> loop; \<open>tobytes\<close> holds the \<open>i\<close> bytes stored so far.\<close>

function parse_numbers :: "u8 list \<Rightarrow> string \<Rightarrow> u8 list option" where
  "parse_numbers tobytes s =
     (if s = [] \<or> \<not> isDigit (hd s) then None
      else let (num, s1) = read_number 0 s; tobytes1 = tobytes @ [ucast num] in
        if (255::u32) <s num then None
        else if s1 = [] then (if length tobytes1 = 4 then Some tobytes1 else None)
        else if hd s1 \<noteq> CHR ''.'' then None
        else if length tobytes1 = 4 then None
        else parse_numbers tobytes1 (tl s1))"
  by auto

termination
proof (relation "measure (\<lambda>(tobytes, s). length s)", simp, clarsimp)
  fix s :: string and num s1
  assume "s1 \<noteq> []" "(num, s1) = read_number 0 s"
  then show "length s1 - Suc 0 < length s"
    using read_number_length [of 0 s] by (cases s1) (auto dest: sym)
qed

declare parse_numbers.simps [simp del]

definition parseIPAddress :: "string \<Rightarrow> u8 list option" where
  "parseIPAddress text' =
     (if text' = ''<unspec>'' then Some [0, 0, 0, 0] else parse_numbers [] text')"

definition isWellFormed :: "string \<Rightarrow> bool" where
  "isWellFormed text' = (parseIPAddress text' \<noteq> None)"

definition set_text :: "string \<Rightarrow> err + Ipv4Address" where
  "set_text text' =
     (case parseIPAddress text' of
        None \<Rightarrow> Inl (RuntimeError ''Invalid Ipv4 address string'')
      | Some buf \<Rightarrow> Inr (set_bytes (ucast (buf ! 0)) (ucast (buf ! 1)) (ucast (buf ! 2)) (ucast (buf ! 3))))"

section \<open>Netmasks\<close>

lemma and_push_bit_one: "(x :: 'a::len word) AND push_bit i 1 \<noteq> 0 \<longleftrightarrow> bit x i"
  by (simp add: bit_iff_and_push_bit_not_eq_0)

lemma and_exp_eq_0 [simp]: "(x :: 'a::len word) AND 2 ^ i = 0 \<longleftrightarrow> \<not> bit x i"
  using and_push_bit_one [of x i] by (simp, blast)

lemma bit_make_netmask:
  assumes "0 \<le> len"
  shows "bit (make_netmask len) i \<longleftrightarrow> i < 32 \<and> 32 \<le> int i + len"
proof -
  have m1: "(0xffffffff :: u32) = -1" by simp
  show ?thesis
    using assms by (auto simp: make_netmask_def m1 bit_simps)
qed

lemma bit_make_netmask_clipped:
  "bit (make_netmask len) i \<Longrightarrow> i < 32"
  using bit_imp_le_length by fastforce

lemma netmask_length_from_eq:
  "i + n = 32 \<Longrightarrow> 0 \<le> len \<Longrightarrow> int i + len \<le> 32 \<Longrightarrow>
   (\<And>j. i \<le> j \<Longrightarrow> j < 32 \<Longrightarrow> bit addr j \<longleftrightarrow> 32 \<le> int j + len) \<Longrightarrow>
   netmask_length_from n i addr = len"
proof (induction n arbitrary: i)
  case 0
  then show ?case by simp
next
  case (Suc n)
  have b: "bit addr i \<longleftrightarrow> int i + len = 32"
    using Suc.prems(1,3) Suc.prems(4) [of i] by auto
  show ?case
  proof (cases "bit addr i")
    case True
    then show ?thesis using b by (simp add: and_push_bit_one)
  next
    case False
    then have "netmask_length_from n (Suc i) addr = len"
      using b Suc.prems by (intro Suc.IH) auto
    then show ?thesis using False by (simp add: and_push_bit_one)
  qed
qed

lemma netmask_length_range: "i + n = 32 \<Longrightarrow> netmask_length_from n i addr \<in> {0..32}"
  by (induction n i addr rule: netmask_length_from.induct) auto

lemma getNetmaskLength_range: "0 \<le> getNetmaskLength m" "getNetmaskLength m \<le> 32"
  using netmask_length_range [of 0 32 m] by (auto simp: getNetmaskLength_def)

lemma getNetmaskLength_make_netmask [simp]:
  "0 \<le> len \<Longrightarrow> len \<le> 32 \<Longrightarrow> getNetmaskLength (make_netmask len) = len"
  unfolding getNetmaskLength_def
  by (rule netmask_length_from_eq) (auto simp: bit_make_netmask)

lemma isValidNetmask_iff: "isValidNetmask m \<longleftrightarrow> (\<exists>len. 0 \<le> len \<and> len \<le> 32 \<and> m = make_netmask len)"
  using getNetmaskLength_range [of m] by (auto simp: isValidNetmask_def)

lemma isValidNetmaskE:
  assumes "isValidNetmask m"
  obtains len where "0 \<le> len" "len \<le> 32" "m = make_netmask len"
  using assms by (auto simp: isValidNetmask_iff)

lemma uint_make_netmask:
  assumes "0 \<le> len" "len \<le> 32"
  shows "uint (make_netmask len) = 2 ^ 32 - 2 ^ nat (32 - len)"
proof (cases "len = 32")
  case True
  then show ?thesis by (simp add: make_netmask_def)
next
  case False
  have m1: "(0xffffffff :: u32) = -1" by simp
  have "uint (drop_bit (nat len) (-1 :: u32)) = (2 ^ 32 - 1) div 2 ^ nat len"
    unfolding unsigned_drop_bit_eq
    by (simp add: drop_bit_eq_div unsigned_minus_1_eq_mask mask_eq_exp_minus_1)
  also have "\<dots> = 2 ^ nat (32 - len) - 1"
    using False assms drop_bit_mask_eq [of "nat len" 32, where 'a = int]
    by (simp add: drop_bit_eq_div mask_eq_exp_minus_1 nat_diff_distrib)
  finally have d: "uint (drop_bit (nat len) (-1 :: u32)) = 2 ^ nat (32 - len) - 1" .
  have "uint (NOT x) = 2 ^ 32 - 1 - uint x" for x :: u32
    using uint_bounded [of x]
    by (simp add: unsigned_not_eq take_bit_not_eq_mask_diff mask_eq_exp_minus_1 take_bit_int_eq_self)
  moreover have "make_netmask len = NOT (drop_bit (nat len) (-1))"
    unfolding make_netmask_def m1 using False assms by (intro if_not_P) simp
  ultimately show ?thesis by (simp only: d)
qed

lemma make_netmask_less_iff:
  assumes "0 \<le> a" "a \<le> 32" "0 \<le> b" "b \<le> 32"
  shows "make_netmask a < make_netmask b \<longleftrightarrow> a < b"
  using assms by (auto simp: word_less_def uint_make_netmask)

lemma netmask_less_iff:
  assumes "isValidNetmask m" "isValidNetmask m'"
  shows "m < m' \<longleftrightarrow> getNetmaskLength m < getNetmaskLength m'"
  using assms by (auto simp: isValidNetmask_iff make_netmask_less_iff)

lemma netmask_eq_iff:
  assumes "isValidNetmask m" "isValidNetmask m'"
  shows "m = m' \<longleftrightarrow> getNetmaskLength m = getNetmaskLength m'"
  using assms by (auto simp: isValidNetmask_def)

section \<open>Prefixes\<close>

definition same_prefix :: "Ipv4Address \<Rightarrow> Ipv4Address \<Rightarrow> int \<Rightarrow> bool" where
  "same_prefix a b n = (\<forall>i<32. 32 \<le> int i + n \<longrightarrow> bit a i = bit b i)"

lemma same_prefix_mono: "same_prefix a b n \<Longrightarrow> m \<le> n \<Longrightarrow> same_prefix a b m"
  by (auto simp: same_prefix_def)

lemma same_prefix_sym: "same_prefix a b n = same_prefix b a n"
  by (auto simp: same_prefix_def)

lemma same_prefix_trans: "same_prefix a b n \<Longrightarrow> same_prefix b c n \<Longrightarrow> same_prefix a c n"
  by (auto simp: same_prefix_def)

lemma masked_eq_iff: "0 \<le> n \<Longrightarrow> a AND make_netmask n = b AND make_netmask n \<longleftrightarrow> same_prefix a b n"
  by (auto simp: bit_eq_iff bit_and_iff bit_make_netmask same_prefix_def)

lemma maskedAddrAreEqual_iff:
  "0 \<le> n \<Longrightarrow> maskedAddrAreEqual a b (make_netmask n) \<longleftrightarrow> same_prefix a b n"
  by (auto simp: maskedAddrAreEqual_def bit_eq_iff bit_and_iff bit_xor_iff bit_make_netmask same_prefix_def)

lemma same_prefix_32: "same_prefix a b 32 \<longleftrightarrow> a = b"
  by (auto simp: same_prefix_def intro: bit_word_eqI)

lemma prefixMatches_same:
  assumes "n \<le> 32"
  shows "prefixMatches a b n \<longleftrightarrow> same_prefix a b n"
proof (cases "n < 1 \<or> n > 31")
  case True
  then show ?thesis
    using assms same_prefix_32 [of a b] by (cases "n = 32") (auto simp: prefixMatches_def same_prefix_def)
next
  case False
  then show ?thesis using assms by (simp add: prefixMatches_def Let_def masked_eq_iff)
qed

lemma matching_prefix_from_ge:
  "n \<le> 32 \<Longrightarrow> n \<le> matching_prefix_from k res \<longleftrightarrow> (\<forall>i<k. bit res i \<longrightarrow> int i + n < 32)"
proof (induction k)
  case 0
  then show ?case by simp
next
  case (Suc k)
  then show ?case by (auto simp: and_push_bit_one less_Suc_eq)
qed

lemma getNumMatching_ge:
  assumes "n \<le> 32"
  shows "n \<le> getNumMatchingPrefixBits a b \<longleftrightarrow> same_prefix a b n"
  unfolding getNumMatchingPrefixBits_def Let_def
  using matching_prefix_from_ge [OF assms, of 32 "a XOR b"]
  by (auto simp: same_prefix_def bit_xor_iff not_le)

section \<open>Printing and parsing\<close>

lemma isDigit_char_of [simp]:
  "(d::nat) < 10 \<Longrightarrow> isDigit (char_of (d + 48))" "(d::nat) < 10 \<Longrightarrow> isDigit (char_of (48 + d))"
  by (simp_all add: isDigit_def)

lemma ucast_word_of_nat: "ucast (of_nat n :: u32) = (of_nat n :: u8)"
  by (rule bit_word_eqI) (simp add: bit_simps)

lemma decimal_not_Nil: "decimal n \<noteq> []"
  by (simp add: decimal.simps)

lemma hd_decimal: "isDigit (hd (decimal n))"
proof (induction n rule: decimal.induct)
  case (1 n)
  then show ?case
    by (subst decimal.simps) (simp add: decimal_not_Nil del: One_nat_def)
qed

lemma read_number_decimal:
  "read_number num (decimal n @ rest) =
   read_number (num * 10 ^ length (decimal n) + of_nat n) rest"
proof (induction n arbitrary: num rest rule: decimal.induct)
  case (1 n)
  show ?case
  proof (cases "n < 10")
    case True
    then show ?thesis by (simp add: decimal.simps algebra_simps)
  next
    case False
    have "of_nat n = (of_nat (10 * (n div 10) + n mod 10) :: u32)" by simp
    also have "\<dots> = 10 * of_nat (n div 10) + of_nat (n mod 10)" by (simp only: of_nat_add of_nat_mult) simp
    finally have n: "(of_nat n :: u32) = 10 * of_nat (n div 10) + of_nat (n mod 10)" .
    have d: "decimal n = decimal (n div 10) @ [char_of (48 + n mod 10)]"
      using False by (subst decimal.simps) simp
    show ?thesis
      using "1.IH" [OF False, of num "char_of (48 + n mod 10) # rest"]
      by (simp add: d n algebra_simps)
  qed
qed

lemma read_number_rest: "rest = [] \<or> \<not> isDigit (hd rest) \<Longrightarrow> read_number num rest = (num, rest)"
  by (cases rest) auto

lemma not_above_255: "n < 256 \<Longrightarrow> \<not> (255::u32) <s of_nat n"
  by (simp add: word_sless_alt sint_uint take_bit_nat_eq_self signed_take_bit_int_eq_self
      unsigned_of_nat take_bit_int_eq_self)

lemma parse_number_step:
  assumes "n < 256" "length bs < 3"
  shows "parse_numbers bs (decimal n @ CHR ''.'' # s) = parse_numbers (bs @ [of_nat n]) s"
proof -
  have "read_number 0 (decimal n @ CHR ''.'' # s) = (of_nat n, CHR ''.'' # s)"
    by (simp add: read_number_decimal read_number_rest isDigit_def)
  then show ?thesis
    using assms not_above_255 [OF assms(1)] decimal_not_Nil [of n] hd_decimal [of n]
    by (subst parse_numbers.simps) (simp add: Let_def ucast_word_of_nat)
qed

lemma parse_number_last:
  assumes "n < 256" "length bs = 3"
  shows "parse_numbers bs (decimal n) = Some (bs @ [of_nat n])"
proof -
  have "read_number 0 (decimal n) = (of_nat n, [])"
    using read_number_decimal [of 0 n "[]"] by simp
  then show ?thesis
    using assms not_above_255 [OF assms(1)] decimal_not_Nil [of n] hd_decimal [of n]
    by (subst parse_numbers.simps) (simp add: Let_def ucast_word_of_nat)
qed

lemma parse_printed:
  assumes "n0 < 256" "n1 < 256" "n2 < 256" "n3 < 256"
  shows "parse_numbers [] (decimal n0 @ ''.'' @ decimal n1 @ ''.'' @ decimal n2 @ ''.'' @ decimal n3)
       = Some [of_nat n0, of_nat n1, of_nat n2, of_nat n3]"
  using assms by (simp add: parse_number_step parse_number_last)

lemma printed_not_unspec: "decimal n @ s \<noteq> ''<unspec>''"
proof
  assume "decimal n @ s = ''<unspec>''"
  then have "hd (decimal n) = CHR ''<''"
    using decimal_not_Nil [of n] by (cases "decimal n") auto
  then show False using hd_decimal [of n] by (simp add: isDigit_def)
qed

lemma set_bytes_of_dbytes:
  "set_bytes (drop_bit 24 a AND 255) (drop_bit 16 a AND 255) (drop_bit 8 a AND 255) (a AND 255) = a"
proof -
  have m: "(255 :: u32) = mask 8" by (simp add: mask_eq_exp_minus_1)
  show ?thesis
    unfolding set_bytes_def m
  proof (rule bit_word_eqI)
    fix n :: nat
    assume "n < LENGTH(32)"
    then consider "n < 8" | "8 \<le> n" "n < 16" | "16 \<le> n" "n < 24" | "24 \<le> n" "n < 32"
      by fastforce
    then show "bit (push_bit 24 (drop_bit 24 a AND mask 8) OR push_bit 16 (drop_bit 16 a AND mask 8) OR
      push_bit 8 (drop_bit 8 a AND mask 8) OR a AND mask 8) n = bit a n"
      by cases (auto simp: bit_simps)
  qed
qed

lemma byte_of_nat: "ucast (ucast (w AND 255 :: u32) :: u8) = (w AND 255 :: u32)"
proof -
  have m: "(255 :: u32) = mask 8" by (simp add: mask_eq_exp_minus_1)
  show ?thesis
    unfolding m by (rule bit_word_eqI) (auto simp: bit_simps)
qed

lemma byte_bound: "unat (w AND 255 :: u32) < 256"
proof -
  have "w AND 255 \<le> 255" by (rule word_and_le1)
  then show ?thesis by (simp add: word_le_nat_alt)
qed

text \<open>
  C39. Parsing inverts printing: the text that \<open>str\<close> makes of an address, with the unspecified address printed
  as \<open><unspec>\<close> or as \<open>0.0.0.0\<close>, is well formed and \<open>set\<close> reads the same address back.
\<close>
theorem parse_print_address: "set_text (ipv4_str printUnspec a) = Inr a"
proof (cases "printUnspec \<and> a = 0")
  case True
  then show ?thesis
    by (simp add: ipv4_str_def ipv4_isUnspecified_def set_text_def parseIPAddress_def set_bytes_def)
next
  case False
  then show ?thesis
    using printed_not_unspec
    by (auto simp: ipv4_str_def ipv4_isUnspecified_def set_text_def parseIPAddress_def
        parse_printed [simplified] byte_bound byte_of_nat set_bytes_of_dbytes)
qed

end
