(* ===== verification/L3Addr.thy ===== *)
theory L3Addr
  imports Ipv4Addr MacAddr
begin

text \<open>
  The address variant \<open>inet/networklayer/common/L3Address.cc\<close>, for the families the modelled modules
  use: no value, an IPv4 address or a MAC address. The classifying predicates throw on an
  address without a value, and so does \<open>operator<\<close> on two of them.
\<close>

datatype L3Addr = L3_NONE | L3_IPv4 Ipv4Address | L3_MAC MacAddress

fun getType :: "L3Addr \<Rightarrow> nat" where
  "getType L3_NONE = 0"
| "getType (L3_IPv4 _) = 1"
| "getType (L3_MAC _) = 4"

fun toIpv4 :: "L3Addr \<Rightarrow> err + Ipv4Address" where
  "toIpv4 L3_NONE = Inr 0"
| "toIpv4 (L3_IPv4 a) = Inr a"
| "toIpv4 (L3_MAC _) = Inl (RuntimeError ''Address is not of the given type'')"

fun toMac :: "L3Addr \<Rightarrow> err + MacAddress" where
  "toMac L3_NONE = Inr (MacAddress 0)"
| "toMac (L3_IPv4 _) = Inl (RuntimeError ''Address is not of the given type'')"
| "toMac (L3_MAC a) = Inr a"

fun l3_isUnspecified :: "L3Addr \<Rightarrow> bool" where
  "l3_isUnspecified L3_NONE = True"
| "l3_isUnspecified (L3_IPv4 a) = ipv4_isUnspecified a"
| "l3_isUnspecified (L3_MAC a) = isUnspecified a"

fun l3_isUnicast :: "L3Addr \<Rightarrow> err + bool" where
  "l3_isUnicast L3_NONE = Inl (RuntimeError ''Address contains no value'')"
| "l3_isUnicast (L3_IPv4 a) = Inr (\<not> ipv4_isMulticast a \<and> \<not> isLimitedBroadcastAddress a)"
| "l3_isUnicast (L3_MAC a) = Inr (\<not> isBroadcast a \<and> \<not> isMulticast a)"

fun l3_isMulticast :: "L3Addr \<Rightarrow> err + bool" where
  "l3_isMulticast L3_NONE = Inl (RuntimeError ''Address contains no value'')"
| "l3_isMulticast (L3_IPv4 a) = Inr (ipv4_isMulticast a)"
| "l3_isMulticast (L3_MAC a) = Inr (isMulticast a)"

fun l3_isBroadcast :: "L3Addr \<Rightarrow> err + bool" where
  "l3_isBroadcast L3_NONE = Inl (RuntimeError ''Address contains no value'')"
| "l3_isBroadcast (L3_IPv4 a) = Inr (isLimitedBroadcastAddress a)"
| "l3_isBroadcast (L3_MAC a) = Inr (isBroadcast a)"

fun l3_isLinkLocal :: "L3Addr \<Rightarrow> err + bool" where
  "l3_isLinkLocal L3_NONE = Inl (RuntimeError ''Address contains no value'')"
| "l3_isLinkLocal (L3_IPv4 a) = Inr False"
| "l3_isLinkLocal (L3_MAC a) = Inr True"

definition l3_less :: "L3Addr \<Rightarrow> L3Addr \<Rightarrow> err + bool" where
  "l3_less a b =
     (if getType a \<noteq> getType b then Inr (getType a < getType b)
      else case a of
          L3_NONE \<Rightarrow> Inl (RuntimeError ''Address contains no value'')
        | L3_IPv4 x \<Rightarrow> ebind (toIpv4 b) (\<lambda>y. Inr (x < y))
        | L3_MAC x \<Rightarrow> ebind (toMac b) (\<lambda>y. Inr (operator_less x y)))"

definition l3_equal :: "L3Addr \<Rightarrow> L3Addr \<Rightarrow> bool" where
  "l3_equal a b =
     (if getType a \<noteq> getType b then False
      else case a of
          L3_NONE \<Rightarrow> True
        | L3_IPv4 x \<Rightarrow> toIpv4 b = Inr x
        | L3_MAC x \<Rightarrow> toMac b = Inr x)"

definition l3_matches :: "L3Addr \<Rightarrow> L3Addr \<Rightarrow> int \<Rightarrow> err + bool" where
  "l3_matches a other prefixLength =
     (case a of
        L3_NONE \<Rightarrow> Inl (RuntimeError ''Address contains no value'')
      | L3_IPv4 x \<Rightarrow> ebind (toIpv4 other) (\<lambda>y. ebind (makeNetmask prefixLength) (\<lambda>m.
          Inr (maskedAddrAreEqual x y m)))
      | L3_MAC x \<Rightarrow> ebind (toMac other) (\<lambda>y. Inr (x = y)))"

definition l3_getPrefix :: "L3Addr \<Rightarrow> int \<Rightarrow> err + L3Addr" where
  "l3_getPrefix a prefixLength =
     (case a of
        L3_NONE \<Rightarrow> Inr a
      | L3_IPv4 x \<Rightarrow> ebind (getPrefix x prefixLength) (\<lambda>p. Inr (L3_IPv4 p))
      | L3_MAC x \<Rightarrow> if prefixLength \<noteq> 48 then Inl (RuntimeError ''mask not supported for MacAddress'')
                    else Inr a)"

lemma l3_equal_iff [simp]: "l3_equal a b \<longleftrightarrow> a = b"
  by (cases a; cases b) (auto simp: l3_equal_def)

lemma l3_less_asym: "l3_less a b = Inr True \<Longrightarrow> l3_less b a = Inr False"
  by (cases a; cases b) (auto simp: l3_less_def operator_less_def)

lemma l3_less_trans: "l3_less a b = Inr True \<Longrightarrow> l3_less b c = Inr True \<Longrightarrow> l3_less a c = Inr True"
  by (cases a; cases b; cases c) (auto simp: l3_less_def operator_less_def)

lemma l3_less_total: "a \<noteq> b \<Longrightarrow> l3_less a b = Inr True \<or> l3_less b a = Inr True"
proof (cases a; cases b)
  fix x y assume "a \<noteq> b" "a = L3_MAC x" "b = L3_MAC y"
  then show ?thesis by (cases x; cases y) (auto simp: l3_less_def operator_less_def)
qed (auto simp: l3_less_def)

end
