(* ===== verification/Ipv4Iface.thy ===== *)
theory Ipv4Iface
  imports Ipv4Addr "HOL-Library.AList" "HOL-Library.Multiset"
begin

text \<open>
  The IPv4 data of a network interface, \<open>inet/networklayer/ipv4/Ipv4InterfaceData.cc\<close> and \<open>.h\<close>: address,
  netmask and metric, the multicast groups joined by the host's sockets with their source filters, and
  the groups with listeners on the link, which multicast routers keep. The central operation is
  \<open>changeMulticastGroupMembership\<close>, which counts references per source address. The theory proves
  that the counts implement the interface state of RFC 3376, section 3.2, computed from the
  filters of all sockets.

  A \<open>std::map\<close> is an association list with ascending keys, since the code iterates over it. The two
  lazily allocated parts \<open>hostData\<close> and \<open>routerData\<close> start as the empty lists that the getters
  allocate.
\<close>

section \<open>Definitions\<close>

subsection \<open>Source lists\<close>

datatype McastSourceFilterMode = MCAST_INCLUDE_SOURCES | MCAST_EXCLUDE_SOURCES

record Ipv4MulticastSourceList =
  filterMode :: McastSourceFilterMode
  sources :: "Ipv4Address list"

definition empty_source_list :: Ipv4MulticastSourceList where
  "empty_source_list = \<lparr>filterMode = MCAST_INCLUDE_SOURCES, sources = []\<rparr>"

definition ALL_SOURCES :: Ipv4MulticastSourceList where
  "ALL_SOURCES = \<lparr>filterMode = MCAST_EXCLUDE_SOURCES, sources = []\<rparr>"

definition sl_isEmpty :: "Ipv4MulticastSourceList \<Rightarrow> bool" where
  "sl_isEmpty l = (filterMode l = MCAST_INCLUDE_SOURCES \<and> sources l = [])"

definition sl_containsAll :: "Ipv4MulticastSourceList \<Rightarrow> bool" where
  "sl_containsAll l = (filterMode l = MCAST_EXCLUDE_SOURCES \<and> sources l = [])"

definition sl_contains :: "Ipv4MulticastSourceList \<Rightarrow> Ipv4Address \<Rightarrow> bool" where
  "sl_contains l source =
     (filterMode l = MCAST_INCLUDE_SOURCES \<and> source \<in> set (sources l) \<or>
      filterMode l = MCAST_EXCLUDE_SOURCES \<and> source \<notin> set (sources l))"

text \<open>\<open>std::lower_bound\<close> and insertion there, on a sorted vector.\<close>

fun insert_lower_bound :: "Ipv4Address \<Rightarrow> Ipv4Address list \<Rightarrow> Ipv4Address list" where
  "insert_lower_bound a [] = [a]"
| "insert_lower_bound a (b # bs) =
     (if b < a then b # insert_lower_bound a bs else if b \<noteq> a then a # b # bs else b # bs)"

definition sl_add :: "Ipv4Address \<Rightarrow> Ipv4MulticastSourceList \<Rightarrow> Ipv4MulticastSourceList \<times> bool" where
  "sl_add source l =
     (let srcs = (if filterMode l = MCAST_INCLUDE_SOURCES then insert_lower_bound source (sources l)
                  else removeAll source (sources l))
      in (l\<lparr>sources := srcs\<rparr>, length srcs \<noteq> length (sources l)))"

definition sl_remove :: "Ipv4Address \<Rightarrow> Ipv4MulticastSourceList \<Rightarrow> Ipv4MulticastSourceList \<times> bool" where
  "sl_remove source l =
     (let srcs = (if filterMode l = MCAST_INCLUDE_SOURCES then removeAll source (sources l)
                  else insert_lower_bound source (sources l))
      in (l\<lparr>sources := srcs\<rparr>, length srcs \<noteq> length (sources l)))"

subsection \<open>The data of an interface\<close>

type_synonym counts = "(Ipv4Address \<times> int) list"

record HostMulticastGroupData =
  multicastGroup :: Ipv4Address
  includeCounts :: counts
  excludeCounts :: counts
  numOfExcludeModeSockets :: int
  sourceList :: Ipv4MulticastSourceList

record RouterMulticastGroupData =
  reportedGroup :: Ipv4Address
  reportedSources :: Ipv4MulticastSourceList

record Ipv4InterfaceData =
  inetAddr :: Ipv4Address
  inetMask :: Ipv4Address
  ifMetric :: int
  joinedMulticastGroups :: "HostMulticastGroupData list"
  reportedMulticastGroups :: "RouterMulticastGroupData list"
  multicastTtlThreshold :: int

definition new_interface_data :: Ipv4InterfaceData where
  "new_interface_data = \<lparr>inetAddr = 0, inetMask = 0xFFFFFFFF, ifMetric = 0, joinedMulticastGroups = [],
     reportedMulticastGroups = [], multicastTtlThreshold = 0\<rparr>"

definition new_host_group :: "Ipv4Address \<Rightarrow> HostMulticastGroupData" where
  "new_host_group g = \<lparr>multicastGroup = g, includeCounts = [], excludeCounts = [],
     numOfExcludeModeSockets = 0, sourceList = empty_source_list\<rparr>"

definition new_router_group :: "Ipv4Address \<Rightarrow> RouterMulticastGroupData" where
  "new_router_group g = \<lparr>reportedGroup = g, reportedSources = empty_source_list\<rparr>"

text \<open>The notifications: \<open>changed1\<close> with its field and the signals the interface table emits.\<close>

datatype iface_signal =
    F_IP_ADDRESS | F_NETMASK | F_IF_METRIC | F_MULTICAST_TTL_THRESHOLD
  | F_MULTICAST_ADDRESSES | F_MULTICAST_LISTENERS
  | ipv4MulticastChange Ipv4Address Ipv4MulticastSourceList
  | ipv4MulticastGroupJoined Ipv4Address | ipv4MulticastGroupLeft Ipv4Address
  | ipv4MulticastGroupRegistered Ipv4Address | ipv4MulticastGroupUnregistered Ipv4Address

type_synonym iface_result = "Ipv4InterfaceData \<times> iface_signal list"

definition setIPAddress :: "Ipv4Address \<Rightarrow> Ipv4InterfaceData \<Rightarrow> iface_result" where
  "setIPAddress a d = (d\<lparr>inetAddr := a\<rparr>, [F_IP_ADDRESS])"

definition setInetNetmask :: "Ipv4Address \<Rightarrow> Ipv4InterfaceData \<Rightarrow> iface_result" where
  "setInetNetmask m d = (d\<lparr>inetMask := m\<rparr>, [F_NETMASK])"

definition setIfMetric :: "int \<Rightarrow> Ipv4InterfaceData \<Rightarrow> iface_result" where
  "setIfMetric m d = (d\<lparr>ifMetric := m\<rparr>, [F_IF_METRIC])"

definition setMulticastTtlThreshold :: "int \<Rightarrow> Ipv4InterfaceData \<Rightarrow> iface_result" where
  "setMulticastTtlThreshold n d = (d\<lparr>multicastTtlThreshold := n\<rparr>, [F_MULTICAST_TTL_THRESHOLD])"

definition getNetworkBroadcastAddress :: "Ipv4InterfaceData \<Rightarrow> Ipv4Address" where
  "getNetworkBroadcastAddress d = makeBroadcastAddress (inetAddr d) (inetMask d)"

definition isMemberOfMulticastGroup :: "Ipv4InterfaceData \<Rightarrow> Ipv4Address \<Rightarrow> bool" where
  "isMemberOfMulticastGroup d g = (\<exists>e \<in> set (joinedMulticastGroups d). multicastGroup e = g)"

subsection \<open>Group membership of the host\<close>

definition findHostGroupData :: "Ipv4Address \<Rightarrow> Ipv4InterfaceData \<Rightarrow> err + HostMulticastGroupData option" where
  "findHostGroupData g d = ebind (assert_that (ipv4_isMulticast g))
     (\<lambda>_. Inr (find (\<lambda>e. multicastGroup e = g) (joinedMulticastGroups d)))"

fun remove_first :: "('a \<Rightarrow> bool) \<Rightarrow> 'a list \<Rightarrow> 'a list" where
  "remove_first P [] = []"
| "remove_first P (x # xs) = (if P x then xs else x # remove_first P xs)"

fun update_first :: "('a \<Rightarrow> bool) \<Rightarrow> 'a \<Rightarrow> 'a list \<Rightarrow> 'a list" where
  "update_first P y [] = []"
| "update_first P y (x # xs) = (if P x then y # xs else x # update_first P y xs)"

definition removeHostGroupData :: "Ipv4Address \<Rightarrow> Ipv4InterfaceData \<Rightarrow> err + Ipv4InterfaceData \<times> bool" where
  "removeHostGroupData g d = ebind (assert_that (ipv4_isMulticast g))
     (\<lambda>_. Inr (d\<lparr>joinedMulticastGroups :=
                remove_first (\<lambda>e. multicastGroup e = g) (joinedMulticastGroups d)\<rparr>,
              \<exists>e \<in> set (joinedMulticastGroups d). multicastGroup e = g))"

text \<open>\<open>(*counts)[elem] = n\<close> on a \<open>std::map\<close>.\<close>

fun map_set :: "'k::linorder \<Rightarrow> 'v \<Rightarrow> ('k \<times> 'v) list \<Rightarrow> ('k \<times> 'v) list" where
  "map_set k v [] = [(k, v)]"
| "map_set k v ((k', v') # m) =
     (if k' < k then (k', v') # map_set k v m
      else if k' = k then (k, v) # m else (k, v) # (k', v') # m)"

definition release_source :: "Ipv4Address \<Rightarrow> counts \<Rightarrow> err + counts" where
  "release_source elem cs =
     (case map_of cs elem of
        None \<Rightarrow> Inl (RuntimeError ''Inconsistent reference counts in Ipv4InterfaceData.'')
      | Some n \<Rightarrow> if n = 1 then Inr (AList.delete elem cs) else Inr (map_set elem (n - 1) cs))"

definition acquire_source :: "Ipv4Address \<Rightarrow> counts \<Rightarrow> counts" where
  "acquire_source elem cs =
     (case map_of cs elem of None \<Rightarrow> map_set elem 1 cs | Some n \<Rightarrow> map_set elem (n + 1) cs)"

definition updateSourceList :: "HostMulticastGroupData \<Rightarrow> HostMulticastGroupData \<times> bool" where
  "updateSourceList e =
     (let mode = (if numOfExcludeModeSockets e = 0 then MCAST_INCLUDE_SOURCES else MCAST_EXCLUDE_SOURCES);
          srcs = (if numOfExcludeModeSockets e = 0 then map fst (includeCounts e)
                  else map fst (filter (\<lambda>(a, n). n = numOfExcludeModeSockets e
                                          \<and> map_of (includeCounts e) a = None) (excludeCounts e)))
      in if filterMode (sourceList e) \<noteq> mode \<or> sources (sourceList e) \<noteq> srcs
         then (e\<lparr>sourceList := \<lparr>filterMode = mode, sources = srcs\<rparr>\<rparr>, True)
         else (e, False))"

text \<open>The two loops over the old and the new source list, on the maps their modes select.\<close>

definition release_sources ::
  "McastSourceFilterMode \<Rightarrow> Ipv4Address list \<Rightarrow> HostMulticastGroupData \<Rightarrow> err + HostMulticastGroupData" where
  "release_sources mode srcs e =
     (case mode of
        MCAST_INCLUDE_SOURCES \<Rightarrow>
          ebind (efold release_source srcs (includeCounts e)) (\<lambda>cs. Inr (e\<lparr>includeCounts := cs\<rparr>))
      | MCAST_EXCLUDE_SOURCES \<Rightarrow>
          ebind (efold release_source srcs (excludeCounts e)) (\<lambda>cs. Inr (e\<lparr>excludeCounts := cs\<rparr>)))"

definition acquire_sources ::
  "McastSourceFilterMode \<Rightarrow> Ipv4Address list \<Rightarrow> HostMulticastGroupData \<Rightarrow> HostMulticastGroupData" where
  "acquire_sources mode srcs e =
     (case mode of
        MCAST_INCLUDE_SOURCES \<Rightarrow> e\<lparr>includeCounts := fold acquire_source srcs (includeCounts e)\<rparr>
      | MCAST_EXCLUDE_SOURCES \<Rightarrow> e\<lparr>excludeCounts := fold acquire_source srcs (excludeCounts e)\<rparr>)"

definition count_mode_change ::
  "McastSourceFilterMode \<Rightarrow> McastSourceFilterMode \<Rightarrow> HostMulticastGroupData \<Rightarrow> HostMulticastGroupData" where
  "count_mode_change oldMode newMode e =
     (if oldMode = MCAST_INCLUDE_SOURCES \<and> newMode = MCAST_EXCLUDE_SOURCES
      then e\<lparr>numOfExcludeModeSockets := numOfExcludeModeSockets e + 1\<rparr>
      else if oldMode = MCAST_EXCLUDE_SOURCES \<and> newMode = MCAST_INCLUDE_SOURCES
      then e\<lparr>numOfExcludeModeSockets := numOfExcludeModeSockets e - 1\<rparr>
      else e)"

text \<open>The part of \<open>changeMulticastGroupMembership\<close> after the record \<open>e\<close> of the group is found or made.\<close>

definition change_group_entry ::
  "Ipv4Address \<Rightarrow> McastSourceFilterMode \<Rightarrow> Ipv4Address list \<Rightarrow> McastSourceFilterMode \<Rightarrow> Ipv4Address list \<Rightarrow>
   HostMulticastGroupData \<Rightarrow> Ipv4InterfaceData \<Rightarrow> err + iface_result" where
  "change_group_entry g oldMode oldList newMode newList e d =
     ebind (release_sources oldMode oldList e) (\<lambda>e1.
       let e2 = count_mode_change oldMode newMode (acquire_sources newMode newList e1);
           (e3, ch) = updateSourceList e2;
           d2 = d\<lparr>joinedMulticastGroups :=
                  update_first (\<lambda>e. multicastGroup e = g) e3 (joinedMulticastGroups d)\<rparr>
       in if ch then
            let sigs = [F_MULTICAST_ADDRESSES, ipv4MulticastChange g (sourceList e3)] @
                  (if oldMode \<noteq> newMode \<and> oldList = [] \<and> newList = []
                   then [if newMode = MCAST_EXCLUDE_SOURCES then ipv4MulticastGroupJoined g
                         else ipv4MulticastGroupLeft g]
                   else [])
            in if sl_isEmpty (sourceList e3)
               then ebind (removeHostGroupData g d2) (\<lambda>(d3, _). Inr (d3, sigs))
               else Inr (d2, sigs)
          else Inr (d2, []))"

definition changeMulticastGroupMembership ::
  "Ipv4Address \<Rightarrow> McastSourceFilterMode \<Rightarrow> Ipv4Address list \<Rightarrow> McastSourceFilterMode \<Rightarrow> Ipv4Address list \<Rightarrow>
   Ipv4InterfaceData \<Rightarrow> err + iface_result" where
  "changeMulticastGroupMembership g oldMode oldList newMode newList d =
     (if \<not> ipv4_isMulticast g then Inl (RuntimeError ''multicast address expected'')
      else ebind (findHostGroupData g d) (\<lambda>found.
        case found of
          None \<Rightarrow> ebind (assert_that (oldMode = MCAST_INCLUDE_SOURCES \<and> oldList = []))
            (\<lambda>_. change_group_entry g oldMode oldList newMode newList (new_host_group g)
                   (d\<lparr>joinedMulticastGroups := joinedMulticastGroups d @ [new_host_group g]\<rparr>))
        | Some e \<Rightarrow> change_group_entry g oldMode oldList newMode newList e d))"

definition joinMulticastGroup :: "Ipv4Address \<Rightarrow> Ipv4InterfaceData \<Rightarrow> err + iface_result" where
  "joinMulticastGroup g =
     changeMulticastGroupMembership g MCAST_INCLUDE_SOURCES [] MCAST_EXCLUDE_SOURCES []"

definition leaveMulticastGroup :: "Ipv4Address \<Rightarrow> Ipv4InterfaceData \<Rightarrow> err + iface_result" where
  "leaveMulticastGroup g =
     changeMulticastGroupMembership g MCAST_EXCLUDE_SOURCES [] MCAST_INCLUDE_SOURCES []"

subsection \<open>Listeners on the link\<close>

definition findRouterGroupData :: "Ipv4Address \<Rightarrow> Ipv4InterfaceData \<Rightarrow> err + RouterMulticastGroupData option" where
  "findRouterGroupData g d = ebind (assert_that (ipv4_isMulticast g))
     (\<lambda>_. Inr (find (\<lambda>e. reportedGroup e = g) (reportedMulticastGroups d)))"

definition removeRouterGroupData :: "Ipv4Address \<Rightarrow> Ipv4InterfaceData \<Rightarrow> err + Ipv4InterfaceData \<times> bool" where
  "removeRouterGroupData g d = ebind (assert_that (ipv4_isMulticast g))
     (\<lambda>_. Inr (d\<lparr>reportedMulticastGroups :=
                remove_first (\<lambda>e. reportedGroup e = g) (reportedMulticastGroups d)\<rparr>,
              \<exists>e \<in> set (reportedMulticastGroups d). reportedGroup e = g))"

definition hasMulticastListener :: "Ipv4Address \<Rightarrow> Ipv4InterfaceData \<Rightarrow> err + bool" where
  "hasMulticastListener g d = ebind (findRouterGroupData g d)
     (\<lambda>r. Inr (case r of None \<Rightarrow> False | Some e \<Rightarrow> \<not> sl_isEmpty (reportedSources e)))"

definition hasMulticastListener_from :: "Ipv4Address \<Rightarrow> Ipv4Address \<Rightarrow> Ipv4InterfaceData \<Rightarrow> err + bool" where
  "hasMulticastListener_from g source d = ebind (findRouterGroupData g d)
     (\<lambda>r. Inr (case r of None \<Rightarrow> False | Some e \<Rightarrow> \<not> sl_contains (reportedSources e) source))"

definition put_router_group :: "RouterMulticastGroupData \<Rightarrow> Ipv4InterfaceData \<Rightarrow> Ipv4InterfaceData" where
  "put_router_group e d = d\<lparr>reportedMulticastGroups :=
     update_first (\<lambda>x. reportedGroup x = reportedGroup e) e (reportedMulticastGroups d)\<rparr>"

text \<open>The common start of the two \<open>addMulticastListener\<close>: find the group or register it.\<close>

definition obtain_router_group ::
  "Ipv4Address \<Rightarrow> Ipv4InterfaceData \<Rightarrow> err + (RouterMulticastGroupData \<times> iface_result)" where
  "obtain_router_group g d =
     (if \<not> ipv4_isMulticast g then Inl (RuntimeError ''multicast address expected'')
      else ebind (findRouterGroupData g d) (\<lambda>r. Inr (case r of
          Some e \<Rightarrow> (e, d, [])
        | None \<Rightarrow> (new_router_group g,
                   d\<lparr>reportedMulticastGroups := reportedMulticastGroups d @ [new_router_group g]\<rparr>,
                   [ipv4MulticastGroupRegistered g]))))"

definition addMulticastListener :: "Ipv4Address \<Rightarrow> Ipv4InterfaceData \<Rightarrow> err + iface_result" where
  "addMulticastListener g d = ebind (obtain_router_group g d) (\<lambda>(e, d1, sigs).
     if \<not> sl_containsAll (reportedSources e)
     then Inr (put_router_group (e\<lparr>reportedSources := ALL_SOURCES\<rparr>) d1, sigs @ [F_MULTICAST_LISTENERS])
     else Inr (d1, sigs))"

definition addMulticastListener_from ::
  "Ipv4Address \<Rightarrow> Ipv4Address \<Rightarrow> Ipv4InterfaceData \<Rightarrow> err + iface_result" where
  "addMulticastListener_from g source d = ebind (obtain_router_group g d) (\<lambda>(e, d1, sigs).
     if \<not> sl_contains (reportedSources e) source
     then Inr (put_router_group (e\<lparr>reportedSources := fst (sl_add source (reportedSources e))\<rparr>) d1,
               sigs @ [F_MULTICAST_LISTENERS])
     else Inr (d1, sigs))"

definition removeMulticastListener :: "Ipv4Address \<Rightarrow> Ipv4InterfaceData \<Rightarrow> iface_result" where
  "removeMulticastListener g d =
     (if \<exists>e \<in> set (reportedMulticastGroups d). reportedGroup e = g
      then (d\<lparr>reportedMulticastGroups :=
               remove_first (\<lambda>e. reportedGroup e = g) (reportedMulticastGroups d)\<rparr>,
            [F_MULTICAST_LISTENERS, ipv4MulticastGroupUnregistered g])
      else (d, []))"

definition removeMulticastListener_from ::
  "Ipv4Address \<Rightarrow> Ipv4Address \<Rightarrow> Ipv4InterfaceData \<Rightarrow> iface_result" where
  "removeMulticastListener_from g source d =
     (case find (\<lambda>e. reportedGroup e = g) (reportedMulticastGroups d) of
        None \<Rightarrow> (d, [])
      | Some e \<Rightarrow>
          let l = fst (sl_remove source (reportedSources e)) in
          if sl_isEmpty l
          then (d\<lparr>reportedMulticastGroups :=
                   remove_first (\<lambda>e. reportedGroup e = g) (reportedMulticastGroups d)\<rparr>,
                [ipv4MulticastGroupUnregistered g, F_MULTICAST_LISTENERS])
          else (put_router_group (e\<lparr>reportedSources := l\<rparr>) d, [F_MULTICAST_LISTENERS]))"

definition setMulticastListeners ::
  "Ipv4Address \<Rightarrow> McastSourceFilterMode \<Rightarrow> Ipv4Address list \<Rightarrow> Ipv4InterfaceData \<Rightarrow> err + iface_result" where
  "setMulticastListeners g mode srcs d =
     (if \<not> ipv4_isMulticast g then Inl (RuntimeError ''multicast address expected'')
      else ebind (findRouterGroupData g d) (\<lambda>r.
        let (e, d1) = (case r of
                Some e \<Rightarrow> (e, d)
              | None \<Rightarrow> (new_router_group g,
                   d\<lparr>reportedMulticastGroups := reportedMulticastGroups d @ [new_router_group g]\<rparr>))
        in if mode \<noteq> filterMode (reportedSources e) \<or> srcs \<noteq> sources (reportedSources e)
           then if mode \<noteq> MCAST_INCLUDE_SOURCES \<or> srcs \<noteq> []
                then Inr (put_router_group (e\<lparr>reportedSources := \<lparr>filterMode = mode, sources = srcs\<rparr>\<rparr>) d1,
                          [F_MULTICAST_LISTENERS])
                else ebind (removeRouterGroupData g d1) (\<lambda>(d2, _). Inr (d2, [F_MULTICAST_LISTENERS]))
           else Inr (d1, [])))"

section \<open>Reference counts\<close>

lemma map_set_keys: "set (map fst (map_set k v m)) = insert k (set (map fst m))"
  by (induction k v m rule: map_set.induct) auto

lemma map_of_map_set:
  "sorted_wrt (<) (map fst m) \<Longrightarrow> map_of (map_set k v m) = (map_of m)(k \<mapsto> v)"
  by (induction k v m rule: map_set.induct) (auto simp: fun_eq_iff)

lemma sorted_map_set: "sorted_wrt (<) (map fst m) \<Longrightarrow> sorted_wrt (<) (map fst (map_set k v m))"
proof (induction k v m rule: map_set.induct)
  case (2 k v k' v' m)
  have "\<forall>x \<in> set (map_set k v m). fst x = k \<or> fst x \<in> set (map fst m)"
    using map_set_keys [of k v m] by (metis image_eqI insert_iff set_map)
  then show ?case using 2 by fastforce
qed simp

lemma sorted_delete: "sorted_wrt (<) (map fst m) \<Longrightarrow> sorted_wrt (<) (map fst (AList.delete k m))"
  by (induction m) (auto simp: AList.delete_eq)

text \<open>A map of counts stands for a function to the naturals that is positive on its keys.\<close>

definition counts_rep :: "counts \<Rightarrow> (Ipv4Address \<Rightarrow> nat) \<Rightarrow> bool" where
  "counts_rep cs c \<longleftrightarrow> sorted_wrt (<) (map fst cs) \<and>
     (\<forall>a. map_of cs a = (if c a = 0 then None else Some (int (c a))))"

lemma counts_rep_empty [simp]: "counts_rep [] (\<lambda>_. 0)"
  by (simp add: counts_rep_def)

lemma counts_rep_keys: "counts_rep cs c \<Longrightarrow> set (map fst cs) = {a. 0 < c a}"
  by (auto simp: counts_rep_def dom_map_of_conv_image_fst [symmetric] domIff split: if_splits)

lemma release_source_rep:
  assumes "counts_rep cs c" "0 < c a"
  shows "\<exists>cs'. release_source a cs = Inr cs' \<and> counts_rep cs' (c(a := c a - 1))"
proof (cases "c a = 1")
  case True
  then show ?thesis
    using assms by (auto simp: counts_rep_def release_source_def sorted_delete AList.delete_conv)
next
  case False
  then show ?thesis
    using assms
    by (auto simp: counts_rep_def release_source_def sorted_map_set map_of_map_set)
qed

lemma acquire_source_rep: "counts_rep cs c \<Longrightarrow> counts_rep (acquire_source a cs) (c(a := c a + 1))"
  by (auto simp: counts_rep_def acquire_source_def sorted_map_set map_of_map_set)

definition indic :: "Ipv4Address list \<Rightarrow> Ipv4Address \<Rightarrow> nat" where
  "indic xs a = (if a \<in> set xs then 1 else 0)"

lemma release_loop:
  "distinct srcs \<Longrightarrow> counts_rep cs (\<lambda>a. c a + indic srcs a) \<Longrightarrow>
   \<exists>cs'. efold release_source srcs cs = Inr cs' \<and> counts_rep cs' c"
proof (induction srcs arbitrary: cs)
  case Nil
  then show ?case by (simp add: indic_def)
next
  case (Cons x srcs)
  obtain cs1 where cs1: "release_source x cs = Inr cs1"
      "counts_rep cs1 ((\<lambda>a. c a + indic (x # srcs) a)(x := c x + indic (x # srcs) x - 1))"
    using release_source_rep [OF Cons.prems(2), of x] by (auto simp: indic_def)
  have "(\<lambda>a. c a + indic (x # srcs) a)(x := c x + indic (x # srcs) x - 1) = (\<lambda>a. c a + indic srcs a)"
    using Cons.prems(1) by (auto simp: indic_def)
  then show ?case using Cons.IH [of cs1] Cons.prems(1) cs1 by simp
qed

lemma acquire_loop:
  "distinct srcs \<Longrightarrow> counts_rep cs c \<Longrightarrow>
   counts_rep (fold acquire_source srcs cs) (\<lambda>a. c a + indic srcs a)"
proof (induction srcs arbitrary: cs c)
  case Nil
  then show ?case by (simp add: indic_def)
next
  case (Cons x srcs)
  have "(\<lambda>a. (c(x := c x + 1)) a + indic srcs a) = (\<lambda>a. c a + indic (x # srcs) a)"
    using Cons.prems(1) by (auto simp: indic_def)
  then show ?case
    using Cons.IH [OF _ acquire_source_rep [OF Cons.prems(2), of x]] Cons.prems(1) by simp
qed

section \<open>The interface state of RFC 3376\<close>

text \<open>
  Section 3.2 of RFC 3376 computes the state of an interface for a group from the records of all
  sockets: the filter mode is EXCLUDE if any record's is; the source list is then the intersection of
  the excluded lists minus the union of the included ones, otherwise the union of the included ones.
\<close>

type_synonym socket_filter = "McastSourceFilterMode \<times> Ipv4Address list"

definition rfc3376_mode :: "socket_filter multiset \<Rightarrow> McastSourceFilterMode" where
  "rfc3376_mode S = (if \<exists>f \<in># S. fst f = MCAST_EXCLUDE_SOURCES then MCAST_EXCLUDE_SOURCES
                     else MCAST_INCLUDE_SOURCES)"

definition rfc3376_sources :: "socket_filter multiset \<Rightarrow> Ipv4Address set" where
  "rfc3376_sources S =
     (if rfc3376_mode S = MCAST_INCLUDE_SOURCES then {a. \<exists>f \<in># S. a \<in> set (snd f)}
      else {a. (\<forall>f \<in># S. fst f = MCAST_EXCLUDE_SOURCES \<longrightarrow> a \<in> set (snd f)) \<and>
               \<not> (\<exists>f \<in># S. fst f = MCAST_INCLUDE_SOURCES \<and> a \<in> set (snd f))})"

definition implements_filters :: "Ipv4MulticastSourceList \<Rightarrow> socket_filter multiset \<Rightarrow> bool" where
  "implements_filters l S \<longleftrightarrow> filterMode l = rfc3376_mode S \<and> set (sources l) = rfc3376_sources S
     \<and> sorted_wrt (<) (sources l)"

definition group_filter :: "Ipv4Address \<Rightarrow> Ipv4InterfaceData \<Rightarrow> Ipv4MulticastSourceList" where
  "group_filter g d = (case find (\<lambda>e. multicastGroup e = g) (joinedMulticastGroups d) of
     None \<Rightarrow> empty_source_list | Some e \<Rightarrow> sourceList e)"

definition holders :: "McastSourceFilterMode \<Rightarrow> socket_filter multiset \<Rightarrow> Ipv4Address \<Rightarrow> nat" where
  "holders m S a = size {# f \<in># S. fst f = m \<and> a \<in> set (snd f) #}"

definition in_mode :: "McastSourceFilterMode \<Rightarrow> socket_filter multiset \<Rightarrow> nat" where
  "in_mode m S = size {# f \<in># S. fst f = m #}"

definition counts_of :: "HostMulticastGroupData \<Rightarrow> socket_filter multiset \<Rightarrow> bool" where
  "counts_of e S \<longleftrightarrow> counts_rep (includeCounts e) (holders MCAST_INCLUDE_SOURCES S)
     \<and> counts_rep (excludeCounts e) (holders MCAST_EXCLUDE_SOURCES S)
     \<and> numOfExcludeModeSockets e = int (in_mode MCAST_EXCLUDE_SOURCES S)"

lemma holders_add: "holders m (add_mset f S) a =
    holders m S a + (if fst f = m \<and> a \<in> set (snd f) then 1 else 0)"
  by (simp add: holders_def)

lemma in_mode_add: "in_mode m (add_mset f S) = in_mode m S + (if fst f = m then 1 else 0)"
  by (simp add: in_mode_def)

lemma size_filter_eq_0: "size (filter_mset P S) = 0 \<longleftrightarrow> (\<forall>x \<in># S. \<not> P x)"
  by (induction S) auto

lemma holders_pos: "0 < holders m S a \<longleftrightarrow> (\<exists>f \<in># S. fst f = m \<and> a \<in> set (snd f))"
  unfolding holders_def neq0_conv [symmetric] size_filter_eq_0 by blast

lemma holders_zero: "holders m S a = 0 \<longleftrightarrow> \<not> (\<exists>f \<in># S. fst f = m \<and> a \<in> set (snd f))"
  unfolding holders_def size_filter_eq_0 by blast

lemma in_mode_pos: "0 < in_mode m S \<longleftrightarrow> (\<exists>f \<in># S. fst f = m)"
  unfolding in_mode_def neq0_conv [symmetric] size_filter_eq_0 by blast

lemma holders_all: "holders m S a = in_mode m S \<longleftrightarrow> (\<forall>f \<in># S. fst f = m \<longrightarrow> a \<in> set (snd f))"
proof -
  have "in_mode m S = holders m S a + size {# f \<in># S. fst f = m \<and> a \<notin> set (snd f) #}"
    by (induction S) (auto simp: in_mode_def holders_def)
  then show ?thesis using size_filter_eq_0 [of "\<lambda>f. fst f = m \<and> a \<notin> set (snd f)" S] by auto
qed

lemma sorted_map_fst_filter: "sorted_wrt (<) (map fst m) \<Longrightarrow> sorted_wrt (<) (map fst (filter P m))"
  by (induction m) auto

lemma updateSourceList_result:
  "fst (updateSourceList e) = e\<lparr>sourceList := \<lparr>
      filterMode = (if numOfExcludeModeSockets e = 0 then MCAST_INCLUDE_SOURCES else MCAST_EXCLUDE_SOURCES),
      sources = (if numOfExcludeModeSockets e = 0 then map fst (includeCounts e)
        else map fst (filter (\<lambda>(a, n). n = numOfExcludeModeSockets e
                                \<and> map_of (includeCounts e) a = None) (excludeCounts e)))\<rparr>\<rparr>"
  "snd (updateSourceList e) \<longleftrightarrow> sourceList (fst (updateSourceList e)) \<noteq> sourceList e"
  by (cases e, cases "sourceList e", simp add: updateSourceList_def Let_def)
     (cases "sourceList e", auto simp: updateSourceList_def Let_def)

lemma updateSourceList_implements:
  assumes "counts_of e S"
  shows "implements_filters (sourceList (fst (updateSourceList e))) S"
proof -
  have inc: "counts_rep (includeCounts e) (holders MCAST_INCLUDE_SOURCES S)"
    and exc: "counts_rep (excludeCounts e) (holders MCAST_EXCLUDE_SOURCES S)"
    and num: "numOfExcludeModeSockets e = int (in_mode MCAST_EXCLUDE_SOURCES S)"
    using assms by (auto simp: counts_of_def)
  have isrt: "sorted_wrt (<) (map fst (includeCounts e))" and esrt: "sorted_wrt (<) (map fst (excludeCounts e))"
    using inc exc by (auto simp: counts_rep_def)
  show ?thesis
  proof (cases "in_mode MCAST_EXCLUDE_SOURCES S = 0")
    case True
    then have none: "\<forall>f \<in># S. fst f \<noteq> MCAST_EXCLUDE_SOURCES"
      using in_mode_pos [of MCAST_EXCLUDE_SOURCES S] by auto
    then have "\<forall>f \<in># S. fst f = MCAST_INCLUDE_SOURCES"
      by (metis McastSourceFilterMode.exhaust)
    then have "rfc3376_mode S = MCAST_INCLUDE_SOURCES"
      and "rfc3376_sources S = {a. 0 < holders MCAST_INCLUDE_SOURCES S a}"
      using none by (auto simp: rfc3376_mode_def rfc3376_sources_def holders_pos)
    then show ?thesis
      using True counts_rep_keys [OF inc] isrt num
      by (simp add: updateSourceList_result implements_filters_def)
  next
    case False
    then have "rfc3376_mode S = MCAST_EXCLUDE_SOURCES"
      using in_mode_pos [of MCAST_EXCLUDE_SOURCES S] by (auto simp: rfc3376_mode_def)
    moreover have "set (map fst (filter (\<lambda>(a, n). n = numOfExcludeModeSockets e
        \<and> map_of (includeCounts e) a = None) (excludeCounts e)))
      = {a. holders MCAST_EXCLUDE_SOURCES S a = in_mode MCAST_EXCLUDE_SOURCES S
          \<and> holders MCAST_INCLUDE_SOURCES S a = 0}" (is "?L = ?R")
    proof
      have "(a, n) \<in> set (excludeCounts e) \<longleftrightarrow> map_of (excludeCounts e) a = Some n" for a n
        using esrt by (metis map_of_eq_Some_iff strict_sorted_iff)
      then have mem: "(a, n) \<in> set (excludeCounts e) \<longleftrightarrow>
          holders MCAST_EXCLUDE_SOURCES S a \<noteq> 0 \<and> n = int (holders MCAST_EXCLUDE_SOURCES S a)" for a n
        using exc by (auto simp: counts_rep_def)
      have im: "map_of (includeCounts e) a = None \<longleftrightarrow> holders MCAST_INCLUDE_SOURCES S a = 0" for a
        using inc by (auto simp: counts_rep_def)
      show "?L \<subseteq> ?R" using num by (auto simp: mem im)
      show "?R \<subseteq> ?L" using num False by (force simp: mem im)
    qed
    moreover have "rfc3376_sources S = ?R"
      using \<open>rfc3376_mode S = MCAST_EXCLUDE_SOURCES\<close>
      unfolding rfc3376_sources_def holders_all holders_zero by simp
    ultimately show ?thesis
      using False num sorted_map_fst_filter [OF esrt]
      by (simp add: updateSourceList_result implements_filters_def)
  qed
qed

lemma holders_socket:
  "holders m (add_mset (om, ol) R) = (\<lambda>a. holders m R a + (if om = m then indic ol a else 0))"
  by (auto simp: fun_eq_iff holders_add indic_def)

lemma release_sources_counts:
  assumes "counts_of e (add_mset (om, ol) R)" "distinct ol"
  shows "\<exists>e1. release_sources om ol e = Inr e1 \<and> multicastGroup e1 = multicastGroup e \<and>
    sourceList e1 = sourceList e \<and> numOfExcludeModeSockets e1 = numOfExcludeModeSockets e \<and>
    counts_rep (includeCounts e1) (holders MCAST_INCLUDE_SOURCES R) \<and>
    counts_rep (excludeCounts e1) (holders MCAST_EXCLUDE_SOURCES R)"
proof (cases om)
  case MCAST_INCLUDE_SOURCES
  then show ?thesis
    using assms release_loop [of ol "includeCounts e" "holders MCAST_INCLUDE_SOURCES R"]
    by (auto simp: counts_of_def holders_socket release_sources_def)
next
  case MCAST_EXCLUDE_SOURCES
  then show ?thesis
    using assms release_loop [of ol "excludeCounts e" "holders MCAST_EXCLUDE_SOURCES R"]
    by (auto simp: counts_of_def holders_socket release_sources_def)
qed

lemma acquire_sources_counts:
  assumes "counts_rep (includeCounts e) (holders MCAST_INCLUDE_SOURCES R)"
    and "counts_rep (excludeCounts e) (holders MCAST_EXCLUDE_SOURCES R)"
    and "numOfExcludeModeSockets e = int (in_mode MCAST_EXCLUDE_SOURCES (add_mset (om, ol) R))"
    and "distinct nl"
  shows "counts_of (count_mode_change om nm (acquire_sources nm nl e)) (add_mset (nm, nl) R)"
  using assms acquire_loop [OF assms(4,1)] acquire_loop [OF assms(4,2)]
  by (cases om; cases nm)
     (auto simp: counts_of_def holders_socket in_mode_add count_mode_change_def acquire_sources_def)

lemma acquire_sources_frame:
  "multicastGroup (count_mode_change om nm (acquire_sources nm nl e)) = multicastGroup e"
  "sourceList (count_mode_change om nm (acquire_sources nm nl e)) = sourceList e"
  by (cases om; cases nm; simp add: count_mode_change_def acquire_sources_def)+

section \<open>Membership changes\<close>

definition groups_ok :: "Ipv4InterfaceData \<Rightarrow> bool" where
  "groups_ok d = distinct (map multicastGroup (joinedMulticastGroups d))"

text \<open>The record of a group stands for the filters of its sockets; there is none only if no socket is joined.\<close>

definition group_inv :: "Ipv4Address \<Rightarrow> Ipv4InterfaceData \<Rightarrow> socket_filter multiset \<Rightarrow> bool" where
  "group_inv g d S \<longleftrightarrow>
     (case find (\<lambda>e. multicastGroup e = g) (joinedMulticastGroups d) of
        None \<Rightarrow> \<forall>f \<in># S. f = (MCAST_INCLUDE_SOURCES, [])
      | Some e \<Rightarrow> counts_of e S \<and> implements_filters (sourceList e) S)"

lemma no_socket_joined:
  assumes "\<forall>f \<in># S. f = (MCAST_INCLUDE_SOURCES, [])"
  shows "counts_of (new_host_group g) S" "implements_filters empty_source_list S"
proof -
  have "holders m S = (\<lambda>_. 0)" for m using assms by (auto simp: fun_eq_iff holders_zero)
  moreover have "in_mode MCAST_EXCLUDE_SOURCES S = 0"
    using assms unfolding in_mode_def size_filter_eq_0 by auto
  ultimately show "counts_of (new_host_group g) S"
    by (simp add: counts_of_def new_host_group_def)
  show "implements_filters empty_source_list S"
    using assms
    by (auto simp: implements_filters_def empty_source_list_def rfc3376_mode_def rfc3376_sources_def)
qed

lemma group_inv_filter: "group_inv g d S \<Longrightarrow> implements_filters (group_filter g d) S"
  by (auto simp: group_inv_def group_filter_def no_socket_joined split: option.splits)

lemma implements_isEmpty:
  assumes "implements_filters l S" "sl_isEmpty l"
  shows "\<forall>f \<in># S. f = (MCAST_INCLUDE_SOURCES, [])"
proof
  fix f assume f: "f \<in># S"
  have inc: "\<forall>f \<in># S. fst f \<noteq> MCAST_EXCLUDE_SOURCES" and "rfc3376_sources S = {}"
    using assms by (auto simp: implements_filters_def sl_isEmpty_def rfc3376_mode_def split: if_splits)
  then have "a \<notin> set (snd f)" for a using f assms
    by (auto simp: implements_filters_def sl_isEmpty_def rfc3376_sources_def)
  then have "snd f = []" by (cases "snd f") auto
  then show "f = (MCAST_INCLUDE_SOURCES, [])"
    using inc f by (metis McastSourceFilterMode.exhaust prod.collapse)
qed

lemma find_update_first:
  "\<exists>e \<in> set es. key e = g \<Longrightarrow> key e' = g \<Longrightarrow>
   find (\<lambda>e. key e = h) (update_first (\<lambda>e. key e = g) e' es) =
   (if h = g then Some e' else find (\<lambda>e. key e = h) es)"
proof (induction es)
  case (Cons e es)
  then show ?case by (cases "key e = g") auto
qed simp

lemma map_update_first: "key e' = g \<Longrightarrow> map key (update_first (\<lambda>e. key e = g) e' es) = map key es"
  by (induction es) auto

lemma find_remove_first:
  "distinct (map key es) \<Longrightarrow>
   find (\<lambda>e. key e = h) (remove_first (\<lambda>e. key e = g) es) =
   (if h = g then None else find (\<lambda>e. key e = h) es)"
proof (induction es)
  case (Cons e es)
  have "find (\<lambda>x. key x = key e) es = None"
    using Cons.prems by (simp add: find_None_iff) (metis image_eqI)
  then show ?case using Cons by auto
qed simp

lemma set_remove_first: "set (remove_first P xs) \<subseteq> set xs"
  by (induction xs) auto

lemma distinct_remove_first: "distinct (map key es) \<Longrightarrow> distinct (map key (remove_first P es))"
proof (induction es)
  case (Cons e es)
  then show ?case using set_remove_first [of P es] by auto
qed simp

lemma change_with_entry:
  assumes mc: "ipv4_isMulticast g"
    and e: "find (\<lambda>e. multicastGroup e = g) (joinedMulticastGroups d1) = Some e"
    and ok: "groups_ok d1"
    and cnt: "counts_of e (add_mset (om, ol) R)" and "distinct ol" "distinct nl"
  shows "\<exists>d' sigs. change_group_entry g om ol nm nl e d1 = Inr (d', sigs) \<and> groups_ok d' \<and> group_inv g d' (add_mset (nm, nl) R) \<and>
     (\<forall>h. h \<noteq> g \<longrightarrow> group_filter h d' = group_filter h d1) \<and>
     (F_MULTICAST_ADDRESSES \<in> set sigs \<longleftrightarrow> group_filter g d' \<noteq> sourceList e)"
proof -
  obtain e1 where e1: "release_sources om ol e = Inr e1" "multicastGroup e1 = multicastGroup e"
      "sourceList e1 = sourceList e" "numOfExcludeModeSockets e1 = numOfExcludeModeSockets e"
      "counts_rep (includeCounts e1) (holders MCAST_INCLUDE_SOURCES R)"
      "counts_rep (excludeCounts e1) (holders MCAST_EXCLUDE_SOURCES R)"
    using release_sources_counts [OF cnt \<open>distinct ol\<close>] by blast
  define e2 where "e2 = count_mode_change om nm (acquire_sources nm nl e1)"
  define e3 where "e3 = fst (updateSourceList e2)"
  define d2 where "d2 = d1\<lparr>joinedMulticastGroups :=
      update_first (\<lambda>e. multicastGroup e = g) e3 (joinedMulticastGroups d1)\<rparr>"
  have c2: "counts_of e2 (add_mset (nm, nl) R)"
    unfolding e2_def
    by (rule acquire_sources_counts [OF e1(5,6)]) (use cnt e1(4) \<open>distinct nl\<close> in \<open>simp_all add: counts_of_def\<close>)
  have g: "multicastGroup e = g" "\<exists>e \<in> set (joinedMulticastGroups d1). multicastGroup e = g"
    using e by (auto simp: find_Some_iff)
  have e3: "multicastGroup e3 = g" "counts_of e3 (add_mset (nm, nl) R)"
      "implements_filters (sourceList e3) (add_mset (nm, nl) R)"
      "snd (updateSourceList e2) \<longleftrightarrow> sourceList e3 \<noteq> sourceList e"
    using c2 updateSourceList_implements [OF c2] g e1(2,3)
    by (auto simp: e3_def e2_def updateSourceList_result counts_of_def acquire_sources_frame)
  have u: "updateSourceList e2 = (e3, sourceList e3 \<noteq> sourceList e)"
    using e3(4) by (cases "updateSourceList e2") (simp add: e3_def)
  have f2: "find (\<lambda>e. multicastGroup e = h) (joinedMulticastGroups d2) =
      (if h = g then Some e3 else find (\<lambda>e. multicastGroup e = h) (joinedMulticastGroups d1))" for h
    using find_update_first [OF g(2) e3(1)] by (simp add: d2_def)
  have ok2: "groups_ok d2"
    using ok map_update_first [of multicastGroup, OF e3(1)] by (simp add: groups_ok_def d2_def)
  define sigs where "sigs = (if sourceList e3 \<noteq> sourceList e
      then [F_MULTICAST_ADDRESSES, ipv4MulticastChange g (sourceList e3)] @
           (if om \<noteq> nm \<and> ol = [] \<and> nl = []
            then [if nm = MCAST_EXCLUDE_SOURCES then ipv4MulticastGroupJoined g else ipv4MulticastGroupLeft g]
            else [])
      else [])"
  have sigs: "F_MULTICAST_ADDRESSES \<in> set sigs \<longleftrightarrow> sourceList e3 \<noteq> sourceList e"
    by (simp add: sigs_def)
  have run: "change_group_entry g om ol nm nl e d1 = (if sourceList e3 \<noteq> sourceList e \<and> sl_isEmpty (sourceList e3)
       then ebind (removeHostGroupData g d2) (\<lambda>(d3, _). Inr (d3, sigs)) else Inr (d2, sigs))"
    unfolding change_group_entry_def e1(1) sigs_def by (simp add: Let_def u d2_def flip: e2_def)
  show ?thesis
  proof (cases "sourceList e3 \<noteq> sourceList e \<and> sl_isEmpty (sourceList e3)")
    case True
    define d3 where "d3 = d2\<lparr>joinedMulticastGroups :=
        remove_first (\<lambda>e. multicastGroup e = g) (joinedMulticastGroups d2)\<rparr>"
    have f3: "find (\<lambda>e. multicastGroup e = h) (joinedMulticastGroups d3) =
        (if h = g then None else find (\<lambda>e. multicastGroup e = h) (joinedMulticastGroups d1))" for h
      using find_remove_first [of multicastGroup "joinedMulticastGroups d2" h g] ok2 f2 [of h]
      by (simp add: d3_def groups_ok_def)
    have "groups_ok d3"
      using distinct_remove_first ok2 by (auto simp: groups_ok_def d3_def)
    moreover have "group_inv g d3 (add_mset (nm, nl) R)"
      using implements_isEmpty [OF e3(3)] True by (simp add: group_inv_def f3)
    moreover have "group_filter g d3 \<noteq> sourceList e"
    proof -
      have "group_filter g d3 = sourceList e3"
        using True by (cases "sourceList e3") (simp add: group_filter_def f3 sl_isEmpty_def empty_source_list_def)
      then show ?thesis using True by simp
    qed
    ultimately show ?thesis
      using run sigs True mc f3 by (auto simp: removeHostGroupData_def d3_def group_filter_def)
  next
    case False
    then show ?thesis
      using run sigs ok2 e3(2,3) f2 by (auto simp: group_inv_def group_filter_def)
  qed
qed

lemma membership_change_implements:
  assumes "ipv4_isMulticast g" "groups_ok d" "group_inv g d (add_mset (om, ol) R)"
    and "distinct ol" "distinct nl"
  shows "\<exists>d' sigs. changeMulticastGroupMembership g om ol nm nl d = Inr (d', sigs) \<and>
     groups_ok d' \<and> group_inv g d' (add_mset (nm, nl) R) \<and>
     (\<forall>h. h \<noteq> g \<longrightarrow> group_filter h d' = group_filter h d) \<and>
     (F_MULTICAST_ADDRESSES \<in> set sigs \<longleftrightarrow> group_filter g d' \<noteq> group_filter g d)"
proof (cases "find (\<lambda>e. multicastGroup e = g) (joinedMulticastGroups d)")
  case None
  define d1 where "d1 = d\<lparr>joinedMulticastGroups := joinedMulticastGroups d @ [new_host_group g]\<rparr>"
  have triv: "om = MCAST_INCLUDE_SOURCES" "ol = []"
    using assms(3) None by (auto simp: group_inv_def)
  have ng: "multicastGroup (new_host_group g) = g" "sourceList (new_host_group g) = empty_source_list"
    by (simp_all add: new_host_group_def)
  have f1: "find (\<lambda>e. multicastGroup e = h) (joinedMulticastGroups d1) =
      (if h = g then Some (new_host_group g) else find (\<lambda>e. multicastGroup e = h) (joinedMulticastGroups d))" for h
    using None by (auto simp: d1_def find_append ng split: option.split)
  have ok1: "groups_ok d1"
    using assms(2) None by (auto simp: groups_ok_def d1_def ng find_None_iff)
  have c: "counts_of (new_host_group g) (add_mset (om, ol) R)"
    using assms(3) None by (intro no_socket_joined) (simp add: group_inv_def)
  have d1: "changeMulticastGroupMembership g om ol nm nl d =
      change_group_entry g om ol nm nl (new_host_group g) d1"
    using assms(1) None triv by (simp add: changeMulticastGroupMembership_def findHostGroupData_def d1_def)
  have e1: "find (\<lambda>e. multicastGroup e = g) (joinedMulticastGroups d1) = Some (new_host_group g)"
    by (simp add: f1)
  have gf: "group_filter h d1 = group_filter h d" for h
    using None by (simp add: group_filter_def f1 ng)
  have "sourceList (new_host_group g) = group_filter g d"
    using None by (simp add: group_filter_def ng)
  then show ?thesis
    using change_with_entry [OF assms(1) e1 ok1 c assms(4,5), of nm]
    unfolding d1 gf by simp
next
  case (Some e)
  then have c: "counts_of e (add_mset (om, ol) R)" and gf: "group_filter g d = sourceList e"
    using assms(3) by (simp_all add: group_inv_def group_filter_def)
  have "changeMulticastGroupMembership g om ol nm nl d = change_group_entry g om ol nm nl e d"
    using assms(1) Some by (simp add: changeMulticastGroupMembership_def findHostGroupData_def)
  then show ?thesis
    using change_with_entry [OF assms(1) Some assms(2) c assms(4,5), of nm]
    unfolding gf by simp
qed

text \<open>
  Any number of sockets, all not joined at first, changing their filters for one group one after the
  other: the list holds the current filter of every socket, each change passes the old filter of its
  socket and the new one.
\<close>

fun socket_changes :: "Ipv4Address \<Rightarrow> (nat \<times> socket_filter) list \<Rightarrow> socket_filter list \<Rightarrow>
    Ipv4InterfaceData \<Rightarrow> err + (socket_filter list \<times> Ipv4InterfaceData)" where
  "socket_changes g [] fs d = Inr (fs, d)"
| "socket_changes g ((i, f) # cs) fs d =
     ebind (changeMulticastGroupMembership g (fst (fs ! i)) (snd (fs ! i)) (fst f) (snd f) d)
       (\<lambda>(d', _). socket_changes g cs (fs[i := f]) d')"

lemma socket_changes_implement:
  "ipv4_isMulticast g \<Longrightarrow> \<forall>(i, f) \<in> set cs. i < length fs \<and> distinct (snd f) \<Longrightarrow>
   \<forall>f \<in> set fs. distinct (snd f) \<Longrightarrow> groups_ok d \<Longrightarrow> group_inv g d (mset fs) \<Longrightarrow>
   \<exists>fs' d'. socket_changes g cs fs d = Inr (fs', d') \<and> fs' = fold (\<lambda>(i, f) fs. fs[i := f]) cs fs \<and>
     group_inv g d' (mset fs')"
proof (induction cs arbitrary: fs d)
  case Nil
  then show ?case by simp
next
  case (Cons c cs)
  obtain i f where c: "c = (i, f)" by (cases c)
  then have i: "i < length fs" "distinct (snd f)" using Cons.prems(2) by auto
  have m: "mset fs = add_mset (fst (fs ! i), snd (fs ! i)) (mset fs - {#fs ! i#})"
    using i(1) by simp
  have m': "mset (fs[i := f]) = add_mset (fst f, snd f) (mset fs - {#fs ! i#})"
    using i(1) by (simp add: mset_update)
  obtain d1 sigs where d1: "changeMulticastGroupMembership g (fst (fs ! i)) (snd (fs ! i)) (fst f) (snd f) d
      = Inr (d1, sigs)" "groups_ok d1" "group_inv g d1 (mset (fs[i := f]))"
    using membership_change_implements [OF Cons.prems(1,4), of "fst (fs ! i)" "snd (fs ! i)" _ "snd f" "fst f"]
      Cons.prems(3,5) i m m' nth_mem [OF i(1)] by (metis (no_types, lifting))
  have dist: "\<forall>x \<in> set (fs[i := f]). distinct (snd x)"
    using Cons.prems(3) i set_update_subset_insert [of fs i f] by auto
  show ?case
    using Cons.IH [OF Cons.prems(1) _ dist d1(2,3)] Cons.prems(2) d1(1) by (simp add: c)
qed

text \<open>
  C16. The interface state of RFC 3376, section 3.2: whatever sequence of filter changes the sockets of a
  host make for a multicast group, starting with none joined, no change fails (the reference counts
  are never inconsistent), and the filter the interface then has for the group is the one the RFC computes from
  the current filters of all sockets.
\<close>
theorem interface_state_of_rfc3376:
  assumes "ipv4_isMulticast g" and "\<forall>(i, f) \<in> set cs. i < n \<and> distinct (snd f)"
  shows "\<exists>fs d. socket_changes g cs (replicate n (MCAST_INCLUDE_SOURCES, [])) new_interface_data = Inr (fs, d)
    \<and> fs = fold (\<lambda>(i, f) fs. fs[i := f]) cs (replicate n (MCAST_INCLUDE_SOURCES, []))
    \<and> implements_filters (group_filter g d) (mset fs)"
proof -
  have "groups_ok new_interface_data"
    and "group_inv g new_interface_data (mset (replicate n (MCAST_INCLUDE_SOURCES, [])))"
    by (auto simp: groups_ok_def group_inv_def new_interface_data_def)
  then show ?thesis
    using socket_changes_implement [OF assms(1), of cs "replicate n (MCAST_INCLUDE_SOURCES, [])"
        new_interface_data] assms(2) group_inv_filter by fastforce
qed

lemma interface_state_of_rfc3376_witness:
  "\<exists>fs d. socket_changes 0xE0000105
      [(0, (MCAST_EXCLUDE_SOURCES, [1, 2])), (1, (MCAST_INCLUDE_SOURCES, [2])), (2, (MCAST_EXCLUDE_SOURCES, [1]))]
      (replicate 3 (MCAST_INCLUDE_SOURCES, [])) new_interface_data = Inr (fs, d)
    \<and> implements_filters (group_filter 0xE0000105 d) (mset fs)"
  using interface_state_of_rfc3376 [where g = "0xE0000105" and n = 3 and cs = "[(0, (MCAST_EXCLUDE_SOURCES, [1, 2])),
      (1, (MCAST_INCLUDE_SOURCES, [2])), (2, (MCAST_EXCLUDE_SOURCES, [1]))]"]
  by (auto simp: ipv4_isMulticast_def)

section \<open>Listeners\<close>

text \<open>
  The query with a source address is negated: an interface whose listeners take a group from all sources
  answers that it has no listener for any source, and one without the source in its list that it has.
\<close>

lemma addMulticastListener_then_has:
  assumes "ipv4_isMulticast g" "addMulticastListener g d = Inr (d', sigs)"
  shows "hasMulticastListener g d' = Inr True" "hasMulticastListener_from g source d' = Inr False"
proof -
  have "find (\<lambda>e. reportedGroup e = g) (reportedMulticastGroups d') = Some (\<lparr>reportedGroup = g, reportedSources = ALL_SOURCES\<rparr>)"
  proof (cases "find (\<lambda>e. reportedGroup e = g) (reportedMulticastGroups d)")
    case None
    then have n: "find (\<lambda>e. reportedGroup e = g) (reportedMulticastGroups d @ [new_router_group g]) = Some (new_router_group g)"
      by (simp add: find_append new_router_group_def)
    have "d' = put_router_group (new_router_group g\<lparr>reportedSources := ALL_SOURCES\<rparr>)
        (d\<lparr>reportedMulticastGroups := reportedMulticastGroups d @ [new_router_group g]\<rparr>)"
      using assms None
      by (auto simp: addMulticastListener_def obtain_router_group_def findRouterGroupData_def
          sl_containsAll_def new_router_group_def empty_source_list_def)
    then show ?thesis
      using find_update_first [of "reportedMulticastGroups d @ [new_router_group g]" reportedGroup g
          "new_router_group g\<lparr>reportedSources := ALL_SOURCES\<rparr>" g]
      by (simp add: put_router_group_def new_router_group_def)
  next
    case (Some e)
    then have e: "reportedGroup e = g" "\<exists>e \<in> set (reportedMulticastGroups d). reportedGroup e = g"
      by (auto simp: find_Some_iff)
    show ?thesis
    proof (cases "sl_containsAll (reportedSources e)")
      case True
      then have "d' = d" using assms Some
        by (auto simp: addMulticastListener_def obtain_router_group_def findRouterGroupData_def)
      then show ?thesis using Some e True
        by (cases e; cases "reportedSources e") (simp add: sl_containsAll_def ALL_SOURCES_def)
    next
      case False
      then have "d' = put_router_group (e\<lparr>reportedSources := ALL_SOURCES\<rparr>) d" using assms Some
        by (auto simp: addMulticastListener_def obtain_router_group_def findRouterGroupData_def)
      then show ?thesis
        using find_update_first [OF e(2), of "e\<lparr>reportedSources := ALL_SOURCES\<rparr>" g] e
        by (cases e) (simp add: put_router_group_def)
    qed
  qed
  then show "hasMulticastListener g d' = Inr True" "hasMulticastListener_from g source d' = Inr False"
    using assms(1)
    by (simp_all add: hasMulticastListener_def hasMulticastListener_from_def findRouterGroupData_def
        sl_isEmpty_def sl_contains_def ALL_SOURCES_def)
qed

end
