(* ===== verification/IfaceTable.thy ===== *)
theory IfaceTable
  imports L3Addr Ipv4Iface
begin

text \<open>
  Network interfaces and the interface table of a node, \<open>inet/networklayer/common/NetworkInterface.cc\<close>
  and \<open>InterfaceTable.cc\<close>. The table is a vector of slots that are never reused; the number of
  interfaces and the list of the occupied slots are cached until the table changes. The theory proves that
  the cached access by position is the list of the registered interfaces, and that an interface's
  identifier finds it as long as it is not deleted.

  A pointer to an interface is its identifier. Of the protocol data of an interface the model has the
  IPv4 data; the channels, gates and the display of an interface are not modelled.
\<close>

section \<open>Network interfaces\<close>

datatype if_state = IF_UP | IF_DOWN | IF_GOING_UP | IF_GOING_DOWN

record NetworkInterface =
  interfaceId :: int
  interfaceName :: string
  if_mtu :: int
  if_state :: if_state
  if_carrier :: bool
  if_broadcast :: bool
  if_multicast :: bool
  if_pointToPoint :: bool
  if_loopback :: bool
  if_macAddr :: MacAddress
  multicastAddresses :: "MacAddress list"
  ipv4Data :: "Ipv4InterfaceData option"

datatype if_field =
  F_CARRIER | F_STATE | F_NAME | F_LOOPBACK | F_BROADCAST | F_MULTICAST | F_POINTTOPOINT | F_MTU | F_MACADDRESS

datatype if_signal = ConfigChanged if_field | StateChanged if_field

definition isUp :: "NetworkInterface \<Rightarrow> bool" where
  "isUp ie = (if_state ie = IF_UP \<and> if_carrier ie)"

definition isDown :: "NetworkInterface \<Rightarrow> bool" where
  "isDown ie = (if_state ie \<noteq> IF_UP)"

definition setMtu :: "int \<Rightarrow> NetworkInterface \<Rightarrow> NetworkInterface \<times> if_signal list" where
  "setMtu m ie = (if if_mtu ie \<noteq> m then (ie\<lparr>if_mtu := m\<rparr>, [ConfigChanged F_MTU]) else (ie, []))"

definition setBroadcast :: "bool \<Rightarrow> NetworkInterface \<Rightarrow> NetworkInterface \<times> if_signal list" where
  "setBroadcast b ie =
     (if if_broadcast ie \<noteq> b then (ie\<lparr>if_broadcast := b\<rparr>, [ConfigChanged F_BROADCAST]) else (ie, []))"

definition setMulticast :: "bool \<Rightarrow> NetworkInterface \<Rightarrow> NetworkInterface \<times> if_signal list" where
  "setMulticast b ie =
     (if if_multicast ie \<noteq> b then (ie\<lparr>if_multicast := b\<rparr>, [ConfigChanged F_MULTICAST]) else (ie, []))"

definition setPointToPoint :: "bool \<Rightarrow> NetworkInterface \<Rightarrow> NetworkInterface \<times> if_signal list" where
  "setPointToPoint b ie =
     (if if_pointToPoint ie \<noteq> b then (ie\<lparr>if_pointToPoint := b\<rparr>, [ConfigChanged F_POINTTOPOINT]) else (ie, []))"

definition setLoopback :: "bool \<Rightarrow> NetworkInterface \<Rightarrow> NetworkInterface \<times> if_signal list" where
  "setLoopback b ie =
     (if if_loopback ie \<noteq> b then (ie\<lparr>if_loopback := b\<rparr>, [ConfigChanged F_LOOPBACK]) else (ie, []))"

definition setMacAddress :: "MacAddress \<Rightarrow> NetworkInterface \<Rightarrow> NetworkInterface \<times> if_signal list" where
  "setMacAddress a ie =
     (if if_macAddr ie \<noteq> a then (ie\<lparr>if_macAddr := a\<rparr>, [ConfigChanged F_MACADDRESS]) else (ie, []))"

definition setCarrier :: "bool \<Rightarrow> NetworkInterface \<Rightarrow> NetworkInterface \<times> if_signal list" where
  "setCarrier b ie =
     (if if_carrier ie \<noteq> b then (ie\<lparr>if_carrier := b\<rparr>, [StateChanged F_CARRIER]) else (ie, []))"

definition setState :: "if_state \<Rightarrow> NetworkInterface \<Rightarrow> NetworkInterface \<times> if_signal list" where
  "setState s ie =
     (if if_state ie \<noteq> s then
        let ie1 = ie\<lparr>if_state := s\<rparr>;
            (ie2, sigs) = (if s = IF_DOWN then setCarrier False ie1 else (ie1, []))
        in (ie2, sigs @ [StateChanged F_STATE])
      else (ie, []))"

definition start_interface :: "NetworkInterface \<Rightarrow> NetworkInterface \<times> if_signal list" where
  "start_interface ie =
     (let (ie1, s1) = setState IF_UP ie; (ie2, s2) = setCarrier True ie1 in (ie2, s1 @ s2))"

definition stop_interface :: "NetworkInterface \<Rightarrow> NetworkInterface \<times> if_signal list" where
  "stop_interface ie =
     (let (ie1, s1) = setState IF_DOWN ie; (ie2, s2) = setCarrier False ie1 in (ie2, s1 @ s2))"

definition resetInterface :: "NetworkInterface \<Rightarrow> NetworkInterface" where
  "resetInterface ie = ie\<lparr>ipv4Data := None\<rparr>"

definition getIpv4InterfaceData :: "NetworkInterface \<Rightarrow> err + Ipv4InterfaceData" where
  "getIpv4InterfaceData ie = (case ipv4Data ie of
     None \<Rightarrow> Inl (RuntimeError ''Tag is absent'') | Some d \<Rightarrow> Inr d)"

definition matchesMulticastMacAddress :: "MacAddress \<Rightarrow> NetworkInterface \<Rightarrow> bool" where
  "matchesMulticastMacAddress a ie = (isMulticast a \<and> a \<in> set (multicastAddresses ie))"

definition matchesMacAddress :: "MacAddress \<Rightarrow> NetworkInterface \<Rightarrow> bool" where
  "matchesMacAddress a ie =
     (isBroadcast a \<or> (isMulticast a \<and> matchesMulticastMacAddress a ie) \<or> if_macAddr ie = a)"

definition addMulticastMacAddress :: "MacAddress \<Rightarrow> NetworkInterface \<Rightarrow> err + NetworkInterface" where
  "addMulticastMacAddress a ie =
     (if a \<in> set (multicastAddresses ie) then Inl (RuntimeError ''Multicast MacAddress already added'')
      else Inr (ie\<lparr>multicastAddresses := multicastAddresses ie @ [a]\<rparr>))"

definition removeMulticastMacAddress :: "MacAddress \<Rightarrow> NetworkInterface \<Rightarrow> err + NetworkInterface" where
  "removeMulticastMacAddress a ie =
     (if a \<notin> set (multicastAddresses ie) then Inl (RuntimeError ''Multicast MacAddress not found'')
      else Inr (ie\<lparr>multicastAddresses := remove1 a (multicastAddresses ie)\<rparr>))"

fun hasNetworkAddress :: "L3Addr \<Rightarrow> NetworkInterface \<Rightarrow> bool" where
  "hasNetworkAddress L3_NONE ie = False"
| "hasNetworkAddress (L3_IPv4 a) ie =
     (case ipv4Data ie of None \<Rightarrow> False | Some d \<Rightarrow> inetAddr d = a)"
| "hasNetworkAddress (L3_MAC a) ie = (if_macAddr ie = a)"

definition getIpv4Address :: "NetworkInterface \<Rightarrow> Ipv4Address" where
  "getIpv4Address ie = (case ipv4Data ie of None \<Rightarrow> 0 | Some d \<Rightarrow> inetAddr d)"

definition getIpv4Netmask :: "NetworkInterface \<Rightarrow> Ipv4Address" where
  "getIpv4Netmask ie = (case ipv4Data ie of None \<Rightarrow> 0 | Some d \<Rightarrow> inetMask d)"

fun toIpv4AddressVector :: "L3Addr list \<Rightarrow> err + Ipv4Address list" where
  "toIpv4AddressVector [] = Inr []"
| "toIpv4AddressVector (a # as) = ebind (toIpv4 a) (\<lambda>x.
     ebind (toIpv4AddressVector as) (\<lambda>xs. Inr (x # xs)))"

definition with_ipv4_data ::
  "(Ipv4InterfaceData \<Rightarrow> err + iface_result) \<Rightarrow> NetworkInterface \<Rightarrow> err + NetworkInterface \<times> iface_signal list" where
  "with_ipv4_data f ie = ebind (getIpv4InterfaceData ie) (\<lambda>d. ebind (f d) (\<lambda>(d', sigs).
     Inr (ie\<lparr>ipv4Data := Some d'\<rparr>, sigs)))"

definition if_joinMulticastGroup ::
  "L3Addr \<Rightarrow> NetworkInterface \<Rightarrow> err + NetworkInterface \<times> iface_signal list" where
  "if_joinMulticastGroup a ie =
     (case a of L3_IPv4 g \<Rightarrow> with_ipv4_data (joinMulticastGroup g) ie
      | _ \<Rightarrow> Inl (RuntimeError ''Unknown address type''))"

definition if_changeMulticastGroupMembership ::
  "L3Addr \<Rightarrow> McastSourceFilterMode \<Rightarrow> L3Addr list \<Rightarrow> McastSourceFilterMode \<Rightarrow> L3Addr list \<Rightarrow>
   NetworkInterface \<Rightarrow> err + NetworkInterface \<times> iface_signal list" where
  "if_changeMulticastGroupMembership a oldMode oldList newMode newList ie =
     (case a of
        L3_IPv4 g \<Rightarrow> ebind (toIpv4AddressVector oldList) (\<lambda>old. ebind (toIpv4AddressVector newList) (\<lambda>new.
          with_ipv4_data (changeMulticastGroupMembership g oldMode old newMode new) ie))
      | L3_MAC _ \<Rightarrow> Inl (RuntimeError ''changeMulticastGroupMembership() not implemented'')
      | L3_NONE \<Rightarrow> Inl (RuntimeError ''Unknown address type''))"

section \<open>The interface table\<close>

definition INTERFACEIDS_START :: int where
  "INTERFACEIDS_START = 100"

record InterfaceTable =
  idToInterface :: "NetworkInterface option list"
  tmpNumInterfaces :: int
  tmpInterfaceList :: "int list option"

definition empty_interface_table :: InterfaceTable where
  "empty_interface_table = \<lparr>idToInterface = [], tmpNumInterfaces = -1, tmpInterfaceList = None\<rparr>"

definition invalidateTmpInterfaceList :: "InterfaceTable \<Rightarrow> InterfaceTable" where
  "invalidateTmpInterfaceList t = t\<lparr>tmpNumInterfaces := -1, tmpInterfaceList := None\<rparr>"

text \<open>The occupied slots, in order.\<close>

fun somes :: "'a option list \<Rightarrow> 'a list" where
  "somes [] = []"
| "somes (None # es) = somes es"
| "somes (Some e # es) = e # somes es"

definition interfaces :: "InterfaceTable \<Rightarrow> NetworkInterface list" where
  "interfaces t = somes (idToInterface t)"

definition getNumInterfaces :: "InterfaceTable \<Rightarrow> int \<times> InterfaceTable" where
  "getNumInterfaces t =
     (if tmpNumInterfaces t = -1 then
        let n = int (length (filter (\<lambda>e. e \<noteq> None) (idToInterface t)))
        in (n, t\<lparr>tmpNumInterfaces := n\<rparr>)
      else (tmpNumInterfaces t, t))"

text \<open>\<open>getInterface(pos)\<close> returns a pointer, the identifier; the ids of the occupied slots are collected once.\<close>

fun occupied_slots :: "int \<Rightarrow> NetworkInterface option list \<Rightarrow> int list" where
  "occupied_slots i [] = []"
| "occupied_slots i (None # es) = occupied_slots (i + 1) es"
| "occupied_slots i (Some e # es) = (INTERFACEIDS_START + i) # occupied_slots (i + 1) es"

definition getInterface :: "int \<Rightarrow> InterfaceTable \<Rightarrow> err + int \<times> InterfaceTable" where
  "getInterface pos t =
     (let (n, t1) = getNumInterfaces t in
      if pos < 0 \<or> pos \<ge> n then Inl (RuntimeError ''getInterface(): interface index out of range'')
      else case tmpInterfaceList t1 of
          Some l \<Rightarrow> Inr (l ! nat pos, t1)
        | None \<Rightarrow> let l = occupied_slots 0 (idToInterface t1)
                  in Inr (l ! nat pos, t1\<lparr>tmpInterfaceList := Some l\<rparr>))"

definition findInterfaceById :: "int \<Rightarrow> InterfaceTable \<Rightarrow> NetworkInterface option" where
  "findInterfaceById i t =
     (let k = i - INTERFACEIDS_START in
      if k < 0 \<or> k \<ge> int (length (idToInterface t)) then None else idToInterface t ! nat k)"

definition getInterfaceById :: "int \<Rightarrow> InterfaceTable \<Rightarrow> err + NetworkInterface" where
  "getInterfaceById i t = (case findInterfaceById i t of
     None \<Rightarrow> Inl (RuntimeError ''getInterfaceById(): no interface with this ID'') | Some ie \<Rightarrow> Inr ie)"

definition getBiggestInterfaceId :: "InterfaceTable \<Rightarrow> int" where
  "getBiggestInterfaceId t = INTERFACEIDS_START + int (length (idToInterface t)) - 1"

definition findInterfaceByName :: "string \<Rightarrow> InterfaceTable \<Rightarrow> NetworkInterface option" where
  "findInterfaceByName name t = find (\<lambda>ie. interfaceName ie = name) (interfaces t)"

definition findFirstLoopbackInterface :: "InterfaceTable \<Rightarrow> NetworkInterface option" where
  "findFirstLoopbackInterface t = find if_loopback (interfaces t)"

definition findFirstNonLoopbackInterface :: "InterfaceTable \<Rightarrow> NetworkInterface option" where
  "findFirstNonLoopbackInterface t = find (\<lambda>ie. \<not> if_loopback ie) (interfaces t)"

definition findFirstMulticastInterface :: "InterfaceTable \<Rightarrow> NetworkInterface option" where
  "findFirstMulticastInterface t = find (\<lambda>ie. if_multicast ie \<and> \<not> if_loopback ie) (interfaces t)"

definition findInterfaceByAddress :: "L3Addr \<Rightarrow> InterfaceTable \<Rightarrow> NetworkInterface option" where
  "findInterfaceByAddress a t =
     (if l3_isUnspecified a then None
      else find (\<lambda>ie. case a of
             L3_IPv4 x \<Rightarrow> (case ipv4Data ie of None \<Rightarrow> False | Some d \<Rightarrow> inetAddr d = x)
           | L3_MAC x \<Rightarrow> if_macAddr ie = x
           | L3_NONE \<Rightarrow> False) (interfaces t))"

definition ift_isLocalAddress :: "L3Addr \<Rightarrow> InterfaceTable \<Rightarrow> bool" where
  "ift_isLocalAddress a t = (findInterfaceByAddress a t \<noteq> None)"

definition isNeighborAddress :: "L3Addr \<Rightarrow> InterfaceTable \<Rightarrow> bool" where
  "isNeighborAddress a t =
     (if l3_isUnspecified a then False
      else case a of
          L3_IPv4 x \<Rightarrow>
            (case find (\<lambda>ie. case ipv4Data ie of None \<Rightarrow> False
                     | Some d \<Rightarrow> maskedAddrAreEqual x (inetAddr d) (inetMask d)) (interfaces t) of
               Some ie \<Rightarrow> x \<noteq> getIpv4Address ie
             | None \<Rightarrow> False)
        | _ \<Rightarrow> False)"

definition addInterface :: "NetworkInterface \<Rightarrow> InterfaceTable \<Rightarrow> err + InterfaceTable" where
  "addInterface entry t =
     (if findInterfaceByName (interfaceName entry) t \<noteq> None
      then Inl (RuntimeError ''addInterface(): interface already registered'')
      else let entry1 = entry\<lparr>interfaceId := INTERFACEIDS_START + int (length (idToInterface t))\<rparr>
           in Inr (invalidateTmpInterfaceList (t\<lparr>idToInterface := idToInterface t @ [Some entry1]\<rparr>)))"

definition deleteInterface :: "int \<Rightarrow> InterfaceTable \<Rightarrow> err + InterfaceTable" where
  "deleteInterface i t = ebind (getInterfaceById i t) (\<lambda>_.
     Inr (invalidateTmpInterfaceList
       (t\<lparr>idToInterface := (idToInterface t)[nat (i - INTERFACEIDS_START) := None]\<rparr>)))"

text \<open>An update of the interface object behind a pointer.\<close>

definition put_interface :: "NetworkInterface \<Rightarrow> InterfaceTable \<Rightarrow> InterfaceTable" where
  "put_interface ie t =
     t\<lparr>idToInterface := (idToInterface t)[nat (interfaceId ie - INTERFACEIDS_START) := Some ie]\<rparr>"

definition resetInterfaces :: "InterfaceTable \<Rightarrow> InterfaceTable" where
  "resetInterfaces t = t\<lparr>idToInterface := map (map_option resetInterface) (idToInterface t)\<rparr>"

definition collectMulticastGroups :: "InterfaceTable \<Rightarrow> (Ipv4Address \<times> int) list" where
  "collectMulticastGroups t = concat (map (\<lambda>ie. case ipv4Data ie of
      None \<Rightarrow> []
    | Some d \<Rightarrow> map (\<lambda>e. (multicastGroup e, interfaceId ie)) (joinedMulticastGroups d)) (interfaces t))"

section \<open>The table invariant\<close>

text \<open>Every interface is in the slot of its identifier and the caches are up to date.\<close>

definition slots_ok :: "InterfaceTable \<Rightarrow> bool" where
  "slots_ok t \<longleftrightarrow> (\<forall>k < length (idToInterface t). \<forall>ie. idToInterface t ! k = Some ie \<longrightarrow>
     interfaceId ie = INTERFACEIDS_START + int k)"

definition caches_ok :: "InterfaceTable \<Rightarrow> bool" where
  "caches_ok t \<longleftrightarrow> (tmpNumInterfaces t = -1 \<or> tmpNumInterfaces t = int (length (interfaces t)))
     \<and> (case tmpInterfaceList t of None \<Rightarrow> True | Some l \<Rightarrow> l = map interfaceId (interfaces t))"

definition ift_inv :: "InterfaceTable \<Rightarrow> bool" where
  "ift_inv t \<longleftrightarrow> slots_ok t \<and> caches_ok t"

lemma length_somes: "length (filter (\<lambda>e. e \<noteq> None) es) = length (somes es)"
  by (induction es rule: somes.induct) auto

lemma set_somes: "ie \<in> set (somes es) \<longleftrightarrow> Some ie \<in> set es"
  by (induction es rule: somes.induct) auto

lemma set_interfaces: "ie \<in> set (interfaces t) \<longleftrightarrow> Some ie \<in> set (idToInterface t)"
  by (simp add: interfaces_def set_somes)

lemma occupied_slots_ids:
  "(\<And>k ie. k < length es \<Longrightarrow> es ! k = Some ie \<Longrightarrow> interfaceId ie = INTERFACEIDS_START + i + int k) \<Longrightarrow>
   occupied_slots i es = map interfaceId (somes es)"
proof (induction i es rule: occupied_slots.induct)
  case (2 i es)
  have "occupied_slots (i + 1) es = map interfaceId (somes es)"
    by (rule "2.IH") (use "2.prems" [of "Suc k" for k] in \<open>force simp: algebra_simps\<close>)
  then show ?case by simp
next
  case (3 i e es)
  have "occupied_slots (i + 1) es = map interfaceId (somes es)"
    by (rule "3.IH") (use "3.prems" [of "Suc k" for k] in \<open>force simp: algebra_simps\<close>)
  then show ?case using "3.prems" [of 0 e] by simp
qed simp

lemma slots_ok_occupied: "slots_ok t \<Longrightarrow> occupied_slots 0 (idToInterface t) = map interfaceId (interfaces t)"
  unfolding interfaces_def by (rule occupied_slots_ids) (simp add: slots_ok_def)

lemma getNumInterfaces_eq:
  assumes "ift_inv t"
  shows "fst (getNumInterfaces t) = int (length (interfaces t))"
    and "ift_inv (snd (getNumInterfaces t))"
    and "idToInterface (snd (getNumInterfaces t)) = idToInterface t"
proof -
  let ?n = "length (filter (\<lambda>e. e \<noteq> None) (idToInterface t))"
  have n: "?n = length (interfaces t)" by (simp only: interfaces_def length_somes)
  have i: "interfaces (t\<lparr>tmpNumInterfaces := m\<rparr>) = interfaces t" for m by (simp add: interfaces_def)
  have g: "getNumInterfaces t = (if tmpNumInterfaces t = -1
      then (int (length (interfaces t)), t\<lparr>tmpNumInterfaces := int (length (interfaces t))\<rparr>)
      else (tmpNumInterfaces t, t))"
    unfolding getNumInterfaces_def Let_def n by (rule refl)
  have "ift_inv (t\<lparr>tmpNumInterfaces := int (length (interfaces t))\<rparr>)"
    using assms i by (simp add: ift_inv_def caches_ok_def slots_ok_def split: option.splits)
  then show "ift_inv (snd (getNumInterfaces t))" using assms by (simp add: g)
  show "idToInterface (snd (getNumInterfaces t)) = idToInterface t" by (simp add: g)
  have "tmpNumInterfaces t = -1 \<or> tmpNumInterfaces t = int (length (interfaces t))"
    using assms by (simp add: ift_inv_def caches_ok_def)
  then show "fst (getNumInterfaces t) = int (length (interfaces t))" by (auto simp: g)
qed

lemma getInterface_eq:
  assumes "ift_inv t" "0 \<le> pos" "pos < int (length (interfaces t))"
  obtains t' where "getInterface pos t = Inr (interfaceId (interfaces t ! nat pos), t')"
    "ift_inv t'" "idToInterface t' = idToInterface t"
proof -
  obtain n t1 where t1: "getNumInterfaces t = (n, t1)" by fastforce
  then have n: "n = int (length (interfaces t))" "ift_inv t1" "idToInterface t1 = idToInterface t"
    using getNumInterfaces_eq [OF assms(1)] by simp_all
  then have i: "interfaces t1 = interfaces t" by (simp add: interfaces_def)
  show thesis
  proof (cases "tmpInterfaceList t1")
    case None
    let ?l = "occupied_slots 0 (idToInterface t1)"
    have l: "?l = map interfaceId (interfaces t)"
      using slots_ok_occupied n(2) i by (simp add: ift_inv_def)
    show thesis
    proof (rule that)
      show "getInterface pos t = Inr (interfaceId (interfaces t ! nat pos), t1\<lparr>tmpInterfaceList := Some ?l\<rparr>)"
        using assms(2,3) n(1) l by (simp add: getInterface_def t1 None Let_def)
      show "ift_inv (t1\<lparr>tmpInterfaceList := Some ?l\<rparr>)"
        using n(2) l i by (simp add: ift_inv_def slots_ok_def caches_ok_def interfaces_def)
    qed (simp add: n(3))
  next
    case (Some l)
    then have "l = map interfaceId (interfaces t)"
      using n(2) i by (simp add: ift_inv_def caches_ok_def)
    then show thesis
      using that [of t1] assms(2,3) n Some by (simp add: getInterface_def t1)
  qed
qed

lemma findInterfaceById_iff:
  assumes "slots_ok t"
  shows "findInterfaceById i t = Some ie \<longleftrightarrow> ie \<in> set (interfaces t) \<and> interfaceId ie = i"
proof
  assume "findInterfaceById i t = Some ie"
  then have k: "0 \<le> i - INTERFACEIDS_START" "nat (i - INTERFACEIDS_START) < length (idToInterface t)"
      "idToInterface t ! nat (i - INTERFACEIDS_START) = Some ie"
    by (auto simp: findInterfaceById_def Let_def split: if_splits)
  then show "ie \<in> set (interfaces t) \<and> interfaceId ie = i"
    using assms nth_mem [OF k(2)] by (simp add: set_interfaces slots_ok_def)
next
  assume a: "ie \<in> set (interfaces t) \<and> interfaceId ie = i"
  then obtain k where k: "k < length (idToInterface t)" "idToInterface t ! k = Some ie"
    by (metis set_interfaces in_set_conv_nth)
  then have "i = INTERFACEIDS_START + int k" using assms a by (auto simp: slots_ok_def)
  then show "findInterfaceById i t = Some ie" using k by (simp add: findInterfaceById_def)
qed

lemma ift_inv_empty: "ift_inv empty_interface_table"
  by (simp add: ift_inv_def slots_ok_def caches_ok_def empty_interface_table_def)

lemma ift_inv_invalidated: "slots_ok t \<Longrightarrow> ift_inv (invalidateTmpInterfaceList t)"
  by (simp add: ift_inv_def slots_ok_def caches_ok_def invalidateTmpInterfaceList_def)

lemma addInterface_inv: "ift_inv t \<Longrightarrow> addInterface e t = Inr t' \<Longrightarrow> ift_inv t'"
  by (auto simp: addInterface_def Let_def slots_ok_def ift_inv_def nth_append less_Suc_eq
      caches_ok_def invalidateTmpInterfaceList_def split: if_splits)

lemma nth_update_None: "xs[i := None] ! k = Some e \<Longrightarrow> k < length xs \<Longrightarrow> xs ! k = Some e"
  by (cases "k = i") auto

lemma deleteInterface_inv:
  assumes "ift_inv t" "deleteInterface i t = Inr t'"
  shows "ift_inv t'"
proof -
  have "slots_ok (t\<lparr>idToInterface := (idToInterface t)[nat (i - INTERFACEIDS_START) := None]\<rparr>)"
    using assms(1) nth_update_None [of "idToInterface t"] by (simp add: ift_inv_def slots_ok_def)
  then show ?thesis
    using assms(2) ift_inv_invalidated by (auto simp: deleteInterface_def ebind_Inr_iff)
qed

lemma interfaces_deleted:
  assumes "ift_inv t" "deleteInterface i t = Inr t'"
  shows "findInterfaceById j t' = (if j = i then None else findInterfaceById j t)"
  using assms
  by (auto simp: deleteInterface_def ebind_Inr_iff findInterfaceById_def getInterfaceById_def Let_def
      invalidateTmpInterfaceList_def nth_list_update split: if_splits option.splits)

lemma put_interface_inv:
  assumes "ift_inv t" "findInterfaceById (interfaceId ie) t = Some old"
  shows "ift_inv (put_interface ie t)"
    and "findInterfaceById j (put_interface ie t) =
         (if j = interfaceId ie then Some ie else findInterfaceById j t)"
proof -
  let ?k = "nat (interfaceId ie - INTERFACEIDS_START)"
  have k: "0 \<le> interfaceId ie - INTERFACEIDS_START" "?k < length (idToInterface t)"
      "idToInterface t ! ?k = Some old"
    using assms(2) by (auto simp: findInterfaceById_def Let_def split: if_splits)
  have "interfaceId old = INTERFACEIDS_START + int ?k"
    using assms(1) k(2,3) unfolding ift_inv_def slots_ok_def by blast
  then have id: "interfaceId old = interfaceId ie" using k(1) by simp
  have "n < length es \<Longrightarrow> es ! n = Some old \<Longrightarrow>
      map interfaceId (somes (es[n := Some ie])) = map interfaceId (somes es)" for es n
  proof (induction es arbitrary: n)
    case Nil
    then show ?case by simp
  next
    case (Cons e es)
    show ?case
    proof (cases n)
      case 0
      then show ?thesis using id Cons.prems by simp
    next
      case (Suc m)
      then have "map interfaceId (somes (es[m := Some ie])) = map interfaceId (somes es)"
        using Cons.IH [of m] Cons.prems by simp
      then show ?thesis using Suc by (cases e) simp_all
    qed
  qed
  from this [OF k(2,3)] have m: "map interfaceId (interfaces (put_interface ie t)) = map interfaceId (interfaces t)"
    by (simp add: interfaces_def put_interface_def)
  then have "length (interfaces (put_interface ie t)) = length (interfaces t)"
    using map_eq_imp_length_eq by blast
  moreover have "tmpNumInterfaces (put_interface ie t) = tmpNumInterfaces t"
      "tmpInterfaceList (put_interface ie t) = tmpInterfaceList t"
    by (simp_all add: put_interface_def)
  ultimately have c: "caches_ok (put_interface ie t)"
    using assms(1) m by (simp only: ift_inv_def caches_ok_def)
  have "slots_ok (put_interface ie t)"
    unfolding slots_ok_def
  proof (intro allI impI)
    fix n e
    assume n: "n < length (idToInterface (put_interface ie t))" "idToInterface (put_interface ie t) ! n = Some e"
    show "interfaceId e = INTERFACEIDS_START + int n"
    proof (cases "n = ?k")
      case True
      then have "e = ie" using n k(2) by (simp add: put_interface_def)
      then show ?thesis using True k(1) by simp
    next
      case False
      then have "idToInterface t ! n = Some e" "n < length (idToInterface t)"
        using n by (simp_all add: put_interface_def)
      then show ?thesis using assms(1) by (simp add: ift_inv_def slots_ok_def)
    qed
  qed
  then show "ift_inv (put_interface ie t)" using c by (simp add: ift_inv_def)
  show "findInterfaceById j (put_interface ie t) =
         (if j = interfaceId ie then Some ie else findInterfaceById j t)"
    using k by (auto simp: findInterfaceById_def put_interface_def Let_def nth_list_update)
qed

section \<open>Runs\<close>

datatype ift_op = AddInterface NetworkInterface | DeleteInterface int | GetNumInterfaces | GetInterface int

fun ift_step :: "ift_op \<Rightarrow> InterfaceTable \<Rightarrow> err + InterfaceTable" where
  "ift_step (AddInterface e) t = addInterface e t"
| "ift_step (DeleteInterface i) t = deleteInterface i t"
| "ift_step GetNumInterfaces t = Inr (snd (getNumInterfaces t))"
| "ift_step (GetInterface pos) t = ebind (getInterface pos t) (\<lambda>(_, t'). Inr t')"

lemma getInterface_inv:
  assumes "ift_inv t" "getInterface pos t = Inr (i, t')"
  shows "ift_inv t'"
proof -
  have "0 \<le> pos" "pos < int (length (interfaces t))"
    using assms(2) getNumInterfaces_eq(1) [OF assms(1)]
    by (auto simp: getInterface_def split: prod.splits if_splits)
  then show ?thesis
    using getInterface_eq [OF assms(1)] assms(2) by (metis Inr_inject prod.inject)
qed

lemma ift_step_inv:
  assumes "ift_inv t" "ift_step op t = Inr t'"
  shows "ift_inv t'"
proof (cases op)
  case (AddInterface e)
  then show ?thesis using assms addInterface_inv by simp
next
  case (DeleteInterface i)
  then show ?thesis using assms deleteInterface_inv by simp
next
  case GetNumInterfaces
  then show ?thesis using assms getNumInterfaces_eq(2) [OF assms(1)] by simp
next
  case (GetInterface pos)
  then show ?thesis using assms getInterface_inv by (auto simp: ebind_Inr_iff)
qed

text \<open>
  C38. Whatever interfaces were added and deleted, and whatever was asked in between: the cached number of interfaces
  is that of the occupied slots, access by position returns the identifier of the interface in that
  position, and looking that identifier up finds the interface.
\<close>
theorem interface_positions_cached:
  assumes "efold ift_step ops empty_interface_table = Inr t" and "0 \<le> pos" "pos < fst (getNumInterfaces t)"
  shows "fst (getNumInterfaces t) = int (length (interfaces t)) \<and>
    (\<exists>t'. getInterface pos t = Inr (interfaceId (interfaces t ! nat pos), t')) \<and>
    findInterfaceById (interfaceId (interfaces t ! nat pos)) t = Some (interfaces t ! nat pos)"
proof (intro conjI)
  have run: "efold ift_step ops t0 = Inr t1 \<Longrightarrow> ift_inv t0 \<Longrightarrow> ift_inv t1" for t0 t1
    by (induction ops arbitrary: t0) (auto simp: ebind_Inr_iff dest: ift_step_inv)
  have inv: "ift_inv t" using run [OF assms(1) ift_inv_empty] .
  show n: "fst (getNumInterfaces t) = int (length (interfaces t))"
    by (rule getNumInterfaces_eq(1) [OF inv])
  show "\<exists>t'. getInterface pos t = Inr (interfaceId (interfaces t ! nat pos), t')"
    using getInterface_eq [OF inv assms(2)] assms(3) n by metis
  have "interfaces t ! nat pos \<in> set (interfaces t)" using assms(2,3) n by (intro nth_mem) simp
  then show "findInterfaceById (interfaceId (interfaces t ! nat pos)) t = Some (interfaces t ! nat pos)"
    using inv findInterfaceById_iff by (simp add: ift_inv_def)
qed

definition example_interface :: "string \<Rightarrow> NetworkInterface" where
  "example_interface name = \<lparr>interfaceId = -1, interfaceName = name, if_mtu = 1500, if_state = IF_UP,
     if_carrier = True, if_broadcast = True, if_multicast = True, if_pointToPoint = False, if_loopback = False,
     if_macAddr = MacAddress 0x0AAA00000001, multicastAddresses = [], ipv4Data = Some new_interface_data\<rparr>"

lemma interface_positions_cached_witness:
  "\<exists>t t'. efold ift_step [AddInterface (example_interface ''lo''), AddInterface (example_interface ''eth0''),
      GetInterface 1, DeleteInterface 100] empty_interface_table = Inr t \<and> getInterface 0 t = Inr (101, t')"
proof -
  let ?ops = "[AddInterface (example_interface ''lo''), AddInterface (example_interface ''eth0''),
      GetInterface 1, DeleteInterface 100]"
  define t where "t = \<lparr>idToInterface = [None, Some (example_interface ''eth0''\<lparr>interfaceId := 101\<rparr>)],
      tmpNumInterfaces = -1, tmpInterfaceList = None\<rparr>"
  have t: "efold ift_step ?ops empty_interface_table = Inr t"
    by (simp add: t_def addInterface_def findInterfaceByName_def interfaces_def empty_interface_table_def
        INTERFACEIDS_START_def invalidateTmpInterfaceList_def example_interface_def getInterface_def
        getNumInterfaces_def Let_def deleteInterface_def getInterfaceById_def findInterfaceById_def)
  have "\<exists>t'. getInterface 0 t = Inr (interfaceId (interfaces t ! nat 0), t')"
    using interface_positions_cached [OF t, of 0] by (simp add: t_def getNumInterfaces_def)
  moreover have "interfaceId (interfaces t ! nat 0) = 101" by (simp add: t_def interfaces_def)
  ultimately show ?thesis using t by auto
qed

end
