(* ===== verification/StdSearch.thy ===== *)
theory StdSearch
  imports Prelude
begin

text \<open>
  The binary searches of the C++ standard library that keep the repository's sorted vectors,
  \<open>std::lower_bound\<close> and \<open>std::upper_bound\<close>, as the halving loop that libstdc++ and libc++ share. The
  loop matters where a comparison is no strict weak order, since the result then depends on it. The locale states the
  contract of a comparison function; what a sorted vector promises is proved under it once.
\<close>

section \<open>The halving loop\<close>

text \<open>\<open>p\<close> tells whether the element in the middle is before the position searched for.\<close>

function bisect :: "('a \<Rightarrow> bool) \<Rightarrow> 'a list \<Rightarrow> nat \<Rightarrow> nat \<Rightarrow> nat" where
  "bisect p xs first len =
     (if len = 0 then first
      else let half = len div 2; middle = first + half in
        if p (xs ! middle) then bisect p xs (middle + 1) (len - half - 1)
        else bisect p xs first half)"
  by auto

termination
  by (relation "measure (\<lambda>(p, xs, first, len). len)") auto

declare bisect.simps [simp del]

definition lower_bound :: "('a \<Rightarrow> 'a \<Rightarrow> bool) \<Rightarrow> 'a \<Rightarrow> 'a list \<Rightarrow> nat" where
  "lower_bound lt v xs = bisect (\<lambda>e. lt e v) xs 0 (length xs)"

definition upper_bound :: "('a \<Rightarrow> 'a \<Rightarrow> bool) \<Rightarrow> 'a \<Rightarrow> 'a list \<Rightarrow> nat" where
  "upper_bound lt v xs = bisect (\<lambda>e. \<not> lt v e) xs 0 (length xs)"

definition insert_at :: "nat \<Rightarrow> 'a \<Rightarrow> 'a list \<Rightarrow> 'a list" where
  "insert_at i x xs = take i xs @ x # drop i xs"

lemma bisect_range: "first \<le> bisect p xs first len \<and> bisect p xs first len \<le> first + len"
proof (induction p xs first len rule: bisect.induct)
  case (1 p xs first len)
  show ?case
  proof (cases "len = 0")
    case True
    then show ?thesis by (simp add: bisect.simps)
  next
    case False
    then show ?thesis
      using 1 by (subst (1 2) bisect.simps) (fastforce simp: Let_def)
  qed
qed

definition down_closed :: "('a \<Rightarrow> bool) \<Rightarrow> 'a list \<Rightarrow> bool" where
  "down_closed p xs = (\<forall>i j. i \<le> j \<and> j < length xs \<and> p (xs ! j) \<longrightarrow> p (xs ! i))"

lemma bisect_partition:
  "down_closed p xs \<Longrightarrow>
   first + len \<le> length xs \<Longrightarrow> \<forall>j < first. p (xs ! j) \<Longrightarrow>
   \<forall>j. first + len \<le> j \<and> j < length xs \<longrightarrow> \<not> p (xs ! j) \<Longrightarrow>
   (\<forall>j < bisect p xs first len. p (xs ! j)) \<and>
   (\<forall>j. bisect p xs first len \<le> j \<and> j < length xs \<longrightarrow> \<not> p (xs ! j))"
proof (induction p xs first len rule: bisect.induct)
  case (1 p xs first len)
  show ?case
  proof (cases "len = 0")
    case True
    then show ?thesis using "1.prems" by (simp add: bisect.simps)
  next
    case False
    define half where "half = len div 2"
    have h: "half < len" "first + half < length xs" using False "1.prems"(2) by (simp_all add: half_def)
    show ?thesis
    proof (cases "p (xs ! (first + half))")
      case True
      have eq: "bisect p xs first len = bisect p xs (first + half + 1) (len - half - 1)"
        using False True by (subst bisect.simps) (simp add: half_def Let_def)
      have low: "\<forall>j < first + half + 1. p (xs ! j)"
        using "1.prems"(1) True h(2) by (auto simp: less_Suc_eq_le down_closed_def)
      have "first + half + 1 + (len - half - 1) = first + len" using h by simp
      then show ?thesis
        unfolding eq using "1.IH" (1) [OF False half_def refl True "1.prems"(1) _ low] "1.prems"(2,4) by simp
    next
      case F: False
      have eq: "bisect p xs first len = bisect p xs first half"
        using False F by (subst bisect.simps) (simp add: half_def Let_def)
      have up: "\<forall>j. first + half \<le> j \<and> j < length xs \<longrightarrow> \<not> p (xs ! j)"
        using "1.prems"(1) F unfolding down_closed_def by blast
      have le: "first + half \<le> length xs" using h(2) by simp
      show ?thesis
        unfolding eq by (rule "1.IH" (2) [OF False half_def refl F "1.prems"(1) le "1.prems"(3) up])
    qed
  qed
qed

lemma set_insert_at [simp]: "set (insert_at i x xs) = insert x (set xs)"
  unfolding insert_at_def by (metis Un_insert_right append_take_drop_id list.set(2) set_append)

lemma length_insert_at [simp]: "i \<le> length xs \<Longrightarrow> length (insert_at i x xs) = Suc (length xs)"
  by (simp add: insert_at_def)

lemma map_insert_at: "map f (insert_at i x xs) = insert_at i (f x) (map f xs)"
  by (simp add: insert_at_def take_map drop_map)

lemma distinct_insert_at: "distinct xs \<Longrightarrow> x \<notin> set xs \<Longrightarrow> distinct (insert_at i x xs)"
  unfolding insert_at_def
  by (metis append_take_drop_id distinct.simps(2) distinct_append distinct_append Int_insert_right
      in_set_takeD in_set_dropD list.set(2))

section \<open>The contract of a comparison\<close>

locale strict_weak_order =
  fixes lt :: "'a \<Rightarrow> 'a \<Rightarrow> bool"
  assumes less_irrefl: "\<not> lt a a"
    and less_trans: "lt a b \<Longrightarrow> lt b c \<Longrightarrow> lt a c"
    and incomparable_trans: "\<not> lt a b \<Longrightarrow> \<not> lt b c \<Longrightarrow> \<not> lt a c"
begin

definition ordered :: "'a list \<Rightarrow> bool" where
  "ordered xs = sorted_wrt (\<lambda>x y. \<not> lt y x) xs"

lemma less_asym: "lt a b \<Longrightarrow> \<not> lt b a"
  using less_irrefl less_trans by blast

lemma ordered_nth: "ordered xs \<Longrightarrow> i \<le> j \<Longrightarrow> j < length xs \<Longrightarrow> \<not> lt (xs ! j) (xs ! i)"
  using sorted_wrt_nth_less [of "\<lambda>x y. \<not> lt y x" xs i j] less_irrefl
  by (cases "i = j") (auto simp: ordered_def)

lemma upper_bound_partition:
  assumes "ordered xs"
  shows "\<forall>j < upper_bound lt v xs. \<not> lt v (xs ! j)"
    and "\<forall>j. upper_bound lt v xs \<le> j \<and> j < length xs \<longrightarrow> lt v (xs ! j)"
proof -
  have "down_closed (\<lambda>e. \<not> lt v e) xs"
    unfolding down_closed_def using incomparable_trans ordered_nth [OF assms] by blast
  then have "(\<forall>j < bisect (\<lambda>e. \<not> lt v e) xs 0 (length xs). \<not> lt v (xs ! j)) \<and>
      (\<forall>j. bisect (\<lambda>e. \<not> lt v e) xs 0 (length xs) \<le> j \<and> j < length xs \<longrightarrow> \<not> (\<not> lt v (xs ! j)))"
    by (rule bisect_partition) auto
  then show "\<forall>j < upper_bound lt v xs. \<not> lt v (xs ! j)"
    and "\<forall>j. upper_bound lt v xs \<le> j \<and> j < length xs \<longrightarrow> lt v (xs ! j)"
    unfolding upper_bound_def by blast+
qed

lemma lower_bound_partition:
  assumes "ordered xs"
  shows "\<forall>j < lower_bound lt v xs. lt (xs ! j) v"
    and "\<forall>j. lower_bound lt v xs \<le> j \<and> j < length xs \<longrightarrow> \<not> lt (xs ! j) v"
proof -
  have "down_closed (\<lambda>e. lt e v) xs"
    unfolding down_closed_def using incomparable_trans ordered_nth [OF assms] by blast
  then have "(\<forall>j < bisect (\<lambda>e. lt e v) xs 0 (length xs). lt (xs ! j) v) \<and>
      (\<forall>j. bisect (\<lambda>e. lt e v) xs 0 (length xs) \<le> j \<and> j < length xs \<longrightarrow> \<not> (lt (xs ! j) v))"
    by (rule bisect_partition) auto
  then show "\<forall>j < lower_bound lt v xs. lt (xs ! j) v"
    and "\<forall>j. lower_bound lt v xs \<le> j \<and> j < length xs \<longrightarrow> \<not> lt (xs ! j) v"
    unfolding lower_bound_def by blast+
qed

lemma bound_le [simp]: "upper_bound lt v xs \<le> length xs" "lower_bound lt v xs \<le> length xs"
  using bisect_range [of 0] by (simp_all add: upper_bound_def lower_bound_def)

lemma ordered_append:
  "ordered (xs @ ys) \<longleftrightarrow> ordered xs \<and> ordered ys \<and> (\<forall>x \<in> set xs. \<forall>y \<in> set ys. \<not> lt y x)"
  by (simp add: ordered_def sorted_wrt_append)

lemma ordered_insert_at:
  assumes "ordered xs" "i \<le> length xs"
    and "\<forall>j < i. \<not> lt v (xs ! j)" "\<forall>j. i \<le> j \<and> j < length xs \<longrightarrow> \<not> lt (xs ! j) v"
  shows "ordered (insert_at i v xs)"
proof -
  have o: "ordered (take i xs)" "ordered (drop i xs)" "\<forall>x \<in> set (take i xs). \<forall>y \<in> set (drop i xs). \<not> lt y x"
    using assms(1) ordered_append [of "take i xs" "drop i xs"] by simp_all
  have t: "\<forall>x \<in> set (take i xs). \<not> lt v x"
    using assms(3) by (auto simp: in_set_conv_nth)
  have d: "\<forall>y \<in> set (drop i xs). \<not> lt y v"
    using assms(2,4) by (auto simp: in_set_conv_nth)
  have "ordered (v # drop i xs)" using o(2) d by (simp add: ordered_def)
  then show ?thesis
    unfolding insert_at_def ordered_append using o t d by auto
qed

lemma ordered_insert_upper: "ordered xs \<Longrightarrow> ordered (insert_at (upper_bound lt v xs) v xs)"
  using upper_bound_partition less_asym by (intro ordered_insert_at) auto

lemma ordered_insert_lower: "ordered xs \<Longrightarrow> ordered (insert_at (lower_bound lt v xs) v xs)"
  using lower_bound_partition less_asym by (intro ordered_insert_at) auto

lemma ordered_filter: "ordered xs \<Longrightarrow> ordered (filter P xs)"
  by (simp add: ordered_def sorted_wrt_filter)

lemma ordered_remove1: "ordered xs \<Longrightarrow> ordered (remove1 x xs)"
  unfolding ordered_def
proof (induction xs)
  case (Cons a xs)
  then show ?case using set_remove1_subset [of x xs] by auto
qed simp

text \<open>Scanning a sorted vector for the first match finds a best one.\<close>

lemma ordered_find:
  assumes "ordered xs" "find P xs = Some r"
  shows "r \<in> set xs" "P r" "\<forall>y \<in> set xs. P y \<longrightarrow> \<not> lt y r"
proof -
  obtain i where i: "i < length xs" "P (xs ! i)" "r = xs ! i" "\<forall>j < i. \<not> P (xs ! j)"
    using assms(2) by (auto simp: find_Some_iff)
  then show "r \<in> set xs" "P r" by auto
  show "\<forall>y \<in> set xs. P y \<longrightarrow> \<not> lt y r"
  proof (intro ballI impI)
    fix y assume "y \<in> set xs" "P y"
    then obtain j where j: "j < length xs" "y = xs ! j" by (auto simp: in_set_conv_nth)
    then have "i \<le> j" using i(4) \<open>P y\<close> by (meson not_le)
    then show "\<not> lt y r" using ordered_nth [OF assms(1) _ j(1)] i(3) j(2) by simp
  qed
qed

end

end
