(* ===== verification/UdpMcast.thy ===== *)
theory UdpMcast
  imports IfaceTable StdSearch
begin

text \<open>
  The multicast memberships of a UDP socket, \<open>SockDesc\<close> and \<open>MulticastMembership\<close> of
  \<open>inet/transportlayer/udp/Udp.cc\<close>: a vector per socket that \<open>lessMembership\<close> should keep in order of
  group and interface, and the operations with which a socket joins, leaves and filters groups,
  which report every change to the interfaces (theory \<open>Ipv4Iface\<close>).

  The operations work on the memberships of one socket and the interface table, together with the
  notifications the interfaces send. A pointer into the vector is an index.
\<close>

section \<open>Definitions\<close>

datatype UdpSourceFilterMode = UDP_INCLUDE_MCAST_SOURCES | UDP_EXCLUDE_MCAST_SOURCES

record MulticastMembership =
  mm_address :: L3Addr
  mm_interfaceId :: int
  mm_filterMode :: UdpSourceFilterMode
  mm_sourceList :: "L3Addr list"

definition isSourceAllowed :: "MulticastMembership \<Rightarrow> L3Addr \<Rightarrow> bool" where
  "isSourceAllowed m sourceAddr =
     (mm_filterMode m = UDP_INCLUDE_MCAST_SOURCES \<and> sourceAddr \<in> set (mm_sourceList m) \<or>
      mm_filterMode m = UDP_EXCLUDE_MCAST_SOURCES \<and> sourceAddr \<notin> set (mm_sourceList m))"

definition lessMembership :: "MulticastMembership \<Rightarrow> MulticastMembership \<Rightarrow> bool" where
  "lessMembership a b =
     (if mm_address a \<noteq> mm_address b then l3_less (mm_address a) (mm_address b) = Inr True
      else if mm_interfaceId a = -1 \<or> mm_interfaceId a \<ge> mm_interfaceId b then False
      else True)"

type_synonym membership_table = "MulticastMembership list"

definition membership_probe :: "L3Addr \<Rightarrow> int \<Rightarrow> MulticastMembership" where
  "membership_probe a i = \<lparr>mm_address = a, mm_interfaceId = i,
     mm_filterMode = UDP_INCLUDE_MCAST_SOURCES, mm_sourceList = []\<rparr>"

definition findFirstMulticastMembership :: "L3Addr \<Rightarrow> membership_table \<Rightarrow> nat" where
  "findFirstMulticastMembership a t =
     (let it = lower_bound lessMembership (membership_probe a 0) t in
      if it < length t \<and> mm_address (t ! it) = a then it else length t)"

definition findMulticastMembership :: "L3Addr \<Rightarrow> int \<Rightarrow> membership_table \<Rightarrow> nat option" where
  "findMulticastMembership a i t =
     (let it = lower_bound lessMembership (membership_probe a i) t in
      if it < length t \<and> mm_address (t ! it) = a \<and> mm_interfaceId (t ! it) = i then Some it else None)"

definition addMulticastMembership :: "MulticastMembership \<Rightarrow> membership_table \<Rightarrow> membership_table" where
  "addMulticastMembership m t = insert_at (lower_bound lessMembership m t) m t"

definition deleteMulticastMembership :: "nat \<Rightarrow> membership_table \<Rightarrow> membership_table" where
  "deleteMulticastMembership i t = take i t @ drop (Suc i) t"

subsection \<open>Reports to the interfaces\<close>

type_synonym mcast_state = "membership_table \<times> InterfaceTable \<times> (int \<times> iface_signal) list"

definition change_interface ::
  "(NetworkInterface \<Rightarrow> err + NetworkInterface \<times> iface_signal list) \<Rightarrow> int \<Rightarrow>
   InterfaceTable \<times> (int \<times> iface_signal) list \<Rightarrow> err + InterfaceTable \<times> (int \<times> iface_signal) list" where
  "change_interface f i s =
     ebind (getInterfaceById i (fst s)) (\<lambda>ie. ebind (f ie) (\<lambda>(ie', sigs).
       Inr (put_interface ie' (fst s), snd s @ map (Pair i) sigs)))"

definition is_multicast_interface :: "int \<Rightarrow> InterfaceTable \<Rightarrow> err + unit" where
  "is_multicast_interface i ift = ebind (getInterfaceById i ift) (\<lambda>ie. assert_that (if_multicast ie))"

definition is_multicast_address :: "L3Addr \<Rightarrow> err + unit" where
  "is_multicast_address a = ebind (l3_isMulticast a) assert_that"

definition multicast_interface_ids :: "InterfaceTable \<Rightarrow> int list" where
  "multicast_interface_ids ift = map interfaceId (filter if_multicast (interfaces ift))"

definition addMulticastAddressToInterface ::
  "L3Addr \<Rightarrow> int \<Rightarrow> InterfaceTable \<times> (int \<times> iface_signal) list \<Rightarrow>
   err + InterfaceTable \<times> (int \<times> iface_signal) list" where
  "addMulticastAddressToInterface a i s =
     ebind (is_multicast_interface i (fst s)) (\<lambda>_.
     ebind (is_multicast_address a) (\<lambda>_.
       case a of
         L3_IPv4 g \<Rightarrow> change_interface (with_ipv4_data (joinMulticastGroup g)) i s
       | _ \<Rightarrow> change_interface (if_joinMulticastGroup a) i s))"

definition toMcastMode :: "UdpSourceFilterMode \<Rightarrow> McastSourceFilterMode" where
  "toMcastMode m = (if m = UDP_INCLUDE_MCAST_SOURCES then MCAST_INCLUDE_SOURCES else MCAST_EXCLUDE_SOURCES)"

subsection \<open>The socket options\<close>

text \<open>One round of the loop of \<open>joinMulticastGroups\<close>.\<close>

definition join_group :: "L3Addr \<times> int \<Rightarrow> mcast_state \<Rightarrow> err + mcast_state" where
  "join_group = (\<lambda>(a, i) (t, s).
     ebind (is_multicast_address a) (\<lambda>_.
       if findMulticastMembership a i t \<noteq> None
       then Inl (RuntimeError ''UPD::joinMulticastGroups(): group on interface is already joined.'')
       else
         let t1 = addMulticastMembership \<lparr>mm_address = a, mm_interfaceId = i,
                    mm_filterMode = UDP_EXCLUDE_MCAST_SOURCES, mm_sourceList = []\<rparr> t
         in if i \<noteq> -1
            then ebind (is_multicast_interface i (fst s)) (\<lambda>_.
                 ebind (addMulticastAddressToInterface a i s) (\<lambda>s1. Inr (t1, s1)))
            else ebind (efold (addMulticastAddressToInterface a) (multicast_interface_ids (fst s)) s)
                   (\<lambda>s1. Inr (t1, s1))))"

text \<open>The interface of the k-th address is the k-th identifier, or \<open>-1\<close> (all) when there are fewer.\<close>

fun pair_interfaces :: "L3Addr list \<Rightarrow> int list \<Rightarrow> (L3Addr \<times> int) list" where
  "pair_interfaces [] is = []"
| "pair_interfaces (a # as) [] = (a, -1) # pair_interfaces as []"
| "pair_interfaces (a # as) (i # is) = (a, i) # pair_interfaces as is"

definition joinMulticastGroups :: "L3Addr list \<Rightarrow> int list \<Rightarrow> mcast_state \<Rightarrow> err + mcast_state" where
  "joinMulticastGroups addresses interfaceIds = efold join_group (pair_interfaces addresses interfaceIds)"

definition release_membership ::
  "MulticastMembership \<Rightarrow> InterfaceTable \<times> (int \<times> iface_signal) list \<Rightarrow>
   err + InterfaceTable \<times> (int \<times> iface_signal) list" where
  "release_membership m s =
     (let leave = change_interface (if_changeMulticastGroupMembership (mm_address m)
                    (toMcastMode (mm_filterMode m)) (mm_sourceList m) MCAST_INCLUDE_SOURCES [])
      in if mm_interfaceId m \<noteq> -1 then leave (mm_interfaceId m) s
         else efold leave (multicast_interface_ids (fst s)) s)"

text \<open>
  One round of the loop of \<open>leaveMulticastGroups\<close>: the inner loop erases the memberships of the group
  from the first one on, as long as they follow each other.
\<close>

definition leave_group :: "L3Addr \<Rightarrow> mcast_state \<Rightarrow> err + mcast_state" where
  "leave_group a = (\<lambda>(t, s).
     let it = findFirstMulticastMembership a t;
         ms = takeWhile (\<lambda>m. mm_address m = a) (drop it t)
     in ebind (efold release_membership ms s) (\<lambda>s1. Inr (take it t @ drop (it + length ms) t, s1)))"

definition leaveMulticastGroups :: "L3Addr list \<Rightarrow> mcast_state \<Rightarrow> err + mcast_state" where
  "leaveMulticastGroups addresses = efold leave_group addresses"

text \<open>The loops over the source list of a command, with the flag \<open>changed\<close>.\<close>

definition append_sources :: "L3Addr list \<Rightarrow> L3Addr list \<Rightarrow> L3Addr list \<times> bool" where
  "append_sources srcList srcs =
     fold (\<lambda>a (l, ch). if a \<in> set l then (l @ [a], True) else (l, ch)) srcList (srcs, False)"

definition erase_sources :: "L3Addr list \<Rightarrow> L3Addr list \<Rightarrow> L3Addr list \<times> bool" where
  "erase_sources srcList srcs =
     fold (\<lambda>a (l, ch). if a \<in> set l then (remove1 a l, True) else (l, ch)) srcList (srcs, False)"

definition blockMulticastSources :: "int \<Rightarrow> L3Addr \<Rightarrow> L3Addr list \<Rightarrow> mcast_state \<Rightarrow> err + mcast_state" where
  "blockMulticastSources i a srcList = (\<lambda>(t, s).
     ebind (is_multicast_interface i (fst s)) (\<lambda>_. ebind (is_multicast_address a) (\<lambda>_.
       case findMulticastMembership a i t of
         None \<Rightarrow> Inl (RuntimeError ''Udp::blockMulticastSources(): not a member of the group on the interface'')
       | Some k \<Rightarrow>
           let m = t ! k in
           if mm_filterMode m \<noteq> UDP_EXCLUDE_MCAST_SOURCES
           then Inl (RuntimeError ''Udp::blockMulticastSources(): socket was not joined to all sources'')
           else
             let (l, ch) = append_sources srcList (mm_sourceList m);
                 t1 = t[k := m\<lparr>mm_sourceList := l\<rparr>]
             in if ch
                then ebind (change_interface (if_changeMulticastGroupMembership a MCAST_EXCLUDE_SOURCES
                       (mm_sourceList m) MCAST_EXCLUDE_SOURCES l) i s) (\<lambda>s1. Inr (t1, s1))
                else Inr (t1, s))))"

definition unblockMulticastSources :: "int \<Rightarrow> L3Addr \<Rightarrow> L3Addr list \<Rightarrow> mcast_state \<Rightarrow> err + mcast_state" where
  "unblockMulticastSources i a srcList = (\<lambda>(t, s).
     ebind (is_multicast_interface i (fst s)) (\<lambda>_. ebind (is_multicast_address a) (\<lambda>_.
       case findMulticastMembership a i t of
         None \<Rightarrow> Inl (RuntimeError ''Udp::unblockMulticastSources(): not a member of the group in the interface'')
       | Some k \<Rightarrow>
           let m = t ! k in
           if mm_filterMode m \<noteq> UDP_EXCLUDE_MCAST_SOURCES
           then Inl (RuntimeError ''Udp::unblockMulticastSources(): socket was not joined to all sources'')
           else
             let (l, ch) = erase_sources srcList (mm_sourceList m);
                 t1 = t[k := m\<lparr>mm_sourceList := l\<rparr>]
             in if ch
                then ebind (change_interface (if_changeMulticastGroupMembership a MCAST_EXCLUDE_SOURCES
                       (mm_sourceList m) MCAST_EXCLUDE_SOURCES l) i s) (\<lambda>s1. Inr (t1, s1))
                else Inr (t1, s))))"

definition leaveMulticastSources :: "int \<Rightarrow> L3Addr \<Rightarrow> L3Addr list \<Rightarrow> mcast_state \<Rightarrow> err + mcast_state" where
  "leaveMulticastSources i a srcList = (\<lambda>(t, s).
     ebind (is_multicast_interface i (fst s)) (\<lambda>_. ebind (is_multicast_address a) (\<lambda>_.
       case findMulticastMembership a i t of
         None \<Rightarrow> Inl (RuntimeError ''Udp::leaveMulticastSources(): not a member of the group in the interface'')
       | Some k \<Rightarrow>
           let m = t ! k in
           if mm_filterMode m = UDP_EXCLUDE_MCAST_SOURCES
           then Inl (RuntimeError ''Udp::leaveMulticastSources(): socket was joined to all sources'')
           else
             let (l, ch) = erase_sources srcList (mm_sourceList m);
                 t1 = t[k := m\<lparr>mm_sourceList := l\<rparr>];
                 t2 = (if l = [] then deleteMulticastMembership k t1 else t1)
             in if ch
                then ebind (change_interface (if_changeMulticastGroupMembership a MCAST_EXCLUDE_SOURCES
                       (mm_sourceList m) MCAST_EXCLUDE_SOURCES l) i s) (\<lambda>s1. Inr (t2, s1))
                else Inr (t2, s))))"

text \<open>
  A membership that is not found is added; the pointer then is to the new one, whose index is where
  \<open>addMulticastMembership\<close> inserted it.
\<close>

definition obtain_membership :: "L3Addr \<Rightarrow> int \<Rightarrow> membership_table \<Rightarrow> nat \<times> membership_table" where
  "obtain_membership a i t =
     (case findMulticastMembership a i t of
        Some k \<Rightarrow> (k, t)
      | None \<Rightarrow> let m = membership_probe a i
                in (lower_bound lessMembership m t, addMulticastMembership m t))"

definition joinMulticastSources :: "int \<Rightarrow> L3Addr \<Rightarrow> L3Addr list \<Rightarrow> mcast_state \<Rightarrow> err + mcast_state" where
  "joinMulticastSources i a srcList = (\<lambda>(t, s).
     ebind (is_multicast_interface i (fst s)) (\<lambda>_. ebind (is_multicast_address a) (\<lambda>_.
       let (k, t0) = obtain_membership a i t; m = t0 ! k in
       if mm_filterMode m = UDP_EXCLUDE_MCAST_SOURCES
       then Inl (RuntimeError ''Udp::joinMulticastSources(): socket was joined to all sources'')
       else
         let (l, ch) = append_sources srcList (mm_sourceList m);
             t1 = t0[k := m\<lparr>mm_sourceList := l\<rparr>]
         in if ch
            then ebind (change_interface (if_changeMulticastGroupMembership a MCAST_INCLUDE_SOURCES
                   (mm_sourceList m) MCAST_INCLUDE_SOURCES l) i s) (\<lambda>s1. Inr (t1, s1))
            else Inr (t1, s))))"

definition setMulticastSourceFilter ::
  "int \<Rightarrow> L3Addr \<Rightarrow> UdpSourceFilterMode \<Rightarrow> L3Addr list \<Rightarrow> mcast_state \<Rightarrow> err + mcast_state" where
  "setMulticastSourceFilter i a mode srcList = (\<lambda>(t, s).
     ebind (is_multicast_interface i (fst s)) (\<lambda>_. ebind (is_multicast_address a) (\<lambda>_.
       let (k, t0) = obtain_membership a i t; m = t0 ! k in
       if mm_filterMode m \<noteq> mode \<or> mm_sourceList m \<noteq> srcList
       then ebind (change_interface (if_changeMulticastGroupMembership a (toMcastMode (mm_filterMode m))
              (mm_sourceList m) (toMcastMode mode) srcList) i s)
              (\<lambda>s1. Inr (t0[k := m\<lparr>mm_filterMode := mode, mm_sourceList := srcList\<rparr>], s1))
       else Inr (t0, s))))"

section \<open>Looking up memberships\<close>

text \<open>
  The order that the comment above \<open>lessMembership\<close> asks for on interfaces proper, that is without
  the identifier \<open>-1\<close> for all interfaces.
\<close>

definition membership_key :: "MulticastMembership \<Rightarrow> L3Addr \<times> int" where
  "membership_key m = (mm_address m, mm_interfaceId m)"

definition less_key :: "L3Addr \<times> int \<Rightarrow> L3Addr \<times> int \<Rightarrow> bool" where
  "less_key p q = (if fst p \<noteq> fst q then l3_less (fst p) (fst q) = Inr True else snd p < snd q)"

lemma less_key_total: "less_key p q \<or> p = q \<or> less_key q p"
  using l3_less_total [of "fst p" "fst q"] by (cases p; cases q) (auto simp: less_key_def)

lemma less_key_trans: "less_key p q \<Longrightarrow> less_key q r \<Longrightarrow> less_key p r"
  using l3_less_trans [of "fst p" "fst q" "fst r"] l3_less_asym [of "fst p" "fst q"]
  by (auto simp: less_key_def split: if_splits)

lemma less_key_irrefl: "\<not> less_key p p"
  by (simp add: less_key_def)

interpretation key_order: strict_weak_order less_key
proof
  show "\<not> less_key a a" for a by (rule less_key_irrefl)
  show "less_key a b \<Longrightarrow> less_key b c \<Longrightarrow> less_key a c" for a b c by (rule less_key_trans)
  show "\<not> less_key a b \<Longrightarrow> \<not> less_key b c \<Longrightarrow> \<not> less_key a c" for a b c
    using less_key_total less_key_trans less_key_irrefl by metis
qed

lemma less_membership_key:
  "mm_interfaceId m \<noteq> -1 \<Longrightarrow> lessMembership m m' \<longleftrightarrow> less_key (membership_key m) (membership_key m')"
  by (auto simp: lessMembership_def less_key_def membership_key_def)

lemma bisect_cong: "(\<And>e. e \<in> set xs \<Longrightarrow> p e = q (f e)) \<Longrightarrow> first + len \<le> length xs \<Longrightarrow>
    bisect p xs first len = bisect q (map f xs) first len"
proof (induction p xs first len rule: bisect.induct)
  case (1 p xs first len)
  show ?case
  proof (cases "len = 0")
    case True
    then show ?thesis by (simp add: bisect.simps)
  next
    case False
    then have m: "first + len div 2 < length xs" using "1.prems"(2) by simp
    have pq: "p (xs ! (first + len div 2)) = q (map f xs ! (first + len div 2))"
      using "1.prems"(1) [OF nth_mem [OF m]] m by simp
    have L: "bisect p xs (first + len div 2 + 1) (len - len div 2 - 1) =
        bisect q (map f xs) (first + len div 2 + 1) (len - len div 2 - 1)"
      if "p (xs ! (first + len div 2))"
      using "1.IH"(1) [OF False refl refl that "1.prems"(1)] "1.prems"(2) False by simp
    have R: "bisect p xs first (len div 2) = bisect q (map f xs) first (len div 2)"
      if "\<not> p (xs ! (first + len div 2))"
      using "1.IH"(2) [OF False refl refl that "1.prems"(1)] "1.prems"(2) by simp
    show ?thesis
      using False L R pq by (subst (1 2) bisect.simps) (simp add: Let_def)
  qed
qed

lemma lower_bound_key:
  "\<forall>m \<in> set t. mm_interfaceId m \<noteq> -1 \<Longrightarrow>
   lower_bound lessMembership v t = lower_bound less_key (membership_key v) (map membership_key t)"
  unfolding lower_bound_def length_map
  by (rule bisect_cong) (simp_all add: less_membership_key)

lemma lower_bound_member:
  assumes "key_order.ordered ks" "k \<in> set ks"
  shows "lower_bound less_key k ks < length ks \<and> ks ! lower_bound less_key k ks = k"
proof -
  let ?i = "lower_bound less_key k ks"
  obtain j where j: "j < length ks" "ks ! j = k" using assms(2) by (auto simp: in_set_conv_nth)
  have lo: "\<forall>j < ?i. less_key (ks ! j) k" and hi: "\<forall>j. ?i \<le> j \<and> j < length ks \<longrightarrow> \<not> less_key (ks ! j) k"
    using key_order.lower_bound_partition [OF assms(1)] by blast+
  have ij: "?i \<le> j" using lo j less_key_irrefl by (metis not_le)
  then have i: "?i < length ks" using j(1) by simp
  have "\<not> less_key k (ks ! ?i)" using key_order.ordered_nth [OF assms(1) ij j(1)] j(2) by simp
  moreover have "\<not> less_key (ks ! ?i) k" using hi i by blast
  ultimately show ?thesis using i less_key_total by blast
qed

definition table_ok :: "membership_table \<Rightarrow> bool" where
  "table_ok t \<longleftrightarrow> (\<forall>m \<in> set t. mm_interfaceId m \<noteq> -1) \<and> key_order.ordered (map membership_key t)"

lemma table_ok_add:
  assumes "table_ok t" "mm_interfaceId m \<noteq> -1"
  shows "table_ok (addMulticastMembership m t)"
  using assms key_order.ordered_insert_lower
  by (auto simp: table_ok_def addMulticastMembership_def map_insert_at lower_bound_key)

lemma find_membership_iff:
  assumes "table_ok t" "i \<noteq> -1"
  shows "findMulticastMembership a i t \<noteq> None \<longleftrightarrow> (\<exists>m \<in> set t. membership_key m = (a, i))"
    and "findMulticastMembership a i t = Some k \<Longrightarrow> k < length t \<and> membership_key (t ! k) = (a, i)"
proof -
  let ?k = "lower_bound lessMembership (membership_probe a i) t"
  have lb: "?k = lower_bound less_key (a, i) (map membership_key t)"
    using assms lower_bound_key [of t "membership_probe a i"]
    by (simp add: table_ok_def membership_key_def membership_probe_def)
  have f: "findMulticastMembership a i t =
      (if ?k < length t \<and> membership_key (t ! ?k) = (a, i) then Some ?k else None)"
    by (auto simp: findMulticastMembership_def membership_key_def Let_def)
  then show "findMulticastMembership a i t = Some k \<Longrightarrow> k < length t \<and> membership_key (t ! k) = (a, i)"
    by (auto split: if_splits)
  show "findMulticastMembership a i t \<noteq> None \<longleftrightarrow> (\<exists>m \<in> set t. membership_key m = (a, i))"
  proof
    assume "\<exists>m \<in> set t. membership_key m = (a, i)"
    then have "(a, i) \<in> set (map membership_key t)" by force
    from lower_bound_member [OF _ this] show "findMulticastMembership a i t \<noteq> None"
      using assms(1) unfolding f lb by (auto simp: table_ok_def)
  qed (auto simp: f split: if_splits)
qed

text \<open>
  Memberships on interfaces proper: after any sequence of \<open>addMulticastMembership\<close> without the
  interface identifier \<open>-1\<close>, looking a group and an interface up finds a membership exactly if one was added, and the
  one it finds is for that group and interface.
\<close>
theorem membership_lookup:
  assumes "\<forall>m \<in> set ms. mm_interfaceId m \<noteq> -1" and "i \<noteq> -1"
  shows "findMulticastMembership a i (fold addMulticastMembership ms []) \<noteq> None \<longleftrightarrow>
         (\<exists>m \<in> set ms. mm_address m = a \<and> mm_interfaceId m = i)"
    and "findMulticastMembership a i (fold addMulticastMembership ms []) = Some k \<Longrightarrow>
         mm_address (fold addMulticastMembership ms [] ! k) = a \<and>
         mm_interfaceId (fold addMulticastMembership ms [] ! k) = i"
proof -
  let ?t = "fold addMulticastMembership ms []"
  have "table_ok t \<Longrightarrow> \<forall>m \<in> set ms. mm_interfaceId m \<noteq> -1 \<Longrightarrow>
      table_ok (fold addMulticastMembership ms t) \<and> set (fold addMulticastMembership ms t) = set ms \<union> set t" for t
  proof (induction ms arbitrary: t)
    case (Cons m ms)
    then show ?case using Cons.IH [OF table_ok_add [of t m]] by (auto simp: addMulticastMembership_def)
  qed simp
  from this [of "[]"] assms(1) have ok: "table_ok ?t" "set ?t = set ms"
    by (simp_all add: table_ok_def key_order.ordered_def)
  show "findMulticastMembership a i ?t \<noteq> None \<longleftrightarrow> (\<exists>m \<in> set ms. mm_address m = a \<and> mm_interfaceId m = i)"
    using find_membership_iff(1) [OF ok(1) assms(2)] ok(2) by (simp add: membership_key_def)
  show "findMulticastMembership a i ?t = Some k \<Longrightarrow> mm_address (?t ! k) = a \<and> mm_interfaceId (?t ! k) = i"
    using find_membership_iff(2) [OF ok(1) assms(2)] by (simp add: membership_key_def)
qed

lemma membership_lookup_witness:
  "findMulticastMembership (L3_IPv4 0xE0000105) 101 (fold addMulticastMembership
     [membership_probe (L3_IPv4 0xE0000105) 102, membership_probe (L3_IPv4 0xE0000105) 101] []) \<noteq> None"
  using membership_lookup(1) [of "[membership_probe (L3_IPv4 0xE0000105) 102, membership_probe (L3_IPv4 0xE0000105) 101]"
      101 "L3_IPv4 0xE0000105"]
  by (simp add: membership_probe_def)

text \<open>
  The identifier \<open>-1\<close> does not come after the others, as the comment says, but is incomparable with
  them: a socket that is a member on one interface and then on all loses the first membership.
\<close>

lemma membership_on_all_hides:
  assumes "0 \<le> i"
  shows "addMulticastMembership (membership_probe a (-1)) [membership_probe a i] =
           [membership_probe a (-1), membership_probe a i]"
    and "findMulticastMembership a i [membership_probe a (-1), membership_probe a i] = None"
  using assms
  by (simp_all add: addMulticastMembership_def findMulticastMembership_def lower_bound_def bisect.simps
      lessMembership_def membership_probe_def insert_at_def)

section \<open>Source filters\<close>

lemma append_sources_set: "set (fst (append_sources xs l)) = set l"
proof -
  have "set (fst (fold (\<lambda>a (l, ch). if a \<in> set l then (l @ [a], True) else (l, ch)) xs p)) = set (fst p)" for p
    by (induction xs arbitrary: p) (auto split: prod.split)
  then show ?thesis by (simp add: append_sources_def)
qed

lemma append_sources_Nil: "append_sources xs [] = ([], False)"
  unfolding append_sources_def by (induction xs) auto

text \<open>
  C40. Adding sources has no effect: the test in the loops of \<open>joinMulticastSources\<close> and \<open>blockMulticastSources\<close>
  is inverted, so whatever sources a socket asks to include or to block, no existing membership changes what it lets
  pass, and a new membership made by \<open>joinMulticastSources\<close>, the first one of the socket or a further one, lets no
  source pass and is not reported to the interface.
\<close>
theorem join_and_block_sources_ineffective:
  shows "(findMulticastMembership a i t = Some k \<and> k < length t \<longrightarrow>
      (blockMulticastSources i a srcs (t, s) = Inr (t', s') \<or> joinMulticastSources i a srcs (t, s) = Inr (t', s')) \<longrightarrow>
      isSourceAllowed (t' ! k) x = isSourceAllowed (t ! k) x) \<and>
    (findMulticastMembership a i t = None \<and> joinMulticastSources i a srcs (t, s) = Inr (t', s') \<longrightarrow>
      s' = s \<and> t' = addMulticastMembership (membership_probe a i) t \<and> \<not> isSourceAllowed (membership_probe a i) x)"
proof (intro conjI impI)
  let ?m = "t ! k"
  assume f: "findMulticastMembership a i t = Some k \<and> k < length t"
    and r: "blockMulticastSources i a srcs (t, s) = Inr (t', s') \<or> joinMulticastSources i a srcs (t, s) = Inr (t', s')"
  obtain l ch where l: "append_sources srcs (mm_sourceList ?m) = (l, ch)" by fastforce
  then have sl: "set l = set (mm_sourceList ?m)"
    using append_sources_set [of srcs "mm_sourceList ?m"] by simp
  then have al: "isSourceAllowed (?m\<lparr>mm_sourceList := l\<rparr>) x = isSourceAllowed ?m x"
    by (simp add: isSourceAllowed_def)
  have "isSourceAllowed (t' ! k) x = isSourceAllowed ?m x" if "blockMulticastSources i a srcs (t, s) = Inr (t', s')"
    using that f al l by (auto simp: blockMulticastSources_def ebind_Inr_iff Let_def split: if_splits)
  moreover have "isSourceAllowed (t' ! k) x = isSourceAllowed ?m x" if "joinMulticastSources i a srcs (t, s) = Inr (t', s')"
    using that f al l
    by (auto simp: joinMulticastSources_def obtain_membership_def ebind_Inr_iff Let_def split: if_splits)
  ultimately show "isSourceAllowed (t' ! k) x = isSourceAllowed ?m x" using r by blast
next
  assume "findMulticastMembership a i t = None \<and> joinMulticastSources i a srcs (t, s) = Inr (t', s')"
  then have n: "findMulticastMembership a i t = None" and j: "joinMulticastSources i a srcs (t, s) = Inr (t', s')" by auto
  let ?m = "membership_probe a i"
  let ?k = "lower_bound lessMembership ?m t"
  have k: "?k \<le> length t" using bisect_range [of 0 _ t "length t"] by (simp add: lower_bound_def)
  then have e: "insert_at ?k ?m t ! ?k = ?m" "(insert_at ?k ?m t)[?k := ?m] = insert_at ?k ?m t"
    by (simp_all add: insert_at_def nth_append list_update_append)
  have "?m\<lparr>mm_sourceList := []\<rparr> = ?m" by (simp add: membership_probe_def)
  then have "s' = s \<and> t' = addMulticastMembership ?m t"
    using n j e
    by (auto simp: joinMulticastSources_def obtain_membership_def ebind_Inr_iff Let_def addMulticastMembership_def
        append_sources_Nil membership_probe_def split: if_splits)
  then show "s' = s" "t' = addMulticastMembership ?m t" by simp_all
  show "\<not> isSourceAllowed ?m x" by (simp add: isSourceAllowed_def membership_probe_def)
qed

lemma join_and_block_sources_ineffective_witness:
  "isSourceAllowed (\<lparr>mm_address = L3_IPv4 0xE0000105, mm_interfaceId = 100,
      mm_filterMode = UDP_EXCLUDE_MCAST_SOURCES, mm_sourceList = []\<rparr>) (L3_IPv4 7) =
   isSourceAllowed (fst (case blockMulticastSources 100 (L3_IPv4 0xE0000105) [L3_IPv4 7]
      ([\<lparr>mm_address = L3_IPv4 0xE0000105, mm_interfaceId = 100,
         mm_filterMode = UDP_EXCLUDE_MCAST_SOURCES, mm_sourceList = []\<rparr>],
       \<lparr>idToInterface = [Some (example_interface ''eth0''\<lparr>interfaceId := 100\<rparr>)],
        tmpNumInterfaces = -1, tmpInterfaceList = None\<rparr>, []) of Inr s \<Rightarrow> s) ! 0) (L3_IPv4 7)"
proof -
  let ?m = "\<lparr>mm_address = L3_IPv4 0xE0000105, mm_interfaceId = 100,
         mm_filterMode = UDP_EXCLUDE_MCAST_SOURCES, mm_sourceList = []\<rparr>"
  let ?s = "(\<lparr>idToInterface = [Some (example_interface ''eth0''\<lparr>interfaceId := 100\<rparr>)],
        tmpNumInterfaces = -1, tmpInterfaceList = None\<rparr>, []) :: InterfaceTable \<times> (int \<times> iface_signal) list"
  have f: "findMulticastMembership (L3_IPv4 0xE0000105) 100 [?m] = Some 0"
    by (simp add: findMulticastMembership_def lower_bound_def bisect.simps lessMembership_def membership_probe_def)
  have b: "blockMulticastSources 100 (L3_IPv4 0xE0000105) [L3_IPv4 7] ([?m], ?s) = Inr ([?m], ?s)"
    by (simp add: blockMulticastSources_def is_multicast_interface_def getInterfaceById_def findInterfaceById_def
        INTERFACEIDS_START_def example_interface_def is_multicast_address_def ipv4_isMulticast_def f append_sources_Nil)
  have "isSourceAllowed ([?m] ! 0) (L3_IPv4 7) = isSourceAllowed ?m (L3_IPv4 7)"
    using join_and_block_sources_ineffective [of "L3_IPv4 0xE0000105" 100 "[?m]" 0 "[L3_IPv4 7]" ?s "[?m]" ?s] f b by simp
  then show ?thesis unfolding b by simp
qed

lemma erase_sources_changed:
  "x \<in> set xs \<Longrightarrow> x \<in> set l \<Longrightarrow> snd (erase_sources xs l)"
proof -
  let ?f = "\<lambda>a (l, ch). if a \<in> set l then (remove1 a l, True) else (l, ch)"
  have t: "snd (fold ?f xs (l, True))" for xs and l :: "L3Addr list"
    by (induction xs arbitrary: l) auto
  have "snd (fold ?f xs (l, ch)) \<longleftrightarrow> ch \<or> (\<exists>x \<in> set xs. x \<in> set l)" for xs ch and l :: "L3Addr list"
  proof (induction xs arbitrary: l ch)
    case (Cons a xs)
    then show ?case using t by (cases "a \<in> set l") auto
  qed simp
  then show "x \<in> set xs \<Longrightarrow> x \<in> set l \<Longrightarrow> snd (erase_sources xs l)"
    by (auto simp: erase_sources_def)
qed

text \<open>
  Leaving sources fails: \<open>leaveMulticastSources\<close> releases the sources of its including membership from the counts
  of the excluding ones. If no socket of the interface excludes sources of the group, a
  request to leave a source that the membership includes always ends in an error.
\<close>
theorem leave_sources_fails:
  assumes "findMulticastMembership (L3_IPv4 g) i t = Some k"
    and "mm_filterMode (t ! k) = UDP_INCLUDE_MCAST_SOURCES" and "x \<in> set srcs" "x \<in> set (mm_sourceList (t ! k))"
    and "getInterfaceById i ift = Inr ie" and "ipv4Data ie = Some d"
    and "group_inv g d S" and "\<forall>f \<in># S. fst f = MCAST_INCLUDE_SOURCES"
  shows "\<exists>e. leaveMulticastSources i (L3_IPv4 g) srcs (t, ift, sigs) = Inl e"
proof -
  obtain l where l: "erase_sources srcs (mm_sourceList (t ! k)) = (l, True)"
    using erase_sources_changed [OF assms(3,4)] by (cases "erase_sources srcs (mm_sourceList (t ! k))") auto
  have fails: "\<exists>e. changeMulticastGroupMembership g MCAST_EXCLUDE_SOURCES old MCAST_EXCLUDE_SOURCES new d = Inl e"
    if "old \<noteq> []" for old new
  proof (cases "find (\<lambda>e. multicastGroup e = g) (joinedMulticastGroups d)")
    case None
    then show ?thesis
      by (simp add: changeMulticastGroupMembership_def findHostGroupData_def assert_that_def)
  next
    case (Some e)
    then have c: "counts_rep (excludeCounts e) (holders MCAST_EXCLUDE_SOURCES S)"
      using assms(7) by (simp add: group_inv_def counts_of_def)
    have "holders MCAST_EXCLUDE_SOURCES S a = 0" for a
      using assms(8) by (auto simp: holders_zero)
    then have "release_source a (excludeCounts e) = Inl (RuntimeError ''Inconsistent reference counts in Ipv4InterfaceData.'')" for a
      using c by (simp add: release_source_def counts_rep_def)
    then show ?thesis using that Some
      by (cases old) (simp_all add: changeMulticastGroupMembership_def findHostGroupData_def
          change_group_entry_def release_sources_def assert_that_def)
  qed
  have ne: "toIpv4AddressVector (mm_sourceList (t ! k)) \<noteq> Inr []"
    using assms(4) by (cases "mm_sourceList (t ! k)") (auto simp: ebind_def split: sum.splits)
  have ch: "\<exists>e. if_changeMulticastGroupMembership (L3_IPv4 g) MCAST_EXCLUDE_SOURCES (mm_sourceList (t ! k))
      MCAST_EXCLUDE_SOURCES l ie = Inl e"
  proof (cases "toIpv4AddressVector (mm_sourceList (t ! k))")
    case (Inl e)
    then show ?thesis by (simp add: if_changeMulticastGroupMembership_def)
  next
    case old: (Inr old)
    show ?thesis
    proof (cases "toIpv4AddressVector l")
      case (Inl e)
      then show ?thesis using old by (simp add: if_changeMulticastGroupMembership_def)
    next
      case (Inr new)
      have "old \<noteq> []" using ne old by auto
      then obtain e where "changeMulticastGroupMembership g MCAST_EXCLUDE_SOURCES old MCAST_EXCLUDE_SOURCES new d = Inl e"
        using fails by metis
      then show ?thesis
        using old Inr assms(6)
        by (simp add: if_changeMulticastGroupMembership_def with_ipv4_data_def getIpv4InterfaceData_def)
    qed
  qed
  then obtain e where e: "change_interface (if_changeMulticastGroupMembership (L3_IPv4 g) MCAST_EXCLUDE_SOURCES
      (mm_sourceList (t ! k)) MCAST_EXCLUDE_SOURCES l) i (ift, sigs) = Inl e"
    using assms(5) by (auto simp: change_interface_def)
  have "leaveMulticastSources i (L3_IPv4 g) srcs (t, ift, sigs) =
      ebind (is_multicast_interface i ift) (\<lambda>_. ebind (is_multicast_address (L3_IPv4 g)) (\<lambda>_. Inl e))"
    by (simp add: leaveMulticastSources_def assms(1,2) l e)
  then show ?thesis
    by (cases "is_multicast_interface i ift"; cases "is_multicast_address (L3_IPv4 g)") simp_all
qed

lemma leave_sources_fails_witness:
  "\<exists>e. leaveMulticastSources 100 (L3_IPv4 0xE0000105) [L3_IPv4 7]
     ([\<lparr>mm_address = L3_IPv4 0xE0000105, mm_interfaceId = 100,
        mm_filterMode = UDP_INCLUDE_MCAST_SOURCES, mm_sourceList = [L3_IPv4 7]\<rparr>],
      \<lparr>idToInterface = [Some (example_interface ''eth0''\<lparr>interfaceId := 100\<rparr>)],
       tmpNumInterfaces = -1, tmpInterfaceList = None\<rparr>, []) = Inl e"
proof (rule leave_sources_fails [where k = 0 and d = new_interface_data and S = "{#}" and x = "L3_IPv4 7"])
  show "findMulticastMembership (L3_IPv4 0xE0000105) 100 [\<lparr>mm_address = L3_IPv4 0xE0000105, mm_interfaceId = 100,
        mm_filterMode = UDP_INCLUDE_MCAST_SOURCES, mm_sourceList = [L3_IPv4 7]\<rparr>] = Some 0"
    by (simp add: findMulticastMembership_def lower_bound_def bisect.simps lessMembership_def membership_probe_def)
  show "getInterfaceById 100 \<lparr>idToInterface = [Some (example_interface ''eth0''\<lparr>interfaceId := 100\<rparr>)],
       tmpNumInterfaces = -1, tmpInterfaceList = None\<rparr> = Inr (example_interface ''eth0''\<lparr>interfaceId := 100\<rparr>)"
    by (simp add: getInterfaceById_def findInterfaceById_def INTERFACEIDS_START_def)
qed (simp_all add: example_interface_def group_inv_def new_interface_data_def)

end
