(* ===== verification/Udp.thy ===== *)
theory Udp
  imports UdpMcast
begin

text \<open>
  The UDP module, \<open>inet/transportlayer/udp/Udp.cc\<close>: the socket tables (\<open>socketsByIdMap\<close> and
  \<open>socketsByPortMap\<close>), binding, ephemeral ports, the commands and packets of the applications, and the
  demultiplexing of the datagrams that the network layer delivers. The theory proves that the two
  tables agree in every reachable state, which socket a datagram goes to, that the ephemeral port is
  free, and what binding a socket that an option command created leaves behind.

  A pointer to a socket is its identifier, the key of \<open>socketsByIdMap\<close>. The network layer is IPv4; the CRC of
  a datagram (\<open>computeCrc\<close>, a checksum over the serialised pseudo header and datagram) is a parameter,
  and a chunk's \<open>isCorrect\<close> flag is part of what arrives. What the module sends is appended to the outbox.
\<close>

section \<open>State\<close>

record SockDesc =
  sockId :: int
  isBound :: bool
  onlyLocalPortIsSet :: bool
  reuseAddr :: bool
  localAddr :: L3Addr
  remoteAddr :: L3Addr
  localPort :: int
  remotePort :: int
  sd_isBroadcast :: bool
  multicastOutputInterfaceId :: int
  multicastLoop :: bool
  sd_ttl :: int
  sd_dscp :: int
  sd_tos :: int
  multicastMembershipTable :: membership_table

definition new_SockDesc :: "int \<Rightarrow> SockDesc" where
  "new_SockDesc i = \<lparr>sockId = i, isBound = False, onlyLocalPortIsSet = False, reuseAddr = False,
     localAddr = L3_NONE, remoteAddr = L3_NONE, localPort = -1, remotePort = -1, sd_isBroadcast = False,
     multicastOutputInterfaceId = -1, multicastLoop = True, sd_ttl = -1, sd_dscp = -1, sd_tos = -1,
     multicastMembershipTable = []\<rparr>"

datatype CrcMode = CRC_MODE_UNDEFINED | CRC_DISABLED | CRC_DECLARED_CORRECT | CRC_DECLARED_INCORRECT | CRC_COMPUTED

record UdpHeader =
  uh_srcPort :: u16
  uh_destPort :: u16
  totalLengthField :: int
  uh_crc :: u16
  uh_crcMode :: CrcMode

abbreviation UDP_HEADER_LENGTH :: int where "UDP_HEADER_LENGTH \<equiv> 8"
abbreviation UDP_MAX_MESSAGE_SIZE :: int where "UDP_MAX_MESSAGE_SIZE \<equiv> 65535"
abbreviation EPHEMERAL_PORTRANGE_START :: int where "EPHEMERAL_PORTRANGE_START \<equiv> 1024"
abbreviation EPHEMERAL_PORTRANGE_END :: int where "EPHEMERAL_PORTRANGE_END \<equiv> 5000"

text \<open>The request tags of a packet from an application, and of one sent to the network layer.\<close>

record 'd udp_send_req =
  us_src :: L3Addr
  us_dest :: L3Addr
  us_ports :: "(int \<times> int) option"
  us_interface :: "int option"
  us_multicastLoop :: "bool option"
  us_hopLimit :: "int option"
  us_dscp :: "int option"
  us_tos :: "int option"
  us_data :: "'d list"

record 'd udp_ind =
  ui_src :: L3Addr
  ui_dest :: L3Addr
  ui_interface :: int
  ui_header :: UdpHeader
  ui_headerCorrect :: bool
  ui_data :: "'d list"
  ui_dataCorrect :: bool

datatype 'd udp_out =
    DataToApp int UdpHeader "'d list" u16 u16
  | ClosedToApp int
  | ErrorToApp int L3Addr L3Addr int u16
  | ToIp UdpHeader "'d udp_send_req"
  | PortUnreachable UdpHeader "'d list" int

record 'd udp_module =
  udp_crcMode :: CrcMode
  socketsByIdMap :: "int \<Rightarrow> SockDesc option"
  socketsByPortMap :: "int \<Rightarrow> int list option"
  lastEphemeralPort :: int
  numSent :: int
  numPassedUp :: int
  numDroppedWrongPort :: int
  numDroppedBadChecksum :: int
  udp_ift :: InterfaceTable
  udp_signals :: "(int \<times> iface_signal) list"
  udp_outbox :: "'d udp_out list"

definition udp_initial :: "CrcMode \<Rightarrow> InterfaceTable \<Rightarrow> 'd udp_module" where
  "udp_initial m ift = \<lparr>udp_crcMode = m, socketsByIdMap = Map.empty, socketsByPortMap = Map.empty,
     lastEphemeralPort = EPHEMERAL_PORTRANGE_START, numSent = 0, numPassedUp = 0, numDroppedWrongPort = 0,
     numDroppedBadChecksum = 0, udp_ift = ift, udp_signals = [], udp_outbox = []\<rparr>"

definition udp_send :: "'d udp_out \<Rightarrow> 'd udp_module \<Rightarrow> 'd udp_module" where
  "udp_send x u = u\<lparr>udp_outbox := udp_outbox u @ [x]\<rparr>"

section \<open>Sockets\<close>

definition getSocketById :: "int \<Rightarrow> 'd udp_module \<Rightarrow> err + SockDesc" where
  "getSocketById i u = (case socketsByIdMap u i of
     None \<Rightarrow> Inl (RuntimeError ''socket id doesn't exist (already closed?)'') | Some sd \<Rightarrow> Inr sd)"

text \<open>Following the pointers of a list of \<open>socketsByPortMap\<close>.\<close>

fun deref :: "int list \<Rightarrow> 'd udp_module \<Rightarrow> err + SockDesc list" where
  "deref [] u = Inr []"
| "deref (i # is) u =
     (case socketsByIdMap u i of
        None \<Rightarrow> Inl NullPointer
      | Some sd \<Rightarrow> ebind (deref is u) (\<lambda>sds. Inr (sd # sds)))"

definition sockets_at :: "int \<Rightarrow> 'd udp_module \<Rightarrow> err + SockDesc list" where
  "sockets_at port u = (case socketsByPortMap u port of None \<Rightarrow> Inr [] | Some l \<Rightarrow> deref l u)"

definition put_socket :: "SockDesc \<Rightarrow> 'd udp_module \<Rightarrow> 'd udp_module" where
  "put_socket sd u = u\<lparr>socketsByIdMap := (socketsByIdMap u)(sockId sd \<mapsto> sd)\<rparr>"

text \<open>An \<open>int\<close> passed as \<open>ushort\<close>.\<close>

definition to_ushort :: "int \<Rightarrow> int" where
  "to_ushort p = p mod 65536"

definition findFirstSocketByLocalAddress :: "L3Addr \<Rightarrow> int \<Rightarrow> 'd udp_module \<Rightarrow> err + SockDesc option" where
  "findFirstSocketByLocalAddress a port u = ebind (sockets_at (to_ushort port) u) (\<lambda>sds.
     Inr (find (\<lambda>sd. l3_isUnspecified (localAddr sd) \<or> localAddr sd = a) sds))"

subsection \<open>Ephemeral ports\<close>

definition next_ephemeral :: "int \<Rightarrow> int" where
  "next_ephemeral p = (if p + 1 = EPHEMERAL_PORTRANGE_END then EPHEMERAL_PORTRANGE_START else p + 1)"

text \<open>The search goes round the range once; the fuel is its size.\<close>

fun ephemeral_search :: "nat \<Rightarrow> (int \<Rightarrow> int list option) \<Rightarrow> int \<Rightarrow> int \<Rightarrow> err + int" where
  "ephemeral_search fuel ports searchUntil p =
     (if ports p = None then Inr p
      else if p = searchUntil
      then Inl (RuntimeError ''Ephemeral port range exhausted, all ports occupied'')
      else case fuel of 0 \<Rightarrow> Inl OutOfFuel
        | Suc f \<Rightarrow> ephemeral_search f ports searchUntil (next_ephemeral p))"

declare ephemeral_search.simps [simp del]

definition getEphemeralPort :: "'d udp_module \<Rightarrow> err + int \<times> 'd udp_module" where
  "getEphemeralPort u =
     ebind (ephemeral_search 3976 (socketsByPortMap u) (lastEphemeralPort u)
              (next_ephemeral (lastEphemeralPort u)))
       (\<lambda>p. Inr (p, u\<lparr>lastEphemeralPort := p\<rparr>))"

subsection \<open>Creating, binding, connecting, closing\<close>

definition add_to_port :: "int \<Rightarrow> int \<Rightarrow> 'd udp_module \<Rightarrow> 'd udp_module" where
  "add_to_port i port u = u\<lparr>socketsByPortMap := (socketsByPortMap u)(port \<mapsto>
     (case socketsByPortMap u port of None \<Rightarrow> [] | Some l \<Rightarrow> l) @ [i])\<rparr>"

definition remove_from_port :: "int \<Rightarrow> int \<Rightarrow> 'd udp_module \<Rightarrow> 'd udp_module" where
  "remove_from_port i port u = u\<lparr>socketsByPortMap := (socketsByPortMap u)(port \<mapsto>
     removeAll i (case socketsByPortMap u port of None \<Rightarrow> [] | Some l \<Rightarrow> l))\<rparr>"

definition createSocket :: "int \<Rightarrow> L3Addr \<Rightarrow> int \<Rightarrow> 'd udp_module \<Rightarrow> err + SockDesc \<times> 'd udp_module" where
  "createSocket i a port u =
     ebind (if port = -1 then getEphemeralPort u else Inr (port, u)) (\<lambda>(p, u1).
       let sd = (new_SockDesc i)\<lparr>localAddr := a, localPort := p, onlyLocalPortIsSet := l3_isUnspecified a\<rparr>
       in Inr (sd, add_to_port i p (put_socket sd u1)))"

definition getOrCreateSocket :: "int \<Rightarrow> 'd udp_module \<Rightarrow> err + SockDesc \<times> 'd udp_module" where
  "getOrCreateSocket i u =
     (if i = -1 then Inl (RuntimeError ''sockId in Udp command not filled in'')
      else case socketsByIdMap u i of
          Some sd \<Rightarrow> Inr (sd, u)
        | None \<Rightarrow> createSocket i L3_NONE (-1) u)"

definition udp_bind :: "int \<Rightarrow> L3Addr \<Rightarrow> int \<Rightarrow> 'd udp_module \<Rightarrow> err + 'd udp_module" where
  "udp_bind i a port u =
     (if i = -1 then Inl (RuntimeError ''sockId in BIND message not filled in'')
      else if port < -1 \<or> port > 65535 then Inl (RuntimeError ''bind: invalid local port number'')
      else ebind (findFirstSocketByLocalAddress a port u) (\<lambda>existing.
        let sd = socketsByIdMap u i in
        if (case existing of None \<Rightarrow> False | Some e \<Rightarrow>
              (case sd of None \<Rightarrow> True | Some s \<Rightarrow> \<not> reuseAddr s) \<or> \<not> reuseAddr e)
        then Inl (RuntimeError ''bind: local address/port already taken'')
        else case sd of
            Some s \<Rightarrow>
              if isBound s then Inl (RuntimeError ''bind: socket is already bound'')
              else
                let s1 = s\<lparr>isBound := True, localAddr := a\<rparr> in
                if port \<noteq> -1 \<and> localPort s \<noteq> port
                then Inr (add_to_port i port (put_socket (s1\<lparr>localPort := port\<rparr>)
                            (remove_from_port i (localPort s) u)))
                else Inr (put_socket s1 u)
          | None \<Rightarrow> ebind (createSocket i a port u) (\<lambda>(s, u1). Inr (put_socket (s\<lparr>isBound := True\<rparr>) u1))))"

definition udp_connect :: "int \<Rightarrow> L3Addr \<Rightarrow> int \<Rightarrow> 'd udp_module \<Rightarrow> err + 'd udp_module" where
  "udp_connect i a port u =
     (if l3_isUnspecified a then Inl (RuntimeError ''connect: unspecified remote address'')
      else if port \<le> 0 \<or> port > 65535 then Inl (RuntimeError ''connect: invalid remote port number'')
      else ebind (getOrCreateSocket i u) (\<lambda>(sd, u1).
        Inr (put_socket (sd\<lparr>remoteAddr := a, remotePort := port, onlyLocalPortIsSet := False\<rparr>) u1)))"

definition destroy_found_socket :: "SockDesc \<Rightarrow> 'd udp_module \<Rightarrow> 'd udp_module" where
  "destroy_found_socket sd u =
     (let u1 = u\<lparr>socketsByIdMap := (socketsByIdMap u)(sockId sd := None)\<rparr>;
          l = remove1 (sockId sd) (case socketsByPortMap u1 (localPort sd) of None \<Rightarrow> [] | Some l \<Rightarrow> l)
      in u1\<lparr>socketsByPortMap := (socketsByPortMap u1)(localPort sd := (if l = [] then None else Some l))\<rparr>)"

definition udp_destroySocket :: "int \<Rightarrow> 'd udp_module \<Rightarrow> 'd udp_module" where
  "udp_destroySocket i u = (case socketsByIdMap u i of None \<Rightarrow> u | Some sd \<Rightarrow> destroy_found_socket sd u)"

definition udp_close :: "int \<Rightarrow> 'd udp_module \<Rightarrow> 'd udp_module" where
  "udp_close i u = (case socketsByIdMap u i of None \<Rightarrow> u | Some sd \<Rightarrow> destroy_found_socket sd u)"

definition clearAllSockets :: "'d udp_module \<Rightarrow> 'd udp_module" where
  "clearAllSockets u = u\<lparr>socketsByIdMap := Map.empty, socketsByPortMap := Map.empty\<rparr>"

section \<open>Commands of the applications\<close>

datatype udp_option =
    SetTtl int | SetDscp int | SetTos int | SetBroadcast bool | SetMulticastInterface int | SetMulticastLoop bool
  | SetReuseAddress bool
  | JoinMulticastGroups "L3Addr list" "int list" | LeaveMulticastGroups "L3Addr list"
  | BlockMulticastSources int L3Addr "L3Addr list" | UnblockMulticastSources int L3Addr "L3Addr list"
  | LeaveMulticastSources int L3Addr "L3Addr list" | JoinMulticastSources int L3Addr "L3Addr list"
  | SetMulticastSourceFilter int L3Addr UdpSourceFilterMode "L3Addr list"

datatype udp_command =
    UdpBind int L3Addr int | UdpConnect int L3Addr int | UdpSetOption int udp_option | UdpClose int | UdpDestroy int

text \<open>The multicast options work on the memberships of the socket and the interface table.\<close>

definition with_memberships ::
  "(mcast_state \<Rightarrow> err + mcast_state) \<Rightarrow> SockDesc \<Rightarrow> 'd udp_module \<Rightarrow> err + 'd udp_module" where
  "with_memberships f sd u =
     ebind (f (multicastMembershipTable sd, udp_ift u, udp_signals u)) (\<lambda>(t, ift, sigs).
       Inr (put_socket (sd\<lparr>multicastMembershipTable := t\<rparr>) (u\<lparr>udp_ift := ift, udp_signals := sigs\<rparr>)))"

fun set_option :: "udp_option \<Rightarrow> SockDesc \<Rightarrow> 'd udp_module \<Rightarrow> err + 'd udp_module" where
  "set_option (SetTtl n) sd u = Inr (put_socket (sd\<lparr>sd_ttl := n\<rparr>) u)"
| "set_option (SetDscp n) sd u = Inr (put_socket (sd\<lparr>sd_dscp := n\<rparr>) u)"
| "set_option (SetTos n) sd u = Inr (put_socket (sd\<lparr>sd_tos := n\<rparr>) u)"
| "set_option (SetBroadcast b) sd u = Inr (put_socket (sd\<lparr>sd_isBroadcast := b\<rparr>) u)"
| "set_option (SetMulticastInterface i) sd u = Inr (put_socket (sd\<lparr>multicastOutputInterfaceId := i\<rparr>) u)"
| "set_option (SetMulticastLoop b) sd u = Inr (put_socket (sd\<lparr>multicastLoop := b\<rparr>) u)"
| "set_option (SetReuseAddress b) sd u = Inr (put_socket (sd\<lparr>reuseAddr := b\<rparr>) u)"
| "set_option (JoinMulticastGroups as is) sd u = with_memberships (joinMulticastGroups as is) sd u"
| "set_option (LeaveMulticastGroups as) sd u = with_memberships (leaveMulticastGroups as) sd u"
| "set_option (BlockMulticastSources i a l) sd u = with_memberships (blockMulticastSources i a l) sd u"
| "set_option (UnblockMulticastSources i a l) sd u = with_memberships (unblockMulticastSources i a l) sd u"
| "set_option (LeaveMulticastSources i a l) sd u = with_memberships (leaveMulticastSources i a l) sd u"
| "set_option (JoinMulticastSources i a l) sd u = with_memberships (joinMulticastSources i a l) sd u"
| "set_option (SetMulticastSourceFilter i a m l) sd u = with_memberships (setMulticastSourceFilter i a m l) sd u"

fun udp_handleUpperCommand :: "udp_command \<Rightarrow> 'd udp_module \<Rightarrow> err + 'd udp_module" where
  "udp_handleUpperCommand (UdpBind i a port) u = udp_bind i a port u"
| "udp_handleUpperCommand (UdpConnect i a port) u = udp_connect i a port u"
| "udp_handleUpperCommand (UdpSetOption i opt) u =
     ebind (getOrCreateSocket i u) (\<lambda>(sd, u1). set_option opt sd u1)"
| "udp_handleUpperCommand (UdpClose i) u = Inr (udp_send (ClosedToApp i) (udp_close i u))"
| "udp_handleUpperCommand (UdpDestroy i) u = Inr (udp_destroySocket i u)"

section \<open>Datagrams\<close>

type_synonym 'd udp_crc = "UdpHeader \<Rightarrow> L3Addr \<Rightarrow> L3Addr \<Rightarrow> 'd list \<Rightarrow> u16"

text \<open>RFC 768: a computed checksum of zero is transmitted as all ones.\<close>

definition computeCrc :: "'d udp_crc \<Rightarrow> UdpHeader \<Rightarrow> L3Addr \<Rightarrow> L3Addr \<Rightarrow> 'd list \<Rightarrow> u16" where
  "computeCrc checksum h src dest d = (let crc = checksum h src dest d in if crc = 0 then 0xFFFF else crc)"

definition udp_insertCrc :: "'d udp_crc \<Rightarrow> L3Addr \<Rightarrow> L3Addr \<Rightarrow> UdpHeader \<Rightarrow> 'd list \<Rightarrow> err + UdpHeader" where
  "udp_insertCrc checksum src dest h d =
     (case uh_crcMode h of
        CRC_DISABLED \<Rightarrow> Inr (h\<lparr>uh_crc := 0\<rparr>)
      | CRC_DECLARED_CORRECT \<Rightarrow> Inr (h\<lparr>uh_crc := 0xC00D\<rparr>)
      | CRC_DECLARED_INCORRECT \<Rightarrow> Inr (h\<lparr>uh_crc := 0xBAAD\<rparr>)
      | CRC_COMPUTED \<Rightarrow>
          let h1 = h\<lparr>uh_crc := 0, uh_crcMode := CRC_DISABLED\<rparr>
          in Inr (h1\<lparr>uh_crc := computeCrc checksum h1 src dest d, uh_crcMode := CRC_COMPUTED\<rparr>)
      | CRC_MODE_UNDEFINED \<Rightarrow> Inl (RuntimeError ''Unknown CRC mode''))"

text \<open>The data verified is the part that the length field covers.\<close>

definition udp_verifyCrc :: "'d udp_crc \<Rightarrow> 'd udp_ind \<Rightarrow> err + bool" where
  "udp_verifyCrc checksum p =
     (let h = ui_header p; d = take (nat (totalLengthField h - UDP_HEADER_LENGTH)) (ui_data p) in
      case uh_crcMode h of
        CRC_DISABLED \<Rightarrow> Inr (uh_crc h = 0)
      | CRC_DECLARED_CORRECT \<Rightarrow> Inr (ui_headerCorrect p \<and> ui_dataCorrect p)
      | CRC_DECLARED_INCORRECT \<Rightarrow> Inr False
      | CRC_COMPUTED \<Rightarrow>
          if uh_crc h = 0 then Inr True
          else Inr (computeCrc checksum h (ui_src p) (ui_dest p) d = 0xFFFF
                    \<and> ui_headerCorrect p \<and> ui_dataCorrect p)
      | CRC_MODE_UNDEFINED \<Rightarrow> Inl (RuntimeError ''Unknown CRC mode''))"

text \<open>
  \<open>handleUpperPacket\<close>: missing addresses and ports come from the socket, as do the options
  that the packet does not ask for itself.
\<close>

definition fill_request :: "SockDesc \<Rightarrow> 'd udp_send_req \<Rightarrow> 'd udp_send_req" where
  "fill_request sd r =
     r\<lparr>us_src := (if l3_isUnspecified (us_src r) then localAddr sd else us_src r),
       us_dest := (if l3_isUnspecified (us_dest r) then remoteAddr sd else us_dest r),
       us_ports := (case us_ports r of
           None \<Rightarrow> Some (localPort sd, remotePort sd)
         | Some (s, d) \<Rightarrow> Some (if s = -1 then localPort sd else s, if d = -1 then remotePort sd else d))\<rparr>"

definition choose_interface :: "SockDesc \<Rightarrow> 'd udp_send_req \<Rightarrow> err + 'd udp_send_req" where
  "choose_interface sd r =
     (if us_interface r \<noteq> None then Inr r
      else ebind (l3_isMulticast (us_dest r)) (\<lambda>mc.
        if \<not> mc then Inr r
        else
          let t = multicastMembershipTable sd; k = findFirstMulticastMembership (us_dest r) t;
              i = (if k < length t \<and> mm_interfaceId (t ! k) \<noteq> -1 then mm_interfaceId (t ! k)
                   else multicastOutputInterfaceId sd)
          in Inr (if i \<noteq> -1 then r\<lparr>us_interface := Some i\<rparr> else r)))"

definition add_option_tags :: "SockDesc \<Rightarrow> 'd udp_send_req \<Rightarrow> err + 'd udp_send_req" where
  "add_option_tags sd r =
     (let r1 = (if us_multicastLoop r = None then r\<lparr>us_multicastLoop := Some (multicastLoop sd)\<rparr> else r);
          r2 = (if sd_ttl sd \<noteq> -1 \<and> us_hopLimit r1 = None then r1\<lparr>us_hopLimit := Some (sd_ttl sd)\<rparr> else r1);
          r3 = (if sd_dscp sd \<noteq> -1 \<and> us_dscp r2 = None then r2\<lparr>us_dscp := Some (sd_dscp sd)\<rparr> else r2)
      in if sd_tos sd \<noteq> -1 \<and> us_tos r3 = None
         then if us_dscp r3 \<noteq> None then Inl (RuntimeError ''setting error: TOS and DSCP found together'')
              else Inr (r3\<lparr>us_tos := Some (sd_tos sd)\<rparr>)
         else Inr r3)"

text \<open>The end of \<open>handleUpperPacket\<close>, with the socket and the ports known.\<close>

definition send_datagram ::
  "'d udp_crc \<Rightarrow> SockDesc \<Rightarrow> 'd udp_send_req \<Rightarrow> int \<Rightarrow> int \<Rightarrow> 'd udp_module \<Rightarrow> err + 'd udp_module" where
  "send_datagram checksum sd r srcPort destPort u =
     (if l3_isUnspecified (us_dest r) then Inl (RuntimeError ''send: unspecified destination address'')
      else if destPort \<le> 0 \<or> destPort > 65535 then Inl (RuntimeError ''send: invalid remote port number'')
      else ebind (add_option_tags sd r) (\<lambda>r1.
        let totalLength = UDP_HEADER_LENGTH + int (length (us_data r1));
            h = \<lparr>uh_srcPort = of_int srcPort, uh_destPort = of_int destPort, totalLengthField = totalLength,
                 uh_crc = 0, uh_crcMode = udp_crcMode u\<rparr>
        in if totalLength > UDP_MAX_MESSAGE_SIZE then Inl (RuntimeError ''send: total UDP message size exceeds 65535'')
           else ebind (if udp_crcMode u = CRC_COMPUTED then Inr h
                       else udp_insertCrc checksum (us_src r1) (us_dest r1) h (us_data r1)) (\<lambda>h1.
             Inr (udp_send (ToIp h1 r1) (u\<lparr>numSent := numSent u + 1\<rparr>)))))"

definition udp_handleUpperPacket :: "'d udp_crc \<Rightarrow> int \<Rightarrow> 'd udp_send_req \<Rightarrow> 'd udp_module \<Rightarrow> err + 'd udp_module" where
  "udp_handleUpperPacket checksum i r u =
     ebind (getOrCreateSocket i u) (\<lambda>(sd, u1).
       let r1 = fill_request sd r; ports = the (us_ports r1) in
       ebind (assert_that (us_interface r1 \<noteq> Some (-1))) (\<lambda>_.
       ebind (choose_interface sd r1) (\<lambda>r2.
         send_datagram checksum sd r2 (fst ports) (snd ports) u1)))"

subsection \<open>Demultiplexing\<close>

definition accepts_unicast :: "SockDesc \<Rightarrow> L3Addr \<Rightarrow> L3Addr \<Rightarrow> int \<Rightarrow> bool" where
  "accepts_unicast sd la ra rp =
     (onlyLocalPortIsSet sd \<or>
      ((remotePort sd = -1 \<or> remotePort sd = rp) \<and>
       (l3_isUnspecified (localAddr sd) \<or> localAddr sd = la) \<and>
       (l3_isUnspecified (remoteAddr sd) \<or> remoteAddr sd = ra)))"

text \<open>The loop over the reversed list; \<open>anyAddr\<close> is \<open>socketBoundToAnyAddress\<close>.\<close>

fun find_unicast :: "L3Addr \<Rightarrow> L3Addr \<Rightarrow> int \<Rightarrow> SockDesc option \<Rightarrow> SockDesc list \<Rightarrow> SockDesc option" where
  "find_unicast la ra rp anyAddr [] = anyAddr"
| "find_unicast la ra rp anyAddr (sd # sds) =
     (if accepts_unicast sd la ra rp
      then if l3_isUnspecified (localAddr sd) then find_unicast la ra rp (Some sd) sds else Some sd
      else find_unicast la ra rp anyAddr sds)"

definition findSocketForUnicastPacket ::
  "L3Addr \<Rightarrow> u16 \<Rightarrow> L3Addr \<Rightarrow> u16 \<Rightarrow> 'd udp_module \<Rightarrow> err + SockDesc option" where
  "findSocketForUnicastPacket la lp ra rp u =
     ebind (sockets_at (uint lp) u) (\<lambda>sds. Inr (find_unicast la ra (uint rp) None (rev sds)))"

definition accepts_mcast_bcast :: "L3Addr \<Rightarrow> L3Addr \<Rightarrow> int \<Rightarrow> bool \<Rightarrow> bool \<Rightarrow> SockDesc \<Rightarrow> bool" where
  "accepts_mcast_bcast la ra rp isMc isBc sd =
     (if isBc then
        sd_isBroadcast sd \<and> (remotePort sd = -1 \<or> remotePort sd = rp) \<and>
        (l3_isUnspecified (remoteAddr sd) \<or> remoteAddr sd = ra)
      else if isMc then
        let t = multicastMembershipTable sd; k = findFirstMulticastMembership la t in
        k < length t \<and> (remotePort sd = -1 \<or> remotePort sd = rp) \<and>
        (l3_isUnspecified (remoteAddr sd) \<or> remoteAddr sd = ra) \<and> isSourceAllowed (t ! k) ra
      else False)"

definition findSocketsForMcastBcastPacket ::
  "L3Addr \<Rightarrow> u16 \<Rightarrow> L3Addr \<Rightarrow> u16 \<Rightarrow> bool \<Rightarrow> bool \<Rightarrow> 'd udp_module \<Rightarrow> err + SockDesc list" where
  "findSocketsForMcastBcastPacket la lp ra rp isMc isBc u =
     ebind (assert_that (isMc \<or> isBc)) (\<lambda>_.
     ebind (sockets_at (uint lp) u) (\<lambda>sds. Inr (filter (accepts_mcast_bcast la ra (uint rp) isMc isBc) sds)))"

definition udp_sendUp :: "UdpHeader \<Rightarrow> 'd list \<Rightarrow> SockDesc \<Rightarrow> u16 \<Rightarrow> u16 \<Rightarrow> 'd udp_module \<Rightarrow> 'd udp_module" where
  "udp_sendUp h d sd srcPort destPort u =
     (udp_send (DataToApp (sockId sd) h d srcPort destPort) u)\<lparr>numPassedUp := numPassedUp u + 1\<rparr>"

definition processUndeliverablePacket :: "UdpHeader \<Rightarrow> 'd list \<Rightarrow> int \<Rightarrow> 'd udp_module \<Rightarrow> 'd udp_module" where
  "processUndeliverablePacket h d inIe u =
     (udp_send (PortUnreachable h d inIe) u)\<lparr>numDroppedWrongPort := numDroppedWrongPort u + 1\<rparr>"

definition hasIncorrectLength :: "'d udp_ind \<Rightarrow> bool" where
  "hasIncorrectLength p =
     (totalLengthField (ui_header p) < UDP_HEADER_LENGTH \<or>
      totalLengthField (ui_header p) > UDP_HEADER_LENGTH + int (length (ui_data p)))"

text \<open>Lower layer paddings are cut off behind the length that the header tells.\<close>

definition remove_paddings :: "'d udp_ind \<Rightarrow> 'd list" where
  "remove_paddings p =
     (let totalLength = totalLengthField (ui_header p) in
      if totalLength < int (length (ui_data p)) then take (nat (totalLength - UDP_HEADER_LENGTH)) (ui_data p)
      else ui_data p)"

definition processUDPPacket :: "'d udp_crc \<Rightarrow> 'd udp_ind \<Rightarrow> 'd udp_module \<Rightarrow> err + 'd udp_module" where
  "processUDPPacket checksum p u =
     (let h = ui_header p; srcPort = uh_srcPort h; destPort = uh_destPort h in
      ebind (if hasIncorrectLength p then Inr False else udp_verifyCrc checksum p) (\<lambda>ok.
      if \<not> ok then Inr (u\<lparr>numDroppedBadChecksum := numDroppedBadChecksum u + 1\<rparr>)
      else
        let d = remove_paddings p in
        ebind (l3_isMulticast (ui_dest p)) (\<lambda>isMc. ebind (l3_isBroadcast (ui_dest p)) (\<lambda>isBc.
        if \<not> isMc \<and> \<not> isBc then
          ebind (findSocketForUnicastPacket (ui_dest p) destPort (ui_src p) srcPort u) (\<lambda>r.
            case r of
              None \<Rightarrow> Inr (processUndeliverablePacket h d (ui_interface p) u)
            | Some sd \<Rightarrow> Inr (udp_sendUp h d sd srcPort destPort u))
        else
          ebind (findSocketsForMcastBcastPacket (ui_dest p) destPort (ui_src p) srcPort isMc isBc u) (\<lambda>sds.
            if sds = [] then Inr (processUndeliverablePacket h d (ui_interface p) u)
            else Inr (fold (\<lambda>sd. udp_sendUp h d sd srcPort destPort) sds u))))))"

text \<open>An ICMP error, its CRC verified or not, with the header of the datagram it is about.\<close>

record icmp_error_ind =
  ie_crcOk :: bool
  ie_dontFragment :: bool
  ie_fragmentOffset :: int
  ie_src :: L3Addr
  ie_dest :: L3Addr
  ie_srcPort :: u16
  ie_destPort :: u16

definition processICMPv4Error :: "icmp_error_ind \<Rightarrow> 'd udp_module \<Rightarrow> err + 'd udp_module" where
  "processICMPv4Error e u =
     (if \<not> ie_crcOk e then Inr u
      else if ie_dontFragment e \<or> ie_fragmentOffset e = 0 then
        ebind (findSocketForUnicastPacket (ie_src e) (ie_srcPort e) (ie_dest e) (ie_destPort e) u) (\<lambda>r.
          case r of
            None \<Rightarrow> Inr u
          | Some sd \<Rightarrow> Inr (udp_send (ErrorToApp (sockId sd) (ie_src e) (ie_dest e) (localPort sd) (ie_destPort e)) u))
      else Inr u)"

section \<open>Events\<close>

datatype 'd udp_event =
    UdpCommand udp_command
  | UdpUpperPacket int "'d udp_send_req"
  | UdpLowerPacket "'d udp_ind"
  | UdpIcmpError icmp_error_ind
  | UdpStop

fun udp_step :: "'d udp_crc \<Rightarrow> 'd udp_event \<Rightarrow> 'd udp_module \<Rightarrow> err + 'd udp_module" where
  "udp_step cs (UdpCommand c) u = udp_handleUpperCommand c u"
| "udp_step cs (UdpUpperPacket i r) u = udp_handleUpperPacket cs i r u"
| "udp_step cs (UdpLowerPacket p) u = processUDPPacket cs p u"
| "udp_step cs (UdpIcmpError e) u = processICMPv4Error e u"
| "udp_step cs UdpStop u = Inr (clearAllSockets u)"

end
