(* ===== verification/UdpProps.thy ===== *)
theory UdpProps
  imports Udp
begin

text \<open>
  Properties of the UDP module: the two socket tables agree in every reachable state, a
  unicast datagram goes to a matching socket if there is one, an ephemeral port is free and is found whenever
  one is, and the behaviours that look unintended: a bind keeps the flag of an existing socket that makes it take
  the datagrams for every address, and up to eight bytes of padding reach the application.
\<close>

section \<open>The tables\<close>

definition port_list :: "'d udp_module \<Rightarrow> int \<Rightarrow> int list" where
  "port_list u p = (case socketsByPortMap u p of None \<Rightarrow> [] | Some l \<Rightarrow> l)"

definition on_port :: "'d udp_module \<Rightarrow> int \<Rightarrow> int set" where
  "on_port u p = {i. \<exists>sd. socketsByIdMap u i = Some sd \<and> localPort sd = p}"

definition udp_inv :: "'d udp_module \<Rightarrow> bool" where
  "udp_inv u \<longleftrightarrow>
     (\<forall>i sd. socketsByIdMap u i = Some sd \<longrightarrow> sockId sd = i) \<and>
     (\<forall>p. distinct (port_list u p) \<and> set (port_list u p) = on_port u p) \<and>
     EPHEMERAL_PORTRANGE_START \<le> lastEphemeralPort u \<and> lastEphemeralPort u < EPHEMERAL_PORTRANGE_END"

lemma udp_invD:
  assumes "udp_inv u"
  shows "socketsByIdMap u i = Some sd \<Longrightarrow> sockId sd = i"
    and "distinct (port_list u p)" and "set (port_list u p) = on_port u p"
  using assms by (auto simp: udp_inv_def)

lemma udp_inv_initial: "udp_inv (udp_initial m ift)"
  by (simp add: udp_inv_def udp_initial_def port_list_def on_port_def)

lemma udp_inv_cong:
  "socketsByIdMap u' = socketsByIdMap u \<Longrightarrow> socketsByPortMap u' = socketsByPortMap u \<Longrightarrow>
   lastEphemeralPort u' = lastEphemeralPort u \<Longrightarrow> udp_inv u' = udp_inv u"
  by (simp add: udp_inv_def port_list_def on_port_def)

lemma udp_inv_frame [simp]:
  "udp_inv (udp_send x u) = udp_inv u"
  "udp_inv (u\<lparr>udp_ift := ift, udp_signals := sigs\<rparr>) = udp_inv u"
  "udp_inv (u\<lparr>numSent := n\<rparr>) = udp_inv u"
  "udp_inv (u\<lparr>numDroppedBadChecksum := n\<rparr>) = udp_inv u"
  "udp_inv (udp_sendUp h d sd sp dp u) = udp_inv u"
  "udp_inv (processUndeliverablePacket h d k u) = udp_inv u"
  by (rule udp_inv_cong; simp add: udp_send_def udp_sendUp_def processUndeliverablePacket_def)+

lemma port_list_simps [simp]:
  "port_list (put_socket sd u) p = port_list u p"
  "port_list (add_to_port i q u) p = port_list u p @ (if p = q then [i] else [])"
  "port_list (remove_from_port i q u) p = (if p = q then removeAll i (port_list u p) else port_list u p)"
  "lastEphemeralPort (put_socket sd u) = lastEphemeralPort u"
  "lastEphemeralPort (add_to_port i q u) = lastEphemeralPort u"
  "lastEphemeralPort (remove_from_port i q u) = lastEphemeralPort u"
  "socketsByIdMap (put_socket sd u) = (socketsByIdMap u)(sockId sd \<mapsto> sd)"
  "socketsByIdMap (add_to_port i q u) = socketsByIdMap u"
  "socketsByIdMap (remove_from_port i q u) = socketsByIdMap u"
  by (simp_all add: port_list_def put_socket_def add_to_port_def remove_from_port_def)

lemma on_port_update:
  "socketsByIdMap u' = (socketsByIdMap u)(sockId sd \<mapsto> sd) \<Longrightarrow>
   on_port u' p = (if localPort sd = p then insert (sockId sd) (on_port u p) else on_port u p - {sockId sd})"
  by (auto simp: on_port_def)

lemma on_port_known: "socketsByIdMap u i = Some sd \<Longrightarrow> i \<in> on_port u p \<longleftrightarrow> localPort sd = p"
  by (auto simp: on_port_def)

lemma put_socket_inv:
  assumes "udp_inv u" "socketsByIdMap u (sockId sd) = Some old" "localPort sd = localPort old"
  shows "udp_inv (put_socket sd u)"
proof -
  have "on_port (put_socket sd u) p = on_port u p" for p
    using on_port_update [of "put_socket sd u" u sd p] on_port_known [OF assms(2), of p] assms(3) by auto
  then show ?thesis using assms(1) by (simp add: udp_inv_def)
qed

lemma add_new_socket_inv:
  assumes "udp_inv u" "socketsByIdMap u i = None" "sockId sd = i" "localPort sd = p"
  shows "udp_inv (add_to_port i p (put_socket sd u))"
proof -
  have "i \<notin> on_port u q" for q using assms(2) by (simp add: on_port_def)
  then have "on_port (add_to_port i p (put_socket sd u)) q = (if q = p then insert i (on_port u q) else on_port u q)" for q
    using on_port_update [of "add_to_port i p (put_socket sd u)" u sd q] assms(3,4) by auto
  then show ?thesis using assms \<open>\<And>q. i \<notin> on_port u q\<close> by (simp add: udp_inv_def)
qed

lemma move_socket_inv:
  assumes "udp_inv u" "socketsByIdMap u i = Some s" "sockId sd = i" "localPort sd = p" "localPort s \<noteq> p"
  shows "udp_inv (add_to_port i p (put_socket sd (remove_from_port i (localPort s) u)))"
proof -
  let ?u = "add_to_port i p (put_socket sd (remove_from_port i (localPort s) u))"
  have "on_port ?u q = (if q = p then insert i (on_port u q) else on_port u q - {i})" for q
    using on_port_update [of ?u u sd q] assms(3,4) by auto
  moreover have "i \<in> on_port u q \<longleftrightarrow> localPort s = q" for q
    by (rule on_port_known [OF assms(2)])
  ultimately show ?thesis
    using assms by (auto simp: udp_inv_def distinct_removeAll)
qed

lemma destroy_socket_inv:
  assumes "udp_inv u" "socketsByIdMap u i = Some sd"
  shows "udp_inv (destroy_found_socket sd u)"
proof -
  let ?u = "destroy_found_socket sd u"
  have id: "sockId sd = i" using udp_invD(1) [OF assms] .
  have s: "socketsByIdMap ?u = (socketsByIdMap u)(i := None)" "lastEphemeralPort ?u = lastEphemeralPort u"
    by (simp_all add: destroy_found_socket_def Let_def id)
  have "on_port ?u q = on_port u q - {i}" for q
    by (auto simp: on_port_def s)
  moreover have "port_list ?u q = (if q = localPort sd then remove1 i (port_list u q) else port_list u q)" for q
    by (auto simp: destroy_found_socket_def Let_def port_list_def id)
  moreover have "i \<in> on_port u q \<longleftrightarrow> localPort sd = q" for q
    by (rule on_port_known [OF assms(2)])
  ultimately show ?thesis
    using assms(1) s by (auto simp: udp_inv_def set_remove1_eq)
qed

section \<open>Ephemeral ports\<close>

definition in_range :: "int \<Rightarrow> bool" where
  "in_range p \<longleftrightarrow> EPHEMERAL_PORTRANGE_START \<le> p \<and> p < EPHEMERAL_PORTRANGE_END"

lemma next_ephemeral_range: "in_range p \<Longrightarrow> in_range (next_ephemeral p)"
  by (auto simp: in_range_def next_ephemeral_def)

text \<open>How many steps lead from \<open>p\<close> round the range to \<open>q\<close>.\<close>

definition steps_to :: "int \<Rightarrow> int \<Rightarrow> int" where
  "steps_to p q = (q - p) mod 3976"

lemma steps_to_eq:
  assumes "in_range p" "in_range q"
  shows "steps_to p q = (if p \<le> q then q - p else q - p + 3976)"
proof (cases "p \<le> q")
  case True
  then show ?thesis using assms by (simp add: steps_to_def in_range_def)
next
  case False
  have "(q - p) mod 3976 = (q - p + 3976) mod 3976" by simp
  also have "\<dots> = q - p + 3976" using assms False by (intro mod_pos_pos_trivial) (auto simp: in_range_def)
  finally show ?thesis using False by (simp add: steps_to_def)
qed

lemma steps_to_next:
  assumes "in_range p" "in_range q" "p \<noteq> q"
  shows "steps_to (next_ephemeral p) q = steps_to p q - 1"
  using assms steps_to_eq [OF next_ephemeral_range [OF assms(1)] assms(2)] steps_to_eq [OF assms(1,2)]
  by (auto simp: next_ephemeral_def in_range_def)

lemma steps_to_0: "in_range p \<Longrightarrow> in_range q \<Longrightarrow> steps_to p q \<le> 0 \<longleftrightarrow> q = p"
  by (auto simp: steps_to_eq in_range_def)

lemma ephemeral_search_result:
  "in_range p \<Longrightarrow> in_range s \<Longrightarrow> steps_to p s \<le> int fuel \<Longrightarrow>
   (case ephemeral_search fuel ports s p of
      Inr q \<Rightarrow> in_range q \<and> ports q = None
    | Inl e \<Rightarrow> e \<noteq> OutOfFuel \<and> (\<forall>q. in_range q \<and> steps_to p q \<le> steps_to p s \<longrightarrow> ports q \<noteq> None))"
proof (induction fuel arbitrary: p)
  case (0 p)
  have z: "steps_to p q \<le> 0 \<longleftrightarrow> q = p" if "in_range q" for q
    using steps_to_0 [OF 0(1) that] .
  then have "s = p" using 0 by simp
  then show ?case
    using 0 z by (subst ephemeral_search.simps) (auto simp: steps_to_def)
next
  case (Suc fuel p)
  show ?case
  proof (cases "ports p = None \<or> p = s")
    case True
    have "q = p" if "in_range q" "steps_to p q \<le> steps_to p s" "p = s" for q
      using steps_to_0 [OF Suc.prems(1) that(1)] that(2,3) by (simp add: steps_to_def)
    then show ?thesis
      using True Suc.prems by (subst ephemeral_search.simps) auto
  next
    case False
    have e: "ephemeral_search (Suc fuel) ports s p = ephemeral_search fuel ports s (next_ephemeral p)"
      using False by (subst ephemeral_search.simps) auto
    have st: "steps_to (next_ephemeral p) s = steps_to p s - 1"
      using steps_to_next Suc.prems False by blast
    have IH: "case ephemeral_search fuel ports s (next_ephemeral p) of
       Inr q \<Rightarrow> in_range q \<and> ports q = None
     | Inl e \<Rightarrow> e \<noteq> OutOfFuel \<and> (\<forall>q. in_range q \<and> steps_to (next_ephemeral p) q \<le> steps_to (next_ephemeral p) s
          \<longrightarrow> ports q \<noteq> None)"
      using Suc.prems st next_ephemeral_range by (intro Suc.IH) auto
    have "ports q \<noteq> None" if "in_range q" "steps_to p q \<le> steps_to p s"
        "\<forall>q. in_range q \<and> steps_to (next_ephemeral p) q \<le> steps_to (next_ephemeral p) s \<longrightarrow> ports q \<noteq> None" for q
      using that False steps_to_next [OF Suc.prems(1) that(1)] st by (cases "q = p") auto
    then show ?thesis unfolding e using IH by (auto split: sum.splits)
  qed
qed

lemma steps_to_le:
  assumes "in_range q" "in_range r"
  shows "steps_to (next_ephemeral q) r \<le> steps_to (next_ephemeral q) q"
proof (cases "r = q")
  case False
  then show ?thesis
    using assms steps_to_eq [OF next_ephemeral_range [OF assms(1)]]
    by (auto simp: next_ephemeral_def in_range_def split: if_splits)
qed simp

lemma udp_getEphemeralPort_result:
  assumes "in_range (lastEphemeralPort u)"
  shows "case getEphemeralPort u of
      Inr (q, u1) \<Rightarrow> in_range q \<and> socketsByPortMap u q = None \<and> u1 = u\<lparr>lastEphemeralPort := q\<rparr>
    | Inl e \<Rightarrow> e \<noteq> OutOfFuel \<and> (\<forall>q. in_range q \<longrightarrow> socketsByPortMap u q \<noteq> None)"
proof -
  let ?l = "lastEphemeralPort u"
  have "steps_to (next_ephemeral ?l) ?l \<le> int 3976" by (simp add: steps_to_def order_less_imp_le)
  from ephemeral_search_result [OF next_ephemeral_range [OF assms] assms this, of "socketsByPortMap u"]
  show ?thesis
    using steps_to_le [OF assms] by (auto simp: getEphemeralPort_def split: sum.splits)
qed

section \<open>Every event keeps the tables\<close>

lemma ephemeral_inv:
  "udp_inv u \<Longrightarrow> in_range q \<Longrightarrow> udp_inv (u\<lparr>lastEphemeralPort := q\<rparr>)"
  by (simp add: udp_inv_def in_range_def port_list_def on_port_def cong: option.case_cong)

lemma clear_inv: "udp_inv u \<Longrightarrow> udp_inv (clearAllSockets u)"
  by (simp add: udp_inv_def clearAllSockets_def port_list_def on_port_def)

lemma createSocket_inv:
  assumes "udp_inv u" "socketsByIdMap u i = None" "createSocket i a port u = Inr (sd, u1)"
  shows "udp_inv u1" "socketsByIdMap u1 i = Some sd"
    "localPort sd = port \<or> port = -1 \<and> in_range (localPort sd) \<and> socketsByPortMap u (localPort sd) = None"
    "sd = (new_SockDesc i)\<lparr>localAddr := a, localPort := localPort sd, onlyLocalPortIsSet := l3_isUnspecified a\<rparr>"
    "udp_ift u1 = udp_ift u"
proof -
  obtain p u2 where p: "(if port = -1 then getEphemeralPort u else Inr (port, u)) = Inr (p, u2)"
    and sd: "sd = (new_SockDesc i)\<lparr>localAddr := a, localPort := p, onlyLocalPortIsSet := l3_isUnspecified a\<rparr>"
    and u1: "u1 = add_to_port i p (put_socket sd u2)"
    using assms(3) by (auto simp: createSocket_def ebind_Inr_iff Let_def)
  have "in_range (lastEphemeralPort u)" using assms(1) by (simp add: udp_inv_def in_range_def)
  from udp_getEphemeralPort_result [OF this]
  have u2: "(\<exists>q. u2 = u\<lparr>lastEphemeralPort := q\<rparr> \<and> in_range q) \<or> u2 = u"
    and lp: "p = port \<or> port = -1 \<and> in_range p \<and> socketsByPortMap u p = None"
    using p by (auto split: if_splits)
  have "udp_inv u2" "socketsByIdMap u2 i = None" "udp_ift u2 = udp_ift u"
    using u2 assms(1,2) ephemeral_inv by auto
  then show "udp_inv u1" "socketsByIdMap u1 i = Some sd" "udp_ift u1 = udp_ift u"
    using add_new_socket_inv [of u2 i sd p] by (simp_all add: u1 sd new_SockDesc_def add_to_port_def put_socket_def)
  show "localPort sd = port \<or> port = -1 \<and> in_range (localPort sd) \<and> socketsByPortMap u (localPort sd) = None"
    using lp by (simp add: sd)
  show "sd = (new_SockDesc i)\<lparr>localAddr := a, localPort := localPort sd, onlyLocalPortIsSet := l3_isUnspecified a\<rparr>"
    by (simp add: sd)
qed

lemma getOrCreateSocket_inv:
  assumes "udp_inv u" "getOrCreateSocket i u = Inr (sd, u1)"
  shows "udp_inv u1" "socketsByIdMap u1 i = Some sd" "sockId sd = i"
proof -
  show a: "udp_inv u1" and b: "socketsByIdMap u1 i = Some sd"
    using assms createSocket_inv(1,2) [OF assms(1)]
    by (auto simp: getOrCreateSocket_def split: if_splits option.splits)
  show "sockId sd = i" using udp_invD(1) [OF a b] .
qed

lemma with_memberships_inv:
  assumes "udp_inv u" "socketsByIdMap u (sockId sd) = Some sd" "with_memberships f sd u = Inr u'"
  shows "udp_inv u'"
proof -
  obtain t ift sigs where
    u': "u' = put_socket (sd\<lparr>multicastMembershipTable := t\<rparr>) (u\<lparr>udp_ift := ift, udp_signals := sigs\<rparr>)"
    using assms(3) by (auto simp: with_memberships_def ebind_Inr_iff)
  show ?thesis
    unfolding u' using assms(1,2) by (intro put_socket_inv) simp_all
qed

lemma set_option_inv:
  assumes "udp_inv u" "socketsByIdMap u (sockId sd) = Some sd" "set_option opt sd u = Inr u'"
  shows "udp_inv u'"
  using assms put_socket_inv [OF assms(1)] with_memberships_inv [OF assms(1,2)]
  by (cases opt) auto

lemma udp_bind_inv:
  assumes "udp_inv u" "udp_bind i a port u = Inr u'"
  shows "udp_inv u'"
proof (cases "socketsByIdMap u i")
  case None
  then obtain s u1 where "createSocket i a port u = Inr (s, u1)" "u' = put_socket (s\<lparr>isBound := True\<rparr>) u1"
    using assms(2) by (auto simp: udp_bind_def ebind_Inr_iff split: if_splits)
  moreover from this have "udp_inv u1" "socketsByIdMap u1 i = Some s" "sockId s = i"
    using createSocket_inv(1,2) [OF assms(1) None] udp_invD(1) by blast+
  ultimately show ?thesis using put_socket_inv [of u1 "s\<lparr>isBound := True\<rparr>" s] by simp
next
  case (Some s)
  have id: "sockId s = i" using udp_invD(1) [OF assms(1) Some] .
  show ?thesis
  proof (cases "port \<noteq> -1 \<and> localPort s \<noteq> port")
    case True
    then have "u' = add_to_port i port (put_socket (s\<lparr>isBound := True, localAddr := a, localPort := port\<rparr>)
        (remove_from_port i (localPort s) u))"
      using assms(2) Some by (auto simp: udp_bind_def ebind_Inr_iff Let_def split: if_splits)
    then show ?thesis using move_socket_inv [OF assms(1) Some] True id by simp
  next
    case False
    then have "u' = put_socket (s\<lparr>isBound := True, localAddr := a\<rparr>) u"
      using assms(2) Some by (auto simp: udp_bind_def ebind_Inr_iff Let_def split: if_splits)
    then show ?thesis using put_socket_inv [OF assms(1)] Some id by simp
  qed
qed

lemma udp_connect_inv:
  assumes "udp_inv u" "udp_connect i a port u = Inr u'"
  shows "udp_inv u'"
proof -
  obtain sd u1 where "getOrCreateSocket i u = Inr (sd, u1)"
      "u' = put_socket (sd\<lparr>remoteAddr := a, remotePort := port, onlyLocalPortIsSet := False\<rparr>) u1"
    using assms(2) by (auto simp: udp_connect_def ebind_Inr_iff split: if_splits)
  moreover from this have "udp_inv u1" "socketsByIdMap u1 i = Some sd" "sockId sd = i"
    using getOrCreateSocket_inv [OF assms(1)] by blast+
  ultimately show ?thesis
    using put_socket_inv [of u1 "sd\<lparr>remoteAddr := a, remotePort := port, onlyLocalPortIsSet := False\<rparr>" sd] by simp
qed

lemma udp_command_inv:
  assumes "udp_inv u" "udp_handleUpperCommand c u = Inr u'"
  shows "udp_inv u'"
proof (cases c)
  case (UdpBind i a port)
  then show ?thesis using assms udp_bind_inv by simp
next
  case (UdpConnect i a port)
  then show ?thesis using assms udp_connect_inv by simp
next
  case (UdpSetOption i opt)
  then obtain sd u1 where o: "getOrCreateSocket i u = Inr (sd, u1)" "set_option opt sd u1 = Inr u'"
    using assms(2) by (auto simp: ebind_Inr_iff)
  then show ?thesis
    using getOrCreateSocket_inv [OF assms(1) o(1)] set_option_inv [of u1 sd opt u'] by simp
next
  case (UdpClose i)
  then show ?thesis using assms destroy_socket_inv by (auto simp: udp_close_def split: option.splits)
next
  case (UdpDestroy i)
  then show ?thesis using assms destroy_socket_inv by (auto simp: udp_destroySocket_def split: option.splits)
qed

lemma send_datagram_inv: "udp_inv u \<Longrightarrow> yields udp_inv (send_datagram cs sd r sp dp u)"
  unfolding send_datagram_def Let_def by (intro yields_rules) simp_all

lemma udp_upper_inv: "udp_inv u \<Longrightarrow> yields udp_inv (udp_handleUpperPacket cs i r u)"
  unfolding udp_handleUpperPacket_def Let_def
  by (cases "getOrCreateSocket i u") (auto intro!: yields_seq send_datagram_inv dest: getOrCreateSocket_inv
      simp del: yields_simps(3))

lemma fold_sendUp_inv: "udp_inv (fold (\<lambda>sd. udp_sendUp h d sd sp dp) sds u) = udp_inv u"
  by (induction sds arbitrary: u) simp_all

lemma udp_lower_inv: "udp_inv u \<Longrightarrow> yields udp_inv (processUDPPacket cs p u)"
  unfolding processUDPPacket_def Let_def
  by (intro yields_rules) (simp_all only: fold_sendUp_inv yields_simps udp_inv_frame)

lemma udp_icmp_inv: "udp_inv u \<Longrightarrow> yields udp_inv (processICMPv4Error e u)"
  unfolding processICMPv4Error_def
  by (intro yields_rules) simp_all

lemma udp_step_inv: "udp_inv u \<Longrightarrow> udp_step cs e u = Inr u' \<Longrightarrow> udp_inv u'"
  by (cases e) (auto simp: udp_command_inv clear_inv
      dest: yieldsD [OF udp_upper_inv] yieldsD [OF udp_lower_inv] yieldsD [OF udp_icmp_inv])

lemma udp_run_inv: "efold (udp_step cs) events u = Inr u' \<Longrightarrow> udp_inv u \<Longrightarrow> udp_inv u'"
  by (induction events arbitrary: u) (auto simp: ebind_Inr_iff dest: udp_step_inv)

lemmas udp_reachable_inv = udp_run_inv [OF _ udp_inv_initial]

text \<open>
  Ephemeral ports: asked for one, the module takes a port in \<open>1024..4999\<close> that no socket list is registered for
  and remembers it as the last one; it fails only if every port of the range is
  registered. The search ends within its one round.
\<close>
theorem udp_ephemeral_port:
  assumes "efold (udp_step cs) events (udp_initial m ift) = Inr u"
  shows "case getEphemeralPort u of
      Inr (q, u1) \<Rightarrow> EPHEMERAL_PORTRANGE_START \<le> q \<and> q < EPHEMERAL_PORTRANGE_END
        \<and> socketsByPortMap u q = None \<and> u1 = u\<lparr>lastEphemeralPort := q\<rparr>
    | Inl e \<Rightarrow> e \<noteq> OutOfFuel \<and>
        (\<forall>q. EPHEMERAL_PORTRANGE_START \<le> q \<and> q < EPHEMERAL_PORTRANGE_END \<longrightarrow> socketsByPortMap u q \<noteq> None)"
proof -
  have "in_range (lastEphemeralPort u)"
    using udp_reachable_inv [OF assms] by (simp add: udp_inv_def in_range_def)
  from udp_getEphemeralPort_result [OF this] show ?thesis
    by (simp add: in_range_def split: sum.splits prod.splits)
qed

lemma udp_ephemeral_port_witness:
  "\<exists>u :: nat udp_module. efold (udp_step (\<lambda>_ _ _ _. 0)) [UdpCommand (UdpConnect 7 (L3_IPv4 1) 53)]
      (udp_initial CRC_DISABLED empty_interface_table) = Inr u \<and>
    (case getEphemeralPort u of
      Inr (q, u1) \<Rightarrow> EPHEMERAL_PORTRANGE_START \<le> q \<and> q < EPHEMERAL_PORTRANGE_END
        \<and> socketsByPortMap u q = None \<and> u1 = u\<lparr>lastEphemeralPort := q\<rparr>
    | Inl e \<Rightarrow> e \<noteq> OutOfFuel \<and>
        (\<forall>q. EPHEMERAL_PORTRANGE_START \<le> q \<and> q < EPHEMERAL_PORTRANGE_END \<longrightarrow> socketsByPortMap u q \<noteq> None))"
proof -
  have "is_ok (efold (udp_step (\<lambda>_ _ _ _. 0)) [UdpCommand (UdpConnect 7 (L3_IPv4 1) 53)]
      (udp_initial CRC_DISABLED empty_interface_table) :: err + nat udp_module)"
    by (simp add: udp_connect_def getOrCreateSocket_def udp_initial_def createSocket_def getEphemeralPort_def
        ephemeral_search.simps next_ephemeral_def ipv4_isUnspecified_def Let_def)
  then obtain u :: "nat udp_module" where u: "efold (udp_step (\<lambda>_ _ _ _. 0)) [UdpCommand (UdpConnect 7 (L3_IPv4 1) 53)]
      (udp_initial CRC_DISABLED empty_interface_table) = Inr u"
    by (auto simp: is_ok_iff)
  show ?thesis using u udp_ephemeral_port [OF u] by blast
qed


section \<open>Demultiplexing\<close>

lemma deref_map:
  "\<forall>i \<in> set l. socketsByIdMap u i \<noteq> None \<Longrightarrow> deref l u = Inr (map (\<lambda>i. the (socketsByIdMap u i)) l)"
  by (induction l) auto

lemma sockets_at_result:
  assumes "udp_inv u"
  obtains sds where "sockets_at p u = Inr sds" "distinct (map sockId sds)"
    "set sds = {sd. socketsByIdMap u (sockId sd) = Some sd \<and> localPort sd = p}"
proof -
  let ?l = "port_list u p"
  have l: "distinct ?l" "set ?l = on_port u p" using udp_invD(2,3) [OF assms] by auto
  have s: "sockets_at p u = deref ?l u" by (simp add: sockets_at_def port_list_def split: option.split)
  have known: "\<forall>i \<in> set ?l. socketsByIdMap u i \<noteq> None" using l(2) by (auto simp: on_port_def)
  let ?sds = "map (\<lambda>i. the (socketsByIdMap u i)) ?l"
  have e: "socketsByIdMap u i = Some (the (socketsByIdMap u i)) \<and> sockId (the (socketsByIdMap u i)) = i
      \<and> localPort (the (socketsByIdMap u i)) = p" if "i \<in> set ?l" for i
    using that l(2) udp_invD(1) [OF assms, of i] by (fastforce simp: on_port_def)
  then have "map sockId ?sds = ?l" by (simp add: map_idI)
  moreover have "set ?sds = {sd. socketsByIdMap u (sockId sd) = Some sd \<and> localPort sd = p}"
  proof
    show "set ?sds \<subseteq> {sd. socketsByIdMap u (sockId sd) = Some sd \<and> localPort sd = p}"
      using e by auto
    show "{sd. socketsByIdMap u (sockId sd) = Some sd \<and> localPort sd = p} \<subseteq> set ?sds"
    proof
      fix sd assume "sd \<in> {sd. socketsByIdMap u (sockId sd) = Some sd \<and> localPort sd = p}"
      then have "sockId sd \<in> set ?l" "sd = the (socketsByIdMap u (sockId sd))"
        by (simp_all add: l(2) on_port_def)
      then show "sd \<in> set ?sds" unfolding set_map by (rule rev_image_eqI)
    qed
  qed
  ultimately show thesis using that [of ?sds] s deref_map [OF known] l(1) by simp
qed

text \<open>
  C15. The socket tables agree: in every state that the module reaches, by whatever commands and packets, a socket is
  registered under its own identifier, and following the pointers in the list of any port finds
  exactly the registered sockets with that local port, each once.
\<close>
theorem udp_tables_agree:
  assumes "efold (udp_step cs) events (udp_initial m ift) = Inr u"
  shows "(\<forall>i sd. socketsByIdMap u i = Some sd \<longrightarrow> sockId sd = i) \<and>
    (\<forall>p. \<exists>sds. sockets_at p u = Inr sds \<and> distinct (map sockId sds) \<and>
       set sds = {sd. socketsByIdMap u (sockId sd) = Some sd \<and> localPort sd = p})"
proof (intro conjI allI impI)
  note inv = udp_reachable_inv [OF assms]
  show "sockId sd = i" if "socketsByIdMap u i = Some sd" for i sd by (rule udp_invD(1) [OF inv that])
  fix p
  obtain sds where "sockets_at p u = Inr sds" "distinct (map sockId sds)"
      "set sds = {sd. socketsByIdMap u (sockId sd) = Some sd \<and> localPort sd = p}"
    by (rule sockets_at_result [OF inv])
  then show "\<exists>sds. sockets_at p u = Inr sds \<and> distinct (map sockId sds) \<and>
       set sds = {sd. socketsByIdMap u (sockId sd) = Some sd \<and> localPort sd = p}"
    by blast
qed

lemma udp_tables_agree_witness:
  "\<exists>u :: nat udp_module. efold (udp_step (\<lambda>_ _ _ _. 0)) [UdpCommand (UdpBind 7 L3_NONE 53)]
      (udp_initial CRC_DISABLED empty_interface_table) = Inr u \<and>
    (\<exists>sds. sockets_at 53 u = Inr sds \<and> distinct (map sockId sds) \<and>
           set sds = {sd. socketsByIdMap u (sockId sd) = Some sd \<and> localPort sd = 53})"
proof -
  have "is_ok (efold (udp_step (\<lambda>_ _ _ _. 0)) [UdpCommand (UdpBind 7 L3_NONE 53)]
      (udp_initial CRC_DISABLED empty_interface_table) :: err + nat udp_module)"
    by (simp add: udp_bind_def udp_initial_def createSocket_def findFirstSocketByLocalAddress_def
        sockets_at_def to_ushort_def Let_def)
  then obtain u :: "nat udp_module" where u: "efold (udp_step (\<lambda>_ _ _ _. 0)) [UdpCommand (UdpBind 7 L3_NONE 53)]
      (udp_initial CRC_DISABLED empty_interface_table) = Inr u"
    by (auto simp: is_ok_iff)
  show ?thesis using u udp_tables_agree [OF u] by blast
qed

lemma find_unicast_None:
  "find_unicast la ra rp a sds = None \<Longrightarrow> a = None \<and> (\<forall>sd \<in> set sds. \<not> accepts_unicast sd la ra rp)"
  by (induction sds arbitrary: a) (auto split: if_splits)

lemma find_unicast_Some:
  "find_unicast la ra rp a sds = Some r \<Longrightarrow> a = Some r \<or> r \<in> set sds \<and> accepts_unicast r la ra rp"
  by (induction sds arbitrary: a) (auto split: if_splits)

lemma find_unicast_any:
  "find_unicast la ra rp a sds = Some r \<Longrightarrow> l3_isUnspecified (localAddr r) \<Longrightarrow>
   \<forall>sd \<in> set sds. accepts_unicast sd la ra rp \<longrightarrow> l3_isUnspecified (localAddr sd)"
  by (induction sds arbitrary: a) (auto split: if_splits)

definition accepting_sockets :: "L3Addr \<Rightarrow> u16 \<Rightarrow> L3Addr \<Rightarrow> u16 \<Rightarrow> 'd udp_module \<Rightarrow> SockDesc set" where
  "accepting_sockets la lp ra rp u = {sd. socketsByIdMap u (sockId sd) = Some sd \<and> localPort sd = uint lp
      \<and> accepts_unicast sd la ra (uint rp)}"

text \<open>
  C14. Demultiplexing of unicast datagrams: in every reachable state the lookup follows no dangling pointer. It finds no
  socket only if no registered socket on the destination port accepts the datagram, and otherwise
  one that does; it takes a socket without a local address only if no accepting socket has one.
\<close>
theorem udp_unicast_demultiplexing:
  assumes "efold (udp_step cs) events (udp_initial m ift) = Inr u"
  shows "\<exists>r. findSocketForUnicastPacket la lp ra rp u = Inr r \<and>
    (case r of None \<Rightarrow> accepting_sockets la lp ra rp u = {}
     | Some sd \<Rightarrow> sd \<in> accepting_sockets la lp ra rp u \<and>
         (l3_isUnspecified (localAddr sd) \<longrightarrow>
           (\<forall>sd' \<in> accepting_sockets la lp ra rp u. l3_isUnspecified (localAddr sd'))))"
proof -
  obtain sds where sds: "sockets_at (uint lp) u = Inr sds"
      "set sds = {sd. socketsByIdMap u (sockId sd) = Some sd \<and> localPort sd = uint lp}"
    using sockets_at_result [OF udp_reachable_inv [OF assms(1)]] by metis
  have "accepting_sockets la lp ra rp u = {sd \<in> set sds. accepts_unicast sd la ra (uint rp)}"
    unfolding accepting_sockets_def sds(2) by blast
  then show ?thesis
    using find_unicast_None [of la ra "uint rp" None "rev sds"] find_unicast_Some [of la ra "uint rp" None "rev sds"]
      find_unicast_any [of la ra "uint rp" None "rev sds"] sds(1)
    by (auto simp: findSocketForUnicastPacket_def split: option.split)
qed

lemma udp_unicast_demultiplexing_witness:
  "\<exists>(u :: nat udp_module) r. efold (udp_step (\<lambda>_ _ _ _. 0)) [UdpCommand (UdpBind 7 L3_NONE 53)]
      (udp_initial CRC_DISABLED empty_interface_table) = Inr u \<and>
    findSocketForUnicastPacket (L3_IPv4 1) 53 (L3_IPv4 2) 1025 u = Inr r"
proof -
  have "is_ok (efold (udp_step (\<lambda>_ _ _ _. 0)) [UdpCommand (UdpBind 7 L3_NONE 53)]
      (udp_initial CRC_DISABLED empty_interface_table) :: err + nat udp_module)"
    by (simp add: udp_bind_def udp_initial_def createSocket_def findFirstSocketByLocalAddress_def
        sockets_at_def to_ushort_def Let_def)
  then obtain u :: "nat udp_module" where u: "efold (udp_step (\<lambda>_ _ _ _. 0)) [UdpCommand (UdpBind 7 L3_NONE 53)]
      (udp_initial CRC_DISABLED empty_interface_table) = Inr u"
    by (auto simp: is_ok_iff)
  show ?thesis using u udp_unicast_demultiplexing [OF u, of "L3_IPv4 1" 53 "L3_IPv4 2" 1025] by blast
qed

section \<open>What binding leaves of an option's socket\<close>

lemma add_to_port_sockets [simp]: "socketsByIdMap (add_to_port i p u) = socketsByIdMap u"
  by (simp add: add_to_port_def)

lemma remove_from_port_sockets [simp]: "socketsByIdMap (remove_from_port i p u) = socketsByIdMap u"
  by (simp add: remove_from_port_def)

lemma put_socket_sockets [simp]: "socketsByIdMap (put_socket sd u) = (socketsByIdMap u)(sockId sd \<mapsto> sd)"
  by (simp add: put_socket_def)

lemma created_socket:
  assumes "createSocket i a port u = Inr (sd, u1)"
  shows "socketsByIdMap u1 i = Some sd" "localAddr sd = a" "sockId sd = i"
    "onlyLocalPortIsSet sd = l3_isUnspecified a" "remotePort sd = -1" "l3_isUnspecified (remoteAddr sd)"
  using assms by (auto simp: createSocket_def ebind_Inr_iff Let_def new_SockDesc_def getEphemeralPort_def
      split: if_splits)

text \<open>
  A bind that creates the socket restricts it to the datagrams for its address. A bind on a socket that an option
  command or a send has created sets the address but leaves the flag \<open>onlyLocalPortIsSet\<close> as it was.
\<close>

lemma bound_socket:
  assumes "udp_bind i a port u = Inr u'" "socketsByIdMap u i = Some s" "sockId s = i"
  shows "\<exists>sd. socketsByIdMap u' i = Some sd \<and> isBound sd \<and> localAddr sd = a
      \<and> onlyLocalPortIsSet sd = onlyLocalPortIsSet s"
  using assms by (auto simp: udp_bind_def ebind_Inr_iff Let_def split: if_splits)

section \<open>Paddings, closing\<close>

text \<open>
  The paddings of lower layers are cut off only when there are more than eight bytes of them: the length of the
  header is compared with the data behind the header. Up to eight bytes are handed to the application.
\<close>

lemma udp_paddings:
  assumes "totalLengthField (ui_header p) \<ge> UDP_HEADER_LENGTH"
    and "int (length (ui_data p)) = totalLengthField (ui_header p) - UDP_HEADER_LENGTH + padding" "padding \<ge> 0"
  shows "int (length (remove_paddings p)) =
      totalLengthField (ui_header p) - UDP_HEADER_LENGTH + (if padding > UDP_HEADER_LENGTH then 0 else padding)"
  using assms by (auto simp: remove_paddings_def)

text \<open>Closing a socket removes it from both tables and leaves the group memberships of the interfaces as they are.\<close>

lemma udp_close_result:
  "socketsByIdMap (udp_close i u) = (socketsByIdMap u)(case socketsByIdMap u i of None \<Rightarrow> i | Some sd \<Rightarrow> sockId sd := None)"
  "udp_ift (udp_close i u) = udp_ift u"
  by (auto simp: udp_close_def destroy_found_socket_def Let_def split: option.split)

text \<open>A bind for any port looks for a taken port 65535.\<close>

lemma udp_bind_any_port_collides:
  assumes "i \<noteq> -1" "findFirstSocketByLocalAddress a 65535 u = Inr (Some e)" "\<not> reuseAddr e"
  shows "udp_bind i a (-1) u = Inl (RuntimeError ''bind: local address/port already taken'')"
proof -
  have "findFirstSocketByLocalAddress a (-1) u = findFirstSocketByLocalAddress a 65535 u"
    by (simp add: findFirstSocketByLocalAddress_def to_ushort_def)
  then show ?thesis using assms by (simp add: udp_bind_def)
qed

text \<open>Binding a socket to another port than its ephemeral one keeps the ephemeral port registered, with no socket.\<close>

lemma udp_bind_keeps_old_port:
  assumes "udp_bind i a port u = Inr u'" "socketsByIdMap u i = Some s" "port \<noteq> -1" "localPort s \<noteq> port"
    and "socketsByPortMap u (localPort s) = Some [i]"
  shows "socketsByPortMap u' (localPort s) = Some []"
  using assms by (auto simp: udp_bind_def ebind_Inr_iff Let_def put_socket_def remove_from_port_def add_to_port_def
      split: if_splits)

end
