(* ===== verification/Ipv4Routes.thy ===== *)
theory Ipv4Routes
  imports IfaceTable StdSearch
begin

text \<open>
  The IPv4 routing table, \<open>inet/networklayer/ipv4/Ipv4RoutingTable.cc\<close> with the routes of
  \<open>Ipv4Route.h\<close>: the two sorted vectors of routes, the cache of lookups, the reactions to changes of routes and
  interfaces.

  A pointer to a route or an interface is its identifier; the vectors hold the objects, the cache the
  identifiers. A route is valid as in \<open>DsdvIpv4Route::isValid\<close>: until its expiry time, or for good if that is 0, as it
  is for the base class. The pattern \<open>netmaskRoutes\<close> that selects interfaces is a predicate (\<open>PatternMatcher\<close> is not
  modelled), the file of routes that a node may read when it starts is not modelled, the signals that
  the table emits are recorded.
\<close>

section \<open>Routes\<close>

datatype SourceType = MANUAL | IFACENETMASK | ROUTER_ADVERTISEMENT | OWN_ADV_PREFIX | ICMP_REDIRECT | RIP | OSPF
  | BGP | ZEBRA | MANET | MANET2 | DYMO | AODV | EIGRP | LISP | BABEL | ODR | UNKNOWN | ISIS

datatype route_field = R_DESTINATION | R_PREFIX_LENGTH | R_NEXTHOP | R_IFACE | R_SOURCE | R_ADMINDIST | R_METRIC

record Ipv4Route =
  r_id :: nat
  r_inTable :: bool
  r_dest :: Ipv4Address
  r_netmask :: Ipv4Address
  r_gateway :: Ipv4Address
  r_interface :: "int option"
  r_sourceType :: SourceType
  r_adminDist :: u32
  r_metric :: int
  r_source :: "int option"
  r_expiryTime :: simtime

definition dDirectlyConnected :: u32 where
  "dDirectlyConnected = 0"

definition dUnknown :: u32 where
  "dUnknown = 255"

definition new_Ipv4Route :: "nat \<Rightarrow> Ipv4Route" where
  "new_Ipv4Route i = \<lparr>r_id = i, r_inTable = False, r_dest = 0, r_netmask = 0, r_gateway = 0, r_interface = None,
     r_sourceType = MANUAL, r_adminDist = dUnknown, r_metric = 0, r_source = None, r_expiryTime = 0\<rparr>"

definition r_isValid :: "simtime \<Rightarrow> Ipv4Route \<Rightarrow> bool" where
  "r_isValid now r = (r_expiryTime r = 0 \<or> r_expiryTime r > now)"

text \<open>The setters; each tells the field whose change \<open>changed\<close> reports, if the value is a new one.\<close>

datatype route_change =
    SetDestination Ipv4Address | SetNetmask Ipv4Address | SetGateway Ipv4Address | SetInterface "int option"
  | SetSourceType SourceType | SetAdminDist u32 | SetMetric int | SetSource "int option"

fun set_route_field :: "route_change \<Rightarrow> Ipv4Route \<Rightarrow> Ipv4Route \<times> route_field option" where
  "set_route_field (SetDestination a) r =
     (if r_dest r \<noteq> a then (r\<lparr>r_dest := a\<rparr>, Some R_DESTINATION) else (r, None))"
| "set_route_field (SetNetmask a) r =
     (if r_netmask r \<noteq> a then (r\<lparr>r_netmask := a\<rparr>, Some R_PREFIX_LENGTH) else (r, None))"
| "set_route_field (SetGateway a) r =
     (if r_gateway r \<noteq> a then (r\<lparr>r_gateway := a\<rparr>, Some R_NEXTHOP) else (r, None))"
| "set_route_field (SetInterface i) r =
     (if r_interface r \<noteq> i then (r\<lparr>r_interface := i\<rparr>, Some R_IFACE) else (r, None))"
| "set_route_field (SetSourceType s) r =
     (if r_sourceType r \<noteq> s then (r\<lparr>r_sourceType := s\<rparr>, Some R_SOURCE) else (r, None))"
| "set_route_field (SetAdminDist d) r =
     (if r_adminDist r \<noteq> d then (r\<lparr>r_adminDist := d\<rparr>, Some R_ADMINDIST) else (r, None))"
| "set_route_field (SetMetric m) r =
     (if r_metric r \<noteq> m then (r\<lparr>r_metric := m\<rparr>, Some R_METRIC) else (r, None))"
| "set_route_field (SetSource s) r =
     (if r_source r \<noteq> s then (r\<lparr>r_source := s\<rparr>, Some R_SOURCE) else (r, None))"

subsection \<open>Multicast routes\<close>

datatype mroute_source = M_MANUAL | M_DVMRP | M_PIM_DM | M_PIM_SM

datatype mroute_field = M_ORIGIN | M_ORIGINMASK | M_MULTICASTGROUP | M_IN | M_OUT | M_SOURCE | M_METRIC

text \<open>An output interface is the interface and whether the link is a leaf.\<close>

type_synonym OutInterface = "int \<times> bool"

record Ipv4MulticastRoute =
  m_id :: nat
  m_inTable :: bool
  m_origin :: Ipv4Address
  m_originNetmask :: Ipv4Address
  m_group :: Ipv4Address
  m_inInterface :: "int option"
  m_outInterfaces :: "OutInterface list"
  m_sourceType :: mroute_source
  m_metric :: int

definition m_matches :: "Ipv4Address \<Rightarrow> Ipv4Address \<Rightarrow> Ipv4MulticastRoute \<Rightarrow> bool" where
  "m_matches origin grp m =
     ((ipv4_isUnspecified (m_group m) \<or> m_group m = grp) \<and>
      maskedAddrAreEqual origin (m_origin m) (m_originNetmask m))"

fun put_out_interface :: "OutInterface \<Rightarrow> OutInterface list \<Rightarrow> OutInterface list" where
  "put_out_interface p [] = [p]"
| "put_out_interface p (q # qs) = (if fst q = fst p then p # qs else q # put_out_interface p qs)"

text \<open>
  \<open>setInInterface\<close> compares pointers to \<open>InInterface\<close> objects, and every call comes with a new one.
\<close>

datatype mroute_change =
    SetOrigin Ipv4Address | SetOriginNetmask Ipv4Address | SetMulticastGroup Ipv4Address | SetInInterface "int option"
  | ClearOutInterfaces | AddOutInterface OutInterface | RemoveOutInterface int | RemoveOutInterfaceAt nat
  | SetMSourceType mroute_source | SetMMetric int

fun set_mroute_field ::
  "mroute_change \<Rightarrow> Ipv4MulticastRoute \<Rightarrow> err + Ipv4MulticastRoute \<times> mroute_field option" where
  "set_mroute_field (SetOrigin a) m =
     Inr (if m_origin m \<noteq> a then (m\<lparr>m_origin := a\<rparr>, Some M_ORIGIN) else (m, None))"
| "set_mroute_field (SetOriginNetmask a) m =
     Inr (if m_originNetmask m \<noteq> a then (m\<lparr>m_originNetmask := a\<rparr>, Some M_ORIGINMASK) else (m, None))"
| "set_mroute_field (SetMulticastGroup a) m =
     Inr (if m_group m \<noteq> a then (m\<lparr>m_group := a\<rparr>, Some M_MULTICASTGROUP) else (m, None))"
| "set_mroute_field (SetInInterface i) m =
     Inr (if m_inInterface m = None \<and> i = None then (m, None) else (m\<lparr>m_inInterface := i\<rparr>, Some M_IN))"
| "set_mroute_field ClearOutInterfaces m =
     Inr (if m_outInterfaces m \<noteq> [] then (m\<lparr>m_outInterfaces := []\<rparr>, Some M_OUT) else (m, None))"
| "set_mroute_field (AddOutInterface p) m =
     Inr (m\<lparr>m_outInterfaces := put_out_interface p (m_outInterfaces m)\<rparr>, Some M_OUT)"
| "set_mroute_field (RemoveOutInterface i) m =
     Inr (if i \<in> fst ` set (m_outInterfaces m)
          then (m\<lparr>m_outInterfaces := remove_first (\<lambda>q. fst q = i) (m_outInterfaces m)\<rparr>, Some M_OUT)
          else (m, None))"
| "set_mroute_field (RemoveOutInterfaceAt k) m =
     (if k < length (m_outInterfaces m)
      then Inr (m\<lparr>m_outInterfaces := take k (m_outInterfaces m) @ drop (Suc k) (m_outInterfaces m)\<rparr>, Some M_OUT)
      else Inl (RuntimeError ''vector::_M_range_check''))"
| "set_mroute_field (SetMSourceType s) m =
     Inr (if m_sourceType m \<noteq> s then (m\<lparr>m_sourceType := s\<rparr>, Some M_SOURCE) else (m, None))"
| "set_mroute_field (SetMMetric k) m =
     Inr (if m_metric m \<noteq> k then (m\<lparr>m_metric := k\<rparr>, Some M_METRIC) else (m, None))"

section \<open>The table\<close>

datatype route_signal =
    RouteAdded nat | RouteDeleted nat | RouteChanged nat
  | MrouteAdded nat | MrouteDeleted nat | MrouteChanged nat

record Ipv4RoutingTable =
  rt_ift :: InterfaceTable
  rt_now :: simtime
  rt_nextId :: nat
  routerId :: Ipv4Address
  routerIdPar :: string
  netmaskRoutes :: "NetworkInterface \<Rightarrow> bool"
  useAdminDist :: bool
  isNodeUp :: bool
  routingCache :: "Ipv4Address \<Rightarrow> nat option option"
  localBroadcastAddresses :: "Ipv4Address list"
  routes :: "Ipv4Route list"
  multicastRoutes :: "Ipv4MulticastRoute list"
  rt_signals :: "route_signal list"

definition empty_routing_table ::
  "InterfaceTable \<Rightarrow> string \<Rightarrow> (NetworkInterface \<Rightarrow> bool) \<Rightarrow> bool \<Rightarrow> Ipv4RoutingTable" where
  "empty_routing_table ift par matcher adminDist = \<lparr>rt_ift = ift, rt_now = 0, rt_nextId = 0, routerId = 0,
     routerIdPar = par, netmaskRoutes = matcher, useAdminDist = adminDist, isNodeUp = True, routingCache = (\<lambda>_. None),
     localBroadcastAddresses = [], routes = [], multicastRoutes = [], rt_signals = []\<rparr>"

definition rt_emit :: "route_signal \<Rightarrow> Ipv4RoutingTable \<Rightarrow> Ipv4RoutingTable" where
  "rt_emit s t = t\<lparr>rt_signals := rt_signals t @ [s]\<rparr>"

definition invalidateCache :: "Ipv4RoutingTable \<Rightarrow> Ipv4RoutingTable" where
  "invalidateCache t = t\<lparr>routingCache := (\<lambda>_. None), localBroadcastAddresses := []\<rparr>"

definition find_route :: "nat \<Rightarrow> Ipv4RoutingTable \<Rightarrow> Ipv4Route option" where
  "find_route i t = find (\<lambda>r. r_id r = i) (routes t)"

text \<open>A negative index is a read in front of the vector.\<close>

definition getRoute :: "int \<Rightarrow> Ipv4RoutingTable \<Rightarrow> err + Ipv4Route option" where
  "getRoute k t =
     (if k < int (length (routes t)) then if k < 0 then Inl NullPointer else Inr (Some (routes t ! nat k))
      else Inr None)"

definition getDefaultRoute :: "Ipv4RoutingTable \<Rightarrow> Ipv4Route option" where
  "getDefaultRoute t =
     find (r_isValid (rt_now t)) (takeWhile (\<lambda>r. ipv4_isUnspecified (r_netmask r)) (rev (routes t)))"

definition routeLessThan :: "bool \<Rightarrow> Ipv4Route \<Rightarrow> Ipv4Route \<Rightarrow> bool" where
  "routeLessThan adminDist a b =
     (if r_netmask a \<noteq> r_netmask b then r_netmask a > r_netmask b
      else if r_dest a \<noteq> r_dest b then r_dest a < r_dest b
      else if adminDist \<and> r_adminDist a \<noteq> r_adminDist b then r_adminDist a < r_adminDist b
      else r_metric a < r_metric b)"

text \<open>The insertion into the sorted vector.\<close>

definition insert_route :: "Ipv4Route \<Rightarrow> Ipv4RoutingTable \<Rightarrow> Ipv4RoutingTable" where
  "insert_route r t =
     t\<lparr>routes := insert_at (upper_bound (routeLessThan (useAdminDist t)) r (routes t)) r (routes t)\<rparr>"

definition internalRemoveRoute :: "nat \<Rightarrow> Ipv4RoutingTable \<Rightarrow> Ipv4Route option \<times> Ipv4RoutingTable" where
  "internalRemoveRoute i t =
     (case find_route i t of
        None \<Rightarrow> (None, t)
      | Some r \<Rightarrow> (Some r, invalidateCache (t\<lparr>routes := remove_first (\<lambda>r. r_id r = i) (routes t)\<rparr>)))"

definition removeRoute :: "nat \<Rightarrow> Ipv4RoutingTable \<Rightarrow> err + Ipv4Route option \<times> Ipv4RoutingTable" where
  "removeRoute i t =
     (case internalRemoveRoute i t of
        (None, t1) \<Rightarrow> Inr (None, t1)
      | (Some r, t1) \<Rightarrow> ebind (assert_that (r_inTable r)) (\<lambda>_.
          Inr (Some (r\<lparr>r_inTable := False\<rparr>), rt_emit (RouteDeleted i) t1)))"

definition deleteRoute :: "nat \<Rightarrow> Ipv4RoutingTable \<Rightarrow> err + bool \<times> Ipv4RoutingTable" where
  "deleteRoute i t =
     (case internalRemoveRoute i t of
        (None, t1) \<Rightarrow> Inr (False, t1)
      | (Some r, t1) \<Rightarrow> ebind (assert_that (r_inTable r)) (\<lambda>_. Inr (True, rt_emit (RouteDeleted i) t1)))"

definition internalAddRoute :: "Ipv4Route \<Rightarrow> Ipv4RoutingTable \<Rightarrow> err + Ipv4RoutingTable" where
  "internalAddRoute entry t =
     (if \<not> isValidNetmask (r_netmask entry) then Inl (RuntimeError ''addRoute(): wrong netmask in route'')
      else if r_netmask entry \<noteq> 0 \<and> r_dest entry AND r_netmask entry = 0
      then Inl (RuntimeError ''addRoute(): all bits of destination address is 0 inside non zero netmask'')
      else if r_dest entry AND NOT (r_netmask entry) \<noteq> 0
      then Inl (RuntimeError ''addRoute(): destination IP address has bits set outside netmask'')
      else if r_interface entry = None then Inl (RuntimeError ''addRoute(): interface cannot be nullptr'')
      else
        ebind (case (if ipv4_isUnspecified (r_netmask entry) then getDefaultRoute t else None) of
                 None \<Rightarrow> Inr t
               | Some old \<Rightarrow> ebind (deleteRoute (r_id old) t) (\<lambda>(_, t1). Inr t1)) (\<lambda>t1.
          Inr (invalidateCache (insert_route (entry\<lparr>r_inTable := True\<rparr>) t1))))"

definition addRoute :: "Ipv4Route \<Rightarrow> Ipv4RoutingTable \<Rightarrow> err + Ipv4RoutingTable" where
  "addRoute entry t = ebind (internalAddRoute entry t) (\<lambda>t1. Inr (rt_emit (RouteAdded (r_id entry)) t1))"

definition routeChanged :: "nat \<Rightarrow> route_field \<Rightarrow> Ipv4RoutingTable \<Rightarrow> err + Ipv4RoutingTable" where
  "routeChanged i fieldCode t =
     ebind (if fieldCode = R_DESTINATION \<or> fieldCode = R_PREFIX_LENGTH \<or> fieldCode = R_METRIC
            then (case internalRemoveRoute i t of
                    (None, _) \<Rightarrow> Inl AssertFailed
                  | (Some r, t1) \<Rightarrow> internalAddRoute r t1)
            else Inr t) (\<lambda>t1. Inr (rt_emit (RouteChanged i) t1))"

text \<open>A setter called on the route behind a pointer.\<close>

definition change_route :: "route_change \<Rightarrow> nat \<Rightarrow> Ipv4RoutingTable \<Rightarrow> err + Ipv4RoutingTable" where
  "change_route c i t =
     (case find_route i t of
        None \<Rightarrow> Inr t
      | Some r \<Rightarrow>
          let (r1, ch) = set_route_field c r; t1 = t\<lparr>routes := update_first (\<lambda>x. r_id x = i) r1 (routes t)\<rparr> in
          case ch of
            None \<Rightarrow> Inr t1
          | Some fieldCode \<Rightarrow> if r_inTable r1 then routeChanged i fieldCode t1 else Inr t1)"

text \<open>A loop that erases the routes with a property, one after the other.\<close>

definition erase_routes :: "(Ipv4Route \<Rightarrow> bool) \<Rightarrow> Ipv4RoutingTable \<Rightarrow> err + Ipv4RoutingTable" where
  "erase_routes p t =
     (let gone = filter p (routes t) in
      ebind (assert_that (\<forall>r \<in> set gone. r_inTable r)) (\<lambda>_.
        Inr (fold (\<lambda>r. rt_emit (RouteDeleted (r_id r))) gone
          (if gone = [] then t else invalidateCache (t\<lparr>routes := filter (\<lambda>r. \<not> p r) (routes t)\<rparr>)))))"

subsection \<open>Multicast routes\<close>

definition find_mroute :: "nat \<Rightarrow> Ipv4RoutingTable \<Rightarrow> Ipv4MulticastRoute option" where
  "find_mroute i t = find (\<lambda>m. m_id m = i) (multicastRoutes t)"

definition multicastRouteLessThan :: "Ipv4MulticastRoute \<Rightarrow> Ipv4MulticastRoute \<Rightarrow> bool" where
  "multicastRouteLessThan a b =
     (if m_originNetmask a \<noteq> m_originNetmask b then m_originNetmask a > m_originNetmask b
      else if m_origin a \<noteq> m_origin b then m_origin a < m_origin b
      else if m_group a \<noteq> m_group b then m_group a > m_group b
      else m_metric a < m_metric b)"

definition internalRemoveMulticastRoute ::
  "nat \<Rightarrow> Ipv4RoutingTable \<Rightarrow> Ipv4MulticastRoute option \<times> Ipv4RoutingTable" where
  "internalRemoveMulticastRoute i t =
     (case find_mroute i t of
        None \<Rightarrow> (None, t)
      | Some m \<Rightarrow> (Some m, invalidateCache
          (t\<lparr>multicastRoutes := remove_first (\<lambda>m. m_id m = i) (multicastRoutes t)\<rparr>)))"

text \<open>Following the pointer to an interface and asking it.\<close>

definition multicast_capable :: "int \<Rightarrow> Ipv4RoutingTable \<Rightarrow> err + bool" where
  "multicast_capable i t = (case findInterfaceById i (rt_ift t) of
     None \<Rightarrow> Inl NullPointer | Some ie \<Rightarrow> Inr (if_multicast ie))"

fun check_out_interfaces :: "int option \<Rightarrow> OutInterface list \<Rightarrow> Ipv4RoutingTable \<Rightarrow> err + unit" where
  "check_out_interfaces inI [] t = Inr ()"
| "check_out_interfaces inI (p # ps) t = ebind (multicast_capable (fst p) t) (\<lambda>mc.
     if \<not> mc then Inl (RuntimeError ''addMulticastRoute(): output interface must be multicast capable'')
     else if inI = Some (fst p)
     then Inl (RuntimeError ''addMulticastRoute(): output interface cannot be the same as the input interface'')
     else check_out_interfaces inI ps t)"

definition internalAddMulticastRoute :: "Ipv4MulticastRoute \<Rightarrow> Ipv4RoutingTable \<Rightarrow> err + Ipv4RoutingTable" where
  "internalAddMulticastRoute entry t =
     (if \<not> isValidNetmask (m_originNetmask entry)
      then Inl (RuntimeError ''addMulticastRoute(): wrong netmask in multicast route'')
      else if m_origin entry AND NOT (m_originNetmask entry) \<noteq> 0
      then Inl (RuntimeError ''addMulticastRoute(): origin IP address has bits set outside netmask'')
      else if \<not> ipv4_isUnspecified (m_group entry) \<and> \<not> ipv4_isMulticast (m_group entry)
      then Inl (RuntimeError ''addMulticastRoute(): group address is not a multicast address'')
      else ebind (case m_inInterface entry of None \<Rightarrow> Inr True | Some i \<Rightarrow> multicast_capable i t) (\<lambda>mc.
        if \<not> mc then Inl (RuntimeError ''addMulticastRoute(): input interface must be multicast capable'')
        else ebind (check_out_interfaces (m_inInterface entry) (m_outInterfaces entry) t) (\<lambda>_.
          Inr (invalidateCache (t\<lparr>multicastRoutes :=
            insert_at (upper_bound multicastRouteLessThan entry (multicastRoutes t)) (entry\<lparr>m_inTable := True\<rparr>)
              (multicastRoutes t)\<rparr>)))))"

definition addMulticastRoute :: "Ipv4MulticastRoute \<Rightarrow> Ipv4RoutingTable \<Rightarrow> err + Ipv4RoutingTable" where
  "addMulticastRoute entry t =
     ebind (internalAddMulticastRoute entry t) (\<lambda>t1. Inr (rt_emit (MrouteAdded (m_id entry)) t1))"

definition removeMulticastRoute ::
  "nat \<Rightarrow> Ipv4RoutingTable \<Rightarrow> err + Ipv4MulticastRoute option \<times> Ipv4RoutingTable" where
  "removeMulticastRoute i t =
     (case internalRemoveMulticastRoute i t of
        (None, t1) \<Rightarrow> Inr (None, t1)
      | (Some m, t1) \<Rightarrow> ebind (assert_that (m_inTable m)) (\<lambda>_.
          Inr (Some (m\<lparr>m_inTable := False\<rparr>), rt_emit (MrouteDeleted i) t1)))"

definition deleteMulticastRoute :: "nat \<Rightarrow> Ipv4RoutingTable \<Rightarrow> err + bool \<times> Ipv4RoutingTable" where
  "deleteMulticastRoute i t =
     (case internalRemoveMulticastRoute i t of
        (None, t1) \<Rightarrow> Inr (False, t1)
      | (Some m, t1) \<Rightarrow> ebind (assert_that (m_inTable m)) (\<lambda>_. Inr (True, rt_emit (MrouteDeleted i) t1)))"

definition multicastRouteChanged :: "nat \<Rightarrow> mroute_field \<Rightarrow> Ipv4RoutingTable \<Rightarrow> err + Ipv4RoutingTable" where
  "multicastRouteChanged i fieldCode t =
     ebind (if fieldCode = M_ORIGIN \<or> fieldCode = M_ORIGINMASK \<or> fieldCode = M_MULTICASTGROUP \<or> fieldCode = M_METRIC
            then (case internalRemoveMulticastRoute i t of
                    (None, _) \<Rightarrow> Inl AssertFailed
                  | (Some m, t1) \<Rightarrow> internalAddMulticastRoute m t1)
            else Inr t) (\<lambda>t1. Inr (rt_emit (MrouteChanged i) t1))"

definition change_mroute :: "mroute_change \<Rightarrow> nat \<Rightarrow> Ipv4RoutingTable \<Rightarrow> err + Ipv4RoutingTable" where
  "change_mroute c i t =
     (case find_mroute i t of
        None \<Rightarrow> Inr t
      | Some m \<Rightarrow> ebind (set_mroute_field c m) (\<lambda>(m1, ch).
          let t1 = t\<lparr>multicastRoutes := update_first (\<lambda>x. m_id x = i) m1 (multicastRoutes t)\<rparr> in
          case ch of
            None \<Rightarrow> Inr t1
          | Some fieldCode \<Rightarrow> if m_inTable m1 then multicastRouteChanged i fieldCode t1 else Inr t1))"

section \<open>Changes of the interfaces\<close>

text \<open>
  The second loop of \<open>deleteInterfaceRoutes\<close>: a route whose input interface is gone is erased, from the others the
  interface is removed as an output, which signals the change through the setter and once more here.
\<close>

definition drop_mroute_interface :: "int \<Rightarrow> nat \<Rightarrow> Ipv4RoutingTable \<Rightarrow> err + Ipv4RoutingTable" where
  "drop_mroute_interface entry i t =
     (case find_mroute i t of
        None \<Rightarrow> Inr t
      | Some m \<Rightarrow>
          if m_inInterface m = Some entry
          then ebind (assert_that (m_inTable m)) (\<lambda>_.
            Inr (rt_emit (MrouteDeleted i) (invalidateCache
              (t\<lparr>multicastRoutes := remove_first (\<lambda>m. m_id m = i) (multicastRoutes t)\<rparr>))))
          else if entry \<in> fst ` set (m_outInterfaces m)
          then ebind (change_mroute (RemoveOutInterface entry) i t) (\<lambda>t1.
            Inr (rt_emit (MrouteChanged i) (invalidateCache t1)))
          else Inr t)"

definition deleteInterfaceRoutes :: "int \<Rightarrow> Ipv4RoutingTable \<Rightarrow> err + Ipv4RoutingTable" where
  "deleteInterfaceRoutes entry t =
     ebind (erase_routes (\<lambda>r. r_interface r = Some entry) t) (\<lambda>t1.
       efold (drop_mroute_interface entry) (map m_id (multicastRoutes t1)) t1)"

definition netmask_route :: "NetworkInterface \<Rightarrow> Ipv4InterfaceData \<Rightarrow> nat \<Rightarrow> Ipv4Route" where
  "netmask_route ie d i = (new_Ipv4Route i)\<lparr>r_sourceType := IFACENETMASK, r_source := Some (interfaceId ie),
     r_dest := doAnd (inetAddr d) (inetMask d), r_netmask := inetMask d, r_gateway := 0,
     r_adminDist := dDirectlyConnected, r_metric := ifMetric d, r_interface := Some (interfaceId ie),
     r_inTable := True\<rparr>"

definition add_netmask_route :: "NetworkInterface \<Rightarrow> Ipv4RoutingTable \<Rightarrow> Ipv4RoutingTable" where
  "add_netmask_route ie t =
     (if isUp ie \<and> netmaskRoutes t ie then
        case ipv4Data ie of
          None \<Rightarrow> t
        | Some d \<Rightarrow>
            if inetMask d \<noteq> 0xFFFFFFFF
            then rt_emit (RouteAdded (rt_nextId t)) (invalidateCache
                   (insert_route (netmask_route ie d (rt_nextId t)) (t\<lparr>rt_nextId := rt_nextId t + 1\<rparr>)))
            else t
      else t)"

definition updateNetmaskRoutes :: "Ipv4RoutingTable \<Rightarrow> err + Ipv4RoutingTable" where
  "updateNetmaskRoutes t = ebind (erase_routes (\<lambda>r. r_sourceType r = IFACENETMASK) t) (\<lambda>t1.
     Inr (fold add_netmask_route (interfaces (rt_ift t1)) t1))"

datatype interface_event =
    InterfaceCreated | InterfaceDeleted int | InterfaceStateChanged if_field int | InterfaceConfigChanged
  | InterfaceIpv4ConfigChanged

fun rt_receiveSignal :: "interface_event \<Rightarrow> Ipv4RoutingTable \<Rightarrow> err + Ipv4RoutingTable" where
  "rt_receiveSignal InterfaceCreated t = ebind (updateNetmaskRoutes t) (\<lambda>t1. Inr (invalidateCache t1))"
| "rt_receiveSignal (InterfaceDeleted entry) t =
     ebind (deleteInterfaceRoutes entry t) (\<lambda>t1. Inr (invalidateCache t1))"
| "rt_receiveSignal (InterfaceStateChanged fieldId entry) t =
     (let t0 = invalidateCache t in
      if fieldId = F_STATE \<or> fieldId = F_CARRIER then
        ebind (updateNetmaskRoutes t0) (\<lambda>t1.
          case findInterfaceById entry (rt_ift t1) of
            None \<Rightarrow> Inl NullPointer
          | Some ie \<Rightarrow>
              ebind (if \<not> isUp ie then deleteInterfaceRoutes entry t1 else Inr t1) (\<lambda>t2. Inr (invalidateCache t2)))
      else Inr t0)"
| "rt_receiveSignal InterfaceConfigChanged t = Inr (invalidateCache t)"
| "rt_receiveSignal InterfaceIpv4ConfigChanged t = ebind (updateNetmaskRoutes t) (\<lambda>t1. Inr (invalidateCache t1))"

text \<open>Multicast routes are always valid, so only unicast routes are purged.\<close>

definition purge :: "Ipv4RoutingTable \<Rightarrow> err + Ipv4RoutingTable" where
  "purge t = erase_routes (\<lambda>r. \<not> r_isValid (rt_now t) r) t"

section \<open>Lookups\<close>

definition route_matches :: "Ipv4Address \<Rightarrow> Ipv4Route \<Rightarrow> bool" where
  "route_matches d r = maskedAddrAreEqual d (r_dest r) (r_netmask r)"

definition search_route :: "Ipv4Address \<Rightarrow> Ipv4RoutingTable \<Rightarrow> Ipv4Route option \<times> Ipv4RoutingTable" where
  "search_route d t =
     (let best = find (\<lambda>r. r_isValid (rt_now t) r \<and> route_matches d r) (routes t)
      in (best, t\<lparr>routingCache := (routingCache t)(d := Some (map_option r_id best))\<rparr>))"

definition findBestMatchingRoute ::
  "Ipv4Address \<Rightarrow> Ipv4RoutingTable \<Rightarrow> err + Ipv4Route option \<times> Ipv4RoutingTable" where
  "findBestMatchingRoute d t =
     (case routingCache t d of
        None \<Rightarrow> Inr (search_route d t)
      | Some None \<Rightarrow> Inr (None, t)
      | Some (Some i) \<Rightarrow>
          (case find_route i t of
             None \<Rightarrow> Inl NullPointer
           | Some r \<Rightarrow> if r_isValid (rt_now t) r then Inr (Some r, t) else Inr (search_route d t)))"

definition getInterfaceForDestAddr :: "Ipv4Address \<Rightarrow> Ipv4RoutingTable \<Rightarrow> err + int option \<times> Ipv4RoutingTable" where
  "getInterfaceForDestAddr d t = ebind (findBestMatchingRoute d t) (\<lambda>(e, t1).
     Inr (case e of None \<Rightarrow> None | Some r \<Rightarrow> r_interface r, t1))"

definition getGatewayForDestAddr :: "Ipv4Address \<Rightarrow> Ipv4RoutingTable \<Rightarrow> err + Ipv4Address \<times> Ipv4RoutingTable" where
  "getGatewayForDestAddr d t = ebind (findBestMatchingRoute d t) (\<lambda>(e, t1).
     Inr (case e of None \<Rightarrow> 0 | Some r \<Rightarrow> r_gateway r, t1))"

definition findBestMatchingMulticastRoute ::
  "Ipv4Address \<Rightarrow> Ipv4Address \<Rightarrow> Ipv4RoutingTable \<Rightarrow> Ipv4MulticastRoute option" where
  "findBestMatchingMulticastRoute origin grp t = find (m_matches origin grp) (multicastRoutes t)"

definition rt_getInterfaceByAddress :: "Ipv4Address \<Rightarrow> Ipv4RoutingTable \<Rightarrow> NetworkInterface option" where
  "rt_getInterfaceByAddress a t =
     (if ipv4_isUnspecified a then None else find (hasNetworkAddress (L3_IPv4 a)) (interfaces (rt_ift t)))"

definition rt_isLocalAddress :: "Ipv4Address \<Rightarrow> Ipv4RoutingTable \<Rightarrow> bool" where
  "rt_isLocalAddress d t = (\<exists>ie \<in> set (interfaces (rt_ift t)). hasNetworkAddress (L3_IPv4 d) ie)"

text \<open>The broadcast addresses of the interfaces, collected into a set.\<close>

fun collect_broadcast_addresses :: "NetworkInterface list \<Rightarrow> err + Ipv4Address list" where
  "collect_broadcast_addresses [] = Inr []"
| "collect_broadcast_addresses (ie # ies) =
     (if \<not> if_broadcast ie then collect_broadcast_addresses ies
      else ebind (getIpv4InterfaceData ie) (\<lambda>d. ebind (collect_broadcast_addresses ies) (\<lambda>as.
        let a = makeBroadcastAddress (inetAddr d) (inetMask d)
        in Inr (if ipv4_isUnspecified a then as else a # as))))"

definition isLocalBroadcastAddress :: "Ipv4Address \<Rightarrow> Ipv4RoutingTable \<Rightarrow> err + bool \<times> Ipv4RoutingTable" where
  "isLocalBroadcastAddress d t =
     ebind (if localBroadcastAddresses t = [] then collect_broadcast_addresses (interfaces (rt_ift t))
            else Inr (localBroadcastAddresses t)) (\<lambda>as.
       Inr (d \<in> set as, t\<lparr>localBroadcastAddresses := as\<rparr>))"

fun find_by_broadcast :: "Ipv4Address \<Rightarrow> NetworkInterface list \<Rightarrow> err + NetworkInterface option" where
  "find_by_broadcast d [] = Inr None"
| "find_by_broadcast d (ie # ies) =
     (if \<not> if_broadcast ie then find_by_broadcast d ies
      else ebind (getIpv4InterfaceData ie) (\<lambda>x.
        if makeBroadcastAddress (inetAddr x) (inetMask x) = d then Inr (Some ie) else find_by_broadcast d ies))"

definition findInterfaceByLocalBroadcastAddress ::
  "Ipv4Address \<Rightarrow> Ipv4RoutingTable \<Rightarrow> err + NetworkInterface option" where
  "findInterfaceByLocalBroadcastAddress d t = find_by_broadcast d (interfaces (rt_ift t))"

fun any_member :: "Ipv4Address \<Rightarrow> NetworkInterface list \<Rightarrow> err + bool" where
  "any_member d [] = Inr False"
| "any_member d (ie # ies) = ebind (getIpv4InterfaceData ie) (\<lambda>x.
     if isMemberOfMulticastGroup x d then Inr True else any_member d ies)"

definition isLocalMulticastAddress :: "Ipv4Address \<Rightarrow> Ipv4RoutingTable \<Rightarrow> err + bool" where
  "isLocalMulticastAddress d t = any_member d (interfaces (rt_ift t))"

fun gather_addresses :: "NetworkInterface list \<Rightarrow> err + Ipv4Address list" where
  "gather_addresses [] = Inr []"
| "gather_addresses (ie # ies) = ebind (getIpv4InterfaceData ie) (\<lambda>d.
     ebind (gather_addresses ies) (\<lambda>as. Inr (inetAddr d # as)))"

definition gatherAddresses :: "Ipv4RoutingTable \<Rightarrow> err + Ipv4Address list" where
  "gatherAddresses t = gather_addresses (interfaces (rt_ift t))"

section \<open>The router identifier, start and stop of the node\<close>

definition setRouterId :: "Ipv4Address \<Rightarrow> Ipv4RoutingTable \<Rightarrow> Ipv4RoutingTable" where
  "setRouterId a t = t\<lparr>routerId := a\<rparr>"

definition better_router_id :: "NetworkInterface \<Rightarrow> Ipv4Address \<Rightarrow> Ipv4Address" where
  "better_router_id ie a =
     (if if_loopback ie then a
      else case ipv4Data ie of None \<Rightarrow> a | Some d \<Rightarrow> if inetAddr d > a then inetAddr d else a)"

text \<open>
  A change of an interface reaches the table as a signal, which \<open>notify\<close> is; during \<open>initialize\<close> signals are ignored.
\<close>

definition set_loopback ::
  "(Ipv4InterfaceData \<Rightarrow> iface_result) \<Rightarrow> (Ipv4RoutingTable \<Rightarrow> err + Ipv4RoutingTable) \<Rightarrow> Ipv4RoutingTable \<Rightarrow>
   err + Ipv4RoutingTable" where
  "set_loopback f notify t =
     (case findFirstLoopbackInterface (rt_ift t) of
        None \<Rightarrow> Inl NullPointer
      | Some lo0 \<Rightarrow> ebind (getIpv4InterfaceData lo0) (\<lambda>d.
          notify (t\<lparr>rt_ift := put_interface (lo0\<lparr>ipv4Data := Some (fst (f d))\<rparr>) (rt_ift t)\<rparr>)))"

definition configureRouterId ::
  "(Ipv4RoutingTable \<Rightarrow> err + Ipv4RoutingTable) \<Rightarrow> Ipv4RoutingTable \<Rightarrow> err + Ipv4RoutingTable" where
  "configureRouterId notify t =
     (if ipv4_isUnspecified (routerId t) then
        if routerIdPar t = ''auto''
        then Inr (t\<lparr>routerId := fold better_router_id (interfaces (rt_ift t)) (routerId t)\<rparr>)
        else Inr t
      else if rt_getInterfaceByAddress (routerId t) t \<noteq> None then Inr t
      else ebind (set_loopback (setIPAddress (routerId t)) notify t)
             (set_loopback (setInetNetmask 0xFFFFFFFF) notify))"

text \<open>\<open>initialize\<close> in the stages of the router identifier and of the network layer.\<close>

definition rt_initialize :: "Ipv4RoutingTable \<Rightarrow> err + Ipv4RoutingTable" where
  "rt_initialize t =
     ebind (if isNodeUp t then
              ebind (if routerIdPar t \<noteq> [] \<and> routerIdPar t \<noteq> ''auto''
                     then ebind (set_text (routerIdPar t)) (\<lambda>a. Inr (t\<lparr>routerId := a\<rparr>)) else Inr t)
                (configureRouterId Inr)
            else Inr t) updateNetmaskRoutes"

definition rt_start :: "Ipv4RoutingTable \<Rightarrow> err + Ipv4RoutingTable" where
  "rt_start t =
     ebind (configureRouterId (rt_receiveSignal InterfaceIpv4ConfigChanged) t) (\<lambda>t1.
     ebind (updateNetmaskRoutes t1) (\<lambda>t2. Inr (t2\<lparr>isNodeUp := True\<rparr>)))"

definition rt_stop :: "Ipv4RoutingTable \<Rightarrow> err + Ipv4RoutingTable" where
  "rt_stop t = ebind (efold (\<lambda>i t. ebind (removeRoute i t) (\<lambda>(_, t1). Inr t1)) (map r_id (routes t)) t) (\<lambda>t1.
     Inr (t1\<lparr>isNodeUp := False\<rparr>))"

section \<open>Runs\<close>

text \<open>
  What the other modules do with the table. A route comes with a new pointer; an event of the interfaces comes
  with the table that the interfaces have then.
\<close>

datatype rt_op =
    AddRoute Ipv4Route | RemoveRoute nat | DeleteRoute nat | ChangeRoute route_change nat
  | AddMulticastRoute Ipv4MulticastRoute | RemoveMulticastRoute nat | DeleteMulticastRoute nat
  | ChangeMulticastRoute mroute_change nat
  | InterfaceEvent InterfaceTable interface_event | Purge | FindRoute Ipv4Address | AskBroadcast Ipv4Address
  | TimePasses nat | SetRouterId Ipv4Address
  | NodeStart | NodeStop

fun rt_step :: "rt_op \<Rightarrow> Ipv4RoutingTable \<Rightarrow> err + Ipv4RoutingTable" where
  "rt_step (AddRoute r) t =
     addRoute (r\<lparr>r_id := rt_nextId t, r_inTable := False\<rparr>) (t\<lparr>rt_nextId := rt_nextId t + 1\<rparr>)"
| "rt_step (RemoveRoute i) t = ebind (removeRoute i t) (\<lambda>(_, t1). Inr t1)"
| "rt_step (DeleteRoute i) t = ebind (deleteRoute i t) (\<lambda>(_, t1). Inr t1)"
| "rt_step (ChangeRoute c i) t = change_route c i t"
| "rt_step (AddMulticastRoute m) t =
     addMulticastRoute (m\<lparr>m_id := rt_nextId t, m_inTable := False\<rparr>) (t\<lparr>rt_nextId := rt_nextId t + 1\<rparr>)"
| "rt_step (RemoveMulticastRoute i) t = ebind (removeMulticastRoute i t) (\<lambda>(_, t1). Inr t1)"
| "rt_step (DeleteMulticastRoute i) t = ebind (deleteMulticastRoute i t) (\<lambda>(_, t1). Inr t1)"
| "rt_step (ChangeMulticastRoute c i) t = change_mroute c i t"
| "rt_step (InterfaceEvent ift e) t = rt_receiveSignal e (t\<lparr>rt_ift := ift\<rparr>)"
| "rt_step Purge t = purge t"
| "rt_step (FindRoute d) t = ebind (findBestMatchingRoute d t) (\<lambda>(_, t1). Inr t1)"
| "rt_step (AskBroadcast d) t = ebind (isLocalBroadcastAddress d t) (\<lambda>(_, t1). Inr t1)"
| "rt_step (TimePasses dt) t = Inr (t\<lparr>rt_now := rt_now t + int dt\<rparr>)"
| "rt_step (SetRouterId a) t = Inr (setRouterId a t)"
| "rt_step NodeStart t = rt_start t"
| "rt_step NodeStop t = rt_stop t"

end
