(* ===== verification/Ipv4RoutesProps.thy ===== *)
theory Ipv4RoutesProps
  imports Ipv4Routes
begin

text \<open>
  What the routing table promises. An invariant of all runs keeps the vectors sorted and the cache right: a cached route is
  a best one among those that are still valid, and since routes only expire as time passes the cache need not be
  told. So the lookup is a longest prefix match.
\<close>

section \<open>The orders of the vectors\<close>

interpretation route_order: strict_weak_order "routeLessThan adminDist" for adminDist
  by unfold_locales (auto simp: routeLessThan_def split: if_splits)

interpretation mroute_order: strict_weak_order multicastRouteLessThan
  by unfold_locales (auto simp: multicastRouteLessThan_def split: if_splits)

text \<open>The part of a route that its place in the vector depends on.\<close>

definition route_key :: "bool \<Rightarrow> Ipv4Route \<Rightarrow> Ipv4Address \<times> Ipv4Address \<times> u32 \<times> int" where
  "route_key adminDist r = (r_netmask r, r_dest r, if adminDist then r_adminDist r else 0, r_metric r)"

lemma routeLessThan_key:
  "route_key u a = route_key u a' \<Longrightarrow> route_key u b = route_key u b' \<Longrightarrow>
   routeLessThan u a b = routeLessThan u a' b'"
  by (auto simp: routeLessThan_def route_key_def split: if_splits)

lemma ordered_same_keys:
  assumes "map (route_key u) rs = map (route_key u) rs'" "route_order.ordered u rs"
  shows "route_order.ordered u rs'"
proof -
  have l: "length rs = length rs'" using assms(1) map_eq_imp_length_eq by blast
  have k: "route_key u (rs ! i) = route_key u (rs' ! i)" if "i < length rs" for i
    using assms(1) l that by (metis nth_map)
  show ?thesis
    using assms(2) l k routeLessThan_key unfolding route_order.ordered_def sorted_wrt_iff_nth_less by (metis less_trans)
qed

section \<open>The invariant\<close>

definition broadcast_ok :: "Ipv4RoutingTable \<Rightarrow> bool" where
  "broadcast_ok t = (localBroadcastAddresses t = [] \<or>
     collect_broadcast_addresses (interfaces (rt_ift t)) = Inr (localBroadcastAddresses t))"

definition best_route :: "Ipv4Address \<Rightarrow> Ipv4RoutingTable \<Rightarrow> Ipv4Route \<Rightarrow> bool" where
  "best_route d t r = (r \<in> set (routes t) \<and> route_matches d r \<and>
     (\<forall>r' \<in> set (routes t). r_isValid (rt_now t) r' \<longrightarrow> route_matches d r' \<longrightarrow>
        \<not> routeLessThan (useAdminDist t) r' r))"

definition no_route :: "Ipv4Address \<Rightarrow> Ipv4RoutingTable \<Rightarrow> bool" where
  "no_route d t = (\<forall>r \<in> set (routes t). r_isValid (rt_now t) r \<longrightarrow> \<not> route_matches d r)"

definition cache_ok :: "Ipv4RoutingTable \<Rightarrow> bool" where
  "cache_ok t = (\<forall>d. case routingCache t d of
      None \<Rightarrow> True
    | Some None \<Rightarrow> no_route d t
    | Some (Some i) \<Rightarrow> \<exists>r. r_id r = i \<and> best_route d t r)"

definition vector_ok :: "bool \<Rightarrow> Ipv4RoutingTable \<Rightarrow> bool" where
  "vector_ok u t = (useAdminDist t = u \<and> route_order.ordered (useAdminDist t) (routes t) \<and> distinct (map r_id (routes t)) \<and>
     (\<forall>r \<in> set (routes t). r_inTable r \<and> r_id r < rt_nextId t))"

definition rt_inv :: "bool \<Rightarrow> Ipv4RoutingTable \<Rightarrow> bool" where
  "rt_inv u t = (vector_ok u t \<and> cache_ok t \<and> broadcast_ok t)"

lemma vector_okD:
  assumes "vector_ok u t"
  shows "route_order.ordered (useAdminDist t) (routes t)" "distinct (map r_id (routes t))"
    "r \<in> set (routes t) \<Longrightarrow> r_inTable r" "r \<in> set (routes t) \<Longrightarrow> r_id r < rt_nextId t"
  using assms by (auto simp: vector_ok_def)

lemma table_frame [simp]:
  "routes (rt_emit s t) = routes t" "rt_nextId (rt_emit s t) = rt_nextId t" "rt_now (rt_emit s t) = rt_now t"
  "rt_ift (rt_emit s t) = rt_ift t" "useAdminDist (rt_emit s t) = useAdminDist t"
  "routes (invalidateCache t) = routes t" "rt_nextId (invalidateCache t) = rt_nextId t"
  "rt_now (invalidateCache t) = rt_now t" "rt_ift (invalidateCache t) = rt_ift t"
  "useAdminDist (invalidateCache t) = useAdminDist t"
  by (simp_all add: rt_emit_def invalidateCache_def)

text \<open>An operation may change the vector of routes when it empties the caches.\<close>

lemma invalidated_inv: "rt_inv u (invalidateCache t) = vector_ok u t"
  by (simp add: rt_inv_def vector_ok_def cache_ok_def broadcast_ok_def invalidateCache_def)

lemma vector_ok_frame [simp]:
  "vector_ok u (invalidateCache t) = vector_ok u t"
  "vector_ok u (rt_emit s t) = vector_ok u t"
  "vector_ok u (t\<lparr>multicastRoutes := ms\<rparr>) = vector_ok u t"
  "vector_ok u (t\<lparr>rt_signals := sigs\<rparr>) = vector_ok u t"
  "vector_ok u (t\<lparr>rt_ift := ift\<rparr>) = vector_ok u t"
  "vector_ok u (t\<lparr>routingCache := c\<rparr>) = vector_ok u t"
  "vector_ok u (t\<lparr>localBroadcastAddresses := as\<rparr>) = vector_ok u t"
  "vector_ok u (t\<lparr>rt_now := n\<rparr>) = vector_ok u t"
  "vector_ok u (t\<lparr>isNodeUp := b\<rparr>) = vector_ok u t"
  "vector_ok u (t\<lparr>routerId := a\<rparr>) = vector_ok u t"
  by (simp_all add: vector_ok_def invalidateCache_def rt_emit_def)

lemma rt_inv_frame [simp]:
  "rt_inv u (rt_emit s t) = rt_inv u t"
  "rt_inv u (t\<lparr>multicastRoutes := ms\<rparr>) = rt_inv u t"
  "rt_inv u (t\<lparr>rt_signals := sigs\<rparr>) = rt_inv u t"
  "rt_inv u (t\<lparr>isNodeUp := b\<rparr>) = rt_inv u t"
  "rt_inv u (t\<lparr>routerId := a\<rparr>) = rt_inv u t"
  by (simp_all add: rt_inv_def vector_ok_def rt_emit_def cache_ok_def broadcast_ok_def no_route_def best_route_def
      cong: option.case_cong)

lemma rt_inv_vector: "rt_inv u t \<Longrightarrow> vector_ok u t"
  by (simp add: rt_inv_def)

lemma rt_inv_nextId: "rt_inv u t \<Longrightarrow> rt_inv u (t\<lparr>rt_nextId := Suc (rt_nextId t)\<rparr>)"
  by (fastforce simp: rt_inv_def vector_ok_def cache_ok_def broadcast_ok_def no_route_def best_route_def
      split: option.splits)

lemma vector_ok_nextId: "vector_ok u t \<Longrightarrow> vector_ok u (t\<lparr>rt_nextId := Suc (rt_nextId t)\<rparr>)"
  by (auto simp: vector_ok_def)

section \<open>The operations keep it\<close>

lemma find_route_props:
  assumes "find_route i t = Some r"
  shows "r \<in> set (routes t)" "r_id r = i"
  using assms by (auto simp: find_route_def find_Some_iff)

lemma find_route_iff:
  assumes "vector_ok u t"
  shows "find_route i t = Some r \<longleftrightarrow> r \<in> set (routes t) \<and> r_id r = i"
proof
  assume r: "r \<in> set (routes t) \<and> r_id r = i"
  then obtain r' where r': "find_route i t = Some r'"
    by (cases "find_route i t") (auto simp: find_route_def find_None_iff)
  have "inj_on r_id (set (routes t))" using vector_okD(2) [OF assms] by (simp add: distinct_map)
  then have "r' = r" using find_route_props [OF r'] r by (auto dest: inj_onD)
  then show "find_route i t = Some r" using r' by simp
qed (use find_route_props in blast)

lemma insert_route_vector:
  assumes "vector_ok u t" "r_inTable r" "r_id r < rt_nextId t" "r_id r \<notin> r_id ` set (routes t)"
  shows "vector_ok u (insert_route r t)"
  using assms distinct_insert_at [of "map r_id (routes t)" "r_id r"] route_order.ordered_insert_upper
  by (auto simp: vector_ok_def insert_route_def map_insert_at)

lemma remove_first_vector:
  assumes "vector_ok u t"
  shows "vector_ok u (t\<lparr>routes := remove_first P (routes t)\<rparr>)"
proof -
  have "route_order.ordered u rs \<Longrightarrow> route_order.ordered u (remove_first P rs)" for u rs
    unfolding route_order.ordered_def using set_remove_first [of P]
    by (induction rs) auto
  moreover have "distinct (map r_id rs) \<Longrightarrow> distinct (map r_id (remove_first P rs))" for rs
    using set_remove_first [of P] by (induction rs) auto
  ultimately show ?thesis using assms set_remove_first [of P "routes t"] by (auto simp: vector_ok_def)
qed

lemma internalRemoveRoute_vector:
  assumes "vector_ok u t" "internalRemoveRoute i t = (Some r, t1)"
  shows "vector_ok u t1" "rt_inv u t1" "r_id r = i" "r_id r \<notin> r_id ` set (routes t1)" "r_inTable r" "r_id r < rt_nextId t1"
    "rt_nextId t1 = rt_nextId t"
proof -
  let ?t = "t\<lparr>routes := remove_first (\<lambda>r. r_id r = i) (routes t)\<rparr>"
  have r: "find_route i t = Some r" and t1: "t1 = invalidateCache ?t"
    using assms(2) by (auto simp: internalRemoveRoute_def split: option.splits)
  have v: "vector_ok u ?t" by (rule remove_first_vector [OF assms(1)])
  then show "vector_ok u t1" "rt_inv u t1" by (simp_all add: t1 invalidated_inv)
  show "r_id r = i" by (rule find_route_props [OF r])
  show "r_inTable r" "r_id r < rt_nextId t1" "rt_nextId t1 = rt_nextId t"
    using vector_okD(3,4) [OF assms(1), of r] find_route_props [OF r] by (auto simp: t1 invalidateCache_def)
  have "distinct (map r_id rs) \<Longrightarrow> i \<notin> r_id ` set (remove_first (\<lambda>r. r_id r = i) rs)" for rs
    by (induction rs) auto
  then show "r_id r \<notin> r_id ` set (routes t1)"
    using vector_okD(2) [OF assms(1)] \<open>r_id r = i\<close> by (simp add: t1 invalidateCache_def)
qed

lemma internalRemoveRoute_none: "internalRemoveRoute i t = (None, t1) \<Longrightarrow> t1 = t"
  by (auto simp: internalRemoveRoute_def split: option.splits)

lemma remove_inv:
  assumes "rt_inv u t"
  shows "yields (\<lambda>p. rt_inv u (snd p)) (removeRoute i t)" "yields (\<lambda>p. rt_inv u (snd p)) (deleteRoute i t)"
proof -
  obtain o' t1 where o: "internalRemoveRoute i t = (o', t1)" by fastforce
  have "rt_inv u t1"
  proof (cases o')
    case None
    then show ?thesis using internalRemoveRoute_none [of i t t1] o assms by simp
  next
    case (Some r)
    then show ?thesis using internalRemoveRoute_vector(2) [OF rt_inv_vector [OF assms]] o by blast
  qed
  then show "yields (\<lambda>p. rt_inv u (snd p)) (removeRoute i t)" "yields (\<lambda>p. rt_inv u (snd p)) (deleteRoute i t)"
    using o by (simp_all add: removeRoute_def deleteRoute_def split: option.split)
qed

lemma deleteRoute_vector:
  assumes "vector_ok u t" "i \<notin> r_id ` set (routes t)" "i < rt_nextId t"
  shows "yields (\<lambda>p. vector_ok u (snd p) \<and> i \<notin> r_id ` set (routes (snd p)) \<and> i < rt_nextId (snd p)) (deleteRoute j t)"
proof (cases "find_route j t")
  case None
  then show ?thesis using assms by (simp add: deleteRoute_def internalRemoveRoute_def)
next
  case (Some r)
  have "i \<notin> r_id ` set (remove_first P (routes t))" for P
    using assms(2) set_remove_first [of P "routes t"] by auto
  then show ?thesis using Some assms(3) remove_first_vector [OF assms(1)]
    by (simp add: deleteRoute_def internalRemoveRoute_def)
qed

lemma internalAddRoute_inv:
  assumes "vector_ok u t" "r_id r \<notin> r_id ` set (routes t)" "r_id r < rt_nextId t"
  shows "yields (rt_inv u) (internalAddRoute r t)"
proof -
  have inr: "(\<lambda>(_, t1). Inr t1) = (\<lambda>p. Inr (snd p))" by (simp add: fun_eq_iff split: prod.split)
  let ?old = "case (if ipv4_isUnspecified (r_netmask r) then getDefaultRoute t else None) of
                 None \<Rightarrow> Inr t
               | Some old \<Rightarrow> ebind (deleteRoute (r_id old) t) (\<lambda>(_, t1). Inr t1)"
  have "yields (\<lambda>t1. vector_ok u t1 \<and> r_id r \<notin> r_id ` set (routes t1) \<and> r_id r < rt_nextId t1) ?old"
    using assms deleteRoute_vector [OF assms] by (simp add: inr split: option.split)
  then have added: "yields (\<lambda>t1. rt_inv u (invalidateCache (insert_route (r\<lparr>r_inTable := True\<rparr>) t1))) ?old"
    by (rule yields_mono) (auto simp: invalidated_inv intro!: insert_route_vector)
  show ?thesis unfolding internalAddRoute_def by (intro yields_if) (simp_all only: yields_simps added)
qed

lemma addRoute_inv:
  assumes "rt_inv u t"
  shows "yields (rt_inv u) (addRoute (r\<lparr>r_id := rt_nextId t, r_inTable := False\<rparr>) (t\<lparr>rt_nextId := rt_nextId t + 1\<rparr>))"
proof -
  let ?t = "t\<lparr>rt_nextId := rt_nextId t + 1\<rparr>"
  have v: "vector_ok u ?t" using vector_ok_nextId [OF rt_inv_vector [OF assms]] by simp
  have new: "rt_nextId t \<notin> r_id ` set (routes ?t)"
    using vector_okD(4) [OF rt_inv_vector [OF assms]] by fastforce
  show ?thesis
    using internalAddRoute_inv [OF v, of "r\<lparr>r_id := rt_nextId t, r_inTable := False\<rparr>"] new
    by (auto simp: addRoute_def elim!: yields_mono)
qed

section \<open>Setters\<close>

text \<open>Routes that are equal where the invariant looks.\<close>

definition similar :: "bool \<Rightarrow> Ipv4Route \<Rightarrow> Ipv4Route \<Rightarrow> bool" where
  "similar u r r' = (route_key u r = route_key u r' \<and> r_id r = r_id r' \<and> r_inTable r = r_inTable r' \<and>
     r_expiryTime r = r_expiryTime r')"

lemma similar_refl [simp]: "similar u r r"
  by (simp add: similar_def)

lemma similar_same:
  assumes "similar u r r'"
  shows "route_matches d r = route_matches d r'" "r_isValid n r = r_isValid n r'"
  using assms by (auto simp: similar_def route_key_def route_matches_def r_isValid_def)

lemma similar_less:
  "similar u a a' \<Longrightarrow> similar u b b' \<Longrightarrow> routeLessThan u a b = routeLessThan u a' b'"
  using routeLessThan_key [of u a a' b b'] by (simp add: similar_def)

lemma similar_set2: "list_all2 (similar u) rs rs' \<Longrightarrow> r' \<in> set rs' \<Longrightarrow> \<exists>r \<in> set rs. similar u r r'"
  by (induction rule: list_all2_induct) auto

lemma similar_set1: "list_all2 (similar u) rs rs' \<Longrightarrow> r \<in> set rs \<Longrightarrow> \<exists>r' \<in> set rs'. similar u r r'"
  by (induction rule: list_all2_induct) auto

lemma similar_best:
  assumes "best_route d t r" "list_all2 (similar (useAdminDist t)) (routes t) rs" "similar (useAdminDist t) r r1" "r1 \<in> set rs"
  shows "best_route d (t\<lparr>routes := rs\<rparr>) r1"
  unfolding best_route_def
proof (intro conjI ballI impI)
  show "r1 \<in> set (routes (t\<lparr>routes := rs\<rparr>))" using assms(4) by simp
  show "route_matches d r1" using assms(1) similar_same [OF assms(3)] by (simp add: best_route_def)
  fix x assume "x \<in> set (routes (t\<lparr>routes := rs\<rparr>))" and v: "r_isValid (rt_now (t\<lparr>routes := rs\<rparr>)) x" "route_matches d x"
  then obtain y where y: "y \<in> set (routes t)" "similar (useAdminDist t) y x"
    using similar_set2 [OF assms(2)] by auto
  then have "\<not> routeLessThan (useAdminDist t) y r"
    using assms(1) v similar_same [OF y(2)] by (simp add: best_route_def)
  then show "\<not> routeLessThan (useAdminDist (t\<lparr>routes := rs\<rparr>)) x r1"
    using similar_less [OF y(2) assms(3)] by simp
qed

lemma similar_inv:
  assumes "rt_inv u t" "list_all2 (similar u) (routes t) rs"
  shows "rt_inv u (t\<lparr>routes := rs\<rparr>)"
proof -
  have v: "vector_ok u t" and c: "cache_ok t" and b: "broadcast_ok t" using assms(1) by (simp_all add: rt_inv_def)
  have u: "useAdminDist t = u" using v by (simp add: vector_ok_def)
  have k: "map (route_key u) (routes t) = map (route_key u) rs" "map r_id (routes t) = map r_id rs"
    using assms(2) by (induction) (auto simp: similar_def)
  have "route_order.ordered u rs"
    using ordered_same_keys [OF k(1)] vector_okD(1) [OF v] u by simp
  moreover have "\<forall>r' \<in> set rs. r_inTable r' \<and> r_id r' < rt_nextId t"
    using similar_set2 [OF assms(2)] vector_okD(3,4) [OF v] by (fastforce simp: similar_def)
  ultimately have v': "vector_ok u (t\<lparr>routes := rs\<rparr>)" using v k(2) by (simp add: vector_ok_def)
  have "cache_ok (t\<lparr>routes := rs\<rparr>)"
    unfolding cache_ok_def
  proof
    fix d
    have cd: "case routingCache t d of None \<Rightarrow> True | Some None \<Rightarrow> no_route d t
        | Some (Some i) \<Rightarrow> \<exists>r. r_id r = i \<and> best_route d t r"
      using c by (simp add: cache_ok_def)
    have n: "no_route d t \<Longrightarrow> no_route d (t\<lparr>routes := rs\<rparr>)"
      using similar_set2 [OF assms(2)] similar_same by (fastforce simp: no_route_def)
    have b: "\<exists>r1. r_id r1 = r_id r \<and> best_route d (t\<lparr>routes := rs\<rparr>) r1" if r: "best_route d t r" for r
    proof -
      have "r \<in> set (routes t)" using r by (simp add: best_route_def)
      then obtain r1 where "r1 \<in> set rs" "similar u r r1" using similar_set1 [OF assms(2)] by auto
      then have "best_route d (t\<lparr>routes := rs\<rparr>) r1" "r_id r1 = r_id r"
        using similar_best [OF r] assms(2) u by (simp_all add: similar_def)
      then show ?thesis by blast
    qed
    show "case routingCache (t\<lparr>routes := rs\<rparr>) d of None \<Rightarrow> True | Some None \<Rightarrow> no_route d (t\<lparr>routes := rs\<rparr>)
        | Some (Some i) \<Rightarrow> \<exists>r. r_id r = i \<and> best_route d (t\<lparr>routes := rs\<rparr>) r"
      using cd n b by (auto split: option.splits)
  qed
  then show ?thesis using v' b by (simp add: rt_inv_def broadcast_ok_def)
qed

lemma similar_update_first:
  "find P xs = Some r \<Longrightarrow> similar u r r1 \<Longrightarrow> list_all2 (similar u) xs (update_first P r1 xs)"
  by (induction xs) (auto simp: list_all2_same split: if_splits intro: list.rel_refl_strong)

lemma update_first_same: "find P xs = Some r \<Longrightarrow> update_first P r xs = xs"
  by (induction xs) (auto split: if_splits)

lemma find_update_same: "find P xs = Some r \<Longrightarrow> P r1 \<Longrightarrow> find P (update_first P r1 xs) = Some r1"
  by (induction xs) (auto split: if_splits)

lemma remove_update_first: "P r1 \<Longrightarrow> remove_first P (update_first P r1 xs) = remove_first P xs"
  by (induction xs) auto

lemma set_route_field_result:
  assumes "set_route_field c r = (r1, ch)" "u \<Longrightarrow> \<forall>d. c \<noteq> SetAdminDist d"
  shows "r_id r1 = r_id r" "r_inTable r1 = r_inTable r" "ch = None \<Longrightarrow> r1 = r"
    "ch \<noteq> Some R_DESTINATION \<Longrightarrow> ch \<noteq> Some R_PREFIX_LENGTH \<Longrightarrow> ch \<noteq> Some R_METRIC \<Longrightarrow> similar u r r1"
  using assms by (cases c; auto simp: similar_def route_key_def split: if_splits)+

lemma change_route_inv:
  assumes "rt_inv u t" "u \<Longrightarrow> \<forall>d. c \<noteq> SetAdminDist d"
  shows "yields (rt_inv u) (change_route c i t)"
proof (cases "find_route i t")
  case None
  then show ?thesis using assms(1) by (simp add: change_route_def)
next
  case (Some r)
  obtain r1 ch where c: "set_route_field c r = (r1, ch)" by fastforce
  note res = set_route_field_result [OF c assms(2)]
  let ?P = "\<lambda>x. r_id x = i"
  let ?t = "t\<lparr>routes := update_first ?P r1 (routes t)\<rparr>"
  have v: "vector_ok u t" by (rule rt_inv_vector [OF assms(1)])
  have f: "find ?P (routes t) = Some r" and r: "r \<in> set (routes t)" "r_id r = i"
    using Some find_route_props [OF Some] by (simp_all add: find_route_def)
  have in1: "r_inTable r1" "r_id r1 = i" using res(1,2) vector_okD(3) [OF v r(1)] r(2) by simp_all
  show ?thesis
  proof (cases "ch = Some R_DESTINATION \<or> ch = Some R_PREFIX_LENGTH \<or> ch = Some R_METRIC")
    case False
    then have "similar u r r1" using res(4) by blast
    then have i: "rt_inv u ?t" using similar_inv [OF assms(1)] similar_update_first [OF f] by blast
    have "change_route c i t = Inr ?t \<or> (\<exists>s. change_route c i t = Inr (rt_emit s ?t))"
      using False Some c in1 by (cases ch) (auto simp: change_route_def routeChanged_def)
    then show ?thesis using i by auto
  next
    case True
    let ?t1 = "invalidateCache (t\<lparr>routes := remove_first ?P (routes t)\<rparr>)"
    have fr: "find_route i ?t = Some r1" using find_update_same [OF f] in1 by (simp add: find_route_def)
    have "internalRemoveRoute i ?t = (Some r1, ?t1)"
      using fr remove_update_first [of ?P r1] in1(2) by (simp add: internalRemoveRoute_def)
    moreover obtain fc where "ch = Some fc" "fc = R_DESTINATION \<or> fc = R_PREFIX_LENGTH \<or> fc = R_METRIC"
      using True by blast
    ultimately have e: "change_route c i t = ebind (internalAddRoute r1 ?t1) (\<lambda>t1. Inr (rt_emit (RouteChanged i) t1))"
      using Some c in1 by (auto simp: change_route_def routeChanged_def)
    have "internalRemoveRoute i t = (Some r, ?t1)" using Some by (simp add: internalRemoveRoute_def)
    then have "vector_ok u ?t1" "r_id r1 \<notin> r_id ` set (routes ?t1)" "r_id r1 < rt_nextId ?t1"
      using internalRemoveRoute_vector [OF v] res(1) by metis+
    then show ?thesis using internalAddRoute_inv unfolding e by (auto elim!: yields_mono)
  qed
qed

section \<open>Multicast routes and interface events\<close>

text \<open>Operations on the multicast routes touch nothing else, but may empty the caches.\<close>

definition unicast_kept :: "Ipv4RoutingTable \<Rightarrow> Ipv4RoutingTable \<Rightarrow> bool" where
  "unicast_kept t t' = (routes t' = routes t \<and> rt_nextId t' = rt_nextId t \<and> rt_now t' = rt_now t \<and>
     rt_ift t' = rt_ift t \<and> useAdminDist t' = useAdminDist t \<and>
     (routingCache t' = routingCache t \<and> localBroadcastAddresses t' = localBroadcastAddresses t \<or>
      routingCache t' = (\<lambda>_. None) \<and> localBroadcastAddresses t' = []))"

lemma unicast_kept_vector: "unicast_kept t t' \<Longrightarrow> vector_ok u t \<Longrightarrow> vector_ok u t'"
  by (auto simp: unicast_kept_def vector_ok_def)

lemma unicast_kept_inv:
  assumes "unicast_kept t t'" "rt_inv u t"
  shows "rt_inv u t'"
proof -
  have "no_route d t' = no_route d t" "best_route d t' r = best_route d t r" for d r
    using assms(1) by (simp_all add: unicast_kept_def no_route_def best_route_def)
  then have "cache_ok t'" "broadcast_ok t'"
    using assms by (auto simp: unicast_kept_def rt_inv_def cache_ok_def broadcast_ok_def cong: option.case_cong)
  then show ?thesis using unicast_kept_vector [OF assms(1)] assms(2) by (simp add: rt_inv_def)
qed

lemma unicast_kept_refl [simp]: "unicast_kept t t"
  by (simp add: unicast_kept_def)

lemma unicast_kept_trans: "unicast_kept a b \<Longrightarrow> unicast_kept b c \<Longrightarrow> unicast_kept a c"
  by (auto simp: unicast_kept_def)

lemma unicast_kept_steps [simp]:
  "unicast_kept t (rt_emit s t') = unicast_kept t t'"
  "unicast_kept t (t'\<lparr>multicastRoutes := ms\<rparr>) = unicast_kept t t'"
  "unicast_kept t t' \<Longrightarrow> unicast_kept t (invalidateCache t')"
  by (auto simp: unicast_kept_def invalidateCache_def rt_emit_def)

lemma mroute_ops_kept:
  "unicast_kept t (snd (internalRemoveMulticastRoute i t))"
  "yields (unicast_kept t) (internalAddMulticastRoute m t)"
  "yields (unicast_kept t) (addMulticastRoute m t)"
  "yields (\<lambda>p. unicast_kept t (snd p)) (removeMulticastRoute i t)"
  "yields (\<lambda>p. unicast_kept t (snd p)) (deleteMulticastRoute i t)"
proof -
  show r: "unicast_kept t (snd (internalRemoveMulticastRoute i t))"
    by (simp add: internalRemoveMulticastRoute_def split: option.split)
  show a: "yields (unicast_kept t) (internalAddMulticastRoute m t)"
    unfolding internalAddMulticastRoute_def by (intro yields_if yields_seq) simp_all
  then show "yields (unicast_kept t) (addMulticastRoute m t)"
    by (auto simp: addMulticastRoute_def)
  obtain o' t1 where o: "internalRemoveMulticastRoute i t = (o', t1)" by fastforce
  then show "yields (\<lambda>p. unicast_kept t (snd p)) (removeMulticastRoute i t)"
    "yields (\<lambda>p. unicast_kept t (snd p)) (deleteMulticastRoute i t)"
    using r by (simp_all add: removeMulticastRoute_def deleteMulticastRoute_def split: option.split)
qed

lemma mroute_changed_kept: "yields (unicast_kept t) (multicastRouteChanged i fc t)"
proof -
  have "yields (unicast_kept t) (case internalRemoveMulticastRoute i t of
      (None, _) \<Rightarrow> Inl AssertFailed | (Some m, t1) \<Rightarrow> internalAddMulticastRoute m t1)"
    using mroute_ops_kept(1) [of t i] yields_mono [OF mroute_ops_kept(2)] unicast_kept_trans
    by (fastforce split: prod.split option.split)
  then show ?thesis by (auto simp: multicastRouteChanged_def)
qed

lemma change_mroute_kept: "yields (unicast_kept t) (change_mroute c i t)"
proof (cases "find_mroute i t")
  case None
  then show ?thesis by (simp add: change_mroute_def)
next
  case (Some m)
  have "yields (unicast_kept t) (multicastRouteChanged i fc (t\<lparr>multicastRoutes := ms\<rparr>))" for fc ms
    by (rule yields_mono [OF mroute_changed_kept]) (auto simp: unicast_kept_def)
  then show ?thesis
    using Some by (auto simp: change_mroute_def Let_def intro!: yields_seq split: prod.split option.split
        simp del: yields_simps(3))
qed

lemma drop_mroute_kept: "yields (unicast_kept t) (drop_mroute_interface e i t)"
  using change_mroute_kept [of t "RemoveOutInterface e" i]
  by (auto simp: drop_mroute_interface_def split: option.split elim!: yields_mono)

lemma drop_mroutes_kept: "yields (unicast_kept t) (efold (drop_mroute_interface e) is t)"
  by (rule yields_efold) (auto intro: yields_mono [OF drop_mroute_kept] unicast_kept_trans)

section \<open>Erasing routes, netmask routes\<close>

lemma fold_emit: "\<exists>sigs. fold (\<lambda>r. rt_emit (f r)) rs t = t\<lparr>rt_signals := sigs\<rparr>"
proof (induction rs arbitrary: t)
  case Nil
  show ?case by (rule exI [of _ "rt_signals t"]) simp
next
  case (Cons r rs)
  obtain sigs where sigs: "fold (\<lambda>r. rt_emit (f r)) rs (rt_emit (f r) t) = rt_emit (f r) t\<lparr>rt_signals := sigs\<rparr>"
    using Cons by blast
  have "rt_emit (f r) t\<lparr>rt_signals := sigs\<rparr> = t\<lparr>rt_signals := sigs\<rparr>" by (simp add: rt_emit_def)
  then show ?case using sigs by (intro exI [of _ sigs]) simp
qed

lemma erase_routes_inv:
  "vector_ok u t \<Longrightarrow> yields (vector_ok u) (erase_routes P t)"
  "rt_inv u t \<Longrightarrow> yields (rt_inv u) (erase_routes P t)"
proof -
  have v: "vector_ok u (t\<lparr>routes := filter P (routes t)\<rparr>)" if "vector_ok u t" for P
    using that route_order.ordered_filter distinct_map_filter by (auto simp: vector_ok_def)
  obtain sigs where sigs: "fold (\<lambda>r. rt_emit (RouteDeleted (r_id r))) (filter P (routes t))
      (if filter P (routes t) = [] then t else invalidateCache (t\<lparr>routes := filter (\<lambda>r. \<not> P r) (routes t)\<rparr>)) =
      (if filter P (routes t) = [] then t else invalidateCache (t\<lparr>routes := filter (\<lambda>r. \<not> P r) (routes t)\<rparr>))\<lparr>rt_signals := sigs\<rparr>"
    using fold_emit [of "\<lambda>r. RouteDeleted (r_id r)" "filter P (routes t)" "if filter P (routes t) = [] then t
      else invalidateCache (t\<lparr>routes := filter (\<lambda>r. \<not> P r) (routes t)\<rparr>)"] by blast
  show "vector_ok u t \<Longrightarrow> yields (vector_ok u) (erase_routes P t)"
    using v [of "\<lambda>r. \<not> P r"] by (simp add: erase_routes_def Let_def sigs)
  show "rt_inv u t \<Longrightarrow> yields (rt_inv u) (erase_routes P t)"
    using v [of "\<lambda>r. \<not> P r", OF rt_inv_vector] by (simp add: erase_routes_def Let_def sigs invalidated_inv)
qed

lemma add_netmask_route_inv:
  "vector_ok u t \<Longrightarrow> vector_ok u (add_netmask_route ie t)"
  "rt_inv u t \<Longrightarrow> rt_inv u (add_netmask_route ie t)"
proof -
  have v: "vector_ok u (insert_route (netmask_route ie d (rt_nextId t)) (t\<lparr>rt_nextId := rt_nextId t + 1\<rparr>))"
    if "vector_ok u t" for d
  proof -
    have "rt_nextId t \<notin> r_id ` set (routes t)" using vector_okD(4) [OF that] by fastforce
    then show ?thesis using vector_ok_nextId [OF that]
      by (intro insert_route_vector) (simp_all add: netmask_route_def new_Ipv4Route_def)
  qed
  then show "vector_ok u t \<Longrightarrow> vector_ok u (add_netmask_route ie t)"
    by (simp add: add_netmask_route_def split: option.split)
  show "rt_inv u t \<Longrightarrow> rt_inv u (add_netmask_route ie t)"
    using v [OF rt_inv_vector] by (simp add: add_netmask_route_def invalidated_inv split: option.split)
qed

lemma updateNetmaskRoutes_inv:
  "vector_ok u t \<Longrightarrow> yields (vector_ok u) (updateNetmaskRoutes t)"
  "rt_inv u t \<Longrightarrow> yields (rt_inv u) (updateNetmaskRoutes t)"
proof -
  have "vector_ok u t \<Longrightarrow> vector_ok u (fold add_netmask_route ies t)" for ies t
    by (induction ies arbitrary: t) (simp_all add: add_netmask_route_inv)
  then show "vector_ok u t \<Longrightarrow> yields (vector_ok u) (updateNetmaskRoutes t)"
    using yields_mono [OF erase_routes_inv(1)] by (simp add: updateNetmaskRoutes_def)
  have "rt_inv u t \<Longrightarrow> rt_inv u (fold add_netmask_route ies t)" for ies t
    by (induction ies arbitrary: t) (simp_all add: add_netmask_route_inv)
  then show "rt_inv u t \<Longrightarrow> yields (rt_inv u) (updateNetmaskRoutes t)"
    using yields_mono [OF erase_routes_inv(2)] by (simp add: updateNetmaskRoutes_def)
qed

lemma deleteInterfaceRoutes_inv:
  "vector_ok u t \<Longrightarrow> yields (vector_ok u) (deleteInterfaceRoutes e t)"
  using yields_mono [OF erase_routes_inv(1)] yields_mono [OF drop_mroutes_kept] unicast_kept_vector
  by (simp add: deleteInterfaceRoutes_def)

lemma receiveSignal_inv:
  assumes "vector_ok u t"
  shows "yields (rt_inv u) (rt_receiveSignal e t)"
proof -
  have n: "yields (\<lambda>t1. rt_inv u (invalidateCache t1)) (updateNetmaskRoutes t)" if "vector_ok u t" for t
    using updateNetmaskRoutes_inv(1) [OF that] by (simp add: invalidated_inv)
  have d: "yields (\<lambda>t1. rt_inv u (invalidateCache t1)) (deleteInterfaceRoutes i t)" if "vector_ok u t" for t i
    using deleteInterfaceRoutes_inv [OF that] by (simp add: invalidated_inv)
  show ?thesis
  proof (cases e)
    case (InterfaceStateChanged fc i)
    have v: "vector_ok u (invalidateCache t)" using assms by simp
    have "yields (\<lambda>t1. yields (rt_inv u) (case findInterfaceById i (rt_ift t1) of
            None \<Rightarrow> Inl NullPointer
          | Some ie \<Rightarrow> ebind (if \<not> isUp ie then deleteInterfaceRoutes i t1 else Inr t1) (\<lambda>t2. Inr (invalidateCache t2))))
         (updateNetmaskRoutes (invalidateCache t))"
      by (rule yields_mono [OF updateNetmaskRoutes_inv(1) [OF v]])
        (auto simp: invalidated_inv deleteInterfaceRoutes_inv split: option.split)
    then show ?thesis using InterfaceStateChanged assms by (simp add: Let_def invalidated_inv)
  qed (use assms n d in \<open>simp_all add: invalidated_inv\<close>)
qed

section \<open>Lookups\<close>

lemma search_route_props:
  assumes "vector_ok u t"
  shows "case fst (search_route d t) of None \<Rightarrow> no_route d t | Some r \<Rightarrow> r_isValid (rt_now t) r \<and> best_route d t r"
proof -
  have u: "route_order.ordered (useAdminDist t) (routes t)" by (rule vector_okD(1) [OF assms])
  let ?P = "\<lambda>r. r_isValid (rt_now t) r \<and> route_matches d r"
  have "find ?P (routes t) = Some r \<Longrightarrow> r_isValid (rt_now t) r \<and> best_route d t r" for r
    using route_order.ordered_find [OF u, of ?P r] by (auto simp: best_route_def)
  moreover have "find ?P (routes t) = None \<Longrightarrow> no_route d t"
    by (auto simp: find_None_iff no_route_def)
  ultimately show ?thesis by (auto simp: search_route_def Let_def split: option.split)
qed

definition entry_ok :: "Ipv4Address \<Rightarrow> Ipv4RoutingTable \<Rightarrow> nat option option \<Rightarrow> bool" where
  "entry_ok d t e = (case e of
      None \<Rightarrow> True
    | Some None \<Rightarrow> no_route d t
    | Some (Some i) \<Rightarrow> \<exists>r. r_id r = i \<and> best_route d t r)"

lemma cache_ok_iff: "cache_ok t \<longleftrightarrow> (\<forall>d. entry_ok d t (routingCache t d))"
  by (simp add: cache_ok_def entry_ok_def)

lemma entry_ok_cache [simp]: "entry_ok d (t\<lparr>routingCache := c\<rparr>) e = entry_ok d t e"
  "entry_ok d (t\<lparr>localBroadcastAddresses := as\<rparr>) e = entry_ok d t e"
  by (auto simp: entry_ok_def no_route_def best_route_def split: option.split)

lemma search_route_inv:
  assumes "rt_inv u t"
  shows "rt_inv u (snd (search_route d t))"
proof -
  have "entry_ok d t (Some (map_option r_id (fst (search_route d t))))"
    using search_route_props [OF rt_inv_vector [OF assms], of d]
    by (auto simp: entry_ok_def split: option.splits)
  then show ?thesis
    using assms by (auto simp: rt_inv_def search_route_def Let_def cache_ok_iff broadcast_ok_def)
qed

lemma lookup_result:
  assumes "rt_inv u t"
  shows "\<exists>res t1. findBestMatchingRoute d t = Inr (res, t1) \<and> rt_inv u t1 \<and>
    (case res of None \<Rightarrow> no_route d t | Some r \<Rightarrow> r_isValid (rt_now t) r \<and> best_route d t r)"
proof -
  obtain res t1 where s: "search_route d t = (res, t1)" by fastforce
  have searched: "rt_inv u t1" "case res of None \<Rightarrow> no_route d t | Some r \<Rightarrow> r_isValid (rt_now t) r \<and> best_route d t r"
    using search_route_inv [OF assms, of d] search_route_props [OF rt_inv_vector [OF assms], of d] s by simp_all
  have e: "entry_ok d t (routingCache t d)" using assms by (simp add: rt_inv_def cache_ok_iff)
  show ?thesis
  proof (cases "routingCache t d")
    case None
    then show ?thesis using searched s by (simp add: findBestMatchingRoute_def)
  next
    case (Some o')
    show ?thesis
    proof (cases o')
      case None
      then show ?thesis using Some e assms by (simp add: findBestMatchingRoute_def entry_ok_def)
    next
      case (Some i)
      obtain r where r: "r_id r = i" "best_route d t r"
        using e Some \<open>routingCache t d = Some o'\<close> by (auto simp: entry_ok_def)
      then have "find_route i t = Some r"
        using find_route_iff [OF rt_inv_vector [OF assms]] by (simp add: best_route_def)
      then show ?thesis
        using searched s r assms Some \<open>routingCache t d = Some o'\<close> by (simp add: findBestMatchingRoute_def)
    qed
  qed
qed

lemma time_passes_inv:
  assumes "rt_inv u t" "n \<ge> rt_now t"
  shows "rt_inv u (t\<lparr>rt_now := n\<rparr>)"
proof -
  have "r_isValid n r \<Longrightarrow> r_isValid (rt_now t) r" for r using assms(2) by (auto simp: r_isValid_def)
  then have "entry_ok d t e \<Longrightarrow> entry_ok d (t\<lparr>rt_now := n\<rparr>) e" for d e
    by (auto simp: entry_ok_def no_route_def best_route_def split: option.splits)
  then show ?thesis using assms(1) by (auto simp: rt_inv_def cache_ok_iff broadcast_ok_def)
qed

lemma broadcast_inv:
  assumes "rt_inv u t" "isLocalBroadcastAddress d t = Inr (b, t1)"
  shows "rt_inv u t1"
    and "\<exists>as. collect_broadcast_addresses (interfaces (rt_ift t)) = Inr as \<and> b = (d \<in> set as)"
proof -
  obtain as where as: "collect_broadcast_addresses (interfaces (rt_ift t)) = Inr as" "b = (d \<in> set as)"
      "t1 = t\<lparr>localBroadcastAddresses := as\<rparr>"
  proof (cases "localBroadcastAddresses t = []")
    case True
    then show ?thesis using that assms(2)
      by (cases "collect_broadcast_addresses (interfaces (rt_ift t))") (simp_all add: isLocalBroadcastAddress_def)
  next
    case False
    let ?L = "localBroadcastAddresses t"
    have c: "collect_broadcast_addresses (interfaces (rt_ift t)) = Inr ?L"
      using assms(1) False by (simp add: rt_inv_def broadcast_ok_def)
    have "isLocalBroadcastAddress d t = Inr (d \<in> set ?L, t\<lparr>localBroadcastAddresses := ?L\<rparr>)"
      unfolding isLocalBroadcastAddress_def by (simp only: False if_False ebind_simps)
    then have "(b, t1) = (d \<in> set ?L, t\<lparr>localBroadcastAddresses := ?L\<rparr>)" using assms(2) by (metis sum.inject(2))
    then show ?thesis using that [OF c] by blast
  qed
  show "rt_inv u t1" using as assms(1) by (simp add: rt_inv_def broadcast_ok_def cache_ok_iff)
  show "\<exists>as. collect_broadcast_addresses (interfaces (rt_ift t)) = Inr as \<and> b = (d \<in> set as)" using as by blast
qed

section \<open>Runs\<close>

lemma configureRouterId_inv:
  assumes "rt_inv u t"
  shows "yields (rt_inv u) (configureRouterId (rt_receiveSignal InterfaceIpv4ConfigChanged) t)"
proof -
  have l: "yields (rt_inv u) (set_loopback f (rt_receiveSignal InterfaceIpv4ConfigChanged) t)" if "vector_ok u t" for f t
    unfolding set_loopback_def
    by (intro yields_option yields_seq receiveSignal_inv) (simp_all add: that)
  have "yields (\<lambda>t1. yields (rt_inv u) (set_loopback f (rt_receiveSignal InterfaceIpv4ConfigChanged) t1))
      (set_loopback g (rt_receiveSignal InterfaceIpv4ConfigChanged) t)" for f g
    by (rule yields_mono [OF l [OF rt_inv_vector [OF assms]]]) (rule l [OF rt_inv_vector])
  then show ?thesis using assms unfolding configureRouterId_def by (intro yields_if) simp_all
qed

lemma rt_stop_inv:
  assumes "rt_inv u t"
  shows "yields (rt_inv u) (rt_stop t)"
proof -
  have "yields (rt_inv u) (efold (\<lambda>i t. ebind (removeRoute i t) (\<lambda>(_, t1). Inr t1)) is t)" for "is"
  proof (rule yields_efold [where I = "rt_inv u"])
    fix i t assume "rt_inv u t"
    then show "yields (rt_inv u) (ebind (removeRoute i t) (\<lambda>(_, t1). Inr t1))"
      using remove_inv(1) by (simp add: case_prod_beta)
  qed (rule assms)
  then show ?thesis by (simp add: rt_stop_def)
qed

lemma rt_step_inv:
  assumes "rt_inv u t" "u \<Longrightarrow> \<forall>d i. op \<noteq> ChangeRoute (SetAdminDist d) i"
  shows "yields (rt_inv u) (rt_step op t)"
proof (cases op)
  case (AddRoute r)
  then show ?thesis using addRoute_inv [OF assms(1), of r] by simp
next
  case (RemoveRoute i)
  then show ?thesis using remove_inv(1) [OF assms(1), of i] by (simp add: case_prod_beta)
next
  case (DeleteRoute i)
  then show ?thesis using remove_inv(2) [OF assms(1), of i] by (simp add: case_prod_beta)
next
  case (ChangeRoute c i)
  then show ?thesis using change_route_inv [OF assms(1)] assms(2) by simp
next
  case (AddMulticastRoute m)
  then show ?thesis using yields_mono [OF mroute_ops_kept(3)] unicast_kept_inv rt_inv_nextId [OF assms(1)] by simp
next
  case (RemoveMulticastRoute i)
  then show ?thesis using yields_mono [OF mroute_ops_kept(4) [of t i]] unicast_kept_inv assms(1)
    by (simp add: case_prod_beta)
next
  case (DeleteMulticastRoute i)
  then show ?thesis using yields_mono [OF mroute_ops_kept(5) [of t i]] unicast_kept_inv assms(1)
    by (simp add: case_prod_beta)
next
  case (ChangeMulticastRoute c i)
  then show ?thesis using yields_mono [OF change_mroute_kept] unicast_kept_inv assms(1) by simp
next
  case (InterfaceEvent ift e)
  then show ?thesis using receiveSignal_inv [of u "t\<lparr>rt_ift := ift\<rparr>"] rt_inv_vector [OF assms(1)] by simp
next
  case Purge
  then show ?thesis using erase_routes_inv(2) [OF assms(1)] by (simp add: purge_def)
next
  case (FindRoute d)
  then show ?thesis using lookup_result [OF assms(1), of d] by auto
next
  case (AskBroadcast d)
  then show ?thesis using broadcast_inv(1) [OF assms(1)] by (cases "isLocalBroadcastAddress d t") auto
next
  case (TimePasses dt)
  then show ?thesis using time_passes_inv [OF assms(1)] by simp
next
  case (SetRouterId a)
  then show ?thesis using assms(1) by (simp add: setRouterId_def)
next
  case NodeStart
  have "yields (\<lambda>t1. yields (\<lambda>t2. rt_inv u (t2\<lparr>isNodeUp := True\<rparr>)) (updateNetmaskRoutes t1))
      (configureRouterId (rt_receiveSignal InterfaceIpv4ConfigChanged) t)"
    by (rule yields_mono [OF configureRouterId_inv [OF assms(1)]]) (simp add: updateNetmaskRoutes_inv(2))
  then show ?thesis using NodeStart by (simp add: rt_start_def)
next
  case NodeStop
  then show ?thesis using rt_stop_inv [OF assms(1)] by simp
qed

lemma initialized_inv:
  assumes "rt_initialize (empty_routing_table ift par matcher u) = Inr t"
  shows "rt_inv u t"
proof -
  have no_cache: "cache_ok t" "broadcast_ok t" if "routingCache t = (\<lambda>_. None)" "localBroadcastAddresses t = []" for t
    using that by (simp_all add: cache_ok_def broadcast_ok_def)
  define fresh where "fresh t = (vector_ok u t \<and> routingCache t = (\<lambda>_. None) \<and> localBroadcastAddresses t = [])" for t
  have i: "fresh t \<Longrightarrow> rt_inv u t" for t using no_cache by (simp add: rt_inv_def fresh_def)
  have e: "fresh (empty_routing_table ift par matcher u)"
    by (simp add: fresh_def vector_ok_def empty_routing_table_def route_order.ordered_def)
  have f: "fresh (t\<lparr>rt_ift := x\<rparr>) = fresh t" "fresh (t\<lparr>routerId := a\<rparr>) = fresh t" for t x a
    by (simp_all add: fresh_def)
  have l: "yields fresh (set_loopback g Inr t)" if "fresh t" for g t
    using that f unfolding set_loopback_def by (intro yields_option yields_seq) simp_all
  have c: "yields fresh (configureRouterId Inr t)" if "fresh t" for t
  proof -
    have "yields (\<lambda>t1. yields fresh (set_loopback g Inr t1)) (set_loopback h Inr t)" for g h
      by (rule yields_mono [OF l [OF that]]) (rule l)
    then show ?thesis using that f unfolding configureRouterId_def by (intro yields_if) simp_all
  qed
  let ?t = "empty_routing_table ift par matcher u"
  have "yields fresh (ebind (if routerIdPar ?t \<noteq> [] \<and> routerIdPar ?t \<noteq> ''auto''
        then ebind (set_text (routerIdPar ?t)) (\<lambda>a. Inr (?t\<lparr>routerId := a\<rparr>)) else Inr ?t) (configureRouterId Inr))"
    using c e f by (simp add: yields_iff ebind_Inr_iff split: if_splits) blast
  then have "yields fresh (if isNodeUp ?t then ebind (if routerIdPar ?t \<noteq> [] \<and> routerIdPar ?t \<noteq> ''auto''
        then ebind (set_text (routerIdPar ?t)) (\<lambda>a. Inr (?t\<lparr>routerId := a\<rparr>)) else Inr ?t) (configureRouterId Inr) else Inr ?t)"
    using e by simp
  then have "yields (rt_inv u) (rt_initialize ?t)"
    unfolding rt_initialize_def yields_simps(3)
    by (rule yields_mono) (rule updateNetmaskRoutes_inv(2) [OF i])
  then show ?thesis using assms by simp
qed

lemma rt_run_inv:
  assumes "efold rt_step ops t = Inr t'" "rt_inv u t" "u \<Longrightarrow> \<forall>d i. ChangeRoute (SetAdminDist d) i \<notin> set ops"
  shows "rt_inv u t'"
proof -
  have "yields (rt_inv u) (efold rt_step ops t)"
    using assms(2,3) by (intro yields_efold rt_step_inv) auto
  then show ?thesis using assms(1) by simp
qed

section \<open>Longest prefix match\<close>

text \<open>
  The specification of the lookup: among the valid routes whose prefix covers the address one with the longest prefix, and
  among routes for the same prefix one with the smallest metric, or administrative distance and then
  metric if the table uses those.
\<close>

definition preferred :: "bool \<Rightarrow> Ipv4Route \<Rightarrow> Ipv4Route \<Rightarrow> bool" where
  "preferred u r r' =
     ((isValidNetmask (r_netmask r) \<and> isValidNetmask (r_netmask r') \<longrightarrow>
         getNetmaskLength (r_netmask r') \<le> getNetmaskLength (r_netmask r)) \<and>
      (r_netmask r = r_netmask r' \<and> r_dest r = r_dest r' \<longrightarrow>
         (if u \<and> r_adminDist r \<noteq> r_adminDist r' then r_adminDist r < r_adminDist r' else r_metric r \<le> r_metric r')))"

definition longest_prefix_match ::
  "simtime \<Rightarrow> bool \<Rightarrow> Ipv4Route list \<Rightarrow> Ipv4Address \<Rightarrow> Ipv4Route option \<Rightarrow> bool" where
  "longest_prefix_match now u rs d res =
     (let candidates = {r \<in> set rs. r_isValid now r \<and> maskedAddrAreEqual d (r_dest r) (r_netmask r)} in
      case res of None \<Rightarrow> candidates = {}
      | Some r \<Rightarrow> r \<in> candidates \<and> (\<forall>r' \<in> candidates. preferred u r r'))"

lemma not_less_preferred: "\<not> routeLessThan u r' r \<Longrightarrow> preferred u r r'"
proof -
  assume n: "\<not> routeLessThan u r' r"
  have "getNetmaskLength (r_netmask r') \<le> getNetmaskLength (r_netmask r)"
    if "isValidNetmask (r_netmask r)" "isValidNetmask (r_netmask r')"
  proof -
    have "\<not> r_netmask r < r_netmask r'" using n by (auto simp: routeLessThan_def split: if_splits)
    then show ?thesis using netmask_less_iff [OF that] by simp
  qed
  then show ?thesis using n by (auto simp: preferred_def routeLessThan_def split: if_splits)
qed

text \<open>
  C12. Routing: whatever routes were added, removed and changed, however the interfaces changed and time passed, and whatever
  was looked up before, the lookup goes through no dangling pointer and returns a longest prefix match among the
  routes that are valid now; the cache is never stale. (With administrative distances this needs that
  nobody changes the distance of a route in the table.)
\<close>
theorem lookup_is_longest_prefix_match:
  assumes "rt_initialize (empty_routing_table ift par matcher u) = Inr t0"
    and "efold rt_step ops t0 = Inr t"
    and "u \<longrightarrow> (\<forall>dist i. ChangeRoute (SetAdminDist dist) i \<notin> set ops)"
  shows "\<exists>res t1. findBestMatchingRoute d t = Inr (res, t1) \<and>
           longest_prefix_match (rt_now t) u (routes t) d res"
proof -
  have inv: "rt_inv u t" using rt_run_inv [OF assms(2) initialized_inv [OF assms(1)]] assms(3) by blast
  then have u: "useAdminDist t = u" by (simp add: rt_inv_def vector_ok_def)
  obtain res t1 where r: "findBestMatchingRoute d t = Inr (res, t1)"
    "case res of None \<Rightarrow> no_route d t | Some r \<Rightarrow> r_isValid (rt_now t) r \<and> best_route d t r"
    using lookup_result [OF inv, of d] by blast
  then have "longest_prefix_match (rt_now t) u (routes t) d res"
    using not_less_preferred u
    by (auto simp: longest_prefix_match_def no_route_def best_route_def route_matches_def split: option.splits)
  then show ?thesis using r(1) by blast
qed

definition example_routes :: "rt_op list" where
  "example_routes =
     [AddRoute ((new_Ipv4Route 0)\<lparr>r_dest := 0x0A000000, r_netmask := 0xFF000000, r_interface := Some 100\<rparr>),
      FindRoute 0x0A010203,
      AddRoute ((new_Ipv4Route 0)\<lparr>r_dest := 0x0A010000, r_netmask := 0xFFFF0000, r_interface := Some 101,
                  r_expiryTime := 5\<rparr>),
      FindRoute 0x0A010203, TimePasses 3]"

lemma netmasks_valid: "isValidNetmask 0xFF000000" "isValidNetmask 0xFFFF0000"
proof -
  have "make_netmask 8 = 0xFF000000" "make_netmask 16 = 0xFFFF0000" by (simp_all add: make_netmask_def)
  then show "isValidNetmask 0xFF000000" "isValidNetmask 0xFFFF0000"
    unfolding isValidNetmask_iff by (metis numeral_le_iff semiring_norm(68) zero_le_numeral rel_simps)+
qed

lemma example_initialized:
  "rt_initialize (empty_routing_table empty_interface_table [] (\<lambda>_. True) False) =
   Inr (empty_routing_table empty_interface_table [] (\<lambda>_. True) False)"
  by (simp add: rt_initialize_def configureRouterId_def empty_routing_table_def ipv4_isUnspecified_def
      updateNetmaskRoutes_def erase_routes_def interfaces_def empty_interface_table_def)

lemma upper_bound_short:
  "upper_bound lt r [] = 0" "upper_bound lt r [x] = (if lt r x then 0 else 1)"
  by (simp_all add: upper_bound_def bisect.simps)

lemma add_proper_route:
  assumes "isValidNetmask (r_netmask r)" "r_netmask r \<noteq> 0" "r_dest r AND r_netmask r \<noteq> 0"
    "r_dest r AND NOT (r_netmask r) = 0" "r_interface r = Some i"
  shows "addRoute r t = Inr (rt_emit (RouteAdded (r_id r)) (invalidateCache (insert_route (r\<lparr>r_inTable := True\<rparr>) t)))"
  using assms by (simp add: addRoute_def internalAddRoute_def ipv4_isUnspecified_def)

lemma first_lookup:
  "routingCache t d = None \<Longrightarrow> rt_step (FindRoute d) t = Inr (snd (search_route d t))"
  by (simp add: findBestMatchingRoute_def split_beta)

lemma search_route_routes [simp]:
  "routes (snd (search_route d t)) = routes t" "rt_now (snd (search_route d t)) = rt_now t"
  "useAdminDist (snd (search_route d t)) = useAdminDist t" "rt_nextId (snd (search_route d t)) = rt_nextId t"
  by (simp_all add: search_route_def Let_def)

lemma emptied_cache [simp]: "routingCache (rt_emit s t) = routingCache t" "routingCache (invalidateCache t) = (\<lambda>_. None)"
  by (simp_all add: rt_emit_def invalidateCache_def)

lemma example_routes_run:
  "\<exists>t. efold rt_step example_routes (empty_routing_table empty_interface_table [] (\<lambda>_. True) False) = Inr t \<and>
     map r_netmask (routes t) = [0xFFFF0000, 0xFF000000] \<and> map r_dest (routes t) = [0x0A010000, 0x0A000000] \<and>
     map r_expiryTime (routes t) = [5, 0] \<and> rt_now t = 3"
proof -
  let ?e = "empty_routing_table empty_interface_table [] (\<lambda>_. True) False"
  let ?r1 = "(new_Ipv4Route 0)\<lparr>r_dest := 0x0A000000, r_netmask := 0xFF000000, r_interface := Some 100\<rparr>"
  let ?r2 = "(new_Ipv4Route 0)\<lparr>r_dest := 0x0A010000, r_netmask := 0xFFFF0000, r_interface := Some 101, r_expiryTime := 5\<rparr>"
  let ?d = "0x0A010203 :: u32"
  obtain t1 where t1: "rt_step (AddRoute ?r1) ?e = Inr t1" "routingCache t1 = (\<lambda>_. None)" "rt_now t1 = 0" "\<not> useAdminDist t1"
      "map r_netmask (routes t1) = [0xFF000000]" "map r_dest (routes t1) = [0x0A000000]" "map r_expiryTime (routes t1) = [0]"
    by (simp add: add_proper_route netmasks_valid new_Ipv4Route_def insert_route_def upper_bound_short insert_at_def
        empty_routing_table_def)
  define t2 where "t2 = snd (search_route ?d t1)"
  have t2: "rt_step (FindRoute ?d) t1 = Inr t2" using first_lookup t1(2) by (simp add: t2_def)
  obtain r where r: "routes t1 = [r]" "r_netmask r = 0xFF000000" "r_dest r = 0x0A000000" "r_expiryTime r = 0"
    using t1(5-7) by (auto simp: map_eq_Cons_conv)
  obtain t3 where t3: "rt_step (AddRoute ?r2) t2 = Inr t3" "routingCache t3 = (\<lambda>_. None)" "rt_now t3 = 0"
      "map r_netmask (routes t3) = [0xFFFF0000, 0xFF000000]" "map r_dest (routes t3) = [0x0A010000, 0x0A000000]"
      "map r_expiryTime (routes t3) = [5, 0]"
    using r t1(3,4) by (simp add: add_proper_route netmasks_valid new_Ipv4Route_def insert_route_def upper_bound_short insert_at_def
        t2_def routeLessThan_def)
  define t4 where "t4 = snd (search_route ?d t3)"
  have t4: "rt_step (FindRoute ?d) t3 = Inr t4" using first_lookup t3(2) by (simp add: t4_def)
  have "efold rt_step example_routes ?e = Inr (t4\<lparr>rt_now := rt_now t4 + int 3\<rparr>)"
    using t1(1) t2 t3(1) t4 unfolding example_routes_def efold.simps by (simp only: ebind_simps rt_step.simps)
  then show ?thesis
    using t3(3-6) by (intro exI [of _ "t4\<lparr>rt_now := rt_now t4 + int 3\<rparr>"] conjI) (simp_all add: t4_def)
qed

lemma lookup_is_longest_prefix_match_witness:
  "\<exists>t res t1. efold rt_step example_routes (empty_routing_table empty_interface_table [] (\<lambda>_. True) False) = Inr t \<and>
     findBestMatchingRoute 0x0A010203 t = Inr (Some res, t1) \<and> r_netmask res = 0xFFFF0000"
proof -
  let ?e = "empty_routing_table empty_interface_table [] (\<lambda>_. True) False"
  obtain t where t: "efold rt_step example_routes ?e = Inr t"
      and m: "map r_netmask (routes t) = [0xFFFF0000, 0xFF000000]" "map r_dest (routes t) = [0x0A010000, 0x0A000000]"
        "map r_expiryTime (routes t) = [5, 0]" "rt_now t = 3"
    using example_routes_run by (elim exE conjE)
  obtain res t1 where r: "findBestMatchingRoute 0x0A010203 t = Inr (res, t1)"
      "longest_prefix_match (rt_now t) False (routes t) 0x0A010203 res"
    using lookup_is_longest_prefix_match [OF example_initialized t, of "0x0A010203"] by auto
  obtain a b where ab: "routes t = [a, b]" using m(1) by (auto simp: map_eq_Cons_conv)
  have "r_netmask b < r_netmask a" using m ab by simp
  then have "\<not> preferred False b a"
    using m ab netmask_less_iff [of "r_netmask b" "r_netmask a"] netmasks_valid by (auto simp: preferred_def)
  then have "res = Some a"
    using r(2) m ab by (auto simp: longest_prefix_match_def maskedAddrAreEqual_def r_isValid_def Let_def split: option.splits)
  then show ?thesis using t r(1) m(1) ab by auto
qed

section \<open>Broadcast addresses\<close>

lemma collected_broadcast_addresses:
  "collect_broadcast_addresses ies = Inr as \<Longrightarrow> d \<in> set as \<longleftrightarrow>
   d \<noteq> 0 \<and> (\<exists>ie \<in> set ies. if_broadcast ie \<and>
     (\<exists>x. ipv4Data ie = Some x \<and> d = makeBroadcastAddress (inetAddr x) (inetMask x)))"
proof (induction ies arbitrary: as)
  case (Cons ie ies)
  show ?case
  proof (cases "if_broadcast ie")
    case False
    then show ?thesis using Cons by simp
  next
    case True
    then obtain x as' where x: "ipv4Data ie = Some x" and r: "collect_broadcast_addresses ies = Inr as'"
        and e: "as = (let a = makeBroadcastAddress (inetAddr x) (inetMask x) in if ipv4_isUnspecified a then as' else a # as')"
      using Cons.prems by (auto simp: getIpv4InterfaceData_def ebind_Inr_iff Let_def split: option.splits)
    show ?thesis using Cons.IH [OF r] x True e by (auto simp: Let_def ipv4_isUnspecified_def)
  qed
qed simp

text \<open>
  C13. The set of broadcast addresses, collected once and kept until a signal of the interfaces arrives, is never stale: an
  address counts as a local broadcast address exactly if it is the broadcast address that a broadcast
  interface has now, by its address and netmask.
\<close>
theorem broadcast_addresses_current:
  assumes "rt_initialize (empty_routing_table ift par matcher u) = Inr t0"
    and "efold rt_step ops t0 = Inr t"
    and "u \<longrightarrow> (\<forall>dist i. ChangeRoute (SetAdminDist dist) i \<notin> set ops)"
    and "isLocalBroadcastAddress d t = Inr (b, t1)"
  shows "b \<longleftrightarrow> d \<noteq> 0 \<and> (\<exists>ie \<in> set (interfaces (rt_ift t)). if_broadcast ie \<and>
     (\<exists>x. ipv4Data ie = Some x \<and> d = makeBroadcastAddress (inetAddr x) (inetMask x)))"
proof -
  have inv: "rt_inv u t" using rt_run_inv [OF assms(2) initialized_inv [OF assms(1)]] assms(3) by blast
  obtain as where "collect_broadcast_addresses (interfaces (rt_ift t)) = Inr as" "b = (d \<in> set as)"
    using broadcast_inv(2) [OF inv assms(4)] by blast
  then show ?thesis using collected_broadcast_addresses by simp
qed

lemma broadcast_addresses_current_witness:
  "\<exists>t t1 b. rt_initialize (empty_routing_table
       \<lparr>idToInterface = [Some (example_interface ''eth0''\<lparr>interfaceId := 100,
          ipv4Data := Some (new_interface_data\<lparr>inetAddr := 0x0A000001, inetMask := 0xFF000000\<rparr>)\<rparr>)],
        tmpNumInterfaces = -1, tmpInterfaceList = None\<rparr> [] (\<lambda>_. False) False) = Inr t \<and>
     isLocalBroadcastAddress 0x0AFFFFFF t = Inr (b, t1) \<and> b"
proof -
  let ?ie = "example_interface ''eth0''\<lparr>interfaceId := 100,
          ipv4Data := Some (new_interface_data\<lparr>inetAddr := 0x0A000001, inetMask := 0xFF000000\<rparr>)\<rparr>"
  let ?ift = "\<lparr>idToInterface = [Some ?ie], tmpNumInterfaces = -1, tmpInterfaceList = None\<rparr>"
  let ?t = "empty_routing_table ?ift [] (\<lambda>_. False) False"
  have i: "rt_initialize ?t = Inr ?t"
    by (simp add: rt_initialize_def configureRouterId_def empty_routing_table_def ipv4_isUnspecified_def
        updateNetmaskRoutes_def erase_routes_def interfaces_def add_netmask_route_def)
  have if1: "interfaces (rt_ift ?t) = [?ie]" by (simp add: empty_routing_table_def interfaces_def)
  obtain b t1 where b: "isLocalBroadcastAddress 0x0AFFFFFF ?t = Inr (b, t1)"
    by (simp add: isLocalBroadcastAddress_def if1 getIpv4InterfaceData_def Let_def empty_routing_table_def
        interfaces_def example_interface_def)
  have "efold rt_step [] ?t = Inr ?t" by simp
  from broadcast_addresses_current [OF i this _ b] have "b"
    unfolding if1 by (simp add: example_interface_def makeBroadcastAddress_def)
  then show ?thesis using i b by blast
qed

text \<open>
  An interface has the netmask of all ones until it is configured otherwise; by it the interface's own address is its
  broadcast address.
\<close>

lemma own_address_is_broadcast: "makeBroadcastAddress a 0xFFFFFFFF = a"
proof -
  have "NOT (0xFFFFFFFF :: u32) = 0" by simp
  then show ?thesis unfolding makeBroadcastAddress_def by (simp only: or.right_neutral)
qed

text \<open>
  Changing the administrative distance of a route leaves it at its place in the vector, whatever the distance is: where the
  table uses administrative distances the lookup then may return a route that is not the best one.
\<close>

lemma map_update_same_id:
  "find (\<lambda>x. r_id x = i) rs = Some r \<Longrightarrow> r_id r1 = r_id r \<Longrightarrow>
   map r_id (update_first (\<lambda>x. r_id x = i) r1 rs) = map r_id rs"
  by (induction rs) (auto split: if_splits)

lemma admin_dist_change_not_sorted_in:
  assumes "change_route (SetAdminDist dist) i t = Inr t'"
  shows "map r_id (routes t') = map r_id (routes t)"
proof (cases "find_route i t")
  case None
  then show ?thesis using assms by (simp add: change_route_def)
next
  case (Some r)
  then have "map r_id (update_first (\<lambda>x. r_id x = i) (r\<lparr>r_adminDist := dist\<rparr>) (routes t)) = map r_id (routes t)"
    "map r_id (update_first (\<lambda>x. r_id x = i) r (routes t)) = map r_id (routes t)"
    by (simp_all add: find_route_def map_update_same_id)
  then show ?thesis using assms Some by (auto simp: change_route_def routeChanged_def Let_def split: if_splits)
qed

end
