(* ===== verification/Ipv4Frag.thy ===== *)
theory Ipv4Frag
  imports ChunkBuffer MacAddr Ipv4Iface "HOL-Library.Product_Lexorder"
begin

text \<open>
  Datagrams of IPv4, their fragmentation and their reassembly: \<open>Ipv4Header.msg\<close>, the loop of
  \<open>Ipv4::fragmentAndSend\<close> in \<open>inet/networklayer/ipv4/Ipv4.cc\<close>, and \<open>Ipv4FragBuf.cc\<close>.

  A packet is its header, the bytes behind the header and its tags; the header chunk is as long as its field
  \<open>headerLength\<close> says, which \<open>encapsulate\<close> and the deserialiser ensure. Lengths (the type \<open>B\<close>) are integers, the
  fragment offset and the identification are 16 bits wide as in the code. The names of the packets are not modelled.
  The checksum of a header is computed by a parameter.

  The properties are in the theory \<open>Ipv4FragProps\<close>: the fragments of a datagram, fragmented again on the way or not, give back the
  datagram in whatever order and however often they arrive, when the last missing one comes and not before.
\<close>

section \<open>Headers and packets\<close>

datatype CrcMode =
  CRC_MODE_UNDEFINED | CRC_DISABLED | CRC_DECLARED_CORRECT | CRC_DECLARED_INCORRECT | CRC_COMPUTED

text \<open>An option is its type and its length in bytes.\<close>

type_synonym TlvOption = "int \<times> int"

text \<open>The tag of the recorded route, which \<open>setTraceRouteTag\<close> puts into the header.\<close>

record RouteTrace =
  tr_src :: Ipv4Address
  tr_dst :: "Ipv4Address option"
  tr_route :: "Ipv4Address list"
  tr_flags :: "int list"
  tr_flagSrc :: int
  tr_flagDst :: int

record Ipv4Header =
  headerLength :: int
  typeOfService :: u16
  totalLengthField :: int
  identification :: u16
  moreFragments :: bool
  dontFragment :: bool
  fragmentOffset :: u16
  timeToLive :: int
  protocolId :: int
  ip_crc :: u16
  ip_crcMode :: CrcMode
  srcAddress :: Ipv4Address
  destAddress :: Ipv4Address
  ip_options :: "TlvOption list"
  ip_isCorrect :: bool
  routeTrace :: "RouteTrace option"

definition IPv4_MIN_HEADER_LENGTH :: int where
  "IPv4_MIN_HEADER_LENGTH = 20"

definition IPv4_MAX_HEADER_LENGTH :: int where
  "IPv4_MAX_HEADER_LENGTH = 60"

definition new_Ipv4Header :: Ipv4Header where
  "new_Ipv4Header = \<lparr>headerLength = IPv4_MIN_HEADER_LENGTH, typeOfService = 0, totalLengthField = 0, identification = 0,
     moreFragments = False, dontFragment = False, fragmentOffset = 0, timeToLive = 0, protocolId = 59, ip_crc = 0,
     ip_crcMode = CRC_MODE_UNDEFINED, srcAddress = 0, destAddress = 0, ip_options = [], ip_isCorrect = True,
     routeTrace = None\<rparr>"

definition getDscp :: "Ipv4Header \<Rightarrow> u16" where
  "getDscp h = drop_bit 2 (typeOfService h AND 0xfc)"

definition setDscp :: "u16 \<Rightarrow> Ipv4Header \<Rightarrow> Ipv4Header" where
  "setDscp dscp h = h\<lparr>typeOfService := push_bit 2 (dscp AND 0x3f) OR (typeOfService h AND 0x03)\<rparr>"

definition getEcn :: "Ipv4Header \<Rightarrow> u16" where
  "getEcn h = typeOfService h AND 0x03"

definition setEcn :: "u16 \<Rightarrow> Ipv4Header \<Rightarrow> Ipv4Header" where
  "setEcn ecn h = h\<lparr>typeOfService := (typeOfService h AND 0xfc) OR (ecn AND 0x03)\<rparr>"

definition isFragment :: "Ipv4Header \<Rightarrow> bool" where
  "isFragment h = (moreFragments h \<or> fragmentOffset h \<noteq> 0)"

text \<open>The tags that the module reads or writes; a tag that is absent is \<open>None\<close>.\<close>

record Tags =
  interfaceInd :: "int option"
  interfaceReq :: "int option"
  nextHopAddressReq :: "Ipv4Address option"
  macAddressReq :: "MacAddress option"
  multicastReq :: "bool option"
  socketInd :: "int option"
  tosInd :: "u16 option"
  dscpInd :: "u16 option"
  ecnInd :: "u16 option"
  hopLimitInd :: "int option"
  l3AddressInd :: "(Ipv4Address \<times> Ipv4Address) option"
  dispatchProtocolReq :: "int option"
  routeTraceInd :: "RouteTrace option"

definition no_tags :: Tags where
  "no_tags = \<lparr>interfaceInd = None, interfaceReq = None, nextHopAddressReq = None, macAddressReq = None,
     multicastReq = None, socketInd = None, tosInd = None, dscpInd = None, ecnInd = None, hopLimitInd = None,
     l3AddressInd = None, dispatchProtocolReq = None, routeTraceInd = None\<rparr>"

record Packet =
  ipHeader :: Ipv4Header
  payload :: "u8 list"
  tags :: Tags
  bitError :: bool

definition getDataLength :: "Packet \<Rightarrow> int" where
  "getDataLength p = headerLength (ipHeader p) + int (length (payload p))"

text \<open>Bytes behind the header; asking for more than there are is an error of the packet.\<close>

definition peek_payload :: "int \<Rightarrow> int \<Rightarrow> Packet \<Rightarrow> err + u8 list" where
  "peek_payload offset len p =
     (if offset + len \<le> int (length (payload p)) then Inr (take (nat len) (drop (nat offset) (payload p)))
      else Inl (RuntimeError ''Not enough data''))"

section \<open>Fragmentation\<close>

text \<open>The checksum over the serialised header is the parameter \<open>chk\<close>.\<close>

type_synonym header_checksum = "Ipv4Header \<Rightarrow> u16"

definition setComputedCrc :: "header_checksum \<Rightarrow> CrcMode \<Rightarrow> Ipv4Header \<Rightarrow> err + Ipv4Header" where
  "setComputedCrc chk mode h = ebind (assert_that (mode = CRC_COMPUTED)) (\<lambda>_.
     Inr (h\<lparr>ip_crc := chk (h\<lparr>ip_crc := 0\<rparr>)\<rparr>))"

text \<open>The body of the loop of \<open>fragmentAndSend\<close>: the fragment at \<open>offset\<close>.\<close>

definition make_fragment :: "header_checksum \<Rightarrow> CrcMode \<Rightarrow> int \<Rightarrow> Packet \<Rightarrow> int \<Rightarrow> Packet" where
  "make_fragment chk mode fragmentLength p offset =
     (let payloadLength = int (length (payload p));
          lastFragment = (offset + fragmentLength \<ge> payloadLength);
          thisFragmentLength = (if lastFragment then payloadLength - offset else fragmentLength);
          hdr = ipHeader p;
          fraghdr = hdr\<lparr>moreFragments := (if \<not> lastFragment then True else moreFragments hdr),
            fragmentOffset := word_of_int (uint (fragmentOffset hdr) + offset),
            totalLengthField := headerLength hdr + thisFragmentLength\<rparr>
      in p\<lparr>ipHeader := (if mode = CRC_COMPUTED then fraghdr\<lparr>ip_crc := chk (fraghdr\<lparr>ip_crc := 0\<rparr>)\<rparr> else fraghdr),
           payload := take (nat thisFragmentLength) (drop (nat offset) (payload p)), bitError := False\<rparr>)"

text \<open>The loop; \<open>fragmentLength\<close> is positive when it is entered.\<close>

function fragment_loop :: "header_checksum \<Rightarrow> CrcMode \<Rightarrow> int \<Rightarrow> Packet \<Rightarrow> int \<Rightarrow> Packet list" where
  "fragment_loop chk mode fragmentLength p offset =
     (if 0 < fragmentLength \<and> offset < int (length (payload p))
      then let fragment = make_fragment chk mode fragmentLength p offset
           in fragment # fragment_loop chk mode fragmentLength p
                (if offset + fragmentLength \<ge> int (length (payload p)) then int (length (payload p))
                 else offset + fragmentLength)
      else [])"
  by pat_completeness auto

termination
  by (relation "measure (\<lambda>(chk, mode, fragmentLength, p, offset). nat (int (length (payload p)) - offset))") auto

declare fragment_loop.simps [simp del]

text \<open>
  The division of the code rounds towards zero; a negative quotient is as useless as a zero one and is
  refused in the same way.
\<close>

definition fragment_datagram :: "header_checksum \<Rightarrow> CrcMode \<Rightarrow> int \<Rightarrow> Packet \<Rightarrow> err + Packet list" where
  "fragment_datagram chk mode mtu p =
     (let fragmentLength = ((mtu - headerLength (ipHeader p)) div 8) * 8
      in if fragmentLength \<le> 0 then Inl (RuntimeError ''Cannot fragment datagram: MTU too small for header size'')
         else Inr (fragment_loop chk mode fragmentLength p 0))"

section \<open>The reassembly buffers\<close>

type_synonym frag_key = "u16 \<times> Ipv4Address \<times> Ipv4Address"

definition frag_key :: "Packet \<Rightarrow> frag_key" where
  "frag_key p = (identification (ipHeader p), srcAddress (ipHeader p), destAddress (ipHeader p))"

record DatagramBuffer =
  db_buf :: "u8 reassembly_buffer"
  db_packet :: "Packet option"
  db_lastupdate :: simtime

definition new_DatagramBuffer :: DatagramBuffer where
  "new_DatagramBuffer = \<lparr>db_buf = \<lparr>ra_regions = [], expectedLength = -1\<rparr>, db_packet = None, db_lastupdate = 0\<rparr>"

text \<open>The map of the buffers, in the order of its keys.\<close>

type_synonym Ipv4FragBuf = "(frag_key \<times> DatagramBuffer) list"

definition add_to_buffer ::
  "u8 can_insert \<Rightarrow> u8 can_insert \<Rightarrow> Packet \<Rightarrow> DatagramBuffer \<Rightarrow> err + DatagramBuffer" where
  "add_to_buffer cb cf p cur =
     (let h = ipHeader p; bytes = totalLengthField h - headerLength h; offset = uint (fragmentOffset h) in
      ebind (assert_that (totalLengthField h > headerLength h)) (\<lambda>_.
      ebind (peek_payload 0 bytes p) (\<lambda>dat.
      ebind (ChunkBuffer.replace cb cf offset dat (ra_regions (db_buf cur))) (\<lambda>rs.
        Inr (cur\<lparr>db_buf := \<lparr>ra_regions = rs,
                  expectedLength = (if \<not> moreFragments h then offset + bytes else expectedLength (db_buf cur))\<rparr>,
                 db_packet := (if offset = 0 \<or> db_packet cur = None then Some p else db_packet cur)\<rparr>)))))"

definition complete_datagram :: "Packet \<Rightarrow> u8 list \<Rightarrow> Packet" where
  "complete_datagram pk dat =
     (let h = ipHeader pk
      in pk\<lparr>ipHeader := h\<lparr>totalLengthField := headerLength h + int (length dat), fragmentOffset := 0,
                         moreFragments := False\<rparr>, payload := dat\<rparr>)"

definition addFragment ::
  "u8 can_insert \<Rightarrow> u8 can_insert \<Rightarrow> simtime \<Rightarrow> Packet \<Rightarrow> Ipv4FragBuf \<Rightarrow> err + Packet option \<times> Ipv4FragBuf" where
  "addFragment cb cf now p bufs =
     (let key = frag_key p;
          cur = (case map_of bufs key of None \<Rightarrow> new_DatagramBuffer | Some b \<Rightarrow> b)
      in ebind (add_to_buffer cb cf p cur) (\<lambda>cur1.
           if isComplete (db_buf cur1) then
             case db_packet cur1 of
               None \<Rightarrow> Inl NullPointer
             | Some pk \<Rightarrow> ebind (getReassembledData (db_buf cur1)) (\<lambda>dat.
                 Inr (Some (complete_datagram pk dat), filter (\<lambda>(k, _). k \<noteq> key) bufs))
           else Inr (None, map_set key (cur1\<lparr>db_lastupdate := now\<rparr>) bufs)))"

text \<open>The packets of the purged buffers, for which an error is sent, and the buffers that stay.\<close>

definition purgeStaleFragments :: "simtime \<Rightarrow> Ipv4FragBuf \<Rightarrow> Packet list \<times> Ipv4FragBuf" where
  "purgeStaleFragments limit bufs =
     (let stale = filter (\<lambda>(_, b). db_lastupdate b < limit) bufs
      in (concat (map (\<lambda>(_, b). case db_packet b of None \<Rightarrow> [] | Some pk \<Rightarrow> [pk]) stale),
          filter (\<lambda>(_, b). \<not> db_lastupdate b < limit) bufs))"

definition frag_flush :: "Ipv4FragBuf \<Rightarrow> Ipv4FragBuf" where
  "frag_flush bufs = []"

end
