(* ===== verification/Arp.thy ===== *)
theory Arp
  imports Ipv4Routes MacAddr "HOL-Library.Product_Lexorder"
begin

text \<open>
  Address resolution, \<open>inet/networklayer/arp/ipv4/Arp.cc\<close>: the cache, the requests with their timers, the reception of
  ARP packets after RFC 826 and the proxy.

  A pointer to an interface is its identifier; a pointer to a cache entry is its address, under which the map holds
  it. A timer is the time at which it expires. The packets that the module sends and its signals are events in
  the order in which they happen. The routing table is threaded through the operations that ask it, since its
  cache changes. The pattern \<open>proxyArpInterfaces\<close> is a predicate on names (\<open>cPatternMatcher\<close> is not modelled). The
  display and the log are left out.
\<close>

section \<open>Packets and the cache\<close>

datatype ArpOpcode = ARP_REQUEST | ARP_REPLY | ARP_RARP_REQUEST | ARP_RARP_REPLY | ARP_OTHER int

record ArpPacket =
  ar_opcode :: ArpOpcode
  ar_srcMacAddress :: MacAddress
  ar_destMacAddress :: MacAddress
  ar_srcIpAddress :: Ipv4Address
  ar_destIpAddress :: Ipv4Address

abbreviation UNSPECIFIED_MAC :: MacAddress where
  "UNSPECIFIED_MAC \<equiv> MacAddress 0"

record ArpCacheEntry =
  ae_ie :: int
  ae_pending :: bool
  ae_macAddress :: MacAddress
  ae_lastUpdate :: simtime
  ae_numRetries :: int
  ae_timer :: "simtime option"
  ae_ipv4Address :: Ipv4Address

text \<open>
  The signals, with the address, the hardware address and the interface of the notification, and the packets sent, with the
  interface, and the source and destination of the hardware that the tags ask for.
\<close>

datatype arp_event =
    ResolutionInitiated Ipv4Address int | ResolutionCompleted Ipv4Address MacAddress int
  | ResolutionFailed Ipv4Address int
  | SendArp int "MacAddress option" MacAddress ArpPacket

record Arp =
  arp_now :: simtime
  retryTimeout :: simtime
  retryCount :: int
  cacheTimeout :: simtime
  proxyArpInterfaces :: "string \<Rightarrow> bool"
  numResolutions :: nat
  numFailedResolutions :: nat
  numRequestsSent :: nat
  numRepliesSent :: nat
  arpCache :: "(Ipv4Address \<times> ArpCacheEntry) list"
  arp_events :: "arp_event list"

definition new_Arp :: "simtime \<Rightarrow> int \<Rightarrow> simtime \<Rightarrow> (string \<Rightarrow> bool) \<Rightarrow> Arp" where
  "new_Arp timeout retries cache proxy = \<lparr>arp_now = 0, retryTimeout = timeout, retryCount = retries, cacheTimeout = cache,
     proxyArpInterfaces = proxy, numResolutions = 0, numFailedResolutions = 0, numRequestsSent = 0, numRepliesSent = 0,
     arpCache = [], arp_events = []\<rparr>"

definition arp_emit :: "arp_event \<Rightarrow> Arp \<Rightarrow> Arp" where
  "arp_emit e a = a\<lparr>arp_events := arp_events a @ [e]\<rparr>"

definition arp_find :: "Ipv4Address \<Rightarrow> Arp \<Rightarrow> ArpCacheEntry option" where
  "arp_find addr a = map_of (arpCache a) addr"

definition arp_put :: "Ipv4Address \<Rightarrow> ArpCacheEntry \<Rightarrow> Arp \<Rightarrow> Arp" where
  "arp_put addr e a = a\<lparr>arpCache := map_set addr e (arpCache a)\<rparr>"

definition arp_erase :: "Ipv4Address \<Rightarrow> Arp \<Rightarrow> Arp" where
  "arp_erase addr a = a\<lparr>arpCache := filter (\<lambda>(k, _). k \<noteq> addr) (arpCache a)\<rparr>"

definition new_entry :: "Ipv4Address \<Rightarrow> int \<Rightarrow> ArpCacheEntry" where
  "new_entry addr i = \<lparr>ae_ie = i, ae_pending = False, ae_macAddress = UNSPECIFIED_MAC, ae_lastUpdate = 0,
     ae_numRetries = 0, ae_timer = None, ae_ipv4Address = addr\<rparr>"

definition arp_flush :: "Arp \<Rightarrow> Arp" where
  "arp_flush a = a\<lparr>arpCache := []\<rparr>"

definition arp_start :: "Arp \<Rightarrow> err + Arp" where
  "arp_start a = ebind (assert_that (arpCache a = [])) (\<lambda>_. Inr a)"

section \<open>Requests\<close>

text \<open>Following the pointer to an interface.\<close>

definition deref_iface :: "int \<Rightarrow> Ipv4RoutingTable \<Rightarrow> err + NetworkInterface" where
  "deref_iface i t = (case findInterfaceById i (rt_ift t) of None \<Rightarrow> Inl NullPointer | Some ie \<Rightarrow> Inr ie)"

definition sendArpRequest :: "int \<Rightarrow> Ipv4Address \<Rightarrow> Ipv4RoutingTable \<Rightarrow> Arp \<Rightarrow> err + Arp" where
  "sendArpRequest i ipAddress t a =
     ebind (deref_iface i t) (\<lambda>ie. ebind (getIpv4InterfaceData ie) (\<lambda>d.
     ebind (assert_that (\<not> isUnspecified (if_macAddr ie))) (\<lambda>_.
     ebind (assert_that (\<not> ipv4_isUnspecified (inetAddr d))) (\<lambda>_.
       let arp = \<lparr>ar_opcode = ARP_REQUEST, ar_srcMacAddress = if_macAddr ie, ar_destMacAddress = UNSPECIFIED_MAC,
                  ar_srcIpAddress = inetAddr d, ar_destIpAddress = ipAddress\<rparr>
       in Inr ((arp_emit (SendArp i None BROADCAST_ADDRESS arp) a)\<lparr>numRequestsSent := numRequestsSent a + 1\<rparr>)))))"

definition initiateArpResolution ::
  "Ipv4Address \<Rightarrow> ArpCacheEntry \<Rightarrow> Ipv4RoutingTable \<Rightarrow> Arp \<Rightarrow> err + Arp" where
  "initiateArpResolution nextHopAddr entry t a =
     ebind (sendArpRequest (ae_ie entry) nextHopAddr t a) (\<lambda>a1.
       let entry1 = entry\<lparr>ae_pending := True, ae_numRetries := 0, ae_lastUpdate := 0, ae_macAddress := UNSPECIFIED_MAC,
                          ae_ipv4Address := nextHopAddr, ae_timer := Some (arp_now a + retryTimeout a)\<rparr>
       in Inr (arp_emit (ResolutionInitiated nextHopAddr (ae_ie entry1))
            ((arp_put nextHopAddr entry1 a1)\<lparr>numResolutions := numResolutions a + 1\<rparr>)))"

definition resolveL3Address ::
  "Ipv4Address \<Rightarrow> int \<Rightarrow> Ipv4RoutingTable \<Rightarrow> Arp \<Rightarrow> err + MacAddress \<times> Arp" where
  "resolveL3Address addr i t a =
     (case arp_find addr a of
        None \<Rightarrow> ebind (initiateArpResolution addr (new_entry addr i) t a) (\<lambda>a1. Inr (UNSPECIFIED_MAC, a1))
      | Some entry \<Rightarrow>
          if ae_pending entry then Inr (UNSPECIFIED_MAC, a)
          else if ae_lastUpdate entry + cacheTimeout a \<ge> arp_now a then Inr (ae_macAddress entry, a)
          else ebind (initiateArpResolution addr (entry\<lparr>ae_ie := i\<rparr>) t a) (\<lambda>a1. Inr (UNSPECIFIED_MAC, a1)))"

text \<open>The first address of the map whose entry has the hardware address and is not too old.\<close>

definition getL3AddressFor :: "MacAddress \<Rightarrow> Arp \<Rightarrow> Ipv4Address" where
  "getL3AddressFor macAddr a =
     (if isUnspecified macAddr then 0
      else case find (\<lambda>(_, e). ae_macAddress e = macAddr \<and> ae_lastUpdate e + cacheTimeout a \<ge> arp_now a) (arpCache a) of
             None \<Rightarrow> 0 | Some (addr, _) \<Rightarrow> addr)"

text \<open>The timer of the entry at \<open>addr\<close> expires.\<close>

definition requestTimedOut :: "Ipv4Address \<Rightarrow> Ipv4RoutingTable \<Rightarrow> Arp \<Rightarrow> err + Arp" where
  "requestTimedOut addr t a =
     (case arp_find addr a of
        None \<Rightarrow> Inl NullPointer
      | Some entry \<Rightarrow>
          let entry1 = entry\<lparr>ae_numRetries := ae_numRetries entry + 1\<rparr> in
          if ae_numRetries entry1 < retryCount a then
            ebind (sendArpRequest (ae_ie entry1) (ae_ipv4Address entry1) t a) (\<lambda>a1.
              Inr (arp_put addr (entry1\<lparr>ae_timer := Some (arp_now a + retryTimeout a)\<rparr>) a1))
          else
            Inr ((arp_erase (ae_ipv4Address entry1)
                   (arp_emit (ResolutionFailed (ae_ipv4Address entry1) (ae_ie entry1)) a))
                 \<lparr>numFailedResolutions := numFailedResolutions a + 1\<rparr>))"

section \<open>Reception\<close>

definition addressRecognized ::
  "Ipv4Address \<Rightarrow> NetworkInterface \<Rightarrow> Ipv4RoutingTable \<Rightarrow> Arp \<Rightarrow> err + bool \<times> Ipv4RoutingTable" where
  "addressRecognized destAddr ie t a =
     (if rt_isLocalAddress destAddr t then Inr (True, t)
      else if proxyArpInterfaces a (interfaceName ie) then
        ebind (getInterfaceForDestAddr destAddr t) (\<lambda>(rtie, t1).
          Inr (rtie \<noteq> None \<and> rtie \<noteq> Some (interfaceId ie), t1))
      else Inr (False, t))"

definition updateArpCache :: "Ipv4Address \<Rightarrow> ArpCacheEntry \<Rightarrow> MacAddress \<Rightarrow> Arp \<Rightarrow> Arp" where
  "updateArpCache addr entry macAddress a =
     (let entry1 = (if ae_pending entry then entry\<lparr>ae_pending := False, ae_timer := None, ae_numRetries := 0\<rparr> else entry);
          entry2 = entry1\<lparr>ae_macAddress := macAddress, ae_lastUpdate := arp_now a\<rparr>
      in arp_emit (ResolutionCompleted (ae_ipv4Address entry2) macAddress (ae_ie entry2)) (arp_put addr entry2 a))"

definition resolveMacAddressForArpReply :: "NetworkInterface \<Rightarrow> ArpPacket \<Rightarrow> MacAddress" where
  "resolveMacAddressForArpReply ie arp = if_macAddr ie"

definition sendArpReply :: "NetworkInterface \<Rightarrow> ArpPacket \<Rightarrow> Arp \<Rightarrow> err + Arp" where
  "sendArpReply ie arp a =
     (let myMACAddress = resolveMacAddressForArpReply ie arp in
      if isUnspecified myMACAddress then Inr a
      else ebind (getIpv4InterfaceData ie) (\<lambda>_.
        Inr ((arp_emit (SendArp (interfaceId ie) None (ar_srcMacAddress arp)
              \<lparr>ar_opcode = ARP_REPLY, ar_srcMacAddress = myMACAddress, ar_destMacAddress = ar_srcMacAddress arp,
               ar_srcIpAddress = ar_destIpAddress arp, ar_destIpAddress = ar_srcIpAddress arp\<rparr>) a)
           \<lparr>numRepliesSent := numRepliesSent a + 1\<rparr>)))"

definition processArpPacket ::
  "int \<Rightarrow> ArpPacket \<Rightarrow> Ipv4RoutingTable \<Rightarrow> Arp \<Rightarrow> err + Arp \<times> Ipv4RoutingTable" where
  "processArpPacket i arp t a =
     ebind (getInterfaceById i (rt_ift t)) (\<lambda>ie.
       let srcMacAddress = ar_srcMacAddress arp; srcIpAddress = ar_srcIpAddress arp in
       if isUnspecified srcMacAddress then Inl (RuntimeError ''wrong ARP packet: source MAC address is empty'')
       else if ipv4_isUnspecified srcIpAddress then Inl (RuntimeError ''wrong ARP packet: source IPv4 address is empty'')
       else
         let (mergeFlag, a1) = (case arp_find srcIpAddress a of
                None \<Rightarrow> (False, a) | Some entry \<Rightarrow> (True, updateArpCache srcIpAddress entry srcMacAddress a)) in
         ebind (addressRecognized (ar_destIpAddress arp) ie t a1) (\<lambda>(recognized, t1).
           if recognized then
             let a2 = (if \<not> mergeFlag
                       then updateArpCache srcIpAddress (new_entry srcIpAddress i) srcMacAddress a1 else a1) in
             (case ar_opcode arp of
                ARP_REQUEST \<Rightarrow> ebind (sendArpReply ie arp a2) (\<lambda>a3. Inr (a3, t1))
              | ARP_REPLY \<Rightarrow> Inr (a2, t1)
              | ARP_RARP_REQUEST \<Rightarrow> Inl (RuntimeError ''RARP request received: RARP is not supported'')
              | ARP_RARP_REPLY \<Rightarrow> Inl (RuntimeError ''RARP reply received: RARP is not supported'')
              | ARP_OTHER _ \<Rightarrow> Inl (RuntimeError ''Unsupported opcode in received ARP packet''))
           else Inr (a1, t1)))"

section \<open>Announcements and probes\<close>

text \<open>An entry that the map has already is not replaced by \<open>insert\<close>.\<close>

definition sendArpGratuitous :: "int \<Rightarrow> MacAddress \<Rightarrow> Ipv4Address \<Rightarrow> ArpOpcode \<Rightarrow> Arp \<Rightarrow> err + Arp" where
  "sendArpGratuitous i srcAddr ipAddr opCode a =
     ebind (assert_that (\<not> isUnspecified srcAddr)) (\<lambda>_. ebind (assert_that (\<not> ipv4_isUnspecified ipAddr)) (\<lambda>_.
       let arp = \<lparr>ar_opcode = opCode, ar_srcMacAddress = srcAddr, ar_destMacAddress = BROADCAST_ADDRESS,
                  ar_srcIpAddress = ipAddr, ar_destIpAddress = ipAddr\<rparr>;
           entry = (new_entry ipAddr i)\<lparr>ae_lastUpdate := arp_now a\<rparr>;
           a1 = (if arp_find ipAddr a = None then arp_put ipAddr entry a else a)
       in Inr (arp_emit (SendArp i (Some srcAddr) BROADCAST_ADDRESS arp) a1)))"

definition arp_probe :: "MacAddress \<Rightarrow> Ipv4Address \<Rightarrow> ArpPacket" where
  "arp_probe srcAddr probedAddr = \<lparr>ar_opcode = ARP_REQUEST, ar_srcMacAddress = srcAddr,
     ar_destMacAddress = UNSPECIFIED_MAC, ar_srcIpAddress = 0, ar_destIpAddress = probedAddr\<rparr>"

definition sendArpProbe :: "int \<Rightarrow> MacAddress \<Rightarrow> Ipv4Address \<Rightarrow> Arp \<Rightarrow> err + Arp" where
  "sendArpProbe i srcAddr probedAddr a =
     ebind (assert_that (\<not> isUnspecified srcAddr)) (\<lambda>_. ebind (assert_that (\<not> ipv4_isUnspecified probedAddr)) (\<lambda>_.
       Inr (arp_emit (SendArp i (Some srcAddr) BROADCAST_ADDRESS (arp_probe srcAddr probedAddr)) a)))"

end
