(* ===== verification/Ipv4.thy ===== *)
theory Ipv4
  imports Ipv4Frag Arp
begin

text \<open>
  The network layer of a node, \<open>inet/networklayer/ipv4/Ipv4.cc\<close>: reception, routing, forwarding, multicast,
  encapsulation, fragmentation, delivery and the queue of the datagrams that wait for an address resolution. The routing
  table (with the interface table), the ARP module and the reassembly buffers are parts of the state; a call
  of the code is a call of the definition that models it, and the signals of ARP reach \<open>receiveSignal\<close> in the order
  in which they are emitted.

  What leaves the module is recorded as events: packets to the interfaces and to the protocols above, dropped packets,
  calls of the ICMP module. Parameters: the checksum over a serialised header, the pattern of the interfaces to which
  directed broadcasts are forwarded, the netfilter hooks (functions of the kind of hook and the packet, which they may
  change), the reaction of multicast routing to \<open>ipv4NewMulticastSignal\<close>. Loops over \<open>ift->getInterface(i)\<close> are loops over
  the list of interfaces, by the property \<open>interface_positions_cached\<close>. The owner of a queued packet, the
  protocol of an interface, the display and the log are not modelled.
\<close>

section \<open>State\<close>

datatype PacketDropReason =
    DROP_UNSET | ADDRESS_RESOLUTION_FAILED | FORWARDING_DISABLED | HOP_LIMIT_REACHED | INCORRECTLY_RECEIVED
  | NO_INTERFACE_FOUND | NO_ROUTE_FOUND

datatype IcmpError = ICMP_PARAMETER_PROBLEM | ICMP_TIME_EXCEEDED | ICMP_DESTINATION_UNREACHABLE int

datatype HookType = PREROUTING | LOCALIN | FORWARD | POSTROUTING | LOCALOUT

datatype HookResult = ACCEPT | DROP | QUEUE | STOLEN

text \<open>A hook is known by its pointer.\<close>

record Hook =
  hk_id :: nat
  hk_call :: "HookType \<Rightarrow> Packet \<Rightarrow> HookResult \<times> Packet"

record SocketDescriptor =
  sd_socketId :: int
  sd_protocolId :: int
  sd_localAddress :: Ipv4Address
  sd_remoteAddress :: Ipv4Address

datatype ip_event =
    ToNIC Packet | ToUpper Packet | Dropped PacketDropReason Packet | SendIcmpError Packet int IcmpError
  | SendPtb Packet int | SocketClosed int | ArpEvent arp_event
  | DataOnNonrpf Packet int | DataOnRpf Packet int | MdataRegister Packet int

record Ipv4 =
  ip_rt :: Ipv4RoutingTable
  ip_arp :: Arp
  ip_forwarding :: bool
  ip_multicastForward :: bool
  ip_newMulticast :: "Ipv4Header \<Rightarrow> int \<Rightarrow> Ipv4RoutingTable \<Rightarrow> err + Ipv4RoutingTable"
  ip_checksum :: header_checksum
  ip_canInsertAtBack :: "u8 can_insert"
  ip_canInsertAtFront :: "u8 can_insert"
  crcMode :: CrcMode
  defaultTimeToLive :: int
  defaultMCTimeToLive :: int
  fragmentTimeoutTime :: simtime
  limitedBroadcast :: bool
  directBroadcastInterfaces :: "NetworkInterface \<Rightarrow> bool"
  curFragmentId :: u16
  fragbuf :: Ipv4FragBuf
  lastCheckTime :: simtime
  upperProtocols :: "int list"
  socketIdToSocketDescriptor :: "(int \<times> SocketDescriptor) list"
  pendingPackets :: "(Ipv4Address \<times> Packet list) list"
  numMulticast :: nat
  numLocalDeliver :: nat
  numDropped :: nat
  numUnroutable :: nat
  numForwarded :: nat
  hooks :: "(int \<times> Hook) list"
  queuedDatagramsForHooks :: "(Packet \<times> HookType) list"
  routeTraceActive :: bool
  stationaryNode :: bool
  ip_events :: "ip_event list"

definition ip_emit :: "ip_event \<Rightarrow> Ipv4 \<Rightarrow> Ipv4" where
  "ip_emit e s = s\<lparr>ip_events := ip_events s @ [e]\<rparr>"

definition simTime :: "Ipv4 \<Rightarrow> simtime" where
  "simTime s = arp_now (ip_arp s)"

definition ip_interfaces :: "Ipv4 \<Rightarrow> InterfaceTable" where
  "ip_interfaces s = rt_ift (ip_rt s)"

text \<open>The IP protocol numbers that the program knows.\<close>

definition ipprotocol :: "int list" where
  "ipprotocol = [1, 2, 4, 6, 8, 9, 17, 36, 41, 46, 48, 58, 88, 89, 103, 132, 135, 138, 249, 250, 251, 252, 253, 254]"

definition IP_PROT_IGMP :: int where
  "IP_PROT_IGMP = 2"

definition ICMP_DU_PROTOCOL_UNREACHABLE :: int where
  "ICMP_DU_PROTOCOL_UNREACHABLE = 2"

definition getProtocol :: "int \<Rightarrow> err + int" where
  "getProtocol n = (if n \<in> set ipprotocol then Inr n else Inl (RuntimeError ''Unknown protocol''))"

definition upd_header :: "(Ipv4Header \<Rightarrow> Ipv4Header) \<Rightarrow> Packet \<Rightarrow> Packet" where
  "upd_header f p = p\<lparr>ipHeader := f (ipHeader p)\<rparr>"

definition upd_tags :: "(Tags \<Rightarrow> Tags) \<Rightarrow> Packet \<Rightarrow> Packet" where
  "upd_tags f p = p\<lparr>tags := f (tags p)\<rparr>"

definition setInterfaceReq :: "int \<Rightarrow> Packet \<Rightarrow> Packet" where
  "setInterfaceReq i = upd_tags (\<lambda>t. t\<lparr>interfaceReq := Some i\<rparr>)"

definition setNextHop :: "Ipv4Address \<Rightarrow> Packet \<Rightarrow> Packet" where
  "setNextHop a = upd_tags (\<lambda>t. t\<lparr>nextHopAddressReq := Some a\<rparr>)"

definition setMacAddressReq :: "MacAddress \<Rightarrow> Packet \<Rightarrow> Packet" where
  "setMacAddressReq a = upd_tags (\<lambda>t. t\<lparr>macAddressReq := Some a\<rparr>)"

text \<open>The value of a tag that must be there.\<close>

definition getTag :: "'a option \<Rightarrow> err + 'a" where
  "getTag t = (case t of None \<Rightarrow> Inl (RuntimeError ''Tag is absent'') | Some x \<Rightarrow> Inr x)"

definition tagged_interface :: "int option \<Rightarrow> Ipv4 \<Rightarrow> err + NetworkInterface" where
  "tagged_interface t s = ebind (getTag t) (\<lambda>i. getInterfaceById i (ip_interfaces s))"

definition optional_interface :: "int option \<Rightarrow> Ipv4 \<Rightarrow> err + NetworkInterface option" where
  "optional_interface t s = (case t of
     None \<Rightarrow> Inr None | Some i \<Rightarrow> ebind (getInterfaceById i (ip_interfaces s)) (\<lambda>ie. Inr (Some ie)))"

definition getSourceInterface :: "Packet \<Rightarrow> Ipv4 \<Rightarrow> err + NetworkInterface option" where
  "getSourceInterface p = optional_interface (interfaceInd (tags p))"

definition getDestInterface :: "Packet \<Rightarrow> Ipv4 \<Rightarrow> err + NetworkInterface option" where
  "getDestInterface p = optional_interface (interfaceReq (tags p))"

definition getNextHop :: "Packet \<Rightarrow> Ipv4Address" where
  "getNextHop p = (case nextHopAddressReq (tags p) of None \<Rightarrow> 0 | Some a \<Rightarrow> a)"

definition id_or_none :: "NetworkInterface option \<Rightarrow> int" where
  "id_or_none ie = (case ie of None \<Rightarrow> -1 | Some x \<Rightarrow> interfaceId x)"

text \<open>A lookup in the routing table, whose cache changes.\<close>

definition ip_findBestMatchingRoute :: "Ipv4Address \<Rightarrow> Ipv4 \<Rightarrow> err + Ipv4Route option \<times> Ipv4" where
  "ip_findBestMatchingRoute a s = ebind (findBestMatchingRoute a (ip_rt s)) (\<lambda>(r, t). Inr (r, s\<lparr>ip_rt := t\<rparr>))"

definition drop_packet :: "PacketDropReason \<Rightarrow> Packet \<Rightarrow> Ipv4 \<Rightarrow> Ipv4" where
  "drop_packet reason p s = ip_emit (Dropped reason p) s"

definition count_dropped :: "Ipv4 \<Rightarrow> Ipv4" where
  "count_dropped s = s\<lparr>numDropped := numDropped s + 1\<rparr>"

definition count_unroutable :: "Ipv4 \<Rightarrow> Ipv4" where
  "count_unroutable s = s\<lparr>numUnroutable := numUnroutable s + 1\<rparr>"

definition sendIcmpError :: "Packet \<Rightarrow> int \<Rightarrow> IcmpError \<Rightarrow> Ipv4 \<Rightarrow> Ipv4" where
  "sendIcmpError p i e s = ip_emit (SendIcmpError p i e) s"

section \<open>Netfilter hooks\<close>

fun call_hooks :: "HookType \<Rightarrow> (int \<times> Hook) list \<Rightarrow> Packet \<Rightarrow> HookResult \<times> Packet" where
  "call_hooks ty [] p = (ACCEPT, p)"
| "call_hooks ty (h # hs) p =
     (case hk_call (snd h) ty p of
        (ACCEPT, p1) \<Rightarrow> call_hooks ty hs p1
      | (r, p1) \<Rightarrow> (r, p1))"

text \<open>
  The five functions \<open>datagramPreRoutingHook\<close> to \<open>datagramLocalOutHook\<close> followed by what their callers do: go on with the
  packet if every hook accepts it.
\<close>

definition with_hook :: "HookType \<Rightarrow> (Packet \<Rightarrow> Ipv4 \<Rightarrow> err + Ipv4) \<Rightarrow> Packet \<Rightarrow> Ipv4 \<Rightarrow> err + Ipv4" where
  "with_hook ty f p s =
     (case call_hooks ty (hooks s) p of
        (ACCEPT, p1) \<Rightarrow> f p1 s
      | (QUEUE, p1) \<Rightarrow> Inr (s\<lparr>queuedDatagramsForHooks := queuedDatagramsForHooks s @ [(p1, ty)]\<rparr>)
      | (_, p1) \<Rightarrow> Inr s)"

text \<open>A multimap keeps equal keys in the order of insertion.\<close>

fun hook_insert :: "int \<Rightarrow> Hook \<Rightarrow> (int \<times> Hook) list \<Rightarrow> (int \<times> Hook) list" where
  "hook_insert k h [] = [(k, h)]"
| "hook_insert k h (x # xs) = (if k < fst x then (k, h) # x # xs else x # hook_insert k h xs)"

definition registerHook :: "int \<Rightarrow> Hook \<Rightarrow> Ipv4 \<Rightarrow> err + Ipv4" where
  "registerHook priority h s = ebind (assert_that (\<forall>x \<in> set (hooks s). hk_id (snd x) \<noteq> hk_id h)) (\<lambda>_.
     Inr (s\<lparr>hooks := hook_insert priority h (hooks s)\<rparr>))"

definition unregisterHook :: "nat \<Rightarrow> Ipv4 \<Rightarrow> Ipv4" where
  "unregisterHook i s = s\<lparr>hooks := remove_first (\<lambda>x. hk_id (snd x) = i) (hooks s)\<rparr>"

section \<open>Sending to the interfaces\<close>

definition sendPacketToNIC :: "Packet \<Rightarrow> Ipv4 \<Rightarrow> err + Ipv4" where
  "sendPacketToNIC p s = ebind (tagged_interface (interfaceReq (tags p)) s) (\<lambda>_. Inr (ip_emit (ToNIC p) s))"

definition find_pending :: "Ipv4Address \<Rightarrow> Ipv4 \<Rightarrow> Packet list option" where
  "find_pending a s = map_of (pendingPackets s) a"

definition insert_pending :: "Ipv4Address \<Rightarrow> Packet \<Rightarrow> Ipv4 \<Rightarrow> Ipv4" where
  "insert_pending a p s = s\<lparr>pendingPackets :=
     map_set a ((case find_pending a s of None \<Rightarrow> [] | Some ps \<Rightarrow> ps) @ [p]) (pendingPackets s)\<rparr>"

definition erase_pending :: "Ipv4Address \<Rightarrow> Ipv4 \<Rightarrow> Ipv4" where
  "erase_pending a s = s\<lparr>pendingPackets := filter (\<lambda>(k, _). k \<noteq> a) (pendingPackets s)\<rparr>"

definition arpResolutionCompleted :: "Ipv4Address \<Rightarrow> MacAddress \<Rightarrow> int \<Rightarrow> Ipv4 \<Rightarrow> err + Ipv4" where
  "arpResolutionCompleted addr mac i s =
     (case find_pending addr s of
        None \<Rightarrow> Inr s
      | Some ps \<Rightarrow>
          ebind (efold (\<lambda>p s. sendPacketToNIC (setMacAddressReq mac (setInterfaceReq i p)) s) ps s) (\<lambda>s1.
            Inr (erase_pending addr s1)))"

definition arpResolutionTimedOut :: "Ipv4Address \<Rightarrow> Ipv4 \<Rightarrow> Ipv4" where
  "arpResolutionTimedOut addr s =
     (case find_pending addr s of
        None \<Rightarrow> s
      | Some ps \<Rightarrow> erase_pending addr (fold (drop_packet ADDRESS_RESOLUTION_FAILED) ps s))"

text \<open>\<open>receiveSignal\<close>, for the events of a step of the ARP module.\<close>

fun ip_arp_event :: "arp_event \<Rightarrow> Ipv4 \<Rightarrow> err + Ipv4" where
  "ip_arp_event (ResolutionCompleted addr mac i) s =
     arpResolutionCompleted addr mac i (ip_emit (ArpEvent (ResolutionCompleted addr mac i)) s)"
| "ip_arp_event (ResolutionFailed addr i) s =
     Inr (arpResolutionTimedOut addr (ip_emit (ArpEvent (ResolutionFailed addr i)) s))"
| "ip_arp_event e s = Inr (ip_emit (ArpEvent e) s)"

text \<open>A step of ARP, whose events are then handled one by one.\<close>

definition after_arp :: "Arp \<Rightarrow> Ipv4 \<Rightarrow> err + Ipv4" where
  "after_arp a s = efold ip_arp_event (arp_events a) (s\<lparr>ip_arp := a\<lparr>arp_events := []\<rparr>\<rparr>)"

definition makeMulticastAddress :: "Ipv4Address \<Rightarrow> err + MacAddress" where
  "makeMulticastAddress a = ebind (assert_that (ipv4_isMulticast a)) (\<lambda>_.
     setAddressBytes [0x01, 0x00, 0x5e, ucast (getDByte a 1 AND 0x7f), ucast (getDByte a 2), ucast (getDByte a 3)])"

definition resolveNextHopMacAddress ::
  "Ipv4Address \<Rightarrow> NetworkInterface \<Rightarrow> Ipv4 \<Rightarrow> err + MacAddress \<times> Ipv4" where
  "resolveNextHopMacAddress nextHopAddr destIE s =
     ebind (if isLimitedBroadcastAddress nextHopAddr then Inr True
            else ebind (getIpv4InterfaceData destIE) (\<lambda>d. Inr (nextHopAddr = getNetworkBroadcastAddress d))) (\<lambda>broadcast.
       if broadcast then Inr (BROADCAST_ADDRESS, s)
       else if ipv4_isMulticast nextHopAddr then ebind (makeMulticastAddress nextHopAddr) (\<lambda>m. Inr (m, s))
       else ebind (resolveL3Address nextHopAddr (interfaceId destIE) (ip_rt s) (ip_arp s)) (\<lambda>(m, a).
              ebind (after_arp a s) (\<lambda>s1. Inr (m, s1))))"

definition sendDatagramToOutput :: "Packet \<Rightarrow> Ipv4 \<Rightarrow> err + Ipv4" where
  "sendDatagramToOutput p s =
     ebind (tagged_interface (interfaceReq (tags p)) s) (\<lambda>ie.
     ebind (getTag (nextHopAddressReq (tags p))) (\<lambda>nextHopAddr.
       let p1 = upd_tags (\<lambda>t. t\<lparr>nextHopAddressReq := None\<rparr>) p in
       if \<not> if_broadcast ie \<or> isUnspecified (if_macAddr ie) then sendPacketToNIC p1 s
       else ebind (resolveNextHopMacAddress nextHopAddr ie s) (\<lambda>(mac, s1).
         if isUnspecified mac then Inr (insert_pending nextHopAddr p1 s1)
         else ebind (assert_that (find_pending nextHopAddr s1 = None)) (\<lambda>_.
                sendPacketToNIC (setMacAddressReq mac p1) s1))))"

definition fragmentAndSend :: "Packet \<Rightarrow> Ipv4 \<Rightarrow> err + Ipv4" where
  "fragmentAndSend p0 s =
     ebind (tagged_interface (interfaceReq (tags p0)) s) (\<lambda>destIE.
       let p = (if ipv4_isUnspecified (getNextHop p0) then setNextHop (destAddress (ipHeader p0)) p0 else p0) in
       if timeToLive (ipHeader p) \<le> 0 then
         Inr (count_dropped (sendIcmpError p (-1) ICMP_TIME_EXCEEDED (drop_packet HOP_LIMIT_REACHED p s)))
       else if if_mtu destIE = 0 \<or> getDataLength p \<le> if_mtu destIE then
         ebind (if crcMode s = CRC_COMPUTED
                then ebind (setComputedCrc (ip_checksum s) (crcMode s) (ipHeader p)) (\<lambda>h. Inr (p\<lparr>ipHeader := h\<rparr>))
                else Inr p) (\<lambda>p1. sendDatagramToOutput p1 s)
       else if dontFragment (ipHeader p) then
         Inr (count_dropped (ip_emit (SendPtb p (if_mtu destIE)) (drop_packet DROP_UNSET p s)))
       else ebind (fragment_datagram (ip_checksum s) (crcMode s) (if_mtu destIE) p) (\<lambda>frs.
              efold sendDatagramToOutput frs s))"

definition fragmentPostRouting :: "Packet \<Rightarrow> Ipv4 \<Rightarrow> err + Ipv4" where
  "fragmentPostRouting p s =
     ebind (tagged_interface (interfaceReq (tags p)) s) (\<lambda>destIE.
     ebind (if ipv4_isUnspecified (srcAddress (ipHeader p))
            then ebind (getIpv4InterfaceData destIE) (\<lambda>d. Inr (upd_header (\<lambda>h. h\<lparr>srcAddress := inetAddr d\<rparr>) p))
            else Inr p) (\<lambda>p1. with_hook POSTROUTING fragmentAndSend p1 s))"

section \<open>Routing\<close>

definition routeUnicastPacketFinish :: "Packet \<Rightarrow> Ipv4 \<Rightarrow> err + Ipv4" where
  "routeUnicastPacketFinish p s = fragmentPostRouting p (s\<lparr>numForwarded := numForwarded s + 1\<rparr>)"

text \<open>The choice of the output interface and the next hop.\<close>

definition select_output ::
  "Packet \<Rightarrow> NetworkInterface option \<Rightarrow> Ipv4 \<Rightarrow> err + (int option \<times> Packet) \<times> Ipv4" where
  "select_output p destIE s =
     (case destIE of
        Some ie \<Rightarrow>
          if \<not> ipv4_isUnspecified (getNextHop p) then Inr ((Some (interfaceId ie), p), s)
          else if if_broadcast ie then
            ebind (ip_findBestMatchingRoute (destAddress (ipHeader p)) s) (\<lambda>(re, s1).
              Inr (case re of
                     None \<Rightarrow> ((Some (interfaceId ie), p), s1)
                   | Some r \<Rightarrow> if r_interface r = Some (interfaceId ie)
                              then ((Some (interfaceId ie), setNextHop (r_gateway r) p), s1)
                              else ((Some (interfaceId ie), p), s1)))
          else Inr ((Some (interfaceId ie), p), s)
      | None \<Rightarrow>
          ebind (ip_findBestMatchingRoute (destAddress (ipHeader p)) s) (\<lambda>(re, s1).
            case re of
              None \<Rightarrow> Inr ((None, p), s1)
            | Some r \<Rightarrow> (case r_interface r of
                None \<Rightarrow> Inl NullPointer
              | Some i \<Rightarrow> Inr ((Some i, setNextHop (r_gateway r) (setInterfaceReq i p)), s1))))"

definition routeUnicastPacket :: "Packet \<Rightarrow> Ipv4 \<Rightarrow> err + Ipv4" where
  "routeUnicastPacket p s =
     ebind (getSourceInterface p s) (\<lambda>fromIE. ebind (getDestInterface p s) (\<lambda>destIE0.
     ebind (select_output p destIE0 s) (\<lambda>((destIE, p1), s1).
       case destIE of
         None \<Rightarrow> Inr (sendIcmpError p1 (id_or_none fromIE) (ICMP_DESTINATION_UNREACHABLE 0)
                   (drop_packet NO_ROUTE_FOUND p1 (count_unroutable s1)))
       | Some _ \<Rightarrow> if fromIE \<noteq> None then with_hook FORWARD routeUnicastPacketFinish p1 s1
                   else routeUnicastPacketFinish p1 s1)))"

definition broadcast_matches :: "Ipv4Address \<Rightarrow> NetworkInterface \<Rightarrow> err + bool" where
  "broadcast_matches destAddr ie =
     (if \<not> isLimitedBroadcastAddress destAddr
      then ebind (getIpv4InterfaceData ie) (\<lambda>d. Inr (destAddr = makeBroadcastAddress (inetAddr d) (inetMask d)))
      else Inr True)"

definition routeLocalBroadcastPacket :: "Packet \<Rightarrow> Ipv4 \<Rightarrow> err + Ipv4" where
  "routeLocalBroadcastPacket p s =
     ebind (getDestInterface p s) (\<lambda>destIE.
       case destIE of
         Some ie \<Rightarrow> fragmentPostRouting (setNextHop 0xFFFFFFFF (setInterfaceReq (interfaceId ie) p)) s
       | None \<Rightarrow>
           if limitedBroadcast s then
             efold (\<lambda>ie s. ebind (broadcast_matches (destAddress (ipHeader p)) ie) (\<lambda>b.
                      if b then fragmentPostRouting (setNextHop 0xFFFFFFFF (setInterfaceReq (interfaceId ie) p)) s
                      else Inr s)) (interfaces (ip_interfaces s)) s
           else Inr (drop_packet NO_INTERFACE_FOUND p (count_dropped s)))"

definition determineOutgoingInterfaceForMulticastDatagram ::
  "Ipv4Header \<Rightarrow> NetworkInterface option \<Rightarrow> Ipv4 \<Rightarrow> err + int option \<times> Ipv4" where
  "determineOutgoingInterfaceForMulticastDatagram h option s =
     (case option of
        Some ie \<Rightarrow> Inr (Some (interfaceId ie), s)
      | None \<Rightarrow>
          ebind (ip_findBestMatchingRoute (destAddress h) s) (\<lambda>(route, s1).
            case (case route of None \<Rightarrow> None | Some r \<Rightarrow> r_interface r) of
              Some i \<Rightarrow> Inr (Some i, s1)
            | None \<Rightarrow>
                (case rt_getInterfaceByAddress (srcAddress h) (ip_rt s1) of
                   Some ie \<Rightarrow> Inr (Some (interfaceId ie), s1)
                 | None \<Rightarrow> Inr (map_option interfaceId (findFirstMulticastInterface (ip_interfaces s1)), s1))))"

definition getShortestPathInterfaceToSource :: "Ipv4Header \<Rightarrow> Ipv4 \<Rightarrow> err + int option \<times> Ipv4" where
  "getShortestPathInterfaceToSource h s =
     ebind (getInterfaceForDestAddr (srcAddress h) (ip_rt s)) (\<lambda>(i, t). Inr (i, s\<lparr>ip_rt := t\<rparr>))"

text \<open>The body of the loop over the output interfaces of a multicast route.\<close>

definition forward_to_out :: "int \<Rightarrow> Packet \<Rightarrow> OutInterface \<Rightarrow> Ipv4 \<Rightarrow> err + Ipv4" where
  "forward_to_out fromIE p out s =
     (if fst out \<noteq> fromIE then
        ebind (deref_iface (fst out) (ip_rt s)) (\<lambda>destIE. ebind (getIpv4InterfaceData destIE) (\<lambda>d.
          if timeToLive (ipHeader p) \<le> multicastTtlThreshold d then Inr s
          else ebind (if snd out then hasMulticastListener (destAddress (ipHeader p)) d else Inr True) (\<lambda>listener.
            if \<not> listener then Inr s
            else fragmentPostRouting
                   (setNextHop (destAddress (ipHeader p)) (setInterfaceReq (interfaceId destIE) p)) s)))
      else Inr s)"

definition lookup_multicast_route ::
  "Packet \<Rightarrow> int \<Rightarrow> Ipv4 \<Rightarrow> err + Ipv4MulticastRoute option \<times> Ipv4" where
  "lookup_multicast_route p fromIE s =
     (let h = ipHeader p in
      case findBestMatchingMulticastRoute (srcAddress h) (destAddress h) (ip_rt s) of
        Some r \<Rightarrow> Inr (Some r, s)
      | None \<Rightarrow> ebind (ip_newMulticast s h fromIE (ip_rt s)) (\<lambda>t.
          Inr (findBestMatchingMulticastRoute (srcAddress h) (destAddress h) t, s\<lparr>ip_rt := t\<rparr>)))"

definition forwardMulticastPacket :: "Packet \<Rightarrow> Ipv4 \<Rightarrow> err + Ipv4" where
  "forwardMulticastPacket p s0 =
     ebind (tagged_interface (interfaceInd (tags p)) s0) (\<lambda>fromIE.
       let h = ipHeader p; from = interfaceId fromIE in
       ebind (assert_that (ipv4_isMulticast (destAddress h))) (\<lambda>_.
       ebind (assert_that (\<not> isLinkLocalMulticast (destAddress h))) (\<lambda>_.
       ebind (lookup_multicast_route p from (s0\<lparr>numMulticast := numMulticast s0 + 1\<rparr>)) (\<lambda>(route, s).
         case route of
           None \<Rightarrow> Inr (drop_packet NO_ROUTE_FOUND p (count_unroutable s))
         | Some r \<Rightarrow>
             if m_inInterface r \<noteq> None \<and> m_inInterface r \<noteq> Some from then
               Inr (drop_packet DROP_UNSET p (count_dropped (ip_emit (DataOnNonrpf p from) s)))
             else ebind (if m_inInterface r = None then getShortestPathInterfaceToSource h s
                         else Inr (Some from, s)) (\<lambda>(shortest, s1).
               if shortest \<noteq> Some from then Inr (drop_packet DROP_UNSET p (count_dropped s1))
               else
                 ebind (efold (forward_to_out from p) (m_outInterfaces r)
                         ((ip_emit (DataOnRpf p from) s1)\<lparr>numForwarded := numForwarded s1 + 1\<rparr>)) (\<lambda>s2.
                   Inr (ip_emit (MdataRegister p from) s2)))))))"

section \<open>Delivery\<close>

definition decapsulate :: "Packet \<Rightarrow> Ipv4 \<Rightarrow> err + Packet" where
  "decapsulate p s =
     (let h = ipHeader p in
      ebind (if routeTraceActive s then ebind (getTag (routeTrace h)) (\<lambda>tr. Inr (Some tr))
             else Inr (routeTraceInd (tags p))) (\<lambda>tr.
      ebind (getProtocol (protocolId h)) (\<lambda>protocol.
        Inr (upd_tags (\<lambda>t. t\<lparr>routeTraceInd := tr, dscpInd := Some (getDscp h), ecnInd := Some (getEcn h),
               tosInd := Some (typeOfService h), dispatchProtocolReq := Some protocol,
               l3AddressInd := Some (srcAddress h, destAddress h), hopLimitInd := Some (timeToLive h)\<rparr>) p))))"

definition socket_matches :: "Ipv4Header \<Rightarrow> SocketDescriptor \<Rightarrow> bool" where
  "socket_matches h sd =
     (sd_protocolId sd = protocolId h \<and>
      (ipv4_isUnspecified (sd_localAddress sd) \<or> sd_localAddress sd = destAddress h) \<and>
      (ipv4_isUnspecified (sd_remoteAddress sd) \<or> sd_remoteAddress sd = srcAddress h))"

text \<open>
  A packet passed up keeps its header in the record, for an ICMP error that may quote it. \<open>decapsulate\<close> refuses a
  protocol number without protocol, so later \<open>protocol\<close> is not null.
\<close>

definition reassembleAndDeliverFinish :: "Packet \<Rightarrow> Ipv4 \<Rightarrow> err + Ipv4" where
  "reassembleAndDeliverFinish p s =
     ebind (decapsulate p s) (\<lambda>p1.
       let matching = filter (socket_matches (ipHeader p)) (map snd (socketIdToSocketDescriptor s));
           s1 = fold (\<lambda>sd. ip_emit (ToUpper (upd_tags (\<lambda>t. t\<lparr>socketInd := Some (sd_socketId sd)\<rparr>) p1))) matching s
       in if protocolId (ipHeader p) \<in> set (upperProtocols s) then
            Inr ((ip_emit (ToUpper p1) s1)\<lparr>numLocalDeliver := numLocalDeliver s1 + 1\<rparr>)
          else if matching \<noteq> [] then Inr s1
          else ebind (getSourceInterface p1 s1) (\<lambda>fromIE.
            Inr (sendIcmpError p1 (id_or_none fromIE) (ICMP_DESTINATION_UNREACHABLE ICMP_DU_PROTOCOL_UNREACHABLE) s1)))"

text \<open>The fragments that are too old are purged at most every ten seconds.\<close>

definition purge_fragments :: "Ipv4 \<Rightarrow> Ipv4" where
  "purge_fragments s =
     (if simTime s \<ge> lastCheckTime s + 10 * sim_sec then
        let (gone, bufs) = purgeStaleFragments (simTime s - fragmentTimeoutTime s) (fragbuf s)
        in fold (\<lambda>p. ip_emit (SendIcmpError p (-1) ICMP_TIME_EXCEEDED)) gone
             (s\<lparr>lastCheckTime := simTime s, fragbuf := bufs\<rparr>)
      else s)"

text \<open>A datagram that a fragment has completed.\<close>

definition deliver_reassembled :: "Packet \<Rightarrow> Ipv4 \<Rightarrow> err + Ipv4" where
  "deliver_reassembled pk s =
     ebind (if ip_crcMode (ipHeader pk) = CRC_COMPUTED
            then ebind (setComputedCrc (ip_checksum s) (crcMode s) (ipHeader pk)) (\<lambda>h. Inr (pk\<lparr>ipHeader := h\<rparr>))
            else Inr pk) (\<lambda>pk1. with_hook LOCALIN reassembleAndDeliverFinish pk1 s)"

definition reassembleAndDeliver :: "Packet \<Rightarrow> Ipv4 \<Rightarrow> err + Ipv4" where
  "reassembleAndDeliver p s =
     (if isFragment (ipHeader p) then
        let s1 = purge_fragments s in
        ebind (addFragment (ip_canInsertAtBack s1) (ip_canInsertAtFront s1) (simTime s1) p (fragbuf s1)) (\<lambda>(out, bufs).
          case out of
            None \<Rightarrow> Inr (s1\<lparr>fragbuf := bufs\<rparr>)
          | Some pk \<Rightarrow> deliver_reassembled pk (s1\<lparr>fragbuf := bufs\<rparr>))
      else with_hook LOCALIN reassembleAndDeliverFinish p s)"

section \<open>Reception\<close>

definition prepareForForwarding :: "Packet \<Rightarrow> Packet" where
  "prepareForForwarding = upd_header (\<lambda>h. h\<lparr>timeToLive := timeToLive h - 1\<rparr>)"

definition prerouting_multicast :: "NetworkInterface \<Rightarrow> Packet \<Rightarrow> Ipv4 \<Rightarrow> err + Ipv4" where
  "prerouting_multicast fromIE p s =
     (let h = ipHeader p in
      ebind (getIpv4InterfaceData fromIE) (\<lambda>d.
      ebind (if isMemberOfMulticastGroup d (destAddress h) \<or>
                ip_multicastForward s \<and> protocolId h = IP_PROT_IGMP
             then reassembleAndDeliver p s else Inr s) (\<lambda>s1.
        if \<not> ip_multicastForward s1 then Inr s1
        else if isLinkLocalMulticast (destAddress h) then Inr s1
        else if timeToLive h \<le> 1 then Inr s1
        else forwardMulticastPacket (prepareForForwarding p) s1)))"

definition prerouting_broadcast :: "NetworkInterface \<Rightarrow> NetworkInterface option \<Rightarrow> Packet \<Rightarrow> Ipv4 \<Rightarrow> err + Ipv4" where
  "prerouting_broadcast fromIE broadcastIE p s =
     ebind (case broadcastIE of
              None \<Rightarrow> Inr s
            | Some b \<Rightarrow>
                if interfaceId fromIE \<noteq> interfaceId b \<and> ip_forwarding s \<and> directBroadcastInterfaces s b
                then fragmentPostRouting
                       (setNextHop 0xFFFFFFFF (setInterfaceReq (interfaceId b) (prepareForForwarding p))) s
                else Inr s) (\<lambda>s1. reassembleAndDeliver p s1)"

definition prerouting_unicast :: "NetworkInterface \<Rightarrow> Packet \<Rightarrow> Ipv4 \<Rightarrow> err + Ipv4" where
  "prerouting_unicast fromIE p s =
     (let destAddr = destAddress (ipHeader p) in
      ebind (if rt_isLocalAddress destAddr (ip_rt s) then Inr True
             else ebind (getIpv4InterfaceData fromIE) (\<lambda>d. Inr (ipv4_isUnspecified (inetAddr d)))) (\<lambda>local.
        if local then reassembleAndDeliver p s
        else if isLimitedBroadcastAddress destAddr then prerouting_broadcast fromIE None p s
        else ebind (findInterfaceByLocalBroadcastAddress destAddr (ip_rt s)) (\<lambda>broadcastIE.
          if broadcastIE \<noteq> None then prerouting_broadcast fromIE broadcastIE p s
          else if \<not> ip_forwarding s then Inr (drop_packet FORWARDING_DISABLED p (count_dropped s))
          else routeUnicastPacket (prepareForForwarding (setNextHop (getNextHop p) p)) s)))"

definition preroutingFinish :: "Packet \<Rightarrow> Ipv4 \<Rightarrow> err + Ipv4" where
  "preroutingFinish p s =
     ebind (tagged_interface (interfaceInd (tags p)) s) (\<lambda>fromIE.
       if if_loopback fromIE then reassembleAndDeliver p s
       else if ipv4_isMulticast (destAddress (ipHeader p)) then prerouting_multicast fromIE p s
       else prerouting_unicast fromIE p s)"

definition FLAG_STABLE :: int where
  "FLAG_STABLE = 1"

definition setTraceRouteTag :: "Packet \<Rightarrow> Ipv4 \<Rightarrow> err + Packet" where
  "setTraceRouteTag p s =
     (let h = ipHeader p; stable = (if stationaryNode s then FLAG_STABLE else 0) in
      if \<not> routeTraceActive s then Inr p
      else if ipv4_isUnspecified (srcAddress h) \<or> rt_isLocalAddress (srcAddress h) (ip_rt s) then
        let old = (case routeTrace h of None \<Rightarrow> 0 | Some tr \<Rightarrow> tr_flagSrc tr);
            oldDst = (case routeTrace h of None \<Rightarrow> 0 | Some tr \<Rightarrow> tr_flagDst tr)
        in Inr (upd_header (\<lambda>h. h\<lparr>routeTrace := Some \<lparr>tr_src = srcAddress h, tr_dst = None, tr_route = [], tr_flags = [],
             tr_flagSrc = (if stationaryNode s then FLAG_STABLE else old), tr_flagDst = oldDst\<rparr>\<rparr>) p)
      else ebind (getTag (routeTrace h)) (\<lambda>tr.
        if rt_isLocalAddress (destAddress h) (ip_rt s) then
          Inr (upd_header (\<lambda>h. h\<lparr>routeTrace := Some (tr\<lparr>tr_dst := Some (destAddress h),
            tr_flagDst := (if stationaryNode s then FLAG_STABLE else tr_flagDst tr)\<rparr>)\<rparr>) p)
        else
          Inr (upd_header (\<lambda>h. h\<lparr>routeTrace := Some (tr\<lparr>tr_route := tr_route tr @ [routerId (ip_rt s)],
            tr_flags := tr_flags tr @ [stable]\<rparr>)\<rparr>) p)))"

definition verifyCrc :: "Ipv4Header \<Rightarrow> Ipv4 \<Rightarrow> err + bool" where
  "verifyCrc h s =
     (case ip_crcMode h of
        CRC_DECLARED_CORRECT \<Rightarrow> Inr (ip_isCorrect h)
      | CRC_DECLARED_INCORRECT \<Rightarrow> Inr False
      | CRC_COMPUTED \<Rightarrow> Inr (ip_isCorrect h \<and> ip_checksum s h = 0)
      | _ \<Rightarrow> Inl (RuntimeError ''Unknown CRC mode''))"

text \<open>
  The share of the header in the length of the header chunk is 1, and \<open>dblrand()\<close> is below 1: every packet with
  a bit error is refused.
\<close>

definition handleIncomingDatagram :: "Packet \<Rightarrow> Ipv4 \<Rightarrow> err + Ipv4" where
  "handleIncomingDatagram p s =
     ebind (getTag (interfaceInd (tags p))) (\<lambda>i. ebind (verifyCrc (ipHeader p) s) (\<lambda>crcOk.
       if \<not> crcOk then Inr (drop_packet INCORRECTLY_RECEIVED p s)
       else if totalLengthField (ipHeader p) > getDataLength p then Inr (sendIcmpError p i ICMP_PARAMETER_PROBLEM s)
       else if totalLengthField (ipHeader p) < headerLength (ipHeader p)
       then Inl (RuntimeError ''Returning an incomplete chunk is not allowed'')
       else
         let p1 = p\<lparr>payload := take (nat (totalLengthField (ipHeader p) - headerLength (ipHeader p))) (payload p)\<rparr> in
         if bitError p1 then Inr (sendIcmpError p1 i ICMP_PARAMETER_PROBLEM s)
         else ebind (setTraceRouteTag p1 s) (\<lambda>p2. with_hook PREROUTING preroutingFinish p2 s)))"

section \<open>Packets from above\<close>

text \<open>A packet of a transport protocol with the requests in its tags.\<close>

record TransportPacket =
  tp_payload :: "u8 list"
  tp_protocol :: int
  tp_src :: Ipv4Address
  tp_dest :: Ipv4Address
  tp_nonLocalSrcAddress :: bool
  tp_hopLimit :: "int option"
  tp_dontFragment :: "bool option"
  tp_tos :: "u16 option"
  tp_dscp :: "u16 option"
  tp_ecn :: "u16 option"
  tp_options :: "TlvOption list option"
  tp_interface :: "int option"
  tp_nextHop :: "Ipv4Address option"
  tp_multicastLoop :: "bool option"

definition encapsulate_tos :: "TransportPacket \<Rightarrow> Ipv4Header \<Rightarrow> err + Ipv4Header \<times> Tags" where
  "encapsulate_tos tp h =
     (let t0 = no_tags\<lparr>interfaceReq := tp_interface tp, nextHopAddressReq := tp_nextHop tp,
                       multicastReq := tp_multicastLoop tp\<rparr> in
      ebind (case tp_tos tp of
               None \<Rightarrow> Inr (h, t0)
             | Some tos \<Rightarrow>
                 if tp_dscp tp \<noteq> None then Inl (RuntimeError ''TosReq and DscpReq found together'')
                 else if tp_ecn tp \<noteq> None then Inl (RuntimeError ''TosReq and EcnReq found together'')
                 else Inr (h\<lparr>typeOfService := tos\<rparr>, t0\<lparr>tosInd := Some tos\<rparr>)) (\<lambda>(h1, t1).
        let (h2, t2) = (case tp_dscp tp of None \<Rightarrow> (h1, t1)
               | Some x \<Rightarrow> (setDscp x h1, t1\<lparr>dscpInd := Some (getDscp (setDscp x h1))\<rparr>));
            (h3, t3) = (case tp_ecn tp of None \<Rightarrow> (h2, t2)
               | Some x \<Rightarrow> (setEcn x h2, t2\<lparr>ecnInd := Some (getEcn (setEcn x h2))\<rparr>))
        in Inr (h3, t3)))"

definition encapsulate_ttl :: "TransportPacket \<Rightarrow> Ipv4 \<Rightarrow> err + int" where
  "encapsulate_ttl tp s =
     (let ttl = (case tp_hopLimit tp of None \<Rightarrow> -1 | Some n \<Rightarrow> n) in
      if ttl \<noteq> -1 then ebind (assert_that (ttl > 0)) (\<lambda>_. Inr ttl)
      else if isLinkLocalMulticast (tp_dest tp) then Inr 1
      else if ipv4_isMulticast (tp_dest tp) then Inr (defaultMCTimeToLive s)
      else Inr (defaultTimeToLive s))"

definition declared_crc :: "CrcMode \<Rightarrow> err + u16" where
  "declared_crc mode =
     (case mode of
        CRC_DECLARED_CORRECT \<Rightarrow> Inr 0xC00D
      | CRC_DECLARED_INCORRECT \<Rightarrow> Inr 0xBAAD
      | CRC_COMPUTED \<Rightarrow> Inr 0
      | _ \<Rightarrow> Inl (RuntimeError ''Unknown CRC mode''))"

definition insertCrc :: "header_checksum \<Rightarrow> Ipv4Header \<Rightarrow> err + Ipv4Header" where
  "insertCrc chk h = ebind (declared_crc (ip_crcMode h)) (\<lambda>c.
     Inr (if ip_crcMode h = CRC_COMPUTED then h\<lparr>ip_crc := chk (h\<lparr>ip_crc := 0\<rparr>)\<rparr> else h\<lparr>ip_crc := c\<rparr>))"

definition encapsulate :: "TransportPacket \<Rightarrow> Ipv4 \<Rightarrow> err + Packet \<times> Ipv4" where
  "encapsulate tp s =
     ebind (getProtocol (tp_protocol tp)) (\<lambda>protocol.
     ebind (if \<not> ipv4_isUnspecified (tp_src tp) \<and> \<not> tp_nonLocalSrcAddress tp \<and>
               rt_getInterfaceByAddress (tp_src tp) (ip_rt s) = None
            then Inl (RuntimeError ''Wrong source address: no interface with such address'') else Inr ()) (\<lambda>_.
       let h0 = new_Ipv4Header\<lparr>protocolId := protocol, destAddress := tp_dest tp, srcAddress := tp_src tp\<rparr> in
       ebind (encapsulate_tos tp h0) (\<lambda>(h1, t).
       ebind (encapsulate_ttl tp s) (\<lambda>ttl.
         let opts = (case tp_options tp of None \<Rightarrow> [] | Some os \<Rightarrow> os);
             len = IPv4_MIN_HEADER_LENGTH + sum_list (map snd opts) in
         ebind (assert_that (len \<le> IPv4_MAX_HEADER_LENGTH)) (\<lambda>_.
         ebind (declared_crc (crcMode s)) (\<lambda>c.
           let h2 = h1\<lparr>identification := curFragmentId s, moreFragments := False,
                      dontFragment := (case tp_dontFragment tp of None \<Rightarrow> False | Some b \<Rightarrow> b), fragmentOffset := 0,
                      timeToLive := ttl, ip_options := opts, headerLength := len,
                      totalLengthField := len + int (length (tp_payload tp)), ip_crcMode := crcMode s, ip_crc := c\<rparr>;
               s1 = s\<lparr>curFragmentId := curFragmentId s + 1\<rparr> in
           ebind (setTraceRouteTag \<lparr>ipHeader = h2, payload = tp_payload tp, tags = t, bitError = False\<rparr> s1) (\<lambda>p.
             Inr (p, s1))))))))"

definition localOut_multicast :: "Packet \<Rightarrow> NetworkInterface option \<Rightarrow> Ipv4 \<Rightarrow> err + Ipv4" where
  "localOut_multicast p destIE0 s =
     (let h = ipHeader p; destAddr = destAddress h;
          multicastLoop = (case multicastReq (tags p) of None \<Rightarrow> False | Some b \<Rightarrow> b) in
      ebind (determineOutgoingInterfaceForMulticastDatagram h destIE0 s) (\<lambda>(destId, s1).
      ebind (case destId of None \<Rightarrow> Inr None | Some i \<Rightarrow> ebind (deref_iface i (ip_rt s1)) (\<lambda>ie. Inr (Some ie))) (\<lambda>destIE.
        let p1 = setInterfaceReq (id_or_none destIE) p in
        ebind (if multicastLoop \<and> (case destIE of None \<Rightarrow> True | Some ie \<Rightarrow> \<not> if_loopback ie) then
                 case findFirstLoopbackInterface (ip_interfaces s1) of
                   None \<Rightarrow> Inr s1
                 | Some lo \<Rightarrow> fragmentPostRouting (setNextHop destAddr (setInterfaceReq (interfaceId lo) p1)) s1
               else Inr s1) (\<lambda>s2.
          case destIE of
            Some ie \<Rightarrow> fragmentPostRouting (setNextHop destAddr p1) (s2\<lparr>numMulticast := numMulticast s2 + 1\<rparr>)
          | None \<Rightarrow> Inr (drop_packet NO_INTERFACE_FOUND p1 (count_unroutable s2))))))"

definition localOut_unicast :: "Packet \<Rightarrow> NetworkInterface option \<Rightarrow> Ipv4 \<Rightarrow> err + Ipv4" where
  "localOut_unicast p destIE s =
     (let destAddr = destAddress (ipHeader p) in
      if rt_isLocalAddress destAddr (ip_rt s) then
        let p1 = (case destIE of
              Some ie \<Rightarrow> if if_loopback ie then p
                        else setInterfaceReq (id_or_none (findFirstLoopbackInterface (ip_interfaces s))) p
            | None \<Rightarrow> setInterfaceReq (id_or_none (findFirstLoopbackInterface (ip_interfaces s))) p);
            destIE1 = (case destIE of
              Some ie \<Rightarrow> if if_loopback ie then destIE else findFirstLoopbackInterface (ip_interfaces s)
            | None \<Rightarrow> findFirstLoopbackInterface (ip_interfaces s))
        in ebind (assert_that (destIE1 \<noteq> None)) (\<lambda>_. routeUnicastPacket (setNextHop destAddr p1) s)
      else ebind (if isLimitedBroadcastAddress destAddr then Inr (True, s)
                  else ebind (isLocalBroadcastAddress destAddr (ip_rt s)) (\<lambda>(b, t). Inr (b, s\<lparr>ip_rt := t\<rparr>))) (\<lambda>(b, s1).
        if b then routeLocalBroadcastPacket p s1
        else routeUnicastPacket (setNextHop (getNextHop p) p) s1))"

definition datagramLocalOut :: "Packet \<Rightarrow> Ipv4 \<Rightarrow> err + Ipv4" where
  "datagramLocalOut p s =
     ebind (getDestInterface p s) (\<lambda>destIE.
       if ipv4_isMulticast (destAddress (ipHeader p)) then localOut_multicast p destIE s
       else localOut_unicast p destIE s)"

definition handlePacketFromHL :: "TransportPacket \<Rightarrow> Ipv4 \<Rightarrow> err + Ipv4" where
  "handlePacketFromHL tp s =
     (if interfaces (ip_interfaces s) = [] then
        Inr (ip_emit (Dropped NO_INTERFACE_FOUND \<lparr>ipHeader = new_Ipv4Header, payload = tp_payload tp, tags = no_tags,
               bitError = False\<rparr>) (count_dropped s))
      else ebind (encapsulate tp s) (\<lambda>(p, s1). with_hook LOCALOUT datagramLocalOut p s1))"

section \<open>Sockets, queued datagrams, start and stop\<close>

datatype socket_command =
    SocketBind int int Ipv4Address | SocketConnect int Ipv4Address | SocketClose int | SocketDestroy int

fun handleRequest :: "socket_command \<Rightarrow> Ipv4 \<Rightarrow> err + Ipv4" where
  "handleRequest (SocketBind i prot la) s = Inr (s\<lparr>socketIdToSocketDescriptor :=
     map_set i \<lparr>sd_socketId = i, sd_protocolId = prot, sd_localAddress = la, sd_remoteAddress = 0\<rparr>
       (socketIdToSocketDescriptor s)\<rparr>)"
| "handleRequest (SocketConnect i ra) s =
     (case map_of (socketIdToSocketDescriptor s) i of
        None \<Rightarrow> Inl (RuntimeError ''Ipv4Socket: should use bind() before connect()'')
      | Some sd \<Rightarrow> Inr (s\<lparr>socketIdToSocketDescriptor :=
          map_set i (sd\<lparr>sd_remoteAddress := ra\<rparr>) (socketIdToSocketDescriptor s)\<rparr>))"
| "handleRequest (SocketClose i) s =
     (case map_of (socketIdToSocketDescriptor s) i of
        None \<Rightarrow> Inr s
      | Some _ \<Rightarrow> Inr (ip_emit (SocketClosed i)
          (s\<lparr>socketIdToSocketDescriptor := filter (\<lambda>(k, _). k \<noteq> i) (socketIdToSocketDescriptor s)\<rparr>)))"
| "handleRequest (SocketDestroy i) s =
     Inr (s\<lparr>socketIdToSocketDescriptor := filter (\<lambda>(k, _). k \<noteq> i) (socketIdToSocketDescriptor s)\<rparr>)"

definition handleRegisterProtocol :: "int \<Rightarrow> Ipv4 \<Rightarrow> Ipv4" where
  "handleRegisterProtocol protocol s =
     (if protocol \<in> set (upperProtocols s) then s else s\<lparr>upperProtocols := protocol # upperProtocols s\<rparr>)"

text \<open>A queued datagram is known by its position in the queue; the entry is erased after it has been handled.\<close>

definition erase_queued :: "nat \<Rightarrow> Ipv4 \<Rightarrow> Ipv4" where
  "erase_queued k s = s\<lparr>queuedDatagramsForHooks :=
     take k (queuedDatagramsForHooks s) @ drop (Suc k) (queuedDatagramsForHooks s)\<rparr>"

definition dropQueuedDatagram :: "nat \<Rightarrow> Ipv4 \<Rightarrow> Ipv4" where
  "dropQueuedDatagram k s = (if k < length (queuedDatagramsForHooks s) then erase_queued k s else s)"

definition reinjectQueuedDatagram :: "nat \<Rightarrow> Ipv4 \<Rightarrow> err + Ipv4" where
  "reinjectQueuedDatagram k s =
     (if k < length (queuedDatagramsForHooks s) then
        let (p, ty) = queuedDatagramsForHooks s ! k in
        ebind (case ty of
                 LOCALOUT \<Rightarrow> datagramLocalOut p s
               | PREROUTING \<Rightarrow> preroutingFinish p s
               | POSTROUTING \<Rightarrow> fragmentAndSend p s
               | LOCALIN \<Rightarrow> reassembleAndDeliverFinish p s
               | FORWARD \<Rightarrow> routeUnicastPacketFinish p s) (\<lambda>s1. Inr (erase_queued k s1))
      else Inr s)"

definition enqueueRoutingHook :: "Packet \<Rightarrow> HookType \<Rightarrow> Ipv4 \<Rightarrow> Ipv4" where
  "enqueueRoutingHook p ty s = s\<lparr>queuedDatagramsForHooks := queuedDatagramsForHooks s @ [(p, ty)]\<rparr>"

definition ip_flush :: "Ipv4 \<Rightarrow> Ipv4" where
  "ip_flush s = s\<lparr>pendingPackets := [], queuedDatagramsForHooks := [], fragbuf := frag_flush (fragbuf s)\<rparr>"

definition ip_stop :: "Ipv4 \<Rightarrow> Ipv4" where
  "ip_stop s = (ip_flush s)\<lparr>socketIdToSocketDescriptor := []\<rparr>"

text \<open>\<open>initialize\<close> of the module and of ARP; the parameters are those of the configuration \<open>c\<close>.\<close>

definition ip_initialize :: "Ipv4 \<Rightarrow> Ipv4" where
  "ip_initialize c = c\<lparr>curFragmentId := 0, lastCheckTime := 0, numMulticast := 0, numLocalDeliver := 0, numDropped := 0,
     numUnroutable := 0, numForwarded := 0, hooks := [], queuedDatagramsForHooks := [], pendingPackets := [],
     fragbuf := [], upperProtocols := [], socketIdToSocketDescriptor := [], ip_events := [],
     ip_arp := (ip_arp c)\<lparr>numResolutions := 0, numFailedResolutions := 0, numRequestsSent := 0, numRepliesSent := 0,
       arpCache := [], arp_events := []\<rparr>\<rparr>"

section \<open>The node\<close>

text \<open>
  What happens to the network layer of a node: datagrams from the interfaces and from above, ARP packets, the
  expiry of an ARP timer, socket commands, hooks, changes of the routing table and the interfaces, the passing
  of time, and stopping, which flushes ARP and IPv4.
\<close>

datatype ip_op =
    Incoming Packet | FromAbove TransportPacket | ArpPacketIn int ArpPacket | ArpTimer Ipv4Address
  | SocketCommand socket_command | RegisterProtocol int
  | RegisterHook int Hook | UnregisterHook nat | DropQueued nat | Reinject nat | EnqueueHook Packet HookType
  | RoutingOp rt_op | Wait nat | Stop

definition ip_with_arp :: "(Ipv4RoutingTable \<Rightarrow> Arp \<Rightarrow> err + Arp \<times> Ipv4RoutingTable) \<Rightarrow> Ipv4 \<Rightarrow> err + Ipv4" where
  "ip_with_arp f s = ebind (f (ip_rt s) (ip_arp s)) (\<lambda>(a, t). after_arp a (s\<lparr>ip_rt := t\<rparr>))"

text \<open>A timer fires when its time has come; the clock does not pass a timer by.\<close>

definition timer_due :: "Ipv4Address \<Rightarrow> Arp \<Rightarrow> bool" where
  "timer_due addr a = (case arp_find addr a of None \<Rightarrow> False | Some e \<Rightarrow> ae_timer e = Some (arp_now a))"

definition may_wait :: "nat \<Rightarrow> Arp \<Rightarrow> bool" where
  "may_wait n a = (\<forall>(k, e)\<in>set (arpCache a). case ae_timer e of None \<Rightarrow> True | Some t \<Rightarrow> arp_now a + int n \<le> t)"

definition ip_wait :: "nat \<Rightarrow> Ipv4 \<Rightarrow> Ipv4" where
  "ip_wait n s = s\<lparr>ip_rt := (ip_rt s)\<lparr>rt_now := rt_now (ip_rt s) + int n\<rparr>,
     ip_arp := (ip_arp s)\<lparr>arp_now := arp_now (ip_arp s) + int n\<rparr>\<rparr>"

fun ip_step :: "ip_op \<Rightarrow> Ipv4 \<Rightarrow> err + Ipv4" where
  "ip_step (Incoming p) s = handleIncomingDatagram p s"
| "ip_step (FromAbove tp) s = handlePacketFromHL tp s"
| "ip_step (ArpPacketIn i arp) s = ip_with_arp (processArpPacket i arp) s"
| "ip_step (ArpTimer addr) s =
     (if timer_due addr (ip_arp s)
      then ip_with_arp (\<lambda>t a. ebind (requestTimedOut addr t a) (\<lambda>a1. Inr (a1, t))) s else Inr s)"
| "ip_step (SocketCommand c) s = handleRequest c s"
| "ip_step (RegisterProtocol n) s = Inr (handleRegisterProtocol n s)"
| "ip_step (RegisterHook k h) s = registerHook k h s"
| "ip_step (UnregisterHook i) s = Inr (unregisterHook i s)"
| "ip_step (DropQueued k) s = Inr (dropQueuedDatagram k s)"
| "ip_step (Reinject k) s = reinjectQueuedDatagram k s"
| "ip_step (EnqueueHook p ty) s = Inr (enqueueRoutingHook p ty s)"
| "ip_step (RoutingOp f) s = ebind (rt_step f (ip_rt s)) (\<lambda>t. Inr (s\<lparr>ip_rt := t\<rparr>))"
| "ip_step (Wait n) s = Inr (if may_wait n (ip_arp s) then ip_wait n s else s)"
| "ip_step Stop s = Inr (ip_stop (s\<lparr>ip_arp := arp_flush (ip_arp s)\<rparr>))"

definition ip_run :: "ip_op list \<Rightarrow> Ipv4 \<Rightarrow> err + Ipv4" where
  "ip_run ops s = efold ip_step ops s"

end
