(* ===== verification/ArpProps.thy ===== *)
theory ArpProps
  imports Arp
begin

text \<open>
  The contract of address resolution: the entries of the cache are consistent, an entry waits exactly as long as its
  timer runs, and when it stops waiting a signal says so. The locale \<open>resolver\<close> states the latter for a client that
  queues something for each key that waits; the IPv4 module is such a client.
\<close>

section \<open>The interface of a resolver\<close>

text \<open>
  A resolver steps from state to state with a list of events; an event may end the resolution of a key. A key
  that waits before a step waits after it, or an event of the step has ended it.
\<close>

locale resolver =
  fixes step :: "'r \<Rightarrow> 'e list \<Rightarrow> 'r \<Rightarrow> bool"
    and rinv :: "'r \<Rightarrow> bool"
    and waiting :: "'k \<Rightarrow> 'r \<Rightarrow> bool"
    and ended :: "'e \<Rightarrow> 'k option"
  assumes step_inv: "rinv r \<Longrightarrow> step r es r' \<Longrightarrow> rinv r'"
    and step_waits: "rinv r \<Longrightarrow> step r es r' \<Longrightarrow> waiting k r \<Longrightarrow> waiting k r' \<or> Some k \<in> ended ` set es"
begin

text \<open>What a client that forgets the keys that have ended may rely on.\<close>

definition waits_for :: "'k set \<Rightarrow> 'r \<Rightarrow> bool" where
  "waits_for ks r = (\<forall>k\<in>ks. waiting k r)"

lemma still_waits_for:
  assumes "rinv r" "step r es r'" "waits_for ks r" and "\<And>k. k \<in> ks' \<Longrightarrow> k \<in> ks \<and> Some k \<notin> ended ` set es"
  shows "waits_for ks' r'"
  using assms step_waits unfolding waits_for_def by blast

text \<open>The same along a run of the resolver, each step followed by the client's clean-up.\<close>

inductive run :: "'r \<Rightarrow> 'k set \<Rightarrow> 'r \<Rightarrow> 'k set \<Rightarrow> bool" where
  stay: "run r ks r ks"
| more: "run r ks r1 ks1 \<Longrightarrow> step r1 es r2 \<Longrightarrow> (\<And>k. k \<in> ks2 \<Longrightarrow> k \<in> ks1 \<and> Some k \<notin> ended ` set es \<or> waiting k r2) \<Longrightarrow>
    run r ks r2 ks2"

lemma run_waits_for:
  assumes "run r ks r' ks'" "rinv r" "waits_for ks r"
  shows "rinv r' \<and> waits_for ks' r'"
  using assms
proof (induction rule: run.induct)
  case (more r ks r1 ks1 es r2 ks2)
  then show ?case using step_inv step_waits unfolding waits_for_def by blast
qed simp

end

section \<open>The invariant of the cache\<close>

definition arp_waiting :: "Ipv4Address \<Rightarrow> Arp \<Rightarrow> bool" where
  "arp_waiting k a = (case arp_find k a of None \<Rightarrow> False | Some e \<Rightarrow> ae_pending e)"

definition entry_ok :: "Arp \<Rightarrow> Ipv4Address \<Rightarrow> ArpCacheEntry \<Rightarrow> bool" where
  "entry_ok a k e = (ae_ipv4Address e = k \<and>
     (case ae_timer e of
        None \<Rightarrow> \<not> ae_pending e \<and> \<not> isUnspecified (ae_macAddress e)
      | Some t \<Rightarrow> ae_pending e \<and> 0 \<le> ae_numRetries e \<and> (ae_numRetries e = 0 \<or> ae_numRetries e < retryCount a) \<and>
          arp_now a \<le> t \<and> t \<le> arp_now a + retryTimeout a))"

definition arp_inv :: "Arp \<Rightarrow> bool" where
  "arp_inv a = (0 \<le> retryTimeout a \<and> sorted_wrt (<) (map fst (arpCache a)) \<and>
     (\<forall>k e. arp_find k a = Some e \<longrightarrow> entry_ok a k e))"

text \<open>What no operation changes, besides the passing of time.\<close>

definition arp_config :: "Arp \<Rightarrow> simtime \<times> simtime \<times> int \<times> simtime" where
  "arp_config a = (arp_now a, retryTimeout a, retryCount a, cacheTimeout a)"

fun arp_ended :: "arp_event \<Rightarrow> Ipv4Address option" where
  "arp_ended (ResolutionCompleted k m i) = Some k"
| "arp_ended (ResolutionFailed k i) = Some k"
| "arp_ended _ = None"

lemma arp_find_simps [simp]:
  "arp_find k (arp_emit ev a) = arp_find k a" "arp_find k (a\<lparr>arp_events := evs\<rparr>) = arp_find k a"
  "arp_find k (a\<lparr>numRequestsSent := n\<rparr>) = arp_find k a" "arp_find k (a\<lparr>numRepliesSent := n\<rparr>) = arp_find k a"
  "arp_find k (a\<lparr>numResolutions := n\<rparr>) = arp_find k a" "arp_find k (a\<lparr>numFailedResolutions := n\<rparr>) = arp_find k a"
  "arp_find k (a\<lparr>arp_now := t\<rparr>) = arp_find k a"
  by (simp_all add: arp_find_def arp_emit_def)

lemma arp_sorted_simps [simp]:
  "arpCache (arp_emit ev a) = arpCache a"
  by (simp add: arp_emit_def)

lemma arp_find_put: "arp_inv a \<Longrightarrow> arp_find k (arp_put addr e a) = (if k = addr then Some e else arp_find k a)"
  by (simp add: arp_find_def arp_put_def arp_inv_def map_of_map_set)

lemma arp_find_erase: "arp_find k (arp_erase addr a) = (if k = addr then None else arp_find k a)"
proof -
  have "map_of (filter (\<lambda>(k, _). k \<noteq> addr) m) k = (if k = addr then None else map_of m k)" for m :: "(Ipv4Address \<times> ArpCacheEntry) list"
    by (induction m) auto
  then show ?thesis by (simp add: arp_find_def arp_erase_def)
qed

lemma arp_config_simps [simp]:
  "arp_config (arp_emit ev a) = arp_config a" "arp_config (arp_put k e a) = arp_config a"
  "arp_config (arp_erase k a) = arp_config a" "arp_config (a\<lparr>arp_events := evs\<rparr>) = arp_config a"
  "arp_config (a\<lparr>numRequestsSent := n\<rparr>) = arp_config a" "arp_config (a\<lparr>numRepliesSent := n\<rparr>) = arp_config a"
  "arp_config (a\<lparr>numResolutions := n\<rparr>) = arp_config a" "arp_config (a\<lparr>numFailedResolutions := n\<rparr>) = arp_config a"
  by (simp_all add: arp_config_def arp_emit_def arp_put_def arp_erase_def)

lemma arp_events_simps [simp]:
  "arp_events (arp_emit ev a) = arp_events a @ [ev]" "arp_events (arp_put k e a) = arp_events a"
  "arp_events (arp_erase k a) = arp_events a"
  by (simp_all add: arp_emit_def arp_put_def arp_erase_def)

lemma entry_ok_config: "arp_config a' = arp_config a \<Longrightarrow> entry_ok a' = entry_ok a"
  by (simp add: entry_ok_def arp_config_def fun_eq_iff split: option.split)

lemma arp_inv_frame:
  "arp_inv a \<Longrightarrow> arpCache a' = arpCache a \<Longrightarrow> arp_config a' = arp_config a \<Longrightarrow> arp_inv a'"
  using entry_ok_config [of a' a] by (simp add: arp_inv_def arp_find_def arp_config_def)

lemma arp_inv_emit [simp]: "arp_inv a \<Longrightarrow> arp_inv (arp_emit ev a)"
  by (rule arp_inv_frame) simp_all

lemma arp_inv_put:
  assumes "arp_inv a" "entry_ok a k e"
  shows "arp_inv (arp_put k e a)"
proof -
  have "entry_ok (arp_put k e a) = entry_ok a" by (rule entry_ok_config) simp
  moreover have "retryTimeout (arp_put k e a) = retryTimeout a" "arpCache (arp_put k e a) = map_set k e (arpCache a)"
    by (simp_all add: arp_put_def)
  ultimately show ?thesis
    using assms by (simp add: arp_inv_def sorted_map_set arp_find_put [OF assms(1)])
qed

lemma arp_inv_erase: "arp_inv a \<Longrightarrow> arp_inv (arp_erase k a)"
proof -
  assume a: "arp_inv a"
  have "entry_ok (arp_erase k a) = entry_ok a" by (rule entry_ok_config) simp
  moreover have "sorted_wrt (<) (map fst (filter (\<lambda>(x, _). x \<noteq> k) m))" if "sorted_wrt (<) (map fst m)"
    for m :: "(Ipv4Address \<times> ArpCacheEntry) list"
    using that by (induction m) auto
  moreover have "retryTimeout (arp_erase k a) = retryTimeout a"
    "arpCache (arp_erase k a) = filter (\<lambda>(x, _). x \<noteq> k) (arpCache a)"
    by (simp_all add: arp_erase_def)
  ultimately show ?thesis using a by (simp add: arp_inv_def arp_find_erase)
qed

section \<open>The operations\<close>

lemma sendArpRequest_result:
  "sendArpRequest i addr t a = Inr a' \<Longrightarrow> \<exists>ev. a' = (arp_emit ev a)\<lparr>numRequestsSent := numRequestsSent a + 1\<rparr> \<and> arp_ended ev = None"
  by (fastforce simp: sendArpRequest_def Let_def ebind_Inr_iff)

lemma initiate_result:
  assumes "arp_inv a" and "initiateArpResolution addr e t a = Inr a'"
  shows "arp_inv a' \<and> arp_config a' = arp_config a \<and> arp_waiting addr a' \<and>
    (\<forall>k. k \<noteq> addr \<longrightarrow> arp_find k a' = arp_find k a) \<and>
    (\<exists>evs. arp_events a' = arp_events a @ evs \<and> (\<forall>ev\<in>set evs. arp_ended ev = None))"
proof -
  obtain ev where ev: "arp_ended ev = None"
    "a' = arp_emit (ResolutionInitiated addr (ae_ie e)) ((arp_put addr
       (e\<lparr>ae_pending := True, ae_numRetries := 0, ae_lastUpdate := 0, ae_macAddress := UNSPECIFIED_MAC,
          ae_ipv4Address := addr, ae_timer := Some (arp_now a + retryTimeout a)\<rparr>)
       ((arp_emit ev a)\<lparr>numRequestsSent := numRequestsSent a + 1\<rparr>))\<lparr>numResolutions := numResolutions a + 1\<rparr>)"
    (is "_ = arp_emit _ ((arp_put addr ?e ?a)\<lparr>numResolutions := _\<rparr>)")
    using assms(2) by (auto simp: initiateArpResolution_def Let_def ebind_Inr_iff dest!: sendArpRequest_result)
  have a: "arp_inv ?a" by (rule arp_inv_frame [OF assms(1)]) simp_all
  have "0 \<le> retryTimeout a" using assms(1) by (simp add: arp_inv_def)
  then have "entry_ok a addr ?e" by (simp add: entry_ok_def)
  moreover have "entry_ok ?a = entry_ok a" by (rule entry_ok_config) simp
  ultimately have "arp_inv (arp_put addr ?e ?a)" using arp_inv_put [OF a] by simp
  then have "arp_inv ((arp_put addr ?e ?a)\<lparr>numResolutions := numResolutions a + 1\<rparr>)"
    by (rule arp_inv_frame) simp_all
  moreover have "arp_find k (arp_put addr ?e ?a) = (if k = addr then Some ?e else arp_find k a)" for k
    using arp_find_put [OF a, of k addr ?e] by simp
  ultimately show ?thesis
    using ev(1) unfolding ev(2) by (simp add: arp_waiting_def)
qed

lemma resolve_result:
  assumes "arp_inv a" and "resolveL3Address addr i t a = Inr (m, a')"
  shows "arp_inv a' \<and> arp_config a' = arp_config a \<and> (isUnspecified m \<longleftrightarrow> arp_waiting addr a') \<and>
    (\<forall>k. arp_waiting k a \<longrightarrow> arp_waiting k a') \<and>
    (\<exists>evs. arp_events a' = arp_events a @ evs \<and> (\<forall>ev\<in>set evs. arp_ended ev = None))"
proof (cases "arp_find addr a")
  case None
  then have i: "initiateArpResolution addr (new_entry addr i) t a = Inr a'" "m = UNSPECIFIED_MAC"
    using assms(2) by (auto simp: resolveL3Address_def ebind_Inr_iff)
  show ?thesis
    using initiate_result [OF assms(1) i(1)] i(2) by (auto simp: isUnspecified_def arp_waiting_def)
next
  case (Some e)
  have ok: "entry_ok a addr e" using assms(1) Some by (simp add: arp_inv_def)
  show ?thesis
  proof (cases "\<not> ae_pending e \<and> \<not> arp_now a \<le> ae_lastUpdate e + cacheTimeout a")
    case True
    then have i: "initiateArpResolution addr (e\<lparr>ae_ie := i\<rparr>) t a = Inr a'" "m = UNSPECIFIED_MAC"
      using assms(2) Some by (auto simp: resolveL3Address_def ebind_Inr_iff)
    show ?thesis
      using initiate_result [OF assms(1) i(1)] i(2) by (auto simp: isUnspecified_def arp_waiting_def)
  next
    case False
    then have "a' = a" "m = (if ae_pending e then UNSPECIFIED_MAC else ae_macAddress e)"
      using assms(2) Some by (auto simp: resolveL3Address_def split: if_splits)
    then show ?thesis
      using assms(1) Some ok by (auto simp: isUnspecified_def arp_waiting_def entry_ok_def split: option.splits)
  qed
qed

lemma update_result:
  assumes "arp_inv a" and "ae_ipv4Address e = k" and "\<not> isUnspecified m"
    and "ae_pending e \<longleftrightarrow> ae_timer e \<noteq> None"
  shows "arp_inv (updateArpCache k e m a) \<and> arp_config (updateArpCache k e m a) = arp_config a \<and>
    (\<forall>j. arp_find j (updateArpCache k e m a) = (if j = k then Some (e\<lparr>ae_pending := False, ae_timer := None,
       ae_numRetries := (if ae_pending e then 0 else ae_numRetries e), ae_macAddress := m,
       ae_lastUpdate := arp_now a\<rparr>) else arp_find j a)) \<and>
    arp_events (updateArpCache k e m a) = arp_events a @ [ResolutionCompleted k m (ae_ie e)]"
proof -
  let ?e = "e\<lparr>ae_pending := False, ae_timer := None, ae_numRetries := (if ae_pending e then 0 else ae_numRetries e),
    ae_macAddress := m, ae_lastUpdate := arp_now a\<rparr>"
  have e: "updateArpCache k e m a = arp_emit (ResolutionCompleted k m (ae_ie e)) (arp_put k ?e a)"
    using assms(2,4) by (cases e) (auto simp: updateArpCache_def Let_def)
  have "entry_ok a k ?e" using assms(2,3) by (simp add: entry_ok_def)
  then have "arp_inv (arp_put k ?e a)" by (rule arp_inv_put [OF assms(1)])
  then show ?thesis using arp_find_put [OF assms(1)] unfolding e by simp
qed

lemma sendArpReply_result:
  assumes "sendArpReply ie arp a = Inr a'"
  shows "\<exists>evs. arp_events a' = arp_events a @ evs \<and> (\<forall>ev\<in>set evs. arp_ended ev = None)"
    "arp_find k a' = arp_find k a" "arpCache a' = arpCache a" "arp_config a' = arp_config a"
  using assms by (auto simp: sendArpReply_def Let_def ebind_Inr_iff split: if_splits)

text \<open>An ARP packet is ignored, or its sender is entered and perhaps answered.\<close>

lemma process_cases:
  assumes "processArpPacket i arp t a = Inr (a', t')"
  obtains (ignored) "arp_find (ar_srcIpAddress arp) a = None" "a' = a"
  | (stored) e a1 ie where
      "arp_find (ar_srcIpAddress arp) a = Some e \<or>
       arp_find (ar_srcIpAddress arp) a = None \<and> e = new_entry (ar_srcIpAddress arp) i"
      "a1 = updateArpCache (ar_srcIpAddress arp) e (ar_srcMacAddress arp) a" "a' = a1 \<or> sendArpReply ie arp a1 = Inr a'"
proof -
  obtain ie where ie: "getInterfaceById i (rt_ift t) = Inr ie"
    using assms by (auto simp: processArpPacket_def ebind_Inr_iff)
  let ?k = "ar_srcIpAddress arp" and ?m = "ar_srcMacAddress arp"
  show thesis
  proof (cases "arp_find ?k a")
    case None
    then obtain b where "a' = a \<or> a' = updateArpCache ?k (new_entry ?k i) ?m a \<or>
        sendArpReply b arp (updateArpCache ?k (new_entry ?k i) ?m a) = Inr a'"
      using assms ie by (auto simp: processArpPacket_def Let_def ebind_Inr_iff split: if_splits ArpOpcode.splits)
    then show thesis using None ignored stored by blast
  next
    case (Some e)
    then obtain b where "a' = updateArpCache ?k e ?m a \<or> sendArpReply b arp (updateArpCache ?k e ?m a) = Inr a'"
      using assms ie by (auto simp: processArpPacket_def Let_def ebind_Inr_iff split: if_splits ArpOpcode.splits)
    then show thesis using Some stored by blast
  qed
qed

lemma process_sources:
  "processArpPacket i arp t a = Inr r \<Longrightarrow> \<not> isUnspecified (ar_srcMacAddress arp) \<and> \<not> ipv4_isUnspecified (ar_srcIpAddress arp)"
  by (auto simp: processArpPacket_def Let_def ebind_Inr_iff split: if_splits)

text \<open>
  The table after an ARP packet, as RFC 826 has it: the sender is entered if it is known already or the packet is
  for this node; nothing else changes.
\<close>

lemma process_result:
  assumes inv: "arp_inv a" and r: "processArpPacket i arp t a = Inr (a', t')"
  shows "arp_inv a' \<and> arp_config a' = arp_config a \<and>
    (\<forall>j. j \<noteq> ar_srcIpAddress arp \<longrightarrow> arp_find j a' = arp_find j a) \<and>
    (\<exists>evs. arp_events a' = arp_events a @ evs \<and>
       (if arp_find (ar_srcIpAddress arp) a = None \<and> arp_find (ar_srcIpAddress arp) a' = None then evs = []
        else \<exists>ie rest. evs = ResolutionCompleted (ar_srcIpAddress arp) (ar_srcMacAddress arp) ie # rest \<and>
          (\<forall>e. arp_find (ar_srcIpAddress arp) a = Some e \<longrightarrow> ie = ae_ie e) \<and> (\<forall>ev\<in>set rest. arp_ended ev = None) \<and>
          (\<exists>e. arp_find (ar_srcIpAddress arp) a' = Some e \<and> \<not> ae_pending e \<and>
             ae_macAddress e = ar_srcMacAddress arp \<and> ae_lastUpdate e = arp_now a)))"
  using r
proof (cases rule: process_cases)
  case ignored
  then show ?thesis using inv by simp
next
  case (stored e a1 ie)
  have e: "ae_ipv4Address e = ar_srcIpAddress arp" "ae_pending e \<longleftrightarrow> ae_timer e \<noteq> None"
    using stored(1) inv by (auto simp: arp_inv_def entry_ok_def new_entry_def split: option.splits)
  note u = update_result [OF inv e(1) conjunct1 [OF process_sources [OF r]] e(2), folded stored(2)]
  obtain rest where rest: "arp_events a' = arp_events a1 @ rest" "\<forall>ev\<in>set rest. arp_ended ev = None"
    using stored(3) sendArpReply_result(1) [of ie arp a1 a'] by (metis append_Nil2 empty_iff empty_set)
  have same: "arpCache a' = arpCache a1" "arp_config a' = arp_config a1"
    using stored(3) sendArpReply_result(3,4) by auto
  have find: "arp_find j a' = arp_find j a1" for j using same(1) by (simp add: arp_find_def)
  have "arp_inv a'" using arp_inv_frame [OF _ same] u by blast
  then show ?thesis using u rest same(2) stored(1) find by (auto simp: new_entry_def)
qed

lemma process_waiting:
  assumes "arp_inv a" and "processArpPacket i arp t a = Inr (a', t')" and "arp_events a = []" and "arp_waiting j a"
  shows "arp_waiting j a' \<or> Some j \<in> arp_ended ` set (arp_events a')"
  using process_result [OF assms(1,2)] assms(3,4)
  by (cases "j = ar_srcIpAddress arp") (auto simp: arp_waiting_def split: if_splits option.splits)

text \<open>The expiry of the timer: another request, or the resolution fails.\<close>

lemma timeout_result:
  assumes inv: "arp_inv a" and e: "arp_find k a = Some e" and r: "requestTimedOut k t a = Inr a'"
    and p: "ae_pending e"
  shows "arp_inv a' \<and> arp_config a' = arp_config a \<and> (\<forall>j. j \<noteq> k \<longrightarrow> arp_find j a' = arp_find j a) \<and>
    (if ae_numRetries e + 1 < retryCount a
     then arp_find k a' = Some (e\<lparr>ae_numRetries := ae_numRetries e + 1, ae_timer := Some (arp_now a + retryTimeout a)\<rparr>) \<and>
       (\<exists>evs. arp_events a' = arp_events a @ evs \<and> (\<forall>ev\<in>set evs. arp_ended ev = None))
     else arp_find k a' = None \<and> arp_events a' = arp_events a @ [ResolutionFailed k (ae_ie e)])"
proof (cases "ae_numRetries e + 1 < retryCount a")
  case True
  have ok: "entry_ok a k e" "0 \<le> retryTimeout a" using inv e by (simp_all add: arp_inv_def)
  obtain ev where ev: "arp_ended ev = None"
    "a' = arp_put k (e\<lparr>ae_numRetries := ae_numRetries e + 1, ae_timer := Some (arp_now a + retryTimeout a)\<rparr>)
       ((arp_emit ev a)\<lparr>numRequestsSent := numRequestsSent a + 1\<rparr>)" (is "_ = arp_put k ?e ?a")
    using r e True by (auto simp: requestTimedOut_def Let_def ebind_Inr_iff dest!: sendArpRequest_result)
  have a: "arp_inv ?a" by (rule arp_inv_frame [OF inv]) simp_all
  have "entry_ok ?a = entry_ok a" by (rule entry_ok_config) simp
  moreover have "entry_ok a k ?e" using ok p True by (auto simp: entry_ok_def split: option.splits)
  ultimately have "arp_inv (arp_put k ?e ?a)" using arp_inv_put [OF a] by simp
  moreover have "arp_find j (arp_put k ?e ?a) = (if j = k then Some ?e else arp_find j a)" for j
    using arp_find_put [OF a, of j k ?e] by simp
  ultimately show ?thesis using True ev(1) unfolding ev(2) by simp
next
  case False
  have "ae_ipv4Address e = k" using inv e by (simp add: arp_inv_def entry_ok_def)
  then have a': "a' = (arp_erase k (arp_emit (ResolutionFailed k (ae_ie e)) a))
      \<lparr>numFailedResolutions := numFailedResolutions a + 1\<rparr>"
    using r e False by (auto simp: requestTimedOut_def Let_def)
  have "arp_inv (arp_erase k (arp_emit (ResolutionFailed k (ae_ie e)) a))"
    using arp_inv_erase arp_inv_emit inv by blast
  then have "arp_inv a'" unfolding a' by (rule arp_inv_frame) simp_all
  then show ?thesis using False unfolding a' by (simp add: arp_find_erase)
qed

section \<open>The contract holds\<close>

text \<open>The steps of the module; each starts with no events, which the client has handled.\<close>

inductive arp_step :: "Arp \<Rightarrow> arp_event list \<Rightarrow> Arp \<Rightarrow> bool" where
  resolve: "arp_events a = [] \<Longrightarrow> resolveL3Address k i t a = Inr (m, a') \<Longrightarrow>
    arp_step a (arp_events a') (a'\<lparr>arp_events := []\<rparr>)"
| receive: "arp_events a = [] \<Longrightarrow> processArpPacket i arp t a = Inr (a', t') \<Longrightarrow>
    arp_step a (arp_events a') (a'\<lparr>arp_events := []\<rparr>)"
| expire: "arp_events a = [] \<Longrightarrow> arp_find k a = Some e \<Longrightarrow> ae_timer e \<noteq> None \<Longrightarrow> requestTimedOut k t a = Inr a' \<Longrightarrow>
    arp_step a (arp_events a') (a'\<lparr>arp_events := []\<rparr>)"

lemma entry_pending: "arp_inv a \<Longrightarrow> arp_find k a = Some e \<Longrightarrow> ae_timer e \<noteq> None \<longleftrightarrow> ae_pending e"
  by (auto simp: arp_inv_def entry_ok_def split: option.splits)

lemma arp_step_inv:
  assumes "arp_step a evs a'" and "arp_inv a"
  shows "arp_inv a' \<and> arp_config a' = arp_config a"
  using assms
proof (cases rule: arp_step.cases)
  case (resolve k i t m a1)
  then show ?thesis using resolve_result [OF assms(2) resolve(4)] arp_inv_frame [of a1 a'] by simp
next
  case (receive i arp t a1 t')
  then show ?thesis using process_result [OF assms(2) receive(4)] arp_inv_frame [of a1 a'] by simp
next
  case (expire k e t a1)
  then show ?thesis
    using timeout_result [OF assms(2) expire(4,6)] entry_pending [OF assms(2) expire(4)] arp_inv_frame [of a1 a'] by simp
qed

lemma arp_step_waits:
  assumes "arp_step a evs a'" and "arp_inv a" and j: "arp_waiting j a"
  shows "arp_waiting j a' \<or> Some j \<in> arp_ended ` set evs"
  using assms(1)
proof (cases rule: arp_step.cases)
  case (resolve k i t m a1)
  then show ?thesis using resolve_result [OF assms(2) resolve(4)] j by (simp add: arp_waiting_def)
next
  case (receive i arp t a1 t')
  then show ?thesis using process_waiting [OF assms(2) receive(4,3) j] by (simp add: arp_waiting_def)
next
  case (expire k e t a1)
  then show ?thesis
    using timeout_result [OF assms(2) expire(4,6)] entry_pending [OF assms(2) expire(4)] j
    by (cases "j = k") (auto simp: arp_waiting_def split: if_splits option.splits)
qed

interpretation arp: resolver arp_step arp_inv arp_waiting arp_ended
proof
  show "arp_inv r \<Longrightarrow> arp_step r es r' \<Longrightarrow> arp_inv r'" for r es r' using arp_step_inv by blast
  show "arp_inv r \<Longrightarrow> arp_step r es r' \<Longrightarrow> arp_waiting k r \<Longrightarrow> arp_waiting k r' \<or> Some k \<in> arp_ended ` set es"
    for r es r' k using arp_step_waits by blast
qed

end
