(* ===== verification/Ipv4FragProps.thy ===== *)
theory Ipv4FragProps
  imports Ipv4Frag
begin

text \<open>
  Reassembly is the inverse of fragmentation. The pieces of a datagram that fragmentation makes, at one or at
  several routers on the way, tile its payload; the buffer of a datagram holds exactly the tiles that have arrived.
\<close>

section \<open>Pieces of a datagram\<close>

text \<open>The fields that every fragment copies and no router changes.\<close>

definition hdr_rest :: "Ipv4Header \<Rightarrow>
  (int \<times> u16 \<times> u16 \<times> bool \<times> int) \<times> CrcMode \<times> Ipv4Address \<times> Ipv4Address \<times> TlvOption list \<times> bool" where
  "hdr_rest h = ((headerLength h, typeOfService h, identification h, dontFragment h, protocolId h), ip_crcMode h,
     srcAddress h, destAddress h, ip_options h, ip_isCorrect h)"

text \<open>What routers change in a packet that they forward: the hop count, the checksum, the trace and the tags.\<close>

definition in_transit :: "Packet \<Rightarrow> Packet \<Rightarrow> bool" where
  "in_transit q q' = (payload q' = payload q \<and> hdr_rest (ipHeader q') = hdr_rest (ipHeader q) \<and>
     totalLengthField (ipHeader q') = totalLengthField (ipHeader q) \<and>
     fragmentOffset (ipHeader q') = fragmentOffset (ipHeader q) \<and>
     moreFragments (ipHeader q') = moreFragments (ipHeader q))"

text \<open>
  The pieces into which a datagram has been broken: whatever router fragments whatever piece, with its own
  checksum, mode and MTU, and changes what routers change.
\<close>

inductive fragmented :: "Packet \<Rightarrow> Packet list \<Rightarrow> bool" for p :: Packet where
  whole: "fragmented p [p]"
| hop: "fragmented p (xs @ q # ys) \<Longrightarrow> in_transit q q' \<Longrightarrow> fragmented p (xs @ q' # ys)"
| split: "fragmented p (xs @ q # ys) \<Longrightarrow> fragment_datagram chk mode mtu q = Inr frs \<Longrightarrow> fragmented p (xs @ frs @ ys)"

text \<open>A datagram as a sender makes it, with a payload whose offsets fit the 16 bits of the field.\<close>

definition whole_datagram :: "Packet \<Rightarrow> bool" where
  "whole_datagram p = (totalLengthField (ipHeader p) = getDataLength p \<and> \<not> isFragment (ipHeader p) \<and>
     payload p \<noteq> [] \<and> length (payload p) < 65536)"

definition frag_start :: "Packet \<Rightarrow> nat" where
  "frag_start q = unat (fragmentOffset (ipHeader q))"

definition frag_end :: "Packet \<Rightarrow> nat" where
  "frag_end q = frag_start q + length (payload q)"

definition piece :: "Packet \<Rightarrow> Packet \<Rightarrow> bool" where
  "piece p q = (hdr_rest (ipHeader q) = hdr_rest (ipHeader p) \<and> payload q \<noteq> [] \<and> frag_end q \<le> length (payload p) \<and>
     payload q = take (length (payload q)) (drop (frag_start q) (payload p)) \<and>
     totalLengthField (ipHeader q) = getDataLength q \<and>
     (moreFragments (ipHeader q) \<longleftrightarrow> frag_end q < length (payload p)))"

fun tiles :: "Packet \<Rightarrow> nat \<Rightarrow> Packet list \<Rightarrow> nat \<Rightarrow> bool" where
  "tiles p a [] b = (a = b)"
| "tiles p a (q # qs) b = (piece p q \<and> frag_start q = a \<and> tiles p (frag_end q) qs b)"

lemma piece_key: "piece p q \<Longrightarrow> frag_key q = frag_key p"
  by (simp add: piece_def frag_key_def hdr_rest_def)

lemma in_transit_piece:
  assumes "in_transit q q'" and "piece p q"
  shows "piece p q' \<and> frag_start q' = frag_start q \<and> frag_end q' = frag_end q"
proof -
  have "headerLength (ipHeader q') = headerLength (ipHeader q)"
    using assms(1) by (simp add: in_transit_def hdr_rest_def)
  then show ?thesis
    using assms by (simp add: in_transit_def piece_def frag_start_def frag_end_def getDataLength_def)
qed

lemma tiles_append: "tiles p a (xs @ ys) b \<longleftrightarrow> (\<exists>m. tiles p a xs m \<and> tiles p m ys b)"
  by (induction xs arbitrary: a) auto

lemma tiles_le: "tiles p a qs b \<Longrightarrow> a \<le> b"
  by (induction qs arbitrary: a) (auto simp: frag_end_def dest: add_leD1)

lemma tiles_piece: "tiles p a qs b \<Longrightarrow> q \<in> set qs \<Longrightarrow> piece p q \<and> a \<le> frag_start q \<and> frag_end q \<le> b"
proof (induction qs arbitrary: a)
  case (Cons x qs)
  then show ?case using tiles_le [of p "frag_end x" qs b] by (fastforce simp: frag_end_def)
qed simp

text \<open>Every position belongs to exactly one tile.\<close>

lemma tiles_cover: "tiles p a qs b \<Longrightarrow> a \<le> i \<Longrightarrow> i < b \<Longrightarrow> \<exists>q\<in>set qs. frag_start q \<le> i \<and> i < frag_end q"
proof (induction qs arbitrary: a)
  case (Cons x qs)
  show ?case
  proof (cases "i < frag_end x")
    case True
    then show ?thesis using Cons.prems by auto
  next
    case False
    then show ?thesis using Cons.IH [of "frag_end x"] Cons.prems by auto
  qed
qed simp

lemma tiles_unique:
  assumes "tiles p a qs b" and "q \<in> set qs" "q' \<in> set qs"
    and "frag_start q \<le> i" "i < frag_end q" "frag_start q' \<le> i" "i < frag_end q'"
  shows "q = q'"
  using assms
proof (induction qs arbitrary: a)
  case (Cons x qs)
  have rest: "frag_end x \<le> frag_start y" if "y \<in> set qs" for y
    using tiles_piece [of p "frag_end x" qs b y] Cons.prems(1) that by simp
  show ?case
  proof (cases "q = x \<or> q' = x")
    case True
    then show ?thesis using rest Cons.prems by (metis leD le_trans set_ConsD)
  next
    case False
    then show ?thesis using Cons by auto
  qed
qed simp

subsection \<open>Fragmentation makes tiles\<close>

lemma whole_tiles: "whole_datagram p \<Longrightarrow> tiles p 0 [p] (length (payload p))"
  by (simp add: whole_datagram_def isFragment_def piece_def frag_start_def frag_end_def)

lemma make_fragment_piece:
  assumes p: "piece p q" "length (payload p) < 65536" and o: "o' < length (payload q)" and l: "0 < l"
    and x_def: "x = make_fragment chk mode (int l) q (int o')"
  shows "piece p x \<and> frag_start x = frag_start q + o' \<and>
    frag_end x = frag_start q + min (o' + l) (length (payload q))"
proof -
  let ?m = "min l (length (payload q) - o')"
  have len: "nat (if int o' + int l \<ge> int (length (payload q)) then int (length (payload q)) - int o' else int l) = ?m"
    using o by auto
  have d: "payload x = take ?m (drop o' (payload q))"
    using len unfolding x_def make_fragment_def Let_def by simp
  have lx: "length (payload x) = ?m" using d o by simp
  have small: "frag_start q + o' < 65536"
    using p o by (auto simp: piece_def frag_end_def)
  have "word_of_int (uint (fragmentOffset (ipHeader q)) + int o') = (of_nat (frag_start q + o') :: u16)"
    by (simp add: frag_start_def)
  then have "unat (word_of_int (uint (fragmentOffset (ipHeader q)) + int o') :: u16) = frag_start q + o'"
    using small by (simp add: unat_of_nat del: of_nat_add)
  then have s: "frag_start x = frag_start q + o'"
    by (simp add: x_def make_fragment_def Let_def frag_start_def)
  have e: "frag_end x = frag_start q + min (o' + l) (length (payload q))"
    using s lx o by (auto simp: frag_end_def)
  have "payload q = take (length (payload q)) (drop (frag_start q) (payload p))" using p by (simp add: piece_def)
  then have "payload x = take ?m (drop o' (take (length (payload q)) (drop (frag_start q) (payload p))))"
    using d by simp
  also have "\<dots> = take ?m (drop (frag_start q + o') (payload p))"
    using o by (simp add: drop_take add.commute take_drop [symmetric])
  finally have cut: "payload x = take (length (payload x)) (drop (frag_start x) (payload p))"
    using lx s by simp
  have "hdr_rest (ipHeader x) = hdr_rest (ipHeader q)"
    by (simp add: x_def make_fragment_def Let_def hdr_rest_def)
  moreover have "totalLengthField (ipHeader x) = getDataLength x"
    using lx o by (simp add: x_def make_fragment_def Let_def getDataLength_def)
  moreover have "moreFragments (ipHeader x) \<longleftrightarrow> frag_end x < length (payload p)"
    using p(1) e o by (auto simp: x_def make_fragment_def Let_def piece_def frag_end_def)
  moreover have "frag_end x \<le> length (payload p)" using e p(1) by (auto simp: piece_def frag_end_def)
  ultimately show ?thesis
    using p(1) s e cut lx o l by (auto simp: piece_def)
qed

lemma fragment_loop_tiles:
  assumes p: "piece p q" "length (payload p) < 65536" and l: "0 < l" and "o' \<le> length (payload q)"
  shows "tiles p (frag_start q + o') (fragment_loop chk mode (int l) q (int o')) (frag_end q)"
  using assms(4)
proof (induction "length (payload q) - o'" arbitrary: o' rule: less_induct)
  case less
  show ?case
  proof (cases "o' < length (payload q)")
    case False
    then show ?thesis using less.prems by (subst fragment_loop.simps) (simp add: frag_end_def)
  next
    case True
    define m where "m = min (o' + l) (length (payload q))"
    have m: "(if int o' + int l \<ge> int (length (payload q)) then int (length (payload q)) else int o' + int l) = int m"
      by (auto simp: m_def)
    have unfold: "fragment_loop chk mode (int l) q (int o') =
        make_fragment chk mode (int l) q (int o') # fragment_loop chk mode (int l) q (int m)"
      using True l by (subst fragment_loop.simps) (simp add: Let_def m)
    have "tiles p (frag_start q + m) (fragment_loop chk mode (int l) q (int m)) (frag_end q)"
      using less.hyps [of m] True l by (auto simp: m_def)
    then show ?thesis
      using make_fragment_piece [OF p True l refl, of chk mode] unfold by (simp add: m_def)
  qed
qed

lemma fragment_datagram_tiles:
  assumes "piece p q" "length (payload p) < 65536" and "fragment_datagram chk mode mtu q = Inr frs"
  shows "tiles p (frag_start q) frs (frag_end q)"
proof -
  define k where "k = (mtu - headerLength (ipHeader q)) div 8 * 8"
  have "fragment_datagram chk mode mtu q =
      (if k \<le> 0 then Inl (RuntimeError ''Cannot fragment datagram: MTU too small for header size'')
       else Inr (fragment_loop chk mode k q 0))"
    by (simp only: fragment_datagram_def k_def Let_def)
  then have k: "0 < k" "frs = fragment_loop chk mode k q 0"
    using assms(3) by (simp_all split: if_splits)
  then obtain l where l: "0 < l" "frs = fragment_loop chk mode (int l) q (int 0)"
    by (auto elim: pos_int_cases)
  then show ?thesis using fragment_loop_tiles [OF assms(1,2) l(1), of 0 chk mode] l(2) by simp
qed

lemma fragmented_tiles:
  assumes "fragmented p frs" and "whole_datagram p"
  shows "tiles p 0 frs (length (payload p))"
  using assms
proof (induction rule: fragmented.induct)
  case whole
  then show ?case by (rule whole_tiles)
next
  case (hop xs q ys q')
  then obtain m where "tiles p 0 xs m" "piece p q" "frag_start q = m" "tiles p (frag_end q) ys (length (payload p))"
    by (auto simp: tiles_append)
  then show ?case using in_transit_piece [OF hop.hyps(2), of p] by (auto simp: tiles_append)
next
  case (split xs q ys chk mode mtu frs)
  then obtain m where m: "tiles p 0 xs m" "piece p q" "frag_start q = m" "tiles p (frag_end q) ys (length (payload p))"
    by (auto simp: tiles_append)
  have "tiles p m frs (frag_end q)"
    using fragment_datagram_tiles [OF m(2) _ split.hyps(2)] split.prems m(3) by (simp add: whole_datagram_def)
  then show ?case using m by (auto simp: tiles_append)
qed

section \<open>The buffer of one datagram\<close>

text \<open>The position \<open>i\<close> of the payload is in one of the pieces of \<open>G\<close>.\<close>

definition in_piece :: "Packet set \<Rightarrow> int \<Rightarrow> bool" where
  "in_piece G i = (\<exists>q\<in>G. int (frag_start q) \<le> i \<and> i < int (frag_end q))"

text \<open>The buffer that holds the pieces \<open>G\<close> of the datagram \<open>p\<close>.\<close>

definition buffer_of :: "Packet \<Rightarrow> Packet set \<Rightarrow> DatagramBuffer \<Rightarrow> bool" where
  "buffer_of p G b = (let n = int (length (payload p)); rs = ra_regions (db_buf b) in
     buf_wf rs \<and> buf_abs rs = (\<lambda>i. if in_piece G i then Some (payload p ! nat i) else None) \<and>
     expectedLength (db_buf b) = (if in_piece G (n - 1) then n else -1) \<and>
     (case db_packet b of None \<Rightarrow> G = {} | Some pk \<Rightarrow> pk \<in> G \<and> (in_piece G 0 \<longrightarrow> frag_start pk = 0)))"

lemma in_piece_simps [simp]:
  "in_piece {} i = False"
  "in_piece (insert q G) i \<longleftrightarrow> (int (frag_start q) \<le> i \<and> i < int (frag_end q)) \<or> in_piece G i"
  by (auto simp: in_piece_def)

lemma buffer_of_new: "buffer_of p {} new_DatagramBuffer"
  by (simp add: buffer_of_def new_DatagramBuffer_def buf_wf_def fun_eq_iff)

lemma piece_segment:
  assumes "piece p q"
  shows "segment_of (\<lambda>i. payload p ! nat i) (int (frag_start q), payload q)"
proof -
  have "payload q ! k = payload p ! (frag_start q + k)" if k: "k < length (payload q)" for k
  proof -
    have "payload q = take (length (payload q)) (drop (frag_start q) (payload p))"
      and e: "frag_start q + length (payload q) \<le> length (payload p)"
      using assms by (simp_all add: piece_def frag_end_def)
    then have "payload q ! k = take (length (payload q)) (drop (frag_start q) (payload p)) ! k" by metis
    also have "\<dots> = payload p ! (frag_start q + k)" using k e by simp
    finally show ?thesis .
  qed
  then have "payload q = map (\<lambda>k. payload p ! nat (int (frag_start q) + int k)) [0..<length (payload q)]"
    by (intro nth_equalityI) (simp_all add: nat_add_distrib)
  moreover have "payload q \<noteq> []" using assms by (simp add: piece_def)
  ultimately show ?thesis by (simp add: segment_of_def)
qed

lemma add_piece:
  assumes b: "buffer_of p G b" and q: "piece p q"
  shows "\<exists>b'. add_to_buffer cb cf q b = Inr b' \<and> buffer_of p (insert q G) b'"
proof -
  let ?n = "int (length (payload p))" and ?h = "ipHeader q"
  have bytes: "totalLengthField ?h - headerLength ?h = int (length (payload q))"
    "totalLengthField ?h > headerLength ?h"
    using q by (auto simp: piece_def getDataLength_def)
  have dat: "peek_payload 0 (int (length (payload q))) q = Inr (payload q)" by (simp add: peek_payload_def)
  have off: "uint (fragmentOffset ?h) = int (frag_start q)" by (simp add: frag_start_def)
  have wf: "buf_wf (ra_regions (db_buf b))" using b by (simp add: buffer_of_def Let_def)
  have ne: "payload q \<noteq> []" using q by (simp add: piece_def)
  obtain rs where rs: "ChunkBuffer.replace cb cf (int (frag_start q)) (payload q) (ra_regions (db_buf b)) = Inr rs"
    "buf_wf rs" "buf_abs rs = buf_abs (ra_regions (db_buf b)) ++
       reg_map \<lparr>r_offset = int (frag_start q), r_data = payload q\<rparr>"
    using replace_buf_abs [OF wf _ ne, of "int (frag_start q)" cb cf] by auto
  have abs: "buf_abs rs = (\<lambda>i. if in_piece (insert q G) i then Some (payload p ! nat i) else None)"
    using b unfolding rs(3) buffer_of_def Let_def
    by (auto simp: map_add_def fun_eq_iff reg_map_segment [OF piece_segment [OF q]] frag_end_def chunkLength_def)
  define b' where "b' = b\<lparr>db_buf := \<lparr>ra_regions = rs, expectedLength =
        (if \<not> moreFragments ?h then int (frag_start q) + int (length (payload q)) else expectedLength (db_buf b))\<rparr>,
      db_packet := (if int (frag_start q) = 0 \<or> db_packet b = None then Some q else db_packet b)\<rparr>"
  have add: "add_to_buffer cb cf q b = Inr b'"
    unfolding add_to_buffer_def Let_def bytes(1) off b'_def by (simp only: bytes(2) dat rs(1) ebind_simps ebind_assert)
  have len: "expectedLength (db_buf b') = (if in_piece (insert q G) (?n - 1) then ?n else -1)"
    using b q by (auto simp: b'_def buffer_of_def Let_def piece_def frag_end_def split: if_splits)
  have pk: "case db_packet b' of None \<Rightarrow> insert q G = {} |
      Some pk \<Rightarrow> pk \<in> insert q G \<and> (in_piece (insert q G) 0 \<longrightarrow> frag_start pk = 0)"
    using b by (auto simp: b'_def buffer_of_def Let_def split: option.splits)
  have "db_buf b' = \<lparr>ra_regions = rs, expectedLength = expectedLength (db_buf b')\<rparr>" by (simp add: b'_def)
  then have "buffer_of p (insert q G) b'"
    unfolding buffer_of_def Let_def using rs(2) abs len pk by (metis reassembly_buffer.select_convs(1))
  with add show ?thesis by blast
qed

text \<open>The buffer is complete when the pieces cover the payload, and then it holds the payload.\<close>

lemma complete_buffer:
  assumes b: "buffer_of p G b" and G: "\<forall>q\<in>G. piece p q" and p: "payload p \<noteq> []"
  shows "isComplete (db_buf b) \<longleftrightarrow> (\<forall>i. 0 \<le> i \<and> i < int (length (payload p)) \<longrightarrow> in_piece G i)"
    and "isComplete (db_buf b) \<Longrightarrow> getReassembledData (db_buf b) = Inr (payload p)"
proof -
  let ?n = "length (payload p)" and ?rs = "ra_regions (db_buf b)"
  have wf: "buf_wf ?rs" and abs: "buf_abs ?rs = (\<lambda>i. if in_piece G i then Some (payload p ! nat i) else None)"
    and len: "expectedLength (db_buf b) = (if in_piece G (int ?n - 1) then int ?n else -1)"
    using b by (simp_all add: buffer_of_def Let_def)
  have inside: "in_piece G i \<Longrightarrow> 0 \<le> i \<and> i < int ?n" for i
    using G by (fastforce simp: in_piece_def piece_def)
  have one: "?rs = [\<lparr>r_offset = 0, r_data = payload p\<rparr>]" if all: "\<forall>i. 0 \<le> i \<and> i < int ?n \<longrightarrow> in_piece G i"
  proof -
    have "buf_abs ?rs = (\<lambda>i. if 0 \<le> i \<and> i < 0 + int ?n then Some (payload p ! nat i) else None)"
    proof
      fix i
      have "in_piece G i = (0 \<le> i \<and> i < 0 + int ?n)" using spec [OF all, of i] inside [of i] by linarith
      then show "buf_abs ?rs i = (if 0 \<le> i \<and> i < 0 + int ?n then Some (payload p ! nat i) else None)"
        using abs by simp
    qed
    from single_region [OF wf _ this] p have
      "?rs = [\<lparr>r_offset = 0, r_data = map (\<lambda>k. payload p ! nat (0 + int k)) [0..<?n]\<rparr>]" by simp
    then show ?thesis by (simp add: map_nth)
  qed
  have all: "in_piece G i" if c: "isComplete (db_buf b)" and i: "0 \<le> i" "i < int ?n" for i
  proof -
    obtain r where r: "?rs = [r]" "r_offset r = 0" "chunkLength (r_data r) = expectedLength (db_buf b)"
      using c by (auto simp: isComplete_def split: list.splits)
    have "expectedLength (db_buf b) = int ?n"
      using r(3) len by (auto simp: chunkLength_def split: if_splits)
    then have "buf_abs ?rs i \<noteq> None"
      using i r by (simp add: reg_map_def getStartOffset_def getEndOffset_def)
    then show ?thesis using abs by (auto split: if_splits)
  qed
  have complete: "isComplete (db_buf b)" if a: "\<forall>i. 0 \<le> i \<and> i < int ?n \<longrightarrow> in_piece G i"
  proof -
    have "in_piece G (int ?n - 1)" using a p by simp
    then show ?thesis using one [OF a] len by (simp add: isComplete_def chunkLength_def)
  qed
  show "isComplete (db_buf b) \<longleftrightarrow> (\<forall>i. 0 \<le> i \<and> i < int ?n \<longrightarrow> in_piece G i)"
    using all complete by blast
  assume c: "isComplete (db_buf b)"
  then have "?rs = [\<lparr>r_offset = 0, r_data = payload p\<rparr>]" using one all by blast
  with c show "getReassembledData (db_buf b) = Inr (payload p)" by (simp add: getReassembledData_def)
qed

section \<open>The map of buffers\<close>

definition frags_wf :: "Ipv4FragBuf \<Rightarrow> bool" where
  "frags_wf bufs = (sorted_wrt (<) (map fst bufs) \<and> (\<forall>(k, b)\<in>set bufs. buf_wf (ra_regions (db_buf b))))"

text \<open>A fragment that has data, and no less than its header announces.\<close>

definition frag_ok :: "Packet \<Rightarrow> bool" where
  "frag_ok q = (headerLength (ipHeader q) < totalLengthField (ipHeader q) \<and>
     totalLengthField (ipHeader q) \<le> getDataLength q)"

definition has_pieces :: "Packet \<Rightarrow> Packet set \<Rightarrow> Ipv4FragBuf \<Rightarrow> bool" where
  "has_pieces p G bufs = (case map_of bufs (frag_key p) of None \<Rightarrow> G = {} | Some b \<Rightarrow> buffer_of p G b)"

text \<open>The arrivals of fragments, with what each of them gives.\<close>

fun frag_run :: "u8 can_insert \<Rightarrow> u8 can_insert \<Rightarrow> (simtime \<times> Packet) list \<Rightarrow> Ipv4FragBuf \<Rightarrow>
    err + Packet option list \<times> Ipv4FragBuf" where
  "frag_run cb cf [] bufs = Inr ([], bufs)"
| "frag_run cb cf ((now, q) # arr) bufs = ebind (addFragment cb cf now q bufs) (\<lambda>(out, bufs1).
     ebind (frag_run cb cf arr bufs1) (\<lambda>(outs, bufs2). Inr (out # outs, bufs2)))"

lemma map_set_entries: "e \<in> set (map_set k v m) \<Longrightarrow> e = (k, v) \<or> e \<in> set m"
  by (induction k v m rule: map_set.induct) (auto split: if_splits)

lemma frags_wf_put: "frags_wf bufs \<Longrightarrow> buf_wf (ra_regions (db_buf b)) \<Longrightarrow> frags_wf (map_set k b bufs)"
  unfolding frags_wf_def by (auto simp: sorted_map_set dest: map_set_entries)

lemma frags_wf_erase: "frags_wf bufs \<Longrightarrow> frags_wf (filter (\<lambda>(k, _). k \<noteq> key) bufs)"
  unfolding frags_wf_def by (induction bufs) auto

lemma map_of_erase: "map_of (filter (\<lambda>(k, _). k \<noteq> key) bufs) key' = (if key' = key then None else map_of bufs key')"
  by (induction bufs) auto

lemma map_of_put: "frags_wf bufs \<Longrightarrow> map_of (map_set k b bufs) = (map_of bufs)(k \<mapsto> b)"
  by (simp add: frags_wf_def map_of_map_set)

lemma frags_wf_lookup: "frags_wf bufs \<Longrightarrow> map_of bufs key = Some b \<Longrightarrow> buf_wf (ra_regions (db_buf b))"
  by (auto simp: frags_wf_def dest: map_of_SomeD)

lemma add_to_buffer_ok:
  assumes "frag_ok q" and "buf_wf (ra_regions (db_buf b))"
  shows "\<exists>b'. add_to_buffer cb cf q b = Inr b' \<and> buf_wf (ra_regions (db_buf b')) \<and> db_packet b' \<noteq> None"
proof -
  let ?h = "ipHeader q" let ?bytes = "totalLengthField ?h - headerLength ?h"
  have pos: "headerLength ?h < totalLengthField ?h" and len: "?bytes \<le> int (length (payload q))"
    using assms(1) by (simp_all add: frag_ok_def getDataLength_def)
  have dat: "peek_payload 0 ?bytes q = Inr (take (nat ?bytes) (payload q))"
    using len by (simp add: peek_payload_def)
  have "take (nat ?bytes) (payload q) \<noteq> []" using pos len by auto
  from replace_buf_abs [OF assms(2) _ this, of "uint (fragmentOffset ?h)" cb cf] obtain rs where
    rs: "ChunkBuffer.replace cb cf (uint (fragmentOffset ?h)) (take (nat ?bytes) (payload q)) (ra_regions (db_buf b)) = Inr rs"
    "buf_wf rs" by auto
  show ?thesis using pos dat rs by (simp add: add_to_buffer_def Let_def)
qed

lemma addFragment_other:
  assumes "frags_wf bufs" and "frag_ok q" and k: "frag_key q \<noteq> k"
  shows "\<exists>out bufs'. addFragment cb cf now q bufs = Inr (out, bufs') \<and> frags_wf bufs' \<and> map_of bufs' k = map_of bufs k"
proof -
  define cur where "cur = (case map_of bufs (frag_key q) of None \<Rightarrow> new_DatagramBuffer | Some b \<Rightarrow> b)"
  have "buf_wf (ra_regions (db_buf cur))"
    using frags_wf_lookup [OF assms(1)] by (auto simp: cur_def new_DatagramBuffer_def buf_wf_def split: option.split)
  from add_to_buffer_ok [OF assms(2) this, of cb cf] obtain b where
    b: "add_to_buffer cb cf q cur = Inr b" "buf_wf (ra_regions (db_buf b))" "db_packet b \<noteq> None" by blast
  show ?thesis
  proof (cases "isComplete (db_buf b)")
    case True
    then show ?thesis
      using b k frags_wf_erase [OF assms(1), of "frag_key q"]
      by (auto simp: addFragment_def Let_def cur_def [symmetric] getReassembledData_def map_of_erase)
  next
    case False
    then show ?thesis
      using b k frags_wf_put [OF assms(1)]
      by (auto simp: addFragment_def Let_def cur_def [symmetric] map_of_put [OF assms(1)])
  qed
qed

lemma addFragment_own:
  assumes wf: "frags_wf bufs" and bufs: "has_pieces p G bufs" and G: "\<forall>x\<in>G. piece p x"
    and q: "piece p q" and p: "payload p \<noteq> []"
  shows "if \<forall>i. 0 \<le> i \<and> i < int (length (payload p)) \<longrightarrow> in_piece (insert q G) i
    then \<exists>pk bufs'. addFragment cb cf now q bufs = Inr (Some (complete_datagram pk (payload p)), bufs') \<and>
      piece p pk \<and> frags_wf bufs' \<and> map_of bufs' (frag_key p) = None
    else \<exists>bufs'. addFragment cb cf now q bufs = Inr (None, bufs') \<and> frags_wf bufs' \<and> has_pieces p (insert q G) bufs'"
proof -
  note key = piece_key [OF q]
  define cur where "cur = (case map_of bufs (frag_key p) of None \<Rightarrow> new_DatagramBuffer | Some b \<Rightarrow> b)"
  have "buffer_of p G cur"
    using bufs buffer_of_new [of p] by (auto simp: has_pieces_def cur_def split: option.splits)
  from add_piece [OF this q, of cb cf] obtain b where
    b: "add_to_buffer cb cf q cur = Inr b" "buffer_of p (insert q G) b" by blast
  have pieces: "\<forall>x\<in>insert q G. piece p x" using G q by simp
  have bwf: "buf_wf (ra_regions (db_buf b))" using b(2) by (simp add: buffer_of_def Let_def)
  note full = complete_buffer [OF b(2) pieces p]
  let ?all = "\<forall>i. 0 \<le> i \<and> i < int (length (payload p)) \<longrightarrow> in_piece (insert q G) i"
  show ?thesis
  proof (cases ?all)
    case True
    then have c: "isComplete (db_buf b)" using full(1) by blast
    obtain pk where pk: "db_packet b = Some pk" "piece p pk"
      using b(2) pieces by (auto simp: buffer_of_def Let_def split: option.splits)
    have "addFragment cb cf now q bufs =
        Inr (Some (complete_datagram pk (payload p)), filter (\<lambda>(k, _). k \<noteq> frag_key p) bufs)"
      using c b(1) pk(1) full(2) by (simp add: addFragment_def key Let_def cur_def [symmetric])
    then show ?thesis
      unfolding if_P [OF True] using pk(2) frags_wf_erase [OF wf, of "frag_key p"]
        map_of_erase [of "frag_key p" bufs "frag_key p"] by auto
  next
    case False
    then have c: "\<not> isComplete (db_buf b)" using full(1) by blast
    let ?b = "b\<lparr>db_lastupdate := now\<rparr>"
    have "addFragment cb cf now q bufs = Inr (None, map_set (frag_key p) ?b bufs)"
      using c b(1) by (simp add: addFragment_def key Let_def cur_def [symmetric])
    moreover have "buffer_of p (insert q G) ?b" using b(2) by (simp add: buffer_of_def)
    then have "has_pieces p (insert q G) (map_set (frag_key p) ?b bufs)"
      by (simp add: has_pieces_def map_of_put [OF wf])
    moreover have "frags_wf (map_set (frag_key p) ?b bufs)" using frags_wf_put [OF wf] bwf by simp
    ultimately show ?thesis unfolding if_not_P [OF False] by blast
  qed
qed

text \<open>As long as a tile is missing, nothing comes out.\<close>

lemma missing_tile:
  assumes "tiles p 0 frs n" and x: "x \<in> set frs" "x \<notin> G" and "G \<subseteq> set frs"
  shows "\<not> in_piece G (int (frag_start x))"
proof
  assume "in_piece G (int (frag_start x))"
  then obtain q where "q \<in> G" "frag_start q \<le> frag_start x" "frag_start x < frag_end q" by (auto simp: in_piece_def)
  moreover have "frag_start x < frag_end x"
    using tiles_piece [OF assms(1) x(1)] by (simp add: piece_def frag_end_def)
  ultimately have "q = x" using tiles_unique [OF assms(1)] assms(2-4) by (meson order_refl subsetD)
  then show False using \<open>q \<in> G\<close> x(2) by simp
qed

lemma incomplete_run:
  assumes t: "tiles p 0 frs (length (payload p))" and p: "payload p \<noteq> []" and x: "x \<in> set frs" "x \<notin> G"
    and "G \<subseteq> set frs" "frags_wf bufs" "has_pieces p G bufs"
    and "\<forall>(now, q)\<in>set arr. q \<in> set frs \<and> q \<noteq> x \<or> frag_key q \<noteq> frag_key p \<and> frag_ok q"
  shows "\<exists>outs bufs'. frag_run cb cf arr bufs = Inr (outs, bufs') \<and> length outs = length arr \<and>
    (\<forall>i<length arr. frag_key (snd (arr ! i)) = frag_key p \<longrightarrow> outs ! i = None) \<and> frags_wf bufs' \<and>
    has_pieces p (G \<union> {q. q \<in> snd ` set arr \<and> q \<in> set frs}) bufs'"
  using assms(4-)
proof (induction arr arbitrary: G bufs)
  case Nil
  then show ?case by simp
next
  case (Cons a arr)
  obtain now q where a: "a = (now, q)" by fastforce
  have pieces: "\<forall>y\<in>G. piece p y" using Cons.prems(2) tiles_piece [OF t] by blast
  show ?case
  proof (cases "q \<in> set frs")
    case True
    have q: "piece p q" "q \<noteq> x" using True tiles_piece [OF t] Cons.prems(5) piece_key by (auto simp: a)
    have G': "insert q G \<subseteq> set frs" "x \<notin> insert q G" using True Cons.prems(1,2) q(2) by auto
    have "\<not> in_piece (insert q G) (int (frag_start x))" using missing_tile [OF t x(1) G'(2,1)] .
    moreover have "frag_start x < length (payload p)"
      using tiles_piece [OF t x(1)] by (auto simp: piece_def frag_end_def)
    ultimately have na: "\<not> (\<forall>i. 0 \<le> i \<and> i < int (length (payload p)) \<longrightarrow> in_piece (insert q G) i)"
      by (metis of_nat_0_le_iff of_nat_less_iff)
    obtain bufs1 where b1: "addFragment cb cf now q bufs = Inr (None, bufs1)" "frags_wf bufs1"
      "has_pieces p (insert q G) bufs1"
      using addFragment_own [OF Cons.prems(3,4) pieces q(1) p, of cb cf now] unfolding if_not_P [OF na] by blast
    obtain outs bufs' where r: "frag_run cb cf arr bufs1 = Inr (outs, bufs')" "length outs = length arr"
      "\<forall>i<length arr. frag_key (snd (arr ! i)) = frag_key p \<longrightarrow> outs ! i = None" "frags_wf bufs'"
      "has_pieces p (insert q G \<union> {q. q \<in> snd ` set arr \<and> q \<in> set frs}) bufs'"
      using Cons.IH [OF G'(2,1) b1(2,3)] Cons.prems(5) by (auto simp: a)
    have "insert q G \<union> {q. q \<in> snd ` set arr \<and> q \<in> set frs} = G \<union> {q. q \<in> snd ` set (a # arr) \<and> q \<in> set frs}"
      using True by (auto simp: a)
    then show ?thesis using b1(1) r by (auto simp: a nth_Cons split: nat.split)
  next
    case False
    then have q: "frag_key q \<noteq> frag_key p" "frag_ok q" using Cons.prems(5) by (auto simp: a)
    obtain out bufs1 where b1: "addFragment cb cf now q bufs = Inr (out, bufs1)" "frags_wf bufs1"
      "map_of bufs1 (frag_key p) = map_of bufs (frag_key p)"
      using addFragment_other [OF Cons.prems(3) q(2,1), of cb cf now] by blast
    then have "has_pieces p G bufs1" using Cons.prems(4) by (simp add: has_pieces_def)
    then obtain outs bufs' where r: "frag_run cb cf arr bufs1 = Inr (outs, bufs')" "length outs = length arr"
      "\<forall>i<length arr. frag_key (snd (arr ! i)) = frag_key p \<longrightarrow> outs ! i = None" "frags_wf bufs'"
      "has_pieces p (G \<union> {q. q \<in> snd ` set arr \<and> q \<in> set frs}) bufs'"
      using Cons.IH [OF Cons.prems(1,2) b1(2)] Cons.prems(5) by (auto simp: a)
    have "{q. q \<in> snd ` set arr \<and> q \<in> set frs} = {q. q \<in> snd ` set (a # arr) \<and> q \<in> set frs}"
      using False by (auto simp: a)
    then show ?thesis using b1(1) r q(1) by (auto simp: a nth_Cons split: nat.split)
  qed
qed

lemma frag_run_append:
  "frag_run cb cf (xs @ ys) bufs = ebind (frag_run cb cf xs bufs) (\<lambda>(outs, bufs1).
     ebind (frag_run cb cf ys bufs1) (\<lambda>(outs', bufs2). Inr (outs @ outs', bufs2)))"
proof (induction xs arbitrary: bufs)
  case Nil
  then show ?case by (cases "frag_run cb cf ys bufs") auto
next
  case (Cons x xs)
  obtain now q where "x = (now, q)" by fastforce
  then show ?case using Cons by (simp add: ebind_def split: sum.splits prod.splits)
qed

lemma completed_datagram:
  assumes "whole_datagram p" and "piece p pk"
  shows "in_transit p (complete_datagram pk (payload p))"
  using assms
  by (simp add: whole_datagram_def piece_def in_transit_def complete_datagram_def hdr_rest_def isFragment_def
      getDataLength_def Let_def)

section \<open>Properties\<close>

text \<open>
  C9. Reassembly is the inverse of fragmentation. Break a datagram into fragments, and these again, at whatever
  routers with whatever MTUs, and let the fragments arrive in any order, repeatedly, and mixed with fragments of other
  datagrams: the fragments of the datagram give nothing as long as one of them is missing, the last missing one
  gives the datagram, with its payload, length and header (up to what routers change), and the buffer is gone.
\<close>

theorem reassembly_inverts_fragmentation:
  assumes "whole_datagram p" and "fragmented p frs"
    and "frags_wf bufs" and "map_of bufs (frag_key p) = None"
    and "\<forall>(t, q)\<in>set arr. q \<in> set frs \<and> q \<noteq> x \<or> frag_key q \<noteq> frag_key p \<and> frag_ok q"
    and "x \<in> set frs" and "set frs \<subseteq> insert x (snd ` set arr)"
  shows "\<exists>outs r bufs'. frag_run cb cf (arr @ [(now, x)]) bufs = Inr (outs @ [Some r], bufs') \<and> in_transit p r \<and>
    length outs = length arr \<and> (\<forall>i<length arr. frag_key (snd (arr ! i)) = frag_key p \<longrightarrow> outs ! i = None) \<and>
    map_of bufs' (frag_key p) = None"
proof -
  have t: "tiles p 0 frs (length (payload p))" by (rule fragmented_tiles) (rule assms)+
  have p: "payload p \<noteq> []" using assms(1) by (simp add: whole_datagram_def)
  have "has_pieces p {} bufs" using assms(4) by (simp add: has_pieces_def)
  from incomplete_run [OF t p assms(6) _ _ assms(3) this assms(5), of cb cf] obtain outs bufs1 where
    r: "frag_run cb cf arr bufs = Inr (outs, bufs1)" "length outs = length arr"
    "\<forall>i<length arr. frag_key (snd (arr ! i)) = frag_key p \<longrightarrow> outs ! i = None" "frags_wf bufs1"
    "has_pieces p {q. q \<in> snd ` set arr \<and> q \<in> set frs} bufs1" by auto
  let ?G = "{q. q \<in> snd ` set arr \<and> q \<in> set frs}"
  have all: "insert x ?G = set frs" using assms(6,7) by auto
  have "\<exists>q\<in>set frs. int (frag_start q) \<le> i \<and> i < int (frag_end q)" if i: "0 \<le> i" "i < int (length (payload p))" for i
  proof -
    have "nat i < length (payload p)" using i by linarith
    then obtain q where "q \<in> set frs" "frag_start q \<le> nat i" "nat i < frag_end q"
      using tiles_cover [OF t, of "nat i"] by auto
    then show ?thesis using i by (intro bexI [of _ q]) auto
  qed
  then have full: "\<forall>i. 0 \<le> i \<and> i < int (length (payload p)) \<longrightarrow> in_piece (insert x ?G) i"
    unfolding all in_piece_def by blast
  have pieces: "\<forall>q\<in>?G. piece p q" "piece p x" using tiles_piece [OF t] assms(6) by auto
  obtain pk bufs2 where last: "addFragment cb cf now x bufs1 = Inr (Some (complete_datagram pk (payload p)), bufs2)"
    "piece p pk" "map_of bufs2 (frag_key p) = None"
    using addFragment_own [OF r(4,5) pieces p, of cb cf now] unfolding if_P [OF full] by blast
  have "frag_run cb cf (arr @ [(now, x)]) bufs = Inr (outs @ [Some (complete_datagram pk (payload p))], bufs2)"
    using r(1) last(1) by (simp add: frag_run_append)
  then show ?thesis using r(2,3) last(3) completed_datagram [OF assms(1) last(2)] by blast
qed

text \<open>A datagram of 20 bytes for a link with an MTU of 28.\<close>

definition example_datagram :: Packet where
  "example_datagram = \<lparr>ipHeader = new_Ipv4Header\<lparr>totalLengthField := 40, identification := 7, srcAddress := 0x0A000001,
     destAddress := 0x0A000002, timeToLive := 32\<rparr>, payload = map of_nat [0..<20], tags = no_tags, bitError = False\<rparr>"

definition example_fragment :: "int \<Rightarrow> Packet" where
  "example_fragment offset = make_fragment (\<lambda>_. 0) CRC_DECLARED_CORRECT 8 example_datagram offset"

theorem reassembly_inverts_fragmentation_witness:
  "\<exists>outs r bufs'. frag_run (\<lambda>_ _. True) (\<lambda>_ _. True)
      ([(1, example_fragment 16), (2, example_fragment 0), (3, example_fragment 16)] @ [(4, example_fragment 8)]) [] =
     Inr (outs @ [Some r], bufs') \<and> in_transit example_datagram r \<and> outs ! 1 = None"
proof -
  let ?p = example_datagram and ?arr = "[(1, example_fragment 16), (2, example_fragment 0), (3, example_fragment 16)]"
  let ?frs = "[example_fragment 0, example_fragment 8, example_fragment 16]"
  have len: "length (payload ?p) = 20" by (simp add: example_datagram_def)
  have "whole_datagram ?p"
    by (simp add: whole_datagram_def example_datagram_def new_Ipv4Header_def getDataLength_def isFragment_def
        IPv4_MIN_HEADER_LENGTH_def)
  moreover have "fragment_datagram (\<lambda>_. 0) CRC_DECLARED_CORRECT 28 ?p = Inr ?frs"
    using len by (simp add: fragment_datagram_def fragment_loop.simps [of _ _ _ ?p] example_fragment_def Let_def)
      (simp add: example_datagram_def new_Ipv4Header_def IPv4_MIN_HEADER_LENGTH_def)
  then have "fragmented ?p ?frs"
    using fragmented.split [of ?p "[]" ?p "[]"] fragmented.whole [of ?p] by fastforce
  moreover have "frag_key (example_fragment k) = frag_key ?p" for k
    by (simp add: example_fragment_def make_fragment_def frag_key_def Let_def)
  moreover have "example_fragment 16 \<noteq> example_fragment 8" "example_fragment 0 \<noteq> example_fragment 8"
    by (simp_all add: example_fragment_def make_fragment_def example_datagram_def new_Ipv4Header_def Let_def)
  ultimately show ?thesis
    using reassembly_inverts_fragmentation [of ?p ?frs "[]" ?arr "example_fragment 8" "\<lambda>_ _. True" "\<lambda>_ _. True" 4]
    by (force simp: frags_wf_def)
qed

end
