(* ===== verification/Ipv4Datapath.thy ===== *)
theory Ipv4Datapath
  imports Ipv4 ArpProps Ipv4FragProps
begin

text \<open>
  The datapath over its output. Everything that the module does with a packet, from its reception or from above down
  to \<open>sendDatagramToOutput\<close>, touches the queues, the ARP module and the interfaces only there. The locale
  \<open>datapath\<close> is this interface: a property of the state that depends on those parts only and that
  \<open>sendDatagramToOutput\<close> keeps is kept by every handler.
\<close>

section \<open>The interface\<close>

definition live_ttl :: "Packet \<Rightarrow> bool" where
  "live_ttl p = (timeToLive (ipHeader p) > 0)"

text \<open>
  What the datapath changes only through \<open>sendDatagramToOutput\<close>: the ARP module, the queues of datagrams that wait and
  the outputs, which are the packets sent to an interface, the signals of ARP and the datagrams given up with them. The
  two parameters that make the node a router never change.
\<close>

fun is_output :: "ip_event \<Rightarrow> bool" where
  "is_output (ToNIC p) = True"
| "is_output (ArpEvent e) = True"
| "is_output (Dropped r p) = (r = ADDRESS_RESOLUTION_FAILED)"
| "is_output _ = False"

definition outputs :: "Ipv4 \<Rightarrow> ip_event list" where
  "outputs s = filter is_output (ip_events s)"

definition core :: "Ipv4 \<Rightarrow> Arp \<times> (Ipv4Address \<times> Packet list) list \<times> ip_event list \<times> bool \<times> bool" where
  "core s = (ip_arp s, pendingPackets s, outputs s, ip_forwarding s, ip_multicastForward s)"

lemma core_simps [simp]:
  "core (s\<lparr>ip_rt := t\<rparr>) = core s" "core (s\<lparr>curFragmentId := c\<rparr>) = core s" "core (s\<lparr>fragbuf := b\<rparr>) = core s"
  "core (s\<lparr>lastCheckTime := lt\<rparr>) = core s" "core (s\<lparr>upperProtocols := u\<rparr>) = core s"
  "core (s\<lparr>socketIdToSocketDescriptor := sd\<rparr>) = core s" "core (s\<lparr>numMulticast := n\<rparr>) = core s"
  "core (s\<lparr>numLocalDeliver := n\<rparr>) = core s" "core (s\<lparr>numDropped := n\<rparr>) = core s"
  "core (s\<lparr>numUnroutable := n\<rparr>) = core s" "core (s\<lparr>numForwarded := n\<rparr>) = core s" "core (s\<lparr>hooks := h\<rparr>) = core s"
  "core (s\<lparr>queuedDatagramsForHooks := q\<rparr>) = core s"
  by (simp_all add: core_def outputs_def)
lemma core_emit [simp]: "\<not> is_output e \<Longrightarrow> core (ip_emit e s) = core s"
  by (simp add: core_def outputs_def ip_emit_def)

lemma core_helpers [simp]:
  "r \<noteq> ADDRESS_RESOLUTION_FAILED \<Longrightarrow> core (drop_packet r p s) = core s" "core (count_dropped s) = core s"
  "core (count_unroutable s) = core s" "core (sendIcmpError p i e s) = core s"
  by (simp_all add: drop_packet_def count_dropped_def count_unroutable_def sendIcmpError_def)

lemma core_fold: "(\<And>x s. core (f x s) = core s) \<Longrightarrow> core (fold f xs s) = core s"
  by (induction xs arbitrary: s) simp_all

lemma live_ttl_tags [simp]:
  "live_ttl (upd_tags f p) = live_ttl p" "live_ttl (setInterfaceReq i p) = live_ttl p"
  "live_ttl (setMacAddressReq m p) = live_ttl p" "live_ttl (setNextHop a p) = live_ttl p"
  by (simp_all add: live_ttl_def upd_tags_def setInterfaceReq_def setMacAddressReq_def setNextHop_def)

lemma yields_bind: "yields Q r \<Longrightarrow> (\<And>x. Q x \<Longrightarrow> yields P (f x)) \<Longrightarrow> yields P (ebind r f)"
  by (cases r) simp_all

lemma yields_any: "yields (\<lambda>_. True) r"
  by (cases r) simp_all
lemma yields_pair: "(\<And>x y. yields P (f x y)) \<Longrightarrow> yields P (case p of (x, y) \<Rightarrow> f x y)"
  by (cases p) simp

lemma encapsulate_core: "yields (\<lambda>(p, s1). core s1 = core s) (encapsulate tp s)"
  unfolding encapsulate_def Let_def
  by (rule yields_seq yields_pair | (simp; fail))+

text \<open>The steps that do not act on the ARP module from outside.\<close>

fun datapath_op :: "ip_op \<Rightarrow> bool" where
  "datapath_op (ArpPacketIn i arp) = False"
| "datapath_op (ArpTimer k) = False"
| "datapath_op (Wait n) = False"
| "datapath_op Stop = False"
| "datapath_op _ = True"

text \<open>A handler of packets keeps a property of the state.\<close>

definition keeps :: "(Ipv4 \<Rightarrow> bool) \<Rightarrow> (Packet \<Rightarrow> Ipv4 \<Rightarrow> err + Ipv4) \<Rightarrow> bool" where
  "keeps I f = (\<forall>p s. I s \<longrightarrow> yields I (f p s))"

lemma keepsI: "(\<And>p s. I s \<Longrightarrow> yields I (f p s)) \<Longrightarrow> keeps I f"
  by (simp add: keeps_def)

lemma keepsD: "keeps I f \<Longrightarrow> I s \<Longrightarrow> yields I (f p s)"
  by (simp add: keeps_def)

section \<open>What does not touch the output\<close>

lemma fragment_ttl:
  assumes "fragment_datagram chk mode mtu p = Inr frs" and "q \<in> set frs"
  shows "timeToLive (ipHeader q) = timeToLive (ipHeader p)"
proof -
  have "timeToLive (ipHeader x) = timeToLive (ipHeader p)" if "x \<in> set (fragment_loop chk mode l p o')" for x l o'
    using that
  proof (induction chk mode l p o' rule: fragment_loop.induct)
    case (1 chk mode l p o')
    then show ?case
      by (simp only: fragment_loop.simps [of chk mode l p o'] Let_def split: if_splits)
        (auto simp: make_fragment_def Let_def)
  qed
  then show ?thesis using assms by (auto simp: fragment_datagram_def Let_def split: if_splits)
qed

text \<open>Lookups change the cache of the routing table only.\<close>

lemma yields_lookup: "yields (\<lambda>(r, s1). core s1 = core s) (ip_findBestMatchingRoute a s)"
  unfolding ip_findBestMatchingRoute_def by (rule yields_seq) (simp add: case_prod_beta)

lemma lookup_then:
  assumes "\<And>r s1. core s1 = core s \<Longrightarrow> yields P (f r s1)"
  shows "yields P (ebind (ip_findBestMatchingRoute a s) (\<lambda>(r, s1). f r s1))"
  by (rule yields_bind [OF yields_lookup]) (use assms in auto)

lemma determine_core: "yields (\<lambda>(i, s1). core s1 = core s) (determineOutgoingInterfaceForMulticastDatagram h d s)"
  unfolding determineOutgoingInterfaceForMulticastDatagram_def
  by (cases d) (auto intro!: yields_mono [OF yields_lookup] split: option.split)
lemma select_output_core: "yields (\<lambda>(dp, s1). core s1 = core s) (select_output p d s)"
  unfolding select_output_def
  by (cases d) (auto intro!: yields_mono [OF yields_lookup] split: option.split)

lemma lookup_multicast_core: "yields (\<lambda>(r, s1). core s1 = core s) (lookup_multicast_route p i s)"
  unfolding lookup_multicast_route_def Let_def
  by (auto split: option.split intro: yields_mono [OF yields_any])

lemma shortest_core: "yields (\<lambda>(r, s1). core s1 = core s) (getShortestPathInterfaceToSource h s)"
  unfolding getShortestPathInterfaceToSource_def by (rule yields_seq) (simp add: case_prod_beta)

lemma purge_core: "core (purge_fragments s) = core s"
  unfolding purge_fragments_def by (auto simp: core_fold split: prod.split)

section \<open>The handlers\<close>

text \<open>The delivery of a packet to this node needs the first law only.\<close>

locale delivery =
  fixes I :: "Ipv4 \<Rightarrow> bool"
  assumes I_keep: "I s \<Longrightarrow> core s' = core s \<Longrightarrow> I s'"
begin

lemma keeps_with_hook:
  assumes "keeps I f"
  shows "keeps I (with_hook ty f)"
proof (rule keepsI)
  fix p s
  assume s: "I s"
  obtain r p1 where "call_hooks ty (hooks s) p = (r, p1)" by fastforce
  then show "yields I (with_hook ty f p s)"
    using keepsD [OF assms s] by (cases r) (simp_all add: with_hook_def I_keep [OF s])
qed

lemma keeps_reassembleAndDeliverFinish: "keeps I reassembleAndDeliverFinish"
proof (rule keepsI)
  fix p s
  assume s: "I s"
  have up: "core (fold (\<lambda>sd. ip_emit (ToUpper (f sd))) sds s) = core s" for f :: "SocketDescriptor \<Rightarrow> Packet" and sds
    by (rule core_fold) simp
  show "yields I (reassembleAndDeliverFinish p s)"
    unfolding reassembleAndDeliverFinish_def Let_def
  proof (rule yields_seq, intro yields_if)
    fix p1
    let ?s = "fold (\<lambda>sd. ip_emit (ToUpper (upd_tags (\<lambda>t. t\<lparr>socketInd := Some (sd_socketId sd)\<rparr>) p1)))
      (filter (socket_matches (ipHeader p)) (map snd (socketIdToSocketDescriptor s))) s"
    show "yields I (Inr ((ip_emit (ToUpper p1) ?s)\<lparr>numLocalDeliver := numLocalDeliver ?s + 1\<rparr>))"
      "yields I (Inr ?s)"
      by (auto intro: I_keep [OF s] simp: up)
    show "yields I (ebind (getSourceInterface p1 ?s) (\<lambda>fromIE.
        Inr (sendIcmpError p1 (id_or_none fromIE) (ICMP_DESTINATION_UNREACHABLE ICMP_DU_PROTOCOL_UNREACHABLE) ?s)))"
      by (rule yields_seq) (auto intro: I_keep [OF s] simp: up)
  qed
qed

lemmas keeps_LOCALIN = keepsD [OF keeps_with_hook [OF keeps_reassembleAndDeliverFinish]]

lemma keeps_deliver_reassembled: "keeps I deliver_reassembled"
  unfolding deliver_reassembled_def by (rule keepsI) (rule yields_seq keeps_LOCALIN | assumption)+

lemma keeps_reassembleAndDeliver: "keeps I reassembleAndDeliver"
proof (rule keepsI)
  fix p s
  assume s: "I s"
  have "I ((purge_fragments s)\<lparr>fragbuf := b\<rparr>)" for b
    by (rule I_keep [OF s]) (simp add: purge_core)
  then have "yields I (case r of (out, bufs) \<Rightarrow> case out of
      None \<Rightarrow> Inr ((purge_fragments s)\<lparr>fragbuf := bufs\<rparr>)
    | Some pk \<Rightarrow> deliver_reassembled pk ((purge_fragments s)\<lparr>fragbuf := bufs\<rparr>))" for r
    using keepsD [OF keeps_deliver_reassembled] by (auto split: prod.split option.split)
  then show "yields I (reassembleAndDeliver p s)"
    unfolding reassembleAndDeliver_def Let_def by (rule yields_if [OF yields_seq keeps_LOCALIN [OF s]])
qed

lemmas reassembleAndDeliver_inv = keepsD [OF keeps_reassembleAndDeliver]

end

locale datapath = delivery +
  assumes send_output: "I s \<Longrightarrow> live_ttl p \<Longrightarrow> yields I (sendDatagramToOutput p s)"
begin

lemma keeps_fragmentAndSend: "keeps I fragmentAndSend"
proof (rule keepsI)
  fix p0 s
  assume s: "I s"
  define p where "p = (if ipv4_isUnspecified (getNextHop p0) then setNextHop (destAddress (ipHeader p0)) p0 else p0)"
  show "yields I (fragmentAndSend p0 s)"
  proof (cases "live_ttl p")
    case False
    then have "timeToLive (ipHeader p) \<le> 0" by (simp add: live_ttl_def)
    then show ?thesis
      unfolding fragmentAndSend_def Let_def p_def [symmetric]
      by - (rule yields_seq, simp add: I_keep [OF s])
  next
    case True
    have crc: "yields (\<lambda>p1. live_ttl p1)
        (ebind (setComputedCrc chk mode (ipHeader p)) (\<lambda>h. Inr (p\<lparr>ipHeader := h\<rparr>)))" for chk mode
      using True by (simp add: setComputedCrc_def live_ttl_def)
    have frs: "yields I (ebind (fragment_datagram chk mode mtu p) (\<lambda>frs. efold sendDatagramToOutput frs s))"
      for chk mode mtu
    proof (cases "fragment_datagram chk mode mtu p")
      case (Inr frs)
      then have "live_ttl q" if "q \<in> set frs" for q
        using fragment_ttl [OF Inr that] True by (simp add: live_ttl_def)
      then have "yields I (efold sendDatagramToOutput frs s)"
        by (intro yields_efold send_output s)
      then show ?thesis using Inr by simp
    qed simp
    have whole: "yields I (ebind (if b then ebind (setComputedCrc chk mode (ipHeader p)) (\<lambda>h. Inr (p\<lparr>ipHeader := h\<rparr>))
        else Inr p) (\<lambda>p1. sendDatagramToOutput p1 s))" for b chk mode
      using True crc [of chk mode]
      by (cases b) (auto intro!: send_output [OF s] elim!: yields_mono)
    have drop: "yields I (Inr (count_dropped (sendIcmpError p (-1) ICMP_TIME_EXCEEDED
        (drop_packet HOP_LIMIT_REACHED p s))))"
      "yields I (Inr (count_dropped (ip_emit (SendPtb p m) (drop_packet DROP_UNSET p s))))" for m
      by (simp_all add: I_keep [OF s])
    show ?thesis
      unfolding fragmentAndSend_def Let_def p_def [symmetric]
      by (rule yields_seq, (rule yields_if drop whole frs)+)
  qed
qed

lemmas keeps_POSTROUTING = keepsD [OF keeps_with_hook [OF keeps_fragmentAndSend]]

lemma keeps_fragmentPostRouting: "keeps I fragmentPostRouting"
  unfolding fragmentPostRouting_def by (rule keepsI) (rule yields_seq keeps_POSTROUTING | assumption)+

lemmas fragmentPostRouting_inv = keepsD [OF keeps_fragmentPostRouting]

lemma keeps_routeUnicastPacketFinish: "keeps I routeUnicastPacketFinish"
  unfolding routeUnicastPacketFinish_def
  by (rule keepsI, rule fragmentPostRouting_inv, rule I_keep) simp_all

lemma keeps_routeUnicastPacket: "keeps I routeUnicastPacket"
proof (rule keepsI)
  fix p s
  assume s: "I s"
  show "yields I (routeUnicastPacket p s)"
    unfolding routeUnicastPacket_def
  proof (rule yields_seq, rule yields_seq, rule yields_bind [OF select_output_core])
    fix fromIE :: "NetworkInterface option" and d and dps :: "(int option \<times> Packet) \<times> Ipv4"
    assume "case dps of (dp, s1) \<Rightarrow> core s1 = core s"
    then obtain dd p1 s1 where dps: "dps = ((dd, p1), s1)" and s1: "I s1"
      using I_keep [OF s] by (cases dps) auto
    then show "yields I (case dps of (x, s1) \<Rightarrow> (case x of (destIE, p1) \<Rightarrow> \<lambda>s1.
        case destIE of
          None \<Rightarrow> Inr (sendIcmpError p1 (id_or_none fromIE) (ICMP_DESTINATION_UNREACHABLE 0)
                    (drop_packet NO_ROUTE_FOUND p1 (count_unroutable s1)))
        | Some _ \<Rightarrow> if fromIE \<noteq> None then with_hook FORWARD routeUnicastPacketFinish p1 s1
                    else routeUnicastPacketFinish p1 s1) s1)"
      using keepsD [OF keeps_with_hook [OF keeps_routeUnicastPacketFinish] s1, of FORWARD p1]
        keepsD [OF keeps_routeUnicastPacketFinish s1, of p1]
      by (auto simp: I_keep [OF s1] split: option.split)
  qed
qed

lemma keeps_routeLocalBroadcastPacket: "keeps I routeLocalBroadcastPacket"
proof (rule keepsI)
  fix p s
  assume s: "I s"
  have loop: "yields I (efold (\<lambda>ie s. ebind (broadcast_matches (destAddress (ipHeader p)) ie) (\<lambda>b.
      if b then fragmentPostRouting (setNextHop 0xFFFFFFFF (setInterfaceReq (interfaceId ie) p)) s
      else Inr s)) ies s)" for ies
    by (rule yields_efold [where I = I])
      (rule yields_seq yields_if fragmentPostRouting_inv s | assumption | (simp; fail))+
  show "yields I (routeLocalBroadcastPacket p s)"
    unfolding routeLocalBroadcastPacket_def
    by (rule yields_seq)
      (auto split: option.split intro!: fragmentPostRouting_inv loop s simp: I_keep [OF s])
qed

lemma forward_to_out_inv: "I s \<Longrightarrow> yields I (forward_to_out from p out s)"
  unfolding forward_to_out_def
  by (rule yields_seq yields_if fragmentPostRouting_inv | assumption | (simp; fail))+

lemma keeps_forwardMulticastPacket: "keeps I forwardMulticastPacket"
proof (rule keepsI)
  fix p s0
  assume s0: "I s0"
  let ?s0 = "s0\<lparr>numMulticast := numMulticast s0 + 1\<rparr>"
  have accept: "yields I (ebind (efold (forward_to_out src p) outs
      ((ip_emit (DataOnRpf p src) s1)\<lparr>numForwarded := numForwarded s1 + 1\<rparr>))
      (\<lambda>s2. Inr (ip_emit (MdataRegister p src) s2)))" if "I s1" for src outs s1
  proof (rule yields_bind)
    show "yields I (efold (forward_to_out src p) outs
        ((ip_emit (DataOnRpf p src) s1)\<lparr>numForwarded := numForwarded s1 + 1\<rparr>))"
      by (rule yields_efold) (auto intro: forward_to_out_inv I_keep [OF that])
  qed (auto elim: I_keep)
  have route: "yields I (ebind (if b then getShortestPathInterfaceToSource h s else Inr (Some src, s))
      (\<lambda>(shortest, s1). if shortest \<noteq> Some src then Inr (drop_packet DROP_UNSET p (count_dropped s1))
         else ebind (efold (forward_to_out src p) outs
           ((ip_emit (DataOnRpf p src) s1)\<lparr>numForwarded := numForwarded s1 + 1\<rparr>))
           (\<lambda>s2. Inr (ip_emit (MdataRegister p src) s2))))" if s: "I s" for b h src outs s
  proof (rule yields_bind [where Q = "\<lambda>(r, s1). core s1 = core s"])
    show "yields (\<lambda>(r, s1). core s1 = core s) (if b then getShortestPathInterfaceToSource h s else Inr (Some src, s))"
      using shortest_core by simp
    fix rs :: "int option \<times> Ipv4"
    assume "case rs of (r, s1) \<Rightarrow> core s1 = core s"
    then obtain shortest s1 where rs: "rs = (shortest, s1)" "I s1" using I_keep [OF s] by (cases rs) auto
    have "yields I (Inr (drop_packet DROP_UNSET p (count_dropped s1)))" by (simp add: I_keep [OF rs(2)])
    then show "yields I (case rs of (shortest, s1) \<Rightarrow>
        if shortest \<noteq> Some src then Inr (drop_packet DROP_UNSET p (count_dropped s1))
         else ebind (efold (forward_to_out src p) outs
           ((ip_emit (DataOnRpf p src) s1)\<lparr>numForwarded := numForwarded s1 + 1\<rparr>))
           (\<lambda>s2. Inr (ip_emit (MdataRegister p src) s2)))"
      unfolding rs(1) prod.case by (intro yields_if accept [OF rs(2)])
  qed
  show "yields I (forwardMulticastPacket p s0)"
    unfolding forwardMulticastPacket_def Let_def
  proof (rule yields_seq, rule yields_seq, rule yields_seq, rule yields_bind [OF lookup_multicast_core])
    fix fromIE and rs :: "Ipv4MulticastRoute option \<times> Ipv4"
    assume "case rs of (r, s1) \<Rightarrow> core s1 = core ?s0"
    then obtain r s where rs: "rs = (r, s)" "I s" using I_keep [OF s0] by (cases rs) auto
    show "yields I (case rs of (route, s) \<Rightarrow> (case route of
           None \<Rightarrow> Inr (drop_packet NO_ROUTE_FOUND p (count_unroutable s))
         | Some r \<Rightarrow>
             if m_inInterface r \<noteq> None \<and> m_inInterface r \<noteq> Some (interfaceId fromIE) then
               Inr (drop_packet DROP_UNSET p (count_dropped (ip_emit (DataOnNonrpf p (interfaceId fromIE)) s)))
             else ebind (if m_inInterface r = None then getShortestPathInterfaceToSource (ipHeader p) s
                         else Inr (Some (interfaceId fromIE), s)) (\<lambda>(shortest, s1).
               if shortest \<noteq> Some (interfaceId fromIE) then Inr (drop_packet DROP_UNSET p (count_dropped s1))
               else
                 ebind (efold (forward_to_out (interfaceId fromIE) p) (m_outInterfaces r)
                         ((ip_emit (DataOnRpf p (interfaceId fromIE)) s1)\<lparr>numForwarded := numForwarded s1 + 1\<rparr>)) (\<lambda>s2.
                   Inr (ip_emit (MdataRegister p (interfaceId fromIE)) s2)))))"
    proof (cases r)
      case None
      then show ?thesis by (simp add: rs(1) I_keep [OF rs(2)])
    next
      case (Some m)
      have "yields I (Inr (drop_packet DROP_UNSET p (count_dropped (ip_emit (DataOnNonrpf p (interfaceId fromIE)) s))))"
        by (simp add: I_keep [OF rs(2)])
      then show ?thesis
        unfolding rs(1) Some prod.case option.case by (intro yields_if route [OF rs(2)])
    qed
  qed
qed

lemma prerouting_broadcast_inv: "I s \<Longrightarrow> yields I (prerouting_broadcast ie b p s)"
  unfolding prerouting_broadcast_def
  by (rule yields_bind [where Q = I])
    (auto intro!: reassembleAndDeliver_inv fragmentPostRouting_inv split: option.split)

lemma prerouting_unicast_inv: "I s \<Longrightarrow> yields I (prerouting_unicast ie p s)"
  unfolding prerouting_unicast_def Let_def
  by (rule yields_seq yields_if reassembleAndDeliver_inv prerouting_broadcast_inv keepsD [OF keeps_routeUnicastPacket]
      | assumption | (simp add: I_keep; fail))+

lemma prerouting_multicast_inv:
  assumes s: "I s"
  shows "yields I (prerouting_multicast ie p s)"
  unfolding prerouting_multicast_def Let_def
proof (rule yields_seq)
  fix d
  show "yields I (ebind (if isMemberOfMulticastGroup d (destAddress (ipHeader p)) \<or>
        ip_multicastForward s \<and> protocolId (ipHeader p) = IP_PROT_IGMP then reassembleAndDeliver p s else Inr s) (\<lambda>s1.
        if \<not> ip_multicastForward s1 then Inr s1
        else if isLinkLocalMulticast (destAddress (ipHeader p)) then Inr s1
        else if timeToLive (ipHeader p) \<le> 1 then Inr s1
        else forwardMulticastPacket (prepareForForwarding p) s1))"
    by (rule yields_bind [where Q = I])
      (auto simp: s intro!: reassembleAndDeliver_inv keepsD [OF keeps_forwardMulticastPacket])
qed

lemma keeps_preroutingFinish: "keeps I preroutingFinish"
  unfolding preroutingFinish_def
  by (rule keepsI)
    (rule yields_seq yields_if reassembleAndDeliver_inv prerouting_multicast_inv prerouting_unicast_inv | assumption)+

lemma handleIncomingDatagram_inv: "I s \<Longrightarrow> yields I (handleIncomingDatagram p s)"
  unfolding handleIncomingDatagram_def Let_def
  by (rule yields_seq yields_if keepsD [OF keeps_with_hook [OF keeps_preroutingFinish]] | assumption
      | (simp add: I_keep; fail))+

lemma localOut_multicast_inv:
  assumes s: "I s"
  shows "yields I (localOut_multicast p d s)"
  unfolding localOut_multicast_def Let_def
proof (rule yields_bind [OF determine_core])
  fix rs :: "int option \<times> Ipv4"
  assume "case rs of (i, s1) \<Rightarrow> core s1 = core s"
  then obtain i s1 where rs: "rs = (i, s1)" and s1: "I s1" using I_keep [OF s] by (cases rs) auto
  have last: "yields I (case destIE of
        Some ie \<Rightarrow> fragmentPostRouting q (s2\<lparr>numMulticast := numMulticast s2 + 1\<rparr>)
      | None \<Rightarrow> Inr (drop_packet NO_INTERFACE_FOUND q' (count_unroutable s2)))"
    if "I s2" for destIE :: "NetworkInterface option" and q q' s2
    using I_keep [OF that]
    by (cases destIE) (auto intro!: fragmentPostRouting_inv simp del: One_nat_def add_Suc_right)
  have loop: "yields I (if b then case lo of None \<Rightarrow> Inr s1
        | Some lo \<Rightarrow> fragmentPostRouting (q lo) s1 else Inr s1)" for b and lo :: "NetworkInterface option" and q
    using s1 by (auto intro!: fragmentPostRouting_inv split: option.split)
  show "yields I (case rs of (destId, s1) \<Rightarrow>
      ebind (case destId of None \<Rightarrow> Inr None | Some i \<Rightarrow> ebind (deref_iface i (ip_rt s1)) (\<lambda>ie. Inr (Some ie))) (\<lambda>destIE.
        ebind (if (case multicastReq (tags p) of None \<Rightarrow> False | Some b \<Rightarrow> b) \<and>
                  (case destIE of None \<Rightarrow> True | Some ie \<Rightarrow> \<not> if_loopback ie) then
                 case findFirstLoopbackInterface (ip_interfaces s1) of
                   None \<Rightarrow> Inr s1
                 | Some lo \<Rightarrow> fragmentPostRouting (setNextHop (destAddress (ipHeader p))
                     (setInterfaceReq (interfaceId lo) (setInterfaceReq (id_or_none destIE) p))) s1
               else Inr s1) (\<lambda>s2.
          case destIE of
            Some ie \<Rightarrow> fragmentPostRouting (setNextHop (destAddress (ipHeader p)) (setInterfaceReq (id_or_none destIE) p))
              (s2\<lparr>numMulticast := numMulticast s2 + 1\<rparr>)
          | None \<Rightarrow> Inr (drop_packet NO_INTERFACE_FOUND (setInterfaceReq (id_or_none destIE) p) (count_unroutable s2)))))"
    unfolding rs prod.case by (rule yields_seq, rule yields_bind [OF loop], rule last)
qed

lemma localOut_unicast_inv:
  assumes s: "I s"
  shows "yields I (localOut_unicast p d s)"
  unfolding localOut_unicast_def Let_def
proof (rule yields_if)
  show "yields I (ebind (if isLimitedBroadcastAddress (destAddress (ipHeader p)) then Inr (True, s)
      else ebind (isLocalBroadcastAddress (destAddress (ipHeader p)) (ip_rt s)) (\<lambda>(b, t). Inr (b, s\<lparr>ip_rt := t\<rparr>)))
      (\<lambda>(b, s1). if b then routeLocalBroadcastPacket p s1 else routeUnicastPacket (setNextHop (getNextHop p) p) s1))"
  proof (rule yields_bind [where Q = "\<lambda>(b, s1). I s1"])
    show "yields (\<lambda>(b, s1). I s1) (if isLimitedBroadcastAddress (destAddress (ipHeader p)) then Inr (True, s)
      else ebind (isLocalBroadcastAddress (destAddress (ipHeader p)) (ip_rt s)) (\<lambda>(b, t). Inr (b, s\<lparr>ip_rt := t\<rparr>)))"
      by (rule yields_if, simp add: s, rule yields_seq) (auto simp: I_keep [OF s])
  qed (auto intro: keepsD [OF keeps_routeLocalBroadcastPacket] keepsD [OF keeps_routeUnicastPacket])
qed (rule yields_seq, rule keepsD [OF keeps_routeUnicastPacket s])

lemma keeps_datagramLocalOut: "keeps I datagramLocalOut"
  unfolding datagramLocalOut_def
  by (rule keepsI) (rule yields_seq yields_if localOut_multicast_inv localOut_unicast_inv | assumption)+

lemma handlePacketFromHL_inv:
  assumes s: "I s"
  shows "yields I (handlePacketFromHL tp s)"
  unfolding handlePacketFromHL_def
proof (rule yields_if)
  show "yields I (ebind (encapsulate tp s) (\<lambda>(p, s1). with_hook LOCALOUT datagramLocalOut p s1))"
    by (rule yields_bind [OF encapsulate_core])
      (auto intro: keepsD [OF keeps_with_hook [OF keeps_datagramLocalOut]] I_keep [OF s])
qed (simp add: I_keep [OF s])

lemma reinject_inv:
  assumes s: "I s"
  shows "yields I (reinjectQueuedDatagram k s)"
proof -
  have "yields I (case ty of LOCALOUT \<Rightarrow> datagramLocalOut p s | PREROUTING \<Rightarrow> preroutingFinish p s
      | POSTROUTING \<Rightarrow> fragmentAndSend p s | LOCALIN \<Rightarrow> reassembleAndDeliverFinish p s
      | FORWARD \<Rightarrow> routeUnicastPacketFinish p s)" for ty p
    by (cases ty) (simp_all add: keepsD [where I = I, OF _ s] keeps_datagramLocalOut keeps_preroutingFinish keeps_fragmentAndSend
        keeps_reassembleAndDeliverFinish keeps_routeUnicastPacketFinish)
  moreover have "I s1 \<Longrightarrow> I (erase_queued k s1)" for s1
    by (erule I_keep) (simp add: erase_queued_def)
  ultimately show ?thesis
    using s unfolding reinjectQueuedDatagram_def Let_def
    by (auto split: prod.split intro!: yields_bind [where Q = I] simp del: yields_simps(3))
qed

lemma handleRequest_inv: "I s \<Longrightarrow> yields I (handleRequest c s)"
  by (cases c) (auto intro: I_keep split: option.split)

lemma step_keeps:
  assumes s: "I s" and f: "datapath_op f"
  shows "yields I (ip_step f s)"
proof (cases f)
  case (RoutingOp g)
  have "yields I (ebind (rt_step g (ip_rt s)) (\<lambda>t. Inr (s\<lparr>ip_rt := t\<rparr>)))"
    by (rule yields_seq) (auto intro: I_keep [OF s])
  then show ?thesis by (simp add: RoutingOp del: yields_simps(3))
next
  case (RegisterHook k h)
  have "yields I (registerHook k h s)"
    unfolding registerHook_def by (rule yields_seq) (auto intro: I_keep [OF s])
  then show ?thesis by (simp add: RegisterHook)
qed (use f in \<open>auto simp: handleIncomingDatagram_inv handlePacketFromHL_inv handleRequest_inv reinject_inv s
    handleRegisterProtocol_def unregisterHook_def dropQueuedDatagram_def erase_queued_def enqueueRoutingHook_def
    simp del: yields_simps(3) intro: I_keep [OF s]\<close>)

end

end
