(* ===== verification/Ipv4Props.thy ===== *)
theory Ipv4Props
  imports Ipv4Datapath
begin

text \<open>
  Properties of the network layer and of its composition with ARP. The invariant: every datagram that
  waits for an address waits for a resolution that is in progress, and no datagram with an exhausted hop
  count waits or has left. From the invariant it follows that the queues are emptied, by an ARP packet or by the
  timer. The last sections show what a host does with a datagram for somebody else, and a router.
\<close>

section \<open>The invariant of the node\<close>

text \<open>The queues, for the addresses \<open>W\<close> whose resolution is in progress.\<close>

definition queues_ok :: "(Ipv4Address \<Rightarrow> bool) \<Rightarrow> Ipv4 \<Rightarrow> bool" where
  "queues_ok W s = (sorted_wrt (<) (map fst (pendingPackets s)) \<and>
     (\<forall>a ps. find_pending a s = Some ps \<longrightarrow> W a \<and> ps \<noteq> [] \<and> (\<forall>p\<in>set ps. live_ttl p) \<and>
        \<not> ipv4_isMulticast a \<and> \<not> isLimitedBroadcastAddress a))"

definition nic_ok :: "Ipv4 \<Rightarrow> bool" where
  "nic_ok s = (\<forall>p. ToNIC p \<in> set (ip_events s) \<longrightarrow> live_ttl p)"

definition node_inv :: "Ipv4 \<Rightarrow> bool" where
  "node_inv s = (arp_inv (ip_arp s) \<and> arp_events (ip_arp s) = [] \<and>
     queues_ok (\<lambda>a. arp_waiting a (ip_arp s)) s \<and> nic_ok s)"
lemma nic_ok_core: "nic_ok s \<longleftrightarrow> (\<forall>p. ToNIC p \<in> set (fst (snd (snd (core s)))) \<longrightarrow> live_ttl p)"
  by (auto simp: nic_ok_def core_def outputs_def)

lemma nic_ok_outputs: "nic_ok s \<longleftrightarrow> (\<forall>p. ToNIC p \<in> set (outputs s) \<longrightarrow> live_ttl p)"
  by (auto simp: nic_ok_def outputs_def)

lemma node_inv_core: "core s' = core s \<Longrightarrow> node_inv s' \<longleftrightarrow> node_inv s"
  unfolding node_inv_def nic_ok_core queues_ok_def find_pending_def by (simp add: core_def)
lemma node_inv_keep: "node_inv s \<Longrightarrow> core s' = core s \<Longrightarrow> node_inv s'"
  using node_inv_core by blast

section \<open>Sending\<close>

lemma yields_sendPacketToNIC:
  "live_ttl p \<Longrightarrow> yields (\<lambda>s'. s' = ip_emit (ToNIC p) s) (sendPacketToNIC p s)"
  unfolding sendPacketToNIC_def by (rule yields_seq) simp

lemma emit_nic:
  "ip_arp (ip_emit e s) = ip_arp s" "pendingPackets (ip_emit e s) = pendingPackets s"
  "find_pending a (ip_emit e s) = find_pending a s" "queues_ok W (ip_emit e s) = queues_ok W s"
  by (simp_all add: ip_emit_def find_pending_def queues_ok_def)

lemma nic_ok_emit: "nic_ok s \<Longrightarrow> live_ttl p \<Longrightarrow> nic_ok (ip_emit (ToNIC p) s)"
  by (auto simp: nic_ok_def ip_emit_def)

lemma node_inv_nic: "node_inv s \<Longrightarrow> live_ttl p \<Longrightarrow> yields node_inv (sendPacketToNIC p s)"
  by (rule yields_mono [OF yields_sendPacketToNIC]) (auto simp: node_inv_def emit_nic nic_ok_emit)

lemma filter_key: "map_of (filter (\<lambda>(k, _). k \<noteq> x) m) a = (if a = x then None else map_of m a)"
  by (induction m) auto

lemma sorted_filter_key:
  "sorted_wrt (<) (map fst (m :: (Ipv4Address \<times> 'a) list)) \<Longrightarrow> sorted_wrt (<) (map fst (filter (\<lambda>(k, _). k \<noteq> x) m))"
  by (induction m) auto

lemma find_erase_pending: "find_pending a (erase_pending x s) = (if a = x then None else find_pending a s)"
  by (simp add: find_pending_def erase_pending_def filter_key)

lemma queues_ok_erase: "queues_ok W s \<Longrightarrow> queues_ok (\<lambda>a. W a \<and> a \<noteq> x) (erase_pending x s)"
  unfolding queues_ok_def find_erase_pending by (auto simp: erase_pending_def sorted_filter_key)

lemma queues_ok_none: "queues_ok W s \<Longrightarrow> find_pending x s = None \<Longrightarrow> queues_ok (\<lambda>a. W a \<and> a \<noteq> x) s"
  unfolding queues_ok_def by (metis option.distinct(1))

lemma erase_pending_same [simp]: "ip_arp (erase_pending x s) = ip_arp s" "nic_ok (erase_pending x s) = nic_ok s"
  by (simp_all add: erase_pending_def nic_ok_def)

text \<open>The signals of ARP end the queues of the addresses whose resolution ends.\<close>

lemma completed_queues:
  assumes "queues_ok W s" "nic_ok s"
  shows "yields (\<lambda>s'. ip_arp s' = ip_arp s \<and> queues_ok (\<lambda>a. W a \<and> a \<noteq> addr) s' \<and> nic_ok s')
    (arpResolutionCompleted addr mac i s)"
proof (cases "find_pending addr s")
  case None
  then show ?thesis using assms by (simp add: arpResolutionCompleted_def queues_ok_none)
next
  case (Some ps)
  let ?I = "\<lambda>s'. ip_arp s' = ip_arp s \<and> queues_ok W s' \<and> nic_ok s'"
  have live: "\<forall>p\<in>set ps. live_ttl p" using assms(1) Some by (auto simp: queues_ok_def)
  have "yields ?I (efold (\<lambda>p s. sendPacketToNIC (setMacAddressReq mac (setInterfaceReq i p)) s) ps s)"
  proof (rule yields_efold)
    fix p s1
    assume "p \<in> set ps" and "?I s1"
    with live show "yields ?I (sendPacketToNIC (setMacAddressReq mac (setInterfaceReq i p)) s1)"
      by (intro yields_mono [OF yields_sendPacketToNIC]) (auto simp: emit_nic nic_ok_emit)
  qed (use assms in simp)
  then show ?thesis
    using Some by (auto simp: arpResolutionCompleted_def queues_ok_erase elim!: yields_mono)
qed

lemma fold_drop: "fold (drop_packet r) ps s = s\<lparr>ip_events := ip_events s @ map (Dropped r) ps\<rparr>"
  by (induction ps arbitrary: s) (simp_all add: drop_packet_def ip_emit_def)

lemma timed_out_queues:
  assumes "queues_ok W s" "nic_ok s"
  shows "ip_arp (arpResolutionTimedOut addr s) = ip_arp s \<and>
    queues_ok (\<lambda>a. W a \<and> a \<noteq> addr) (arpResolutionTimedOut addr s) \<and> nic_ok (arpResolutionTimedOut addr s)"
proof (cases "find_pending addr s")
  case None
  then show ?thesis using assms by (simp add: arpResolutionTimedOut_def queues_ok_none)
next
  case (Some ps)
  let ?s = "fold (drop_packet ADDRESS_RESOLUTION_FAILED) ps s"
  have "queues_ok W ?s" "nic_ok ?s" "ip_arp ?s = ip_arp s"
    using assms by (auto simp: nic_ok_def queues_ok_def find_pending_def fold_drop)
  then show ?thesis using Some by (simp add: arpResolutionTimedOut_def queues_ok_erase)
qed

lemma event_queues:
  assumes "queues_ok W s" "nic_ok s"
  shows "yields (\<lambda>s'. ip_arp s' = ip_arp s \<and> queues_ok (\<lambda>a. W a \<and> arp_ended ev \<noteq> Some a) s' \<and> nic_ok s')
    (ip_arp_event ev s)"
proof -
  let ?s = "ip_emit (ArpEvent ev) s"
  have e: "queues_ok W ?s" "nic_ok ?s" "ip_arp ?s = ip_arp s"
    using assms by (simp_all add: emit_nic nic_ok_def) (simp add: ip_emit_def)
  have q: "(\<lambda>a. W a \<and> k \<noteq> a) = (\<lambda>a. W a \<and> a \<noteq> k)" for k by auto
  show ?thesis
  proof (cases ev)
    case (ResolutionCompleted k m i)
    then show ?thesis using completed_queues [OF e(1,2), of k m i] e(3) by (simp add: q)
  next
    case (ResolutionFailed k i)
    then show ?thesis using timed_out_queues [OF e(1,2), of k] e(3) by (simp add: q)
  qed (use e in simp_all)
qed

lemma events_queues:
  assumes "queues_ok W s" "nic_ok s"
  shows "yields (\<lambda>s'. ip_arp s' = ip_arp s \<and> queues_ok (\<lambda>a. W a \<and> Some a \<notin> arp_ended ` set evs) s' \<and> nic_ok s')
    (efold ip_arp_event evs s)"
  using assms
proof (induction evs arbitrary: s W)
  case Nil
  then show ?case by simp
next
  case (Cons ev evs)
  have "yields (\<lambda>s'. yields (\<lambda>s''. ip_arp s'' = ip_arp s \<and>
      queues_ok (\<lambda>a. W a \<and> Some a \<notin> arp_ended ` set (ev # evs)) s'' \<and> nic_ok s'') (efold ip_arp_event evs s'))
    (ip_arp_event ev s)"
  proof (rule yields_mono [OF event_queues [OF Cons.prems]])
    fix s1
    assume s1: "ip_arp s1 = ip_arp s \<and> queues_ok (\<lambda>a. W a \<and> arp_ended ev \<noteq> Some a) s1 \<and> nic_ok s1"
    have "(\<lambda>a. (W a \<and> arp_ended ev \<noteq> Some a) \<and> Some a \<notin> arp_ended ` set evs) =
        (\<lambda>a. W a \<and> Some a \<notin> arp_ended ` set (ev # evs))"
      by auto
    with Cons.IH [of "\<lambda>a. W a \<and> arp_ended ev \<noteq> Some a" s1] s1
    show "yields (\<lambda>s''. ip_arp s'' = ip_arp s \<and>
      queues_ok (\<lambda>a. W a \<and> Some a \<notin> arp_ended ` set (ev # evs)) s'' \<and> nic_ok s'') (efold ip_arp_event evs s1)"
      by simp
  qed
  then show ?case by simp
qed

text \<open>The client's side of the contract of the resolver.\<close>

lemma after_arp_inv:
  assumes s: "node_inv s" and step: "arp_step (ip_arp s) (arp_events a) (a\<lparr>arp_events := []\<rparr>)"
  shows "yields (\<lambda>s'. node_inv s' \<and> ip_arp s' = a\<lparr>arp_events := []\<rparr>) (after_arp a s)"
proof -
  let ?a = "a\<lparr>arp_events := []\<rparr>"
  have old: "arp_inv (ip_arp s)" "queues_ok (\<lambda>k. arp_waiting k (ip_arp s)) s" "nic_ok s"
    using s by (simp_all add: node_inv_def)
  have W: "queues_ok (\<lambda>k. arp_waiting k (ip_arp s)) (s\<lparr>ip_arp := ?a\<rparr>)" "nic_ok (s\<lparr>ip_arp := ?a\<rparr>)"
    using old by (simp_all add: queues_ok_def find_pending_def nic_ok_def)
  show ?thesis unfolding after_arp_def
  proof (rule yields_mono [OF events_queues [OF W, of "arp_events a"]])
    fix s'
    assume s': "ip_arp s' = ip_arp (s\<lparr>ip_arp := ?a\<rparr>) \<and>
      queues_ok (\<lambda>k. arp_waiting k (ip_arp s) \<and> Some k \<notin> arp_ended ` set (arp_events a)) s' \<and> nic_ok s'"
    have "arp_inv ?a" using arp.step_inv [OF old(1) step] .
    moreover have "queues_ok (\<lambda>k. arp_waiting k ?a) s'"
      using s' arp.step_waits [OF old(1) step] unfolding queues_ok_def by blast
    ultimately show "node_inv s' \<and> ip_arp s' = ?a" using s' by (simp add: node_inv_def)
  qed
qed

lemma multicast_mac_specified:
  assumes "makeMulticastAddress a = Inr m"
  shows "\<not> isUnspecified m"
proof
  assume "isUnspecified m"
  then have m: "m = MacAddress 0" by (cases m) (simp add: isUnspecified_def)
  obtain bs where "setAddressBytes_from 0 (1 # bs) (MacAddress 0) = Inr m"
    using assms by (auto simp: makeMulticastAddress_def ebind_assert_Inr setAddressBytes_def)
  from setAddressBytes_from_get [OF this, of 0] have "getAddressByte m 0 = Inr 1" by simp
  then show False by (simp add: m getAddressByte_def)
qed

lemma resolve_next_hop:
  assumes "node_inv s"
  shows "yields (\<lambda>(mac, s1). node_inv s1 \<and> (isUnspecified mac \<longrightarrow> arp_waiting k (ip_arp s1) \<and>
      \<not> ipv4_isMulticast k \<and> \<not> isLimitedBroadcastAddress k)) (resolveNextHopMacAddress k ie s)"
proof -
  have arp: "yields (\<lambda>(mac, s1). node_inv s1 \<and> (isUnspecified mac \<longrightarrow> arp_waiting k (ip_arp s1)))
      (ebind (resolveL3Address k (interfaceId ie) (ip_rt s) (ip_arp s)) (\<lambda>(m, a). ebind (after_arp a s) (\<lambda>s1. Inr (m, s1))))"
  proof (cases "resolveL3Address k (interfaceId ie) (ip_rt s) (ip_arp s)")
    case (Inr ma)
    obtain m a where ma: "ma = (m, a)" by fastforce
    have inv: "arp_inv (ip_arp s)" "arp_events (ip_arp s) = []" using assms by (simp_all add: node_inv_def)
    note res = resolve_result [OF inv(1) Inr [unfolded ma]]
    have "arp_step (ip_arp s) (arp_events a) (a\<lparr>arp_events := []\<rparr>)"
      by (rule arp_step.resolve [OF inv(2) Inr [unfolded ma]])
    from after_arp_inv [OF assms this] show ?thesis
      using res by (simp add: Inr ma) (auto elim!: yields_mono simp: arp_waiting_def)
  qed simp
  show ?thesis
  proof (cases "isLimitedBroadcastAddress k")
    case True
    then show ?thesis using assms by (simp add: resolveNextHopMacAddress_def isUnspecified_def BROADCAST_ADDRESS_def)
  next
    case False
    have "yields (\<lambda>(mac, s1). node_inv s1 \<and> (isUnspecified mac \<longrightarrow> arp_waiting k (ip_arp s1) \<and>
        \<not> ipv4_isMulticast k)) (if ipv4_isMulticast k then ebind (makeMulticastAddress k) (\<lambda>m. Inr (m, s))
          else ebind (resolveL3Address k (interfaceId ie) (ip_rt s) (ip_arp s)) (\<lambda>(m, a).
            ebind (after_arp a s) (\<lambda>s1. Inr (m, s1))))"
    proof (cases "ipv4_isMulticast k")
      case True
      then show ?thesis
        using assms multicast_mac_specified [of k] by (cases "makeMulticastAddress k") auto
    qed (use arp in \<open>simp add: case_prod_beta\<close>)
    then show ?thesis
      using False assms unfolding resolveNextHopMacAddress_def
      by (cases "getIpv4InterfaceData ie") (auto simp: isUnspecified_def BROADCAST_ADDRESS_def case_prod_beta)
  qed
qed

lemma insert_pending_inv:
  assumes "node_inv s" "arp_waiting k (ip_arp s)" "live_ttl p" "\<not> ipv4_isMulticast k" "\<not> isLimitedBroadcastAddress k"
  shows "node_inv (insert_pending k p s)"
proof -
  have "sorted_wrt (<) (map fst (pendingPackets s))" using assms(1) by (simp add: node_inv_def queues_ok_def)
  then have "find_pending a (insert_pending k p s) =
      (if a = k then Some ((case find_pending k s of None \<Rightarrow> [] | Some ps \<Rightarrow> ps) @ [p]) else find_pending a s)"
    "sorted_wrt (<) (map fst (pendingPackets (insert_pending k p s)))" for a
    by (simp_all add: find_pending_def insert_pending_def map_of_map_set sorted_map_set)
  moreover have "ip_arp (insert_pending k p s) = ip_arp s" "nic_ok (insert_pending k p s) = nic_ok s"
    by (simp_all add: insert_pending_def nic_ok_def)
  ultimately show ?thesis
    using assms unfolding node_inv_def queues_ok_def by (cases "find_pending k s") auto
qed

lemma sendDatagramToOutput_inv:
  assumes "node_inv s" "live_ttl p"
  shows "yields node_inv (sendDatagramToOutput p s)"
proof -
  let ?p = "upd_tags (\<lambda>t. t\<lparr>nextHopAddressReq := None\<rparr>) p"
  have nic: "yields node_inv (sendPacketToNIC ?p s)" using node_inv_nic assms by simp
  have arp: "yields node_inv (ebind (resolveNextHopMacAddress k ie s) (\<lambda>(mac, s1).
      if isUnspecified mac then Inr (insert_pending k ?p s1)
      else ebind (assert_that (find_pending k s1 = None)) (\<lambda>_. sendPacketToNIC (setMacAddressReq mac ?p) s1)))" for ie k
  proof (rule yields_bind [OF resolve_next_hop [OF assms(1), of k ie]])
    fix ms
    assume "case ms of (mac, s1) \<Rightarrow> node_inv s1 \<and> (isUnspecified mac \<longrightarrow> arp_waiting k (ip_arp s1) \<and>
      \<not> ipv4_isMulticast k \<and> \<not> isLimitedBroadcastAddress k)"
    then obtain mac s1 where ms: "ms = (mac, s1)" "node_inv s1"
      "isUnspecified mac \<longrightarrow> arp_waiting k (ip_arp s1) \<and> \<not> ipv4_isMulticast k \<and> \<not> isLimitedBroadcastAddress k"
      by (cases ms) auto
    show "yields node_inv (case ms of (mac, s1) \<Rightarrow> if isUnspecified mac then Inr (insert_pending k ?p s1)
      else ebind (assert_that (find_pending k s1 = None)) (\<lambda>_. sendPacketToNIC (setMacAddressReq mac ?p) s1))"
    proof (cases "isUnspecified mac")
      case True
      then show ?thesis using ms insert_pending_inv [OF ms(2)] assms(2) by simp
    next
      case False
      then have "yields node_inv (ebind (assert_that (find_pending k s1 = None)) (\<lambda>_. sendPacketToNIC (setMacAddressReq mac ?p) s1))"
        using node_inv_nic [OF ms(2)] assms(2) by simp
      then show ?thesis using False ms(1) by simp
    qed
  qed
  show ?thesis
    unfolding sendDatagramToOutput_def Let_def by (rule yields_seq, rule yields_seq, rule yields_if, rule nic, rule arp)
qed

interpretation node: datapath node_inv
  by unfold_locales (auto intro: node_inv_keep sendDatagramToOutput_inv)

section \<open>Steps of the node\<close>

lemma arp_in_inv:
  assumes s: "node_inv s"
  shows "yields node_inv (ip_with_arp (processArpPacket i arp) s)"
proof (cases "processArpPacket i arp (ip_rt s) (ip_arp s)")
  case (Inr r)
  obtain a t where r: "r = (a, t)" by fastforce
  let ?s = "s\<lparr>ip_rt := t\<rparr>"
  have s1: "node_inv ?s" by (rule node_inv_keep [OF s]) simp
  have "arp_events (ip_arp s) = []" using s by (simp add: node_inv_def)
  from arp_step.receive [OF this Inr [unfolded r]]
  have "arp_step (ip_arp ?s) (arp_events a) (a\<lparr>arp_events := []\<rparr>)" by simp
  from after_arp_inv [OF s1 this] show ?thesis
    by (simp add: ip_with_arp_def Inr r) (auto elim: yields_mono)
qed (simp add: ip_with_arp_def)

lemma arp_timer_inv:
  assumes s: "node_inv s" and d: "timer_due k (ip_arp s)"
  shows "yields node_inv (ip_with_arp (\<lambda>t a. ebind (requestTimedOut k t a) (\<lambda>a1. Inr (a1, t))) s)"
proof (cases "requestTimedOut k (ip_rt s) (ip_arp s)")
  case (Inr a)
  obtain e where e: "arp_find k (ip_arp s) = Some e" "ae_timer e \<noteq> None"
    using d by (auto simp: timer_due_def split: option.splits)
  have "arp_events (ip_arp s) = []" using s by (simp add: node_inv_def)
  from arp_step.expire [OF this e Inr]
  have "arp_step (ip_arp (s\<lparr>ip_rt := ip_rt s\<rparr>)) (arp_events a) (a\<lparr>arp_events := []\<rparr>)" by simp
  from after_arp_inv [OF _ this] s show ?thesis
    by (simp add: ip_with_arp_def Inr) (auto elim: yields_mono)
qed (simp add: ip_with_arp_def)

lemma wait_inv:
  assumes s: "node_inv s" and w: "may_wait n (ip_arp s)"
  shows "node_inv (ip_wait n s)"
proof -
  let ?a = "(ip_arp s)\<lparr>arp_now := arp_now (ip_arp s) + int n\<rparr>"
  have "entry_ok ?a k e" if e: "arp_find k (ip_arp s) = Some e" and ok: "entry_ok (ip_arp s) k e" for k e
  proof -
    have "(k, e) \<in> set (arpCache (ip_arp s))" using e by (simp add: arp_find_def map_of_SomeD)
    with w ok show ?thesis by (fastforce simp: may_wait_def entry_ok_def split: option.splits)
  qed
  then have "arp_inv ?a" using s by (simp add: node_inv_def arp_inv_def)
  then show ?thesis
    using s by (simp add: node_inv_def ip_wait_def queues_ok_def find_pending_def nic_ok_def arp_waiting_def)
qed

lemma stop_inv: "node_inv s \<Longrightarrow> node_inv (ip_stop (s\<lparr>ip_arp := arp_flush (ip_arp s)\<rparr>))"
  by (simp add: node_inv_def ip_stop_def ip_flush_def arp_flush_def arp_inv_def arp_find_def queues_ok_def
      find_pending_def nic_ok_def)

lemma ip_step_inv:
  assumes s: "node_inv s"
  shows "yields node_inv (ip_step f s)"
proof (cases "datapath_op f")
  case True
  then show ?thesis using node.step_keeps [OF s] by simp
next
  case False
  then show ?thesis
  proof (cases f)
    case (ArpTimer k)
    then show ?thesis using arp_timer_inv [OF s, of k] s by simp
  next
    case (Wait n)
    then show ?thesis using wait_inv [OF s] s by simp
  qed (auto simp: arp_in_inv s simp del: yields_simps(3) intro: stop_inv)
qed

lemma ip_initialize_inv: "0 \<le> retryTimeout (ip_arp c) \<Longrightarrow> node_inv (ip_initialize c)"
  by (simp add: node_inv_def ip_initialize_def arp_inv_def arp_find_def queues_ok_def find_pending_def nic_ok_def)

lemma ip_run_inv: "0 \<le> retryTimeout (ip_arp c) \<Longrightarrow> ip_run ops (ip_initialize c) = Inr s \<Longrightarrow> node_inv s"
  unfolding ip_run_def by (rule yieldsD [OF yields_efold [where I = node_inv]]) (auto intro: ip_step_inv ip_initialize_inv)

section \<open>The end of a resolution\<close>

text \<open>The packets of a queue as they leave for the hardware address.\<close>

definition resolved_packet :: "MacAddress \<Rightarrow> int \<Rightarrow> Packet \<Rightarrow> Packet" where
  "resolved_packet mac i p = setMacAddressReq mac (setInterfaceReq i p)"

lemma emit_fields [simp]:
  "ip_rt (ip_emit e s) = ip_rt s" "ip_arp (ip_emit e s) = ip_arp s" "pendingPackets (ip_emit e s) = pendingPackets s"
  "ip_events (ip_emit e s) = ip_events s @ [e]" "ip_interfaces (ip_emit e s) = ip_interfaces s"
  by (simp_all add: ip_emit_def ip_interfaces_def)

lemma erase_pending_fields [simp]:
  "ip_events (erase_pending k s) = ip_events s" "ip_rt (erase_pending k s) = ip_rt s"
  by (simp_all add: erase_pending_def)

lemma send_queue:
  assumes "findInterfaceById i (ip_interfaces s) \<noteq> None"
  shows "\<exists>s'. efold (\<lambda>p s. sendPacketToNIC (setMacAddressReq mac (setInterfaceReq i p)) s) ps s = Inr s' \<and>
    ip_events s' = ip_events s @ map (\<lambda>p. ToNIC (resolved_packet mac i p)) ps \<and>
    pendingPackets s' = pendingPackets s \<and> ip_arp s' = ip_arp s"
  using assms
proof (induction ps arbitrary: s)
  case Nil
  then show ?case by simp
next
  case (Cons p ps)
  let ?s = "ip_emit (ToNIC (resolved_packet mac i p)) s"
  have "sendPacketToNIC (setMacAddressReq mac (setInterfaceReq i p)) s = Inr ?s"
    using Cons.prems
    by (auto simp: sendPacketToNIC_def tagged_interface_def getTag_def getInterfaceById_def resolved_packet_def
        setMacAddressReq_def setInterfaceReq_def upd_tags_def split: option.splits)
  then show ?case using Cons.IH [of ?s] Cons.prems by auto
qed

lemma quiet_events:
  assumes "\<forall>ev\<in>set evs. arp_ended ev = None"
  shows "\<exists>s'. efold ip_arp_event evs s = Inr s' \<and> ip_events s' = ip_events s @ map ArpEvent evs \<and>
    pendingPackets s' = pendingPackets s \<and> ip_arp s' = ip_arp s \<and> ip_rt s' = ip_rt s"
  using assms
proof (induction evs arbitrary: s)
  case Nil
  then show ?case by simp
next
  case (Cons ev evs)
  have "ip_arp_event ev s = Inr (ip_emit (ArpEvent ev) s)" using Cons.prems by (cases ev) auto
  then show ?case using Cons.IH [of "ip_emit (ArpEvent ev) s"] Cons.prems by auto
qed

lemma completed_event:
  assumes "find_pending k s = Some ps" and "findInterfaceById i (ip_interfaces s) \<noteq> None"
  shows "\<exists>s'. ip_arp_event (ResolutionCompleted k mac i) s = Inr s' \<and>
    ip_events s' = ip_events s @ ArpEvent (ResolutionCompleted k mac i) # map (\<lambda>p. ToNIC (resolved_packet mac i p)) ps \<and>
    ip_arp s' = ip_arp s \<and> (\<forall>j. find_pending j s' = (if j = k then None else find_pending j s))"
proof -
  let ?s = "ip_emit (ArpEvent (ResolutionCompleted k mac i)) s"
  obtain s1 where s1: "efold (\<lambda>p s. sendPacketToNIC (setMacAddressReq mac (setInterfaceReq i p)) s) ps ?s = Inr s1"
    "ip_events s1 = ip_events ?s @ map (\<lambda>p. ToNIC (resolved_packet mac i p)) ps"
    "pendingPackets s1 = pendingPackets ?s" "ip_arp s1 = ip_arp ?s"
    using send_queue [of i ?s mac ps] assms(2) by auto
  have "find_pending k ?s = Some ps" using assms(1) by (simp add: find_pending_def)
  then have "ip_arp_event (ResolutionCompleted k mac i) s = Inr (erase_pending k s1)"
    using s1(1) by (simp add: arpResolutionCompleted_def)
  moreover have "find_pending j (erase_pending k s1) = (if j = k then None else find_pending j s)" for j
    using s1(3) unfolding find_erase_pending by (simp add: find_pending_def)
  ultimately show ?thesis using s1(2,4) by simp
qed

text \<open>Lookups leave the interfaces alone.\<close>

lemma lookup_interfaces: "findBestMatchingRoute d t = Inr (r, t') \<Longrightarrow> rt_ift t' = rt_ift t"
  by (auto simp: findBestMatchingRoute_def search_route_def Let_def split: option.splits if_splits)

lemma recognized_interfaces: "addressRecognized d ie t a = Inr (b, t') \<Longrightarrow> rt_ift t' = rt_ift t"
  by (auto simp: addressRecognized_def getInterfaceForDestAddr_def ebind_Inr_iff dest: lookup_interfaces
      split: if_splits)

lemma process_interfaces: "processArpPacket i arp t a = Inr (a', t') \<Longrightarrow> rt_ift t' = rt_ift t"
  by (cases "ar_opcode arp") (auto simp: processArpPacket_def Let_def ebind_Inr_iff dest!: recognized_interfaces
      split: option.splits if_splits)

text \<open>
  An ARP packet from the address for which datagrams wait, request or reply, for this node or not, sends
  them: in the order in which they were queued, to the hardware address of the sender, on the interface of the
  resolution. Their queue is gone and no other queue changes.
\<close>

lemma release_queue:
  assumes "node_inv s"
    and "find_pending (ar_srcIpAddress arp) s = Some ps" and "arp_find (ar_srcIpAddress arp) (ip_arp s) = Some e"
    and "findInterfaceById (ae_ie e) (ip_interfaces s) \<noteq> None"
    and "processArpPacket i arp (ip_rt s) (ip_arp s) = Inr (a', t')"
  shows "\<exists>s' rest. ip_step (ArpPacketIn i arp) s = Inr s' \<and>
    ip_events s' = ip_events s @ ArpEvent (ResolutionCompleted (ar_srcIpAddress arp) (ar_srcMacAddress arp) (ae_ie e)) #
      map (\<lambda>p. ToNIC (resolved_packet (ar_srcMacAddress arp) (ae_ie e) p)) ps @ map ArpEvent rest \<and>
    (\<forall>j. find_pending j s' = (if j = ar_srcIpAddress arp then None else find_pending j s))"
proof -
  have inv: "arp_inv (ip_arp s)" "arp_events (ip_arp s) = []"
    using assms(1) by (simp_all add: node_inv_def)
  obtain rest where rest: "arp_events a' = ResolutionCompleted (ar_srcIpAddress arp) (ar_srcMacAddress arp) (ae_ie e) # rest"
    "\<forall>ev\<in>set rest. arp_ended ev = None"
    using process_result [OF inv(1) assms(5)] inv(2) assms(3) by auto
  let ?s = "s\<lparr>ip_rt := t', ip_arp := a'\<lparr>arp_events := []\<rparr>\<rparr>"
  have "find_pending (ar_srcIpAddress arp) ?s = Some ps" "findInterfaceById (ae_ie e) (ip_interfaces ?s) \<noteq> None"
    using assms(2,4) process_interfaces [OF assms(5)] by (simp_all add: find_pending_def ip_interfaces_def)
  from completed_event [OF this, of "ar_srcMacAddress arp"] obtain s1 where
    s1: "ip_arp_event (ResolutionCompleted (ar_srcIpAddress arp) (ar_srcMacAddress arp) (ae_ie e)) ?s = Inr s1"
    "ip_events s1 = ip_events ?s @ ArpEvent (ResolutionCompleted (ar_srcIpAddress arp) (ar_srcMacAddress arp) (ae_ie e)) #
      map (\<lambda>p. ToNIC (resolved_packet (ar_srcMacAddress arp) (ae_ie e) p)) ps"
    "\<forall>j. find_pending j s1 = (if j = ar_srcIpAddress arp then None else find_pending j ?s)" by auto
  obtain s2 where s2: "efold ip_arp_event rest s1 = Inr s2" "ip_events s2 = ip_events s1 @ map ArpEvent rest"
    "pendingPackets s2 = pendingPackets s1"
    using quiet_events [OF rest(2), of s1] by auto
  have "ip_step (ArpPacketIn i arp) s = Inr s2"
    using assms(5) rest(1) s1(1) s2(1) by (simp add: ip_with_arp_def after_arp_def)
  moreover have "find_pending j s2 = (if j = ar_srcIpAddress arp then None else find_pending j s)" for j
    using s1(3) s2(3) by (simp add: find_pending_def)
  ultimately show ?thesis using s1(2) s2(2) by auto
qed

text \<open>A host with one interface, which sends to a neighbour.\<close>

definition example_nic :: NetworkInterface where
  "example_nic = \<lparr>interfaceId = 100, interfaceName = ''eth0'', if_mtu = 1500, if_state = IF_UP, if_carrier = True,
     if_broadcast = True, if_multicast = True, if_pointToPoint = False, if_loopback = False,
     if_macAddr = MacAddress 0x0AAA00000001, multicastAddresses = [],
     ipv4Data = Some (new_interface_data\<lparr>inetAddr := 0x0A000001, inetMask := 0xFFFFFF00\<rparr>)\<rparr>"

definition example_node :: Ipv4 where
  "example_node = \<lparr>ip_rt = empty_routing_table
       \<lparr>idToInterface = [Some example_nic], tmpNumInterfaces = -1, tmpInterfaceList = None\<rparr> [] (\<lambda>_. False) False,
     ip_arp = new_Arp 1000 3 120000 (\<lambda>_. False), ip_forwarding = False, ip_multicastForward = False,
     ip_newMulticast = (\<lambda>_ _ t. Inr t), ip_checksum = (\<lambda>_. 0), ip_canInsertAtBack = (\<lambda>_ _. True),
     ip_canInsertAtFront = (\<lambda>_ _. True), crcMode = CRC_DECLARED_CORRECT, defaultTimeToLive = 32,
     defaultMCTimeToLive = 32, fragmentTimeoutTime = 60, limitedBroadcast = False,
     directBroadcastInterfaces = (\<lambda>_. False), curFragmentId = 0, fragbuf = [], lastCheckTime = 0,
     upperProtocols = [], socketIdToSocketDescriptor = [], pendingPackets = [], numMulticast = 0,
     numLocalDeliver = 0, numDropped = 0, numUnroutable = 0, numForwarded = 0, hooks = [],
     queuedDatagramsForHooks = [], routeTraceActive = False, stationaryNode = False, ip_events = []\<rparr>"

definition example_transport :: "u8 \<Rightarrow> TransportPacket" where
  "example_transport b = \<lparr>tp_payload = [b], tp_protocol = 17, tp_src = 0x0A000001, tp_dest = 0x0A000002,
     tp_nonLocalSrcAddress = False, tp_hopLimit = None, tp_dontFragment = None, tp_tos = None, tp_dscp = None,
     tp_ecn = None, tp_options = None, tp_interface = Some 100, tp_nextHop = Some 0x0A000002, tp_multicastLoop = None\<rparr>"

definition example_ops :: "ip_op list" where
  "example_ops = [FromAbove (example_transport 1), Wait 400, FromAbove (example_transport 2)]"

definition example_reply :: ArpPacket where
  "example_reply = \<lparr>ar_opcode = ARP_REPLY, ar_srcMacAddress = MacAddress 0x0AAA00000002,
     ar_destMacAddress = MacAddress 0x0AAA00000001, ar_srcIpAddress = 0x0A000002, ar_destIpAddress = 0x0A000001\<rparr>"

lemma example_run:
  "\<exists>s. ip_run example_ops (ip_initialize example_node) = Inr s \<and>
     map_option (map payload) (find_pending 0x0A000002 s) = Some [[1], [2]] \<and>
     map_option (\<lambda>e. (ae_ie e, ae_timer e)) (arp_find 0x0A000002 (ip_arp s)) = Some (100, Some 1000) \<and>
     findInterfaceById 100 (ip_interfaces s) \<noteq> None \<and>
     is_ok (processArpPacket 100 example_reply (ip_rt s) (ip_arp s))"
proof -
  have "case ip_run example_ops (ip_initialize example_node) of
      Inr s \<Rightarrow> map_option (map payload) (find_pending 0x0A000002 s) = Some [[1], [2]] \<and>
        map_option (\<lambda>e. (ae_ie e, ae_timer e)) (arp_find 0x0A000002 (ip_arp s)) = Some (100, Some 1000) \<and>
        (case findInterfaceById 100 (ip_interfaces s) of None \<Rightarrow> False | Some _ \<Rightarrow> True) \<and>
        is_ok (processArpPacket 100 example_reply (ip_rt s) (ip_arp s))
    | Inl _ \<Rightarrow> False"
    by code_simp
  then show ?thesis by (auto split: sum.splits option.splits)
qed

lemma example_timeout: "0 \<le> retryTimeout (ip_arp example_node)"
  by (simp add: example_node_def new_Arp_def)

text \<open>
  In every state that the network layer reaches, each queue of datagrams that wait for an address is not empty,
  and the resolution of that address is in progress: its ARP entry is pending with a timer that will expire. No
  datagram with an exhausted hop count waits or has ever been handed to an interface, whatever hooks, routes and
  multicast routing do.
\<close>

theorem waiting_datagrams_are_being_resolved:
  assumes "ip_run ops (ip_initialize c) = Inr s" and "0 \<le> retryTimeout (ip_arp c)"
  shows "(\<forall>a ps. find_pending a s = Some ps \<longrightarrow> ps \<noteq> [] \<and> (\<exists>e t. arp_find a (ip_arp s) = Some e \<and> ae_pending e \<and>
      ae_timer e = Some t \<and> simTime s \<le> t \<and> t \<le> simTime s + retryTimeout (ip_arp s))) \<and>
    (\<forall>p. ToNIC p \<in> set (ip_events s) \<or> (\<exists>a ps. find_pending a s = Some ps \<and> p \<in> set ps) \<longrightarrow>
      timeToLive (ipHeader p) > 0)"
proof -
  have inv: "node_inv s" using ip_run_inv assms by blast
  have "\<exists>e t. arp_find a (ip_arp s) = Some e \<and> ae_pending e \<and> ae_timer e = Some t \<and> simTime s \<le> t \<and>
      t \<le> simTime s + retryTimeout (ip_arp s)" if "find_pending a s = Some ps" for a ps
  proof -
    have "arp_waiting a (ip_arp s)" using inv that by (simp add: node_inv_def queues_ok_def)
    then obtain e where e: "arp_find a (ip_arp s) = Some e" "ae_pending e"
      by (auto simp: arp_waiting_def split: option.splits)
    then have "entry_ok (ip_arp s) a e" using inv by (simp add: node_inv_def arp_inv_def)
    with e show ?thesis by (auto simp: entry_ok_def simTime_def split: option.splits)
  qed
  moreover have "ps \<noteq> [] \<and> (\<forall>p\<in>set ps. live_ttl p)" if "find_pending a s = Some ps" for a ps
    using inv that by (simp add: node_inv_def queues_ok_def)
  moreover have "live_ttl p" if "ToNIC p \<in> set (ip_events s)" for p
    using inv that by (simp add: node_inv_def nic_ok_def)
  ultimately show ?thesis unfolding live_ttl_def by blast
qed

theorem waiting_datagrams_are_being_resolved_witness:
  "\<exists>s e t. ip_run example_ops (ip_initialize example_node) = Inr s \<and>
     map_option (map payload) (find_pending 0x0A000002 s) = Some [[1], [2]] \<and>
     arp_find 0x0A000002 (ip_arp s) = Some e \<and> ae_timer e = Some t \<and> simTime s \<le> t"
proof -
  obtain s where s: "ip_run example_ops (ip_initialize example_node) = Inr s"
    "map_option (map payload) (find_pending 0x0A000002 s) = Some [[1], [2]]"
    by (rule exE [OF example_run], elim conjE, rule that)
  then obtain ps where ps: "find_pending 0x0A000002 s = Some ps" by auto
  obtain e t where "arp_find 0x0A000002 (ip_arp s) = Some e" "ae_timer e = Some t" "simTime s \<le> t"
    using conjunct1 [OF waiting_datagrams_are_being_resolved [OF s(1) example_timeout], rule_format, OF ps] by (elim conjE exE)
  with s show ?thesis by (intro exI conjI)
qed

end
