(* ===== verification/Ipv4Deadline.thy ===== *)
theory Ipv4Deadline
  imports Ipv4Props
begin

text \<open>
  Nothing waits for ever: a datagram that waits for an address has been sent or given up when
  the retries of the resolution are over, however the steps of the node are interleaved. The clock does not pass a
  timer that is due, so the deadline of an entry is its timer and the retries that are left.
\<close>

section \<open>What becomes of a waiting datagram\<close>

definition served :: "ip_event list \<Rightarrow> Packet \<Rightarrow> bool" where
  "served evs p = ((\<exists>mac i. ToNIC (resolved_packet mac i p) \<in> set evs) \<or> Dropped ADDRESS_RESOLUTION_FAILED p \<in> set evs)"

lemma served_append: "served evs p \<or> served evs' p \<Longrightarrow> served (evs @ evs') p"
  by (auto simp: served_def)

lemma outputs_emit: "outputs (ip_emit e s) = outputs s @ (if is_output e then [e] else [])"
  by (simp add: outputs_def ip_emit_def)

lemma outputs_simps [simp]:
  "outputs (s\<lparr>ip_arp := a\<rparr>) = outputs s" "outputs (erase_pending k s) = outputs s" "outputs (insert_pending k p s) = outputs s"
  "outputs (s\<lparr>pendingPackets := q\<rparr>) = outputs s"
  by (simp_all add: outputs_def erase_pending_def insert_pending_def)

text \<open>The queues after the signals \<open>evs\<close>: those of the addresses whose resolution has ended are served, the others stay.\<close>

definition queues_after :: "arp_event list \<Rightarrow> Ipv4 \<Rightarrow> Ipv4 \<Rightarrow> bool" where
  "queues_after evs s s' = (\<exists>new. outputs s' = outputs s @ new \<and> (\<forall>k ps. find_pending k s = Some ps \<longrightarrow>
     (if Some k \<in> arp_ended ` set evs then \<forall>p\<in>set ps. served new p else find_pending k s' = Some ps)))"

lemma sends_outputs:
  "yields (\<lambda>s'. outputs s' = outputs s @ map (\<lambda>p. ToNIC (resolved_packet mac i p)) ps \<and> pendingPackets s' = pendingPackets s)
    (efold (\<lambda>p s. sendPacketToNIC (setMacAddressReq mac (setInterfaceReq i p)) s) ps s)"
proof (induction ps arbitrary: s)
  case (Cons p ps)
  let ?s = "ip_emit (ToNIC (resolved_packet mac i p)) s"
  have "yields (\<lambda>s1. s1 = ?s) (sendPacketToNIC (setMacAddressReq mac (setInterfaceReq i p)) s)"
    unfolding sendPacketToNIC_def resolved_packet_def by (rule yields_seq) simp
  then show ?case using Cons.IH [of ?s] by (auto simp: outputs_emit elim!: yields_mono)
qed simp

lemma event_queues_after: "yields (queues_after [ev] s) (ip_arp_event ev s)"
proof (cases ev)
  case (ResolutionCompleted k mac i)
  let ?s = "ip_emit (ArpEvent ev) s"
  have "yields (queues_after [ev] s) (arpResolutionCompleted k mac i ?s)"
  proof (cases "find_pending k s")
    case None
    then show ?thesis
      by (auto simp: arpResolutionCompleted_def queues_after_def emit_nic outputs_emit ResolutionCompleted)
  next
    case (Some ps)
    have "queues_after [ev] s (erase_pending k s1)"
      if "outputs s1 = outputs ?s @ map (\<lambda>p. ToNIC (resolved_packet mac i p)) ps \<and> pendingPackets s1 = pendingPackets ?s"
      for s1
      using that Some unfolding queues_after_def
      by (intro exI [of _ "ArpEvent ev # map (\<lambda>p. ToNIC (resolved_packet mac i p)) ps"])
        (auto simp: outputs_emit find_erase_pending served_def find_pending_def erase_pending_def filter_key
          ResolutionCompleted)
    then show ?thesis
      using Some sends_outputs [of ?s mac i ps]
      by (auto simp: arpResolutionCompleted_def emit_nic elim!: yields_mono)
  qed
  then show ?thesis by (simp add: ResolutionCompleted)
next
  case (ResolutionFailed k i)
  show ?thesis
  proof (cases "find_pending k s")
    case None
    then show ?thesis by (auto simp: ResolutionFailed arpResolutionTimedOut_def queues_after_def emit_nic outputs_emit)
  next
    case (Some ps)
    then show ?thesis unfolding ResolutionFailed queues_after_def ip_arp_event.simps yields_simps(2)
      by (intro exI [of _ "ArpEvent ev # map (Dropped ADDRESS_RESOLUTION_FAILED) ps"])
        (auto simp: arpResolutionTimedOut_def emit_nic fold_drop find_erase_pending served_def find_pending_def
          ip_emit_def outputs_def erase_pending_def ResolutionFailed filter_key)
  qed
qed (auto simp: queues_after_def outputs_emit emit_nic)

lemma queues_after_trans:
  assumes "queues_after evs s s1" and "queues_after evs' s1 s2"
  shows "queues_after (evs @ evs') s s2"
proof -
  obtain new where new: "outputs s1 = outputs s @ new" "\<And>k ps. find_pending k s = Some ps \<Longrightarrow>
     if Some k \<in> arp_ended ` set evs then \<forall>p\<in>set ps. served new p else find_pending k s1 = Some ps"
    using assms(1) unfolding queues_after_def by blast
  obtain new' where new': "outputs s2 = outputs s1 @ new'" "\<And>k ps. find_pending k s1 = Some ps \<Longrightarrow>
     if Some k \<in> arp_ended ` set evs' then \<forall>p\<in>set ps. served new' p else find_pending k s2 = Some ps"
    using assms(2) unfolding queues_after_def by blast
  show ?thesis unfolding queues_after_def
  proof (intro exI [of _ "new @ new'"] conjI allI impI)
    show "outputs s2 = outputs s @ new @ new'" using new(1) new'(1) by simp
    fix k ps
    assume k: "find_pending k s = Some ps"
    show "if Some k \<in> arp_ended ` set (evs @ evs') then \<forall>p\<in>set ps. served (new @ new') p else find_pending k s2 = Some ps"
      using new(2) [OF k] new'(2) [of k ps] by (auto intro: served_append split: if_splits)
  qed
qed

lemma after_arp_queues: "yields (queues_after (arp_events a) s) (after_arp a s)"
proof -
  have "yields (queues_after evs s) (efold ip_arp_event evs s)" for evs s
  proof (induction evs arbitrary: s)
    case Nil
    then show ?case by (auto simp: queues_after_def)
  next
    case (Cons ev evs)
    have "yields (\<lambda>s1. yields (queues_after (ev # evs) s) (efold ip_arp_event evs s1)) (ip_arp_event ev s)"
      using Cons.IH queues_after_trans [where evs = "[ev]"]
      by (fastforce intro: yields_mono [OF event_queues_after] elim!: yields_mono)
    then show ?case by simp
  qed
  moreover have "queues_after (arp_events a) (s\<lparr>ip_arp := a'\<rparr>) = queues_after (arp_events a) s" for a'
    by (simp add: queues_after_def find_pending_def fun_eq_iff)
  ultimately show ?thesis unfolding after_arp_def by metis
qed

section \<open>The deadline\<close>

text \<open>The time at which the entry \<open>e\<close> fails if nobody answers.\<close>

definition expires_by :: "simtime \<Rightarrow> ArpCacheEntry \<Rightarrow> Arp \<Rightarrow> bool" where
  "expires_by D e a = (case ae_timer e of
     None \<Rightarrow> False | Some t \<Rightarrow> t + max 0 (retryCount a - 1 - ae_numRetries e) * retryTimeout a \<le> D)"

definition waits_until :: "simtime \<Rightarrow> Ipv4Address \<Rightarrow> Packet list \<Rightarrow> Ipv4 \<Rightarrow> bool" where
  "waits_until D k ps s = (\<exists>qs e. find_pending k s = Some qs \<and> set ps \<subseteq> set qs \<and> arp_find k (ip_arp s) = Some e \<and>
     expires_by D e (ip_arp s))"

definition in_time :: "simtime \<Rightarrow> Ipv4Address \<Rightarrow> Packet list \<Rightarrow> ip_event list \<Rightarrow> Ipv4 \<Rightarrow> bool" where
  "in_time D k ps base s = (node_inv s \<and> (\<exists>new. outputs s = base @ new \<and>
     ((\<forall>p\<in>set ps. served new p) \<or> waits_until D k ps s)))"

text \<open>A step serves the queue of \<open>k\<close> or leaves it waiting.\<close>

definition serves_or_waits :: "Ipv4 \<Rightarrow> Ipv4 \<Rightarrow> bool" where
  "serves_or_waits s s' = (\<exists>new. outputs s' = outputs s @ new \<and> (\<forall>D k ps. waits_until D k ps s \<longrightarrow>
     (\<forall>p\<in>set ps. served new p) \<or> waits_until D k ps s'))"

lemma in_time_step:
  assumes "in_time D k ps base s" and "node_inv s'" and "serves_or_waits s s'"
  shows "in_time D k ps base s'"
proof -
  obtain new where new: "outputs s = base @ new" "(\<forall>p\<in>set ps. served new p) \<or> waits_until D k ps s"
    using assms(1) by (auto simp: in_time_def)
  obtain new' where new': "outputs s' = outputs s @ new'"
    "\<And>D k ps. waits_until D k ps s \<Longrightarrow> (\<forall>p\<in>set ps. served new' p) \<or> waits_until D k ps s'"
    using assms(3) by (auto simp: serves_or_waits_def)
  have "outputs s' = base @ (new @ new')" using new(1) new'(1) by simp
  moreover have "(\<forall>p\<in>set ps. served (new @ new') p) \<or> waits_until D k ps s'"
    using new(2) new'(2) [of D k ps] by (auto intro: served_append)
  ultimately show ?thesis using assms(2) unfolding in_time_def by blast
qed

lemma expires_by_config: "arp_config a' = arp_config a \<Longrightarrow> expires_by D e a' = expires_by D e a"
  by (simp add: expires_by_def arp_config_def split: option.split)

text \<open>A datagram to the output: a resolution in progress is not touched.\<close>

lemma resolve_keeps_entry:
  assumes "arp_inv a" and "resolveL3Address addr i t a = Inr (m, a')" and "arp_waiting j a"
  shows "arp_find j a' = arp_find j a"
proof (cases "arp_find addr a")
  case None
  then have "initiateArpResolution addr (new_entry addr i) t a = Inr a'" "j \<noteq> addr"
    using assms(2,3) by (auto simp: resolveL3Address_def ebind_Inr_iff arp_waiting_def)
  then show ?thesis using initiate_result [OF assms(1)] by blast
next
  case (Some e)
  show ?thesis
  proof (cases "\<not> ae_pending e \<and> \<not> arp_now a \<le> ae_lastUpdate e + cacheTimeout a")
    case True
    then have "initiateArpResolution addr (e\<lparr>ae_ie := i\<rparr>) t a = Inr a'" "j \<noteq> addr"
      using assms(2,3) Some by (auto simp: resolveL3Address_def ebind_Inr_iff arp_waiting_def)
    then show ?thesis using initiate_result [OF assms(1)] by blast
  next
    case False
    then show ?thesis using assms(2) Some by (auto simp: resolveL3Address_def split: if_splits)
  qed
qed

lemma yields_conj: "yields P r \<Longrightarrow> yields Q r \<Longrightarrow> yields (\<lambda>x. P x \<and> Q x) r"
  by (cases r) simp_all

definition keeps_waiting :: "Ipv4 \<Rightarrow> Ipv4 \<Rightarrow> bool" where
  "keeps_waiting s s' = ((\<exists>new. outputs s' = outputs s @ new) \<and> arp_config (ip_arp s') = arp_config (ip_arp s) \<and>
     (\<forall>k qs. find_pending k s = Some qs \<longrightarrow> arp_find k (ip_arp s') = arp_find k (ip_arp s) \<and>
        (\<exists>more. find_pending k s' = Some (qs @ more))))"

lemma keeps_waiting_refl: "keeps_waiting s s"
  by (simp add: keeps_waiting_def)

lemma keeps_waiting_serves:
  assumes "keeps_waiting s s'"
  shows "serves_or_waits s s'"
proof -
  obtain new where new: "outputs s' = outputs s @ new" using assms by (auto simp: keeps_waiting_def)
  have "waits_until D k ps s'" if wu: "waits_until D k ps s" for D k ps
  proof -
    obtain qs e where w: "find_pending k s = Some qs" "set ps \<subseteq> set qs" "arp_find k (ip_arp s) = Some e"
      "expires_by D e (ip_arp s)"
      using wu by (auto simp: waits_until_def)
    have "arp_find k (ip_arp s') = arp_find k (ip_arp s) \<and> (\<exists>more. find_pending k s' = Some (qs @ more))"
      and c: "arp_config (ip_arp s') = arp_config (ip_arp s)"
      using assms w(1) unfolding keeps_waiting_def by blast+
    then obtain more where "find_pending k s' = Some (qs @ more)" "arp_find k (ip_arp s') = Some e" using w(3) by auto
    moreover have "expires_by D e (ip_arp s')" using w(4) expires_by_config [OF c] by simp
    ultimately show ?thesis using w(2) by (auto simp: waits_until_def)
  qed
  with new show ?thesis unfolding serves_or_waits_def by blast
qed

lemma keeps_waiting_nic: "keeps_waiting s s1 \<Longrightarrow> yields (keeps_waiting s) (sendPacketToNIC p s1)"
  unfolding sendPacketToNIC_def
  by (rule yields_seq) (auto simp: keeps_waiting_def outputs_emit emit_nic)

lemma keeps_waiting_insert:
  assumes "keeps_waiting s s1" "node_inv s1"
  shows "keeps_waiting s (insert_pending k p s1)"
proof -
  have "find_pending a (insert_pending k p s1) =
      (if a = k then Some ((case find_pending k s1 of None \<Rightarrow> [] | Some ps \<Rightarrow> ps) @ [p]) else find_pending a s1)" for a
    using assms(2) by (simp add: find_pending_def insert_pending_def map_of_map_set node_inv_def queues_ok_def)
  moreover have "ip_arp (insert_pending k p s1) = ip_arp s1" by (simp add: insert_pending_def)
  ultimately show ?thesis using assms(1) by (fastforce simp: keeps_waiting_def)
qed

lemma keeps_waiting_resolve:
  assumes s: "node_inv s"
  shows "yields (\<lambda>(mac, s1). keeps_waiting s s1) (resolveNextHopMacAddress k ie s)"
proof -
  have inv: "arp_inv (ip_arp s)" "arp_events (ip_arp s) = []" "queues_ok (\<lambda>k. arp_waiting k (ip_arp s)) s"
    using s by (simp_all add: node_inv_def)
  have arp: "yields (\<lambda>(mac, s1). keeps_waiting s s1)
      (ebind (resolveL3Address k (interfaceId ie) (ip_rt s) (ip_arp s)) (\<lambda>(m, a). ebind (after_arp a s) (\<lambda>s1. Inr (m, s1))))"
  proof (cases "resolveL3Address k (interfaceId ie) (ip_rt s) (ip_arp s)")
    case (Inr ma)
    obtain m a where ma: "resolveL3Address k (interfaceId ie) (ip_rt s) (ip_arp s) = Inr (m, a)" "ma = (m, a)"
      using Inr by (cases ma) auto
    note res = resolve_result [OF inv(1) ma(1)] resolve_keeps_entry [OF inv(1) ma(1)]
    have "yields (\<lambda>s1. queues_after (arp_events a) s s1 \<and> (node_inv s1 \<and> ip_arp s1 = a\<lparr>arp_events := []\<rparr>)) (after_arp a s)"
      by (rule yields_conj [OF after_arp_queues after_arp_inv [OF s arp_step.resolve [OF inv(2) ma(1)]]])
    moreover have "keeps_waiting s s1"
      if "queues_after (arp_events a) s s1 \<and> (node_inv s1 \<and> ip_arp s1 = a\<lparr>arp_events := []\<rparr>)" for s1
    proof -
      have quiet: "Some j \<notin> arp_ended ` set (arp_events a)" for j using res(1) inv(2) by force
      have "arp_find j a = arp_find j (ip_arp s)" if "find_pending j s = Some qs" for j qs
        using res(2) inv(3) that by (auto simp: queues_ok_def)
      then show ?thesis
        using that res(1) quiet by (auto simp: keeps_waiting_def queues_after_def)
    qed
    ultimately show ?thesis using Inr ma(2) by (auto elim: yields_mono)
  qed simp
  show ?thesis
    unfolding resolveNextHopMacAddress_def
    by (rule yields_seq) (auto simp: keeps_waiting_refl arp yields_any intro!: yields_if yields_seq [where r = "makeMulticastAddress k"] simp del: yields_simps(3))
qed

lemma output_keeps_waiting:
  assumes s: "node_inv s"
  shows "yields (keeps_waiting s) (sendDatagramToOutput p s)"
proof -
  have arp: "yields (keeps_waiting s) (ebind (resolveNextHopMacAddress k ie s) (\<lambda>(mac, s1).
      if isUnspecified mac then Inr (insert_pending k q s1)
      else ebind (assert_that (find_pending k s1 = None)) (\<lambda>_. sendPacketToNIC (setMacAddressReq mac q) s1)))" for k ie q
  proof (rule yields_bind [OF yields_conj [OF keeps_waiting_resolve [OF s] resolve_next_hop [OF s]]])
    fix ms :: "MacAddress \<times> Ipv4"
    assume "(case ms of (mac, s1) \<Rightarrow> keeps_waiting s s1) \<and> (case ms of (mac, s1) \<Rightarrow> node_inv s1 \<and>
      (isUnspecified mac \<longrightarrow> arp_waiting k (ip_arp s1) \<and> \<not> ipv4_isMulticast k \<and> \<not> isLimitedBroadcastAddress k))"
    then obtain mac s1 where ms: "ms = (mac, s1)" "keeps_waiting s s1" "node_inv s1" by (cases ms) auto
    show "yields (keeps_waiting s) (case ms of (mac, s1) \<Rightarrow> if isUnspecified mac then Inr (insert_pending k q s1)
      else ebind (assert_that (find_pending k s1 = None)) (\<lambda>_. sendPacketToNIC (setMacAddressReq mac q) s1))"
      unfolding ms(1) prod.case using keeps_waiting_insert [OF ms(2,3)]
      by (intro yields_if yields_seq [where r = "assert_that _"] keeps_waiting_nic ms(2)) simp
  qed
  show ?thesis
    unfolding sendDatagramToOutput_def Let_def
    by (rule yields_seq, rule yields_seq, rule yields_if, rule keeps_waiting_nic, rule keeps_waiting_refl, rule arp)
qed

interpretation deadline: datapath "in_time D k ps base" for D k ps base
proof
  fix s s'
  assume s: "in_time D k ps base s" and c: "core s' = core s"
  then have "node_inv s'" "outputs s' = outputs s" "waits_until D k ps s' = waits_until D k ps s"
    using node_inv_keep [OF _ c] by (auto simp: in_time_def core_def waits_until_def find_pending_def)
  then show "in_time D k ps base s'" using s by (simp add: in_time_def)
next
  fix s p
  assume s: "in_time D k ps base s" and p: "live_ttl p"
  then have n: "node_inv s" by (simp add: in_time_def)
  show "yields (in_time D k ps base) (sendDatagramToOutput p s)"
    by (rule yields_mono [OF yields_conj [OF sendDatagramToOutput_inv [OF n p] output_keeps_waiting [OF n]]])
      (blast intro: in_time_step [OF s] keeps_waiting_serves)
qed

section \<open>Steps\<close>

lemma after_arp_serves:
  assumes s: "node_inv s" and step: "arp_step (ip_arp s) (arp_events a) (a\<lparr>arp_events := []\<rparr>)"
    and entry: "\<And>k e D. arp_waiting k (ip_arp s) \<Longrightarrow> arp_find k (ip_arp s) = Some e \<Longrightarrow>
      Some k \<notin> arp_ended ` set (arp_events a) \<Longrightarrow> expires_by D e (ip_arp s) \<Longrightarrow>
      \<exists>e'. arp_find k a = Some e' \<and> expires_by D e' a"
  shows "yields (\<lambda>s'. node_inv s' \<and> serves_or_waits s s') (after_arp a s)"
proof (rule yields_mono [OF yields_conj [OF after_arp_queues after_arp_inv [OF s step]]])
  fix s'
  assume s': "queues_after (arp_events a) s s' \<and> (node_inv s' \<and> ip_arp s' = a\<lparr>arp_events := []\<rparr>)"
  then obtain new where new: "outputs s' = outputs s @ new" "\<And>k ps. find_pending k s = Some ps \<Longrightarrow>
     if Some k \<in> arp_ended ` set (arp_events a) then \<forall>p\<in>set ps. served new p else find_pending k s' = Some ps"
    unfolding queues_after_def by blast
  have "(\<forall>p\<in>set ps. served new p) \<or> waits_until D k ps s'" if wu: "waits_until D k ps s" for D k ps
  proof -
    obtain qs e where w: "find_pending k s = Some qs" "set ps \<subseteq> set qs" "arp_find k (ip_arp s) = Some e"
      "expires_by D e (ip_arp s)"
      using wu by (auto simp: waits_until_def)
    have "arp_waiting k (ip_arp s)" using s w(1) by (simp add: node_inv_def queues_ok_def)
    note entry = entry [OF this w(3) _ w(4)]
    show ?thesis
    proof (cases "Some k \<in> arp_ended ` set (arp_events a)")
      case True
      then show ?thesis using new(2) [OF w(1)] w(2) by auto
    next
      case False
      then obtain e' where "arp_find k (ip_arp s') = Some e'" "expires_by D e' (ip_arp s')"
        using entry s' expires_by_config [of "a\<lparr>arp_events := []\<rparr>" a] by auto
      then show ?thesis using False new(2) [OF w(1)] w(2) by (auto simp: waits_until_def)
    qed
  qed
  then show "node_inv s' \<and> serves_or_waits s s'" using s' new(1) unfolding serves_or_waits_def by blast
qed

lemma packet_serves:
  assumes s: "node_inv s"
  shows "yields (\<lambda>s'. node_inv s' \<and> serves_or_waits s s') (ip_with_arp (processArpPacket i arp) s)"
proof (cases "processArpPacket i arp (ip_rt s) (ip_arp s)")
  case (Inr r)
  obtain a t where r: "processArpPacket i arp (ip_rt s) (ip_arp s) = Inr (a, t)" "r = (a, t)" using Inr by (cases r) auto
  let ?s = "s\<lparr>ip_rt := t\<rparr>"
  have s1: "node_inv ?s" by (rule node_inv_keep [OF s]) simp
  have inv: "arp_inv (ip_arp s)" "arp_events (ip_arp s) = []" using s by (simp_all add: node_inv_def)
  note res = process_result [OF inv(1) r(1)]
  have "yields (\<lambda>s'. node_inv s' \<and> serves_or_waits ?s s') (after_arp a ?s)"
  proof (rule after_arp_serves [OF s1])
    show "arp_step (ip_arp ?s) (arp_events a) (a\<lparr>arp_events := []\<rparr>)"
      using arp_step.receive [OF inv(2) r(1)] by simp
    fix k e D
    assume e: "arp_find k (ip_arp ?s) = Some e" "Some k \<notin> arp_ended ` set (arp_events a)" "expires_by D e (ip_arp ?s)"
    then have "k \<noteq> ar_srcIpAddress arp" using res inv(2) by auto
    then have "arp_find k a = Some e" using res e(1) by simp
    moreover have "expires_by D e a" using e(3) res expires_by_config [of a "ip_arp s"] by simp
    ultimately show "\<exists>e'. arp_find k a = Some e' \<and> expires_by D e' a" by blast
  qed
  moreover have "serves_or_waits ?s = serves_or_waits s"
    by (simp add: serves_or_waits_def waits_until_def find_pending_def outputs_def fun_eq_iff)
  ultimately show ?thesis by (simp add: ip_with_arp_def r)
qed (simp add: ip_with_arp_def)

lemma timer_serves:
  assumes s: "node_inv s" and d: "timer_due j (ip_arp s)"
  shows "yields (\<lambda>s'. node_inv s' \<and> serves_or_waits s s') (ip_with_arp (\<lambda>t a. ebind (requestTimedOut j t a) (\<lambda>a1. Inr (a1, t))) s)"
proof (cases "requestTimedOut j (ip_rt s) (ip_arp s)")
  case (Inr a)
  obtain x where x: "arp_find j (ip_arp s) = Some x" "ae_timer x = Some (arp_now (ip_arp s))"
    using d by (auto simp: timer_due_def split: option.splits)
  have inv: "arp_inv (ip_arp s)" "arp_events (ip_arp s) = []" using s by (simp_all add: node_inv_def)
  have "ae_pending x" using entry_pending [OF inv(1) x(1)] x(2) by simp
  note res = timeout_result [OF inv(1) x(1) Inr this]
  have same: "expires_by D e a = expires_by D e (ip_arp s)" for D e using expires_by_config res by blast
  have "yields (\<lambda>s'. node_inv s' \<and> serves_or_waits s s') (after_arp a s)"
  proof (rule after_arp_serves [OF s])
    show "arp_step (ip_arp s) (arp_events a) (a\<lparr>arp_events := []\<rparr>)"
      using arp_step.expire [OF inv(2) x(1) _ Inr] x(2) by simp
    fix k e D
    assume e: "arp_find k (ip_arp s) = Some e" "Some k \<notin> arp_ended ` set (arp_events a)" "expires_by D e (ip_arp s)"
    show "\<exists>e'. arp_find k a = Some e' \<and> expires_by D e' a"
    proof (cases "k = j")
      case False
      then show ?thesis using res e same by auto
    next
      case True
      then have less: "ae_numRetries x + 1 < retryCount (ip_arp s)" using res e(2) inv(2) by (auto split: if_splits)
      let ?e = "x\<lparr>ae_numRetries := ae_numRetries x + 1, ae_timer := Some (arp_now (ip_arp s) + retryTimeout (ip_arp s))\<rparr>"
      have "expires_by D x (ip_arp s)" using e(1,3) x(1) True by simp
      then have "expires_by D ?e (ip_arp s)"
        using less x(2) by (simp add: expires_by_def max_def algebra_simps split: if_splits)
      then show ?thesis using res less True same by auto
    qed
  qed
  then show ?thesis by (simp add: ip_with_arp_def Inr)
qed (simp add: ip_with_arp_def)

lemma in_time_ip_step:
  assumes s: "in_time D k ps base s" and f: "f \<noteq> Stop"
  shows "yields (in_time D k ps base) (ip_step f s)"
proof (cases "datapath_op f")
  case True
  then show ?thesis using deadline.step_keeps [OF s] by simp
next
  case False
  have n: "node_inv s" using s by (simp add: in_time_def)
  show ?thesis
  proof (cases f)
    case (ArpPacketIn i arp)
    show ?thesis unfolding ArpPacketIn ip_step.simps
      by (rule yields_mono [OF packet_serves [OF n]]) (blast intro: in_time_step [OF s])
  next
    case (ArpTimer j)
    have "yields (in_time D k ps base) (ip_with_arp (\<lambda>t a. ebind (requestTimedOut j t a) (\<lambda>a1. Inr (a1, t))) s)"
      if "timer_due j (ip_arp s)"
      by (rule yields_mono [OF timer_serves [OF n that]]) (blast intro: in_time_step [OF s])
    then show ?thesis using s by (simp add: ArpTimer)
  next
    case (Wait m)
    have "waits_until D k ps (ip_wait m s) = waits_until D k ps s" "outputs (ip_wait m s) = outputs s"
      by (simp_all add: waits_until_def ip_wait_def find_pending_def expires_by_def outputs_def split: option.split)
    then show ?thesis using s wait_inv [OF n] by (simp add: Wait in_time_def)
  qed (use False f in simp_all)
qed

lemma in_time_start:
  assumes s: "node_inv s" and ps: "find_pending k s = Some ps"
  shows "in_time (simTime s + max 1 (retryCount (ip_arp s)) * retryTimeout (ip_arp s)) k ps (outputs s) s"
proof -
  let ?a = "ip_arp s"
  have "arp_waiting k ?a" using s ps by (simp add: node_inv_def queues_ok_def)
  then obtain e where e: "arp_find k ?a = Some e" "ae_pending e" by (auto simp: arp_waiting_def split: option.splits)
  have inv: "entry_ok ?a k e" "0 \<le> retryTimeout ?a" using s e(1) by (simp_all add: node_inv_def arp_inv_def)
  then obtain t where t: "ae_timer e = Some t" "t \<le> arp_now ?a + retryTimeout ?a" "0 \<le> ae_numRetries e"
    using e(2) by (auto simp: entry_ok_def split: option.splits)
  have "max 0 (retryCount ?a - 1 - ae_numRetries e) \<le> max 1 (retryCount ?a) - 1" using t(3) by linarith
  from mult_right_mono [OF this inv(2)]
  have "expires_by (simTime s + max 1 (retryCount ?a) * retryTimeout ?a) e ?a"
    using t(1,2) by (simp add: expires_by_def simTime_def algebra_simps)
  then show ?thesis using s ps e(1) by (auto simp: in_time_def waits_until_def)
qed

text \<open>
  C6. No datagram waits for ever. Let datagrams wait for an address, and let the node go on with any steps that do
  not stop it: once the clock is past the retries of the address resolution, each of them has been sent to a
  hardware address or has been dropped because the resolution failed.
\<close>

theorem waiting_datagrams_are_served_in_time:
  assumes "ip_run ops0 (ip_initialize c) = Inr s" and "0 \<le> retryTimeout (ip_arp c)"
    and "find_pending k s = Some ps" and "ip_run ops s = Inr s'" and "Stop \<notin> set ops"
    and "simTime s + max 1 (retryCount (ip_arp s)) * retryTimeout (ip_arp s) < simTime s'"
  shows "\<exists>new. outputs s' = outputs s @ new \<and> (\<forall>p\<in>set ps. served new p)"
proof -
  let ?D = "simTime s + max 1 (retryCount (ip_arp s)) * retryTimeout (ip_arp s)"
  have s: "node_inv s" using ip_run_inv [OF assms(2,1)] .
  have "yields (in_time ?D k ps (outputs s)) (ip_run ops s)"
    unfolding ip_run_def
    by (rule yields_efold) (use assms(5) in_time_start [OF s assms(3)] in \<open>auto intro: in_time_ip_step\<close>)
  then have t: "in_time ?D k ps (outputs s) s'" using assms(4) by simp
  have "\<not> waits_until ?D k ps s'"
  proof
    assume "waits_until ?D k ps s'"
    then obtain e where e: "arp_find k (ip_arp s') = Some e" "expires_by ?D e (ip_arp s')" by (auto simp: waits_until_def)
    have inv: "entry_ok (ip_arp s') k e" "0 \<le> retryTimeout (ip_arp s')"
      using t e(1) by (simp_all add: in_time_def node_inv_def arp_inv_def)
    then have "0 \<le> max 0 (retryCount (ip_arp s') - 1 - ae_numRetries e) * retryTimeout (ip_arp s')" by simp
    then show False
      using e(2) inv(1) assms(6) by (auto simp: expires_by_def entry_ok_def simTime_def split: option.splits)
  qed
  then show ?thesis using t by (auto simp: in_time_def)
qed

text \<open>Nobody answers the host's three requests.\<close>

definition example_silence :: "ip_op list" where
  "example_silence = [Wait 600, ArpTimer 0x0A000002, Wait 1000, ArpTimer 0x0A000002, Wait 1000, ArpTimer 0x0A000002,
     Wait 401]"

lemma example_silent_run:
  "\<exists>s s'. ip_run example_ops (ip_initialize example_node) = Inr s \<and>
     map_option (map payload) (find_pending 0x0A000002 s) = Some [[1], [2]] \<and> ip_run example_silence s = Inr s' \<and>
     simTime s + max 1 (retryCount (ip_arp s)) * retryTimeout (ip_arp s) < simTime s'"
proof -
  have "case ip_run example_ops (ip_initialize example_node) of
      Inr s \<Rightarrow> map_option (map payload) (find_pending 0x0A000002 s) = Some [[1], [2]] \<and>
        (case ip_run example_silence s of
           Inr s' \<Rightarrow> simTime s + max 1 (retryCount (ip_arp s)) * retryTimeout (ip_arp s) < simTime s'
         | Inl _ \<Rightarrow> False)
    | Inl _ \<Rightarrow> False"
    by code_simp
  then show ?thesis by (auto split: sum.splits)
qed

theorem waiting_datagrams_are_served_in_time_witness:
  "\<exists>s s' ps new. ip_run example_ops (ip_initialize example_node) = Inr s \<and> map payload ps = [[1], [2]] \<and>
     ip_run example_silence s = Inr s' \<and> outputs s' = outputs s @ new \<and> (\<forall>p\<in>set ps. served new p)"
proof -
  obtain s s' where s: "ip_run example_ops (ip_initialize example_node) = Inr s"
    "map_option (map payload) (find_pending 0x0A000002 s) = Some [[1], [2]]" "ip_run example_silence s = Inr s'"
    "simTime s + max 1 (retryCount (ip_arp s)) * retryTimeout (ip_arp s) < simTime s'"
    by (rule exE [OF example_silent_run], elim exE conjE, rule that)
  obtain ps where ps: "find_pending 0x0A000002 s = Some ps" "map payload ps = [[1], [2]]"
    using s(2) by auto
  have "Stop \<notin> set example_silence" by (simp add: example_silence_def)
  from waiting_datagrams_are_served_in_time [OF s(1) example_timeout ps(1) s(3) this s(4)] s(1,3) ps(2)
  show ?thesis by (elim exE conjE) (intro exI conjI)
qed

end
