(* ===== verification/Ipv4Forward.thy ===== *)
theory Ipv4Forward
  imports Ipv4Props
begin

text \<open>
  What a node does with a datagram for somebody else: a host keeps it from the network, a router sends it on to the
  next hop of its route. And two neighbours: an ARP request and its answer, through both of their modules, release
  the datagrams that wait for the neighbour.
\<close>

section \<open>Hosts\<close>

text \<open>The state after the delivery of a packet to this node, which sends nothing.\<close>

interpretation quiet: delivery "\<lambda>s'. core s' = core s" for s
  by unfold_locales simp

lemma host_prerouting:
  assumes "\<not> ip_forwarding s" "\<not> ip_multicastForward s"
  shows "yields (\<lambda>s'. core s' = core s) (preroutingFinish p s)"
proof -
  note deliver = quiet.reassembleAndDeliver_inv [where s = s and p = p, OF refl]
  have b: "yields (\<lambda>s'. core s' = core s) (prerouting_broadcast ie b p s)" for ie b
    unfolding prerouting_broadcast_def
    by (rule yields_bind [where Q = "\<lambda>s'. core s' = core s"])
      (use assms in \<open>auto split: option.split intro: quiet.reassembleAndDeliver_inv\<close>)
  have u: "yields (\<lambda>s'. core s' = core s) (prerouting_unicast ie p s)" for ie
    unfolding prerouting_unicast_def Let_def if_P [OF assms(1)] by (intro yields_seq yields_if deliver b) simp_all
  have m: "yields (\<lambda>s'. core s' = core s) (prerouting_multicast ie p s)" for ie
    unfolding prerouting_multicast_def Let_def
  proof (rule yields_seq)
    fix d
    show "yields (\<lambda>s'. core s' = core s) (ebind (if isMemberOfMulticastGroup d (destAddress (ipHeader p)) \<or>
        ip_multicastForward s \<and> protocolId (ipHeader p) = IP_PROT_IGMP then reassembleAndDeliver p s else Inr s) (\<lambda>s1.
        if \<not> ip_multicastForward s1 then Inr s1
        else if isLinkLocalMulticast (destAddress (ipHeader p)) then Inr s1
        else if timeToLive (ipHeader p) \<le> 1 then Inr s1
        else forwardMulticastPacket (prepareForForwarding p) s1))"
    proof (rule yields_bind [where Q = "\<lambda>s'. core s' = core s"])
      fix s1
      assume "core s1 = core s"
      moreover from this have "\<not> ip_multicastForward s1" using assms(2) by (simp add: core_def)
      ultimately show "yields (\<lambda>s'. core s' = core s) (if \<not> ip_multicastForward s1 then Inr s1
        else if isLinkLocalMulticast (destAddress (ipHeader p)) then Inr s1
        else if timeToLive (ipHeader p) \<le> 1 then Inr s1
        else forwardMulticastPacket (prepareForForwarding p) s1)" by simp
    qed (simp add: deliver)
  qed
  show ?thesis
    unfolding preroutingFinish_def by (intro yields_seq yields_if deliver m u)
qed

text \<open>
  A host forwards nothing. If neither unicast nor multicast forwarding is enabled, a datagram that arrives, with any
  contents and whatever the hooks do with it, is not sent to any interface, starts no address resolution and
  joins no queue of datagrams to be sent.
\<close>

theorem host_does_not_forward:
  assumes "\<not> ip_forwarding s" and "\<not> ip_multicastForward s" and "handleIncomingDatagram p s = Inr s'"
  shows "ip_arp s' = ip_arp s \<and> pendingPackets s' = pendingPackets s \<and>
    filter is_output (ip_events s') = filter is_output (ip_events s)"
proof -
  have hook: "yields (\<lambda>s'. core s' = core s) (with_hook PREROUTING preroutingFinish q s)" for q
  proof -
    obtain r q1 where "call_hooks PREROUTING (hooks s) q = (r, q1)" by fastforce
    then show ?thesis using host_prerouting [OF assms(1,2), of q1] by (cases r) (simp_all add: with_hook_def)
  qed
  have "yields (\<lambda>s'. core s' = core s) (handleIncomingDatagram p s)"
    unfolding handleIncomingDatagram_def Let_def by (intro yields_seq yields_if hook) simp_all
  then have "core s' = core s" using assms(3) by simp
  then show ?thesis by (simp add: core_def outputs_def)
qed

definition example_arrival :: "Ipv4Address \<Rightarrow> Packet" where
  "example_arrival dest = \<lparr>ipHeader = new_Ipv4Header\<lparr>totalLengthField := 22, srcAddress := 0x0A000002, destAddress := dest,
       timeToLive := 8, ip_crcMode := CRC_DECLARED_CORRECT\<rparr>, payload = [1, 2],
     tags = no_tags\<lparr>interfaceInd := Some 100\<rparr>, bitError = False\<rparr>"

theorem host_does_not_forward_witness:
  "\<exists>s'. handleIncomingDatagram (example_arrival 0x0A000205) (ip_initialize example_node) = Inr s' \<and>
     filter is_output (ip_events s') = []"
proof -
  let ?s = "ip_initialize example_node"
  have "is_ok (handleIncomingDatagram (example_arrival 0x0A000205) ?s)" by code_simp
  then obtain s' where s': "handleIncomingDatagram (example_arrival 0x0A000205) ?s = Inr s'" by (auto simp: is_ok_iff)
  have "\<not> ip_forwarding ?s" "\<not> ip_multicastForward ?s" "ip_events ?s = []"
    by (simp_all add: ip_initialize_def example_node_def)
  with host_does_not_forward [OF this(1,2) s'] s' show ?thesis by simp
qed

section \<open>Routers\<close>

text \<open>A datagram as it should arrive at interface \<open>i\<close>, and one that is not for this node.\<close>

definition valid_arrival :: "int \<Rightarrow> Packet \<Rightarrow> Ipv4 \<Rightarrow> bool" where
  "valid_arrival i p s = (interfaceInd (tags p) = Some i \<and> interfaceReq (tags p) = None \<and> \<not> bitError p \<and>
     verifyCrc (ipHeader p) s = Inr True \<and> headerLength (ipHeader p) \<le> totalLengthField (ipHeader p) \<and>
     totalLengthField (ipHeader p) \<le> getDataLength p)"

definition for_others :: "int \<Rightarrow> Ipv4Header \<Rightarrow> Ipv4 \<Rightarrow> bool" where
  "for_others i h s = ((case findInterfaceById i (ip_interfaces s) of None \<Rightarrow> False
     | Some ie \<Rightarrow> \<not> if_loopback ie \<and>
        (case ipv4Data ie of None \<Rightarrow> False | Some d \<Rightarrow> \<not> ipv4_isUnspecified (inetAddr d))) \<and>
     \<not> ipv4_isMulticast (destAddress h) \<and> \<not> rt_isLocalAddress (destAddress h) (ip_rt s) \<and>
     \<not> isLimitedBroadcastAddress (destAddress h) \<and>
     findInterfaceByLocalBroadcastAddress (destAddress h) (ip_rt s) = Inr None \<and> \<not> ipv4_isUnspecified (srcAddress h))"

text \<open>The neighbour \<open>n\<close> behind the interface \<open>ie\<close> has an address in the cache that may still be used.\<close>

definition known_neighbour :: "NetworkInterface \<Rightarrow> Ipv4Address \<Rightarrow> MacAddress \<Rightarrow> Ipv4 \<Rightarrow> bool" where
  "known_neighbour ie n mac s = (if_broadcast ie \<and> \<not> isUnspecified (if_macAddr ie) \<and> \<not> ipv4_isMulticast n \<and>
     \<not> isLimitedBroadcastAddress n \<and>
     (case ipv4Data ie of None \<Rightarrow> False | Some d \<Rightarrow> n \<noteq> getNetworkBroadcastAddress d) \<and>
     (case arp_find n (ip_arp s) of None \<Rightarrow> False
      | Some e \<Rightarrow> \<not> ae_pending e \<and> ae_macAddress e = mac \<and>
          arp_now (ip_arp s) \<le> ae_lastUpdate e + cacheTimeout (ip_arp s)))"

text \<open>The datagram as it enters the datapath: padding behind it is cut off.\<close>

definition accepted :: "Packet \<Rightarrow> Packet" where
  "accepted p = p\<lparr>payload := take (nat (totalLengthField (ipHeader p) - headerLength (ipHeader p))) (payload p)\<rparr>"

lemma accept_arrival:
  assumes "valid_arrival i p s" "hooks s = []" "\<not> routeTraceActive s"
  shows "handleIncomingDatagram p s = preroutingFinish (accepted p) s"
  using assms
  by (simp add: handleIncomingDatagram_def valid_arrival_def getTag_def setTraceRouteTag_def with_hook_def accepted_def
      Let_def)

lemma prerouting_others:
  assumes "for_others i (ipHeader p) s" "interfaceInd (tags p) = Some i" "ip_forwarding s"
  shows "preroutingFinish p s = routeUnicastPacket (prepareForForwarding (setNextHop (getNextHop p) p)) s"
  using assms
  by (auto simp: preroutingFinish_def prerouting_unicast_def for_others_def tagged_interface_def getTag_def
      getInterfaceById_def getIpv4InterfaceData_def Let_def split: option.splits)

lemma tags_of_forwarded [simp]:
  "tags (prepareForForwarding p) = tags p" "ipHeader (setNextHop n p) = ipHeader p"
  "ipHeader (setInterfaceReq j p) = ipHeader p" "payload (setNextHop n p) = payload p"
  "payload (setInterfaceReq j p) = payload p" "payload (prepareForForwarding p) = payload p"
  "interfaceInd (tags (setNextHop n p)) = interfaceInd (tags p)" "interfaceReq (tags (setNextHop n p)) = interfaceReq (tags p)"
  "interfaceReq (tags (setInterfaceReq j p)) = Some j" "getNextHop (setNextHop n p) = n"
  "nextHopAddressReq (tags (setNextHop n p)) = Some n"
  by (simp_all add: prepareForForwarding_def upd_header_def setNextHop_def setInterfaceReq_def upd_tags_def getNextHop_def)

lemma route_by_table:
  assumes "findBestMatchingRoute (destAddress (ipHeader p)) (ip_rt s) = Inr (Some r, t)" "r_interface r = Some j"
    and "interfaceInd (tags p) = Some i" "interfaceReq (tags p) = None" "findInterfaceById i (ip_interfaces s) \<noteq> None"
    and "findInterfaceById j (ip_interfaces s) \<noteq> None" "hooks s = []" "\<not> ipv4_isUnspecified (srcAddress (ipHeader p))"
  shows "routeUnicastPacket p s = fragmentAndSend (setNextHop (r_gateway r) (setInterfaceReq j p))
    (s\<lparr>ip_rt := t, numForwarded := numForwarded s + 1\<rparr>)"
proof -
  have "rt_ift t = rt_ift (ip_rt s)" using lookup_interfaces [OF assms(1)] .
  then show ?thesis
    using assms
    by (auto simp: routeUnicastPacket_def getSourceInterface_def getDestInterface_def optional_interface_def
        getInterfaceById_def select_output_def ip_findBestMatchingRoute_def with_hook_def routeUnicastPacketFinish_def
        fragmentPostRouting_def tagged_interface_def getTag_def ip_interfaces_def Let_def split: option.splits)
qed

text \<open>The next hop of a route: its gateway, or the destination itself if the destination is a neighbour.\<close>

definition next_hop :: "Ipv4Route \<Rightarrow> Ipv4Header \<Rightarrow> Ipv4Address" where
  "next_hop r h = (if ipv4_isUnspecified (r_gateway r) then destAddress h else r_gateway r)"

lemma output_to_known:
  assumes "node_inv s" "known_neighbour ie n mac s" "interfaceReq (tags p) = Some j" "nextHopAddressReq (tags p) = Some n"
    and "findInterfaceById j (ip_interfaces s) = Some ie"
  shows "\<exists>s'. sendDatagramToOutput p s = Inr s' \<and> ip_arp s' = ip_arp s \<and> pendingPackets s' = pendingPackets s \<and>
    ip_events s' = ip_events s @ [ToNIC (setMacAddressReq mac (upd_tags (\<lambda>t. t\<lparr>nextHopAddressReq := None\<rparr>) p))]"
proof -
  have inv: "arp_inv (ip_arp s)" "arp_events (ip_arp s) = []" "queues_ok (\<lambda>k. arp_waiting k (ip_arp s)) s"
    using assms(1) by (simp_all add: node_inv_def)
  obtain e where e: "arp_find n (ip_arp s) = Some e" "\<not> ae_pending e" "ae_macAddress e = mac"
    "arp_now (ip_arp s) \<le> ae_lastUpdate e + cacheTimeout (ip_arp s)"
    using assms(2) by (auto simp: known_neighbour_def split: option.splits)
  have mac: "\<not> isUnspecified mac" using inv(1) e by (auto simp: arp_inv_def entry_ok_def split: option.splits)
  have "\<not> arp_waiting n (ip_arp s)" using e by (simp add: arp_waiting_def)
  then have none: "find_pending n s = None" using inv(3) by (cases "find_pending n s") (auto simp: queues_ok_def)
  have "after_arp (ip_arp s) s = Inr (s\<lparr>ip_arp := (ip_arp s)\<lparr>arp_events := []\<rparr>\<rparr>)"
    using inv(2) by (simp add: after_arp_def)
  moreover have "s\<lparr>ip_arp := (ip_arp s)\<lparr>arp_events := []\<rparr>\<rparr> = s" using inv(2) by simp
  ultimately have "resolveNextHopMacAddress n ie s = Inr (mac, s)"
    using assms(2) e by (auto simp: resolveNextHopMacAddress_def known_neighbour_def resolveL3Address_def
        getIpv4InterfaceData_def split: option.splits)
  then show ?thesis
    using assms(2-5) mac none
    by (auto simp: sendDatagramToOutput_def tagged_interface_def getTag_def getInterfaceById_def known_neighbour_def
        sendPacketToNIC_def setMacAddressReq_def upd_tags_def Let_def split: option.splits)
qed

text \<open>A packet as \<open>fragmentAndSend\<close> passes it on whole: with a next hop and a checksum.\<close>

definition outgoing :: "Packet \<Rightarrow> Ipv4 \<Rightarrow> Packet" where
  "outgoing p s =
     (let p1 = (if ipv4_isUnspecified (getNextHop p) then setNextHop (destAddress (ipHeader p)) p else p) in
      if crcMode s = CRC_COMPUTED
      then p1\<lparr>ipHeader := (ipHeader p)\<lparr>ip_crc := ip_checksum s ((ipHeader p)\<lparr>ip_crc := 0\<rparr>)\<rparr>\<rparr> else p1)"

lemma outgoing_simps [simp]:
  "ipHeader (outgoing p s) = (if crcMode s = CRC_COMPUTED
     then (ipHeader p)\<lparr>ip_crc := ip_checksum s ((ipHeader p)\<lparr>ip_crc := 0\<rparr>)\<rparr> else ipHeader p)"
  "payload (outgoing p s) = payload p" "interfaceReq (tags (outgoing p s)) = interfaceReq (tags p)"
  by (simp_all add: outgoing_def Let_def)

lemma fragment_not_needed:
  assumes "interfaceReq (tags p) = Some j" "findInterfaceById j (ip_interfaces s) = Some ie"
    and "timeToLive (ipHeader p) > 0" "if_mtu ie = 0 \<or> getDataLength p \<le> if_mtu ie"
  shows "fragmentAndSend p s = sendDatagramToOutput (outgoing p s) s"
  using assms
  by (elim disjE) (simp_all add: fragmentAndSend_def tagged_interface_def getTag_def getInterfaceById_def Let_def
      setComputedCrc_def getDataLength_def outgoing_def)

lemma accepted_simps [simp]:
  "ipHeader (accepted p) = ipHeader p" "tags (accepted p) = tags p"
  by (simp_all add: accepted_def)

lemma accepted_length: "valid_arrival i p s \<Longrightarrow> getDataLength (accepted p) = totalLengthField (ipHeader p)"
  by (auto simp: valid_arrival_def accepted_def getDataLength_def min_def)

text \<open>
  C10. A router forwards. A datagram that arrives intact for somebody else, with hops left, and for which the table has
  a route, leaves on the interface of the route to the hardware address of the next hop, which is the gateway of the route or
  the destination, if that address is in the ARP cache: with one hop less, the same payload without padding and nothing
  else changed but the header's checksum, which is computed again where checksums are computed. Nothing else is sent.
\<close>

theorem router_forwards:
  assumes "ip_run ops (ip_initialize c) = Inr s" and "0 \<le> retryTimeout (ip_arp c)"
    and "ip_forwarding s" and "hooks s = []" and "\<not> routeTraceActive s"
    and "valid_arrival i p s" and "for_others i (ipHeader p) s" and "timeToLive (ipHeader p) > 1"
    and "findBestMatchingRoute (destAddress (ipHeader p)) (ip_rt s) = Inr (Some r, t)" and "r_interface r = Some j"
    and "findInterfaceById j (ip_interfaces s) = Some ie" and "if_mtu ie = 0 \<or> totalLengthField (ipHeader p) \<le> if_mtu ie"
    and "known_neighbour ie (next_hop r (ipHeader p)) mac s"
  shows "\<exists>s' q. handleIncomingDatagram p s = Inr s' \<and> ip_events s' = ip_events s @ [ToNIC q] \<and>
    (ipHeader q)\<lparr>ip_crc := 0\<rparr> = (ipHeader p)\<lparr>timeToLive := timeToLive (ipHeader p) - 1, ip_crc := 0\<rparr> \<and>
    ip_crc (ipHeader q) = (if crcMode s = CRC_COMPUTED then ip_checksum s ((ipHeader q)\<lparr>ip_crc := 0\<rparr>)
      else ip_crc (ipHeader p)) \<and>
    payload q = take (nat (totalLengthField (ipHeader p) - headerLength (ipHeader p))) (payload p) \<and>
    interfaceReq (tags q) = Some j \<and> macAddressReq (tags q) = Some mac \<and>
    ip_arp s' = ip_arp s \<and> pendingPackets s' = pendingPackets s"
proof -
  have inv: "node_inv s" using ip_run_inv [OF assms(2,1)] .
  have tag: "interfaceInd (tags p) = Some i" "interfaceReq (tags p) = None" using assms(6) by (simp_all add: valid_arrival_def)
  define p1 where "p1 = prepareForForwarding (setNextHop (getNextHop (accepted p)) (accepted p))"
  define q where "q = setNextHop (r_gateway r) (setInterfaceReq j p1)"
  define s1 where "s1 = s\<lparr>ip_rt := t, numForwarded := numForwarded s + 1\<rparr>"
  have s1: "node_inv s1" "ip_interfaces s1 = ip_interfaces s" "ip_arp s1 = ip_arp s" "pendingPackets s1 = pendingPackets s"
    "ip_events s1 = ip_events s" "crcMode s1 = crcMode s" "ip_checksum s1 = ip_checksum s"
    using node_inv_keep [OF inv] lookup_interfaces [OF assms(9)] by (simp_all add: s1_def ip_interfaces_def)
  have p1: "ipHeader p1 = (ipHeader p)\<lparr>timeToLive := timeToLive (ipHeader p) - 1\<rparr>" "payload p1 = payload (accepted p)"
    "interfaceInd (tags p1) = Some i" "interfaceReq (tags p1) = None"
    using tag by (simp_all add: p1_def prepareForForwarding_def upd_header_def)
  have q: "ipHeader q = ipHeader p1" "payload q = payload p1" "interfaceReq (tags q) = Some j" "getNextHop q = r_gateway r"
    by (simp_all add: q_def)
  have "handleIncomingDatagram p s = preroutingFinish (accepted p) s" using accept_arrival [OF assms(6,4,5)] .
  also have "\<dots> = routeUnicastPacket p1 s"
    using prerouting_others [of i "accepted p" s] assms(3,7) tag(1) by (simp add: p1_def)
  also have "\<dots> = fragmentAndSend q s1"
    unfolding q_def s1_def
    by (rule route_by_table) (use assms p1 in \<open>auto simp: for_others_def split: option.splits\<close>)
  also have "\<dots> = sendDatagramToOutput (outgoing q s1) s1"
    by (rule fragment_not_needed) (use assms(8,11,12) q p1 s1 accepted_length [OF assms(6)] in \<open>auto simp: getDataLength_def\<close>)
  finally have run: "handleIncomingDatagram p s = sendDatagramToOutput (outgoing q s1) s1" .
  have known: "known_neighbour ie (next_hop r (ipHeader p)) mac s1" using assms(13) unfolding known_neighbour_def s1(3) .
  have "nextHopAddressReq (tags q) = Some (r_gateway r)" by (simp add: q_def)
  then have "nextHopAddressReq (tags (outgoing q s1)) = Some (next_hop r (ipHeader p))" "interfaceReq (tags (outgoing q s1)) = Some j"
    using q p1(1) by (simp_all add: outgoing_def Let_def next_hop_def)
  from output_to_known [OF s1(1) known this(2,1)] assms(11) s1(2) obtain s' where
    s': "sendDatagramToOutput (outgoing q s1) s1 = Inr s'" "ip_arp s' = ip_arp s1" "pendingPackets s' = pendingPackets s1"
    "ip_events s' = ip_events s1 @ [ToNIC (setMacAddressReq mac (upd_tags (\<lambda>t. t\<lparr>nextHopAddressReq := None\<rparr>) (outgoing q s1)))]"
    by auto
  then show ?thesis
    using run s1 p1 q
    by (intro exI [of _ s'] exI [of _ "setMacAddressReq mac (upd_tags (\<lambda>t. t\<lparr>nextHopAddressReq := None\<rparr>) (outgoing q s1))"])
      (auto simp: setMacAddressReq_def upd_tags_def accepted_def)
qed

text \<open>A router between \<open>10.0.0.0/24\<close> and \<open>10.0.1.0/24\<close> with a route to \<open>10.0.2.0/24\<close> over \<open>10.0.1.9\<close>.\<close>

definition example_route :: Ipv4Route where
  "example_route = (new_Ipv4Route 0)\<lparr>r_dest := 0x0A000200, r_netmask := 0xFFFFFF00, r_gateway := 0x0A000109,
     r_interface := Some 101\<rparr>"

definition example_router :: Ipv4 where
  "example_router = example_node\<lparr>ip_forwarding := True, ip_rt := (empty_routing_table
     \<lparr>idToInterface = [Some example_nic, Some (example_nic\<lparr>interfaceId := 101, if_macAddr := MacAddress 0x0AAA00000003,
        ipv4Data := Some (new_interface_data\<lparr>inetAddr := 0x0A000101, inetMask := 0xFFFFFF00\<rparr>)\<rparr>)],
      tmpNumInterfaces = -1, tmpInterfaceList = None\<rparr> [] (\<lambda>_. False) False)\<lparr>routes := [example_route]\<rparr>\<rparr>"

definition example_request :: ArpPacket where
  "example_request = \<lparr>ar_opcode = ARP_REQUEST, ar_srcMacAddress = MacAddress 0x0AAA00000009,
     ar_destMacAddress = MacAddress 0, ar_srcIpAddress = 0x0A000109, ar_destIpAddress = 0x0A000101\<rparr>"

lemma example_router_run:
  "\<exists>s r t ie. ip_run [ArpPacketIn 101 example_request] (ip_initialize example_router) = Inr s \<and>
     ip_forwarding s \<and> hooks s = [] \<and> \<not> routeTraceActive s \<and> valid_arrival 100 (example_arrival 0x0A000205) s \<and>
     for_others 100 (ipHeader (example_arrival 0x0A000205)) s \<and>
     findBestMatchingRoute (destAddress (ipHeader (example_arrival 0x0A000205))) (ip_rt s) = Inr (Some r, t) \<and>
     r_interface r = Some 101 \<and> findInterfaceById 101 (ip_interfaces s) = Some ie \<and> if_mtu ie = 1500 \<and>
     known_neighbour ie (next_hop r (ipHeader (example_arrival 0x0A000205))) (MacAddress 0x0AAA00000009) s"
proof -
  have "case ip_run [ArpPacketIn 101 example_request] (ip_initialize example_router) of
      Inr s \<Rightarrow> ip_forwarding s \<and> length (hooks s) = 0 \<and> \<not> routeTraceActive s \<and> valid_arrival 100 (example_arrival 0x0A000205) s \<and>
        for_others 100 (ipHeader (example_arrival 0x0A000205)) s \<and>
        (case findBestMatchingRoute (destAddress (ipHeader (example_arrival 0x0A000205))) (ip_rt s) of
           Inr (Some r, t) \<Rightarrow> r_interface r = Some 101 \<and> (case findInterfaceById 101 (ip_interfaces s) of
             Some ie \<Rightarrow> if_mtu ie = 1500 \<and>
               known_neighbour ie (next_hop r (ipHeader (example_arrival 0x0A000205))) (MacAddress 0x0AAA00000009) s
           | None \<Rightarrow> False)
         | _ \<Rightarrow> False)
    | Inl _ \<Rightarrow> False"
    by code_simp
  then show ?thesis by (auto split: sum.splits option.splits prod.splits)
qed

theorem router_forwards_witness:
  "\<exists>s s' q. ip_run [ArpPacketIn 101 example_request] (ip_initialize example_router) = Inr s \<and>
     handleIncomingDatagram (example_arrival 0x0A000205) s = Inr s' \<and> ip_events s' = ip_events s @ [ToNIC q] \<and>
     payload q = [1, 2] \<and> interfaceReq (tags q) = Some 101 \<and> macAddressReq (tags q) = Some (MacAddress 0x0AAA00000009)"
proof -
  obtain s r t ie where s: "ip_run [ArpPacketIn 101 example_request] (ip_initialize example_router) = Inr s"
    "ip_forwarding s" "hooks s = []" "\<not> routeTraceActive s" "valid_arrival 100 (example_arrival 0x0A000205) s"
    "for_others 100 (ipHeader (example_arrival 0x0A000205)) s"
    "findBestMatchingRoute (destAddress (ipHeader (example_arrival 0x0A000205))) (ip_rt s) = Inr (Some r, t)"
    "r_interface r = Some 101" "findInterfaceById 101 (ip_interfaces s) = Some ie" "if_mtu ie = 1500"
    "known_neighbour ie (next_hop r (ipHeader (example_arrival 0x0A000205))) (MacAddress 0x0AAA00000009) s"
    by (rule exE [OF example_router_run], elim exE conjE, rule that)
  have c: "0 \<le> retryTimeout (ip_arp example_router)" by (simp add: example_router_def example_node_def new_Arp_def)
  have p: "timeToLive (ipHeader (example_arrival 0x0A000205)) > 1"
    "if_mtu ie = 0 \<or> totalLengthField (ipHeader (example_arrival 0x0A000205)) \<le> if_mtu ie"
    "take (nat (totalLengthField (ipHeader (example_arrival 0x0A000205)) - headerLength (ipHeader (example_arrival 0x0A000205))))
       (payload (example_arrival 0x0A000205)) = [1, 2]"
    using s(10) by (simp_all add: example_arrival_def new_Ipv4Header_def IPv4_MIN_HEADER_LENGTH_def)
  from router_forwards [OF s(1) c s(2-6) p(1) s(7-9) p(2) s(11)] s(1) show ?thesis
    unfolding p(3) by (elim exE conjE) (intro exI conjI)
qed

section \<open>Neighbours\<close>

definition request_of :: "NetworkInterface \<Rightarrow> Ipv4InterfaceData \<Rightarrow> Ipv4Address \<Rightarrow> ArpPacket" where
  "request_of ie d k = \<lparr>ar_opcode = ARP_REQUEST, ar_srcMacAddress = if_macAddr ie, ar_destMacAddress = UNSPECIFIED_MAC,
     ar_srcIpAddress = inetAddr d, ar_destIpAddress = k\<rparr>"

definition reply_to :: "ArpPacket \<Rightarrow> MacAddress \<Rightarrow> ArpPacket" where
  "reply_to req mac = \<lparr>ar_opcode = ARP_REPLY, ar_srcMacAddress = mac, ar_destMacAddress = ar_srcMacAddress req,
     ar_srcIpAddress = ar_destIpAddress req, ar_destIpAddress = ar_srcIpAddress req\<rparr>"

lemma local_request_answered:
  assumes "findInterfaceById i (rt_ift t) = Some ie" "\<not> isUnspecified (if_macAddr ie)" "ar_opcode req = ARP_REQUEST"
    and "rt_isLocalAddress (ar_destIpAddress req) t" "ipv4Data ie \<noteq> None"
    and "\<not> isUnspecified (ar_srcMacAddress req)" "\<not> ipv4_isUnspecified (ar_srcIpAddress req)"
  shows "\<exists>a' evs. processArpPacket i req t a = Inr (a', t) \<and>
    arp_events a' = evs @ [SendArp (interfaceId ie) None (ar_srcMacAddress req) (reply_to req (if_macAddr ie))]"
  using assms
  by (auto simp: processArpPacket_def getInterfaceById_def Let_def addressRecognized_def sendArpReply_def
      resolveMacAddressForArpReply_def reply_to_def getIpv4InterfaceData_def split: option.split)

lemma interface_is_local:
  "findInterfaceById i (rt_ift t) = Some ie \<Longrightarrow> ipv4Data ie = Some d \<Longrightarrow> rt_isLocalAddress (inetAddr d) t"
proof -
  assume f: "findInterfaceById i (rt_ift t) = Some ie" and d: "ipv4Data ie = Some d"
  let ?k = "nat (i - INTERFACEIDS_START)"
  have "?k < length (idToInterface (rt_ift t))" "idToInterface (rt_ift t) ! ?k = Some ie"
    using f by (auto simp: findInterfaceById_def Let_def split: if_splits)
  then have "Some ie \<in> set (idToInterface (rt_ift t))" using nth_mem by fastforce
  then have "ie \<in> set (interfaces (rt_ift t))" by (simp add: set_interfaces)
  then show ?thesis using d unfolding rt_isLocalAddress_def by (intro bexI [of _ ie]) simp_all
qed

lemma local_reply_processed:
  assumes "findInterfaceById i (rt_ift t) \<noteq> None" "ar_opcode rep = ARP_REPLY"
    and "rt_isLocalAddress (ar_destIpAddress rep) t"
    and "\<not> isUnspecified (ar_srcMacAddress rep)" "\<not> ipv4_isUnspecified (ar_srcIpAddress rep)"
  shows "\<exists>a'. processArpPacket i rep t a = Inr (a', t)"
  using assms
  by (auto simp: processArpPacket_def getInterfaceById_def Let_def addressRecognized_def split: option.split)

text \<open>
  Address resolution works between two neighbours. Datagrams wait at a node for the address \<open>k\<close>; another node, in any
  state, has this address. It answers the request of the first, on the interface where it comes, to the hardware
  address of the first, and the first node, when it processes this answer, sends all that waits, in order, to the hardware address of the
  interface at which the second was asked.
\<close>

theorem neighbours_resolve:
  assumes "ip_run ops (ip_initialize c) = Inr s" and "0 \<le> retryTimeout (ip_arp c)"
    and "find_pending k s = Some ps" and "arp_find k (ip_arp s) = Some e" and "\<not> ipv4_isUnspecified k"
    and "findInterfaceById (ae_ie e) (ip_interfaces s) = Some ie" and "ipv4Data ie = Some d"
    and "\<not> isUnspecified (if_macAddr ie)" and "\<not> ipv4_isUnspecified (inetAddr d)"
    and "rt_isLocalAddress k t" and "findInterfaceById i (rt_ift t) = Some neighbour"
    and "\<not> isUnspecified (if_macAddr neighbour)" and "ipv4Data neighbour \<noteq> None"
  shows "\<exists>b reply evs s' rest. processArpPacket i (request_of ie d k) t a = Inr (b, t) \<and>
    arp_events b = evs @ [SendArp (interfaceId neighbour) None (if_macAddr ie) reply] \<and>
    ip_step (ArpPacketIn (ae_ie e) reply) s = Inr s' \<and> find_pending k s' = None \<and>
    ip_events s' = ip_events s @ ArpEvent (ResolutionCompleted k (if_macAddr neighbour) (ae_ie e)) #
      map (\<lambda>p. ToNIC (resolved_packet (if_macAddr neighbour) (ae_ie e) p)) ps @ map ArpEvent rest"
proof -
  let ?req = "request_of ie d k"
  let ?rep = "reply_to ?req (if_macAddr neighbour)"
  have req: "ar_opcode ?req = ARP_REQUEST" "ar_destIpAddress ?req = k" "ar_srcMacAddress ?req = if_macAddr ie"
    "ar_srcIpAddress ?req = inetAddr d"
    by (simp_all add: request_of_def)
  have rep: "ar_opcode ?rep = ARP_REPLY" "ar_srcIpAddress ?rep = k" "ar_srcMacAddress ?rep = if_macAddr neighbour"
    "ar_destIpAddress ?rep = inetAddr d"
    by (simp_all add: reply_to_def request_of_def)
  obtain b evs where b: "processArpPacket i ?req t a = Inr (b, t)"
    "arp_events b = evs @ [SendArp (interfaceId neighbour) None (if_macAddr ie) ?rep]"
    using local_request_answered [of i t neighbour ?req a] assms(8-13) unfolding req by blast
  have loc: "rt_isLocalAddress (inetAddr d) (ip_rt s)"
    using interface_is_local [OF assms(6) [unfolded ip_interfaces_def] assms(7)] .
  obtain a' where a': "processArpPacket (ae_ie e) ?rep (ip_rt s) (ip_arp s) = Inr (a', ip_rt s)"
    using local_reply_processed [of "ae_ie e" "ip_rt s" ?rep "ip_arp s"] loc assms(5,6,12) unfolding rep ip_interfaces_def
    by auto
  have "findInterfaceById (ae_ie e) (ip_interfaces s) \<noteq> None" using assms(6) by simp
  from release_queue [OF ip_run_inv [OF assms(2,1)], of ?rep, unfolded rep, OF assms(3,4) this a']
  show ?thesis using b by auto
qed

lemma example_interfaces_run:
  "\<exists>s. ip_run example_ops (ip_initialize example_node) = Inr s \<and>
     map_option (map payload) (find_pending 0x0A000002 s) = Some [[1], [2]] \<and>
     map_option (\<lambda>e. (ae_ie e, ae_timer e)) (arp_find 0x0A000002 (ip_arp s)) = Some (100, Some 1000) \<and>
     findInterfaceById 100 (ip_interfaces s) = Some example_nic"
proof -
  have "case ip_run example_ops (ip_initialize example_node) of
      Inr s \<Rightarrow> map_option (map payload) (find_pending 0x0A000002 s) = Some [[1], [2]] \<and>
        map_option (\<lambda>e. (ae_ie e, ae_timer e)) (arp_find 0x0A000002 (ip_arp s)) = Some (100, Some 1000) \<and>
        findInterfaceById 100 (ip_interfaces s) = Some example_nic
    | Inl _ \<Rightarrow> False"
    by code_simp
  then show ?thesis by (auto split: sum.splits)
qed

definition example_neighbour :: NetworkInterface where
  "example_neighbour = example_nic\<lparr>if_macAddr := MacAddress 0x0AAA00000002,
     ipv4Data := Some (new_interface_data\<lparr>inetAddr := 0x0A000002\<rparr>)\<rparr>"

definition example_neighbour_table :: Ipv4RoutingTable where
  "example_neighbour_table = empty_routing_table
     \<lparr>idToInterface = [Some example_neighbour], tmpNumInterfaces = -1, tmpInterfaceList = None\<rparr> [] (\<lambda>_. False) False"

theorem neighbours_resolve_witness:
  "\<exists>s d ps b reply evs s' rest. ip_run example_ops (ip_initialize example_node) = Inr s \<and> map payload ps = [[1], [2]] \<and>
     processArpPacket 100 (request_of example_nic d 0x0A000002) example_neighbour_table (new_Arp 1000 3 120000 (\<lambda>_. False)) =
       Inr (b, example_neighbour_table) \<and>
     arp_events b = evs @ [SendArp 100 None (if_macAddr example_nic) reply] \<and>
     ip_step (ArpPacketIn 100 reply) s = Inr s' \<and>
     ip_events s' = ip_events s @ ArpEvent (ResolutionCompleted 0x0A000002 (MacAddress 0x0AAA00000002) 100) #
       map (\<lambda>p. ToNIC (resolved_packet (MacAddress 0x0AAA00000002) 100 p)) ps @ map ArpEvent rest"
proof -
  have nb: "findInterfaceById 100 (rt_ift example_neighbour_table) = Some example_neighbour" "if_macAddr example_neighbour = MacAddress 0x0AAA00000002"
    "\<not> isUnspecified (if_macAddr example_neighbour)" "interfaceId example_neighbour = 100" "rt_isLocalAddress 0x0A000002 example_neighbour_table" "\<not> ipv4_isUnspecified 0x0A000002"
    "ipv4Data example_neighbour \<noteq> None"
    by (simp_all add: findInterfaceById_def INTERFACEIDS_START_def empty_routing_table_def isUnspecified_def
        rt_isLocalAddress_def interfaces_def example_nic_def ipv4_isUnspecified_def example_neighbour_table_def
        example_neighbour_def)
  obtain s where s: "ip_run example_ops (ip_initialize example_node) = Inr s"
    "map_option (map payload) (find_pending 0x0A000002 s) = Some [[1], [2]]"
    "map_option (\<lambda>e. (ae_ie e, ae_timer e)) (arp_find 0x0A000002 (ip_arp s)) = Some (100, Some 1000)"
    "findInterfaceById 100 (ip_interfaces s) = Some example_nic"
    by (rule exE [OF example_interfaces_run], elim exE conjE, rule that)
  obtain ps where ps: "find_pending 0x0A000002 s = Some ps" "map payload ps = [[1], [2]]"
    using s(2) by auto
  obtain e where e: "arp_find 0x0A000002 (ip_arp s) = Some e" "ae_ie e = 100" using s(3) by auto
  have ie: "ipv4Data example_nic = Some (new_interface_data\<lparr>inetAddr := 0x0A000001, inetMask := 0xFFFFFF00\<rparr>)"
    "\<not> isUnspecified (if_macAddr example_nic)"
    "\<not> ipv4_isUnspecified (inetAddr (new_interface_data\<lparr>inetAddr := 0x0A000001, inetMask := 0xFFFFFF00\<rparr>))"
    by (simp_all add: example_nic_def isUnspecified_def ipv4_isUnspecified_def)
  from neighbours_resolve [OF s(1) example_timeout ps(1) e(1) nb(6) s(4) [folded e(2)] ie nb(5,1,3,7),
      where a = "new_Arp 1000 3 120000 (\<lambda>_. False)"] s(1) ps(2)
  show ?thesis unfolding nb(2,4) e(2) by (elim exE conjE) (intro exI conjI)
qed

text \<open>
  The probe of an address, by which a node asks whether it is in use before it takes it, is refused by everybody
  who receives it: its source address is unspecified, as RFC 5227 wants it, and \<open>processArpPacket\<close> takes that for an error of
  the program.
\<close>

theorem arp_probe_stops_receivers:
  assumes "sendArpProbe i mac probed a = Inr a'" and "findInterfaceById j (ip_interfaces s) \<noteq> None"
  shows "\<exists>arp. arp_events a' = arp_events a @ [SendArp i (Some mac) BROADCAST_ADDRESS arp] \<and>
    ip_step (ArpPacketIn j arp) s = Inl (RuntimeError ''wrong ARP packet: source IPv4 address is empty'')"
  using assms
  by (intro exI [of _ "arp_probe mac probed"])
    (auto simp: sendArpProbe_def ebind_assert_Inr ip_with_arp_def processArpPacket_def getInterfaceById_def
      arp_probe_def ip_interfaces_def ipv4_isUnspecified_def)

theorem arp_probe_stops_receivers_witness:
  "\<exists>a' arp. sendArpProbe 100 (MacAddress 0x0AAA00000001) 0x0A000007 (ip_arp example_node) = Inr a' \<and>
     arp_events a' = [SendArp 100 (Some (MacAddress 0x0AAA00000001)) BROADCAST_ADDRESS arp] \<and>
     ip_step (ArpPacketIn 100 arp) example_node = Inl (RuntimeError ''wrong ARP packet: source IPv4 address is empty'')"
proof -
  let ?a = "ip_arp example_node"
  have a: "arp_events ?a = []" by (simp add: example_node_def new_Arp_def)
  have i: "findInterfaceById 100 (ip_interfaces example_node) \<noteq> None"
    by (simp add: findInterfaceById_def INTERFACEIDS_START_def empty_routing_table_def ip_interfaces_def example_node_def)
  obtain a' where a': "sendArpProbe 100 (MacAddress 0x0AAA00000001) 0x0A000007 ?a = Inr a'"
    by (simp add: sendArpProbe_def isUnspecified_def ipv4_isUnspecified_def)
  show ?thesis using arp_probe_stops_receivers [OF a' i] a' by (auto simp: a)
qed

end
