(* ===== verification/Aodv.thy ===== *)
theory Aodv
  imports Ipv4
begin

text \<open>
  Ad hoc on-demand distance vector routing (RFC 3561), \<open>inet/routing/aodv/Aodv.cc\<close>: the discovery of routes, the control
  packets, route errors, the hooks by which the module holds datagrams back until there is a route, and the
  timers that expire routes.

  The routing table of the node is a part of the state, and the clock is the table's. A route of this module is one whose source is
  \<open>this_module\<close>; the data that the module hangs on a route (\<open>AodvRouteData\<close>) is found by the identifier of the route. A
  timer is the time for which it is scheduled. Packets handed to the UDP socket, datagrams given back to the network
  layer and the verdicts of the hooks are events. The datagrams that a reinjected datagram's way through the node
  brings to the hooks again are steps of their own. The jitter, a random number, is a parameter: a function of the number
  of values drawn so far, in ticks.

  Addresses are IPv4 addresses; an address without a value is the unspecified address, since the code only asks whether
  an address is unspecified where it may be without a value. The fields of packets that nobody reads (\<open>joinFlag\<close>, \<open>repairFlag\<close>,
  \<open>reserved\<close>, \<open>prefixSize\<close>, \<open>noDeleteFlag\<close>), the lengths of packets, the two unused flags of \<open>AodvRouteData\<close> and the log are left out.
\<close>

section \<open>Packets\<close>

datatype AodvControlPacketType =
    RREQ | RREP | RERR | RREPACK | RREQ_IPv6 | RREP_IPv6 | RERR_IPv6 | RREPACK_IPv6 | UndefinedPacketType int

record Rreq =
  rq_gratuitousRREPFlag :: bool
  rq_destOnlyFlag :: bool
  rq_unknownSeqNumFlag :: bool
  rq_hopCount :: u32
  rq_rreqId :: u32
  rq_destAddr :: Ipv4Address
  rq_destSeqNum :: u32
  rq_originatorAddr :: Ipv4Address
  rq_originatorSeqNum :: u32

record Rrep =
  rp_ackRequiredFlag :: bool
  rp_hopCount :: u32
  rp_destAddr :: Ipv4Address
  rp_destSeqNum :: u32
  rp_originatorAddr :: Ipv4Address
  rp_lifeTime :: simtime

record UnreachableNode =
  un_addr :: Ipv4Address
  un_seqNum :: u32

text \<open>A control packet is its type field and the chunk.\<close>

datatype AodvChunk = RreqChunk Rreq | RrepChunk Rrep | RerrChunk "UnreachableNode list" | RrepAckChunk

type_synonym AodvControlPacket = "AodvControlPacketType \<times> AodvChunk"

section \<open>State\<close>

record AodvRouteData =
  precursorList :: "Ipv4Address set"
  rd_active :: bool
  rd_validDestNum :: bool
  rd_destSeqNum :: u32
  rd_lifeTime :: simtime

record WaitForRrep =
  wr_destAddr :: Ipv4Address
  lastTTL :: u32
  fromInvalidEntry :: bool
  wr_timer :: "simtime option"

record AodvParameters =
  interfacePar :: string
  rerrRatelimit :: u32
  aodvUDPPort :: u32
  askGratuitousRREP :: bool
  useHelloMessages :: bool
  destinationOnlyFlag :: bool
  activeRouteTimeout :: simtime
  helloInterval :: simtime
  netDiameter :: u32
  rreqRetries :: u32
  rreqRatelimit :: u32
  timeoutBuffer :: u32
  ttlStart :: u32
  ttlIncrement :: u32
  ttlThreshold :: u32
  allowedHelloLoss :: u32
  nodeTraversalTime :: simtime
  deletePeriod :: simtime
  myRouteTimeout :: simtime
  blacklistTimeout :: simtime
  netTraversalTime :: simtime
  nextHopWait :: simtime
  pathDiscoveryTime :: simtime
  usingIpv6 :: bool
  jitterPar :: "nat \<Rightarrow> simtime"
  periodicJitter :: "nat \<Rightarrow> simtime"

text \<open>A packet for the socket: the interface, the destination, the hop limit and the control packet.\<close>

record AodvSend =
  sd_interface :: int
  sd_dest :: Ipv4Address
  sd_ttl :: u32
  sd_packet :: AodvControlPacket

datatype aodv_event =
    SocketBind u32 | SocketClose | SocketDestroy | SocketSend AodvSend
  | ReinjectQueuedDatagram Packet | DropQueuedDatagram Packet | HookVerdict HookType HookResult Packet

record Aodv =
  ao_par :: AodvParameters
  ao_rt :: Ipv4RoutingTable
  ao_data :: "nat \<Rightarrow> AodvRouteData option"
  rreqId :: u32
  sequenceNum :: u32
  waitForRREPTimers :: "Ipv4Address \<Rightarrow> WaitForRrep option"
  rreqsArrivalTime :: "Ipv4Address \<times> u32 \<Rightarrow> simtime option"
  failedNextHop :: Ipv4Address
  blacklist :: "(Ipv4Address \<times> simtime) list"
  rerrCount :: u32
  rreqCount :: u32
  lastBroadcastTime :: simtime
  addressToRreqRetries :: "Ipv4Address \<Rightarrow> u32 option"
  helloMsgTimer :: "simtime option"
  expungeTimer :: "simtime option"
  counterTimer :: "simtime option"
  rrepAckTimer :: "simtime option"
  blacklistTimer :: "simtime option"
  rebootTime :: simtime
  targetAddressToDelayedPackets :: "(Ipv4Address \<times> Packet) list"
  delayedSends :: "(simtime \<times> AodvSend) list"
  ao_draws :: nat
  ao_events :: "aodv_event list"

definition new_Aodv :: "AodvParameters \<Rightarrow> Ipv4RoutingTable \<Rightarrow> Aodv" where
  "new_Aodv p t = \<lparr>ao_par = p, ao_rt = t, ao_data = (\<lambda>_. None), rreqId = 0, sequenceNum = 0,
     waitForRREPTimers = (\<lambda>_. None), rreqsArrivalTime = (\<lambda>_. None), failedNextHop = 0, blacklist = [], rerrCount = 0,
     rreqCount = 0, lastBroadcastTime = 0, addressToRreqRetries = (\<lambda>_. None), helloMsgTimer = None, expungeTimer = None,
     counterTimer = None, rrepAckTimer = None, blacklistTimer = None, rebootTime = 0, targetAddressToDelayedPackets = [],
     delayedSends = [], ao_draws = 0, ao_events = []\<rparr>"

text \<open>This module, as the source of a route; a route from an interface's netmask has the interface as its source.\<close>

definition this_module :: "int option" where
  "this_module = Some (-1)"

definition own_route :: "Ipv4Route \<Rightarrow> bool" where
  "own_route r = (r_source r = this_module)"

definition ao_now :: "Aodv \<Rightarrow> simtime" where
  "ao_now s = rt_now (ao_rt s)"

definition getSelfIPAddress :: "Aodv \<Rightarrow> Ipv4Address" where
  "getSelfIPAddress s = routerId (ao_rt s)"

definition ao_emit :: "aodv_event \<Rightarrow> Aodv \<Rightarrow> Aodv" where
  "ao_emit e s = s\<lparr>ao_events := ao_events s @ [e]\<rparr>"

definition draw_jitter :: "Aodv \<Rightarrow> simtime \<times> Aodv" where
  "draw_jitter s = (jitterPar (ao_par s) (ao_draws s), s\<lparr>ao_draws := ao_draws s + 1\<rparr>)"

text \<open>\<open>scheduleAt\<close> for a timer: a time in the past and a timer that is scheduled already are errors of the kernel.\<close>

definition scheduleAt :: "simtime \<Rightarrow> simtime option \<Rightarrow> Aodv \<Rightarrow> err + simtime option" where
  "scheduleAt t timer s =
     (if timer \<noteq> None then Inl (RuntimeError ''message is already scheduled'')
      else if t < ao_now s then Inl (RuntimeError ''cannot schedule message to the past'')
      else Inr (Some t))"

text \<open>\<open>check_and_cast\<close> of the data of a route, which throws on a null pointer.\<close>

definition route_data :: "nat \<Rightarrow> Aodv \<Rightarrow> err + AodvRouteData" where
  "route_data i s = (case ao_data s i of None \<Rightarrow> Inl (RuntimeError ''check_and_cast'') | Some d \<Rightarrow> Inr d)"

definition set_route_data :: "nat \<Rightarrow> AodvRouteData \<Rightarrow> Aodv \<Rightarrow> Aodv" where
  "set_route_data i d s = s\<lparr>ao_data := (ao_data s)(i := Some d)\<rparr>"

definition addPrecursor :: "nat \<Rightarrow> Ipv4Address \<Rightarrow> Aodv \<Rightarrow> err + Aodv" where
  "addPrecursor i a s = ebind (route_data i s) (\<lambda>d.
     Inr (set_route_data i (d\<lparr>precursorList := insert a (precursorList d)\<rparr>) s))"

text \<open>The route behind a pointer.\<close>

definition deref_route :: "nat \<Rightarrow> Aodv \<Rightarrow> err + Ipv4Route" where
  "deref_route i s = (case find_route i (ao_rt s) of None \<Rightarrow> Inl NullPointer | Some r \<Rightarrow> Inr r)"

definition ao_findBestMatchingRoute :: "Ipv4Address \<Rightarrow> Aodv \<Rightarrow> err + Ipv4Route option \<times> Aodv" where
  "ao_findBestMatchingRoute a s = ebind (findBestMatchingRoute a (ao_rt s)) (\<lambda>(r, t). Inr (r, s\<lparr>ao_rt := t\<rparr>))"

definition ao_change_route :: "route_change \<Rightarrow> nat \<Rightarrow> Aodv \<Rightarrow> err + Aodv" where
  "ao_change_route c i s = ebind (change_route c i (ao_rt s)) (\<lambda>t. Inr (s\<lparr>ao_rt := t\<rparr>))"

definition broadcastAddress :: Ipv4Address where
  "broadcastAddress = 0xFFFFFFFF"

definition reboot_completed :: "Aodv \<Rightarrow> bool" where
  "reboot_completed s = (ao_now s > rebootTime s + deletePeriod (ao_par s) \<or> rebootTime s = 0)"

text \<open>\<open>trunc(SIMTIME_MS)\<close>, towards zero.\<close>

definition trunc_ms :: "simtime \<Rightarrow> simtime" where
  "trunc_ms t = (if t \<ge> 0 then t div 1000000000 * 1000000000 else - (- t div 1000000000 * 1000000000))"

section \<open>Routing table management\<close>

text \<open>The earliest expiry among the routes of this module; \<open>None\<close> is the largest time.\<close>

fun next_expunge_time :: "Aodv \<Rightarrow> Ipv4Route list \<Rightarrow> simtime option \<Rightarrow> err + simtime option" where
  "next_expunge_time s [] m = Inr m"
| "next_expunge_time s (r # rs) m =
     (if own_route r then ebind (route_data (r_id r) s) (\<lambda>d.
        next_expunge_time s rs (case m of None \<Rightarrow> Some (rd_lifeTime d)
                                | Some t \<Rightarrow> if rd_lifeTime d < t then Some (rd_lifeTime d) else m))
      else next_expunge_time s rs m)"

definition scheduleExpungeRoutes :: "Aodv \<Rightarrow> err + Aodv" where
  "scheduleExpungeRoutes s = ebind (next_expunge_time s (routes (ao_rt s)) None) (\<lambda>m.
     case m of
       None \<Rightarrow> Inr (s\<lparr>expungeTimer := None\<rparr>)
     | Some t \<Rightarrow> if expungeTimer s = Some t then Inr s
                 else ebind (scheduleAt t None s) (\<lambda>timer. Inr (s\<lparr>expungeTimer := timer\<rparr>)))"

definition updateRoutingTable ::
  "nat \<Rightarrow> Ipv4Address \<Rightarrow> u32 \<Rightarrow> bool \<Rightarrow> u32 \<Rightarrow> bool \<Rightarrow> simtime \<Rightarrow> Aodv \<Rightarrow> err + Aodv" where
  "updateRoutingTable i nextHop hopCount hasValidDestNum destSeqNum isActive lifeTime s =
     ebind (ao_change_route (SetGateway nextHop) i s) (\<lambda>s1.
     ebind (ao_change_route (SetMetric (sint hopCount)) i s1) (\<lambda>s2.
     ebind (route_data i s2) (\<lambda>d.
       scheduleExpungeRoutes (set_route_data i (d\<lparr>rd_lifeTime := lifeTime, rd_destSeqNum := destSeqNum,
         rd_active := isActive, rd_validDestNum := hasValidDestNum\<rparr>) s2))))"

definition aodv_route :: "nat \<Rightarrow> Ipv4Address \<Rightarrow> Ipv4Address \<Rightarrow> u32 \<Rightarrow> int option \<Rightarrow> Ipv4Route" where
  "aodv_route i destAddr nextHop hopCount ifEntry = (new_Ipv4Route i)\<lparr>r_dest := destAddr, r_gateway := nextHop,
     r_netmask := make_netmask 32, r_metric := sint hopCount, r_interface := ifEntry, r_sourceType := AODV,
     r_source := this_module\<rparr>"

definition createRoute ::
  "Ipv4Address \<Rightarrow> Ipv4Address \<Rightarrow> u32 \<Rightarrow> bool \<Rightarrow> u32 \<Rightarrow> bool \<Rightarrow> simtime \<Rightarrow> Aodv \<Rightarrow> err + nat \<times> Aodv" where
  "createRoute destAddr nextHop hopCount hasValidDestNum destSeqNum isActive lifeTime s =
     (let i = rt_nextId (ao_rt s);
          ifEntry = map_option interfaceId (findInterfaceByName (interfacePar (ao_par s)) (rt_ift (ao_rt s)));
          s1 = set_route_data i \<lparr>precursorList = {}, rd_active = isActive, rd_validDestNum = hasValidDestNum,
                 rd_destSeqNum = destSeqNum, rd_lifeTime = lifeTime\<rparr> s
      in ebind (addRoute (aodv_route i destAddr nextHop hopCount ifEntry) ((ao_rt s)\<lparr>rt_nextId := i + 1\<rparr>)) (\<lambda>t.
         ebind (scheduleExpungeRoutes (s1\<lparr>ao_rt := t\<rparr>)) (\<lambda>s2. Inr (i, s2))))"

definition updateValidRouteLifeTime :: "Ipv4Address \<Rightarrow> simtime \<Rightarrow> Aodv \<Rightarrow> err + bool \<times> Aodv" where
  "updateValidRouteLifeTime destAddr lifetime s = ebind (ao_findBestMatchingRoute destAddr s) (\<lambda>(route, s1).
     case route of
       None \<Rightarrow> Inr (False, s1)
     | Some r \<Rightarrow>
         if own_route r then ebind (route_data (r_id r) s1) (\<lambda>d.
           if rd_active d then Inr (True, set_route_data (r_id r) (d\<lparr>rd_lifeTime := max (rd_lifeTime d) lifetime\<rparr>) s1)
           else Inr (False, s1))
         else Inr (False, s1))"

definition hasOngoingRouteDiscovery :: "Ipv4Address \<Rightarrow> Aodv \<Rightarrow> bool" where
  "hasOngoingRouteDiscovery target s = (waitForRREPTimers s target \<noteq> None)"

text \<open>
  The loop of \<open>expungeRoutes\<close> runs over positions of the vector of routes. When it deletes a route, the next one moves up to the
  position just visited and is not looked at.
\<close>

definition expunge_route :: "Ipv4Route \<Rightarrow> Aodv \<Rightarrow> err + bool \<times> Aodv" where
  "expunge_route r s =
     (if own_route r then ebind (route_data (r_id r) s) (\<lambda>d.
        if rd_lifeTime d \<le> ao_now s then
          if rd_active d then
            Inr (False, set_route_data (r_id r) (d\<lparr>rd_active := False, rd_lifeTime := ao_now s + deletePeriod (ao_par s)\<rparr>) s)
          else if hasOngoingRouteDiscovery (r_dest r) s then
            Inr (False, set_route_data (r_id r) (d\<lparr>rd_lifeTime := ao_now s + 2 * netTraversalTime (ao_par s)\<rparr>) s)
          else ebind (deleteRoute (r_id r) (ao_rt s)) (\<lambda>(deleted, t). Inr (deleted, s\<lparr>ao_rt := t\<rparr>))
        else Inr (False, s))
      else Inr (False, s))"

fun expunge_loop :: "Ipv4Route list \<Rightarrow> Aodv \<Rightarrow> err + Aodv" where
  "expunge_loop [] s = Inr s"
| "expunge_loop (r # rs) s = ebind (expunge_route r s) (\<lambda>(deleted, s1).
     expunge_loop (if deleted then drop 1 rs else rs) s1)"

definition expungeRoutes :: "Aodv \<Rightarrow> err + Aodv" where
  "expungeRoutes s = ebind (expunge_loop (routes (ao_rt s)) s) scheduleExpungeRoutes"

section \<open>Sending\<close>

definition sendAODVPacket :: "AodvControlPacket \<Rightarrow> Ipv4Address \<Rightarrow> u32 \<Rightarrow> simtime \<Rightarrow> Aodv \<Rightarrow> err + Aodv" where
  "sendAODVPacket pk dest ttl delay s =
     ebind (assert_that (ttl \<noteq> 0)) (\<lambda>_.
     case findInterfaceByName (interfacePar (ao_par s)) (rt_ift (ao_rt s)) of
       None \<Rightarrow> Inl (RuntimeError ''findInterfaceByName() returned nullptr'')
     | Some ie \<Rightarrow>
         let p = \<lparr>sd_interface = interfaceId ie, sd_dest = dest, sd_ttl = ttl, sd_packet = pk\<rparr>;
             s1 = (if isLimitedBroadcastAddress dest then s\<lparr>lastBroadcastTime := ao_now s\<rparr> else s)
         in if delay = 0 then Inr (ao_emit (SocketSend p) s1)
            else ebind (scheduleAt (ao_now s + delay) None s1) (\<lambda>_.
                   Inr (s1\<lparr>delayedSends := delayedSends s1 @ [(ao_now s + delay, p)]\<rparr>)))"

text \<open>A packet sent after a random delay, and one sent at once.\<close>

definition send_jittered :: "AodvControlPacket \<Rightarrow> Ipv4Address \<Rightarrow> u32 \<Rightarrow> Aodv \<Rightarrow> err + Aodv" where
  "send_jittered pk dest ttl s = (let (delay, s1) = draw_jitter s in sendAODVPacket pk dest ttl delay s1)"

definition rreq_packet :: "Rreq \<Rightarrow> Aodv \<Rightarrow> AodvControlPacket" where
  "rreq_packet q s = (if usingIpv6 (ao_par s) then RREQ_IPv6 else RREQ, RreqChunk q)"

definition rrep_packet :: "Rrep \<Rightarrow> Aodv \<Rightarrow> AodvControlPacket" where
  "rrep_packet p s = (if usingIpv6 (ao_par s) then RREP_IPv6 else RREP, RrepChunk p)"

definition createRERR :: "UnreachableNode list \<Rightarrow> Aodv \<Rightarrow> AodvControlPacket" where
  "createRERR ns s = (if usingIpv6 (ao_par s) then RERR_IPv6 else RERR, RerrChunk ns)"

definition createRREPACK :: "Aodv \<Rightarrow> AodvControlPacket" where
  "createRREPACK s = (if usingIpv6 (ao_par s) then RREPACK_IPv6 else RREPACK, RrepAckChunk)"

definition sendRREPACK :: "AodvControlPacket \<Rightarrow> Ipv4Address \<Rightarrow> Aodv \<Rightarrow> err + Aodv" where
  "sendRREPACK pk dest s = sendAODVPacket pk dest 100 0 s"

section \<open>Route discovery\<close>

definition createRREQ :: "Ipv4Address \<Rightarrow> Aodv \<Rightarrow> err + Rreq \<times> Aodv" where
  "createRREQ dest s = ebind (ao_findBestMatchingRoute dest s) (\<lambda>(route, s1).
     let s2 = s1\<lparr>sequenceNum := sequenceNum s1 + 1\<rparr> in
     ebind (case route of
              None \<Rightarrow> Inr None
            | Some r \<Rightarrow> if own_route r then ebind (route_data (r_id r) s2) (\<lambda>d.
                 Inr (if rd_validDestNum d then Some (rd_destSeqNum d) else None))
               else Inr None) (\<lambda>known.
       let s3 = s2\<lparr>rreqId := rreqId s2 + 1\<rparr>;
           q = \<lparr>rq_gratuitousRREPFlag = askGratuitousRREP (ao_par s), rq_destOnlyFlag = destinationOnlyFlag (ao_par s),
                rq_unknownSeqNumFlag = (known = None), rq_hopCount = 0, rq_rreqId = rreqId s3, rq_destAddr = dest,
                rq_destSeqNum = (case known of None \<Rightarrow> 0 | Some n \<Rightarrow> n), rq_originatorAddr = getSelfIPAddress s3,
                rq_originatorSeqNum = sequenceNum s3\<rparr>
       in Inr (q, s3\<lparr>rreqsArrivalTime := (rreqsArrivalTime s3)((getSelfIPAddress s3, rreqId s3) \<mapsto> ao_now s3)\<rparr>)))"

text \<open>The hop limit of the next request for a target and the timer that goes with it.\<close>

definition next_ring :: "Rreq \<Rightarrow> u32 \<Rightarrow> Aodv \<Rightarrow> err + u32 \<times> WaitForRrep" where
  "next_ring q ttl s =
     (case waitForRREPTimers s (rq_destAddr q) of
        Some w \<Rightarrow>
          if ttl \<noteq> 0 then
            Inr (ttl, w\<lparr>wr_destAddr := rq_destAddr q, lastTTL := ttl, fromInvalidEntry := True, wr_timer := None\<rparr>)
          else ebind (assert_that (wr_timer w = None)) (\<lambda>_.
            if lastTTL w + ttlIncrement (ao_par s) < ttlThreshold (ao_par s) then
              Inr (lastTTL w + ttlIncrement (ao_par s),
                   w\<lparr>wr_destAddr := rq_destAddr q, lastTTL := lastTTL w + ttlIncrement (ao_par s)\<rparr>)
            else Inr (netDiameter (ao_par s), w\<lparr>wr_destAddr := rq_destAddr q, lastTTL := netDiameter (ao_par s)\<rparr>))
      | None \<Rightarrow> Inr (ttlStart (ao_par s),
          \<lparr>wr_destAddr = rq_destAddr q, lastTTL = ttlStart (ao_par s), fromInvalidEntry = False, wr_timer = None\<rparr>))"

definition sendRREQ :: "Rreq \<Rightarrow> Ipv4Address \<Rightarrow> u32 \<Rightarrow> Aodv \<Rightarrow> err + Aodv" where
  "sendRREQ q dest ttl s =
     (if rreqCount s \<ge> rreqRatelimit (ao_par s) then Inr s
      else ebind (next_ring q ttl s) (\<lambda>(ttl1, w).
        let ringTraversalTime = 2 * nodeTraversalTime (ao_par s) * uint (ttl1 + timeoutBuffer (ao_par s)) in
        ebind (scheduleAt (ao_now s + ringTraversalTime) (wr_timer w) s) (\<lambda>timer.
        ebind (send_jittered (rreq_packet q s) dest ttl1
                (s\<lparr>waitForRREPTimers := (waitForRREPTimers s)(rq_destAddr q \<mapsto> w\<lparr>wr_timer := timer\<rparr>)\<rparr>)) (\<lambda>s1.
          Inr (s1\<lparr>rreqCount := rreqCount s1 + 1\<rparr>)))))"

definition startRouteDiscovery :: "Ipv4Address \<Rightarrow> u32 \<Rightarrow> Aodv \<Rightarrow> err + Aodv" where
  "startRouteDiscovery target ttl s =
     ebind (assert_that (\<not> hasOngoingRouteDiscovery target s)) (\<lambda>_.
     ebind (createRREQ target s) (\<lambda>(q, s1).
       sendRREQ q broadcastAddress ttl
         (s1\<lparr>addressToRreqRetries := (addressToRreqRetries s1)(target \<mapsto> 0)\<rparr>)))"

text \<open>The datagrams for a target, in the order in which they came, leave the multimap.\<close>

definition delayed_for :: "Ipv4Address \<Rightarrow> Aodv \<Rightarrow> Packet list" where
  "delayed_for target s = map snd (filter (\<lambda>e. fst e = target) (targetAddressToDelayedPackets s))"

definition end_discovery :: "(Packet \<Rightarrow> aodv_event) \<Rightarrow> Ipv4Address \<Rightarrow> Aodv \<Rightarrow> err + Aodv" where
  "end_discovery f target s = ebind (assert_that (hasOngoingRouteDiscovery target s)) (\<lambda>_.
     Inr ((fold (\<lambda>p. ao_emit (f p)) (delayed_for target s) s)
       \<lparr>targetAddressToDelayedPackets := filter (\<lambda>e. fst e \<noteq> target) (targetAddressToDelayedPackets s),
        waitForRREPTimers := (waitForRREPTimers s)(target := None)\<rparr>))"

definition completeRouteDiscovery :: "Ipv4Address \<Rightarrow> Aodv \<Rightarrow> err + Aodv" where
  "completeRouteDiscovery = end_discovery ReinjectQueuedDatagram"

definition cancelRouteDiscovery :: "Ipv4Address \<Rightarrow> Aodv \<Rightarrow> err + Aodv" where
  "cancelRouteDiscovery = end_discovery DropQueuedDatagram"

text \<open>The timer of a target has expired, so it is not scheduled any more.\<close>

definition handleWaitForRREP :: "WaitForRrep \<Rightarrow> Aodv \<Rightarrow> err + Aodv" where
  "handleWaitForRREP w s =
     (let dest = wr_destAddr w in
      case addressToRreqRetries s dest of
        None \<Rightarrow> Inl AssertFailed
      | Some n \<Rightarrow>
          if n = rreqRetries (ao_par s) then cancelRouteDiscovery dest s
          else ebind (createRREQ dest s) (\<lambda>(q, s1).
            sendRREQ q broadcastAddress 0
              (if lastTTL w = netDiameter (ao_par s)
               then s1\<lparr>addressToRreqRetries := (addressToRreqRetries s1)(dest \<mapsto> n + 1)\<rparr> else s1)))"

section \<open>Route replies\<close>

text \<open>A pointer to the destination's route that may be null.\<close>

definition createRREP :: "Rreq \<Rightarrow> nat option \<Rightarrow> nat \<Rightarrow> Ipv4Address \<Rightarrow> Aodv \<Rightarrow> err + Rrep \<times> Aodv" where
  "createRREP q destRoute originatorRoute lastHopAddr s =
     (if rq_destAddr q = getSelfIPAddress s then
        let s1 = (if \<not> rq_unknownSeqNumFlag q \<and> sequenceNum s + 1 = rq_destSeqNum q
                  then s\<lparr>sequenceNum := sequenceNum s + 1\<rparr> else s)
        in Inr (\<lparr>rp_ackRequiredFlag = False, rp_hopCount = 0, rp_destAddr = rq_destAddr q, rp_destSeqNum = sequenceNum s1,
                 rp_originatorAddr = rq_originatorAddr q, rp_lifeTime = trunc_ms (myRouteTimeout (ao_par s))\<rparr>, s1)
      else case destRoute of
        None \<Rightarrow> Inl NullPointer
      | Some i \<Rightarrow>
          ebind (deref_route i s) (\<lambda>r. ebind (route_data i s) (\<lambda>d. ebind (route_data originatorRoute s) (\<lambda>_.
          ebind (addPrecursor i lastHopAddr s) (\<lambda>s1. ebind (addPrecursor originatorRoute (r_gateway r) s1) (\<lambda>s2.
            Inr (\<lparr>rp_ackRequiredFlag = False, rp_hopCount = of_int (r_metric r), rp_destAddr = rq_destAddr q,
                  rp_destSeqNum = rd_destSeqNum d, rp_originatorAddr = rq_originatorAddr q,
                  rp_lifeTime = trunc_ms (rd_lifeTime d - ao_now s)\<rparr>, s2)))))))"

definition createGratuitousRREP :: "Rreq \<Rightarrow> Ipv4Route option \<Rightarrow> Aodv \<Rightarrow> err + Rrep" where
  "createGratuitousRREP q originatorRoute s =
     (case originatorRoute of
        None \<Rightarrow> Inl AssertFailed
      | Some r \<Rightarrow> ebind (route_data (r_id r) s) (\<lambda>d.
          Inr \<lparr>rp_ackRequiredFlag = False, rp_hopCount = of_int (r_metric r), rp_destAddr = rq_originatorAddr q,
               rp_destSeqNum = rq_originatorSeqNum q, rp_originatorAddr = rq_destAddr q, rp_lifeTime = rd_lifeTime d\<rparr>))"

definition sendRREP :: "Rrep \<Rightarrow> Ipv4Address \<Rightarrow> u32 \<Rightarrow> Aodv \<Rightarrow> err + Aodv" where
  "sendRREP p dest ttl s = ebind (ao_findBestMatchingRoute dest s) (\<lambda>(route, s1).
     case route of
       None \<Rightarrow> Inl NullPointer
     | Some r \<Rightarrow> ebind (addPrecursor (r_id r) (r_gateway r) s1) (\<lambda>s2.
         if r_metric r = 1 then
           ebind (scheduleAt (ao_now s2 + nextHopWait (ao_par s2)) None s2) (\<lambda>timer.
             sendAODVPacket (rrep_packet (p\<lparr>rp_ackRequiredFlag := True\<rparr>) s2) (r_gateway r) ttl 0
               (s2\<lparr>failedNextHop := r_gateway r, rrepAckTimer := timer\<rparr>))
         else sendAODVPacket (rrep_packet p s2) (r_gateway r) ttl 0 s2))"

definition sendGRREP :: "Rrep \<Rightarrow> Ipv4Address \<Rightarrow> u32 \<Rightarrow> Aodv \<Rightarrow> err + Aodv" where
  "sendGRREP p dest ttl s = ebind (ao_findBestMatchingRoute dest s) (\<lambda>(route, s1).
     case route of
       None \<Rightarrow> Inl NullPointer
     | Some r \<Rightarrow> sendAODVPacket (rrep_packet p s1) (r_gateway r) ttl 0 s1)"

definition forwardRREP :: "Rrep \<Rightarrow> Ipv4Address \<Rightarrow> u32 \<Rightarrow> Aodv \<Rightarrow> err + Aodv" where
  "forwardRREP p dest ttl s = send_jittered (rrep_packet p s) dest 100 s"

definition forwardRREQ :: "Rreq \<Rightarrow> u32 \<Rightarrow> Aodv \<Rightarrow> err + Aodv" where
  "forwardRREQ q ttl s = send_jittered (rreq_packet q s) broadcastAddress ttl s"

text \<open>The route to the previous hop, created or updated without a valid sequence number.\<close>

definition update_previous_hop :: "Ipv4Address \<Rightarrow> u32 \<Rightarrow> Aodv \<Rightarrow> err + Aodv" where
  "update_previous_hop sourceAddr seqNum s = ebind (ao_findBestMatchingRoute sourceAddr s) (\<lambda>(route, s1).
     let lifeTime = ao_now s1 + activeRouteTimeout (ao_par s1);
         create = ebind (createRoute sourceAddr sourceAddr 1 False seqNum True lifeTime s1) (\<lambda>(_, s2). Inr s2)
     in case route of
          None \<Rightarrow> create
        | Some r \<Rightarrow> if own_route r then updateRoutingTable (r_id r) sourceAddr 1 False seqNum True lifeTime s1 else create)"

definition handleHelloMessage :: "Rrep \<Rightarrow> Aodv \<Rightarrow> err + Aodv" where
  "handleHelloMessage p s = ebind (ao_findBestMatchingRoute (rp_destAddr p) s) (\<lambda>(route, s1).
     let newLifeTime = ao_now s1 + uint (allowedHelloLoss (ao_par s1)) * helloInterval (ao_par s1);
         create = ebind (createRoute (rp_destAddr p) (rp_destAddr p) 1 True (rp_destSeqNum p) True newLifeTime s1)
                    (\<lambda>(_, s2). Inr s2)
     in case route of
          None \<Rightarrow> create
        | Some r \<Rightarrow>
            if own_route r then ebind (route_data (r_id r) s1) (\<lambda>d.
              updateRoutingTable (r_id r) (rp_destAddr p) 1 True (rp_destSeqNum p) True (max (rd_lifeTime d) newLifeTime) s1)
            else create)"

text \<open>The four cases in which a reply updates the route to its destination.\<close>

definition rrep_updates :: "u32 \<Rightarrow> u32 \<Rightarrow> Ipv4Route \<Rightarrow> AodvRouteData \<Rightarrow> bool" where
  "rrep_updates destSeqNum newHopCount r d =
     (\<not> rd_validDestNum d \<or> destSeqNum > rd_destSeqNum d \<or>
      destSeqNum = rd_destSeqNum d \<and> \<not> rd_active d \<or>
      destSeqNum = rd_destSeqNum d \<and> newHopCount < of_int (r_metric r))"

definition update_forward_route :: "Rrep \<Rightarrow> Ipv4Address \<Rightarrow> Aodv \<Rightarrow> err + nat \<times> Aodv" where
  "update_forward_route p sourceAddr s = ebind (ao_findBestMatchingRoute (rp_destAddr p) s) (\<lambda>(route, s1).
     let lifeTime = ao_now s1 + rp_lifeTime p;
         create = createRoute (rp_destAddr p) sourceAddr (rp_hopCount p) True (rp_destSeqNum p) True lifeTime s1
     in case route of
          None \<Rightarrow> create
        | Some r \<Rightarrow>
            if own_route r then ebind (route_data (r_id r) s1) (\<lambda>d.
              if rrep_updates (rp_destSeqNum p) (rp_hopCount p) r d then
                ebind (updateRoutingTable (r_id r) sourceAddr (rp_hopCount p) True (rp_destSeqNum p) True lifeTime s1)
                  (\<lambda>s2. Inr (r_id r, s2))
              else Inr (r_id r, s1))
            else create)"

text \<open>A node that is not the originator passes the reply on along the reverse route \<open>ro\<close>.\<close>

definition pass_rrep_on :: "Rrep \<Rightarrow> Ipv4Address \<Rightarrow> nat \<Rightarrow> Ipv4Route \<Rightarrow> Aodv \<Rightarrow> err + Aodv" where
  "pass_rrep_on p sourceAddr destRoute ro s =
     ebind (route_data (r_id ro) s) (\<lambda>od.
     let s1 = set_route_data (r_id ro)
                (od\<lparr>rd_lifeTime := max (ao_now s + activeRouteTimeout (ao_par s)) (rd_lifeTime od)\<rparr>) s in
     if reboot_completed s1 then
       ebind (if rp_ackRequiredFlag p then sendRREPACK (createRREPACK s1) sourceAddr s1 else Inr s1) (\<lambda>s2.
       ebind (addPrecursor destRoute (r_gateway ro) s2) (\<lambda>s3.
       ebind (deref_route destRoute s3) (\<lambda>rd.
       ebind (ao_findBestMatchingRoute (r_gateway rd) s3) (\<lambda>(nextHopToDestRoute, s4).
       ebind (case nextHopToDestRoute of
                None \<Rightarrow> Inr s4
              | Some rn \<Rightarrow> if own_route rn then addPrecursor (r_id rn) (r_gateway ro) s4 else Inr s4) (\<lambda>s5.
         forwardRREP (p\<lparr>rp_ackRequiredFlag := False\<rparr>) (r_gateway ro) 100 s5)))))
     else Inr s1)"

definition handleRREP :: "Rrep \<Rightarrow> Ipv4Address \<Rightarrow> Aodv \<Rightarrow> err + Aodv" where
  "handleRREP p sourceAddr s =
     (if ipv4_isUnspecified (rp_originatorAddr p) then handleHelloMessage p s
      else
        ebind (update_previous_hop sourceAddr (rp_destSeqNum p) s) (\<lambda>s1.
        let p1 = p\<lparr>rp_hopCount := rp_hopCount p + 1\<rparr> in
        ebind (update_forward_route p1 sourceAddr s1) (\<lambda>(destRoute, s2).
        ebind (ao_findBestMatchingRoute (rp_originatorAddr p1) s2) (\<lambda>(originatorRoute, s3).
          if getSelfIPAddress s3 \<noteq> rp_originatorAddr p1 then
            case originatorRoute of
              None \<Rightarrow> Inr s3
            | Some ro \<Rightarrow> if own_route ro then pass_rrep_on p1 sourceAddr destRoute ro s3 else Inr s3
          else if hasOngoingRouteDiscovery (rp_destAddr p1) s3 then
            ebind (updateRoutingTable destRoute sourceAddr (rp_hopCount p1) True (rp_destSeqNum p1) True
                    (ao_now s3 + rp_lifeTime p1) s3)
              (completeRouteDiscovery (rp_destAddr p1))
          else Inr s3))))"

section \<open>Route requests\<close>

text \<open>The requests are compared as signed integers here.\<close>

definition update_reverse_route :: "Rreq \<Rightarrow> Ipv4Address \<Rightarrow> Aodv \<Rightarrow> err + nat \<times> Aodv" where
  "update_reverse_route q sourceAddr s = ebind (ao_findBestMatchingRoute (rq_originatorAddr q) s) (\<lambda>(route, s1).
     let hopCount = rq_hopCount q;
         minimalLifeTime = ao_now s1 + 2 * netTraversalTime (ao_par s1)
                             - uint (2 * hopCount) * nodeTraversalTime (ao_par s1);
         newLifeTime = max (ao_now s1) minimalLifeTime;
         rreqSeqNum = rq_originatorSeqNum q;
         create = createRoute (rq_originatorAddr q) sourceAddr hopCount True rreqSeqNum True newLifeTime s1
     in case route of
          None \<Rightarrow> create
        | Some r \<Rightarrow>
            if own_route r then ebind (route_data (r_id r) s1) (\<lambda>d.
              let routeSeqNum = rd_destSeqNum d;
                  newSeqNum = (if sint routeSeqNum < sint rreqSeqNum then rreqSeqNum else routeSeqNum)
              in if sint rreqSeqNum > sint routeSeqNum \<or>
                    (rreqSeqNum = routeSeqNum \<and> sint hopCount < r_metric r) \<or> rq_unknownSeqNumFlag q
                 then ebind (updateRoutingTable (r_id r) sourceAddr hopCount True newSeqNum True newLifeTime s1)
                        (\<lambda>s2. Inr (r_id r, s2))
                 else Inr (r_id r, s1))
            else create)"

definition answer_rreq :: "Rreq \<Rightarrow> nat option \<Rightarrow> nat \<Rightarrow> Ipv4Address \<Rightarrow> Aodv \<Rightarrow> err + Aodv" where
  "answer_rreq q destRoute reverseRoute sourceAddr s =
     ebind (createRREP q destRoute reverseRoute sourceAddr s) (\<lambda>(p, s1). sendRREP p (rq_originatorAddr q) 255 s1)"

definition send_gratuitous :: "Rreq \<Rightarrow> Aodv \<Rightarrow> err + Aodv" where
  "send_gratuitous q s =
     (if rq_gratuitousRREPFlag q then
        ebind (ao_findBestMatchingRoute (rq_originatorAddr q) s) (\<lambda>(originatorRoute, s1).
        ebind (createGratuitousRREP q originatorRoute s1) (\<lambda>p. sendGRREP p (rq_destAddr q) 100 s1))
      else Inr s)"

definition rebroadcast_rreq :: "Rreq \<Rightarrow> AodvRouteData option \<Rightarrow> u32 \<Rightarrow> Aodv \<Rightarrow> err + Aodv" where
  "rebroadcast_rreq q destRouteData ttl s =
     (if ttl > 0 \<and> reboot_completed s then
        forwardRREQ
          (q\<lparr>rq_destSeqNum := (case destRouteData of None \<Rightarrow> rq_destSeqNum q
                               | Some d \<Rightarrow> max (rd_destSeqNum d) (rq_destSeqNum q)),
             rq_unknownSeqNumFlag := False\<rparr>) ttl s
      else Inr s)"

text \<open>A request that has not been seen, with its hop count incremented.\<close>

definition process_rreq :: "Rreq \<Rightarrow> Ipv4Address \<Rightarrow> u32 \<Rightarrow> Aodv \<Rightarrow> err + Aodv" where
  "process_rreq q sourceAddr ttl s =
     ebind (update_reverse_route q sourceAddr s) (\<lambda>(reverseRoute, s1).
     ebind (ao_findBestMatchingRoute (rq_destAddr q) s1) (\<lambda>(destRoute, s2).
       let destRouteData = (case destRoute of None \<Rightarrow> None | Some r \<Rightarrow> ao_data s2 (r_id r)) in
       if rq_destAddr q = getSelfIPAddress s2 then
         answer_rreq q (map_option r_id destRoute) reverseRoute sourceAddr s2
       else case (destRoute, destRouteData) of
         (Some r, Some d) \<Rightarrow>
           if rd_active d \<and> rd_validDestNum d \<and> rd_destSeqNum d \<ge> rq_destSeqNum q then
             if r_gateway r = sourceAddr then Inr s2
             else if \<not> rq_destOnlyFlag q then
               ebind (answer_rreq q (Some (r_id r)) reverseRoute sourceAddr s2) (send_gratuitous q)
             else rebroadcast_rreq q destRouteData ttl s2
           else rebroadcast_rreq q destRouteData ttl s2
       | _ \<Rightarrow> rebroadcast_rreq q destRouteData ttl s2))"

definition handleRREQ :: "Rreq \<Rightarrow> Ipv4Address \<Rightarrow> u32 \<Rightarrow> Aodv \<Rightarrow> err + Aodv" where
  "handleRREQ q sourceAddr ttl s =
     (if map_of (blacklist s) sourceAddr \<noteq> None then Inr s
      else
        ebind (update_previous_hop sourceAddr (rq_originatorSeqNum q) s) (\<lambda>s1.
        let key = (rq_originatorAddr q, rq_rreqId q) in
        if (case rreqsArrivalTime s1 key of None \<Rightarrow> False | Some t \<Rightarrow> ao_now s1 - t \<le> pathDiscoveryTime (ao_par s1))
        then Inr s1
        else process_rreq (q\<lparr>rq_hopCount := rq_hopCount q + 1\<rparr>) sourceAddr ttl
               (s1\<lparr>rreqsArrivalTime := (rreqsArrivalTime s1)(key \<mapsto> ao_now s1)\<rparr>)))"

section \<open>Route errors\<close>

definition send_rerr :: "UnreachableNode list \<Rightarrow> Aodv \<Rightarrow> err + Aodv" where
  "send_rerr ns s = send_jittered (createRERR ns s) broadcastAddress 1 (s\<lparr>rerrCount := rerrCount s + 1\<rparr>)"

text \<open>The loop over the routes through a neighbour that cannot be reached any more; it collects the destinations.\<close>

fun break_routes ::
  "Ipv4Address \<Rightarrow> Ipv4Route list \<Rightarrow> UnreachableNode list \<Rightarrow> Aodv \<Rightarrow> err + UnreachableNode list \<times> Aodv" where
  "break_routes a [] ns s = Inr (ns, s)"
| "break_routes a (r # rs) ns s =
     (case ao_data s (r_id r) of
        None \<Rightarrow> break_routes a rs ns s
      | Some d \<Rightarrow>
          if rd_active d \<and> r_gateway r = a then
            let d1 = d\<lparr>rd_destSeqNum := (if rd_validDestNum d then rd_destSeqNum d + 1 else rd_destSeqNum d),
                       rd_active := False, rd_lifeTime := ao_now s + deletePeriod (ao_par s)\<rparr>
            in ebind (scheduleExpungeRoutes (set_route_data (r_id r) d1 s)) (\<lambda>s1.
                 break_routes a rs (ns @ [\<lparr>un_addr = r_dest r, un_seqNum = rd_destSeqNum d1\<rparr>]) s1)
          else break_routes a rs ns s)"

definition handleLinkBreakSendRERR :: "Ipv4Address \<Rightarrow> Aodv \<Rightarrow> err + Aodv" where
  "handleLinkBreakSendRERR unreachableAddr s = ebind (ao_findBestMatchingRoute unreachableAddr s) (\<lambda>(route, s1).
     case route of
       None \<Rightarrow> Inr s1
     | Some r \<Rightarrow>
         if own_route r then ebind (route_data (r_id r) s1) (\<lambda>d.
           let ns = (if rd_active d then [\<lparr>un_addr = unreachableAddr, un_seqNum = rd_destSeqNum d\<rparr>] else []) in
           ebind (break_routes unreachableAddr (routes (ao_rt s1)) ns s1) (\<lambda>(ns1, s2).
             if rerrCount s2 \<ge> rerrRatelimit (ao_par s2) then Inr s2
             else if ns1 = [] then Inr s2
             else send_rerr ns1 s2))
         else Inr s1)"

text \<open>A datagram could not be delivered on the link; \<open>None\<close> if it has no network header.\<close>

definition ao_linkBroken :: "Ipv4Address option \<Rightarrow> Aodv \<Rightarrow> err + Aodv" where
  "ao_linkBroken dest s =
     (case dest of
        None \<Rightarrow> Inr s
      | Some a \<Rightarrow> ebind (ao_findBestMatchingRoute a s) (\<lambda>(route, s1).
          case route of
            None \<Rightarrow> Inr s1
          | Some r \<Rightarrow> if own_route r then handleLinkBreakSendRERR (r_gateway r) s1 else Inr s1))"

text \<open>One route, compared with the destinations that a route error names.\<close>

fun invalidate_route ::
  "Ipv4Route \<Rightarrow> UnreachableNode list \<Rightarrow> UnreachableNode list \<Rightarrow> Aodv \<Rightarrow> err + UnreachableNode list \<times> Aodv" where
  "invalidate_route r [] ns s = Inr (ns, s)"
| "invalidate_route r (u # us) ns s =
     (if r_dest r = un_addr u then
        ebind (route_data (r_id r) s) (\<lambda>d.
        let d1 = d\<lparr>rd_destSeqNum := un_seqNum u, rd_active := False, rd_lifeTime := ao_now s + deletePeriod (ao_par s)\<rparr>;
            ns1 = (if precursorList d \<noteq> {} then ns @ [\<lparr>un_addr = r_dest r, un_seqNum = un_seqNum u\<rparr>] else ns)
        in ebind (scheduleExpungeRoutes (set_route_data (r_id r) d1 s)) (invalidate_route r us ns1))
      else invalidate_route r us ns s)"

fun invalidate_routes ::
  "Ipv4Address \<Rightarrow> UnreachableNode list \<Rightarrow> Ipv4Route list \<Rightarrow> UnreachableNode list \<Rightarrow> Aodv \<Rightarrow>
   err + UnreachableNode list \<times> Aodv" where
  "invalidate_routes a us [] ns s = Inr (ns, s)"
| "invalidate_routes a us (r # rs) ns s =
     (case ao_data s (r_id r) of
        None \<Rightarrow> invalidate_routes a us rs ns s
      | Some d \<Rightarrow>
          if rd_active d \<and> r_gateway r = a
          then ebind (invalidate_route r us ns s) (\<lambda>(ns1, s1). invalidate_routes a us rs ns1 s1)
          else invalidate_routes a us rs ns s)"

definition handleRERR :: "UnreachableNode list \<Rightarrow> Ipv4Address \<Rightarrow> Aodv \<Rightarrow> err + Aodv" where
  "handleRERR us sourceAddr s =
     ebind (invalidate_routes sourceAddr us (routes (ao_rt s)) [] s) (\<lambda>(ns, s1).
       if rerrCount s1 \<ge> rerrRatelimit (ao_par s1) then Inr s1
       else if ns \<noteq> [] \<and> reboot_completed s1 then
         ebind (sendAODVPacket (createRERR ns s1) broadcastAddress 1 0 s1) (\<lambda>s2. Inr (s2\<lparr>rerrCount := rerrCount s2 + 1\<rparr>))
       else Inr s1)"

definition sendRERRWhenNoRouteToForward :: "Ipv4Address \<Rightarrow> Aodv \<Rightarrow> err + Aodv" where
  "sendRERRWhenNoRouteToForward unreachableAddr s =
     (if rerrCount s \<ge> rerrRatelimit (ao_par s) then Inr s
      else ebind (ao_findBestMatchingRoute unreachableAddr s) (\<lambda>(route, s1).
        let seqNum = (case (case route of None \<Rightarrow> None | Some r \<Rightarrow> ao_data s1 (r_id r)) of
                        None \<Rightarrow> 0 | Some d \<Rightarrow> if rd_validDestNum d then rd_destSeqNum d else 0)
        in send_rerr [\<lparr>un_addr = unreachableAddr, un_seqNum = seqNum\<rparr>] s1))"

section \<open>Acknowledgments, hello messages\<close>

definition handleRREPACK :: "Ipv4Address \<Rightarrow> Aodv \<Rightarrow> err + Aodv" where
  "handleRREPACK neighborAddr s =
     (if rrepAckTimer s = None then Inr s
      else ebind (ao_findBestMatchingRoute neighborAddr s) (\<lambda>(route, s1).
        case route of
          None \<Rightarrow> Inr s1
        | Some r \<Rightarrow>
            if own_route r then ebind (route_data (r_id r) s1) (\<lambda>d.
              Inr ((set_route_data (r_id r) (d\<lparr>rd_active := True\<rparr>) s1)\<lparr>rrepAckTimer := None\<rparr>))
            else Inr s1))"

definition handleRREPACKTimer :: "Aodv \<Rightarrow> err + Aodv" where
  "handleRREPACKTimer s =
     (let s1 = s\<lparr>blacklist := map_set (failedNextHop s) (ao_now s + blacklistTimeout (ao_par s)) (blacklist s)\<rparr> in
      if blacklistTimer s1 = None
      then ebind (scheduleAt (ao_now s1 + blacklistTimeout (ao_par s1)) None s1) (\<lambda>timer. Inr (s1\<lparr>blacklistTimer := timer\<rparr>))
      else Inr s1)"

definition handleBlackListTimer :: "Aodv \<Rightarrow> err + Aodv" where
  "handleBlackListTimer s =
     (let left = filter (\<lambda>e. snd e > ao_now s) (blacklist s); s1 = s\<lparr>blacklist := left\<rparr> in
      if left = [] then Inr s1
      else ebind (scheduleAt (Min (snd ` set left)) (blacklistTimer s1) s1) (\<lambda>timer. Inr (s1\<lparr>blacklistTimer := timer\<rparr>)))"

definition createHelloMessage :: "Aodv \<Rightarrow> Rrep" where
  "createHelloMessage s = \<lparr>rp_ackRequiredFlag = False, rp_hopCount = 0, rp_destAddr = getSelfIPAddress s,
     rp_destSeqNum = sequenceNum s, rp_originatorAddr = 0,
     rp_lifeTime = uint (allowedHelloLoss (ao_par s)) * helloInterval (ao_par s)\<rparr>"

fun any_active :: "Ipv4Route list \<Rightarrow> Aodv \<Rightarrow> err + bool" where
  "any_active [] s = Inr False"
| "any_active (r # rs) s =
     (if own_route r then ebind (route_data (r_id r) s) (\<lambda>d. if rd_active d then Inr True else any_active rs s)
      else any_active rs s)"

definition schedule_hello :: "Aodv \<Rightarrow> err + Aodv" where
  "schedule_hello s =
     ebind (scheduleAt (ao_now s + (helloInterval (ao_par s) - periodicJitter (ao_par s) (ao_draws s))) (helloMsgTimer s) s)
       (\<lambda>timer. Inr (s\<lparr>helloMsgTimer := timer, ao_draws := ao_draws s + 1\<rparr>))"

definition sendHelloMessagesIfNeeded :: "Aodv \<Rightarrow> err + Aodv" where
  "sendHelloMessagesIfNeeded s =
     ebind (assert_that (useHelloMessages (ao_par s))) (\<lambda>_.
     ebind (any_active (routes (ao_rt s)) s) (\<lambda>hasActiveRoute.
     ebind (if hasActiveRoute \<and> (lastBroadcastTime s = 0 \<or> ao_now s - lastBroadcastTime s > helloInterval (ao_par s))
            then sendAODVPacket (rrep_packet (createHelloMessage s) s) broadcastAddress 1 0 s else Inr s) schedule_hello))"

section \<open>Datagrams\<close>

definition delayDatagram :: "Packet \<Rightarrow> Aodv \<Rightarrow> Aodv" where
  "delayDatagram p s =
     s\<lparr>targetAddressToDelayedPackets := targetAddressToDelayedPackets s @ [(destAddress (ipHeader p), p)]\<rparr>"

definition needs_no_route :: "Ipv4Address \<Rightarrow> Aodv \<Rightarrow> bool" where
  "needs_no_route a s = (isLimitedBroadcastAddress a \<or> rt_isLocalAddress a (ao_rt s) \<or> ipv4_isMulticast a)"

definition ensureRouteForDatagram :: "Packet \<Rightarrow> Aodv \<Rightarrow> err + HookResult \<times> Aodv" where
  "ensureRouteForDatagram p s =
     (let dest = destAddress (ipHeader p) in
      if needs_no_route dest s then Inr (ACCEPT, s)
      else ebind (ao_findBestMatchingRoute dest s) (\<lambda>(route, s1).
        let routeData = (case route of None \<Rightarrow> None | Some r \<Rightarrow> ao_data s1 (r_id r));
            expiry = ao_now s1 + activeRouteTimeout (ao_par s1);
            isActive = (case routeData of None \<Rightarrow> False | Some d \<Rightarrow> rd_active d);
            isInactive = (case routeData of None \<Rightarrow> False | Some d \<Rightarrow> \<not> rd_active d);
            nextHop = (case route of None \<Rightarrow> 0 | Some r \<Rightarrow> r_gateway r);
            metric = (case route of None \<Rightarrow> 0 | Some r \<Rightarrow> r_metric r)
        in if isActive \<and> \<not> ipv4_isUnspecified nextHop then
             ebind (updateValidRouteLifeTime dest expiry s1) (\<lambda>(_, s2).
             ebind (updateValidRouteLifeTime nextHop expiry s2) (\<lambda>(_, s3). Inr (ACCEPT, s3)))
           else
             let s2 = delayDatagram p s1 in
             ebind (if hasOngoingRouteDiscovery dest s2 then Inr s2
                    else startRouteDiscovery dest
                           (if isInactive then of_int metric + ttlIncrement (ao_par s2) else 0) s2) (\<lambda>s3.
               Inr (QUEUE, s3))))"

text \<open>A route that a datagram should take but that is not active: its sequence number grows, and it stays for a while.\<close>

definition refresh_inactive :: "Ipv4Route \<Rightarrow> AodvRouteData \<Rightarrow> Aodv \<Rightarrow> Aodv" where
  "refresh_inactive r d s = set_route_data (r_id r)
     (d\<lparr>rd_destSeqNum := (if rd_validDestNum d then rd_destSeqNum d + 1 else rd_destSeqNum d),
        rd_lifeTime := ao_now s + deletePeriod (ao_par s)\<rparr>) s"

definition extend_hop :: "Ipv4Route option \<Rightarrow> Aodv \<Rightarrow> err + Aodv" where
  "extend_hop route s =
     (case route of
        None \<Rightarrow> Inr s
      | Some r \<Rightarrow>
          if own_route r
          then ebind (updateValidRouteLifeTime (r_gateway r) (ao_now s + activeRouteTimeout (ao_par s)) s) (\<lambda>(_, s1). Inr s1)
          else Inr s)"

definition ao_datagramForwardHook :: "Packet \<Rightarrow> Aodv \<Rightarrow> err + HookResult \<times> Aodv" where
  "ao_datagramForwardHook p s =
     (let dest = destAddress (ipHeader p); source = srcAddress (ipHeader p) in
      ebind (ao_findBestMatchingRoute source s) (\<lambda>(ipSource, s1).
      if needs_no_route dest s1 then
        ebind (if rt_isLocalAddress dest (ao_rt s1) then extend_hop ipSource s1 else Inr s1) (\<lambda>s2. Inr (ACCEPT, s2))
      else
        ebind (ao_findBestMatchingRoute dest s1) (\<lambda>(routeDest, s2).
        let expiry = ao_now s2 + activeRouteTimeout (ao_par s2) in
        ebind (updateValidRouteLifeTime source expiry s2) (\<lambda>(_, s3).
        ebind (updateValidRouteLifeTime dest expiry s3) (\<lambda>(_, s4).
        ebind (extend_hop routeDest s4) (\<lambda>s5.
        ebind (extend_hop ipSource s5) (\<lambda>s6.
        ebind (case routeDest of
                 None \<Rightarrow> sendRERRWhenNoRouteToForward dest s6
               | Some r \<Rightarrow>
                   (case ao_data s6 (r_id r) of
                      Some d \<Rightarrow>
                        if \<not> rd_active d then sendRERRWhenNoRouteToForward dest (refresh_inactive r d s6)
                        else if \<not> own_route r then sendRERRWhenNoRouteToForward dest s6 else Inr s6
                    | None \<Rightarrow> if \<not> own_route r then sendRERRWhenNoRouteToForward dest s6 else Inr s6)) (\<lambda>s7.
          Inr (ACCEPT, s7)))))))))"

definition ao_hook :: "HookType \<Rightarrow> Packet \<Rightarrow> Aodv \<Rightarrow> err + HookResult \<times> Aodv" where
  "ao_hook ty p s =
     (case ty of
        PREROUTING \<Rightarrow> ensureRouteForDatagram p s
      | LOCALOUT \<Rightarrow> ensureRouteForDatagram p s
      | FORWARD \<Rightarrow> ao_datagramForwardHook p s
      | POSTROUTING \<Rightarrow> Inr (ACCEPT, s)
      | LOCALIN \<Rightarrow> Inr (ACCEPT, s))"

section \<open>Reception, timers, life cycle\<close>

definition checkIpVersionAndPacketTypeCompatibility :: "AodvControlPacketType \<Rightarrow> Aodv \<Rightarrow> err + unit" where
  "checkIpVersionAndPacketTypeCompatibility ty s =
     (if ty \<in> {RREQ, RREP, RERR, RREPACK} then
        if usingIpv6 (ao_par s) then Inl (RuntimeError ''packet arrived with non-IPv6 packet type'') else Inr ()
      else if ty \<in> {RREQ_IPv6, RREP_IPv6, RERR_IPv6, RREPACK_IPv6} then
        if \<not> usingIpv6 (ao_par s) then Inl (RuntimeError ''packet arrived with IPv6 packet type'') else Inr ()
      else Inl (RuntimeError ''packet arrived with undefined packet type''))"

text \<open>A packet whose chunk is not of the class that its type field promises makes the cast throw.\<close>

definition processPacket :: "Ipv4Address \<Rightarrow> int \<Rightarrow> AodvControlPacket \<Rightarrow> Aodv \<Rightarrow> err + Aodv" where
  "processPacket sourceAddr hopLimit pk s =
     (let (ty, chunk) = pk; arrivalPacketTTL = (of_int (hopLimit - 1) :: u32) in
      ebind (checkIpVersionAndPacketTypeCompatibility ty s) (\<lambda>_.
        if ty \<in> {RREQ, RREQ_IPv6} then
          (case chunk of RreqChunk q \<Rightarrow> handleRREQ q sourceAddr arrivalPacketTTL s | _ \<Rightarrow> Inl (RuntimeError ''nullptr''))
        else if ty \<in> {RREP, RREP_IPv6} then
          (case chunk of RrepChunk p \<Rightarrow> handleRREP p sourceAddr s | _ \<Rightarrow> Inl (RuntimeError ''nullptr''))
        else if ty \<in> {RERR, RERR_IPv6} then
          (case chunk of RerrChunk us \<Rightarrow> handleRERR us sourceAddr s | _ \<Rightarrow> Inl (RuntimeError ''nullptr''))
        else
          (case chunk of RrepAckChunk \<Rightarrow> handleRREPACK sourceAddr s | _ \<Rightarrow> Inl (RuntimeError ''nullptr''))))"

definition ao_start :: "Aodv \<Rightarrow> err + Aodv" where
  "ao_start s =
     (let s1 = ao_emit (SocketBind (aodvUDPPort (ao_par s))) (s\<lparr>rebootTime := ao_now s\<rparr>) in
      ebind (if useHelloMessages (ao_par s) then schedule_hello s1 else Inr s1) (\<lambda>s2.
      ebind (scheduleAt (ao_now s2 + sim_sec) (counterTimer s2) s2) (\<lambda>timer. Inr (s2\<lparr>counterTimer := timer\<rparr>))))"

text \<open>The packets that wait for their delay are not cancelled, the blacklist and the time of the last broadcast stay.\<close>

definition clearState :: "Aodv \<Rightarrow> Aodv" where
  "clearState s = s\<lparr>rerrCount := 0, rreqCount := 0, rreqId := 0, sequenceNum := 0, addressToRreqRetries := (\<lambda>_. None),
     targetAddressToDelayedPackets := [], waitForRREPTimers := (\<lambda>_. None), rreqsArrivalTime := (\<lambda>_. None),
     helloMsgTimer := None, expungeTimer := None, counterTimer := None, blacklistTimer := None, rrepAckTimer := None\<rparr>"

definition counter_expired :: "Aodv \<Rightarrow> err + Aodv" where
  "counter_expired s =
     (let s1 = s\<lparr>rreqCount := 0, rerrCount := 0\<rparr> in
      ebind (scheduleAt (ao_now s1 + sim_sec) (counterTimer s1) s1) (\<lambda>timer. Inr (s1\<lparr>counterTimer := timer\<rparr>)))"

definition delayed_send :: "nat \<Rightarrow> Aodv \<Rightarrow> Aodv" where
  "delayed_send k s =
     ao_emit (SocketSend (snd (delayedSends s ! k)))
       (s\<lparr>delayedSends := take k (delayedSends s) @ drop (Suc k) (delayedSends s)\<rparr>)"

section \<open>Runs\<close>

text \<open>
  A packet from the socket with its source and hop limit, a call of a hook, a datagram lost on the link, an expiring timer
  (a step that does nothing unless the timer is due), start and stop of the node, an operation of another module on the
  routing table, and time that passes.
\<close>

datatype aodv_op =
    ReceiveControl Ipv4Address int AodvControlPacket | CallHook HookType Packet | LinkBroken "Ipv4Address option"
  | HelloTimer | ExpungeTimer | CounterTimer | RrepAckTimer | BlackListTimer | WaitExpires Ipv4Address | SendExpires nat
  | AodvStart | AodvStop | AodvCrash | TableOp rt_op | Elapse nat

fun aodv_step :: "aodv_op \<Rightarrow> Aodv \<Rightarrow> err + Aodv" where
  "aodv_step (ReceiveControl source hopLimit pk) s = processPacket source hopLimit pk s"
| "aodv_step (CallHook ty p) s = ebind (ao_hook ty p s) (\<lambda>(res, s1). Inr (ao_emit (HookVerdict ty res p) s1))"
| "aodv_step (LinkBroken dest) s = ao_linkBroken dest s"
| "aodv_step HelloTimer s =
     (if helloMsgTimer s = Some (ao_now s) then sendHelloMessagesIfNeeded (s\<lparr>helloMsgTimer := None\<rparr>) else Inr s)"
| "aodv_step ExpungeTimer s =
     (if expungeTimer s = Some (ao_now s) then expungeRoutes (s\<lparr>expungeTimer := None\<rparr>) else Inr s)"
| "aodv_step CounterTimer s =
     (if counterTimer s = Some (ao_now s) then counter_expired (s\<lparr>counterTimer := None\<rparr>) else Inr s)"
| "aodv_step RrepAckTimer s =
     (if rrepAckTimer s = Some (ao_now s) then handleRREPACKTimer (s\<lparr>rrepAckTimer := None\<rparr>) else Inr s)"
| "aodv_step BlackListTimer s =
     (if blacklistTimer s = Some (ao_now s) then handleBlackListTimer (s\<lparr>blacklistTimer := None\<rparr>) else Inr s)"
| "aodv_step (WaitExpires target) s =
     (case waitForRREPTimers s target of
        None \<Rightarrow> Inr s
      | Some w \<Rightarrow>
          if wr_timer w = Some (ao_now s) then
            let w1 = w\<lparr>wr_timer := None\<rparr> in
            handleWaitForRREP w1 (s\<lparr>waitForRREPTimers := (waitForRREPTimers s)(target \<mapsto> w1)\<rparr>)
          else Inr s)"
| "aodv_step (SendExpires k) s =
     (if k < length (delayedSends s) \<and> fst (delayedSends s ! k) = ao_now s then Inr (delayed_send k s) else Inr s)"
| "aodv_step AodvStart s = ao_start s"
| "aodv_step AodvStop s = Inr (clearState (ao_emit SocketClose s))"
| "aodv_step AodvCrash s = Inr (clearState (ao_emit SocketDestroy s))"
| "aodv_step (TableOp f) s = ebind (rt_step f (ao_rt s)) (\<lambda>t. Inr (s\<lparr>ao_rt := t\<rparr>))"
| "aodv_step (Elapse dt) s = Inr (s\<lparr>ao_rt := (ao_rt s)\<lparr>rt_now := ao_now s + int dt\<rparr>\<rparr>)"

end
