(* ===== verification/AodvTable.thy ===== *)
theory AodvTable
  imports Aodv Ipv4RoutesProps
begin

text \<open>
  The routing table as the AODV module uses it. The lemmas compute what adding a host route and changing its next hop and metric do to
  the vector of routes, and show that these operations fail only where the code throws. The relation \<open>same_routes\<close> says that
  no route is lost or replaced, whatever becomes of next hops and metrics.
\<close>

section \<open>Routes that stay\<close>

text \<open>What AODV never changes of a route.\<close>

definition stable_route :: "Ipv4Route \<Rightarrow> Ipv4Route \<Rightarrow> bool" where
  "stable_route r r' = (r_id r' = r_id r \<and> r_dest r' = r_dest r \<and> r_netmask r' = r_netmask r \<and> r_source r' = r_source r \<and>
     r_expiryTime r' = r_expiryTime r \<and> r_interface r' = r_interface r)"

lemma stable_refl [simp]: "stable_route r r"
  by (simp add: stable_route_def)

lemma stable_trans: "stable_route a b \<Longrightarrow> stable_route b c \<Longrightarrow> stable_route a c"
  by (simp add: stable_route_def)

lemma stable_same:
  "stable_route r r' \<Longrightarrow> own_route r' = own_route r" "stable_route r r' \<Longrightarrow> route_matches d r' = route_matches d r"
  "stable_route r r' \<Longrightarrow> r_isValid n r' = r_isValid n r" "stable_route r r' \<Longrightarrow> r_id r' = r_id r" "stable_route r r' \<Longrightarrow> r_dest r' = r_dest r"
  by (simp_all add: stable_route_def own_route_def route_matches_def r_isValid_def)

text \<open>The parts of the table that only its own operations and the clock change.\<close>

definition same_node :: "Ipv4RoutingTable \<Rightarrow> Ipv4RoutingTable \<Rightarrow> bool" where
  "same_node t t' = (rt_now t' = rt_now t \<and> routerId t' = routerId t \<and> rt_ift t' = rt_ift t)"

definition grown :: "Ipv4RoutingTable \<Rightarrow> Ipv4RoutingTable \<Rightarrow> bool" where
  "grown t t' = (same_node t t' \<and> (\<forall>r \<in> set (routes t). \<exists>r' \<in> set (routes t'). stable_route r r'))"

lemma same_node_refl [simp]: "same_node t t"
  by (simp add: same_node_def)

lemma same_node_trans: "same_node a b \<Longrightarrow> same_node b c \<Longrightarrow> same_node a c"
  by (simp add: same_node_def)

lemma grown_refl [simp]: "grown t t"
  unfolding grown_def using stable_refl same_node_refl by blast

lemma grown_same: "routes t' = routes t \<Longrightarrow> same_node t t' \<Longrightarrow> grown t t'"
  unfolding grown_def using stable_refl by metis

lemma grown_trans: "grown a b \<Longrightarrow> grown b c \<Longrightarrow> grown a c"
  unfolding grown_def by (meson same_node_trans stable_trans)

lemma grown_route: "grown t t' \<Longrightarrow> r \<in> set (routes t) \<Longrightarrow> \<exists>r' \<in> set (routes t'). stable_route r r'"
  by (simp add: grown_def)

text \<open>A table in which an address has a route has one in every grown table.\<close>

lemma grown_lookup: "grown t t' \<Longrightarrow> \<not> no_route d t \<Longrightarrow> \<not> no_route d t'"
  unfolding no_route_def grown_def same_node_def using stable_same by metis

section \<open>Lookups\<close>

lemma lookup_same:
  "findBestMatchingRoute d t = Inr (res, t1) \<Longrightarrow> routes t1 = routes t \<and> same_node t t1 \<and> rt_nextId t1 = rt_nextId t"
  by (auto simp: findBestMatchingRoute_def search_route_def Let_def same_node_def split: option.splits if_splits)

lemma lookup_found:
  assumes "rt_inv u t" "findBestMatchingRoute d t = Inr (res, t1)"
  shows "rt_inv u t1"
    and "res = None \<longleftrightarrow> no_route d t"
    and "res = Some r \<Longrightarrow> r \<in> set (routes t) \<and> r_isValid (rt_now t) r \<and> route_matches d r"
proof -
  have l: "rt_inv u t1" "case res of None \<Rightarrow> no_route d t | Some r \<Rightarrow> r_isValid (rt_now t) r \<and> best_route d t r"
    using lookup_result [OF assms(1), of d] assms(2) by auto
  show "rt_inv u t1" by (rule l(1))
  show "res = None \<longleftrightarrow> no_route d t" using l(2) by (auto simp: no_route_def best_route_def split: option.splits)
  show "res = Some r \<Longrightarrow> r \<in> set (routes t) \<and> r_isValid (rt_now t) r \<and> route_matches d r"
    using l(2) by (simp add: best_route_def)
qed

lemma lookup_sound:
  assumes "rt_inv u t"
  obtains res t1 where "findBestMatchingRoute d t = Inr (res, t1)"
  using lookup_result [OF assms, of d] by blast

section \<open>Adding a host route\<close>

definition host_route :: "Ipv4Route \<Rightarrow> bool" where
  "host_route r = (r_netmask r = 0xFFFFFFFF \<and> r_dest r \<noteq> 0 \<and> r_interface r \<noteq> None)"

lemma stable_host: "stable_route r r' \<Longrightarrow> host_route r' = host_route r"
  by (simp add: stable_route_def host_route_def)

lemma full_mask: "make_netmask 32 = 0xFFFFFFFF" "(a :: u32) AND 0xFFFFFFFF = a" "NOT (0xFFFFFFFF :: u32) = 0"
  "(- 4294967296 :: u32) = 0"
proof -
  have m: "(0xFFFFFFFF :: u32) = - 1" by simp
  show "make_netmask 32 = 0xFFFFFFFF" by (simp add: make_netmask_def)
  show "a AND 0xFFFFFFFF = a" unfolding m by simp
  show "NOT (0xFFFFFFFF :: u32) = 0" unfolding m by simp
  show "(- 4294967296 :: u32) = 0" by simp
qed

lemma xor_zero: "(a :: u32) XOR b = 0 \<longleftrightarrow> a = b"
  by (metis xor.assoc xor_self_eq xor.left_neutral xor.right_neutral)

lemma host_matches: "r_netmask r = 0xFFFFFFFF \<Longrightarrow> route_matches d r \<longleftrightarrow> r_dest r = d"
  unfolding route_matches_def maskedAddrAreEqual_def by (simp only: full_mask xor_zero) auto

lemma full_mask_valid: "isValidNetmask 0xFFFFFFFF"
  unfolding isValidNetmask_iff using full_mask(1) by (metis order_refl zero_le_numeral)

text \<open>A host route never takes the place of the default route, so adding one only inserts it.\<close>

lemma add_netmasked_route:
  assumes "r_netmask r \<noteq> 0"
  obtains m where "internalAddRoute r t = Inl (RuntimeError m)"
    | "internalAddRoute r t = Inr (invalidateCache (insert_route (r\<lparr>r_inTable := True\<rparr>) t))"
  using assms by (fastforce simp: internalAddRoute_def ipv4_isUnspecified_def split: if_splits)

lemma add_host_route:
  assumes "host_route r"
  shows "internalAddRoute r t = Inr (invalidateCache (insert_route (r\<lparr>r_inTable := True\<rparr>) t))"
  using assms full_mask_valid full_mask(2) [of "r_dest r"]
  by (simp add: internalAddRoute_def host_route_def ipv4_isUnspecified_def full_mask(3,4))

lemma insert_route_routes: "set (routes (invalidateCache (insert_route r t))) = insert r (set (routes t))"
  by (simp add: insert_route_def invalidateCache_def)

lemma insert_route_node: "same_node t (invalidateCache (insert_route r t))"
  "rt_nextId (invalidateCache (insert_route r t)) = rt_nextId t"
  by (simp_all add: insert_route_def invalidateCache_def same_node_def)

section \<open>Next hop and metric\<close>

lemma update_first_set:
  assumes "distinct (map r_id rs)" "find (\<lambda>x. r_id x = i) rs = Some r" "r_id r1 = i"
  shows "set (update_first (\<lambda>x. r_id x = i) r1 rs) = insert r1 (set rs - {r})"
  using assms
proof (induction rs)
  case (Cons x rs)
  show ?case
  proof (cases "r_id x = i")
    case True
    then have "r = x" "x \<notin> set rs" using Cons.prems(1,2) by auto
    then show ?thesis using True by auto
  next
    case False
    then have "r \<noteq> x" using Cons.prems(2) by (auto simp: find_Some_iff)
    then show ?thesis using Cons False by auto
  qed
qed simp

lemma remove_first_set:
  assumes "distinct (map r_id rs)" "find (\<lambda>x. r_id x = i) rs = Some r"
  shows "set (remove_first (\<lambda>x. r_id x = i) rs) = set rs - {r}"
  using assms
proof (induction rs)
  case (Cons x rs)
  show ?case
  proof (cases "r_id x = i")
    case True
    then have "r = x" "x \<notin> set rs" using Cons.prems(1,2) by auto
    then show ?thesis using True by auto
  next
    case False
    then have "r \<noteq> x" using Cons.prems(2) by (auto simp: find_Some_iff)
    then show ?thesis using Cons False by auto
  qed
qed simp

text \<open>What \<open>setNextHop\<close> and \<open>setMetric\<close> do to a route with a netmask.\<close>

lemma set_gateway:
  assumes v: "vector_ok u t" and r: "find_route i t = Some r"
  obtains t1 where "change_route (SetGateway g) i t = Inr t1"
    "set (routes t1) = insert (r\<lparr>r_gateway := g\<rparr>) (set (routes t) - {r})" "same_node t t1" "rt_nextId t1 = rt_nextId t"
proof -
  have f: "find (\<lambda>x. r_id x = i) (routes t) = Some r" and id: "r_id r = i"
    using r find_route_props [OF r] by (simp_all add: find_route_def)
  let ?t = "t\<lparr>routes := update_first (\<lambda>x. r_id x = i) (r\<lparr>r_gateway := g\<rparr>) (routes t)\<rparr>"
  have s: "set (routes ?t) = insert (r\<lparr>r_gateway := g\<rparr>) (set (routes t) - {r})"
    using update_first_set [OF vector_okD(2) [OF v] f, of "r\<lparr>r_gateway := g\<rparr>"] id by simp
  show ?thesis
  proof (cases "r_gateway r = g")
    case True
    then have e: "r\<lparr>r_gateway := g\<rparr> = r" by simp
    then have "change_route (SetGateway g) i t = Inr ?t" using r True by (simp add: change_route_def e)
    then show ?thesis using that s by (simp add: same_node_def)
  next
    case False
    then have "change_route (SetGateway g) i t = Inr ?t \<or> change_route (SetGateway g) i t = Inr (rt_emit (RouteChanged i) ?t)"
      using r by (simp add: change_route_def routeChanged_def Let_def)
    then show ?thesis
    proof
      assume e: "change_route (SetGateway g) i t = Inr ?t"
      show ?thesis by (rule that [OF e s]) (simp_all add: same_node_def)
    next
      assume e: "change_route (SetGateway g) i t = Inr (rt_emit (RouteChanged i) ?t)"
      show ?thesis by (rule that [OF e]) (simp_all only: table_frame s, simp_all add: same_node_def rt_emit_def)
    qed
  qed
qed

lemma set_metric:
  assumes v: "vector_ok u t" and r: "find_route i t = Some r" "host_route r"
  obtains t1 where "change_route (SetMetric m) i t = Inr t1"
    "set (routes t1) = insert (r\<lparr>r_metric := m\<rparr>) (set (routes t) - {r})" "same_node t t1" "rt_nextId t1 = rt_nextId t"
proof -
  have f: "find (\<lambda>x. r_id x = i) (routes t) = Some r" and id: "r_id r = i" and "in": "r_inTable r"
    using r(1) find_route_props [OF r(1)] vector_okD(3) [OF v] by (simp_all add: find_route_def)
  let ?r = "r\<lparr>r_metric := m\<rparr>"
  have in1: "?r\<lparr>r_inTable := True\<rparr> = ?r" using "in" by simp
  let ?t = "t\<lparr>routes := update_first (\<lambda>x. r_id x = i) ?r (routes t)\<rparr>"
  let ?t1 = "invalidateCache (t\<lparr>routes := remove_first (\<lambda>x. r_id x = i) (routes t)\<rparr>)"
  show ?thesis
  proof (cases "r_metric r = m")
    case True
    then have e: "?r = r" by simp
    then have "change_route (SetMetric m) i t = Inr (t\<lparr>routes := update_first (\<lambda>x. r_id x = i) r (routes t)\<rparr>)"
      using r(1) True by (simp add: change_route_def)
    moreover have "insert ?r (set (routes t) - {r}) = set (routes t)"
      using e find_route_props [OF r(1)] by auto
    ultimately show ?thesis using that update_first_same [OF f] by (simp add: same_node_def)
  next
    case False
    have "find_route i ?t = Some ?r" using find_update_same [OF f] id by (simp add: find_route_def)
    then have "internalRemoveRoute i ?t = (Some ?r, ?t1)"
      using remove_update_first [of "\<lambda>x. r_id x = i" ?r] id by (simp add: internalRemoveRoute_def)
    moreover have "host_route ?r" using r(2) by (simp add: host_route_def)
    ultimately have "change_route (SetMetric m) i t =
        Inr (rt_emit (RouteChanged i) (invalidateCache (insert_route (?r\<lparr>r_inTable := True\<rparr>) ?t1)))"
      using r(1) False "in" add_host_route [of ?r ?t1] by (simp add: change_route_def routeChanged_def)
    moreover have "set (routes (invalidateCache (insert_route (?r\<lparr>r_inTable := True\<rparr>) ?t1))) =
        insert ?r (set (routes t) - {r})"
      using remove_first_set [OF vector_okD(2) [OF v] f] unfolding insert_route_routes in1
      by (simp add: invalidateCache_def)
    ultimately show ?thesis using that by (simp add: same_node_def insert_route_def invalidateCache_def rt_emit_def)
  qed
qed

lemma replaced_route:
  assumes "set (routes t1) = insert r1 (set (routes t) - {r})" "same_node t t1" "stable_route r r1"
  shows "grown t t1"
  unfolding grown_def
proof (intro conjI ballI)
  fix x assume "x \<in> set (routes t)"
  then have "x = r \<and> r1 \<in> set (routes t1) \<or> x \<in> set (routes t1)" using assms(1) by blast
  then show "\<exists>r' \<in> set (routes t1). stable_route x r'" using assms(3) stable_refl by blast
qed (rule assms(2))

end
