(* ===== verification/AodvProps.thy ===== *)
theory AodvProps
  imports AodvTable
begin

text \<open>
  The invariant of the AODV module: every route of the module is a host route with its data, every discovery has its timer message and
  its count of retries. Under it no step of the module fails an assertion or follows a null pointer; a step can
  only end with an exception that the code throws.
\<close>

section \<open>The invariant\<close>

definition ifaces_ok :: "Ipv4RoutingTable \<Rightarrow> bool" where
  "ifaces_ok t = (\<forall>ie \<in> set (interfaces (rt_ift t)). interfaceId ie \<ge> 0)"

definition own_data :: "Ipv4Route list \<Rightarrow> (nat \<Rightarrow> AodvRouteData option) \<Rightarrow> bool" where
  "own_data rs dat = (\<forall>r \<in> set rs. own_route r \<longrightarrow> host_route r \<and> dat (r_id r) \<noteq> None)"

text \<open>The parameters that bound hop limits are positive and so small that their sums do not wrap around.\<close>

definition par_ok :: "AodvParameters \<Rightarrow> bool" where
  "par_ok p = (ttlStart p \<noteq> 0 \<and> netDiameter p \<noteq> 0 \<and> uint (ttlStart p) + uint (ttlIncrement p) < 2 ^ 32 \<and>
     uint (netDiameter p) + uint (ttlIncrement p) < 2 ^ 32 \<and> uint (ttlThreshold p) + uint (ttlIncrement p) < 2 ^ 32)"

definition wait_ok :: "AodvParameters \<Rightarrow> u32 option \<Rightarrow> Ipv4Address \<Rightarrow> WaitForRrep \<Rightarrow> bool" where
  "wait_ok p retries a w = (wr_destAddr w = a \<and> lastTTL w \<noteq> 0 \<and> uint (lastTTL w) + uint (ttlIncrement p) < 2 ^ 32 \<and>
     (\<exists>n. retries = Some n \<and> n \<le> rreqRetries p))"

definition timers_ok :: "Aodv \<Rightarrow> bool" where
  "timers_ok s = ((\<forall>a w. waitForRREPTimers s a = Some w \<longrightarrow> wait_ok (ao_par s) (addressToRreqRetries s a) a w) \<and>
     (helloMsgTimer s \<noteq> None \<longrightarrow> useHelloMessages (ao_par s)))"

text \<open>A request has been seen before now.\<close>

definition arrivals_ok :: "Aodv \<Rightarrow> bool" where
  "arrivals_ok s = (\<forall>k t. rreqsArrivalTime s k = Some t \<longrightarrow> t \<le> ao_now s)"

definition aodv_inv :: "bool \<Rightarrow> Aodv \<Rightarrow> bool" where
  "aodv_inv u s = (rt_inv u (ao_rt s) \<and> ifaces_ok (ao_rt s) \<and> own_data (routes (ao_rt s)) (ao_data s) \<and>
     par_ok (ao_par s) \<and> timers_ok s \<and> arrivals_ok s)"

lemma arrivals_ok_fields [simp]:
  "arrivals_ok (s\<lparr>waitForRREPTimers := v1\<rparr>) = arrivals_ok s" "arrivals_ok (s\<lparr>addressToRreqRetries := v2\<rparr>) = arrivals_ok s"
  "arrivals_ok (s\<lparr>targetAddressToDelayedPackets := v3\<rparr>) = arrivals_ok s" "arrivals_ok (s\<lparr>ao_events := v4\<rparr>) = arrivals_ok s"
  "arrivals_ok (s\<lparr>rreqCount := v5\<rparr>) = arrivals_ok s" "arrivals_ok (s\<lparr>helloMsgTimer := v6\<rparr>) = arrivals_ok s"
  by (simp_all add: arrivals_ok_def ao_now_def)

text \<open>A request that has been seen stays seen; it may be seen again later.\<close>

definition arrived :: "Aodv \<Rightarrow> Aodv \<Rightarrow> bool" where
  "arrived s s' = (\<forall>k t. rreqsArrivalTime s k = Some t \<longrightarrow> (\<exists>t' \<ge> t. rreqsArrivalTime s' k = Some t'))"

text \<open>What most functions of the module do: they keep the invariant, lose no route and leave the discoveries alone.\<close>

definition quiet :: "bool \<Rightarrow> Aodv \<Rightarrow> Aodv \<Rightarrow> bool" where
  "quiet u s s' = (aodv_inv u s' \<and> grown (ao_rt s) (ao_rt s') \<and> waitForRREPTimers s' = waitForRREPTimers s \<and>
     addressToRreqRetries s' = addressToRreqRetries s \<and> ao_par s' = ao_par s \<and>
     targetAddressToDelayedPackets s' = targetAddressToDelayedPackets s \<and> arrived s s')"

lemma arrived_refl [simp]: "arrived s s"
  by (auto simp: arrived_def)

lemma arrived_trans: "arrived a b \<Longrightarrow> arrived b c \<Longrightarrow> arrived a c"
  unfolding arrived_def by (meson order_trans)

lemma quiet_refl [simp]: "quiet u s s = aodv_inv u s"
  by (simp add: quiet_def)

lemma quiet_trans: "quiet u a b \<Longrightarrow> quiet u b c \<Longrightarrow> quiet u a c"
  unfolding quiet_def using grown_trans arrived_trans by metis

lemma quiet_inv: "quiet u s s' \<Longrightarrow> aodv_inv u s'"
  by (simp add: quiet_def)

lemma quiet_same:
  "quiet u s s' \<Longrightarrow> ao_par s' = ao_par s" "quiet u s s' \<Longrightarrow> ao_now s' = ao_now s"
  "quiet u s s' \<Longrightarrow> getSelfIPAddress s' = getSelfIPAddress s" "quiet u s s' \<Longrightarrow> waitForRREPTimers s' = waitForRREPTimers s"
  "quiet u s s' \<Longrightarrow> addressToRreqRetries s' = addressToRreqRetries s"
  by (simp_all add: quiet_def grown_def same_node_def ao_now_def getSelfIPAddress_def)

text \<open>
  The other functions end or start the discoveries of some targets, and may delay datagrams. Of every other target they leave the
  discovery alone and no datagram gets lost.
\<close>

definition touches :: "bool \<Rightarrow> Ipv4Address set \<Rightarrow> Aodv \<Rightarrow> Aodv \<Rightarrow> bool" where
  "touches u A s s' = (aodv_inv u s' \<and> ao_par s' = ao_par s \<and> arrived s s' \<and>
     (\<forall>b. b \<notin> A \<longrightarrow> waitForRREPTimers s' b = waitForRREPTimers s b \<and> addressToRreqRetries s' b = addressToRreqRetries s b \<and>
       (\<exists>ps. delayed_for b s' = delayed_for b s @ ps)))"

lemma touchesD:
  "touches u A s s' \<Longrightarrow> aodv_inv u s'" "touches u A s s' \<Longrightarrow> ao_par s' = ao_par s" "touches u A s s' \<Longrightarrow> arrived s s'"
  "touches u A s s' \<Longrightarrow> b \<notin> A \<Longrightarrow> waitForRREPTimers s' b = waitForRREPTimers s b"
  "touches u A s s' \<Longrightarrow> b \<notin> A \<Longrightarrow> addressToRreqRetries s' b = addressToRreqRetries s b"
  "touches u A s s' \<Longrightarrow> b \<notin> A \<Longrightarrow> \<exists>ps. delayed_for b s' = delayed_for b s @ ps"
  by (simp_all add: touches_def)

lemma touches_trans:
  assumes "touches u A a b" "touches u A b c"
  shows "touches u A a c"
  using touchesD [OF assms(1)] touchesD [OF assms(2)] arrived_trans unfolding touches_def by (metis append.assoc)

lemma touches_mono: "touches u A s s' \<Longrightarrow> A \<subseteq> B \<Longrightarrow> touches u B s s'"
  by (auto simp: touches_def)

lemma quiet_touches: "quiet u s s' \<Longrightarrow> touches u A s s'"
  by (simp add: quiet_def touches_def delayed_for_def)

lemma touches_after: "quiet u s s1 \<Longrightarrow> touches u A s1 s2 \<Longrightarrow> touches u A s s2"
  by (rule touches_trans [OF quiet_touches])

text \<open>An update of a field that the invariant does not look at.\<close>

lemma quiet_fields [simp]:
  "quiet u s (s'\<lparr>rreqId := v1\<rparr>) = quiet u s s'" "quiet u s (s'\<lparr>sequenceNum := v1\<rparr>) = quiet u s s'"
  "quiet u s (s'\<lparr>failedNextHop := v1\<rparr>) = quiet u s s'"
  "quiet u s (s'\<lparr>blacklist := v3\<rparr>) = quiet u s s'" "quiet u s (s'\<lparr>rerrCount := v1\<rparr>) = quiet u s s'"
  "quiet u s (s'\<lparr>rreqCount := v1\<rparr>) = quiet u s s'" "quiet u s (s'\<lparr>lastBroadcastTime := v4\<rparr>) = quiet u s s'"
  "quiet u s (s'\<lparr>expungeTimer := v5\<rparr>) = quiet u s s'"
  "quiet u s (s'\<lparr>counterTimer := v5\<rparr>) = quiet u s s'" "quiet u s (s'\<lparr>rrepAckTimer := v5\<rparr>) = quiet u s s'"
  "quiet u s (s'\<lparr>blacklistTimer := v5\<rparr>) = quiet u s s'" "quiet u s (s'\<lparr>rebootTime := v4\<rparr>) = quiet u s s'"
  "quiet u s (s'\<lparr>delayedSends := v7\<rparr>) = quiet u s s'"
  "quiet u s (s'\<lparr>ao_draws := v8\<rparr>) = quiet u s s'" "quiet u s (s'\<lparr>ao_events := v9\<rparr>) = quiet u s s'"
  by (simp_all add: quiet_def aodv_inv_def timers_ok_def arrivals_ok_def arrived_def ao_now_def)

text \<open>A request is seen.\<close>

lemma quiet_seen [simp]:
  assumes "quiet u s s'"
  shows "quiet u s (s'\<lparr>rreqsArrivalTime := (rreqsArrivalTime s')(k \<mapsto> ao_now s')\<rparr>)"
proof -
  have "quiet u s' (s'\<lparr>rreqsArrivalTime := (rreqsArrivalTime s')(k \<mapsto> ao_now s')\<rparr>)"
    using assms by (auto simp: quiet_def aodv_inv_def timers_ok_def arrivals_ok_def arrived_def ao_now_def)
  then show ?thesis using quiet_trans [OF assms] by blast
qed

lemma quiet_request:
  assumes "quiet u s s'"
  shows "quiet u s (s'\<lparr>sequenceNum := n, rreqId := i, rreqsArrivalTime := (rreqsArrivalTime s')(k \<mapsto> ao_now s')\<rparr>)"
proof -
  have "quiet u s (s'\<lparr>sequenceNum := n, rreqId := i\<rparr>)" using assms by simp
  from quiet_seen [OF this, of k] show ?thesis by (simp add: ao_now_def)
qed

lemma quiet_emit [simp]: "quiet u s (ao_emit e s') = quiet u s s'"
  by (simp add: ao_emit_def)

lemma quiet_set_data [simp]: "quiet u s s' \<Longrightarrow> quiet u s (set_route_data i d s')"
  by (auto simp: quiet_def aodv_inv_def own_data_def timers_ok_def arrivals_ok_def arrived_def ao_now_def set_route_data_def)

lemma aodv_invD:
  assumes "aodv_inv u s"
  shows "rt_inv u (ao_rt s)" "vector_ok u (ao_rt s)"
    "r \<in> set (routes (ao_rt s)) \<Longrightarrow> own_route r \<Longrightarrow> host_route r \<and> ao_data s (r_id r) \<noteq> None"
  using assms rt_inv_vector by (auto simp: aodv_inv_def own_data_def)

lemma set_data_route [simp]: "ao_rt (set_route_data i d s) = ao_rt s" "ao_par (set_route_data i d s) = ao_par s"
  "ao_now (set_route_data i d s) = ao_now s"
  by (simp_all add: set_route_data_def ao_now_def)

section \<open>The routing table\<close>

text \<open>The table may be replaced by one that has grown and whose own routes have their data.\<close>

lemma quiet_table:
  assumes "quiet u s s1" "grown (ao_rt s1) t" "rt_inv u t" "own_data (routes t) (ao_data s1)"
  shows "quiet u s (s1\<lparr>ao_rt := t\<rparr>)"
proof -
  have g: "grown (ao_rt s) t" using assms(1,2) grown_trans unfolding quiet_def by blast
  have "rt_ift t = rt_ift (ao_rt s1)" "rt_now t = rt_now (ao_rt s1)" using assms(2) by (simp_all add: grown_def same_node_def)
  then have "ifaces_ok t" "arrivals_ok (s1\<lparr>ao_rt := t\<rparr>)" "arrived s (s1\<lparr>ao_rt := t\<rparr>)"
    using assms(1) by (simp_all add: quiet_def aodv_inv_def ifaces_ok_def arrivals_ok_def arrived_def ao_now_def)
  moreover have "timers_ok s1" using assms(1) by (simp add: quiet_def aodv_inv_def)
  then have "timers_ok (s1\<lparr>ao_rt := t\<rparr>)" by (simp add: timers_ok_def)
  ultimately show ?thesis using assms(1,3,4) g by (auto simp: quiet_def aodv_inv_def)
qed

definition found :: "Aodv \<Rightarrow> Ipv4Address \<Rightarrow> Ipv4Route option \<Rightarrow> bool" where
  "found s a res = (case res of
     None \<Rightarrow> no_route a (ao_rt s)
   | Some r \<Rightarrow> r \<in> set (routes (ao_rt s)) \<and> r_isValid (ao_now s) r \<and> route_matches a r)"

lemma find_sound:
  assumes "quiet u s0 s"
  shows "sound (\<lambda>(res, s1). quiet u s0 s1 \<and> quiet u s s1 \<and> routes (ao_rt s1) = routes (ao_rt s) \<and> ao_data s1 = ao_data s \<and>
      ao_now s1 = ao_now s \<and> found s a res \<and> found s1 a res) (ao_findBestMatchingRoute a s)"
proof -
  have i: "aodv_inv u s" by (rule quiet_inv [OF assms])
  obtain res t where l: "findBestMatchingRoute a (ao_rt s) = Inr (res, t)" by (rule lookup_sound [OF aodv_invD(1) [OF i]])
  note f = lookup_found [OF aodv_invD(1) [OF i] l] lookup_same [OF l]
  have g: "grown (ao_rt s) t" using f(4) grown_same by blast
  have d: "own_data (routes t) (ao_data s)" using f(4) i by (simp add: aodv_inv_def)
  have "quiet u s s" using i by simp
  then have "quiet u s (s\<lparr>ao_rt := t\<rparr>)" "quiet u s0 (s\<lparr>ao_rt := t\<rparr>)" using quiet_table g f(1) d assms by blast+
  moreover have "found s a res" using f(2,3) by (auto simp: found_def ao_now_def split: option.split)
  ultimately show ?thesis
    using l f(4) by (auto simp: ao_findBestMatchingRoute_def ao_now_def same_node_def found_def no_route_def split: option.splits)
qed

lemma data_sound:
  assumes "ao_data s i \<noteq> None \<Longrightarrow> P (the (ao_data s i))"
  shows "sound P (route_data i s)"
  using assms by (auto simp: route_data_def split: option.split)

lemma precursor_sound: "quiet u s0 s \<Longrightarrow> sound (\<lambda>s1. quiet u s0 s1 \<and> ao_rt s1 = ao_rt s) (addPrecursor i a s)"
  unfolding addPrecursor_def by (simp only: sound_simps, rule data_sound) simp

lemma next_expunge_sound: "sound (\<lambda>_. True) (next_expunge_time s rs m)"
proof (induction rs arbitrary: m)
  case (Cons r rs)
  then show ?case by (auto intro: data_sound)
qed simp

lemma schedule_sound: "sound (\<lambda>timer. timer = Some t) (scheduleAt t m s)"
  by (simp add: scheduleAt_def)

lemma expunge_schedule_sound:
  assumes "quiet u s0 s"
  shows "sound (\<lambda>s1. quiet u s0 s1 \<and> ao_rt s1 = ao_rt s \<and> ao_data s1 = ao_data s) (scheduleExpungeRoutes s)"
  unfolding scheduleExpungeRoutes_def
  by (rule sound_bind [OF next_expunge_sound])
    (auto split: option.split intro!: sound_mono [OF schedule_sound] simp: assms)

lemma update_data_sound:
  assumes "quiet u s0 s"
  shows "sound (\<lambda>s1. quiet u s0 s1 \<and> ao_rt s1 = ao_rt s) (ebind (route_data i s) (\<lambda>d. scheduleExpungeRoutes (set_route_data i (f d) s)))"
  by (simp only: sound_simps, rule data_sound)
    (rule sound_mono [OF expunge_schedule_sound [where u = u and ?s0.0 = s0]], simp_all add: assms)

text \<open>A pointer to a route of this module.\<close>

definition own_pointer :: "nat \<Rightarrow> Aodv \<Rightarrow> bool" where
  "own_pointer i s = (\<exists>r. find_route i (ao_rt s) = Some r \<and> own_route r)"

lemma own_pointerI: "aodv_inv u s \<Longrightarrow> r \<in> set (routes (ao_rt s)) \<Longrightarrow> own_route r \<Longrightarrow> own_pointer (r_id r) s"
  using find_route_iff [OF aodv_invD(2)] by (auto simp: own_pointer_def)

lemma quiet_pointer:
  assumes "own_pointer i s" "quiet u s s'"
  shows "own_pointer i s'"
proof -
  obtain r where r: "find_route i (ao_rt s) = Some r" "own_route r" using assms(1) by (auto simp: own_pointer_def)
  moreover have "grown (ao_rt s) (ao_rt s')" using assms(2) by (simp add: quiet_def)
  ultimately obtain r' where "r' \<in> set (routes (ao_rt s'))" "stable_route r r'"
    using grown_route find_route_props [OF r(1)] by blast
  then show ?thesis
    using own_pointerI [OF quiet_inv [OF assms(2)], of r'] stable_same r find_route_props [OF r(1)] by metis
qed

text \<open>A pointer to the route of this module for an address.\<close>

definition leads_to :: "nat \<Rightarrow> Ipv4Address \<Rightarrow> Aodv \<Rightarrow> bool" where
  "leads_to i a s = (\<exists>r. find_route i (ao_rt s) = Some r \<and> own_route r \<and> r_dest r = a)"

lemma leads_to_pointer: "leads_to i a s \<Longrightarrow> own_pointer i s"
  by (auto simp: leads_to_def own_pointer_def)

lemma leads_toI: "aodv_inv u s \<Longrightarrow> r \<in> set (routes (ao_rt s)) \<Longrightarrow> own_route r \<Longrightarrow> leads_to (r_id r) (r_dest r) s"
  using find_route_iff [OF aodv_invD(2)] by (auto simp: leads_to_def)

lemma quiet_leads_to:
  assumes "leads_to i a s" "quiet u s s'"
  shows "leads_to i a s'"
proof -
  obtain r where r: "find_route i (ao_rt s) = Some r" "own_route r" "r_dest r = a" using assms(1) by (auto simp: leads_to_def)
  moreover have "grown (ao_rt s) (ao_rt s')" using assms(2) by (simp add: quiet_def)
  ultimately obtain r' where r': "r' \<in> set (routes (ao_rt s'))" "stable_route r r'"
    using grown_route find_route_props [OF r(1)] by blast
  show ?thesis
    using leads_toI [OF quiet_inv [OF assms(2)] r'(1)] stable_same(1,4,5) [OF r'(2)] r find_route_props [OF r(1)] by simp
qed

lemma own_change:
  assumes q: "quiet u s0 s" and r: "find_route i (ao_rt s) = Some r" "own_route r"
    and t: "set (routes t) = insert r1 (set (routes (ao_rt s)) - {r})" "same_node (ao_rt s) t" "stable_route r r1" "rt_inv u t"
  shows "quiet u s0 (s\<lparr>ao_rt := t\<rparr>)" "quiet u s (s\<lparr>ao_rt := t\<rparr>)"
proof -
  have i: "aodv_inv u s" by (rule quiet_inv [OF q])
  have m: "r \<in> set (routes (ao_rt s))" by (rule find_route_props [OF r(1)])
  have d: "own_data (routes t) (ao_data s)"
    using t(1) aodv_invD(3) [OF i] m r(2) stable_same [OF t(3)] stable_host [OF t(3)] by (auto simp: own_data_def)
  show "quiet u s0 (s\<lparr>ao_rt := t\<rparr>)" by (rule quiet_table [OF q replaced_route [OF t(1-3)] t(4) d])
  have "quiet u s s" using i by simp
  then show "quiet u s (s\<lparr>ao_rt := t\<rparr>)" by (rule quiet_table [OF _ replaced_route [OF t(1-3)] t(4) d])
qed

lemma update_sound:
  assumes q: "quiet u s0 s" and "own_pointer i s"
  shows "sound (quiet u s0) (updateRoutingTable i nextHop hopCount valid seqNum active lifeTime s)"
proof -
  obtain r where r: "find_route i (ao_rt s) = Some r" "own_route r" using assms(2) by (auto simp: own_pointer_def)
  have i: "aodv_inv u s" by (rule quiet_inv [OF q])
  note inv = aodv_invD [OF i]
  obtain t where t: "change_route (SetGateway nextHop) i (ao_rt s) = Inr t"
      "set (routes t) = insert (r\<lparr>r_gateway := nextHop\<rparr>) (set (routes (ao_rt s)) - {r})" "same_node (ao_rt s) t"
    by (rule set_gateway [OF inv(2) r(1)])
  have ti: "rt_inv u t" using change_route_inv [OF inv(1), of "SetGateway nextHop" i] t(1) by simp
  have st: "stable_route r (r\<lparr>r_gateway := nextHop\<rparr>)" by (simp add: stable_route_def)
  let ?s1 = "s\<lparr>ao_rt := t\<rparr>"
  have q1: "quiet u s0 ?s1" "quiet u s ?s1" by (rule own_change [OF q r t(2,3) st ti])+
  have i1: "aodv_inv u ?s1" by (rule quiet_inv [OF q1(1)])
  obtain r1 where r1: "find_route i t = Some r1" "own_route r1"
    using quiet_pointer [OF assms(2) q1(2)] by (auto simp: own_pointer_def)
  have h1: "host_route r1" using aodv_invD(3) [OF i1, of r1] find_route_props [OF r1(1)] r1(2) by simp
  obtain t2 where t2: "change_route (SetMetric (sint hopCount)) i t = Inr t2"
      "set (routes t2) = insert (r1\<lparr>r_metric := sint hopCount\<rparr>) (set (routes t) - {r1})" "same_node t t2"
    by (rule set_metric [OF rt_inv_vector [OF ti] r1(1) h1])
  have ti2: "rt_inv u t2" using change_route_inv [OF ti, of "SetMetric (sint hopCount)" i] t2(1) by simp
  have st2: "stable_route r1 (r1\<lparr>r_metric := sint hopCount\<rparr>)" by (simp add: stable_route_def)
  have q2: "quiet u s0 (?s1\<lparr>ao_rt := t2\<rparr>)"
    by (rule own_change(1) [OF q1(1)]) (use r1 t2(2,3) st2 ti2 in simp_all)
  have "quiet u s0 (s\<lparr>ao_rt := t2\<rparr>)" using q2 by simp
  then have "sound (quiet u s0) (ebind (route_data i (s\<lparr>ao_rt := t2\<rparr>)) (\<lambda>d. scheduleExpungeRoutes
      (set_route_data i (d\<lparr>rd_lifeTime := lifeTime, rd_destSeqNum := seqNum, rd_active := active,
        rd_validDestNum := valid\<rparr>) (s\<lparr>ao_rt := t2\<rparr>))))"
    by (rule sound_mono [OF update_data_sound, OF _ conjunct1])
  then show ?thesis using t(1) t2(1) by (simp add: updateRoutingTable_def ao_change_route_def)
qed

lemma new_route_inv:
  assumes "rt_inv u t" "r_netmask r = 0xFFFFFFFF" "r_id r = rt_nextId t" "\<not> r_inTable r"
  shows "sound (\<lambda>t1. rt_inv u t1 \<and> grown t t1 \<and> set (routes t1) = insert (r\<lparr>r_inTable := True\<rparr>) (set (routes t)) \<and> host_route r)
     (addRoute r (t\<lparr>rt_nextId := rt_nextId t + 1\<rparr>))"
proof -
  let ?t = "t\<lparr>rt_nextId := rt_nextId t + 1\<rparr>"
  let ?r = "r\<lparr>r_inTable := True\<rparr>"
  have e: "r\<lparr>r_id := rt_nextId t, r_inTable := False\<rparr> = r" using assms(3,4) by simp
  have i: "yields (rt_inv u) (addRoute r ?t)" using addRoute_inv [OF assms(1), of r] unfolding e .
  have "r_netmask r \<noteq> 0" using assms(2) by simp
  from add_netmasked_route [OF this, of ?t] show ?thesis
  proof cases
    case (1 m)
    then show ?thesis by (simp add: addRoute_def)
  next
    case 2
    then have h: "r_dest r AND r_netmask r \<noteq> 0" "r_interface r \<noteq> None"
      using assms(2) by (auto simp: internalAddRoute_def split: if_splits)
    let ?t1 = "rt_emit (RouteAdded (r_id r)) (invalidateCache (insert_route ?r ?t))"
    have t1: "addRoute r ?t = Inr ?t1" using 2 by (simp add: addRoute_def)
    have s: "set (routes ?t1) = insert ?r (set (routes t))" by (simp add: insert_route_def)
    have "same_node t ?t1" by (simp add: same_node_def insert_route_def rt_emit_def invalidateCache_def)
    then have "grown t ?t1" using s stable_refl unfolding grown_def by blast
    moreover have "host_route r" using h assms(2) by (auto simp: host_route_def)
    ultimately show ?thesis using i t1 s by simp
  qed
qed

lemma create_sound:
  assumes q: "quiet u s0 s"
  shows "sound (\<lambda>(i, s1). quiet u s0 s1 \<and> leads_to i destAddr s1 \<and> \<not> no_route destAddr (ao_rt s1))
    (createRoute destAddr nextHop hopCount valid seqNum active lifeTime s)"
proof -
  have i: "aodv_inv u s" by (rule quiet_inv [OF q])
  define k where "k = rt_nextId (ao_rt s)"
  define dat where "dat = \<lparr>precursorList = {}, rd_active = active, rd_validDestNum = valid, rd_destSeqNum = seqNum, rd_lifeTime = lifeTime\<rparr>"
  define r where "r = aodv_route k destAddr nextHop hopCount
     (map_option interfaceId (findInterfaceByName (interfacePar (ao_par s)) (rt_ift (ao_rt s))))"
  have r: "r_netmask r = 0xFFFFFFFF" "r_id r = k" "\<not> r_inTable r" "own_route r" "r_dest r = destAddr" "r_expiryTime r = 0"
    by (simp_all add: r_def aodv_route_def new_Ipv4Route_def full_mask own_route_def)
  let ?s1 = "set_route_data k dat s"
  have step: "quiet u s0 (?s1\<lparr>ao_rt := t\<rparr>) \<and> leads_to k destAddr (?s1\<lparr>ao_rt := t\<rparr>) \<and> \<not> no_route destAddr t"
    if t: "rt_inv u t" "grown (ao_rt s) t" "set (routes t) = insert (r\<lparr>r_inTable := True\<rparr>) (set (routes (ao_rt s)))" "host_route r" for t
  proof -
    have m: "r\<lparr>r_inTable := True\<rparr> \<in> set (routes t)" using t(3) by simp
    have "own_data (routes t) (ao_data ?s1)"
      using t(3,4) aodv_invD(3) [OF i] r(2) by (auto simp: own_data_def set_route_data_def host_route_def)
    then have q1: "quiet u s0 (?s1\<lparr>ao_rt := t\<rparr>)" using quiet_table q t(1,2) by simp
    moreover have "leads_to k destAddr (?s1\<lparr>ao_rt := t\<rparr>)"
      using leads_toI [OF quiet_inv [OF q1], of "r\<lparr>r_inTable := True\<rparr>"] m r(2,4,5) by (simp add: own_route_def)
    moreover have "\<not> no_route destAddr t"
      using r(1,5,6) host_matches [of "r\<lparr>r_inTable := True\<rparr>" destAddr] unfolding no_route_def
      by (intro notI) (use m in \<open>auto simp: r_isValid_def dest!: bspec [where x = "r\<lparr>r_inTable := True\<rparr>"]\<close>)
    ultimately show ?thesis by blast
  qed
  have add: "sound (\<lambda>t. rt_inv u t \<and> grown (ao_rt s) t \<and> set (routes t) = insert (r\<lparr>r_inTable := True\<rparr>) (set (routes (ao_rt s))) \<and> host_route r)
      (addRoute r ((ao_rt s)\<lparr>rt_nextId := k + 1\<rparr>))"
    unfolding k_def by (rule new_route_inv [OF aodv_invD(1) [OF i] r(1) _ r(3)]) (simp add: r(2) k_def)
  have "sound (\<lambda>(i, s1). quiet u s0 s1 \<and> leads_to i destAddr s1 \<and> \<not> no_route destAddr (ao_rt s1))
     (ebind (addRoute r ((ao_rt s)\<lparr>rt_nextId := k + 1\<rparr>)) (\<lambda>t. ebind (scheduleExpungeRoutes (?s1\<lparr>ao_rt := t\<rparr>)) (\<lambda>s2. Inr (k, s2))))"
  proof (rule sound_bind [OF add])
    fix t assume t: "rt_inv u t \<and> grown (ao_rt s) t \<and> set (routes t) = insert (r\<lparr>r_inTable := True\<rparr>) (set (routes (ao_rt s))) \<and> host_route r"
    then have st: "quiet u s0 (?s1\<lparr>ao_rt := t\<rparr>)" "leads_to k destAddr (?s1\<lparr>ao_rt := t\<rparr>)" "\<not> no_route destAddr t"
      using step by blast+
    show "sound (\<lambda>(i, s1). quiet u s0 s1 \<and> leads_to i destAddr s1 \<and> \<not> no_route destAddr (ao_rt s1))
        (ebind (scheduleExpungeRoutes (?s1\<lparr>ao_rt := t\<rparr>)) (\<lambda>s2. Inr (k, s2)))"
      by (rule sound_bind [OF expunge_schedule_sound [OF st(1)]]) (use st(2,3) in \<open>simp add: leads_to_def\<close>)
  qed
  then show ?thesis by (simp only: createRoute_def Let_def k_def dat_def r_def)
qed

section \<open>Sending\<close>

lemma send_sound:
  assumes "quiet u s0 s" "ttl \<noteq> 0"
  shows "sound (\<lambda>s1. quiet u s0 s1 \<and> ao_rt s1 = ao_rt s) (sendAODVPacket pk dest ttl delay s)"
  using assms
  by (auto simp: sendAODVPacket_def Let_def ao_emit_def split: option.split intro!: sound_mono [OF schedule_sound])

lemma jittered_sound:
  assumes "quiet u s0 s" "ttl \<noteq> 0"
  shows "sound (quiet u s0) (send_jittered pk dest ttl s)"
  unfolding send_jittered_def draw_jitter_def Let_def prod.case
  by (rule sound_mono [OF send_sound, OF _ _ conjunct1]) (use assms in simp_all)

text \<open>
  The rules below are about a function called in a state with the invariant, and end in a state that is quiet from there; \<open>then_quiet\<close>
  chains them.
\<close>

lemma then_quiet:
  assumes "sound (quiet u s) r" "\<And>s1. quiet u s s1 \<Longrightarrow> sound (quiet u s1) (f s1)"
  shows "sound (quiet u s) (ebind r f)"
  by (rule sound_bind [OF assms(1)]) (blast intro: sound_mono [OF assms(2)] quiet_trans)

lemma find_then:
  assumes i: "aodv_inv u s"
    and step: "\<And>res s1. quiet u s s1 \<Longrightarrow> found s1 a res \<Longrightarrow> (res = None) = no_route a (ao_rt s) \<Longrightarrow> sound (quiet u s1) (f res s1)"
  shows "sound (quiet u s) (ebind (ao_findBestMatchingRoute a s) (\<lambda>(res, s1). f res s1))"
proof (rule sound_bind [OF find_sound [where u = u and ?s0.0 = s]])
  show "quiet u s s" using i by simp
  fix x assume x: "case x of (res, s1) \<Rightarrow> quiet u s s1 \<and> quiet u s s1 \<and> routes (ao_rt s1) = routes (ao_rt s) \<and>
      ao_data s1 = ao_data s \<and> ao_now s1 = ao_now s \<and> found s a res \<and> found s1 a res"
  obtain res s1 where e: "x = (res, s1)" by fastforce
  have q: "quiet u s s1" "found s1 a res" "found s a res" using x e by simp_all
  moreover have "(res = None) = no_route a (ao_rt s)"
    using q(3) by (auto simp: found_def no_route_def ao_now_def split: option.splits)
  ultimately show "sound (quiet u s) (case x of (res, s1) \<Rightarrow> f res s1)"
    unfolding e prod.case by (blast intro: sound_mono [OF step] quiet_trans)
qed

lemma found_own: "aodv_inv u s \<Longrightarrow> found s a (Some r) \<Longrightarrow> own_route r \<Longrightarrow> own_pointer (r_id r) s"
  using own_pointerI by (simp add: found_def)

lemma found_leads_to:
  assumes "aodv_inv u s" "found s a (Some r)" "own_route r"
  shows "leads_to (r_id r) a s"
proof -
  have r: "r \<in> set (routes (ao_rt s))" "route_matches a r" using assms(2) by (simp_all add: found_def)
  have "r_dest r = a" using aodv_invD(3) [OF assms(1) r(1) assms(3)] host_matches r(2) by (simp add: host_route_def)
  then show ?thesis using leads_toI [OF assms(1) r(1) assms(3)] by simp
qed

lemma data_then:
  assumes "\<And>d. ao_data s i = Some d \<Longrightarrow> sound P (f d)"
  shows "sound P (ebind (route_data i s) f)"
  unfolding sound_simps by (rule data_sound) (use assms in auto)

lemma update_quiet: "aodv_inv u s \<Longrightarrow> own_pointer i s \<Longrightarrow> sound (quiet u s) (updateRoutingTable i h c v n a l s)"
  using update_sound [of u s s] by simp

text \<open>A function that returns a pointer to a route of this module for an address.\<close>

definition points :: "bool \<Rightarrow> Aodv \<Rightarrow> Ipv4Address \<Rightarrow> nat \<times> Aodv \<Rightarrow> bool" where
  "points u s a p = (quiet u s (snd p) \<and> leads_to (fst p) a (snd p) \<and> \<not> no_route a (ao_rt (snd p)))"

lemma create_points: "aodv_inv u s \<Longrightarrow> sound (points u s d) (createRoute d h c v n a l s)"
  by (rule sound_mono [OF create_sound [where u = u and ?s0.0 = s]]) (auto simp: points_def)

lemma create_quiet: "aodv_inv u s \<Longrightarrow> sound (quiet u s) (ebind (createRoute d h c v n a l s) (\<lambda>(_, s2). Inr s2))"
  by (rule sound_bind [OF create_points]) (auto simp: points_def)

lemma previous_hop_quiet:
  assumes "aodv_inv u s"
  shows "sound (quiet u s) (update_previous_hop a n s)"
  unfolding update_previous_hop_def
proof (rule find_then [OF assms], goal_cases)
  case (1 res s1)
  note i = quiet_inv [OF 1(1)]
  show ?case
    using create_quiet [OF i] update_quiet [OF i found_own [OF i]] 1(2)
    by (auto simp add: Let_def simp del: sound_simps split: option.split)
qed

lemma hello_quiet:
  assumes "aodv_inv u s"
  shows "sound (quiet u s) (handleHelloMessage p s)"
  unfolding handleHelloMessage_def
proof (rule find_then [OF assms], goal_cases)
  case (1 res s1)
  note i = quiet_inv [OF 1(1)]
  show ?case
    using create_quiet [OF i] update_quiet [OF i found_own [OF i]] 1(2)
    by (auto simp add: Let_def simp del: sound_simps split: option.split intro!: data_then)
qed

lemma update_points:
  assumes "aodv_inv u s" "leads_to i d s" "\<not> no_route d (ao_rt s)"
  shows "sound (points u s d) (ebind (updateRoutingTable i h c v n a l s) (\<lambda>s2. Inr (i, s2)))"
proof (rule sound_bind [OF update_quiet [OF assms(1) leads_to_pointer [OF assms(2)]]])
  fix s2 assume q: "quiet u s s2"
  then have "\<not> no_route d (ao_rt s2)" using grown_lookup assms(3) unfolding quiet_def by blast
  then show "sound (points u s d) (Inr (i, s2))" using q quiet_leads_to [OF assms(2) q] by (simp add: points_def)
qed

lemma stay_points: "aodv_inv u s \<Longrightarrow> leads_to i d s \<Longrightarrow> \<not> no_route d (ao_rt s) \<Longrightarrow> sound (points u s d) (Inr (i, s))"
  by (simp add: points_def)

lemma found_route: "found s a (Some r) \<Longrightarrow> \<not> no_route a (ao_rt s)"
  by (auto simp: found_def no_route_def ao_now_def)

lemma points_from:
  assumes i: "aodv_inv u s" and step: "\<And>res s1. quiet u s s1 \<Longrightarrow> found s1 a res \<Longrightarrow> sound (points u s1 d) (f res s1)"
  shows "sound (points u s d) (ebind (ao_findBestMatchingRoute a s) (\<lambda>(res, s1). f res s1))"
proof (rule sound_bind [OF find_sound [where u = u and ?s0.0 = s]])
  show "quiet u s s" using i by simp
  fix x assume x: "case x of (res, s1) \<Rightarrow> quiet u s s1 \<and> quiet u s s1 \<and> routes (ao_rt s1) = routes (ao_rt s) \<and>
      ao_data s1 = ao_data s \<and> ao_now s1 = ao_now s \<and> found s a res \<and> found s1 a res"
  obtain res s1 where e: "x = (res, s1)" by fastforce
  have q: "quiet u s s1" "found s1 a res" using x e by simp_all
  then show "sound (points u s d) (case x of (res, s1) \<Rightarrow> f res s1)"
    unfolding e prod.case by (intro sound_mono [OF step [OF q]]) (auto simp: points_def intro: quiet_trans)
qed

lemma forward_route_points:
  assumes "aodv_inv u s"
  shows "sound (points u s (rp_destAddr p)) (update_forward_route p a s)"
  unfolding update_forward_route_def
proof (rule points_from [OF assms], goal_cases)
  case (1 res s1)
  note i = quiet_inv [OF 1(1)]
  show ?case
    using create_points [OF i] update_points [OF i found_leads_to [OF i]] stay_points [OF i found_leads_to [OF i]] 1(2) found_route
    by (auto simp add: Let_def simp del: sound_simps split: option.split intro!: data_then)
qed

lemma reverse_route_points:
  assumes "aodv_inv u s"
  shows "sound (points u s (rq_originatorAddr q)) (update_reverse_route q a s)"
  unfolding update_reverse_route_def
proof (rule points_from [OF assms], goal_cases)
  case (1 res s1)
  note i = quiet_inv [OF 1(1)]
  show ?case
    using create_points [OF i] update_points [OF i found_leads_to [OF i]] stay_points [OF i found_leads_to [OF i]] 1(2) found_route
    by (auto simp add: Let_def simp del: sound_simps split: option.split intro!: data_then)
qed

section \<open>Replies\<close>

lemma precursor_quiet: "aodv_inv u s \<Longrightarrow> sound (quiet u s) (addPrecursor i a s)"
  by (rule sound_mono [OF precursor_sound [where u = u and ?s0.0 = s]]) simp_all

lemma send_quiet: "aodv_inv u s \<Longrightarrow> ttl \<noteq> 0 \<Longrightarrow> sound (quiet u s) (sendAODVPacket pk dest ttl delay s)"
  by (rule sound_mono [OF send_sound [where u = u and ?s0.0 = s]]) simp_all

lemma jittered_quiet: "aodv_inv u s \<Longrightarrow> ttl \<noteq> 0 \<Longrightarrow> sound (quiet u s) (send_jittered pk dest ttl s)"
  using jittered_sound [of u s s] by simp

lemma sendRREP_quiet:
  assumes "aodv_inv u s" "\<not> no_route dest (ao_rt s)" "ttl \<noteq> 0"
  shows "sound (quiet u s) (sendRREP p dest ttl s)"
  unfolding sendRREP_def
proof (rule find_then [OF assms(1)], goal_cases)
  case (1 res s1)
  then obtain r where r: "res = Some r" using assms(2) by auto
  show ?case unfolding r option.case
  proof (rule then_quiet [OF precursor_quiet [OF quiet_inv [OF 1(1)]]], goal_cases)
    case (1 s2)
    note i = quiet_inv [OF 1]
    have acked: "sound (quiet u s2) (sendAODVPacket pk a ttl 0 (s2\<lparr>failedNextHop := b, rrepAckTimer := t\<rparr>))" for pk a b t
      by (rule sound_mono [OF send_sound [where u = u and ?s0.0 = s2]]) (use i assms(3) in simp_all)
    show ?case
      by (auto intro!: sound_bind [OF schedule_sound] acked send_quiet [OF i assms(3)] simp del: sound_simps)
  qed
qed

lemma sendGRREP_quiet:
  assumes "aodv_inv u s" "\<not> no_route dest (ao_rt s)" "ttl \<noteq> 0"
  shows "sound (quiet u s) (sendGRREP p dest ttl s)"
  unfolding sendGRREP_def
proof (rule find_then [OF assms(1)], goal_cases)
  case (1 res s1)
  then show ?case
    using send_quiet [OF quiet_inv [OF 1(1)] assms(3)] assms(2) by (auto split: option.split)
qed

lemma createRREP_quiet:
  assumes "aodv_inv u s" "rq_destAddr q \<noteq> getSelfIPAddress s \<Longrightarrow> \<exists>i. dr = Some i \<and> (\<exists>r. find_route i (ao_rt s) = Some r)"
  shows "sound (\<lambda>(p, s1). quiet u s s1) (createRREP q dr rr a s)"
proof (cases "rq_destAddr q = getSelfIPAddress s")
  case True
  then show ?thesis using assms(1) by (simp add: createRREP_def Let_def)
next
  case False
  then obtain i r where r: "dr = Some i" "find_route i (ao_rt s) = Some r" using assms(2) by blast
  have "sound (\<lambda>s2. quiet u s s2) (ebind (addPrecursor i a s) (addPrecursor rr (r_gateway r)))"
    by (rule then_quiet [OF precursor_quiet [OF assms(1)]]) (rule precursor_quiet [OF quiet_inv])
  then show ?thesis using False r by (auto simp: createRREP_def deref_route_def intro!: data_sound)
qed

lemma answer_quiet:
  assumes "aodv_inv u s" "\<not> no_route (rq_originatorAddr q) (ao_rt s)"
    "rq_destAddr q \<noteq> getSelfIPAddress s \<Longrightarrow> \<exists>i. dr = Some i \<and> (\<exists>r. find_route i (ao_rt s) = Some r)"
  shows "sound (quiet u s) (answer_rreq q dr rr a s)"
  unfolding answer_rreq_def
proof (rule sound_bind [OF createRREP_quiet [OF assms(1,3)]], goal_cases)
  case (2 x)
  then obtain p s1 where x: "x = (p, s1)" "quiet u s s1" by fastforce
  have "\<not> no_route (rq_originatorAddr q) (ao_rt s1)" using grown_lookup assms(2) x(2) unfolding quiet_def by blast
  then have "sound (quiet u s1) (sendRREP p (rq_originatorAddr q) 255 s1)"
    using sendRREP_quiet [OF quiet_inv [OF x(2)]] by simp
  then show ?case unfolding x prod.case by (rule sound_mono) (rule quiet_trans [OF x(2)])
qed

lemma gratuitous_quiet:
  assumes "aodv_inv u s" "\<not> no_route (rq_originatorAddr q) (ao_rt s)" "\<not> no_route (rq_destAddr q) (ao_rt s)"
  shows "sound (quiet u s) (send_gratuitous q s)"
proof (cases "rq_gratuitousRREPFlag q")
  case True
  show ?thesis unfolding send_gratuitous_def if_P [OF True]
  proof (rule find_then [OF assms(1)], goal_cases)
    case (1 res s1)
    then obtain r where r: "res = Some r" using assms(2) by auto
    have "\<not> no_route (rq_destAddr q) (ao_rt s1)" using grown_lookup assms(3) 1(1) unfolding quiet_def by blast
    then have "sound (quiet u s1) (sendGRREP p (rq_destAddr q) 100 s1)" for p
      using sendGRREP_quiet [OF quiet_inv [OF 1(1)]] by simp
    then show ?case using r by (auto simp: createGratuitousRREP_def intro!: data_sound)
  qed
qed (use assms(1) in \<open>simp add: send_gratuitous_def\<close>)

lemma rebroadcast_quiet: "aodv_inv u s \<Longrightarrow> sound (quiet u s) (rebroadcast_rreq q d ttl s)"
  by (auto simp: rebroadcast_rreq_def forwardRREQ_def intro!: jittered_quiet)

lemma pass_on_quiet:
  assumes i: "aodv_inv u s" and "own_pointer dr s"
  shows "sound (quiet u s) (pass_rrep_on p a dr ro s)"
  unfolding pass_rrep_on_def
proof (rule data_then, goal_cases)
  case (1 od)
  let ?s1 = "set_route_data (r_id ro) (od\<lparr>rd_lifeTime := max (ao_now s + activeRouteTimeout (ao_par s)) (rd_lifeTime od)\<rparr>) s"
  have q1: "quiet u s ?s1" by (rule quiet_set_data) (simp add: i)
  note i1 = quiet_inv [OF q1]
  have ack: "sound (quiet u ?s1) (if rp_ackRequiredFlag p then sendRREPACK (createRREPACK ?s1) a ?s1 else Inr ?s1)"
    using send_quiet [OF i1] i1 by (simp add: sendRREPACK_def)
  have rest: "sound (quiet u s3) (ebind (deref_route dr s3) (\<lambda>rd.
       ebind (ao_findBestMatchingRoute (r_gateway rd) s3) (\<lambda>(nextHopToDestRoute, s4).
       ebind (case nextHopToDestRoute of
                None \<Rightarrow> Inr s4
              | Some rn \<Rightarrow> if own_route rn then addPrecursor (r_id rn) (r_gateway ro) s4 else Inr s4) (\<lambda>s5.
         forwardRREP (p\<lparr>rp_ackRequiredFlag := False\<rparr>) (r_gateway ro) 100 s5))))"
    if q3: "quiet u s s3" for s3
  proof -
    obtain rd where rd: "deref_route dr s3 = Inr rd"
      using quiet_pointer [OF assms(2) q3] by (auto simp: own_pointer_def deref_route_def)
    show ?thesis unfolding rd ebind_simps
    proof (rule find_then [OF quiet_inv [OF q3]], rule then_quiet, goal_cases)
      case (1 res s4)
      then show ?case
        using precursor_quiet [OF quiet_inv [OF 1(1)]] quiet_inv [OF 1(1)] by (auto split: option.split)
    qed (simp add: forwardRREP_def jittered_quiet quiet_inv)
  qed
  have "sound (quiet u ?s1) (if reboot_completed ?s1 then
       ebind (if rp_ackRequiredFlag p then sendRREPACK (createRREPACK ?s1) a ?s1 else Inr ?s1) (\<lambda>s2.
       ebind (addPrecursor dr (r_gateway ro) s2) (\<lambda>s3.
       ebind (deref_route dr s3) (\<lambda>rd.
       ebind (ao_findBestMatchingRoute (r_gateway rd) s3) (\<lambda>(nextHopToDestRoute, s4).
       ebind (case nextHopToDestRoute of
                None \<Rightarrow> Inr s4
              | Some rn \<Rightarrow> if own_route rn then addPrecursor (r_id rn) (r_gateway ro) s4 else Inr s4) (\<lambda>s5.
         forwardRREP (p\<lparr>rp_ackRequiredFlag := False\<rparr>) (r_gateway ro) 100 s5)))))
     else Inr ?s1)"
  proof (cases "reboot_completed ?s1")
    case True
    show ?thesis unfolding if_P [OF True]
    proof (rule then_quiet [OF ack], rule then_quiet [OF precursor_quiet [OF quiet_inv]], assumption, rule rest)
      fix s2 s3 assume "quiet u ?s1 s2" "quiet u s2 s3"
      then show "quiet u s s3" using q1 quiet_trans by blast
    qed
  qed (use i1 in simp)
  then show ?case unfolding Let_def by (rule sound_mono) (rule quiet_trans [OF q1])
qed

section \<open>Route discovery\<close>

lemma fold_emit_events: "fold (\<lambda>p. ao_emit (f p)) ps s = s\<lparr>ao_events := ao_events s @ map f ps\<rparr>"
  by (induction ps arbitrary: s) (simp_all add: ao_emit_def)

lemma end_discovery_sound:
  assumes "aodv_inv u s" "hasOngoingRouteDiscovery target s"
  shows "sound (touches u {target} s) (end_discovery f target s)"
proof -
  let ?s = "(fold (\<lambda>p. ao_emit (f p)) (delayed_for target s) s)
       \<lparr>targetAddressToDelayedPackets := filter (\<lambda>e. fst e \<noteq> target) (targetAddressToDelayedPackets s),
        waitForRREPTimers := (waitForRREPTimers s)(target := None)\<rparr>"
  have "aodv_inv u ?s" using assms(1) by (auto simp: fold_emit_events aodv_inv_def timers_ok_def)
  moreover have "delayed_for b ?s = delayed_for b s" if "b \<noteq> target" for b
  proof -
    have "filter (\<lambda>e. fst e = b \<and> fst e \<noteq> target) es = filter (\<lambda>e. fst e = b) es" for es :: "(Ipv4Address \<times> Packet) list"
      using that by (intro filter_cong) auto
    then show ?thesis by (simp add: delayed_for_def conj_commute)
  qed
  ultimately have "touches u {target} s ?s" by (simp add: touches_def fold_emit_events arrived_def)
  then show ?thesis using assms(2) by (simp add: end_discovery_def)
qed

lemma createRREQ_quiet:
  assumes "aodv_inv u s"
  shows "sound (\<lambda>(q, s1). quiet u s s1 \<and> rq_destAddr q = dest) (createRREQ dest s)"
  unfolding createRREQ_def
proof (rule sound_bind [OF find_sound [where u = u and ?s0.0 = s]], goal_cases)
  case (2 x)
  obtain res s1 where x: "x = (res, s1)" by fastforce
  have q: "quiet u s s1" "found s1 dest res" using 2 x by simp_all
  have "sound (\<lambda>_. True) (route_data i s2)" for i s2 by (simp add: route_data_def split: option.split)
  then show ?case using x q by (auto simp: Let_def ao_now_def split: option.split intro!: data_sound quiet_request [unfolded ao_now_def])
qed (simp add: assms)

definition may_request :: "Ipv4Address \<Rightarrow> u32 \<Rightarrow> Aodv \<Rightarrow> bool" where
  "may_request dest ttl s = (case waitForRREPTimers s dest of
     Some w \<Rightarrow> wr_timer w = None \<and> ttl = 0
   | None \<Rightarrow> \<exists>n. addressToRreqRetries s dest = Some n \<and> n \<le> rreqRetries (ao_par s))"

lemma sum_nonzero:
  assumes "uint (a :: u32) + uint b < 2 ^ 32" "a \<noteq> 0"
  shows "a + b \<noteq> 0"
proof
  assume "a + b = 0"
  moreover have "uint (a + b) = uint a + uint b" using assms(1) uint_add_lem [of a b] by simp
  ultimately have "uint a + uint b = 0" by simp
  then have "uint a = 0" using uint_ge_0 [of a] uint_ge_0 [of b] by linarith
  then show False using assms(2) by (simp add: uint_0_iff)
qed

lemma next_ring_sound:
  assumes i: "aodv_inv u s" and m: "may_request (rq_destAddr q) ttl s"
  shows "sound (\<lambda>(ttl1, w). ttl1 \<noteq> 0 \<and> wr_timer w = None \<and>
      wait_ok (ao_par s) (addressToRreqRetries s (rq_destAddr q)) (rq_destAddr q) w) (next_ring q ttl s)"
proof (cases "waitForRREPTimers s (rq_destAddr q)")
  case None
  then show ?thesis using i m by (auto simp: next_ring_def may_request_def wait_ok_def aodv_inv_def par_ok_def)
next
  case (Some w)
  have w: "wait_ok (ao_par s) (addressToRreqRetries s (rq_destAddr q)) (rq_destAddr q) w"
    using i Some by (simp add: aodv_inv_def timers_ok_def)
  have p: "par_ok (ao_par s)" using i by (simp add: aodv_inv_def)
  let ?inc = "ttlIncrement (ao_par s)"
  have nz: "lastTTL w + ?inc \<noteq> 0" using w sum_nonzero by (simp add: wait_ok_def)
  have b: "uint (lastTTL w + ?inc) + uint ?inc < 2 ^ 32" if "lastTTL w + ?inc < ttlThreshold (ao_par s)"
    using that p by (simp add: par_ok_def word_less_def)
  show ?thesis using Some m w p nz b by (auto simp: next_ring_def may_request_def wait_ok_def par_ok_def)
qed

lemma sendRREQ_sound:
  assumes i: "aodv_inv u s" and m: "may_request (rq_destAddr q) ttl s"
  shows "sound (touches u {rq_destAddr q} s) (sendRREQ q dest ttl s)"
proof -
  have "sound (touches u {rq_destAddr q} s) (ebind (next_ring q ttl s) (\<lambda>(ttl1, w).
        let ringTraversalTime = 2 * nodeTraversalTime (ao_par s) * uint (ttl1 + timeoutBuffer (ao_par s)) in
        ebind (scheduleAt (ao_now s + ringTraversalTime) (wr_timer w) s) (\<lambda>timer.
        ebind (send_jittered (rreq_packet q s) dest ttl1
                (s\<lparr>waitForRREPTimers := (waitForRREPTimers s)(rq_destAddr q \<mapsto> w\<lparr>wr_timer := timer\<rparr>)\<rparr>)) (\<lambda>s1.
          Inr (s1\<lparr>rreqCount := rreqCount s1 + 1\<rparr>)))))"
  proof (rule sound_bind [OF next_ring_sound [OF i m]], goal_cases)
    case (1 x)
    obtain ttl1 w where x: "x = (ttl1, w)" by fastforce
    have w: "ttl1 \<noteq> 0" "wait_ok (ao_par s) (addressToRreqRetries s (rq_destAddr q)) (rq_destAddr q) w" using 1(2) x by simp_all
    let ?s1 = "\<lambda>timer. s\<lparr>waitForRREPTimers := (waitForRREPTimers s)(rq_destAddr q \<mapsto> w\<lparr>wr_timer := timer\<rparr>)\<rparr>"
    have i1: "aodv_inv u (?s1 timer)" for timer
      using i w(2) by (auto simp: aodv_inv_def timers_ok_def wait_ok_def)
    then have t: "touches u {rq_destAddr q} s (?s1 timer)" for timer by (simp add: touches_def arrived_def delayed_for_def)
    have "sound (\<lambda>s1. touches u {rq_destAddr q} s (s1\<lparr>rreqCount := rreqCount s1 + 1\<rparr>)) (send_jittered (rreq_packet q s) dest ttl1 (?s1 timer))" for timer
    proof (rule sound_mono [OF jittered_quiet [OF i1 w(1)]])
      fix s1 assume "quiet u (?s1 timer) s1"
      then have "quiet u (?s1 timer) (s1\<lparr>rreqCount := rreqCount s1 + 1\<rparr>)" by simp
      then show "touches u {rq_destAddr q} s (s1\<lparr>rreqCount := rreqCount s1 + 1\<rparr>)" using touches_trans [OF t quiet_touches] by blast
    qed
    then show ?case by (auto simp: x Let_def intro!: sound_mono [OF schedule_sound])
  qed
  moreover have "touches u {rq_destAddr q} s s" using i quiet_touches by simp
  ultimately show ?thesis by (simp add: sendRREQ_def del: sound_simps(3))
qed

text \<open>Before a request is sent, the count of retries of its target may be set.\<close>

lemma request_after:
  assumes q: "quiet u s s1" and n: "waitForRREPTimers s1 target \<noteq> None \<Longrightarrow> n \<le> rreqRetries (ao_par s1)"
    and m: "may_request target ttl (s1\<lparr>addressToRreqRetries := (addressToRreqRetries s1)(target \<mapsto> n)\<rparr>)" "rq_destAddr q = target"
  shows "sound (touches u {target} s) (sendRREQ q dest ttl (s1\<lparr>addressToRreqRetries := (addressToRreqRetries s1)(target \<mapsto> n)\<rparr>))"
proof -
  let ?s2 = "s1\<lparr>addressToRreqRetries := (addressToRreqRetries s1)(target \<mapsto> n)\<rparr>"
  have i: "aodv_inv u ?s2" using quiet_inv [OF q] n by (auto simp: aodv_inv_def timers_ok_def wait_ok_def)
  then have "touches u {target} s1 ?s2" by (simp add: touches_def arrived_def delayed_for_def)
  then have "touches u {target} s ?s2" by (rule touches_after [OF q])
  then show ?thesis using sendRREQ_sound [OF i, of q ttl] m by (auto intro: sound_mono touches_trans)
qed

lemma start_discovery_sound:
  assumes i: "aodv_inv u s" and "\<not> hasOngoingRouteDiscovery target s"
  shows "sound (touches u {target} s) (startRouteDiscovery target ttl s)"
proof -
  have "sound (touches u {target} s) (ebind (createRREQ target s) (\<lambda>(q, s1). sendRREQ q broadcastAddress ttl
         (s1\<lparr>addressToRreqRetries := (addressToRreqRetries s1)(target \<mapsto> 0)\<rparr>)))"
  proof (rule sound_bind [OF createRREQ_quiet [OF i, of target]], goal_cases)
    case (1 x)
    obtain q s1 where x: "x = (q, s1)" by fastforce
    have q: "quiet u s s1" "rq_destAddr q = target" using 1(2) x by simp_all
    have none: "waitForRREPTimers s1 target = None"
      using quiet_same(4) [OF q(1)] assms(2) by (simp add: hasOngoingRouteDiscovery_def)
    show ?case unfolding x prod.case
      by (rule request_after [OF q(1) _ _ q(2)]) (simp_all add: none may_request_def)
  qed
  then show ?thesis using assms(2) by (simp add: startRouteDiscovery_def del: sound_simps(3))
qed

lemma wait_expired_sound:
  assumes i: "aodv_inv u s" and w: "waitForRREPTimers s target = Some w" "wr_timer w = None"
  shows "sound (touches u {target} s) (handleWaitForRREP w s)"
proof -
  obtain n where n: "wr_destAddr w = target" "addressToRreqRetries s target = Some n" "n \<le> rreqRetries (ao_par s)"
    using i w(1) by (auto simp: aodv_inv_def timers_ok_def wait_ok_def)
  show ?thesis
  proof (cases "n = rreqRetries (ao_par s)")
    case True
    have "sound (touches u {target} s) (cancelRouteDiscovery target s)"
      unfolding cancelRouteDiscovery_def by (rule end_discovery_sound [OF i]) (simp add: hasOngoingRouteDiscovery_def w)
    then show ?thesis using n True by (simp add: handleWaitForRREP_def)
  next
    case False
    have "sound (touches u {target} s) (ebind (createRREQ target s) (\<lambda>(q, s1). sendRREQ q broadcastAddress 0
        (if lastTTL w = netDiameter (ao_par s)
         then s1\<lparr>addressToRreqRetries := (addressToRreqRetries s1)(target \<mapsto> n + 1)\<rparr> else s1)))"
    proof (rule sound_bind [OF createRREQ_quiet [OF i, of target]], goal_cases)
      case (1 x)
      obtain q s1 where x: "x = (q, s1)" by fastforce
      have q: "quiet u s s1" "rq_destAddr q = target" using 1(2) x by simp_all
      have same: "waitForRREPTimers s1 target = Some w" "ao_par s1 = ao_par s" "addressToRreqRetries s1 target = Some n"
        using quiet_same [OF q(1)] w(1) n(2) by simp_all
      have le: "n + 1 \<le> rreqRetries (ao_par s)" using n(3) False by (simp add: inc_le order.strict_iff_order)
      have r: "sound (touches u {target} s) (sendRREQ q broadcastAddress 0
          (s1\<lparr>addressToRreqRetries := (addressToRreqRetries s1)(target \<mapsto> k)\<rparr>))" if "k \<le> rreqRetries (ao_par s)" for k
        by (rule request_after [OF q(1) _ _ q(2)]) (use that same w(2) in \<open>simp_all add: may_request_def\<close>)
      have "s1\<lparr>addressToRreqRetries := (addressToRreqRetries s1)(target \<mapsto> n)\<rparr> = s1" using same(3) by (simp add: fun_upd_idem)
      then show ?case using r [of n] r [OF le] n(3) by (simp add: x)
    qed
    then show ?thesis using n False by (simp add: handleWaitForRREP_def del: sound_simps(3))
  qed
qed

section \<open>Handlers\<close>

lemma find_inv:
  assumes i: "aodv_inv u s"
    and "\<And>res s1. quiet u s s1 \<Longrightarrow> found s1 a res \<Longrightarrow> sound P (f res s1)"
  shows "sound P (ebind (ao_findBestMatchingRoute a s) (\<lambda>(res, s1). f res s1))"
  by (rule sound_bind [OF find_sound [where u = u and ?s0.0 = s]]) (use assms in auto)

lemma quiet_end: "sound (quiet u s) r \<Longrightarrow> sound (touches u A s) r"
  by (erule sound_mono) (rule quiet_touches)

text \<open>The step after one that returns a pointer.\<close>

lemma points_then:
  assumes "sound (points u s d) r" "\<And>i s1. quiet u s s1 \<Longrightarrow> leads_to i d s1 \<Longrightarrow> \<not> no_route d (ao_rt s1) \<Longrightarrow> sound (P s1) (f i s1)"
    "\<And>s1 x. quiet u s s1 \<Longrightarrow> P s1 x \<Longrightarrow> P s x"
  shows "sound (P s) (ebind r (\<lambda>(i, s1). f i s1))"
proof (rule sound_bind [OF assms(1)], goal_cases)
  case (1 x)
  obtain i s1 where x: "x = (i, s1)" by fastforce
  have p: "quiet u s s1" "leads_to i d s1" "\<not> no_route d (ao_rt s1)" using 1(2) by (simp_all add: x points_def)
  show ?case unfolding x prod.case by (rule sound_mono [OF assms(2) [OF p]]) (rule assms(3) [OF p(1)])
qed

text \<open>A reply either changes no discovery or ends the one for its destination.\<close>

definition answered :: "bool \<Rightarrow> Ipv4Address \<Rightarrow> Aodv \<Rightarrow> Aodv \<Rightarrow> bool" where
  "answered u d s s' = (touches u {d} s s' \<and> (quiet u s s' \<or> waitForRREPTimers s' d = None))"

lemma answered_quiet: "quiet u s s' \<Longrightarrow> answered u d s s'"
  by (simp add: answered_def quiet_touches)

lemma answered_after: "quiet u s s1 \<Longrightarrow> answered u d s1 s2 \<Longrightarrow> answered u d s s2"
  using touches_after [of u s s1 "{d}" s2] quiet_trans [of u s s1 s2] by (auto simp: answered_def)

lemma then_answered:
  assumes "sound (quiet u s) r" "\<And>s1. quiet u s s1 \<Longrightarrow> sound (answered u d s1) (f s1)"
  shows "sound (answered u d s) (ebind r f)"
  by (rule sound_bind [OF assms(1)]) (blast intro: sound_mono [OF assms(2)] answered_after)

lemma complete_answered:
  assumes "aodv_inv u s" "hasOngoingRouteDiscovery d s"
  shows "sound (answered u d s) (completeRouteDiscovery d s)"
  unfolding completeRouteDiscovery_def
  by (rule sound_mono [OF end_discovery_sound [OF assms]]) (use assms(2) in \<open>auto simp: answered_def end_discovery_def\<close>)

lemma handleRREP_answered:
  assumes "aodv_inv u s"
  shows "sound (answered u (rp_destAddr p) s) (handleRREP p a s)"
proof (cases "ipv4_isUnspecified (rp_originatorAddr p)")
  case True
  then show ?thesis using sound_mono [OF hello_quiet [OF assms]] answered_quiet by (simp add: handleRREP_def)
next
  case False
  show ?thesis unfolding handleRREP_def if_not_P [OF False] Let_def
  proof (rule then_answered [OF previous_hop_quiet [OF assms]],
      rule points_then [where P = "answered u (rp_destAddr p)", OF forward_route_points [where u = u]], goal_cases)
    case (1 s1)
    then show ?case by (rule quiet_inv)
  next
    case (2 s1 dr s2)
    show ?case
    proof (rule find_inv [OF quiet_inv [OF 2(2)]], goal_cases)
      case (1 res s3)
      note i3 = quiet_inv [OF 1(1)] and dr3 = quiet_pointer [OF leads_to_pointer [OF 2(3)] 1(1)]
      have d: "sound (answered u (rp_destAddr p) s3) (ebind (updateRoutingTable dr b c True n True l s3) (completeRouteDiscovery (rp_destAddr p)))"
        if on: "hasOngoingRouteDiscovery (rp_destAddr p) s3" for b c n l
        by (rule then_answered [OF update_quiet [OF i3 dr3]], rule complete_answered [OF quiet_inv])
          (use on quiet_same(4) in \<open>auto simp: hasOngoingRouteDiscovery_def\<close>)
      have o: "sound (answered u (rp_destAddr p) s3) (pass_rrep_on q a dr ro s3)" for q ro
        by (rule sound_mono [OF pass_on_quiet [OF i3 dr3]]) (rule answered_quiet)
      have r: "answered u (rp_destAddr p) s3 s3" using i3 answered_quiet by simp
      have "sound (answered u (rp_destAddr p) s2) r" if "sound (answered u (rp_destAddr p) s3) r" for r
        by (rule sound_mono [OF that]) (rule answered_after [OF 1(1)])
      then show ?case using d o r by (simp del: sound_simps(3) split: option.split)
    qed
  qed (rule answered_after)
qed

lemma handleRREP_sound: "aodv_inv u s \<Longrightarrow> sound (touches u {rp_destAddr p} s) (handleRREP p a s)"
  by (rule sound_mono [OF handleRREP_answered]) (auto simp: answered_def)

lemma process_rreq_quiet:
  assumes "aodv_inv u s"
  shows "sound (quiet u s) (process_rreq q a ttl s)"
  unfolding process_rreq_def Let_def
proof (rule points_then [where P = "quiet u", OF reverse_route_points [OF assms]], goal_cases)
  case (1 rr s1)
  note o1 = 1(3)
  show ?case
  proof (rule find_then [OF quiet_inv [OF 1(1)]], goal_cases)
    case (1 res s2)
    note i2 = quiet_inv [OF 1(1)]
    have o2: "\<not> no_route (rq_originatorAddr q) (ao_rt s2)" using grown_lookup o1 1(1) unfolding quiet_def by blast
    have fr: "\<exists>r'. find_route (r_id r) (ao_rt s2) = Some r'" if r: "res = Some r" for r
      using 1(2) find_route_iff [OF aodv_invD(2) [OF i2]] r by (auto simp: found_def)
    have self: "sound (quiet u s2) (answer_rreq q (map_option r_id res) rr a s2)" if "rq_destAddr q = getSelfIPAddress s2"
      by (rule answer_quiet [OF i2 o2]) (use that in blast)
    have reb: "sound (quiet u s2) (rebroadcast_rreq q d ttl s2)" for d by (rule rebroadcast_quiet [OF i2])
    have inter: "sound (quiet u s2) (ebind (answer_rreq q (Some (r_id r)) rr a s2) (send_gratuitous q))"
      if r: "res = Some r" for r
    proof (rule then_quiet [OF answer_quiet [OF i2 o2]])
      show "\<exists>i. Some (r_id r) = Some i \<and> (\<exists>r. find_route i (ao_rt s2) = Some r)" using fr [OF r] by simp
      fix s3 assume q3: "quiet u s2 s3"
      have "\<not> no_route (rq_destAddr q) (ao_rt s2)" using 1(2) r found_route by simp
      then have "\<not> no_route (rq_originatorAddr q) (ao_rt s3)" "\<not> no_route (rq_destAddr q) (ao_rt s3)"
        using grown_lookup o2 q3 unfolding quiet_def by blast+
      then show "sound (quiet u s3) (send_gratuitous q s3)" by (intro gratuitous_quiet [OF quiet_inv [OF q3]])
    qed
    show ?case using self reb inter i2 by (simp del: sound_simps(3) split: option.split)
  qed
qed (rule quiet_trans)

lemma handleRREQ_quiet:
  assumes "aodv_inv u s"
  shows "sound (quiet u s) (handleRREQ q a ttl s)"
proof (cases "map_of (blacklist s) a = None")
  case False
  then show ?thesis using assms by (simp add: handleRREQ_def)
next
  case True
  then have nb: "\<not> map_of (blacklist s) a \<noteq> None" by simp
  show ?thesis unfolding handleRREQ_def if_not_P [OF nb] Let_def
  proof (rule then_quiet [OF previous_hop_quiet [OF assms]], goal_cases)
    case (1 s1)
    let ?s2 = "s1\<lparr>rreqsArrivalTime := (rreqsArrivalTime s1)((rq_originatorAddr q, rq_rreqId q) \<mapsto> ao_now s1)\<rparr>"
    have q2: "quiet u s1 ?s2" by (rule quiet_seen) (simp add: quiet_inv [OF 1])
    have "sound (quiet u s1) (process_rreq q' a ttl ?s2)" for q'
      by (rule sound_mono [OF process_rreq_quiet [OF quiet_inv [OF q2]]]) (rule quiet_trans [OF q2])
    then show ?case using quiet_inv [OF 1] by simp
  qed
qed

lemma expunge_schedule_quiet: "aodv_inv u s \<Longrightarrow> sound (quiet u s) (scheduleExpungeRoutes (set_route_data i d s))"
  by (rule sound_mono [OF expunge_schedule_sound [where u = u and ?s0.0 = s]]) simp_all

lemma nodes_then:
  assumes "sound (quiet u s) r" "\<And>s1. quiet u s s1 \<Longrightarrow> sound (\<lambda>(ns, s2). quiet u s1 s2) (f s1)"
  shows "sound (\<lambda>(ns, s2). quiet u s s2) (ebind r f)"
  by (rule sound_bind [OF assms(1)]) (auto intro!: sound_mono [OF assms(2)] intro: quiet_trans)

lemma break_routes_quiet: "aodv_inv u s \<Longrightarrow> sound (\<lambda>(ns, s1). quiet u s s1) (break_routes a rs ns s)"
proof (induction rs arbitrary: ns s)
  case (Cons r rs)
  have step: "sound (\<lambda>(ns, s1). quiet u s s1) (ebind (scheduleExpungeRoutes (set_route_data (r_id r) d s)) (\<lambda>s1. break_routes a rs ms s1))" for d ms
    by (rule nodes_then [OF expunge_schedule_quiet [OF Cons.prems]]) (rule Cons.IH [OF quiet_inv])
  show ?case using step Cons by (simp add: Let_def del: sound_simps(3) split: option.split)
qed simp

lemma invalidate_route_quiet: "aodv_inv u s \<Longrightarrow> sound (\<lambda>(ns, s1). quiet u s s1) (invalidate_route r us ns s)"
proof (induction us arbitrary: ns s)
  case (Cons x us)
  have step: "sound (\<lambda>(ns, s1). quiet u s s1) (ebind (scheduleExpungeRoutes (set_route_data (r_id r) d s)) (invalidate_route r us ms))" for d ms
    by (rule nodes_then [OF expunge_schedule_quiet [OF Cons.prems]]) (rule Cons.IH [OF quiet_inv])
  show ?case using step Cons by (auto simp add: Let_def simp del: sound_simps(3) intro!: data_then)
qed simp

lemma invalidate_routes_quiet: "aodv_inv u s \<Longrightarrow> sound (\<lambda>(ns, s1). quiet u s s1) (invalidate_routes a us rs ns s)"
proof (induction rs arbitrary: ns s)
  case (Cons r rs)
  have "sound (\<lambda>(ns, s1). quiet u s s1) (ebind (invalidate_route r us ns s) (\<lambda>(ns1, s1). invalidate_routes a us rs ns1 s1))"
  proof (rule sound_bind [OF invalidate_route_quiet [OF Cons.prems]], goal_cases)
    case (1 x)
    then obtain ms s1 where x: "x = (ms, s1)" "quiet u s s1" by fastforce
    show ?case unfolding x prod.case
      by (rule sound_mono [OF Cons.IH [OF quiet_inv [OF x(2)]]]) (auto intro: quiet_trans [OF x(2)])
  qed
  then show ?case using Cons by (simp del: sound_simps(3) split: option.split)
qed simp

lemma send_rerr_quiet: "aodv_inv u s \<Longrightarrow> sound (quiet u s) (send_rerr ns s)"
  unfolding send_rerr_def by (rule jittered_sound) simp_all

lemma link_break_quiet:
  assumes "aodv_inv u s"
  shows "sound (quiet u s) (handleLinkBreakSendRERR a s)"
  unfolding handleLinkBreakSendRERR_def
proof (rule find_then [OF assms], goal_cases)
  case (1 res s1)
  note i = quiet_inv [OF 1(1)]
  have "sound (quiet u s1) (ebind (break_routes a (routes (ao_rt s1)) ns s1) (\<lambda>(ns1, s2).
             if rerrCount s2 \<ge> rerrRatelimit (ao_par s2) then Inr s2 else if ns1 = [] then Inr s2 else send_rerr ns1 s2))" for ns
  proof (rule sound_bind [OF break_routes_quiet [OF i]], goal_cases)
    case (1 x)
    then obtain ms s2 where x: "x = (ms, s2)" "quiet u s1 s2" by fastforce
    have "sound (quiet u s1) (send_rerr ms s2)"
      by (rule sound_mono [OF send_rerr_quiet [OF quiet_inv [OF x(2)]]]) (rule quiet_trans [OF x(2)])
    then show ?case using x by simp
  qed
  then show ?case using i by (auto simp: Let_def simp del: sound_simps(3) split: option.split intro!: data_then)
qed

lemma broken_link_quiet:
  assumes "aodv_inv u s"
  shows "sound (quiet u s) (ao_linkBroken dest s)"
proof (cases dest)
  case (Some a)
  show ?thesis unfolding ao_linkBroken_def Some option.case
  proof (rule find_then [OF assms], goal_cases)
    case (1 res s1)
    note i = quiet_inv [OF 1(1)]
    show ?case using link_break_quiet [OF i] i by (simp split: option.split)
  qed
qed (simp add: ao_linkBroken_def assms)

lemma handleRERR_quiet:
  assumes "aodv_inv u s"
  shows "sound (quiet u s) (handleRERR us a s)"
  unfolding handleRERR_def
proof (rule sound_bind [OF invalidate_routes_quiet [OF assms]], goal_cases)
  case (1 x)
  then obtain ms s1 where x: "x = (ms, s1)" "quiet u s s1" by fastforce
  have "sound (quiet u s) (sendAODVPacket pk broadcastAddress 1 0 s1)" for pk
    by (rule sound_mono [OF send_quiet [OF quiet_inv [OF x(2)]]]) (use quiet_trans [OF x(2)] in auto)
  then show ?case using x by simp
qed

lemma no_route_rerr_quiet:
  assumes "aodv_inv u s"
  shows "sound (quiet u s) (sendRERRWhenNoRouteToForward a s)"
proof (cases "rerrCount s \<ge> rerrRatelimit (ao_par s)")
  case False
  show ?thesis unfolding sendRERRWhenNoRouteToForward_def if_not_P [OF False] Let_def
    by (rule find_then [OF assms]) (rule send_rerr_quiet [OF quiet_inv])
qed (simp add: sendRERRWhenNoRouteToForward_def assms)

lemma rrepack_quiet:
  assumes "aodv_inv u s"
  shows "sound (quiet u s) (handleRREPACK a s)"
proof (cases "rrepAckTimer s = None")
  case False
  show ?thesis unfolding handleRREPACK_def if_not_P [OF False]
  proof (rule find_then [OF assms], goal_cases)
    case (1 res s1)
    then show ?case using quiet_inv [OF 1(1)]
      by (auto simp del: sound_simps(3) split: option.split intro!: data_then)
  qed
qed (simp add: handleRREPACK_def assms)

section \<open>Datagrams\<close>

lemma extend_quiet:
  assumes "aodv_inv u s"
  shows "sound (\<lambda>(b, s1). quiet u s s1) (updateValidRouteLifeTime a t s)"
  unfolding updateValidRouteLifeTime_def
proof (rule find_inv [OF assms], goal_cases)
  case (1 res s1)
  then show ?case by (auto split: option.split intro!: data_sound)
qed

lemma extend_then:
  assumes "aodv_inv u s" "\<And>b s1. quiet u s s1 \<Longrightarrow> sound (P s1) (f b s1)" "\<And>s1 x. quiet u s s1 \<Longrightarrow> P s1 x \<Longrightarrow> P s x"
  shows "sound (P s) (ebind (updateValidRouteLifeTime a t s) (\<lambda>(b, s1). f b s1))"
proof (rule sound_bind [OF extend_quiet [OF assms(1)]], goal_cases)
  case (1 x)
  then obtain b s1 where x: "x = (b, s1)" "quiet u s s1" by fastforce
  show ?case unfolding x prod.case by (rule sound_mono [OF assms(2) [OF x(2)]]) (rule assms(3) [OF x(2)])
qed

lemma extend_hop_quiet:
  assumes "aodv_inv u s"
  shows "sound (quiet u s) (extend_hop r s)"
proof -
  have "sound (quiet u s) (ebind (updateValidRouteLifeTime a t s) (\<lambda>(b, s1). Inr s1))" for a t
    by (rule extend_then [where P = "quiet u", OF assms]) (auto intro: quiet_inv quiet_trans)
  then show ?thesis using assms by (auto simp: extend_hop_def simp del: sound_simps(3) split: option.split)
qed

end
