(* ===== verification/AodvForeign.thy ===== *)
theory AodvForeign
  imports AodvProps
begin

text \<open>
  What other modules do to the routing table of a node that runs AODV. They may add, remove and change routes, bring interfaces up and down
  and restart the table, as long as they do not make a route of the AODV module, and change of a route only its gateway, metric and kind.
  The invariant of the AODV module survives all of that.
\<close>

section \<open>Tables whose own routes come from another table\<close>

definition derived :: "Ipv4RoutingTable \<Rightarrow> Ipv4Route \<Rightarrow> bool" where
  "derived t r = (own_route r \<longrightarrow> (\<exists>r0 \<in> set (routes t). stable_route r0 r))"

definition kept_own :: "Ipv4RoutingTable \<Rightarrow> Ipv4RoutingTable \<Rightarrow> bool" where
  "kept_own t t' = (ifaces_ok t' \<and> rt_now t \<le> rt_now t' \<and> (\<forall>r \<in> set (routes t'). derived t r))"

lemma derived_stable: "derived t r \<Longrightarrow> stable_route r r' \<Longrightarrow> derived t r'"
  unfolding derived_def using stable_same(1) stable_trans by blast

lemma kept_own_refl [simp]: "kept_own t t = ifaces_ok t"
  unfolding kept_own_def derived_def using stable_refl by blast

lemma kept_own_fields [simp]:
  "kept_own t (t'\<lparr>rt_nextId := n\<rparr>) = kept_own t t'"
  "kept_own t (t'\<lparr>routerId := a\<rparr>) = kept_own t t'" "kept_own t (t'\<lparr>isNodeUp := b\<rparr>) = kept_own t t'"
  "kept_own t (t'\<lparr>routingCache := c\<rparr>) = kept_own t t'" "kept_own t (t'\<lparr>localBroadcastAddresses := l\<rparr>) = kept_own t t'"
  "kept_own t (t'\<lparr>multicastRoutes := ms\<rparr>) = kept_own t t'" "kept_own t (rt_emit s t') = kept_own t t'"
  "kept_own t (invalidateCache t') = kept_own t t'"
  by (simp_all add: kept_own_def ifaces_ok_def rt_emit_def invalidateCache_def)

lemma kept_own_later: "kept_own t t' \<Longrightarrow> kept_own t (t'\<lparr>rt_now := rt_now t' + int dt\<rparr>)"
  by (simp add: kept_own_def ifaces_ok_def)

lemma kept_own_subset: "kept_own t t' \<Longrightarrow> set rs \<subseteq> set (routes t') \<Longrightarrow> kept_own t (t'\<lparr>routes := rs\<rparr>)"
  by (auto simp: kept_own_def ifaces_ok_def)

lemma kept_own_insert: "kept_own t t' \<Longrightarrow> derived t r \<Longrightarrow> kept_own t (insert_route r t')"
  by (auto simp: kept_own_def ifaces_ok_def insert_route_def)

lemma kept_own_emits [simp]: "kept_own t (fold (\<lambda>r. rt_emit (f r)) xs t') = kept_own t t'"
  by (induction xs arbitrary: t') simp_all

lemma kept_own_remove:
  assumes "kept_own t t'"
  shows "kept_own t (snd (internalRemoveRoute i t'))" "fst (internalRemoveRoute i t') = Some r \<Longrightarrow> derived t r"
proof -
  show "kept_own t (snd (internalRemoveRoute i t'))"
    using assms set_remove_first [of _ "routes t'"] by (auto simp: internalRemoveRoute_def split: option.split intro!: kept_own_subset)
  show "derived t r" if "fst (internalRemoveRoute i t') = Some r"
    using that assms find_route_props [of i t'] by (auto simp: internalRemoveRoute_def kept_own_def split: option.splits)
qed

lemma kept_own_delete:
  assumes "kept_own t t'"
  shows "yields (\<lambda>p. kept_own t (snd p)) (deleteRoute i t')" "yields (\<lambda>p. kept_own t (snd p)) (removeRoute i t')"
proof -
  obtain r t1 where r: "internalRemoveRoute i t' = (r, t1)" by fastforce
  then have "kept_own t t1" using kept_own_remove(1) [OF assms, of i] by simp
  then show "yields (\<lambda>p. kept_own t (snd p)) (deleteRoute i t')" "yields (\<lambda>p. kept_own t (snd p)) (removeRoute i t')"
    using r by (simp_all add: deleteRoute_def removeRoute_def split: option.split)
qed

lemma kept_own_added:
  assumes "kept_own t t'" "derived t r"
  shows "yields (kept_own t) (internalAddRoute r t')"
proof -
  have d: "derived t (r\<lparr>r_inTable := True\<rparr>)" by (rule derived_stable [OF assms(2)]) (simp add: stable_route_def)
  have "yields (kept_own t) (case (if ipv4_isUnspecified (r_netmask r) then getDefaultRoute t' else None) of
       None \<Rightarrow> Inr t' | Some old \<Rightarrow> ebind (deleteRoute (r_id old) t') (\<lambda>(_, t1). Inr t1))"
    using assms(1) kept_own_delete(1) [OF assms(1)] by (auto simp: case_prod_beta intro!: yields_option)
  then have "yields (\<lambda>t1. kept_own t (insert_route (r\<lparr>r_inTable := True\<rparr>) t1))
      (case (if ipv4_isUnspecified (r_netmask r) then getDefaultRoute t' else None) of
       None \<Rightarrow> Inr t' | Some old \<Rightarrow> ebind (deleteRoute (r_id old) t') (\<lambda>(_, t1). Inr t1))"
    by (rule yields_mono) (rule kept_own_insert [OF _ d])
  then show ?thesis unfolding internalAddRoute_def by (intro yields_if) (simp_all only: yields_simps kept_own_fields)
qed

text \<open>The fields of a route that other modules may set.\<close>

definition harmless_change :: "route_change \<Rightarrow> bool" where
  "harmless_change c = (case c of SetGateway _ \<Rightarrow> True | SetMetric _ \<Rightarrow> True | SetSourceType _ \<Rightarrow> True | _ \<Rightarrow> False)"

lemma kept_own_change:
  assumes "kept_own t t'" "harmless_change c"
  shows "yields (kept_own t) (change_route c i t')"
proof (cases "find_route i t'")
  case None
  then show ?thesis using assms(1) by (simp add: change_route_def)
next
  case (Some r)
  obtain r1 ch where c: "set_route_field c r = (r1, ch)" by fastforce
  have "stable_route r r1" using c assms(2)
    by (cases c) (auto simp: harmless_change_def stable_route_def split: if_splits)
  moreover have "derived t r" using assms(1) find_route_props [OF Some] by (simp add: kept_own_def)
  ultimately have d: "derived t r1" using derived_stable by blast
  let ?t = "t'\<lparr>routes := update_first (\<lambda>x. r_id x = i) r1 (routes t')\<rparr>"
  have "set (update_first P r1 rs) \<subseteq> insert r1 (set rs)" for P rs by (induction rs) auto
  then have k: "kept_own t ?t" using assms(1) d unfolding kept_own_def by (fastforce simp: ifaces_ok_def)
  obtain x t1 where x: "internalRemoveRoute i ?t = (x, t1)" by fastforce
  have "kept_own t t1" "\<And>r2. x = Some r2 \<Longrightarrow> derived t r2" using kept_own_remove [OF k, of i] x by simp_all
  then have "yields (kept_own t) (routeChanged i f ?t)" for f
    using k x kept_own_added by (auto simp: routeChanged_def split: option.split)
  then show ?thesis using Some c k by (auto simp: change_route_def Let_def split: option.split)
qed

section \<open>The interfaces\<close>

lemma kept_own_erase: "kept_own t t' \<Longrightarrow> yields (kept_own t) (erase_routes p t')"
  by (auto simp: erase_routes_def Let_def intro!: kept_own_subset)

lemma kept_own_mroutes:
  assumes "kept_own t t'"
  shows "yields (\<lambda>p. kept_own t (snd p)) (removeMulticastRoute i t')" "yields (\<lambda>p. kept_own t (snd p)) (deleteMulticastRoute i t')"
    "yields (kept_own t) (internalAddMulticastRoute m t')"
proof -
  obtain r t1 where r: "internalRemoveMulticastRoute i t' = (r, t1)" by fastforce
  then have "kept_own t t1" using assms by (auto simp: internalRemoveMulticastRoute_def split: option.splits)
  then show "yields (\<lambda>p. kept_own t (snd p)) (removeMulticastRoute i t')" "yields (\<lambda>p. kept_own t (snd p)) (deleteMulticastRoute i t')"
    using r by (simp_all add: removeMulticastRoute_def deleteMulticastRoute_def split: option.split)
  show "yields (kept_own t) (internalAddMulticastRoute m t')"
    unfolding internalAddMulticastRoute_def by (intro yields_rules) (simp_all add: assms)
qed

lemma kept_own_mchange:
  assumes "kept_own t t'"
  shows "yields (kept_own t) (change_mroute c i t')"
proof -
  have r: "yields (kept_own t) (multicastRouteChanged i f t1)" if k: "kept_own t t1" for f t1
  proof -
    obtain x t2 where x: "internalRemoveMulticastRoute i t1 = (x, t2)" by fastforce
    then have "kept_own t t2" using k by (auto simp: internalRemoveMulticastRoute_def split: option.splits)
    then show ?thesis using x k kept_own_mroutes(3) by (simp add: multicastRouteChanged_def split: option.split)
  qed
  have "kept_own t (t'\<lparr>multicastRoutes := ms\<rparr>)" for ms using assms by simp
  then show ?thesis unfolding change_mroute_def Let_def
    using assms r by (auto intro!: yields_rules split: option.split prod.split simp del: yields_simps(3))
qed

lemma kept_own_drop: "kept_own t t' \<Longrightarrow> yields (kept_own t) (drop_mroute_interface e i t')"
  using kept_own_mchange by (simp add: drop_mroute_interface_def split: option.split)

lemma kept_own_delete_interface:
  assumes "kept_own t t'"
  shows "yields (kept_own t) (deleteInterfaceRoutes e t')"
proof -
  have "yields (kept_own t) (efold (drop_mroute_interface e) is t1)" if "kept_own t t1" for "is" t1
    by (rule yields_efold) (use that kept_own_drop in auto)
  then show ?thesis unfolding deleteInterfaceRoutes_def
    by (simp only: yields_simps) (rule yields_mono [OF kept_own_erase [OF assms]])
qed

lemma kept_own_netmask:
  assumes "kept_own t t'" "interfaceId ie \<ge> 0"
  shows "kept_own t (add_netmask_route ie t')"
proof -
  have "derived t (netmask_route ie d n)" for d n
    using assms(2) by (simp add: derived_def netmask_route_def own_route_def this_module_def)
  then show ?thesis using assms(1) by (auto simp: add_netmask_route_def split: option.split intro!: kept_own_insert)
qed

lemma kept_own_netmasks:
  "kept_own t t' \<Longrightarrow> \<forall>ie \<in> set ies. interfaceId ie \<ge> 0 \<Longrightarrow> kept_own t (fold add_netmask_route ies t')"
  by (induction ies arbitrary: t') (simp_all add: kept_own_netmask)

lemma kept_own_update:
  assumes "kept_own t t'"
  shows "yields (kept_own t) (updateNetmaskRoutes t')"
proof -
  have "\<forall>ie \<in> set (interfaces (rt_ift t1)). interfaceId ie \<ge> 0" if "kept_own t t1" for t1
    using that by (simp add: kept_own_def ifaces_ok_def)
  then show ?thesis unfolding updateNetmaskRoutes_def
    using kept_own_netmasks by (simp only: yields_simps) (rule yields_mono [OF kept_own_erase [OF assms]], blast)
qed

lemma kept_own_signal:
  assumes "kept_own t t'"
  shows "yields (kept_own t) (rt_receiveSignal e t')"
proof (cases e)
  case (InterfaceStateChanged f i)
  have step: "yields (kept_own t) (case findInterfaceById i (rt_ift t1) of None \<Rightarrow> Inl NullPointer
      | Some ie \<Rightarrow> ebind (if \<not> isUp ie then deleteInterfaceRoutes i t1 else Inr t1) (\<lambda>t2. Inr (invalidateCache t2)))"
    if k: "kept_own t t1" for t1
  proof (rule yields_option)
    show "yields (kept_own t) (ebind (if \<not> isUp ie then deleteInterfaceRoutes i t1 else Inr t1) (\<lambda>t2. Inr (invalidateCache t2)))" for ie
      using k kept_own_delete_interface [OF k] by simp
  qed simp
  have "yields (kept_own t) (updateNetmaskRoutes (invalidateCache t'))" using kept_own_update assms by simp
  then have "yields (\<lambda>t1. yields (kept_own t) (case findInterfaceById i (rt_ift t1) of None \<Rightarrow> Inl NullPointer
      | Some ie \<Rightarrow> ebind (if \<not> isUp ie then deleteInterfaceRoutes i t1 else Inr t1) (\<lambda>t2. Inr (invalidateCache t2))))
      (updateNetmaskRoutes (invalidateCache t'))"
    by (rule yields_mono) (rule step)
  then show ?thesis using assms unfolding InterfaceStateChanged rt_receiveSignal.simps Let_def
    by (simp only: yields_simps(3) yields_simps(2) kept_own_fields split: if_split) simp
qed (use assms kept_own_update [OF assms] kept_own_delete_interface [OF assms] in simp_all)

lemma kept_own_loopback:
  assumes "kept_own t t'" and n: "\<And>t1. kept_own t t1 \<Longrightarrow> yields (kept_own t) (notify t1)"
  shows "yields (kept_own t) (set_loopback f notify t')"
proof (cases "findFirstLoopbackInterface (rt_ift t')")
  case (Some lo0)
  have i: "interfaceId lo0 \<ge> 0"
    using Some assms(1) by (auto simp: findFirstLoopbackInterface_def kept_own_def ifaces_ok_def find_Some_iff)
  have "set (somes (xs[k := Some x])) \<subseteq> insert x (set (somes xs))" for k xs and x :: NetworkInterface
    using set_update_subset_insert [of xs k "Some x"] by (auto simp: set_somes)
  then have "kept_own t (t'\<lparr>rt_ift := put_interface (lo0\<lparr>ipv4Data := d\<rparr>) (rt_ift t')\<rparr>)" for d
    using assms(1) i unfolding kept_own_def ifaces_ok_def
    by (fastforce simp: put_interface_def interfaces_def split: if_splits)
  then show ?thesis using Some n by (auto simp: set_loopback_def simp del: yields_simps(3) intro!: yields_rules)
qed (simp add: set_loopback_def)

lemma kept_own_configure:
  assumes "kept_own t t'" and n: "\<And>t1. kept_own t t1 \<Longrightarrow> yields (kept_own t) (notify t1)"
  shows "yields (kept_own t) (configureRouterId notify t')"
proof -
  have l: "kept_own t t1 \<Longrightarrow> yields (kept_own t) (set_loopback f notify t1)" for f t1
    by (rule kept_own_loopback [OF _ n])
  have "yields (kept_own t) (ebind (set_loopback f notify t') (set_loopback g notify))" for f g
    by (simp only: yields_simps) (rule yields_mono [OF l [OF assms(1)] l])
  then show ?thesis using assms(1) by (simp add: configureRouterId_def del: yields_simps(3))
qed

lemma kept_own_start: "kept_own t t' \<Longrightarrow> yields (kept_own t) (rt_start t')"
  unfolding rt_start_def yields_simps
  by (rule yields_mono [OF kept_own_configure [OF _ kept_own_signal]], assumption, assumption,
      rule yields_mono [OF kept_own_update]) simp_all

lemma kept_own_stop: "kept_own t t' \<Longrightarrow> yields (kept_own t) (rt_stop t')"
  unfolding rt_stop_def
  by (simp, rule yields_efold) (use kept_own_delete(2) in \<open>auto simp: case_prod_beta\<close>)

section \<open>The operations of other modules\<close>

definition foreign_op :: "rt_op \<Rightarrow> bool" where
  "foreign_op op = (case op of
     AddRoute r \<Rightarrow> \<not> own_route r
   | ChangeRoute c i \<Rightarrow> harmless_change c
   | InterfaceEvent ift e \<Rightarrow> (\<forall>ie \<in> set (interfaces ift). interfaceId ie \<ge> 0)
   | _ \<Rightarrow> True)"

lemma foreign_step:
  assumes "kept_own t t'" "foreign_op op"
  shows "yields (kept_own t) (rt_step op t')"
proof (cases op)
  case (AddRoute r)
  have "derived t (r\<lparr>r_id := i, r_inTable := False\<rparr>)" for i
    using assms(2) AddRoute by (simp add: derived_def foreign_op_def own_route_def)
  then show ?thesis using AddRoute kept_own_added assms(1) by (simp add: addRoute_def)
next
  case (InterfaceEvent ift e)
  have "kept_own t (t'\<lparr>rt_ift := ift\<rparr>)"
    using assms InterfaceEvent by (simp add: kept_own_def ifaces_ok_def foreign_op_def)
  then show ?thesis using InterfaceEvent kept_own_signal by simp
next
  case (FindRoute d)
  then show ?thesis using assms(1)
    by (auto simp: findBestMatchingRoute_def search_route_def Let_def split: option.split)
next
  case (AskBroadcast d)
  have "yields (\<lambda>_. kept_own t t') (collect_broadcast_addresses (interfaces (rt_ift t')))"
    using assms(1) by (simp add: yields_iff)
  then show ?thesis using assms(1) AskBroadcast by (simp add: isLocalBroadcastAddress_def)
next
  case (TimePasses dt)
  then show ?thesis using kept_own_later [OF assms(1)] by simp
next
  case (AddMulticastRoute m)
  then show ?thesis using assms(1) kept_own_mroutes(3) by (simp add: addMulticastRoute_def)
qed (use assms kept_own_delete kept_own_change kept_own_mroutes(1,2) kept_own_mchange kept_own_erase kept_own_start kept_own_stop
  in \<open>simp_all add: foreign_op_def case_prod_beta purge_def setRouterId_def\<close>)

text \<open>The module keeps its invariant when the table is exchanged for one that keeps its routes.\<close>

lemma kept_own_inv:
  assumes "aodv_inv u s" "kept_own (ao_rt s) t" "rt_inv u t"
  shows "aodv_inv u (s\<lparr>ao_rt := t\<rparr>)"
proof -
  have "host_route r \<and> ao_data s (r_id r) \<noteq> None" if m: "r \<in> set (routes t)" and o: "own_route r" for r
  proof -
    obtain r0 where r0: "r0 \<in> set (routes (ao_rt s))" "stable_route r0 r"
      using assms(2) m o unfolding kept_own_def derived_def by blast
    show ?thesis using aodv_invD(3) [OF assms(1) r0(1)] o stable_same(1,4) [OF r0(2)] stable_host [OF r0(2)] by simp
  qed
  then have "own_data (routes t) (ao_data s)" by (simp add: own_data_def)
  moreover have "arrivals_ok (s\<lparr>ao_rt := t\<rparr>)"
    using assms(1,2) unfolding aodv_inv_def arrivals_ok_def ao_now_def kept_own_def by fastforce
  ultimately show ?thesis using assms by (simp add: aodv_inv_def timers_ok_def kept_own_def)
qed

lemma table_op_inv:
  assumes "aodv_inv u s" "foreign_op op"
  shows "yields (\<lambda>t. aodv_inv u (s\<lparr>ao_rt := t\<rparr>)) (rt_step op (ao_rt s))"
proof -
  have "ifaces_ok (ao_rt s)" using assms(1) by (simp add: aodv_inv_def)
  then have k: "yields (kept_own (ao_rt s)) (rt_step op (ao_rt s))" by (simp add: foreign_step assms(2))
  have "u \<Longrightarrow> \<forall>d i. op \<noteq> ChangeRoute (SetAdminDist d) i"
    using assms(2) by (auto simp: foreign_op_def harmless_change_def)
  then have r: "yields (rt_inv u) (rt_step op (ao_rt s))" by (rule rt_step_inv [OF aodv_invD(1) [OF assms(1)]])
  show ?thesis using k r kept_own_inv [OF assms(1)] by (auto simp: yields_iff)
qed

end
