(* ===== verification/AodvRuns.thy ===== *)
theory AodvRuns
  imports AodvForeign
begin

text \<open>
  Every step of a node that runs AODV: what it keeps, what it may touch, and the theorems about runs. A run is any list of packets,
  datagrams, expiring timers, operations of other modules on the routing table and time that passes.
\<close>

section \<open>Datagrams\<close>

lemma touches_refl [simp]: "touches u A s s = aodv_inv u s"
  by (auto simp: touches_def)

lemma delay_touches:
  assumes "aodv_inv u s"
  shows "touches u A s (delayDatagram p s)"
  using assms by (simp add: touches_def delayDatagram_def aodv_inv_def timers_ok_def arrived_def delayed_for_def)

lemma ensure_route_sound:
  assumes i: "aodv_inv u s" and d_def: "d = destAddress (ipHeader p)"
  shows "sound (\<lambda>(v, s1). touches u (if hasOngoingRouteDiscovery d s then {} else {d}) s s1) (ensureRouteForDatagram p s)"
proof (cases "needs_no_route d s")
  case True
  then show ?thesis using i quiet_touches by (simp add: ensureRouteForDatagram_def d_def Let_def)
next
  case False
  let ?A = "if hasOngoingRouteDiscovery d s then {} else {d}"
  show ?thesis unfolding ensureRouteForDatagram_def Let_def d_def [symmetric] if_not_P [OF False]
  proof (rule find_inv [OF i], goal_cases)
    case (1 route s1)
    note i1 = quiet_inv [OF 1(1)]
    have on: "hasOngoingRouteDiscovery d s1 = hasOngoingRouteDiscovery d s"
      using quiet_same(4) [OF 1(1)] by (simp add: hasOngoingRouteDiscovery_def)
    have accept: "sound (\<lambda>(v, s2). touches u ?A s1 s2) (ebind (updateValidRouteLifeTime d e s1) (\<lambda>(_, s2).
        ebind (updateValidRouteLifeTime g e s2) (\<lambda>(_, s3). Inr (ACCEPT, s3))))" for e g
    proof (rule extend_then [where P = "\<lambda>s (v, s2). touches u ?A s s2", OF i1], goal_cases)
      case (1 b s2)
      show ?case
        by (rule extend_then [where P = "\<lambda>s (v, s2). touches u ?A s s2", OF quiet_inv [OF 1]])
          (auto intro: touches_after quiet_inv)
    qed (auto intro: touches_after)
    have queue: "sound (\<lambda>(v, s2). touches u ?A s1 s2) (ebind (if hasOngoingRouteDiscovery d (delayDatagram p s1)
        then Inr (delayDatagram p s1) else startRouteDiscovery d n (delayDatagram p s1)) (\<lambda>s3. Inr (QUEUE, s3)))" for n
    proof -
      have t: "touches u ?A s1 (delayDatagram p s1)" by (rule delay_touches [OF i1])
      have h: "hasOngoingRouteDiscovery d (delayDatagram p s1) = hasOngoingRouteDiscovery d s"
        using on by (simp add: hasOngoingRouteDiscovery_def delayDatagram_def)
      have "sound (touches u ?A s1) (startRouteDiscovery d n (delayDatagram p s1))" if "\<not> hasOngoingRouteDiscovery d s"
        using sound_mono [OF start_discovery_sound [OF touchesD(1) [OF t], of d n]] touches_trans [OF t] h that by simp
      then show ?thesis using t h by (cases "hasOngoingRouteDiscovery d s") simp_all
    qed
    show ?case
      by (rule sound_mono [where Q = "\<lambda>(v, s2). touches u ?A s1 s2"])
        (use accept queue touches_after [OF 1(1)] in \<open>auto simp del: sound_simps(3)\<close>)
  qed
qed

lemma forward_hook_quiet:
  assumes i: "aodv_inv u s"
  shows "sound (\<lambda>(v, s1). quiet u s s1) (ao_datagramForwardHook p s)"
proof -
  let ?P = "\<lambda>s (v, s1). quiet u s s1"
  have step: "sound (?P s0) (ebind r f)" if "sound (quiet u s0) r" "\<And>s1. quiet u s0 s1 \<Longrightarrow> sound (?P s1) (f s1)" for s0 r f
    by (rule sound_bind [OF that(1)]) (auto intro!: sound_mono [OF that(2)] intro: quiet_trans)
  have find: "sound (?P s0) (ebind (ao_findBestMatchingRoute a s0) (\<lambda>(res, s1). f res s1))"
    if "aodv_inv u s0" "\<And>res s1. quiet u s0 s1 \<Longrightarrow> sound (?P s1) (f res s1)" for s0 a f
    by (rule find_inv [OF that(1)]) (auto intro!: sound_mono [OF that(2)] intro: quiet_trans)
  have extend: "sound (?P s0) (ebind (updateValidRouteLifeTime a t s0) (\<lambda>(b, s1). f b s1))"
    if "aodv_inv u s0" "\<And>b s1. quiet u s0 s1 \<Longrightarrow> sound (?P s1) (f b s1)" for s0 a t f
    by (rule extend_then [where P = ?P, OF that]) (auto intro: quiet_trans)
  have rerr: "sound (quiet u s0) (sendRERRWhenNoRouteToForward a (refresh_inactive r d s0))" if "aodv_inv u s0" for a r d s0
  proof -
    have q: "quiet u s0 (refresh_inactive r d s0)" using that by (simp add: refresh_inactive_def)
    show ?thesis by (rule sound_mono [OF no_route_rerr_quiet [OF quiet_inv [OF q]]]) (rule quiet_trans [OF q])
  qed
  show ?thesis unfolding ao_datagramForwardHook_def Let_def
  proof (rule find [OF i], goal_cases)
    case (1 ro s1)
    note i1 = quiet_inv [OF 1]
    let ?rest = "ebind (ao_findBestMatchingRoute (destAddress (ipHeader p)) s1) (\<lambda>(routeDest, s2).
        ebind (updateValidRouteLifeTime (srcAddress (ipHeader p)) (ao_now s2 + activeRouteTimeout (ao_par s2)) s2) (\<lambda>(_, s3).
        ebind (updateValidRouteLifeTime (destAddress (ipHeader p)) (ao_now s2 + activeRouteTimeout (ao_par s2)) s3) (\<lambda>(_, s4).
        ebind (extend_hop routeDest s4) (\<lambda>s5.
        ebind (extend_hop ro s5) (\<lambda>s6.
        ebind (case routeDest of
                 None \<Rightarrow> sendRERRWhenNoRouteToForward (destAddress (ipHeader p)) s6
               | Some r \<Rightarrow>
                   (case ao_data s6 (r_id r) of
                      Some d \<Rightarrow>
                        if \<not> rd_active d then sendRERRWhenNoRouteToForward (destAddress (ipHeader p)) (refresh_inactive r d s6)
                        else if \<not> own_route r then sendRERRWhenNoRouteToForward (destAddress (ipHeader p)) s6 else Inr s6
                    | None \<Rightarrow> if \<not> own_route r then sendRERRWhenNoRouteToForward (destAddress (ipHeader p)) s6 else Inr s6)) (\<lambda>s7.
          Inr (ACCEPT, s7)))))))"
    have "sound (?P s1) ?rest"
    proof (rule find [OF i1], rule extend [OF quiet_inv], assumption, rule extend [OF quiet_inv], assumption,
        rule step [OF extend_hop_quiet [OF quiet_inv]], assumption, rule step [OF extend_hop_quiet [OF quiet_inv]], assumption,
        rule step, goal_cases)
      case (1 res s2 b s3 b' s4 s5 s6)
      note i6 = quiet_inv [OF 1(5)]
      show ?case using rerr [OF i6] no_route_rerr_quiet [OF i6] i6 by (simp split: option.split)
    qed (simp add: quiet_inv)
    moreover have "sound (?P s1) (ebind (if b then extend_hop ro s1 else Inr s1) (\<lambda>s2. Inr (ACCEPT, s2)))" for b
      by (rule step) (use extend_hop_quiet [OF i1] i1 in \<open>auto simp: quiet_inv\<close>)
    ultimately show ?case by (simp del: sound_simps(3))
  qed
qed

lemma hook_sound:
  assumes "aodv_inv u s"
  shows "sound (\<lambda>(v, s1). touches u (if hasOngoingRouteDiscovery (destAddress (ipHeader p)) s then {} else {destAddress (ipHeader p)}) s s1)
    (ao_hook ty p s)"
proof -
  have f: "sound (\<lambda>(v, s1). touches u A s s1) (ao_datagramForwardHook p s)" for A
    by (rule sound_mono [OF forward_hook_quiet [OF assms]]) (auto intro: quiet_touches)
  have "touches u A s s" for A using assms quiet_touches by simp
  then show ?thesis using ensure_route_sound [OF assms refl, of p] f by (cases ty) (simp_all add: ao_hook_def)
qed

section \<open>Timers\<close>

lemma delete_sound:
  assumes "aodv_inv u s"
  shows "sound (\<lambda>(b, t). aodv_inv u (s\<lparr>ao_rt := t\<rparr>) \<and> rt_now t = ao_now s) (deleteRoute i (ao_rt s))"
proof -
  note inv = aodv_invD [OF assms]
  have "ifaces_ok (ao_rt s)" using assms by (simp add: aodv_inv_def)
  then have k: "yields (\<lambda>p. kept_own (ao_rt s) (snd p)) (deleteRoute i (ao_rt s))" using kept_own_delete(1) by simp
  have y: "yields (\<lambda>(b, t). aodv_inv u (s\<lparr>ao_rt := t\<rparr>)) (deleteRoute i (ao_rt s))"
    using k remove_inv(2) [OF inv(1), of i] kept_own_inv [OF assms] by (auto simp: yields_iff)
  have "sound (\<lambda>(b, t). rt_now t = ao_now s) (deleteRoute i (ao_rt s))"
    using vector_okD(3) [OF inv(2)] find_route_props [of i "ao_rt s"]
    by (auto simp: deleteRoute_def internalRemoveRoute_def ao_now_def rt_emit_def invalidateCache_def assert_that_def split: option.split)
  from sound_yields [OF this y] show ?thesis by (auto elim: sound_mono)
qed

lemma table_touches:
  "aodv_inv u (s\<lparr>ao_rt := t\<rparr>) \<Longrightarrow> touches u A s (s\<lparr>ao_rt := t\<rparr>)"
  by (simp add: touches_def arrived_def delayed_for_def)

lemma expunge_route_sound:
  assumes i: "aodv_inv u s"
  shows "sound (\<lambda>(b, s1). touches u {} s s1) (expunge_route r s)"
proof -
  have d: "sound (\<lambda>(b, s1). touches u {} s s1) (ebind (deleteRoute k (ao_rt s)) (\<lambda>(deleted, t). Inr (deleted, s\<lparr>ao_rt := t\<rparr>)))" for k
    by (rule sound_bind [OF delete_sound [OF i]]) (auto intro: table_touches)
  have q: "touches u {} s (set_route_data k x s)" for k x by (rule quiet_touches) (rule quiet_set_data, simp add: i)
  have r: "touches u {} s s" using i quiet_touches by simp
  show ?thesis unfolding expunge_route_def using d q r by (auto intro!: data_then simp del: sound_simps(3))
qed

lemma expunge_loop_sound: "aodv_inv u s \<Longrightarrow> sound (touches u {} s) (expunge_loop rs s)"
proof (induction "length rs" arbitrary: rs s rule: less_induct)
  case less
  show ?case
  proof (cases rs)
    case Nil
    then show ?thesis using less.prems by simp
  next
    case (Cons r rs1)
    show ?thesis unfolding Cons expunge_loop.simps
  proof (rule sound_bind [OF expunge_route_sound [OF less.prems]], goal_cases)
    case (1 x)
    then obtain b s1 where x: "x = (b, s1)" "touches u {} s s1" by fastforce
    have "sound (touches u {} s1) (expunge_loop (if b then drop 1 rs1 else rs1) s1)"
      by (rule less.hyps) (use Cons touchesD(1) [OF x(2)] in auto)
    then show ?case unfolding x(1) prod.case by (rule sound_mono) (rule touches_trans [OF x(2)])
  qed
  qed
qed

lemma expungeRoutes_sound:
  assumes "aodv_inv u s"
  shows "sound (touches u {} s) (expungeRoutes s)"
  unfolding expungeRoutes_def
proof (rule sound_bind [OF expunge_loop_sound [OF assms]], goal_cases)
  case (1 s1)
  have q: "quiet u s1 s1" using touchesD(1) [OF 1(2)] by simp
  show ?case by (rule sound_mono [OF expunge_schedule_sound [OF q]]) (auto intro: touches_trans [OF 1(2) quiet_touches])
qed

lemma schedule_hello_sound:
  assumes "aodv_inv u s" "useHelloMessages (ao_par s)"
  shows "sound (quiet u s) (schedule_hello s)"
proof -
  have "quiet u s (s\<lparr>helloMsgTimer := v, ao_draws := n\<rparr>)" for v n
    using assms by (simp add: quiet_def aodv_inv_def timers_ok_def arrivals_ok_def arrived_def ao_now_def)
  then show ?thesis by (auto simp: schedule_hello_def intro!: sound_mono [OF schedule_sound])
qed

lemma any_active_sound: "sound (\<lambda>_. True) (any_active rs s)"
proof (induction rs)
  case (Cons r rs)
  then show ?case by (auto intro: data_sound)
qed simp

lemma hello_timer_sound:
  assumes i: "aodv_inv u s" and "useHelloMessages (ao_par s)"
  shows "sound (quiet u s) (sendHelloMessagesIfNeeded s)"
proof -
  have h: "sound (quiet u s) (ebind (if c then sendAODVPacket pk broadcastAddress 1 0 s else Inr s) schedule_hello)" for c pk
    by (rule then_quiet) (use send_quiet [OF i] i schedule_hello_sound quiet_inv quiet_same(1) assms(2) in auto)
  show ?thesis unfolding sendHelloMessagesIfNeeded_def ebind_assert [OF assms(2)]
    by (rule sound_bind [OF any_active_sound]) (rule h)
qed

lemma counter_quiet: "aodv_inv u s \<Longrightarrow> sound (quiet u s) (counter_expired s)"
  by (auto simp: counter_expired_def Let_def intro!: sound_mono [OF schedule_sound])

lemma rrepack_timer_quiet: "aodv_inv u s \<Longrightarrow> sound (quiet u s) (handleRREPACKTimer s)"
  by (auto simp: handleRREPACKTimer_def Let_def intro!: sound_mono [OF schedule_sound])

lemma blacklist_timer_quiet: "aodv_inv u s \<Longrightarrow> sound (quiet u s) (handleBlackListTimer s)"
  by (auto simp: handleBlackListTimer_def Let_def intro!: sound_mono [OF schedule_sound])

lemma start_quiet:
  assumes i: "aodv_inv u s"
  shows "sound (quiet u s) (ao_start s)"
proof -
  let ?s1 = "ao_emit (SocketBind (aodvUDPPort (ao_par s))) (s\<lparr>rebootTime := ao_now s\<rparr>)"
  have q: "quiet u s ?s1" by (simp add: i)
  have "sound (quiet u s) (if useHelloMessages (ao_par s) then schedule_hello ?s1 else Inr ?s1)"
    using sound_mono [OF schedule_hello_sound [OF quiet_inv [OF q]]] quiet_trans [OF q] q quiet_same(1) [OF q] by simp
  then have "sound (quiet u s) (ebind (if useHelloMessages (ao_par s) then schedule_hello ?s1 else Inr ?s1) (\<lambda>s2.
      ebind (scheduleAt (ao_now s2 + sim_sec) (counterTimer s2) s2) (\<lambda>timer. Inr (s2\<lparr>counterTimer := timer\<rparr>))))"
    by (rule then_quiet) (auto simp: quiet_inv intro!: sound_mono [OF schedule_sound])
  then show ?thesis by (simp only: ao_start_def Let_def)
qed

lemma clear_state_inv: "aodv_inv u s \<Longrightarrow> aodv_inv u (clearState s)"
  by (simp add: aodv_inv_def clearState_def timers_ok_def arrivals_ok_def)

lemma packet_sound:
  assumes i: "aodv_inv u s"
  shows "sound (touches u (case snd pk of RrepChunk p \<Rightarrow> {rp_destAddr p} | _ \<Rightarrow> {}) s) (processPacket a hl pk s)"
proof -
  obtain ty c where pk: "pk = (ty, c)" by fastforce
  have v: "sound (\<lambda>_. True) (checkIpVersionAndPacketTypeCompatibility ty s)"
    by (simp add: checkIpVersionAndPacketTypeCompatibility_def)
  note h = quiet_end [OF handleRREQ_quiet [OF i], where A = "{}"] handleRREP_sound [OF i]
    quiet_end [OF handleRERR_quiet [OF i], where A = "{}"] quiet_end [OF rrepack_quiet [OF i], where A = "{}"]
  show ?thesis unfolding processPacket_def pk Let_def prod.case snd_conv
    by (rule sound_bind [OF v]) (use h in \<open>simp del: sound_simps(3) split: AodvChunk.split\<close>)
qed

section \<open>Steps and runs\<close>

text \<open>The targets whose discovery a step may start or end, and the steps that keep the state of the module.\<close>

definition touched :: "aodv_op \<Rightarrow> Aodv \<Rightarrow> Ipv4Address set" where
  "touched op s = (case op of
     ReceiveControl a hl pk \<Rightarrow> (case snd pk of RrepChunk p \<Rightarrow> {rp_destAddr p} | _ \<Rightarrow> {})
   | CallHook ty p \<Rightarrow> if hasOngoingRouteDiscovery (destAddress (ipHeader p)) s then {} else {destAddress (ipHeader p)}
   | WaitExpires b \<Rightarrow> (case waitForRREPTimers s b of None \<Rightarrow> {} | Some w \<Rightarrow> if wr_timer w = Some (ao_now s) then {b} else {})
   | _ \<Rightarrow> {})"

definition own_step :: "aodv_op \<Rightarrow> bool" where
  "own_step op = (case op of TableOp _ \<Rightarrow> False | _ \<Rightarrow> True)"

definition keeps_state :: "aodv_op \<Rightarrow> bool" where
  "keeps_state op = (op \<noteq> AodvStop \<and> op \<noteq> AodvCrash)"

lemma timer_step:
  assumes q: "quiet u s s1" and f: "aodv_inv u s1 \<Longrightarrow> sound (quiet u s1) (f s1)" and i: "aodv_inv u s"
  shows "sound (touches u A s) (if b then f s1 else Inr s)"
proof -
  have "sound (touches u A s) (f s1)"
    by (rule sound_mono [OF f [OF quiet_inv [OF q]]]) (rule touches_after [OF q quiet_touches])
  then show ?thesis using i by simp
qed

lemma elapse_touches:
  assumes "aodv_inv u s"
  shows "touches u A s (s\<lparr>ao_rt := (ao_rt s)\<lparr>rt_now := ao_now s + int dt\<rparr>\<rparr>)"
proof -
  have k: "kept_own (ao_rt s) ((ao_rt s)\<lparr>rt_now := ao_now s + int dt\<rparr>)"
    using kept_own_later [of "ao_rt s" "ao_rt s" dt] assms by (simp add: aodv_inv_def ao_now_def)
  have "rt_inv u ((ao_rt s)\<lparr>rt_now := ao_now s + int dt\<rparr>)"
    by (rule time_passes_inv [OF aodv_invD(1) [OF assms]]) (simp add: ao_now_def)
  then show ?thesis by (rule table_touches [OF kept_own_inv [OF assms k]])
qed

lemma expired_quiet:
  "aodv_inv u s \<Longrightarrow> quiet u s (s\<lparr>helloMsgTimer := None\<rparr>)" "aodv_inv u s \<Longrightarrow> quiet u s (s\<lparr>expungeTimer := None\<rparr>)"
  "aodv_inv u s \<Longrightarrow> quiet u s (s\<lparr>counterTimer := None\<rparr>)" "aodv_inv u s \<Longrightarrow> quiet u s (s\<lparr>rrepAckTimer := None\<rparr>)"
  "aodv_inv u s \<Longrightarrow> quiet u s (s\<lparr>blacklistTimer := None\<rparr>)"
  by simp_all (simp add: quiet_def aodv_inv_def timers_ok_def arrived_def)

lemma wait_step:
  assumes i: "aodv_inv u s" and w: "waitForRREPTimers s b = Some w"
  shows "sound (touches u {b} s) (handleWaitForRREP (w\<lparr>wr_timer := None\<rparr>)
      (s\<lparr>waitForRREPTimers := (waitForRREPTimers s)(b \<mapsto> w\<lparr>wr_timer := None\<rparr>)\<rparr>))"
proof -
  let ?s = "s\<lparr>waitForRREPTimers := (waitForRREPTimers s)(b \<mapsto> w\<lparr>wr_timer := None\<rparr>)\<rparr>"
  have i1: "aodv_inv u ?s" using i w by (auto simp: aodv_inv_def timers_ok_def wait_ok_def)
  then have t: "touches u {b} s ?s" by (simp add: touches_def arrived_def delayed_for_def)
  show ?thesis by (rule sound_mono [OF wait_expired_sound [OF i1]]) (auto intro: touches_trans [OF t])
qed

lemma own_step_sound:
  assumes i: "aodv_inv u s" and "own_step op" "keeps_state op"
  shows "sound (touches u (touched op s) s) (aodv_step op s)"
proof (cases op)
  case (ReceiveControl a hl pk)
  then show ?thesis using packet_sound [OF i] by (simp add: touched_def)
next
  case (CallHook ty p)
  have "sound (touches u (touched op s) s) (ebind (ao_hook ty p s) (\<lambda>(res, s1). Inr (ao_emit (HookVerdict ty res p) s1)))"
  proof (rule sound_bind [OF hook_sound [OF i, of p ty]], goal_cases)
    case (1 x)
    then obtain v s1 where x: "x = (v, s1)" "touches u (touched op s) s s1" by (auto simp: touched_def CallHook)
    then have "quiet u s1 (ao_emit e s1)" for e using touchesD(1) [OF x(2)] by simp
    then show ?case using x touches_trans quiet_touches by fastforce
  qed
  then show ?thesis by (simp add: CallHook)
next
  case (LinkBroken d)
  then show ?thesis using quiet_end [OF broken_link_quiet [OF i]] by simp
next
  case HelloTimer
  have "useHelloMessages (ao_par s)" if "helloMsgTimer s = Some t" for t using i that by (simp add: aodv_inv_def timers_ok_def)
  then have "sound (touches u A s) (if helloMsgTimer s = Some (ao_now s) then sendHelloMessagesIfNeeded (s\<lparr>helloMsgTimer := None\<rparr>) else Inr s)" for A
    using timer_step [where f = sendHelloMessagesIfNeeded and b = True, OF expired_quiet(1) [OF i] hello_timer_sound i] i by simp
  then show ?thesis using HelloTimer by simp
next
  case ExpungeTimer
  have "sound (touches u {} s) (expungeRoutes (s\<lparr>expungeTimer := None\<rparr>))"
    using sound_mono [OF expungeRoutes_sound [OF quiet_inv [OF expired_quiet(2) [OF i]]]] touches_after [OF expired_quiet(2) [OF i]] by blast
  then show ?thesis using ExpungeTimer i by (simp add: touched_def)
next
  case CounterTimer
  then show ?thesis using timer_step [where f = counter_expired, OF expired_quiet(3) [OF i] counter_quiet i] by simp
next
  case RrepAckTimer
  then show ?thesis using timer_step [where f = handleRREPACKTimer, OF expired_quiet(4) [OF i] rrepack_timer_quiet i] by simp
next
  case BlackListTimer
  then show ?thesis using timer_step [where f = handleBlackListTimer, OF expired_quiet(5) [OF i] blacklist_timer_quiet i] by simp
next
  case (WaitExpires b)
  then show ?thesis using wait_step [OF i] i by (simp add: touched_def Let_def split: option.split)
next
  case (SendExpires k)
  have "quiet u s (delayed_send k s)" using i by (simp add: delayed_send_def)
  then show ?thesis using SendExpires i quiet_touches by simp
next
  case AodvStart
  then show ?thesis using quiet_end [OF start_quiet [OF i]] by simp
next
  case (Elapse dt)
  then show ?thesis using elapse_touches [OF i] by simp
qed (use assms in \<open>simp_all add: own_step_def keeps_state_def\<close>)

definition run_op :: "aodv_op \<Rightarrow> bool" where
  "run_op op = (case op of TableOp f \<Rightarrow> foreign_op f | _ \<Rightarrow> True)"

lemma step_touches:
  assumes i: "aodv_inv u s" and "run_op op" "keeps_state op"
  shows "yields (touches u (touched op s) s) (aodv_step op s)"
proof (cases "own_step op")
  case True
  then show ?thesis using sound_imp_yields own_step_sound [OF i] assms(3) by blast
next
  case False
  then obtain f where f: "op = TableOp f" by (auto simp: own_step_def split: aodv_op.splits)
  then have "yields (\<lambda>t. touches u (touched op s) s (s\<lparr>ao_rt := t\<rparr>)) (rt_step f (ao_rt s))"
    using table_op_inv [OF i, of f] assms(2) by (auto simp: run_op_def elim!: yields_mono intro: table_touches)
  then show ?thesis by (simp add: f)
qed

lemma step_inv:
  assumes i: "aodv_inv u s" and "run_op op"
  shows "yields (aodv_inv u) (aodv_step op s)"
proof (cases "keeps_state op")
  case True
  then show ?thesis using step_touches [OF assms] touchesD(1) by (blast intro: yields_mono)
next
  case False
  then show ?thesis using clear_state_inv i by (auto simp: keeps_state_def aodv_inv_def clearState_def ao_emit_def timers_ok_def arrivals_ok_def)
qed

lemma own_step_ok:
  assumes i: "aodv_inv u s" and "own_step op"
  shows "sound (\<lambda>_. True) (aodv_step op s)"
proof (cases "keeps_state op")
  case True
  show ?thesis by (rule sound_mono [OF own_step_sound [OF assms True]]) simp
qed (auto simp: keeps_state_def)

lemma new_aodv_inv:
  assumes t: "rt_initialize (empty_routing_table ift par matcher u) = Inr t" and "\<forall>ie \<in> set (interfaces ift). interfaceId ie \<ge> 0"
    and "par_ok p"
  shows "aodv_inv u (new_Aodv p t)"
proof -
  let ?e = "empty_routing_table ift par matcher u"
  have e: "kept_own ?e ?e" using assms(2) by (simp add: ifaces_ok_def empty_routing_table_def)
  have "kept_own ?e (?e\<lparr>routerId := a\<rparr>)" for a using e by simp
  then have c: "yields (kept_own ?e) (configureRouterId Inr (?e\<lparr>routerId := a\<rparr>))" "yields (kept_own ?e) (configureRouterId Inr ?e)" for a
    using kept_own_configure e by simp_all
  have "yields (kept_own ?e) (ebind (if routerIdPar ?e \<noteq> [] \<and> routerIdPar ?e \<noteq> ''auto''
      then ebind (set_text (routerIdPar ?e)) (\<lambda>a. Inr (?e\<lparr>routerId := a\<rparr>)) else Inr ?e) (configureRouterId Inr))"
    using c by (simp add: yields_iff ebind_Inr_iff) blast
  then have "yields (kept_own ?e) (if isNodeUp ?e then ebind (if routerIdPar ?e \<noteq> [] \<and> routerIdPar ?e \<noteq> ''auto''
      then ebind (set_text (routerIdPar ?e)) (\<lambda>a. Inr (?e\<lparr>routerId := a\<rparr>)) else Inr ?e) (configureRouterId Inr) else Inr ?e)"
    by (rule yields_if) (simp add: e del: kept_own_refl)
  then have "yields (kept_own ?e) (rt_initialize ?e)"
    unfolding rt_initialize_def yields_simps(3) [of _ _ updateNetmaskRoutes] by (rule yields_mono) (rule kept_own_update)
  then have "kept_own ?e t" using t by simp
  then have "\<forall>r \<in> set (routes t). \<not> own_route r" "ifaces_ok t"
    by (auto simp: kept_own_def derived_def empty_routing_table_def)
  then show ?thesis using initialized_inv [OF t] assms(3)
    by (simp add: aodv_inv_def new_Aodv_def own_data_def timers_ok_def arrivals_ok_def)
qed

lemma run_inv:
  assumes "efold aodv_step ops s = Inr s'" "aodv_inv u s" "\<forall>op \<in> set ops. run_op op"
  shows "aodv_inv u s'"
proof -
  have "yields (aodv_inv u) (efold aodv_step ops s)"
    using assms(2,3) by (intro yields_efold step_inv) auto
  then show ?thesis using assms(1) by simp
qed

end
