(* ===== verification/AodvDiscovery.thy ===== *)
theory AodvDiscovery
  imports AodvRuns
begin

text \<open>
  The discovery of a route over whole runs: the requests of a discovery are bounded, a reply ends it and releases the datagrams, a copy
  of a request is not passed on, and a discovery that meets the rate limit is never taken up again.
\<close>

section \<open>Reachable states\<close>

definition reaches :: "AodvParameters \<Rightarrow> Ipv4RoutingTable \<Rightarrow> aodv_op list \<Rightarrow> Aodv \<Rightarrow> bool" where
  "reaches p t ops s = (efold aodv_step ops (new_Aodv p t) = Inr s \<and> (\<forall>op \<in> set ops. run_op op))"

text \<open>A table as its module has initialised it, on interfaces with identifiers that are not negative.\<close>

definition fresh_table :: "bool \<Rightarrow> Ipv4RoutingTable \<Rightarrow> bool" where
  "fresh_table u t = (\<exists>ift par matcher. (\<forall>ie \<in> set (interfaces ift). interfaceId ie \<ge> 0) \<and>
     rt_initialize (empty_routing_table ift par matcher u) = Inr t)"

lemma aodv_step_keeps:
  assumes "aodv_inv u s" "run_op op" "aodv_step op s = Inr s1"
  shows "aodv_inv u s1" "ao_par s1 = ao_par s"
proof -
  show "aodv_inv u s1" using step_inv [OF assms(1,2)] assms(3) by simp
  show "ao_par s1 = ao_par s"
  proof (cases "keeps_state op")
    case True
    then show ?thesis using step_touches [OF assms(1,2)] assms(3) touchesD(2) by simp
  qed (use assms(3) in \<open>auto simp: keeps_state_def clearState_def ao_emit_def\<close>)
qed

lemma run_keeps:
  assumes "efold aodv_step ops s = Inr s1" "aodv_inv u s" "\<forall>op \<in> set ops. run_op op"
  shows "aodv_inv u s1 \<and> ao_par s1 = ao_par s"
  using assms
proof (induction ops arbitrary: s)
  case (Cons op ops)
  obtain s2 where s2: "aodv_step op s = Inr s2" "efold aodv_step ops s2 = Inr s1" using Cons.prems(1) by (auto elim: ebind_InrE)
  then show ?case using Cons.IH [OF s2(2)] aodv_step_keeps [OF Cons.prems(2) _ s2(1)] Cons.prems(3) by simp
qed simp

lemma reachable_inv:
  assumes "fresh_table u t" "par_ok p" "reaches p t ops s"
  shows "aodv_inv u s" "ao_par s = p"
proof -
  have "aodv_inv u (new_Aodv p t)" using assms(1,2) new_aodv_inv by (auto simp: fresh_table_def)
  moreover have "ao_par (new_Aodv p t) = p" by (simp add: new_Aodv_def)
  ultimately show "aodv_inv u s" "ao_par s = p" using assms(3) run_keeps by (auto simp: reaches_def)
qed

section \<open>What sending leaves alone\<close>

lemma send_frame:
  "yields (\<lambda>s1. waitForRREPTimers s1 = waitForRREPTimers s \<and> addressToRreqRetries s1 = addressToRreqRetries s \<and> ao_par s1 = ao_par s)
     (send_jittered pk dest ttl s)"
  by (auto simp: send_jittered_def draw_jitter_def sendAODVPacket_def Let_def ao_emit_def yields_iff ebind_Inr_iff split: option.splits)

lemma sendRREQ_result:
  assumes "rreqCount s < rreqRatelimit (ao_par s)"
  shows "yields (\<lambda>s1. \<exists>ttl1 w t. next_ring q ttl s = Inr (ttl1, w) \<and>
      waitForRREPTimers s1 (rq_destAddr q) = Some (w\<lparr>wr_timer := Some t\<rparr>) \<and> t \<ge> ao_now s \<and> addressToRreqRetries s1 = addressToRreqRetries s \<and>
      ao_par s1 = ao_par s) (sendRREQ q dest ttl s)"
proof (cases "next_ring q ttl s")
  case (Inr x)
  obtain ttl1 w where x: "x = (ttl1, w)" by fastforce
  have n: "\<not> rreqCount s \<ge> rreqRatelimit (ao_par s)" using assms by simp
  show ?thesis unfolding sendRREQ_def if_not_P [OF n] Inr x ebind_simps prod.case Let_def
  proof (unfold yields_simps(3) [of _ "scheduleAt _ _ _"], rule yields_mono [where Q = "\<lambda>timer. \<exists>t. timer = Some t \<and> t \<ge> ao_now s"], goal_cases)
    case (2 timer)
    then obtain t where t: "timer = Some t" "t \<ge> ao_now s" by blast
    show ?case unfolding yields_simps by (rule yields_mono [OF send_frame]) (use t in auto)
  qed (simp add: scheduleAt_def)
qed (use assms in \<open>simp add: sendRREQ_def\<close>)

lemma sendRREQ_throttled: "\<not> rreqCount s < rreqRatelimit (ao_par s) \<Longrightarrow> sendRREQ q dest ttl s = Inr s"
  by (simp add: sendRREQ_def not_less)

section \<open>The rounds of a discovery\<close>

text \<open>
  The number of requests that can still follow, counting the expiry that gives the discovery up: a round for each widening of the ring
  up to the diameter of the network, and one for each retry there.
\<close>

definition rings_left :: "AodvParameters \<Rightarrow> WaitForRrep \<Rightarrow> nat" where
  "rings_left p w = (if lastTTL w = netDiameter p then 0 else unat (ttlThreshold p) - unat (lastTTL w) + 1)"

definition rounds_left :: "AodvParameters \<Rightarrow> u32 \<Rightarrow> WaitForRrep \<Rightarrow> nat" where
  "rounds_left p n w = rings_left p w + (unat (rreqRetries p) - unat n) + 1"

definition rings_ok :: "AodvParameters \<Rightarrow> bool" where
  "rings_ok p = (ttlIncrement p \<noteq> 0 \<and> ttlThreshold p \<le> netDiameter p)"

lemma rounds_left_timer [simp]: "rounds_left p n (w\<lparr>wr_timer := t\<rparr>) = rounds_left p n w"
  by (simp add: rounds_left_def rings_left_def)

lemma unat_sum: "uint (a :: u32) + uint b < 2 ^ 32 \<Longrightarrow> unat (a + b) = unat a + unat b"
proof -
  assume "uint a + uint b < 2 ^ 32"
  then have "uint a + uint b < 4294967296" by simp
  moreover have "uint a = int (unat a)" "uint b = int (unat b)" by simp_all
  ultimately have "unat a + unat b < 4294967296" by linarith
  then show ?thesis using unat_add_lem [of a b] by simp
qed

lemma ring_grows:
  assumes p: "rings_ok p" and w: "wait_ok p m b w" and t: "wr_timer w = None" and s: "waitForRREPTimers s b = Some w" "ao_par s = p"
    and q: "rq_destAddr q = b" and r: "next_ring q 0 s = Inr (ttl1, w1)"
  shows "rings_left p w1 \<le> rings_left p w" "lastTTL w \<noteq> netDiameter p \<Longrightarrow> rings_left p w1 < rings_left p w"
proof -
  have sum: "unat (lastTTL w + ttlIncrement p) = unat (lastTTL w) + unat (ttlIncrement p)"
    using w unat_sum by (simp add: wait_ok_def)
  have i: "unat (ttlIncrement p) > 0" "unat (ttlThreshold p) \<le> unat (netDiameter p)"
    using p by (simp_all add: rings_ok_def word_le_nat_alt unat_gt_0)
  have l: "lastTTL w1 = (if lastTTL w + ttlIncrement p < ttlThreshold p then lastTTL w + ttlIncrement p else netDiameter p)"
    using r s t q by (auto simp: next_ring_def split: if_splits)
  show "lastTTL w \<noteq> netDiameter p \<Longrightarrow> rings_left p w1 < rings_left p w"
    using sum i l by (auto simp: rings_left_def word_less_nat_alt)
  show "rings_left p w1 \<le> rings_left p w"
  proof (cases "lastTTL w = netDiameter p")
    case True
    then have "\<not> lastTTL w + ttlIncrement p < ttlThreshold p" using sum i by (simp add: word_less_nat_alt)
    then show ?thesis using l True by (simp add: rings_left_def)
  qed (use \<open>lastTTL w \<noteq> netDiameter p \<Longrightarrow> rings_left p w1 < rings_left p w\<close> in simp)
qed

text \<open>A discovery whose timer has expired asks again, fewer times than before, or is given up, or meets the rate limit and has no timer any more.\<close>

definition discovery_rounds :: "Ipv4Address \<Rightarrow> Aodv \<Rightarrow> nat" where
  "discovery_rounds b s = (case (waitForRREPTimers s b, addressToRreqRetries s b) of
     (Some w, Some n) \<Rightarrow> if wr_timer w = None then 0 else rounds_left (ao_par s) n w | _ \<Rightarrow> 0)"

lemma wait_expired_rounds:
  assumes i: "aodv_inv u s" and p: "rings_ok (ao_par s)" and w: "waitForRREPTimers s b = Some w" "wr_timer w = None"
    and n: "addressToRreqRetries s b = Some n"
  shows "yields (\<lambda>s1. discovery_rounds b s1 < rounds_left (ao_par s) n w) (handleWaitForRREP w s)"
proof -
  have ok: "wait_ok (ao_par s) (Some n) b w" using i w n by (metis aodv_inv_def timers_ok_def)
  then have d: "wr_destAddr w = b" "n \<le> rreqRetries (ao_par s)" by (simp_all add: wait_ok_def)
  show ?thesis
  proof (cases "n = rreqRetries (ao_par s)")
    case True
    then show ?thesis using d n by (auto simp: handleWaitForRREP_def cancelRouteDiscovery_def end_discovery_def discovery_rounds_def rounds_left_def)
  next
    case False
    let ?n = "if lastTTL w = netDiameter (ao_par s) then n + 1 else n"
    have n1: "n < rreqRetries (ao_par s)" using False d(2) by simp
    then have lt: "unat n < unat (rreqRetries (ao_par s))" by (simp add: word_less_nat_alt)
    have up: "unat (n + 1) = unat n + 1" using unat_add_lem [of n 1] unsigned_less [of "rreqRetries (ao_par s)", where ?'a = nat] lt by simp
    have step: "yields (\<lambda>s1. discovery_rounds b s1 < rounds_left (ao_par s) n w) (sendRREQ q broadcastAddress 0
        (if lastTTL w = netDiameter (ao_par s) then s1\<lparr>addressToRreqRetries := (addressToRreqRetries s1)(b \<mapsto> n + 1)\<rparr> else s1))"
      if q: "quiet u s s1" "rq_destAddr q = b" for q s1
    proof -
      note same = quiet_same [OF q(1)]
      let ?s2 = "if lastTTL w = netDiameter (ao_par s) then s1\<lparr>addressToRreqRetries := (addressToRreqRetries s1)(b \<mapsto> n + 1)\<rparr> else s1"
      have s2: "waitForRREPTimers ?s2 b = Some w" "ao_par ?s2 = ao_par s" "addressToRreqRetries ?s2 b = Some ?n"
        using same w(1) n by simp_all
      show ?thesis
      proof (cases "rreqCount ?s2 < rreqRatelimit (ao_par ?s2)")
        case True
        show ?thesis
        proof (rule yields_mono [OF sendRREQ_result [OF True, of q 0]], elim exE conjE)
          fix s3 :: Aodv and ttl1 w1 t
          assume r: "next_ring q 0 ?s2 = Inr (ttl1, w1)" and s3: "waitForRREPTimers s3 (rq_destAddr q) = Some (w1\<lparr>wr_timer := Some t\<rparr>)"
            "addressToRreqRetries s3 = addressToRreqRetries ?s2" "ao_par s3 = ao_par ?s2"
          have g: "rings_left (ao_par s) w1 \<le> rings_left (ao_par s) w"
            "lastTTL w \<noteq> netDiameter (ao_par s) \<Longrightarrow> rings_left (ao_par s) w1 < rings_left (ao_par s) w"
            using ring_grows [OF p ok w(2) s2(1,2) q(2) r] by blast+
          have e: "discovery_rounds b s3 = rings_left (ao_par s) w1 + (unat (rreqRetries (ao_par s)) - unat ?n) + 1"
            using s3 s2 q(2) by (simp add: discovery_rounds_def rounds_left_def rings_left_def)
          show "discovery_rounds b s3 < rounds_left (ao_par s) n w"
            unfolding e rounds_left_def using g lt up by (cases "lastTTL w = netDiameter (ao_par s)") auto
        qed
      next
        case False
        have "discovery_rounds b ?s2 = 0" using s2(1,3) w(2) unfolding discovery_rounds_def by (simp only: prod.case option.case if_True simp_thms)
        then show ?thesis unfolding sendRREQ_throttled [OF False] yields_simps by (simp add: rounds_left_def)
      qed
    qed
    have "yields (\<lambda>s1. discovery_rounds b s1 < rounds_left (ao_par s) n w) (ebind (createRREQ b s) (\<lambda>(q, s1). sendRREQ q broadcastAddress 0
        (if lastTTL w = netDiameter (ao_par s) then s1\<lparr>addressToRreqRetries := (addressToRreqRetries s1)(b \<mapsto> n + 1)\<rparr> else s1)))"
      unfolding yields_simps by (rule yields_mono [OF sound_imp_yields [OF createRREQ_quiet [OF i, of b]]]) (use step in auto)
    then show ?thesis using d n False by (simp add: handleWaitForRREP_def)
  qed
qed

text \<open>How often the timer of a target expires in a run, until its discovery is over or a step fails.\<close>

definition expiry_due :: "Ipv4Address \<Rightarrow> Aodv \<Rightarrow> bool" where
  "expiry_due b s = (case waitForRREPTimers s b of None \<Rightarrow> False | Some w \<Rightarrow> wr_timer w = Some (ao_now s))"

fun expiries :: "Ipv4Address \<Rightarrow> aodv_op list \<Rightarrow> err + Aodv \<Rightarrow> nat" where
  "expiries b ops (Inl e) = 0"
| "expiries b [] (Inr s) = 0"
| "expiries b (op # ops) (Inr s) =
     (if hasOngoingRouteDiscovery b s \<and> keeps_state op
      then (if op = WaitExpires b \<and> expiry_due b s then 1 else 0) + expiries b ops (aodv_step op s) else 0)"

lemma reply_answered:
  assumes i: "aodv_inv u s" and "snd pk = RrepChunk p"
  shows "sound (answered u (rp_destAddr p) s) (processPacket a hl pk s)"
proof -
  obtain ty where pk: "pk = (ty, RrepChunk p)" using assms(2) by (cases pk) simp
  have v: "sound (\<lambda>_. True) (checkIpVersionAndPacketTypeCompatibility ty s)"
    by (simp add: checkIpVersionAndPacketTypeCompatibility_def)
  show ?thesis unfolding processPacket_def pk Let_def prod.case AodvChunk.case
    by (rule sound_bind [OF v]) (use handleRREP_answered [OF i] in simp)
qed

lemma step_rounds:
  assumes i: "aodv_inv u s" and p: "rings_ok (ao_par s)" and on: "hasOngoingRouteDiscovery b s"
    and op: "run_op op" "keeps_state op" and s1: "aodv_step op s = Inr s1" "hasOngoingRouteDiscovery b s1"
  shows "discovery_rounds b s1 + (if op = WaitExpires b \<and> expiry_due b s then 1 else 0) \<le> discovery_rounds b s"
proof -
  have t: "touches u (touched op s) s s1" using step_touches [OF i op] s1(1) by simp
  obtain w where w: "waitForRREPTimers s b = Some w" using on by (auto simp: hasOngoingRouteDiscovery_def)
  then obtain n where n: "addressToRreqRetries s b = Some n" using i by (auto simp: aodv_inv_def timers_ok_def wait_ok_def)
  show ?thesis
  proof (cases "op = WaitExpires b \<and> expiry_due b s")
    case True
    let ?w = "w\<lparr>wr_timer := None\<rparr>"
    let ?s = "s\<lparr>waitForRREPTimers := (waitForRREPTimers s)(b \<mapsto> ?w)\<rparr>"
    have i1: "aodv_inv u ?s" using i w by (auto simp: aodv_inv_def timers_ok_def wait_ok_def)
    have due: "wr_timer w = Some (ao_now s)" using True w by (simp add: expiry_due_def)
    have "yields (\<lambda>s1. discovery_rounds b s1 < rounds_left (ao_par ?s) n ?w) (handleWaitForRREP ?w ?s)"
      by (rule wait_expired_rounds [OF i1]) (use p n in simp_all)
    moreover have "handleWaitForRREP ?w ?s = Inr s1" using True s1(1) w due by (simp add: Let_def)
    ultimately show ?thesis using True w n due by (simp add: discovery_rounds_def)
  next
    case False
    show ?thesis
    proof (cases "b \<in> touched op s")
      case True
      then obtain a hl pk p where r: "op = ReceiveControl a hl pk" "snd pk = RrepChunk p" "rp_destAddr p = b"
        using False on w by (auto simp: touched_def expiry_due_def split: aodv_op.splits AodvChunk.splits if_splits option.splits)
      have "sound (answered u b s) (aodv_step op s)" using reply_answered [OF i r(2)] r(1,3) by simp
      then have "quiet u s s1" using s1 by (auto simp: answered_def hasOngoingRouteDiscovery_def)
      then have "discovery_rounds b s1 = discovery_rounds b s"
        using quiet_same [of u s s1] by (simp add: discovery_rounds_def w n)
      then show ?thesis by (simp add: r(1))
    next
      case False
      then show ?thesis using touchesD [OF t] w n \<open>\<not> (op = WaitExpires b \<and> expiry_due b s)\<close> by (simp add: discovery_rounds_def)
    qed
  qed
qed

lemma expiries_bound:
  assumes "aodv_inv u s" "rings_ok (ao_par s)" "\<forall>op \<in> set ops. run_op op"
  shows "expiries b ops (Inr s) \<le> discovery_rounds b s"
  using assms
proof (induction ops arbitrary: s)
  case (Cons op ops)
  let ?e = "if op = WaitExpires b \<and> expiry_due b s then 1 else 0 :: nat"
  show ?case
  proof (cases "hasOngoingRouteDiscovery b s \<and> keeps_state op")
    case True
    have due: "?e \<le> discovery_rounds b s"
    proof (cases "op = WaitExpires b \<and> expiry_due b s")
      case due: True
      obtain w where w: "waitForRREPTimers s b = Some w" "wr_timer w \<noteq> None"
        using due by (auto simp: expiry_due_def split: option.splits)
      then obtain n where "addressToRreqRetries s b = Some n"
        using Cons.prems(1) by (auto simp: aodv_inv_def timers_ok_def wait_ok_def)
      then show ?thesis using w by (simp add: discovery_rounds_def rounds_left_def)
    qed auto
    show ?thesis
    proof (cases "aodv_step op s")
      case (Inl e)
      then show ?thesis using True due by simp
    next
      case (Inr s1)
      have op: "run_op op" using Cons.prems(3) by simp
      have ih: "expiries b ops (Inr s1) \<le> discovery_rounds b s1"
        using Cons.IH [of s1] aodv_step_keeps [OF Cons.prems(1) op Inr] Cons.prems(2,3) by simp
      show ?thesis
      proof (cases "hasOngoingRouteDiscovery b s1")
        case on: True
        have "discovery_rounds b s1 + ?e \<le> discovery_rounds b s"
          using step_rounds [OF Cons.prems(1,2) _ op _ Inr on] True by simp
        then show ?thesis using True Inr ih by simp
      next
        case False
        then have "expiries b ops (Inr s1) = 0" by (cases ops) simp_all
        then show ?thesis using True Inr due by simp
      qed
    qed
  next
    case False
    show ?thesis unfolding expiries.simps if_not_P [OF False] by simp
  qed
qed simp

lemma discovery_rounds_bound:
  assumes "aodv_inv u s"
  shows "discovery_rounds b s \<le> unat (ttlThreshold (ao_par s)) + unat (rreqRetries (ao_par s)) + 2"
  by (auto simp: discovery_rounds_def rounds_left_def rings_left_def split: option.split)

text \<open>
  C8. A node does not ask for a route for ever. As long as a discovery goes on, its timer expires at most \<open>ttlThreshold + rreqRetries + 2\<close>
  times, whatever packets, datagrams, timers and changes of the routing table come in between: every expiry
  widens the ring, uses up a retry or gives the discovery up. The parameters must let the ring grow. (A discovery whose timer expires
  while the rate limit is reached stays open with no timer at all, as \<open>throttled_discovery_stalls\<close> shows.)
\<close>

theorem route_discovery_bounded:
  assumes "fresh_table u t" and "par_ok p" and "rings_ok p" and "reaches p t ops s" and "\<forall>op \<in> set ops'. run_op op"
  shows "expiries b ops' (Inr s) \<le> unat (ttlThreshold p) + unat (rreqRetries p) + 2"
  using expiries_bound [OF reachable_inv(1) [OF assms(1,2,4)]] discovery_rounds_bound [OF reachable_inv(1) [OF assms(1,2,4)]]
    reachable_inv(2) [OF assms(1,2,4)] assms(3,5) by (metis order_trans)

section \<open>A discovery that meets the rate limit\<close>

definition stalled :: "Ipv4Address \<Rightarrow> Aodv \<Rightarrow> bool" where
  "stalled b s = (case waitForRREPTimers s b of None \<Rightarrow> False | Some w \<Rightarrow> wr_timer w = None)"

definition no_reply_for :: "Ipv4Address \<Rightarrow> aodv_op \<Rightarrow> bool" where
  "no_reply_for b op = (case op of ReceiveControl a hl pk \<Rightarrow> (case snd pk of RrepChunk p \<Rightarrow> rp_destAddr p \<noteq> b | _ \<Rightarrow> True) | _ \<Rightarrow> True)"

lemma stalled_step:
  assumes i: "aodv_inv u s" and b: "stalled b s" and op: "run_op op" "keeps_state op" "no_reply_for b op" and s1: "aodv_step op s = Inr s1"
  shows "stalled b s1" "\<exists>ps. delayed_for b s1 = delayed_for b s @ ps"
proof -
  have t: "touches u (touched op s) s s1" using step_touches [OF i op(1,2)] s1 by simp
  have "b \<notin> touched op s"
    using b op(3) by (auto simp: touched_def stalled_def no_reply_for_def hasOngoingRouteDiscovery_def
        split: aodv_op.splits AodvChunk.splits option.splits)
  then show "stalled b s1" "\<exists>ps. delayed_for b s1 = delayed_for b s @ ps"
    using touchesD(4,6) [OF t] b by (simp_all add: stalled_def)
qed

lemma stalled_run:
  assumes "efold aodv_step ops s = Inr s1" "aodv_inv u s" "stalled b s" "\<forall>op \<in> set ops. run_op op \<and> keeps_state op \<and> no_reply_for b op"
  shows "stalled b s1 \<and> (\<exists>ps. delayed_for b s1 = delayed_for b s @ ps)"
  using assms
proof (induction ops arbitrary: s)
  case (Cons op ops)
  obtain s2 where s2: "aodv_step op s = Inr s2" "efold aodv_step ops s2 = Inr s1" using Cons.prems(1) by (auto elim: ebind_InrE)
  have op: "run_op op" "keeps_state op" "no_reply_for b op" using Cons.prems(4) by simp_all
  note st = stalled_step [OF Cons.prems(2,3) op s2(1)]
  obtain ps where ps: "delayed_for b s2 = delayed_for b s @ ps" using st(2) by blast
  have "stalled b s1 \<and> (\<exists>qs. delayed_for b s1 = delayed_for b s2 @ qs)"
    using Cons.IH [OF s2(2) aodv_step_keeps(1) [OF Cons.prems(2) op(1) s2(1)] st(1)] Cons.prems(4) by simp
  then show ?case using ps by auto
qed simp

lemma throttled_expiry:
  assumes i: "aodv_inv u s" and w: "waitForRREPTimers s b = Some w" "wr_timer w = Some (ao_now s)"
    and n: "addressToRreqRetries s b = Some n" "n \<noteq> rreqRetries (ao_par s)" and r: "rreqCount s \<ge> rreqRatelimit (ao_par s)"
    and s1: "aodv_step (WaitExpires b) s = Inr s1"
  shows "stalled b s1" "delayed_for b s1 = delayed_for b s"
proof -
  let ?w = "w\<lparr>wr_timer := None\<rparr>"
  let ?s = "s\<lparr>waitForRREPTimers := (waitForRREPTimers s)(b \<mapsto> ?w)\<rparr>"
  have i1: "aodv_inv u ?s" using i w by (auto simp: aodv_inv_def timers_ok_def wait_ok_def)
  have d: "wr_destAddr w = b" using i w by (auto simp: aodv_inv_def timers_ok_def wait_ok_def)
  have s1': "handleWaitForRREP ?w ?s = Inr s1" using s1 w by (simp add: Let_def)
  have h: "handleWaitForRREP ?w ?s = ebind (createRREQ b ?s) (\<lambda>(q, s1). sendRREQ q broadcastAddress 0
      (if lastTTL w = netDiameter (ao_par s) then s1\<lparr>addressToRreqRetries := (addressToRreqRetries s1)(b \<mapsto> n + 1)\<rparr> else s1))"
    using n d by (simp add: handleWaitForRREP_def)
  obtain q s2 where q: "createRREQ b ?s = Inr (q, s2)" "sendRREQ q broadcastAddress 0
      (if lastTTL w = netDiameter (ao_par s) then s2\<lparr>addressToRreqRetries := (addressToRreqRetries s2)(b \<mapsto> n + 1)\<rparr> else s2) = Inr s1"
    using s1' unfolding h by (auto elim!: ebind_InrE)
  have q2: "quiet u ?s s2" using createRREQ_quiet [OF i1, of b] q(1) by simp
  have c: "rreqCount s2 = rreqCount s"
    using q(1) by (auto simp: createRREQ_def ao_findBestMatchingRoute_def Let_def elim!: ebind_InrE split: option.splits)
  let ?s2 = "if lastTTL w = netDiameter (ao_par s) then s2\<lparr>addressToRreqRetries := (addressToRreqRetries s2)(b \<mapsto> n + 1)\<rparr> else s2"
  have "\<not> rreqCount ?s2 < rreqRatelimit (ao_par ?s2)" using c r quiet_same(1) [OF q2] by (simp add: not_less)
  then have "s1 = ?s2" using q(2) sendRREQ_throttled by fastforce
  then have f: "waitForRREPTimers s1 = waitForRREPTimers s2" "delayed_for b s1 = delayed_for b s2" by (simp_all add: delayed_for_def)
  show "stalled b s1" using f(1) quiet_same(4) [OF q2] by (simp add: stalled_def)
  show "delayed_for b s1 = delayed_for b s" using f(2) q2 by (simp add: quiet_def delayed_for_def)
qed

text \<open>
  A discovery whose timer expires while the rate limit of requests is reached is stuck. The code returns from \<open>sendRREQ\<close> without
  scheduling the timer again, but the entry stays in the map of ongoing discoveries: from then on no datagram for the target
  starts a new discovery, no timer ever expires, and the datagrams wait until a reply comes by chance or the node stops.
\<close>

theorem throttled_discovery_stalls:
  assumes "fresh_table u t" and "par_ok p" and "reaches p t ops s"
    and "waitForRREPTimers s b = Some w" and "wr_timer w = Some (ao_now s)" and "addressToRreqRetries s b = Some n"
    and "n \<noteq> rreqRetries p" and "rreqCount s \<ge> rreqRatelimit p"
    and "efold aodv_step (WaitExpires b # ops') s = Inr s'"
    and "\<forall>op \<in> set ops'. run_op op \<and> keeps_state op \<and> no_reply_for b op"
  shows "hasOngoingRouteDiscovery b s' \<and> \<not> expiry_due b s' \<and> (\<exists>ps. delayed_for b s' = delayed_for b s @ ps)"
proof -
  note r = reachable_inv [OF assms(1-3)]
  obtain s1 where s1: "aodv_step (WaitExpires b) s = Inr s1" "efold aodv_step ops' s1 = Inr s'"
    using assms(9) by (simp only: efold.simps) (erule ebind_InrE, blast)
  note e = throttled_expiry [OF r(1) assms(4-6) _ _ s1(1)]
  have st: "stalled b s1" "delayed_for b s1 = delayed_for b s" using e r(2) assms(7,8) by simp_all
  have "aodv_inv u s1" by (rule aodv_step_keeps(1) [OF r(1) _ s1(1)]) (simp add: run_op_def)
  from stalled_run [OF s1(2) this st(1) assms(10)] st(2) show ?thesis
    by (auto simp: stalled_def hasOngoingRouteDiscovery_def expiry_due_def split: option.splits)
qed

section \<open>Updates of routes send nothing\<close>

definition silent :: "Aodv \<Rightarrow> Aodv \<Rightarrow> bool" where
  "silent s s1 = (ao_events s1 = ao_events s \<and> delayedSends s1 = delayedSends s \<and> rreqsArrivalTime s1 = rreqsArrivalTime s)"

lemma silent_refl [simp]: "silent s s"
  by (simp add: silent_def)

lemma silent_trans: "silent a b \<Longrightarrow> silent b c \<Longrightarrow> silent a c"
  by (simp add: silent_def)

lemma silent_fields [simp]:
  "silent s (set_route_data i d s1) = silent s s1" "silent s (s1\<lparr>ao_rt := t\<rparr>) = silent s s1"
  "silent s (s1\<lparr>expungeTimer := v\<rparr>) = silent s s1"
  by (simp_all add: silent_def set_route_data_def)

lemma silent_find: "silent s0 s \<Longrightarrow> yields (\<lambda>(r, s1). silent s0 s1) (ao_findBestMatchingRoute a s)"
  by (auto simp: ao_findBestMatchingRoute_def yields_iff ebind_Inr_iff)

lemma silent_expunge: "silent s0 s \<Longrightarrow> yields (silent s0) (scheduleExpungeRoutes s)"
  by (auto simp: scheduleExpungeRoutes_def yields_iff ebind_Inr_iff split: option.splits if_splits)

lemma silent_update:
  assumes "silent s0 s"
  shows "yields (silent s0) (updateRoutingTable i h c v n a l s)"
proof -
  have c: "yields (silent s0) (ao_change_route ch i s1)" if "silent s0 s1" for ch s1
    using that by (auto simp: ao_change_route_def yields_iff ebind_Inr_iff)
  have d: "yields (silent s0) (ebind (route_data i s1) (\<lambda>d. scheduleExpungeRoutes (set_route_data i (f d) s1)))" if "silent s0 s1" for s1 f
    by (rule yields_seq) (rule silent_expunge, simp add: that)
  show ?thesis unfolding updateRoutingTable_def
    by (subst yields_simps(3), rule yields_mono [OF c [OF assms]], subst yields_simps(3), rule yields_mono [OF c], assumption, rule d)
qed

lemma silent_create: "silent s0 s \<Longrightarrow> yields (\<lambda>(i, s1). silent s0 s1) (createRoute b h c v n a l s)"
  unfolding createRoute_def Let_def by (rule yields_seq) (auto intro!: yields_mono [OF silent_expunge])

lemma silent_previous_hop:
  assumes "silent s0 s"
  shows "yields (silent s0) (update_previous_hop a n s)"
proof -
  have "yields (silent s0) (ebind (createRoute a a 1 False n True l s1) (\<lambda>(_, s2). Inr s2))" if "silent s0 s1" for l s1
    unfolding yields_simps by (rule yields_mono [OF silent_create [OF that]]) auto
  then show ?thesis unfolding update_previous_hop_def yields_simps(3) [of _ "ao_findBestMatchingRoute _ _"]
    using silent_update by (intro yields_mono [OF silent_find [OF assms]]) (auto simp: Let_def simp del: yields_simps(3) split: option.split)
qed

lemma silent_forward_route:
  assumes "silent s0 s"
  shows "yields (\<lambda>(i, s1). silent s0 s1) (update_forward_route p a s)"
proof -
  have "yields (\<lambda>(i, s1). silent s0 s1) (ebind (updateRoutingTable i h c v n x l s1) (\<lambda>s2. Inr (i, s2)))" if "silent s0 s1" for i h c v n x l s1
    unfolding yields_simps by (rule yields_mono [OF silent_update [OF that]]) auto
  then show ?thesis unfolding update_forward_route_def yields_simps(3) [of _ "ao_findBestMatchingRoute _ _"]
    using silent_create
    by (intro yields_mono [OF silent_find [OF assms]]) (auto simp: Let_def simp del: yields_simps(3) split: option.split intro!: yields_seq)
qed

section \<open>A request is passed on once\<close>

lemma request_seen:
  assumes i: "aodv_inv u s" and b: "map_of (blacklist s) a = None" and n: "rreqsArrivalTime s (rq_originatorAddr q, rq_rreqId q) = None"
  shows "yields (\<lambda>s1. \<exists>t \<ge> ao_now s. rreqsArrivalTime s1 (rq_originatorAddr q, rq_rreqId q) = Some t) (handleRREQ q a ttl s)"
proof -
  let ?k = "(rq_originatorAddr q, rq_rreqId q)"
  have p: "yields (\<lambda>s1. silent s s1 \<and> quiet u s s1) (update_previous_hop a (rq_originatorSeqNum q) s)"
    using silent_previous_hop [of s s] sound_imp_yields [OF previous_hop_quiet [OF i]] by (auto simp: yields_iff)
  have r: "yields (\<lambda>s2. \<exists>t \<ge> ao_now s. rreqsArrivalTime s2 ?k = Some t)
      (process_rreq q' a ttl (s1\<lparr>rreqsArrivalTime := (rreqsArrivalTime s1)(?k \<mapsto> ao_now s1)\<rparr>))" if s1: "quiet u s s1" for q' s1
  proof -
    let ?s2 = "s1\<lparr>rreqsArrivalTime := (rreqsArrivalTime s1)(?k \<mapsto> ao_now s1)\<rparr>"
    have q2: "quiet u s1 ?s2" by (rule quiet_seen) (simp add: quiet_inv [OF s1])
    show ?thesis
    proof (rule yields_mono [OF sound_imp_yields [OF process_rreq_quiet [OF quiet_inv [OF q2]]]])
      fix s3 assume "quiet u ?s2 s3"
      then have "arrived ?s2 s3" by (simp add: quiet_def)
      then show "\<exists>t \<ge> ao_now s. rreqsArrivalTime s3 ?k = Some t" using quiet_same(2) [OF s1] by (fastforce simp: arrived_def)
    qed
  qed
  have nb: "\<not> map_of (blacklist s) a \<noteq> None" using b by simp
  show ?thesis unfolding handleRREQ_def if_not_P [OF nb] Let_def yields_simps(3) [of _ "update_previous_hop _ _ _"]
  proof (rule yields_mono [OF p])
    fix s1 assume s1: "silent s s1 \<and> quiet u s s1"
    then have "rreqsArrivalTime s1 ?k = None" using n by (simp add: silent_def)
    then show "yields (\<lambda>s1. \<exists>t \<ge> ao_now s. rreqsArrivalTime s1 ?k = Some t)
        (if case rreqsArrivalTime s1 ?k of None \<Rightarrow> False | Some t \<Rightarrow> ao_now s1 - t \<le> pathDiscoveryTime (ao_par s1) then Inr s1
         else process_rreq (q\<lparr>rq_hopCount := rq_hopCount q + 1\<rparr>) a ttl (s1\<lparr>rreqsArrivalTime := (rreqsArrivalTime s1)(?k \<mapsto> ao_now s1)\<rparr>))"
      using r s1 by simp
  qed
qed

lemma copy_silent:
  assumes i: "aodv_inv u s" and t: "rreqsArrivalTime s (rq_originatorAddr q, rq_rreqId q) = Some t"
    and n: "ao_now s \<le> t + pathDiscoveryTime (ao_par s)"
  shows "yields (silent s) (handleRREQ q a ttl s)"
proof (cases "map_of (blacklist s) a = None")
  case True
  have p: "yields (\<lambda>s1. silent s s1 \<and> quiet u s s1) (update_previous_hop a (rq_originatorSeqNum q) s)"
    using silent_previous_hop [of s s] sound_imp_yields [OF previous_hop_quiet [OF i]] by (auto simp: yields_iff)
  have nb: "\<not> map_of (blacklist s) a \<noteq> None" using True by simp
  have w: "ao_now s - t \<le> pathDiscoveryTime (ao_par s)" using n by simp
  show ?thesis unfolding handleRREQ_def if_not_P [OF nb] Let_def yields_simps(3) [of _ "update_previous_hop _ _ _"]
    by (rule yields_mono [OF p]) (use t w quiet_same(1,2) in \<open>auto simp: silent_def\<close>)
qed (simp add: handleRREQ_def)

lemma run_arrived:
  assumes "efold aodv_step ops s = Inr s1" "aodv_inv u s" "\<forall>op \<in> set ops. run_op op \<and> keeps_state op"
  shows "arrived s s1"
  using assms
proof (induction ops arbitrary: s)
  case (Cons op ops)
  obtain s2 where s2: "aodv_step op s = Inr s2" "efold aodv_step ops s2 = Inr s1" using Cons.prems(1) by (auto elim: ebind_InrE)
  have op: "run_op op" "keeps_state op" using Cons.prems(3) by simp_all
  have "touches u (touched op s) s s2" using step_touches [OF Cons.prems(2) op] s2(1) by simp
  moreover have "arrived s2 s1" using Cons.IH [OF s2(2) aodv_step_keeps(1) [OF Cons.prems(2) op(1) s2(1)]] Cons.prems(3) by simp
  ultimately show ?case using arrived_trans touchesD(3) by blast
qed simp

text \<open>
  A request is passed on or answered once. After a node has taken the first copy of a request from a neighbour that is not on
  its blacklist, a further copy, from whatever neighbour and with whatever hop count, makes it send nothing and schedule no packet, as long
  as the path discovery time has not passed, whatever happens in between, a stop of the node excepted.
\<close>

theorem request_handled_once:
  assumes "fresh_table u t" and "par_ok p" and "reaches p t ops s"
    and "map_of (blacklist s) a = None" and "rreqsArrivalTime s (rq_originatorAddr q, rq_rreqId q) = None"
    and "aodv_step (ReceiveControl a hl (RREQ, RreqChunk q)) s = Inr s1"
    and "efold aodv_step ops' s1 = Inr s2" and "\<forall>op \<in> set ops'. run_op op \<and> keeps_state op"
    and "ao_now s2 \<le> ao_now s + pathDiscoveryTime p"
    and "rq_originatorAddr q' = rq_originatorAddr q" and "rq_rreqId q' = rq_rreqId q"
    and "aodv_step (ReceiveControl a' hl' (RREQ, RreqChunk q')) s2 = Inr s3"
  shows "ao_events s3 = ao_events s2 \<and> delayedSends s3 = delayedSends s2"
proof -
  note r = reachable_inv [OF assms(1-3)]
  have "is_ok (checkIpVersionAndPacketTypeCompatibility RREQ s)" using assms(6) by (auto simp: processPacket_def is_ok_iff ebind_Inr_iff)
  then have h: "handleRREQ q a (of_int (hl - 1)) s = Inr s1"
    using assms(6) by (auto simp: processPacket_def is_ok_iff ebind_Inr_iff)
  obtain t1 where t1: "t1 \<ge> ao_now s" "rreqsArrivalTime s1 (rq_originatorAddr q, rq_rreqId q) = Some t1"
    using request_seen [OF r(1) assms(4,5), of "of_int (hl - 1)"] h by auto
  have i1: "aodv_inv u s1" "ao_par s1 = p" using aodv_step_keeps [OF r(1) _ assms(6)] r(2) by (simp_all add: run_op_def)
  have i2: "aodv_inv u s2" "ao_par s2 = p" using run_keeps [OF assms(7) i1(1)] assms(8) i1(2) by simp_all
  obtain t2 where t2: "t2 \<ge> t1" "rreqsArrivalTime s2 (rq_originatorAddr q', rq_rreqId q') = Some t2"
    using run_arrived [OF assms(7) i1(1) assms(8)] t1(2) unfolding arrived_def assms(10,11) by blast
  have "yields (silent s2) (handleRREQ q' a' (of_int (hl' - 1)) s2)"
    by (rule copy_silent [OF i2(1) t2(2)]) (use t1 t2 assms(9) i2(2) in simp)
  moreover have "handleRREQ q' a' (of_int (hl' - 1)) s2 = Inr s3"
    using assms(12) by (auto simp: processPacket_def ebind_Inr_iff)
  ultimately show ?thesis by (simp add: silent_def)
qed

section \<open>A reply completes the discovery\<close>

definition routed :: "nat \<Rightarrow> Ipv4Address \<Rightarrow> Ipv4Address \<Rightarrow> u32 \<Rightarrow> u32 \<Rightarrow> simtime \<Rightarrow> Aodv \<Rightarrow> bool" where
  "routed i dest hop hops seqNum lifeTime s = (\<exists>r d. find_route i (ao_rt s) = Some r \<and> own_route r \<and> r_dest r = dest \<and> r_gateway r = hop \<and>
     r_metric r = sint hops \<and> ao_data s i = Some d \<and> rd_active d \<and> rd_validDestNum d \<and> rd_destSeqNum d = seqNum \<and> rd_lifeTime d = lifeTime)"

lemma expunge_schedule_keeps: "yields (\<lambda>s1. ao_rt s1 = ao_rt s \<and> ao_data s1 = ao_data s) (scheduleExpungeRoutes s)"
  by (auto simp: scheduleExpungeRoutes_def yields_iff ebind_Inr_iff split: option.splits if_splits)

lemma update_routed:
  assumes i: "aodv_inv u s" and l: "leads_to i dest s"
  shows "yields (routed i dest hop hops seqNum lifeTime) (updateRoutingTable i hop hops True seqNum True lifeTime s)"
proof -
  obtain r where r: "find_route i (ao_rt s) = Some r" "own_route r" "r_dest r = dest" using l by (auto simp: leads_to_def)
  note inv = aodv_invD [OF i]
  have m: "r \<in> set (routes (ao_rt s))" "r_id r = i" using find_route_props [OF r(1)] by simp_all
  obtain t where t: "change_route (SetGateway hop) i (ao_rt s) = Inr t"
      "set (routes t) = insert (r\<lparr>r_gateway := hop\<rparr>) (set (routes (ao_rt s)) - {r})" "same_node (ao_rt s) t"
    by (rule set_gateway [OF inv(2) r(1)])
  have ti: "vector_ok u t" using change_route_inv [OF inv(1), of "SetGateway hop" i] t(1) rt_inv_vector by simp
  have r1: "find_route i t = Some (r\<lparr>r_gateway := hop\<rparr>)" using find_route_iff [OF ti] t(2) m(2) by simp
  have h: "host_route (r\<lparr>r_gateway := hop\<rparr>)" using inv(3) [OF m(1) r(2)] by (simp add: host_route_def)
  obtain t2 where t2: "change_route (SetMetric (sint hops)) i t = Inr t2"
      "set (routes t2) = insert (r\<lparr>r_gateway := hop, r_metric := sint hops\<rparr>) (set (routes t) - {r\<lparr>r_gateway := hop\<rparr>})" "same_node t t2"
    using set_metric [OF ti r1 h, of "sint hops"] by (metis Ipv4Route.update_convs(7))
  have "rt_inv u t" using change_route_inv [OF inv(1), of "SetGateway hop" i] t(1) by simp
  then have "vector_ok u t2" using change_route_inv [of u t "SetMetric (sint hops)" i] t2(1) rt_inv_vector by simp
  then have r2: "find_route i t2 = Some (r\<lparr>r_gateway := hop, r_metric := sint hops\<rparr>)" using find_route_iff t2(2) m(2) by simp
  have "yields (routed i dest hop hops seqNum lifeTime) (scheduleExpungeRoutes (set_route_data i (d\<lparr>rd_lifeTime := lifeTime,
      rd_destSeqNum := seqNum, rd_active := True, rd_validDestNum := True\<rparr>) (s\<lparr>ao_rt := t2\<rparr>)))" for d
    by (rule yields_mono [OF expunge_schedule_keeps])
      (use r2 r(2,3) in \<open>auto simp: routed_def set_route_data_def own_route_def\<close>)
  then show ?thesis using t(1) t2(1) by (auto simp: updateRoutingTable_def ao_change_route_def simp del: yields_simps(3) intro!: yields_seq)
qed

text \<open>What the steps of a reply up to the end of the discovery do.\<close>

lemma reply_update:
  assumes i: "aodv_inv u s" and l: "leads_to i dest s"
  shows "yields (\<lambda>s1. quiet u s s1 \<and> silent s s1 \<and> routed i dest hop hops seqNum lifeTime s1)
    (updateRoutingTable i hop hops True seqNum True lifeTime s)"
  using sound_imp_yields [OF update_quiet [OF i leads_to_pointer [OF l]]] update_routed [OF assms] silent_update [OF silent_refl]
  by (auto simp: yields_iff)

lemma reply_route:
  assumes i: "aodv_inv u s"
  shows "yields (\<lambda>(k, s1). quiet u s s1 \<and> silent s s1 \<and> leads_to k (rp_destAddr p) s1) (update_forward_route p a s)"
  using sound_imp_yields [OF forward_route_points [OF i]] silent_forward_route [OF silent_refl]
  by (fastforce simp: yields_iff points_def)

lemma end_discovery_routed: "end_discovery f target s = Inr s1 \<Longrightarrow> routed i dest hop hops seqNum lifeTime s1 = routed i dest hop hops seqNum lifeTime s"
  by (auto simp: end_discovery_def routed_def fold_emit_events elim!: ebind_InrE)

lemma delayed_others: "b \<noteq> target \<Longrightarrow> filter (\<lambda>e. fst e \<noteq> target \<and> fst e = b) es = filter (\<lambda>e. fst e = b) es"
  by (induction es) auto

lemma delayed_none: "filter (\<lambda>e. fst e = target) (filter (\<lambda>e. fst e \<noteq> target) es) = []"
  by (induction es) auto

definition completed_by :: "bool \<Rightarrow> Rrep \<Rightarrow> Ipv4Address \<Rightarrow> Aodv \<Rightarrow> Aodv \<Rightarrow> bool" where
  "completed_by u m a s s' = (\<exists>s1 k. quiet u s s1 \<and> silent s s1 \<and> completeRouteDiscovery (rp_destAddr m) s1 = Inr s' \<and>
     routed k (rp_destAddr m) a (rp_hopCount m + 1) (rp_destSeqNum m) (ao_now s + rp_lifeTime m) s1)"

lemma completed_after:
  assumes "quiet u s s1" "silent s s1" "completed_by u m a s1 s'"
  shows "completed_by u m a s s'"
  using assms(3) quiet_trans [OF assms(1)] silent_trans [OF assms(2)] quiet_same(2) [OF assms(1)] unfolding completed_by_def by metis

lemma complete_completed:
  assumes i: "aodv_inv u s" and l: "leads_to k (rp_destAddr m) s"
  shows "yields (completed_by u m a s) (ebind (updateRoutingTable k a (rp_hopCount m + 1) True (rp_destSeqNum m) True (ao_now s + rp_lifeTime m) s)
      (completeRouteDiscovery (rp_destAddr m)))"
  unfolding yields_simps
  by (rule yields_mono [OF reply_update [OF i l]]) (auto simp: completed_by_def yields_iff)

lemma originator_completed:
  assumes i: "aodv_inv u s" and l: "leads_to k (rp_destAddr m) s" and me: "getSelfIPAddress s = rp_originatorAddr m"
    and on: "hasOngoingRouteDiscovery (rp_destAddr m) s"
  shows "yields (completed_by u m a s) (ebind (ao_findBestMatchingRoute (rp_originatorAddr m) s) (\<lambda>(originatorRoute, s3).
          if getSelfIPAddress s3 \<noteq> rp_originatorAddr m then
            case originatorRoute of None \<Rightarrow> Inr s3 | Some ro \<Rightarrow> if own_route ro then f ro s3 else Inr s3
          else if hasOngoingRouteDiscovery (rp_destAddr m) s3 then
            ebind (updateRoutingTable k a (rp_hopCount m + 1) True (rp_destSeqNum m) True (ao_now s3 + rp_lifeTime m) s3)
              (completeRouteDiscovery (rp_destAddr m))
          else Inr s3))"
  unfolding yields_simps(3) [of _ "ao_findBestMatchingRoute _ _"]
proof (rule yields_mono [where Q = "\<lambda>(res, s3). quiet u s s3 \<and> silent s s3"])
  show "yields (\<lambda>(res, s3). quiet u s s3 \<and> silent s s3) (ao_findBestMatchingRoute (rp_originatorAddr m) s)"
    using sound_imp_yields [OF find_sound [where u = u and ?s0.0 = s]] i silent_find [OF silent_refl]
    by (fastforce simp: yields_iff)
  fix x :: "Ipv4Route option \<times> Aodv"
  assume "case x of (res, s3) \<Rightarrow> quiet u s s3 \<and> silent s s3"
  then obtain res s3 where x: "x = (res, s3)" "quiet u s s3" "silent s s3" by (cases x) simp
  have c: "getSelfIPAddress s3 = rp_originatorAddr m" "hasOngoingRouteDiscovery (rp_destAddr m) s3"
    using quiet_same(3,4) [OF x(2)] me on by (simp_all add: hasOngoingRouteDiscovery_def)
  have "yields (completed_by u m a s) (ebind (updateRoutingTable k a (rp_hopCount m + 1) True (rp_destSeqNum m) True
      (ao_now s3 + rp_lifeTime m) s3) (completeRouteDiscovery (rp_destAddr m)))"
    by (rule yields_mono [OF complete_completed [OF quiet_inv [OF x(2)] quiet_leads_to [OF l x(2)]]])
      (rule completed_after [OF x(2,3)])
  then show "yields (completed_by u m a s) (case x of (originatorRoute, s3) \<Rightarrow>
          if getSelfIPAddress s3 \<noteq> rp_originatorAddr m then
            case originatorRoute of None \<Rightarrow> Inr s3 | Some ro \<Rightarrow> if own_route ro then f ro s3 else Inr s3
          else if hasOngoingRouteDiscovery (rp_destAddr m) s3 then
            ebind (updateRoutingTable k a (rp_hopCount m + 1) True (rp_destSeqNum m) True (ao_now s3 + rp_lifeTime m) s3)
              (completeRouteDiscovery (rp_destAddr m))
          else Inr s3)"
    unfolding x(1) prod.case using c by (simp only: simp_thms if_False if_True)
qed

lemma handleRREP_completes:
  assumes i: "aodv_inv u s" and m: "rp_originatorAddr m = getSelfIPAddress s" "\<not> ipv4_isUnspecified (rp_originatorAddr m)"
    and on: "hasOngoingRouteDiscovery (rp_destAddr m) s"
  shows "yields (completed_by u m a s) (handleRREP m a s)"
proof -
  let ?m = "m\<lparr>rp_hopCount := rp_hopCount m + 1\<rparr>"
  have f: "rp_originatorAddr ?m = rp_originatorAddr m" "rp_destAddr ?m = rp_destAddr m" "rp_hopCount ?m = rp_hopCount m + 1"
    "rp_destSeqNum ?m = rp_destSeqNum m" "rp_lifeTime ?m = rp_lifeTime m" by simp_all
  have prev: "yields (\<lambda>s1. quiet u s s1 \<and> silent s s1) (update_previous_hop a (rp_destSeqNum m) s)"
    using silent_previous_hop [of s s] sound_imp_yields [OF previous_hop_quiet [OF i]] by (auto simp: yields_iff)
  have route: "yields (\<lambda>(k, s2). quiet u s s2 \<and> silent s s2 \<and> leads_to k (rp_destAddr m) s2) (update_forward_route ?m a s1)"
    if s1: "quiet u s s1" "silent s s1" for s1
    using reply_route [OF quiet_inv [OF s1(1)], of ?m a] unfolding f
    by (rule yields_mono) (use quiet_trans [OF s1(1)] silent_trans [OF s1(2)] in auto)
  have same: "getSelfIPAddress s2 = rp_originatorAddr m" "hasOngoingRouteDiscovery (rp_destAddr m) s2" if "quiet u s s2" for s2
    using quiet_same(3,4) [OF that] m(1) on by (simp_all add: hasOngoingRouteDiscovery_def)
  show ?thesis unfolding handleRREP_def if_not_P [OF m(2)] Let_def yields_simps(3) [of _ "update_previous_hop _ _ _"] f
      yields_simps(3) [of _ "update_forward_route _ _ _"]
  proof (rule yields_mono [OF prev], elim conjE, rule yields_mono [OF route], assumption, assumption, goal_cases)
    case (1 s1 x)
    then obtain k s2 where x: "x = (k, s2)" "quiet u s s2" "silent s s2" "leads_to k (rp_destAddr m) s2" by (cases x) simp
    show ?case unfolding x(1) prod.case
      by (rule yields_mono [OF originator_completed [OF quiet_inv [OF x(2)] x(4) same [OF x(2)]]]) (rule completed_after [OF x(2,3)])
  qed
qed

text \<open>
  C7. The reply that a node has asked for ends its discovery. The datagrams that wait for the destination are given back to the
  network layer in the order in which they came, none stays, the timer is gone, and what concerns other targets is as before. The node has
  a valid and active route to the destination over the neighbour that sent the reply, with one hop more than the reply says, and with the sequence
  number and the lifetime of the reply.
\<close>

theorem reply_completes_discovery:
  assumes "fresh_table u t" and "par_ok p" and "reaches p t ops s"
    and "rp_originatorAddr m = getSelfIPAddress s" and "\<not> ipv4_isUnspecified (rp_originatorAddr m)"
    and "hasOngoingRouteDiscovery (rp_destAddr m) s"
    and "aodv_step (ReceiveControl a hl (RREP, RrepChunk m)) s = Inr s'"
  shows "\<not> hasOngoingRouteDiscovery (rp_destAddr m) s' \<and> delayed_for (rp_destAddr m) s' = [] \<and>
    ao_events s' = ao_events s @ map ReinjectQueuedDatagram (delayed_for (rp_destAddr m) s) \<and>
    (\<forall>b. b \<noteq> rp_destAddr m \<longrightarrow> delayed_for b s' = delayed_for b s \<and> waitForRREPTimers s' b = waitForRREPTimers s b) \<and>
    (\<exists>k. routed k (rp_destAddr m) a (rp_hopCount m + 1) (rp_destSeqNum m) (ao_now s + rp_lifeTime m) s')"
proof -
  note i = reachable_inv(1) [OF assms(1-3)]
  have "handleRREP m a s = Inr s'" using assms(7) by (auto simp: processPacket_def ebind_Inr_iff)
  then obtain s1 k where s1: "quiet u s s1" "silent s s1" "completeRouteDiscovery (rp_destAddr m) s1 = Inr s'"
      "routed k (rp_destAddr m) a (rp_hopCount m + 1) (rp_destSeqNum m) (ao_now s + rp_lifeTime m) s1"
    using handleRREP_completes [OF i assms(4-6), of a] by (auto simp: completed_by_def)
  have q: "waitForRREPTimers s1 = waitForRREPTimers s" "targetAddressToDelayedPackets s1 = targetAddressToDelayedPackets s"
    using s1(1) by (simp_all add: quiet_def)
  have "routed k (rp_destAddr m) a (rp_hopCount m + 1) (rp_destSeqNum m) (ao_now s + rp_lifeTime m) s'"
    using end_discovery_routed s1(3,4) unfolding completeRouteDiscovery_def by blast
  moreover have "\<not> hasOngoingRouteDiscovery (rp_destAddr m) s' \<and> delayed_for (rp_destAddr m) s' = [] \<and>
      ao_events s' = ao_events s @ map ReinjectQueuedDatagram (delayed_for (rp_destAddr m) s) \<and>
      (\<forall>b. b \<noteq> rp_destAddr m \<longrightarrow> delayed_for b s' = delayed_for b s \<and> waitForRREPTimers s' b = waitForRREPTimers s b)"
    using s1(2,3) q unfolding completeRouteDiscovery_def end_discovery_def
    by (auto simp: fold_emit_events silent_def hasOngoingRouteDiscovery_def delayed_for_def delayed_others delayed_none elim!: ebind_InrE)
  ultimately show ?thesis by blast
qed

section \<open>No assertion fails\<close>


section \<open>Examples\<close>

text \<open>A node with the address \<open>10.0.0.1\<close> on a wireless interface; times are in milliseconds.\<close>

definition mesh_nic :: NetworkInterface where
  "mesh_nic = \<lparr>interfaceId = 100, interfaceName = ''wlan0'', if_mtu = 1500, if_state = IF_UP, if_carrier = True,
     if_broadcast = True, if_multicast = True, if_pointToPoint = False, if_loopback = False,
     if_macAddr = MacAddress 0x0AAA00000001, multicastAddresses = [],
     ipv4Data = Some (new_interface_data\<lparr>inetAddr := 0x0A000001, inetMask := 0xFFFFFF00\<rparr>)\<rparr>"

definition mesh_start :: Ipv4RoutingTable where
  "mesh_start = empty_routing_table \<lparr>idToInterface = [Some mesh_nic], tmpNumInterfaces = -1, tmpInterfaceList = None\<rparr>
     ''auto'' (\<lambda>_. False) False"

definition mesh_table :: Ipv4RoutingTable where
  "mesh_table = (case rt_initialize mesh_start of Inr t \<Rightarrow> t | Inl _ \<Rightarrow> mesh_start)"

definition mesh_par :: "u32 \<Rightarrow> AodvParameters" where
  "mesh_par limit = \<lparr>interfacePar = ''wlan0'', rerrRatelimit = 10, aodvUDPPort = 654, askGratuitousRREP = False, useHelloMessages = False,
     destinationOnlyFlag = False, activeRouteTimeout = 3000, helloInterval = 1000, netDiameter = 35, rreqRetries = 2,
     rreqRatelimit = limit, timeoutBuffer = 2, ttlStart = 2, ttlIncrement = 2, ttlThreshold = 7, allowedHelloLoss = 2,
     nodeTraversalTime = 40, deletePeriod = 15000, myRouteTimeout = 6000, blacklistTimeout = 5600, netTraversalTime = 2800,
     nextHopWait = 50, pathDiscoveryTime = 5600, usingIpv6 = False, jitterPar = (\<lambda>_. 0), periodicJitter = (\<lambda>_. 0)\<rparr>"

definition mesh_datagram :: Packet where
  "mesh_datagram = \<lparr>ipHeader = new_Ipv4Header\<lparr>srcAddress := 0x0A000001, destAddress := 0x0A000002\<rparr>, payload = [7],
     tags = no_tags, bitError = False\<rparr>"

lemma mesh_fresh: "fresh_table False mesh_table"
proof -
  have "case rt_initialize mesh_start of Inr _ \<Rightarrow> True | Inl _ \<Rightarrow> False" by code_simp
  then have "rt_initialize mesh_start = Inr mesh_table" by (simp add: mesh_table_def split: sum.splits)
  then show ?thesis unfolding fresh_table_def mesh_start_def
    by (intro exI conjI) (auto simp: interfaces_def mesh_nic_def)
qed

lemma mesh_par_ok: "par_ok (mesh_par n)" "rings_ok (mesh_par n)"
  by (simp_all add: par_ok_def rings_ok_def mesh_par_def)

text \<open>The first datagram for \<open>10.0.0.2\<close> starts a discovery.\<close>

definition mesh_ops :: "aodv_op list" where
  "mesh_ops = [AodvStart, CallHook LOCALOUT mesh_datagram]"

lemma mesh_run_op: "\<forall>op \<in> set mesh_ops. run_op op"
  by (simp add: mesh_ops_def run_op_def)

definition mesh_silence :: "aodv_op list" where
  "mesh_silence = concat (map (\<lambda>t. [Elapse t, WaitExpires 0x0A000002]) [320, 480])"

definition mesh_reply :: Rrep where
  "mesh_reply = \<lparr>rp_ackRequiredFlag = False, rp_hopCount = 1, rp_destAddr = 0x0A000002, rp_destSeqNum = 5, rp_originatorAddr = 0x0A000001,
     rp_lifeTime = 6000\<rparr>"

definition mesh_rreq :: "u32 \<Rightarrow> Rreq" where
  "mesh_rreq hops = \<lparr>rq_gratuitousRREPFlag = False, rq_destOnlyFlag = False, rq_unknownSeqNumFlag = True, rq_hopCount = hops, rq_rreqId = 3,
     rq_destAddr = 0x0A000009, rq_destSeqNum = 0, rq_originatorAddr = 0x0A000005, rq_originatorSeqNum = 4\<rparr>"

text \<open>Equations for evaluation: the rest of a function is looked at only when there is a result to go on with.\<close>

fun found_datagram :: "Packet \<Rightarrow> err + Ipv4Route option \<times> Aodv \<Rightarrow> err + HookResult \<times> Aodv" where
  "found_datagram p (Inl e) = Inl e"
| "found_datagram p (Inr (route, s1)) =
     (let dest = destAddress (ipHeader p); routeData = (case route of None \<Rightarrow> None | Some r \<Rightarrow> ao_data s1 (r_id r));
            expiry = ao_now s1 + activeRouteTimeout (ao_par s1);
            isActive = (case routeData of None \<Rightarrow> False | Some d \<Rightarrow> rd_active d);
            isInactive = (case routeData of None \<Rightarrow> False | Some d \<Rightarrow> \<not> rd_active d);
            nextHop = (case route of None \<Rightarrow> 0 | Some r \<Rightarrow> r_gateway r);
            metric = (case route of None \<Rightarrow> 0 | Some r \<Rightarrow> r_metric r)
        in if isActive \<and> \<not> ipv4_isUnspecified nextHop then
             ebind (updateValidRouteLifeTime dest expiry s1) (\<lambda>(_, s2).
             ebind (updateValidRouteLifeTime nextHop expiry s2) (\<lambda>(_, s3). Inr (ACCEPT, s3)))
           else
             let s2 = delayDatagram p s1 in
             ebind (if hasOngoingRouteDiscovery dest s2 then Inr s2
                    else startRouteDiscovery dest
                           (if isInactive then of_int metric + ttlIncrement (ao_par s2) else 0) s2) (\<lambda>s3.
               Inr (QUEUE, s3)))"

lemma ensure_code [code]: "ensureRouteForDatagram p s =
  (let dest = destAddress (ipHeader p) in if needs_no_route dest s then Inr (ACCEPT, s) else found_datagram p (ao_findBestMatchingRoute dest s))"
proof (cases "ao_findBestMatchingRoute (destAddress (ipHeader p)) s")
  case (Inr x)
  obtain route s1 where x: "x = (route, s1)" by fastforce
  show ?thesis unfolding ensureRouteForDatagram_def Let_def Inr x ebind_simps prod.case found_datagram.simps ..
qed (simp add: ensureRouteForDatagram_def Let_def)

lemma mesh_discovery:
  "\<exists>s. efold aodv_step mesh_ops (new_Aodv (mesh_par 10) mesh_table) = Inr s \<and> hasOngoingRouteDiscovery 0x0A000002 s \<and>
     getSelfIPAddress s = 0x0A000001 \<and> expiries 0x0A000002 mesh_silence (Inr s) = 2"
proof -
  have "case efold aodv_step mesh_ops (new_Aodv (mesh_par 10) mesh_table) of Inl _ \<Rightarrow> False
    | Inr s \<Rightarrow> hasOngoingRouteDiscovery 0x0A000002 s \<and> getSelfIPAddress s = 0x0A000001 \<and> expiries 0x0A000002 mesh_silence (Inr s) = 2"
    by code_simp
  then show ?thesis by (auto split: sum.splits)
qed

lemma mesh_answer:
  "\<exists>s. efold aodv_step mesh_ops (new_Aodv (mesh_par 10) mesh_table) = Inr s \<and> hasOngoingRouteDiscovery 0x0A000002 s \<and>
     getSelfIPAddress s = 0x0A000001 \<and> map payload (delayed_for 0x0A000002 s) = [[7]] \<and>
     is_ok (aodv_step (ReceiveControl 0x0A000003 64 (RREP, RrepChunk mesh_reply)) s)"
proof -
  have "case efold aodv_step mesh_ops (new_Aodv (mesh_par 10) mesh_table) of Inl _ \<Rightarrow> False
    | Inr s \<Rightarrow> hasOngoingRouteDiscovery 0x0A000002 s \<and> getSelfIPAddress s = 0x0A000001 \<and> map payload (delayed_for 0x0A000002 s) = [[7]] \<and>
        is_ok (aodv_step (ReceiveControl 0x0A000003 64 (RREP, RrepChunk mesh_reply)) s)"
    by code_simp
  then show ?thesis by (auto split: sum.splits)
qed

lemma mesh_throttled:
  "\<exists>s w. efold aodv_step (mesh_ops @ [Elapse 320]) (new_Aodv (mesh_par 1) mesh_table) = Inr s \<and>
     waitForRREPTimers s 0x0A000002 = Some w \<and> wr_timer w = Some (ao_now s) \<and> addressToRreqRetries s 0x0A000002 = Some 0 \<and>
     rreqCount s \<ge> 1 \<and> is_ok (efold aodv_step [WaitExpires 0x0A000002, Elapse 1000, CallHook LOCALOUT mesh_datagram] s)"
proof -
  have "case efold aodv_step (mesh_ops @ [Elapse 320]) (new_Aodv (mesh_par 1) mesh_table) of Inl _ \<Rightarrow> False
    | Inr s \<Rightarrow> (case waitForRREPTimers s 0x0A000002 of None \<Rightarrow> False | Some w \<Rightarrow> wr_timer w = Some (ao_now s)) \<and>
        addressToRreqRetries s 0x0A000002 = Some 0 \<and> rreqCount s \<ge> 1 \<and>
        is_ok (efold aodv_step [WaitExpires 0x0A000002, Elapse 1000, CallHook LOCALOUT mesh_datagram] s)"
    by code_simp
  then show ?thesis by (auto split: sum.splits option.splits)
qed

definition first_copy :: aodv_op where
  "first_copy = ReceiveControl 0x0A000003 64 (RREQ, RreqChunk (mesh_rreq 1))"

definition second_copy :: aodv_op where
  "second_copy = ReceiveControl 0x0A000004 60 (RREQ, RreqChunk (mesh_rreq 7))"

lemma mesh_copies:
  "\<exists>s1 s2 s3. aodv_step first_copy (new_Aodv (mesh_par 10) mesh_table) = Inr s1 \<and> length (ao_events s1) = 1 \<and>
     aodv_step (Elapse 100) s1 = Inr s2 \<and> ao_now s2 = 100 \<and> aodv_step second_copy s2 = Inr s3"
proof -
  have "case aodv_step first_copy (new_Aodv (mesh_par 10) mesh_table) of Inl _ \<Rightarrow> False
    | Inr s1 \<Rightarrow> length (ao_events s1) = 1 \<and> (case aodv_step (Elapse 100) s1 of Inl _ \<Rightarrow> False
      | Inr s2 \<Rightarrow> ao_now s2 = 100 \<and> is_ok (aodv_step second_copy s2))"
    by code_simp
  then show ?thesis by (auto simp: is_ok_iff split: sum.splits)
qed

theorem route_discovery_bounded_witness:
  "\<exists>s. efold aodv_step mesh_ops (new_Aodv (mesh_par 10) mesh_table) = Inr s \<and> expiries 0x0A000002 mesh_silence (Inr s) = 2 \<and>
     expiries 0x0A000002 mesh_silence (Inr s) \<le> 11"
proof -
  obtain s where s: "efold aodv_step mesh_ops (new_Aodv (mesh_par 10) mesh_table) = Inr s" "expiries 0x0A000002 mesh_silence (Inr s) = 2"
    using mesh_discovery by blast
  have r: "reaches (mesh_par 10) mesh_table mesh_ops s" using s(1) mesh_run_op by (simp add: reaches_def)
  have "\<forall>op \<in> set mesh_silence. run_op op" by (simp add: mesh_silence_def run_op_def)
  from route_discovery_bounded [OF mesh_fresh mesh_par_ok r this, of "0x0A000002"] s show ?thesis
    by (auto simp: mesh_par_def)
qed

theorem reply_completes_discovery_witness:
  "\<exists>s s'. efold aodv_step mesh_ops (new_Aodv (mesh_par 10) mesh_table) = Inr s \<and> map payload (delayed_for 0x0A000002 s) = [[7]] \<and>
     aodv_step (ReceiveControl 0x0A000003 64 (RREP, RrepChunk mesh_reply)) s = Inr s' \<and> delayed_for 0x0A000002 s' = [] \<and>
     ao_events s' = ao_events s @ map ReinjectQueuedDatagram (delayed_for 0x0A000002 s) \<and>
     (\<exists>k. routed k 0x0A000002 0x0A000003 2 5 (ao_now s + 6000) s')"
proof -
  obtain s s' where s: "efold aodv_step mesh_ops (new_Aodv (mesh_par 10) mesh_table) = Inr s" "hasOngoingRouteDiscovery 0x0A000002 s"
      "getSelfIPAddress s = 0x0A000001" "map payload (delayed_for 0x0A000002 s) = [[7]]"
      "aodv_step (ReceiveControl 0x0A000003 64 (RREP, RrepChunk mesh_reply)) s = Inr s'"
    using mesh_answer unfolding is_ok_iff by (elim exE conjE) (rule that)
  have r: "reaches (mesh_par 10) mesh_table mesh_ops s" using s(1) mesh_run_op by (simp add: reaches_def)
  have m: "rp_originatorAddr mesh_reply = getSelfIPAddress s" "\<not> ipv4_isUnspecified (rp_originatorAddr mesh_reply)"
      "rp_destAddr mesh_reply = 0x0A000002" "rp_hopCount mesh_reply + 1 = 2" "rp_destSeqNum mesh_reply = 5" "rp_lifeTime mesh_reply = 6000"
    using s(3) by (simp_all add: mesh_reply_def ipv4_isUnspecified_def)
  have o: "hasOngoingRouteDiscovery (rp_destAddr mesh_reply) s" using s(2) m(3) by simp
  from reply_completes_discovery [OF mesh_fresh mesh_par_ok(1) r m(1,2) o s(5)] s(1,4,5) show ?thesis
    unfolding m by (elim conjE exE, intro exI conjI) assumption+
qed

theorem throttled_discovery_stalls_witness:
  "\<exists>s s'. efold aodv_step (mesh_ops @ [Elapse 320]) (new_Aodv (mesh_par 1) mesh_table) = Inr s \<and>
     efold aodv_step [WaitExpires 0x0A000002, Elapse 1000, CallHook LOCALOUT mesh_datagram] s = Inr s' \<and>
     hasOngoingRouteDiscovery 0x0A000002 s' \<and> \<not> expiry_due 0x0A000002 s'"
proof -
  obtain s w s' where s: "efold aodv_step (mesh_ops @ [Elapse 320]) (new_Aodv (mesh_par 1) mesh_table) = Inr s"
      "waitForRREPTimers s 0x0A000002 = Some w" "wr_timer w = Some (ao_now s)" "addressToRreqRetries s 0x0A000002 = Some 0"
      "rreqCount s \<ge> 1" "efold aodv_step [WaitExpires 0x0A000002, Elapse 1000, CallHook LOCALOUT mesh_datagram] s = Inr s'"
    using mesh_throttled unfolding is_ok_iff by (elim exE conjE) (rule that)
  have r: "reaches (mesh_par 1) mesh_table (mesh_ops @ [Elapse 320]) s"
    using s(1) mesh_run_op by (auto simp: reaches_def run_op_def)
  have p: "(0 :: u32) \<noteq> rreqRetries (mesh_par 1)" "rreqCount s \<ge> rreqRatelimit (mesh_par 1)"
    "\<forall>op \<in> set [Elapse 1000, CallHook LOCALOUT mesh_datagram]. run_op op \<and> keeps_state op \<and> no_reply_for 0x0A000002 op"
    using s(5) by (simp_all add: mesh_par_def run_op_def keeps_state_def no_reply_for_def)
  from throttled_discovery_stalls [OF mesh_fresh mesh_par_ok(1) r s(2-4) p(1,2) s(6) p(3)] s(1,6) show ?thesis
    by (elim conjE exE, intro exI conjI) assumption+
qed

theorem request_handled_once_witness:
  "\<exists>s1 s2 s3. aodv_step first_copy (new_Aodv (mesh_par 10) mesh_table) = Inr s1 \<and> length (ao_events s1) = 1 \<and>
     aodv_step (Elapse 100) s1 = Inr s2 \<and> aodv_step second_copy s2 = Inr s3 \<and> ao_events s3 = ao_events s2 \<and> delayedSends s3 = delayedSends s2"
proof -
  let ?s = "new_Aodv (mesh_par 10) mesh_table"
  obtain s1 s2 s3 where s: "aodv_step first_copy ?s = Inr s1" "length (ao_events s1) = 1" "aodv_step (Elapse 100) s1 = Inr s2"
      "ao_now s2 = 100" "aodv_step second_copy s2 = Inr s3"
    using mesh_copies by (elim exE conjE) (rule that)
  have r: "reaches (mesh_par 10) mesh_table [] ?s" by (simp add: reaches_def)
  have n: "ao_now ?s = 0"
  proof -
    have "case rt_initialize mesh_start of Inr t \<Rightarrow> rt_now t = 0 | Inl _ \<Rightarrow> False" by code_simp
    then show ?thesis by (simp add: ao_now_def new_Aodv_def mesh_table_def split: sum.splits)
  qed
  have e: "map_of (blacklist ?s) 0x0A000003 = None" "rreqsArrivalTime ?s (rq_originatorAddr (mesh_rreq 1), rq_rreqId (mesh_rreq 1)) = None"
    "efold aodv_step [Elapse 100] s1 = Inr s2" "\<forall>op \<in> set [Elapse 100]. run_op op \<and> keeps_state op"
    "ao_now s2 \<le> ao_now ?s + pathDiscoveryTime (mesh_par 10)" "rq_originatorAddr (mesh_rreq 7) = rq_originatorAddr (mesh_rreq 1)"
    "rq_rreqId (mesh_rreq 7) = rq_rreqId (mesh_rreq 1)"
    using s(3,4) n by (simp_all add: new_Aodv_def run_op_def keeps_state_def mesh_par_def mesh_rreq_def)
  from request_handled_once [OF mesh_fresh mesh_par_ok(1) r e(1,2) s(1) [unfolded first_copy_def] e(3-7) s(5) [unfolded second_copy_def]] s(1-3,5)
  show ?thesis by (elim conjE, intro exI conjI) assumption+
qed


end
