(* ===== verification/Spec2Isabelle.thy ===== *)
theory Spec2Isabelle
  imports MacAddr TcpRuns TcpAcks UdpProps Ipv4RoutesProps Ipv4Deadline Ipv4Forward AodvDiscovery
begin

text \<open>
  A verification library for the network protocol models of MeshPi-Tools: the INET framework under
  \<open>src/omnetpp/inetmanet-4.x-master/src/inet\<close>, a discrete-event simulation of protocol stacks in C++. The library models
  the path of a byte through a node: the TCP and UDP modules, the IPv4 network layer with its routing table, address
  resolution and fragmentation, the buffers and interfaces they share, and the AODV protocol that finds the routes of a mesh.

  \<^bold>\<open>How the code is modelled.\<close> An object is a record with the fields of its class, an enumeration a datatype with its
  enumerators, a method a definition of the same name that returns the new state; what a method sends to another module is
  appended to an outbox or a list of events of its state. A call that may throw, fail an assertion or follow a null
  pointer returns \<open>err + 'a\<close> (theory \<open>Prelude\<close>). Integers of a fixed width are words where the code can wrap around,
  lengths (\<open>B\<close>) and times (\<open>simtime_t\<close>, ticks of a picosecond) are integers. A pointer to an interface, route, socket or
  connection is its identifier. A \<open>std::map\<close> that is iterated over is an association list with ascending keys, any other a
  function. A loop over a container is a recursion or a fold over the list. A run of a module is a list of operations (commands,
  packets, expiring timers, signals, time that passes) folded over its state; theorems about runs quantify over all lists.

  \<^bold>\<open>The parts, from below.\<close>

  \<^item> Addresses: \<open>MacAddr\<close> (\<open>MacAddress.cc\<close>), \<open>Ipv4Addr\<close> (\<open>Ipv4Address.cc\<close>), \<open>L3Addr\<close> (\<open>L3Address.cc\<close>): bytes, netmasks,
    classification, order; parsing inverts printing.
  \<^item> Containers: \<open>ChunkBuffer\<close> (\<open>ChunkBuffer.cc\<close>, \<open>ReorderBuffer.cc\<close>, \<open>ReassemblyBuffer.h\<close>) refines a partial function from
    offsets to data; \<open>TcpSendQueue\<close> (with \<open>ChunkQueue.cc\<close>) and \<open>TcpReceiveQueue\<close> keep a byte stream; \<open>SackQueue\<close>
    (\<open>TcpSackRexmitQueue.cc\<close>) refines a scoreboard of two bits per byte; \<open>StdSearch\<close> is the binary search of the
    standard library, with the contract of a comparison as the locale \<open>strict_weak_order\<close>; the locale \<open>fifo\<close> is what the send
    queue asks of a chunk queue.
  \<^item> Interfaces: \<open>Ipv4Iface\<close> (\<open>Ipv4InterfaceData.cc\<close>) with the multicast source filters of RFC 3376, \<open>IfaceTable\<close>
    (\<open>NetworkInterface.cc\<close>, \<open>InterfaceTable.cc\<close>).
  \<^item> Network layer: \<open>Ipv4Routes\<close> (\<open>Ipv4RoutingTable.cc\<close>, \<open>Ipv4Route.cc\<close>) with its properties in \<open>Ipv4RoutesProps\<close>: the
    lookup through the cache is a longest prefix match. \<open>Ipv4Frag\<close> (\<open>Ipv4Header.msg\<close>, \<open>Ipv4FragBuf.cc\<close>, the loop of
    \<open>Ipv4::fragmentAndSend\<close>) and \<open>Ipv4FragProps\<close>: reassembly inverts fragmentation. \<open>Arp\<close> (\<open>Arp.cc\<close>) and \<open>ArpProps\<close>. \<open>Ipv4\<close>
    (\<open>Ipv4.cc\<close>) composes them: its state holds the routing table, the ARP module and the reassembly buffers, and the
    signals of ARP reach it in the order in which they are emitted.
  \<^item> Contracts of the network layer: the locale \<open>resolver\<close> (\<open>ArpProps\<close>) is what the datapath relies on in address
    resolution; \<open>delivery\<close> and \<open>datapath\<close> (\<open>Ipv4Datapath\<close>) are the interface between the handlers of packets and
    the single output \<open>sendDatagramToOutput\<close>: a property of the queues, the ARP module and the outputs that this function keeps
    is kept by every handler. It is interpreted for the invariant of the node (\<open>Ipv4Props\<close>: who waits is being resolved),
    for the deadline of a waiting datagram (\<open>Ipv4Deadline\<close>) and for what a host does not do (\<open>Ipv4Forward\<close>).
  \<^item> Mesh routing: \<open>Aodv\<close> (\<open>routing/aodv/Aodv.cc\<close>) models the discovery of routes, the handlers of requests, replies, errors and
    acknowledgments, the hooks that hold datagrams back and all timers, over the state of \<open>Ipv4Routes\<close>. \<open>AodvTable\<close> computes what the
    module's operations do to the routing table, \<open>AodvProps\<close> proves for every function that it keeps the invariant and which
    discoveries it may touch (\<open>quiet\<close>, \<open>touches\<close>), \<open>AodvForeign\<close> that the other users of the table do too, \<open>AodvRuns\<close>
    puts the steps together, and \<open>AodvDiscovery\<close> states what holds in all runs: no assertion fails, a discovery is bounded, a reply
    completes it, a copy of a request is discarded, and a discovery that meets the rate limit is stuck.
  \<^item> UDP: \<open>UdpMcast\<close> (memberships of a socket) and \<open>Udp\<close> (\<open>Udp.cc\<close>), properties in \<open>UdpProps\<close>.
  \<^item> A TCP connection: \<open>TcpSeq\<close> (sequence numbers), \<open>TcpTypes\<close> (the TCB, headers, events), \<open>TcpFsm\<close> (the transition table),
    \<open>TcpSack\<close> (\<open>TcpConnectionSackUtil.cc\<close>), \<open>TcpUtil\<close> and \<open>TcpSend\<close> (\<open>TcpConnectionUtil.cc\<close>), \<open>TcpRcv\<close> and \<open>TcpEstab\<close>
    (\<open>TcpConnectionRcvSegment.cc\<close>), \<open>TcpEvents\<close> (\<open>TcpConnectionBase.cc\<close>, \<open>TcpConnectionEventProc.cc\<close>). The congestion
    control is an abstract class in the code and a record of functions in the model; its contract is the locale
    \<open>keeps_control\<close> (\<open>TcpControl\<close>) and its extension \<open>congestion_control\<close> (\<open>TcpContract\<close>), which \<open>DumbTcp\<close>, \<open>TcpBaseAlg\<close> and
    the flavours of \<open>TcpFlavours\<close> (Tahoe, Reno, NewReno, none) meet.
  \<^item> The TCP module: \<open>TcpSockets\<close> (the tables) and \<open>Tcp\<close> (\<open>Tcp.cc\<close>). \<open>TcpRuns\<close> states what holds in all runs with every
    congestion control, \<open>TcpBackoff\<close> and \<open>TcpAcks\<close> what timers, windows and acknowledgments do, \<open>TcpRecovery\<close>, with the locale
    \<open>keeps_pipe\<close>, that loss recovery ends.

  \<^bold>\<open>Bounds and fuel.\<close> Three loops are bounded in the model. The loop of \<open>sendDataDuringLossRecoveryPhase\<close> has fuel; the
  theorem \<open>loss_recovery_ends\<close> shows that it is never used up, since \<open>pipe\<close>, a 32-bit number, grows in every round. The
  searches for an ephemeral port, of TCP and of UDP, run over the range of ports once, as the loops of the code do when they come back to
  their start. The result of using up fuel, \<open>OutOfFuel\<close>, is distinct from every error of the code.

  \<^bold>\<open>Parameters.\<close> What is not in the sources or draws on the simulation kernel is an argument of the definitions: the checksums
  over serialised headers, the branch a chunk takes when it is merged (\<open>canInsertAtBack\<close>), the product of a time and a
  floating-point constant in the round-trip estimation, the random initial numbers and jitter, the patterns over interface names, the netfilter hooks and
  the reaction of multicast routing to a new group. No theorem assumes more of them than its statement says.

  \<^bold>\<open>Not modelled.\<close> Display strings, logs, statistics signals and the parsing of module parameters; the representation of packets, since the
  modelled code sees a chunk only through its data; ICMP and IGMP, whose calls are recorded as events; IPv6; SCTP and the
  adapters for third-party stacks; the flavours of TCP that estimate rates in floating point; the link and physical layers, which are
  driven by random numbers and continuous signals; the wired routing protocols, the third-party routing protocols
  of the extras directory, the applications and the graphical parts.
\<close>

end
